(* ===== verification/Prelude.thy ===== *)
theory Prelude
  imports Main "HOL-Library.Word"
begin

text \<open>
  The shared base of the development: Python values and exceptions, the result type every
  modelled function returns, lists indexed as Python does, the checked fixed-width integers of
  \<^verbatim>\<open>chia/util/ints.py\<close> and the lemmas about them the other theories use.

  A modelled function that can fail returns a value of type \<open>'a res\<close>: \<open>Ok x\<close> (it returned
  \<open>x\<close>), \<open>Raise e\<close> (it raised the exception \<open>e\<close>) or \<open>Diverge\<close> (it does not return; only a loop
  over the block map can do so, and each such loop has a termination lemma).
\<close>

section \<open>Exceptions and results\<close>

datatype exn =
    AssertionError
  | ValueError
  | KeyError
  | IndexError
  | ZeroDivisionError
  | TypeError
  | AttributeError
  | NotImplementedError
  | UnboundLocalError
  | SetError
  | EvalError
  | IntegrityError

type_synonym 'a res = "(exn + 'a) option"

abbreviation Ok :: "'a \<Rightarrow> 'a res" where "Ok x \<equiv> Some (Inr x)"
abbreviation Raise :: "exn \<Rightarrow> 'a res" where "Raise e \<equiv> Some (Inl e)"
abbreviation Diverge :: "'a res" where "Diverge \<equiv> None"

named_theorems res_simps \<open>equations that run a computation in the result type\<close>
named_theorems res_intros \<open>rules that show a computation returns\<close>

text \<open>Sequencing: an exception or divergence of the first part skips the second.\<close>

definition rbind :: "'a res \<Rightarrow> ('a \<Rightarrow> 'b res) \<Rightarrow> 'b res" where
  "rbind m f = (case m of None \<Rightarrow> None | Some (Inl e) \<Rightarrow> Some (Inl e) | Some (Inr x) \<Rightarrow> f x)"

definition py_assert :: "bool \<Rightarrow> unit res" where
  "py_assert b = (if b then Ok () else Raise AssertionError)"

text \<open>Reading an \<open>Optional\<close> the code has not checked for \<open>None\<close>.\<close>

definition unwrap :: "exn \<Rightarrow> 'a option \<Rightarrow> 'a res" where
  "unwrap e x = (case x of None \<Rightarrow> Raise e | Some v \<Rightarrow> Ok v)"

lemma rbind_Ok [simp, res_simps]: "rbind (Ok x) f = f x"
  by (simp add: rbind_def)

lemma rbind_Raise [simp, res_simps]: "rbind (Raise e) f = Raise e"
  by (simp add: rbind_def)

lemma rbind_Diverge [simp, res_simps]: "rbind Diverge f = Diverge"
  by (simp add: rbind_def)

lemma res_cases [case_names Ok Raise Diverge]:
  assumes "\<And>x. m = Ok x \<Longrightarrow> P" and "\<And>e. m = Raise e \<Longrightarrow> P" and "m = Diverge \<Longrightarrow> P"
  shows P
  using assms by (metis not_None_eq sum.exhaust)

lemma rbind_eq_Ok: "rbind m f = Ok y \<longleftrightarrow> (\<exists>x. m = Ok x \<and> f x = Ok y)"
  by (cases m rule: res_cases) auto

lemma rbind_eq_Raise: "rbind m f = Raise e \<longleftrightarrow> m = Raise e \<or> (\<exists>x. m = Ok x \<and> f x = Raise e)"
  by (cases m rule: res_cases) auto

lemma rbind_eq_Diverge: "rbind m f = Diverge \<longleftrightarrow> m = Diverge \<or> (\<exists>x. m = Ok x \<and> f x = Diverge)"
  by (cases m rule: res_cases) auto

lemma rbind_assoc: "rbind (rbind m f) g = rbind m (\<lambda>x. rbind (f x) g)"
  by (cases m rule: res_cases) auto

lemma rbind_Ok_right [simp]: "rbind m Ok = m"
  by (cases m rule: res_cases) auto

lemma rbind_OkE [elim!]:
  assumes "rbind m f = Ok y"
  obtains x where "m = Ok x" and "f x = Ok y"
  using assms by (auto simp: rbind_eq_Ok)

lemma rbind_cong [fundef_cong]:
  "m = m' \<Longrightarrow> (\<And>x. m' = Ok x \<Longrightarrow> f x = g x) \<Longrightarrow> rbind m f = rbind m' g"
  by (cases m' rule: res_cases) auto

lemma py_assert_eq_Ok [simp]: "py_assert b = Ok u \<longleftrightarrow> b"
  by (simp add: py_assert_def)

lemma py_assert_I [simp, res_intros]: "b \<Longrightarrow> py_assert b = Ok ()"
  by (simp add: py_assert_def)

lemma py_assert_True [simp, res_simps]: "py_assert True = Ok ()"
  by (simp add: py_assert_def)

lemma py_assert_False [simp, res_simps]: "py_assert False = Raise AssertionError"
  by (simp add: py_assert_def)

lemma py_assert_not_Diverge [simp]: "py_assert b \<noteq> Diverge"
  by (simp add: py_assert_def)

lemma unwrap_eq_Ok [simp]: "unwrap e x = Ok v \<longleftrightarrow> x = Some v"
  by (cases x) (auto simp: unwrap_def)

lemma unwrap_Some [simp, res_simps]: "unwrap e (Some v) = Ok v"
  by (simp add: unwrap_def)

lemma unwrap_None [simp, res_simps]: "unwrap e None = Raise e"
  by (simp add: unwrap_def)

lemma unwrap_not_Diverge [simp]: "unwrap e x \<noteq> Diverge"
  by (cases x) (auto simp: unwrap_def)

text \<open>A loop body under \<^theory_text>\<open>partial_function (option)\<close> may sit under \<open>rbind\<close>.\<close>

lemma rbind_mono [partial_function_mono]:
  fixes m :: "('x \<Rightarrow> 'y option) \<Rightarrow> 'a res"
  assumes m: "monotone (fun_ord option_ord) option_ord m"
    and g: "\<And>y. monotone (fun_ord option_ord) option_ord (\<lambda>f. g y f)"
  shows "monotone (fun_ord option_ord) option_ord (\<lambda>f. rbind (m f) (\<lambda>y. g y f))"
proof (rule monotoneI)
  fix f h :: "'x \<Rightarrow> 'y option"
  assume le: "fun_ord option_ord f h"
  have mle: "option_ord (m f) (m h)" using m le by (auto simp: monotone_on_def)
  have gle: "option_ord (g y f) (g y h)" for y using g le by (auto simp: monotone_on_def)
  show "option_ord (rbind (m f) (\<lambda>y. g y f)) (rbind (m h) (\<lambda>y. g y h))"
  proof (cases "m f" rule: res_cases)
    case (Ok x)
    with mle have "m h = Ok x" by (auto simp: flat_ord_def)
    with Ok gle show ?thesis by simp
  next
    case (Raise e)
    with mle have "m h = Raise e" by (auto simp: flat_ord_def)
    with Raise show ?thesis by (simp add: flat_ord_def)
  next
    case Diverge
    then show ?thesis by (simp add: flat_ord_def)
  qed
qed

section \<open>For loops\<close>

text \<open>A \<^verbatim>\<open>for\<close> loop over a list whose body updates a state and may raise.\<close>

fun rfold :: "('a \<Rightarrow> 's \<Rightarrow> 's res) \<Rightarrow> 'a list \<Rightarrow> 's \<Rightarrow> 's res" where
  "rfold f [] s = Ok s"
| "rfold f (x # xs) s = rbind (f x s) (rfold f xs)"

fun rmap :: "('a \<Rightarrow> 'b res) \<Rightarrow> 'a list \<Rightarrow> 'b list res" where
  "rmap f [] = Ok []"
| "rmap f (x # xs) = rbind (f x) (\<lambda>y. rbind (rmap f xs) (\<lambda>ys. Ok (y # ys)))"

lemma rfold_append: "rfold f (xs @ ys) s = rbind (rfold f xs s) (rfold f ys)"
  by (induction xs arbitrary: s) (simp_all add: rbind_assoc cong: rbind_cong)

lemma rfold_invariant:
  assumes "rfold f xs s = Ok t" and "P s"
    and "\<And>x u v. x \<in> set xs \<Longrightarrow> P u \<Longrightarrow> f x u = Ok v \<Longrightarrow> P v"
  shows "P t"
  using assms by (induction xs arbitrary: s) auto

lemma rmap_append: "rmap f (xs @ ys) = rbind (rmap f xs) (\<lambda>us. rbind (rmap f ys) (\<lambda>vs. Ok (us @ vs)))"
  by (induction xs) (simp_all add: rbind_assoc cong: rbind_cong)

lemma rmap_length: "rmap f xs = Ok ys \<Longrightarrow> length ys = length xs"
  by (induction xs arbitrary: ys) auto

lemma rmap_nth: "rmap f xs = Ok ys \<Longrightarrow> i < length xs \<Longrightarrow> f (xs ! i) = Ok (ys ! i)"
  by (induction xs arbitrary: ys i) (auto simp: nth_Cons split: nat.splits)

lemma rmap_Ok: "(\<And>x. x \<in> set xs \<Longrightarrow> f x = Ok (g x)) \<Longrightarrow> rmap f xs = Ok (map g xs)"
  by (induction xs) auto

section \<open>Python lists\<close>

definition py_nth :: "'a list \<Rightarrow> int \<Rightarrow> 'a res" where
  "py_nth xs i =
     (let n = int (length xs); j = (if i < 0 then n + i else i)
      in if 0 \<le> j \<and> j < n then Ok (xs ! nat j) else Raise IndexError)"

abbreviation py_last :: "'a list \<Rightarrow> 'a res" where
  "py_last xs \<equiv> py_nth xs (- 1)"

lemma py_last_eq: "py_last xs = (if xs = [] then Raise IndexError else Ok (last xs))"
  by (auto simp: py_nth_def Let_def last_conv_nth nat_diff_distrib nat_minus_as_int)

lemma py_nth_nat: "py_nth xs (int i) = (if i < length xs then Ok (xs ! i) else Raise IndexError)"
  by (simp add: py_nth_def)

lemma py_nth_not_Diverge [simp]: "py_nth xs i \<noteq> Diverge"
  by (simp add: py_nth_def Let_def)

section \<open>Bytes\<close>

type_synonym byte = "8 word"
type_synonym bytes = "byte list"

text \<open>Big-endian bytes of a natural number (\<^verbatim>\<open>int.to_bytes(n, "big")\<close>) and back.\<close>

fun be_bytes :: "nat \<Rightarrow> nat \<Rightarrow> bytes" where
  "be_bytes 0 v = []"
| "be_bytes (Suc n) v = be_bytes n (v div 256) @ [word_of_nat v]"

definition be_nat :: "bytes \<Rightarrow> nat" where
  "be_nat bs = foldl (\<lambda>a b. 256 * a + unat b) 0 bs"

lemma length_be_bytes [simp]: "length (be_bytes n v) = n"
  by (induction n arbitrary: v) auto

lemma be_nat_snoc: "be_nat (bs @ [b]) = 256 * be_nat bs + unat b"
  by (simp add: be_nat_def)

lemma be_nat_Nil [simp]: "be_nat [] = 0"
  by (simp add: be_nat_def)

lemma unat_byte: "unat (word_of_nat v :: byte) = v mod 256"
  by (simp add: unat_of_nat)

lemma unat_byte_less [simp]: "unat (b :: byte) < 256"
  using unsigned_less [of b] by simp

lemma be_nat_be_bytes: "v < 256 ^ n \<Longrightarrow> be_nat (be_bytes n v) = v"
proof (induction n arbitrary: v)
  case 0
  then show ?case by simp
next
  case (Suc n)
  have "v div 256 < 256 ^ n" using Suc.prems by (simp add: less_mult_imp_div_less mult.commute)
  then show ?case by (simp add: be_nat_snoc Suc.IH unat_byte)
qed

lemma be_nat_less: "be_nat bs < 256 ^ length bs"
proof (induction bs rule: rev_induct)
  case Nil
  then show ?case by simp
next
  case (snoc b bs)
  have "256 * be_nat bs + unat b < 256 * (be_nat bs + 1)" by simp
  also have "\<dots> \<le> 256 * 256 ^ length bs" using snoc.IH by simp
  finally show ?case by (simp add: be_nat_snoc)
qed

lemma be_bytes_be_nat: "be_bytes (length bs) (be_nat bs) = bs"
proof (induction bs rule: rev_induct)
  case Nil
  then show ?case by simp
next
  case (snoc b bs)
  have "(256 * be_nat bs + unat b) div 256 = be_nat bs" by simp
  moreover have "(word_of_nat (256 * be_nat bs + unat b) :: byte) = b"
  proof -
    have "unat (word_of_nat (256 * be_nat bs + unat b) :: byte) = unat b"
      by (simp only: unat_byte) simp
    then show ?thesis by (rule word_unat_eq_iff [THEN iffD2])
  qed
  ultimately show ?case using snoc.IH by (simp add: be_nat_snoc)
qed

text \<open>A list of 32 (or another number of) bytes: the \<^verbatim>\<open>bytes32\<close> constructor checks the length.\<close>

definition sized_bytes :: "nat \<Rightarrow> bytes \<Rightarrow> bytes res" where
  "sized_bytes n b = (if length b = n then Ok b else Raise ValueError)"

lemma sized_bytes_I [simp, res_intros]: "length b = n \<Longrightarrow> sized_bytes n b = Ok b"
  by (simp add: sized_bytes_def)

lemma sized_bytes_eq_Ok [simp]: "sized_bytes n b = Ok c \<longleftrightarrow> length b = n \<and> c = b"
  by (auto simp: sized_bytes_def)

section \<open>Fixed-width integers\<close>

text \<open>
  Python integers are unbounded; \<^verbatim>\<open>uint64(v)\<close> and its kin raise \<^verbatim>\<open>ValueError\<close> when \<open>v\<close> does not
  fit, and otherwise return the value itself. Arithmetic on two \<^verbatim>\<open>uint64\<close> gives an unbounded
  integer again, so every bound the code relies on is a call of one of these constructors.
\<close>

definition uintN :: "nat \<Rightarrow> int \<Rightarrow> int res" where
  "uintN w v = (if 0 \<le> v \<and> v < 2 ^ w then Ok v else Raise ValueError)"

abbreviation uint8 :: "int \<Rightarrow> int res" where "uint8 \<equiv> uintN 8"
abbreviation uint16 :: "int \<Rightarrow> int res" where "uint16 \<equiv> uintN 16"
abbreviation uint32 :: "int \<Rightarrow> int res" where "uint32 \<equiv> uintN 32"
abbreviation uint64 :: "int \<Rightarrow> int res" where "uint64 \<equiv> uintN 64"

text \<open>\<^verbatim>\<open>uint128\<close> has its own constructor in the source, with the bounds spelled out.\<close>

definition uint128 :: "int \<Rightarrow> int res" where
  "uint128 v = (if v > 2 ^ 128 - 1 \<or> v < 0 then Raise ValueError else Ok v)"

definition int512 :: "int \<Rightarrow> int res" where
  "int512 v = (if v \<ge> 2 ^ 512 \<or> v \<le> - (2 ^ 512) then Raise ValueError else Ok v)"

lemma uintN_eq_Ok [simp]: "uintN w v = Ok r \<longleftrightarrow> r = v \<and> 0 \<le> v \<and> v < 2 ^ w"
  by (auto simp: uintN_def)

lemma uintN_I [simp, res_intros]: "0 \<le> v \<Longrightarrow> v < 2 ^ w \<Longrightarrow> uintN w v = Ok v"
  by simp

lemma uintN_not_Diverge [simp]: "uintN w v \<noteq> Diverge"
  by (simp add: uintN_def)

lemma uint128_eq_uintN: "uint128 = uintN 128"
  by (auto simp: uint128_def uintN_def fun_eq_iff)

lemma uint128_eq_Ok [simp]: "uint128 v = Ok r \<longleftrightarrow> r = v \<and> 0 \<le> v \<and> v < 2 ^ 128"
  by (simp add: uint128_eq_uintN)

lemma uint128_I [simp, res_intros]: "0 \<le> v \<Longrightarrow> v < 2 ^ 128 \<Longrightarrow> uint128 v = Ok v"
  by simp

lemma uint128_not_Diverge [simp]: "uint128 v \<noteq> Diverge"
  by (simp add: uint128_def)

text \<open>Floor division as Python has it: a zero divisor raises.\<close>

definition py_floordiv :: "int \<Rightarrow> int \<Rightarrow> int res" where
  "py_floordiv a b = (if b = 0 then Raise ZeroDivisionError else Ok (a div b))"

definition py_mod :: "int \<Rightarrow> int \<Rightarrow> int res" where
  "py_mod a b = (if b = 0 then Raise ZeroDivisionError else Ok (a mod b))"

lemma py_floordiv_eq_Ok [simp]: "py_floordiv a b = Ok q \<longleftrightarrow> b \<noteq> 0 \<and> q = a div b"
  by (auto simp: py_floordiv_def)

lemma py_mod_eq_Ok [simp]: "py_mod a b = Ok q \<longleftrightarrow> b \<noteq> 0 \<and> q = a mod b"
  by (auto simp: py_mod_def)

lemma py_floordiv_I [simp, res_intros]: "b \<noteq> 0 \<Longrightarrow> py_floordiv a b = Ok (a div b)"
  by simp

lemma py_mod_I [simp, res_intros]: "b \<noteq> 0 \<Longrightarrow> py_mod a b = Ok (a mod b)"
  by simp

lemma py_floordiv_not_Diverge [simp]: "py_floordiv a b \<noteq> Diverge"
  by (simp add: py_floordiv_def)

lemma py_mod_not_Diverge [simp]: "py_mod a b \<noteq> Diverge"
  by (simp add: py_mod_def)


section \<open>Computations that return\<close>

text \<open>\<open>returns m\<close>: the computation ends, with a value or an exception. The rules of \<open>returns_rules\<close>
  follow the structure of a definition, so that \<^theory_text>\<open>auto intro!: returns_rules\<close> proves a whole handler.\<close>

definition returns :: "'a res \<Rightarrow> bool" where
  "returns m \<longleftrightarrow> m \<noteq> Diverge"

named_theorems returns_rules \<open>rules that prove a computation returns\<close>

lemma returnsI: "m \<noteq> Diverge \<Longrightarrow> returns m"
  by (simp add: returns_def)

lemma returnsD: "returns m \<Longrightarrow> m \<noteq> Diverge"
  by (simp add: returns_def)

lemma returns_Some [returns_rules]: "returns (Some x)"
  by (simp add: returns_def)

lemma returns_rbind [returns_rules]:
  "returns m \<Longrightarrow> (\<And>x. m = Ok x \<Longrightarrow> returns (f x)) \<Longrightarrow> returns (rbind m f)"
  by (cases m rule: res_cases) (auto simp: returns_def)

lemma returns_If [returns_rules]:
  "(b \<Longrightarrow> returns x) \<Longrightarrow> (\<not> b \<Longrightarrow> returns y) \<Longrightarrow> returns (if b then x else y)"
  by simp

lemma returns_case_option [returns_rules]:
  "(x = None \<Longrightarrow> returns a) \<Longrightarrow> (\<And>y. x = Some y \<Longrightarrow> returns (f y)) \<Longrightarrow>
   returns (case x of None \<Rightarrow> a | Some y \<Rightarrow> f y)"
  by (cases x) auto

lemma returns_case_prod [returns_rules]:
  "(\<And>a b. x = (a, b) \<Longrightarrow> returns (f a b)) \<Longrightarrow> returns (case x of (a, b) \<Rightarrow> f a b)"
  by (cases x) auto

lemma returns_Let [returns_rules]: "(\<And>x. x = e \<Longrightarrow> returns (f x)) \<Longrightarrow> returns (let x = e in f x)"
  by simp

lemma returns_rfold [returns_rules]: "(\<And>x s. x \<in> set xs \<Longrightarrow> returns (f x s)) \<Longrightarrow> returns (rfold f xs s)"
  by (induction xs arbitrary: s) (auto intro!: returns_rules)

lemma returns_rmap [returns_rules]: "(\<And>x. x \<in> set xs \<Longrightarrow> returns (f x)) \<Longrightarrow> returns (rmap f xs)"
  by (induction xs) (auto intro!: returns_rules)

lemmas returns_base [returns_rules] =
  py_assert_not_Diverge [THEN returnsI] unwrap_not_Diverge [THEN returnsI]
  py_nth_not_Diverge [THEN returnsI] uintN_not_Diverge [THEN returnsI]
  uint128_not_Diverge [THEN returnsI] py_floordiv_not_Diverge [THEN returnsI]
  py_mod_not_Diverge [THEN returnsI]

lemma returns_sized_bytes [returns_rules]: "returns (sized_bytes n b)"
  by (simp add: returns_def sized_bytes_def)


section \<open>Simulation\<close>

text \<open>Two computations with the same outcome up to a relation on their values: the shape of every
  refinement lemma. The rules of \<open>sim_rules\<close> follow the structure of the two definitions.\<close>

definition sim :: "('a \<Rightarrow> 'b \<Rightarrow> bool) \<Rightarrow> 'a res \<Rightarrow> 'b res \<Rightarrow> bool" where
  "sim R = rel_option (rel_sum (=) R)"

named_theorems sim_rules \<open>rules that relate two computations\<close>

lemma sim_Ok [sim_rules]: "R x y \<Longrightarrow> sim R (Ok x) (Ok y)"
  by (simp add: sim_def)

lemma sim_Raise [sim_rules]: "sim R (Raise e) (Raise e)"
  by (simp add: sim_def)

lemma sim_OkD: "sim R (Ok x) a \<Longrightarrow> \<exists>y. a = Ok y \<and> R x y"
  by (cases a rule: res_cases) (auto simp: sim_def)

lemma sim_spec_OkD: "sim R m (Ok y) \<Longrightarrow> \<exists>x. m = Ok x \<and> R x y"
  by (cases m rule: res_cases) (auto simp: sim_def)

lemma sim_rbind [sim_rules]:
  assumes "sim R m a" and "\<And>x y. R x y \<Longrightarrow> sim S (f x) (g y)"
  shows "sim S (rbind m f) (rbind a g)"
  using assms by (cases m rule: res_cases; cases a rule: res_cases) (auto simp: sim_def)

lemma sim_same:
  assumes "\<And>x. m = Ok x \<Longrightarrow> sim S (f x) (g x)"
  shows "sim S (rbind m f) (rbind m g)"
  using assms by (cases m rule: res_cases) (auto simp: sim_def)

lemma sim_If [sim_rules]:
  "(b \<Longrightarrow> sim R x x') \<Longrightarrow> (\<not> b \<Longrightarrow> sim R y y') \<Longrightarrow> sim R (if b then x else y) (if b then x' else y')"
  by simp

lemma sim_rfold [sim_rules]:
  assumes "R s t" and "\<And>x s t. x \<in> set xs \<Longrightarrow> R s t \<Longrightarrow> sim R (f x s) (g x t)"
  shows "sim R (rfold f xs s) (rfold g xs t)"
  using assms
proof (induction xs arbitrary: s t)
  case (Cons x xs)
  then show ?case unfolding rfold.simps by (intro sim_rbind [of R]) auto
qed (simp add: sim_Ok)


section \<open>Postconditions\<close>

text \<open>\<open>ensures P m\<close>: if the computation returns a value, the value satisfies \<open>P\<close>. The rules of
  \<open>ensures_rules\<close> follow the structure of a definition, as those of \<open>returns_rules\<close> do.\<close>

definition ensures :: "('a \<Rightarrow> bool) \<Rightarrow> 'a res \<Rightarrow> bool" where
  "ensures P m \<longleftrightarrow> (\<forall>x. m = Ok x \<longrightarrow> P x)"

named_theorems ensures_rules \<open>rules that prove a postcondition\<close>

lemma ensuresD: "ensures P m \<Longrightarrow> m = Ok x \<Longrightarrow> P x"
  by (simp add: ensures_def)

lemma ensuresI: "(\<And>x. m = Ok x \<Longrightarrow> P x) \<Longrightarrow> ensures P m"
  by (simp add: ensures_def)

lemma ensures_Ok [ensures_rules]: "P x \<Longrightarrow> ensures P (Ok x)"
  by (simp add: ensures_def)

lemma ensures_Raise [ensures_rules]: "ensures P (Raise e)"
  by (simp add: ensures_def)

lemma ensures_Diverge [ensures_rules]: "ensures P Diverge"
  by (simp add: ensures_def)

lemma ensures_rbind [ensures_rules]:
  "(\<And>x. m = Ok x \<Longrightarrow> ensures P (f x)) \<Longrightarrow> ensures P (rbind m f)"
  by (cases m rule: res_cases) (auto simp: ensures_def)

lemma ensures_If [ensures_rules]:
  "(b \<Longrightarrow> ensures P x) \<Longrightarrow> (\<not> b \<Longrightarrow> ensures P y) \<Longrightarrow> ensures P (if b then x else y)"
  by simp

lemma ensures_case_option [ensures_rules]:
  "(x = None \<Longrightarrow> ensures P a) \<Longrightarrow> (\<And>y. x = Some y \<Longrightarrow> ensures P (f y)) \<Longrightarrow>
   ensures P (case x of None \<Rightarrow> a | Some y \<Rightarrow> f y)"
  by (cases x) auto

lemma ensures_case_sum [ensures_rules]:
  "(\<And>y. x = Inl y \<Longrightarrow> ensures P (f y)) \<Longrightarrow> (\<And>y. x = Inr y \<Longrightarrow> ensures P (g y)) \<Longrightarrow>
   ensures P (case x of Inl y \<Rightarrow> f y | Inr y \<Rightarrow> g y)"
  by (cases x) auto

lemma ensures_case_prod [ensures_rules]:
  "(\<And>a b. x = (a, b) \<Longrightarrow> ensures P (f a b)) \<Longrightarrow> ensures P (case x of (a, b) \<Rightarrow> f a b)"
  by (cases x) auto

lemma ensures_case_list [ensures_rules]:
  "(xs = [] \<Longrightarrow> ensures P a) \<Longrightarrow> (\<And>y ys. xs = y # ys \<Longrightarrow> ensures P (f y ys)) \<Longrightarrow>
   ensures P (case xs of [] \<Rightarrow> a | y # ys \<Rightarrow> f y ys)"
  by (cases xs) auto

lemma ensures_Let [ensures_rules]: "(\<And>x. x = e \<Longrightarrow> ensures P (f x)) \<Longrightarrow> ensures P (let x = e in f x)"
  by simp

lemma ensures_rfold:
  "P s \<Longrightarrow> (\<And>x s. x \<in> set xs \<Longrightarrow> P s \<Longrightarrow> ensures P (f x s)) \<Longrightarrow> ensures P (rfold f xs s)"
  by (auto simp: ensures_def elim: rfold_invariant)

end
