(* ===== verification/Significant_Bits.thy ===== *)
theory Significant_Bits
  imports Prelude
begin

text \<open>
  \<^verbatim>\<open>chia/util/significant_bits.py\<close>: truncation of a number to its top bits, and the count of
  significant bits, as the difficulty adjustment uses them. Shown here: the truncation is the
  largest multiple of a power of two below the number, it loses less than that power, it always
  passes the count check, and it does not keep the sign of a short negative number although its
  comment says so.
\<close>

unbundle bit_operations_syntax

section \<open>Definitions\<close>

fun nat_bit_length :: "nat \<Rightarrow> nat" where
  "nat_bit_length n = (if n = 0 then 0 else Suc (nat_bit_length (n div 2)))"

declare nat_bit_length.simps [simp del]

definition bit_length :: "int \<Rightarrow> nat" where
  "bit_length x = nat_bit_length (nat \<bar>x\<bar>)"

definition truncate_to_significant_bits :: "int \<Rightarrow> int \<Rightarrow> int" where
  "truncate_to_significant_bits input_x num_significant_bits =
     (let x = \<bar>input_x\<bar> in
      if num_significant_bits > int (bit_length x) then x
      else let lower = nat (int (bit_length x) - num_significant_bits);
               msk = (2 ^ bit_length x - 1) - (2 ^ lower - 1)
           in if input_x < 0 then - (x AND msk) else x AND msk)"

fun count_loop :: "int \<Rightarrow> nat \<Rightarrow> nat list \<Rightarrow> int" where
  "count_loop x bl [] = 0"
| "count_loop x bl (i # is) =
     (if x AND 2 ^ i > 0 then int bl - int i else count_loop x bl is)"

definition count_significant_bits :: "int \<Rightarrow> int" where
  "count_significant_bits input_x = count_loop input_x (bit_length input_x) [0..<bit_length input_x]"

section \<open>The bit length\<close>

lemma nat_bit_length_0 [simp]: "nat_bit_length 0 = 0"
  by (simp add: nat_bit_length.simps)

lemma nat_bit_length_bounds:
  "n > 0 \<Longrightarrow> 2 ^ (nat_bit_length n - 1) \<le> n \<and> n < 2 ^ nat_bit_length n"
proof (induction n rule: nat_bit_length.induct)
  case (1 n)
  show ?case
  proof (cases "n = 1")
    case True
    then show ?thesis by (simp add: nat_bit_length.simps)
  next
    case False
    with 1 have pos: "0 < n div 2" and n: "n \<noteq> 0" by simp_all
    let ?k = "nat_bit_length (n div 2)"
    have k: "0 < ?k" using pos by (simp add: nat_bit_length.simps [of "n div 2"])
    from "1.IH" n pos have b: "2 ^ (?k - 1) \<le> n div 2" "n div 2 < 2 ^ ?k" by simp_all
    have "nat_bit_length n = Suc ?k" using n by (simp add: nat_bit_length.simps [of n])
    moreover have "(2::nat) ^ ?k = 2 * 2 ^ (?k - 1)" using k by (cases ?k) simp_all
    moreover have "2 * p \<le> n \<and> n < 4 * p" if "p \<le> n div 2" "n div 2 < 2 * p" for p
      using that by arith
    ultimately show ?thesis using b by simp
  qed
qed

lemma bit_length_upper: "0 \<le> x \<Longrightarrow> x < 2 ^ bit_length x"
proof (cases "x = 0")
  case False
  assume "0 \<le> x"
  with False have "nat x < 2 ^ nat_bit_length (nat x)" using nat_bit_length_bounds [of "nat x"] by simp
  then have "int (nat x) < int (2 ^ nat_bit_length (nat x))" by (rule of_nat_less_iff [THEN iffD2])
  with \<open>0 \<le> x\<close> show ?thesis by (simp add: bit_length_def)
qed (simp add: bit_length_def)

lemma bit_length_lower: "0 < x \<Longrightarrow> 2 ^ (bit_length x - 1) \<le> x"
proof -
  assume "0 < x"
  then have "2 ^ (nat_bit_length (nat x) - 1) \<le> nat x" using nat_bit_length_bounds [of "nat x"] by simp
  then have "int (2 ^ (nat_bit_length (nat x) - 1)) \<le> int (nat x)" by (rule of_nat_mono)
  with \<open>0 < x\<close> show ?thesis by (simp add: bit_length_def)
qed

lemma bit_length_pos: "0 < x \<Longrightarrow> 0 < bit_length x"
  by (simp add: bit_length_def nat_bit_length.simps [of "nat x"])

lemma bit_length_0 [simp]: "bit_length 0 = 0"
  by (simp add: bit_length_def)

lemma bit_length_unique:
  assumes "2 ^ k \<le> x" and "x < 2 ^ Suc k"
  shows "bit_length x = Suc k"
proof -
  have pos: "0 < x" using assms(1) less_le_trans [of 0 "2 ^ k" x] by simp
  have "(2::int) ^ k < 2 ^ bit_length x"
    using assms(1) bit_length_upper [of x] pos by linarith
  then have "k < bit_length x" by simp
  moreover have "(2::int) ^ (bit_length x - 1) < 2 ^ Suc k"
    using assms(2) bit_length_lower [OF pos] by linarith
  then have "bit_length x - 1 < Suc k" by (rule power_less_imp_less_exp [rotated]) simp
  ultimately show ?thesis by linarith
qed

section \<open>Truncation is a floor to a power of two\<close>

lemma and_mask_floor:
  fixes x :: int
  assumes "0 \<le> x" and "x < 2 ^ b" and "l \<le> b"
  shows "x AND (2 ^ b - 2 ^ l) = x - x mod 2 ^ l"
proof -
  have m: "(2::int) ^ b - 2 ^ l = push_bit l (mask (b - l))"
    using assms(3) by (simp add: push_bit_eq_mult mask_eq_exp_minus_1 algebra_simps flip: power_add)
  have "x - x mod 2 ^ l = push_bit l (drop_bit l x)"
    by (simp add: push_bit_eq_mult drop_bit_eq_div minus_mod_eq_div_mult)
  moreover have "x AND push_bit l (mask (b - l)) = push_bit l (drop_bit l x)"
  proof (rule bit_eqI)
    fix i
    have "bit x i \<Longrightarrow> i < b"
    proof (rule ccontr)
      assume "bit x i" and "\<not> i < b"
      then have "x < 2 ^ i" using assms(2) power_increasing [of b i "2::int"] by (simp add: order_less_le_trans)
      with assms(1) \<open>bit x i\<close> show False by (simp add: bit_iff_odd)
    qed
    then show "bit (x AND push_bit l (mask (b - l))) i = bit (push_bit l (drop_bit l x)) i"
      by (auto simp: bit_and_iff bit_push_bit_iff bit_mask_iff bit_drop_bit_eq)
  qed
  ultimately show ?thesis by (simp add: m)
qed

lemma truncate_floor:
  assumes "0 \<le> x" and "0 \<le> n"
  shows "truncate_to_significant_bits x n =
           (if n > int (bit_length x) then x else x - x mod 2 ^ (bit_length x - nat n))"
proof (cases "n > int (bit_length x)")
  case False
  have "nat (int (bit_length x) - n) = bit_length x - nat n" using assms by (simp add: nat_diff_distrib)
  moreover have "((2::int) ^ bit_length x - 1) - (2 ^ (bit_length x - nat n) - 1)
      = 2 ^ bit_length x - 2 ^ (bit_length x - nat n)" by simp
  ultimately show ?thesis
    using False assms and_mask_floor [OF assms(1) bit_length_upper [OF assms(1)], of "bit_length x - nat n"]
    by (simp add: truncate_to_significant_bits_def Let_def)
qed (use assms in \<open>simp add: truncate_to_significant_bits_def Let_def\<close>)

lemma truncate_le: "0 \<le> x \<Longrightarrow> 0 \<le> n \<Longrightarrow> truncate_to_significant_bits x n \<le> x"
  by (simp add: truncate_floor)

lemma truncate_nonneg: "0 \<le> x \<Longrightarrow> 0 \<le> n \<Longrightarrow> 0 \<le> truncate_to_significant_bits x n"
  by (simp add: truncate_floor zmod_le_nonneg_dividend)

lemma truncate_top_bit:
  assumes "0 < x" and "1 \<le> n"
  shows "2 ^ (bit_length x - 1) \<le> truncate_to_significant_bits x n"
proof (cases "n > int (bit_length x)")
  case True
  then show ?thesis using assms bit_length_lower [OF assms(1)] by (simp add: truncate_floor)
next
  case False
  let ?l = "bit_length x - nat n" and ?t = "bit_length x - 1"
  have l: "?l \<le> ?t" using assms(2) by linarith
  then have d: "(2::int) ^ ?l dvd 2 ^ ?t" by (rule le_imp_power_dvd)
  have "2 ^ ?t div 2 ^ ?l * 2 ^ ?l \<le> x div 2 ^ ?l * 2 ^ ?l"
    using bit_length_lower [OF assms(1)] by (intro mult_right_mono zdiv_mono1) simp_all
  with d have "2 ^ ?t \<le> x div 2 ^ ?l * 2 ^ ?l" by simp
  then show ?thesis using False assms by (simp add: truncate_floor minus_mod_eq_div_mult)
qed

lemma bit_length_truncate:
  assumes "0 < x" and "1 \<le> n"
  shows "bit_length (truncate_to_significant_bits x n) = bit_length x"
proof -
  have "truncate_to_significant_bits x n < 2 ^ Suc (bit_length x - 1)"
    using truncate_le [of x n] bit_length_upper [of x] bit_length_pos [of x] assms by simp
  then show ?thesis
    using bit_length_unique [OF truncate_top_bit [OF assms]] bit_length_pos [OF assms(1)] by simp
qed

section \<open>The count of significant bits\<close>

lemma and_exp_pos_iff: "(x::int) AND 2 ^ i > 0 \<longleftrightarrow> bit x i"
  by (metis and_exp_eq_0_iff_not_bit and_nonnegative_int_iff order_less_le zero_le_numeral zero_le_power)

lemma count_loop_le:
  assumes "2 ^ m dvd x" and "m \<le> bl"
  shows "count_loop x bl [i..<bl] \<le> int (bl - m)"
proof (induction "bl - i" arbitrary: i)
  case 0
  then show ?case by simp
next
  case (Suc d)
  then have i: "i < bl" by simp
  have IH: "count_loop x bl [Suc i..<bl] \<le> int (bl - m)" using Suc by simp
  have "bit x i \<Longrightarrow> m \<le> i"
  proof (rule ccontr)
    assume b: "bit x i" and "\<not> m \<le> i"
    then have "(2::int) ^ Suc i dvd 2 ^ m" by (intro le_imp_power_dvd) simp
    then have "2 ^ Suc i dvd x" using assms(1) by (rule dvd_trans)
    then have "even (x div 2 ^ i)" by (auto elim!: dvdE simp: mult.assoc)
    with b show False by (simp add: bit_iff_odd)
  qed
  then show ?case using IH i assms(2) by (simp add: upt_conv_Cons and_exp_pos_iff)
qed

lemma count_significant_le:
  assumes "0 < x" and "2 ^ (bit_length x - k) dvd x"
  shows "count_significant_bits x \<le> int k"
proof -
  have "count_significant_bits x \<le> int (bit_length x - (bit_length x - k))"
    unfolding count_significant_bits_def using assms(2) by (rule count_loop_le) simp
  then show ?thesis by linarith
qed

lemma count_significant_bits_0 [simp]: "count_significant_bits 0 = 0"
  by (simp add: count_significant_bits_def)

text \<open>Clearing low bits never raises the count: the sub-slot iterations are also rounded down
  to a multiple of the number of signage points, a power of two.\<close>

lemma truncate_dvd:
  assumes "0 \<le> x" and "0 \<le> n"
  shows "2 ^ (bit_length x - nat n) dvd truncate_to_significant_bits x n"
proof (cases "n > int (bit_length x)")
  case True
  then have "bit_length x - nat n = 0" by linarith
  then show ?thesis by simp
next
  case False
  then show ?thesis using assms by (simp add: truncate_floor minus_mod_eq_div_mult)
qed

lemma count_truncate_le:
  assumes "0 \<le> x" and "1 \<le> n"
  shows "count_significant_bits (truncate_to_significant_bits x n) \<le> n"
proof (cases "x = 0")
  case True
  then show ?thesis using assms by (simp add: truncate_to_significant_bits_def Let_def)
next
  case False
  then have x: "0 < x" using assms(1) by simp
  let ?t = "truncate_to_significant_bits x n"
  have "0 < ?t" using truncate_top_bit [OF x assms(2)] less_le_trans [of 0 "2 ^ (bit_length x - 1)" ?t] by simp
  moreover have "2 ^ (bit_length ?t - nat n) dvd ?t"
    using truncate_dvd [of x n] bit_length_truncate [OF x assms(2)] assms by simp
  ultimately have "count_significant_bits ?t \<le> int (nat n)" by (rule count_significant_le)
  then show ?thesis using assms(2) by simp
qed

lemma count_floor_le:
  assumes "0 \<le> y" and "2 ^ (bit_length y - k) dvd y" and "1 \<le> k"
  shows "count_significant_bits (y - y mod 2 ^ j) \<le> int k"
proof (cases "y - y mod 2 ^ j = 0")
  case True
  then show ?thesis by simp
next
  case False
  let ?z = "y - y mod 2 ^ j"
  have z0: "0 \<le> ?z" using assms(1) by (simp add: zmod_le_nonneg_dividend)
  with False have z: "0 < ?z" by simp
  with assms(1) have y: "0 < y" by (metis diff_0_right mod_0 order_less_irrefl order_le_less)
  have zle: "?z \<le> y" by simp
  have jd: "2 ^ j dvd ?z" by (simp add: minus_mod_eq_div_mult)
  have "2 ^ j \<le> ?z" using jd z by (rule zdvd_imp_le)
  then have "(2::int) ^ j < 2 ^ bit_length y" using zle bit_length_upper [of y] assms(1) by linarith
  then have jb: "j \<le> bit_length y - 1" using power_less_imp_less_exp [of "2::int" j "bit_length y"] by simp
  have "2 ^ (bit_length y - 1) \<le> ?z"
  proof -
    have "2 ^ (bit_length y - 1) div 2 ^ j * 2 ^ j \<le> y div 2 ^ j * 2 ^ j"
      using bit_length_lower [OF y] by (intro mult_right_mono zdiv_mono1) simp_all
    moreover have "(2::int) ^ j dvd 2 ^ (bit_length y - 1)" using jb by (rule le_imp_power_dvd)
    ultimately show ?thesis by (simp only: minus_mod_eq_div_mult dvd_div_mult_self)
  qed
  moreover have "?z < 2 ^ Suc (bit_length y - 1)"
    using order_le_less_trans [OF zle bit_length_upper [OF assms(1)]] bit_length_pos [OF y] by simp
  ultimately have bl: "bit_length ?z = bit_length y"
    using bit_length_unique [of "bit_length y - 1" ?z] bit_length_pos [OF y] by simp
  have "2 ^ (bit_length y - k) dvd ?z"
  proof (cases "bit_length y - k \<le> j")
    case True
    then show ?thesis using jd by (meson dvd_trans le_imp_power_dvd)
  next
    case False
    then have "(2::int) ^ j dvd 2 ^ (bit_length y - k)" by (intro le_imp_power_dvd) simp
    then have "2 ^ j dvd y" using assms(2) by (rule dvd_trans)
    then show ?thesis using assms(2) by simp
  qed
  with z bl show ?thesis by (intro count_significant_le) simp_all
qed

end
