(* ===== verification/Streamable.thy ===== *)
theory Streamable
  imports Prelude
begin

text \<open>
  The consensus serialization of \<^verbatim>\<open>chia/util/streamable.py\<close>, \<^verbatim>\<open>ints.py\<close>, \<^verbatim>\<open>struct_stream.py\<close> and
  \<^verbatim>\<open>byte_types.py\<close>. A class annotation is a value of \<open>ftype\<close>, an instance a value of \<open>fval\<close>;
  a \<^verbatim>\<open>@streamable\<close> class is the tuple of its fields. \<^verbatim>\<open>BinaryIO\<close> is the list of bytes not yet
  read. The interface is the locale \<open>codec\<close>: parsing undoes streaming with any bytes following,
  and whatever parses is the streamed form of the value, so the format is canonical.

  Elements of third-party classes (\<^verbatim>\<open>blspy\<close>) are represented by their bytes; the parameter
  \<open>ext_valid\<close> says which byte strings their \<^verbatim>\<open>from_bytes\<close> accepts. \<^verbatim>\<open>str\<close> fields and the signed
  struct classes do not occur in the modelled types and are left out.
\<close>

section \<open>Types and values\<close>

datatype ftype =
    TBool
  | TBytes
  | TSized nat
  | TUInt nat
  | TExt string
  | TOptional ftype
  | TList ftype
  | TTuple "ftype list"

datatype fval =
    VBool bool
  | VInt int
  | VBytes bytes
  | VNone
  | VSome fval
  | VList "fval list"
  | VTuple "fval list"

text \<open>\<^verbatim>\<open>size_hints\<close>: the sizes of the classes that only have \<^verbatim>\<open>from_bytes\<close>.\<close>

definition size_hints :: "string \<Rightarrow> nat option" where
  "size_hints nm =
     (if nm = ''PrivateKey'' then Some 32
      else if nm = ''G1Element'' then Some 48
      else if nm = ''G2Element'' then Some 96
      else if nm = ''ConditionOpcode'' then Some 1
      else None)"

section \<open>Parsing\<close>

text \<open>\<^verbatim>\<open>f.read(n)\<close> followed by the assertion that \<open>n\<close> bytes came back.\<close>

definition read_exact :: "nat \<Rightarrow> bytes \<Rightarrow> (bytes \<times> bytes) res" where
  "read_exact n f = (if length f < n then Raise AssertionError else Ok (take n f, drop n f))"

definition parse_bool :: "bytes \<Rightarrow> (fval \<times> bytes) res" where
  "parse_bool f =
     rbind (read_exact 1 f) (\<lambda>(bool_byte, f).
       if bool_byte = [0] then Ok (VBool False, f)
       else if bool_byte = [1] then Ok (VBool True, f)
       else Raise ValueError)"

definition parse_optional :: "(bytes \<Rightarrow> (fval \<times> bytes) res) \<Rightarrow> bytes \<Rightarrow> (fval \<times> bytes) res" where
  "parse_optional parse_inner_type_f f =
     rbind (read_exact 1 f) (\<lambda>(is_present_bytes, f).
       if is_present_bytes = [0] then Ok (VNone, f)
       else if is_present_bytes = [1]
       then rbind (parse_inner_type_f f) (\<lambda>(v, f). Ok (VSome v, f))
       else Raise ValueError)"

definition parse_bytes :: "bytes \<Rightarrow> (fval \<times> bytes) res" where
  "parse_bytes f =
     rbind (read_exact 4 f) (\<lambda>(list_size_bytes, f).
     rbind (uint32 (int (be_nat list_size_bytes))) (\<lambda>list_size.
     rbind (read_exact (nat list_size) f) (\<lambda>(bytes_read, f).
       Ok (VBytes bytes_read, f))))"

fun parse_times :: "(bytes \<Rightarrow> (fval \<times> bytes) res) \<Rightarrow> nat \<Rightarrow> bytes \<Rightarrow> (fval list \<times> bytes) res" where
  "parse_times p 0 f = Ok ([], f)"
| "parse_times p (Suc n) f =
     rbind (p f) (\<lambda>(v, f). rbind (parse_times p n f) (\<lambda>(vs, f). Ok (v # vs, f)))"

definition parse_list :: "(bytes \<Rightarrow> (fval \<times> bytes) res) \<Rightarrow> bytes \<Rightarrow> (fval \<times> bytes) res" where
  "parse_list parse_inner_type_f f =
     rbind (read_exact 4 f) (\<lambda>(list_size_bytes, f).
     rbind (uint32 (int (be_nat list_size_bytes))) (\<lambda>list_size.
     rbind (parse_times parse_inner_type_f (nat list_size) f) (\<lambda>(full_list, f).
       Ok (VList full_list, f))))"

fun parse_fields :: "(bytes \<Rightarrow> (fval \<times> bytes) res) list \<Rightarrow> bytes \<Rightarrow> (fval list \<times> bytes) res" where
  "parse_fields [] f = Ok ([], f)"
| "parse_fields (p # ps) f =
     rbind (p f) (\<lambda>(v, f). rbind (parse_fields ps f) (\<lambda>(vs, f). Ok (v # vs, f)))"

definition parse_tuple :: "(bytes \<Rightarrow> (fval \<times> bytes) res) list \<Rightarrow> bytes \<Rightarrow> (fval \<times> bytes) res" where
  "parse_tuple list_parse_inner_type_f f =
     rbind (parse_fields list_parse_inner_type_f f) (\<lambda>(full_list, f). Ok (VTuple full_list, f))"

definition parse_size_hints :: "(bytes \<Rightarrow> bool) \<Rightarrow> nat \<Rightarrow> bytes \<Rightarrow> (fval \<times> bytes) res" where
  "parse_size_hints from_bytes_ok bytes_to_read f =
     rbind (read_exact bytes_to_read f) (\<lambda>(bytes_read, f).
       if from_bytes_ok bytes_read then Ok (VBytes bytes_read, f) else Raise ValueError)"

text \<open>\<^verbatim>\<open>parse\<close> of a sized-bytes class and of the unsigned integer classes.\<close>

definition parse_sized :: "nat \<Rightarrow> bytes \<Rightarrow> (fval \<times> bytes) res" where
  "parse_sized n f =
     rbind (read_exact n f) (\<lambda>(b, f). rbind (sized_bytes n b) (\<lambda>b. Ok (VBytes b, f)))"

definition parse_uint :: "nat \<Rightarrow> bytes \<Rightarrow> (fval \<times> bytes) res" where
  "parse_uint n f =
     rbind (read_exact n f) (\<lambda>(read_bytes, f).
     rbind (uintN (8 * n) (int (be_nat read_bytes))) (\<lambda>v. Ok (VInt v, f)))"

primrec function_to_parse_one_item ::
    "(string \<Rightarrow> bytes \<Rightarrow> bool) \<Rightarrow> ftype \<Rightarrow> bytes \<Rightarrow> (fval \<times> bytes) res" where
  "function_to_parse_one_item ext_valid TBool = parse_bool"
| "function_to_parse_one_item ext_valid (TOptional t) =
     parse_optional (function_to_parse_one_item ext_valid t)"
| "function_to_parse_one_item ext_valid (TSized n) = parse_sized n"
| "function_to_parse_one_item ext_valid (TUInt n) = parse_uint n"
| "function_to_parse_one_item ext_valid TBytes = parse_bytes"
| "function_to_parse_one_item ext_valid (TList t) =
     parse_list (function_to_parse_one_item ext_valid t)"
| "function_to_parse_one_item ext_valid (TTuple ts) =
     parse_tuple (map (function_to_parse_one_item ext_valid) ts)"
| "function_to_parse_one_item ext_valid (TExt nm) =
     (case size_hints nm of
        Some n \<Rightarrow> parse_size_hints (ext_valid nm) n
      | None \<Rightarrow> (\<lambda>f. Raise NotImplementedError))"

section \<open>Streaming\<close>

text \<open>
  A value that does not belong to the annotation cannot be built (the \<^verbatim>\<open>strictdataclass\<close>
  decorator raises \<^verbatim>\<open>TypeError\<close>), so streaming it raises.
\<close>

fun stream_bool :: "fval \<Rightarrow> bytes res" where
  "stream_bool (VBool b) = Ok [if b then 1 else 0]"
| "stream_bool _ = Raise TypeError"

fun stream_uint :: "nat \<Rightarrow> fval \<Rightarrow> bytes res" where
  "stream_uint n (VInt v) =
     (if 0 \<le> v \<and> v < 2 ^ (8 * n) then Ok (be_bytes n (nat v)) else Raise TypeError)"
| "stream_uint n _ = Raise TypeError"

fun stream_sized :: "nat \<Rightarrow> fval \<Rightarrow> bytes res" where
  "stream_sized n (VBytes b) = (if length b = n then Ok b else Raise TypeError)"
| "stream_sized n _ = Raise TypeError"

fun stream_bytes :: "fval \<Rightarrow> bytes res" where
  "stream_bytes (VBytes b) = rbind (uint32 (int (length b))) (\<lambda>n. Ok (be_bytes 4 (nat n) @ b))"
| "stream_bytes _ = Raise TypeError"

fun stream_ext :: "(bytes \<Rightarrow> bool) \<Rightarrow> nat \<Rightarrow> fval \<Rightarrow> bytes res" where
  "stream_ext valid n (VBytes b) = (if length b = n \<and> valid b then Ok b else Raise TypeError)"
| "stream_ext valid n _ = Raise TypeError"

fun stream_optional :: "(fval \<Rightarrow> bytes res) \<Rightarrow> fval \<Rightarrow> bytes res" where
  "stream_optional s VNone = Ok [0]"
| "stream_optional s (VSome v) = rbind (s v) (\<lambda>b. Ok (1 # b))"
| "stream_optional s _ = Raise TypeError"

fun stream_items :: "(fval \<Rightarrow> bytes res) \<Rightarrow> fval list \<Rightarrow> bytes res" where
  "stream_items s [] = Ok []"
| "stream_items s (v # vs) = rbind (s v) (\<lambda>b. rbind (stream_items s vs) (\<lambda>bs. Ok (b @ bs)))"

fun stream_list :: "(fval \<Rightarrow> bytes res) \<Rightarrow> fval \<Rightarrow> bytes res" where
  "stream_list s (VList vs) =
     rbind (uint32 (int (length vs))) (\<lambda>n.
     rbind (stream_items s vs) (\<lambda>bs. Ok (be_bytes 4 (nat n) @ bs)))"
| "stream_list s _ = Raise TypeError"

fun stream_fields :: "(fval \<Rightarrow> bytes res) list \<Rightarrow> fval list \<Rightarrow> bytes res" where
  "stream_fields [] [] = Ok []"
| "stream_fields (s # ss) (v # vs) =
     rbind (s v) (\<lambda>b. rbind (stream_fields ss vs) (\<lambda>bs. Ok (b @ bs)))"
| "stream_fields _ _ = Raise TypeError"

fun stream_tuple :: "(fval \<Rightarrow> bytes res) list \<Rightarrow> fval \<Rightarrow> bytes res" where
  "stream_tuple ss (VTuple vs) = stream_fields ss vs"
| "stream_tuple ss _ = Raise TypeError"

primrec stream_one_item :: "(string \<Rightarrow> bytes \<Rightarrow> bool) \<Rightarrow> ftype \<Rightarrow> fval \<Rightarrow> bytes res" where
  "stream_one_item ext_valid (TOptional t) = stream_optional (stream_one_item ext_valid t)"
| "stream_one_item ext_valid TBytes = stream_bytes"
| "stream_one_item ext_valid (TUInt n) = stream_uint n"
| "stream_one_item ext_valid (TSized n) = stream_sized n"
| "stream_one_item ext_valid (TExt nm) =
     (case size_hints nm of
        Some n \<Rightarrow> stream_ext (ext_valid nm) n
      | None \<Rightarrow> (\<lambda>v. Raise NotImplementedError))"
| "stream_one_item ext_valid (TList t) = stream_list (stream_one_item ext_valid t)"
| "stream_one_item ext_valid (TTuple ts) = stream_tuple (map (stream_one_item ext_valid) ts)"
| "stream_one_item ext_valid TBool = stream_bool"

text \<open>\<^verbatim>\<open>from_bytes\<close>: parse, then assert that nothing is left.\<close>

definition from_bytes :: "(string \<Rightarrow> bytes \<Rightarrow> bool) \<Rightarrow> ftype \<Rightarrow> bytes \<Rightarrow> fval res" where
  "from_bytes ext_valid t blob =
     rbind (function_to_parse_one_item ext_valid t blob) (\<lambda>(parsed, f).
     rbind (py_assert (f = [])) (\<lambda>_. Ok parsed))"

section \<open>The codec interface\<close>

locale codec =
  fixes enc :: "'a \<Rightarrow> bytes res" and dec :: "bytes \<Rightarrow> ('a \<times> bytes) res"
  assumes dec_enc: "enc v = Ok b \<Longrightarrow> dec (b @ r) = Ok (v, r)"
    and enc_dec: "dec f = Ok (v, r) \<Longrightarrow> \<exists>b. enc v = Ok b \<and> f = b @ r"
begin

lemma prefix_free: "enc v = Ok b \<Longrightarrow> enc w = Ok (b @ c) \<Longrightarrow> v = w \<and> c = []"
  using dec_enc [of v b c] dec_enc [of w "b @ c" "[]"] by simp

lemma enc_inj: "enc v = Ok b \<Longrightarrow> enc w = Ok b \<Longrightarrow> v = w"
  using prefix_free [of v b w "[]"] by simp

lemma dec_all_iff: "dec b = Ok (v, []) \<longleftrightarrow> enc v = Ok b"
  using dec_enc [of v b "[]"] enc_dec [of b v "[]"] by auto

lemma dec_extend: "dec f = Ok (v, r) \<Longrightarrow> dec (f @ s) = Ok (v, r @ s)"
  using enc_dec [of f v r] dec_enc [of v _ "r @ s"] by auto

end

lemma codecI:
  "(\<And>v b r. enc v = Ok b \<Longrightarrow> dec (b @ r) = Ok (v, r)) \<Longrightarrow>
   (\<And>f v r. dec f = Ok (v, r) \<Longrightarrow> \<exists>b. enc v = Ok b \<and> f = b @ r) \<Longrightarrow> codec enc dec"
  by (rule codec.intro)

lemma read_exact_append: "length b = n \<Longrightarrow> read_exact n (b @ r) = Ok (b, r)"
  by (simp add: read_exact_def)

lemma read_exact_Cons [simp]: "read_exact (Suc 0) (x # r) = Ok ([x], r)"
  by (simp add: read_exact_def)

lemma read_exact_eq_Ok: "read_exact n f = Ok (b, r) \<longleftrightarrow> f = b @ r \<and> length b = n"
  by (auto simp: read_exact_def)

lemmas parser_defs = parse_bool_def parse_optional_def parse_bytes_def parse_list_def
  parse_tuple_def parse_size_hints_def parse_sized_def parse_uint_def

section \<open>Each annotation is a codec\<close>

lemma codec_bool: "codec stream_bool parse_bool"
proof (rule codecI)
  fix v b r
  assume "stream_bool v = Ok b"
  then show "parse_bool (b @ r) = Ok (v, r)"
    by (cases v) (auto simp: parse_bool_def split: if_splits)
next
  fix f v r
  assume "parse_bool f = Ok (v, r)"
  then show "\<exists>b. stream_bool v = Ok b \<and> f = b @ r"
    by (auto simp: parse_bool_def read_exact_eq_Ok split: if_splits)
qed

lemma codec_sized: "codec (stream_sized n) (parse_sized n)"
proof (rule codecI)
  fix v b r
  assume "stream_sized n v = Ok b"
  then show "parse_sized n (b @ r) = Ok (v, r)"
    by (cases v) (auto simp: parse_sized_def read_exact_append split: if_splits)
next
  fix f v r
  assume "parse_sized n f = Ok (v, r)"
  then show "\<exists>b. stream_sized n v = Ok b \<and> f = b @ r"
    by (auto simp: parse_sized_def read_exact_eq_Ok)
qed

lemma pow_256: "(2::int) ^ (8 * n) = int (256 ^ n)"
  by (simp add: power_mult)

lemma codec_uint: "codec (stream_uint n) (parse_uint n)"
proof (rule codecI)
  fix v b r
  assume s: "stream_uint n v = Ok b"
  then obtain i where v: "v = VInt i" and i: "0 \<le> i" "i < 2 ^ (8 * n)" and b: "b = be_bytes n (nat i)"
    by (cases v) (auto split: if_splits)
  have "nat i < 256 ^ n" using i by (simp add: pow_256 nat_less_iff)
  then have "be_nat b = nat i" using b by (simp add: be_nat_be_bytes)
  with v i b show "parse_uint n (b @ r) = Ok (v, r)"
    by (simp add: parse_uint_def read_exact_append)
next
  fix f v r
  assume "parse_uint n f = Ok (v, r)"
  then obtain b where "f = b @ r" and "length b = n" and "v = VInt (int (be_nat b))"
      and "int (be_nat b) < 2 ^ (8 * n)"
    by (auto simp: parse_uint_def read_exact_eq_Ok)
  then show "\<exists>b. stream_uint n v = Ok b \<and> f = b @ r"
    using be_bytes_be_nat [of b] by auto
qed

lemma be_nat_len: "int n < 2 ^ 32 \<Longrightarrow> be_nat (be_bytes 4 n) = n"
  by (rule be_nat_be_bytes) simp

lemma codec_bytes: "codec stream_bytes parse_bytes"
proof (rule codecI)
  fix v b r
  assume "stream_bytes v = Ok b"
  then show "parse_bytes (b @ r) = Ok (v, r)"
    by (cases v) (auto simp: parse_bytes_def read_exact_append be_nat_len)
next
  fix f v r
  assume "parse_bytes f = Ok (v, r)"
  then obtain l b where f: "f = l @ b @ r" and l: "length l = 4" and b: "length b = be_nat l"
      and v: "v = VBytes b" and len: "int (be_nat l) < 2 ^ 32"
    by (auto simp: parse_bytes_def read_exact_eq_Ok)
  then have "stream_bytes v = Ok (l @ b)"
    using be_bytes_be_nat [of l] by simp
  with f show "\<exists>b. stream_bytes v = Ok b \<and> f = b @ r" by auto
qed

lemma codec_ext: "codec (stream_ext valid n) (parse_size_hints valid n)"
proof (rule codecI)
  fix v b r
  assume "stream_ext valid n v = Ok b"
  then show "parse_size_hints valid n (b @ r) = Ok (v, r)"
    by (cases v) (auto simp: parse_size_hints_def read_exact_append split: if_splits)
next
  fix f v r
  assume "parse_size_hints valid n f = Ok (v, r)"
  then show "\<exists>b. stream_ext valid n v = Ok b \<and> f = b @ r"
    by (auto simp: parse_size_hints_def read_exact_eq_Ok split: if_splits)
qed

lemma codec_none: "codec (\<lambda>v. Raise e) (\<lambda>f. Raise e)"
  by (rule codecI) auto

lemma codec_optional:
  assumes "codec s p"
  shows "codec (stream_optional s) (parse_optional p)"
proof (rule codecI)
  fix v b r
  assume "stream_optional s v = Ok b"
  then show "parse_optional p (b @ r) = Ok (v, r)"
    using codec.dec_enc [OF assms]
    by (cases v) (auto simp: parse_optional_def)
next
  fix f v r
  assume "parse_optional p f = Ok (v, r)"
  then show "\<exists>b. stream_optional s v = Ok b \<and> f = b @ r"
    using codec.enc_dec [OF assms]
    by (fastforce simp: parse_optional_def read_exact_eq_Ok split: if_splits)
qed

lemma parse_times_items:
  assumes "codec s p" and "stream_items s vs = Ok bs"
  shows "parse_times p (length vs) (bs @ r) = Ok (vs, r)"
  using assms(2) codec.dec_enc [OF assms(1)]
  by (induction vs arbitrary: bs) auto

lemma items_parse_times:
  assumes "codec s p" and "parse_times p n f = Ok (vs, r)"
  shows "length vs = n \<and> (\<exists>b. stream_items s vs = Ok b \<and> f = b @ r)"
  using assms(2)
proof (induction n arbitrary: f vs)
  case 0
  then show ?case by simp
next
  case (Suc n)
  then obtain v g us where h: "p f = Ok (v, g)" "parse_times p n g = Ok (us, r)" "vs = v # us"
    by auto
  from codec.enc_dec [OF assms(1) h(1)] obtain b where b: "s v = Ok b" "f = b @ g" by blast
  from Suc.IH [OF h(2)] b h(3) show ?case by auto
qed

lemma codec_list:
  assumes "codec s p"
  shows "codec (stream_list s) (parse_list p)"
proof (rule codecI)
  fix v b r
  assume "stream_list s v = Ok b"
  then show "parse_list p (b @ r) = Ok (v, r)"
    by (cases v) (auto simp: parse_list_def read_exact_append be_nat_len parse_times_items [OF assms])
next
  fix f v r
  assume "parse_list p f = Ok (v, r)"
  then obtain l g vs where f: "f = l @ g" and l: "length l = 4" and v: "v = VList vs"
      and len: "int (be_nat l) < 2 ^ 32" and p: "parse_times p (be_nat l) g = Ok (vs, r)"
    by (auto simp: parse_list_def read_exact_eq_Ok)
  from items_parse_times [OF assms p] obtain b where "length vs = be_nat l"
      and "stream_items s vs = Ok b" and "g = b @ r" by blast
  with f l v len show "\<exists>b. stream_list s v = Ok b \<and> f = b @ r"
    using be_bytes_be_nat [of l] by auto
qed

lemma parse_fields_stream:
  assumes "list_all2 codec ss ps" and "stream_fields ss vs = Ok bs"
  shows "parse_fields ps (bs @ r) = Ok (vs, r)"
  using assms
proof (induction ss ps arbitrary: vs bs rule: list_all2_induct)
  case Nil
  then show ?case by (cases vs) auto
next
  case (Cons s ss p ps)
  then show ?case using codec.dec_enc [OF Cons.hyps(1)] by (cases vs) auto
qed

lemma stream_parse_fields:
  assumes "list_all2 codec ss ps" and "parse_fields ps f = Ok (vs, r)"
  shows "\<exists>b. stream_fields ss vs = Ok b \<and> f = b @ r"
  using assms
proof (induction ss ps arbitrary: vs f rule: list_all2_induct)
  case Nil
  then show ?case by auto
next
  case (Cons s ss p ps)
  from Cons.prems obtain v g us where h: "p f = Ok (v, g)" "parse_fields ps g = Ok (us, r)" "vs = v # us"
    by auto
  from codec.enc_dec [OF Cons.hyps(1) h(1)] obtain b where b: "s v = Ok b" "f = b @ g" by blast
  from Cons.IH [OF h(2)] b h(3) show ?case by auto
qed

lemma codec_tuple:
  assumes "list_all2 codec ss ps"
  shows "codec (stream_tuple ss) (parse_tuple ps)"
proof (rule codecI)
  fix v b r
  assume "stream_tuple ss v = Ok b"
  then show "parse_tuple ps (b @ r) = Ok (v, r)"
    by (cases v) (auto simp: parse_tuple_def parse_fields_stream [OF assms])
next
  fix f v r
  assume "parse_tuple ps f = Ok (v, r)"
  then obtain vs where "v = VTuple vs" and "parse_fields ps f = Ok (vs, r)"
    by (auto simp: parse_tuple_def)
  then show "\<exists>b. stream_tuple ss v = Ok b \<and> f = b @ r"
    using stream_parse_fields [OF assms] by auto
qed

lemma codec_item: "codec (stream_one_item ext_valid t) (function_to_parse_one_item ext_valid t)"
proof (induction t)
  case (TTuple ts)
  then have "list_all2 codec (map (stream_one_item ext_valid) ts)
      (map (function_to_parse_one_item ext_valid) ts)"
    by (simp add: list_all2_conv_all_nth)
  then show ?case by (simp add: codec_tuple)
next
  case (TExt nm)
  show ?case by (cases "size_hints nm") (simp_all add: codec_none codec_ext)
qed (simp_all add: codec_bool codec_bytes codec_sized codec_uint codec_optional codec_list)

interpretation item: codec "stream_one_item ext_valid t" "function_to_parse_one_item ext_valid t"
  for ext_valid t
  by (rule codec_item)

lemma from_bytes_iff: "from_bytes ext_valid t b = Ok v \<longleftrightarrow> stream_one_item ext_valid t v = Ok b"
  unfolding from_bytes_def using item.dec_all_iff [of ext_valid t b v] by auto

end
