(* ===== verification/Crypto.thy ===== *)
theory Crypto
  imports Streamable
begin

text \<open>
  The third-party primitives the consensus code calls (\<^verbatim>\<open>blspy\<close>, \<^verbatim>\<open>chiavdf\<close>, \<^verbatim>\<open>chiapos\<close>,
  \<^verbatim>\<open>chiabip158\<close>, \<^verbatim>\<open>bitstring\<close>, \<^verbatim>\<open>clvm.casts\<close>), as the fields of one record that every definition using them takes
  as its argument, and the wrappers of \<^verbatim>\<open>chia/util/hash.py\<close> and \<^verbatim>\<open>streamable.py\<close> around them.
  An \<open>option\<close> result is \<open>None\<close> where the library raises.
\<close>

record crypto =
  hash256 :: "bytes \<Rightarrow> bytes"
  aug_verify :: "bytes \<Rightarrow> bytes \<Rightarrow> bytes \<Rightarrow> bool"
  aggregate_verify :: "bytes list \<Rightarrow> bytes list \<Rightarrow> bytes \<Rightarrow> bool"
  bls_aggregate :: "bytes list \<Rightarrow> bytes"
  bip158_encoded :: "bytes list \<Rightarrow> bytes"
  create_discriminant :: "bytes \<Rightarrow> int \<Rightarrow> int option"
  verify_n_wesolowski :: "int \<Rightarrow> bytes \<Rightarrow> bytes \<Rightarrow> int \<Rightarrow> int \<Rightarrow> int \<Rightarrow> bool option"
  validate_proof :: "bytes \<Rightarrow> int \<Rightarrow> bytes \<Rightarrow> bytes \<Rightarrow> bytes"
  bitarray_prefix_uint :: "bytes \<Rightarrow> int \<Rightarrow> int option"
  clvm_int_to_bytes :: "int \<Rightarrow> bytes"
  clvm_int_from_bytes :: "bytes \<Rightarrow> int"
  ext_valid :: "string \<Rightarrow> bytes \<Rightarrow> bool"

definition std_hash :: "crypto \<Rightarrow> bytes \<Rightarrow> bytes res" where
  "std_hash cr b = sized_bytes 32 (hash256 cr b)"

text \<open>\<^verbatim>\<open>Streamable.get_hash\<close>: the hash of the serialization.\<close>

definition get_hash :: "crypto \<Rightarrow> ftype \<Rightarrow> fval \<Rightarrow> bytes res" where
  "get_hash cr t v =
     rbind (stream_one_item (ext_valid cr) t v) (\<lambda>b.
     rbind (std_hash cr b) (\<lambda>h. sized_bytes 32 h))"

text \<open>Two values of one type whose encodings differ and yet hash to the same digest: an explicit
  collision. Facts about hashes below read \<open>the objects are equal, or their encodings collide\<close>, which
  needs no assumption on the hash function.\<close>

definition hash_collision :: "crypto \<Rightarrow> ftype \<Rightarrow> fval \<Rightarrow> fval \<Rightarrow> bool" where
  "hash_collision cr t v w \<longleftrightarrow>
     (\<exists>a b. stream_one_item (ext_valid cr) t v = Ok a \<and> stream_one_item (ext_valid cr) t w = Ok b \<and>
            a \<noteq> b \<and> hash256 cr a = hash256 cr b)"

lemma std_hash_eq_Ok: "std_hash cr b = Ok h \<longleftrightarrow> h = hash256 cr b \<and> length h = 32"
  by (auto simp: std_hash_def)

lemma get_hash_eq_Ok:
  "get_hash cr t v = Ok h \<longleftrightarrow>
     (\<exists>b. stream_one_item (ext_valid cr) t v = Ok b \<and> h = hash256 cr b \<and> length h = 32)"
  by (auto simp: get_hash_def std_hash_eq_Ok rbind_eq_Ok)

interpretation item: codec "stream_one_item ok t" "function_to_parse_one_item ok t" for ok t
  by (rule codec_item)

lemma get_hash_binding:
  assumes "get_hash cr t v = Ok h" and "get_hash cr t w = Ok h"
  shows "v = w \<or> hash_collision cr t v w"
  using assms item.enc_inj [of "ext_valid cr" t v _ w]
  by (fastforce simp: get_hash_eq_Ok hash_collision_def)

lemma stream_not_Diverge [simp]: "stream_one_item ok t v \<noteq> Diverge"
proof -
  have items: "stream_items s vs \<noteq> Diverge" if "\<And>v. s v \<noteq> Diverge" for s vs
    using that by (induction vs) (auto simp: rbind_eq_Diverge)
  have fields: "stream_fields ss vs \<noteq> Diverge" if "\<And>s v. s \<in> set ss \<Longrightarrow> s v \<noteq> Diverge" for ss vs
    using that by (induction ss vs rule: stream_fields.induct) (auto simp: rbind_eq_Diverge)
  show ?thesis
  proof (induction t arbitrary: v)
    case TBool
    show ?case by (cases v) auto
  next
    case TBytes
    show ?case by (cases v) (auto simp: rbind_eq_Diverge)
  next
    case (TSized n)
    show ?case by (cases v) auto
  next
    case (TUInt n)
    show ?case by (cases v) auto
  next
    case (TExt nm)
    show ?case by (cases v) (auto split: option.splits)
  next
    case (TOptional t)
    then show ?case by (cases v) (auto simp: rbind_eq_Diverge)
  next
    case (TList t)
    then show ?case by (cases v) (auto simp: rbind_eq_Diverge items)
  next
    case (TTuple ts)
    then have "stream_fields (map (stream_one_item ok) ts) vs \<noteq> Diverge" for vs
      by (intro fields) auto
    then show ?case by (cases v) simp_all
  qed
qed

lemma get_hash_not_Diverge [simp]: "get_hash cr t v \<noteq> Diverge"
  by (auto simp: get_hash_def std_hash_def sized_bytes_def rbind_eq_Diverge split: if_splits)

lemma returns_std_hash [returns_rules]: "returns (std_hash cr b)"
  unfolding std_hash_def by (intro returns_rules)

lemmas returns_get_hash [returns_rules] = get_hash_not_Diverge [THEN returnsI]

end
