(* ===== verification/Blockchain_Format.thy ===== *)
theory Blockchain_Format
  imports Crypto
begin

text \<open>
  The streamable classes of \<^verbatim>\<open>chia/types/blockchain_format\<close> and of \<^verbatim>\<open>chia/types\<close> that make up a
  block header. Each class is a record, its annotations are the constant \<open>X_type\<close>, its field
  values in order are \<open>X_val\<close>, and \<open>X_hash\<close> is its \<^verbatim>\<open>get_hash\<close>. Field names that several classes
  share carry a short prefix of the class. The methods of \<^verbatim>\<open>VDFProof\<close> and \<^verbatim>\<open>ProofOfSpace\<close> are here too.
\<close>

definition opt_val :: "('a \<Rightarrow> fval) \<Rightarrow> 'a option \<Rightarrow> fval" where
  "opt_val f x = (case x of None \<Rightarrow> VNone | Some v \<Rightarrow> VSome (f v))"

abbreviation bytes32_type :: ftype where "bytes32_type \<equiv> TSized 32"
abbreviation G1Element_type :: ftype where "G1Element_type \<equiv> TExt ''G1Element''"
abbreviation G2Element_type :: ftype where "G2Element_type \<equiv> TExt ''G2Element''"
abbreviation uint8_type :: ftype where "uint8_type \<equiv> TUInt 1"
abbreviation uint32_type :: ftype where "uint32_type \<equiv> TUInt 4"
abbreviation uint64_type :: ftype where "uint64_type \<equiv> TUInt 8"
abbreviation uint128_type :: ftype where "uint128_type \<equiv> TUInt 16"

section \<open>Class group elements and VDFs\<close>

record ClassgroupElement =
  cg_data :: bytes

definition ClassgroupElement_type :: ftype where
  "ClassgroupElement_type = TTuple [TSized 100]"

definition ClassgroupElement_val :: "ClassgroupElement \<Rightarrow> fval" where
  "ClassgroupElement_val x = VTuple [VBytes (cg_data x)]"

definition ClassgroupElement_hash :: "crypto \<Rightarrow> ClassgroupElement \<Rightarrow> bytes res" where
  "ClassgroupElement_hash cr x = get_hash cr ClassgroupElement_type (ClassgroupElement_val x)"

definition ClassgroupElement_from_bytes :: "bytes \<Rightarrow> ClassgroupElement res" where
  "ClassgroupElement_from_bytes d =
     (let d = (if length d < 100 then d @ replicate (100 - length d) 0 else d)
      in rbind (sized_bytes 100 d) (\<lambda>d. Ok \<lparr>cg_data = d\<rparr>))"

definition get_default_element :: ClassgroupElement where
  "get_default_element = \<lparr>cg_data = 8 # replicate 99 0\<rparr>"

lemma get_default_element_from_bytes: "ClassgroupElement_from_bytes [8] = Ok get_default_element"
  by (simp add: ClassgroupElement_from_bytes_def get_default_element_def)

record VDFInfo =
  vdf_challenge :: bytes
  number_of_iterations :: int
  vdf_output :: ClassgroupElement

definition VDFInfo_type :: ftype where
  "VDFInfo_type = TTuple [bytes32_type, uint64_type, ClassgroupElement_type]"

definition VDFInfo_val :: "VDFInfo \<Rightarrow> fval" where
  "VDFInfo_val x =
     VTuple [VBytes (vdf_challenge x), VInt (number_of_iterations x),
             ClassgroupElement_val (vdf_output x)]"

record VDFProof =
  witness_type :: int
  witness :: bytes
  normalized_to_identity :: bool

definition VDFProof_type :: ftype where
  "VDFProof_type = TTuple [uint8_type, TBytes, TBool]"

definition VDFProof_val :: "VDFProof \<Rightarrow> fval" where
  "VDFProof_val x =
     VTuple [VInt (witness_type x), VBytes (witness x), VBool (normalized_to_identity x)]"

text \<open>\<^verbatim>\<open>VDFProof.is_valid\<close>; \<open>max_witness\<close> and \<open>disc_bits\<close> are the constants
  \<^verbatim>\<open>MAX_VDF_WITNESS_SIZE\<close> and \<^verbatim>\<open>DISCRIMINANT_SIZE_BITS\<close>. Any exception of the library is \<^verbatim>\<open>False\<close>.\<close>

definition get_discriminant :: "crypto \<Rightarrow> bytes \<Rightarrow> int \<Rightarrow> int option" where
  "get_discriminant cr challenge size_bites = create_discriminant cr challenge size_bites"

definition verify_vdf :: "crypto \<Rightarrow> int \<Rightarrow> bytes \<Rightarrow> bytes \<Rightarrow> int \<Rightarrow> int \<Rightarrow> int \<Rightarrow> bool option" where
  "verify_vdf cr disc input_el outp iters discriminant_size wtype =
     verify_n_wesolowski cr disc input_el outp iters discriminant_size wtype"

definition VDFProof_is_valid ::
    "crypto \<Rightarrow> int \<Rightarrow> int \<Rightarrow> VDFProof \<Rightarrow> ClassgroupElement \<Rightarrow> VDFInfo \<Rightarrow> VDFInfo option \<Rightarrow> bool" where
  "VDFProof_is_valid cr max_witness disc_bits self input_el info target_vdf_info =
     (if target_vdf_info \<noteq> None \<and> Some info \<noteq> target_vdf_info then False
      else if witness_type self + 1 > max_witness then False
      else case get_discriminant cr (vdf_challenge info) disc_bits of
             None \<Rightarrow> False
           | Some disc \<Rightarrow>
               (case verify_vdf cr disc (cg_data input_el) (cg_data (vdf_output info) @ witness self)
                       (number_of_iterations info) disc_bits (witness_type self) of
                  None \<Rightarrow> False
                | Some b \<Rightarrow> b))"

section \<open>Proofs of space\<close>

record ProofOfSpace =
  pos_challenge :: bytes
  pool_public_key :: "bytes option"
  pool_contract_puzzle_hash :: "bytes option"
  plot_public_key :: bytes
  pos_size :: int
  pos_proof :: bytes

definition ProofOfSpace_type :: ftype where
  "ProofOfSpace_type =
     TTuple [bytes32_type, TOptional G1Element_type, TOptional bytes32_type, G1Element_type,
             uint8_type, TBytes]"

definition ProofOfSpace_val :: "ProofOfSpace \<Rightarrow> fval" where
  "ProofOfSpace_val x =
     VTuple [VBytes (pos_challenge x), opt_val VBytes (pool_public_key x),
             opt_val VBytes (pool_contract_puzzle_hash x), VBytes (plot_public_key x),
             VInt (pos_size x), VBytes (pos_proof x)]"

definition calculate_plot_id_pk :: "crypto \<Rightarrow> bytes \<Rightarrow> bytes \<Rightarrow> bytes res" where
  "calculate_plot_id_pk cr pool_pk plot_pk = std_hash cr (pool_pk @ plot_pk)"

definition calculate_plot_id_ph :: "crypto \<Rightarrow> bytes \<Rightarrow> bytes \<Rightarrow> bytes res" where
  "calculate_plot_id_ph cr contract_ph plot_pk = std_hash cr (contract_ph @ plot_pk)"

definition get_plot_id :: "crypto \<Rightarrow> ProofOfSpace \<Rightarrow> bytes res" where
  "get_plot_id cr self =
     rbind (py_assert (pool_public_key self = None \<or> pool_contract_puzzle_hash self = None)) (\<lambda>_.
       case pool_public_key self of
         None \<Rightarrow> rbind (unwrap TypeError (pool_contract_puzzle_hash self)) (\<lambda>ph.
                   calculate_plot_id_ph cr ph (plot_public_key self))
       | Some pk \<Rightarrow> calculate_plot_id_pk cr pk (plot_public_key self))"

definition calculate_plot_filter_input :: "crypto \<Rightarrow> bytes \<Rightarrow> bytes \<Rightarrow> bytes \<Rightarrow> bytes res" where
  "calculate_plot_filter_input cr plot_id challenge_hash signage_point =
     std_hash cr (plot_id @ challenge_hash @ signage_point)"

definition calculate_pos_challenge :: "crypto \<Rightarrow> bytes \<Rightarrow> bytes \<Rightarrow> bytes \<Rightarrow> bytes res" where
  "calculate_pos_challenge cr plot_id challenge_hash signage_point =
     rbind (calculate_plot_filter_input cr plot_id challenge_hash signage_point) (std_hash cr)"

definition passes_plot_filter :: "crypto \<Rightarrow> int \<Rightarrow> bytes \<Rightarrow> bytes \<Rightarrow> bytes \<Rightarrow> bool res" where
  "passes_plot_filter cr zero_bits plot_id challenge_hash signage_point =
     rbind (calculate_plot_filter_input cr plot_id challenge_hash signage_point) (\<lambda>h.
     rbind (unwrap ValueError (bitarray_prefix_uint cr h zero_bits)) (\<lambda>u. Ok (u = 0)))"

definition get_quality_string :: "crypto \<Rightarrow> ProofOfSpace \<Rightarrow> bytes \<Rightarrow> bytes option res" where
  "get_quality_string cr self plot_id =
     (let quality_str = validate_proof cr plot_id (pos_size self) (pos_challenge self) (pos_proof self)
      in if quality_str = [] then Ok None
         else rbind (sized_bytes 32 quality_str) (\<lambda>q. Ok (Some q)))"

definition verify_and_get_quality_string ::
    "crypto \<Rightarrow> int \<Rightarrow> int \<Rightarrow> int \<Rightarrow> ProofOfSpace \<Rightarrow> bytes \<Rightarrow> bytes \<Rightarrow> bytes option res" where
  "verify_and_get_quality_string cr min_size max_size zero_bits self original_challenge_hash signage_point =
     (if pool_public_key self = None \<and> pool_contract_puzzle_hash self = None then Ok None
      else if pool_public_key self \<noteq> None \<and> pool_contract_puzzle_hash self \<noteq> None then Ok None
      else if pos_size self < min_size then Ok None
      else if pos_size self > max_size then Ok None
      else
        rbind (get_plot_id cr self) (\<lambda>plot_id.
        rbind (calculate_pos_challenge cr plot_id original_challenge_hash signage_point) (\<lambda>new_challenge.
          if new_challenge \<noteq> pos_challenge self then Ok None
          else
            rbind (passes_plot_filter cr zero_bits plot_id original_challenge_hash signage_point) (\<lambda>ok.
              if \<not> ok then Ok None else get_quality_string cr self plot_id))))"

section \<open>End-of-slot bundles\<close>

record ChallengeBlockInfo =
  cbi_proof_of_space :: ProofOfSpace
  cbi_challenge_chain_sp_vdf :: "VDFInfo option"
  cbi_challenge_chain_sp_signature :: bytes
  cbi_challenge_chain_ip_vdf :: VDFInfo

definition ChallengeBlockInfo_hash :: "crypto \<Rightarrow> ChallengeBlockInfo \<Rightarrow> bytes res" where
  "ChallengeBlockInfo_hash cr x =
     get_hash cr (TTuple [ProofOfSpace_type, TOptional VDFInfo_type, G2Element_type, VDFInfo_type])
       (VTuple [ProofOfSpace_val (cbi_proof_of_space x),
                opt_val VDFInfo_val (cbi_challenge_chain_sp_vdf x),
                VBytes (cbi_challenge_chain_sp_signature x),
                VDFInfo_val (cbi_challenge_chain_ip_vdf x)])"

record ChallengeChainSubSlot =
  challenge_chain_end_of_slot_vdf :: VDFInfo
  cc_infused_challenge_chain_sub_slot_hash :: "bytes option"
  subepoch_summary_hash :: "bytes option"
  cc_new_sub_slot_iters :: "int option"
  cc_new_difficulty :: "int option"

definition ChallengeChainSubSlot_type :: ftype where
  "ChallengeChainSubSlot_type =
     TTuple [VDFInfo_type, TOptional bytes32_type, TOptional bytes32_type,
             TOptional uint64_type, TOptional uint64_type]"

definition ChallengeChainSubSlot_val :: "ChallengeChainSubSlot \<Rightarrow> fval" where
  "ChallengeChainSubSlot_val x =
     VTuple [VDFInfo_val (challenge_chain_end_of_slot_vdf x),
             opt_val VBytes (cc_infused_challenge_chain_sub_slot_hash x),
             opt_val VBytes (subepoch_summary_hash x),
             opt_val VInt (cc_new_sub_slot_iters x), opt_val VInt (cc_new_difficulty x)]"

definition ChallengeChainSubSlot_hash :: "crypto \<Rightarrow> ChallengeChainSubSlot \<Rightarrow> bytes res" where
  "ChallengeChainSubSlot_hash cr x = get_hash cr ChallengeChainSubSlot_type (ChallengeChainSubSlot_val x)"

record InfusedChallengeChainSubSlot =
  infused_challenge_chain_end_of_slot_vdf :: VDFInfo

definition InfusedChallengeChainSubSlot_hash :: "crypto \<Rightarrow> InfusedChallengeChainSubSlot \<Rightarrow> bytes res" where
  "InfusedChallengeChainSubSlot_hash cr x =
     get_hash cr (TTuple [VDFInfo_type]) (VTuple [VDFInfo_val (infused_challenge_chain_end_of_slot_vdf x)])"

record RewardChainSubSlot =
  end_of_slot_vdf :: VDFInfo
  challenge_chain_sub_slot_hash :: bytes
  rc_infused_challenge_chain_sub_slot_hash :: "bytes option"
  rc_deficit :: int

definition RewardChainSubSlot_hash :: "crypto \<Rightarrow> RewardChainSubSlot \<Rightarrow> bytes res" where
  "RewardChainSubSlot_hash cr x =
     get_hash cr (TTuple [VDFInfo_type, bytes32_type, TOptional bytes32_type, uint8_type])
       (VTuple [VDFInfo_val (end_of_slot_vdf x), VBytes (challenge_chain_sub_slot_hash x),
                opt_val VBytes (rc_infused_challenge_chain_sub_slot_hash x), VInt (rc_deficit x)])"

record SubSlotProofs =
  challenge_chain_slot_proof :: VDFProof
  infused_challenge_chain_slot_proof :: "VDFProof option"
  reward_chain_slot_proof :: VDFProof

record EndOfSubSlotBundle =
  challenge_chain :: ChallengeChainSubSlot
  infused_challenge_chain :: "InfusedChallengeChainSubSlot option"
  reward_chain :: RewardChainSubSlot
  proofs :: SubSlotProofs

record SubEpochSummary =
  prev_subepoch_summary_hash :: bytes
  reward_chain_hash :: bytes
  num_blocks_overflow :: int
  ses_new_difficulty :: "int option"
  ses_new_sub_slot_iters :: "int option"

definition SubEpochSummary_type :: ftype where
  "SubEpochSummary_type =
     TTuple [bytes32_type, bytes32_type, uint8_type, TOptional uint64_type, TOptional uint64_type]"

definition SubEpochSummary_val :: "SubEpochSummary \<Rightarrow> fval" where
  "SubEpochSummary_val x =
     VTuple [VBytes (prev_subepoch_summary_hash x), VBytes (reward_chain_hash x),
             VInt (num_blocks_overflow x), opt_val VInt (ses_new_difficulty x),
             opt_val VInt (ses_new_sub_slot_iters x)]"

definition SubEpochSummary_hash :: "crypto \<Rightarrow> SubEpochSummary \<Rightarrow> bytes res" where
  "SubEpochSummary_hash cr x = get_hash cr SubEpochSummary_type (SubEpochSummary_val x)"


section \<open>Coins and the foliage\<close>

record Coin =
  parent_coin_info :: bytes
  coin_puzzle_hash :: bytes
  coin_amount :: int

definition Coin_val :: "Coin \<Rightarrow> fval" where
  "Coin_val x =
     VTuple [VBytes (parent_coin_info x), VBytes (coin_puzzle_hash x), VInt (coin_amount x)]"

text \<open>\<^verbatim>\<open>Coin.get_hash\<close> does not use the streamable format: the amount is a CLVM integer.\<close>

definition coin_name :: "crypto \<Rightarrow> Coin \<Rightarrow> bytes res" where
  "coin_name cr x =
     std_hash cr (parent_coin_info x @ coin_puzzle_hash x @ clvm_int_to_bytes cr (coin_amount x))"

record TransactionsInfo =
  generator_root :: bytes
  generator_refs_root :: bytes
  ti_aggregated_signature :: bytes
  ti_fees :: int
  ti_cost :: int
  ti_reward_claims_incorporated :: "Coin list"

definition TransactionsInfo_hash :: "crypto \<Rightarrow> TransactionsInfo \<Rightarrow> bytes res" where
  "TransactionsInfo_hash cr x =
     get_hash cr
       (TTuple [bytes32_type, bytes32_type, G2Element_type, uint64_type, uint64_type,
                TList (TTuple [bytes32_type, bytes32_type, uint64_type])])
       (VTuple [VBytes (generator_root x), VBytes (generator_refs_root x),
                VBytes (ti_aggregated_signature x), VInt (ti_fees x), VInt (ti_cost x),
                VList (map Coin_val (ti_reward_claims_incorporated x))])"

record FoliageTransactionBlock =
  ftb_prev_transaction_block_hash :: bytes
  ftb_timestamp :: int
  filter_hash :: bytes
  additions_root :: bytes
  removals_root :: bytes
  transactions_info_hash :: bytes

definition FoliageTransactionBlock_type :: ftype where
  "FoliageTransactionBlock_type =
     TTuple [bytes32_type, uint64_type, bytes32_type, bytes32_type, bytes32_type, bytes32_type]"

definition FoliageTransactionBlock_val :: "FoliageTransactionBlock \<Rightarrow> fval" where
  "FoliageTransactionBlock_val x =
     VTuple [VBytes (ftb_prev_transaction_block_hash x), VInt (ftb_timestamp x),
             VBytes (filter_hash x), VBytes (additions_root x), VBytes (removals_root x),
             VBytes (transactions_info_hash x)]"

definition FoliageTransactionBlock_hash :: "crypto \<Rightarrow> FoliageTransactionBlock \<Rightarrow> bytes res" where
  "FoliageTransactionBlock_hash cr x = get_hash cr FoliageTransactionBlock_type (FoliageTransactionBlock_val x)"

record PoolTarget =
  pt_puzzle_hash :: bytes
  max_height :: int

definition PoolTarget_type :: ftype where
  "PoolTarget_type = TTuple [bytes32_type, uint32_type]"

definition PoolTarget_val :: "PoolTarget \<Rightarrow> fval" where
  "PoolTarget_val x = VTuple [VBytes (pt_puzzle_hash x), VInt (max_height x)]"

definition PoolTarget_bytes :: "crypto \<Rightarrow> PoolTarget \<Rightarrow> bytes res" where
  "PoolTarget_bytes cr x = stream_one_item (ext_valid cr) PoolTarget_type (PoolTarget_val x)"

record FoliageBlockData =
  unfinished_reward_block_hash :: bytes
  pool_target :: PoolTarget
  pool_signature :: "bytes option"
  farmer_reward_puzzle_hash :: bytes
  extension_data :: bytes

definition FoliageBlockData_type :: ftype where
  "FoliageBlockData_type =
     TTuple [bytes32_type, PoolTarget_type, TOptional G2Element_type, bytes32_type, bytes32_type]"

definition FoliageBlockData_val :: "FoliageBlockData \<Rightarrow> fval" where
  "FoliageBlockData_val x =
     VTuple [VBytes (unfinished_reward_block_hash x), PoolTarget_val (pool_target x),
             opt_val VBytes (pool_signature x), VBytes (farmer_reward_puzzle_hash x),
             VBytes (extension_data x)]"

definition FoliageBlockData_hash :: "crypto \<Rightarrow> FoliageBlockData \<Rightarrow> bytes res" where
  "FoliageBlockData_hash cr x = get_hash cr FoliageBlockData_type (FoliageBlockData_val x)"

record Foliage =
  prev_block_hash :: bytes
  reward_block_hash :: bytes
  foliage_block_data :: FoliageBlockData
  foliage_block_data_signature :: bytes
  foliage_transaction_block_hash :: "bytes option"
  foliage_transaction_block_signature :: "bytes option"

definition Foliage_type :: ftype where
  "Foliage_type =
     TTuple [bytes32_type, bytes32_type, FoliageBlockData_type, G2Element_type,
             TOptional bytes32_type, TOptional G2Element_type]"

definition Foliage_val :: "Foliage \<Rightarrow> fval" where
  "Foliage_val x =
     VTuple [VBytes (prev_block_hash x), VBytes (reward_block_hash x),
             FoliageBlockData_val (foliage_block_data x), VBytes (foliage_block_data_signature x),
             opt_val VBytes (foliage_transaction_block_hash x),
             opt_val VBytes (foliage_transaction_block_signature x)]"

definition Foliage_hash :: "crypto \<Rightarrow> Foliage \<Rightarrow> bytes res" where
  "Foliage_hash cr x = get_hash cr Foliage_type (Foliage_val x)"

section \<open>The reward chain block\<close>

record RewardChainBlockUnfinished =
  rcbu_total_iters :: int
  rcbu_signage_point_index :: int
  rcbu_pos_ss_cc_challenge_hash :: bytes
  rcbu_proof_of_space :: ProofOfSpace
  rcbu_challenge_chain_sp_vdf :: "VDFInfo option"
  rcbu_challenge_chain_sp_signature :: bytes
  rcbu_reward_chain_sp_vdf :: "VDFInfo option"
  rcbu_reward_chain_sp_signature :: bytes

definition RewardChainBlockUnfinished_hash :: "crypto \<Rightarrow> RewardChainBlockUnfinished \<Rightarrow> bytes res" where
  "RewardChainBlockUnfinished_hash cr x =
     get_hash cr
       (TTuple [uint128_type, uint8_type, bytes32_type, ProofOfSpace_type, TOptional VDFInfo_type,
                G2Element_type, TOptional VDFInfo_type, G2Element_type])
       (VTuple [VInt (rcbu_total_iters x), VInt (rcbu_signage_point_index x),
                VBytes (rcbu_pos_ss_cc_challenge_hash x), ProofOfSpace_val (rcbu_proof_of_space x),
                opt_val VDFInfo_val (rcbu_challenge_chain_sp_vdf x),
                VBytes (rcbu_challenge_chain_sp_signature x),
                opt_val VDFInfo_val (rcbu_reward_chain_sp_vdf x),
                VBytes (rcbu_reward_chain_sp_signature x)])"

record RewardChainBlock =
  rcb_weight :: int
  rcb_height :: int
  rcb_total_iters :: int
  rcb_signage_point_index :: int
  rcb_pos_ss_cc_challenge_hash :: bytes
  rcb_proof_of_space :: ProofOfSpace
  rcb_challenge_chain_sp_vdf :: "VDFInfo option"
  rcb_challenge_chain_sp_signature :: bytes
  rcb_challenge_chain_ip_vdf :: VDFInfo
  rcb_reward_chain_sp_vdf :: "VDFInfo option"
  rcb_reward_chain_sp_signature :: bytes
  rcb_reward_chain_ip_vdf :: VDFInfo
  rcb_infused_challenge_chain_ip_vdf :: "VDFInfo option"
  rcb_is_transaction_block :: bool

definition RewardChainBlock_type :: ftype where
  "RewardChainBlock_type =
     TTuple [uint128_type, uint32_type, uint128_type, uint8_type, bytes32_type, ProofOfSpace_type,
             TOptional VDFInfo_type, G2Element_type, VDFInfo_type, TOptional VDFInfo_type,
             G2Element_type, VDFInfo_type, TOptional VDFInfo_type, TBool]"

definition RewardChainBlock_val :: "RewardChainBlock \<Rightarrow> fval" where
  "RewardChainBlock_val x =
     VTuple [VInt (rcb_weight x), VInt (rcb_height x), VInt (rcb_total_iters x),
             VInt (rcb_signage_point_index x), VBytes (rcb_pos_ss_cc_challenge_hash x),
             ProofOfSpace_val (rcb_proof_of_space x),
             opt_val VDFInfo_val (rcb_challenge_chain_sp_vdf x),
             VBytes (rcb_challenge_chain_sp_signature x),
             VDFInfo_val (rcb_challenge_chain_ip_vdf x),
             opt_val VDFInfo_val (rcb_reward_chain_sp_vdf x),
             VBytes (rcb_reward_chain_sp_signature x), VDFInfo_val (rcb_reward_chain_ip_vdf x),
             opt_val VDFInfo_val (rcb_infused_challenge_chain_ip_vdf x),
             VBool (rcb_is_transaction_block x)]"

definition RewardChainBlock_hash :: "crypto \<Rightarrow> RewardChainBlock \<Rightarrow> bytes res" where
  "RewardChainBlock_hash cr x = get_hash cr RewardChainBlock_type (RewardChainBlock_val x)"

definition get_unfinished :: "RewardChainBlock \<Rightarrow> RewardChainBlockUnfinished" where
  "get_unfinished x =
     \<lparr>rcbu_total_iters = rcb_total_iters x,
      rcbu_signage_point_index = rcb_signage_point_index x,
      rcbu_pos_ss_cc_challenge_hash = rcb_pos_ss_cc_challenge_hash x,
      rcbu_proof_of_space = rcb_proof_of_space x,
      rcbu_challenge_chain_sp_vdf = rcb_challenge_chain_sp_vdf x,
      rcbu_challenge_chain_sp_signature = rcb_challenge_chain_sp_signature x,
      rcbu_reward_chain_sp_vdf = rcb_reward_chain_sp_vdf x,
      rcbu_reward_chain_sp_signature = rcb_reward_chain_sp_signature x\<rparr>"

section \<open>Header blocks\<close>

record UnfinishedHeaderBlock =
  uhb_finished_sub_slots :: "EndOfSubSlotBundle list"
  uhb_reward_chain_block :: RewardChainBlockUnfinished
  uhb_challenge_chain_sp_proof :: "VDFProof option"
  uhb_reward_chain_sp_proof :: "VDFProof option"
  uhb_foliage :: Foliage
  uhb_foliage_transaction_block :: "FoliageTransactionBlock option"
  uhb_transactions_filter :: bytes

abbreviation uhb_prev_header_hash :: "UnfinishedHeaderBlock \<Rightarrow> bytes" where
  "uhb_prev_header_hash x \<equiv> prev_block_hash (uhb_foliage x)"

record HeaderBlock =
  hb_finished_sub_slots :: "EndOfSubSlotBundle list"
  hb_reward_chain_block :: RewardChainBlock
  hb_challenge_chain_sp_proof :: "VDFProof option"
  hb_challenge_chain_ip_proof :: VDFProof
  hb_reward_chain_sp_proof :: "VDFProof option"
  hb_reward_chain_ip_proof :: VDFProof
  hb_infused_challenge_chain_ip_proof :: "VDFProof option"
  hb_foliage :: Foliage
  hb_foliage_transaction_block :: "FoliageTransactionBlock option"
  hb_transactions_filter :: bytes
  hb_transactions_info :: "TransactionsInfo option"

definition hb_prev_header_hash :: "HeaderBlock \<Rightarrow> bytes" where
  "hb_prev_header_hash x = prev_block_hash (hb_foliage x)"

definition hb_height :: "HeaderBlock \<Rightarrow> int" where
  "hb_height x = rcb_height (hb_reward_chain_block x)"

definition hb_weight :: "HeaderBlock \<Rightarrow> int" where
  "hb_weight x = rcb_weight (hb_reward_chain_block x)"

definition hb_total_iters :: "HeaderBlock \<Rightarrow> int" where
  "hb_total_iters x = rcb_total_iters (hb_reward_chain_block x)"

definition hb_header_hash :: "crypto \<Rightarrow> HeaderBlock \<Rightarrow> bytes res" where
  "hb_header_hash cr x = Foliage_hash cr (hb_foliage x)"

section \<open>Equal serializations belong to equal objects\<close>

named_theorems val_defs \<open>the field values of each streamable class\<close>

lemma opt_val_simps [simp]: "opt_val f None = VNone" "opt_val f (Some v) = VSome (f v)"
  by (simp_all add: opt_val_def)

lemma opt_val_eq: "(\<And>a b. f a = f b \<longleftrightarrow> a = b) \<Longrightarrow> opt_val f x = opt_val f y \<longleftrightarrow> x = y"
  by (cases x; cases y) auto

lemma opt_VBytes_eq [simp]: "opt_val VBytes x = opt_val VBytes y \<longleftrightarrow> x = y"
  by (rule opt_val_eq) simp

lemma opt_VInt_eq [simp]: "opt_val VInt x = opt_val VInt y \<longleftrightarrow> x = y"
  by (rule opt_val_eq) simp

lemma ClassgroupElement_val_eq [simp]: "ClassgroupElement_val x = ClassgroupElement_val y \<longleftrightarrow> x = y"
  by (cases x; cases y) (auto simp: ClassgroupElement_val_def)

lemma VDFInfo_val_eq [simp]: "VDFInfo_val x = VDFInfo_val y \<longleftrightarrow> x = y"
  by (cases x; cases y) (auto simp: VDFInfo_val_def)

lemma opt_VDFInfo_eq [simp]: "opt_val VDFInfo_val x = opt_val VDFInfo_val y \<longleftrightarrow> x = y"
  by (rule opt_val_eq) simp

lemma ProofOfSpace_val_eq [simp]: "ProofOfSpace_val x = ProofOfSpace_val y \<longleftrightarrow> x = y"
  by (cases x; cases y) (auto simp: ProofOfSpace_val_def)

lemma PoolTarget_val_eq [simp]: "PoolTarget_val x = PoolTarget_val y \<longleftrightarrow> x = y"
  by (cases x; cases y) (auto simp: PoolTarget_val_def)

lemma FoliageBlockData_val_eq [simp]: "FoliageBlockData_val x = FoliageBlockData_val y \<longleftrightarrow> x = y"
  by (cases x; cases y) (auto simp: FoliageBlockData_val_def)

lemma Foliage_val_eq [simp]: "Foliage_val x = Foliage_val y \<longleftrightarrow> x = y"
  by (cases x; cases y) (auto simp: Foliage_val_def)

lemma ChallengeChainSubSlot_val_eq [simp]:
  "ChallengeChainSubSlot_val x = ChallengeChainSubSlot_val y \<longleftrightarrow> x = y"
  by (cases x; cases y) (auto simp: ChallengeChainSubSlot_val_def)

lemma SubEpochSummary_val_eq [simp]: "SubEpochSummary_val x = SubEpochSummary_val y \<longleftrightarrow> x = y"
  by (cases x; cases y) (auto simp: SubEpochSummary_val_def)

lemma RewardChainBlock_val_eq [simp]: "RewardChainBlock_val x = RewardChainBlock_val y \<longleftrightarrow> x = y"
  by (cases x; cases y) (auto simp: RewardChainBlock_val_def)

lemma FoliageTransactionBlock_val_eq [simp]:
  "FoliageTransactionBlock_val x = FoliageTransactionBlock_val y \<longleftrightarrow> x = y"
  by (cases x; cases y) (auto simp: FoliageTransactionBlock_val_def)

lemma RewardChainBlock_hash_binding:
  "RewardChainBlock_hash cr x = Ok h \<Longrightarrow> RewardChainBlock_hash cr y = Ok h \<Longrightarrow>
   x = y \<or> hash_collision cr RewardChainBlock_type (RewardChainBlock_val x) (RewardChainBlock_val y)"
  unfolding RewardChainBlock_hash_def by (drule (1) get_hash_binding) simp

lemma FoliageTransactionBlock_hash_binding:
  "FoliageTransactionBlock_hash cr x = Ok h \<Longrightarrow> FoliageTransactionBlock_hash cr y = Ok h \<Longrightarrow>
   x = y \<or> hash_collision cr FoliageTransactionBlock_type (FoliageTransactionBlock_val x) (FoliageTransactionBlock_val y)"
  unfolding FoliageTransactionBlock_hash_def by (drule (1) get_hash_binding) simp

lemma Foliage_hash_binding:
  "Foliage_hash cr x = Ok h \<Longrightarrow> Foliage_hash cr y = Ok h \<Longrightarrow>
   x = y \<or> hash_collision cr Foliage_type (Foliage_val x) (Foliage_val y)"
  unfolding Foliage_hash_def by (drule (1) get_hash_binding) simp

lemma ChallengeChainSubSlot_hash_binding:
  "ChallengeChainSubSlot_hash cr x = Ok h \<Longrightarrow> ChallengeChainSubSlot_hash cr y = Ok h \<Longrightarrow>
   x = y \<or> hash_collision cr ChallengeChainSubSlot_type (ChallengeChainSubSlot_val x) (ChallengeChainSubSlot_val y)"
  unfolding ChallengeChainSubSlot_hash_def by (drule (1) get_hash_binding) simp

lemma SubEpochSummary_hash_binding:
  "SubEpochSummary_hash cr x = Ok h \<Longrightarrow> SubEpochSummary_hash cr y = Ok h \<Longrightarrow>
   x = y \<or> hash_collision cr SubEpochSummary_type (SubEpochSummary_val x) (SubEpochSummary_val y)"
  unfolding SubEpochSummary_hash_def by (drule (1) get_hash_binding) simp

section \<open>Every hash is computed\<close>

lemma returns_hashes [returns_rules]:
  "returns (ClassgroupElement_hash cr a)" "returns (ChallengeBlockInfo_hash cr b)"
  "returns (ChallengeChainSubSlot_hash cr c)" "returns (InfusedChallengeChainSubSlot_hash cr d)"
  "returns (RewardChainSubSlot_hash cr e)" "returns (SubEpochSummary_hash cr f)"
  "returns (coin_name cr g)" "returns (TransactionsInfo_hash cr h)"
  "returns (FoliageTransactionBlock_hash cr i)" "returns (FoliageBlockData_hash cr j)"
  "returns (Foliage_hash cr k)" "returns (RewardChainBlockUnfinished_hash cr l)"
  "returns (RewardChainBlock_hash cr m)" "returns (hb_header_hash cr n)"
  by (simp_all only: ClassgroupElement_hash_def ChallengeBlockInfo_hash_def coin_name_def
      ChallengeChainSubSlot_hash_def InfusedChallengeChainSubSlot_hash_def RewardChainSubSlot_hash_def
      SubEpochSummary_hash_def TransactionsInfo_hash_def FoliageTransactionBlock_hash_def
      FoliageBlockData_hash_def Foliage_hash_def RewardChainBlockUnfinished_hash_def
      RewardChainBlock_hash_def hb_header_hash_def returns_get_hash returns_std_hash)

lemma returns_pos [returns_rules]:
  "returns (get_plot_id cr p)"
  "returns (verify_and_get_quality_string cr mn mx z p ch sp)"
proof -
  note defs = calculate_plot_id_ph_def calculate_plot_id_pk_def calculate_pos_challenge_def
    calculate_plot_filter_input_def passes_plot_filter_def get_quality_string_def
  show id: "returns (get_plot_id cr p)" for p
    unfolding get_plot_id_def defs by (intro returns_rules)
  show "returns (verify_and_get_quality_string cr mn mx z p ch sp)"
    unfolding verify_and_get_quality_string_def defs by (intro returns_rules id)
qed

end
