(* ===== verification/Consensus_Constants.thy ===== *)
theory Consensus_Constants
  imports Significant_Bits
begin

text \<open>
  \<^verbatim>\<open>chia/consensus/constants.py\<close> and \<^verbatim>\<open>default_constants.py\<close>, the error codes of
  \<^verbatim>\<open>chia/util/errors.py\<close>, and the conditions on the constants that the comments of those files
  state; the default constants satisfy them.
\<close>

section \<open>Constants\<close>

record ConsensusConstants =
  SLOT_BLOCKS_TARGET :: int
  MIN_BLOCKS_PER_CHALLENGE_BLOCK :: int
  MAX_SUB_SLOT_BLOCKS :: int
  NUM_SPS_SUB_SLOT :: int
  SUB_SLOT_ITERS_STARTING :: int
  DIFFICULTY_CONSTANT_FACTOR :: int
  DIFFICULTY_STARTING :: int
  DIFFICULTY_CHANGE_MAX_FACTOR :: int
  SUB_EPOCH_BLOCKS :: int
  EPOCH_BLOCKS :: int
  SIGNIFICANT_BITS :: int
  DISCRIMINANT_SIZE_BITS :: int
  NUMBER_ZERO_BITS_PLOT_FILTER :: int
  MIN_PLOT_SIZE :: int
  MAX_PLOT_SIZE :: int
  SUB_SLOT_TIME_TARGET :: int
  NUM_SP_INTERVALS_EXTRA :: int
  MAX_FUTURE_TIME :: int
  NUMBER_OF_TIMESTAMPS :: int
  GENESIS_CHALLENGE :: bytes
  AGG_SIG_ME_ADDITIONAL_DATA :: bytes
  GENESIS_PRE_FARM_POOL_PUZZLE_HASH :: bytes
  GENESIS_PRE_FARM_FARMER_PUZZLE_HASH :: bytes
  MAX_VDF_WITNESS_SIZE :: int
  MEMPOOL_BLOCK_BUFFER :: int
  MAX_COIN_AMOUNT :: int
  MAX_BLOCK_COST_CLVM :: int
  COST_PER_BYTE :: int
  WEIGHT_PROOF_THRESHOLD :: int
  WEIGHT_PROOF_RECENT_BLOCKS :: int
  MAX_BLOCK_COUNT_PER_REQUESTS :: int
  INITIAL_FREEZE_END_TIMESTAMP :: int
  BLOCKS_CACHE_SIZE :: int
  NETWORK_TYPE :: int
  MAX_GENERATOR_SIZE :: int
  MAX_GENERATOR_REF_LIST_SIZE :: int
  POOL_SUB_SLOT_ITERS :: int

definition DEFAULT_CONSTANTS :: ConsensusConstants where
  "DEFAULT_CONSTANTS =
     \<lparr>SLOT_BLOCKS_TARGET = 32,
      MIN_BLOCKS_PER_CHALLENGE_BLOCK = 16,
      MAX_SUB_SLOT_BLOCKS = 128,
      NUM_SPS_SUB_SLOT = 64,
      SUB_SLOT_ITERS_STARTING = 2 ^ 27,
      DIFFICULTY_CONSTANT_FACTOR = 2 ^ 29,
      DIFFICULTY_STARTING = 1,
      DIFFICULTY_CHANGE_MAX_FACTOR = 3,
      SUB_EPOCH_BLOCKS = 384,
      EPOCH_BLOCKS = 4608,
      SIGNIFICANT_BITS = 8,
      DISCRIMINANT_SIZE_BITS = 1024,
      NUMBER_ZERO_BITS_PLOT_FILTER = 9,
      MIN_PLOT_SIZE = 32,
      MAX_PLOT_SIZE = 50,
      SUB_SLOT_TIME_TARGET = 600,
      NUM_SP_INTERVALS_EXTRA = 3,
      MAX_FUTURE_TIME = 5 * 60,
      NUMBER_OF_TIMESTAMPS = 11,
      GENESIS_CHALLENGE = [227, 176, 196, 66, 152, 252, 28, 20, 154, 251, 244, 200, 153, 111, 185,
        36, 39, 174, 65, 228, 100, 155, 147, 76, 164, 149, 153, 27, 120, 82, 184, 85],
      AGG_SIG_ME_ADDITIONAL_DATA = [204, 213, 187, 113, 24, 53, 50, 191, 242, 32, 186, 70, 194,
        104, 153, 26, 63, 240, 126, 179, 88, 232, 37, 90, 101, 195, 10, 45, 206, 14, 95,
        187],
      GENESIS_PRE_FARM_POOL_PUZZLE_HASH = [55, 19, 215, 34, 76, 204, 23, 114, 95, 227, 21, 143,
        89, 88, 52, 149, 107, 238, 34, 114, 43, 114, 34, 104, 65, 217, 147, 22, 13, 20, 164,
        137],
      GENESIS_PRE_FARM_FARMER_PUZZLE_HASH = [55, 19, 215, 34, 76, 204, 23, 114, 95, 227, 21, 143,
        89, 88, 52, 149, 107, 238, 34, 114, 43, 114, 34, 104, 65, 217, 147, 22, 13, 20, 164,
        137],
      MAX_VDF_WITNESS_SIZE = 64,
      MEMPOOL_BLOCK_BUFFER = 50,
      MAX_COIN_AMOUNT = 2 ^ 64 - 1,
      MAX_BLOCK_COST_CLVM = 11000000000,
      COST_PER_BYTE = 12,
      WEIGHT_PROOF_THRESHOLD = 2,
      WEIGHT_PROOF_RECENT_BLOCKS = 1000,
      MAX_BLOCK_COUNT_PER_REQUESTS = 32,
      INITIAL_FREEZE_END_TIMESTAMP = 1620061200,
      BLOCKS_CACHE_SIZE = 4608 + (128 * 4),
      NETWORK_TYPE = 0,
      MAX_GENERATOR_SIZE = 1000000,
      MAX_GENERATOR_REF_LIST_SIZE = 512,
      POOL_SUB_SLOT_ITERS = 37600000000\<rparr>"

text \<open>
  What the comments of the source ask of the constants: the number of signage points is a power of
  two, an epoch is a whole number of sub-epochs, a sub-slot has fewer blocks than half a sub-epoch.
  Every value is positive where the code divides by it, and the starting sub-slot iterations are a
  multiple of the number of signage points.
\<close>

definition constants_ok :: "ConsensusConstants \<Rightarrow> bool" where
  "constants_ok c \<longleftrightarrow>
     NUM_SPS_SUB_SLOT c = 2 ^ (nat_bit_length (nat (NUM_SPS_SUB_SLOT c)) - 1) \<and>
     0 < NUM_SP_INTERVALS_EXTRA c \<and> NUM_SP_INTERVALS_EXTRA c < NUM_SPS_SUB_SLOT c \<and>
     1 \<le> MIN_BLOCKS_PER_CHALLENGE_BLOCK c \<and> MIN_BLOCKS_PER_CHALLENGE_BLOCK c < 2 ^ 8 \<and>
     0 < SUB_EPOCH_BLOCKS c \<and> 2 * MAX_SUB_SLOT_BLOCKS c < SUB_EPOCH_BLOCKS c \<and>
     0 < MAX_SUB_SLOT_BLOCKS c \<and>
     SUB_EPOCH_BLOCKS c dvd EPOCH_BLOCKS c \<and> SUB_EPOCH_BLOCKS c < EPOCH_BLOCKS c \<and>
     1 \<le> DIFFICULTY_CHANGE_MAX_FACTOR c \<and> 1 \<le> SIGNIFICANT_BITS c \<and>
     1 \<le> DIFFICULTY_STARTING c \<and>
     NUM_SPS_SUB_SLOT c dvd SUB_SLOT_ITERS_STARTING c \<and> 0 < SUB_SLOT_ITERS_STARTING c"

lemma DEFAULT_CONSTANTS_ok: "constants_ok DEFAULT_CONSTANTS"
  by (simp add: constants_ok_def DEFAULT_CONSTANTS_def nat_bit_length.simps)

section \<open>Error codes\<close>

text \<open>
  An \<^verbatim>\<open>Err\<close> is identified by its value; \<open>Err_values\<close> lists the values of the enumeration, and
  \<open>Err_of_value\<close> is the constructor call \<^verbatim>\<open>Err(v)\<close>, which rejects any other number.
\<close>

datatype Err = Err int

definition Err_values :: "int list" where
  "Err_values =
     [-1, -2, -3, -4, -5, -6, -7, -8, -9, -10, -11, -12, -13, 1, 2, 3, 4, 5, 6, 7, 8, 9, 10,
      11, 12, 13, 14, 15, 16, 17, 18, 19, 20, 21, 22, 23, 24, 25, 26, 27, 28, 29, 30, 31, 32,
      33, 34, 35, 36, 37, 38, 39, 40, 41, 42, 43, 44, 45, 46, 47, 48, 49, 50, 51, 52, 53, 54,
      55, 56, 57, 58, 59, 60, 61, 62, 65, 66, 67, 68, 69, 70, 71, 72, 73, 74, 75, 76, 77, 78,
      79, 80, 81, 82, 83, 84, 85, 86, 87, 88, 89, 90, 91, 92, 93, 94, 95, 96, 97, 98, 99, 100,
      101, 102, 103, 104, 105, 106, 107, 108, 109, 110, 111, 112, 113, 114, 115, 116, 117,
      118, 119, 120, 121, 122, 123, 124]"

definition Err_of_value :: "int \<Rightarrow> Err res" where
  "Err_of_value v = (if v \<in> set Err_values then Ok (Err v) else Raise ValueError)"

text \<open>\<^verbatim>\<open>error.value\<close>.\<close>

primrec Err_value :: "Err \<Rightarrow> int" where
  "Err_value (Err v) = v"

abbreviation ERR_UNKNOWN :: Err where "ERR_UNKNOWN \<equiv> Err 1"
abbreviation INVALID_BLOCK_SOLUTION :: Err where "INVALID_BLOCK_SOLUTION \<equiv> Err 2"
abbreviation INVALID_COIN_SOLUTION :: Err where "INVALID_COIN_SOLUTION \<equiv> Err 3"
abbreviation DUPLICATE_OUTPUT :: Err where "DUPLICATE_OUTPUT \<equiv> Err 4"
abbreviation DOUBLE_SPEND :: Err where "DOUBLE_SPEND \<equiv> Err 5"
abbreviation UNKNOWN_UNSPENT :: Err where "UNKNOWN_UNSPENT \<equiv> Err 6"
abbreviation BAD_AGGREGATE_SIGNATURE :: Err where "BAD_AGGREGATE_SIGNATURE \<equiv> Err 7"
abbreviation WRONG_PUZZLE_HASH :: Err where "WRONG_PUZZLE_HASH \<equiv> Err 8"
abbreviation BAD_FARMER_COIN_AMOUNT :: Err where "BAD_FARMER_COIN_AMOUNT \<equiv> Err 9"
abbreviation INVALID_CONDITION :: Err where "INVALID_CONDITION \<equiv> Err 10"
abbreviation ASSERT_MY_COIN_ID_FAILED :: Err where "ASSERT_MY_COIN_ID_FAILED \<equiv> Err 11"
abbreviation ASSERT_ANNOUNCE_CONSUMED_FAILED :: Err where "ASSERT_ANNOUNCE_CONSUMED_FAILED \<equiv> Err 12"
abbreviation ASSERT_HEIGHT_RELATIVE_FAILED :: Err where "ASSERT_HEIGHT_RELATIVE_FAILED \<equiv> Err 13"
abbreviation ASSERT_HEIGHT_ABSOLUTE_FAILED :: Err where "ASSERT_HEIGHT_ABSOLUTE_FAILED \<equiv> Err 14"
abbreviation ASSERT_SECONDS_ABSOLUTE_FAILED :: Err where "ASSERT_SECONDS_ABSOLUTE_FAILED \<equiv> Err 15"
abbreviation COIN_AMOUNT_EXCEEDS_MAXIMUM :: Err where "COIN_AMOUNT_EXCEEDS_MAXIMUM \<equiv> Err 16"
abbreviation SEXP_ERROR :: Err where "SEXP_ERROR \<equiv> Err 17"
abbreviation INVALID_FEE_LOW_FEE :: Err where "INVALID_FEE_LOW_FEE \<equiv> Err 18"
abbreviation MEMPOOL_CONFLICT :: Err where "MEMPOOL_CONFLICT \<equiv> Err 19"
abbreviation MINTING_COIN :: Err where "MINTING_COIN \<equiv> Err 20"
abbreviation EXTENDS_UNKNOWN_BLOCK :: Err where "EXTENDS_UNKNOWN_BLOCK \<equiv> Err 21"
abbreviation COINBASE_NOT_YET_SPENDABLE :: Err where "COINBASE_NOT_YET_SPENDABLE \<equiv> Err 22"
abbreviation BLOCK_COST_EXCEEDS_MAX :: Err where "BLOCK_COST_EXCEEDS_MAX \<equiv> Err 23"
abbreviation BAD_ADDITION_ROOT :: Err where "BAD_ADDITION_ROOT \<equiv> Err 24"
abbreviation BAD_REMOVAL_ROOT :: Err where "BAD_REMOVAL_ROOT \<equiv> Err 25"
abbreviation INVALID_POSPACE_HASH :: Err where "INVALID_POSPACE_HASH \<equiv> Err 26"
abbreviation INVALID_COINBASE_SIGNATURE :: Err where "INVALID_COINBASE_SIGNATURE \<equiv> Err 27"
abbreviation INVALID_PLOT_SIGNATURE :: Err where "INVALID_PLOT_SIGNATURE \<equiv> Err 28"
abbreviation TIMESTAMP_TOO_FAR_IN_PAST :: Err where "TIMESTAMP_TOO_FAR_IN_PAST \<equiv> Err 29"
abbreviation TIMESTAMP_TOO_FAR_IN_FUTURE :: Err where "TIMESTAMP_TOO_FAR_IN_FUTURE \<equiv> Err 30"
abbreviation INVALID_TRANSACTIONS_FILTER_HASH :: Err where "INVALID_TRANSACTIONS_FILTER_HASH \<equiv> Err 31"
abbreviation INVALID_POSPACE_CHALLENGE :: Err where "INVALID_POSPACE_CHALLENGE \<equiv> Err 32"
abbreviation INVALID_POSPACE :: Err where "INVALID_POSPACE \<equiv> Err 33"
abbreviation INVALID_HEIGHT :: Err where "INVALID_HEIGHT \<equiv> Err 34"
abbreviation INVALID_COINBASE_AMOUNT :: Err where "INVALID_COINBASE_AMOUNT \<equiv> Err 35"
abbreviation INVALID_MERKLE_ROOT :: Err where "INVALID_MERKLE_ROOT \<equiv> Err 36"
abbreviation INVALID_BLOCK_FEE_AMOUNT :: Err where "INVALID_BLOCK_FEE_AMOUNT \<equiv> Err 37"
abbreviation INVALID_WEIGHT :: Err where "INVALID_WEIGHT \<equiv> Err 38"
abbreviation INVALID_TOTAL_ITERS :: Err where "INVALID_TOTAL_ITERS \<equiv> Err 39"
abbreviation BLOCK_IS_NOT_FINISHED :: Err where "BLOCK_IS_NOT_FINISHED \<equiv> Err 40"
abbreviation INVALID_NUM_ITERATIONS :: Err where "INVALID_NUM_ITERATIONS \<equiv> Err 41"
abbreviation INVALID_POT :: Err where "INVALID_POT \<equiv> Err 42"
abbreviation INVALID_POT_CHALLENGE :: Err where "INVALID_POT_CHALLENGE \<equiv> Err 43"
abbreviation INVALID_TRANSACTIONS_GENERATOR_HASH :: Err where "INVALID_TRANSACTIONS_GENERATOR_HASH \<equiv> Err 44"
abbreviation INVALID_POOL_TARGET :: Err where "INVALID_POOL_TARGET \<equiv> Err 45"
abbreviation INVALID_COINBASE_PARENT :: Err where "INVALID_COINBASE_PARENT \<equiv> Err 46"
abbreviation INVALID_FEES_COIN_PARENT :: Err where "INVALID_FEES_COIN_PARENT \<equiv> Err 47"
abbreviation RESERVE_FEE_CONDITION_FAILED :: Err where "RESERVE_FEE_CONDITION_FAILED \<equiv> Err 48"
abbreviation NOT_BLOCK_BUT_HAS_DATA :: Err where "NOT_BLOCK_BUT_HAS_DATA \<equiv> Err 49"
abbreviation IS_TRANSACTION_BLOCK_BUT_NO_DATA :: Err where "IS_TRANSACTION_BLOCK_BUT_NO_DATA \<equiv> Err 50"
abbreviation INVALID_PREV_BLOCK_HASH :: Err where "INVALID_PREV_BLOCK_HASH \<equiv> Err 51"
abbreviation INVALID_TRANSACTIONS_INFO_HASH :: Err where "INVALID_TRANSACTIONS_INFO_HASH \<equiv> Err 52"
abbreviation INVALID_FOLIAGE_BLOCK_HASH :: Err where "INVALID_FOLIAGE_BLOCK_HASH \<equiv> Err 53"
abbreviation INVALID_REWARD_COINS :: Err where "INVALID_REWARD_COINS \<equiv> Err 54"
abbreviation INVALID_BLOCK_COST :: Err where "INVALID_BLOCK_COST \<equiv> Err 55"
abbreviation NO_END_OF_SLOT_INFO :: Err where "NO_END_OF_SLOT_INFO \<equiv> Err 56"
abbreviation INVALID_PREV_CHALLENGE_SLOT_HASH :: Err where "INVALID_PREV_CHALLENGE_SLOT_HASH \<equiv> Err 57"
abbreviation INVALID_SUB_EPOCH_SUMMARY_HASH :: Err where "INVALID_SUB_EPOCH_SUMMARY_HASH \<equiv> Err 58"
abbreviation NO_SUB_EPOCH_SUMMARY_HASH :: Err where "NO_SUB_EPOCH_SUMMARY_HASH \<equiv> Err 59"
abbreviation SHOULD_NOT_MAKE_CHALLENGE_BLOCK :: Err where "SHOULD_NOT_MAKE_CHALLENGE_BLOCK \<equiv> Err 60"
abbreviation SHOULD_MAKE_CHALLENGE_BLOCK :: Err where "SHOULD_MAKE_CHALLENGE_BLOCK \<equiv> Err 61"
abbreviation INVALID_CHALLENGE_CHAIN_DATA :: Err where "INVALID_CHALLENGE_CHAIN_DATA \<equiv> Err 62"
abbreviation INVALID_CC_EOS_VDF :: Err where "INVALID_CC_EOS_VDF \<equiv> Err 65"
abbreviation INVALID_RC_EOS_VDF :: Err where "INVALID_RC_EOS_VDF \<equiv> Err 66"
abbreviation INVALID_CHALLENGE_SLOT_HASH_RC :: Err where "INVALID_CHALLENGE_SLOT_HASH_RC \<equiv> Err 67"
abbreviation INVALID_PRIOR_POINT_RC :: Err where "INVALID_PRIOR_POINT_RC \<equiv> Err 68"
abbreviation INVALID_DEFICIT :: Err where "INVALID_DEFICIT \<equiv> Err 69"
abbreviation INVALID_SUB_EPOCH_SUMMARY :: Err where "INVALID_SUB_EPOCH_SUMMARY \<equiv> Err 70"
abbreviation INVALID_PREV_SUB_EPOCH_SUMMARY_HASH :: Err where "INVALID_PREV_SUB_EPOCH_SUMMARY_HASH \<equiv> Err 71"
abbreviation INVALID_REWARD_CHAIN_HASH :: Err where "INVALID_REWARD_CHAIN_HASH \<equiv> Err 72"
abbreviation INVALID_SUB_EPOCH_OVERFLOW :: Err where "INVALID_SUB_EPOCH_OVERFLOW \<equiv> Err 73"
abbreviation INVALID_NEW_DIFFICULTY :: Err where "INVALID_NEW_DIFFICULTY \<equiv> Err 74"
abbreviation INVALID_NEW_SUB_SLOT_ITERS :: Err where "INVALID_NEW_SUB_SLOT_ITERS \<equiv> Err 75"
abbreviation INVALID_CC_SP_VDF :: Err where "INVALID_CC_SP_VDF \<equiv> Err 76"
abbreviation INVALID_RC_SP_VDF :: Err where "INVALID_RC_SP_VDF \<equiv> Err 77"
abbreviation INVALID_CC_SIGNATURE :: Err where "INVALID_CC_SIGNATURE \<equiv> Err 78"
abbreviation INVALID_RC_SIGNATURE :: Err where "INVALID_RC_SIGNATURE \<equiv> Err 79"
abbreviation CANNOT_MAKE_CC_BLOCK :: Err where "CANNOT_MAKE_CC_BLOCK \<equiv> Err 80"
abbreviation INVALID_RC_SP_PREV_IP :: Err where "INVALID_RC_SP_PREV_IP \<equiv> Err 81"
abbreviation INVALID_RC_IP_PREV_IP :: Err where "INVALID_RC_IP_PREV_IP \<equiv> Err 82"
abbreviation INVALID_IS_TRANSACTION_BLOCK :: Err where "INVALID_IS_TRANSACTION_BLOCK \<equiv> Err 83"
abbreviation INVALID_URSB_HASH :: Err where "INVALID_URSB_HASH \<equiv> Err 84"
abbreviation OLD_POOL_TARGET :: Err where "OLD_POOL_TARGET \<equiv> Err 85"
abbreviation INVALID_POOL_SIGNATURE :: Err where "INVALID_POOL_SIGNATURE \<equiv> Err 86"
abbreviation INVALID_FOLIAGE_BLOCK_PRESENCE :: Err where "INVALID_FOLIAGE_BLOCK_PRESENCE \<equiv> Err 87"
abbreviation INVALID_CC_IP_VDF :: Err where "INVALID_CC_IP_VDF \<equiv> Err 88"
abbreviation INVALID_RC_IP_VDF :: Err where "INVALID_RC_IP_VDF \<equiv> Err 89"
abbreviation IP_SHOULD_BE_NONE :: Err where "IP_SHOULD_BE_NONE \<equiv> Err 90"
abbreviation INVALID_REWARD_BLOCK_HASH :: Err where "INVALID_REWARD_BLOCK_HASH \<equiv> Err 91"
abbreviation INVALID_MADE_NON_OVERFLOW_INFUSIONS :: Err where "INVALID_MADE_NON_OVERFLOW_INFUSIONS \<equiv> Err 92"
abbreviation NO_OVERFLOWS_IN_FIRST_SUB_SLOT_NEW_EPOCH :: Err where "NO_OVERFLOWS_IN_FIRST_SUB_SLOT_NEW_EPOCH \<equiv> Err 93"
abbreviation MEMPOOL_NOT_INITIALIZED :: Err where "MEMPOOL_NOT_INITIALIZED \<equiv> Err 94"
abbreviation SHOULD_NOT_HAVE_ICC :: Err where "SHOULD_NOT_HAVE_ICC \<equiv> Err 95"
abbreviation SHOULD_HAVE_ICC :: Err where "SHOULD_HAVE_ICC \<equiv> Err 96"
abbreviation INVALID_ICC_VDF :: Err where "INVALID_ICC_VDF \<equiv> Err 97"
abbreviation INVALID_ICC_HASH_CC :: Err where "INVALID_ICC_HASH_CC \<equiv> Err 98"
abbreviation INVALID_ICC_HASH_RC :: Err where "INVALID_ICC_HASH_RC \<equiv> Err 99"
abbreviation INVALID_ICC_EOS_VDF :: Err where "INVALID_ICC_EOS_VDF \<equiv> Err 100"
abbreviation INVALID_SP_INDEX :: Err where "INVALID_SP_INDEX \<equiv> Err 101"
abbreviation TOO_MANY_BLOCKS :: Err where "TOO_MANY_BLOCKS \<equiv> Err 102"
abbreviation INVALID_CC_CHALLENGE :: Err where "INVALID_CC_CHALLENGE \<equiv> Err 103"
abbreviation INVALID_PREFARM :: Err where "INVALID_PREFARM \<equiv> Err 104"
abbreviation ASSERT_SECONDS_RELATIVE_FAILED :: Err where "ASSERT_SECONDS_RELATIVE_FAILED \<equiv> Err 105"
abbreviation BAD_COINBASE_SIGNATURE :: Err where "BAD_COINBASE_SIGNATURE \<equiv> Err 106"
abbreviation INITIAL_TRANSACTION_FREEZE :: Err where "INITIAL_TRANSACTION_FREEZE \<equiv> Err 107"
abbreviation NO_TRANSACTIONS_WHILE_SYNCING :: Err where "NO_TRANSACTIONS_WHILE_SYNCING \<equiv> Err 108"
abbreviation ALREADY_INCLUDING_TRANSACTION :: Err where "ALREADY_INCLUDING_TRANSACTION \<equiv> Err 109"
abbreviation INCOMPATIBLE_NETWORK_ID :: Err where "INCOMPATIBLE_NETWORK_ID \<equiv> Err 110"
abbreviation PRE_SOFT_FORK_MAX_GENERATOR_SIZE :: Err where "PRE_SOFT_FORK_MAX_GENERATOR_SIZE \<equiv> Err 111"
abbreviation INVALID_REQUIRED_ITERS :: Err where "INVALID_REQUIRED_ITERS \<equiv> Err 112"
abbreviation TOO_MANY_GENERATOR_REFS :: Err where "TOO_MANY_GENERATOR_REFS \<equiv> Err 113"
abbreviation ASSERT_MY_PARENT_ID_FAILED :: Err where "ASSERT_MY_PARENT_ID_FAILED \<equiv> Err 114"
abbreviation ASSERT_MY_PUZZLEHASH_FAILED :: Err where "ASSERT_MY_PUZZLEHASH_FAILED \<equiv> Err 115"
abbreviation ASSERT_MY_AMOUNT_FAILED :: Err where "ASSERT_MY_AMOUNT_FAILED \<equiv> Err 116"
abbreviation GENERATOR_RUNTIME_ERROR :: Err where "GENERATOR_RUNTIME_ERROR \<equiv> Err 117"
abbreviation INVALID_COST_RESULT :: Err where "INVALID_COST_RESULT \<equiv> Err 118"
abbreviation INVALID_TRANSACTIONS_GENERATOR_REFS_ROOT :: Err where "INVALID_TRANSACTIONS_GENERATOR_REFS_ROOT \<equiv> Err 119"
abbreviation FUTURE_GENERATOR_REFS :: Err where "FUTURE_GENERATOR_REFS \<equiv> Err 120"
abbreviation GENERATOR_REF_HAS_NO_GENERATOR :: Err where "GENERATOR_REF_HAS_NO_GENERATOR \<equiv> Err 121"
abbreviation DOUBLE_SPEND_IN_FORK :: Err where "DOUBLE_SPEND_IN_FORK \<equiv> Err 122"
abbreviation INVALID_FEE_TOO_CLOSE_TO_ZERO :: Err where "INVALID_FEE_TOO_CLOSE_TO_ZERO \<equiv> Err 123"
abbreviation COIN_AMOUNT_NEGATIVE :: Err where "COIN_AMOUNT_NEGATIVE \<equiv> Err 124"

end
