(* ===== verification/Pot_Iterations.thy ===== *)
theory Pot_Iterations
  imports Consensus_Constants Crypto
begin

text \<open>
  \<^verbatim>\<open>chia/consensus/pot_iterations.py\<close> and \<^verbatim>\<open>pos_quality.py\<close>: where in a sub-slot a signage point and
  the infusion point of a block lie, and how many iterations a proof of space has to wait.
  The lemmas give each function's value on valid input and its exception on invalid input; the
  infusion point lies a fixed number of intervals past the signage point, wrapping into the next
  sub-slot exactly for overflow blocks.
\<close>

section \<open>Definitions\<close>

definition is_overflow_block :: "ConsensusConstants \<Rightarrow> int \<Rightarrow> bool res" where
  "is_overflow_block c signage_point_index =
     (if signage_point_index \<ge> NUM_SPS_SUB_SLOT c then Raise ValueError
      else Ok (signage_point_index \<ge> NUM_SPS_SUB_SLOT c - NUM_SP_INTERVALS_EXTRA c))"

definition calculate_sp_interval_iters :: "ConsensusConstants \<Rightarrow> int \<Rightarrow> int res" where
  "calculate_sp_interval_iters c sub_slot_iters =
     rbind (py_mod sub_slot_iters (NUM_SPS_SUB_SLOT c)) (\<lambda>r.
     rbind (py_assert (r = 0)) (\<lambda>_.
       uint64 (sub_slot_iters div NUM_SPS_SUB_SLOT c)))"

definition calculate_sp_iters :: "ConsensusConstants \<Rightarrow> int \<Rightarrow> int \<Rightarrow> int res" where
  "calculate_sp_iters c sub_slot_iters signage_point_index =
     (if signage_point_index \<ge> NUM_SPS_SUB_SLOT c then Raise ValueError
      else rbind (calculate_sp_interval_iters c sub_slot_iters) (\<lambda>i.
             uint64 (i * signage_point_index)))"

definition calculate_ip_iters :: "ConsensusConstants \<Rightarrow> int \<Rightarrow> int \<Rightarrow> int \<Rightarrow> int res" where
  "calculate_ip_iters c sub_slot_iters signage_point_index required_iters =
     rbind (calculate_sp_iters c sub_slot_iters signage_point_index) (\<lambda>sp_iters.
     rbind (calculate_sp_interval_iters c sub_slot_iters) (\<lambda>sp_interval_iters.
     rbind (py_mod sp_iters sp_interval_iters) (\<lambda>r.
       if r \<noteq> 0 \<or> sp_iters \<ge> sub_slot_iters then Raise ValueError
       else if required_iters \<ge> sp_interval_iters \<or> required_iters = 0 then Raise ValueError
       else
         rbind (py_mod (sp_iters + NUM_SP_INTERVALS_EXTRA c * sp_interval_iters + required_iters)
                  sub_slot_iters) uint64)))"

text \<open>
  \<open>int(_expected_plot_size(k))\<close>: for \<open>k < 1\<close> the power is a float fraction and the conversion to
  \<^verbatim>\<open>int\<close>, which the only modelled caller makes, gives 0.
\<close>

definition expected_plot_size :: "int \<Rightarrow> int" where
  "expected_plot_size k = (if k < 1 then 0 else (2 * k + 1) * 2 ^ nat (k - 1))"

definition calculate_iterations_quality ::
    "crypto \<Rightarrow> int \<Rightarrow> bytes \<Rightarrow> int \<Rightarrow> int \<Rightarrow> bytes \<Rightarrow> int res" where
  "calculate_iterations_quality cr difficulty_constant_factor quality_string sz difficulty cc_sp_output_hash =
     rbind (std_hash cr (quality_string @ cc_sp_output_hash)) (\<lambda>sp_quality_string.
     rbind (py_floordiv (difficulty * difficulty_constant_factor * int (be_nat sp_quality_string))
              (2 ^ 256 * expected_plot_size sz)) (\<lambda>q.
     rbind (uint64 q) (\<lambda>iters. Ok (max iters 1))))"

section \<open>Signage points\<close>

lemma is_overflow_block_Ok:
  "is_overflow_block c sp = Ok b \<longleftrightarrow>
     sp < NUM_SPS_SUB_SLOT c \<and> b = (sp \<ge> NUM_SPS_SUB_SLOT c - NUM_SP_INTERVALS_EXTRA c)"
  by (auto simp: is_overflow_block_def)

lemma sp_interval_iters_Ok:
  "calculate_sp_interval_iters c ssi = Ok i \<longleftrightarrow>
     NUM_SPS_SUB_SLOT c \<noteq> 0 \<and> NUM_SPS_SUB_SLOT c dvd ssi \<and>
     i = ssi div NUM_SPS_SUB_SLOT c \<and> 0 \<le> i \<and> i < 2 ^ 64"
  by (auto simp: calculate_sp_interval_iters_def rbind_eq_Ok dvd_eq_mod_eq_0)

lemma sp_iters_Ok:
  "calculate_sp_iters c ssi sp = Ok s \<longleftrightarrow>
     sp < NUM_SPS_SUB_SLOT c \<and>
     (\<exists>i. calculate_sp_interval_iters c ssi = Ok i \<and> s = i * sp \<and> 0 \<le> s \<and> s < 2 ^ 64)"
  by (auto simp: calculate_sp_iters_def rbind_eq_Ok)

lemma returns_pot [returns_rules]:
  "returns (is_overflow_block c sp)"
  "returns (calculate_sp_interval_iters c ssi)"
  "returns (calculate_sp_iters c ssi sp)"
  "returns (calculate_ip_iters c ssi sp r)"
  "returns (calculate_iterations_quality cr f q sz d h)"
  unfolding is_overflow_block_def calculate_sp_interval_iters_def calculate_sp_iters_def
    calculate_ip_iters_def calculate_iterations_quality_def std_hash_def
  by (intro returns_rules)+

section \<open>The infusion point\<close>

lemma ip_iters_value:
  assumes n: "0 < NUM_SPS_SUB_SLOT c" and e: "0 \<le> NUM_SP_INTERVALS_EXTRA c"
    and en: "NUM_SP_INTERVALS_EXTRA c < NUM_SPS_SUB_SLOT c"
    and d: "NUM_SPS_SUB_SLOT c dvd ssi" and ssi: "ssi < 2 ^ 64"
    and sp: "0 \<le> sp" "sp < NUM_SPS_SUB_SLOT c"
    and r: "0 < r" "r < ssi div NUM_SPS_SUB_SLOT c"
  shows "calculate_sp_iters c ssi sp = Ok (ssi div NUM_SPS_SUB_SLOT c * sp)"
    and "calculate_ip_iters c ssi sp r =
      Ok (ssi div NUM_SPS_SUB_SLOT c * sp + NUM_SP_INTERVALS_EXTRA c * (ssi div NUM_SPS_SUB_SLOT c) + r
          - (if sp \<ge> NUM_SPS_SUB_SLOT c - NUM_SP_INTERVALS_EXTRA c then ssi else 0))"
proof -
  define N where "N = NUM_SPS_SUB_SLOT c"
  define E where "E = NUM_SP_INTERVALS_EXTRA c"
  define i where "i = ssi div N"
  have ssi_eq: "ssi = N * i" using d by (simp add: i_def N_def)
  have i: "0 < i" using r by (simp add: i_def N_def)
  have i64: "i < 2 ^ 64"
  proof -
    have "1 * i \<le> N * i" using n i by (intro mult_right_mono) (simp_all add: N_def)
    then show ?thesis using ssi by (simp add: ssi_eq)
  qed
  have int: "calculate_sp_interval_iters c ssi = Ok i"
    using n d i i64 by (simp add: sp_interval_iters_Ok i_def N_def)
  have spn: "i * sp < ssi" using i sp by (simp add: ssi_eq N_def mult.commute)
  show s: "calculate_sp_iters c ssi sp = Ok (ssi div NUM_SPS_SUB_SLOT c * sp)"
    using int sp i spn ssi by (simp add: sp_iters_Ok i_def N_def)
  let ?t = "i * sp + E * i + r"
  have ge: "N * i \<le> ?t \<longleftrightarrow> sp \<ge> N - E"
  proof
    assume "N * i \<le> ?t"
    then have "N * i < (sp + E + 1) * i" using r by (simp add: algebra_simps i_def N_def)
    with i show "sp \<ge> N - E" by simp
  next
    assume "sp \<ge> N - E"
    then have "N * i \<le> (sp + E) * i" using i by (intro mult_right_mono) simp_all
    then show "N * i \<le> ?t" using r by (simp add: algebra_simps)
  qed
  have lt2: "?t < 2 * (N * i)"
  proof -
    have "?t < (sp + E + 1) * i" using r by (simp add: algebra_simps i_def N_def)
    also have "\<dots> \<le> (N + N) * i"
      using sp(2) en i by (intro mult_right_mono) (simp_all add: N_def E_def)
    finally show ?thesis by (simp add: algebra_simps)
  qed
  have t0: "0 \<le> ?t" using i sp e r by (simp add: E_def)
  have m: "?t mod ssi = ?t - (if sp \<ge> N - E then ssi else 0)"
  proof (cases "sp \<ge> N - E")
    case True
    with ge lt2 have "(?t - ssi) mod ssi = ?t - ssi"
      by (intro mod_pos_pos_trivial) (simp_all add: ssi_eq)
    then show ?thesis using True by (simp add: minus_mod_self2)
  next
    case False
    with ge t0 show ?thesis by (simp add: ssi_eq)
  qed
  have ssi0: "0 < ssi" using n i by (simp add: ssi_eq N_def)
  have b: "0 \<le> ?t mod ssi" "?t mod ssi < 2 ^ 64"
    using ssi0 less_trans [OF pos_mod_bound [OF ssi0, of ?t] ssi] by (simp_all only: pos_mod_sign)
  show "calculate_ip_iters c ssi sp r =
      Ok (ssi div NUM_SPS_SUB_SLOT c * sp + NUM_SP_INTERVALS_EXTRA c * (ssi div NUM_SPS_SUB_SLOT c) + r
          - (if sp \<ge> NUM_SPS_SUB_SLOT c - NUM_SP_INTERVALS_EXTRA c then ssi else 0))"
    using s int i r spn ssi0 b m
    by (simp add: calculate_ip_iters_def i_def [symmetric] N_def [symmetric] E_def [symmetric])
qed

lemma ip_iters_Ok_cases:
  assumes "calculate_ip_iters c ssi sp r = Ok ip"
  shows "\<exists>i s. calculate_sp_interval_iters c ssi = Ok i \<and> calculate_sp_iters c ssi sp = Ok s \<and>
           i \<noteq> 0 \<and> s mod i = 0 \<and> s < ssi \<and> r < i \<and> r \<noteq> 0 \<and>
           ip = (s + NUM_SP_INTERVALS_EXTRA c * i + r) mod ssi \<and> 0 \<le> ip \<and> ip < 2 ^ 64"
  using assms unfolding calculate_ip_iters_def
  by (fastforce split: if_splits)

section \<open>Iterations from the quality\<close>

lemma iterations_quality_bounds:
  "calculate_iterations_quality cr f q sz d h = Ok n \<Longrightarrow> 1 \<le> n \<and> n < 2 ^ 64"
  by (auto simp: calculate_iterations_quality_def)

text \<open>The quality is a fraction of the difficulty constant: a plot of the minimum size \<open>k\<close> waits at
  most \<open>d * f / expected_plot_size k\<close> iterations.\<close>

lemma iterations_quality_upper:
  assumes "calculate_iterations_quality cr f q sz d h = Ok n" and "0 \<le> d" and "0 \<le> f" and "1 \<le> sz"
  shows "n \<le> max 1 (d * f div expected_plot_size sz)"
proof -
  let ?e = "expected_plot_size sz"
  have e: "0 < ?e" using assms(4) by (simp add: expected_plot_size_def)
  from assms(1) obtain s where s: "length s = 32"
      and n: "n = max (d * f * int (be_nat s) div (2 ^ 256 * ?e)) 1"
    by (auto simp: calculate_iterations_quality_def std_hash_eq_Ok)
  have "be_nat s < 256 ^ 32" using be_nat_less [of s] s by simp
  then have "int (be_nat s) \<le> 2 ^ 256" by simp
  then have "d * f * int (be_nat s) \<le> d * f * 2 ^ 256" using assms by (intro mult_left_mono) simp_all
  then have "d * f * int (be_nat s) div (2 ^ 256 * ?e) \<le> d * f * 2 ^ 256 div (2 ^ 256 * ?e)"
    using e by (intro zdiv_mono1) simp_all
  also have "\<dots> = d * f div ?e" by (simp add: mult.commute [of "d * f"])
  finally show ?thesis using n by simp
qed

end
