(* ===== verification/Rewards.thy ===== *)
theory Rewards
  imports Blockchain_Format
begin

text \<open>
  \<^verbatim>\<open>chia/consensus/block_rewards.py\<close> and \<^verbatim>\<open>coinbase.py\<close>: the reward of a block by its height and the
  coins that pay it. The source multiplies by the floats 7/8 and 1/8; every product that occurs is
  exactly representable, so the model writes them as integer divisions by 8. The lemmas give the
  emission schedule in closed form and show that reward coins of different heights never share
  a parent.
\<close>

section \<open>Definitions\<close>

definition mojo_per_chia :: int where
  "mojo_per_chia = 1000000000"

definition blocks_per_year :: int where
  "blocks_per_year = 1681920"

definition calculate_pool_reward :: "int \<Rightarrow> int res" where
  "calculate_pool_reward h =
     (if h = 0 then uint64 (7 * 201710200 * mojo_per_chia div 8)
      else if h < 3 * blocks_per_year then uint64 (7 * 200 * mojo_per_chia div 8)
      else if h < 6 * blocks_per_year then uint64 (7 * 100 * mojo_per_chia div 8)
      else if h < 9 * blocks_per_year then uint64 (7 * 50 * mojo_per_chia div 8)
      else if h < 12 * blocks_per_year then uint64 (7 * 25 * mojo_per_chia div 8)
      else if h < 15 * blocks_per_year then uint64 (7 * 125 * mojo_per_chia div 80)
      else uint64 (7 * 1 * mojo_per_chia div 8))"

definition calculate_base_farmer_reward :: "int \<Rightarrow> int res" where
  "calculate_base_farmer_reward h =
     (if h = 0 then uint64 (201710200 * mojo_per_chia div 8)
      else if h < 3 * blocks_per_year then uint64 (200 * mojo_per_chia div 8)
      else if h < 6 * blocks_per_year then uint64 (100 * mojo_per_chia div 8)
      else if h < 9 * blocks_per_year then uint64 (50 * mojo_per_chia div 8)
      else if h < 12 * blocks_per_year then uint64 (25 * mojo_per_chia div 8)
      else if h < 15 * blocks_per_year then uint64 (125 * mojo_per_chia div 80)
      else uint64 (1 * mojo_per_chia div 8))"

text \<open>\<^verbatim>\<open>to_bytes(16, "big")\<close> of the height raises \<^verbatim>\<open>OverflowError\<close> out of range, which no caller can reach
  with a \<^verbatim>\<open>uint32\<close>; the model raises \<open>ValueError\<close> there.\<close>

definition height_bytes :: "int \<Rightarrow> bytes res" where
  "height_bytes h = (if 0 \<le> h \<and> h < 2 ^ 128 then Ok (be_bytes 16 (nat h)) else Raise ValueError)"

definition pool_parent_id :: "int \<Rightarrow> bytes \<Rightarrow> bytes res" where
  "pool_parent_id block_height genesis_challenge =
     rbind (height_bytes block_height) (\<lambda>b. sized_bytes 32 (take 16 genesis_challenge @ b))"

definition farmer_parent_id :: "int \<Rightarrow> bytes \<Rightarrow> bytes res" where
  "farmer_parent_id block_height genesis_challenge =
     rbind (height_bytes block_height) (\<lambda>b. sized_bytes 32 (drop 16 genesis_challenge @ b))"

definition create_pool_coin :: "int \<Rightarrow> bytes \<Rightarrow> int \<Rightarrow> bytes \<Rightarrow> Coin res" where
  "create_pool_coin block_height ph reward genesis_challenge =
     rbind (pool_parent_id block_height genesis_challenge) (\<lambda>parent_id.
       Ok \<lparr>parent_coin_info = parent_id, coin_puzzle_hash = ph, coin_amount = reward\<rparr>)"

definition create_farmer_coin :: "int \<Rightarrow> bytes \<Rightarrow> int \<Rightarrow> bytes \<Rightarrow> Coin res" where
  "create_farmer_coin block_height ph reward genesis_challenge =
     rbind (farmer_parent_id block_height genesis_challenge) (\<lambda>parent_id.
       Ok \<lparr>parent_coin_info = parent_id, coin_puzzle_hash = ph, coin_amount = reward\<rparr>)"

section \<open>The schedule\<close>

text \<open>The reward of a block in units of an eighth of a milli-coin, and the split of it.\<close>

definition reward_unit :: "int \<Rightarrow> int" where
  "reward_unit h =
     (if h = 0 then 2017102000
      else if h < 3 * blocks_per_year then 2000
      else if h < 6 * blocks_per_year then 1000
      else if h < 9 * blocks_per_year then 500
      else if h < 12 * blocks_per_year then 250
      else if h < 15 * blocks_per_year then 125
      else 10)"

lemma farmer_reward_eq: "calculate_base_farmer_reward h = Ok (12500000 * reward_unit h)"
  by (simp add: calculate_base_farmer_reward_def reward_unit_def mojo_per_chia_def)

lemma pool_reward_eq: "calculate_pool_reward h = Ok (7 * (12500000 * reward_unit h))"
  by (simp add: calculate_pool_reward_def reward_unit_def mojo_per_chia_def)

lemma reward_unit_antimono: "1 \<le> h \<Longrightarrow> h \<le> h' \<Longrightarrow> reward_unit h' \<le> reward_unit h"
  by (simp add: reward_unit_def)

lemma sum_const_range:
  fixes f :: "int \<Rightarrow> int"
  assumes "\<And>h. a \<le> h \<Longrightarrow> h < b \<Longrightarrow> f h = k" and "a \<le> b"
  shows "sum f {a..<b} = (b - a) * k"
proof -
  have "sum f {a..<b} = sum (\<lambda>_. k) {a..<b}" using assms(1) by (intro sum.cong) auto
  then show ?thesis using assms(2) by simp
qed

lemma sum_range_split:
  fixes f :: "int \<Rightarrow> int"
  assumes "a \<le> b" and "b \<le> c"
  shows "sum f {a..<c} = sum f {a..<b} + sum f {b..<c}"
proof -
  have "{a..<c} = {a..<b} \<union> {b..<c}" using assms by auto
  then show ?thesis by (simp add: sum.union_disjoint)
qed

text \<open>Units paid by the blocks before the tail of the schedule begins.\<close>

lemma sum_reward_unit:
  "sum reward_unit {0..<15 * blocks_per_year} = 10 * (201710200 + 1955232000 - 200)"
proof -
  note Y = blocks_per_year_def
  have 0: "sum reward_unit {0..<1} = 2017102000"
    by (subst sum_const_range [where k = 2017102000]) (simp_all add: reward_unit_def Y)
  have 1: "sum reward_unit {1..<5045760} = (5045760 - 1) * 2000"
    by (rule sum_const_range) (simp_all add: reward_unit_def Y)
  have 2: "sum reward_unit {5045760..<10091520} = (10091520 - 5045760) * 1000"
    by (rule sum_const_range) (simp_all add: reward_unit_def Y)
  have 3: "sum reward_unit {10091520..<15137280} = (15137280 - 10091520) * 500"
    by (rule sum_const_range) (simp_all add: reward_unit_def Y)
  have 4: "sum reward_unit {15137280..<20183040} = (20183040 - 15137280) * 250"
    by (rule sum_const_range) (simp_all add: reward_unit_def Y)
  have 5: "sum reward_unit {20183040..<25228800} = (25228800 - 20183040) * 125"
    by (rule sum_const_range) (simp_all add: reward_unit_def Y)
  have "sum reward_unit {0..<25228800} = sum reward_unit {0..<1} + (sum reward_unit {1..<5045760}
      + (sum reward_unit {5045760..<10091520} + (sum reward_unit {10091520..<15137280}
      + (sum reward_unit {15137280..<20183040} + sum reward_unit {20183040..<25228800}))))"
    by (simp add: sum_range_split [symmetric])
  then show ?thesis unfolding 0 1 2 3 4 5 by (simp add: Y)
qed

text \<open>All that a block of a height mints, as the two functions return it.\<close>

definition block_reward :: "int \<Rightarrow> int res" where
  "block_reward h =
     rbind (calculate_pool_reward h) (\<lambda>p. rbind (calculate_base_farmer_reward h) (\<lambda>f. Ok (p + f)))"

lemma block_reward_eq: "block_reward h = Ok (100000000 * reward_unit h)"
  by (simp add: block_reward_def pool_reward_eq farmer_reward_eq)

lemma total_emission:
  assumes "\<And>h. block_reward h = Ok (f h)"
  shows "sum f {0..<15 * blocks_per_year} = (201710200 + 1955232000 - 200) * mojo_per_chia"
proof -
  have "f = (\<lambda>h. 100000000 * reward_unit h)" using assms by (simp add: block_reward_eq fun_eq_iff)
  then show ?thesis
    by (simp add: sum_distrib_left [symmetric] sum_reward_unit mojo_per_chia_def)
qed

section \<open>Reward coins\<close>

lemma height_bytes_eq_Ok:
  "height_bytes h = Ok b \<longleftrightarrow> 0 \<le> h \<and> h < 2 ^ 128 \<and> b = be_bytes 16 (nat h)"
  by (auto simp: height_bytes_def)

lemma height_bytes_inj: "height_bytes h = Ok b \<Longrightarrow> height_bytes k = Ok b \<Longrightarrow> h = k"
proof -
  assume a: "height_bytes h = Ok b" "height_bytes k = Ok b"
  then have "nat h < 256 ^ 16" "nat k < 256 ^ 16" by (simp_all add: height_bytes_eq_Ok nat_less_iff)
  then have "be_nat b = nat h" "be_nat b = nat k"
    using a be_nat_be_bytes [of "nat h" 16] be_nat_be_bytes [of "nat k" 16]
    unfolding height_bytes_eq_Ok by (metis, metis)
  moreover have "0 \<le> h" "0 \<le> k" using a by (simp_all add: height_bytes_eq_Ok)
  ultimately show "h = k" by (metis int_nat_eq)
qed

lemma pool_parent_id_Ok:
  "pool_parent_id h g = Ok p \<longleftrightarrow> length g \<ge> 16 \<and> (\<exists>b. height_bytes h = Ok b \<and> p = take 16 g @ b)"
  by (auto simp: pool_parent_id_def rbind_eq_Ok height_bytes_eq_Ok)

lemma farmer_parent_id_Ok:
  "farmer_parent_id h g = Ok p \<longleftrightarrow> length g - 16 = 16 \<and> (\<exists>b. height_bytes h = Ok b \<and> p = drop 16 g @ b)"
  by (auto simp: farmer_parent_id_def rbind_eq_Ok height_bytes_eq_Ok)

lemma pool_parent_id_inj:
  "pool_parent_id h g = Ok p \<Longrightarrow> pool_parent_id k g = Ok p \<Longrightarrow> h = k"
  by (auto simp: pool_parent_id_Ok dest: height_bytes_inj)

lemma farmer_parent_id_inj:
  "farmer_parent_id h g = Ok p \<Longrightarrow> farmer_parent_id k g = Ok p \<Longrightarrow> h = k"
  by (auto simp: farmer_parent_id_Ok dest: height_bytes_inj)

lemma pool_farmer_parent_disjoint:
  assumes "pool_parent_id h g = Ok p" and "farmer_parent_id k g = Ok p"
  shows "take 16 g = drop 16 g"
  using assms by (auto simp: pool_parent_id_Ok farmer_parent_id_Ok)

text \<open>Reward coins never collide: coins of different heights have different parents, and a pool and a farmer
  coin have different parents unless both halves of the genesis challenge are the same.\<close>

lemma reward_coins_distinct:
  assumes "create_pool_coin h ph1 r1 g = Ok a" and "create_pool_coin k ph2 r2 g = Ok b"
    and "create_farmer_coin h ph3 r3 g = Ok x" and "create_farmer_coin k ph4 r4 g = Ok y"
    and "h \<noteq> k" and "take 16 g \<noteq> drop 16 g"
  shows "distinct [parent_coin_info a, parent_coin_info b, parent_coin_info x, parent_coin_info y]"
  using assms pool_parent_id_inj [of h g _ k] farmer_parent_id_inj [of h g _ k] pool_farmer_parent_disjoint [of _ g]
  by (fastforce simp: create_pool_coin_def create_farmer_coin_def)

end
