(* ===== verification/Block_Record.thy ===== *)
theory Block_Record
  imports Pot_Iterations Blockchain_Format
begin

text \<open>
  \<^verbatim>\<open>chia/consensus/block_record.py\<close> and \<^verbatim>\<open>deficit.py\<close>: the in-memory record of a block, its methods,
  and the deficit, the number of blocks a challenge block still waits for. The lemmas relate the
  methods to one another (signage point, infusion point and sub-slot start on the axis of total
  iterations) and describe the deficit as a counter that is only reloaded from zero.
\<close>

section \<open>Block records\<close>

record BlockRecord =
  header_hash :: bytes
  prev_hash :: bytes
  height :: int
  weight :: int
  total_iters :: int
  signage_point_index :: int
  challenge_vdf_output :: ClassgroupElement
  infused_challenge_vdf_output :: "ClassgroupElement option"
  reward_infusion_new_challenge :: bytes
  challenge_block_info_hash :: bytes
  sub_slot_iters :: int
  pool_puzzle_hash :: bytes
  farmer_puzzle_hash :: bytes
  required_iters :: int
  deficit :: int
  overflow :: bool
  prev_transaction_block_height :: int
  timestamp :: "int option"
  prev_transaction_block_hash :: "bytes option"
  fees :: "int option"
  reward_claims_incorporated :: "Coin list option"
  finished_challenge_slot_hashes :: "bytes list option"
  finished_infused_challenge_slot_hashes :: "bytes list option"
  finished_reward_slot_hashes :: "bytes list option"
  sub_epoch_summary_included :: "SubEpochSummary option"

definition is_transaction_block :: "BlockRecord \<Rightarrow> bool" where
  "is_transaction_block self = (timestamp self \<noteq> None)"

definition first_in_sub_slot :: "BlockRecord \<Rightarrow> bool" where
  "first_in_sub_slot self = (finished_challenge_slot_hashes self \<noteq> None)"

definition is_challenge_block :: "ConsensusConstants \<Rightarrow> BlockRecord \<Rightarrow> bool" where
  "is_challenge_block c self = (deficit self = MIN_BLOCKS_PER_CHALLENGE_BLOCK c - 1)"

definition sp_iters :: "ConsensusConstants \<Rightarrow> BlockRecord \<Rightarrow> int res" where
  "sp_iters c self = calculate_sp_iters c (sub_slot_iters self) (signage_point_index self)"

definition ip_iters :: "ConsensusConstants \<Rightarrow> BlockRecord \<Rightarrow> int res" where
  "ip_iters c self =
     calculate_ip_iters c (sub_slot_iters self) (signage_point_index self) (required_iters self)"

definition sp_sub_slot_total_iters :: "ConsensusConstants \<Rightarrow> BlockRecord \<Rightarrow> int res" where
  "sp_sub_slot_total_iters c self =
     (if overflow self
      then rbind (ip_iters c self) (\<lambda>ip. uint128 (total_iters self - ip - sub_slot_iters self))
      else rbind (ip_iters c self) (\<lambda>ip. uint128 (total_iters self - ip)))"

definition ip_sub_slot_total_iters :: "ConsensusConstants \<Rightarrow> BlockRecord \<Rightarrow> int res" where
  "ip_sub_slot_total_iters c self =
     rbind (ip_iters c self) (\<lambda>ip. uint128 (total_iters self - ip))"

definition sp_total_iters :: "ConsensusConstants \<Rightarrow> BlockRecord \<Rightarrow> int res" where
  "sp_total_iters c self =
     rbind (sp_sub_slot_total_iters c self) (\<lambda>s. rbind (sp_iters c self) (\<lambda>i. Ok (s + i)))"

section \<open>The deficit\<close>

text \<open>Of the previous block only the deficit is read.\<close>

definition calculate_deficit ::
    "ConsensusConstants \<Rightarrow> int \<Rightarrow> int option \<Rightarrow> bool \<Rightarrow> int \<Rightarrow> int res" where
  "calculate_deficit c h prev_b ovf num_finished_sub_slots =
     (if h = 0 then uint8 (MIN_BLOCKS_PER_CHALLENGE_BLOCK c - 1)
      else
        rbind (unwrap AssertionError prev_b) (\<lambda>prev_deficit.
          if prev_deficit = MIN_BLOCKS_PER_CHALLENGE_BLOCK c then
            (if ovf then
               (if num_finished_sub_slots > 0 then uint8 (prev_deficit - 1) else uint8 prev_deficit)
             else uint8 (prev_deficit - 1))
          else if prev_deficit = 0 then
            (if num_finished_sub_slots = 0 then uint8 0
             else if num_finished_sub_slots = 1 then
               (if ovf then uint8 (MIN_BLOCKS_PER_CHALLENGE_BLOCK c)
                else uint8 (MIN_BLOCKS_PER_CHALLENGE_BLOCK c - 1))
             else uint8 (MIN_BLOCKS_PER_CHALLENGE_BLOCK c - 1))
          else uint8 (prev_deficit - 1)))"

section \<open>Positions on the axis of total iterations\<close>

lemma returns_br [returns_rules]:
  "returns (sp_iters c b)" "returns (ip_iters c b)" "returns (sp_sub_slot_total_iters c b)"
  "returns (ip_sub_slot_total_iters c b)" "returns (sp_total_iters c b)"
  "returns (calculate_deficit c h d ovf k)"
  unfolding sp_iters_def ip_iters_def sp_sub_slot_total_iters_def ip_sub_slot_total_iters_def
    sp_total_iters_def calculate_deficit_def
  by (intro returns_rules)+

text \<open>The signage point of a valid block lies before its infusion point by the extra intervals and
  the required iterations, for overflow and for other blocks alike.\<close>

lemma sp_total_iters_before_ip:
  assumes n: "0 < NUM_SPS_SUB_SLOT c" "0 \<le> NUM_SP_INTERVALS_EXTRA c"
      "NUM_SP_INTERVALS_EXTRA c < NUM_SPS_SUB_SLOT c"
    and s: "NUM_SPS_SUB_SLOT c dvd sub_slot_iters b" "sub_slot_iters b < 2 ^ 64"
    and sp: "0 \<le> signage_point_index b" "signage_point_index b < NUM_SPS_SUB_SLOT c"
    and r: "0 < required_iters b" "required_iters b < sub_slot_iters b div NUM_SPS_SUB_SLOT c"
    and o: "is_overflow_block c (signage_point_index b) = Ok (overflow b)"
    and sp_total: "sp_total_iters c b = Ok t"
  shows "t = total_iters b - required_iters b
              - NUM_SP_INTERVALS_EXTRA c * (sub_slot_iters b div NUM_SPS_SUB_SLOT c)"
proof -
  note v = ip_iters_value [OF n s sp r]
  have ov: "overflow b \<longleftrightarrow> signage_point_index b \<ge> NUM_SPS_SUB_SLOT c - NUM_SP_INTERVALS_EXTRA c"
    using o by (simp add: is_overflow_block_Ok)
  show ?thesis
    using sp_total v ov
    by (auto simp: sp_total_iters_def sp_sub_slot_total_iters_def sp_iters_def ip_iters_def
        split: if_splits)
qed

lemma sp_sub_slot_before_ip_sub_slot:
  assumes "sp_sub_slot_total_iters c b = Ok s" and "ip_sub_slot_total_iters c b = Ok i"
  shows "s = i - (if overflow b then sub_slot_iters b else 0)"
  using assms by (auto simp: sp_sub_slot_total_iters_def ip_sub_slot_total_iters_def split: if_splits)

section \<open>The deficit as a counter\<close>

lemma calculate_deficit_cases:
  assumes m: "1 < MIN_BLOCKS_PER_CHALLENGE_BLOCK c" "MIN_BLOCKS_PER_CHALLENGE_BLOCK c < 256"
    and "0 < h" and d: "0 \<le> d" "d \<le> MIN_BLOCKS_PER_CHALLENGE_BLOCK c" and k: "0 \<le> k"
  shows "calculate_deficit c h (Some d) ovf k =
    Ok (if d = MIN_BLOCKS_PER_CHALLENGE_BLOCK c then (if ovf \<and> k = 0 then d else d - 1)
        else if d > 0 then d - 1
        else if k = 0 then 0
        else if k = 1 \<and> ovf then MIN_BLOCKS_PER_CHALLENGE_BLOCK c
        else MIN_BLOCKS_PER_CHALLENGE_BLOCK c - 1)"
  using assms by (auto simp: calculate_deficit_def)

lemma calculate_deficit_range:
  assumes "calculate_deficit c h (Some d) ovf k = Ok e"
    and "1 < MIN_BLOCKS_PER_CHALLENGE_BLOCK c" and "0 < h"
    and "0 \<le> d" "d \<le> MIN_BLOCKS_PER_CHALLENGE_BLOCK c"
  shows "0 \<le> e \<and> e \<le> MIN_BLOCKS_PER_CHALLENGE_BLOCK c"
  using assms by (auto simp: calculate_deficit_def split: if_splits)

text \<open>The deficits of consecutive blocks: \<open>inputs\<close> gives for each block whether it is an overflow
  block and how many sub-slots finished before it.\<close>

fun deficits :: "ConsensusConstants \<Rightarrow> int \<Rightarrow> (bool \<times> int) list \<Rightarrow> int list res" where
  "deficits c d [] = Ok []"
| "deficits c d ((ovf, k) # xs) =
     rbind (calculate_deficit c 1 (Some d) ovf k) (\<lambda>e. rbind (deficits c e xs) (\<lambda>es. Ok (e # es)))"

lemma deficits_count_down:
  assumes m: "1 < MIN_BLOCKS_PER_CHALLENGE_BLOCK c"
    and run: "deficits c d xs = Ok ds" and d: "0 \<le> d" "d < MIN_BLOCKS_PER_CHALLENGE_BLOCK c"
    and i: "i < length ds" "int i < d"
  shows "ds ! i = d - int i - 1"
  using run d i
proof (induction xs arbitrary: d ds i)
  case Nil
  then show ?case by simp
next
  case (Cons x xs)
  obtain ovf k where x: "x = (ovf, k)" by (cases x)
  from Cons.prems(1) obtain e es where e: "calculate_deficit c 1 (Some d) ovf k = Ok e"
      and es: "deficits c e xs = Ok es" and ds: "ds = e # es"
    by (auto simp: x)
  have d0: "0 < d" using Cons.prems(5) by simp
  then have ed: "e = d - 1" using e Cons.prems(3) by (auto simp: calculate_deficit_def split: if_splits)
  show ?case
  proof (cases i)
    case 0
    then show ?thesis by (simp add: ds ed)
  next
    case (Suc j)
    have "es ! j = e - int j - 1"
      using Cons.IH [OF es] Cons.prems d0 by (simp add: ed ds Suc)
    then show ?thesis by (simp add: ds Suc ed)
  qed
qed

text \<open>Between two challenge blocks lie at least \<open>MIN_BLOCKS_PER_CHALLENGE_BLOCK - 1\<close> others.\<close>

lemma challenge_block_distance:
  assumes "1 < MIN_BLOCKS_PER_CHALLENGE_BLOCK c"
    and "deficits c (MIN_BLOCKS_PER_CHALLENGE_BLOCK c - 1) xs = Ok ds"
    and "i < length ds" and "ds ! i \<ge> MIN_BLOCKS_PER_CHALLENGE_BLOCK c - 1"
  shows "MIN_BLOCKS_PER_CHALLENGE_BLOCK c - 1 \<le> int i"
  using deficits_count_down [OF assms(1,2) _ _ assms(3)] assms(1,4) by force

end
