(* ===== verification/Weight_Proof_Types.thy ===== *)
theory Weight_Proof_Types
  imports Blockchain_Format
begin

text \<open>
  \<^verbatim>\<open>chia/types/weight_proof.py\<close>: the data a weight proof is made of, which the block cache stores per
  sub-epoch. Fields shared with other classes carry a prefix.
\<close>

record SubEpochData =
  sed_reward_chain_hash :: bytes
  sed_num_blocks_overflow :: int
  sed_new_sub_slot_iters :: "int option"
  sed_new_difficulty :: "int option"

record SubSlotData =
  ssd_proof_of_space :: "ProofOfSpace option"
  cc_signage_point :: "VDFProof option"
  cc_infusion_point :: "VDFProof option"
  icc_infusion_point :: "VDFProof option"
  cc_sp_vdf_info :: "VDFInfo option"
  ssd_signage_point_index :: "int option"
  cc_slot_end :: "VDFProof option"
  icc_slot_end :: "VDFProof option"
  cc_slot_end_info :: "VDFInfo option"
  icc_slot_end_info :: "VDFInfo option"
  cc_ip_vdf_info :: "VDFInfo option"
  icc_ip_vdf_info :: "VDFInfo option"
  ssd_total_iters :: "int option"

definition ssd_is_challenge :: "SubSlotData \<Rightarrow> bool" where
  "ssd_is_challenge self = (ssd_proof_of_space self \<noteq> None)"

definition ssd_is_end_of_slot :: "SubSlotData \<Rightarrow> bool" where
  "ssd_is_end_of_slot self = (cc_slot_end_info self \<noteq> None)"

record SubEpochChallengeSegment =
  sub_epoch_n :: int
  sub_slots :: "SubSlotData list"
  rc_slot_end_info :: "VDFInfo option"

record SubEpochSegments =
  challenge_segments :: "SubEpochChallengeSegment list"

record WeightProof =
  sub_epochs :: "SubEpochData list"
  sub_epoch_segments :: "SubEpochChallengeSegment list"
  recent_chain_data :: "HeaderBlock list"

end
