(* ===== verification/Block_Cache.thy ===== *)
theory Block_Cache
  imports Block_Record Weight_Proof_Types "HOL-Library.AList"
begin

text \<open>
  \<^verbatim>\<open>chia/util/block_cache.py\<close> and \<^verbatim>\<open>chia/consensus/blockchain_interface.py\<close>: the store of block records
  that validation reads, the loops that follow \<^verbatim>\<open>prev_hash\<close> links through it, and the contract
  (\<open>block_chain\<close>) that makes those loops terminate. Also the small chain walks of
  \<^verbatim>\<open>prev_transaction_block.py\<close> and \<^verbatim>\<open>find_fork_point.py\<close>.

  A Python dictionary is an association list (order of insertion) where the code lists its keys,
  and a map otherwise.
\<close>

section \<open>The cache\<close>

record BlockCache =
  block_records :: "bytes \<Rightarrow> BlockRecord option"
  headers :: "bytes \<Rightarrow> HeaderBlock option"
  height_to_hash_map :: "int \<Rightarrow> bytes option"
  sub_epoch_summaries :: "(int \<times> SubEpochSummary) list"
  bc_sub_epoch_segments :: "int \<Rightarrow> SubEpochSegments option"

definition init_BlockCache ::
    "(bytes \<Rightarrow> BlockRecord option) \<Rightarrow> (bytes \<Rightarrow> HeaderBlock option) \<Rightarrow> (int \<Rightarrow> bytes option) \<Rightarrow>
     (int \<times> SubEpochSummary) list \<Rightarrow> BlockCache" where
  "init_BlockCache blocks hs hth ses =
     \<lparr>block_records = blocks, headers = hs, height_to_hash_map = hth, sub_epoch_summaries = ses,
      bc_sub_epoch_segments = Map.empty\<rparr>"

definition block_record :: "BlockCache \<Rightarrow> bytes \<Rightarrow> BlockRecord res" where
  "block_record self h = unwrap KeyError (block_records self h)"

definition height_to_hash :: "BlockCache \<Rightarrow> int \<Rightarrow> bytes option" where
  "height_to_hash self h = height_to_hash_map self h"

definition height_to_block_record :: "BlockCache \<Rightarrow> int \<Rightarrow> BlockRecord res" where
  "height_to_block_record self h =
     (case height_to_hash self h of None \<Rightarrow> Raise KeyError | Some hh \<Rightarrow> block_record self hh)"

definition get_ses_heights :: "BlockCache \<Rightarrow> int list" where
  "get_ses_heights self = sort (map fst (sub_epoch_summaries self))"

definition get_ses :: "BlockCache \<Rightarrow> int \<Rightarrow> SubEpochSummary res" where
  "get_ses self h = unwrap KeyError (map_of (sub_epoch_summaries self) h)"

definition contains_block :: "BlockCache \<Rightarrow> bytes \<Rightarrow> bool" where
  "contains_block self h = (block_records self h \<noteq> None)"

definition contains_height :: "BlockCache \<Rightarrow> int \<Rightarrow> bool" where
  "contains_height self h = (height_to_hash_map self h \<noteq> None)"

definition try_block_record :: "BlockCache \<Rightarrow> bytes \<Rightarrow> BlockRecord option res" where
  "try_block_record self h =
     (if contains_block self h then rbind (block_record self h) (\<lambda>b. Ok (Some b)) else Ok None)"

definition get_block_records_at :: "BlockCache \<Rightarrow> int list \<Rightarrow> BlockRecord list res" where
  "get_block_records_at self heights = rmap (height_to_block_record self) heights"

definition remove_block_record :: "BlockCache \<Rightarrow> bytes \<Rightarrow> BlockCache res" where
  "remove_block_record self h =
     (if contains_block self h then Ok (self\<lparr>block_records := (block_records self)(h := None)\<rparr>)
      else Raise KeyError)"

definition add_block_record :: "BlockCache \<Rightarrow> BlockRecord \<Rightarrow> BlockCache" where
  "add_block_record self b = self\<lparr>block_records := (block_records self)(header_hash b \<mapsto> b)\<rparr>"

definition persist_sub_epoch_challenge_segments ::
    "BlockCache \<Rightarrow> int \<Rightarrow> SubEpochChallengeSegment list \<Rightarrow> BlockCache" where
  "persist_sub_epoch_challenge_segments self h segs =
     self\<lparr>bc_sub_epoch_segments := (bc_sub_epoch_segments self)(h \<mapsto> \<lparr>challenge_segments = segs\<rparr>)\<rparr>"

definition get_sub_epoch_challenge_segments ::
    "BlockCache \<Rightarrow> int \<Rightarrow> SubEpochChallengeSegment list option" where
  "get_sub_epoch_challenge_segments self h =
     (case bc_sub_epoch_segments self h of None \<Rightarrow> None | Some s \<Rightarrow> Some (challenge_segments s))"

lemma block_record_eq_Ok [simp]: "block_record s h = Ok b \<longleftrightarrow> block_records s h = Some b"
  by (simp add: block_record_def)

lemma block_record_I [simp, res_intros]: "block_records s h = Some b \<Longrightarrow> block_record s h = Ok b"
  by simp

lemma block_record_not_Diverge [simp]: "block_record s h \<noteq> Diverge"
  by (simp add: block_record_def)

lemma returns_block_record [returns_rules]:
  "returns (block_record s h)" "returns (height_to_block_record s k)" "returns (try_block_record s h)"
  unfolding block_record_def height_to_block_record_def try_block_record_def
  by (intro returns_rules)+

lemma try_block_record_eq: "try_block_record s h = Ok (block_records s h)"
  by (auto simp: try_block_record_def contains_block_def block_record_def)

section \<open>Walking back along the chain\<close>

text \<open>
  \<open>walk get p b\<close> is \<^verbatim>\<open>while p(curr): curr = blocks.block_record(curr.prev_hash)\<close> from \<open>b\<close>, and
  \<open>walk_acc\<close> is the same loop with a body that updates local variables first.
\<close>

partial_function (option) walk ::
    "(bytes \<Rightarrow> BlockRecord res) \<Rightarrow> (BlockRecord \<Rightarrow> bool) \<Rightarrow> BlockRecord \<Rightarrow> BlockRecord res" where
  "walk get p b = (if p b then rbind (get (prev_hash b)) (\<lambda>b'. walk get p b') else Ok b)"

partial_function (option) walk_acc ::
    "(bytes \<Rightarrow> BlockRecord res) \<Rightarrow> (BlockRecord \<Rightarrow> 's \<Rightarrow> bool) \<Rightarrow> (BlockRecord \<Rightarrow> 's \<Rightarrow> 's res) \<Rightarrow>
     BlockRecord \<Rightarrow> 's \<Rightarrow> (BlockRecord \<times> 's) res" where
  "walk_acc get p f b s =
     (if p b s
      then rbind (f b s) (\<lambda>s'. rbind (get (prev_hash b)) (\<lambda>b'. walk_acc get p f b' s'))
      else Ok (b, s))"

declare walk.simps [code] walk_acc.simps [code]

inductive ancestor :: "(bytes \<Rightarrow> BlockRecord res) \<Rightarrow> BlockRecord \<Rightarrow> BlockRecord \<Rightarrow> bool"
  for get where
  ancestor_self: "ancestor get b b"
| ancestor_step: "get (prev_hash b) = Ok p \<Longrightarrow> ancestor get p c \<Longrightarrow> ancestor get b c"

inductive_simps ancestor_iff: "ancestor get b c"

lemma ancestor_trans: "ancestor get a b \<Longrightarrow> ancestor get b c \<Longrightarrow> ancestor get a c"
  by (induction rule: ancestor.induct) (auto intro: ancestor.intros)

text \<open>The contract of a block store: what the walks rely on. \<open>inv\<close> is the provider's invariant.\<close>

locale block_chain =
  fixes inv :: "'s \<Rightarrow> bool" and get :: "'s \<Rightarrow> bytes \<Rightarrow> BlockRecord res"
  assumes get_total: "get s h \<noteq> Diverge"
    and get_hash_of: "inv s \<Longrightarrow> get s h = Ok b \<Longrightarrow> header_hash b = h"
    and get_height: "inv s \<Longrightarrow> get s h = Ok b \<Longrightarrow> 0 \<le> height b"
    and get_prev: "inv s \<Longrightarrow> get s h = Ok b \<Longrightarrow> get s (prev_hash b) = Ok p \<Longrightarrow> height b = height p + 1"

definition stored :: "(bytes \<Rightarrow> BlockRecord res) \<Rightarrow> BlockRecord \<Rightarrow> bool" where
  "stored get b \<longleftrightarrow> get (header_hash b) = Ok b"

context block_chain
begin

lemma stored_get: "inv s \<Longrightarrow> get s h = Ok b \<Longrightarrow> stored (get s) b"
  using get_hash_of by (auto simp: stored_def)

lemma stored_height: "inv s \<Longrightarrow> stored (get s) b \<Longrightarrow> 0 \<le> height b"
  using get_height by (auto simp: stored_def)

lemma stored_prev:
  "inv s \<Longrightarrow> stored (get s) b \<Longrightarrow> get s (prev_hash b) = Ok p \<Longrightarrow> height b = height p + 1"
  using get_prev by (auto simp: stored_def)

lemma stored_inj: "stored (get s) a \<Longrightarrow> stored (get s) b \<Longrightarrow> header_hash a = header_hash b \<Longrightarrow> a = b"
  by (simp add: stored_def)

lemma ancestor_stored: "ancestor (get s) b c \<Longrightarrow> inv s \<Longrightarrow> stored (get s) b \<Longrightarrow> stored (get s) c"
  by (induction rule: ancestor.induct) (auto intro: stored_get)

lemma ancestor_height:
  "ancestor (get s) b c \<Longrightarrow> inv s \<Longrightarrow> stored (get s) b \<Longrightarrow> height c \<le> height b \<and> (height c = height b \<longrightarrow> c = b)"
proof (induction rule: ancestor.induct)
  case (ancestor_self b)
  then show ?case by simp
next
  case (ancestor_step b p c)
  have "stored (get s) p" using ancestor_step.prems(1) ancestor_step.hyps(1) by (rule stored_get)
  with ancestor_step.IH ancestor_step.prems(1) have "height c \<le> height p" by simp
  with stored_prev [OF ancestor_step.prems ancestor_step.hyps(1)] show ?case by simp
qed

lemma ancestor_unique:
  "ancestor (get s) b c \<Longrightarrow> ancestor (get s) b d \<Longrightarrow> inv s \<Longrightarrow> stored (get s) b \<Longrightarrow> height c = height d \<Longrightarrow> c = d"
proof (induction arbitrary: d rule: ancestor.induct)
  case (ancestor_self b)
  then show ?case using ancestor_height [of s b d] by auto
next
  case (ancestor_step b p c)
  note a = ancestor_step.hyps and i = ancestor_step.prems(2) and b = ancestor_step.prems(3)
  have p: "stored (get s) p" using i a(1) by (rule stored_get)
  have "height c < height b"
    using ancestor_height [OF a(2) i p] stored_prev [OF i b a(1)] by simp
  then have "d \<noteq> b" using ancestor_step.prems(4) by auto
  then have "ancestor (get s) p d"
    using ancestor_step.prems(1) a(1) by (simp add: ancestor_iff [of _ b])
  then show ?case using ancestor_step.IH i p ancestor_step.prems(4) by simp
qed

text \<open>Every walk terminates, and stops at the nearest ancestor that fails the loop condition.\<close>

lemma returns_walk_acc:
  assumes "inv s" and "stored (get s) b" and f: "\<And>a t. returns (f a t)"
  shows "returns (walk_acc (get s) p f b t)"
  using assms(2)
proof (induction "nat (height b)" arbitrary: b t rule: less_induct)
  case less
  have "returns (walk_acc (get s) p f a u)" if "get s (prev_hash b) = Ok a" for a u
  proof (rule less.hyps)
    show "stored (get s) a" using that assms(1) by (rule stored_get [rotated])
    then show "nat (height a) < nat (height b)"
      using stored_prev [OF assms(1) less.prems that] stored_height [OF assms(1), of a] by simp
  qed
  then show ?case
    by (subst walk_acc.simps) (intro returns_rules f get_total [THEN returnsI])
qed

lemma returns_walk:
  assumes "inv s" and "stored (get s) b"
  shows "returns (walk (get s) p b)"
  using assms(2)
proof (induction "nat (height b)" arbitrary: b rule: less_induct)
  case less
  have "returns (walk (get s) p a)" if "get s (prev_hash b) = Ok a" for a
  proof (rule less.hyps)
    show "stored (get s) a" using that assms(1) by (rule stored_get [rotated])
    then show "nat (height a) < nat (height b)"
      using stored_prev [OF assms(1) less.prems that] stored_height [OF assms(1), of a] by simp
  qed
  then show ?case
    by (subst walk.simps) (intro returns_rules get_total [THEN returnsI])
qed

lemma walk_stops:
  assumes "inv s" and "stored (get s) b" and "walk (get s) p b = Ok c"
  shows "ancestor (get s) b c \<and> stored (get s) c \<and> \<not> p c \<and>
         (\<forall>d. ancestor (get s) b d \<and> height c < height d \<longrightarrow> p d)"
  using assms(2,3)
proof (induction "nat (height b)" arbitrary: b rule: less_induct)
  case less
  show ?case
  proof (cases "p b")
    case False
    then have "c = b" using less.prems(2) by (simp add: walk.simps)
    moreover have "\<not> height b < height d" if "ancestor (get s) b d" for d
      using ancestor_height [OF that assms(1) less.prems(1)] by simp
    ultimately show ?thesis using False less.prems(1) ancestor_self by blast
  next
    case True
    then obtain a where a: "get s (prev_hash b) = Ok a" and w: "walk (get s) p a = Ok c"
      using less.prems(2) by (auto simp: walk.simps [of _ _ b])
    have sa: "stored (get s) a" using assms(1) a by (rule stored_get)
    have "nat (height a) < nat (height b)"
      using stored_prev [OF assms(1) less.prems(1) a] stored_height [OF assms(1) sa] by simp
    from less.hyps [OF this sa w] a True show ?thesis
      by (auto simp: ancestor_iff [of "get s" b])
  qed
qed

lemma walk_cong_acc:
  "walk_acc (get s) (\<lambda>b _. p b) (\<lambda>_ t. Ok t) b t = rbind (walk (get s) p b) (\<lambda>c. Ok (c, t))"
  if "inv s" "stored (get s) b"
  using that(2)
proof (induction "nat (height b)" arbitrary: b rule: less_induct)
  case less
  have rest: "walk_acc (get s) (\<lambda>b _. p b) (\<lambda>_ t. Ok t) a t = rbind (walk (get s) p a) (\<lambda>c. Ok (c, t))"
    if a: "get s (prev_hash b) = Ok a" for a
  proof (rule less.hyps)
    show "stored (get s) a" using \<open>inv s\<close> a by (rule stored_get)
    then show "nat (height a) < nat (height b)"
      using stored_prev [OF \<open>inv s\<close> less.prems a] stored_height [OF \<open>inv s\<close>, of a] by simp
  qed
  show ?case
    by (subst walk_acc.simps, subst walk.simps) (simp add: rbind_assoc rest cong: rbind_cong)
qed

end

text \<open>A store that holds every block back to height 0: here the walks also succeed.\<close>

locale complete_chain = block_chain +
  assumes get_complete: "inv s \<Longrightarrow> get s h = Ok b \<Longrightarrow> 0 < height b \<Longrightarrow> \<exists>p. get s (prev_hash b) = Ok p"

context complete_chain
begin

lemma walk_finds:
  assumes "inv s" and "stored (get s) b" and "\<And>g. ancestor (get s) b g \<Longrightarrow> height g = 0 \<Longrightarrow> \<not> p g"
  shows "\<exists>c. walk (get s) p b = Ok c"
  using assms(2,3)
proof (induction "nat (height b)" arbitrary: b rule: less_induct)
  case less
  show ?case
  proof (cases "p b")
    case False
    then show ?thesis by (simp add: walk.simps)
  next
    case True
    then have "height b \<noteq> 0" using less.prems(2) [OF ancestor_self] by auto
    then have "0 < height b" using stored_height [OF assms(1) less.prems(1)] by simp
    then obtain a where a: "get s (prev_hash b) = Ok a"
      using get_complete [OF assms(1)] less.prems(1) by (auto simp: stored_def)
    have sa: "stored (get s) a" using assms(1) a by (rule stored_get)
    have "nat (height a) < nat (height b)"
      using stored_prev [OF assms(1) less.prems(1) a] stored_height [OF assms(1) sa] by simp
    moreover have "\<not> p g" if "ancestor (get s) a g" "height g = 0" for g
      using less.prems(2) [OF ancestor_step [of "get s", OF a that(1)]] that(2) by simp
    ultimately obtain c where "walk (get s) p a = Ok c" using less.hyps sa by blast
    then show ?thesis using True a by (simp add: walk.simps [of _ _ b])
  qed
qed

lemma ancestor_at_height:
  "inv s \<Longrightarrow> stored (get s) b \<Longrightarrow> 0 \<le> k \<Longrightarrow> k \<le> height b \<Longrightarrow> \<exists>c. ancestor (get s) b c \<and> height c = k"
proof (induction "nat (height b)" arbitrary: b rule: less_induct)
  case less
  show ?case
  proof (cases "k = height b")
    case True
    then show ?thesis by (blast intro: ancestor_self)
  next
    case False
    then have "0 < height b" using less.prems by simp
    then obtain a where a: "get s (prev_hash b) = Ok a"
      using get_complete [OF less.prems(1), of "header_hash b" b] less.prems(2) unfolding stored_def by blast
    have sa: "stored (get s) a" using less.prems(1) a by (rule stored_get)
    have "nat (height a) < nat (height b)" "k \<le> height a"
      using stored_prev [OF less.prems(1,2) a] stored_height [OF less.prems(1) sa] less.prems(4) False
      by simp_all
    from less.hyps [OF this(1) less.prems(1) sa less.prems(3) this(2)] a show ?thesis
      by (blast intro: ancestor_step)
  qed
qed

end

section \<open>The invariants of the cache\<close>

text \<open>Keys are header hashes and heights go down by one along each link that is present.\<close>

definition heights_ok :: "BlockCache \<Rightarrow> bool" where
  "heights_ok s \<longleftrightarrow>
     (\<forall>h b. block_records s h = Some b \<longrightarrow>
        header_hash b = h \<and> 0 \<le> height b \<and>
        (\<forall>p. block_records s (prev_hash b) = Some p \<longrightarrow> height b = height p + 1))"

definition chain_ok :: "BlockCache \<Rightarrow> bool" where
  "chain_ok s \<longleftrightarrow> heights_ok s \<and>
     (\<forall>h b. block_records s h = Some b \<longrightarrow> 0 < height b \<longrightarrow> block_records s (prev_hash b) \<noteq> None)"

interpretation bc: block_chain heights_ok block_record
  by unfold_locales (auto simp: heights_ok_def)

interpretation bcc: complete_chain chain_ok block_record
  by unfold_locales (auto simp: heights_ok_def chain_ok_def)

lemma chain_ok_heights_ok: "chain_ok s \<Longrightarrow> heights_ok s"
  by (simp add: chain_ok_def)

lemma init_chain_ok: "chain_ok (init_BlockCache Map.empty hs hth ses)"
  by (simp add: chain_ok_def heights_ok_def init_BlockCache_def)

lemma add_block_record_heights_ok:
  assumes "heights_ok s" and "block_records s (header_hash b) = None" and "0 \<le> height b"
    and "prev_hash b \<noteq> header_hash b"
    and "\<And>p. block_records s (prev_hash b) = Some p \<Longrightarrow> height b = height p + 1"
    and "\<And>h c. block_records s h = Some c \<Longrightarrow> prev_hash c = header_hash b \<Longrightarrow> height c = height b + 1"
  shows "heights_ok (add_block_record s b)"
  using assms unfolding heights_ok_def add_block_record_def by auto

text \<open>Adding a block on top of a complete chain keeps it complete: the prior block is there, and
  nothing already stored can point to the new block.\<close>

lemma add_block_record_chain_ok:
  assumes ok: "chain_ok s" and new: "block_records s (header_hash b) = None"
    and link: "height b = 0 \<and> block_records s (prev_hash b) = None \<or>
      (\<exists>p. block_records s (prev_hash b) = Some p \<and> 0 < height b \<and> height b = height p + 1)"
    and genesis: "\<And>h c. block_records s h = Some c \<Longrightarrow> height c = 0 \<Longrightarrow> prev_hash c \<noteq> header_hash b"
    and "prev_hash b \<noteq> header_hash b"
  shows "chain_ok (add_block_record s b)"
proof -
  have no_child: "prev_hash c \<noteq> header_hash b" if c: "block_records s h = Some c" for h c
  proof (cases "height c = 0")
    case True
    then show ?thesis using genesis [OF c] by simp
  next
    case False
    then have "0 < height c" using c ok by (auto simp: chain_ok_def heights_ok_def order_le_less)
    then show ?thesis using c ok new unfolding chain_ok_def by metis
  qed
  have b: "0 \<le> height b" "\<And>p. block_records s (prev_hash b) = Some p \<Longrightarrow> height b = height p + 1"
    using link by auto
  have h: "heights_ok (add_block_record s b)"
    using ok new b no_child assms(5) by (intro add_block_record_heights_ok) (auto simp: chain_ok_def)
  have "block_records (add_block_record s b) (prev_hash c) \<noteq> None"
    if "block_records (add_block_record s b) k = Some c" and "0 < height c" for k c
  proof (cases "k = header_hash b")
    case True
    then show ?thesis using that link by (auto simp: add_block_record_def)
  next
    case False
    then show ?thesis using that ok by (auto simp: add_block_record_def chain_ok_def)
  qed
  with h show ?thesis unfolding chain_ok_def by blast
qed

lemma remove_block_record_heights_ok:
  assumes "heights_ok s" and "remove_block_record s h = Ok t"
  shows "heights_ok t"
  using assms unfolding heights_ok_def remove_block_record_def by (auto split: if_splits)

section \<open>The previous transaction block\<close>

definition get_prev_transaction_block ::
    "BlockRecord \<Rightarrow> BlockCache \<Rightarrow> int \<Rightarrow> (bool \<times> BlockRecord) res" where
  "get_prev_transaction_block cur blocks total_iters_sp =
     rbind (walk (block_record blocks) (\<lambda>b. \<not> is_transaction_block b) cur) (\<lambda>c.
       if total_iters_sp > total_iters c then Ok (True, c) else Ok (False, cur))"

lemma prev_transaction_block_spec:
  assumes "heights_ok s" and "stored (block_record s) b"
    and "get_prev_transaction_block b s t = Ok (is_tx, c)"
  shows "\<exists>tb. ancestor (block_record s) b tb \<and> is_transaction_block tb \<and>
           (\<forall>d. ancestor (block_record s) b d \<and> height tb < height d \<longrightarrow> \<not> is_transaction_block d) \<and>
           is_tx = (t > total_iters tb) \<and> c = (if is_tx then tb else b)"
proof -
  from assms(3) obtain tb where w: "walk (block_record s) (\<lambda>b. \<not> is_transaction_block b) b = Ok tb"
      and r: "is_tx = (t > total_iters tb)" "c = (if is_tx then tb else b)"
    by (auto simp: get_prev_transaction_block_def split: if_splits)
  from bc.walk_stops [OF assms(1,2) w] r show ?thesis by auto
qed

section \<open>The fork point\<close>

partial_function (option) fork_loop ::
    "BlockCache \<Rightarrow> BlockRecord \<Rightarrow> BlockRecord \<Rightarrow> int res" where
  "fork_loop blocks block_1 block_2 =
     (if height block_2 > 0 \<or> height block_1 > 0 then
        (if height block_2 > height block_1 then
           rbind (block_record blocks (prev_hash block_2)) (\<lambda>block_2. fork_loop blocks block_1 block_2)
         else if height block_1 > height block_2 then
           rbind (block_record blocks (prev_hash block_1)) (\<lambda>block_1. fork_loop blocks block_1 block_2)
         else if header_hash block_2 = header_hash block_1 then Ok (height block_2)
         else
           rbind (block_record blocks (prev_hash block_2)) (\<lambda>block_2.
           rbind (block_record blocks (prev_hash block_1)) (\<lambda>block_1. fork_loop blocks block_1 block_2)))
      else if block_2 \<noteq> block_1 then Ok (- 1)
      else Ok 0)"

declare fork_loop.simps [code]

definition find_fork_point_in_chain :: "BlockCache \<Rightarrow> BlockRecord \<Rightarrow> BlockRecord \<Rightarrow> int res" where
  "find_fork_point_in_chain blocks block_1 block_2 = fork_loop blocks block_1 block_2"

definition common :: "BlockCache \<Rightarrow> BlockRecord \<Rightarrow> BlockRecord \<Rightarrow> BlockRecord \<Rightarrow> bool" where
  "common s a b c \<longleftrightarrow> ancestor (block_record s) a c \<and> ancestor (block_record s) b c"

text \<open>What the fork point is: the height of the highest common ancestor, or -1 if there is none.\<close>

definition is_fork_point :: "BlockCache \<Rightarrow> BlockRecord \<Rightarrow> BlockRecord \<Rightarrow> int \<Rightarrow> bool" where
  "is_fork_point s a b r \<longleftrightarrow>
     (if r = - 1 then (\<forall>c. \<not> common s a b c)
      else (\<exists>c. common s a b c \<and> height c = r \<and> (\<forall>d. common s a b d \<longrightarrow> height d \<le> r)))"

lemma common_sym: "common s a b c \<longleftrightarrow> common s b a c"
  by (auto simp: common_def)

lemma is_fork_point_sym: "is_fork_point s a b r \<longleftrightarrow> is_fork_point s b a r"
  by (simp add: is_fork_point_def common_sym [of s a b])

lemma is_fork_point_cong:
  "(\<And>c. common s a b c \<longleftrightarrow> common s a' b' c) \<Longrightarrow> is_fork_point s a b r \<longleftrightarrow> is_fork_point s a' b' r"
  by (simp add: is_fork_point_def)

lemma common_step:
  assumes ok: "chain_ok s" and a: "stored (block_record s) a" and b: "stored (block_record s) b"
    and lt: "height a < height b" and p: "block_record s (prev_hash b) = Ok p"
  shows "common s a b c \<longleftrightarrow> common s a p c"
proof -
  have "c \<noteq> b" if "ancestor (block_record s) a c"
    using bcc.ancestor_height [OF that ok a] lt by auto
  then show ?thesis using p by (auto simp: common_def ancestor_iff [of _ b])
qed

lemma common_step2:
  assumes ok: "chain_ok s" and a: "stored (block_record s) a" and b: "stored (block_record s) b"
    and eq: "height a = height b" and ne: "a \<noteq> b"
    and p: "block_record s (prev_hash a) = Ok p" and q: "block_record s (prev_hash b) = Ok q"
  shows "common s a b c \<longleftrightarrow> common s p q c"
proof -
  have "c \<noteq> b" if "ancestor (block_record s) a c"
    using bcc.ancestor_height [OF that ok a] eq ne by auto
  moreover have "c \<noteq> a" if "ancestor (block_record s) b c"
    using bcc.ancestor_height [OF that ok b] eq ne by auto
  ultimately show ?thesis
    using p q ancestor_iff [of _ a c] ancestor_iff [of _ b c] unfolding common_def by auto
qed

lemma prev_of:
  assumes "chain_ok s" and "stored (block_record s) b" and "0 < height b"
  obtains p where "block_record s (prev_hash b) = Ok p" and "stored (block_record s) p"
    and "height b = height p + 1"
proof -
  from bcc.get_complete [OF assms(1) _ assms(3)] assms(2)
  obtain p where p: "block_record s (prev_hash b) = Ok p" by (auto simp: stored_def)
  show thesis
    using that [OF p bcc.stored_get [OF assms(1) p] bcc.stored_prev [OF assms(1,2) p]] .
qed

lemma fork_loop_spec:
  assumes ok: "chain_ok s"
  shows "stored (block_record s) a \<Longrightarrow> stored (block_record s) b \<Longrightarrow>
    \<exists>r. fork_loop s a b = Ok r \<and> is_fork_point s a b r"
proof (induction "nat (height a) + nat (height b)" arbitrary: a b rule: less_induct)
  case less
  note ha = bcc.stored_height [OF ok less.prems(1)] and hb = bcc.stored_height [OF ok less.prems(2)]
  consider (b) "height a < height b" | (a) "height b < height a"
    | (same) "a = b" | (ne) "height a = height b" "a \<noteq> b" "0 < height a"
    | (zero) "height a = 0" "height b = 0" "a \<noteq> b"
    using ha hb by force
  then show ?case
  proof cases
    case b
    then obtain p where p: "block_record s (prev_hash b) = Ok p" "stored (block_record s) p"
        "height b = height p + 1"
      using prev_of [OF ok less.prems(2)] ha by auto
    from less.hyps [OF _ less.prems(1) p(2)] p(3) bcc.stored_height [OF ok p(2)]
    obtain r where "fork_loop s a p = Ok r" "is_fork_point s a p r" by auto
    moreover have "is_fork_point s a b r \<longleftrightarrow> is_fork_point s a p r"
      by (rule is_fork_point_cong) (rule common_step [OF ok less.prems b p(1)])
    ultimately show ?thesis using b ha p(1) by (simp add: fork_loop.simps [of s a b])
  next
    case a
    then obtain p where p: "block_record s (prev_hash a) = Ok p" "stored (block_record s) p"
        "height a = height p + 1"
      using prev_of [OF ok less.prems(1)] hb by auto
    from less.hyps [OF _ p(2) less.prems(2)] p(3) bcc.stored_height [OF ok p(2)]
    obtain r where "fork_loop s p b = Ok r" "is_fork_point s p b r" by auto
    moreover have "is_fork_point s a b r \<longleftrightarrow> is_fork_point s p b r"
      unfolding is_fork_point_sym [of s _ b]
      by (rule is_fork_point_cong) (rule common_step [OF ok less.prems(2,1) a p(1)])
    ultimately show ?thesis using a hb p(1) by (simp add: fork_loop.simps [of s a b])
  next
    case same
    have "fork_loop s a b = Ok (height a)"
      using ha by (simp add: fork_loop.simps [of s b b] same)
    moreover have "is_fork_point s a b (height a)"
      using ha bcc.ancestor_height [OF _ ok less.prems(1)]
      by (auto simp: is_fork_point_def common_def same intro: ancestor_self)
    ultimately show ?thesis by blast
  next
    case ne
    from prev_of [OF ok less.prems(1)] ne obtain p where p: "block_record s (prev_hash a) = Ok p"
        "stored (block_record s) p" "height a = height p + 1" by auto
    from prev_of [OF ok less.prems(2)] ne obtain q where q: "block_record s (prev_hash b) = Ok q"
        "stored (block_record s) q" "height b = height q + 1" by auto
    have "nat (height p) + nat (height q) < nat (height a) + nat (height b)"
      using bcc.stored_height [OF ok p(2)] bcc.stored_height [OF ok q(2)]
      by (simp add: p(3) q(3) nat_add_distrib)
    from less.hyps [OF this p(2) q(2)]
    obtain r where "fork_loop s p q = Ok r" "is_fork_point s p q r" by blast
    moreover have "is_fork_point s a b r \<longleftrightarrow> is_fork_point s p q r"
      by (rule is_fork_point_cong) (rule common_step2 [OF ok less.prems ne(1,2) p(1) q(1)])
    moreover have "header_hash b \<noteq> header_hash a"
      using bcc.stored_inj less.prems ne(2) by metis
    ultimately show ?thesis using ne p(1) q(1) by (simp add: fork_loop.simps [of s a b])
  next
    case zero
    have "\<not> common s a b c" for c
      using bcc.ancestor_height [OF _ ok less.prems(1), of c]
        bcc.ancestor_height [OF _ ok less.prems(2), of c] zero
        bcc.ancestor_stored [OF _ ok less.prems(1), of c] bcc.stored_height [OF ok, of c]
      unfolding common_def by fastforce
    then show ?thesis using zero by (auto simp: fork_loop.simps [of s a b] is_fork_point_def)
  qed
qed

end
