(* ===== verification/Difficulty_Adjustment.thy ===== *)
theory Difficulty_Adjustment
  imports Block_Cache Significant_Bits
begin

text \<open>
  \<^verbatim>\<open>chia/consensus/difficulty_adjustment.py\<close>: when a sub-epoch or epoch may end, and the difficulty
  and sub-slot iterations of the next one. The lemmas bound the change of both parameters by the
  maximum factor, show that the assertions on significant bits cannot fail, and that no loop of the
  module runs forever on a well-formed cache.
\<close>

section \<open>Blocks by height\<close>

text \<open>The slow path: back one by one, collecting the wanted range in reverse.\<close>

partial_function (option) blocks_back ::
    "BlockCache \<Rightarrow> int \<Rightarrow> int \<Rightarrow> BlockRecord \<Rightarrow> BlockRecord list \<Rightarrow> BlockRecord list res" where
  "blocks_back blocks target_height max_num_blocks curr_b target_blocks =
     (if height curr_b \<ge> target_height then
        (let target_blocks =
               (if height curr_b < target_height + max_num_blocks then target_blocks @ [curr_b]
                else target_blocks)
         in if height curr_b = 0 then Ok target_blocks
            else rbind (block_record blocks (prev_hash curr_b)) (\<lambda>curr_b.
                   blocks_back blocks target_height max_num_blocks curr_b target_blocks))
      else Ok target_blocks)"

declare blocks_back.simps [code]

definition get_blocks_at_height ::
    "BlockCache \<Rightarrow> BlockRecord \<Rightarrow> int \<Rightarrow> int \<Rightarrow> BlockRecord list res" where
  "get_blocks_at_height blocks prev_b target_height max_num_blocks =
     (if contains_height blocks (height prev_b) \<and>
         height_to_hash blocks (height prev_b) = Some (header_hash prev_b)
      then rmap (\<lambda>h. rbind (uint32 h) (\<lambda>h.
                     rbind (py_assert (contains_height blocks h)) (\<lambda>_.
                       height_to_block_record blocks h)))
             [target_height .. target_height + max_num_blocks - 1]
      else rbind (blocks_back blocks target_height max_num_blocks prev_b []) (\<lambda>target_blocks.
             Ok (rev target_blocks)))"

section \<open>The second to last transaction block of the previous epoch\<close>

text \<open>\<^verbatim>\<open>while next_b.sub_epoch_summary_included is None\<close> over the fetched list; the list index only
  grows, so the recursion is on the distance to the end, where Python raises \<^verbatim>\<open>IndexError\<close>.\<close>

function find_epoch_end ::
    "BlockRecord list \<Rightarrow> BlockRecord \<Rightarrow> BlockRecord \<Rightarrow> nat \<Rightarrow> BlockRecord res" where
  "find_epoch_end fetched_blocks curr_b next_b fetched_index =
     (if sub_epoch_summary_included next_b = None then
        (if fetched_index < length fetched_blocks
         then find_epoch_end fetched_blocks next_b (fetched_blocks ! fetched_index) (Suc fetched_index)
         else Raise IndexError)
      else Ok curr_b)"
  by auto
termination by (relation "measure (\<lambda>(xs, _, _, i). length xs - i)") auto

declare find_epoch_end.simps [simp del]

text \<open>The number of transaction blocks found goes to two.\<close>

definition back_to_second_tx :: "BlockCache \<Rightarrow> BlockRecord \<Rightarrow> BlockRecord res" where
  "back_to_second_tx blocks curr_b =
     rbind (walk_acc (block_record blocks) (\<lambda>b n. n + (if is_transaction_block b then 1 else 0) < (2::nat))
              (\<lambda>b n. Ok (n + (if is_transaction_block b then 1 else 0))) curr_b 0) (\<lambda>(b, n). Ok b)"

definition get_second_to_last_transaction_block_in_previous_epoch ::
    "ConsensusConstants \<Rightarrow> BlockCache \<Rightarrow> BlockRecord \<Rightarrow> BlockRecord res" where
  "get_second_to_last_transaction_block_in_previous_epoch c blocks last_b =
     (let height_in_next_epoch =
            height last_b + 2 * MAX_SUB_SLOT_BLOCKS c + MIN_BLOCKS_PER_CHALLENGE_BLOCK c + 5
      in rbind (py_mod height_in_next_epoch (EPOCH_BLOCKS c)) (\<lambda>r.
         rbind (uint32 (height_in_next_epoch - r)) (\<lambda>height_epoch_surpass.
         rbind (uint32 (height_epoch_surpass - EPOCH_BLOCKS c)) (\<lambda>height_prev_epoch_surpass.
         rbind (py_assert (height_prev_epoch_surpass mod EPOCH_BLOCKS c = 0)) (\<lambda>_.
         rbind (py_assert (height_in_next_epoch - height_epoch_surpass < 5 * MAX_SUB_SLOT_BLOCKS c)) (\<lambda>_.
           if height_prev_epoch_surpass = 0 then
             rbind (get_blocks_at_height blocks last_b 0 1) (\<lambda>bs. py_nth bs 0)
           else
             rbind (uint32 (height_prev_epoch_surpass - MAX_SUB_SLOT_BLOCKS c - 1)) (\<lambda>target.
             rbind (uint32 (3 * MAX_SUB_SLOT_BLOCKS c + MIN_BLOCKS_PER_CHALLENGE_BLOCK c + 3)) (\<lambda>num.
             rbind (get_blocks_at_height blocks last_b target num) (\<lambda>fetched_blocks.
             rbind (py_nth fetched_blocks (MAX_SUB_SLOT_BLOCKS c)) (\<lambda>curr_b.
             rbind (py_assert (height curr_b = height_prev_epoch_surpass - 1)) (\<lambda>_.
             rbind (py_nth fetched_blocks (MAX_SUB_SLOT_BLOCKS c + 1)) (\<lambda>next_b.
             rbind (py_assert (height next_b = height_prev_epoch_surpass)) (\<lambda>_.
             rbind (find_epoch_end fetched_blocks curr_b next_b (nat (MAX_SUB_SLOT_BLOCKS c + 1))) (\<lambda>curr_b.
               back_to_second_tx blocks curr_b))))))))))))))"

section \<open>Ends of sub-epochs and epochs\<close>

definition height_can_be_first_in_epoch :: "ConsensusConstants \<Rightarrow> int \<Rightarrow> bool res" where
  "height_can_be_first_in_epoch c h =
     rbind (py_mod h (SUB_EPOCH_BLOCKS c)) (\<lambda>r.
     rbind (py_mod (h - r) (EPOCH_BLOCKS c)) (\<lambda>q. Ok (q = 0)))"

text \<open>The loop returns early at the first block with a summary; the walk stops there, and the test
  after the loop gives the same answer.\<close>

definition can_finish_sub_and_full_epoch ::
    "ConsensusConstants \<Rightarrow> BlockCache \<Rightarrow> int \<Rightarrow> bytes option \<Rightarrow> int \<Rightarrow> bool \<Rightarrow> (bool \<times> bool) res" where
  "can_finish_sub_and_full_epoch c blocks h prev_header_hash dfct block_at_height_included_ses =
     (if h < SUB_EPOCH_BLOCKS c - 1 then Ok (False, False)
      else
        rbind (unwrap AssertionError prev_header_hash) (\<lambda>prev_header_hash.
          if dfct > 0 then Ok (False, False)
          else if block_at_height_included_ses then Ok (False, False)
          else
            rbind (py_mod (h + 1) (SUB_EPOCH_BLOCKS c)) (\<lambda>r.
            rbind (if r > 1
                   then rbind (block_record blocks prev_header_hash) (\<lambda>cur.
                        rbind (walk (block_record blocks)
                                 (\<lambda>b. height b mod SUB_EPOCH_BLOCKS c > 0 \<and> sub_epoch_summary_included b = None)
                                 cur) (\<lambda>cur. Ok (sub_epoch_summary_included cur \<noteq> None)))
                   else Ok False) (\<lambda>included.
              if included then Ok (False, False)
              else rbind (uint32 (h + 1)) (\<lambda>h1.
                   rbind (height_can_be_first_in_epoch c h1) (\<lambda>e. Ok (True, e)))))))"

section \<open>The next sub-slot iterations and difficulty\<close>

text \<open>The last transaction block at or before the signage point.\<close>

definition last_tx_before :: "BlockCache \<Rightarrow> int \<Rightarrow> BlockRecord \<Rightarrow> BlockRecord res" where
  "last_tx_before blocks signage_point_total_iters prev_b =
     walk (block_record blocks)
       (\<lambda>b. total_iters b > signage_point_total_iters \<or> \<not> is_transaction_block b) prev_b"

text \<open>The arithmetic at the end of \<^verbatim>\<open>_get_next_sub_slot_iters\<close>, from the epoch's two marks.\<close>

definition next_ssi_value :: "ConsensusConstants \<Rightarrow> BlockRecord \<Rightarrow> BlockRecord \<Rightarrow> int res" where
  "next_ssi_value c last_block_curr last_block_prev =
     rbind (unwrap AssertionError (timestamp last_block_curr)) (\<lambda>t_curr.
     rbind (unwrap AssertionError (timestamp last_block_prev)) (\<lambda>t_prev.
     rbind (py_floordiv
              (SUB_SLOT_TIME_TARGET c * (total_iters last_block_curr - total_iters last_block_prev))
              (t_curr - t_prev)) (\<lambda>q.
     rbind (uint64 q) (\<lambda>new_ssi_precise.
     rbind (uint64 (DIFFICULTY_CHANGE_MAX_FACTOR c * sub_slot_iters last_block_curr)) (\<lambda>max_ssi.
     rbind (py_floordiv (sub_slot_iters last_block_curr) (DIFFICULTY_CHANGE_MAX_FACTOR c)) (\<lambda>q.
     rbind (uint64 q) (\<lambda>min_ssi.
     rbind (if new_ssi_precise \<ge> sub_slot_iters last_block_curr
            then uint64 (min new_ssi_precise max_ssi)
            else uint64 (max (max (NUM_SPS_SUB_SLOT c) new_ssi_precise) min_ssi)) (\<lambda>new_ssi_precise.
     (let new_ssi = truncate_to_significant_bits new_ssi_precise (SIGNIFICANT_BITS c)
      in rbind (py_mod new_ssi (NUM_SPS_SUB_SLOT c)) (\<lambda>r.
         rbind (uint64 (new_ssi - r)) (\<lambda>new_ssi.
         rbind (py_assert (count_significant_bits new_ssi \<le> SIGNIFICANT_BITS c)) (\<lambda>_.
           Ok new_ssi))))))))))))"

definition get_next_sub_slot_iters ::
    "ConsensusConstants \<Rightarrow> BlockCache \<Rightarrow> bytes \<Rightarrow> int \<Rightarrow> int \<Rightarrow> int \<Rightarrow> bool \<Rightarrow> bool \<Rightarrow> int \<Rightarrow> bool \<Rightarrow> int res" where
  "get_next_sub_slot_iters c blocks prev_header_hash h curr_sub_slot_iters dfct
       block_at_height_included_ses new_slot signage_point_total_iters skip_epoch_check =
     rbind (uint32 (h + 1)) (\<lambda>next_height.
       if next_height < EPOCH_BLOCKS c then uint64 (SUB_SLOT_ITERS_STARTING c)
       else if \<not> contains_block blocks prev_header_hash then Raise ValueError
       else
         rbind (block_record blocks prev_header_hash) (\<lambda>prev_b.
         rbind (if skip_epoch_check then Ok False
                else rbind (can_finish_sub_and_full_epoch c blocks h (Some prev_header_hash) dfct
                              block_at_height_included_ses) (\<lambda>(_, can_finish_epoch).
                       Ok (\<not> new_slot \<or> \<not> can_finish_epoch))) (\<lambda>same_epoch.
           if same_epoch then Ok curr_sub_slot_iters
           else
             rbind (get_second_to_last_transaction_block_in_previous_epoch c blocks prev_b) (\<lambda>last_block_prev.
             rbind (last_tx_before blocks signage_point_total_iters prev_b) (\<lambda>last_block_curr.
               next_ssi_value c last_block_curr last_block_prev)))))"

definition next_difficulty_value ::
    "ConsensusConstants \<Rightarrow> BlockCache \<Rightarrow> BlockRecord \<Rightarrow> BlockRecord \<Rightarrow> BlockRecord \<Rightarrow> int res" where
  "next_difficulty_value c blocks prev_b last_block_curr last_block_prev =
     rbind (unwrap AssertionError (timestamp last_block_curr)) (\<lambda>t_curr.
     rbind (unwrap AssertionError (timestamp last_block_prev)) (\<lambda>t_prev.
     rbind (uint64 (t_curr - t_prev)) (\<lambda>actual_epoch_time.
     rbind (block_record blocks (prev_hash prev_b)) (\<lambda>prev_prev_b.
     rbind (uint64 (weight prev_b - weight prev_prev_b)) (\<lambda>old_difficulty.
     rbind (py_floordiv
              ((weight last_block_curr - weight last_block_prev) * SUB_SLOT_TIME_TARGET c)
              (SLOT_BLOCKS_TARGET c * actual_epoch_time)) (\<lambda>q.
     rbind (uint64 q) (\<lambda>new_difficulty_precise.
     rbind (uint64 (DIFFICULTY_CHANGE_MAX_FACTOR c * old_difficulty)) (\<lambda>max_diff.
     rbind (py_floordiv old_difficulty (DIFFICULTY_CHANGE_MAX_FACTOR c)) (\<lambda>q.
     rbind (uint64 q) (\<lambda>min_diff.
     rbind (if new_difficulty_precise \<ge> old_difficulty
            then uint64 (min new_difficulty_precise max_diff)
            else uint64 (max (max 1 new_difficulty_precise) min_diff)) (\<lambda>new_difficulty_precise.
     (let new_difficulty = truncate_to_significant_bits new_difficulty_precise (SIGNIFICANT_BITS c)
      in rbind (py_assert (count_significant_bits new_difficulty \<le> SIGNIFICANT_BITS c)) (\<lambda>_.
           uint64 new_difficulty)))))))))))))"

definition get_next_difficulty ::
    "ConsensusConstants \<Rightarrow> BlockCache \<Rightarrow> bytes \<Rightarrow> int \<Rightarrow> int \<Rightarrow> int \<Rightarrow> bool \<Rightarrow> bool \<Rightarrow> int \<Rightarrow> bool \<Rightarrow> int res" where
  "get_next_difficulty c blocks prev_header_hash h current_difficulty dfct
       block_at_height_included_ses new_slot signage_point_total_iters skip_epoch_check =
     rbind (uint32 (h + 1)) (\<lambda>next_height.
       if next_height < EPOCH_BLOCKS c - 3 * MAX_SUB_SLOT_BLOCKS c then uint64 (DIFFICULTY_STARTING c)
       else if \<not> contains_block blocks prev_header_hash then Raise ValueError
       else
         rbind (block_record blocks prev_header_hash) (\<lambda>prev_b.
         rbind (if skip_epoch_check then Ok False
                else rbind (can_finish_sub_and_full_epoch c blocks h (Some prev_header_hash) dfct
                              block_at_height_included_ses) (\<lambda>(_, can_finish_epoch).
                       Ok (\<not> new_slot \<or> \<not> can_finish_epoch))) (\<lambda>same_slot.
           if same_slot then Ok current_difficulty
           else
             rbind (get_second_to_last_transaction_block_in_previous_epoch c blocks prev_b) (\<lambda>last_block_prev.
             rbind (last_tx_before blocks signage_point_total_iters prev_b) (\<lambda>last_block_curr.
               next_difficulty_value c blocks prev_b last_block_curr last_block_prev)))))"

text \<open>The result is the pair of sub-slot iterations and difficulty.\<close>

definition get_next_sub_slot_iters_and_difficulty ::
    "ConsensusConstants \<Rightarrow> bool \<Rightarrow> BlockRecord option \<Rightarrow> BlockCache \<Rightarrow> (int \<times> int) res" where
  "get_next_sub_slot_iters_and_difficulty c is_first_in_sub_slot prev_b blocks =
     (case prev_b of
        None \<Rightarrow> Ok (SUB_SLOT_ITERS_STARTING c, DIFFICULTY_STARTING c)
      | Some prev_b \<Rightarrow>
          rbind (if height prev_b \<noteq> 0
                 then rbind (block_record blocks (prev_hash prev_b)) (\<lambda>pp.
                        uint64 (weight prev_b - weight pp))
                 else uint64 (weight prev_b)) (\<lambda>prev_difficulty.
            if sub_epoch_summary_included prev_b \<noteq> None
            then Ok (sub_slot_iters prev_b, prev_difficulty)
            else
              rbind (sp_total_iters c prev_b) (\<lambda>sp_total.
              rbind (get_next_difficulty c blocks (prev_hash prev_b) (height prev_b) prev_difficulty
                       (deficit prev_b) False is_first_in_sub_slot sp_total False) (\<lambda>difficulty.
              rbind (get_next_sub_slot_iters c blocks (prev_hash prev_b) (height prev_b)
                       (sub_slot_iters prev_b) (deficit prev_b) False is_first_in_sub_slot sp_total
                       False) (\<lambda>ssi. Ok (ssi, difficulty))))))"

section \<open>No loop of the module runs forever\<close>

lemma returns_blocks_back:
  assumes ok: "heights_ok s"
  shows "stored (block_record s) b \<Longrightarrow> returns (blocks_back s t n b acc)"
proof (induction "nat (height b)" arbitrary: b acc rule: less_induct)
  case less
  have "returns (blocks_back s t n a acc')" if a: "block_record s (prev_hash b) = Ok a" for a acc'
  proof (rule less.hyps)
    show sa: "stored (block_record s) a" using ok a by (rule bc.stored_get)
    show "nat (height a) < nat (height b)"
      using bc.stored_prev [OF ok less.prems a] bc.stored_height [OF ok sa] by simp
  qed
  then show ?case
    by (subst blocks_back.simps) (intro returns_rules)
qed

lemma returns_get_blocks_at_height:
  assumes "heights_ok s" and "stored (block_record s) b"
  shows "returns (get_blocks_at_height s b t n)"
  unfolding get_blocks_at_height_def
  by (intro returns_rules returns_blocks_back assms)

lemma returns_find_epoch_end [returns_rules]: "returns (find_epoch_end xs b n i)"
proof (induction xs b n i rule: find_epoch_end.induct)
  case (1 xs b n i)
  then show ?case by (subst find_epoch_end.simps) (intro returns_rules)
qed

lemma find_epoch_end_in:
  "find_epoch_end xs b n i = Ok c \<Longrightarrow> c = b \<or> c = n \<or> c \<in> set xs"
proof (induction xs b n i rule: find_epoch_end.induct)
  case (1 xs b n i)
  show ?case
  proof (cases "sub_epoch_summary_included n = None \<and> i < length xs")
    case True
    then have r: "find_epoch_end xs n (xs ! i) (Suc i) = Ok c"
      using 1(2) by (simp add: find_epoch_end.simps [of xs b n i])
    have "c = n \<or> c = xs ! i \<or> c \<in> set xs" by (rule 1(1)) (use True r in blast)+
    then show ?thesis using True nth_mem by metis
  next
    case False
    then show ?thesis using 1(2) by (simp add: find_epoch_end.simps [of xs b n i] split: if_splits)
  qed
qed

lemma blocks_back_stored:
  assumes ok: "heights_ok s"
  shows "stored (block_record s) b \<Longrightarrow> (\<And>a. a \<in> set acc \<Longrightarrow> stored (block_record s) a) \<Longrightarrow>
    blocks_back s t n b acc = Ok bs \<Longrightarrow> x \<in> set bs \<Longrightarrow> stored (block_record s) x"
proof (induction "nat (height b)" arbitrary: b acc rule: less_induct)
  case less
  define acc' where "acc' = (if height b < t + n then acc @ [b] else acc)"
  have acc': "\<And>y. y \<in> set acc' \<Longrightarrow> stored (block_record s) y"
    using less.prems(1,2) by (auto simp: acc'_def split: if_splits)
  have step: "blocks_back s t n b acc =
      (if height b \<ge> t then if height b = 0 then Ok acc'
         else rbind (block_record s (prev_hash b)) (\<lambda>a. blocks_back s t n a acc') else Ok acc)"
    by (subst blocks_back.simps) (simp add: acc'_def Let_def)
  show ?case
  proof (cases "height b \<ge> t \<and> height b \<noteq> 0")
    case False
    then have "bs = acc \<or> bs = acc'" using less.prems(3) by (auto simp: step split: if_splits)
    then show ?thesis using less.prems(2,4) acc' by blast
  next
    case True
    then obtain a where a: "block_record s (prev_hash b) = Ok a" and r: "blocks_back s t n a acc' = Ok bs"
      using less.prems(3) by (auto simp: step rbind_eq_Ok)
    have sa: "stored (block_record s) a" using ok a by (rule bc.stored_get)
    have lt: "nat (height a) < nat (height b)"
      using bc.stored_prev [OF ok less.prems(1) a] bc.stored_height [OF ok sa] by simp
    from less.hyps [OF lt sa acc' r less.prems(4)] show ?thesis .
  qed
qed

lemma height_to_block_record_stored:
  "heights_ok s \<Longrightarrow> height_to_block_record s h = Ok b \<Longrightarrow> stored (block_record s) b"
  using bc.stored_get [of s] by (auto simp: height_to_block_record_def split: option.splits)

lemma get_blocks_at_height_stored:
  assumes ok: "heights_ok s" and b: "stored (block_record s) b"
    and bs: "get_blocks_at_height s b t n = Ok bs" and x: "x \<in> set bs"
  shows "stored (block_record s) x"
proof (cases "contains_height s (height b) \<and> height_to_hash s (height b) = Some (header_hash b)")
  case True
  obtain i where i: "i < length bs" "x = bs ! i" using x by (auto simp: in_set_conv_nth)
  have r: "rmap (\<lambda>h. rbind (uint32 h) (\<lambda>h. rbind (py_assert (contains_height s h)) (\<lambda>_.
      height_to_block_record s h))) [t..t + n - 1] = Ok bs"
    using True bs by (simp add: get_blocks_at_height_def)
  then have "i < length [t..t + n - 1]" using i(1) rmap_length [OF r] by (simp only:)
  from rmap_nth [OF r this] i(2) show ?thesis
    by (auto intro: height_to_block_record_stored [OF ok])
next
  case False
  then have *: "get_blocks_at_height s b t n = rbind (blocks_back s t n b []) (\<lambda>bs. Ok (rev bs))"
    by (simp only: get_blocks_at_height_def if_False)
  from bs obtain cs where "blocks_back s t n b [] = Ok cs" and "bs = rev cs"
    unfolding * by auto
  with x blocks_back_stored [OF ok b, of "[]"] show ?thesis by auto
qed

lemma returns_back_to_second_tx:
  assumes "heights_ok s" and "stored (block_record s) b"
  shows "returns (back_to_second_tx s b)"
  unfolding back_to_second_tx_def by (intro returns_rules bc.returns_walk_acc assms)

lemma py_nth_in: "py_nth xs i = Ok x \<Longrightarrow> x \<in> set xs"
  by (auto simp: py_nth_def Let_def split: if_splits)

lemma returns_second_to_last:
  assumes ok: "heights_ok s" and b: "stored (block_record s) b"
  shows "returns (get_second_to_last_transaction_block_in_previous_epoch c s b)"
proof -
  have "returns (back_to_second_tx s z)"
    if "get_blocks_at_height s b t n = Ok bs" "py_nth bs i = Ok x" "py_nth bs j = Ok y"
      "find_epoch_end bs x y k = Ok z" for t n bs i j x y k z
  proof (rule returns_back_to_second_tx [OF ok])
    have "z \<in> set bs" using find_epoch_end_in [OF that(4)] py_nth_in [OF that(2)] py_nth_in [OF that(3)] by metis
    then show "stored (block_record s) z" by (rule get_blocks_at_height_stored [OF ok b that(1)])
  qed
  then show ?thesis
    unfolding get_second_to_last_transaction_block_in_previous_epoch_def
    by (intro returns_rules returns_get_blocks_at_height [OF ok b])
qed

lemma returns_can_finish:
  assumes ok: "heights_ok s"
  shows "returns (can_finish_sub_and_full_epoch c s h p d i)"
  unfolding can_finish_sub_and_full_epoch_def height_can_be_first_in_epoch_def
  by (intro returns_rules bc.returns_walk [OF ok] bc.stored_get [OF ok])

lemma returns_last_tx_before:
  "heights_ok s \<Longrightarrow> stored (block_record s) b \<Longrightarrow> returns (last_tx_before s t b)"
  unfolding last_tx_before_def by (rule bc.returns_walk)

lemma returns_next_values [returns_rules]:
  "returns (next_ssi_value c x y)" "returns (next_difficulty_value c s b x y)"
  unfolding next_ssi_value_def next_difficulty_value_def by (intro returns_rules)+

lemma returns_get_next:
  assumes ok: "heights_ok s"
  shows "returns (get_next_sub_slot_iters c s p h cur d i ns sp sk)"
    and "returns (get_next_difficulty c s p h cur d i ns sp sk)"
proof -
  note rules = returns_rules returns_can_finish returns_second_to_last returns_last_tx_before ok
    bc.stored_get [OF ok]
  show "returns (get_next_sub_slot_iters c s p h cur d i ns sp sk)"
    unfolding get_next_sub_slot_iters_def by (intro rules)
  show "returns (get_next_difficulty c s p h cur d i ns sp sk)"
    unfolding get_next_difficulty_def by (intro rules)
qed

lemma returns_get_next_sub_slot_iters_and_difficulty:
  assumes ok: "heights_ok s"
  shows "returns (get_next_sub_slot_iters_and_difficulty c f b s)"
  unfolding get_next_sub_slot_iters_and_difficulty_def
  by (intro returns_rules returns_get_next ok)

section \<open>The values of the next epoch\<close>

text \<open>What truncation loses: less than a fraction \<open>2 ^ (1 - n)\<close> of the value.\<close>

lemma truncate_rel:
  assumes x: "0 < x" and n: "1 \<le> n"
  shows "(x - truncate_to_significant_bits x n) * 2 ^ nat (n - 1) < x"
proof (cases "n > int (bit_length x)")
  case True
  then show ?thesis using x n by (simp add: truncate_floor)
next
  case False
  have "nat (n - 1) + (bit_length x - nat n) = bit_length x - 1" using False n by simp
  then have "(2::int) ^ nat (n - 1) * 2 ^ (bit_length x - nat n) = 2 ^ (bit_length x - 1)"
    by (metis power_add)
  moreover have "x mod 2 ^ (bit_length x - nat n) < 2 ^ (bit_length x - nat n)" by simp
  ultimately have "(x mod 2 ^ (bit_length x - nat n)) * 2 ^ nat (n - 1) < 2 ^ (bit_length x - 1)"
    by (metis mult.commute mult_less_cancel_left_pos zero_less_numeral zero_less_power)
  also have "\<dots> \<le> x" using x by (rule bit_length_lower)
  finally show ?thesis using False x n by (simp add: truncate_floor)
qed

definition clamp :: "int \<Rightarrow> int \<Rightarrow> int \<Rightarrow> int" where
  "clamp lo hi x = max lo (min hi x)"

text \<open>The unclamped difficulty of the epoch: weight gained per target time.\<close>

definition precise_difficulty :: "ConsensusConstants \<Rightarrow> BlockRecord \<Rightarrow> BlockRecord \<Rightarrow> int" where
  "precise_difficulty c cur prv =
     (weight cur - weight prv) * SUB_SLOT_TIME_TARGET c
       div (SLOT_BLOCKS_TARGET c * (the (timestamp cur) - the (timestamp prv)))"

definition precise_ssi :: "ConsensusConstants \<Rightarrow> BlockRecord \<Rightarrow> BlockRecord \<Rightarrow> int" where
  "precise_ssi c cur prv =
     SUB_SLOT_TIME_TARGET c * (total_iters cur - total_iters prv)
       div (the (timestamp cur) - the (timestamp prv))"

lemma div_factor_le: "0 \<le> x \<Longrightarrow> 1 \<le> f \<Longrightarrow> x div f \<le> (x::int)"
  using zdiv_mono2 [of x 1 f] by simp

lemma clamp_abstract:
  fixes old m k p :: int
  assumes "m \<le> old" and "old \<le> k" and "lo \<le> old"
  shows "(if p \<ge> old then min p k else max (max lo p) m) = clamp (max lo m) k p"
  using assms by (auto simp: clamp_def max_def min_def)

lemma le_factor: "0 \<le> old \<Longrightarrow> 1 \<le> f \<Longrightarrow> (old::int) \<le> f * old"
  using mult_right_mono [of 1 f old] by simp

lemma clamp_cases:
  fixes old f p :: int
  assumes "1 \<le> f" and "1 \<le> lo" and "lo \<le> old"
  shows "(if p \<ge> old then min p (f * old) else max (max lo p) (old div f))
           = clamp (max lo (old div f)) (f * old) p"
  using assms by (intro clamp_abstract div_factor_le le_factor) simp_all

lemma next_difficulty_value_eq:
  assumes d: "next_difficulty_value c s b cur prv = Ok d"
    and f: "1 \<le> DIFFICULTY_CHANGE_MAX_FACTOR c"
  shows "\<exists>pp. block_record s (prev_hash b) = Ok pp \<and> 0 \<le> weight b - weight pp \<and>
           (1 \<le> weight b - weight pp \<longrightarrow>
              d = truncate_to_significant_bits
                    (clamp (max 1 ((weight b - weight pp) div DIFFICULTY_CHANGE_MAX_FACTOR c))
                       (DIFFICULTY_CHANGE_MAX_FACTOR c * (weight b - weight pp))
                       (precise_difficulty c cur prv)) (SIGNIFICANT_BITS c))"
proof -
  from d obtain pp t1 t2 where pp: "block_record s (prev_hash b) = Ok pp" "0 \<le> weight b - weight pp"
      and t: "timestamp cur = Some t1" "timestamp prv = Some t2"
      and e: "d = truncate_to_significant_bits
          (if precise_difficulty c cur prv \<ge> weight b - weight pp
           then min (precise_difficulty c cur prv) (DIFFICULTY_CHANGE_MAX_FACTOR c * (weight b - weight pp))
           else max (max 1 (precise_difficulty c cur prv))
                  ((weight b - weight pp) div DIFFICULTY_CHANGE_MAX_FACTOR c)) (SIGNIFICANT_BITS c)"
    unfolding next_difficulty_value_def precise_difficulty_def Let_def
    by (auto split: if_splits)
  show ?thesis using pp e clamp_cases [OF f, of 1 "weight b - weight pp" "precise_difficulty c cur prv"]
    by auto
qed

lemma clamp_truncate_bounds:
  assumes f: "1 \<le> f" and n: "1 \<le> n" and old: "1 \<le> old" and lo: "1 \<le> lo" "lo \<le> old"
    and d: "d = truncate_to_significant_bits (clamp (max lo (old div f)) (f * old) p) n"
  shows "1 \<le> d" and "d \<le> f * old" and "old < 2 * f * d"
proof -
  let ?x = "clamp (max lo (old div f)) (f * old) p"
  have le: "old div f \<le> old" using f old by (intro div_factor_le) simp_all
  have fo: "old \<le> f * old" using f old by (intro le_factor) simp_all
  have x: "lo \<le> ?x" "old div f \<le> ?x" "?x \<le> f * old"
    using le fo lo order_trans [OF le fo] order_trans [OF lo(2) fo] by (simp_all only: clamp_def max.bounded_iff) auto
  have x0: "0 < ?x" using x(1) lo by simp
  have t: "2 ^ (bit_length ?x - 1) \<le> d" using truncate_top_bit [OF x0 n] d by simp
  moreover have "(1::int) \<le> 2 ^ (bit_length ?x - 1)" by simp
  ultimately show "1 \<le> d" by linarith
  show "d \<le> f * old" using truncate_le [of ?x n] x0 n x(3) d by simp
  have "?x < 2 * 2 ^ (bit_length ?x - 1)"
    using bit_length_upper [of ?x] bit_length_pos [OF x0] x0 by (metis less_imp_le power_minus_mult mult.commute)
  with t x(2) have "old div f < 2 * d" by linarith
  then have "old div f + 1 \<le> 2 * d" by simp
  then have "(old div f + 1) * f \<le> 2 * d * f" using f by (intro mult_right_mono) simp_all
  moreover have "old < (old div f + 1) * f"
  proof -
    have "old mod f < f" using f by (intro pos_mod_bound) simp
    then show ?thesis using div_mult_mod_eq [of old f] by (simp only: distrib_right)
  qed
  ultimately show "old < 2 * f * d" by (simp add: mult_ac)
qed

text \<open>The assertions on the number of significant bits hold whatever the inputs are.\<close>

lemma next_difficulty_value_no_assertion:
  assumes t: "timestamp cur \<noteq> None" "timestamp prv \<noteq> None" and n: "1 \<le> SIGNIFICANT_BITS c"
  shows "next_difficulty_value c s b cur prv \<noteq> Raise AssertionError"
proof -
  have "uintN w v \<noteq> Raise AssertionError" for w v by (simp add: uintN_def)
  moreover have "py_floordiv x y \<noteq> Raise AssertionError" for x y by (simp add: py_floordiv_def)
  moreover have "block_record s h \<noteq> Raise AssertionError" for h
    by (cases "block_records s h") (simp_all add: block_record_def)
  moreover have "py_assert (count_significant_bits (truncate_to_significant_bits x (SIGNIFICANT_BITS c))
      \<le> SIGNIFICANT_BITS c) = Ok ()" if "0 \<le> x" for x
    using count_truncate_le [OF that n] by simp
  ultimately show ?thesis
    using t unfolding next_difficulty_value_def Let_def
    by (auto simp: rbind_eq_Raise split: if_splits)
qed

lemma next_ssi_value_eq:
  assumes d: "next_ssi_value c cur prv = Ok d"
    and f: "1 \<le> DIFFICULTY_CHANGE_MAX_FACTOR c" and n: "1 \<le> NUM_SPS_SUB_SLOT c"
    and le: "NUM_SPS_SUB_SLOT c \<le> sub_slot_iters cur"
  shows "\<exists>y. y = truncate_to_significant_bits
                  (clamp (max (NUM_SPS_SUB_SLOT c) (sub_slot_iters cur div DIFFICULTY_CHANGE_MAX_FACTOR c))
                     (DIFFICULTY_CHANGE_MAX_FACTOR c * sub_slot_iters cur) (precise_ssi c cur prv))
                  (SIGNIFICANT_BITS c) \<and>
             d = y - y mod NUM_SPS_SUB_SLOT c"
proof -
  let ?T = "truncate_to_significant_bits
          (if precise_ssi c cur prv \<ge> sub_slot_iters cur
           then min (precise_ssi c cur prv) (DIFFICULTY_CHANGE_MAX_FACTOR c * sub_slot_iters cur)
           else max (max (NUM_SPS_SUB_SLOT c) (precise_ssi c cur prv))
                  (sub_slot_iters cur div DIFFICULTY_CHANGE_MAX_FACTOR c)) (SIGNIFICANT_BITS c)"
  from d obtain t1 t2 where t: "timestamp cur = Some t1" "timestamp prv = Some t2"
    unfolding next_ssi_value_def by (auto simp del: uintN_eq_Ok split del: if_split)
  from d have "d = ?T - ?T mod NUM_SPS_SUB_SLOT c"
    unfolding next_ssi_value_def precise_ssi_def Let_def t option.sel
    by (auto simp: if_distrib [of uint64, symmetric] split del: if_split)
  then show ?thesis unfolding clamp_cases [OF f n le] by blast
qed

lemma next_ssi_value_no_assertion:
  assumes t: "timestamp cur \<noteq> None" "timestamp prv \<noteq> None" and n: "1 \<le> SIGNIFICANT_BITS c"
    and p2: "NUM_SPS_SUB_SLOT c = 2 ^ j"
  shows "next_ssi_value c cur prv \<noteq> Raise AssertionError"
proof -
  have "uintN w v \<noteq> Raise AssertionError" for w v by (simp add: uintN_def)
  moreover have "py_floordiv x y \<noteq> Raise AssertionError" for x y by (simp add: py_floordiv_def)
  moreover have "py_mod x y \<noteq> Raise AssertionError" for x y by (simp add: py_mod_def)
  moreover have "count_significant_bits (y - y mod NUM_SPS_SUB_SLOT c) \<le> SIGNIFICANT_BITS c"
    if "0 \<le> x" "y = truncate_to_significant_bits x (SIGNIFICANT_BITS c)" for x y
  proof -
    have n': "SIGNIFICANT_BITS c = int (nat (SIGNIFICANT_BITS c))" "1 \<le> nat (SIGNIFICANT_BITS c)"
      using n by simp_all
    have bl: "bit_length y = bit_length x"
    proof (cases "x = 0")
      case True
      then show ?thesis using that n by (simp add: truncate_floor)
    next
      case False
      then show ?thesis using that n by (simp add: bit_length_truncate)
    qed
    have "2 ^ (bit_length y - nat (SIGNIFICANT_BITS c)) dvd y"
      unfolding bl using truncate_dvd [of x "SIGNIFICANT_BITS c"] that n by simp
    moreover have "0 \<le> y" using that n by (simp add: truncate_nonneg)
    ultimately have "count_significant_bits (y - y mod 2 ^ j) \<le> int (nat (SIGNIFICANT_BITS c))"
      using n'(2) by (intro count_floor_le)
    then show ?thesis using n by (simp add: p2)
  qed
  ultimately show ?thesis
    using t unfolding next_ssi_value_def Let_def
    by (auto simp: rbind_eq_Raise py_assert_def split: if_splits)
qed

text \<open>The new sub-slot iterations stay a positive multiple of the number of signage points.\<close>

lemma next_ssi_value_bounds:
  assumes d: "next_ssi_value c cur prv = Ok d"
    and f: "1 \<le> DIFFICULTY_CHANGE_MAX_FACTOR c" and s: "1 \<le> SIGNIFICANT_BITS c"
    and p2: "NUM_SPS_SUB_SLOT c = 2 ^ j"
    and le: "NUM_SPS_SUB_SLOT c \<le> sub_slot_iters cur"
  shows "NUM_SPS_SUB_SLOT c dvd d" and "NUM_SPS_SUB_SLOT c \<le> d"
    and "d \<le> DIFFICULTY_CHANGE_MAX_FACTOR c * sub_slot_iters cur"
proof -
  let ?x = "clamp (max (NUM_SPS_SUB_SLOT c) (sub_slot_iters cur div DIFFICULTY_CHANGE_MAX_FACTOR c))
      (DIFFICULTY_CHANGE_MAX_FACTOR c * sub_slot_iters cur) (precise_ssi c cur prv)"
  let ?y = "truncate_to_significant_bits ?x (SIGNIFICANT_BITS c)"
  have n1: "1 \<le> NUM_SPS_SUB_SLOT c" by (simp add: p2)
  have old: "1 \<le> sub_slot_iters cur" using n1 le by simp
  have dy: "d = ?y - ?y mod NUM_SPS_SUB_SLOT c"
    using next_ssi_value_eq [OF d f n1 le] by simp
  note b = clamp_truncate_bounds [OF f s old n1 le refl, of "precise_ssi c cur prv"]
  show "NUM_SPS_SUB_SLOT c dvd d" by (simp add: dy minus_mod_eq_mult_div)
  have m0: "0 \<le> ?y mod NUM_SPS_SUB_SLOT c" using n1 by simp
  then show "d \<le> DIFFICULTY_CHANGE_MAX_FACTOR c * sub_slot_iters cur" using b(2) dy by simp
  have x: "2 ^ j \<le> ?x" by (simp add: clamp_def p2)
  then have x0: "0 < ?x" by (rule less_le_trans [rotated]) simp
  have "(2::int) ^ j < 2 ^ bit_length ?x"
    using x bit_length_upper [OF less_imp_le [OF x0]] by (rule order_le_less_trans)
  then have "j < bit_length ?x" by (rule power_less_imp_less_exp [rotated]) simp
  then have "(2::int) ^ j \<le> 2 ^ (bit_length ?x - 1)" by (intro power_increasing) simp_all
  also have "\<dots> \<le> ?y" using x0 s by (rule truncate_top_bit)
  finally have y: "2 ^ j \<le> ?y" .
  then have "1 \<le> ?y div 2 ^ j" using zdiv_mono1 [OF y, of "2 ^ j"] by simp
  then have "2 ^ j * 1 \<le> 2 ^ j * (?y div 2 ^ j)" by (intro mult_left_mono) simp_all
  then show "NUM_SPS_SUB_SLOT c \<le> d" by (simp add: dy p2 minus_mod_eq_mult_div)
qed

section \<open>When a sub-epoch can end\<close>

lemma height_can_be_first_Ok:
  "height_can_be_first_in_epoch c h = Ok e \<longleftrightarrow> SUB_EPOCH_BLOCKS c \<noteq> 0 \<and> EPOCH_BLOCKS c \<noteq> 0 \<and>
     e = ((h - h mod SUB_EPOCH_BLOCKS c) mod EPOCH_BLOCKS c = 0)"
  by (auto simp: height_can_be_first_in_epoch_def rbind_eq_Ok)

text \<open>A sub-epoch ends only where the deficit is zero and no block since the sub-epoch's first height
  has included a summary.\<close>

lemma can_finish_sub_epoch:
  assumes ok: "heights_ok s"
    and r: "can_finish_sub_and_full_epoch c s h (Some p) d i = Ok (True, e)"
    and se: "0 < SUB_EPOCH_BLOCKS c"
  shows "SUB_EPOCH_BLOCKS c - 1 \<le> h" and "d \<le> 0" and "\<not> i"
    and "e = ((h + 1 - (h + 1) mod SUB_EPOCH_BLOCKS c) mod EPOCH_BLOCKS c = 0)"
    and "1 < (h + 1) mod SUB_EPOCH_BLOCKS c \<Longrightarrow>
      \<exists>b z. block_record s p = Ok b \<and> ancestor (block_record s) b z \<and> height z mod SUB_EPOCH_BLOCKS c = 0 \<and>
        (\<forall>y. ancestor (block_record s) b y \<and> height z \<le> height y \<longrightarrow> sub_epoch_summary_included y = None)"
proof -
  show "SUB_EPOCH_BLOCKS c - 1 \<le> h" "d \<le> 0" "\<not> i"
    "e = ((h + 1 - (h + 1) mod SUB_EPOCH_BLOCKS c) mod EPOCH_BLOCKS c = 0)"
    using r by (auto simp: can_finish_sub_and_full_epoch_def height_can_be_first_Ok split: if_splits)
  assume m: "1 < (h + 1) mod SUB_EPOCH_BLOCKS c"
  from r m obtain b z where b: "block_record s p = Ok b"
      and w: "walk (block_record s) (\<lambda>b. height b mod SUB_EPOCH_BLOCKS c > 0 \<and>
                sub_epoch_summary_included b = None) b = Ok z"
      and z: "sub_epoch_summary_included z = None"
    by (auto simp: can_finish_sub_and_full_epoch_def rbind_eq_Ok split: if_splits)
  have sb: "stored (block_record s) b" using ok b by (rule bc.stored_get)
  from bc.walk_stops [OF ok sb w] have a: "ancestor (block_record s) b z"
      and stop: "\<not> (height z mod SUB_EPOCH_BLOCKS c > 0 \<and> sub_epoch_summary_included z = None)"
      and pass: "\<And>y. ancestor (block_record s) b y \<Longrightarrow> height z < height y \<Longrightarrow>
                   sub_epoch_summary_included y = None"
    by auto
  have "0 \<le> height z mod SUB_EPOCH_BLOCKS c" using se by simp
  with stop z have "height z mod SUB_EPOCH_BLOCKS c = 0" by simp
  moreover have "sub_epoch_summary_included y = None"
    if "ancestor (block_record s) b y" "height z \<le> height y" for y
  proof (cases "height z = height y")
    case True
    then show ?thesis using bc.ancestor_unique [OF a that(1) ok sb] z by simp
  next
    case False
    then show ?thesis using pass that by simp
  qed
  ultimately show "\<exists>b z. block_record s p = Ok b \<and> ancestor (block_record s) b z \<and>
      height z mod SUB_EPOCH_BLOCKS c = 0 \<and>
      (\<forall>y. ancestor (block_record s) b y \<and> height z \<le> height y \<longrightarrow> sub_epoch_summary_included y = None)"
    using a b by (intro exI conjI allI impI) auto
qed

section \<open>The two ways of fetching blocks agree\<close>

text \<open>The height index follows the links of the stored blocks.\<close>

definition index_ok :: "BlockCache \<Rightarrow> bool" where
  "index_ok s \<longleftrightarrow>
     (\<forall>h hh. height_to_hash_map s h = Some hh \<longrightarrow>
        (\<exists>b. block_records s hh = Some b \<and> height b = h \<and>
             (0 < h \<longrightarrow> height_to_hash_map s (h - 1) = Some (prev_hash b))))"

text \<open>What both paths return: the ancestors of \<open>b\<close> at the heights \<open>t\<close> to \<open>t + n - 1\<close>.\<close>

definition ancestors_at :: "BlockCache \<Rightarrow> BlockRecord \<Rightarrow> int \<Rightarrow> int \<Rightarrow> BlockRecord list \<Rightarrow> bool" where
  "ancestors_at s b t n bs \<longleftrightarrow>
     map height bs = [t..t + n - 1] \<and> (\<forall>a \<in> set bs. ancestor (block_record s) b a)"

lemma ancestors_at_unique:
  assumes ok: "heights_ok s" and b: "stored (block_record s) b"
    and "ancestors_at s b t n bs" and "ancestors_at s b t n cs"
  shows "bs = cs"
proof (rule nth_equalityI)
  have m: "map height bs = map height cs" using assms(3,4) by (simp add: ancestors_at_def)
  then show l: "length bs = length cs" by (rule map_eq_imp_length_eq)
  fix i assume i: "i < length bs"
  then have "height (bs ! i) = height (cs ! i)" using m l by (metis nth_map)
  moreover have "ancestor (block_record s) b (bs ! i)" "ancestor (block_record s) b (cs ! i)"
    using assms(3,4) i l by (auto simp: ancestors_at_def)
  ultimately show "bs ! i = cs ! i" using bc.ancestor_unique ok b by blast
qed

lemma index_ancestor:
  assumes ok: "chain_ok s" and idx: "index_ok s"
  shows "stored (block_record s) b \<Longrightarrow> height_to_hash_map s (height b) = Some (header_hash b) \<Longrightarrow>
    0 \<le> k \<Longrightarrow> k \<le> height b \<Longrightarrow>
    \<exists>hh a. height_to_hash_map s k = Some hh \<and> block_record s hh = Ok a \<and> height a = k \<and>
          ancestor (block_record s) b a"
proof (induction "nat (height b)" arbitrary: b rule: less_induct)
  case less
  show ?case
  proof (cases "k = height b")
    case True
    then show ?thesis using less.prems by (auto simp: stored_def intro: ancestor_self)
  next
    case False
    then have pos: "0 < height b" using less.prems by simp
    from prev_of [OF ok less.prems(1) pos] obtain p where p: "block_record s (prev_hash b) = Ok p"
        "stored (block_record s) p" "height b = height p + 1" by auto
    obtain b' where "block_records s (header_hash b) = Some b'"
        "height_to_hash_map s (height b - 1) = Some (prev_hash b')"
      using idx less.prems(2) pos unfolding index_ok_def by blast
    then have "height_to_hash_map s (height p) = Some (prev_hash b)"
      using less.prems(1) p(3) by (auto simp: stored_def)
    moreover have "header_hash p = prev_hash b" using bcc.get_hash_of [OF ok p(1)] .
    ultimately have ix: "height_to_hash_map s (height p) = Some (header_hash p)" by simp
    have lt: "nat (height p) < nat (height b)" using p(3) pos by simp
    have "k \<le> height p" using p(3) False less.prems(4) by simp
    from less.hyps [OF lt p(2) ix less.prems(3) this] show ?thesis
      using ancestor_step [of "block_record s", OF p(1)] by blast
  qed
qed

lemma blocks_back_correct:
  assumes ok: "chain_ok s" and t: "0 \<le> t"
  shows "stored (block_record s) b \<Longrightarrow>
    \<exists>bs. blocks_back s t n b acc = Ok (acc @ rev bs) \<and>
         map height bs = [t..min (height b) (t + n - 1)] \<and> (\<forall>a \<in> set bs. ancestor (block_record s) b a)"
proof (induction "nat (height b)" arbitrary: b acc rule: less_induct)
  case less
  define new where "new = (if height b < t + n then [b] else [])"
  have step: "blocks_back s t n b acc =
      (if height b \<ge> t then if height b = 0 then Ok (acc @ new)
         else rbind (block_record s (prev_hash b)) (\<lambda>a. blocks_back s t n a (acc @ new)) else Ok acc)"
    by (subst blocks_back.simps) (simp add: new_def Let_def)
  consider (below) "height b < t" | (zero) "height b = 0" "t = 0" | (more) "t \<le> height b" "0 < height b"
    using t bcc.stored_height [OF ok less.prems] by force
  then show ?case
  proof cases
    case below
    then show ?thesis by (intro exI [of _ "[]"]) (simp add: step)
  next
    case zero
    then have "blocks_back s t n b acc = Ok (acc @ new)" unfolding step by simp
    with zero show ?thesis
      by (intro exI [of _ new]) (auto simp: new_def intro: ancestor_self)
  next
    case more
    from prev_of [OF ok less.prems more(2)] obtain p where p: "block_record s (prev_hash b) = Ok p"
        "stored (block_record s) p" "height b = height p + 1" by auto
    have lt: "nat (height p) < nat (height b)" using p(3) more(2) by simp
    from less.hyps [OF lt p(2), of "acc @ new"] obtain bs where
      bs: "blocks_back s t n p (acc @ new) = Ok ((acc @ new) @ rev bs)"
        "map height bs = [t..min (height p) (t + n - 1)]"
        "\<forall>a \<in> set bs. ancestor (block_record s) p a" by blast
    have "map height (bs @ new) = [t..min (height b) (t + n - 1)]"
    proof (cases "height b < t + n")
      case True
      have "[t..height b] = [t..height b - 1] @ [height b]" using more(1) by (simp add: upto_rec2)
      then show ?thesis using True bs(2) p(3) by (simp add: new_def)
    next
      case False
      then show ?thesis using bs(2) p(3) by (simp add: new_def)
    qed
    moreover have "\<forall>a \<in> set (bs @ new). ancestor (block_record s) b a"
      using bs(3) p(1) by (auto simp: new_def intro: ancestor_self ancestor_step)
    moreover have "rev new = new" by (simp add: new_def)
    ultimately show ?thesis using more bs(1) p(1) by (intro exI [of _ "bs @ new"]) (simp add: step)
  qed
qed

lemma get_blocks_at_height_correct:
  assumes ok: "chain_ok s" and idx: "index_ok s" and b: "stored (block_record s) b"
    and t: "0 \<le> t" "t + n - 1 \<le> height b" and h: "height b < 2 ^ 32"
  shows "\<exists>bs. get_blocks_at_height s b t n = Ok bs \<and> ancestors_at s b t n bs"
proof (cases "contains_height s (height b) \<and> height_to_hash s (height b) = Some (header_hash b)")
  case False
  then have *: "get_blocks_at_height s b t n = rbind (blocks_back s t n b []) (\<lambda>bs. Ok (rev bs))"
    by (simp only: get_blocks_at_height_def if_False)
  from blocks_back_correct [OF ok t(1) b, of n "[]"] t(2) show ?thesis
    unfolding * by (auto simp: ancestors_at_def min_absorb2)
next
  case True
  then have ix: "height_to_hash_map s (height b) = Some (header_hash b)" by (simp add: height_to_hash_def)
  define at where "at k = (SOME a. height a = k \<and> ancestor (block_record s) b a \<and>
      (\<exists>hh. height_to_hash_map s k = Some hh \<and> block_record s hh = Ok a))" for k
  have at: "height (at k) = k \<and> ancestor (block_record s) b (at k) \<and>
      (\<exists>hh. height_to_hash_map s k = Some hh \<and> block_record s hh = Ok (at k))"
    if "0 \<le> k" "k \<le> height b" for k
    unfolding at_def using index_ancestor [OF ok idx b ix that] by (rule_tac someI_ex) blast
  have "rmap (\<lambda>h. rbind (uint32 h) (\<lambda>h. rbind (py_assert (contains_height s h)) (\<lambda>_.
      height_to_block_record s h))) [t..t + n - 1] = Ok (map at [t..t + n - 1])"
  proof (rule rmap_Ok)
    fix k assume "k \<in> set [t..t + n - 1]"
    then have k: "0 \<le> k" "k \<le> height b" "k < 2 ^ 32" using t h by auto
    with at [OF k(1,2)] show "rbind (uint32 k) (\<lambda>h. rbind (py_assert (contains_height s h)) (\<lambda>_.
        height_to_block_record s h)) = Ok (at k)"
      by (auto simp: contains_height_def height_to_block_record_def height_to_hash_def)
  qed
  moreover have "map height (map at [t..t + n - 1]) = [t..t + n - 1]"
    using at t by (auto intro!: map_idI)
  moreover have "\<forall>a \<in> set (map at [t..t + n - 1]). ancestor (block_record s) b a" using at t by auto
  ultimately show ?thesis using True by (simp add: get_blocks_at_height_def ancestors_at_def)
qed

end
