(* ===== verification/Chain_Challenges.thy ===== *)
theory Chain_Challenges
  imports Block_Cache
begin

text \<open>
  \<^verbatim>\<open>chia/consensus/get_block_challenge.py\<close> and \<^verbatim>\<open>vdf_info_computation.py\<close>: which finished sub-slot a block's
  challenge comes from, and where the VDF to its signage point starts. The abstract view is the
  list of all finished slot hashes of the chain, newest first: the challenge of a block is the
  first or second element of it, and the loops only read as far back as they must.
  Of the block argument, whose class is a union in the source, only the attributes read are passed.
\<close>

section \<open>The challenge of a block\<close>

text \<open>Both loops of \<^verbatim>\<open>final_eos_is_already_included\<close> and its flag.\<close>

definition near_overflow :: "int \<Rightarrow> int \<Rightarrow> BlockRecord \<Rightarrow> bool" where
  "near_overflow hb_iters ssi cur \<longleftrightarrow> overflow cur \<and> hb_iters - total_iters cur < ssi div 2"

definition final_eos_is_already_included ::
    "EndOfSubSlotBundle list \<Rightarrow> bytes \<Rightarrow> int \<Rightarrow> BlockCache \<Rightarrow> int \<Rightarrow> bool res" where
  "final_eos_is_already_included finished_sub_slots prev_header_hash hb_iters blocks ssi =
     (if length finished_sub_slots > 0 then Ok False
      else
        rbind (block_record blocks prev_header_hash) (\<lambda>cur.
        rbind (walk_acc (block_record blocks) (\<lambda>b seen. \<not> first_in_sub_slot b \<and> \<not> height b = 0)
                 (\<lambda>b seen. Ok (if near_overflow hb_iters ssi b then True else seen))
                 cur (near_overflow hb_iters ssi cur)) (\<lambda>(cur, seen_overflow_block).
          Ok (first_in_sub_slot cur \<and> seen_overflow_block))))"

partial_function (option) challenges_back ::
    "BlockCache \<Rightarrow> nat \<Rightarrow> BlockRecord \<Rightarrow> bytes list \<Rightarrow> bytes list res" where
  "challenges_back blocks challenges_to_look_for cur reversed_challenge_hashes =
     (if length reversed_challenge_hashes < challenges_to_look_for then
        (let reversed_challenge_hashes =
               (case finished_challenge_slot_hashes cur of
                  None \<Rightarrow> reversed_challenge_hashes
                | Some hs \<Rightarrow> reversed_challenge_hashes @ rev hs)
         in if height cur = 0 then
              rbind (unwrap AssertionError (finished_challenge_slot_hashes cur)) (\<lambda>hs.
              rbind (py_assert (length hs > 0)) (\<lambda>_. Ok reversed_challenge_hashes))
            else
              rbind (block_record blocks (prev_hash cur)) (\<lambda>cur.
                challenges_back blocks challenges_to_look_for cur reversed_challenge_hashes))
      else Ok reversed_challenge_hashes)"

declare challenges_back.simps [code]

definition get_block_challenge ::
    "crypto \<Rightarrow> ConsensusConstants \<Rightarrow> EndOfSubSlotBundle list \<Rightarrow> bytes \<Rightarrow> BlockCache \<Rightarrow>
     bool \<Rightarrow> bool \<Rightarrow> bool \<Rightarrow> bytes res" where
  "get_block_challenge cr c finished_sub_slots prev_header_hash blocks genesis_block ovf
       skip_overflow_last_ss_validation =
     (if length finished_sub_slots > 0 then
        rbind (py_last finished_sub_slots) (\<lambda>last_slot.
          if ovf then
            (if skip_overflow_last_ss_validation
             then ChallengeChainSubSlot_hash cr (challenge_chain last_slot)
             else Ok (vdf_challenge (challenge_chain_end_of_slot_vdf (challenge_chain last_slot))))
          else ChallengeChainSubSlot_hash cr (challenge_chain last_slot))
      else if genesis_block then Ok (GENESIS_CHALLENGE c)
      else
        (let challenges_to_look_for =
               (if ovf then (if skip_overflow_last_ss_validation then 1 else 2) else 1)
         in rbind (block_record blocks prev_header_hash) (\<lambda>cur.
            rbind (challenges_back blocks challenges_to_look_for cur []) (\<lambda>reversed_challenge_hashes.
              py_nth reversed_challenge_hashes (int challenges_to_look_for - 1)))))"

section \<open>The VDF to the signage point\<close>

text \<open>Cases 4 and 6 of the source share this code.\<close>

definition vdf_info_this_slot ::
    "BlockCache \<Rightarrow> BlockRecord \<Rightarrow> int \<Rightarrow> int \<Rightarrow> (bytes \<times> bytes \<times> ClassgroupElement \<times> int) res" where
  "vdf_info_this_slot blocks prev_b sp_total sp_it =
     rbind (walk (block_record blocks)
              (\<lambda>b. \<not> first_in_sub_slot b \<and> total_iters b > sp_total) prev_b) (\<lambda>cur.
     rbind (if total_iters cur < sp_total then
              rbind (uint64 (sp_total - total_iters cur)) (\<lambda>i.
                Ok (i, challenge_vdf_output cur, reward_infusion_new_challenge cur))
            else
              rbind (unwrap AssertionError (finished_reward_slot_hashes cur)) (\<lambda>hs.
              rbind (py_last hs) (\<lambda>h. Ok (sp_it, get_default_element, h))))
       (\<lambda>(sp_vdf_iters, cc_vdf_input, rc_vdf_challenge).
     rbind (walk (block_record blocks) (\<lambda>b. \<not> first_in_sub_slot b) cur) (\<lambda>cur.
     rbind (unwrap AssertionError (finished_challenge_slot_hashes cur)) (\<lambda>hs.
     rbind (py_last hs) (\<lambda>cc_vdf_challenge.
       Ok (cc_vdf_challenge, rc_vdf_challenge, cc_vdf_input, sp_vdf_iters))))))"

text \<open>The finished slots of a block as pairs of challenge and reward chain hashes, newest first.\<close>

definition slot_pairs :: "BlockRecord \<Rightarrow> (bytes \<times> bytes) list res" where
  "slot_pairs cur =
     (if first_in_sub_slot cur then
        rbind (unwrap AssertionError (finished_challenge_slot_hashes cur)) (\<lambda>cs.
        rbind (unwrap AssertionError (finished_reward_slot_hashes cur)) (\<lambda>rs. Ok (rev (zip cs rs))))
      else Ok [])"

partial_function (option) collect_slots ::
    "BlockCache \<Rightarrow> int \<Rightarrow> BlockRecord \<Rightarrow> (bytes \<times> bytes) list \<Rightarrow> BlockRecord option \<Rightarrow>
     (BlockRecord \<times> (bytes \<times> bytes) list \<times> BlockRecord option) res" where
  "collect_slots blocks sp_total cur found_sub_slots sp_pre_sb =
     (if length found_sub_slots < 2 \<and> height cur > 0 then
        (let sp_pre_sb = (if sp_pre_sb = None \<and> total_iters cur < sp_total then Some cur else sp_pre_sb)
         in rbind (block_record blocks (prev_hash cur)) (\<lambda>cur.
            rbind (slot_pairs cur) (\<lambda>ps.
              collect_slots blocks sp_total cur (found_sub_slots @ ps) sp_pre_sb)))
      else Ok (cur, found_sub_slots, sp_pre_sb))"

declare collect_slots.simps [code]

text \<open>Case 5: the signage point is in the sub-slot before the one of the previous block.\<close>

definition vdf_info_prev_slot ::
    "BlockCache \<Rightarrow> BlockRecord \<Rightarrow> int \<Rightarrow> int \<Rightarrow> (bytes \<times> bytes \<times> ClassgroupElement \<times> int) res" where
  "vdf_info_prev_slot blocks prev_b sp_total sp_it =
     rbind (slot_pairs prev_b) (\<lambda>found_sub_slots.
     rbind (collect_slots blocks sp_total prev_b found_sub_slots None) (\<lambda>(cur, found_sub_slots, sp_pre_sb).
     (let sp_pre_sb = (if sp_pre_sb = None \<and> total_iters cur < sp_total then Some cur else sp_pre_sb)
      in rbind (case sp_pre_sb of
                  Some b \<Rightarrow> rbind (uint64 (sp_total - total_iters b)) (\<lambda>i.
                              Ok (i, challenge_vdf_output b, reward_infusion_new_challenge b))
                | None \<Rightarrow> rbind (py_nth found_sub_slots 1) (\<lambda>f. Ok (sp_it, get_default_element, snd f)))
           (\<lambda>(sp_vdf_iters, cc_vdf_input, rc_vdf_challenge).
         rbind (py_nth found_sub_slots 1) (\<lambda>f.
           Ok (fst f, rc_vdf_challenge, cc_vdf_input, sp_vdf_iters))))))"

text \<open>Cases 1 and 2: from the start of the last or the second to last finished slot.\<close>

definition vdf_info_from_slot ::
    "crypto \<Rightarrow> int \<Rightarrow> EndOfSubSlotBundle list \<Rightarrow> int \<Rightarrow> (bytes \<times> bytes \<times> ClassgroupElement \<times> int) res" where
  "vdf_info_from_slot cr sp_it finished_sub_slots i =
     rbind (py_nth finished_sub_slots i) (\<lambda>s.
     rbind (RewardChainSubSlot_hash cr (reward_chain s)) (\<lambda>rc.
     rbind (ChallengeChainSubSlot_hash cr (challenge_chain s)) (\<lambda>cc.
       Ok (cc, rc, get_default_element, sp_it))))"

text \<open>The result is the challenge chain challenge, the reward chain challenge, the two inputs and
  the two numbers of iterations.\<close>

definition get_signage_point_vdf_info ::
    "crypto \<Rightarrow> ConsensusConstants \<Rightarrow> EndOfSubSlotBundle list \<Rightarrow> bool \<Rightarrow> BlockRecord option \<Rightarrow> BlockCache \<Rightarrow>
     int \<Rightarrow> int \<Rightarrow> (bytes \<times> bytes \<times> ClassgroupElement \<times> ClassgroupElement \<times> int \<times> int) res" where
  "get_signage_point_vdf_info cr c finished_sub_slots ovf prev_b blocks sp_total sp_it =
     (let new_sub_slot = length finished_sub_slots > 0
      in rbind
           (if new_sub_slot \<and> \<not> ovf then vdf_info_from_slot cr sp_it finished_sub_slots (- 1)
            else if new_sub_slot \<and> ovf \<and> length finished_sub_slots > 1 
            then vdf_info_from_slot cr sp_it finished_sub_slots (- 2)
            else case prev_b of
              None \<Rightarrow> Ok (GENESIS_CHALLENGE c, GENESIS_CHALLENGE c, get_default_element, sp_it)
            | Some prev_b \<Rightarrow>
                (if new_sub_slot \<and> ovf \<and> length finished_sub_slots = 1
                 then vdf_info_this_slot blocks prev_b sp_total sp_it
                 else if \<not> new_sub_slot \<and> ovf
                 then vdf_info_prev_slot blocks prev_b sp_total sp_it
                 else if \<not> new_sub_slot \<and> \<not> ovf
                 then vdf_info_this_slot blocks prev_b sp_total sp_it
                 else Raise AssertionError))
           (\<lambda>(cc, rc, cc_input, iters).
              Ok (cc, rc, cc_input, get_default_element, iters, iters)))"

section \<open>Every loop ends\<close>

lemma returns_challenges_back:
  assumes ok: "heights_ok s"
  shows "stored (block_record s) b \<Longrightarrow> returns (challenges_back s n b acc)"
proof (induction "nat (height b)" arbitrary: b acc rule: less_induct)
  case less
  have "returns (challenges_back s n a acc')" if a: "block_record s (prev_hash b) = Ok a" for a acc'
  proof (rule less.hyps)
    show sa: "stored (block_record s) a" using ok a by (rule bc.stored_get)
    show "nat (height a) < nat (height b)"
      using bc.stored_prev [OF ok less.prems a] bc.stored_height [OF ok sa] by simp
  qed
  then show ?case by (subst challenges_back.simps) (intro returns_rules)
qed

lemma returns_get_block_challenge:
  assumes ok: "heights_ok s"
  shows "returns (get_block_challenge cr c fss p s g ovf sk)"
  unfolding get_block_challenge_def
  by (intro returns_rules returns_challenges_back ok bc.stored_get [OF ok])

lemma returns_final_eos:
  assumes ok: "heights_ok s"
  shows "returns (final_eos_is_already_included fss p t s ssi)"
  unfolding final_eos_is_already_included_def
  by (intro returns_rules bc.returns_walk_acc [OF ok] bc.stored_get [OF ok])

lemma returns_slot_pairs [returns_rules]: "returns (slot_pairs b)"
  unfolding slot_pairs_def by (intro returns_rules)

lemma returns_collect_slots:
  assumes ok: "heights_ok s"
  shows "stored (block_record s) b \<Longrightarrow> returns (collect_slots s t b found pre)"
proof (induction "nat (height b)" arbitrary: b found pre rule: less_induct)
  case less
  have "returns (collect_slots s t a f p)" if a: "block_record s (prev_hash b) = Ok a" for a f p
  proof (rule less.hyps)
    show sa: "stored (block_record s) a" using ok a by (rule bc.stored_get)
    show "nat (height a) < nat (height b)"
      using bc.stored_prev [OF ok less.prems a] bc.stored_height [OF ok sa] by simp
  qed
  then show ?case by (subst collect_slots.simps) (intro returns_rules)
qed

lemma returns_vdf_info_this_slot:
  assumes ok: "heights_ok s" and b: "stored (block_record s) b"
  shows "returns (vdf_info_this_slot s b t i)"
proof -
  have "stored (block_record s) z" if "walk (block_record s) p b = Ok z" for p z
    using bc.walk_stops [OF ok b that] by simp
  then show ?thesis
    unfolding vdf_info_this_slot_def
    by (intro returns_rules bc.returns_walk [OF ok] b)
qed

lemma returns_get_signage_point_vdf_info:
  assumes ok: "heights_ok s" and b: "\<And>b. prev_b = Some b \<Longrightarrow> stored (block_record s) b"
  shows "returns (get_signage_point_vdf_info cr c fss ovf prev_b s t i)"
  unfolding get_signage_point_vdf_info_def vdf_info_prev_slot_def vdf_info_from_slot_def
  by (intro returns_rules returns_vdf_info_this_slot returns_collect_slots ok b)

section \<open>The challenge is the newest, or second newest, finished slot\<close>

text \<open>The chain below a block as a list, newest block first.\<close>

inductive lineage :: "(bytes \<Rightarrow> BlockRecord res) \<Rightarrow> BlockRecord \<Rightarrow> BlockRecord list \<Rightarrow> bool" for get where
  lineage_genesis: "height b = 0 \<Longrightarrow> lineage get b [b]"
| lineage_step: "height b \<noteq> 0 \<Longrightarrow> get (prev_hash b) = Ok p \<Longrightarrow> lineage get p bs \<Longrightarrow> lineage get b (b # bs)"

inductive_cases lineage_zeroE: "lineage get b bs"

lemma lineage_exists:
  assumes ok: "chain_ok s"
  shows "stored (block_record s) b \<Longrightarrow> \<exists>bs. lineage (block_record s) b bs"
proof (induction "nat (height b)" arbitrary: b rule: less_induct)
  case less
  show ?case
  proof (cases "height b = 0")
    case True
    then show ?thesis by (blast intro: lineage_genesis)
  next
    case False
    then have "0 < height b" using bcc.stored_height [OF ok less.prems] by simp
    from prev_of [OF ok less.prems this] obtain p where p: "block_record s (prev_hash b) = Ok p"
        "stored (block_record s) p" "height b = height p + 1" by auto
    have "nat (height p) < nat (height b)" using p(3) \<open>0 < height b\<close> by simp
    from less.hyps [OF this p(2)] obtain bs where "lineage (block_record s) p bs" ..
    with False p(1) show ?thesis by (blast intro: lineage_step)
  qed
qed

lemma lineage_ancestor: "lineage get b bs \<Longrightarrow> set bs \<subseteq> {a. ancestor get b a}"
  by (induction rule: lineage.induct) (auto intro: ancestor.intros)

definition slots_of :: "BlockRecord \<Rightarrow> bytes list" where
  "slots_of b = (case finished_challenge_slot_hashes b of None \<Rightarrow> [] | Some hs \<Rightarrow> rev hs)"

lemma challenges_back_correct:
  "lineage (block_record s) b bs \<Longrightarrow> challenges_back s n b acc = Ok r \<Longrightarrow>
   take n r = take n (acc @ concat (map slots_of bs)) \<and>
   (n \<le> length r \<or> length r = length (acc @ concat (map slots_of bs)))"
proof (induction arbitrary: acc rule: lineage.induct)
  case (lineage_genesis b)
  have "r = (if length acc < n then acc @ slots_of b else acc)"
    using lineage_genesis by (auto simp: challenges_back.simps [of s n b acc] slots_of_def
        split: if_splits option.splits)
  then show ?case by (cases "length acc < n") auto
next
  case (lineage_step b p bs)
  show ?case
  proof (cases "length acc < n")
    case True
    have "challenges_back s n p (acc @ slots_of b) = Ok r"
      using lineage_step.prems lineage_step.hyps(1,2) True
      by (auto simp: challenges_back.simps [of s n b acc] slots_of_def Let_def split: option.splits)
    from lineage_step.IH [OF this] show ?thesis by simp
  next
    case False
    then have "r = acc" using lineage_step.prems by (simp add: challenges_back.simps [of s n b acc])
    then show ?thesis using False by simp
  qed
qed

lemma take_nth_eq: "take n xs = take n ys \<Longrightarrow> i < n \<Longrightarrow> i < length xs \<Longrightarrow> i < length ys \<and> xs ! i = ys ! i"
  by (metis length_take min_less_iff_conj nth_take)

lemma get_block_challenge_slot:
  assumes l: "lineage (block_record s) b bs" and b: "block_record s p = Ok b"
    and r: "get_block_challenge cr c [] p s False ovf sk = Ok ch"
  shows "\<exists>i. i = (if ovf \<and> \<not> sk then 1 else 0) \<and> i < length (concat (map slots_of bs)) \<and>
             ch = concat (map slots_of bs) ! i"
proof -
  define n :: nat where "n = (if ovf then (if sk then 1 else 2) else 1)"
  from r b obtain rs where rs: "challenges_back s n b [] = Ok rs"
      and ch: "py_nth rs (int n - 1) = Ok ch"
    by (auto simp: get_block_challenge_def n_def Let_def split: if_splits)
  have n: "int n - 1 = int (n - 1)" "n - 1 < n" by (simp_all add: n_def)
  from ch have i: "n - 1 < length rs" "ch = rs ! (n - 1)"
    unfolding n(1) py_nth_nat by (auto split: if_splits)
  from challenges_back_correct [OF l rs] have "take n rs = take n (concat (map slots_of bs))" by simp
  from take_nth_eq [OF this n(2) i(1)] i(2) show ?thesis by (auto simp: n_def)
qed

section \<open>The VDF starts at the last infusion before the signage point, or at the slot start\<close>

lemma vdf_info_this_slot_start:
  assumes ok: "heights_ok s" and b: "stored (block_record s) b"
    and r: "vdf_info_this_slot s b t i = Ok (cc, rc, inp, n)"
  shows "\<exists>z. ancestor (block_record s) b z \<and>
           (\<forall>y. ancestor (block_record s) b y \<and> height z < height y \<longrightarrow>
                 \<not> first_in_sub_slot y \<and> total_iters y > t) \<and>
           (if total_iters z < t
            then n = t - total_iters z \<and> inp = challenge_vdf_output z \<and> rc = reward_infusion_new_challenge z
            else n = i \<and> inp = get_default_element \<and>
                 (\<exists>hs. finished_reward_slot_hashes z = Some hs \<and> hs \<noteq> [] \<and> rc = last hs))"
proof -
  from r obtain z where w: "walk (block_record s) (\<lambda>b. \<not> first_in_sub_slot b \<and> total_iters b > t) b = Ok z"
    and z: "if total_iters z < t
            then n = t - total_iters z \<and> inp = challenge_vdf_output z \<and> rc = reward_infusion_new_challenge z
            else n = i \<and> inp = get_default_element \<and>
                 (\<exists>hs. finished_reward_slot_hashes z = Some hs \<and> hs \<noteq> [] \<and> rc = last hs)"
    unfolding vdf_info_this_slot_def by (auto simp: py_last_eq split: if_splits)
  from bc.walk_stops [OF ok b w] z show ?thesis by blast
qed

end
