(* ===== verification/Sub_Epoch_Summary.thy ===== *)
theory Sub_Epoch_Summary
  imports Difficulty_Adjustment
begin

text \<open>
  \<^verbatim>\<open>chia/consensus/make_sub_epoch_summary.py\<close> and \<^verbatim>\<open>full_block_to_block_record.py\<close>: the summary that
  closes a sub-epoch, and the record kept of an accepted block. The lemmas show that the summaries
  of a chain are linked by hash, and that the record of a block agrees with the block.
\<close>

section \<open>Sub-epoch summaries\<close>

definition make_sub_epoch_summary ::
    "crypto \<Rightarrow> ConsensusConstants \<Rightarrow> BlockCache \<Rightarrow> int \<Rightarrow> BlockRecord \<Rightarrow> int option \<Rightarrow> int option \<Rightarrow>
     SubEpochSummary res" where
  "make_sub_epoch_summary cr c blocks blocks_included_height prev_prev_block new_diff new_ssi =
     rbind (py_assert (height prev_prev_block = blocks_included_height - 2)) (\<lambda>_.
     rbind (py_floordiv (blocks_included_height + MAX_SUB_SLOT_BLOCKS c) (SUB_EPOCH_BLOCKS c)) (\<lambda>q.
       if q \<le> 1 then
         Ok \<lparr>prev_subepoch_summary_hash = GENESIS_CHALLENGE c, reward_chain_hash = GENESIS_CHALLENGE c,
             num_blocks_overflow = 0, ses_new_difficulty = None, ses_new_sub_slot_iters = None\<rparr>
       else
         rbind (walk (block_record blocks) (\<lambda>b. sub_epoch_summary_included b = None) prev_prev_block) (\<lambda>cur.
         rbind (unwrap AssertionError (finished_reward_slot_hashes cur)) (\<lambda>hs.
         rbind (unwrap AttributeError (sub_epoch_summary_included cur)) (\<lambda>ses.
         rbind (SubEpochSummary_hash cr ses) (\<lambda>prev_ses.
         rbind (py_last hs) (\<lambda>rc.
         rbind (uint8 (height cur mod SUB_EPOCH_BLOCKS c)) (\<lambda>n.
           Ok \<lparr>prev_subepoch_summary_hash = prev_ses, reward_chain_hash = rc,
               num_blocks_overflow = n, ses_new_difficulty = new_diff,
               ses_new_sub_slot_iters = new_ssi\<rparr>))))))))"

definition included_new_difficulty :: "BlockRecord \<Rightarrow> bool" where
  "included_new_difficulty b =
     (case sub_epoch_summary_included b of None \<Rightarrow> False | Some s \<Rightarrow> ses_new_difficulty s \<noteq> None)"

text \<open>The branch for \<^verbatim>\<open>can_finish_soon\<close>: may the epoch end within one sub-slot?\<close>

definition can_finish_epoch_soon :: "ConsensusConstants \<Rightarrow> BlockCache \<Rightarrow> BlockRecord \<Rightarrow> bool res" where
  "can_finish_epoch_soon c blocks prev_b =
     rbind (uint32 (height prev_b + 2)) (\<lambda>h2.
     rbind (height_can_be_first_in_epoch c h2) (\<lambda>first.
       if first then
         rbind (py_mod (height prev_b + 2) (SUB_EPOCH_BLOCKS c)) (\<lambda>r.
           if r > 1 then
             rbind (walk_acc (block_record blocks) (\<lambda>b _. height b mod SUB_EPOCH_BLOCKS c > 0)
                      (\<lambda>b ok. Ok (if included_new_difficulty b then False else ok)) prev_b True)
               (\<lambda>(cur, can_finish_epoch).
                 Ok (if included_new_difficulty cur then False else can_finish_epoch))
           else Ok True)
       else
         rbind (uint32 (height prev_b + MAX_SUB_SLOT_BLOCKS c + 2)) (\<lambda>hm.
           height_can_be_first_in_epoch c hm)))"

text \<open>Of the block, the signage point index, the prior hash, the finished slots and the total
  iterations are read.\<close>

definition next_sub_epoch_summary ::
    "crypto \<Rightarrow> ConsensusConstants \<Rightarrow> BlockCache \<Rightarrow> int \<Rightarrow> int \<Rightarrow> bytes \<Rightarrow> EndOfSubSlotBundle list \<Rightarrow> int \<Rightarrow>
     bool \<Rightarrow> SubEpochSummary option res" where
  "next_sub_epoch_summary cr c blocks req_iters sp_index prev_header_hash finished_sub_slots
       block_total_iters can_finish_soon =
     rbind (try_block_record blocks prev_header_hash) (\<lambda>prev_opt. case prev_opt of
       None \<Rightarrow> Ok None
     | Some prev_b \<Rightarrow>
         if height prev_b = 0 then Ok None
         else if finished_sub_slots \<noteq> [] \<and> cc_new_difficulty (challenge_chain (hd finished_sub_slots)) \<noteq> None
         then Ok None
         else
           rbind (get_next_sub_slot_iters_and_difficulty c (length finished_sub_slots > 0) (Some prev_b)
                    blocks) (\<lambda>(ssi, _).
           rbind (is_overflow_block c sp_index) (\<lambda>ovf.
             if finished_sub_slots \<noteq> [] \<and>
                subepoch_summary_hash (challenge_chain (hd finished_sub_slots)) \<noteq> None
             then Ok None
             else
               rbind (if can_finish_soon then
                        rbind (can_finish_epoch_soon c blocks prev_b) (\<lambda>e. Ok (0, True, e))
                      else
                        rbind (uint32 (height prev_b + 1)) (\<lambda>h1.
                        rbind (calculate_deficit c h1 (Some (deficit prev_b)) ovf
                                 (int (length finished_sub_slots))) (\<lambda>d.
                        rbind (can_finish_sub_and_full_epoch c blocks h1 (Some (header_hash prev_b)) d
                                 False) (\<lambda>(se, e). Ok (d, se, e)))))
                 (\<lambda>(d, can_finish_se, can_finish_epoch).
               if \<not> can_finish_se then Ok None
               else
                 rbind (if can_finish_epoch then
                          rbind (calculate_sp_iters c ssi sp_index) (\<lambda>sp_it.
                          rbind (calculate_ip_iters c ssi sp_index req_iters) (\<lambda>ip_it.
                          rbind (uint32 (height prev_b + 1)) (\<lambda>h1.
                          rbind (block_record blocks (prev_hash prev_b)) (\<lambda>pp.
                          rbind (uint64 (weight prev_b - weight pp)) (\<lambda>cur_diff.
                          rbind (uint128 (block_total_iters - ip_it + sp_it - (if ovf then ssi else 0)))
                            (\<lambda>sp_total.
                          rbind (get_next_difficulty c blocks prev_header_hash h1 cur_diff d False True
                                   sp_total True) (\<lambda>next_difficulty.
                          rbind (get_next_sub_slot_iters c blocks prev_header_hash h1 ssi d False True
                                   sp_total True) (\<lambda>next_sub_slot_iters.
                            Ok (Some next_difficulty, Some next_sub_slot_iters)))))))))
                        else Ok (None, None)) (\<lambda>(next_difficulty, next_sub_slot_iters).
                 rbind (uint32 (height prev_b + 2)) (\<lambda>h2.
                 rbind (make_sub_epoch_summary cr c blocks h2 prev_b next_difficulty next_sub_slot_iters)
                   (\<lambda>ses. Ok (Some ses))))))))"

section \<open>The record of a block\<close>

text \<open>\<^verbatim>\<open>header_block_to_sub_block_record\<close>. A full block has the same attributes as the header block.\<close>

definition header_block_to_sub_block_record ::
    "crypto \<Rightarrow> ConsensusConstants \<Rightarrow> int \<Rightarrow> HeaderBlock \<Rightarrow> int \<Rightarrow> bool \<Rightarrow> int \<Rightarrow> int \<Rightarrow>
     SubEpochSummary option \<Rightarrow> BlockRecord res" where
  "header_block_to_sub_block_record cr c req_iters block ssi ovf dfct prev_tx_height ses =
     (let rcb = hb_reward_chain_block block;
          cbi = \<lparr>cbi_proof_of_space = rcb_proof_of_space rcb,
                 cbi_challenge_chain_sp_vdf = rcb_challenge_chain_sp_vdf rcb,
                 cbi_challenge_chain_sp_signature = rcb_challenge_chain_sp_signature rcb,
                 cbi_challenge_chain_ip_vdf = rcb_challenge_chain_ip_vdf rcb\<rparr>
      in rbind
           (if length (hb_finished_sub_slots block) > 0 then
              rbind (rmap (\<lambda>s. ChallengeChainSubSlot_hash cr (challenge_chain s))
                       (hb_finished_sub_slots block)) (\<lambda>cs.
              rbind (rmap (\<lambda>s. RewardChainSubSlot_hash cr (reward_chain s))
                       (hb_finished_sub_slots block)) (\<lambda>rs.
              rbind (rmap (InfusedChallengeChainSubSlot_hash cr)
                       (List.map_filter infused_challenge_chain (hb_finished_sub_slots block))) (\<lambda>is.
                Ok (Some cs, Some rs, Some is))))
            else if hb_height block = 0
            then Ok (Some [GENESIS_CHALLENGE c], Some [GENESIS_CHALLENGE c], None)
            else Ok (None, None, None)) (\<lambda>(cs, rs, is).
         rbind (hb_header_hash cr block) (\<lambda>hh.
         rbind (RewardChainBlock_hash cr rcb) (\<lambda>rch.
         rbind (ChallengeBlockInfo_hash cr cbi) (\<lambda>cbih.
           Ok \<lparr>header_hash = hh,
               prev_hash = hb_prev_header_hash block,
               height = hb_height block,
               weight = hb_weight block,
               total_iters = hb_total_iters block,
               signage_point_index = rcb_signage_point_index rcb,
               challenge_vdf_output = vdf_output (rcb_challenge_chain_ip_vdf rcb),
               infused_challenge_vdf_output =
                 map_option vdf_output (rcb_infused_challenge_chain_ip_vdf rcb),
               reward_infusion_new_challenge = rch,
               challenge_block_info_hash = cbih,
               sub_slot_iters = ssi,
               pool_puzzle_hash = pt_puzzle_hash (pool_target (foliage_block_data (hb_foliage block))),
               farmer_puzzle_hash = farmer_reward_puzzle_hash (foliage_block_data (hb_foliage block)),
               required_iters = req_iters,
               deficit = dfct,
               overflow = ovf,
               prev_transaction_block_height = prev_tx_height,
               timestamp = map_option ftb_timestamp (hb_foliage_transaction_block block),
               prev_transaction_block_hash =
                 map_option ftb_prev_transaction_block_hash (hb_foliage_transaction_block block),
               fees = map_option ti_fees (hb_transactions_info block),
               reward_claims_incorporated =
                 map_option ti_reward_claims_incorporated (hb_transactions_info block),
               finished_challenge_slot_hashes = cs,
               finished_infused_challenge_slot_hashes = is,
               finished_reward_slot_hashes = rs,
               sub_epoch_summary_included = ses\<rparr>)))))"

text \<open>\<^verbatim>\<open>while curr is not None and not curr.is_transaction_block\<close>.\<close>

partial_function (option) prev_tx_or_none :: "BlockCache \<Rightarrow> BlockRecord option \<Rightarrow> BlockRecord option res" where
  "prev_tx_or_none blocks cur =
     (case cur of
        None \<Rightarrow> Ok None
      | Some b \<Rightarrow>
          if is_transaction_block b then Ok (Some b)
          else rbind (try_block_record blocks (prev_hash b)) (\<lambda>cur. prev_tx_or_none blocks cur))"

declare prev_tx_or_none.simps [code]

definition last_summary_hash :: "EndOfSubSlotBundle list \<Rightarrow> bytes option" where
  "last_summary_hash slots =
     foldl (\<lambda>found s. case subepoch_summary_hash (challenge_chain s) of None \<Rightarrow> found | Some h \<Rightarrow> Some h)
       None slots"

definition block_to_block_record ::
    "crypto \<Rightarrow> ConsensusConstants \<Rightarrow> BlockCache \<Rightarrow> int \<Rightarrow> HeaderBlock option \<Rightarrow> HeaderBlock option \<Rightarrow>
     BlockRecord res" where
  "block_to_block_record cr c blocks req_iters full_block header_block =
     rbind (case full_block of None \<Rightarrow> unwrap AssertionError header_block | Some b \<Rightarrow> Ok b) (\<lambda>block.
     rbind (try_block_record blocks (hb_prev_header_hash block)) (\<lambda>prev_b.
     rbind (py_assert (hb_height block > 0 \<longrightarrow> prev_b \<noteq> None)) (\<lambda>_.
     rbind (get_next_sub_slot_iters_and_difficulty c (length (hb_finished_sub_slots block) > 0) prev_b
              blocks) (\<lambda>(ssi, _).
     rbind (is_overflow_block c (rcb_signage_point_index (hb_reward_chain_block block))) (\<lambda>ovf.
     rbind (calculate_deficit c (hb_height block) (map_option deficit prev_b) ovf
              (int (length (hb_finished_sub_slots block)))) (\<lambda>dfct.
     rbind (case last_summary_hash (hb_finished_sub_slots block) of
              None \<Rightarrow> Ok None
            | Some found_ses_hash \<Rightarrow>
                rbind (unwrap AssertionError prev_b) (\<lambda>prev_b.
                rbind (block_record blocks (prev_hash prev_b)) (\<lambda>prev_prev_b.
                rbind (py_nth (hb_finished_sub_slots block) 0) (\<lambda>slot0.
                rbind (make_sub_epoch_summary cr c blocks (hb_height block) prev_prev_b
                         (cc_new_difficulty (challenge_chain slot0))
                         (cc_new_sub_slot_iters (challenge_chain slot0))) (\<lambda>ses.
                rbind (SubEpochSummary_hash cr ses) (\<lambda>h.
                rbind (py_assert (h = found_ses_hash)) (\<lambda>_. Ok (Some ses)))))))) (\<lambda>ses.
     rbind (prev_tx_or_none blocks prev_b) (\<lambda>cur.
       header_block_to_sub_block_record cr c req_iters block ssi ovf dfct
         (case cur of Some b \<Rightarrow> height b | None \<Rightarrow> 0) ses))))))))"

section \<open>Every loop ends\<close>

lemma returns_make_ses:
  assumes ok: "heights_ok s" and b: "stored (block_record s) b"
  shows "returns (make_sub_epoch_summary cr c s h b d i)"
  unfolding make_sub_epoch_summary_def
  by (intro returns_rules bc.returns_walk ok b)

lemma returns_can_finish_epoch_soon:
  assumes ok: "heights_ok s" and b: "stored (block_record s) b"
  shows "returns (can_finish_epoch_soon c s b)"
  unfolding can_finish_epoch_soon_def height_can_be_first_in_epoch_def
  by (intro returns_rules bc.returns_walk_acc ok b)

lemma try_block_record_stored:
  "heights_ok s \<Longrightarrow> try_block_record s h = Ok (Some b) \<Longrightarrow> stored (block_record s) b"
  using bc.stored_get [of s h b] by (simp add: try_block_record_eq)

lemma returns_next_sub_epoch_summary:
  assumes ok: "heights_ok s"
  shows "returns (next_sub_epoch_summary cr c s r i p fss t soon)"
proof -
  have st: "stored (block_record s) b" if "try_block_record s p = Ok x" "x = Some b" for x b
    using try_block_record_stored [OF ok] that by simp
  show ?thesis
    unfolding next_sub_epoch_summary_def
    by (intro returns_rules returns_get_next_sub_slot_iters_and_difficulty returns_can_finish_epoch_soon
        returns_can_finish returns_get_next returns_make_ses ok st)
qed

lemma returns_prev_tx_or_none:
  assumes ok: "heights_ok s"
  shows "(\<And>b. x = Some b \<Longrightarrow> stored (block_record s) b) \<Longrightarrow> returns (prev_tx_or_none s x)"
proof (induction "case x of None \<Rightarrow> 0 | Some b \<Rightarrow> Suc (nat (height b))" arbitrary: x rule: less_induct)
  case less
  have "returns (prev_tx_or_none s y)" if b: "x = Some b" and y: "try_block_record s (prev_hash b) = Ok y" for b y
  proof (rule less.hyps)
    have sb: "stored (block_record s) b" using less.prems b .
    show "stored (block_record s) p" if "y = Some p" for p
      using try_block_record_stored [OF ok] y that by simp
    show "(case y of None \<Rightarrow> 0 | Some b \<Rightarrow> Suc (nat (height b)))
        < (case x of None \<Rightarrow> 0 | Some b \<Rightarrow> Suc (nat (height b)))"
    proof (cases y)
      case None
      then show ?thesis by (simp add: b)
    next
      case (Some p)
      then have p: "block_record s (prev_hash b) = Ok p" using y by (simp add: try_block_record_eq)
      have "stored (block_record s) p" using ok p by (rule bc.stored_get)
      then show ?thesis
        using bc.stored_prev [OF ok sb p] bc.stored_height [OF ok, of p] by (simp add: b Some)
    qed
  qed
  then show ?case by (subst prev_tx_or_none.simps) (intro returns_rules)
qed

lemma returns_header_block_to_sub_block_record [returns_rules]:
  "returns (header_block_to_sub_block_record cr c r b ssi ovf d t ses)"
  unfolding header_block_to_sub_block_record_def by (intro returns_rules)

lemma returns_block_to_block_record:
  assumes ok: "heights_ok s"
  shows "returns (block_to_block_record cr c s r fb hb)"
proof -
  have st: "stored (block_record s) b" if "try_block_record s h = Ok x" "x = Some b" for x h b
    using try_block_record_stored [OF ok] that by simp
  show ?thesis
    unfolding block_to_block_record_def
    by (intro returns_rules returns_get_next_sub_slot_iters_and_difficulty returns_make_ses
        returns_prev_tx_or_none ok st bc.stored_get [OF ok])
qed

section \<open>Summaries are linked by hash\<close>

lemma make_sub_epoch_summary_links:
  assumes ok: "heights_ok s" and b: "stored (block_record s) b"
    and r: "make_sub_epoch_summary cr c s h b d i = Ok ses"
  shows "if (h + MAX_SUB_SLOT_BLOCKS c) div SUB_EPOCH_BLOCKS c \<le> 1
         then prev_subepoch_summary_hash ses = GENESIS_CHALLENGE c \<and>
              reward_chain_hash ses = GENESIS_CHALLENGE c \<and>
              ses_new_difficulty ses = None \<and> ses_new_sub_slot_iters ses = None
         else ses_new_difficulty ses = d \<and> ses_new_sub_slot_iters ses = i \<and>
              (\<exists>z pses. ancestor (block_record s) b z \<and> sub_epoch_summary_included z = Some pses \<and>
                 (\<forall>y. ancestor (block_record s) b y \<and> height z < height y \<longrightarrow>
                       sub_epoch_summary_included y = None) \<and>
                 SubEpochSummary_hash cr pses = Ok (prev_subepoch_summary_hash ses) \<and>
                 num_blocks_overflow ses = height z mod SUB_EPOCH_BLOCKS c)"
proof (cases "(h + MAX_SUB_SLOT_BLOCKS c) div SUB_EPOCH_BLOCKS c \<le> 1")
  case True
  then show ?thesis using r by (auto simp: make_sub_epoch_summary_def)
next
  case False
  with r obtain z pses where
    w: "walk (block_record s) (\<lambda>b. sub_epoch_summary_included b = None) b = Ok z"
    and z: "sub_epoch_summary_included z = Some pses"
      "SubEpochSummary_hash cr pses = Ok (prev_subepoch_summary_hash ses)"
      "num_blocks_overflow ses = height z mod SUB_EPOCH_BLOCKS c"
    and n: "ses_new_difficulty ses = d" "ses_new_sub_slot_iters ses = i"
    by (auto simp: make_sub_epoch_summary_def)
  from bc.walk_stops [OF ok b w] z n False show ?thesis by auto
qed

section \<open>The record agrees with the block\<close>

lemma block_record_agrees:
  assumes "header_block_to_sub_block_record cr c r b ssi ovf d t ses = Ok br"
  shows "hb_header_hash cr b = Ok (header_hash br)"
    and "prev_hash br = hb_prev_header_hash b" and "height br = hb_height b"
    and "weight br = hb_weight b" and "total_iters br = hb_total_iters b"
    and "signage_point_index br = rcb_signage_point_index (hb_reward_chain_block b)"
    and "required_iters br = r" and "sub_slot_iters br = ssi" and "overflow br = ovf"
    and "deficit br = d" and "sub_epoch_summary_included br = ses"
    and "is_transaction_block br \<longleftrightarrow> hb_foliage_transaction_block b \<noteq> None"
    and "first_in_sub_slot br \<longleftrightarrow> hb_finished_sub_slots b \<noteq> [] \<or> hb_height b = 0"
    and "RewardChainBlock_hash cr (hb_reward_chain_block b) = Ok (reward_infusion_new_challenge br)"
  using assms
  by (auto simp: header_block_to_sub_block_record_def Let_def is_transaction_block_def
      first_in_sub_slot_def split: if_splits)

lemma block_to_block_record_parts:
  assumes "block_to_block_record cr c s r fb hb = Ok br"
  obtains block ssi d ses t where
    "(case fb of None \<Rightarrow> hb = Some block | Some b \<Rightarrow> block = b)"
    and "0 < hb_height block \<Longrightarrow> block_records s (hb_prev_header_hash block) \<noteq> None"
    and "is_overflow_block c (rcb_signage_point_index (hb_reward_chain_block block)) = Ok (overflow br)"
    and "calculate_deficit c (hb_height block)
           (map_option deficit (block_records s (hb_prev_header_hash block))) (overflow br)
           (int (length (hb_finished_sub_slots block))) = Ok (deficit br)"
    and "header_block_to_sub_block_record cr c r block ssi (overflow br) (deficit br) t ses = Ok br"
proof -
  from assms obtain block ssi z ovf d ses t where
    *: "(case fb of None \<Rightarrow> hb = Some block | Some b \<Rightarrow> block = b)"
      "0 < hb_height block \<longrightarrow> block_records s (hb_prev_header_hash block) \<noteq> None"
      "is_overflow_block c (rcb_signage_point_index (hb_reward_chain_block block)) = Ok ovf"
      "calculate_deficit c (hb_height block)
         (map_option deficit (block_records s (hb_prev_header_hash block))) ovf
         (int (length (hb_finished_sub_slots block))) = Ok d"
      "header_block_to_sub_block_record cr c r block ssi ovf d t ses = Ok br"
    unfolding block_to_block_record_def try_block_record_eq
    by (auto simp del: not_None_eq split: option.splits)
  have "overflow br = ovf" "deficit br = d" using block_record_agrees [OF *(5)] by simp_all
  with * show thesis by (intro that) simp_all
qed

end
