(* ===== verification/Validation.thy ===== *)
theory Validation
  imports Consensus_Constants
begin

text \<open>
  The convention of the validation functions: they return a pair of an optional result and an
  optional \<^verbatim>\<open>ValidationError\<close>, exactly one of which is set on the paths that matter, and stop at the
  first error. Here the pair is a sum, \<open>Invalid e\<close> or \<open>Valid x\<close>, inside the result type of the
  prelude (a validation can also raise an exception).
\<close>

type_synonym 'a vres = "(Err + 'a) res"

abbreviation Valid :: "'a \<Rightarrow> 'a vres" where "Valid x \<equiv> Ok (Inr x)"
abbreviation Invalid :: "Err \<Rightarrow> 'a vres" where "Invalid e \<equiv> Ok (Inl e)"

text \<open>The first error ends the function.\<close>

definition vbind :: "'a vres \<Rightarrow> ('a \<Rightarrow> 'b vres) \<Rightarrow> 'b vres" where
  "vbind m f = rbind m (\<lambda>r. case r of Inl e \<Rightarrow> Invalid e | Inr x \<Rightarrow> f x)"

text \<open>\<^verbatim>\<open>if b: return None, ValidationError(e)\<close>.\<close>

definition reject_if :: "bool \<Rightarrow> Err \<Rightarrow> unit vres" where
  "reject_if b e = (if b then Invalid e else Valid ())"

fun vfold :: "('a \<Rightarrow> 's \<Rightarrow> 's vres) \<Rightarrow> 'a list \<Rightarrow> 's \<Rightarrow> 's vres" where
  "vfold f [] s = Valid s"
| "vfold f (x # xs) s = vbind (f x s) (vfold f xs)"

lemma vbind_simps [simp]:
  "vbind (Valid x) f = f x" "vbind (Invalid e) f = Invalid e" "vbind (Raise ex) f = Raise ex"
  "vbind Diverge f = Diverge"
  by (simp_all add: vbind_def)

lemma vbind_eq_Valid: "vbind m f = Valid y \<longleftrightarrow> (\<exists>x. m = Valid x \<and> f x = Valid y)"
  by (cases m rule: res_cases) (auto simp: vbind_def split: sum.splits)

lemma vbind_eq_Invalid: "vbind m f = Invalid e \<longleftrightarrow> m = Invalid e \<or> (\<exists>x. m = Valid x \<and> f x = Invalid e)"
  by (cases m rule: res_cases) (auto simp: vbind_def split: sum.splits)

lemma vbind_ValidE [elim!]:
  assumes "vbind m f = Valid y"
  obtains x where "m = Valid x" and "f x = Valid y"
  using assms by (auto simp: vbind_eq_Valid)

lemma reject_if_eq_Valid [simp]: "reject_if b e = Valid u \<longleftrightarrow> \<not> b"
  by (simp add: reject_if_def)

lemma reject_if_False [simp]: "\<not> b \<Longrightarrow> reject_if b e = Valid ()"
  by (simp add: reject_if_def)

lemma reject_if_eq_Invalid [simp]: "reject_if b e = Invalid e' \<longleftrightarrow> b \<and> e = e'"
  by (simp add: reject_if_def)

lemma returns_vbind [returns_rules]:
  "returns m \<Longrightarrow> (\<And>x. m = Valid x \<Longrightarrow> returns (f x)) \<Longrightarrow> returns (vbind m f)"
  unfolding vbind_def by (rule returns_rbind) (auto split: sum.splits intro: returns_Some)

lemma returns_reject_if [returns_rules]: "returns (reject_if b e)"
  by (simp add: returns_def reject_if_def)

lemma returns_vfold [returns_rules]:
  "(\<And>x s. x \<in> set xs \<Longrightarrow> returns (f x s)) \<Longrightarrow> returns (vfold f xs s)"
  by (induction xs arbitrary: s) (auto intro!: returns_rules)

text \<open>What holds after each item of a loop that ended without an error holds after all of them.\<close>

lemma vfold_all:
  assumes "vfold f xs s = Valid t" and "x \<in> set xs" and "\<And>u v. f x u = Valid v \<Longrightarrow> P x"
  shows "P x"
  using assms by (induction xs arbitrary: s) auto

text \<open>One validation accepts whatever another does, with the same result; the rules compare two runs of
  one definition that differ in a flag.\<close>

definition accepts_more :: "'a vres \<Rightarrow> 'a vres \<Rightarrow> bool" where
  "accepts_more m m' \<longleftrightarrow> (\<forall>x. m = Valid x \<longrightarrow> m' = Valid x)"

named_theorems accepts_rules \<open>rules that compare two validations\<close>

lemma accepts_moreD: "accepts_more m m' \<Longrightarrow> m = Valid x \<Longrightarrow> m' = Valid x"
  by (simp add: accepts_more_def)

lemma accepts_more_refl [accepts_rules]: "accepts_more m m"
  by (simp add: accepts_more_def)

lemma accepts_more_vbind [accepts_rules]:
  "accepts_more m m' \<Longrightarrow> (\<And>x. accepts_more (f x) (g x)) \<Longrightarrow> accepts_more (vbind m f) (vbind m' g)"
  by (auto simp: accepts_more_def vbind_eq_Valid)

lemma accepts_more_rbind [accepts_rules]:
  "(\<And>x. accepts_more (f x) (g x)) \<Longrightarrow> accepts_more (rbind m f) (rbind m g)"
  by (auto simp: accepts_more_def rbind_eq_Ok)

lemma accepts_more_reject_if [accepts_rules]:
  "(b' \<Longrightarrow> b) \<Longrightarrow> accepts_more (reject_if b e) (reject_if b' e')"
  by (auto simp: accepts_more_def)

lemma accepts_more_cases [accepts_rules]:
  "(b \<Longrightarrow> accepts_more x x') \<Longrightarrow> (\<not> b \<Longrightarrow> accepts_more y y') \<Longrightarrow>
   accepts_more (if b then x else y) (if b then x' else y')"
  "accepts_more k k' \<Longrightarrow> (\<And>z. accepts_more (h z) (h' z)) \<Longrightarrow>
   accepts_more (case_option k h opt) (case_option k' h' opt)"
  "(\<And>u w. accepts_more (q u w) (q' u w)) \<Longrightarrow> accepts_more (case_prod q pr) (case_prod q' pr)"
  "(\<And>z. accepts_more (h z) (h' z)) \<Longrightarrow> accepts_more (Let v h) (Let v h')"
  by (auto split: option.splits prod.splits)

lemma accepts_more_vfold [accepts_rules]:
  "(\<And>x s. accepts_more (f x s) (g x s)) \<Longrightarrow> accepts_more (vfold f xs s) (vfold g xs s)"
  by (induction xs arbitrary: s) (auto intro!: accepts_rules)

end
