(* ===== verification/Header_Validation.thy ===== *)
theory Header_Validation
  imports Validation Chain_Challenges Sub_Epoch_Summary
begin

text \<open>
  \<^verbatim>\<open>chia/consensus/block_header_validation.py\<close>: \<^verbatim>\<open>validate_unfinished_header_block\<close> and
  \<^verbatim>\<open>validate_finished_header_block\<close>. The first is one function of 800 lines in the source; here each of
  its numbered groups of checks is a definition, and the function is their sequence. Values that
  later checks read (the previous block, whether the block overflows, which slots may end) are
  the fields of one record, and the current time is a parameter.
\<close>

section \<open>The position of the block\<close>

record position =
  pos_prev_b :: "BlockRecord option"
  pos_overflow :: bool
  pos_skip :: bool
  slots_since_prev :: int
  pos_height :: int
  can_finish_se :: bool
  can_finish_epoch :: bool

abbreviation genesis_block :: "position \<Rightarrow> bool" where
  "genesis_block pos \<equiv> pos_prev_b pos = None"

abbreviation new_sub_slot :: "position \<Rightarrow> bool" where
  "new_sub_slot pos \<equiv> slots_since_prev pos > 0"

text \<open>Check 1 and the values computed before check 2.\<close>

definition check_position ::
    "ConsensusConstants \<Rightarrow> BlockCache \<Rightarrow> UnfinishedHeaderBlock \<Rightarrow> int \<Rightarrow> int \<Rightarrow> bool \<Rightarrow> position vres" where
  "check_position c blocks hb expected_difficulty expected_ssi skip =
     rbind (try_block_record blocks (uhb_prev_header_hash hb)) (\<lambda>prev_b.
     vbind (reject_if (prev_b = None \<and> uhb_prev_header_hash hb \<noteq> GENESIS_CHALLENGE c)
              INVALID_PREV_BLOCK_HASH) (\<lambda>_.
     rbind (is_overflow_block c (rcbu_signage_point_index (uhb_reward_chain_block hb))) (\<lambda>ovf.
     rbind (if skip \<and> ovf
            then rbind (final_eos_is_already_included (uhb_finished_sub_slots hb)
                          (uhb_prev_header_hash hb) (rcbu_total_iters (uhb_reward_chain_block hb))
                          blocks expected_ssi) (\<lambda>inc.
                   if inc then Ok (False, int (length (uhb_finished_sub_slots hb)))
                   else Ok (skip, int (length (uhb_finished_sub_slots hb)) + 1))
            else Ok (skip, int (length (uhb_finished_sub_slots hb)))) (\<lambda>(skip, since).
       case prev_b of
         None \<Rightarrow>
           rbind (py_assert (expected_difficulty = DIFFICULTY_STARTING c)) (\<lambda>_.
           rbind (py_assert (expected_ssi = SUB_SLOT_ITERS_STARTING c)) (\<lambda>_.
             Valid \<lparr>pos_prev_b = None, pos_overflow = ovf, pos_skip = skip, slots_since_prev = since,
                    pos_height = 0, can_finish_se = False, can_finish_epoch = False\<rparr>))
       | Some b \<Rightarrow>
           rbind (uint32 (height b + 1)) (\<lambda>h.
           rbind (if since > 0
                  then can_finish_sub_and_full_epoch c blocks (height b) (Some (prev_hash b)) (deficit b)
                         (sub_epoch_summary_included b \<noteq> None)
                  else Ok (False, False)) (\<lambda>(se, e).
             Valid \<lparr>pos_prev_b = Some b, pos_overflow = ovf, pos_skip = skip, slots_since_prev = since,
                    pos_height = h, can_finish_se = se, can_finish_epoch = e\<rparr>))))))"

section \<open>Finished sub-slots\<close>

abbreviation vdf_valid ::
    "crypto \<Rightarrow> ConsensusConstants \<Rightarrow> VDFProof \<Rightarrow> ClassgroupElement \<Rightarrow> VDFInfo \<Rightarrow> VDFInfo option \<Rightarrow> bool" where
  "vdf_valid cr c \<equiv> VDFProof_is_valid cr (MAX_VDF_WITNESS_SIZE c) (DISCRIMINANT_SIZE_BITS c)"

text \<open>A proof normalized to identity runs from the default element over the whole \<open>info\<close>; another one
  from \<open>start\<close> over \<open>partial\<close>.\<close>

definition vdf_two_ways ::
    "crypto \<Rightarrow> ConsensusConstants \<Rightarrow> VDFProof \<Rightarrow> ClassgroupElement \<Rightarrow> VDFInfo \<Rightarrow> VDFInfo \<Rightarrow> bool" where
  "vdf_two_ways cr c p start partial info =
     (if normalized_to_identity p then vdf_valid cr c p get_default_element info None
      else vdf_valid cr c p start partial None)"

text \<open>2a to 2c: the challenge of the slot.\<close>

definition check_slot_challenge ::
    "crypto \<Rightarrow> ConsensusConstants \<Rightarrow> BlockCache \<Rightarrow> EndOfSubSlotBundle list \<Rightarrow> position \<Rightarrow> nat \<Rightarrow> bytes \<Rightarrow>
     unit vres" where
  "check_slot_challenge cr c blocks slots pos n challenge_hash =
     (if n = 0 then
        (case pos_prev_b pos of
           None \<Rightarrow> reject_if (challenge_hash \<noteq> GENESIS_CHALLENGE c) INVALID_PREV_CHALLENGE_SLOT_HASH
         | Some prev_b \<Rightarrow>
             rbind (walk (block_record blocks) (\<lambda>b. \<not> first_in_sub_slot b) prev_b) (\<lambda>cur.
             rbind (unwrap AssertionError (finished_challenge_slot_hashes cur)) (\<lambda>hs.
             rbind (py_last hs) (\<lambda>h.
               reject_if (h \<noteq> challenge_hash) INVALID_PREV_CHALLENGE_SLOT_HASH))))
      else
        rbind (ChallengeChainSubSlot_hash cr (challenge_chain (slots ! (n - 1)))) (\<lambda>h.
          reject_if (h \<noteq> challenge_hash) INVALID_PREV_CHALLENGE_SLOT_HASH))"

text \<open>The infused challenge chain a slot must carry: its challenge, the committed iterations, the
  iterations to prove and the input; \<open>None\<close> where there must be none.\<close>

definition icc_expected ::
    "crypto \<Rightarrow> ConsensusConstants \<Rightarrow> BlockCache \<Rightarrow> EndOfSubSlotBundle list \<Rightarrow> BlockRecord \<Rightarrow> nat \<Rightarrow>
     (bytes \<times> int \<times> int \<times> ClassgroupElement option) option res" where
  "icc_expected cr c blocks slots prev_b n =
     (if deficit prev_b < MIN_BLOCKS_PER_CHALLENGE_BLOCK c then
        (if n = 0 then
           rbind (walk (block_record blocks)
                    (\<lambda>b. \<not> is_challenge_block c b \<and> \<not> first_in_sub_slot b) prev_b) (\<lambda>cur.
           rbind (if is_challenge_block c cur then
                    rbind (ip_iters c cur) (\<lambda>ip.
                    rbind (uint64 (sub_slot_iters prev_b - ip)) (\<lambda>i.
                      Ok (challenge_block_info_hash cur, i)))
                  else
                    rbind (unwrap AssertionError (finished_infused_challenge_slot_hashes cur)) (\<lambda>hs.
                    rbind (py_last hs) (\<lambda>h. Ok (h, sub_slot_iters prev_b)))) (\<lambda>(ch, committed).
           rbind (ip_iters c prev_b) (\<lambda>ip.
           rbind (uint64 (sub_slot_iters prev_b - ip)) (\<lambda>prf.
             Ok (Some (ch, committed, prf,
                       (if is_challenge_block c prev_b then Some get_default_element
                        else infused_challenge_vdf_output prev_b)))))))
         else if rc_deficit (reward_chain (slots ! (n - 1))) < MIN_BLOCKS_PER_CHALLENGE_BLOCK c then
           rbind (unwrap AssertionError (infused_challenge_chain (slots ! (n - 1)))) (\<lambda>icc.
           rbind (InfusedChallengeChainSubSlot_hash cr icc) (\<lambda>ch.
             Ok (Some (ch, sub_slot_iters prev_b, sub_slot_iters prev_b, Some get_default_element))))
         else Ok None)
      else Ok None)"

text \<open>2d to 2k.\<close>

definition check_icc ::
    "crypto \<Rightarrow> ConsensusConstants \<Rightarrow> BlockCache \<Rightarrow> EndOfSubSlotBundle list \<Rightarrow> bool \<Rightarrow> position \<Rightarrow> nat \<Rightarrow>
     EndOfSubSlotBundle \<Rightarrow> unit vres" where
  "check_icc cr c blocks slots skip_vdf pos n sub_slot =
     (case pos_prev_b pos of
        None \<Rightarrow> reject_if (infused_challenge_chain sub_slot \<noteq> None) SHOULD_NOT_HAVE_ICC
      | Some prev_b \<Rightarrow>
          rbind (icc_expected cr c blocks slots prev_b n) (\<lambda>expected.
          rbind (py_assert ((infused_challenge_chain sub_slot = None) = (expected = None))) (\<lambda>_.
          (case infused_challenge_chain sub_slot of
             Some icc \<Rightarrow>
               rbind (unwrap AssertionError expected) (\<lambda>(ch, committed, prf, inp).
               rbind (unwrap AssertionError inp) (\<lambda>inp.
               rbind (unwrap AssertionError (infused_challenge_chain_slot_proof (proofs sub_slot))) (\<lambda>p.
               (let vdf = infused_challenge_chain_end_of_slot_vdf icc;
                    target = \<lparr>vdf_challenge = ch, number_of_iterations = prf, vdf_output = vdf_output vdf\<rparr>
                in
                vbind (reject_if (vdf \<noteq> target\<lparr>number_of_iterations := committed\<rparr>) INVALID_ICC_EOS_VDF) (\<lambda>_.
                vbind (reject_if (\<not> skip_vdf \<and> \<not> vdf_two_ways cr c p inp target vdf)
                         INVALID_ICC_EOS_VDF) (\<lambda>_.
                rbind (InfusedChallengeChainSubSlot_hash cr icc) (\<lambda>h.
                vbind (if rc_deficit (reward_chain sub_slot) = MIN_BLOCKS_PER_CHALLENGE_BLOCK c
                       then reject_if
                              (cc_infused_challenge_chain_sub_slot_hash (challenge_chain sub_slot) \<noteq> Some h)
                              INVALID_ICC_HASH_CC
                       else reject_if
                              (cc_infused_challenge_chain_sub_slot_hash (challenge_chain sub_slot) \<noteq> None)
                              INVALID_ICC_HASH_CC) (\<lambda>_.
                  reject_if (rc_infused_challenge_chain_sub_slot_hash (reward_chain sub_slot) \<noteq> Some h)
                    INVALID_ICC_HASH_RC))))))))
           | None \<Rightarrow>
               vbind (reject_if (cc_infused_challenge_chain_sub_slot_hash (challenge_chain sub_slot) \<noteq> None)
                        INVALID_ICC_HASH_CC) (\<lambda>_.
                 reject_if (rc_infused_challenge_chain_sub_slot_hash (reward_chain sub_slot) \<noteq> None)
                   INVALID_ICC_HASH_RC)))))"

text \<open>2l to 2n, and the assertion that only one slot carries a summary.\<close>

definition check_slot_summary ::
    "position \<Rightarrow> int \<Rightarrow> int \<Rightarrow> nat \<Rightarrow> ChallengeChainSubSlot \<Rightarrow> bytes option \<Rightarrow> bytes option vres" where
  "check_slot_summary pos expected_difficulty expected_ssi n cc ses_hash =
     rbind (py_assert (subepoch_summary_hash cc \<noteq> None \<longrightarrow> ses_hash = None)) (\<lambda>_.
     (let ses_hash = (case subepoch_summary_hash cc of None \<Rightarrow> ses_hash | Some h \<Rightarrow> Some h)
      in vbind (reject_if (n \<noteq> 0 \<and> subepoch_summary_hash cc \<noteq> None) INVALID_SUB_EPOCH_SUMMARY_HASH) (\<lambda>_.
         vbind (if can_finish_epoch pos \<and> subepoch_summary_hash cc \<noteq> None then
                  vbind (reject_if (cc_new_sub_slot_iters cc \<noteq> Some expected_ssi)
                           INVALID_NEW_SUB_SLOT_ITERS) (\<lambda>_.
                    reject_if (cc_new_difficulty cc \<noteq> Some expected_difficulty) INVALID_NEW_DIFFICULTY)
                else
                  vbind (reject_if (cc_new_sub_slot_iters cc \<noteq> None) INVALID_NEW_SUB_SLOT_ITERS) (\<lambda>_.
                    reject_if (cc_new_difficulty cc \<noteq> None) INVALID_NEW_DIFFICULTY)) (\<lambda>_.
           Valid ses_hash))))"

text \<open>2o to 2q: the reward chain commits to the challenge chain, and both VDFs run to the slot end.\<close>

definition check_eos_vdfs ::
    "crypto \<Rightarrow> ConsensusConstants \<Rightarrow> EndOfSubSlotBundle list \<Rightarrow> bool \<Rightarrow> position \<Rightarrow> int \<Rightarrow> nat \<Rightarrow>
     EndOfSubSlotBundle \<Rightarrow> unit vres" where
  "check_eos_vdfs cr c slots skip_vdf pos expected_ssi n sub_slot =
     (let cc_vdf = challenge_chain_end_of_slot_vdf (challenge_chain sub_slot);
          rc_vdf = end_of_slot_vdf (reward_chain sub_slot)
      in
      rbind (ChallengeChainSubSlot_hash cr (challenge_chain sub_slot)) (\<lambda>cch.
      vbind (reject_if (cch \<noteq> challenge_chain_sub_slot_hash (reward_chain sub_slot))
               INVALID_CHALLENGE_SLOT_HASH_RC) (\<lambda>_.
      rbind (if n = 0
             then (case pos_prev_b pos of
                     None \<Rightarrow> Ok (GENESIS_CHALLENGE c, GENESIS_CHALLENGE c, expected_ssi, get_default_element)
                   | Some prev_b \<Rightarrow>
                       rbind (ip_iters c prev_b) (\<lambda>ip.
                       rbind (uint64 (sub_slot_iters prev_b - ip)) (\<lambda>i.
                         Ok (reward_infusion_new_challenge prev_b, vdf_challenge cc_vdf, i,
                             challenge_vdf_output prev_b))))
             else rbind (RewardChainSubSlot_hash cr (reward_chain (slots ! (n - 1)))) (\<lambda>h.
                    Ok (h, vdf_challenge cc_vdf, expected_ssi, get_default_element)))
        (\<lambda>(rc_ch, cc_ch, eos_vdf_iters, cc_start_element).
      vbind (reject_if (\<not> skip_vdf \<and>
                \<not> vdf_valid cr c (reward_chain_slot_proof (proofs sub_slot)) get_default_element rc_vdf
                   (Some \<lparr>vdf_challenge = rc_ch, number_of_iterations = eos_vdf_iters,
                          vdf_output = vdf_output rc_vdf\<rparr>)) INVALID_RC_EOS_VDF) (\<lambda>_.
      (let partial_cc = \<lparr>vdf_challenge = cc_ch, number_of_iterations = eos_vdf_iters,
                         vdf_output = vdf_output cc_vdf\<rparr>;
           info_iters = (case pos_prev_b pos of
                           None \<Rightarrow> SUB_SLOT_ITERS_STARTING c
                         | Some prev_b \<Rightarrow> if n = 0 then sub_slot_iters prev_b else expected_ssi)
       in
       vbind (reject_if (cc_vdf \<noteq> partial_cc\<lparr>number_of_iterations := info_iters\<rparr>) INVALID_CC_EOS_VDF) (\<lambda>_.
         reject_if (\<not> skip_vdf \<and>
            \<not> vdf_two_ways cr c (challenge_chain_slot_proof (proofs sub_slot)) cc_start_element partial_cc
                cc_vdf) INVALID_CC_EOS_VDF)))))))"

text \<open>2r to 2t.\<close>

definition check_slot_deficit :: "ConsensusConstants \<Rightarrow> position \<Rightarrow> RewardChainSubSlot \<Rightarrow> unit vres" where
  "check_slot_deficit c pos rc =
     (case pos_prev_b pos of
        None \<Rightarrow> reject_if (rc_deficit rc \<noteq> MIN_BLOCKS_PER_CHALLENGE_BLOCK c) INVALID_DEFICIT
      | Some prev_b \<Rightarrow>
          if deficit prev_b = 0
          then reject_if (rc_deficit rc \<noteq> MIN_BLOCKS_PER_CHALLENGE_BLOCK c) INVALID_DEFICIT
          else reject_if (rc_deficit rc \<noteq> deficit prev_b) INVALID_DEFICIT)"

definition check_sub_slot ::
    "crypto \<Rightarrow> ConsensusConstants \<Rightarrow> BlockCache \<Rightarrow> EndOfSubSlotBundle list \<Rightarrow> bool \<Rightarrow> position \<Rightarrow> int \<Rightarrow> int \<Rightarrow>
     nat \<times> EndOfSubSlotBundle \<Rightarrow> bytes option \<Rightarrow> bytes option vres" where
  "check_sub_slot cr c blocks slots skip_vdf pos expected_difficulty expected_ssi = (\<lambda>(n, sub_slot) ses_hash.
     vbind (check_slot_challenge cr c blocks slots pos n
              (vdf_challenge (challenge_chain_end_of_slot_vdf (challenge_chain sub_slot)))) (\<lambda>_.
     vbind (check_icc cr c blocks slots skip_vdf pos n sub_slot) (\<lambda>_.
     vbind (check_slot_summary pos expected_difficulty expected_ssi n (challenge_chain sub_slot) ses_hash) (\<lambda>ses_hash.
     vbind (check_eos_vdfs cr c slots skip_vdf pos expected_ssi n sub_slot) (\<lambda>_.
     vbind (check_slot_deficit c pos (reward_chain sub_slot)) (\<lambda>_.
       Valid ses_hash))))))"

text \<open>Check 3: the summary, on the hash found in the slots.\<close>

definition check_sub_epoch ::
    "crypto \<Rightarrow> ConsensusConstants \<Rightarrow> BlockCache \<Rightarrow> bool \<Rightarrow> position \<Rightarrow> int \<Rightarrow> int \<Rightarrow> bytes option \<Rightarrow> unit vres" where
  "check_sub_epoch cr c blocks check_sub_epoch_summary pos expected_difficulty expected_ssi ses_hash =
     (case ses_hash of
        Some ses_hash \<Rightarrow>
          (case pos_prev_b pos of
             None \<Rightarrow> Invalid INVALID_SUB_EPOCH_SUMMARY_HASH
           | Some prev_b \<Rightarrow>
               vbind (reject_if (\<not> new_sub_slot pos \<or> \<not> can_finish_se pos)
                        INVALID_SUB_EPOCH_SUMMARY_HASH) (\<lambda>_.
               if check_sub_epoch_summary then
                 rbind (block_record blocks (prev_hash prev_b)) (\<lambda>prev_prev_b.
                 rbind (make_sub_epoch_summary cr c blocks (pos_height pos) prev_prev_b
                          (if can_finish_epoch pos then Some expected_difficulty else None)
                          (if can_finish_epoch pos then Some expected_ssi else None)) (\<lambda>ses.
                 rbind (SubEpochSummary_hash cr ses) (\<lambda>expected_hash.
                   reject_if (expected_hash \<noteq> ses_hash) INVALID_SUB_EPOCH_SUMMARY)))
               else Valid ()))
      | None \<Rightarrow>
          reject_if (new_sub_slot pos \<and> \<not> genesis_block pos \<and> (can_finish_se pos \<or> can_finish_epoch pos))
            INVALID_SUB_EPOCH_SUMMARY)"

text \<open>Checks 2 and 3.\<close>

definition check_finished_slots ::
    "crypto \<Rightarrow> ConsensusConstants \<Rightarrow> BlockCache \<Rightarrow> EndOfSubSlotBundle list \<Rightarrow> bool \<Rightarrow> bool \<Rightarrow> position \<Rightarrow>
     int \<Rightarrow> int \<Rightarrow> unit vres" where
  "check_finished_slots cr c blocks slots skip_vdf check_sub_epoch_summary pos expected_difficulty expected_ssi =
     (if new_sub_slot pos \<and> \<not> pos_skip pos then
        vbind (vfold (check_sub_slot cr c blocks slots skip_vdf pos expected_difficulty expected_ssi)
                 (List.enumerate 0 slots) None)
          (check_sub_epoch cr c blocks check_sub_epoch_summary pos expected_difficulty expected_ssi)
      else Valid ())"

text \<open>Check 4: a sub-slot holds a bounded number of blocks.\<close>

definition check_block_count :: "ConsensusConstants \<Rightarrow> BlockCache \<Rightarrow> position \<Rightarrow> unit vres" where
  "check_block_count c blocks pos =
     (case pos_prev_b pos of
        None \<Rightarrow> Valid ()
      | Some prev_b \<Rightarrow>
          if new_sub_slot pos then Valid ()
          else
            rbind (walk_acc (block_record blocks) (\<lambda>b _. \<not> first_in_sub_slot b) (\<lambda>_ n. Ok (n + 1)) prev_b 2)
              (\<lambda>(cur, num_blocks). reject_if (num_blocks > MAX_SUB_SLOT_BLOCKS c) TOO_MANY_BLOCKS))"

section \<open>Proof of space and iterations\<close>

text \<open>Checks 5 to 8; the values the rest needs are the challenge chain signage point hash, the
  required iterations, and the iterations of the signage and infusion points.\<close>

record sp_values =
  cc_sp_hash :: bytes
  spv_required_iters :: int
  spv_sp_iters :: int
  spv_ip_iters :: int

definition check_proof_of_space ::
    "crypto \<Rightarrow> ConsensusConstants \<Rightarrow> BlockCache \<Rightarrow> UnfinishedHeaderBlock \<Rightarrow> position \<Rightarrow> int \<Rightarrow> int \<Rightarrow>
     sp_values vres" where
  "check_proof_of_space cr c blocks hb pos expected_difficulty expected_ssi =
     (let rcb = uhb_reward_chain_block hb; sp_index = rcbu_signage_point_index rcb
      in
      rbind (get_block_challenge cr c (uhb_finished_sub_slots hb) (uhb_prev_header_hash hb) blocks
               (genesis_block pos) (pos_overflow pos) (pos_skip pos)) (\<lambda>challenge.
      vbind (reject_if (challenge \<noteq> rcbu_pos_ss_cc_challenge_hash rcb) INVALID_CC_CHALLENGE) (\<lambda>_.
      rbind (case rcbu_challenge_chain_sp_vdf rcb of
               None \<Rightarrow> Ok challenge
             | Some v \<Rightarrow> ClassgroupElement_hash cr (vdf_output v)) (\<lambda>sp_hash.
      rbind (verify_and_get_quality_string cr (MIN_PLOT_SIZE c) (MAX_PLOT_SIZE c)
               (NUMBER_ZERO_BITS_PLOT_FILTER c) (rcbu_proof_of_space rcb) challenge sp_hash) (\<lambda>q.
      (case q of
         None \<Rightarrow> Invalid INVALID_POSPACE
       | Some q_str \<Rightarrow>
           vbind (reject_if (sp_index \<ge> NUM_SPS_SUB_SLOT c) INVALID_SP_INDEX) (\<lambda>_.
           rbind (calculate_iterations_quality cr (DIFFICULTY_CONSTANT_FACTOR c) q_str
                    (pos_size (rcbu_proof_of_space rcb)) expected_difficulty sp_hash) (\<lambda>req_iters.
           rbind (calculate_sp_interval_iters c expected_ssi) (\<lambda>interval.
           vbind (reject_if (req_iters \<ge> interval) INVALID_REQUIRED_ITERS) (\<lambda>_.
           vbind (reject_if ((sp_index = 0) \<noteq> (rcbu_challenge_chain_sp_vdf rcb = None)) INVALID_SP_INDEX) (\<lambda>_.
           vbind (reject_if ((sp_index = 0) \<noteq> (rcbu_reward_chain_sp_vdf rcb = None)) INVALID_SP_INDEX) (\<lambda>_.
           rbind (calculate_sp_iters c expected_ssi sp_index) (\<lambda>sp_it.
           rbind (calculate_ip_iters c expected_ssi sp_index req_iters) (\<lambda>ip_it.
           rbind (py_assert (rcbu_challenge_chain_sp_vdf rcb = None \<longrightarrow> \<not> pos_overflow pos)) (\<lambda>_.
             Valid \<lparr>cc_sp_hash = sp_hash, spv_required_iters = req_iters, spv_sp_iters = sp_it,
                    spv_ip_iters = ip_it\<rparr>)))))))))))))))"

text \<open>Checks 9 and 10: the total iterations the block must have.\<close>

definition expected_total_iters ::
    "ConsensusConstants \<Rightarrow> position \<Rightarrow> int \<Rightarrow> int \<Rightarrow> int res" where
  "expected_total_iters c pos expected_ssi ip_it =
     rbind (case pos_prev_b pos of
              None \<Rightarrow> uint128 (expected_ssi * slots_since_prev pos)
            | Some prev_b \<Rightarrow>
                if new_sub_slot pos then
                  rbind (ip_iters c prev_b) (\<lambda>ip.
                  rbind (uint128 (total_iters prev_b + sub_slot_iters prev_b - ip)) (\<lambda>t.
                    uint128 (t + expected_ssi * (slots_since_prev pos - 1))))
                else rbind (ip_iters c prev_b) (\<lambda>ip. uint128 (total_iters prev_b - ip)))
       (\<lambda>t. uint128 (t + ip_it))"

definition check_total_iters ::
    "ConsensusConstants \<Rightarrow> UnfinishedHeaderBlock \<Rightarrow> position \<Rightarrow> int \<Rightarrow> int \<Rightarrow> int vres" where
  "check_total_iters c hb pos expected_ssi ip_it =
     vbind (reject_if (pos_overflow pos \<and> can_finish_epoch pos \<and> slots_since_prev pos < 2)
              NO_OVERFLOWS_IN_FIRST_SUB_SLOT_NEW_EPOCH) (\<lambda>_.
     rbind (expected_total_iters c pos expected_ssi ip_it) (\<lambda>t.
     vbind (reject_if (t \<noteq> rcbu_total_iters (uhb_reward_chain_block hb)) INVALID_TOTAL_ITERS) (\<lambda>_.
       Valid t)))"

section \<open>The signage point\<close>

text \<open>The slot passed for an end of slot that is not known yet.\<close>

definition dummy_vdf_info :: VDFInfo where
  "dummy_vdf_info = \<lparr>vdf_challenge = replicate 32 0, number_of_iterations = 1, vdf_output = get_default_element\<rparr>"

definition dummy_vdf_proof :: VDFProof where
  "dummy_vdf_proof = \<lparr>witness_type = 0, witness = [], normalized_to_identity = False\<rparr>"

definition dummy_sub_slot :: EndOfSubSlotBundle where
  "dummy_sub_slot =
     \<lparr>challenge_chain =
        \<lparr>challenge_chain_end_of_slot_vdf = dummy_vdf_info,
         cc_infused_challenge_chain_sub_slot_hash = None, subepoch_summary_hash = None,
         cc_new_sub_slot_iters = None, cc_new_difficulty = None\<rparr>,
      infused_challenge_chain = None,
      reward_chain =
        \<lparr>end_of_slot_vdf = dummy_vdf_info, challenge_chain_sub_slot_hash = replicate 32 0,
         rc_infused_challenge_chain_sub_slot_hash = None, rc_deficit = 0\<rparr>,
      proofs =
        \<lparr>challenge_chain_slot_proof = dummy_vdf_proof, infused_challenge_chain_slot_proof = None,
         reward_chain_slot_proof = dummy_vdf_proof\<rparr>\<rparr>"

text \<open>Check 11: the reward chain signage point; the result is its hash.\<close>

definition check_rc_sp ::
    "crypto \<Rightarrow> ConsensusConstants \<Rightarrow> BlockCache \<Rightarrow> UnfinishedHeaderBlock \<Rightarrow> bool \<Rightarrow> position \<Rightarrow> int \<Rightarrow>
     bytes \<Rightarrow> ClassgroupElement \<Rightarrow> int \<Rightarrow> bytes vres" where
  "check_rc_sp cr c blocks hb skip_vdf pos sp_it rc_vdf_challenge rc_vdf_input rc_vdf_iters =
     (let rc_sp_vdf = rcbu_reward_chain_sp_vdf (uhb_reward_chain_block hb)
      in if sp_it \<noteq> 0 then
           rbind (unwrap AssertionError rc_sp_vdf) (\<lambda>v.
           rbind (unwrap AssertionError (uhb_reward_chain_sp_proof hb)) (\<lambda>p.
           vbind (reject_if (\<not> skip_vdf \<and>
                    \<not> vdf_valid cr c p rc_vdf_input v
                       (Some \<lparr>vdf_challenge = rc_vdf_challenge, number_of_iterations = rc_vdf_iters,
                              vdf_output = vdf_output v\<rparr>)) INVALID_RC_SP_VDF) (\<lambda>_.
           rbind (ClassgroupElement_hash cr (vdf_output v)) (\<lambda>h. Valid h))))
         else
           vbind (reject_if (rc_sp_vdf \<noteq> None) INVALID_RC_SP_VDF) (\<lambda>_.
           if new_sub_slot pos then
             rbind (py_last (uhb_finished_sub_slots hb)) (\<lambda>s.
             rbind (RewardChainSubSlot_hash cr (reward_chain s)) (\<lambda>h. Valid h))
           else (case pos_prev_b pos of
             None \<Rightarrow> Valid (GENESIS_CHALLENGE c)
           | Some prev_b \<Rightarrow>
               rbind (walk (block_record blocks) (\<lambda>b. \<not> first_in_sub_slot b) prev_b) (\<lambda>cur.
               rbind (unwrap AssertionError (finished_reward_slot_hashes cur)) (\<lambda>hs.
               rbind (py_last hs) (\<lambda>h. Valid h))))))"

text \<open>Check 13: the challenge chain signage point.\<close>

definition check_cc_sp ::
    "crypto \<Rightarrow> ConsensusConstants \<Rightarrow> UnfinishedHeaderBlock \<Rightarrow> bool \<Rightarrow> int \<Rightarrow> bytes \<Rightarrow> ClassgroupElement \<Rightarrow>
     int \<Rightarrow> unit vres" where
  "check_cc_sp cr c hb skip_vdf sp_it cc_vdf_challenge cc_vdf_input cc_vdf_iters =
     (let cc_sp_vdf = rcbu_challenge_chain_sp_vdf (uhb_reward_chain_block hb)
      in if sp_it \<noteq> 0 then
           rbind (unwrap AssertionError cc_sp_vdf) (\<lambda>v.
           rbind (unwrap AssertionError (uhb_challenge_chain_sp_proof hb)) (\<lambda>p.
           (let target = \<lparr>vdf_challenge = cc_vdf_challenge, number_of_iterations = cc_vdf_iters,
                          vdf_output = vdf_output v\<rparr>
            in vbind (reject_if (v \<noteq> target\<lparr>number_of_iterations := sp_it\<rparr>) INVALID_CC_SP_VDF) (\<lambda>_.
                 reject_if (\<not> skip_vdf \<and> \<not> vdf_two_ways cr c p cc_vdf_input target v) INVALID_CC_SP_VDF))))
         else reject_if (cc_sp_vdf \<noteq> None) INVALID_CC_SP_VDF)"

text \<open>Checks 11 to 14.\<close>

definition check_signage_point ::
    "crypto \<Rightarrow> ConsensusConstants \<Rightarrow> BlockCache \<Rightarrow> UnfinishedHeaderBlock \<Rightarrow> bool \<Rightarrow> position \<Rightarrow> int \<Rightarrow>
     sp_values \<Rightarrow> int \<Rightarrow> unit vres" where
  "check_signage_point cr c blocks hb skip_vdf pos expected_ssi v t =
     (let rcb = uhb_reward_chain_block hb; pk = plot_public_key (rcbu_proof_of_space rcb)
      in
      rbind (uint128 (t - spv_ip_iters v + spv_sp_iters v - (if pos_overflow pos then expected_ssi else 0)))
        (\<lambda>sp_total.
      rbind (get_signage_point_vdf_info cr c
               (if pos_overflow pos \<and> pos_skip pos then uhb_finished_sub_slots hb @ [dummy_sub_slot]
                else uhb_finished_sub_slots hb)
               (pos_overflow pos) (pos_prev_b pos) blocks sp_total (spv_sp_iters v))
        (\<lambda>(cc_vdf_challenge, rc_vdf_challenge, cc_vdf_input, rc_vdf_input, cc_vdf_iters, rc_vdf_iters).
      vbind (check_rc_sp cr c blocks hb skip_vdf pos (spv_sp_iters v) rc_vdf_challenge rc_vdf_input
               rc_vdf_iters) (\<lambda>rc_sp_hash.
      vbind (reject_if (\<not> aug_verify cr pk rc_sp_hash (rcbu_reward_chain_sp_signature rcb))
               INVALID_RC_SIGNATURE) (\<lambda>_.
      vbind (check_cc_sp cr c hb skip_vdf (spv_sp_iters v) cc_vdf_challenge cc_vdf_input cc_vdf_iters) (\<lambda>_.
        reject_if (\<not> aug_verify cr pk (cc_sp_hash v) (rcbu_challenge_chain_sp_signature rcb))
          INVALID_CC_SIGNATURE))))))"

section \<open>The foliage\<close>

text \<open>\<^verbatim>\<open>AugSchemeMPL.verify\<close> given an optional signature raises \<^verbatim>\<open>TypeError\<close> on \<^verbatim>\<open>None\<close>.\<close>

definition verify_opt :: "crypto \<Rightarrow> bytes \<Rightarrow> bytes \<Rightarrow> bytes option \<Rightarrow> bool res" where
  "verify_opt cr pk msg sig = rbind (unwrap TypeError sig) (\<lambda>s. Ok (aug_verify cr pk msg s))"

text \<open>Check 15: a block is a transaction block iff its signage point lies past the infusion point of
  the last transaction block.\<close>

definition check_is_transaction_block ::
    "BlockCache \<Rightarrow> Foliage \<Rightarrow> position \<Rightarrow> int \<Rightarrow> sp_values \<Rightarrow> int \<Rightarrow> unit vres" where
  "check_is_transaction_block blocks fol pos expected_ssi v t =
     (case pos_prev_b pos of
        None \<Rightarrow> reject_if (foliage_transaction_block_hash fol = None) INVALID_IS_TRANSACTION_BLOCK
      | Some prev_b \<Rightarrow>
          rbind (walk (block_record blocks) (\<lambda>b. \<not> is_transaction_block b) prev_b) (\<lambda>cur.
          rbind (if pos_overflow pos then uint128 (t - spv_ip_iters v + spv_sp_iters v - expected_ssi)
                 else uint128 (t - spv_ip_iters v + spv_sp_iters v)) (\<lambda>our_sp_total_iters.
          vbind (reject_if ((our_sp_total_iters > total_iters cur) \<noteq>
                    (foliage_transaction_block_hash fol \<noteq> None)) INVALID_IS_TRANSACTION_BLOCK) (\<lambda>_.
            reject_if ((our_sp_total_iters > total_iters cur) \<noteq>
                    (foliage_transaction_block_signature fol \<noteq> None)) INVALID_IS_TRANSACTION_BLOCK))))"

text \<open>Checks 16 to 18.\<close>

definition check_foliage_signatures ::
    "crypto \<Rightarrow> RewardChainBlockUnfinished \<Rightarrow> Foliage \<Rightarrow> unit vres" where
  "check_foliage_signatures cr rcb fol =
     (let pk = plot_public_key (rcbu_proof_of_space rcb)
      in
      rbind (FoliageBlockData_hash cr (foliage_block_data fol)) (\<lambda>h.
      vbind (reject_if (\<not> aug_verify cr pk h (foliage_block_data_signature fol)) INVALID_PLOT_SIGNATURE) (\<lambda>_.
      vbind (case foliage_transaction_block_hash fol of
               None \<Rightarrow> Valid ()
             | Some h \<Rightarrow>
                 rbind (verify_opt cr pk h (foliage_transaction_block_signature fol)) (\<lambda>ok.
                   reject_if (\<not> ok) INVALID_PLOT_SIGNATURE)) (\<lambda>_.
      rbind (RewardChainBlockUnfinished_hash cr rcb) (\<lambda>h.
        reject_if (h \<noteq> unfinished_reward_block_hash (foliage_block_data fol)) INVALID_URSB_HASH)))))"

text \<open>The plot key may sign a different pool target.\<close>

definition pool_target_signed_by_plot ::
    "crypto \<Rightarrow> ProofOfSpace \<Rightarrow> FoliageBlockData \<Rightarrow> bool res" where
  "pool_target_signed_by_plot cr pos fbd =
     rbind (PoolTarget_bytes cr (pool_target fbd)) (\<lambda>b.
     rbind (std_hash cr b) (\<lambda>h. verify_opt cr (plot_public_key pos) h (pool_signature fbd)))"

text \<open>Checks 19 and 20.\<close>

definition check_pool_target ::
    "crypto \<Rightarrow> ConsensusConstants \<Rightarrow> RewardChainBlockUnfinished \<Rightarrow> FoliageBlockData \<Rightarrow> position \<Rightarrow>
     unit vres" where
  "check_pool_target cr c rcb fbd pos =
     (let pospace = rcbu_proof_of_space rcb
      in
      vbind (reject_if (max_height (pool_target fbd) \<noteq> 0 \<and> max_height (pool_target fbd) < pos_height pos)
               OLD_POOL_TARGET) (\<lambda>_.
      if genesis_block pos then
        vbind (reject_if (pt_puzzle_hash (pool_target fbd) \<noteq> GENESIS_PRE_FARM_POOL_PUZZLE_HASH c)
                 INVALID_PREFARM) (\<lambda>_.
          reject_if (farmer_reward_puzzle_hash fbd \<noteq> GENESIS_PRE_FARM_FARMER_PUZZLE_HASH c) INVALID_PREFARM)
      else (case pool_public_key pospace of
        Some pool_pk \<Rightarrow>
          rbind (py_assert (pool_contract_puzzle_hash pospace = None)) (\<lambda>_.
          rbind (PoolTarget_bytes cr (pool_target fbd)) (\<lambda>b.
          rbind (verify_opt cr pool_pk b (pool_signature fbd)) (\<lambda>ok.
            if ok then Valid ()
            else rbind (pool_target_signed_by_plot cr pospace fbd) (\<lambda>ok.
                   reject_if (\<not> ok) INVALID_POOL_SIGNATURE))))
      | None \<Rightarrow>
          rbind (unwrap AssertionError (pool_contract_puzzle_hash pospace)) (\<lambda>ph.
            if pt_puzzle_hash (pool_target fbd) \<noteq> ph
            then rbind (pool_target_signed_by_plot cr pospace fbd) (\<lambda>ok.
                   reject_if (\<not> ok) INVALID_POOL_TARGET)
            else Valid ()))))"

text \<open>Checks 22 to 26.\<close>

definition check_foliage_block ::
    "crypto \<Rightarrow> ConsensusConstants \<Rightarrow> BlockCache \<Rightarrow> UnfinishedHeaderBlock \<Rightarrow> bool \<Rightarrow> int \<Rightarrow> position \<Rightarrow>
     unit vres" where
  "check_foliage_block cr c blocks hb check_filter now pos =
     (let fol = uhb_foliage hb; ftb = uhb_foliage_transaction_block hb
      in
      vbind (reject_if ((foliage_transaction_block_hash fol \<noteq> None) \<noteq> (ftb \<noteq> None))
               INVALID_FOLIAGE_BLOCK_PRESENCE) (\<lambda>_.
      vbind (reject_if ((foliage_transaction_block_signature fol \<noteq> None) \<noteq> (ftb \<noteq> None))
               INVALID_FOLIAGE_BLOCK_PRESENCE) (\<lambda>_.
      (case ftb of
         None \<Rightarrow> Valid ()
       | Some f \<Rightarrow>
           rbind (FoliageTransactionBlock_hash cr f) (\<lambda>h.
           vbind (reject_if (Some h \<noteq> foliage_transaction_block_hash fol) INVALID_FOLIAGE_BLOCK_HASH) (\<lambda>_.
           vbind (case pos_prev_b pos of
                    None \<Rightarrow> reject_if (ftb_prev_transaction_block_hash f \<noteq> GENESIS_CHALLENGE c)
                              INVALID_PREV_BLOCK_HASH
                  | Some prev_b \<Rightarrow>
                      rbind (walk (block_record blocks) (\<lambda>b. \<not> is_transaction_block b) prev_b) (\<lambda>cur.
                        reject_if (ftb_prev_transaction_block_hash f \<noteq> header_hash cur)
                          INVALID_PREV_BLOCK_HASH)) (\<lambda>_.
           vbind (if check_filter then
                    rbind (std_hash cr (uhb_transactions_filter hb)) (\<lambda>h.
                      reject_if (filter_hash f \<noteq> h) INVALID_TRANSACTIONS_FILTER_HASH)
                  else Valid ()) (\<lambda>_.
           vbind (reject_if (ftb_timestamp f > now + MAX_FUTURE_TIME c) TIMESTAMP_TOO_FAR_IN_FUTURE) (\<lambda>_.
           (case pos_prev_b pos of
              None \<Rightarrow> Valid ()
            | Some prev_b \<Rightarrow>
                rbind (block_record blocks (ftb_prev_transaction_block_hash f)) (\<lambda>prev_tx.
                rbind (unwrap AssertionError (timestamp prev_tx)) (\<lambda>pt.
                  reject_if (ftb_timestamp f \<le> pt) TIMESTAMP_TOO_FAR_IN_PAST))))))))))))"

section \<open>The whole validation\<close>

definition validate_unfinished_header_block ::
    "crypto \<Rightarrow> ConsensusConstants \<Rightarrow> BlockCache \<Rightarrow> UnfinishedHeaderBlock \<Rightarrow> bool \<Rightarrow> int \<Rightarrow> int \<Rightarrow> bool \<Rightarrow>
     bool \<Rightarrow> bool \<Rightarrow> int \<Rightarrow> int vres" where
  "validate_unfinished_header_block cr c blocks hb check_filter expected_difficulty expected_ssi
       skip_overflow_last_ss_validation skip_vdf_is_valid check_sub_epoch_summary now =
     (let rcb = uhb_reward_chain_block hb; fol = uhb_foliage hb; slots = uhb_finished_sub_slots hb
      in
      vbind (check_position c blocks hb expected_difficulty expected_ssi skip_overflow_last_ss_validation) (\<lambda>pos.
      vbind (check_finished_slots cr c blocks slots skip_vdf_is_valid check_sub_epoch_summary pos
               expected_difficulty expected_ssi) (\<lambda>_.
      vbind (check_block_count c blocks pos) (\<lambda>_.
      vbind (check_proof_of_space cr c blocks hb pos expected_difficulty expected_ssi) (\<lambda>v.
      vbind (check_total_iters c hb pos expected_ssi (spv_ip_iters v)) (\<lambda>t.
      vbind (check_signage_point cr c blocks hb skip_vdf_is_valid pos expected_ssi v t) (\<lambda>_.
      vbind (check_is_transaction_block blocks fol pos expected_ssi v t) (\<lambda>_.
      vbind (check_foliage_signatures cr rcb fol) (\<lambda>_.
      vbind (check_pool_target cr c rcb (foliage_block_data fol) pos) (\<lambda>_.
      vbind (check_foliage_block cr c blocks hb check_filter now pos) (\<lambda>_.
        Valid (spv_required_iters v))))))))))))"

section \<open>Finished blocks\<close>

definition unfinished_of :: "HeaderBlock \<Rightarrow> UnfinishedHeaderBlock" where
  "unfinished_of b =
     \<lparr>uhb_finished_sub_slots = hb_finished_sub_slots b,
      uhb_reward_chain_block = get_unfinished (hb_reward_chain_block b),
      uhb_challenge_chain_sp_proof = hb_challenge_chain_sp_proof b,
      uhb_reward_chain_sp_proof = hb_reward_chain_sp_proof b,
      uhb_foliage = hb_foliage b,
      uhb_foliage_transaction_block = hb_foliage_transaction_block b,
      uhb_transactions_filter = hb_transactions_filter b\<rparr>"

text \<open>Checks 27 and 28.\<close>

definition check_height_weight ::
    "ConsensusConstants \<Rightarrow> HeaderBlock \<Rightarrow> BlockRecord option \<Rightarrow> int \<Rightarrow> unit vres" where
  "check_height_weight c b prev_b expected_difficulty =
     (case prev_b of
        Some p \<Rightarrow>
          vbind (reject_if (hb_height b \<noteq> height p + 1) INVALID_HEIGHT) (\<lambda>_.
            reject_if (hb_weight b \<noteq> weight p + expected_difficulty) INVALID_WEIGHT)
      | None \<Rightarrow>
          vbind (reject_if (hb_height b \<noteq> 0) INVALID_HEIGHT) (\<lambda>_.
          vbind (reject_if (hb_weight b \<noteq> DIFFICULTY_STARTING c) INVALID_WEIGHT) (\<lambda>_.
            reject_if (hb_prev_header_hash b \<noteq> GENESIS_CHALLENGE c) INVALID_PREV_BLOCK_HASH)))"

text \<open>Where the VDFs to the infusion point start: the reward chain challenge, the number of iterations
  and the challenge chain input.\<close>

definition ip_vdf_start ::
    "crypto \<Rightarrow> ConsensusConstants \<Rightarrow> HeaderBlock \<Rightarrow> BlockRecord option \<Rightarrow> int \<Rightarrow>
     (bytes \<times> int \<times> ClassgroupElement) res" where
  "ip_vdf_start cr c b prev_b ip_it =
     (if length (hb_finished_sub_slots b) > 0 then
        rbind (py_last (hb_finished_sub_slots b)) (\<lambda>s.
        rbind (RewardChainSubSlot_hash cr (reward_chain s)) (\<lambda>h. Ok (h, ip_it, get_default_element)))
      else (case prev_b of
        None \<Rightarrow> Ok (GENESIS_CHALLENGE c, ip_it, get_default_element)
      | Some p \<Rightarrow>
          rbind (uint64 (hb_total_iters b - total_iters p)) (\<lambda>i.
            Ok (reward_infusion_new_challenge p, i, challenge_vdf_output p))))"

text \<open>Check 29: the challenge chain infusion point.\<close>

definition check_cc_ip ::
    "crypto \<Rightarrow> ConsensusConstants \<Rightarrow> BlockCache \<Rightarrow> HeaderBlock \<Rightarrow> BlockRecord option \<Rightarrow> int \<Rightarrow> int \<Rightarrow>
     ClassgroupElement \<Rightarrow> unit vres" where
  "check_cc_ip cr c blocks b prev_b ip_it ip_vdf_iters cc_vdf_output =
     rbind (if length (hb_finished_sub_slots b) > 0 then
              rbind (py_last (hb_finished_sub_slots b)) (\<lambda>s. ChallengeChainSubSlot_hash cr (challenge_chain s))
            else (case prev_b of
              None \<Rightarrow> Ok (GENESIS_CHALLENGE c)
            | Some p \<Rightarrow>
                rbind (walk (block_record blocks) (\<lambda>b. finished_challenge_slot_hashes b = None) p) (\<lambda>cur.
                rbind (unwrap TypeError (finished_challenge_slot_hashes cur)) py_last))) (\<lambda>cc_vdf_challenge.
     (let info = rcb_challenge_chain_ip_vdf (hb_reward_chain_block b);
          target = \<lparr>vdf_challenge = cc_vdf_challenge, number_of_iterations = ip_vdf_iters,
                    vdf_output = vdf_output info\<rparr>
      in vbind (reject_if (info \<noteq> target\<lparr>number_of_iterations := ip_it\<rparr>) INVALID_CC_IP_VDF) (\<lambda>_.
           reject_if (\<not> vdf_two_ways cr c (hb_challenge_chain_ip_proof b) cc_vdf_output target info)
             INVALID_CC_IP_VDF)))"

text \<open>The start of the infused challenge chain VDF: the challenge and the input.\<close>

definition icc_ip_start ::
    "crypto \<Rightarrow> ConsensusConstants \<Rightarrow> BlockCache \<Rightarrow> HeaderBlock \<Rightarrow> BlockRecord \<Rightarrow>
     (bytes \<times> ClassgroupElement option) res" where
  "icc_ip_start cr c blocks b prev_b =
     (if length (hb_finished_sub_slots b) > 0 then
        rbind (py_last (hb_finished_sub_slots b)) (\<lambda>last_ss.
        rbind (unwrap AssertionError (infused_challenge_chain last_ss)) (\<lambda>icc.
        rbind (InfusedChallengeChainSubSlot_hash cr icc) (\<lambda>h. Ok (h, Some get_default_element))))
      else
        rbind (walk (block_record blocks)
                 (\<lambda>b. finished_infused_challenge_slot_hashes b = None \<and> \<not> is_challenge_block c b) prev_b) (\<lambda>cur.
        rbind (if is_challenge_block c cur then Ok (challenge_block_info_hash cur)
               else rbind (unwrap AssertionError (finished_infused_challenge_slot_hashes cur)) py_last) (\<lambda>ch.
          Ok (ch, (if is_challenge_block c prev_b then Some get_default_element
                   else infused_challenge_vdf_output prev_b)))))"

text \<open>Check 31.\<close>

definition check_icc_ip ::
    "crypto \<Rightarrow> ConsensusConstants \<Rightarrow> BlockCache \<Rightarrow> HeaderBlock \<Rightarrow> BlockRecord option \<Rightarrow> int \<Rightarrow> unit vres" where
  "check_icc_ip cr c blocks b prev_b ip_vdf_iters =
     (case prev_b of
        None \<Rightarrow> reject_if (hb_infused_challenge_chain_ip_proof b \<noteq> None) INVALID_ICC_VDF
      | Some p \<Rightarrow>
          rbind (is_overflow_block c (rcb_signage_point_index (hb_reward_chain_block b))) (\<lambda>ovf.
          rbind (calculate_deficit c (hb_height b) (Some (deficit p)) ovf
                   (int (length (hb_finished_sub_slots b)))) (\<lambda>d.
          (case rcb_infused_challenge_chain_ip_vdf (hb_reward_chain_block b) of
             None \<Rightarrow> reject_if (d < MIN_BLOCKS_PER_CHALLENGE_BLOCK c - 1) INVALID_ICC_VDF
           | Some info \<Rightarrow>
               rbind (unwrap AssertionError (hb_infused_challenge_chain_ip_proof b)) (\<lambda>prf.
               vbind (reject_if (d \<ge> MIN_BLOCKS_PER_CHALLENGE_BLOCK c - 1) INVALID_ICC_VDF) (\<lambda>_.
               rbind (icc_ip_start cr c blocks b p) (\<lambda>(ch, inp).
               (case inp of
                  None \<Rightarrow> Invalid INVALID_ICC_VDF
                | Some inp \<Rightarrow>
                    reject_if (\<not> vdf_valid cr c prf inp info
                       (Some \<lparr>vdf_challenge = ch, number_of_iterations = ip_vdf_iters,
                              vdf_output = vdf_output info\<rparr>)) INVALID_ICC_VDF))))))))"

definition validate_finished_header_block ::
    "crypto \<Rightarrow> ConsensusConstants \<Rightarrow> BlockCache \<Rightarrow> HeaderBlock \<Rightarrow> bool \<Rightarrow> int \<Rightarrow> int \<Rightarrow> bool \<Rightarrow> int \<Rightarrow>
     int vres" where
  "validate_finished_header_block cr c blocks b check_filter expected_difficulty expected_ssi
       check_sub_epoch_summary now =
     vbind (validate_unfinished_header_block cr c blocks (unfinished_of b) check_filter
              expected_difficulty expected_ssi False False check_sub_epoch_summary now) (\<lambda>req_iters.
     rbind (if hb_height b = 0 then Ok None
            else rbind (block_record blocks (hb_prev_header_hash b)) (\<lambda>p. Ok (Some p))) (\<lambda>prev_b.
     rbind (calculate_ip_iters c expected_ssi (rcb_signage_point_index (hb_reward_chain_block b))
              req_iters) (\<lambda>ip_it.
     vbind (check_height_weight c b prev_b expected_difficulty) (\<lambda>_.
     rbind (ip_vdf_start cr c b prev_b ip_it) (\<lambda>(rc_vdf_challenge, ip_vdf_iters, cc_vdf_output).
     vbind (check_cc_ip cr c blocks b prev_b ip_it ip_vdf_iters cc_vdf_output) (\<lambda>_.
     (let info = rcb_reward_chain_ip_vdf (hb_reward_chain_block b)
      in
      vbind (reject_if (\<not> vdf_valid cr c (hb_reward_chain_ip_proof b) get_default_element info
                (Some \<lparr>vdf_challenge = rc_vdf_challenge, number_of_iterations = ip_vdf_iters,
                       vdf_output = vdf_output info\<rparr>)) INVALID_RC_IP_VDF) (\<lambda>_.
      vbind (check_icc_ip cr c blocks b prev_b ip_vdf_iters) (\<lambda>_.
      rbind (RewardChainBlock_hash cr (hb_reward_chain_block b)) (\<lambda>h.
      vbind (reject_if (reward_block_hash (hb_foliage b) \<noteq> h) INVALID_REWARD_BLOCK_HASH) (\<lambda>_.
      vbind (reject_if ((foliage_transaction_block_hash (hb_foliage b) \<noteq> None) \<noteq>
                rcb_is_transaction_block (hb_reward_chain_block b)) INVALID_FOLIAGE_BLOCK_PRESENCE) (\<lambda>_.
        Valid req_iters))))))))))))"

section \<open>Every validation ends\<close>

lemma returns_check_position:
  assumes "heights_ok s"
  shows "returns (check_position c s hb d i sk)"
  unfolding check_position_def
  by (intro returns_rules returns_final_eos returns_can_finish assms)

text \<open>The position speaks of a stored previous block.\<close>

lemma check_position_prev:
  assumes "check_position c s hb d i sk = Valid pos"
  shows "pos_prev_b pos = block_records s (uhb_prev_header_hash hb)"
    and "pos_prev_b pos = None \<Longrightarrow> uhb_prev_header_hash hb = GENESIS_CHALLENGE c \<and> pos_height pos = 0 \<and>
           d = DIFFICULTY_STARTING c \<and> i = SUB_SLOT_ITERS_STARTING c"
    and "pos_prev_b pos = Some b \<Longrightarrow> pos_height pos = height b + 1"
    and "is_overflow_block c (rcbu_signage_point_index (uhb_reward_chain_block hb)) = Ok (pos_overflow pos)"
    and "\<not> sk \<Longrightarrow> \<not> pos_skip pos \<and> slots_since_prev pos = int (length (uhb_finished_sub_slots hb))"
  using assms
  by (auto simp: check_position_def try_block_record_eq split: option.splits if_splits)

lemma position_stored:
  assumes "heights_ok s" and "check_position c s hb d i sk = Valid pos" and "pos_prev_b pos = Some b"
  shows "stored (block_record s) b"
  using check_position_prev(1) [OF assms(2)] assms(3) bc.stored_get [OF assms(1)] by simp

lemma returns_check_sub_slot:
  assumes ok: "heights_ok s" and b: "\<And>b. pos_prev_b pos = Some b \<Longrightarrow> stored (block_record s) b"
  shows "returns (check_sub_slot cr c s slots sv pos d i x h)"
proof -
  note defs = check_slot_challenge_def check_icc_def icc_expected_def check_slot_summary_def
    check_eos_vdfs_def check_slot_deficit_def
  obtain n sub_slot where x: "x = (n, sub_slot)" by (cases x)
  show ?thesis
    unfolding check_sub_slot_def x prod.case defs
    by (intro returns_rules bc.returns_walk ok b)
qed

lemma returns_check_finished_slots:
  assumes ok: "heights_ok s" and b: "\<And>b. pos_prev_b pos = Some b \<Longrightarrow> stored (block_record s) b"
  shows "returns (check_finished_slots cr c s slots sv ses pos d i)"
  unfolding check_finished_slots_def check_sub_epoch_def
  by (intro returns_rules returns_check_sub_slot returns_make_ses ok b bc.stored_get [OF ok])

lemma returns_check_signage_point:
  assumes ok: "heights_ok s" and b: "\<And>b. pos_prev_b pos = Some b \<Longrightarrow> stored (block_record s) b"
  shows "returns (check_signage_point cr c s hb sv pos i v t)"
  unfolding check_signage_point_def check_rc_sp_def check_cc_sp_def
  by (intro returns_rules returns_get_signage_point_vdf_info bc.returns_walk ok b)

lemma returns_verify_opt [returns_rules]: "returns (verify_opt cr pk m s)"
  unfolding verify_opt_def by (intro returns_rules)

lemma returns_PoolTarget_bytes [returns_rules]: "returns (PoolTarget_bytes cr x)"
  unfolding PoolTarget_bytes_def returns_def by (rule stream_not_Diverge)

lemma returns_foliage_checks [returns_rules]:
  "returns (check_foliage_signatures cr rcb fol)" "returns (check_pool_target cr c rcb fbd pos)"
proof -
  show "returns (check_foliage_signatures cr rcb fol)"
    unfolding check_foliage_signatures_def by (intro returns_rules)
  show "returns (check_pool_target cr c rcb fbd pos)"
    unfolding check_pool_target_def pool_target_signed_by_plot_def by (intro returns_rules)
qed

lemma returns_validate_unfinished:
  assumes ok: "heights_ok s"
  shows "returns (validate_unfinished_header_block cr c s hb cf d i sk sv ses now)"
proof -
  note defs = check_block_count_def check_proof_of_space_def check_total_iters_def
    expected_total_iters_def check_is_transaction_block_def check_foliage_block_def
  show ?thesis
    unfolding validate_unfinished_header_block_def defs
    by (intro returns_rules returns_check_position returns_check_finished_slots
        returns_check_signage_point returns_get_block_challenge bc.returns_walk bc.returns_walk_acc
        position_stored [OF ok] ok)
qed

lemma returns_validate_finished:
  assumes ok: "heights_ok s"
  shows "returns (validate_finished_header_block cr c s b cf d i ses now)"
proof -
  have st: "stored (block_record s) p"
    if "(if hb_height b = 0 then Ok None
         else rbind (block_record s (hb_prev_header_hash b)) (\<lambda>p. Ok (Some p))) = Ok x" "x = Some p" for x p
    using that bc.stored_get [OF ok] by (auto split: if_splits)
  note defs = check_height_weight_def ip_vdf_start_def check_cc_ip_def check_icc_ip_def icc_ip_start_def
  show ?thesis
    unfolding validate_finished_header_block_def defs
    by (intro returns_rules returns_validate_unfinished bc.returns_walk ok st)
qed

section \<open>What an accepted header satisfies\<close>

text \<open>The stages an accepted unfinished header has passed.\<close>

lemma validate_unfinishedE:
  assumes "validate_unfinished_header_block cr c s hb cf d i sk sv ses now = Valid r"
  obtains pos v t where
    "check_position c s hb d i sk = Valid pos"
    and "check_finished_slots cr c s (uhb_finished_sub_slots hb) sv ses pos d i = Valid ()"
    and "check_block_count c s pos = Valid ()"
    and "check_proof_of_space cr c s hb pos d i = Valid v"
    and "check_total_iters c hb pos i (spv_ip_iters v) = Valid t"
    and "check_signage_point cr c s hb sv pos i v t = Valid ()"
    and "check_is_transaction_block s (uhb_foliage hb) pos i v t = Valid ()"
    and "check_foliage_signatures cr (uhb_reward_chain_block hb) (uhb_foliage hb) = Valid ()"
    and "check_pool_target cr c (uhb_reward_chain_block hb) (foliage_block_data (uhb_foliage hb)) pos = Valid ()"
    and "check_foliage_block cr c s hb cf now pos = Valid ()"
    and "r = spv_required_iters v"
  using assms unfolding validate_unfinished_header_block_def Let_def by (elim vbind_ValidE) auto

lemma check_proof_of_spaceD:
  assumes "check_proof_of_space cr c s hb pos d i = Valid v"
  shows "1 \<le> spv_required_iters v" and "spv_required_iters v < i div NUM_SPS_SUB_SLOT c"
    and "calculate_sp_iters c i (rcbu_signage_point_index (uhb_reward_chain_block hb)) = Ok (spv_sp_iters v)"
    and "calculate_ip_iters c i (rcbu_signage_point_index (uhb_reward_chain_block hb))
           (spv_required_iters v) = Ok (spv_ip_iters v)"
    and "rcbu_signage_point_index (uhb_reward_chain_block hb) < NUM_SPS_SUB_SLOT c"
    and "get_block_challenge cr c (uhb_finished_sub_slots hb) (uhb_prev_header_hash hb) s
           (genesis_block pos) (pos_overflow pos) (pos_skip pos)
         = Ok (rcbu_pos_ss_cc_challenge_hash (uhb_reward_chain_block hb))"
proof -
  from assms obtain q f z h where "calculate_iterations_quality cr f q z d h = Ok (spv_required_iters v)"
    unfolding check_proof_of_space_def Let_def by (auto split: option.splits)
  then show "1 \<le> spv_required_iters v" using iterations_quality_bounds by blast
qed (use assms in \<open>auto simp: check_proof_of_space_def Let_def sp_interval_iters_Ok split: option.splits\<close>)

lemma check_total_itersD:
  assumes "check_total_iters c hb pos i ip = Valid t"
  shows "t = rcbu_total_iters (uhb_reward_chain_block hb)"
    and "expected_total_iters c pos i ip = Ok t"
  using assms by (auto simp: check_total_iters_def)

lemma expected_total_itersD:
  assumes "expected_total_iters c pos i ip = Ok t"
  shows "(case pos_prev_b pos of
            None \<Rightarrow> t = i * slots_since_prev pos + ip
          | Some p \<Rightarrow> \<exists>q. ip_iters c p = Ok q \<and>
              t = (if new_sub_slot pos
                   then total_iters p + (sub_slot_iters p - q) + i * (slots_since_prev pos - 1) + ip
                   else total_iters p - q + ip))"
  using assms by (auto simp: expected_total_iters_def split: option.splits if_splits)

text \<open>The total iterations of an accepted block are those of the previous block, less its position in
  its slot, plus the slots finished since and the new position.\<close>

lemma accepted_total_iters:
  assumes v: "validate_unfinished_header_block cr c s hb cf d i False sv ses now = Valid r"
  obtains ip where
    "calculate_ip_iters c i (rcbu_signage_point_index (uhb_reward_chain_block hb)) r = Ok ip"
    and "case block_records s (uhb_prev_header_hash hb) of
           None \<Rightarrow> rcbu_total_iters (uhb_reward_chain_block hb)
                     = i * int (length (uhb_finished_sub_slots hb)) + ip
         | Some p \<Rightarrow> \<exists>q. ip_iters c p = Ok q \<and>
             rcbu_total_iters (uhb_reward_chain_block hb)
               = (if uhb_finished_sub_slots hb \<noteq> []
                  then total_iters p + (sub_slot_iters p - q)
                         + i * (int (length (uhb_finished_sub_slots hb)) - 1) + ip
                  else total_iters p - q + ip)"
proof -
  from v obtain pos w t where 1: "check_position c s hb d i False = Valid pos"
      and 2: "check_proof_of_space cr c s hb pos d i = Valid w"
      and 3: "check_total_iters c hb pos i (spv_ip_iters w) = Valid t"
      and r: "r = spv_required_iters w"
    by (rule validate_unfinishedE)
  have p: "pos_prev_b pos = block_records s (uhb_prev_header_hash hb)"
      "slots_since_prev pos = int (length (uhb_finished_sub_slots hb))"
    using check_position_prev [OF 1] by simp_all
  show thesis
  proof (rule that [OF check_proof_of_spaceD(4) [OF 2, folded r]])
    have "0 < slots_since_prev pos \<longleftrightarrow> uhb_finished_sub_slots hb \<noteq> []" by (simp add: p(2))
    then show "case block_records s (uhb_prev_header_hash hb) of
           None \<Rightarrow> rcbu_total_iters (uhb_reward_chain_block hb)
                     = i * int (length (uhb_finished_sub_slots hb)) + spv_ip_iters w
         | Some p \<Rightarrow> \<exists>q. ip_iters c p = Ok q \<and>
             rcbu_total_iters (uhb_reward_chain_block hb)
               = (if uhb_finished_sub_slots hb \<noteq> []
                  then total_iters p + (sub_slot_iters p - q)
                         + i * (int (length (uhb_finished_sub_slots hb)) - 1) + spv_ip_iters w
                  else total_iters p - q + spv_ip_iters w)"
      using check_total_itersD(1) [OF 3] expected_total_itersD [OF check_total_itersD(2) [OF 3]]
      unfolding p by (auto split: option.splits)
  qed
qed

text \<open>The timestamps of transaction blocks increase and stay near the local clock.\<close>

lemma accepted_timestamp:
  assumes v: "validate_unfinished_header_block cr c s hb cf d i sk sv ses now = Valid r"
    and f: "uhb_foliage_transaction_block hb = Some f"
  shows "ftb_timestamp f \<le> now + MAX_FUTURE_TIME c"
    and "block_records s (uhb_prev_header_hash hb) = Some p \<Longrightarrow>
         \<exists>q t. block_records s (ftb_prev_transaction_block_hash f) = Some q \<and> timestamp q = Some t \<and>
           t < ftb_timestamp f"
proof -
  from v obtain pos where 1: "check_position c s hb d i sk = Valid pos"
      and 2: "check_foliage_block cr c s hb cf now pos = Valid ()"
    by (rule validate_unfinishedE)
  from 2 f show "ftb_timestamp f \<le> now + MAX_FUTURE_TIME c"
    by (auto simp: check_foliage_block_def Let_def)
  show "\<exists>q t. block_records s (ftb_prev_transaction_block_hash f) = Some q \<and> timestamp q = Some t \<and>
      t < ftb_timestamp f" if "block_records s (uhb_prev_header_hash hb) = Some p"
    using 2 f that check_position_prev(1) [OF 1] by (auto simp: check_foliage_block_def Let_def)
qed

text \<open>The previous transaction block named by the foliage is the nearest one on the chain.\<close>

lemma accepted_prev_transaction_block:
  assumes ok: "heights_ok s"
    and v: "validate_unfinished_header_block cr c s hb cf d i sk sv ses now = Valid r"
    and f: "uhb_foliage_transaction_block hb = Some f"
    and p: "block_records s (uhb_prev_header_hash hb) = Some p"
  shows "\<exists>q. ancestor (block_record s) p q \<and> is_transaction_block q \<and>
           header_hash q = ftb_prev_transaction_block_hash f \<and>
           (\<forall>y. ancestor (block_record s) p y \<and> height q < height y \<longrightarrow> \<not> is_transaction_block y)"
proof -
  from v obtain pos where 1: "check_position c s hb d i sk = Valid pos"
      and 2: "check_foliage_block cr c s hb cf now pos = Valid ()"
    by (rule validate_unfinishedE)
  have pos: "pos_prev_b pos = Some p" using check_position_prev(1) [OF 1] p by simp
  from 2 f pos obtain q where q: "walk (block_record s) (\<lambda>b. \<not> is_transaction_block b) p = Ok q"
      "header_hash q = ftb_prev_transaction_block_hash f"
    by (auto simp: check_foliage_block_def Let_def)
  from bc.walk_stops [OF ok position_stored [OF ok 1 pos] q(1)] q(2) show ?thesis by blast
qed

text \<open>A block is a transaction block exactly if its signage point lies past the infusion point of the
  last transaction block below it.\<close>

lemma accepted_is_transaction_block:
  assumes ok: "heights_ok s"
    and v: "validate_unfinished_header_block cr c s hb cf d i False sv ses now = Valid r"
    and p: "block_records s (uhb_prev_header_hash hb) = Some p"
  shows "\<exists>q ip sp ovf. ancestor (block_record s) p q \<and> is_transaction_block q \<and>
           (\<forall>y. ancestor (block_record s) p y \<and> height q < height y \<longrightarrow> \<not> is_transaction_block y) \<and>
           is_overflow_block c (rcbu_signage_point_index (uhb_reward_chain_block hb)) = Ok ovf \<and>
           calculate_sp_iters c i (rcbu_signage_point_index (uhb_reward_chain_block hb)) = Ok sp \<and>
           calculate_ip_iters c i (rcbu_signage_point_index (uhb_reward_chain_block hb)) r = Ok ip \<and>
           (uhb_foliage_transaction_block hb \<noteq> None \<longleftrightarrow>
              rcbu_total_iters (uhb_reward_chain_block hb) - ip + sp - (if ovf then i else 0)
                > total_iters q)"
proof -
  from v obtain pos w t where 1: "check_position c s hb d i False = Valid pos"
      and 2: "check_proof_of_space cr c s hb pos d i = Valid w"
      and 3: "check_total_iters c hb pos i (spv_ip_iters w) = Valid t"
      and 4: "check_is_transaction_block s (uhb_foliage hb) pos i w t = Valid ()"
      and 5: "check_foliage_block cr c s hb cf now pos = Valid ()"
      and r: "r = spv_required_iters w"
    by (rule validate_unfinishedE)
  have pos: "pos_prev_b pos = Some p" using check_position_prev(1) [OF 1] p by simp
  from 4 pos obtain q where q: "walk (block_record s) (\<lambda>b. \<not> is_transaction_block b) p = Ok q"
      and tx: "t - spv_ip_iters w + spv_sp_iters w - (if pos_overflow pos then i else 0) > total_iters q
               \<longleftrightarrow> foliage_transaction_block_hash (uhb_foliage hb) \<noteq> None"
    by (auto simp: check_is_transaction_block_def split: if_splits)
  have "foliage_transaction_block_hash (uhb_foliage hb) \<noteq> None \<longleftrightarrow> uhb_foliage_transaction_block hb \<noteq> None"
    using 5 by (auto simp: check_foliage_block_def Let_def)
  with tx check_total_itersD(1) [OF 3] check_proof_of_spaceD(3,4) [OF 2] check_position_prev(4) [OF 1]
    bc.walk_stops [OF ok position_stored [OF ok 1 pos] q]
  show ?thesis by (auto simp: r)
qed

lemma vdf_valid_target: "VDFProof_is_valid cr m n p inp info (Some t) \<Longrightarrow> info = t"
  by (auto simp: VDFProof_is_valid_def split: if_splits)

text \<open>Each finished sub-slot is bound to the one before it, and its reward chain to its challenge chain.\<close>

lemma accepted_slots_linked:
  assumes v: "validate_unfinished_header_block cr c s hb cf d i False sv ses now = Valid r"
    and n: "n < length (uhb_finished_sub_slots hb)"
    and sl: "sl = uhb_finished_sub_slots hb ! n"
  shows "ChallengeChainSubSlot_hash cr (challenge_chain sl)
           = Ok (challenge_chain_sub_slot_hash (reward_chain sl))"
    and "0 < n \<Longrightarrow> ChallengeChainSubSlot_hash cr (challenge_chain (uhb_finished_sub_slots hb ! (n - 1)))
           = Ok (vdf_challenge (challenge_chain_end_of_slot_vdf (challenge_chain sl)))"
    and "0 < n \<Longrightarrow> subepoch_summary_hash (challenge_chain sl) = None"
    and "0 < n \<Longrightarrow> \<not> sv \<Longrightarrow> \<exists>h. RewardChainSubSlot_hash cr (reward_chain (uhb_finished_sub_slots hb ! (n - 1))) = Ok h
           \<and> vdf_challenge (end_of_slot_vdf (reward_chain sl)) = h"
proof -
  let ?slots = "uhb_finished_sub_slots hb"
  from v obtain pos where 1: "check_position c s hb d i False = Valid pos"
      and 2: "check_finished_slots cr c s ?slots sv ses pos d i = Valid ()"
    by (rule validate_unfinishedE)
  have "new_sub_slot pos \<and> \<not> pos_skip pos" using check_position_prev(5) [OF 1] n by auto
  with 2 obtain h where f: "vfold (check_sub_slot cr c s ?slots sv pos d i) (List.enumerate 0 ?slots) None = Valid h"
    by (auto simp: check_finished_slots_def)
  have m: "(n, sl) \<in> set (List.enumerate 0 ?slots)"
    using n by (simp add: sl in_set_enumerate_eq)
  from vfold_all [OF f m, of "\<lambda>_. \<exists>u v. check_sub_slot cr c s ?slots sv pos d i (n, sl) u = Valid v"]
  obtain u w where x: "check_sub_slot cr c s ?slots sv pos d i (n, sl) u = Valid w" by blast
  have a: "check_slot_challenge cr c s ?slots pos n
      (vdf_challenge (challenge_chain_end_of_slot_vdf (challenge_chain sl))) = Valid ()"
    and b: "check_eos_vdfs cr c ?slots sv pos i n sl = Valid ()"
    and e: "\<exists>u w. check_slot_summary pos d i n (challenge_chain sl) u = Valid w"
    using x unfolding check_sub_slot_def by auto
  show "ChallengeChainSubSlot_hash cr (challenge_chain sl) = Ok (challenge_chain_sub_slot_hash (reward_chain sl))"
    using b unfolding check_eos_vdfs_def Let_def by auto
  show "ChallengeChainSubSlot_hash cr (challenge_chain (?slots ! (n - 1)))
      = Ok (vdf_challenge (challenge_chain_end_of_slot_vdf (challenge_chain sl)))" if "0 < n"
    using a that unfolding check_slot_challenge_def by auto
  show "subepoch_summary_hash (challenge_chain sl) = None" if "0 < n"
    using e that unfolding check_slot_summary_def Let_def by auto
  show "\<exists>h. RewardChainSubSlot_hash cr (reward_chain (?slots ! (n - 1))) = Ok h
      \<and> vdf_challenge (end_of_slot_vdf (reward_chain sl)) = h" if "0 < n" "\<not> sv"
    using b that unfolding check_eos_vdfs_def Let_def
    by (auto dest!: vdf_valid_target) (metis VDFInfo.select_convs(1))+
qed

section \<open>What an accepted finished block satisfies\<close>

lemma validate_finishedE:
  assumes "validate_finished_header_block cr c s b cf d i ses now = Valid r"
  obtains prev_b ip rc_ch n out where
    "validate_unfinished_header_block cr c s (unfinished_of b) cf d i False False ses now = Valid r"
    and "(if hb_height b = 0 then prev_b = None else prev_b = block_records s (hb_prev_header_hash b) \<and> prev_b \<noteq> None)"
    and "calculate_ip_iters c i (rcb_signage_point_index (hb_reward_chain_block b)) r = Ok ip"
    and "check_height_weight c b prev_b d = Valid ()"
    and "ip_vdf_start cr c b prev_b ip = Ok (rc_ch, n, out)"
    and "check_cc_ip cr c s b prev_b ip n out = Valid ()"
    and "vdf_valid cr c (hb_reward_chain_ip_proof b) get_default_element
           (rcb_reward_chain_ip_vdf (hb_reward_chain_block b))
           (Some \<lparr>vdf_challenge = rc_ch, number_of_iterations = n,
                  vdf_output = vdf_output (rcb_reward_chain_ip_vdf (hb_reward_chain_block b))\<rparr>)"
    and "check_icc_ip cr c s b prev_b n = Valid ()"
    and "RewardChainBlock_hash cr (hb_reward_chain_block b) = Ok (reward_block_hash (hb_foliage b))"
    and "rcb_is_transaction_block (hb_reward_chain_block b)
           \<longleftrightarrow> foliage_transaction_block_hash (hb_foliage b) \<noteq> None"
  using assms unfolding validate_finished_header_block_def Let_def
  by (elim vbind_ValidE rbind_OkE) (auto split: if_splits prod.splits)

lemma accepted_height_weight:
  assumes "validate_finished_header_block cr c s b cf d i ses now = Valid r"
  shows "(hb_height b = 0 \<and> hb_weight b = DIFFICULTY_STARTING c \<and>
            hb_prev_header_hash b = GENESIS_CHALLENGE c) \<or>
         (\<exists>p. block_records s (hb_prev_header_hash b) = Some p \<and> hb_height b \<noteq> 0 \<and>
            hb_height b = height p + 1 \<and> hb_weight b = weight p + d)"
  using assms
  by (elim validate_finishedE) (auto simp: check_height_weight_def split: if_splits option.splits)

text \<open>The header hash fixes the foliage, which fixes the other parts of an accepted block.\<close>

lemma accepted_commits:
  assumes "validate_finished_header_block cr c s b cf d i ses now = Valid r"
  shows "RewardChainBlock_hash cr (hb_reward_chain_block b) = Ok (reward_block_hash (hb_foliage b))"
    and "hb_foliage_transaction_block b = Some f \<Longrightarrow>
         \<exists>h. FoliageTransactionBlock_hash cr f = Ok h \<and> foliage_transaction_block_hash (hb_foliage b) = Some h"
    and "hb_foliage_transaction_block b = None \<longleftrightarrow> foliage_transaction_block_hash (hb_foliage b) = None"
proof -
  from assms show "RewardChainBlock_hash cr (hb_reward_chain_block b) = Ok (reward_block_hash (hb_foliage b))"
    by (rule validate_finishedE)
  from assms have "validate_unfinished_header_block cr c s (unfinished_of b) cf d i False False ses now = Valid r"
    by (rule validate_finishedE)
  then obtain pos where f: "check_foliage_block cr c s (unfinished_of b) cf now pos = Valid ()"
    by (rule validate_unfinishedE)
  then show "hb_foliage_transaction_block b = Some f \<Longrightarrow>
      \<exists>h. FoliageTransactionBlock_hash cr f = Ok h \<and> foliage_transaction_block_hash (hb_foliage b) = Some h"
    by (auto simp: check_foliage_block_def unfinished_of_def Let_def)
  from f show "hb_foliage_transaction_block b = None \<longleftrightarrow> foliage_transaction_block_hash (hb_foliage b) = None"
    by (auto simp: check_foliage_block_def unfinished_of_def Let_def)
qed

section \<open>Accepted blocks extend the chain\<close>

definition genesis_ok :: "ConsensusConstants \<Rightarrow> BlockCache \<Rightarrow> bool" where
  "genesis_ok c s \<longleftrightarrow> block_records s (GENESIS_CHALLENGE c) = None \<and>
     (\<forall>h g. block_records s h = Some g \<longrightarrow> height g = 0 \<longrightarrow> prev_hash g = GENESIS_CHALLENGE c)"

lemma block_to_block_record_agrees:
  assumes "block_to_block_record cr c s r (Some b) None = Ok br"
  shows "prev_hash br = hb_prev_header_hash b" and "height br = hb_height b"
    and "weight br = hb_weight b" and "total_iters br = hb_total_iters b"
    and "hb_header_hash cr b = Ok (header_hash br)" and "required_iters br = r"
  using assms by (elim block_to_block_record_parts; auto dest: block_record_agrees)+

lemma accepted_block_extends_chain:
  assumes ok: "chain_ok s" and g: "genesis_ok c s"
    and v: "validate_finished_header_block cr c s b cf d i ses now = Valid r"
    and br: "block_to_block_record cr c s r (Some b) None = Ok br"
    and fresh: "block_records s (header_hash br) = None" and ng: "header_hash br \<noteq> GENESIS_CHALLENGE c"
  shows "chain_ok (add_block_record s br)" and "genesis_ok c (add_block_record s br)"
proof -
  note a = block_to_block_record_agrees [OF br]
  note hw = accepted_height_weight [OF v, folded a]
  have no_loop: "prev_hash br \<noteq> header_hash br" using hw fresh ng by auto
  have h0: "0 \<le> height p" if "block_records s h = Some p" for p h
    using that ok unfolding chain_ok_def heights_ok_def by blast
  show "chain_ok (add_block_record s br)"
  proof (rule add_block_record_chain_ok [OF ok fresh _ _ no_loop])
    show "height br = 0 \<and> block_records s (prev_hash br) = None \<or>
        (\<exists>p. block_records s (prev_hash br) = Some p \<and> 0 < height br \<and> height br = height p + 1)"
      using hw g h0 by (auto simp: genesis_ok_def dest: h0)
    show "prev_hash g \<noteq> header_hash br" if "block_records s h = Some g" "height g = 0" for h g
      using that g ng by (auto simp: genesis_ok_def)
  qed
  show "genesis_ok c (add_block_record s br)"
    using g hw ng by (auto simp: genesis_ok_def add_block_record_def)
qed

section \<open>Skipping the VDF proofs only accepts more\<close>

lemma check_sub_slot_skip:
  "accepts_more (check_sub_slot cr c s slots False pos d i x u) (check_sub_slot cr c s slots True pos d i x u)"
proof -
  obtain n sl where x: "x = (n, sl)" by (cases x)
  show ?thesis
    unfolding check_sub_slot_def x prod.case check_icc_def check_eos_vdfs_def
    by (intro accepts_rules) simp_all
qed

lemma check_finished_slots_skip [accepts_rules]:
  "accepts_more (check_finished_slots cr c s slots False ses pos d i)
     (check_finished_slots cr c s slots True ses pos d i)"
  unfolding check_finished_slots_def by (intro accepts_rules check_sub_slot_skip)

lemma check_signage_point_skip [accepts_rules]:
  "accepts_more (check_signage_point cr c s hb False pos i v t) (check_signage_point cr c s hb True pos i v t)"
  unfolding check_signage_point_def check_rc_sp_def check_cc_sp_def
  by (intro accepts_rules) simp_all

lemma validate_unfinished_skip_vdf:
  assumes "validate_unfinished_header_block cr c s hb cf d i sk False ses now = Valid r"
  shows "validate_unfinished_header_block cr c s hb cf d i sk True ses now = Valid r"
proof -
  have "accepts_more (validate_unfinished_header_block cr c s hb cf d i sk False ses now)
      (validate_unfinished_header_block cr c s hb cf d i sk True ses now)"
    unfolding validate_unfinished_header_block_def by (intro accepts_rules)
  then show ?thesis using assms by (rule accepts_moreD)
qed

end
