(* ===== verification/Sample_Chain.thy ===== *)
theory Sample_Chain
  imports Header_Validation
begin

text \<open>
  A concrete chain of two blocks on the default constants, with a toy instance of the primitives
  (a hash with two values, signatures and VDF proofs that always verify), on which the validation
  functions evaluate. It shows that the hypotheses of the theorems about accepted blocks hold.
\<close>

section \<open>The primitives\<close>

definition toy_hash :: "bytes \<Rightarrow> bytes" where
  "toy_hash b =
     (if b \<noteq> [] \<and> hd b = hd (GENESIS_CHALLENGE DEFAULT_CONSTANTS) then replicate 32 1 else replicate 32 2)"

definition toy :: crypto where
  "toy =
     \<lparr>hash256 = toy_hash,
      aug_verify = (\<lambda>_ _ _. True),
      aggregate_verify = (\<lambda>_ _ _. True),
      bls_aggregate = (\<lambda>_. replicate 96 0),
      bip158_encoded = (\<lambda>_. []),
      create_discriminant = (\<lambda>_ _. Some 7),
      verify_n_wesolowski = (\<lambda>_ _ _ _ _ _. Some True),
      validate_proof = (\<lambda>_ _ _ _. replicate 32 0),
      bitarray_prefix_uint = (\<lambda>_ _. Some 0),
      clvm_int_to_bytes = (\<lambda>_. []),
      clvm_int_from_bytes = (\<lambda>_. 0),
      ext_valid = (\<lambda>_ _. True)\<rparr>"

abbreviation G :: bytes where "G \<equiv> GENESIS_CHALLENGE DEFAULT_CONSTANTS"

definition zero_proof :: VDFProof where
  "zero_proof = \<lparr>witness_type = 0, witness = [], normalized_to_identity = False\<rparr>"

definition plot :: ProofOfSpace where
  "plot =
     \<lparr>pos_challenge = replicate 32 2, pool_public_key = Some (replicate 48 0),
      pool_contract_puzzle_hash = None, plot_public_key = replicate 48 0, pos_size = 32, pos_proof = []\<rparr>"

definition vdf_to :: "bytes \<Rightarrow> int \<Rightarrow> VDFInfo" where
  "vdf_to ch n = \<lparr>vdf_challenge = ch, number_of_iterations = n, vdf_output = get_default_element\<rparr>"

section \<open>The genesis block and the block after it\<close>

definition genesis_ti :: TransactionsInfo where
  "genesis_ti =
     \<lparr>generator_root = replicate 32 0, generator_refs_root = replicate 32 1,
      ti_aggregated_signature = replicate 96 0, ti_fees = 0, ti_cost = 0, ti_reward_claims_incorporated = []\<rparr>"

definition genesis_b :: HeaderBlock where
  "genesis_b =
     \<lparr>hb_finished_sub_slots = [],
      hb_reward_chain_block =
        \<lparr>rcb_weight = 1, rcb_height = 0, rcb_total_iters = 6291457, rcb_signage_point_index = 0,
         rcb_pos_ss_cc_challenge_hash = G, rcb_proof_of_space = plot,
         rcb_challenge_chain_sp_vdf = None, rcb_challenge_chain_sp_signature = replicate 96 0,
         rcb_challenge_chain_ip_vdf = vdf_to G 6291457,
         rcb_reward_chain_sp_vdf = None, rcb_reward_chain_sp_signature = replicate 96 0,
         rcb_reward_chain_ip_vdf = vdf_to G 6291457,
         rcb_infused_challenge_chain_ip_vdf = None, rcb_is_transaction_block = True\<rparr>,
      hb_challenge_chain_sp_proof = None, hb_challenge_chain_ip_proof = zero_proof,
      hb_reward_chain_sp_proof = None, hb_reward_chain_ip_proof = zero_proof,
      hb_infused_challenge_chain_ip_proof = None,
      hb_foliage =
        \<lparr>prev_block_hash = G, reward_block_hash = replicate 32 2,
         foliage_block_data =
           \<lparr>unfinished_reward_block_hash = replicate 32 2,
            pool_target = \<lparr>pt_puzzle_hash = GENESIS_PRE_FARM_POOL_PUZZLE_HASH DEFAULT_CONSTANTS, max_height = 0\<rparr>,
            pool_signature = None,
            farmer_reward_puzzle_hash = GENESIS_PRE_FARM_FARMER_PUZZLE_HASH DEFAULT_CONSTANTS,
            extension_data = replicate 32 0\<rparr>,
         foliage_block_data_signature = replicate 96 0,
         foliage_transaction_block_hash = Some (replicate 32 1),
         foliage_transaction_block_signature = Some (replicate 96 0)\<rparr>,
      hb_foliage_transaction_block =
        Some \<lparr>ftb_prev_transaction_block_hash = G, ftb_timestamp = 1000, filter_hash = replicate 32 2,
              additions_root = replicate 32 0, removals_root = replicate 32 0,
              transactions_info_hash = replicate 32 2\<rparr>,
      hb_transactions_filter = [], hb_transactions_info = Some genesis_ti\<rparr>"

definition genesis_r :: BlockRecord where
  "genesis_r =
     \<lparr>header_hash = replicate 32 1, prev_hash = G, height = 0, weight = 1, total_iters = 6291457,
      signage_point_index = 0, challenge_vdf_output = get_default_element,
      infused_challenge_vdf_output = None, reward_infusion_new_challenge = replicate 32 2,
      challenge_block_info_hash = replicate 32 2, sub_slot_iters = 2 ^ 27,
      pool_puzzle_hash = GENESIS_PRE_FARM_POOL_PUZZLE_HASH DEFAULT_CONSTANTS,
      farmer_puzzle_hash = GENESIS_PRE_FARM_FARMER_PUZZLE_HASH DEFAULT_CONSTANTS,
      required_iters = 1, deficit = 15, overflow = False, prev_transaction_block_height = 0,
      timestamp = Some 1000, prev_transaction_block_hash = Some G, fees = Some 0,
      reward_claims_incorporated = Some [], finished_challenge_slot_hashes = Some [G],
      finished_infused_challenge_slot_hashes = None, finished_reward_slot_hashes = Some [G],
      sub_epoch_summary_included = None\<rparr>"

definition next_b :: HeaderBlock where
  "next_b =
     \<lparr>hb_finished_sub_slots = [],
      hb_reward_chain_block =
        \<lparr>rcb_weight = 2, rcb_height = 1, rcb_total_iters = 16777217, rcb_signage_point_index = 5,
         rcb_pos_ss_cc_challenge_hash = G, rcb_proof_of_space = plot,
         rcb_challenge_chain_sp_vdf = Some (vdf_to G 10485760),
         rcb_challenge_chain_sp_signature = replicate 96 0,
         rcb_challenge_chain_ip_vdf = vdf_to G 16777217,
         rcb_reward_chain_sp_vdf = Some (vdf_to (replicate 32 2) 4194303),
         rcb_reward_chain_sp_signature = replicate 96 0,
         rcb_reward_chain_ip_vdf = vdf_to (replicate 32 2) 10485760,
         rcb_infused_challenge_chain_ip_vdf = Some (vdf_to (replicate 32 2) 10485760),
         rcb_is_transaction_block = True\<rparr>,
      hb_challenge_chain_sp_proof = Some zero_proof, hb_challenge_chain_ip_proof = zero_proof,
      hb_reward_chain_sp_proof = Some zero_proof, hb_reward_chain_ip_proof = zero_proof,
      hb_infused_challenge_chain_ip_proof = Some zero_proof,
      hb_foliage =
        \<lparr>prev_block_hash = replicate 32 1, reward_block_hash = replicate 32 2,
         foliage_block_data =
           \<lparr>unfinished_reward_block_hash = replicate 32 2,
            pool_target = \<lparr>pt_puzzle_hash = replicate 32 0, max_height = 0\<rparr>,
            pool_signature = Some (replicate 96 0), farmer_reward_puzzle_hash = replicate 32 0,
            extension_data = replicate 32 0\<rparr>,
         foliage_block_data_signature = replicate 96 0,
         foliage_transaction_block_hash = Some (replicate 32 2),
         foliage_transaction_block_signature = Some (replicate 96 0)\<rparr>,
      hb_foliage_transaction_block =
        Some \<lparr>ftb_prev_transaction_block_hash = replicate 32 1, ftb_timestamp = 1020,
              filter_hash = replicate 32 2,
              additions_root = replicate 32 0, removals_root = replicate 32 0,
              transactions_info_hash = replicate 32 0\<rparr>,
      hb_transactions_filter = [], hb_transactions_info = None\<rparr>"

definition empty_cache :: BlockCache where
  "empty_cache = init_BlockCache Map.empty Map.empty Map.empty []"

definition genesis_cache :: BlockCache where
  "genesis_cache = add_block_record empty_cache genesis_r"

section \<open>Values\<close>

lemma default_values [simp]:
  "NUM_SPS_SUB_SLOT DEFAULT_CONSTANTS = 64" "NUM_SP_INTERVALS_EXTRA DEFAULT_CONSTANTS = 3"
  "DIFFICULTY_STARTING DEFAULT_CONSTANTS = 1" "SUB_SLOT_ITERS_STARTING DEFAULT_CONSTANTS = 134217728"
  "MIN_PLOT_SIZE DEFAULT_CONSTANTS = 32" "MAX_PLOT_SIZE DEFAULT_CONSTANTS = 50"
  "MAX_VDF_WITNESS_SIZE DEFAULT_CONSTANTS = 64" "MAX_FUTURE_TIME DEFAULT_CONSTANTS = 300"
  "DIFFICULTY_CONSTANT_FACTOR DEFAULT_CONSTANTS = 2 ^ 29"
  "MIN_BLOCKS_PER_CHALLENGE_BLOCK DEFAULT_CONSTANTS = 16" "MAX_SUB_SLOT_BLOCKS DEFAULT_CONSTANTS = 128"
  "SUB_EPOCH_BLOCKS DEFAULT_CONSTANTS = 384" "EPOCH_BLOCKS DEFAULT_CONSTANTS = 4608"
  "length G = 32" "G \<noteq> []" "hd G = 227"
  "length (GENESIS_PRE_FARM_POOL_PUZZLE_HASH DEFAULT_CONSTANTS) = 32"
  "length (GENESIS_PRE_FARM_FARMER_PUZZLE_HASH DEFAULT_CONSTANTS) = 32"
  by (simp_all add: DEFAULT_CONSTANTS_def)

lemma replicate32_not_G [simp]:
  "replicate 32 x = G \<longleftrightarrow> False" "G = replicate 32 x \<longleftrightarrow> False"
proof -
  have "replicate 32 x \<noteq> G"
  proof
    assume e: "replicate 32 x = G"
    have "hd (replicate 32 x) = x" "replicate 32 x ! 1 = x" by simp_all
    then have "hd G = G ! 1" unfolding e by simp
    then show False by (simp add: DEFAULT_CONSTANTS_def)
  qed
  then show "replicate 32 x = G \<longleftrightarrow> False" "G = replicate 32 x \<longleftrightarrow> False" by auto
qed

lemma toy_simps [simp]:
  "hash256 toy = toy_hash" "aug_verify toy pk m sg" "create_discriminant toy ch sz = Some 7"
  "verify_n_wesolowski toy d1 i1 o1 n1 s1 w1 = Some True"
  "validate_proof toy id1 k1 c1 p1 = replicate 32 0"
  "bitarray_prefix_uint toy h1 n1 = Some 0" "ext_valid toy nm b"
  by (simp_all add: toy_def)

lemma toy_std_hash [simp]: "std_hash toy b = Ok (toy_hash b)"
  by (simp add: std_hash_def toy_hash_def)

lemma toy_hash_simps [simp]:
  "toy_hash [] = replicate 32 2" "toy_hash (b # bs) = (if b = 227 then replicate 32 1 else replicate 32 2)"
  "toy_hash (G @ bs) = replicate 32 1"
  "toy_hash (replicate 32 x @ bs) = (if x = 227 then replicate 32 1 else replicate 32 2)"
  "toy_hash (replicate 48 x @ bs) = (if x = 227 then replicate 32 1 else replicate 32 2)"
  "toy_hash (replicate 32 x) = (if x = 227 then replicate 32 1 else replicate 32 2)"
  by (simp_all add: toy_hash_def)

lemma be_bytes_nonempty: "0 < n \<Longrightarrow> be_bytes n v \<noteq> []"
  by (metis length_0_conv length_be_bytes less_numeral_extra(3))

lemma hd_be_bytes: "hd (be_bytes (Suc n) v) = word_of_nat (v div 256 ^ n)"
proof (induction n arbitrary: v)
  case 0
  show ?case by simp
next
  case (Suc n)
  have "hd (be_bytes (Suc (Suc n)) v) = hd (be_bytes (Suc n) (v div 256))"
    by (subst be_bytes.simps(2)) (simp only: hd_append be_bytes_nonempty zero_less_Suc if_False)
  then show ?case by (simp only: Suc.IH) (simp add: div_mult2_eq)
qed

lemma toy_hash_be_bytes [simp]:
  assumes "v < 256 ^ 15"
  shows "toy_hash (be_bytes 16 v @ bs) = replicate 32 2"
proof -
  have "be_bytes 16 v \<noteq> []" by (simp add: be_bytes_nonempty)
  moreover have "hd (be_bytes 16 v) = 0" using hd_be_bytes [of 15 v] assms by simp
  ultimately show ?thesis by (simp add: toy_hash_def hd_append)
qed

lemma size_hints_G [simp]:
  "size_hints ''G1Element'' = Some 48" "size_hints ''G2Element'' = Some 96"
  by (simp_all add: size_hints_def)

lemmas toy_hash_defs =
  get_hash_def rbind_assoc FoliageBlockData_hash_def Foliage_hash_def RewardChainBlock_hash_def
  RewardChainBlockUnfinished_hash_def FoliageTransactionBlock_hash_def FoliageBlockData_val_def
  FoliageBlockData_type_def Foliage_val_def Foliage_type_def PoolTarget_val_def PoolTarget_type_def VDFInfo_val_def
  VDFInfo_type_def ClassgroupElement_val_def ClassgroupElement_type_def get_default_element_def
  ProofOfSpace_val_def ProofOfSpace_type_def plot_def vdf_to_def ChallengeBlockInfo_hash_def
  ClassgroupElement_hash_def RewardChainBlock_type_def RewardChainBlock_val_def
  FoliageTransactionBlock_type_def FoliageTransactionBlock_val_def

lemma genesis_hashes:
  "FoliageBlockData_hash toy (foliage_block_data (hb_foliage genesis_b)) = Ok (replicate 32 2)"
  "RewardChainBlock_hash toy (hb_reward_chain_block genesis_b) = Ok (replicate 32 2)"
  "RewardChainBlockUnfinished_hash toy (get_unfinished (hb_reward_chain_block genesis_b)) = Ok (replicate 32 2)"
  "FoliageTransactionBlock_hash toy (the (hb_foliage_transaction_block genesis_b)) = Ok (replicate 32 1)"
  "Foliage_hash toy (hb_foliage genesis_b) = Ok (replicate 32 1)"
  by (simp_all add: genesis_b_def get_unfinished_def toy_hash_defs)

lemma next_hashes:
  "FoliageBlockData_hash toy (foliage_block_data (hb_foliage next_b)) = Ok (replicate 32 2)"
  "RewardChainBlock_hash toy (hb_reward_chain_block next_b) = Ok (replicate 32 2)"
  "RewardChainBlockUnfinished_hash toy (get_unfinished (hb_reward_chain_block next_b)) = Ok (replicate 32 2)"
  "FoliageTransactionBlock_hash toy (the (hb_foliage_transaction_block next_b)) = Ok (replicate 32 2)"
  "Foliage_hash toy (hb_foliage next_b) = Ok (replicate 32 2)"
  by (simp_all add: next_b_def get_unfinished_def toy_hash_defs)

lemma plot_hashes:
  "verify_and_get_quality_string toy 32 50 z plot ch sp = Ok (Some (replicate 32 0))"
  "calculate_iterations_quality toy (2 ^ 29) (replicate 32 0) 32 1 sp = Ok 1"
proof -
  show "verify_and_get_quality_string toy 32 50 z plot ch sp = Ok (Some (replicate 32 0))"
    by (simp add: verify_and_get_quality_string_def plot_def get_plot_id_def calculate_plot_id_pk_def
        calculate_pos_challenge_def calculate_plot_filter_input_def passes_plot_filter_def
        get_quality_string_def)
  have "calculate_iterations_quality toy (2 ^ 29) (replicate 32 0) 32 1 sp = Ok n \<Longrightarrow> n = 1" for n
    using iterations_quality_upper [of toy "2 ^ 29" "replicate 32 0" 32 1 sp n]
      iterations_quality_bounds [of toy "2 ^ 29" "replicate 32 0" 32 1 sp n]
    by (simp add: expected_plot_size_def)
  moreover have "\<exists>n. calculate_iterations_quality toy (2 ^ 29) (replicate 32 0) 32 1 sp = Ok n"
  proof -
    have l: "length (toy_hash (replicate 32 0 @ sp)) = 32" by simp
    have "int (be_nat (toy_hash (replicate 32 0 @ sp))) < 2 ^ 256"
      using be_nat_less [of "toy_hash (replicate 32 0 @ sp)"] unfolding l by simp
    then show ?thesis
      by (simp add: calculate_iterations_quality_def expected_plot_size_def div_less_dividend
          less_mult_imp_div_less int_div_less_self zdiv_mono1 div_int_pos_iff)
  qed
  ultimately show "calculate_iterations_quality toy (2 ^ 29) (replicate 32 0) 32 1 sp = Ok 1" by blast
qed

section \<open>The genesis block is accepted\<close>

lemmas toy_validation_defs =
  try_block_record_eq empty_cache_def init_BlockCache_def unfinished_of_def get_unfinished_def
  is_overflow_block_def calculate_sp_interval_iters_def calculate_sp_iters_def calculate_ip_iters_def
  VDFProof_is_valid_def vdf_two_ways_def get_discriminant_def verify_vdf_def zero_proof_def

lemma genesis_position:
  assumes "block_records s G = None"
  shows "check_position DEFAULT_CONSTANTS s (unfinished_of genesis_b) 1 134217728 False
   = Valid \<lparr>pos_prev_b = None, pos_overflow = False, pos_skip = False, slots_since_prev = 0,
            pos_height = 0, can_finish_se = False, can_finish_epoch = False\<rparr>"
  using assms by (simp add: check_position_def toy_validation_defs genesis_b_def)

lemma genesis_pospace:
  "check_proof_of_space toy DEFAULT_CONSTANTS s (unfinished_of genesis_b)
     \<lparr>pos_prev_b = None, pos_overflow = False, pos_skip = False, slots_since_prev = 0,
      pos_height = 0, can_finish_se = False, can_finish_epoch = False\<rparr> 1 134217728
   = Valid \<lparr>cc_sp_hash = G, spv_required_iters = 1, spv_sp_iters = 0, spv_ip_iters = 6291457\<rparr>"
  using plot_hashes by (simp add: check_proof_of_space_def get_block_challenge_def toy_validation_defs
      genesis_b_def plot_def)

lemma genesis_unfinished:
  assumes "block_records s G = None"
  shows "validate_unfinished_header_block toy DEFAULT_CONSTANTS s (unfinished_of genesis_b) cf 1
     134217728 False False ses 1000 = Valid 1"
proof -
  note h = genesis_hashes [unfolded genesis_b_def get_unfinished_def, simplified]
  show ?thesis
    unfolding validate_unfinished_header_block_def genesis_position [OF assms] Let_def
    using assms by (simp add: genesis_pospace check_finished_slots_def check_block_count_def check_total_iters_def
        expected_total_iters_def check_signage_point_def get_signage_point_vdf_info_def check_rc_sp_def
        check_cc_sp_def check_is_transaction_block_def check_foliage_signatures_def verify_opt_def
        check_pool_target_def check_foliage_block_def)
      (simp add: toy_validation_defs genesis_b_def h verify_opt_def)
qed

lemma genesis_valid:
  assumes "block_records s G = None"
  shows "validate_finished_header_block toy DEFAULT_CONSTANTS s genesis_b cf 1 134217728 ses 1000 = Valid 1"
proof -
  note h = genesis_hashes [unfolded genesis_b_def get_unfinished_def, simplified]
  show ?thesis
    unfolding validate_finished_header_block_def genesis_unfinished [OF assms] Let_def
    using assms by (simp add: check_height_weight_def ip_vdf_start_def check_cc_ip_def check_icc_ip_def)
      (simp add: toy_validation_defs genesis_b_def h h [unfolded vdf_to_def] vdf_to_def hb_height_def hb_weight_def
        hb_prev_header_hash_def)
qed

lemma genesis_accepted:
  "validate_finished_header_block toy DEFAULT_CONSTANTS empty_cache genesis_b cf 1 134217728 True 1000 = Valid 1"
  by (rule genesis_valid) (simp add: empty_cache_def init_BlockCache_def)

lemma genesis_record:
  "block_to_block_record toy DEFAULT_CONSTANTS empty_cache 1 (Some genesis_b) None = Ok genesis_r"
proof -
  note h = genesis_hashes [unfolded genesis_b_def get_unfinished_def, simplified]
  show ?thesis
    by (simp add: block_to_block_record_def header_block_to_sub_block_record_def
        get_next_sub_slot_iters_and_difficulty_def calculate_deficit_def prev_tx_or_none.simps
        last_summary_hash_def ChallengeBlockInfo_hash_def get_hash_def
        toy_validation_defs genesis_b_def h h [unfolded vdf_to_def] hb_height_def hb_weight_def hb_total_iters_def
        hb_prev_header_hash_def hb_header_hash_def genesis_r_def vdf_to_def)
      (simp add: toy_hash_defs genesis_ti_def)
qed

section \<open>The next block is accepted\<close>

lemma genesis_r_simps [simp]:
  "header_hash genesis_r = replicate 32 1" "prev_hash genesis_r = G" "height genesis_r = 0"
  "weight genesis_r = 1" "total_iters genesis_r = 6291457" "timestamp genesis_r = Some 1000"
  "sub_slot_iters genesis_r = 134217728" "deficit genesis_r = 15"
  "finished_challenge_slot_hashes genesis_r = Some [G]"
  "finished_reward_slot_hashes genesis_r = Some [G]"
  "finished_infused_challenge_slot_hashes genesis_r = None"
  "challenge_block_info_hash genesis_r = replicate 32 2"
  "reward_infusion_new_challenge genesis_r = replicate 32 2"
  "challenge_vdf_output genesis_r = get_default_element"
  "sub_epoch_summary_included genesis_r = None" "signage_point_index genesis_r = 0"
  "required_iters genesis_r = 1" "overflow genesis_r = False"
  by (simp_all add: genesis_r_def)

lemma genesis_r_preds [simp]:
  "is_transaction_block genesis_r" "first_in_sub_slot genesis_r"
  "is_challenge_block DEFAULT_CONSTANTS genesis_r"
  "ip_iters DEFAULT_CONSTANTS genesis_r = Ok 6291457"
  by (simp_all add: is_transaction_block_def first_in_sub_slot_def is_challenge_block_def ip_iters_def
      calculate_ip_iters_def calculate_sp_iters_def calculate_sp_interval_iters_def)

lemma genesis_cache_lookup [simp]:
  "block_records genesis_cache h = (if h = replicate 32 1 then Some genesis_r else None)"
  by (simp add: genesis_cache_def add_block_record_def empty_cache_def init_BlockCache_def)

lemma genesis_cache_ok: "chain_ok genesis_cache" "genesis_ok DEFAULT_CONSTANTS genesis_cache"
  by (simp_all add: chain_ok_def heights_ok_def genesis_ok_def)

lemma next_position:
  "check_position DEFAULT_CONSTANTS genesis_cache (unfinished_of next_b) 1 134217728 False
   = Valid \<lparr>pos_prev_b = Some genesis_r, pos_overflow = False, pos_skip = False, slots_since_prev = 0,
            pos_height = 1, can_finish_se = False, can_finish_epoch = False\<rparr>"
  by (simp add: check_position_def toy_validation_defs next_b_def)

lemma next_pospace:
  "check_proof_of_space toy DEFAULT_CONSTANTS genesis_cache (unfinished_of next_b)
     \<lparr>pos_prev_b = Some genesis_r, pos_overflow = False, pos_skip = False, slots_since_prev = 0,
      pos_height = 1, can_finish_se = False, can_finish_epoch = False\<rparr> 1 134217728
   = Valid \<lparr>cc_sp_hash = replicate 32 2, spv_required_iters = 1, spv_sp_iters = 10485760,
            spv_ip_iters = 16777217\<rparr>"
proof -
  have c: "ClassgroupElement_hash toy get_default_element = Ok (replicate 32 2)"
    by (simp add: toy_hash_defs)
  have g: "get_block_challenge toy DEFAULT_CONSTANTS [] (replicate 32 1) genesis_cache False False False = Ok G"
    by (simp add: get_block_challenge_def challenges_back.simps py_nth_def)
  show ?thesis
    using plot_hashes
    by (simp add: check_proof_of_space_def toy_validation_defs next_b_def plot_def c g vdf_to_def)
qed

lemma next_vdf_info:
  "get_signage_point_vdf_info toy DEFAULT_CONSTANTS [] False (Some genesis_r) genesis_cache 10485760 10485760
   = Ok (G, replicate 32 2, get_default_element, get_default_element, 4194303, 4194303)"
  by (simp add: get_signage_point_vdf_info_def vdf_info_this_slot_def walk.simps py_last_eq)

lemma next_unfinished:
  "validate_unfinished_header_block toy DEFAULT_CONSTANTS genesis_cache (unfinished_of next_b) True 1
     134217728 False False True 1000 = Valid 1"
proof -
  note h = next_hashes [unfolded next_b_def get_unfinished_def, simplified]
  have c: "ClassgroupElement_hash toy get_default_element = Ok (replicate 32 2)"
    by (simp add: toy_hash_defs)
  have pt: "PoolTarget_bytes toy \<lparr>pt_puzzle_hash = replicate 32 0, max_height = 0\<rparr>
      = Ok (replicate 32 0 @ be_bytes 4 0)"
    by (simp add: PoolTarget_bytes_def PoolTarget_type_def PoolTarget_val_def)
  show ?thesis
    unfolding validate_unfinished_header_block_def next_position Let_def
    by (simp add: next_pospace check_finished_slots_def check_block_count_def walk_acc.simps
        check_total_iters_def expected_total_iters_def)
      (simp add: check_signage_point_def check_rc_sp_def
        check_cc_sp_def check_is_transaction_block_def check_foliage_signatures_def verify_opt_def
        check_pool_target_def check_foliage_block_def walk.simps next_vdf_info
        toy_validation_defs next_b_def h h [unfolded vdf_to_def] c pt plot_def [THEN arg_cong, of pool_public_key]
        plot_def [THEN arg_cong, of pool_contract_puzzle_hash] vdf_to_def)
qed

lemma next_accepted:
  "validate_finished_header_block toy DEFAULT_CONSTANTS genesis_cache next_b True 1 134217728 True 1000
   = Valid 1"
proof -
  note h = next_hashes [unfolded next_b_def get_unfinished_def, simplified]
  show ?thesis
    unfolding validate_finished_header_block_def next_unfinished Let_def
    by (simp add: check_height_weight_def ip_vdf_start_def check_cc_ip_def check_icc_ip_def
        icc_ip_start_def walk.simps calculate_deficit_def py_last_eq
        toy_validation_defs next_b_def h h [unfolded vdf_to_def] vdf_to_def hb_height_def
        hb_weight_def hb_total_iters_def hb_prev_header_hash_def walk.simps py_last_eq)
qed

definition next_r :: BlockRecord where
  "next_r =
     \<lparr>header_hash = replicate 32 2, prev_hash = replicate 32 1, height = 1, weight = 2,
      total_iters = 16777217, signage_point_index = 5, challenge_vdf_output = get_default_element,
      infused_challenge_vdf_output = Some get_default_element,
      reward_infusion_new_challenge = replicate 32 2,
      challenge_block_info_hash = replicate 32 2, sub_slot_iters = 134217728,
      pool_puzzle_hash = replicate 32 0, farmer_puzzle_hash = replicate 32 0,
      required_iters = 1, deficit = 14, overflow = False, prev_transaction_block_height = 0,
      timestamp = Some 1020, prev_transaction_block_hash = Some (replicate 32 1), fees = None,
      reward_claims_incorporated = None, finished_challenge_slot_hashes = None,
      finished_infused_challenge_slot_hashes = None, finished_reward_slot_hashes = None,
      sub_epoch_summary_included = None\<rparr>"

lemma genesis_sp_total: "sp_total_iters DEFAULT_CONSTANTS genesis_r = Ok 0"
  by (simp add: sp_total_iters_def sp_sub_slot_total_iters_def sp_iters_def calculate_sp_iters_def
      calculate_sp_interval_iters_def)

lemma next_record:
  "block_to_block_record toy DEFAULT_CONSTANTS genesis_cache 1 (Some next_b) None = Ok next_r"
proof -
  note h = next_hashes [unfolded next_b_def get_unfinished_def, simplified]
  have cbi: "ChallengeBlockInfo_hash toy
      \<lparr>cbi_proof_of_space = plot, cbi_challenge_chain_sp_vdf = Some (vdf_to G 10485760),
       cbi_challenge_chain_sp_signature = replicate 96 0,
       cbi_challenge_chain_ip_vdf = vdf_to G 16777217\<rparr> = Ok (replicate 32 2)"
    by (simp add: toy_hash_defs)
  show ?thesis
    by (simp add: block_to_block_record_def header_block_to_sub_block_record_def
        get_next_sub_slot_iters_and_difficulty_def calculate_deficit_def prev_tx_or_none.simps
        last_summary_hash_def genesis_sp_total get_next_difficulty_def get_next_sub_slot_iters_def
        toy_validation_defs next_b_def h cbi hb_height_def hb_weight_def hb_total_iters_def
        hb_prev_header_hash_def hb_header_hash_def next_r_def)
      (simp add: vdf_to_def)
qed

end
