(* ===== verification/Sample_Twin.thy ===== *)
theory Sample_Twin
  imports Sample_Chain
begin

text \<open>
  A second genesis block, which differs from the one of \<open>Sample_Chain\<close> in a signature of its reward chain block.
  The toy hash reads only the first byte, so both blocks have the same header hash, and both are accepted.
\<close>

definition twin_b :: HeaderBlock where
  "twin_b = genesis_b\<lparr>hb_reward_chain_block :=
     (hb_reward_chain_block genesis_b)\<lparr>rcb_challenge_chain_sp_signature := replicate 96 1\<rparr>\<rparr>"

lemma twin_hashes:
  "RewardChainBlock_hash toy (hb_reward_chain_block twin_b) = Ok (replicate 32 2)"
  "RewardChainBlockUnfinished_hash toy (get_unfinished (hb_reward_chain_block twin_b)) = Ok (replicate 32 2)"
  by (simp_all add: twin_b_def genesis_b_def get_unfinished_def toy_hash_defs)

lemma twin_position:
  assumes "block_records s G = None"
  shows "check_position DEFAULT_CONSTANTS s (unfinished_of twin_b) 1 134217728 False
   = Valid \<lparr>pos_prev_b = None, pos_overflow = False, pos_skip = False, slots_since_prev = 0,
            pos_height = 0, can_finish_se = False, can_finish_epoch = False\<rparr>"
  using assms by (simp add: check_position_def toy_validation_defs twin_b_def genesis_b_def)

lemma twin_pospace:
  "check_proof_of_space toy DEFAULT_CONSTANTS s (unfinished_of twin_b)
     \<lparr>pos_prev_b = None, pos_overflow = False, pos_skip = False, slots_since_prev = 0,
      pos_height = 0, can_finish_se = False, can_finish_epoch = False\<rparr> 1 134217728
   = Valid \<lparr>cc_sp_hash = G, spv_required_iters = 1, spv_sp_iters = 0, spv_ip_iters = 6291457\<rparr>"
  using plot_hashes by (simp add: check_proof_of_space_def get_block_challenge_def toy_validation_defs
      twin_b_def genesis_b_def plot_def)

lemma twin_unfinished:
  assumes "block_records s G = None"
  shows "validate_unfinished_header_block toy DEFAULT_CONSTANTS s (unfinished_of twin_b) cf 1
     134217728 False False ses 1000 = Valid 1"
proof -
  note h = genesis_hashes [unfolded genesis_b_def get_unfinished_def, simplified]
    twin_hashes [unfolded twin_b_def genesis_b_def get_unfinished_def, simplified]
  show ?thesis
    unfolding validate_unfinished_header_block_def twin_position [OF assms] Let_def
    using assms by (simp add: twin_pospace check_finished_slots_def check_block_count_def check_total_iters_def
        expected_total_iters_def check_signage_point_def get_signage_point_vdf_info_def check_rc_sp_def
        check_cc_sp_def check_is_transaction_block_def check_foliage_signatures_def verify_opt_def
        check_pool_target_def check_foliage_block_def)
      (simp add: toy_validation_defs twin_b_def genesis_b_def h verify_opt_def)
qed

lemma twin_accepted:
  "validate_finished_header_block toy DEFAULT_CONSTANTS empty_cache twin_b cf 1 134217728 True 1000 = Valid 1"
proof -
  have e: "block_records empty_cache G = None" by (simp add: empty_cache_def init_BlockCache_def)
  note h = genesis_hashes [unfolded genesis_b_def get_unfinished_def, simplified]
    twin_hashes [unfolded twin_b_def genesis_b_def get_unfinished_def, simplified]
  show ?thesis
    unfolding validate_finished_header_block_def twin_unfinished [OF e] Let_def
    using e by (simp add: check_height_weight_def ip_vdf_start_def check_cc_ip_def check_icc_ip_def)
      (simp add: toy_validation_defs twin_b_def genesis_b_def h h [unfolded vdf_to_def] vdf_to_def hb_height_def hb_weight_def
        hb_prev_header_hash_def)
qed

lemma twin_differs: "hb_reward_chain_block genesis_b \<noteq> hb_reward_chain_block twin_b"
  "hb_foliage twin_b = hb_foliage genesis_b"
  "hb_foliage_transaction_block twin_b = hb_foliage_transaction_block genesis_b"
proof -
  have "rcb_challenge_chain_sp_signature (hb_reward_chain_block genesis_b) \<noteq>
      rcb_challenge_chain_sp_signature (hb_reward_chain_block twin_b)"
    by (simp add: twin_b_def genesis_b_def replicate_eq_replicate)
  then show "hb_reward_chain_block genesis_b \<noteq> hb_reward_chain_block twin_b" by metis
qed (simp_all add: twin_b_def)

end
