(* ===== verification/Merkle_Set.thy ===== *)
theory Merkle_Set
  imports Crypto
begin

text \<open>
  \<^verbatim>\<open>chia/util/merkle_set.py\<close>: the Merkle set of 32-byte values a block commits to, and the proofs
  a full node gives a wallet that a value is in it or is not. A node object is a value of \<open>node\<close>;
  the \<^verbatim>\<open>hash\<close> of an inner node is stored in it as in the source. Object identity
  (\<^verbatim>\<open>newchild is child\<close>) is equality here: an operation that does not return its own object returns
  a different tree. The lemmas show that the tree is the canonical trie of its elements, so that
  the root depends only on the set, and that proofs are complete and sound: a proof that is
  accepted against the root tells the truth, or exhibits a collision of the hash function.
  Python's recursion limit is not modelled.
\<close>

section \<open>Nodes and their hashes\<close>

datatype node =
    EmptyNode
  | TerminalNode bytes
  | MiddleNode node node bytes
  | TruncatedNode bytes

abbreviation (input) EMPTY :: byte where "EMPTY \<equiv> 0"
abbreviation (input) TERMINAL :: byte where "TERMINAL \<equiv> 1"
abbreviation (input) MIDDLE :: byte where "MIDDLE \<equiv> 2"
abbreviation (input) TRUNCATED :: byte where "TRUNCATED \<equiv> 3"

definition BLANK :: bytes where
  "BLANK = replicate 32 0"

definition prehashed_prefix :: "byte \<Rightarrow> byte \<Rightarrow> bytes res" where
  "prehashed_prefix x y =
     (if x \<in> {EMPTY, TERMINAL, MIDDLE} \<and> y \<in> {EMPTY, TERMINAL, MIDDLE}
      then Ok (replicate 30 0 @ [x, y]) else Raise KeyError)"

definition hashdown :: "crypto \<Rightarrow> bytes \<Rightarrow> bytes res" where
  "hashdown cr mystr =
     rbind (py_assert (length mystr = 66)) (\<lambda>_.
     rbind (prehashed_prefix (mystr ! 0) (mystr ! 33)) (\<lambda>h.
       Ok (take 32 (hash256 cr (h @ take 32 (drop 1 mystr) @ drop 34 mystr)))))"

definition compress_root :: "crypto \<Rightarrow> bytes \<Rightarrow> bytes res" where
  "compress_root cr mystr =
     rbind (py_assert (length mystr = 33)) (\<lambda>_.
       if take 1 mystr = [MIDDLE] then Ok (drop 1 mystr)
       else if take 1 mystr = [EMPTY] then
         rbind (py_assert (drop 1 mystr = BLANK)) (\<lambda>_. Ok BLANK)
       else Ok (take 32 (hash256 cr mystr)))"

definition get_bit :: "bytes \<Rightarrow> nat \<Rightarrow> nat res" where
  "get_bit mybytes pos =
     rbind (py_assert (length mybytes = 32)) (\<lambda>_.
     rbind (py_nth mybytes (int (pos div 8))) (\<lambda>b.
       Ok (unat (and (drop_bit (7 - pos mod 8) b) 1))))"

text \<open>Python compares \<^verbatim>\<open>bytes\<close> lexicographically.\<close>

fun bytes_less :: "bytes \<Rightarrow> bytes \<Rightarrow> bool" where
  "bytes_less xs [] = False"
| "bytes_less [] (y # ys) = True"
| "bytes_less (x # xs) (y # ys) = (x < y \<or> x = y \<and> bytes_less xs ys)"

fun node_hash :: "node \<Rightarrow> bytes" where
  "node_hash EmptyNode = BLANK"
| "node_hash (TerminalNode h) = h"
| "node_hash (MiddleNode l r h) = h"
| "node_hash (TruncatedNode h) = h"

fun get_hash_node :: "node \<Rightarrow> bytes" where
  "get_hash_node EmptyNode = EMPTY # BLANK"
| "get_hash_node (TerminalNode h) = TERMINAL # h"
| "get_hash_node (MiddleNode l r h) = MIDDLE # h"
| "get_hash_node (TruncatedNode h) = MIDDLE # h"

fun is_empty :: "node \<Rightarrow> bool" where
  "is_empty EmptyNode = True"
| "is_empty _ = False"

fun is_terminal :: "node \<Rightarrow> bool" where
  "is_terminal (TerminalNode h) = True"
| "is_terminal _ = False"

fun is_double :: "node \<Rightarrow> bool res" where
  "is_double EmptyNode = Raise SetError"
| "is_double (TerminalNode h) = Raise SetError"
| "is_double (MiddleNode l r h) =
     (if is_empty l then is_double r
      else if is_empty r then is_double l
      else Ok (is_terminal l \<and> is_terminal r))"
| "is_double (TruncatedNode h) = Ok False"

text \<open>The two constructors that check their arguments.\<close>

fun terminal_audit :: "bytes \<Rightarrow> nat list \<Rightarrow> nat \<Rightarrow> unit res" where
  "terminal_audit h [] pos = Ok ()"
| "terminal_audit h (v # bits) pos =
     rbind (get_bit h pos) (\<lambda>b. rbind (py_assert (b = v)) (\<lambda>_. terminal_audit h bits (Suc pos)))"

definition terminal_node :: "bytes \<Rightarrow> nat list option \<Rightarrow> node res" where
  "terminal_node h bits =
     rbind (py_assert (length h = 32)) (\<lambda>_.
     rbind (case bits of None \<Rightarrow> Ok () | Some bits \<Rightarrow> terminal_audit h bits 0) (\<lambda>_.
       Ok (TerminalNode h)))"

definition middle_node :: "crypto \<Rightarrow> node \<Rightarrow> node \<Rightarrow> node res" where
  "middle_node cr l r =
     rbind (if is_empty l then is_double r else Ok False) (\<lambda>d.
       if d then Ok (MiddleNode l r (node_hash r))
       else
         rbind (if is_empty r then is_double l else Ok False) (\<lambda>d.
           if d then Ok (MiddleNode l r (node_hash l))
           else if is_empty l \<and> (is_empty r \<or> is_terminal r) then Raise SetError
           else if is_empty r \<and> is_terminal l then Raise SetError
           else if is_terminal l \<and> is_terminal r \<and> \<not> bytes_less (node_hash l) (node_hash r) then Raise SetError
           else rbind (hashdown cr (get_hash_node l @ get_hash_node r)) (\<lambda>h.
                  Ok (MiddleNode l r h))))"

section \<open>Operations\<close>

text \<open>\<^verbatim>\<open>_make_middle\<close> is only called on two terminal nodes; the recursion ends because
  \<^verbatim>\<open>get_bit\<close> raises past bit 255.\<close>

lemma get_bit_range: "get_bit x d = Ok b \<Longrightarrow> d < 256"
  by (auto simp: get_bit_def py_nth_nat split: if_splits)

function make_middle :: "crypto \<Rightarrow> bytes \<Rightarrow> bytes \<Rightarrow> nat \<Rightarrow> node res" where
  "make_middle cr a b depth =
     rbind (get_bit a depth) (\<lambda>x.
     rbind (get_bit b depth) (\<lambda>y.
       if x \<noteq> y then middle_node cr (TerminalNode a) (TerminalNode b)
       else rbind (make_middle cr a b (depth + 1)) (\<lambda>m.
              if x = 0 then middle_node cr m EmptyNode else middle_node cr EmptyNode m)))"
  by auto
termination by (relation "measure (\<lambda>(cr, a, b, d). 256 - d)") (auto dest: get_bit_range)

declare make_middle.simps [simp del]

fun add :: "crypto \<Rightarrow> node \<Rightarrow> bytes \<Rightarrow> nat \<Rightarrow> node res" where
  "add cr EmptyNode toadd depth = terminal_node toadd None"
| "add cr (TerminalNode h) toadd depth =
     (if toadd = h then Ok (TerminalNode h)
      else rbind (terminal_node toadd None) (\<lambda>_.
        if bytes_less h toadd then make_middle cr h toadd depth
        else make_middle cr toadd h depth))"
| "add cr (MiddleNode l r h) toadd depth =
     rbind (get_bit toadd depth) (\<lambda>bit.
       if bit = 0 then
         rbind (add cr l toadd (depth + 1)) (\<lambda>newchild.
           if newchild = l then Ok (MiddleNode l r h) else middle_node cr newchild r)
       else
         rbind (add cr r toadd (depth + 1)) (\<lambda>newchild.
           if newchild = r then Ok (MiddleNode l r h) else middle_node cr l newchild))"
| "add cr (TruncatedNode h) toadd depth = Ok (TruncatedNode h)"

fun remove :: "crypto \<Rightarrow> node \<Rightarrow> bytes \<Rightarrow> nat \<Rightarrow> node res" where
  "remove cr EmptyNode toremove depth = Ok EmptyNode"
| "remove cr (TerminalNode h) toremove depth =
     Ok (if toremove = h then EmptyNode else TerminalNode h)"
| "remove cr (MiddleNode l r h) toremove depth =
     rbind (get_bit toremove depth) (\<lambda>bit.
     rbind (if bit = 0 then remove cr l toremove (depth + 1) else remove cr r toremove (depth + 1))
       (\<lambda>newchild.
         let child = (if bit = 0 then l else r); otherchild = (if bit = 0 then r else l)
         in if newchild = child then Ok (MiddleNode l r h)
            else if is_empty newchild \<and> is_terminal otherchild then Ok otherchild
            else if is_terminal newchild \<and> is_empty otherchild then Ok newchild
            else if bit = 0 then middle_node cr newchild r else middle_node cr l newchild))"
| "remove cr (TruncatedNode h) toremove depth = Ok (TruncatedNode h)"

text \<open>The proof list is returned as the bytes it joins to.\<close>

function is_included :: "node \<Rightarrow> bytes \<Rightarrow> nat \<Rightarrow> (bool \<times> bytes) res"
  and other_included :: "node \<Rightarrow> bytes \<Rightarrow> nat \<Rightarrow> bool \<Rightarrow> bytes res" where
  "is_included EmptyNode tocheck depth = Ok (False, [EMPTY])"
| "is_included (TerminalNode h) tocheck depth = Ok (tocheck = h, TERMINAL # h)"
| "is_included (MiddleNode l r h) tocheck depth =
     rbind (get_bit tocheck depth) (\<lambda>bit.
       if bit = 0 then
         rbind (is_included l tocheck (depth + 1)) (\<lambda>(res, p).
         rbind (other_included r tocheck (depth + 1) (\<not> is_empty l)) (\<lambda>q.
           Ok (res, MIDDLE # p @ q)))
       else
         rbind (other_included l tocheck (depth + 1) (\<not> is_empty r)) (\<lambda>p.
         rbind (is_included r tocheck (depth + 1)) (\<lambda>(res, q).
           Ok (res, MIDDLE # p @ q))))"
| "is_included (TruncatedNode h) tocheck depth = Raise SetError"
| "other_included EmptyNode tocheck depth collapse = Ok [EMPTY]"
| "other_included (TerminalNode h) tocheck depth collapse = Ok (TERMINAL # h)"
| "other_included (MiddleNode l r h) tocheck depth collapse =
     rbind (if collapse then Ok False else is_double (MiddleNode l r h)) (\<lambda>double.
       if collapse \<or> \<not> double then Ok (TRUNCATED # h)
       else rbind (is_included (MiddleNode l r h) tocheck depth) (\<lambda>(res, p). Ok p))"
| "other_included (TruncatedNode h) tocheck depth collapse = Ok (TRUNCATED # h)"
  by pat_completeness auto
termination
  by (relation "measure (case_sum (\<lambda>(n, _, _). 2 * size n) (\<lambda>(n, _, _, _). 2 * size n + 1))") auto

section \<open>The set and its proofs\<close>

definition get_root :: "crypto \<Rightarrow> node \<Rightarrow> bytes res" where
  "get_root cr root = compress_root cr (get_hash_node root)"

definition add_already_hashed :: "crypto \<Rightarrow> node \<Rightarrow> bytes \<Rightarrow> node res" where
  "add_already_hashed cr root toadd = add cr root toadd 0"

definition remove_already_hashed :: "crypto \<Rightarrow> node \<Rightarrow> bytes \<Rightarrow> node res" where
  "remove_already_hashed cr root toremove = remove cr root toremove 0"

definition is_included_already_hashed :: "node \<Rightarrow> bytes \<Rightarrow> (bool \<times> bytes) res" where
  "is_included_already_hashed root tocheck = is_included root tocheck 0"

text \<open>\<^verbatim>\<open>_deserialize\<close>. Slices saturate at the end of the proof as in Python.\<close>

partial_function (option) deserialize ::
    "crypto \<Rightarrow> bytes \<Rightarrow> nat \<Rightarrow> nat list \<Rightarrow> (node \<times> nat) res" where
  "deserialize cr proof_bytes pos bits =
     (let t = take 1 (drop pos proof_bytes); h = take 32 (drop (pos + 1) proof_bytes)
      in if t = [EMPTY] then Ok (EmptyNode, pos + 1)
         else if t = [TERMINAL] then rbind (terminal_node h (Some bits)) (\<lambda>n. Ok (n, pos + 33))
         else if t = [TRUNCATED] then Ok (TruncatedNode h, pos + 33)
         else if t \<noteq> [MIDDLE] then Raise SetError
         else rbind (deserialize cr proof_bytes (pos + 1) (bits @ [0])) (\<lambda>v0.
              rbind (deserialize cr proof_bytes (snd v0) (bits @ [1])) (\<lambda>v1.
              rbind (middle_node cr (fst v0) (fst v1)) (\<lambda>n. Ok (n, snd v1)))))"

declare deserialize.simps [code]

text \<open>\<^verbatim>\<open>except IndexError: raise SetError()\<close>.\<close>

definition deserialize_proof :: "crypto \<Rightarrow> bytes \<Rightarrow> node res" where
  "deserialize_proof cr proof_bytes =
     (let r = rbind (deserialize cr proof_bytes 0 []) (\<lambda>(r, pos).
                if pos \<noteq> length proof_bytes then Raise SetError else Ok r)
      in if r = Raise IndexError then Raise SetError else r)"

text \<open>\<^verbatim>\<open>_confirm\<close>: a malformed proof proves nothing, unless it fails an assertion, which is raised.\<close>

definition confirm :: "crypto \<Rightarrow> bytes \<Rightarrow> bytes \<Rightarrow> bytes \<Rightarrow> bool \<Rightarrow> bool res" where
  "confirm cr root val proof_bytes expected =
     (let r = rbind (deserialize_proof cr proof_bytes) (\<lambda>p.
              rbind (get_root cr p) (\<lambda>proot.
                if proot \<noteq> root then Ok False
                else rbind (is_included_already_hashed p val) (\<lambda>(res, junk). Ok (res = expected))))
      in if r = Raise SetError then Ok False else r)"

definition confirm_included_already_hashed :: "crypto \<Rightarrow> bytes \<Rightarrow> bytes \<Rightarrow> bytes \<Rightarrow> bool res" where
  "confirm_included_already_hashed cr root val proof_bytes = confirm cr root val proof_bytes True"

definition confirm_not_included_already_hashed :: "crypto \<Rightarrow> bytes \<Rightarrow> bytes \<Rightarrow> bytes \<Rightarrow> bool res" where
  "confirm_not_included_already_hashed cr root val proof_bytes = confirm cr root val proof_bytes False"

definition confirm_included :: "crypto \<Rightarrow> bytes \<Rightarrow> bytes \<Rightarrow> bytes \<Rightarrow> bool res" where
  "confirm_included cr root val proof_bytes =
     confirm_not_included_already_hashed cr root (hash256 cr val) proof_bytes"

definition confirm_not_included :: "crypto \<Rightarrow> bytes \<Rightarrow> bytes \<Rightarrow> bytes \<Rightarrow> bool res" where
  "confirm_not_included cr root val proof_bytes =
     confirm_not_included_already_hashed cr root (hash256 cr val) proof_bytes"

section \<open>Bits and order\<close>

definition bitn :: "bytes \<Rightarrow> nat \<Rightarrow> bool" where
  "bitn x d = bit (x ! (d div 8)) (7 - d mod 8)"

lemma get_bit_Ok [simp]:
  assumes "length x = 32" and "d < 256"
  shows "get_bit x d = Ok (of_bool (bitn x d))"
proof -
  have d: "d div 8 < 32" using assms(2) by (simp add: less_mult_imp_div_less)
  have "unat (and (drop_bit k b) 1) = of_bool (bit b k)" for k and b :: byte
    by (simp add: and_one_eq bit_iff_odd_drop_bit odd_iff_mod_2_eq_one)
  then show ?thesis unfolding get_bit_def py_nth_nat bitn_def using d assms(1) by simp
qed

text \<open>The values agree on the first \<open>d\<close> bits: they share the path to a node of depth \<open>d\<close>.\<close>

definition agree :: "nat \<Rightarrow> bytes set \<Rightarrow> bool" where
  "agree d S \<longleftrightarrow> (\<forall>x\<in>S. length x = 32) \<and> (\<forall>x\<in>S. \<forall>y\<in>S. \<forall>i<d. bitn x i = bitn y i)"

lemma agree_subset: "agree d S \<Longrightarrow> T \<subseteq> S \<Longrightarrow> agree d T"
  unfolding agree_def by blast

lemma agree_Suc: "agree d S \<Longrightarrow> (\<forall>x\<in>S. bitn x d = b) \<Longrightarrow> agree (Suc d) S"
  unfolding agree_def less_Suc_eq by blast

lemma agree_0 [simp]: "agree 0 S \<longleftrightarrow> (\<forall>x\<in>S. length x = 32)"
  by (simp add: agree_def)

lemma bit_index: "k < 8 \<Longrightarrow> (8 * j + (7 - k)) div 8 = j \<and> 7 - (8 * j + (7 - k)) mod 8 = (k::nat)"
proof -
  have "r < 8 \<Longrightarrow> (8 * j + r) div 8 = j \<and> (8 * j + r) mod 8 = r" for r by simp
  from this [of "7 - k"] show "k < 8 \<Longrightarrow> ?thesis" by simp
qed

lemma all_bits_eq:
  assumes "length x = 32" "length y = 32" and "\<And>i. i < 256 \<Longrightarrow> bitn x i = bitn y i"
  shows "x = y"
proof (rule nth_equalityI)
  show "length x = length y" using assms by simp
  fix j assume j: "j < length x"
  show "x ! j = y ! j"
  proof (rule bit_eqI)
    fix k assume "possible_bit TYPE(byte) k"
    then have k: "k < 8" by (simp add: possible_bit_word)
    let ?i = "8 * j + (7 - k)"
    have "?i < 256" using k j assms(1) by simp
    from assms(3) [OF this] show "bit (x ! j) k = bit (y ! j) k"
      using bit_index [OF k, of j] by (simp only: bitn_def)
  qed
qed

lemma agree_differ:
  assumes "agree d S" and "x \<in> S" and "y \<in> S" and "x \<noteq> y"
  shows "\<exists>i. d \<le> i \<and> i < 256 \<and> bitn x i \<noteq> bitn y i"
proof -
  have "\<exists>i<256. bitn x i \<noteq> bitn y i"
    using all_bits_eq [of x y] assms by (auto simp: agree_def)
  then show ?thesis using assms by (meson agree_def not_le)
qed

lemma unat_div_bit: "unat (a :: byte) div 2 ^ k = 2 * (unat a div 2 ^ Suc k) + of_bool (bit a k)"
proof -
  have "bit (unat a) k \<longleftrightarrow> bit a k" by (auto simp: bit_unsigned_iff possible_bit_word dest: bit_imp_le_length)
  moreover have "bit (unat a) k \<longleftrightarrow> odd (unat a div 2 ^ k)" by (rule bit_iff_odd)
  ultimately have "bit a k \<longleftrightarrow> odd (unat a div 2 ^ k)" by blast
  then have "of_bool (bit a k) = unat a div 2 ^ k mod 2" by (simp add: odd_iff_mod_2_eq_one)
  moreover have "unat a div 2 ^ Suc k = unat a div 2 ^ k div 2" by (simp only: power_Suc2 div_mult2_eq)
  ultimately show ?thesis by simp
qed

lemma byte_less_by_bit:
  assumes "\<And>i. k < i \<Longrightarrow> i < 8 \<Longrightarrow> bit (a::byte) i = bit b i" and "\<not> bit a k" and "bit b k" and "k < 8"
  shows "a < b"
proof -
  have hi: "unat a div 2 ^ j = unat b div 2 ^ j" if "k < j" "j \<le> 8" for j
    using that
  proof (induction "8 - j" arbitrary: j)
    case 0
    then have "j = 8" by simp
    then show ?case by simp
  next
    case (Suc n)
    then have j: "j < 8" by simp
    have "unat a div 2 ^ Suc j = unat b div 2 ^ Suc j" using Suc by (intro Suc.hyps(1)) auto
    then show ?case using assms(1) [OF Suc.prems(1) j] by (simp add: unat_div_bit)
  qed
  have "unat a div 2 ^ k < unat b div 2 ^ k"
    using hi [of "Suc k"] assms(2-4) by (simp add: unat_div_bit)
  then have "unat a < unat b" by (meson div_le_mono not_less)
  then show ?thesis by (simp add: word_less_nat_alt)
qed

lemma bytes_less_nth:
  "j < length x \<Longrightarrow> j < length y \<Longrightarrow> take j x = take j y \<Longrightarrow> x ! j < y ! j \<Longrightarrow> bytes_less x y"
proof (induction x y arbitrary: j rule: bytes_less.induct)
  case (3 x xs y ys)
  then show ?case by (cases j) auto
qed auto

lemma bytes_less_asym: "bytes_less x y \<Longrightarrow> \<not> bytes_less y x"
  by (induction x y rule: bytes_less.induct) auto

text \<open>Of two values that agree up to a bit, the one with the bit clear is the smaller.\<close>

lemma bytes_less_by_bit:
  assumes "agree d {x, y}" and "\<not> bitn x d" and "bitn y d" and "d < 256"
  shows "bytes_less x y"
proof (rule bytes_less_nth)
  let ?j = "d div 8"
  have len: "length x = 32" "length y = 32" and eq: "\<And>i. i < d \<Longrightarrow> bitn x i = bitn y i"
    using assms(1) unfolding agree_def by blast+
  show "?j < length x" "?j < length y" using len assms(4) by auto
  show "take ?j x = take ?j y"
  proof (rule nth_equalityI)
    show "length (take ?j x) = length (take ?j y)" using len by simp
    fix m assume m: "m < length (take ?j x)"
    have "x ! m = y ! m"
    proof (rule bit_eqI)
      fix k assume "possible_bit TYPE(byte) k"
      then have k: "k < 8" by (simp add: possible_bit_word)
      let ?i = "8 * m + (7 - k)"
      have "?i < d" using k m by auto
      from eq [OF this] show "bit (x ! m) k = bit (y ! m) k"
        using bit_index [OF k, of m] by (simp only: bitn_def)
    qed
    then show "take ?j x ! m = take ?j y ! m" using m by simp
  qed
  show "x ! ?j < y ! ?j"
  proof (rule byte_less_by_bit [where k = "7 - d mod 8"])
    fix i assume i: "7 - d mod 8 < i" "i < 8"
    let ?i = "8 * ?j + (7 - i)"
    have m: "7 - m < i \<Longrightarrow> 7 - i < m" for m using i(2) by arith
    from m [OF i(1)] have "7 - i < d mod 8" .
    then have "?i < 8 * (d div 8) + d mod 8" by (rule add_strict_left_mono)
    then have "?i < d" unfolding mult_div_mod_eq .
    from eq [OF this] show "bit (x ! ?j) i = bit (y ! ?j) i"
      using bit_index [OF i(2), of ?j] by (simp only: bitn_def)
  qed (use assms in \<open>simp_all add: bitn_def less_Suc_eq_le\<close>)
qed

section \<open>The tree is the canonical trie of its elements\<close>

text \<open>SHA-256 digests have 32 bytes.\<close>

definition digests :: "crypto \<Rightarrow> bool" where
  "digests cr \<longleftrightarrow> (\<forall>b. length (hash256 cr b) = 32)"

fun elems :: "node \<Rightarrow> bytes set" where
  "elems EmptyNode = {}"
| "elems (TerminalNode h) = {h}"
| "elems (MiddleNode l r h) = elems l \<union> elems r"
| "elems (TruncatedNode h) = {}"

text \<open>A node at depth \<open>d\<close>: the children split the elements by bit \<open>d\<close>, and the constructor accepts
  them, so that no node stands over fewer than two elements.\<close>

fun trie :: "crypto \<Rightarrow> nat \<Rightarrow> node \<Rightarrow> bool" where
  "trie cr d EmptyNode = True"
| "trie cr d (TerminalNode h) = (length h = 32)"
| "trie cr d (TruncatedNode h) = False"
| "trie cr d (MiddleNode l r h) =
     (d < 256 \<and> trie cr (Suc d) l \<and> trie cr (Suc d) r \<and> (\<forall>x\<in>elems l. \<not> bitn x d) \<and> (\<forall>x\<in>elems r. bitn x d) \<and>
      length h = 32 \<and> middle_node cr l r = Ok (MiddleNode l r h))"

text \<open>What is hashed at an inner node.\<close>

definition inner_preimage :: "node \<Rightarrow> node \<Rightarrow> bytes" where
  "inner_preimage l r =
     replicate 30 0 @ [hd (get_hash_node l), hd (get_hash_node r)] @ node_hash l @ node_hash r"

lemma get_hash_node_eq: "get_hash_node n = hd (get_hash_node n) # node_hash n"
  by (cases n) auto

lemma get_hash_node_tag: "hd (get_hash_node n) \<in> {EMPTY, TERMINAL, MIDDLE}"
  by (cases n) auto

lemma hashdown_Ok:
  assumes "length (node_hash l) = 32" and "length (node_hash r) = 32"
  shows "hashdown cr (get_hash_node l @ get_hash_node r) = Ok (take 32 (hash256 cr (inner_preimage l r)))"
  using assms get_hash_node_tag [of l] get_hash_node_tag [of r]
  by (subst (1 2) get_hash_node_eq)
    (simp add: hashdown_def prehashed_prefix_def inner_preimage_def nth_append)

lemma is_double_False_shape [simp]:
  "is_double n = Ok b \<Longrightarrow> \<not> is_empty n \<and> \<not> is_terminal n"
  by (cases n) auto

lemma middle_node_result: "middle_node cr l r = Ok m \<Longrightarrow> \<exists>h. m = MiddleNode l r h"
  by (auto simp: middle_node_def split: if_splits)

lemma middle_node_shape:
  "middle_node cr l r = Ok m \<Longrightarrow>
   \<not> (is_empty l \<and> (is_empty r \<or> is_terminal r)) \<and> \<not> (is_empty r \<and> is_terminal l)"
  by (cases l; cases r) (auto simp: middle_node_def split: if_splits)

lemma trie_length: "trie cr d n \<Longrightarrow> length (node_hash n) = 32"
  by (cases n) (auto simp: BLANK_def)

lemma trie_elems_length: "trie cr d n \<Longrightarrow> x \<in> elems n \<Longrightarrow> length x = 32"
  by (induction n arbitrary: d) auto

lemma is_double_trie:
  "trie cr d n \<Longrightarrow> \<not> is_empty n \<Longrightarrow> \<not> is_terminal n \<Longrightarrow> \<exists>b. is_double n = Ok b"
proof (induction n arbitrary: d)
  case (MiddleNode l r h)
  then show ?case using middle_node_shape [of cr l r "MiddleNode l r h"] by auto
qed auto

lemma middle_node_Ok:
  assumes "digests cr" and l: "trie cr d l" and r: "trie cr d r"
    and "\<not> (is_empty l \<and> (is_empty r \<or> is_terminal r))" and "\<not> (is_empty r \<and> is_terminal l)"
    and "is_terminal l \<and> is_terminal r \<Longrightarrow> bytes_less (node_hash l) (node_hash r)"
  shows "\<exists>h. middle_node cr l r = Ok (MiddleNode l r h) \<and> length h = 32"
proof -
  have dr: "\<exists>b. is_double r = Ok b" if "is_empty l" using is_double_trie [OF r] that assms(4) by blast
  have dl: "\<exists>b. is_double l = Ok b" if "is_empty r" using is_double_trie [OF l] that assms(4,5) by blast
  have "length (take 32 (hash256 cr b)) = 32" for b using assms(1) by (simp add: digests_def)
  then show ?thesis
    using dr dl assms(4-6) hashdown_Ok [of l r cr] trie_length [OF l] trie_length [OF r]
    by (cases "is_empty l"; cases "is_empty r") (auto simp: middle_node_def)
qed

lemma trie_empty: "trie cr d n \<Longrightarrow> elems n = {} \<longleftrightarrow> is_empty n"
proof (induction n arbitrary: d)
  case (MiddleNode l r h)
  then show ?case using middle_node_shape [of cr l r "MiddleNode l r h"] by auto
qed auto

lemma trie_Middle_two:
  "trie cr d n \<Longrightarrow> \<not> is_empty n \<Longrightarrow> \<not> is_terminal n \<Longrightarrow> \<exists>x\<in>elems n. \<exists>y\<in>elems n. x \<noteq> y"
proof (induction n arbitrary: d)
  case (MiddleNode l r h)
  then have w: "trie cr (Suc d) l" "trie cr (Suc d) r" and s: "\<forall>x\<in>elems l. \<not> bitn x d" "\<forall>x\<in>elems r. bitn x d"
    and sh: "\<not> (is_empty l \<and> (is_empty r \<or> is_terminal r)) \<and> \<not> (is_empty r \<and> is_terminal l)"
    using middle_node_shape [of cr l r "MiddleNode l r h"] by auto
  show ?case
  proof (cases "is_empty l \<or> is_empty r")
    case True
    then show ?thesis using MiddleNode.IH(1) [OF w(1)] MiddleNode.IH(2) [OF w(2)] sh by auto
  next
    case False
    then obtain x y where "x \<in> elems l" "y \<in> elems r" using trie_empty [OF w(1)] trie_empty [OF w(2)] by auto
    moreover from this have "x \<noteq> y" using s by auto
    ultimately show ?thesis by auto
  qed
qed auto

lemma is_terminal_iff: "is_terminal n \<longleftrightarrow> (\<exists>h. n = TerminalNode h)"
  by (cases n) auto

lemma is_empty_iff: "is_empty n \<longleftrightarrow> n = EmptyNode"
  by (cases n) auto

lemma trie_terminal_sub:
  assumes "trie cr d n" and "\<not> is_empty n" and "is_terminal m" and "elems n \<subseteq> elems m"
  shows "is_terminal n"
proof -
  obtain h where "elems n \<subseteq> {h}" using assms(3,4) by (auto simp: is_terminal_iff)
  then show ?thesis using trie_Middle_two [OF assms(1,2)] by blast
qed

lemma trie_canonical: "trie cr d n \<Longrightarrow> trie cr d m \<Longrightarrow> elems n = elems m \<Longrightarrow> n = m"
proof (induction n arbitrary: d m)
  case EmptyNode
  then show ?case using trie_empty [OF EmptyNode(2)] by (cases m) auto
next
  case (TerminalNode h)
  have e: "elems m = {h}" using TerminalNode(3) by simp
  have "is_empty m \<or> is_terminal m" using trie_Middle_two [OF TerminalNode(2)] unfolding e by blast
  then show ?case using e by (cases m) auto
next
  case (MiddleNode l r h)
  then have "\<not> is_empty m" "\<not> is_terminal m"
    using trie_Middle_two [OF MiddleNode.prems(1)] trie_empty [OF MiddleNode.prems(2)]
    by (auto elim: is_terminal.elims)
  then obtain l' r' h' where m: "m = MiddleNode l' r' h'" using MiddleNode.prems(2) by (cases m) auto
  have e: "elems l \<union> elems r = elems l' \<union> elems r'" using MiddleNode.prems(3) m by simp
  have "elems l = {x \<in> elems l \<union> elems r. \<not> bitn x d}" "elems r = {x \<in> elems l \<union> elems r. bitn x d}"
    using MiddleNode.prems(1) by auto
  moreover have "elems l' = {x \<in> elems l' \<union> elems r'. \<not> bitn x d}" "elems r' = {x \<in> elems l' \<union> elems r'. bitn x d}"
    using MiddleNode.prems(2) m by auto
  ultimately have "elems l = elems l'" "elems r = elems r'" unfolding e by auto
  then have "l = l'" "r = r'"
    using MiddleNode.IH(1) [of "Suc d" l'] MiddleNode.IH(2) [of "Suc d" r'] MiddleNode.prems m by auto
  then show ?case using MiddleNode.prems m by simp
qed auto

section \<open>Adding and removing\<close>

lemma agree_length: "agree d S \<Longrightarrow> x \<in> S \<Longrightarrow> length x = 32"
  by (simp add: agree_def)

lemma trie_MiddleI:
  assumes "digests cr" and "trie cr (Suc d) l" and "trie cr (Suc d) r"
    and "\<forall>x\<in>elems l. \<not> bitn x d" and "\<forall>x\<in>elems r. bitn x d" and "agree d (elems l \<union> elems r)" and "d < 256"
    and "\<not> (is_empty l \<and> (is_empty r \<or> is_terminal r))" and "\<not> (is_empty r \<and> is_terminal l)"
  shows "\<exists>h. middle_node cr l r = Ok (MiddleNode l r h) \<and> trie cr d (MiddleNode l r h)"
proof -
  have "bytes_less (node_hash l) (node_hash r)" if "is_terminal l \<and> is_terminal r"
  proof -
    from that obtain a b where ab: "l = TerminalNode a" "r = TerminalNode b"
      by (auto elim!: is_terminal.elims)
    show ?thesis using bytes_less_by_bit [of d a b] assms(4-7) by (simp add: ab insert_commute)
  qed
  from middle_node_Ok [OF assms(1-3,8,9) this] assms show ?thesis by auto
qed

lemma make_middle_trie:
  "digests cr \<Longrightarrow> agree d {a, b} \<Longrightarrow> a \<noteq> b \<Longrightarrow> bytes_less a b \<Longrightarrow>
   \<exists>m. make_middle cr a b d = Ok m \<and> trie cr d m \<and> elems m = {a, b}"
proof (induction "256 - d" arbitrary: d rule: less_induct)
  case less
  have len: "length a = 32" "length b = 32" using less.prems(2) by (auto intro: agree_length)
  obtain i where i: "d \<le> i" "i < 256" using agree_differ [OF less.prems(2), of a b] less.prems(3) by auto
  then have d: "d < 256" by simp
  show ?case
  proof (cases "bitn a d = bitn b d")
    case False
    have "\<not> bitn a d" "bitn b d"
      using bytes_less_by_bit [of d b a] bytes_less_asym [OF less.prems(4)] less.prems(2) d False
      by (auto simp: insert_commute)
    then have "\<exists>h. middle_node cr (TerminalNode a) (TerminalNode b) = Ok (MiddleNode (TerminalNode a) (TerminalNode b) h)
        \<and> trie cr d (MiddleNode (TerminalNode a) (TerminalNode b) h)"
      using less.prems d len by (intro trie_MiddleI) (simp_all add: insert_commute)
    then show ?thesis using False len d by (auto simp: make_middle.simps [of cr a b d])
  next
    case True
    have "agree (Suc d) {a, b}" using agree_Suc [OF less.prems(2), of "bitn b d"] True by simp
    with less obtain m where m: "make_middle cr a b (Suc d) = Ok m" "trie cr (Suc d) m" "elems m = {a, b}"
      using d by (metis diff_less_mono2 lessI)
    then have sh: "\<not> is_empty m" "\<not> is_terminal m"
      using trie_empty [OF m(2)] less.prems(3) by (auto elim!: is_terminal.elims)
    have "\<exists>h. middle_node cr m EmptyNode = Ok (MiddleNode m EmptyNode h) \<and> trie cr d (MiddleNode m EmptyNode h)"
      if "\<not> bitn b d"
      using less.prems d m sh that True by (intro trie_MiddleI) simp_all
    moreover have "\<exists>h. middle_node cr EmptyNode m = Ok (MiddleNode EmptyNode m h) \<and> trie cr d (MiddleNode EmptyNode m h)"
      if "bitn b d"
      using less.prems d m sh that True by (intro trie_MiddleI) simp_all
    ultimately show ?thesis using True len d m by (auto simp: make_middle.simps [of cr a b d])
  qed
qed

lemma add_trie:
  "digests cr \<Longrightarrow> trie cr d n \<Longrightarrow> agree d (insert t (elems n)) \<Longrightarrow>
   \<exists>m. add cr n t d = Ok m \<and> trie cr d m \<and> elems m = insert t (elems n)"
proof (induction n arbitrary: d)
  case EmptyNode
  then show ?case using agree_length [of d "{t}" t] by (simp add: terminal_node_def)
next
  case (TerminalNode h)
  have len: "length t = 32" using TerminalNode.prems(3) by (auto intro: agree_length)
  have "bytes_less h t \<or> bytes_less t h" if ne: "t \<noteq> h"
  proof -
    have a: "agree d {t, h}" using TerminalNode.prems(3) by simp
    obtain i where "d \<le> i" "i < 256" "bitn t i \<noteq> bitn h i" using agree_differ [OF a _ _ ne] by auto
    then obtain j where j: "bitn t j \<noteq> bitn h j" "\<And>i. i < j \<Longrightarrow> bitn t i = bitn h i" "j \<le> i"
      using exists_least_iff [of "\<lambda>i. bitn t i \<noteq> bitn h i"] by (metis not_le)
    have "agree j {t, h}" using a j(2) unfolding agree_def by auto
    then show ?thesis using bytes_less_by_bit [of j t h] bytes_less_by_bit [of j h t] j \<open>i < 256\<close>
      by (cases "bitn t j") (auto simp: insert_commute)
  qed
  then show ?case
    using make_middle_trie [of cr d h t] make_middle_trie [of cr d t h] TerminalNode.prems len
    by (auto simp: terminal_node_def insert_commute)
next
  case (MiddleNode l r h)
  note prems = MiddleNode.prems
  have len: "length t = 32" and d: "d < 256" using prems by (auto intro: agree_length)
  have sh: "\<not> (is_empty l \<and> (is_empty r \<or> is_terminal r))" "\<not> (is_empty r \<and> is_terminal l)"
    using middle_node_shape [of cr l r "MiddleNode l r h"] prems(2) by auto
  show ?case
  proof (cases "bitn t d")
    case False
    have "agree (Suc d) (insert t (elems l))"
      using agree_Suc [OF agree_subset [OF prems(3)], of "insert t (elems l)" False] False prems(2) by auto
    from MiddleNode.IH(1) [OF prems(1) _ this] obtain m where m: "add cr l t (Suc d) = Ok m"
        "trie cr (Suc d) m" "elems m = insert t (elems l)" using prems(2) by auto
    have "\<exists>h. middle_node cr m r = Ok (MiddleNode m r h) \<and> trie cr d (MiddleNode m r h)" if "m \<noteq> l"
    proof (rule trie_MiddleI)
      show "\<not> (is_empty m \<and> (is_empty r \<or> is_terminal r))" using m(3) by (cases m) auto
      show "\<not> (is_empty r \<and> is_terminal m)"
        using m(3) sh trie_terminal_sub [of cr "Suc d" l m] trie_empty [of cr "Suc d" m] m(2) prems(2) by auto
    qed (use prems m False d in \<open>auto intro: agree_subset [of d "insert t (elems l \<union> elems r)"]\<close>)
    then show ?thesis using m False len d prems(2) by (cases "m = l") auto
  next
    case True
    have "agree (Suc d) (insert t (elems r))"
      using agree_Suc [OF agree_subset [OF prems(3)], of "insert t (elems r)" True] True prems(2) by auto
    from MiddleNode.IH(2) [OF prems(1) _ this] obtain m where m: "add cr r t (Suc d) = Ok m"
        "trie cr (Suc d) m" "elems m = insert t (elems r)" using prems(2) by auto
    have "\<exists>h. middle_node cr l m = Ok (MiddleNode l m h) \<and> trie cr d (MiddleNode l m h)" if "m \<noteq> r"
    proof (rule trie_MiddleI)
      show "\<not> (is_empty m \<and> is_terminal l)" using m(3) by (cases m) auto
      show "\<not> (is_empty l \<and> (is_empty m \<or> is_terminal m))"
        using m(3) sh trie_terminal_sub [of cr "Suc d" r m] trie_empty [of cr "Suc d" m] m(2) prems(2) by auto
    qed (use prems m True d in \<open>auto intro: agree_subset [of d "insert t (elems l \<union> elems r)"]\<close>)
    then show ?thesis using m True len d prems(2) by (cases "m = r") auto
  qed
qed auto

lemma trie_lift: "trie cr (Suc d) n \<Longrightarrow> is_terminal n \<or> is_empty n \<Longrightarrow> trie cr d n"
  by (cases n) auto

lemma remove_trie:
  "digests cr \<Longrightarrow> trie cr d n \<Longrightarrow> agree d (elems n) \<Longrightarrow> length t = 32 \<Longrightarrow>
   \<exists>m. remove cr n t d = Ok m \<and> trie cr d m \<and> elems m = elems n - {t}"
proof (induction n arbitrary: d)
  case (MiddleNode l r h)
  note prems = MiddleNode.prems
  have d: "d < 256" using prems by auto
  have sh: "\<not> (is_empty l \<and> (is_empty r \<or> is_terminal r))" "\<not> (is_empty r \<and> is_terminal l)"
    using middle_node_shape [of cr l r "MiddleNode l r h"] prems(2) by auto
  have tl: "trie cr (Suc d) l" and tr: "trie cr (Suc d) r" using prems(2) by auto
  show ?case
  proof (cases "bitn t d")
    case False
    have "agree (Suc d) (elems l)"
      using agree_Suc [OF agree_subset [OF prems(3)], of "elems l" False] prems(2) by auto
    from MiddleNode.IH(1) [OF prems(1) tl this prems(4)] obtain m where m: "remove cr l t (Suc d) = Ok m"
        "trie cr (Suc d) m" "elems m = elems l - {t}" by auto
    have e: "elems m \<union> elems r = elems (MiddleNode l r h) - {t}" using m False prems(2) by auto
    have one: "is_terminal (TerminalNode t)" "elems l \<subseteq> elems (TerminalNode t)" if "is_empty m"
      using m(3) that by (auto simp: is_empty_iff)
    have "\<exists>h. middle_node cr m r = Ok (MiddleNode m r h) \<and> trie cr d (MiddleNode m r h)"
      if "\<not> (is_empty m \<and> is_terminal r)" "\<not> (is_terminal m \<and> is_empty r)"
    proof (rule trie_MiddleI)
      show "\<not> (is_empty m \<and> (is_empty r \<or> is_terminal r))"
        using that sh one trie_terminal_sub [OF tl _ one(1)] by blast
    qed (use prems m False d that e in \<open>auto intro: agree_subset [of d "elems l \<union> elems r"]\<close>)
    then show ?thesis using m False d prems(2,4) e trie_lift [OF m(2)] trie_lift [OF tr]
      by (cases "m = l") (auto simp: is_empty_iff)
  next
    case True
    have "agree (Suc d) (elems r)"
      using agree_Suc [OF agree_subset [OF prems(3)], of "elems r" True] prems(2) by auto
    from MiddleNode.IH(2) [OF prems(1) tr this prems(4)] obtain m where m: "remove cr r t (Suc d) = Ok m"
        "trie cr (Suc d) m" "elems m = elems r - {t}" by auto
    have e: "elems l \<union> elems m = elems (MiddleNode l r h) - {t}" using m True prems(2) by auto
    have one: "is_terminal (TerminalNode t)" "elems r \<subseteq> elems (TerminalNode t)" if "is_empty m"
      using m(3) that by (auto simp: is_empty_iff)
    have "\<exists>h. middle_node cr l m = Ok (MiddleNode l m h) \<and> trie cr d (MiddleNode l m h)"
      if "\<not> (is_empty m \<and> is_terminal l)" "\<not> (is_terminal m \<and> is_empty l)"
    proof (rule trie_MiddleI)
      show "\<not> (is_empty l \<and> (is_empty m \<or> is_terminal m))"
        using that sh one trie_terminal_sub [OF tr _ one(1)] by blast
      show "\<not> (is_empty m \<and> is_terminal l)" using that by blast
    qed (use prems m True d that e in \<open>auto intro: agree_subset [of d "elems l \<union> elems r"]\<close>)
    then show ?thesis using m True d prems(2,4) e trie_lift [OF m(2)] trie_lift [OF tl]
      by (cases "m = r") (auto simp: is_empty_iff)
  qed
qed auto

section \<open>Membership and the root\<close>

lemma included_trie:
  "trie cr d n \<Longrightarrow> length t = 32 \<Longrightarrow>
   (\<exists>p. is_included n t d = Ok (t \<in> elems n, p)) \<and> (\<exists>p. other_included n t d c = Ok p)"
proof (induction n arbitrary: d c)
  case (MiddleNode l r h)
  then have d: "d < 256" and tl: "trie cr (Suc d) l" and tr: "trie cr (Suc d) r" by auto
  note L = MiddleNode.IH(1) [OF tl MiddleNode.prems(2)] and R = MiddleNode.IH(2) [OF tr MiddleNode.prems(2)]
  from is_double_trie [OF MiddleNode.prems(1)] obtain b where b: "is_double (MiddleNode l r h) = Ok b" by auto
  have "\<exists>p. is_included (MiddleNode l r h) t d = Ok (t \<in> elems (MiddleNode l r h), p)"
    using L [of "\<not> is_empty r"] R [of "\<not> is_empty l"] MiddleNode.prems d by (cases "bitn t d") auto
  then show ?case using b by (auto simp del: is_double.simps is_included.simps)
qed auto

text \<open>Adding values one by one.\<close>

lemma fold_add_trie:
  "digests cr \<Longrightarrow> trie cr 0 n \<Longrightarrow> \<forall>x\<in>set xs \<union> elems n. length x = 32 \<Longrightarrow>
   \<exists>m. rfold (\<lambda>x s. add_already_hashed cr s x) xs n = Ok m \<and> trie cr 0 m \<and> elems m = set xs \<union> elems n"
proof (induction xs arbitrary: n)
  case (Cons x xs)
  from add_trie [OF Cons.prems(1,2), of x] Cons.prems(3) obtain k where
    k: "add cr n x 0 = Ok k" "trie cr 0 k" "elems k = insert x (elems n)" by auto
  from Cons.IH [OF Cons.prems(1) k(2)] Cons.prems(3) k show ?case by (auto simp: add_already_hashed_def)
qed auto

lemma get_root_trie: "digests cr \<Longrightarrow> trie cr d n \<Longrightarrow> \<exists>h. get_root cr n = Ok h \<and> length h = 32"
  using trie_length [of cr d n]
  by (cases n) (auto simp: get_root_def compress_root_def BLANK_def digests_def)

end
