(* ===== verification/Merkle_Proofs.thy ===== *)
theory Merkle_Proofs
  imports Merkle_Set
begin

text \<open>
  Proofs of the Merkle set of \<^verbatim>\<open>chia/util/merkle_set.py\<close>: a proof that is accepted against a root tells
  the truth about the set with that root, and every set yields accepted proofs for what is in it
  and what is not.
\<close>

section \<open>Soundness of proofs\<close>

text \<open>What is hashed in a tree: the inner nodes, and at the root a lone terminal node.\<close>

fun preimages :: "node \<Rightarrow> bytes set" where
  "preimages (MiddleNode l r h) = insert (inner_preimage l r) (preimages l \<union> preimages r)"
| "preimages _ = {}"

definition root_preimages :: "node \<Rightarrow> bytes set" where
  "root_preimages n = insert (get_hash_node n) (preimages n)"

text \<open>No two of the given byte strings, which are finitely many and known, collide, and none is a
  preimage of the blank hash.\<close>

definition collision_free :: "crypto \<Rightarrow> bytes set \<Rightarrow> bool" where
  "collision_free cr A \<longleftrightarrow>
     inj_on (\<lambda>b. take 32 (hash256 cr b)) A \<and> (\<forall>a\<in>A. take 32 (hash256 cr a) \<noteq> BLANK)"

text \<open>A tree read from a proof: a trie with some subtrees cut off.\<close>

fun ptrie :: "crypto \<Rightarrow> nat \<Rightarrow> node \<Rightarrow> bool" where
  "ptrie cr d EmptyNode = True"
| "ptrie cr d (TerminalNode h) = (length h = 32)"
| "ptrie cr d (TruncatedNode h) = (length h \<le> 32)"
| "ptrie cr d (MiddleNode l r h) =
     (ptrie cr (Suc d) l \<and> ptrie cr (Suc d) r \<and> (\<forall>x\<in>elems l. \<not> bitn x d) \<and> (\<forall>x\<in>elems r. bitn x d) \<and>
      middle_node cr l r = Ok (MiddleNode l r h))"

lemma trie_ptrie: "trie cr d n \<Longrightarrow> ptrie cr d n"
  by (induction n arbitrary: d) auto

lemma hashdown_eq_Ok:
  assumes "hashdown cr (get_hash_node l @ get_hash_node r) = Ok h"
    and "length (node_hash l) \<le> 32" and "length (node_hash r) \<le> 32"
  shows "length (node_hash l) = 32 \<and> length (node_hash r) = 32 \<and> h = take 32 (hash256 cr (inner_preimage l r))"
proof -
  have "length (get_hash_node l @ get_hash_node r) = 66" using assms(1) by (auto simp: hashdown_def)
  moreover have "length (get_hash_node n) = Suc (length (node_hash n))" for n by (cases n) auto
  ultimately have "length (node_hash l) = 32 \<and> length (node_hash r) = 32" using assms(2,3) by simp
  then show ?thesis using hashdown_Ok [of l r cr] assms(1) by simp
qed

text \<open>The bytes whose hash an inner node carries: a node over exactly two elements carries the hash of
  the node that splits them.\<close>

fun core :: "node \<Rightarrow> bytes" where
  "core (MiddleNode l r h) =
     (if is_empty l \<and> is_double r = Ok True then core r
      else if is_empty r \<and> is_double l = Ok True then core l
      else inner_preimage l r)"
| "core _ = []"

lemma ptrie_hash_length:
  "digests cr \<Longrightarrow> ptrie cr d n \<Longrightarrow> length (node_hash n) \<le> 32 \<and>
   (\<forall>l r h. n = MiddleNode l r h \<longrightarrow> h = take 32 (hash256 cr (core n)) \<and> core n \<in> preimages n)"
proof (induction n arbitrary: d)
  case (MiddleNode l r h)
  from MiddleNode.prems have p: "ptrie cr (Suc d) l" "ptrie cr (Suc d) r"
      and m: "middle_node cr l r = Ok (MiddleNode l r h)" by auto
  note L = MiddleNode.IH(1) [OF MiddleNode.prems(1) p(1)] and R = MiddleNode.IH(2) [OF MiddleNode.prems(1) p(2)]
  have Mr: "\<exists>l' r' h'. r = MiddleNode l' r' h'" if "is_double r = Ok True" using that by (cases r) auto
  have Ml: "\<exists>l' r' h'. l = MiddleNode l' r' h'" if "is_double l = Ok True" using that by (cases l) auto
  consider "is_empty l" "is_double r = Ok True" | "\<not> (is_empty l \<and> is_double r = Ok True)" "is_empty r" "is_double l = Ok True"
    | "\<not> (is_empty l \<and> is_double r = Ok True)" "\<not> (is_empty r \<and> is_double l = Ok True)" by blast
  then have "h = take 32 (hash256 cr (core (MiddleNode l r h))) \<and>
      core (MiddleNode l r h) \<in> preimages (MiddleNode l r h)"
  proof cases
    case 1
    then have "h = node_hash r" using m by (simp add: middle_node_def)
    then show ?thesis using 1 R Mr by auto
  next
    case 2
    then have "h = node_hash l" using m by (auto simp: middle_node_def split: if_splits)
    then show ?thesis using 2 L Ml by auto
  next
    case 3
    have "hashdown cr (get_hash_node l @ get_hash_node r) = Ok h"
      using m 3 by (auto simp: middle_node_def split: if_splits)
    with hashdown_eq_Ok [OF this] L R 3 show ?thesis by auto
  qed
  then show ?case by simp
qed (simp_all add: BLANK_def)

lemma get_bit_OkD: "get_bit v d = Ok b \<Longrightarrow> length v = 32 \<and> d < 256"
  using get_bit_range by (auto simp: get_bit_def)

lemma inner_preimage_tags: "take 2 (drop 30 (inner_preimage l r)) = [hd (get_hash_node l), hd (get_hash_node r)]"
  by (simp add: inner_preimage_def)

lemma tag_terminal: "hd (get_hash_node n) = TERMINAL \<longleftrightarrow> is_terminal n"
  by (cases n) auto

lemma is_double_ptrie:
  "ptrie cr d n \<Longrightarrow> \<not> is_empty n \<Longrightarrow> \<not> is_terminal n \<Longrightarrow> \<exists>b. is_double n = Ok b"
proof (induction n arbitrary: d)
  case (MiddleNode l r h)
  then show ?case using middle_node_shape [of cr l r "MiddleNode l r h"] by auto
qed auto

lemma double_core:
  "ptrie cr d n \<Longrightarrow> is_double n = Ok True \<Longrightarrow>
   \<exists>a b. core n = replicate 30 0 @ [TERMINAL, TERMINAL] @ a @ b \<and> elems n = {a, b} \<and>
         length a = 32 \<and> length b = 32"
proof (induction n arbitrary: d)
  case (MiddleNode l r h)
  then show ?case
    by (cases "is_empty l"; cases "is_empty r")
      (auto simp: is_terminal_iff is_empty_iff inner_preimage_def, blast)
qed auto

lemma single_core:
  "is_double (MiddleNode l r h) = Ok False \<Longrightarrow>
   core (MiddleNode l r h) = inner_preimage l r \<and> \<not> (is_terminal l \<and> is_terminal r)"
  by (auto simp: is_terminal_iff is_empty_iff split: if_splits)

lemma double_by_core:
  assumes "ptrie cr d (MiddleNode l r h)" and "is_double (MiddleNode l r h) = Ok b"
  shows "b \<longleftrightarrow> take 2 (drop 30 (core (MiddleNode l r h))) = [TERMINAL, TERMINAL]"
proof (cases b)
  case True
  then obtain x y where "core (MiddleNode l r h) = replicate 30 0 @ [TERMINAL, TERMINAL] @ x @ y"
    using double_core [OF assms(1)] assms(2) by auto
  then have "take 2 (drop 30 (core (MiddleNode l r h))) = [TERMINAL, TERMINAL]" by (simp only:) simp
  with True show ?thesis by simp
next
  case False
  then have c: "core (MiddleNode l r h) = inner_preimage l r" "\<not> (is_terminal l \<and> is_terminal r)"
    using single_core assms(2) by (metis (full_types))+
  show ?thesis unfolding c(1) inner_preimage_tags using c(2) False tag_terminal by simp
qed

lemma included_double:
  "ptrie cr d n \<Longrightarrow> is_double n = Ok True \<Longrightarrow> is_included n v d = Ok (r, q) \<Longrightarrow> r \<longleftrightarrow> v \<in> elems n"
proof (induction n arbitrary: d r q)
  case (MiddleNode l k h)
  from MiddleNode.prems(3) obtain bv where "get_bit v d = Ok bv" by auto
  then have len: "length v = 32" and d: "d < 256" by (auto dest: get_bit_OkD)
  show ?case
    using MiddleNode.prems MiddleNode.IH(1) [of "Suc d"] MiddleNode.IH(2) [of "Suc d"] len d
    by (cases "bitn v d") (auto simp: is_empty_iff is_terminal_iff split: if_splits)
qed auto

lemma inner_preimage_inj:
  assumes "inner_preimage l r = inner_preimage l' r'" and "length (node_hash l) = 32" and "length (node_hash l') = 32"
  shows "get_hash_node l = get_hash_node l' \<and> get_hash_node r = get_hash_node r'"
  using assms by (subst (1 2 3 4) get_hash_node_eq) (simp add: inner_preimage_def)

text \<open>A tree read from a proof answers as the trie with the same hash does.\<close>

lemma included_sound:
  "digests cr \<Longrightarrow> ptrie cr d p \<Longrightarrow> trie cr d n \<Longrightarrow> get_hash_node p = get_hash_node n \<Longrightarrow>
   inj_on (\<lambda>b. take 32 (hash256 cr b)) (preimages p \<union> preimages n) \<Longrightarrow>
   is_included p v d = Ok (r, q) \<Longrightarrow> r \<longleftrightarrow> v \<in> elems n"
proof (induction p arbitrary: d n r q)
  case EmptyNode
  then show ?case by (cases n) auto
next
  case (TerminalNode h)
  then show ?case by (cases n) auto
next
  case (MiddleNode l k h)
  note prems = MiddleNode.prems
  from prems(3,4) obtain l' k' where n: "n = MiddleNode l' k' h" by (cases n) auto
  from prems(6) obtain bv where "get_bit v d = Ok bv" by auto
  then have len: "length v = 32" and d: "d < 256" by (auto dest: get_bit_OkD)
  have pn: "ptrie cr d n" by (rule trie_ptrie [OF prems(3)])
  have "\<not> is_empty n" "\<not> is_terminal n" using n by simp_all
  with is_double_ptrie [OF prems(2)] is_double_ptrie [OF pn]
  obtain b b' where b: "is_double (MiddleNode l k h) = Ok b" "is_double n = Ok b'"
    by (auto simp del: is_double.simps)
  note p1 = ptrie_hash_length [OF prems(1,2), THEN conjunct2, rule_format, OF refl]
  note n1 = ptrie_hash_length [OF prems(1) pn, THEN conjunct2, rule_format, OF n]
  have eq: "take 32 (hash256 cr (core (MiddleNode l k h))) = take 32 (hash256 cr (core n))"
    by (rule trans [OF p1 [THEN conjunct1, symmetric] n1 [THEN conjunct1]])
  have core: "core (MiddleNode l k h) = core n"
    by (rule inj_onD [OF prems(5) eq UnI1 [OF p1 [THEN conjunct2]] UnI2 [OF n1 [THEN conjunct2]]])
  have bb: "b' = b" using double_by_core [OF prems(2) b(1)] double_by_core [of cr d l' k' h b'] pn b(2) core n by auto
  show ?case
  proof (cases b)
    case True
    with double_core [OF prems(2)] double_core [OF pn] b bb core have "elems (MiddleNode l k h) = elems n"
      by auto
    then show ?thesis using included_double [OF prems(2) _ prems(6)] b True by simp
  next
    case False
    have c: "core (MiddleNode l k h) = inner_preimage l k" "core n = inner_preimage l' k'"
      using single_core [of l k h] single_core [of l' k' h] b bb False n by auto
    have "hashdown cr (get_hash_node l @ get_hash_node k) = Ok h"
      using prems(2) b(1) False by (auto simp: middle_node_def split: if_splits)
    then have hl: "length (node_hash l) = 32"
      using hashdown_eq_Ok [of cr l k h] ptrie_hash_length [OF prems(1)] prems(2) by auto
    have e: "get_hash_node l = get_hash_node l' \<and> get_hash_node k = get_hash_node k'"
      using inner_preimage_inj [OF _ hl] trie_length [of cr "Suc d" l'] prems(3) core c n by auto
    have t: "ptrie cr (Suc d) l" "ptrie cr (Suc d) k" "trie cr (Suc d) l'" "trie cr (Suc d) k'"
      and s: "\<forall>x\<in>elems l'. \<not> bitn x d" "\<forall>x\<in>elems k'. bitn x d"
      using prems(2,3) n by auto
    have "inj_on (\<lambda>b. take 32 (hash256 cr b)) (preimages l \<union> preimages l')"
      "inj_on (\<lambda>b. take 32 (hash256 cr b)) (preimages k \<union> preimages k')"
      by (rule inj_on_subset [OF prems(5)]; auto simp: n)+
    note IH = MiddleNode.IH(1) [OF prems(1) t(1,3) conjunct1 [OF e] this(1)]
      MiddleNode.IH(2) [OF prems(1) t(2,4) conjunct2 [OF e] this(2)]
    show ?thesis
    proof (cases "bitn v d")
      case True
      with prems(6) len d obtain q' where "is_included k v (Suc d) = Ok (r, q')" by auto
      from IH(2) [OF this] True s n show ?thesis by auto
    next
      case False
      with prems(6) len d obtain q' where "is_included l v (Suc d) = Ok (r, q')" by auto
      from IH(1) [OF this] False s n show ?thesis by auto
    qed
  qed
qed auto

section \<open>Reading a proof\<close>

text \<open>The elements below a path carry its bits.\<close>

definition on_path :: "nat list \<Rightarrow> bytes set \<Rightarrow> bool" where
  "on_path bits S \<longleftrightarrow> (\<forall>x\<in>S. \<forall>i<length bits. bits ! i = of_bool (bitn x i))"

lemma on_path_snoc:
  "on_path (bits @ [of_bool b]) S \<longleftrightarrow> on_path bits S \<and> (\<forall>x\<in>S. bitn x (length bits) = b)"
  by (auto simp: on_path_def nth_append less_Suc_eq)

lemma terminal_audit_Ok:
  "length h = 32 \<Longrightarrow> terminal_audit h bits k = Ok u \<longleftrightarrow>
     k + length bits \<le> max k 256 \<and> (\<forall>i<length bits. bits ! i = of_bool (bitn h (k + i)))"
proof (induction bits arbitrary: k)
  case (Cons v bits)
  have e: "(\<forall>i<length (v # bits). (v # bits) ! i = of_bool (bitn h (k + i))) \<longleftrightarrow>
      v = of_bool (bitn h k) \<and> (\<forall>i<length bits. bits ! i = of_bool (bitn h (Suc k + i)))"
    by (simp add: All_less_Suc2)
  show ?case
  proof (cases "k < 256")
    case True
    then show ?thesis unfolding e using Cons by (auto simp: rbind_eq_Ok)
  next
    case False
    then have "get_bit h k \<noteq> Ok b" for b by (auto dest: get_bit_OkD)
    then show ?thesis using False by (auto simp: rbind_eq_Ok)
  qed
qed auto

lemma terminal_node_bits_Ok:
  "terminal_node h (Some bits) = Ok n \<longleftrightarrow>
     length h = 32 \<and> n = TerminalNode h \<and> length bits \<le> 256 \<and> on_path bits {h}"
proof (cases "length h = 32")
  case True
  have "terminal_audit h bits 0 = Ok u \<longleftrightarrow> length bits \<le> 256 \<and> on_path bits {h}" for u
    using terminal_audit_Ok [OF True, of bits 0 u] by (simp add: on_path_def)
  with True show ?thesis by (auto simp: terminal_node_def rbind_eq_Ok)
qed (simp add: terminal_node_def)

lemma take1_drop_less: "take 1 (drop pos xs) = [x] \<Longrightarrow> pos < length xs"
  by (cases "pos < length xs") auto

lemma deserialize_ptrie:
  "deserialize cr b pos bits = Ok r \<Longrightarrow> pos < snd r \<and> ptrie cr (length bits) (fst r) \<and> on_path bits (elems (fst r))"
proof (induction "length b - pos" arbitrary: pos bits r rule: less_induct)
  case less
  let ?t = "take 1 (drop pos b)"
  consider "?t = [EMPTY]" | "?t = [TERMINAL]" | "?t = [TRUNCATED]" | "?t = [MIDDLE]"
    using less.prems unfolding deserialize.simps [of cr b pos bits] Let_def by (auto split: if_splits)
  then show ?case
  proof cases
    case 4
    then have pos: "pos < length b" by (rule take1_drop_less)
    from less.prems 4 obtain v0 v1 n where
      v0: "deserialize cr b (pos + 1) (bits @ [0]) = Ok v0"
      and v1: "deserialize cr b (snd v0) (bits @ [1]) = Ok v1"
      and n: "middle_node cr (fst v0) (fst v1) = Ok n" and r: "r = (n, snd v1)"
      by (auto simp: deserialize.simps [of cr b pos bits])
    have a: "pos + 1 < snd v0" "ptrie cr (Suc (length bits)) (fst v0)" "on_path (bits @ [0]) (elems (fst v0))"
      using less.hyps [OF _ v0] pos by auto
    have c: "snd v0 < snd v1" "ptrie cr (Suc (length bits)) (fst v1)" "on_path (bits @ [1]) (elems (fst v1))"
      using less.hyps [OF _ v1] pos a(1) by auto
    from middle_node_result [OF n] obtain h where h: "n = MiddleNode (fst v0) (fst v1) h" ..
    show ?thesis
      using a c n on_path_snoc [of bits False "elems (fst v0)"] on_path_snoc [of bits True "elems (fst v1)"]
      by (auto simp: r h on_path_def)
  qed (use less.prems in \<open>auto simp: deserialize.simps [of cr b pos bits] terminal_node_bits_Ok on_path_def\<close>)
qed

lemma returns_hashdown [returns_rules]: "returns (hashdown cr b)"
  unfolding hashdown_def prehashed_prefix_def by (intro returns_rules)

lemma returns_is_double [returns_rules]: "returns (is_double n)"
  by (induction n) (auto intro: returns_rules)

lemma returns_middle_node [returns_rules]: "returns (middle_node cr l r)"
  unfolding middle_node_def by (intro returns_rules)

lemma returns_terminal_audit [returns_rules]: "returns (terminal_audit h bits k)"
  by (induction bits arbitrary: k) (auto simp: get_bit_def intro!: returns_rules)

lemma returns_terminal_node [returns_rules]: "returns (terminal_node h bits)"
  unfolding terminal_node_def by (intro returns_rules)

lemma returns_deserialize: "returns (deserialize cr b pos bits)"
proof (induction "length b - pos" arbitrary: pos bits rule: less_induct)
  case less
  show ?case
  proof (cases "take 1 (drop pos b) = [MIDDLE]")
    case True
    then have pos: "pos < length b" by (rule take1_drop_less)
    have 1: "returns (deserialize cr b (pos + 1) (bits @ [0]))" using pos by (intro less) simp
    have "returns (deserialize cr b (snd v) (bits @ [1]))" if "deserialize cr b (pos + 1) (bits @ [0]) = Ok v" for v
      using deserialize_ptrie [OF that] pos by (intro less) auto
    with True 1 show ?thesis
      unfolding deserialize.simps [of cr b pos bits] Let_def by (auto intro!: returns_rules)
  next
    case False
    then show ?thesis
      unfolding deserialize.simps [of cr b pos bits] Let_def by (auto intro!: returns_rules)
  qed
qed

section \<open>An accepted proof tells the truth\<close>

lemma deserialize_proof_ptrie:
  "deserialize_proof cr b = Ok p \<Longrightarrow> ptrie cr 0 p"
  using deserialize_ptrie [of cr b 0 "[]"]
  by (fastforce simp: deserialize_proof_def Let_def split: if_splits prod.splits)

lemma preimages_hd: "c \<in> preimages m \<Longrightarrow> c \<noteq> TERMINAL # h"
proof (induction m)
  case (MiddleNode l r k)
  have "hd (inner_preimage l r) = 0" by (simp add: inner_preimage_def numeral_eq_Suc)
  then have "inner_preimage l r \<noteq> TERMINAL # h" by (metis list.sel(1) zero_neq_one)
  then show ?case using MiddleNode by auto
qed auto

text \<open>The three kinds of root.\<close>

lemma get_root_cases:
  assumes "digests cr" and "ptrie cr 0 n" and "get_root cr n = Ok r" and "\<nexists>h. n = TruncatedNode h"
  obtains "n = EmptyNode" and "r = BLANK"
  | h where "n = TerminalNode h" and "r = take 32 (hash256 cr (TERMINAL # h))"
  | l k c where "n = MiddleNode l k r" and "r = take 32 (hash256 cr c)" and "c \<in> preimages n"
proof (cases n)
  case (MiddleNode l k h)
  have "h = take 32 (hash256 cr (core n)) \<and> core n \<in> preimages n"
    using ptrie_hash_length [OF assms(1,2)] MiddleNode by blast
  moreover have "r = h" using assms(3) MiddleNode by (auto simp: get_root_def compress_root_def)
  ultimately show ?thesis using that(3) MiddleNode by blast
qed (use assms that in \<open>auto simp: get_root_def compress_root_def\<close>)

lemma compress_root_binding:
  assumes dg: "digests cr" and p: "ptrie cr 0 p" and n: "trie cr 0 n" and nt: "\<nexists>h. p = TruncatedNode h"
    and free: "collision_free cr (root_preimages p \<union> root_preimages n)"
    and rp: "get_root cr p = Ok r" and rn: "get_root cr n = Ok r"
  shows "get_hash_node p = get_hash_node n"
proof -
  let ?f = "\<lambda>b. take 32 (hash256 cr b)" and ?S = "root_preimages p \<union> root_preimages n"
  have inj: "?f x = ?f y \<Longrightarrow> x = y" if "x \<in> ?S" "y \<in> ?S" for x y
    using free that unfolding collision_free_def by (blast dest: inj_onD)
  have same: "x = y" if "x \<in> ?S" "y \<in> ?S" "r = ?f x" "r = ?f y" for x y
    using inj [OF that(1,2)] trans [OF that(3) [symmetric] that(4)] by blast
  have nb: "?f x \<noteq> BLANK" if "x \<in> ?S" for x
    using free that unfolding collision_free_def by blast
  have T: "TERMINAL # h \<in> root_preimages m" if "m = TerminalNode h" for m h using that by (simp add: root_preimages_def)
  have P: "c \<in> root_preimages m" if "c \<in> preimages m" for c m using that by (simp add: root_preimages_def)
  from n have "\<nexists>h. n = TruncatedNode h" by auto
  from get_root_cases [OF dg trie_ptrie [OF n] rn this] show ?thesis
  proof cases
    case 1
    from get_root_cases [OF dg p rp nt] show ?thesis
    proof cases
      case 1 with \<open>n = EmptyNode\<close> show ?thesis by simp
    next
      case (2 h) with 1 nb [of "TERMINAL # h"] T [of p h] show ?thesis by auto
    next
      case (3 l k c) with 1 nb [of c] P [of c p] show ?thesis by auto
    qed
  next
    case (2 h)
    from get_root_cases [OF dg p rp nt] show ?thesis
    proof cases
      case 1 with 2 nb [of "TERMINAL # h"] T [of n h] show ?thesis by auto
    next
      case (2 h')
      have "?f (TERMINAL # h) = ?f (TERMINAL # h')"
        by (rule trans [OF \<open>r = ?f (TERMINAL # h)\<close> [symmetric] \<open>r = ?f (TERMINAL # h')\<close>])
      then have "TERMINAL # h = TERMINAL # h'"
        using inj T [OF \<open>n = TerminalNode h\<close>] T [OF \<open>p = TerminalNode h'\<close>] by blast
      then show ?thesis using \<open>n = TerminalNode h\<close> \<open>p = TerminalNode h'\<close> by simp
    next
      case (3 l k c)
      have "c = TERMINAL # h"
        using same [OF _ _ \<open>r = ?f c\<close> \<open>r = ?f (TERMINAL # h)\<close>] T [OF \<open>n = TerminalNode h\<close>] P [OF \<open>c \<in> preimages p\<close>]
        by blast
      then show ?thesis using preimages_hd [OF \<open>c \<in> preimages p\<close>] by blast
    qed
  next
    case (3 l k c)
    from get_root_cases [OF dg p rp nt] show ?thesis
    proof cases
      case 1 with 3 nb [of c] P [of c n] show ?thesis by auto
    next
      case (2 h')
      have "c = TERMINAL # h'"
        using same [OF _ _ \<open>r = ?f c\<close> \<open>r = ?f (TERMINAL # h')\<close>] T [OF \<open>p = TerminalNode h'\<close>] P [OF \<open>c \<in> preimages n\<close>]
        by blast
      then show ?thesis using preimages_hd [OF \<open>c \<in> preimages n\<close>] by blast
    next
      case (3 l' k' c')
      with \<open>n = MiddleNode l k r\<close> show ?thesis by simp
    qed
  qed
qed

lemma confirm_sound:
  assumes dg: "digests cr" and n: "trie cr 0 n" and root: "get_root cr n = Ok root"
    and c: "confirm cr root v b expected = Ok True"
    and free: "\<And>p. deserialize_proof cr b = Ok p \<Longrightarrow> collision_free cr (root_preimages p \<union> root_preimages n)"
  shows "expected \<longleftrightarrow> v \<in> elems n"
proof -
  from c obtain p res q where p: "deserialize_proof cr b = Ok p" "get_root cr p = Ok root"
      and r: "is_included p v 0 = Ok (res, q)" and e: "res = expected"
    by (auto simp: confirm_def Let_def is_included_already_hashed_def rbind_eq_Ok split: if_splits prod.splits)
  have nt: "\<nexists>h. p = TruncatedNode h" using r by auto
  note pt = deserialize_proof_ptrie [OF p(1)]
  from compress_root_binding [OF dg pt n nt free [OF p(1)] p(2) root] have g: "get_hash_node p = get_hash_node n" .
  have "inj_on (\<lambda>b. take 32 (hash256 cr b)) (preimages p \<union> preimages n)"
    using free [OF p(1)] unfolding collision_free_def by (auto intro: inj_on_subset simp: root_preimages_def)
  from included_sound [OF dg pt n g this r] e show ?thesis by simp
qed

section \<open>Every set has its proofs\<close>

text \<open>A tree that can stand for another below an inner node.\<close>

definition stands_for :: "node \<Rightarrow> node \<Rightarrow> bool" where
  "stands_for p n \<longleftrightarrow> get_hash_node p = get_hash_node n \<and> is_empty p = is_empty n \<and> is_terminal p = is_terminal n"

lemma stands_for_refl [simp]: "stands_for n n"
  by (simp add: stands_for_def)

lemma middle_node_cong:
  assumes "middle_node cr l r = Ok (MiddleNode l r h)" and "stands_for pl l" and "stands_for pr r"
    and "is_empty l \<Longrightarrow> is_double pr = is_double r" and "is_empty r \<Longrightarrow> is_double pl = is_double l"
  shows "middle_node cr pl pr = Ok (MiddleNode pl pr h)"
proof -
  have "node_hash n = tl (get_hash_node n)" for n by (cases n) auto
  then have "node_hash pl = node_hash l" "node_hash pr = node_hash r"
    using assms(2,3) by (simp_all add: stands_for_def)
  then have e: "node_hash pl = node_hash l" "node_hash pr = node_hash r" "is_empty pl = is_empty l"
    "is_empty pr = is_empty r" "is_terminal pl = is_terminal l" "is_terminal pr = is_terminal r"
    "get_hash_node pl = get_hash_node l" "get_hash_node pr = get_hash_node r"
    using assms(2,3) by (simp_all add: stands_for_def)
  have d: "(if is_empty l then is_double pr else Ok False) = (if is_empty l then is_double r else Ok False)"
    "(if is_empty r then is_double pl else Ok False) = (if is_empty r then is_double l else Ok False)"
    using assms(4,5) by simp_all
  from assms(1) obtain x where x: "(if is_empty l then is_double r else Ok False) = Ok x"
    unfolding middle_node_def by blast
  show ?thesis
  proof (cases x)
    case True
    with assms(1) show ?thesis unfolding middle_node_def e d x by simp
  next
    case False
    with assms(1) obtain y where y: "(if is_empty r then is_double l else Ok False) = Ok y"
      unfolding middle_node_def x by auto
    from assms(1) show ?thesis unfolding middle_node_def e d x y using False by (auto split: if_splits)
  qed
qed

text \<open>The bytes \<open>q\<close>, wherever they stand, are read as \<open>p\<close>.\<close>

definition reads_as :: "crypto \<Rightarrow> bytes \<Rightarrow> nat list \<Rightarrow> node \<Rightarrow> bool" where
  "reads_as cr q bits p \<longleftrightarrow>
     (\<forall>pre post. deserialize cr (pre @ q @ post) (length pre) bits = Ok (p, length pre + length q))"

lemma reads_as_empty: "reads_as cr [EMPTY] bits EmptyNode"
  by (simp add: reads_as_def deserialize.simps)

lemma reads_as_terminal:
  "length h = 32 \<Longrightarrow> length bits \<le> 256 \<Longrightarrow> on_path bits {h} \<Longrightarrow> reads_as cr (TERMINAL # h) bits (TerminalNode h)"
  using terminal_node_bits_Ok [of h bits "TerminalNode h"] by (simp add: reads_as_def deserialize.simps)

lemma reads_as_truncated: "length h = 32 \<Longrightarrow> reads_as cr (TRUNCATED # h) bits (TruncatedNode h)"
  by (simp add: reads_as_def deserialize.simps)

lemma reads_as_middle:
  assumes "reads_as cr q1 (bits @ [0]) pl" and "reads_as cr q2 (bits @ [1]) pr" and "middle_node cr pl pr = Ok p"
  shows "reads_as cr (MIDDLE # q1 @ q2) bits p"
  unfolding reads_as_def
proof (intro allI)
  fix pre post
  have "deserialize cr (pre @ (MIDDLE # q1 @ q2) @ post) (length pre + 1) (bits @ [0])
      = Ok (pl, length pre + 1 + length q1)"
    using assms(1) [unfolded reads_as_def, rule_format, of "pre @ [MIDDLE]" "q2 @ post"] by simp
  moreover have "deserialize cr (pre @ (MIDDLE # q1 @ q2) @ post) (length pre + 1 + length q1) (bits @ [1])
      = Ok (pr, length pre + 1 + length q1 + length q2)"
    using assms(2) [unfolded reads_as_def, rule_format, of "pre @ [MIDDLE] @ q1" post] by simp
  ultimately show "deserialize cr (pre @ (MIDDLE # q1 @ q2) @ post) (length pre) bits
      = Ok (p, length pre + length (MIDDLE # q1 @ q2))"
    using assms(3) by (subst deserialize.simps) simp
qed

definition good_in :: "crypto \<Rightarrow> nat list \<Rightarrow> node \<Rightarrow> bytes \<Rightarrow> nat \<Rightarrow> bool" where
  "good_in cr bits n v d \<longleftrightarrow>
     (\<exists>res q p q'. is_included n v d = Ok (res, q) \<and> reads_as cr q bits p \<and> stands_for p n \<and>
        is_double p = is_double n \<and> is_included p v d = Ok (res, q'))"

definition good_other :: "crypto \<Rightarrow> nat list \<Rightarrow> node \<Rightarrow> bytes \<Rightarrow> nat \<Rightarrow> bool \<Rightarrow> bool" where
  "good_other cr bits n v d c \<longleftrightarrow>
     (\<exists>q p q'. other_included n v d c = Ok q \<and> reads_as cr q bits p \<and> stands_for p n \<and>
        (\<not> c \<longrightarrow> is_double p = is_double n) \<and> other_included p v d c = Ok q')"

lemma good_middle:
  assumes t: "trie cr d (MiddleNode l r h)" and v: "length v = 32" and len: "length bits = d"
    and L: "good_in cr (bits @ [0]) l v (Suc d)" "good_other cr (bits @ [0]) l v (Suc d) (\<not> is_empty r)"
    and R: "good_in cr (bits @ [1]) r v (Suc d)" "good_other cr (bits @ [1]) r v (Suc d) (\<not> is_empty l)"
  shows "good_in cr bits (MiddleNode l r h) v d"
proof -
  from t have d: "d < 256" and m: "middle_node cr l r = Ok (MiddleNode l r h)" by auto
  have both: "stands_for (MiddleNode pl pr h) (MiddleNode l r h)
      \<and> is_double (MiddleNode pl pr h) = is_double (MiddleNode l r h)
      \<and> middle_node cr pl pr = Ok (MiddleNode pl pr h)"
    if "stands_for pl l" "stands_for pr r" "is_empty l \<Longrightarrow> is_double pr = is_double r"
      "is_empty r \<Longrightarrow> is_double pl = is_double l" for pl pr
    using middle_node_cong [OF m that] that by (auto simp: stands_for_def)
  show ?thesis
  proof (cases "bitn v d")
    case False
    from L(1) obtain res q p q' where l: "is_included l v (Suc d) = Ok (res, q)" "reads_as cr q (bits @ [0]) p"
      "stands_for p l" "is_double p = is_double l" "is_included p v (Suc d) = Ok (res, q')"
      unfolding good_in_def by blast
    from R(2) obtain k s k' where r: "other_included r v (Suc d) (\<not> is_empty l) = Ok k" "reads_as cr k (bits @ [1]) s"
      "stands_for s r" "is_empty l \<Longrightarrow> is_double s = is_double r" "other_included s v (Suc d) (\<not> is_empty l) = Ok k'"
      unfolding good_other_def by blast
    have b: "stands_for (MiddleNode p s h) (MiddleNode l r h)
        \<and> is_double (MiddleNode p s h) = is_double (MiddleNode l r h)
        \<and> middle_node cr p s = Ok (MiddleNode p s h)" using l r by (intro both) auto
    have "is_included (MiddleNode l r h) v d = Ok (res, MIDDLE # q @ k)" using l r False v d by simp
    moreover have "is_empty p = is_empty l" using l(3) by (simp add: stands_for_def)
    then have "is_included (MiddleNode p s h) v d = Ok (res, MIDDLE # q' @ k')" using l r False v d by simp
    ultimately show ?thesis unfolding good_in_def using b reads_as_middle [OF l(2) r(2)] by blast
  next
    case True
    from R(1) obtain res q p q' where r: "is_included r v (Suc d) = Ok (res, q)" "reads_as cr q (bits @ [1]) p"
      "stands_for p r" "is_double p = is_double r" "is_included p v (Suc d) = Ok (res, q')"
      unfolding good_in_def by blast
    from L(2) obtain k s k' where l: "other_included l v (Suc d) (\<not> is_empty r) = Ok k" "reads_as cr k (bits @ [0]) s"
      "stands_for s l" "is_empty r \<Longrightarrow> is_double s = is_double l" "other_included s v (Suc d) (\<not> is_empty r) = Ok k'"
      unfolding good_other_def by blast
    have b: "stands_for (MiddleNode s p h) (MiddleNode l r h)
        \<and> is_double (MiddleNode s p h) = is_double (MiddleNode l r h)
        \<and> middle_node cr s p = Ok (MiddleNode s p h)" using l r by (intro both) auto
    have "is_included (MiddleNode l r h) v d = Ok (res, MIDDLE # k @ q)" using l r True v d by simp
    moreover have "is_empty p = is_empty r" using r(3) by (simp add: stands_for_def)
    then have "is_included (MiddleNode s p h) v d = Ok (res, MIDDLE # k' @ q')" using l r True v d by simp
    ultimately show ?thesis unfolding good_in_def using b reads_as_middle [OF l(2) r(2)] by blast
  qed
qed

lemma good_trie:
  "trie cr d n \<Longrightarrow> length v = 32 \<Longrightarrow> d \<le> 256 \<Longrightarrow> length bits = d \<Longrightarrow> on_path bits (elems n) \<Longrightarrow>
   good_in cr bits n v d \<and> good_other cr bits n v d c"
proof (induction n arbitrary: d bits c)
  case EmptyNode
  then show ?case unfolding good_in_def good_other_def using reads_as_empty by fastforce
next
  case (TerminalNode h)
  then have "reads_as cr (TERMINAL # h) bits (TerminalNode h)" by (intro reads_as_terminal) auto
  then show ?case unfolding good_in_def good_other_def by fastforce
next
  case (MiddleNode l r h)
  let ?n = "MiddleNode l r h"
  note t = MiddleNode.prems(1) and v = MiddleNode.prems(2) and len = MiddleNode.prems(4)
  have d: "Suc d \<le> 256" and tl: "trie cr (Suc d) l" and tr: "trie cr (Suc d) r" and h: "length h = 32"
    using t by auto
  have p: "on_path (bits @ [0]) (elems l)" "on_path (bits @ [1]) (elems r)"
    using MiddleNode.prems(5) t len on_path_snoc [of bits False "elems l"] on_path_snoc [of bits True "elems r"]
    by (auto simp: on_path_def)
  have "good_in cr (bits @ [0]) l v (Suc d)" "good_other cr (bits @ [0]) l v (Suc d) (\<not> is_empty r)"
    and "good_in cr (bits @ [1]) r v (Suc d)" "good_other cr (bits @ [1]) r v (Suc d) (\<not> is_empty l)"
    using MiddleNode.IH(1) [OF tl v d _ p(1)] MiddleNode.IH(2) [OF tr v d _ p(2)] len by simp_all
  from good_middle [OF t v len this] have g: "good_in cr bits ?n v d" .
  from is_double_trie [OF t] obtain b where b: "is_double ?n = Ok b" by auto
  have "good_other cr bits ?n v d c"
  proof (cases "c \<or> \<not> b")
    case True
    have "stands_for (TruncatedNode h) ?n" by (simp add: stands_for_def)
    moreover have "other_included ?n v d c = Ok (TRUNCATED # h)" using True b by (cases c) (auto simp del: is_double.simps)
    moreover have "\<not> c \<longrightarrow> is_double (TruncatedNode h) = is_double ?n"
      using True unfolding b by auto
    ultimately show ?thesis unfolding good_other_def
      using reads_as_truncated [OF h, of cr bits] by fastforce
  next
    case False
    from g obtain res q p q' where i: "is_included ?n v d = Ok (res, q)" "reads_as cr q bits p" "stands_for p ?n"
      "is_double p = is_double ?n" "is_included p v d = Ok (res, q')"
      unfolding good_in_def by blast
    have dp: "is_double p = Ok True" using i(4) b False by simp
    then obtain x y z where "p = MiddleNode x y z" by (cases p) auto
    then have "other_included p v d c = Ok q'" "other_included ?n v d c = Ok q"
      using i(1,5) dp b False by (simp_all del: is_double.simps is_included.simps)
    then show ?thesis unfolding good_other_def using i by blast
  qed
  with g show ?case ..
qed auto

lemma confirm_complete:
  assumes dg: "digests cr" and t: "trie cr 0 n" and v: "length v = 32"
  shows "\<exists>p root. is_included_already_hashed n v = Ok (v \<in> elems n, p) \<and> get_root cr n = Ok root \<and>
     confirm cr root v p (v \<in> elems n) = Ok True"
proof -
  have "good_in cr [] n v 0" using good_trie [OF t v] by (simp add: on_path_def)
  then obtain res q p q' where i: "is_included n v 0 = Ok (res, q)" "reads_as cr q [] p" "stands_for p n"
      "is_included p v 0 = Ok (res, q')" unfolding good_in_def by blast
  from included_trie [OF t v] i(1) have r: "res = (v \<in> elems n)" by auto
  from get_root_trie [OF dg t] obtain root where root: "get_root cr n = Ok root" by blast
  have "deserialize cr q 0 [] = Ok (p, length q)" using i(2) [unfolded reads_as_def, rule_format, of "[]" "[]"] by simp
  then have "deserialize_proof cr q = Ok p" by (simp add: deserialize_proof_def)
  moreover have "get_root cr p = Ok root" using root i(3) by (simp add: get_root_def stands_for_def)
  ultimately have "confirm cr root v q res = Ok True"
    using i(4) by (simp add: confirm_def is_included_already_hashed_def)
  with i(1) root r show ?thesis by (auto simp: is_included_already_hashed_def)
qed

text \<open>The root depends on the set only.\<close>

lemma roots_by_elems:
  assumes "digests cr" and "trie cr 0 n" and "trie cr 0 m" and "elems n = elems m"
  shows "get_root cr n = get_root cr m"
  using trie_canonical [OF assms(2-4)] by simp

text \<open>And, short of a collision, determines it.\<close>

lemma hash_binding:
  "digests cr \<Longrightarrow> trie cr d n \<Longrightarrow> trie cr d m \<Longrightarrow> get_hash_node n = get_hash_node m \<Longrightarrow>
   inj_on (\<lambda>b. take 32 (hash256 cr b)) (preimages n \<union> preimages m) \<Longrightarrow> length v = 32 \<Longrightarrow>
   v \<in> elems n \<longleftrightarrow> v \<in> elems m"
  using included_sound [OF _ trie_ptrie] included_trie [of cr d n v] by blast

section \<open>Histories of operations\<close>

text \<open>A history: \<open>(True, x)\<close> adds, \<open>(False, x)\<close> removes.\<close>

definition merkle_run :: "crypto \<Rightarrow> (bool \<times> bytes) list \<Rightarrow> node \<Rightarrow> node res" where
  "merkle_run cr = rfold (\<lambda>(b, x) s. if b then add_already_hashed cr s x else remove_already_hashed cr s x)"

fun set_op :: "bool \<times> bytes \<Rightarrow> bytes set \<Rightarrow> bytes set" where
  "set_op (b, x) S = (if b then insert x S else S - {x})"

lemma merkle_run_refines:
  "digests cr \<Longrightarrow> trie cr 0 n \<Longrightarrow> \<forall>x\<in>elems n. length x = 32 \<Longrightarrow> \<forall>p\<in>set ops. length (snd p) = 32 \<Longrightarrow>
   \<exists>m. merkle_run cr ops n = Ok m \<and> trie cr 0 m \<and> elems m = fold set_op ops (elems n)"
proof (induction ops arbitrary: n)
  case (Cons p ops)
  obtain b x where p: "p = (b, x)" by (cases p)
  have x: "length x = 32" using Cons.prems(4) p by simp
  from add_trie [OF Cons.prems(1,2), of x] remove_trie [OF Cons.prems(1,2), of x] Cons.prems(3) x
  obtain k where k: "(if b then add_already_hashed cr n x else remove_already_hashed cr n x) = Ok k"
      "trie cr 0 k" "elems k = set_op p (elems n)"
    by (cases b) (auto simp: add_already_hashed_def remove_already_hashed_def p)
  have "\<forall>x\<in>elems k. length x = 32" using k(3) Cons.prems(3) x by (auto simp: p split: if_splits)
  from Cons.IH [OF Cons.prems(1) k(2) this] Cons.prems(4) k(3)
  obtain m where m: "merkle_run cr ops k = Ok m" "trie cr 0 m" "elems m = fold set_op (p # ops) (elems n)" by auto
  then show ?case using k(1) by (auto simp: merkle_run_def p)
qed (auto simp: merkle_run_def)

lemma merkle_run_canonical:
  assumes dg: "digests cr" and len: "\<forall>p\<in>set ops. length (snd p) = 32"
  shows "\<exists>n. merkle_run cr ops EmptyNode = Ok n \<and> elems n = fold set_op ops {} \<and>
     (\<forall>ops' n'. merkle_run cr ops' EmptyNode = Ok n' \<and> fold set_op ops' {} = fold set_op ops {} \<and>
        (\<forall>p\<in>set ops'. length (snd p) = 32) \<longrightarrow> get_root cr n' = get_root cr n)"
proof -
  have run: "\<exists>n. merkle_run cr xs EmptyNode = Ok n \<and> trie cr 0 n \<and> elems n = fold set_op xs {}"
    if "\<forall>p\<in>set xs. length (snd p) = 32" for xs
    using merkle_run_refines [OF dg, of EmptyNode xs] that by simp
  from run [OF len] obtain n where n: "merkle_run cr ops EmptyNode = Ok n" "trie cr 0 n" "elems n = fold set_op ops {}"
    by blast
  have "get_root cr n' = get_root cr n"
    if "merkle_run cr xs EmptyNode = Ok n'" "fold set_op xs {} = fold set_op ops {}" "\<forall>p\<in>set xs. length (snd p) = 32"
    for xs n'
    using run [OF that(3)] that n roots_by_elems [OF dg, of n' n] by auto
  with n show ?thesis by blast
qed

end
