(* ===== verification/Block_Roots.thy ===== *)
theory Block_Roots
  imports Merkle_Proofs Blockchain_Format Consensus_Constants "HOL-Library.Multiset"
begin

text \<open>
  \<^verbatim>\<open>chia/consensus/block_root_validation.py\<close> and \<^verbatim>\<open>hash_coin_list\<close> of \<^verbatim>\<open>coin.py\<close>: the Merkle roots of the
  coins a block creates and spends. The dictionary from puzzle hashes to coins is an association
  list in insertion order. The lemmas show that the roots do not depend on the order in which the
  coins are listed.
\<close>

section \<open>Definitions\<close>

text \<open>\<^verbatim>\<open>coin_list.sort(key=name_str, reverse=True)\<close>; only the names are used afterwards, and hexadecimal
  strings of equal length compare as the bytes do.\<close>

fun insert_desc :: "bytes \<Rightarrow> bytes list \<Rightarrow> bytes list" where
  "insert_desc x [] = [x]"
| "insert_desc x (y # ys) = (if bytes_less x y then y # insert_desc x ys else x # y # ys)"

definition sort_desc :: "bytes list \<Rightarrow> bytes list" where
  "sort_desc xs = foldr insert_desc xs []"

definition hash_coin_list :: "crypto \<Rightarrow> Coin list \<Rightarrow> bytes res" where
  "hash_coin_list cr coin_list =
     rbind (rmap (coin_name cr) coin_list) (\<lambda>names. std_hash cr (concat (sort_desc names)))"

fun append_coin :: "(bytes \<times> Coin list) list \<Rightarrow> Coin \<Rightarrow> (bytes \<times> Coin list) list" where
  "append_coin [] coin = [(coin_puzzle_hash coin, [coin])]"
| "append_coin ((ph, cs) # m) coin =
     (if ph = coin_puzzle_hash coin then (ph, cs @ [coin]) # m else (ph, cs) # append_coin m coin)"

definition puzzlehash_coins_map :: "Coin list \<Rightarrow> (bytes \<times> Coin list) list" where
  "puzzlehash_coins_map tx_additions = foldl append_coin [] tx_additions"

definition removal_merkle_set :: "crypto \<Rightarrow> bytes list \<Rightarrow> node res" where
  "removal_merkle_set cr tx_removals =
     rfold (\<lambda>coin_name s. add_already_hashed cr s coin_name) tx_removals EmptyNode"

definition addition_merkle_set :: "crypto \<Rightarrow> Coin list \<Rightarrow> node res" where
  "addition_merkle_set cr tx_additions =
     rfold (\<lambda>(puzzle, coins) s.
              rbind (add_already_hashed cr s puzzle) (\<lambda>s.
              rbind (hash_coin_list cr coins) (\<lambda>h. add_already_hashed cr s h)))
       (puzzlehash_coins_map tx_additions) EmptyNode"

definition validate_block_merkle_roots ::
    "crypto \<Rightarrow> bytes \<Rightarrow> bytes \<Rightarrow> Coin list option \<Rightarrow> bytes list option \<Rightarrow> Err option res" where
  "validate_block_merkle_roots cr block_additions_root block_removals_root tx_additions tx_removals =
     (let tx_removals = (case tx_removals of None \<Rightarrow> [] | Some r \<Rightarrow> r);
          tx_additions = (case tx_additions of None \<Rightarrow> [] | Some a \<Rightarrow> a)
      in rbind (removal_merkle_set cr tx_removals) (\<lambda>removals.
         rbind (addition_merkle_set cr tx_additions) (\<lambda>additions.
         rbind (get_root cr additions) (\<lambda>additions_root.
         rbind (get_root cr removals) (\<lambda>removals_root.
           Ok (if block_additions_root \<noteq> additions_root then Some BAD_ADDITION_ROOT
               else if block_removals_root \<noteq> removals_root then Some BAD_REMOVAL_ROOT
               else None))))))"

section \<open>The sets\<close>

lemma insert_desc_mset [simp]: "mset (insert_desc x xs) = add_mset x (mset xs)"
  by (induction xs) auto

lemma sort_desc_mset: "mset (sort_desc xs) = mset xs"
  by (induction xs) (auto simp: sort_desc_def)

lemma bytes_less_total: "x \<noteq> y \<Longrightarrow> bytes_less x y \<or> bytes_less y x"
  by (induction x y rule: bytes_less.induct) (auto simp: neq_Nil_conv)

lemma bytes_less_trans: "bytes_less x y \<Longrightarrow> bytes_less y z \<Longrightarrow> bytes_less x z"
proof (induction x y arbitrary: z rule: bytes_less.induct)
  case (2 y ys)
  then show ?case by (cases z) auto
next
  case (3 x xs y ys)
  then show ?case by (cases z) (auto dest: order.strict_trans)
qed auto

lemma bytes_less_irrefl [simp]: "\<not> bytes_less x x"
  using bytes_less_asym by blast

abbreviation desc :: "bytes list \<Rightarrow> bool" where
  "desc \<equiv> sorted_wrt (\<lambda>x y. \<not> bytes_less x y)"

lemma insert_desc_sorted: "desc xs \<Longrightarrow> desc (insert_desc x xs)"
proof (induction xs)
  case (Cons y ys)
  have "set (insert_desc x ys) = insert x (set ys)" by (metis insert_desc_mset set_mset_add_mset_insert set_mset_mset)
  moreover have "\<not> bytes_less x z" if "\<not> bytes_less x y" "z \<in> set ys" for z
    using that Cons.prems bytes_less_total [of y z] bytes_less_trans [of x z y] by auto
  ultimately show ?case using Cons bytes_less_asym [of x y] by auto
qed auto

lemma sort_desc_sorted: "desc (sort_desc xs)"
  by (induction xs) (auto simp: sort_desc_def insert_desc_sorted)

lemma desc_unique: "desc xs \<Longrightarrow> desc ys \<Longrightarrow> mset xs = mset ys \<Longrightarrow> xs = ys"
proof (induction xs arbitrary: ys)
  case (Cons x xs)
  then obtain y zs where ys: "ys = y # zs" by (cases ys) auto
  have "x = y"
  proof (rule ccontr)
    assume "x \<noteq> y"
    have "x \<in> set ys" "y \<in> set (x # xs)" using Cons.prems(3) ys by (metis list.set_intros(1) set_mset_mset)+
    with \<open>x \<noteq> y\<close> Cons.prems(1,2) ys have "\<not> bytes_less y x" "\<not> bytes_less x y" by auto
    with bytes_less_total [OF \<open>x \<noteq> y\<close>] show False by blast
  qed
  then show ?case using Cons ys by auto
qed auto

text \<open>The hash of a list of coins depends on the coins only, not on their order.\<close>

lemma rmap_mset:
  "mset xs = mset ys \<Longrightarrow> (\<And>x. x \<in> set xs \<Longrightarrow> \<exists>y. f x = Ok y) \<Longrightarrow>
   \<exists>us vs. rmap f xs = Ok us \<and> rmap f ys = Ok vs \<and> mset us = mset vs"
proof -
  assume m: "mset xs = mset ys" and e: "\<And>x. x \<in> set xs \<Longrightarrow> \<exists>y. f x = Ok y"
  define g where "g x = (SOME y. f x = Ok y)" for x
  have g: "f x = Ok (g x)" if "x \<in> set xs" for x using someI_ex [OF e [OF that]] by (simp add: g_def)
  have "set ys = set xs" using m by (metis set_mset_mset)
  then have "rmap f xs = Ok (map g xs)" "rmap f ys = Ok (map g ys)" using g by (auto intro: rmap_Ok)
  with m show ?thesis by (simp add: mset_map)
qed

lemma coin_name_Ok: "digests cr \<Longrightarrow> \<exists>h. coin_name cr c = Ok h \<and> length h = 32"
  by (simp add: coin_name_def std_hash_def digests_def)

lemma hash_coin_list_perm:
  assumes "digests cr" and "mset xs = mset ys"
  shows "hash_coin_list cr xs = hash_coin_list cr ys"
proof -
  from rmap_mset [OF assms(2), of "coin_name cr"] coin_name_Ok [OF assms(1)] obtain us vs where
    "rmap (coin_name cr) xs = Ok us" "rmap (coin_name cr) ys = Ok vs" "mset us = mset vs" by blast
  moreover from this have "sort_desc us = sort_desc vs"
    by (intro desc_unique) (simp_all add: sort_desc_sorted sort_desc_mset)
  ultimately show ?thesis by (simp add: hash_coin_list_def)
qed

lemma hash_coin_list_Ok: "digests cr \<Longrightarrow> \<exists>h. hash_coin_list cr xs = Ok h \<and> length h = 32"
  using rmap_mset [of xs xs "coin_name cr"] coin_name_Ok [of cr]
  by (fastforce simp: hash_coin_list_def std_hash_def digests_def)

text \<open>The coins of one puzzle hash, in the order they were listed.\<close>

definition coins_of :: "Coin list \<Rightarrow> bytes \<Rightarrow> Coin list" where
  "coins_of cs ph = filter (\<lambda>c. coin_puzzle_hash c = ph) cs"

lemma append_coin_set:
  "distinct (map fst m) \<Longrightarrow>
   distinct (map fst (append_coin m c)) \<and> fst ` set (append_coin m c) = insert (coin_puzzle_hash c) (fst ` set m) \<and>
   (\<forall>ph cs. (ph, cs) \<in> set (append_coin m c) \<longleftrightarrow>
      (if ph = coin_puzzle_hash c
       then cs = (case map_of m ph of None \<Rightarrow> [c] | Some ds \<Rightarrow> ds @ [c]) else (ph, cs) \<in> set m))"
proof (induction m)
  case (Cons p m)
  obtain q ds where p: "p = (q, ds)" by (cases p)
  show ?case
  proof (cases "q = coin_puzzle_hash c")
    case True
    have "(q, cs) \<notin> set m" for cs using Cons.prems p by (auto simp: rev_image_eqI)
    with True Cons.prems show ?thesis by (auto simp: p)
  next
    case False
    then show ?thesis using Cons by (auto simp: p)
  qed
qed auto

lemma puzzlehash_coins_map_set:
  "distinct (map fst (puzzlehash_coins_map cs)) \<and>
   set (puzzlehash_coins_map cs) = (\<lambda>ph. (ph, coins_of cs ph)) ` coin_puzzle_hash ` set cs"
proof (induction cs rule: rev_induct)
  case Nil
  then show ?case by (simp add: puzzlehash_coins_map_def)
next
  case (snoc c cs)
  let ?m = "puzzlehash_coins_map cs" and ?p = "coin_puzzle_hash c"
  have e: "puzzlehash_coins_map (cs @ [c]) = append_coin ?m c" by (simp add: puzzlehash_coins_map_def)
  have l: "map_of ?m ?p = (if ?p \<in> coin_puzzle_hash ` set cs then Some (coins_of cs ?p) else None)"
    using snoc by (auto simp: map_of_eq_None_iff intro!: map_of_is_SomeI)
  have g: "coins_of cs ?p = []" if "?p \<notin> coin_puzzle_hash ` set cs" using that unfolding coins_of_def
    by (intro filter_False) (metis image_eqI)
  have *: "(ph, ds) \<in> set (append_coin ?m c) \<longleftrightarrow>
      ph \<in> coin_puzzle_hash ` set (cs @ [c]) \<and> ds = coins_of (cs @ [c]) ph" for ph ds
    using append_coin_set [of ?m c] snoc g by (auto simp: l coins_of_def split: if_splits)
  have "set (append_coin ?m c) = (\<lambda>ph. (ph, coins_of (cs @ [c]) ph)) ` coin_puzzle_hash ` set (cs @ [c])"
    by (rule set_eqI) (use * in \<open>force simp: image_iff\<close>)
  then show ?case unfolding e using append_coin_set [of ?m c] snoc by blast
qed

text \<open>The values in the two sets.\<close>

definition group_hash :: "crypto \<Rightarrow> Coin list \<Rightarrow> bytes \<Rightarrow> bytes" where
  "group_hash cr cs ph = (case hash_coin_list cr (coins_of cs ph) of Some (Inr h) \<Rightarrow> h | _ \<Rightarrow> [])"

lemma group_hash_Ok: "digests cr \<Longrightarrow> hash_coin_list cr (coins_of cs ph) = Ok (group_hash cr cs ph) \<and> length (group_hash cr cs ph) = 32"
  using hash_coin_list_Ok [of cr "coins_of cs ph"] by (auto simp: group_hash_def)

lemma group_hash_perm: "digests cr \<Longrightarrow> mset xs = mset ys \<Longrightarrow> group_hash cr xs ph = group_hash cr ys ph"
  using hash_coin_list_perm [of cr "coins_of xs ph" "coins_of ys ph"] by (simp add: group_hash_def coins_of_def)

lemma removal_set:
  assumes "digests cr" and "\<forall>x\<in>set rs. length x = 32"
  shows "\<exists>n. removal_merkle_set cr rs = Ok n \<and> trie cr 0 n \<and> elems n = set rs"
  using fold_add_trie [OF assms(1), of EmptyNode rs] assms(2) by (auto simp: removal_merkle_set_def)

lemma addition_fold:
  "digests cr \<Longrightarrow> trie cr 0 n \<Longrightarrow> \<forall>x\<in>elems n. length x = 32 \<Longrightarrow>
   \<forall>(ph, cs)\<in>set m. length ph = 32 \<and> hash_coin_list cr cs = Ok (h ph) \<and> length (h ph) = 32 \<Longrightarrow>
   \<exists>k. rfold (\<lambda>(puzzle, coins) s. rbind (add_already_hashed cr s puzzle) (\<lambda>s.
              rbind (hash_coin_list cr coins) (\<lambda>h. add_already_hashed cr s h))) m n = Ok k \<and>
       trie cr 0 k \<and> elems k = elems n \<union> (\<Union>ph\<in>fst ` set m. {ph, h ph})"
proof (induction m arbitrary: n)
  case (Cons p m)
  obtain ph cs where p: "p = (ph, cs)" by (cases p)
  then have h: "length ph = 32" "hash_coin_list cr cs = Ok (h ph)" "length (h ph) = 32" using Cons.prems(4) by auto
  from add_trie [OF Cons.prems(1,2), of ph] Cons.prems(3) h(1) obtain k where
    k: "add cr n ph 0 = Ok k" "trie cr 0 k" "elems k = insert ph (elems n)" by auto
  from add_trie [OF Cons.prems(1) k(2), of "h ph"] Cons.prems(3) k h obtain j where
    j: "add cr k (h ph) 0 = Ok j" "trie cr 0 j" "elems j = insert (h ph) (elems k)" by auto
  from Cons.IH [OF Cons.prems(1) j(2)] Cons.prems(3,4) j k h show ?case
    by (auto simp: p add_already_hashed_def)
qed auto

lemma addition_set:
  assumes "digests cr" and "\<forall>c\<in>set cs. length (coin_puzzle_hash c) = 32"
  shows "\<exists>n. addition_merkle_set cr cs = Ok n \<and> trie cr 0 n \<and>
     elems n = (\<Union>ph\<in>coin_puzzle_hash ` set cs. {ph, group_hash cr cs ph})"
  using addition_fold [OF assms(1), of EmptyNode "puzzlehash_coins_map cs" "group_hash cr cs"]
    puzzlehash_coins_map_set [of cs] group_hash_Ok [OF assms(1), of cs] assms(2)
  by (simp add: addition_merkle_set_def image_image)

section \<open>Root validation\<close>

text \<open>The verdict does not depend on the order of additions and removals, nor on repeated removals.\<close>

lemma roots_order_irrelevant:
  assumes dg: "digests cr" and "mset xs = mset ys" and "set rs = set ts"
    and len: "\<forall>c\<in>set xs. length (coin_puzzle_hash c) = 32" "\<forall>r\<in>set rs. length r = 32"
  shows "validate_block_merkle_roots cr a b (Some xs) (Some rs) = validate_block_merkle_roots cr a b (Some ys) (Some ts)"
proof -
  have s: "set ys = set xs" using assms(2) by (metis set_mset_mset)
  obtain n where n: "removal_merkle_set cr rs = Ok n" "trie cr 0 n" "elems n = set rs"
    using removal_set [OF dg] len by blast
  obtain m where m: "removal_merkle_set cr ts = Ok m" "trie cr 0 m" "elems m = set ts"
    using removal_set [OF dg] len assms(3) by blast
  obtain k where k: "addition_merkle_set cr xs = Ok k" "trie cr 0 k"
      "elems k = (\<Union>ph\<in>coin_puzzle_hash ` set xs. {ph, group_hash cr xs ph})"
    using addition_set [OF dg len(1)] by blast
  obtain j where j: "addition_merkle_set cr ys = Ok j" "trie cr 0 j"
      "elems j = (\<Union>ph\<in>coin_puzzle_hash ` set ys. {ph, group_hash cr ys ph})"
    using addition_set [OF dg, of ys] len(1) s by auto
  have "n = m" using trie_canonical [OF n(2) m(2)] n(3) m(3) assms(3) by simp
  moreover have "k = j" using trie_canonical [OF k(2) j(2)] k(3) j(3) s group_hash_perm [OF dg assms(2)] by simp
  ultimately show ?thesis using n m k j by (simp add: validate_block_merkle_roots_def)
qed

text \<open>An accepted removals root determines the set of removals.\<close>

lemma roots_bind_removals:
  assumes dg: "digests cr"
    and a: "validate_block_merkle_roots cr ar root (Some xs) (Some rs) = Ok None"
    and b: "validate_block_merkle_roots cr br root (Some ys) (Some ts) = Ok None"
    and len: "\<forall>r\<in>set rs \<union> set ts. length r = 32"
    and free: "\<And>n m. removal_merkle_set cr rs = Ok n \<Longrightarrow> removal_merkle_set cr ts = Ok m \<Longrightarrow>
        collision_free cr (root_preimages n \<union> root_preimages m)"
  shows "set rs = set ts"
proof -
  obtain n where n: "removal_merkle_set cr rs = Ok n" "trie cr 0 n" "elems n = set rs"
    using removal_set [OF dg] len by blast
  obtain m where m: "removal_merkle_set cr ts = Ok m" "trie cr 0 m" "elems m = set ts"
    using removal_set [OF dg] len by blast
  have r: "get_root cr n = Ok root" "get_root cr m = Ok root"
    using a b n(1) m(1) unfolding validate_block_merkle_roots_def Let_def by (auto split: if_splits)
  have "\<nexists>h. n = TruncatedNode h" using n(2) by auto
  from compress_root_binding [OF dg trie_ptrie [OF n(2)] m(2) this free [OF n(1) m(1)] r]
  have g: "get_hash_node n = get_hash_node m" .
  have "inj_on (\<lambda>b. take 32 (hash256 cr b)) (preimages n \<union> preimages m)"
    using free [OF n(1) m(1)] unfolding collision_free_def by (auto intro: inj_on_subset simp: root_preimages_def)
  from hash_binding [OF dg n(2) m(2) g this] len n(3) m(3) show ?thesis by blast
qed

end
