(* ===== verification/Conditions.thy ===== *)
theory Conditions
  imports Validation Blockchain_Format "HOL-Library.AList"
begin

text \<open>
  The conditions a spend emits: \<^verbatim>\<open>types/condition_opcodes.py\<close>, \<^verbatim>\<open>condition_with_args.py\<close>,
  \<^verbatim>\<open>name_puzzle_condition.py\<close>, \<^verbatim>\<open>generator_types.py\<close>, \<^verbatim>\<open>coin_record.py\<close>, \<^verbatim>\<open>announcement.py\<close>,
  \<^verbatim>\<open>consensus/condition_costs.py\<close>, \<^verbatim>\<open>consensus/cost_calculator.py\<close>, \<^verbatim>\<open>util/condition_tools.py\<close>,
  \<^verbatim>\<open>util/generator_tools.py\<close> and \<^verbatim>\<open>full_node/mempool_check_conditions.py\<close>.

  The CLVM (\<^verbatim>\<open>clvm\<close>, \<^verbatim>\<open>clvm_rs\<close>) is third-party code: the record \<open>clvm\<close> has its observations on an
  s-expression of some type \<open>'s\<close> and its evaluators. A \<^verbatim>\<open>ValidationError\<close> is the left value of
  \<open>vres\<close>, any other exception a \<open>Raise\<close>. A Python dictionary is an association list in insertion
  order, written with \<open>AList.update\<close>.
\<close>

section \<open>Data\<close>

datatype ConditionOpcode =
    UNKNOWN | AGG_SIG_UNSAFE | AGG_SIG_ME | CREATE_COIN | RESERVE_FEE
  | CREATE_COIN_ANNOUNCEMENT | ASSERT_COIN_ANNOUNCEMENT
  | CREATE_PUZZLE_ANNOUNCEMENT | ASSERT_PUZZLE_ANNOUNCEMENT
  | ASSERT_MY_COIN_ID | ASSERT_MY_PARENT_ID | ASSERT_MY_PUZZLEHASH | ASSERT_MY_AMOUNT
  | ASSERT_SECONDS_RELATIVE | ASSERT_SECONDS_ABSOLUTE
  | ASSERT_HEIGHT_RELATIVE | ASSERT_HEIGHT_ABSOLUTE

primrec opcode_value :: "ConditionOpcode \<Rightarrow> bytes" where
  "opcode_value UNKNOWN = [48]"
| "opcode_value AGG_SIG_UNSAFE = [49]"
| "opcode_value AGG_SIG_ME = [50]"
| "opcode_value CREATE_COIN = [51]"
| "opcode_value RESERVE_FEE = [52]"
| "opcode_value CREATE_COIN_ANNOUNCEMENT = [60]"
| "opcode_value ASSERT_COIN_ANNOUNCEMENT = [61]"
| "opcode_value CREATE_PUZZLE_ANNOUNCEMENT = [62]"
| "opcode_value ASSERT_PUZZLE_ANNOUNCEMENT = [63]"
| "opcode_value ASSERT_MY_COIN_ID = [70]"
| "opcode_value ASSERT_MY_PARENT_ID = [71]"
| "opcode_value ASSERT_MY_PUZZLEHASH = [72]"
| "opcode_value ASSERT_MY_AMOUNT = [73]"
| "opcode_value ASSERT_SECONDS_RELATIVE = [80]"
| "opcode_value ASSERT_SECONDS_ABSOLUTE = [81]"
| "opcode_value ASSERT_HEIGHT_RELATIVE = [82]"
| "opcode_value ASSERT_HEIGHT_ABSOLUTE = [83]"

definition all_opcodes :: "ConditionOpcode list" where
  "all_opcodes =
     [UNKNOWN, AGG_SIG_UNSAFE, AGG_SIG_ME, CREATE_COIN, RESERVE_FEE, CREATE_COIN_ANNOUNCEMENT,
      ASSERT_COIN_ANNOUNCEMENT, CREATE_PUZZLE_ANNOUNCEMENT, ASSERT_PUZZLE_ANNOUNCEMENT,
      ASSERT_MY_COIN_ID, ASSERT_MY_PARENT_ID, ASSERT_MY_PUZZLEHASH, ASSERT_MY_AMOUNT,
      ASSERT_SECONDS_RELATIVE, ASSERT_SECONDS_ABSOLUTE, ASSERT_HEIGHT_RELATIVE,
      ASSERT_HEIGHT_ABSOLUTE]"

text \<open>\<^verbatim>\<open>ConditionOpcode(blob)\<close>; \<open>None\<close> where it raises \<^verbatim>\<open>ValueError\<close>.\<close>

definition opcode_of :: "bytes \<Rightarrow> ConditionOpcode option" where
  "opcode_of blob = List.find (\<lambda>op. opcode_value op = blob) all_opcodes"

record ConditionWithArgs =
  cwa_opcode :: ConditionOpcode
  cwa_vars :: "bytes list"

type_synonym conditions_dict = "(ConditionOpcode \<times> ConditionWithArgs list) list"

record NPC =
  npc_coin_name :: bytes
  npc_puzzle_hash :: bytes
  npc_conditions :: conditions_dict

record NPCResult =
  npc_error :: "int option"
  npc_list :: "NPC list"
  npc_clvm_cost :: int

record CoinRecord =
  cr_coin :: Coin
  cr_confirmed_block_index :: int
  cr_spent_block_index :: int
  cr_spent :: bool
  cr_coinbase :: bool
  cr_timestamp :: int

record GeneratorArg =
  ga_block_height :: int
  ga_generator :: bytes

record BlockGenerator =
  bg_program :: bytes
  bg_generator_args :: "GeneratorArg list"

definition generator_refs :: "BlockGenerator \<Rightarrow> bytes list" where
  "generator_refs self = map ga_generator (bg_generator_args self)"

definition block_height_list :: "BlockGenerator \<Rightarrow> int list" where
  "block_height_list self = map ga_block_height (bg_generator_args self)"

definition create_block_generator ::
    "bytes \<Rightarrow> int list \<Rightarrow> (int \<Rightarrow> bytes option) \<Rightarrow> BlockGenerator option" where
  "create_block_generator generator block_heights_list get_generator_for_block_height =
     (if \<exists>i\<in>set block_heights_list. get_generator_for_block_height i = None then None
      else Some \<lparr>bg_program = generator,
                bg_generator_args = map (\<lambda>i. \<lparr>ga_block_height = i,
                  ga_generator = the (get_generator_for_block_height i)\<rparr>) block_heights_list\<rparr>)"

definition announcement_name :: "crypto \<Rightarrow> bytes \<Rightarrow> bytes \<Rightarrow> bytes res" where
  "announcement_name cr origin_info message = std_hash cr (origin_info @ message)"

text \<open>The constructor of \<^verbatim>\<open>Coin\<close> checks the fields against their annotations.\<close>

definition make_coin :: "bytes \<Rightarrow> bytes \<Rightarrow> int \<Rightarrow> Coin res" where
  "make_coin parent ph amount =
     rbind (sized_bytes 32 parent) (\<lambda>parent.
     rbind (sized_bytes 32 ph) (\<lambda>ph.
     rbind (uint64 amount) (\<lambda>amount.
       Ok \<lparr>parent_coin_info = parent, coin_puzzle_hash = ph, coin_amount = amount\<rparr>)))"

section \<open>The CLVM\<close>

text \<open>\<open>sexp_first\<close>, \<open>sexp_rest\<close>, \<open>sexp_atom\<close>, \<open>sexp_pair\<close> and \<open>sexp_as_iter\<close> observe an \<^verbatim>\<open>SExp\<close>; the last
  gives the items and the exception that ends the iteration, if any. \<open>run_generator_mod safe cost
  program refs\<close> is \<^verbatim>\<open>GENERATOR_MOD.run_safe_with_cost\<close> (or \<^verbatim>\<open>run_with_cost\<close>) on the program and the
  arguments \<^verbatim>\<open>create_generator_args\<close> builds from the referenced generators.\<close>

record 's clvm =
  sexp_first :: "'s \<Rightarrow> 's res"
  sexp_rest :: "'s \<Rightarrow> 's res"
  sexp_atom :: "'s \<Rightarrow> bytes option"
  sexp_pair :: "'s \<Rightarrow> ('s \<times> 's) option"
  sexp_as_iter :: "'s \<Rightarrow> 's list \<times> exn option"
  run_generator_mod :: "bool \<Rightarrow> int \<Rightarrow> bytes \<Rightarrow> bytes list \<Rightarrow> (int \<times> 's) res"
  run_with_cost :: "bytes \<Rightarrow> int \<Rightarrow> bytes \<Rightarrow> (int \<times> 's) res"

definition sexp_as_int :: "crypto \<Rightarrow> 's clvm \<Rightarrow> 's \<Rightarrow> int res" where
  "sexp_as_int cr vm n =
     rbind (unwrap TypeError (sexp_atom vm n)) (\<lambda>b. Ok (clvm_int_from_bytes cr b))"

text \<open>\<^verbatim>\<open>len(s.atom)\<close> and the atom itself; \<^verbatim>\<open>len(None)\<close> raises.\<close>

definition atom_of :: "'s clvm \<Rightarrow> 's res \<Rightarrow> bytes res" where
  "atom_of vm s = rbind s (\<lambda>s. unwrap TypeError (sexp_atom vm s))"

partial_function (option) atom_list_from :: "'s clvm \<Rightarrow> 's \<Rightarrow> bytes list \<Rightarrow> bytes list res" where
  "atom_list_from vm obj items =
     (case sexp_pair vm obj of
        None \<Rightarrow> Ok items
      | Some pair \<Rightarrow>
          (case sexp_atom vm (fst pair) of
             None \<Rightarrow> Ok items
           | Some atom \<Rightarrow> atom_list_from vm (snd pair) (items @ [atom])))"

declare atom_list_from.simps [code]

definition as_atom_list :: "'s clvm \<Rightarrow> 's \<Rightarrow> bytes list res" where
  "as_atom_list vm self = atom_list_from vm self []"

text \<open>A \<^verbatim>\<open>for\<close> loop over \<^verbatim>\<open>s.as_iter()\<close>.\<close>

definition for_each :: "'s clvm \<Rightarrow> ('s \<Rightarrow> 'a \<Rightarrow> 'a vres) \<Rightarrow> 's \<Rightarrow> 'a \<Rightarrow> 'a vres" where
  "for_each vm f s a =
     (case sexp_as_iter vm s of (items, stop) \<Rightarrow>
        vbind (vfold f items a) (\<lambda>a. case stop of None \<Rightarrow> Valid a | Some e \<Rightarrow> Raise e))"

section \<open>Parsing conditions\<close>

definition sanitize_int :: "crypto \<Rightarrow> 's clvm \<Rightarrow> 's \<Rightarrow> bool \<Rightarrow> int vres" where
  "sanitize_int cr vm n safe_mode =
     vbind (if safe_mode then
              rbind (unwrap TypeError (sexp_atom vm n)) (\<lambda>buf.
                reject_if (length buf > 2 \<and> buf ! 0 = 0 \<and> buf ! 1 = 0) INVALID_CONDITION)
            else Valid ()) (\<lambda>_.
     rbind (sexp_as_int cr vm n) (\<lambda>v. Valid v))"

text \<open>\<^verbatim>\<open>sanitize_int(args.first(), safe_mode)\<close>.\<close>

definition first_int :: "crypto \<Rightarrow> 's clvm \<Rightarrow> 's \<Rightarrow> bool \<Rightarrow> int vres" where
  "first_int cr vm args safe_mode =
     rbind (sexp_first vm args) (\<lambda>a. sanitize_int cr vm a safe_mode)"

definition parse_aggsig :: "'s clvm \<Rightarrow> 's \<Rightarrow> bytes list vres" where
  "parse_aggsig vm args =
     rbind (sexp_first vm args) (\<lambda>p.
     rbind (sexp_rest vm args) (\<lambda>args.
     rbind (sexp_first vm args) (\<lambda>m.
     rbind (unwrap TypeError (sexp_atom vm p)) (\<lambda>pubkey.
     vbind (reject_if (length pubkey \<noteq> 48) INVALID_CONDITION) (\<lambda>_.
     rbind (unwrap TypeError (sexp_atom vm m)) (\<lambda>message.
     vbind (reject_if (length message > 1024) INVALID_CONDITION) (\<lambda>_.
       Valid [pubkey, message])))))))"

definition parse_create_coin :: "crypto \<Rightarrow> 's clvm \<Rightarrow> 's \<Rightarrow> bool \<Rightarrow> bytes list vres" where
  "parse_create_coin cr vm args safe_mode =
     rbind (sexp_first vm args) (\<lambda>p.
     rbind (sexp_rest vm args) (\<lambda>args.
     rbind (unwrap TypeError (sexp_atom vm p)) (\<lambda>puzzle_hash.
     vbind (reject_if (length puzzle_hash \<noteq> 32) INVALID_CONDITION) (\<lambda>_.
     vbind (first_int cr vm args safe_mode) (\<lambda>amount_int.
     vbind (reject_if (amount_int \<ge> 2 ^ 64) COIN_AMOUNT_EXCEEDS_MAXIMUM) (\<lambda>_.
     vbind (reject_if (amount_int < 0) COIN_AMOUNT_NEGATIVE) (\<lambda>_.
       Valid [puzzle_hash, clvm_int_to_bytes cr amount_int])))))))"

definition parse_seconds :: "crypto \<Rightarrow> 's clvm \<Rightarrow> 's \<Rightarrow> bool \<Rightarrow> Err \<Rightarrow> bytes list option vres" where
  "parse_seconds cr vm args safe_mode error_code =
     vbind (first_int cr vm args safe_mode) (\<lambda>seconds_int.
       if seconds_int \<le> 0 then Valid None
       else vbind (reject_if (seconds_int \<ge> 2 ^ 64) error_code) (\<lambda>_.
         Valid (Some [clvm_int_to_bytes cr seconds_int])))"

definition parse_height :: "crypto \<Rightarrow> 's clvm \<Rightarrow> 's \<Rightarrow> bool \<Rightarrow> Err \<Rightarrow> bytes list option vres" where
  "parse_height cr vm args safe_mode error_code =
     vbind (first_int cr vm args safe_mode) (\<lambda>height_int.
       if height_int < 0 then Valid None
       else vbind (reject_if (height_int \<ge> 2 ^ 32) error_code) (\<lambda>_.
         Valid (Some [clvm_int_to_bytes cr height_int])))"

definition parse_fee :: "crypto \<Rightarrow> 's clvm \<Rightarrow> 's \<Rightarrow> bool \<Rightarrow> bytes list vres" where
  "parse_fee cr vm args safe_mode =
     vbind (first_int cr vm args safe_mode) (\<lambda>fee_int.
     vbind (reject_if (fee_int \<ge> 2 ^ 64 \<or> fee_int < 0) RESERVE_FEE_CONDITION_FAILED) (\<lambda>_.
       Valid [clvm_int_to_bytes cr fee_int]))"

definition parse_hash :: "'s clvm \<Rightarrow> 's \<Rightarrow> Err \<Rightarrow> bytes list vres" where
  "parse_hash vm args error_code =
     rbind (atom_of vm (sexp_first vm args)) (\<lambda>h.
     vbind (reject_if (length h \<noteq> 32) error_code) (\<lambda>_. Valid [h]))"

definition parse_amount :: "crypto \<Rightarrow> 's clvm \<Rightarrow> 's \<Rightarrow> bool \<Rightarrow> bytes list vres" where
  "parse_amount cr vm args safe_mode =
     vbind (first_int cr vm args safe_mode) (\<lambda>amount_int.
     vbind (reject_if (amount_int < 0) ASSERT_MY_AMOUNT_FAILED) (\<lambda>_.
     vbind (reject_if (amount_int \<ge> 2 ^ 64) ASSERT_MY_AMOUNT_FAILED) (\<lambda>_.
       Valid [clvm_int_to_bytes cr amount_int])))"

definition parse_announcement :: "'s clvm \<Rightarrow> 's \<Rightarrow> bytes list vres" where
  "parse_announcement vm args =
     rbind (atom_of vm (sexp_first vm args)) (\<lambda>msg.
     vbind (reject_if (length msg > 1024) INVALID_CONDITION) (\<lambda>_. Valid [msg]))"

text \<open>\<^verbatim>\<open>ConditionCost\<close>: 1200 for a signature, 1800 for a coin and nothing for the other conditions.\<close>

fun condition_cost :: "ConditionOpcode \<Rightarrow> int" where
  "condition_cost AGG_SIG_UNSAFE = 1200"
| "condition_cost AGG_SIG_ME = 1200"
| "condition_cost CREATE_COIN = 1800"
| "condition_cost _ = 0"

text \<open>A list that is always returned, next to one that may be \<^verbatim>\<open>None\<close>.\<close>

definition always :: "bytes list vres \<Rightarrow> bytes list option vres" where
  "always m = vbind m (\<lambda>v. Valid (Some v))"

fun parse_args :: "crypto \<Rightarrow> 's clvm \<Rightarrow> 's \<Rightarrow> ConditionOpcode \<Rightarrow> bool \<Rightarrow> bytes list option vres" where
  "parse_args cr vm args AGG_SIG_UNSAFE safe_mode = always (parse_aggsig vm args)"
| "parse_args cr vm args AGG_SIG_ME safe_mode = always (parse_aggsig vm args)"
| "parse_args cr vm args CREATE_COIN safe_mode = always (parse_create_coin cr vm args safe_mode)"
| "parse_args cr vm args ASSERT_SECONDS_ABSOLUTE safe_mode =
     parse_seconds cr vm args safe_mode ASSERT_SECONDS_ABSOLUTE_FAILED"
| "parse_args cr vm args ASSERT_SECONDS_RELATIVE safe_mode =
     parse_seconds cr vm args safe_mode ASSERT_SECONDS_RELATIVE_FAILED"
| "parse_args cr vm args ASSERT_HEIGHT_ABSOLUTE safe_mode =
     parse_height cr vm args safe_mode ASSERT_HEIGHT_ABSOLUTE_FAILED"
| "parse_args cr vm args ASSERT_HEIGHT_RELATIVE safe_mode =
     parse_height cr vm args safe_mode ASSERT_HEIGHT_RELATIVE_FAILED"
| "parse_args cr vm args ASSERT_MY_COIN_ID safe_mode =
     always (parse_hash vm args ASSERT_MY_COIN_ID_FAILED)"
| "parse_args cr vm args RESERVE_FEE safe_mode = always (parse_fee cr vm args safe_mode)"
| "parse_args cr vm args CREATE_COIN_ANNOUNCEMENT safe_mode = always (parse_announcement vm args)"
| "parse_args cr vm args ASSERT_COIN_ANNOUNCEMENT safe_mode =
     always (parse_hash vm args ASSERT_ANNOUNCE_CONSUMED_FAILED)"
| "parse_args cr vm args CREATE_PUZZLE_ANNOUNCEMENT safe_mode = always (parse_announcement vm args)"
| "parse_args cr vm args ASSERT_PUZZLE_ANNOUNCEMENT safe_mode =
     always (parse_hash vm args ASSERT_ANNOUNCE_CONSUMED_FAILED)"
| "parse_args cr vm args ASSERT_MY_PARENT_ID safe_mode =
     always (parse_hash vm args ASSERT_MY_PARENT_ID_FAILED)"
| "parse_args cr vm args ASSERT_MY_PUZZLEHASH safe_mode =
     always (parse_hash vm args ASSERT_MY_PUZZLEHASH_FAILED)"
| "parse_args cr vm args ASSERT_MY_AMOUNT safe_mode = always (parse_amount cr vm args safe_mode)"
| "parse_args cr vm args UNKNOWN safe_mode = Invalid INVALID_CONDITION"

definition parse_condition_args ::
    "crypto \<Rightarrow> 's clvm \<Rightarrow> 's \<Rightarrow> ConditionOpcode \<Rightarrow> bool \<Rightarrow> (int \<times> bytes list option) vres" where
  "parse_condition_args cr vm args condition safe_mode =
     vbind (parse_args cr vm args condition safe_mode) (\<lambda>v. Valid (condition_cost condition, v))"

definition parse_condition ::
    "crypto \<Rightarrow> 's clvm \<Rightarrow> 's \<Rightarrow> bool \<Rightarrow> (int \<times> ConditionWithArgs option) vres" where
  "parse_condition cr vm cond safe_mode =
     rbind (sexp_first vm cond) (\<lambda>f.
       case Option.bind (sexp_atom vm f) opcode_of of
         Some opcode \<Rightarrow>
           rbind (sexp_rest vm cond) (\<lambda>r.
           vbind (parse_condition_args cr vm r opcode safe_mode) (\<lambda>(cost, args).
             Valid (cost, map_option (ConditionWithArgs.make opcode) args)))
       | None \<Rightarrow>
           if \<not> safe_mode then
             rbind (sexp_rest vm cond) (\<lambda>r.
             rbind (as_atom_list vm r) (\<lambda>atoms.
               Valid (0, Some (ConditionWithArgs.make UNKNOWN atoms))))
           else Invalid INVALID_CONDITION)"

text \<open>\<^verbatim>\<open>d[cvp.opcode].append(cvp)\<close>, on a list that is created when it is missing.\<close>

definition add_condition :: "conditions_dict \<Rightarrow> ConditionWithArgs \<Rightarrow> conditions_dict" where
  "add_condition d cvp =
     (let l = (case map_of d (cwa_opcode cvp) of None \<Rightarrow> [] | Some l \<Rightarrow> l)
      in AList.update (cwa_opcode cvp) (l @ [cvp]) d)"

definition conditions_by_opcode :: "ConditionWithArgs list \<Rightarrow> conditions_dict" where
  "conditions_by_opcode conditions = foldl add_condition [] conditions"

section \<open>Running a block generator\<close>

text \<open>The loop over the conditions of one spend: the remaining cost and the conditions kept.\<close>

definition condition_step ::
    "crypto \<Rightarrow> 's clvm \<Rightarrow> bool \<Rightarrow> 's \<Rightarrow> int \<times> ConditionWithArgs list \<Rightarrow>
     (int \<times> ConditionWithArgs list) vres" where
  "condition_step cr vm safe_mode cond = (\<lambda>(max_cost, conditions_list).
     vbind (parse_condition cr vm cond safe_mode) (\<lambda>(cost, cvl).
     vbind (reject_if (max_cost - cost < 0) INVALID_BLOCK_COST) (\<lambda>_.
       Valid (max_cost - cost,
              case cvl of None \<Rightarrow> conditions_list | Some c \<Rightarrow> conditions_list @ [c]))))"

definition spend_step ::
    "crypto \<Rightarrow> 's clvm \<Rightarrow> bool \<Rightarrow> 's \<Rightarrow> int \<times> NPC list \<Rightarrow> (int \<times> NPC list) vres" where
  "spend_step cr vm safe_mode res0 = (\<lambda>(max_cost, npcs).
     rbind (atom_of vm (sexp_first vm res0)) (\<lambda>spent_coin_parent_id.
     vbind (reject_if (length spent_coin_parent_id \<noteq> 32) INVALID_CONDITION) (\<lambda>_.
     rbind (sexp_rest vm res0) (\<lambda>res1.
     rbind (atom_of vm (sexp_first vm res1)) (\<lambda>spent_coin_puzzle_hash.
     vbind (reject_if (length spent_coin_puzzle_hash \<noteq> 32) INVALID_CONDITION) (\<lambda>_.
     rbind (sexp_rest vm res1) (\<lambda>res2.
     vbind (first_int cr vm res2 safe_mode) (\<lambda>amount.
     rbind (uint64 amount) (\<lambda>spent_coin_amount.
     rbind (sexp_rest vm res2) (\<lambda>res3.
     rbind (make_coin spent_coin_parent_id spent_coin_puzzle_hash spent_coin_amount) (\<lambda>spent_coin.
     rbind (sexp_first vm res3) (\<lambda>conds.
     vbind (for_each vm (condition_step cr vm safe_mode) conds (max_cost, []))
       (\<lambda>(max_cost, conditions_list).
     rbind (coin_name cr spent_coin) (\<lambda>name.
       Valid (max_cost,
              npcs @ [\<lparr>npc_coin_name = name, npc_puzzle_hash = coin_puzzle_hash spent_coin,
                       npc_conditions = conditions_by_opcode conditions_list\<rparr>])))))))))))))))"

definition generator_conditions ::
    "crypto \<Rightarrow> 's clvm \<Rightarrow> BlockGenerator \<Rightarrow> int \<Rightarrow> int \<Rightarrow> bool \<Rightarrow> NPCResult vres" where
  "generator_conditions cr vm generator max_cost cost_per_byte safe_mode =
     (let max_cost = max_cost - int (length (bg_program generator)) * cost_per_byte
      in vbind (reject_if (max_cost < 0) INVALID_BLOCK_COST) (\<lambda>_.
         rbind (run_generator_mod vm safe_mode max_cost (bg_program generator) (generator_refs generator))
           (\<lambda>(clvm_cost, result).
         vbind (reject_if (max_cost - clvm_cost < 0) INVALID_BLOCK_COST) (\<lambda>_.
         rbind (sexp_first vm result) (\<lambda>spends.
         vbind (for_each vm (spend_step cr vm safe_mode) spends (max_cost - clvm_cost, []))
           (\<lambda>(max_cost, npcs).
         rbind (uint64 clvm_cost) (\<lambda>cost.
           Valid \<lparr>npc_error = None, npc_list = npcs, npc_clvm_cost = cost\<rparr>)))))))"

definition failed_result :: "Err \<Rightarrow> NPCResult res" where
  "failed_result e =
     rbind (uint16 (Err_value e)) (\<lambda>code.
       Ok \<lparr>npc_error = Some code, npc_list = [], npc_clvm_cost = 0\<rparr>)"

text \<open>The two handlers: a \<^verbatim>\<open>ValidationError\<close> gives its code, any other exception
  \<^verbatim>\<open>GENERATOR_RUNTIME_ERROR\<close>.\<close>

definition get_name_puzzle_conditions ::
    "crypto \<Rightarrow> 's clvm \<Rightarrow> BlockGenerator \<Rightarrow> int \<Rightarrow> int \<Rightarrow> bool \<Rightarrow> NPCResult res" where
  "get_name_puzzle_conditions cr vm generator max_cost cost_per_byte safe_mode =
     (case generator_conditions cr vm generator max_cost cost_per_byte safe_mode of
        None \<Rightarrow> None
      | Some (Inl ex) \<Rightarrow> failed_result GENERATOR_RUNTIME_ERROR
      | Some (Inr (Inl e)) \<Rightarrow> failed_result e
      | Some (Inr (Inr r)) \<Rightarrow> Ok r)"

section \<open>Using conditions\<close>

text \<open>\<^verbatim>\<open>NPC.condition_dict\<close> and \<^verbatim>\<open>d.get(op, [])\<close>.\<close>

definition condition_dict :: "NPC \<Rightarrow> conditions_dict" where
  "condition_dict self = foldl (\<lambda>d (opcode, l). AList.update opcode l d) [] (npc_conditions self)"

definition conditions_of :: "conditions_dict \<Rightarrow> ConditionOpcode \<Rightarrow> ConditionWithArgs list" where
  "conditions_of d op = (case map_of d op of None \<Rightarrow> [] | Some l \<Rightarrow> l)"

definition pkm_pair ::
    "crypto \<Rightarrow> bytes \<Rightarrow> ConditionWithArgs \<Rightarrow> (bytes \<times> bytes) res" where
  "pkm_pair cr suffix cwa =
     rbind (py_assert (length (cwa_vars cwa) = 2)) (\<lambda>_.
     rbind (py_nth (cwa_vars cwa) 0) (\<lambda>pk.
     rbind (py_nth (cwa_vars cwa) 1) (\<lambda>msg.
     rbind (py_assert (length pk = 48 \<and> length msg \<le> 1024)) (\<lambda>_.
       if ext_valid cr ''G1Element'' pk then Ok (pk, msg @ suffix) else Raise ValueError))))"

definition pkm_pairs_for_conditions_dict ::
    "crypto \<Rightarrow> conditions_dict \<Rightarrow> bytes \<Rightarrow> bytes \<Rightarrow> (bytes \<times> bytes) list res" where
  "pkm_pairs_for_conditions_dict cr d name additional_data =
     rbind (rmap (pkm_pair cr []) (conditions_of d AGG_SIG_UNSAFE)) (\<lambda>us.
     rbind (rmap (pkm_pair cr (name @ additional_data)) (conditions_of d AGG_SIG_ME)) (\<lambda>ms.
       Ok (us @ ms)))"

definition created_output :: "crypto \<Rightarrow> bytes \<Rightarrow> ConditionWithArgs \<Rightarrow> Coin res" where
  "created_output cr input_coin_name cvp =
     rbind (py_nth (cwa_vars cvp) 0) (\<lambda>ph.
     rbind (py_nth (cwa_vars cvp) 1) (\<lambda>amount_bin.
     rbind (uint64 (clvm_int_from_bytes cr amount_bin)) (\<lambda>amount.
       make_coin input_coin_name ph amount)))"

definition created_outputs_for_conditions_dict ::
    "crypto \<Rightarrow> conditions_dict \<Rightarrow> bytes \<Rightarrow> Coin list res" where
  "created_outputs_for_conditions_dict cr d input_coin_name =
     rmap (created_output cr input_coin_name) (conditions_of d CREATE_COIN)"

text \<open>The names of the announcements of a list of spends; \<open>origin\<close> reads the coin name or the puzzle hash.\<close>

definition announcement_step ::
    "crypto \<Rightarrow> bytes \<Rightarrow> ConditionWithArgs \<Rightarrow> bytes set \<Rightarrow> bytes set res" where
  "announcement_step cr origin_info cvp names =
     rbind (py_nth (cwa_vars cvp) 0) (\<lambda>message.
     rbind (py_assert (length message \<le> 1024)) (\<lambda>_.
     rbind (announcement_name cr origin_info message) (\<lambda>h. Ok (insert h names))))"

definition announcement_names ::
    "crypto \<Rightarrow> (NPC \<Rightarrow> bytes) \<Rightarrow> ConditionOpcode \<Rightarrow> NPC list \<Rightarrow> bytes set res" where
  "announcement_names cr origin op npcs =
     rfold (\<lambda>npc. rfold (\<lambda>(condition, cvp_list) names.
              if condition = op then rfold (announcement_step cr (origin npc)) cvp_list names
              else Ok names) (npc_conditions npc)) npcs {}"

definition coin_announcements_names_for_npc :: "crypto \<Rightarrow> NPC list \<Rightarrow> bytes set res" where
  "coin_announcements_names_for_npc cr = announcement_names cr npc_coin_name CREATE_COIN_ANNOUNCEMENT"

definition puzzle_announcements_names_for_npc :: "crypto \<Rightarrow> NPC list \<Rightarrow> bytes set res" where
  "puzzle_announcements_names_for_npc cr =
     announcement_names cr npc_puzzle_hash CREATE_PUZZLE_ANNOUNCEMENT"

text \<open>The programs of one spend, as a wallet runs them.\<close>

definition parse_sexp_to_condition :: "'s clvm \<Rightarrow> 's \<Rightarrow> ConditionWithArgs vres" where
  "parse_sexp_to_condition vm sexp =
     rbind (as_atom_list vm sexp) (\<lambda>as_atoms.
       case as_atoms of
         [] \<Rightarrow> Invalid INVALID_CONDITION
       | op # args \<Rightarrow>
           Valid (ConditionWithArgs.make
             (case opcode_of op of None \<Rightarrow> UNKNOWN | Some opcode \<Rightarrow> opcode) args))"

definition parse_sexp_to_conditions :: "'s clvm \<Rightarrow> 's \<Rightarrow> ConditionWithArgs list vres" where
  "parse_sexp_to_conditions vm sexp =
     for_each vm (\<lambda>s results. vbind (parse_sexp_to_condition vm s) (\<lambda>cvp. Valid (results @ [cvp]))) sexp []"

definition conditions_for_solution ::
    "'s clvm \<Rightarrow> bytes \<Rightarrow> bytes \<Rightarrow> int \<Rightarrow> (ConditionWithArgs list \<times> int) vres" where
  "conditions_for_solution vm puzzle_reveal solution max_cost =
     (let r = rbind (run_with_cost vm puzzle_reveal max_cost solution) (\<lambda>(cost, r).
              vbind (parse_sexp_to_conditions vm r) (\<lambda>result.
              rbind (uint64 cost) (\<lambda>cost. Valid (result, cost))))
      in if r = Raise EvalError then Invalid SEXP_ERROR else r)"

definition conditions_dict_for_solution ::
    "'s clvm \<Rightarrow> bytes \<Rightarrow> bytes \<Rightarrow> int \<Rightarrow> (conditions_dict \<times> int) vres" where
  "conditions_dict_for_solution vm puzzle_reveal solution max_cost =
     vbind (conditions_for_solution vm puzzle_reveal solution max_cost) (\<lambda>(result, cost).
       Valid (conditions_by_opcode result, cost))"

definition additions_for_solution ::
    "crypto \<Rightarrow> 's clvm \<Rightarrow> bytes \<Rightarrow> bytes \<Rightarrow> bytes \<Rightarrow> int \<Rightarrow> Coin list res" where
  "additions_for_solution cr vm name puzzle_reveal solution max_cost =
     rbind (conditions_dict_for_solution vm puzzle_reveal solution max_cost) (\<lambda>r.
       case r of Inl err \<Rightarrow> Ok []
               | Inr (dic, cost) \<Rightarrow> created_outputs_for_conditions_dict cr dic name)"

definition additions_for_npc :: "crypto \<Rightarrow> NPC list \<Rightarrow> Coin list res" where
  "additions_for_npc cr npcs =
     rbind (rmap (\<lambda>npc. created_outputs_for_conditions_dict cr (condition_dict npc) (npc_coin_name npc)) npcs)
       (\<lambda>cs. Ok (concat cs))"

definition tx_removals_and_additions :: "crypto \<Rightarrow> NPC list option \<Rightarrow> (bytes list \<times> Coin list) res" where
  "tx_removals_and_additions cr npcs =
     (case npcs of None \<Rightarrow> Ok ([], [])
      | Some npcs \<Rightarrow> rbind (additions_for_npc cr npcs) (\<lambda>additions. Ok (map npc_coin_name npcs, additions)))"

section \<open>Cost of a program\<close>

definition conditions_cost :: "conditions_dict \<Rightarrow> int" where
  "conditions_cost d = sum_list (map (\<lambda>(op, l). int (length l) * condition_cost op) d)"

definition calculate_cost_of_program :: "bytes \<Rightarrow> NPCResult \<Rightarrow> int \<Rightarrow> int res" where
  "calculate_cost_of_program program npc_result cost_per_byte =
     uint64 (npc_clvm_cost npc_result
             + sum_list (map (\<lambda>npc. conditions_cost (condition_dict npc)) (npc_list npc_result))
             + int (length program) * cost_per_byte)"

section \<open>Checking conditions against the chain\<close>

definition err_if :: "bool \<Rightarrow> Err \<Rightarrow> Err option res" where
  "err_if b e = Ok (if b then Some e else None)"

definition mempool_assert_announcement :: "ConditionWithArgs \<Rightarrow> bytes set \<Rightarrow> Err option res" where
  "mempool_assert_announcement condition announcements =
     rbind (py_nth (cwa_vars condition) 0) (\<lambda>v.
     rbind (sized_bytes 32 v) (\<lambda>announcement_hash.
       err_if (announcement_hash \<notin> announcements) ASSERT_ANNOUNCE_CONSUMED_FAILED))"

definition mempool_assert_my_coin_id :: "crypto \<Rightarrow> ConditionWithArgs \<Rightarrow> CoinRecord \<Rightarrow> Err option res" where
  "mempool_assert_my_coin_id cr condition unspent =
     rbind (coin_name cr (cr_coin unspent)) (\<lambda>name.
     rbind (py_nth (cwa_vars condition) 0) (\<lambda>v. err_if (name \<noteq> v) ASSERT_MY_COIN_ID_FAILED))"

text \<open>\<^verbatim>\<open>int_from_bytes(condition.vars[0])\<close>.\<close>

definition int_var :: "crypto \<Rightarrow> ConditionWithArgs \<Rightarrow> int res" where
  "int_var cr condition =
     rbind (py_nth (cwa_vars condition) 0) (\<lambda>v. Ok (clvm_int_from_bytes cr v))"

definition mempool_assert_absolute_block_height_exceeds ::
    "crypto \<Rightarrow> ConditionWithArgs \<Rightarrow> int \<Rightarrow> Err option res" where
  "mempool_assert_absolute_block_height_exceeds cr condition prev_transaction_block_height =
     rbind (int_var cr condition) (\<lambda>block_index_exceeds_this.
       err_if (prev_transaction_block_height < block_index_exceeds_this) ASSERT_HEIGHT_ABSOLUTE_FAILED)"

definition mempool_assert_relative_block_height_exceeds ::
    "crypto \<Rightarrow> ConditionWithArgs \<Rightarrow> CoinRecord \<Rightarrow> int \<Rightarrow> Err option res" where
  "mempool_assert_relative_block_height_exceeds cr condition unspent prev_transaction_block_height =
     rbind (int_var cr condition) (\<lambda>expected_block_age.
       err_if (prev_transaction_block_height < expected_block_age + cr_confirmed_block_index unspent)
         ASSERT_HEIGHT_RELATIVE_FAILED)"

text \<open>The timestamp defaults to the clock of the machine, \<open>now\<close>.\<close>

definition or_now :: "int option \<Rightarrow> int \<Rightarrow> int res" where
  "or_now ts now = (case ts of None \<Rightarrow> uint64 now | Some t \<Rightarrow> Ok t)"

definition mempool_assert_absolute_time_exceeds ::
    "crypto \<Rightarrow> int \<Rightarrow> ConditionWithArgs \<Rightarrow> int option \<Rightarrow> Err option res" where
  "mempool_assert_absolute_time_exceeds cr now condition ts =
     rbind (int_var cr condition) (\<lambda>expected_seconds.
     rbind (or_now ts now) (\<lambda>t. err_if (t < expected_seconds) ASSERT_SECONDS_ABSOLUTE_FAILED))"

definition mempool_assert_relative_time_exceeds ::
    "crypto \<Rightarrow> int \<Rightarrow> ConditionWithArgs \<Rightarrow> CoinRecord \<Rightarrow> int option \<Rightarrow> Err option res" where
  "mempool_assert_relative_time_exceeds cr now condition unspent ts =
     rbind (int_var cr condition) (\<lambda>expected_seconds.
     rbind (or_now ts now) (\<lambda>t.
       err_if (t < expected_seconds + cr_timestamp unspent) ASSERT_SECONDS_RELATIVE_FAILED))"

definition mempool_assert_my_parent_id :: "ConditionWithArgs \<Rightarrow> CoinRecord \<Rightarrow> Err option res" where
  "mempool_assert_my_parent_id condition unspent =
     rbind (py_nth (cwa_vars condition) 0) (\<lambda>v.
       err_if (parent_coin_info (cr_coin unspent) \<noteq> v) ASSERT_MY_PARENT_ID_FAILED)"

definition mempool_assert_my_puzzlehash :: "ConditionWithArgs \<Rightarrow> CoinRecord \<Rightarrow> Err option res" where
  "mempool_assert_my_puzzlehash condition unspent =
     rbind (py_nth (cwa_vars condition) 0) (\<lambda>v.
       err_if (coin_puzzle_hash (cr_coin unspent) \<noteq> v) ASSERT_MY_PUZZLEHASH_FAILED)"

definition mempool_assert_my_amount :: "crypto \<Rightarrow> ConditionWithArgs \<Rightarrow> CoinRecord \<Rightarrow> Err option res" where
  "mempool_assert_my_amount cr condition unspent =
     rbind (int_var cr condition) (\<lambda>v.
       err_if (coin_amount (cr_coin unspent) \<noteq> v) ASSERT_MY_AMOUNT_FAILED)"

definition check_condition ::
    "crypto \<Rightarrow> int \<Rightarrow> CoinRecord \<Rightarrow> bytes set \<Rightarrow> bytes set \<Rightarrow> int \<Rightarrow> int option \<Rightarrow> ConditionWithArgs \<Rightarrow>
     Err option res" where
  "check_condition cr now unspent coin_names puzzle_names prev_height ts cvp =
     (case cwa_opcode cvp of
        ASSERT_MY_COIN_ID \<Rightarrow> mempool_assert_my_coin_id cr cvp unspent
      | ASSERT_COIN_ANNOUNCEMENT \<Rightarrow> mempool_assert_announcement cvp coin_names
      | ASSERT_PUZZLE_ANNOUNCEMENT \<Rightarrow> mempool_assert_announcement cvp puzzle_names
      | ASSERT_HEIGHT_ABSOLUTE \<Rightarrow> mempool_assert_absolute_block_height_exceeds cr cvp prev_height
      | ASSERT_HEIGHT_RELATIVE \<Rightarrow>
          mempool_assert_relative_block_height_exceeds cr cvp unspent prev_height
      | ASSERT_SECONDS_ABSOLUTE \<Rightarrow> mempool_assert_absolute_time_exceeds cr now cvp ts
      | ASSERT_SECONDS_RELATIVE \<Rightarrow> mempool_assert_relative_time_exceeds cr now cvp unspent ts
      | ASSERT_MY_PARENT_ID \<Rightarrow> mempool_assert_my_parent_id cvp unspent
      | ASSERT_MY_PUZZLEHASH \<Rightarrow> mempool_assert_my_puzzlehash cvp unspent
      | ASSERT_MY_AMOUNT \<Rightarrow> mempool_assert_my_amount cr cvp unspent
      | _ \<Rightarrow> Ok None)"

text \<open>The first error ends both loops.\<close>

fun first_error :: "('a \<Rightarrow> Err option res) \<Rightarrow> 'a list \<Rightarrow> Err option res" where
  "first_error f [] = Ok None"
| "first_error f (x # xs) =
     rbind (f x) (\<lambda>error. if error = None then first_error f xs else Ok error)"

definition mempool_check_conditions_dict ::
    "crypto \<Rightarrow> int \<Rightarrow> CoinRecord \<Rightarrow> bytes set \<Rightarrow> bytes set \<Rightarrow> conditions_dict \<Rightarrow> int \<Rightarrow> int option \<Rightarrow>
     Err option res" where
  "mempool_check_conditions_dict cr now unspent coin_names puzzle_names d prev_height ts =
     first_error (\<lambda>(op, con_list).
       first_error (check_condition cr now unspent coin_names puzzle_names prev_height ts) con_list) d"
end
