(* ===== verification/Py_Dict.thy ===== *)
theory Py_Dict
  imports Prelude "HOL-Library.AList"
begin

text \<open>
  Dictionaries. A \<^verbatim>\<open>dict\<close> is the list of its entries in insertion order: \<open>AList.update\<close> keeps the place
  of a present key, \<open>AList.delete\<close> drops it. \<^verbatim>\<open>sortedcontainers.SortedDict\<close> is the list of its entries in
  the order of the keys; \<open>sorted_dict\<close> states what its documentation promises and what follows for a
  client, and is interpreted on those lists.
\<close>

section \<open>Dictionaries\<close>

text \<open>\<^verbatim>\<open>del d[key]\<close>.\<close>

definition dict_del :: "'k \<Rightarrow> ('k \<times> 'v) list \<Rightarrow> ('k \<times> 'v) list res" where
  "dict_del key d = (if map_of d key = None then Raise KeyError else Ok (AList.delete key d))"

lemma dict_del_eq_Ok [simp]: "dict_del k d = Ok d' \<longleftrightarrow> map_of d k \<noteq> None \<and> d' = AList.delete k d"
  by (auto simp: dict_del_def)

lemma returns_dict_del [returns_rules]: "returns (dict_del k d)"
  by (simp add: dict_del_def returns_def)

lemma rfold_map: "rfold f (map h xs) s = rfold (\<lambda>x. f (h x)) xs s"
  by (induction xs arbitrary: s) (simp_all cong: rbind_cong)

lemma update_new: "k \<notin> fst ` set d \<Longrightarrow> AList.update k v d = d @ [(k, v)]"
  by (induction d) auto

text \<open>A loop that names each item first is the loop over the names.\<close>

lemma rfold_named:
  assumes "rmap name xs = Ok ns"
  shows "rfold (\<lambda>x s. rbind (name x) (\<lambda>n. f n s)) xs s = rfold f ns s"
  using assms by (induction xs arbitrary: ns s) (auto cong: rbind_cong)

lemma dict_dels:
  assumes "distinct ks" and "\<forall>k\<in>set ks. map_of d k \<noteq> None"
  shows "\<exists>d'. rfold dict_del ks d = Ok d' \<and> map_of d' = (\<lambda>k. if k \<in> set ks then None else map_of d k)"
  using assms
proof (induction ks arbitrary: d)
  case (Cons k ks)
  have "\<forall>j\<in>set ks. map_of (AList.delete k d) j \<noteq> None" using Cons.prems by (auto simp: delete_conv')
  from Cons.IH [OF _ this] Cons.prems obtain d' where
    "rfold dict_del ks (AList.delete k d) = Ok d'"
    "map_of d' = (\<lambda>j. if j \<in> set ks then None else map_of (AList.delete k d) j)" by auto
  moreover have e: "dict_del k d = Ok (AList.delete k d)" using Cons.prems by (simp add: dict_del_def)
  ultimately show ?case unfolding rfold.simps e by (auto simp: delete_conv' fun_eq_iff)
qed simp

lemma rfold_updates:
  "rfold (\<lambda>k d. Ok (AList.update k v d)) ks d = Ok (foldl (\<lambda>d k. AList.update k v d) d ks)"
  by (induction ks arbitrary: d) simp_all

lemma map_of_updates:
  "map_of (foldl (\<lambda>d k. AList.update k v d) d ks) = (\<lambda>k. if k \<in> set ks then Some v else map_of d k)"
  by (induction ks arbitrary: d) (auto simp: update_conv' fun_eq_iff)

lemma set_delete: "distinct (map fst d) \<Longrightarrow> set (AList.delete k d) = {(j, v). (j, v) \<in> set d \<and> j \<noteq> k}"
  by (induction d) auto

lemma length_delete_less: "map_of d k \<noteq> None \<Longrightarrow> length (AList.delete k d) < length d"
proof (induction d)
  case (Cons x d)
  have "length (AList.delete k d) \<le> length d" by (simp add: AList.delete_eq)
  with Cons show ?case by (cases "fst x = k") auto
qed simp

lemma sum_list_delete:
  fixes f :: "'k \<times> 'v \<Rightarrow> int"
  assumes "distinct (map fst d)" and "map_of d k = Some v"
  shows "sum_list (map f d) = f (k, v) + sum_list (map f (AList.delete k d))"
  using assms by (induction d) (auto simp: delete_idem)

section \<open>Sorted dictionaries\<close>

fun sd_set :: "'k::linorder \<Rightarrow> 'v \<Rightarrow> ('k \<times> 'v) list \<Rightarrow> ('k \<times> 'v) list" where
  "sd_set key v [] = [(key, v)]"
| "sd_set key v ((k, w) # d) =
     (if key < k then (key, v) # (k, w) # d else if key = k then (key, v) # d else (k, w) # sd_set key v d)"

locale sorted_dict =
  fixes items :: "'d \<Rightarrow> ('k::linorder \<times> 'v) list"
    and ok :: "'d \<Rightarrow> bool"
    and lookup :: "'d \<Rightarrow> 'k \<Rightarrow> 'v option"
    and store :: "'k \<Rightarrow> 'v \<Rightarrow> 'd \<Rightarrow> 'd"
    and drop_key :: "'k \<Rightarrow> 'd \<Rightarrow> 'd"
  assumes items_lookup: "ok d \<Longrightarrow> map_of (items d) = lookup d"
    and items_sorted: "ok d \<Longrightarrow> sorted_wrt (<) (map fst (items d))"
    and store_ok: "ok d \<Longrightarrow> ok (store k v d)"
    and store_lookup: "ok d \<Longrightarrow> lookup (store k v d) = (lookup d)(k \<mapsto> v)"
    and drop_ok: "ok d \<Longrightarrow> ok (drop_key k d)"
    and drop_lookup: "ok d \<Longrightarrow> lookup (drop_key k d) = (lookup d)(k := None)"
begin

lemma item_found:
  assumes "ok d"
  shows "(k, v) \<in> set (items d) \<longleftrightarrow> lookup d k = Some v"
proof -
  have "distinct (map fst (items d))"
    using strict_sorted_iff [of "map fst (items d)"] items_sorted [OF assms] by simp
  then show ?thesis by (simp add: items_lookup [OF assms, symmetric])
qed

text \<open>The first entry has the least key.\<close>

lemma first_least:
  assumes "ok d" and "items d = (k, v) # rest" and "lookup d k' = Some v'"
  shows "k \<le> k'"
proof -
  from item_found [OF assms(1), of k' v'] assms(3) have "k' \<in> fst ` set (items d)" by force
  with items_sorted [OF assms(1)] show ?thesis unfolding assms(2) by auto
qed

lemma no_items:
  assumes "ok d" and "items d = []"
  shows "lookup d k = None"
  using item_found [OF assms(1), of k] assms(2) by (cases "lookup d k") auto

end

lemma map_of_sd_set:
  "sorted_wrt (<) (map fst d) \<Longrightarrow> map_of (sd_set k v d) = (map_of d)(k \<mapsto> v)"
  by (induction k v d rule: sd_set.induct) (auto simp: fun_eq_iff)

lemma keys_sd_set: "fst ` set (sd_set k v d) = insert k (fst ` set d)"
  by (induction k v d rule: sd_set.induct) auto

lemma sorted_sd_set: "sorted_wrt (<) (map fst d) \<Longrightarrow> sorted_wrt (<) (map fst (sd_set k v d))"
  by (induction k v d rule: sd_set.induct) (auto simp: keys_sd_set)

lemma sorted_delete: "sorted_wrt (<) (map fst d) \<Longrightarrow> sorted_wrt (<) (map fst (AList.delete k d))"
  by (auto simp: AList.delete_eq sorted_wrt_map intro: sorted_wrt_filter)

interpretation sd: sorted_dict "\<lambda>d. d" "\<lambda>d. sorted_wrt (<) (map fst d)" map_of sd_set AList.delete
  by unfold_locales (simp_all add: map_of_sd_set sorted_sd_set sorted_delete delete_conv' fun_upd_def)

end
