(* ===== verification/Condition_Facts.thy ===== *)
theory Condition_Facts
  imports Conditions Merkle_Proofs Py_Dict
begin

text \<open>
  The facts about conditions: what parsing guarantees of each opcode, the dictionary of conditions as
  a partition of the list it is built from, the cost of an accepted generator, strict mode against
  consensus mode, and the checks against the chain as a conjunction over all conditions.
\<close>

section \<open>Well-formed conditions\<close>

definition int_var_in :: "crypto \<Rightarrow> int \<Rightarrow> int \<Rightarrow> bytes list \<Rightarrow> bool" where
  "int_var_in cr lo hi vs \<longleftrightarrow> (\<exists>n. vs = [clvm_int_to_bytes cr n] \<and> lo \<le> n \<and> n < hi)"

definition cwa_ok :: "crypto \<Rightarrow> ConditionWithArgs \<Rightarrow> bool" where
  "cwa_ok cr c =
     (case cwa_opcode c of
        UNKNOWN \<Rightarrow> True
      | AGG_SIG_UNSAFE \<Rightarrow> \<exists>pk m. cwa_vars c = [pk, m] \<and> length pk = 48 \<and> length m \<le> 1024
      | AGG_SIG_ME \<Rightarrow> \<exists>pk m. cwa_vars c = [pk, m] \<and> length pk = 48 \<and> length m \<le> 1024
      | CREATE_COIN \<Rightarrow> \<exists>ph b. cwa_vars c = [ph, b] \<and> length ph = 32 \<and>
                          int_var_in cr 0 (2 ^ 64) [b]
      | RESERVE_FEE \<Rightarrow> int_var_in cr 0 (2 ^ 64) (cwa_vars c)
      | CREATE_COIN_ANNOUNCEMENT \<Rightarrow> \<exists>m. cwa_vars c = [m] \<and> length m \<le> 1024
      | CREATE_PUZZLE_ANNOUNCEMENT \<Rightarrow> \<exists>m. cwa_vars c = [m] \<and> length m \<le> 1024
      | ASSERT_MY_AMOUNT \<Rightarrow> int_var_in cr 0 (2 ^ 64) (cwa_vars c)
      | ASSERT_SECONDS_RELATIVE \<Rightarrow> int_var_in cr 1 (2 ^ 64) (cwa_vars c)
      | ASSERT_SECONDS_ABSOLUTE \<Rightarrow> int_var_in cr 1 (2 ^ 64) (cwa_vars c)
      | ASSERT_HEIGHT_RELATIVE \<Rightarrow> int_var_in cr 0 (2 ^ 32) (cwa_vars c)
      | ASSERT_HEIGHT_ABSOLUTE \<Rightarrow> int_var_in cr 0 (2 ^ 32) (cwa_vars c)
      | _ \<Rightarrow> \<exists>h. cwa_vars c = [h] \<and> length h = 32)"

definition dict_ok :: "crypto \<Rightarrow> conditions_dict \<Rightarrow> bool" where
  "dict_ok cr d \<longleftrightarrow> distinct (map fst d) \<and>
     (\<forall>(op, l) \<in> set d. \<forall>c \<in> set l. cwa_opcode c = op \<and> cwa_ok cr c)"

definition npc_ok :: "crypto \<Rightarrow> NPC \<Rightarrow> bool" where
  "npc_ok cr npc \<longleftrightarrow> length (npc_coin_name npc) = 32 \<and> length (npc_puzzle_hash npc) = 32 \<and>
     dict_ok cr (npc_conditions npc)"

text \<open>\<^verbatim>\<open>int_from_bytes\<close> undoes \<^verbatim>\<open>int_to_bytes\<close>, as \<^verbatim>\<open>clvm.casts\<close> documents.\<close>

definition int_casts :: "crypto \<Rightarrow> bool" where
  "int_casts cr \<longleftrightarrow> (\<forall>n. clvm_int_from_bytes cr (clvm_int_to_bytes cr n) = n)"

lemma always_eq_Valid [simp]: "always m = Valid v \<longleftrightarrow> (\<exists>w. m = Valid w \<and> v = Some w)"
  by (auto simp: always_def vbind_eq_Valid)

lemma int_var_inI: "lo \<le> n \<Longrightarrow> n < hi \<Longrightarrow> int_var_in cr lo hi [clvm_int_to_bytes cr n]"
  by (auto simp: int_var_in_def)

lemma parse_args_ok:
  assumes "parse_args cr vm args op safe_mode = Valid (Some vs)"
  shows "cwa_ok cr (ConditionWithArgs.make op vs) \<and> op \<noteq> UNKNOWN"
  using assms
  by (cases op)
     (auto simp: cwa_ok_def ConditionWithArgs.make_def parse_aggsig_def parse_create_coin_def
       parse_seconds_def parse_height_def parse_fee_def parse_hash_def parse_amount_def
       parse_announcement_def split: if_splits intro!: int_var_inI)

lemma parse_condition_ok:
  assumes "parse_condition cr vm cond safe_mode = Valid (cost, cvl)"
  shows "(\<forall>c. cvl = Some c \<longrightarrow> cwa_ok cr c \<and> cost = condition_cost (cwa_opcode c)) \<and>
         (cvl = None \<longrightarrow> cost = 0)"
proof -
  have none: "condition_cost op = 0" if "parse_args cr vm r op safe_mode = Valid None" for op r
    using that by (cases op) auto
  have unknown: "cwa_ok cr \<lparr>cwa_opcode = UNKNOWN, cwa_vars = vs\<rparr>" for vs by (simp add: cwa_ok_def)
  show ?thesis using assms
    by (auto simp: parse_condition_def parse_condition_args_def unknown
        split: option.splits if_splits dest!: parse_args_ok simp: ConditionWithArgs.make_def none)
qed

section \<open>The dictionary of conditions\<close>

lemma conditions_of_add:
  "conditions_of (add_condition d c) op = conditions_of d op @ (if cwa_opcode c = op then [c] else [])"
  by (auto simp: conditions_of_def add_condition_def Let_def update_conv split: option.splits)

lemma conditions_of_by_opcode:
  "conditions_of (conditions_by_opcode cs) op = filter (\<lambda>c. cwa_opcode c = op) cs"
proof (induction cs rule: rev_induct)
  case Nil
  then show ?case by (simp add: conditions_by_opcode_def conditions_of_def)
next
  case (snoc c cs)
  then show ?case by (simp add: conditions_by_opcode_def conditions_of_add)
qed

lemma conditions_by_opcode_distinct: "distinct (map fst (conditions_by_opcode cs))"
  by (induction cs rule: rev_induct)
     (auto simp: conditions_by_opcode_def add_condition_def Let_def intro!: distinct_update)

lemma conditions_of_mem: "distinct (map fst d) \<Longrightarrow> (op, l) \<in> set d \<Longrightarrow> conditions_of d op = l"
  using map_of_is_SomeI [of d op l] by (simp add: conditions_of_def)

lemma dict_ok_by_opcode:
  assumes "\<And>c. c \<in> set cs \<Longrightarrow> cwa_ok cr c"
  shows "dict_ok cr (conditions_by_opcode cs)"
  unfolding dict_ok_def
proof (intro conjI ballI case_prodI2)
  show "distinct (map fst (conditions_by_opcode cs))" by (rule conditions_by_opcode_distinct)
next
  fix p op l c
  assume "p \<in> set (conditions_by_opcode cs)" "p = (op, l)" "c \<in> set l"
  then have "c \<in> set (filter (\<lambda>c. cwa_opcode c = op) cs)"
    using conditions_of_mem [OF conditions_by_opcode_distinct [of cs], of op l]
    by (simp add: conditions_of_by_opcode)
  then show "cwa_opcode c = op" "cwa_ok cr c" using assms by auto
qed

lemma dict_okD: "dict_ok cr d \<Longrightarrow> c \<in> set (conditions_of d op) \<Longrightarrow> cwa_opcode c = op \<and> cwa_ok cr c"
  by (auto simp: dict_ok_def conditions_of_def split: option.splits dest!: map_of_SomeD)

lemma condition_dict_same: "distinct (map fst (npc_conditions npc)) \<Longrightarrow> condition_dict npc = npc_conditions npc"
proof -
  have "foldl (\<lambda>d (op, l). AList.update op l d) d0 d = d0 @ d"
    if "distinct (map fst (d0 @ d))" for d0 d :: conditions_dict
    using that by (induction d arbitrary: d0) (auto simp: update_new)
  from this [of "[]"] show "distinct (map fst (npc_conditions npc)) \<Longrightarrow> ?thesis"
    by (simp add: condition_dict_def)
qed

text \<open>The cost of a dictionary is the cost of the conditions it was built from.\<close>

lemma conditions_cost_update:
  assumes "distinct (map fst d)"
  shows "conditions_cost (AList.update op l d)
    = conditions_cost d + (int (length l) - int (length (conditions_of d op))) * condition_cost op"
  using assms
proof (induction d)
  case Nil
  then show ?case by (simp add: conditions_cost_def conditions_of_def)
next
  case (Cons p d)
  obtain k m where p: "p = (k, m)" by (cases p)
  show ?case
  proof (cases "k = op")
    case True
    then show ?thesis by (simp add: p conditions_cost_def conditions_of_def algebra_simps)
  next
    case False
    with Cons show ?thesis by (simp add: p conditions_cost_def conditions_of_def)
  qed
qed

lemma conditions_cost_by_opcode:
  "conditions_cost (conditions_by_opcode cs) = sum_list (map (\<lambda>c. condition_cost (cwa_opcode c)) cs)"
proof (induction cs rule: rev_induct)
  case Nil
  then show ?case by (simp add: conditions_by_opcode_def conditions_cost_def)
next
  case (snoc c cs)
  let ?d = "conditions_by_opcode cs"
  have "conditions_by_opcode (cs @ [c]) = AList.update (cwa_opcode c) (conditions_of ?d (cwa_opcode c) @ [c]) ?d"
    by (simp add: conditions_by_opcode_def add_condition_def conditions_of_def Let_def)
  with snoc conditions_cost_update [OF conditions_by_opcode_distinct [of cs], of "cwa_opcode c"
      "conditions_of ?d (cwa_opcode c) @ [c]"] show ?case by simp
qed

lemma condition_cost_nonneg [simp]: "0 \<le> condition_cost op"
  by (cases op) auto

section \<open>Accepted generators\<close>

lemma for_each_invariant:
  assumes "for_each vm f s a = Valid b" and "P a"
    and step: "\<And>x u v. P u \<Longrightarrow> f x u = Valid v \<Longrightarrow> P v"
  shows "P b"
proof -
  have "P t" if "vfold f xs u = Valid t" "P u" for xs u t
    using that by (induction xs arbitrary: u) (auto intro: step)
  with assms(1,2) show ?thesis by (auto simp: for_each_def split: prod.splits option.splits)
qed

lemma condition_loop:
  assumes "for_each vm (condition_step cr vm safe_mode) conds (m, []) = Valid (m', cs)"
  shows "m' = m - conditions_cost (conditions_by_opcode cs) \<and> (\<forall>c\<in>set cs. cwa_ok cr c) \<and> (0 \<le> m \<longrightarrow> 0 \<le> m')"
proof -
  let ?P = "\<lambda>(m', cs). m' = m - conditions_cost (conditions_by_opcode cs) \<and> (\<forall>c\<in>set cs. cwa_ok cr c) \<and>
      (0 \<le> m \<longrightarrow> 0 \<le> m')"
  have "?P (m', cs)"
  proof (rule for_each_invariant [OF assms])
    show "?P (m, [])" by (simp add: conditions_by_opcode_def conditions_cost_def)
    fix x u v
    assume "?P u" and "condition_step cr vm safe_mode x u = Valid v"
    then show "?P v"
      by (auto simp: condition_step_def conditions_cost_by_opcode dest!: parse_condition_ok
          split: prod.splits option.splits)
  qed
  then show ?thesis by blast
qed

abbreviation npcs_cost :: "NPC list \<Rightarrow> int" where
  "npcs_cost npcs \<equiv> sum_list (map (\<lambda>npc. conditions_cost (condition_dict npc)) npcs)"

lemma spend_step_ok:
  assumes "spend_step cr vm safe_mode x (m, npcs) = Valid (m', npcs')" and "0 \<le> m"
  shows "\<exists>npc. npcs' = npcs @ [npc] \<and> npc_ok cr npc \<and> 0 \<le> m' \<and>
     m' = m - conditions_cost (condition_dict npc)"
proof -
  from assms(1) obtain conds cs ph coin name where l: "for_each vm (condition_step cr vm safe_mode) conds (m, [])
        = Valid (m', cs)"
    and n: "npcs' = npcs @ [\<lparr>npc_coin_name = name, npc_puzzle_hash = ph,
                             npc_conditions = conditions_by_opcode cs\<rparr>]"
    and c: "length ph = 32" "coin_name cr coin = Ok name"
    unfolding spend_step_def make_coin_def by (auto split: prod.splits)
  from c have "length name = 32" by (auto simp: coin_name_def std_hash_eq_Ok)
  with condition_loop [OF l] n c assms(2) show ?thesis
    by (auto simp: npc_ok_def dict_ok_by_opcode condition_dict_same conditions_by_opcode_distinct)
qed

lemma spends_loop:
  assumes "for_each vm (spend_step cr vm safe_mode) spends (m, []) = Valid (m', npcs)" and "0 \<le> m"
  shows "0 \<le> m' \<and> m' = m - npcs_cost npcs \<and> (\<forall>npc\<in>set npcs. npc_ok cr npc)"
proof -
  let ?P = "\<lambda>(m', npcs). 0 \<le> m' \<and> m' = m - npcs_cost npcs \<and> (\<forall>npc\<in>set npcs. npc_ok cr npc)"
  have "?P (m', npcs)"
  proof (rule for_each_invariant [OF assms(1)])
    show "?P (m, [])" using assms(2) by simp
    fix x u v
    assume "?P u" and "spend_step cr vm safe_mode x u = Valid v"
    then show "?P v" by (cases u; cases v) (fastforce dest: spend_step_ok)
  qed
  then show ?thesis by simp
qed

lemma accepted_generatorE:
  assumes "get_name_puzzle_conditions cr vm g max_cost cpb safe_mode = Ok r" and "npc_error r = None"
  obtains clvm_cost result spends m where
    "run_generator_mod vm safe_mode (max_cost - int (length (bg_program g)) * cpb) (bg_program g)
       (generator_refs g) = Ok (clvm_cost, result)"
    "0 \<le> max_cost - int (length (bg_program g)) * cpb - clvm_cost"
    "sexp_first vm result = Ok spends"
    "for_each vm (spend_step cr vm safe_mode) spends
       (max_cost - int (length (bg_program g)) * cpb - clvm_cost, []) = Valid (m, npc_list r)"
    "npc_clvm_cost r = clvm_cost" "0 \<le> clvm_cost"
  using assms
  by (auto simp: get_name_puzzle_conditions_def generator_conditions_def failed_result_def Let_def
      not_less split: option.splits sum.splits elim!: vbind_ValidE)

lemma accepted_npc_ok:
  assumes "get_name_puzzle_conditions cr vm g max_cost cpb safe_mode = Ok r" and "npc_error r = None"
    and "npc \<in> set (npc_list r)"
  shows "npc_ok cr npc"
  using assms spends_loop by (fastforce elim!: accepted_generatorE)

text \<open>The cost the loops keep track of is the cost \<^verbatim>\<open>calculate_cost_of_program\<close> finds afterwards.\<close>

lemma accepted_cost:
  assumes g: "get_name_puzzle_conditions cr vm g max_cost cpb safe_mode = Ok r" "npc_error r = None"
    and "0 \<le> cpb" and "max_cost < 2 ^ 64"
  shows "\<exists>cost. calculate_cost_of_program (bg_program g) r cpb = Ok cost \<and> cost \<le> max_cost"
proof -
  obtain m clvm_cost where m: "0 \<le> m" "0 \<le> clvm_cost" "npc_clvm_cost r = clvm_cost"
      "m = max_cost - int (length (bg_program g)) * cpb - clvm_cost - npcs_cost (npc_list r)"
    using g by (elim accepted_generatorE) (auto dest!: spends_loop)
  have "0 \<le> conditions_cost d" for d
    unfolding conditions_cost_def by (rule sum_list_nonneg) auto
  then have "0 \<le> npcs_cost (npc_list r)" by (intro sum_list_nonneg) auto
  moreover have "0 \<le> int (length (bg_program g)) * cpb" using assms(3) by simp
  ultimately show ?thesis using m assms(4) by (simp add: calculate_cost_of_program_def)
qed

section \<open>Created coins\<close>

lemma created_output_ok:
  assumes "cwa_ok cr c" "cwa_opcode c = CREATE_COIN" "int_casts cr" "length name = 32"
  shows "\<exists>coin. created_output cr name c = Ok coin \<and> parent_coin_info coin = name \<and>
     length (coin_puzzle_hash coin) = 32 \<and> 0 \<le> coin_amount coin \<and> coin_amount coin < 2 ^ 64"
  using assms
  by (auto simp: cwa_ok_def int_var_in_def created_output_def py_nth_def make_coin_def int_casts_def)

lemma rmap_ex:
  assumes "\<And>x. x \<in> set xs \<Longrightarrow> \<exists>y. f x = Ok y \<and> P y"
  shows "\<exists>ys. rmap f xs = Ok ys \<and> (\<forall>y\<in>set ys. P y)"
  using assms
proof (induction xs)
  case (Cons x xs)
  then obtain y ys where "f x = Ok y" "P y" "rmap f xs = Ok ys" "\<forall>y\<in>set ys. P y" by fastforce
  then show ?case by auto
qed auto

definition coin_ok :: "Coin \<Rightarrow> bool" where
  "coin_ok c \<longleftrightarrow> length (parent_coin_info c) = 32 \<and> length (coin_puzzle_hash c) = 32 \<and>
     0 \<le> coin_amount c \<and> coin_amount c < 2 ^ 64"

lemma created_outputs_ok:
  assumes "npc_ok cr npc" and "int_casts cr"
  shows "\<exists>coins. created_outputs_for_conditions_dict cr (condition_dict npc) (npc_coin_name npc) = Ok coins \<and>
     (\<forall>c\<in>set coins. coin_ok c \<and> parent_coin_info c = npc_coin_name npc)"
proof -
  have d: "condition_dict npc = npc_conditions npc" and n: "length (npc_coin_name npc) = 32"
    and ok: "dict_ok cr (npc_conditions npc)"
    using assms(1) by (auto simp: npc_ok_def dict_ok_def condition_dict_same)
  show ?thesis unfolding created_outputs_for_conditions_dict_def d
    by (rule rmap_ex) (use created_output_ok [OF _ _ assms(2) n] dict_okD [OF ok] n in \<open>fastforce simp: coin_ok_def\<close>)
qed

lemma additions_ok:
  assumes "\<forall>npc\<in>set npcs. npc_ok cr npc" and "int_casts cr"
  shows "\<exists>coins. additions_for_npc cr npcs = Ok coins \<and>
     (\<forall>c\<in>set coins. coin_ok c \<and> parent_coin_info c \<in> npc_coin_name ` set npcs)"
proof -
  have "\<exists>css. rmap (\<lambda>npc. created_outputs_for_conditions_dict cr (condition_dict npc) (npc_coin_name npc)) npcs
        = Ok css \<and> (\<forall>cs\<in>set css. \<forall>c\<in>set cs. coin_ok c \<and> parent_coin_info c \<in> npc_coin_name ` set npcs)"
    by (rule rmap_ex) (use assms created_outputs_ok in fastforce)
  then show ?thesis by (auto simp: additions_for_npc_def)
qed

text \<open>The assertions on the announcements of an accepted generator hold.\<close>

lemma announcement_step_ok:
  assumes "cwa_ok cr c" "cwa_opcode c \<in> {CREATE_COIN_ANNOUNCEMENT, CREATE_PUZZLE_ANNOUNCEMENT}" "digests cr"
  shows "\<exists>s'. announcement_step cr origin c s = Ok s'"
  using assms
  by (auto simp: cwa_ok_def announcement_step_def py_nth_def announcement_name_def std_hash_def digests_def)

lemma rfold_ex: "(\<And>x s. x \<in> set xs \<Longrightarrow> \<exists>t. f x s = Ok t) \<Longrightarrow> \<exists>t. rfold f xs s = Ok t"
proof (induction xs arbitrary: s)
  case (Cons x xs)
  from Cons.prems [of x s] obtain t where "f x s = Ok t" by auto
  moreover from Cons have "\<exists>u. rfold f xs t = Ok u" by simp
  ultimately show ?case by simp
qed auto

lemma npc_ok_member:
  assumes "npc_ok cr npc" "(op, l) \<in> set (npc_conditions npc)" "c \<in> set l"
  shows "cwa_opcode c = op" "cwa_ok cr c"
  using assms by (fastforce simp: npc_ok_def dict_ok_def)+

lemma announcement_names_ok:
  assumes "\<forall>npc\<in>set npcs. npc_ok cr npc" "digests cr"
    and "op \<in> {CREATE_COIN_ANNOUNCEMENT, CREATE_PUZZLE_ANNOUNCEMENT}"
  shows "\<exists>names. announcement_names cr origin op npcs = Ok names"
  unfolding announcement_names_def
proof (intro rfold_ex)
  fix npc p s
  assume npc: "npc \<in> set npcs" and p: "p \<in> set (npc_conditions npc)"
  obtain op' l where pl: "p = (op', l)" by (cases p)
  have "\<exists>t. rfold (announcement_step cr (origin npc)) l s = Ok t" if "op' = op"
  proof (rule rfold_ex)
    fix c names
    assume "c \<in> set l"
    from npc_ok_member [OF bspec [OF assms(1) npc] _ this, of op'] p pl that assms(3)
    show "\<exists>t. announcement_step cr (origin npc) c names = Ok t"
      by (intro announcement_step_ok assms(2)) auto
  qed
  then show "\<exists>t. (case p of (condition, cvp_list) \<Rightarrow> \<lambda>names.
      if condition = op then rfold (announcement_step cr (origin npc)) cvp_list names else Ok names) s = Ok t"
    by (auto simp: pl)
qed

section \<open>Strict mode and consensus mode\<close>

definition strict_agrees :: "'s clvm \<Rightarrow> bool" where
  "strict_agrees vm \<longleftrightarrow> (\<forall>m p refs r. run_generator_mod vm True m p refs = Ok r \<longrightarrow>
     run_generator_mod vm False m p refs = Ok r)"

lemma first_int_modes [accepts_rules]: "accepts_more (first_int cr vm a True) (first_int cr vm a False)"
  by (auto simp: accepts_more_def first_int_def sanitize_int_def)

lemma parse_args_modes [accepts_rules]:
  "accepts_more (parse_args cr vm a op True) (parse_args cr vm a op False)"
  by (cases op)
     (simp_all add: always_def parse_create_coin_def parse_seconds_def parse_height_def parse_fee_def
       parse_amount_def, (intro accepts_rules; assumption?)+)

lemma parse_condition_modes [accepts_rules]:
  "accepts_more (parse_condition cr vm c True) (parse_condition cr vm c False)"
proof -
  have "accepts_more (Invalid e) m" for e and m :: "'c vres" by (simp add: accepts_more_def)
  then show ?thesis
    unfolding parse_condition_def parse_condition_args_def
    by (intro accepts_more_rbind) (auto split: option.splits intro!: accepts_rules)
qed

lemma for_each_modes [accepts_rules]:
  "(\<And>x a. accepts_more (f x a) (g x a)) \<Longrightarrow> accepts_more (for_each vm f s a) (for_each vm g s a)"
  unfolding for_each_def by (intro accepts_rules) auto

lemma spend_step_modes [accepts_rules]:
  "accepts_more (spend_step cr vm True x a) (spend_step cr vm False x a)"
proof -
  have "accepts_more (condition_step cr vm True c b) (condition_step cr vm False c b)" for c b
    unfolding condition_step_def by (cases b) (auto intro!: accepts_rules)
  then show ?thesis unfolding spend_step_def by (cases a) (auto intro!: accepts_rules)
qed

lemma generator_modes:
  fixes vm :: "'a clvm"
  assumes "strict_agrees vm"
  shows "accepts_more (generator_conditions cr vm g m cpb True) (generator_conditions cr vm g m cpb False)"
proof -
  have run: "accepts_more (rbind (run_generator_mod vm True m p refs) h) (rbind (run_generator_mod vm False m p refs) k)"
    if "\<And>x. accepts_more (h x) (k x)" for h k :: "int \<times> 'a \<Rightarrow> 'c vres" and m p refs
    using that assms unfolding accepts_more_def strict_agrees_def rbind_eq_Ok by blast
  show ?thesis unfolding generator_conditions_def Let_def
    by (intro accepts_more_vbind accepts_more_refl run) (auto intro!: accepts_rules)
qed

section \<open>Checks against the chain\<close>

text \<open>What one condition asks of the coin that is spent and of the chain at height \<open>h\<close> and time \<open>t\<close>,
  with the values read off its arguments.\<close>

abbreviation arg0 :: "ConditionWithArgs \<Rightarrow> bytes" where "arg0 c \<equiv> hd (cwa_vars c)"

definition satisfied ::
    "crypto \<Rightarrow> CoinRecord \<Rightarrow> bytes set \<Rightarrow> bytes set \<Rightarrow> int \<Rightarrow> int \<Rightarrow> ConditionWithArgs \<Rightarrow> bool" where
  "satisfied cr unspent coin_names puzzle_names h t c =
     (let coin = cr_coin unspent; n = clvm_int_from_bytes cr (arg0 c)
      in case cwa_opcode c of
           ASSERT_MY_COIN_ID \<Rightarrow> coin_name cr coin = Ok (arg0 c)
         | ASSERT_COIN_ANNOUNCEMENT \<Rightarrow> arg0 c \<in> coin_names
         | ASSERT_PUZZLE_ANNOUNCEMENT \<Rightarrow> arg0 c \<in> puzzle_names
         | ASSERT_HEIGHT_ABSOLUTE \<Rightarrow> n \<le> h
         | ASSERT_HEIGHT_RELATIVE \<Rightarrow> n + cr_confirmed_block_index unspent \<le> h
         | ASSERT_SECONDS_ABSOLUTE \<Rightarrow> n \<le> t
         | ASSERT_SECONDS_RELATIVE \<Rightarrow> n + cr_timestamp unspent \<le> t
         | ASSERT_MY_PARENT_ID \<Rightarrow> arg0 c = parent_coin_info coin
         | ASSERT_MY_PUZZLEHASH \<Rightarrow> arg0 c = coin_puzzle_hash coin
         | ASSERT_MY_AMOUNT \<Rightarrow> n = coin_amount coin
         | _ \<Rightarrow> True)"

definition time_lock :: "ConditionOpcode \<Rightarrow> bool" where
  "time_lock op \<longleftrightarrow> op \<in> {ASSERT_HEIGHT_ABSOLUTE, ASSERT_HEIGHT_RELATIVE, ASSERT_SECONDS_ABSOLUTE,
     ASSERT_SECONDS_RELATIVE}"

lemma satisfied_later:
  "satisfied cr u cn pn h t c \<Longrightarrow> h \<le> h' \<Longrightarrow> t \<le> t' \<Longrightarrow> satisfied cr u cn pn h' t' c"
  by (auto simp: satisfied_def Let_def split: ConditionOpcode.splits)

lemma satisfied_no_lock:
  "\<not> time_lock (cwa_opcode c) \<Longrightarrow> satisfied cr u cn pn h t c = satisfied cr u cn pn h' t' c"
  by (auto simp: satisfied_def time_lock_def Let_def split: ConditionOpcode.splits)

lemma eventually_satisfied:
  assumes "\<not> time_lock (cwa_opcode c) \<Longrightarrow> satisfied cr u cn pn h t c"
  shows "\<exists>H T. satisfied cr u cn pn H T c"
proof (cases "time_lock (cwa_opcode c)")
  case True
  define n where "n = clvm_int_from_bytes cr (arg0 c)"
  have "satisfied cr u cn pn (max n (n + cr_confirmed_block_index u)) (max n (n + cr_timestamp u)) c"
    using True by (auto simp: satisfied_def time_lock_def n_def Let_def split: ConditionOpcode.splits)
  then show ?thesis by blast
qed (use assms in blast)

lemma all_eventually:
  assumes "\<And>c. c \<in> set cs \<Longrightarrow> \<exists>H T. satisfied cr u cn pn H T c"
  shows "\<exists>H T. \<forall>h\<ge>H. \<forall>t\<ge>T. \<forall>c\<in>set cs. satisfied cr u cn pn h t c"
  using assms
proof (induction cs)
  case (Cons c cs)
  then obtain H T where rest: "\<forall>h\<ge>H. \<forall>t\<ge>T. \<forall>c\<in>set cs. satisfied cr u cn pn h t c" by auto
  from Cons.prems [of c] obtain H' T' where "satisfied cr u cn pn H' T' c" by auto
  then have "satisfied cr u cn pn h t c" if "h \<ge> H'" "t \<ge> T'" for h t
    using satisfied_later that by blast
  with rest show ?case
    by (intro exI [of _ "max H H'"] exI [of _ "max T T'"]) auto
qed auto

lemma err_if_simps [simp]: "\<exists>e. err_if b e' = Ok e" "err_if b e = Ok None \<longleftrightarrow> \<not> b"
  by (auto simp: err_if_def)

lemma check_condition_satisfied:
  assumes "cwa_ok cr c" and "coin_name cr (cr_coin u) = Ok name"
  shows "(\<exists>e. check_condition cr now u cn pn h (Some t) c = Ok e) \<and>
     (check_condition cr now u cn pn h (Some t) c = Ok None \<longleftrightarrow> satisfied cr u cn pn h t c)"
  using assms
  by (auto simp: cwa_ok_def int_var_in_def check_condition_def satisfied_def Let_def py_nth_def
      mempool_assert_announcement_def mempool_assert_my_coin_id_def int_var_def or_now_def
      mempool_assert_absolute_block_height_exceeds_def mempool_assert_relative_block_height_exceeds_def
      mempool_assert_absolute_time_exceeds_def mempool_assert_relative_time_exceeds_def
      mempool_assert_my_parent_id_def mempool_assert_my_puzzlehash_def mempool_assert_my_amount_def
      split: ConditionOpcode.splits)

lemma first_error_ok:
  assumes "\<And>x. x \<in> set xs \<Longrightarrow> (\<exists>e. f x = Ok e) \<and> (f x = Ok None \<longleftrightarrow> P x)"
  shows "(\<exists>e. first_error f xs = Ok e) \<and> (first_error f xs = Ok None \<longleftrightarrow> (\<forall>x\<in>set xs. P x))"
  using assms
proof (induction xs)
  case (Cons x xs)
  from Cons.prems [of x] obtain e where "f x = Ok e" "e = None \<longleftrightarrow> P x" by auto
  with Cons show ?case by auto
qed auto

lemma check_dict_satisfied:
  assumes "dict_ok cr d" and "coin_name cr (cr_coin u) = Ok name"
  shows "(\<exists>e. mempool_check_conditions_dict cr now u cn pn d h (Some t) = Ok e) \<and>
     (mempool_check_conditions_dict cr now u cn pn d h (Some t) = Ok None \<longleftrightarrow>
        (\<forall>(op, l)\<in>set d. \<forall>c\<in>set l. satisfied cr u cn pn h t c))"
  unfolding mempool_check_conditions_dict_def
proof (rule first_error_ok)
  fix p
  assume "p \<in> set d"
  moreover obtain op l where p: "p = (op, l)" by (cases p)
  ultimately have "\<forall>c\<in>set l. cwa_ok cr c" using assms(1) by (auto simp: dict_ok_def)
  then show "(\<exists>e. (case p of (op, con_list) \<Rightarrow> first_error (check_condition cr now u cn pn h (Some t)) con_list)
      = Ok e) \<and> ((case p of (op, con_list) \<Rightarrow> first_error (check_condition cr now u cn pn h (Some t)) con_list)
      = Ok None \<longleftrightarrow> (case p of (op, l) \<Rightarrow> \<forall>c\<in>set l. satisfied cr u cn pn h t c))"
    unfolding p prod.case by (intro first_error_ok check_condition_satisfied [OF _ assms(2)]) blast
qed

lemma dict_conditions: "(\<forall>(op, l)\<in>set d. \<forall>c\<in>set l. P c) \<longleftrightarrow> (\<forall>c\<in>set (concat (map snd d)). P c)"
  by fastforce

lemma locks_open:
  assumes "dict_ok cr d" and "coin_name cr (cr_coin u) = Ok name"
    and "\<forall>(op, l)\<in>set d. \<forall>c\<in>set l. time_lock op \<or> satisfied cr u cn pn h0 t0 c"
  shows "\<exists>H T. \<forall>h\<ge>H. \<forall>t\<ge>T. mempool_check_conditions_dict cr now u cn pn d h (Some t) = Ok None"
proof -
  have "\<exists>H T. satisfied cr u cn pn H T c" if "c \<in> set (concat (map snd d))" for c
  proof -
    from that obtain op l where "(op, l) \<in> set d" "c \<in> set l" by auto
    then have "cwa_opcode c = op" "time_lock op \<or> satisfied cr u cn pn h0 t0 c"
      using assms(1,3) by (auto simp: dict_ok_def)
    then show ?thesis by (intro eventually_satisfied) auto
  qed
  from all_eventually [of "concat (map snd d)", OF this] show ?thesis
    using check_dict_satisfied [OF assms(1,2), THEN conjunct2] unfolding dict_conditions by simp
qed
end
