(* ===== verification/Sample_Spends.thy ===== *)
theory Sample_Spends
  imports Sample_Chain Condition_Facts
begin

text \<open>
  A concrete instance of the CLVM record, with trees for s-expressions and an evaluator that returns a
  fixed list of spends, on which the functions about conditions evaluate; the casts are a simple
  invertible pair.
\<close>

datatype tree = Atom bytes | Cons tree tree

fun tree_first :: "tree \<Rightarrow> tree res" where
  "tree_first (Cons a b) = Ok a"
| "tree_first (Atom x) = Raise EvalError"

fun tree_rest :: "tree \<Rightarrow> tree res" where
  "tree_rest (Cons a b) = Ok b"
| "tree_rest (Atom x) = Raise EvalError"

fun tree_atom :: "tree \<Rightarrow> bytes option" where
  "tree_atom (Cons a b) = None"
| "tree_atom (Atom x) = Some x"

fun tree_pair :: "tree \<Rightarrow> (tree \<times> tree) option" where
  "tree_pair (Cons a b) = Some (a, b)"
| "tree_pair (Atom x) = None"

fun tree_iter :: "tree \<Rightarrow> tree list \<times> exn option" where
  "tree_iter (Cons a b) = (a # fst (tree_iter b), snd (tree_iter b))"
| "tree_iter (Atom x) = ([], if x = [] then None else Some EvalError)"

fun tree_of_list :: "tree list \<Rightarrow> tree" where
  "tree_of_list [] = Atom []"
| "tree_of_list (x # xs) = Cons x (tree_of_list xs)"

definition int_code :: "int \<Rightarrow> bytes" where
  "int_code n = (if 0 \<le> n then 1 else 2) # replicate (nat \<bar>n\<bar>) 3"

definition int_decode :: "bytes \<Rightarrow> int" where
  "int_decode b = (if take 1 b = [1] then int (length b) - 1 else 1 - int (length b))"

definition toy_cr :: crypto where
  "toy_cr = toy\<lparr>clvm_int_to_bytes := int_code, clvm_int_from_bytes := int_decode\<rparr>"

lemma toy_cr_casts: "int_casts toy_cr"
  by (simp add: int_casts_def toy_cr_def int_code_def int_decode_def)

lemma toy_cr_simps [simp]:
  "clvm_int_to_bytes toy_cr = int_code" "clvm_int_from_bytes toy_cr = int_decode"
  "hash256 toy_cr = toy_hash"
  by (simp_all add: toy_cr_def toy_def)

lemma toy_cr_hash [simp]: "std_hash toy_cr b = Ok (toy_hash b)"
  by (simp add: std_hash_def toy_hash_def)

lemma toy_cr_digests: "digests toy_cr"
  by (simp add: digests_def toy_hash_def)

text \<open>One spend of a coin of 5 mojos that creates a coin of 4, and cannot be spent before height 2.\<close>

definition toy_spends :: tree where
  "toy_spends = tree_of_list [tree_of_list [tree_of_list
     [Atom (replicate 32 7), Atom (replicate 32 8), Atom (int_code 5),
      tree_of_list
        [tree_of_list [Atom [51], Atom (replicate 32 9), Atom (int_code 4)],
         tree_of_list [Atom [83], Atom (int_code 2)]]]]]"

definition toy_vm :: "tree clvm" where
  "toy_vm =
     \<lparr>sexp_first = tree_first, sexp_rest = tree_rest, sexp_atom = tree_atom, sexp_pair = tree_pair,
      sexp_as_iter = tree_iter,
      run_generator_mod = (\<lambda>safe cost program refs. Ok (100, toy_spends)),
      run_with_cost = (\<lambda>program cost solution. Ok (100, Atom []))\<rparr>"

lemma toy_vm_simps [simp]:
  "sexp_first toy_vm = tree_first" "sexp_rest toy_vm = tree_rest" "sexp_atom toy_vm = tree_atom"
  "sexp_pair toy_vm = tree_pair" "sexp_as_iter toy_vm = tree_iter"
  "run_generator_mod toy_vm safe cost program refs = Ok (100, toy_spends)"
  by (simp_all add: toy_vm_def)

definition toy_generator :: BlockGenerator where
  "toy_generator = \<lparr>bg_program = [1, 2, 3], bg_generator_args = []\<rparr>"

definition toy_create :: ConditionWithArgs where
  "toy_create = \<lparr>cwa_opcode = CREATE_COIN, cwa_vars = [replicate 32 9, int_code 4]\<rparr>"

definition toy_lock :: ConditionWithArgs where
  "toy_lock = \<lparr>cwa_opcode = ASSERT_HEIGHT_ABSOLUTE, cwa_vars = [int_code 2]\<rparr>"

definition toy_npc :: NPC where
  "toy_npc = \<lparr>npc_coin_name = replicate 32 2, npc_puzzle_hash = replicate 32 8,
     npc_conditions = [(CREATE_COIN, [toy_create]), (ASSERT_HEIGHT_ABSOLUTE, [toy_lock])]\<rparr>"

lemma opcode_of_simps [simp]:
  "opcode_of [51] = Some CREATE_COIN" "opcode_of [83] = Some ASSERT_HEIGHT_ABSOLUTE"
  by (simp_all add: opcode_of_def all_opcodes_def)

lemma int_decode_code [simp]: "int_decode (int_code n) = n"
  using toy_cr_casts by (simp add: int_casts_def)

lemma int_code_zero [simp]: "int_code n ! 0 \<noteq> 0"
  by (simp add: int_code_def)

lemma toy_first_int [simp]: "first_int toy_cr toy_vm (Cons (Atom (int_code n)) b) safe = Valid n"
  by (simp add: first_int_def sanitize_int_def sexp_as_int_def)

lemma toy_accepted:
  "get_name_puzzle_conditions toy_cr toy_vm toy_generator 11000000000 12000 safe
   = Ok \<lparr>npc_error = None, npc_list = [toy_npc], npc_clvm_cost = 100\<rparr>"
proof -
  have h: "toy_hash (replicate 32 7 @ b) = replicate 32 2" for b
    by (simp add: toy_hash_def hd_append DEFAULT_CONSTANTS_def)
  show ?thesis
    by (simp add: get_name_puzzle_conditions_def generator_conditions_def toy_generator_def toy_spends_def
        for_each_def spend_step_def atom_of_def make_coin_def condition_step_def parse_condition_def
        parse_condition_args_def parse_create_coin_def parse_height_def always_def coin_name_def h
        conditions_by_opcode_def add_condition_def toy_npc_def toy_create_def toy_lock_def
        ConditionWithArgs.make_def generator_refs_def)
qed
end
