(* ===== verification/Lru_Cache.thy ===== *)
theory Lru_Cache
  imports Prelude "HOL-Library.AList"
begin

text \<open>
  \<^verbatim>\<open>chia/util/lru_cache.py\<close>. An \<^verbatim>\<open>OrderedDict\<close> is an association list, least recently used entry first.
  The locale \<open>read_cache\<close> is the interface a read-through store needs: reading does not change the entries,
  writing changes at most the written key besides dropping entries, removing drops exactly one key.
  Its lemmas say that a cache that agrees with a table keeps agreeing with it.
\<close>

section \<open>Definitions\<close>

record ('k, 'v) LRUCache =
  lru_cache :: "('k \<times> 'v) list"
  lru_capacity :: int

definition move_to_end :: "'k \<Rightarrow> ('k \<times> 'v) list \<Rightarrow> ('k \<times> 'v) list" where
  "move_to_end key c = (case map_of c key of None \<Rightarrow> c | Some v \<Rightarrow> AList.delete key c @ [(key, v)])"

definition lru_get :: "('k, 'v) LRUCache \<Rightarrow> 'k \<Rightarrow> 'v option \<times> ('k, 'v) LRUCache" where
  "lru_get self key =
     (if map_of (lru_cache self) key = None then (None, self)
      else (map_of (lru_cache self) key, self\<lparr>lru_cache := move_to_end key (lru_cache self)\<rparr>))"

definition lru_put :: "('k, 'v) LRUCache \<Rightarrow> 'k \<Rightarrow> 'v \<Rightarrow> ('k, 'v) LRUCache" where
  "lru_put self key v =
     (let c = move_to_end key (AList.update key v (lru_cache self))
      in self\<lparr>lru_cache := if int (length c) > lru_capacity self then tl c else c\<rparr>)"

definition lru_remove :: "('k, 'v) LRUCache \<Rightarrow> 'k \<Rightarrow> ('k, 'v) LRUCache res" where
  "lru_remove self key =
     (if map_of (lru_cache self) key = None then Raise KeyError
      else Ok (self\<lparr>lru_cache := AList.delete key (lru_cache self)\<rparr>))"

section \<open>The interface\<close>

locale read_cache =
  fixes entries :: "'c \<Rightarrow> 'k \<Rightarrow> 'v option"
    and ok :: "'c \<Rightarrow> bool"
    and get :: "'c \<Rightarrow> 'k \<Rightarrow> 'v option \<times> 'c"
    and put :: "'c \<Rightarrow> 'k \<Rightarrow> 'v \<Rightarrow> 'c"
    and discard :: "'c \<Rightarrow> 'k \<Rightarrow> 'c res"
  assumes get_value: "ok c \<Longrightarrow> fst (get c k) = entries c k"
    and get_same: "ok c \<Longrightarrow> ok (snd (get c k)) \<and> entries (snd (get c k)) = entries c"
    and put_ok: "ok c \<Longrightarrow> ok (put c k v)"
    and put_entry: "ok c \<Longrightarrow> entries (put c k v) k' = Some w \<Longrightarrow>
        if k' = k then w = v else entries c k' = Some w"
    and discard_present: "ok c \<Longrightarrow> entries c k = Some v \<Longrightarrow>
        \<exists>c'. discard c k = Ok c' \<and> ok c' \<and> entries c' = (entries c)(k := None)"
begin

definition agrees :: "'c \<Rightarrow> ('k \<Rightarrow> 'v option) \<Rightarrow> bool" where
  "agrees c table \<longleftrightarrow> ok c \<and> (\<forall>k v. entries c k = Some v \<longrightarrow> table k = Some v)"

lemma agrees_ok: "agrees c table \<Longrightarrow> ok c"
  by (simp add: agrees_def)

lemma agreesD: "agrees c table \<Longrightarrow> entries c k = Some v \<Longrightarrow> table k = Some v"
  by (simp add: agrees_def)

lemma agreesI: "ok c \<Longrightarrow> (\<And>k v. entries c k = Some v \<Longrightarrow> table k = Some v) \<Longrightarrow> agrees c table"
  by (simp add: agrees_def)

lemma agrees_get:
  assumes "agrees c table" and "get c k = (x, c')"
  shows "agrees c' table" and "x = Some v \<Longrightarrow> table k = Some v"
proof -
  note c = agrees_ok [OF assms(1)]
  have e: "ok c'" "entries c' = entries c" using get_same [OF c, of k] assms(2) by simp_all
  show "agrees c' table" by (rule agreesI) (use e agreesD [OF assms(1)] in simp_all)
  show "table k = Some v" if "x = Some v"
  proof (rule agreesD [OF assms(1)])
    show "entries c k = Some v" using get_value [OF c, of k] assms(2) that by simp
  qed
qed

lemma agrees_put:
  assumes "agrees c table" and "table k = Some v"
  shows "agrees (put c k v) table"
proof (rule agreesI)
  note c = agrees_ok [OF assms(1)]
  show "ok (put c k v)" by (rule put_ok [OF c])
  fix k' w
  assume "entries (put c k v) k' = Some w"
  from put_entry [OF c this] show "table k' = Some w"
    using assms(2) agreesD [OF assms(1)] by (cases "k' = k") simp_all
qed

lemma agrees_change:
  assumes "agrees c table" and "entries c k = None"
  shows "agrees c (table(k := x))"
proof (rule agreesI)
  show "ok c" by (rule agrees_ok [OF assms(1)])
  fix k' v
  assume "entries c k' = Some v"
  then show "(table(k := x)) k' = Some v" using assms(2) agreesD [OF assms(1)] by (cases "k' = k") simp_all
qed

lemma agrees_discard:
  assumes "agrees c table" and "entries c k = Some v"
  obtains c' where "discard c k = Ok c'" "agrees c' (table(k := x))"
proof -
  from discard_present [OF agrees_ok [OF assms(1)] assms(2)] obtain c' where
    c': "discard c k = Ok c'" "ok c'" "entries c' = (entries c)(k := None)" by blast
  have "agrees c' (table(k := x))"
    by (rule agreesI) (use c' agreesD [OF assms(1)] in \<open>simp_all split: if_splits\<close>)
  with c'(1) show ?thesis by (rule that)
qed

text \<open>Dropping a key whether or not it is cached, as a writer does.\<close>

lemma agrees_write:
  assumes "agrees c table"
  shows "\<exists>c'. (case get c k of (None, c') \<Rightarrow> Ok c' | (Some v, c') \<Rightarrow> discard c' k) = Ok c' \<and>
     agrees c' (table(k := x))"
proof -
  obtain y c1 where g: "get c k = (y, c1)" by (cases "get c k")
  have c1: "agrees c1 table" by (rule agrees_get [OF assms g])
  have y: "y = entries c1 k"
    using get_value [OF agrees_ok [OF assms], of k] get_same [OF agrees_ok [OF assms], of k] g by simp
  show ?thesis
  proof (cases y)
    case None
    then show ?thesis using agrees_change [OF c1] y g by simp
  next
    case (Some v)
    with y have "entries c1 k = Some v" by simp
    from agrees_discard [OF c1 this] obtain c' where "discard c1 k = Ok c'" "agrees c' (table(k := x))" .
    then show ?thesis by (simp add: g Some)
  qed
qed

end

section \<open>The implementation\<close>

definition lru_entries :: "('k, 'v) LRUCache \<Rightarrow> 'k \<Rightarrow> 'v option" where
  "lru_entries c = map_of (lru_cache c)"

definition lru_ok :: "('k, 'v) LRUCache \<Rightarrow> bool" where
  "lru_ok c \<longleftrightarrow> distinct (map fst (lru_cache c)) \<and> int (length (lru_cache c)) \<le> max 0 (lru_capacity c)"

lemma map_of_move_to_end: "distinct (map fst c) \<Longrightarrow> map_of (move_to_end k c) = map_of c"
  by (auto simp: move_to_end_def map_of_append map_add_def delete_conv' fun_eq_iff
      split: option.splits)

lemma distinct_move_to_end: "distinct (map fst c) \<Longrightarrow> distinct (map fst (move_to_end k c))"
  using distinct_delete [of c k] by (auto simp: move_to_end_def AList.delete_eq split: option.splits)

lemma length_move_to_end: "distinct (map fst c) \<Longrightarrow> length (move_to_end k c) = length c"
  by (metis distinct_card distinct_move_to_end length_map map_of_move_to_end dom_map_of_conv_image_fst
      list.set_map)

lemma map_of_tl:
  assumes "distinct (map fst c)" and "map_of (tl c) k = Some v"
  shows "map_of c k = Some v"
proof -
  from assms(2) have "(k, v) \<in> set (tl c)" by (rule map_of_SomeD)
  then have "(k, v) \<in> set c" by (cases c) simp_all
  with assms(1) show ?thesis by simp
qed

lemma length_update: "length (AList.update k v c) \<le> Suc (length c)"
  by (induction c) auto

interpretation lru: read_cache lru_entries lru_ok lru_get lru_put lru_remove
proof
  fix c :: "('k, 'v) LRUCache" and k :: 'k and v :: 'v
  assume ok: "lru_ok c"
  then have d: "distinct (map fst (lru_cache c))" by (simp add: lru_ok_def)
  show "fst (lru_get c k) = lru_entries c k" by (simp add: lru_get_def lru_entries_def)
  show "lru_ok (snd (lru_get c k)) \<and> lru_entries (snd (lru_get c k)) = lru_entries c"
    using ok by (simp add: lru_get_def lru_entries_def lru_ok_def map_of_move_to_end distinct_move_to_end
        length_move_to_end)
  let ?u = "AList.update k v (lru_cache c)"
  have u: "distinct (map fst ?u)" by (rule distinct_update [OF d])
  have l: "length (move_to_end k ?u) \<le> Suc (length (lru_cache c))"
    using length_move_to_end [OF u, of k] length_update [of k v "lru_cache c"] by simp
  have m: "map_of (move_to_end k ?u) = (map_of (lru_cache c))(k \<mapsto> v)"
    by (simp add: map_of_move_to_end [OF u] update_conv')
  show "lru_ok (lru_put c k v)"
    using ok l distinct_tl [OF distinct_move_to_end [OF u, of k]] distinct_move_to_end [OF u, of k]
    by (auto simp: lru_put_def lru_ok_def Let_def map_tl)
  fix k' w
  assume "lru_entries (lru_put c k v) k' = Some w"
  then have "map_of (move_to_end k ?u) k' = Some w"
    using map_of_tl [OF distinct_move_to_end [OF u, of k]]
    by (simp add: lru_put_def lru_entries_def Let_def split: if_splits)
  then show "if k' = k then w = v else lru_entries c k' = Some w"
    by (auto simp: m lru_entries_def)
next
  fix c :: "('k, 'v) LRUCache" and k :: 'k and v :: 'v
  assume ok: "lru_ok c" and that: "lru_entries c k = Some v"
  show "\<exists>c'. lru_remove c k = Ok c' \<and> lru_ok c' \<and> lru_entries c' = (lru_entries c)(k := None)"
    using that ok length_delete_le [of k "lru_cache c"]
    by (auto simp: lru_remove_def lru_entries_def lru_ok_def distinct_delete delete_conv')
qed

end
