(* ===== verification/Full_Block.thy ===== *)
theory Full_Block
  imports Conditions
begin

text \<open>
  \<^verbatim>\<open>types/full_block.py\<close>, \<^verbatim>\<open>types/unfinished_block.py\<close>, \<^verbatim>\<open>types/coin_spend.py\<close>, \<^verbatim>\<open>types/spend_bundle.py\<close>
  and \<^verbatim>\<open>get_block_header\<close> of \<^verbatim>\<open>util/generator_tools.py\<close>. A serialized program is its bytes. A Python set
  is iterated in the order in which its elements were first inserted.
\<close>

record FullBlock =
  fb_finished_sub_slots :: "EndOfSubSlotBundle list"
  fb_reward_chain_block :: RewardChainBlock
  fb_challenge_chain_sp_proof :: "VDFProof option"
  fb_challenge_chain_ip_proof :: VDFProof
  fb_reward_chain_sp_proof :: "VDFProof option"
  fb_reward_chain_ip_proof :: VDFProof
  fb_infused_challenge_chain_ip_proof :: "VDFProof option"
  fb_foliage :: Foliage
  fb_foliage_transaction_block :: "FoliageTransactionBlock option"
  fb_transactions_info :: "TransactionsInfo option"
  fb_transactions_generator :: "bytes option"
  fb_transactions_generator_ref_list :: "int list"

record UnfinishedBlock =
  ub_finished_sub_slots :: "EndOfSubSlotBundle list"
  ub_reward_chain_block :: RewardChainBlockUnfinished
  ub_challenge_chain_sp_proof :: "VDFProof option"
  ub_reward_chain_sp_proof :: "VDFProof option"
  ub_foliage :: Foliage
  ub_foliage_transaction_block :: "FoliageTransactionBlock option"
  ub_transactions_info :: "TransactionsInfo option"
  ub_transactions_generator :: "bytes option"
  ub_transactions_generator_ref_list :: "int list"

definition fb_prev_header_hash :: "FullBlock \<Rightarrow> bytes" where
  "fb_prev_header_hash self = prev_block_hash (fb_foliage self)"

definition fb_height :: "FullBlock \<Rightarrow> int" where
  "fb_height self = rcb_height (fb_reward_chain_block self)"

definition fb_weight :: "FullBlock \<Rightarrow> int" where
  "fb_weight self = rcb_weight (fb_reward_chain_block self)"

definition fb_total_iters :: "FullBlock \<Rightarrow> int" where
  "fb_total_iters self = rcb_total_iters (fb_reward_chain_block self)"

definition fb_header_hash :: "crypto \<Rightarrow> FullBlock \<Rightarrow> bytes res" where
  "fb_header_hash cr self = Foliage_hash cr (fb_foliage self)"

definition fb_is_transaction_block :: "FullBlock \<Rightarrow> bool" where
  "fb_is_transaction_block self \<longleftrightarrow> fb_foliage_transaction_block self \<noteq> None"

definition get_included_reward_coins :: "FullBlock \<Rightarrow> Coin list res" where
  "get_included_reward_coins self =
     (if \<not> fb_is_transaction_block self then Ok []
      else rbind (unwrap AssertionError (fb_transactions_info self)) (\<lambda>ti.
        Ok (remdups (ti_reward_claims_incorporated ti))))"

definition proof_compact :: "VDFProof \<Rightarrow> bool" where
  "proof_compact p \<longleftrightarrow> witness_type p = 0 \<and> normalized_to_identity p"

definition opt_compact :: "VDFProof option \<Rightarrow> bool" where
  "opt_compact p \<longleftrightarrow> (case p of None \<Rightarrow> True | Some q \<Rightarrow> proof_compact q)"

definition is_fully_compactified :: "FullBlock \<Rightarrow> bool" where
  "is_fully_compactified self \<longleftrightarrow>
     list_all (\<lambda>sub_slot. proof_compact (challenge_chain_slot_proof (proofs sub_slot)) \<and>
         opt_compact (infused_challenge_chain_slot_proof (proofs sub_slot)))
       (fb_finished_sub_slots self) \<and>
     opt_compact (fb_challenge_chain_sp_proof self) \<and>
     proof_compact (fb_challenge_chain_ip_proof self)"

definition get_block_header :: "crypto \<Rightarrow> FullBlock \<Rightarrow> Coin list \<Rightarrow> bytes list \<Rightarrow> HeaderBlock res" where
  "get_block_header cr block tx_addition_coins removals_names =
     rbind (get_included_reward_coins block) (\<lambda>rewards.
       let byte_array_tx =
             (if fb_is_transaction_block block
              then map coin_puzzle_hash (tx_addition_coins @ rewards) @ removals_names else [])
       in Ok \<lparr>hb_finished_sub_slots = fb_finished_sub_slots block,
              hb_reward_chain_block = fb_reward_chain_block block,
              hb_challenge_chain_sp_proof = fb_challenge_chain_sp_proof block,
              hb_challenge_chain_ip_proof = fb_challenge_chain_ip_proof block,
              hb_reward_chain_sp_proof = fb_reward_chain_sp_proof block,
              hb_reward_chain_ip_proof = fb_reward_chain_ip_proof block,
              hb_infused_challenge_chain_ip_proof = fb_infused_challenge_chain_ip_proof block,
              hb_foliage = fb_foliage block,
              hb_foliage_transaction_block = fb_foliage_transaction_block block,
              hb_transactions_filter = bip158_encoded cr byte_array_tx,
              hb_transactions_info = fb_transactions_info block\<rparr>)"

section \<open>Spend bundles\<close>

record CoinSpend =
  cs_coin :: Coin
  cs_puzzle_reveal :: bytes
  cs_solution :: bytes

record SpendBundle =
  sb_coin_spends :: "CoinSpend list"
  sb_aggregated_signature :: bytes

definition INFINITE_COST :: int where
  "INFINITE_COST = 0x7FFFFFFFFFFFFFFF"

definition coin_spend_additions :: "crypto \<Rightarrow> 's clvm \<Rightarrow> CoinSpend \<Rightarrow> Coin list res" where
  "coin_spend_additions cr vm self =
     rbind (coin_name cr (cs_coin self)) (\<lambda>name.
       additions_for_solution cr vm name (cs_puzzle_reveal self) (cs_solution self) INFINITE_COST)"

definition sb_additions :: "crypto \<Rightarrow> 's clvm \<Rightarrow> SpendBundle \<Rightarrow> Coin list res" where
  "sb_additions cr vm self =
     rbind (rmap (coin_spend_additions cr vm) (sb_coin_spends self)) (\<lambda>items. Ok (concat items))"

definition sb_removals :: "SpendBundle \<Rightarrow> Coin list" where
  "sb_removals self = map cs_coin (sb_coin_spends self)"

definition sb_fees :: "crypto \<Rightarrow> 's clvm \<Rightarrow> SpendBundle \<Rightarrow> int res" where
  "sb_fees cr vm self =
     rbind (sb_additions cr vm self) (\<lambda>additions.
       Ok (sum_list (map coin_amount (sb_removals self)) - sum_list (map coin_amount additions)))"

definition sb_aggregate :: "crypto \<Rightarrow> SpendBundle list \<Rightarrow> SpendBundle" where
  "sb_aggregate cr spend_bundles =
     \<lparr>sb_coin_spends = concat (map sb_coin_spends spend_bundles),
      sb_aggregated_signature = bls_aggregate cr (map sb_aggregated_signature spend_bundles)\<rparr>"

definition not_ephemeral_additions :: "crypto \<Rightarrow> 's clvm \<Rightarrow> SpendBundle \<Rightarrow> Coin list res" where
  "not_ephemeral_additions cr vm self =
     rbind (sb_additions cr vm self) (\<lambda>all_additions.
       Ok (filter (\<lambda>add. add \<notin> set (sb_removals self)) all_additions))"

lemma sb_aggregate_additions:
  "rbind (rmap (sb_additions cr vm) bs) (\<lambda>css. Ok (concat css)) = sb_additions cr vm (sb_aggregate cr bs)"
proof (induction bs)
  case Nil
  then show ?case by (simp add: sb_additions_def sb_aggregate_def)
next
  case (Cons b bs)
  from Cons show ?case
    by (simp add: sb_additions_def sb_aggregate_def rmap_append rbind_assoc cong: rbind_cong)
       (cases "rmap (\<lambda>self. rbind (rmap (coin_spend_additions cr vm) (sb_coin_spends self)) (\<lambda>items. Ok (concat items))) bs"
          rule: res_cases; cases "rmap (coin_spend_additions cr vm) (sb_coin_spends b)" rule: res_cases;
        cases "rmap (coin_spend_additions cr vm) (concat (map sb_coin_spends bs))" rule: res_cases; simp)
qed

lemma sb_aggregate_removals: "sb_removals (sb_aggregate cr bs) = concat (map sb_removals bs)"
  by (induction bs) (simp_all add: sb_removals_def sb_aggregate_def)

end
