(* ===== verification/Coin_Ledger.thy ===== *)
theory Coin_Ledger
  imports Coin_Store Merkle_Proofs
begin

text \<open>
  The specification of the coin store: a ledger, a map from coin ids to records without a cache, and
  the proof that every operation of the store simulates its counterpart on the ledger, raising
  whenever the ledger does. On the ledger, rolling back to a height undoes all later blocks.
\<close>

section \<open>The ledger\<close>

type_synonym ledger = "bytes \<Rightarrow> CoinRecord option"

definition led_add :: "crypto \<Rightarrow> CoinRecord \<Rightarrow> ledger \<Rightarrow> ledger res" where
  "led_add cr r led =
     rbind (coin_name cr (cr_coin r)) (\<lambda>n.
       if led n \<noteq> None then Raise IntegrityError else Ok (led(n \<mapsto> r)))"

definition led_spend :: "bytes \<Rightarrow> int \<Rightarrow> ledger \<Rightarrow> (int \<times> ledger) res" where
  "led_spend n h led =
     rbind (unwrap ValueError (led n)) (\<lambda>r.
     rbind (py_assert (\<not> cr_spent r)) (\<lambda>_.
       Ok (coin_amount (cr_coin r), led(n \<mapsto> r\<lparr>cr_spent_block_index := h, cr_spent := True\<rparr>))))"

definition led_block :: "crypto \<Rightarrow> FullBlock \<Rightarrow> Coin list \<Rightarrow> bytes list \<Rightarrow> ledger \<Rightarrow> ledger res" where
  "led_block cr block adds rems led =
     (case fb_foliage_transaction_block block of
        None \<Rightarrow> Ok led
      | Some ftb \<Rightarrow>
          rbind (rfold (\<lambda>coin. led_add cr (new_record (fb_height block) (ftb_timestamp ftb) False coin)) adds led)
            (\<lambda>led.
          rbind (get_included_reward_coins block) (\<lambda>rewards.
          rbind (if fb_height block = 0 then py_assert (length rewards = 0)
                 else py_assert (length rewards \<ge> 2)) (\<lambda>_.
          rbind (rfold (\<lambda>coin. led_add cr (new_record (fb_height block) (ftb_timestamp ftb) True coin)) rewards led)
            (\<lambda>led.
          rbind (rfold (\<lambda>n (t, led). rbind (led_spend n (fb_height block) led) (\<lambda>(a, led). Ok (t + a, led)))
                  rems (0, led)) (\<lambda>(t, led).
          rbind (py_assert (sum_list (map coin_amount adds) \<le> t)) (\<lambda>_. Ok led)))))))"

definition led_rollback :: "int \<Rightarrow> ledger \<Rightarrow> ledger" where
  "led_rollback i led =
     (\<lambda>n. case led n of
            None \<Rightarrow> None
          | Some r \<Rightarrow>
              if cr_confirmed_block_index r > i then None
              else Some (if cr_spent_block_index r > i then unspend r else r))"

section \<open>The store simulates the ledger\<close>

definition ledger_of :: "CoinStore \<Rightarrow> ledger" where
  "ledger_of s = map_of (coin_record_db s)"

definition store_ok :: "crypto \<Rightarrow> CoinStore \<Rightarrow> bool" where
  "store_ok cr s \<longleftrightarrow> distinct (map fst (coin_record_db s)) \<and>
     (\<forall>(n, r)\<in>set (coin_record_db s). coin_name cr (cr_coin r) = Ok n) \<and>
     lru.agrees (coin_record_cache s) (ledger_of s)"

definition implements :: "crypto \<Rightarrow> CoinStore \<Rightarrow> ledger \<Rightarrow> bool" where
  "implements cr s led \<longleftrightarrow> store_ok cr s \<and> ledger_of s = led"

lemma create_store_implements: "implements cr (create_store k) Map.empty"
  by (simp add: implements_def store_ok_def ledger_of_def create_store_def lru.agrees_def lru_entries_def
      lru_ok_def)

lemma store_name: "implements cr s led \<Longrightarrow> led n = Some r \<Longrightarrow> coin_name cr (cr_coin r) = Ok n"
  by (auto simp: implements_def store_ok_def ledger_of_def dest!: map_of_SomeD)

lemma get_coin_record_ledger:
  assumes "implements cr s led"
  shows "\<exists>s'. get_coin_record cr s n = Ok (led n, s') \<and> implements cr s' led"
proof -
  obtain x c where g: "lru_get (coin_record_cache s) n = (x, c)" by (cases "lru_get (coin_record_cache s) n")
  have a: "lru.agrees (coin_record_cache s) (ledger_of s)" and led: "ledger_of s = led"
    using assms unfolding implements_def store_ok_def by blast+
  note c = lru.agrees_get [OF a g]
  show ?thesis
  proof (cases x)
    case (Some v)
    with c led have "led n = Some v" by simp
    with assms g Some c(1) show ?thesis
      by (simp add: get_coin_record_def implements_def store_ok_def ledger_of_def)
  next
    case None
    show ?thesis
    proof (cases "led n")
      case (Some r)
      have "lru.agrees (lru_put c n r) led" by (rule lru.agrees_put) (use c(1) led Some in simp_all)
      with assms g None Some store_name [OF assms Some] show ?thesis
        by (simp add: get_coin_record_def implements_def store_ok_def ledger_of_def)
    qed (use assms g None c(1) in \<open>simp add: get_coin_record_def implements_def store_ok_def ledger_of_def\<close>)
  qed
qed

lemma map_of_replace: "map_of (AList.delete k al @ [(k, v)]) = (map_of al)(k \<mapsto> v)"
  by (auto simp: map_of_append map_add_def delete_conv' fun_eq_iff split: option.splits)

lemma add_coin_record_ledger:
  assumes "implements cr s led" and "coin_name cr (cr_coin r) = Ok n"
  shows "if \<not> replace \<and> led n \<noteq> None then add_coin_record cr s r replace = Raise IntegrityError
     else \<exists>s'. add_coin_record cr s r replace = Ok s' \<and> implements cr s' (led(n \<mapsto> r))"
proof -
  have a: "lru.agrees (coin_record_cache s) (ledger_of s)" and d: "distinct (map fst (coin_record_db s))"
    and names: "\<forall>(n, r)\<in>set (coin_record_db s). coin_name cr (cr_coin r) = Ok n" and led: "ledger_of s = led"
    using assms(1) unfolding implements_def store_ok_def by blast+
  from lru.agrees_write [OF a, of n "Some r"] obtain c where
    c: "uncache (coin_record_cache s) n = Ok c" "lru.agrees c ((ledger_of s)(n \<mapsto> r))"
    unfolding uncache_def by blast
  let ?s = "s\<lparr>coin_record_cache := c, coin_record_db := AList.delete n (coin_record_db s) @ [(n, r)]\<rparr>"
  have "distinct (map fst (AList.delete n (coin_record_db s) @ [(n, r)]))"
    using distinct_delete [OF d, of n] by (auto simp: AList.delete_eq)
  moreover have "\<forall>(n', r')\<in>set (AList.delete n (coin_record_db s) @ [(n, r)]). coin_name cr (cr_coin r') = Ok n'"
    using names assms(2) by (auto simp: AList.delete_eq)
  moreover have "ledger_of ?s = led(n \<mapsto> r)" using led map_of_replace [of n "coin_record_db s" r] by (simp add: ledger_of_def)
  ultimately have "implements cr ?s (led(n \<mapsto> r))" using c(2) led by (simp add: implements_def store_ok_def)
  then show ?thesis using led by (simp add: add_coin_record_def assms(2) c(1) ledger_of_def)
qed

lemma sim_add [sim_rules]:
  assumes "implements cr s led"
  shows "sim (implements cr) (add_coin_record cr s r False) (led_add cr r led)"
proof (cases "coin_name cr (cr_coin r)" rule: res_cases)
  case (Ok n)
  with add_coin_record_ledger [OF assms Ok, of False] show ?thesis
    by (auto simp: led_add_def sim_Ok sim_Raise)
qed (simp_all add: add_coin_record_def led_add_def sim_def)

abbreviation implements_with :: "crypto \<Rightarrow> int \<times> CoinStore \<Rightarrow> int \<times> ledger \<Rightarrow> bool" where
  "implements_with cr \<equiv> rel_prod (=) (implements cr)"

lemma sim_spend [sim_rules]:
  assumes "implements cr s led"
  shows "sim (implements_with cr) (set_spent cr s n h) (led_spend n h led)"
proof -
  from get_coin_record_ledger [OF assms, of n] obtain s' where
    g: "get_coin_record cr s n = Ok (led n, s')" "implements cr s' led" by blast
  show ?thesis
  proof (cases "led n")
    case None
    with g show ?thesis by (simp add: set_spent_def led_spend_def sim_rules)
  next
    case (Some r)
    have n: "coin_name cr (cr_coin (r\<lparr>cr_spent_block_index := h, cr_spent := True\<rparr>)) = Ok n"
      using store_name [OF assms Some] by simp
    from add_coin_record_ledger [OF g(2) n, of True] obtain s'' where
      "add_coin_record cr s' (r\<lparr>cr_spent_block_index := h, cr_spent := True\<rparr>) True = Ok s''"
      "implements cr s'' (led(n \<mapsto> r\<lparr>cr_spent_block_index := h, cr_spent := True\<rparr>))" by auto
    with g Some show ?thesis
      by (cases "cr_spent r") (simp_all add: set_spent_def led_spend_def py_assert_def sim_rules)
  qed
qed

lemma sim_block:
  assumes "implements cr s led"
  shows "sim (implements cr) (new_block cr s block adds rems) (led_block cr block adds rems led)"
proof (cases "fb_foliage_transaction_block block")
  case None
  with assms show ?thesis by (simp add: new_block_def led_block_def sim_rules)
next
  case (Some ftb)
  have adds: "sim (implements cr)
      (rfold (\<lambda>coin self. add_coin_record cr self (new_record h t b coin) False) cs s)
      (rfold (\<lambda>coin. led_add cr (new_record h t b coin)) cs led)"
    if "implements cr s led" for s led h t b cs
    by (rule sim_rfold) (use that in \<open>auto intro: sim_add\<close>)
  have spends: "sim (implements_with cr)
      (rfold (\<lambda>name (total, self). rbind (set_spent cr self name h) (\<lambda>(amount, self). Ok (total + amount, self)))
         ns (0, s))
      (rfold (\<lambda>n (t, led). rbind (led_spend n h led) (\<lambda>(a, led). Ok (t + a, led))) ns (0, led))"
    if "implements cr s led" for s led h ns
    by (rule sim_rfold) (use that in \<open>auto intro!: sim_rbind [OF sim_spend] sim_Ok\<close>)
  show ?thesis
    unfolding new_block_def led_block_def Some option.case
    by (rule sim_rbind [OF adds [OF assms]], rule sim_same, rule sim_same, erule sim_rbind [OF adds],
        rule sim_rbind, erule spends) (auto intro!: sim_same sim_Ok)
qed

section \<open>Rolling back\<close>

lemma lru_put_present:
  assumes "lru_ok c" and "lru_entries c k \<noteq> None"
  shows "lru_ok (lru_put c k v) \<and> lru_entries (lru_put c k v) = (lru_entries c)(k \<mapsto> v)"
proof -
  have d: "distinct (map fst (lru_cache c))" and l: "int (length (lru_cache c)) \<le> max 0 (lru_capacity c)"
    using assms(1) by (simp_all add: lru_ok_def)
  have u: "distinct (map fst (AList.update k v (lru_cache c)))" by (rule distinct_update [OF d])
  have len: "length (AList.update k v al) = length al" if "map_of al k \<noteq> None" for al :: "('a \<times> 'b) list"
    using that by (induction al) (auto split: if_splits)
  have ne: "lru_cache c \<noteq> []" using assms(2) by (auto simp: lru_entries_def)
  have "length (move_to_end k (AList.update k v (lru_cache c))) = length (lru_cache c)"
    using length_move_to_end [OF u] len assms(2) by (simp add: lru_entries_def)
  moreover have "int (length (lru_cache c)) \<le> lru_capacity c"
    using l ne by (cases "lru_cache c") (auto simp: max_def split: if_splits)
  ultimately show ?thesis using l
    by (simp add: lru_put_def lru_ok_def lru_entries_def Let_def distinct_move_to_end [OF u]
        map_of_move_to_end [OF u] update_conv')
qed

definition undo :: "int \<Rightarrow> CoinRecord \<Rightarrow> CoinRecord" where
  "undo i r = (if cr_spent_block_index r > i then unspend r else r)"

lemma rollback_loop:
  assumes "lru_ok c" "distinct (map fst es)" "\<forall>(k, r)\<in>set es. lru_entries c k = Some r \<and> coin_name cr (cr_coin r) = Ok k"
  shows "\<exists>c'. rfold (rollback_cache_entry cr i) es (c, q)
      = Ok (c', q @ map fst (filter (\<lambda>(k, r). cr_confirmed_block_index r > i) es)) \<and> lru_ok c' \<and>
     lru_entries c' = (\<lambda>k. case map_of es k of Some r \<Rightarrow> Some (undo i r) | None \<Rightarrow> lru_entries c k)"
  using assms
proof (induction es arbitrary: c q)
  case (Cons p es)
  obtain k r where p: "p = (k, r)" by (cases p)
  let ?q = "if cr_confirmed_block_index r > i then q @ [k] else q"
  have k: "lru_entries c k = Some r" "coin_name cr (cr_coin r) = Ok k" using Cons.prems(3) p by auto
  have fresh: "k \<notin> fst ` set es" "distinct (map fst es)" using Cons.prems(2) p by auto
  obtain d where d: "rollback_cache_entry cr i (k, r) (c, q) = Ok (d, ?q)" "lru_ok d"
      "lru_entries d = (lru_entries c)(k \<mapsto> undo i r)"
  proof (cases "cr_spent_block_index r > i")
    case True
    then show ?thesis
      using that lru_put_present [OF Cons.prems(1), of k "unspend r"] k
      by (simp add: rollback_cache_entry_def undo_def)
  next
    case False
    then show ?thesis
      using that Cons.prems(1) k by (simp add: rollback_cache_entry_def undo_def fun_upd_idem)
  qed
  have es: "\<forall>(k', r')\<in>set es. lru_entries d k' = Some r' \<and> coin_name cr (cr_coin r') = Ok k'"
    using Cons.prems(3) fresh d(3) by (fastforce simp: image_iff)
  from Cons.IH [OF d(2) fresh(2) es, of ?q] obtain c' where
    c': "rfold (rollback_cache_entry cr i) es (d, ?q)
        = Ok (c', ?q @ map fst (filter (\<lambda>(k, r). cr_confirmed_block_index r > i) es))" "lru_ok c'"
      "lru_entries c' = (\<lambda>k. case map_of es k of Some r \<Rightarrow> Some (undo i r) | None \<Rightarrow> lru_entries d k)" by blast
  have "lru_entries c' = (\<lambda>k'. case map_of (p # es) k' of Some r \<Rightarrow> Some (undo i r) | None \<Rightarrow> lru_entries c k')"
    using fresh(1) [folded map_of_eq_None_iff] by (auto simp: c'(3) d(3) p fun_eq_iff split: option.splits)
  with c' d(1) show ?case by (simp add: p)
qed simp

lemma remove_loop:
  assumes "lru_ok c" "distinct ks" "\<forall>k\<in>set ks. lru_entries c k \<noteq> None"
  shows "\<exists>c'. rfold (\<lambda>name cache. lru_remove cache name) ks c = Ok c' \<and> lru_ok c' \<and>
     lru_entries c' = (\<lambda>k. if k \<in> set ks then None else lru_entries c k)"
  using assms
proof (induction ks arbitrary: c)
  case (Cons k ks)
  then obtain v where v: "lru_entries c k = Some v" by auto
  from lru.discard_present [OF Cons.prems(1) v] obtain d where
    d: "lru_remove c k = Ok d" "lru_ok d" "lru_entries d = (lru_entries c)(k := None)" by blast
  have "\<forall>k'\<in>set ks. lru_entries d k' \<noteq> None" using Cons.prems d(3) by auto
  from Cons.IH [OF d(2) _ this] Cons.prems obtain c' where
    c': "rfold (\<lambda>name cache. lru_remove cache name) ks d = Ok c'" "lru_ok c'"
      "lru_entries c' = (\<lambda>k. if k \<in> set ks then None else lru_entries d k)" by auto
  have "lru_entries c' = (\<lambda>k'. if k' \<in> set (k # ks) then None else lru_entries c k')"
    by (auto simp: c'(3) d(3))
  with d(1) c' show ?case by simp
qed simp

lemma map_of_rollback:
  assumes "distinct (map fst db)"
  shows "map_of (map (\<lambda>(n, r). (n, if cr_spent_block_index r > i then unspend r else r))
      (filter (\<lambda>(n, r). \<not> cr_confirmed_block_index r > i) db)) = led_rollback i (map_of db)"
proof -
  have "map_of (map (\<lambda>(n, r). (n, undo i r)) (filter (\<lambda>(n, r). \<not> cr_confirmed_block_index r > i) db)) n
      = led_rollback i (map_of db) n" for n
    using assms
  proof (induction db)
    case (Cons p db)
    obtain m r where p: "p = (m, r)" by (cases p)
    have "map_of (map (\<lambda>(n, r). (n, undo i r)) (filter (\<lambda>(n, r). \<not> cr_confirmed_block_index r > i) db)) m = None"
      using Cons.prems p by (force simp: map_of_eq_None_iff)
    with Cons p show ?case by (auto simp: led_rollback_def undo_def)
  qed (simp add: led_rollback_def)
  then show ?thesis by (simp add: fun_eq_iff undo_def)
qed

lemma rollback_ledger:
  assumes "implements cr s led"
  shows "\<exists>s'. rollback_to_block cr s i = Ok s' \<and> implements cr s' (led_rollback i led)"
proof -
  let ?c = "coin_record_cache s" let ?es = "lru_cache ?c"
  have a: "lru.agrees ?c (ledger_of s)" and d: "distinct (map fst (coin_record_db s))"
    and names: "\<forall>(n, r)\<in>set (coin_record_db s). coin_name cr (cr_coin r) = Ok n" and led: "ledger_of s = led"
    using assms unfolding implements_def store_ok_def by blast+
  have ok: "lru_ok ?c" by (rule lru.agrees_ok [OF a])
  then have de: "distinct (map fst ?es)" by (simp add: lru_ok_def)
  have entry: "lru_entries ?c k = Some r \<and> coin_name cr (cr_coin r) = Ok k" if "(k, r) \<in> set ?es" for k r
  proof -
    have "lru_entries ?c k = Some r" using that de by (simp add: lru_entries_def)
    with lru.agreesD [OF a this] led store_name [OF assms] show ?thesis by blast
  qed
  let ?q = "map fst (filter (\<lambda>(k, r). cr_confirmed_block_index r > i) ?es)"
  from rollback_loop [OF ok de, of cr i "[]"] entry obtain c1 where
    c1: "rfold (rollback_cache_entry cr i) ?es (?c, []) = Ok (c1, ?q)" "lru_ok c1"
      "lru_entries c1 = (\<lambda>k. case map_of ?es k of Some r \<Rightarrow> Some (undo i r) | None \<Rightarrow> lru_entries ?c k)"
    by auto
  have q: "distinct ?q" using de by (simp add: distinct_map_filter)
  have "\<forall>k\<in>set ?q. lru_entries c1 k \<noteq> None"
    using de by (auto simp: c1(3) split: option.splits)
  from remove_loop [OF c1(2) q this] obtain c2 where
    c2: "rfold (\<lambda>name cache. lru_remove cache name) ?q c1 = Ok c2" "lru_ok c2"
      "lru_entries c2 = (\<lambda>k. if k \<in> set ?q then None else lru_entries c1 k)" by blast
  let ?db = "map (\<lambda>(n, r). (n, if cr_spent_block_index r > i then unspend r else r))
      (filter (\<lambda>(n, r). \<not> cr_confirmed_block_index r > i) (coin_record_db s))"
  let ?s = "s\<lparr>coin_record_cache := c2, coin_record_db := ?db\<rparr>"
  have led': "ledger_of ?s = led_rollback i led"
    using map_of_rollback [OF d, of i] led by (simp add: ledger_of_def)
  have "lru.agrees c2 (led_rollback i led)"
  proof (rule lru.agreesI [OF c2(2)])
    fix k v
    assume v: "lru_entries c2 k = Some v"
    then have kq: "k \<notin> set ?q" and v1: "lru_entries c1 k = Some v" by (auto simp: c2(3) split: if_splits)
    from v1 obtain r where r: "map_of ?es k = Some r" "v = undo i r"
      by (cases "map_of ?es k") (simp_all add: c1(3) lru_entries_def [of ?c])
    from r(1) have mem: "(k, r) \<in> set ?es" by (rule map_of_SomeD)
    with kq have "\<not> cr_confirmed_block_index r > i" by force
    moreover have "led k = Some r" using lru.agreesD [OF a conjunct1 [OF entry [OF mem]]] led by simp
    ultimately show "led_rollback i led k = Some v" by (simp add: led_rollback_def r(2) undo_def)
  qed
  moreover have "distinct (map fst ?db)"
  proof -
    have e: "map fst (map (\<lambda>(n, r). (n, if cr_spent_block_index r > i then unspend r else r)) xs) = map fst xs"
      for xs :: rows by (induction xs) auto
    show ?thesis unfolding e by (rule distinct_map_filter [OF d])
  qed
  moreover have "\<forall>(n, r)\<in>set ?db. coin_name cr (cr_coin r) = Ok n"
    using names by (auto simp: unspend_def)
  ultimately have "implements cr ?s (led_rollback i led)" using led' by (simp add: implements_def store_ok_def)
  with c1(1) c2(1) show ?thesis by (simp add: rollback_to_block_def Let_def)
qed

section \<open>Histories\<close>

text \<open>Any sequence of operations from an empty store, with what the lookups return.\<close>

datatype store_op = New_Block FullBlock "Coin list" "bytes list" | Rollback int | Lookup bytes

fun store_run :: "crypto \<Rightarrow> CoinStore \<Rightarrow> store_op list \<Rightarrow> (CoinRecord option list \<times> CoinStore) res" where
  "store_run cr s [] = Ok ([], s)"
| "store_run cr s (New_Block b adds rems # ops) =
     rbind (new_block cr s b adds rems) (\<lambda>s. store_run cr s ops)"
| "store_run cr s (Rollback i # ops) =
     rbind (rollback_to_block cr s i) (\<lambda>s. store_run cr s ops)"
| "store_run cr s (Lookup n # ops) =
     rbind (get_coin_record cr s n) (\<lambda>(r, s). rbind (store_run cr s ops) (\<lambda>(rs, s). Ok (r # rs, s)))"

fun ledger_run :: "crypto \<Rightarrow> ledger \<Rightarrow> store_op list \<Rightarrow> CoinRecord option list res" where
  "ledger_run cr led [] = Ok []"
| "ledger_run cr led (New_Block b adds rems # ops) =
     rbind (led_block cr b adds rems led) (\<lambda>led. ledger_run cr led ops)"
| "ledger_run cr led (Rollback i # ops) = ledger_run cr (led_rollback i led) ops"
| "ledger_run cr led (Lookup n # ops) = rbind (ledger_run cr led ops) (\<lambda>rs. Ok (led n # rs))"

lemma store_run_ledger:
  "implements cr s led \<Longrightarrow> rbind (store_run cr s ops) (\<lambda>(rs, s). Ok rs) = ledger_run cr led ops"
proof (induction ops arbitrary: s led)
  case (Cons op ops)
  show ?case
  proof (cases op)
    case (New_Block b adds rems)
    from sim_block [OF Cons.prems, of b adds rems] show ?thesis
      using Cons.IH unfolding New_Block
      by (cases "new_block cr s b adds rems" rule: res_cases; cases "led_block cr b adds rems led" rule: res_cases)
         (simp_all add: sim_def)
  next
    case (Rollback i)
    from rollback_ledger [OF Cons.prems, of i] Cons.IH show ?thesis by (auto simp: Rollback)
  next
    case (Lookup n)
    from get_coin_record_ledger [OF Cons.prems, of n] obtain s' where
      s': "get_coin_record cr s n = Ok (led n, s')" "implements cr s' led" by blast
    have "rbind (store_run cr s' ops) (\<lambda>(rs, s). Ok (led n # rs))
        = rbind (ledger_run cr led ops) (\<lambda>rs. Ok (led n # rs))"
      unfolding Cons.IH [OF s'(2), symmetric]
      by (cases "store_run cr s' ops" rule: res_cases) (auto simp: case_prod_unfold)
    then show ?thesis by (simp add: Lookup s'(1) rbind_assoc case_prod_unfold)
  qed
qed simp

text \<open>A record that is not spent has no spent height; this is what rolling back restores.\<close>

definition unspent_zero :: "ledger \<Rightarrow> bool" where
  "unspent_zero led \<longleftrightarrow> (\<forall>n r. led n = Some r \<longrightarrow> \<not> cr_spent r \<longrightarrow> cr_spent_block_index r = 0)"

definition settled :: "int \<Rightarrow> ledger \<Rightarrow> bool" where
  "settled i led \<longleftrightarrow> (\<forall>n r. led n = Some r \<longrightarrow> cr_confirmed_block_index r \<le> i \<and> cr_spent_block_index r \<le> i)"

lemma rollback_settled: "settled i led \<Longrightarrow> led_rollback i led = led"
proof
  fix n
  assume "settled i led"
  then show "led_rollback i led n = led n"
    by (cases "led n") (fastforce simp: settled_def led_rollback_def)+
qed

definition above :: "int \<Rightarrow> ledger \<Rightarrow> ledger \<Rightarrow> bool" where
  "above i led led' \<longleftrightarrow> unspent_zero led' \<and> led_rollback i led' = led_rollback i led"

lemma above_add:
  assumes "above i led led1" "led_add cr r led1 = Ok led2" "i < cr_confirmed_block_index r"
    "\<not> cr_spent r" "cr_spent_block_index r = 0"
  shows "above i led led2"
proof -
  from assms(2) obtain n where n: "led1 n = None" "led2 = led1(n \<mapsto> r)"
    by (auto simp: led_add_def split: if_splits)
  then have "led_rollback i led2 = led_rollback i led1"
    using assms(3) by (auto simp: led_rollback_def fun_eq_iff)
  with assms(1,4,5) n(2) show ?thesis by (auto simp: above_def unspent_zero_def)
qed

lemma above_spend:
  assumes "above i led led1" "led_spend n h led1 = Ok (a, led2)" "i < h" "0 \<le> i"
  shows "above i led led2"
proof -
  from assms(2) obtain r where r: "led1 n = Some r" "\<not> cr_spent r"
    "led2 = led1(n \<mapsto> r\<lparr>cr_spent_block_index := h, cr_spent := True\<rparr>)" by (auto simp: led_spend_def)
  with assms(1) have z: "cr_spent_block_index r = 0" by (auto simp: above_def unspent_zero_def)
  with r(2) have "unspend r = r" by (simp add: unspend_def)
  then have "led_rollback i led2 = led_rollback i led1"
    using r assms(3,4) z by (auto simp: led_rollback_def fun_eq_iff unspend_def)
  with assms(1) r show ?thesis by (auto simp: above_def unspent_zero_def)
qed

lemma above_block:
  assumes "above i led led1" "led_block cr b adds rems led1 = Ok led2" "i < fb_height b" "0 \<le> i"
  shows "above i led led2"
proof (cases "fb_foliage_transaction_block b")
  case None
  with assms show ?thesis by (simp add: led_block_def)
next
  case (Some ftb)
  have add: "above i led v" if "rfold (\<lambda>coin. led_add cr (new_record (fb_height b) t c coin)) cs u = Ok v"
    "above i led u" for t c cs u v
    by (rule rfold_invariant [OF that(1), of "above i led", OF that(2)])
       (use assms(3) in \<open>auto elim!: above_add simp: new_record_def\<close>)
  have spend: "above i led (snd v)" if "rfold (\<lambda>n (t, led). rbind (led_spend n (fb_height b) led)
      (\<lambda>(a, led). Ok (t + a, led))) rems u = Ok v" "above i led (snd u)" for u v
    by (rule rfold_invariant [OF that(1), of "\<lambda>p. above i led (snd p)", OF that(2)])
       (use assms(3,4) in \<open>auto elim!: above_spend\<close>)
  from assms(2) Some add [OF _ assms(1)] show ?thesis
    by (auto simp: led_block_def) (use add spend in fastforce)
qed

lemma rollback_undoes:
  assumes "store_ok cr s" "settled i (ledger_of s)" "unspent_zero (ledger_of s)" "0 \<le> i"
    and "\<forall>(b, adds, rems)\<in>set bs. i < fb_height b"
    and "rfold (\<lambda>(b, adds, rems) s. new_block cr s b adds rems) bs s = Ok s'"
  shows "\<exists>s''. rollback_to_block cr s' i = Ok s'' \<and> store_ok cr s'' \<and> ledger_of s'' = ledger_of s"
proof -
  have init: "store_ok cr s \<and> above i (ledger_of s) (ledger_of s)"
    using assms(1,3) by (simp add: above_def)
  have "store_ok cr s' \<and> above i (ledger_of s) (ledger_of s')"
  proof (rule rfold_invariant [OF assms(6), of "\<lambda>t. store_ok cr t \<and> above i (ledger_of s) (ledger_of t)", OF init])
    fix x u v
    assume x: "x \<in> set bs" and u: "store_ok cr u \<and> above i (ledger_of s) (ledger_of u)"
      and v: "(case x of (b, adds, rems) \<Rightarrow> \<lambda>s. new_block cr s b adds rems) u = Ok v"
    obtain b adds rems where e: "x = (b, adds, rems)" by (cases x)
    from u have "implements cr u (ledger_of u)" by (simp add: implements_def)
    from sim_block [OF this, of b adds rems] v e obtain led where
      "led_block cr b adds rems (ledger_of u) = Ok led" "implements cr v led" by (auto dest: sim_OkD)
    with u above_block [of i "ledger_of s" "ledger_of u" cr b adds rems led] assms(4,5) x e
    show "store_ok cr v \<and> above i (ledger_of s) (ledger_of v)" by (auto simp: implements_def)
  qed
  then have i: "implements cr s' (ledger_of s')" and e: "led_rollback i (ledger_of s') = ledger_of s"
    using rollback_settled [OF assms(2)] by (simp_all add: implements_def above_def)
  from rollback_ledger [OF i, of i] e show ?thesis by (auto simp: implements_def)
qed
end
