(* ===== verification/Block_Body.thy ===== *)
theory Block_Body
  imports Coin_Ledger Block_Roots Rewards Block_Cache
begin

text \<open>
  \<^verbatim>\<open>chia/consensus/block_body_validation.py\<close>: the transactions of a block, after its header has been
  validated. One definition per group of numbered checks, composed in the order of the source. The
  block store is a function from header hashes to full blocks, the generator lookup a function that
  may raise, as they are arguments of the source function; the coin store is threaded through because
  its lookups change its cache. An element of \<^verbatim>\<open>G2Element\<close> is always true, so the test of check 22
  for an empty signature never fires and is left out, as are the log calls.
\<close>

section \<open>The fields a body has\<close>

text \<open>A \<^verbatim>\<open>FullBlock\<close> or an \<^verbatim>\<open>UnfinishedBlock\<close>; only the former has a height of its own.\<close>

record BlockBody =
  bb_own_height :: "int option"
  bb_foliage :: Foliage
  bb_foliage_transaction_block :: "FoliageTransactionBlock option"
  bb_transactions_info :: "TransactionsInfo option"
  bb_transactions_generator :: "bytes option"
  bb_transactions_generator_ref_list :: "int list"

definition body_of_full :: "FullBlock \<Rightarrow> BlockBody" where
  "body_of_full b =
     \<lparr>bb_own_height = Some (fb_height b), bb_foliage = fb_foliage b,
      bb_foliage_transaction_block = fb_foliage_transaction_block b,
      bb_transactions_info = fb_transactions_info b,
      bb_transactions_generator = fb_transactions_generator b,
      bb_transactions_generator_ref_list = fb_transactions_generator_ref_list b\<rparr>"

definition body_of_unfinished :: "UnfinishedBlock \<Rightarrow> BlockBody" where
  "body_of_unfinished b =
     \<lparr>bb_own_height = None, bb_foliage = ub_foliage b,
      bb_foliage_transaction_block = ub_foliage_transaction_block b,
      bb_transactions_info = ub_transactions_info b,
      bb_transactions_generator = ub_transactions_generator b,
      bb_transactions_generator_ref_list = ub_transactions_generator_ref_list b\<rparr>"

definition bb_prev_header_hash :: "BlockBody \<Rightarrow> bytes" where
  "bb_prev_header_hash b = prev_block_hash (bb_foliage b)"

section \<open>Blocks without transactions\<close>

definition check_no_transactions :: "ConsensusConstants \<Rightarrow> BlockCache \<Rightarrow> BlockBody \<Rightarrow> unit vres" where
  "check_no_transactions c blocks block =
     vbind (reject_if (bb_foliage_transaction_block block \<noteq> None \<or> bb_transactions_info block \<noteq> None \<or>
              bb_transactions_generator block \<noteq> None) NOT_BLOCK_BUT_HAS_DATA) (\<lambda>_.
     rbind (block_record blocks (bb_prev_header_hash block)) (\<lambda>prev_tb.
     rbind (walk (block_record blocks) (\<lambda>b. \<not> is_transaction_block b) prev_tb) (\<lambda>prev_tb.
     rbind (unwrap AssertionError (timestamp prev_tb)) (\<lambda>ts.
       reject_if (ts > INITIAL_FREEZE_END_TIMESTAMP c \<and> bb_transactions_generator_ref_list block \<noteq> [])
         NOT_BLOCK_BUT_HAS_DATA))))"

section \<open>Reward claims\<close>

definition set_add :: "'a \<Rightarrow> 'a list \<Rightarrow> 'a list" where
  "set_add x xs = (if x \<in> set xs then xs else xs @ [x])"

definition add_block_rewards :: "ConsensusConstants \<Rightarrow> int \<Rightarrow> BlockRecord \<Rightarrow> Coin list \<Rightarrow> Coin list res" where
  "add_block_rewards c extra b coins =
     rbind (calculate_pool_reward (height b)) (\<lambda>pool_reward.
     rbind (create_pool_coin (height b) (pool_puzzle_hash b) pool_reward (GENESIS_CHALLENGE c)) (\<lambda>pool_coin.
     rbind (calculate_base_farmer_reward (height b)) (\<lambda>farmer_reward.
     rbind (uint64 (farmer_reward + extra)) (\<lambda>farmer_reward.
     rbind (create_farmer_coin (height b) (farmer_puzzle_hash b) farmer_reward (GENESIS_CHALLENGE c))
       (\<lambda>farmer_coin. Ok (set_add farmer_coin (set_add pool_coin coins)))))))"

text \<open>The height of the previous transaction block and the reward coins of it and of the blocks below it
  back to the transaction block before.\<close>

definition expected_reward_coins ::
    "ConsensusConstants \<Rightarrow> BlockCache \<Rightarrow> FoliageTransactionBlock \<Rightarrow> int \<Rightarrow> (int \<times> Coin list) res" where
  "expected_reward_coins c blocks ftb h =
     (if h > 0 then
        rbind (block_record blocks (ftb_prev_transaction_block_hash ftb)) (\<lambda>prev_tb.
        rbind (unwrap AssertionError (fees prev_tb)) (\<lambda>prev_fees.
        rbind (add_block_rewards c prev_fees prev_tb []) (\<lambda>coins.
          if height prev_tb > 0 then
            rbind (block_record blocks (prev_hash prev_tb)) (\<lambda>curr_b.
            rbind (walk_acc (block_record blocks) (\<lambda>b _. \<not> is_transaction_block b)
                     (add_block_rewards c 0) curr_b coins) (\<lambda>(_, coins).
              Ok (height prev_tb, coins)))
          else Ok (height prev_tb, coins))))
      else Ok (0, []))"

definition check_reward_claims ::
    "ConsensusConstants \<Rightarrow> FoliageTransactionBlock \<Rightarrow> TransactionsInfo \<Rightarrow> Coin list \<Rightarrow> unit vres" where
  "check_reward_claims c ftb ti expected =
     vbind (reject_if (set (ti_reward_claims_incorporated ti) \<noteq> set expected) INVALID_REWARD_COINS) (\<lambda>_.
       reject_if (ftb_timestamp ftb > INITIAL_FREEZE_END_TIMESTAMP c \<and>
           length (ti_reward_claims_incorporated ti) \<noteq> length expected) INVALID_REWARD_COINS)"

section \<open>The generator\<close>

definition check_generator_root ::
    "crypto \<Rightarrow> ConsensusConstants \<Rightarrow> BlockBody \<Rightarrow> TransactionsInfo \<Rightarrow> int \<Rightarrow> unit vres" where
  "check_generator_root cr c block ti h =
     vbind (case bb_transactions_generator block of
              Some gen \<Rightarrow> rbind (std_hash cr gen) (\<lambda>gh.
                reject_if (gh \<noteq> generator_root ti) INVALID_TRANSACTIONS_GENERATOR_HASH)
            | None \<Rightarrow> reject_if (generator_root ti \<noteq> replicate 32 0) INVALID_TRANSACTIONS_GENERATOR_HASH) (\<lambda>_.
       if bb_transactions_generator_ref_list block = [] then
         reject_if (generator_refs_root ti \<noteq> replicate 32 1) INVALID_TRANSACTIONS_GENERATOR_REFS_ROOT
       else
         vbind (reject_if (bb_transactions_generator block = None) INVALID_TRANSACTIONS_GENERATOR_REFS_ROOT) (\<lambda>_.
         rbind (std_hash cr (concat (map (\<lambda>i. be_bytes 4 (nat i)) (bb_transactions_generator_ref_list block))))
           (\<lambda>refs_hash.
         vbind (reject_if (generator_refs_root ti \<noteq> refs_hash) INVALID_TRANSACTIONS_GENERATOR_REFS_ROOT) (\<lambda>_.
         vbind (reject_if (int (length (bb_transactions_generator_ref_list block)) > MAX_GENERATOR_REF_LIST_SIZE c)
                  TOO_MANY_GENERATOR_REFS) (\<lambda>_.
           reject_if (\<exists>index\<in>set (bb_transactions_generator_ref_list block). index \<ge> h) FUTURE_GENERATOR_REFS)))))"

text \<open>What the block spends: the cost, the spends, the coins they create and their announcements.\<close>

record BodySpends =
  bs_cost :: int
  bs_npcs :: "NPC list"
  bs_additions :: "Coin list"
  bs_coin_names :: "bytes set"
  bs_puzzle_names :: "bytes set"

definition body_spends ::
    "crypto \<Rightarrow> ConsensusConstants \<Rightarrow> BlockBody \<Rightarrow> NPCResult option \<Rightarrow> BodySpends vres" where
  "body_spends cr c block npc_result =
     (case bb_transactions_generator block of
        Some gen \<Rightarrow>
          rbind (unwrap AssertionError npc_result) (\<lambda>npc_result.
          rbind (calculate_cost_of_program gen npc_result (COST_PER_BYTE c)) (\<lambda>cost.
          vbind (reject_if (cost > MAX_BLOCK_COST_CLVM c) BLOCK_COST_EXCEEDS_MAX) (\<lambda>_.
          vbind (case npc_error npc_result of
                   None \<Rightarrow> Valid ()
                 | Some e \<Rightarrow> rbind (Err_of_value e) (\<lambda>err. Invalid err)) (\<lambda>_.
          rbind (additions_for_npc cr (npc_list npc_result)) (\<lambda>additions.
          rbind (coin_announcements_names_for_npc cr (npc_list npc_result)) (\<lambda>coin_names.
          rbind (puzzle_announcements_names_for_npc cr (npc_list npc_result)) (\<lambda>puzzle_names.
            Valid \<lparr>bs_cost = cost, bs_npcs = npc_list npc_result, bs_additions = additions,
                   bs_coin_names = coin_names, bs_puzzle_names = puzzle_names\<rparr>)))))))
      | None \<Rightarrow>
          rbind (py_assert (npc_result = None)) (\<lambda>_.
            Valid \<lparr>bs_cost = 0, bs_npcs = [], bs_additions = [], bs_coin_names = {}, bs_puzzle_names = {}\<rparr>))"

definition bs_removals :: "BodySpends \<Rightarrow> bytes list" where
  "bs_removals sp = map npc_coin_name (bs_npcs sp)"

section \<open>Additions and removals\<close>

text \<open>Checks 9 to 14; the result is the dictionary of the created coins.\<close>

definition addition_step ::
    "crypto \<Rightarrow> ConsensusConstants \<Rightarrow> Coin \<Rightarrow> (bytes \<times> Coin) list \<Rightarrow> (bytes \<times> Coin) list vres" where
  "addition_step cr c coin dic =
     rbind (coin_name cr coin) (\<lambda>name.
     vbind (reject_if (coin_amount coin < 0) COIN_AMOUNT_NEGATIVE) (\<lambda>_.
     vbind (reject_if (coin_amount coin > MAX_COIN_AMOUNT c) COIN_AMOUNT_EXCEEDS_MAXIMUM) (\<lambda>_.
       Valid (AList.update name coin dic))))"

definition check_additions_removals ::
    "crypto \<Rightarrow> ConsensusConstants \<Rightarrow> FoliageTransactionBlock \<Rightarrow> TransactionsInfo \<Rightarrow> Coin list \<Rightarrow> BodySpends \<Rightarrow>
     (bytes \<times> Coin) list vres" where
  "check_additions_removals cr c ftb ti coinbase_additions sp =
     (let all_additions = bs_additions sp @ coinbase_additions in
      vbind (reject_if (ti_cost ti \<noteq> bs_cost sp) INVALID_BLOCK_COST) (\<lambda>_.
      vbind (vfold (addition_step cr c) all_additions []) (\<lambda>additions_dic.
      rbind (validate_block_merkle_roots cr (additions_root ftb) (removals_root ftb)
               (Some all_additions) (Some (bs_removals sp))) (\<lambda>root_error.
      vbind (case root_error of None \<Rightarrow> Valid () | Some e \<Rightarrow> Invalid e) (\<lambda>_.
      rbind (std_hash cr (bip158_encoded cr (map coin_puzzle_hash all_additions @ bs_removals sp))) (\<lambda>fh.
      vbind (reject_if (fh \<noteq> filter_hash ftb) INVALID_TRANSACTIONS_FILTER_HASH) (\<lambda>_.
      rbind (rmap (coin_name cr) all_additions) (\<lambda>names.
      vbind (reject_if (\<not> distinct names) DUPLICATE_OUTPUT) (\<lambda>_.
      vbind (reject_if (\<not> distinct (bs_removals sp)) DOUBLE_SPEND) (\<lambda>_.
        Valid additions_dic))))))))))"

section \<open>The fork\<close>

definition fork_height ::
    "BlockCache \<Rightarrow> BlockRecord option \<Rightarrow> BlockBody \<Rightarrow> int \<Rightarrow> int option \<Rightarrow> int res" where
  "fork_height blocks peak block h fork_point_with_peak =
     (if peak = None \<or> h = 0 then Ok (- 1)
      else case fork_point_with_peak of
             Some f \<Rightarrow> Ok f
           | None \<Rightarrow> rbind (unwrap AttributeError peak) (\<lambda>peak.
               rbind (block_record blocks (bb_prev_header_hash block)) (\<lambda>prev.
                 find_fork_point_in_chain blocks peak prev)))"

text \<open>The first loop collects the blocks of the fork by height, the second reads their coins.\<close>

partial_function (option) collect_fork ::
    "(bytes \<Rightarrow> FullBlock option) \<Rightarrow> int \<Rightarrow> FullBlock \<Rightarrow> (int \<times> FullBlock) list \<Rightarrow>
     (int \<times> FullBlock) list res" where
  "collect_fork get_full_block fork_h cur reorg_blocks =
     (if fb_height cur > fork_h then
        if fb_height cur = 0 then Ok reorg_blocks
        else rbind (unwrap AssertionError (get_full_block (fb_prev_header_hash cur))) (\<lambda>cur.
               collect_fork get_full_block fork_h cur (AList.update (fb_height cur) cur reorg_blocks))
      else Ok reorg_blocks)"

declare collect_fork.simps [code]

record ForkCoins =
  fc_additions :: "(bytes \<times> (Coin \<times> int \<times> int)) list"
  fc_removals :: "bytes set"

definition fork_removal :: "bytes \<Rightarrow> ForkCoins \<Rightarrow> ForkCoins res" where
  "fork_removal c_name fc =
     rbind (py_assert (c_name \<notin> fc_removals fc)) (\<lambda>_.
       Ok (fc\<lparr>fc_removals := insert c_name (fc_removals fc)\<rparr>))"

definition fork_addition :: "crypto \<Rightarrow> FullBlock \<Rightarrow> Coin \<Rightarrow> ForkCoins \<Rightarrow> ForkCoins res" where
  "fork_addition cr cur coin fc =
     rbind (coin_name cr coin) (\<lambda>name.
     rbind (py_assert (map_of (fc_additions fc) name = None)) (\<lambda>_.
     rbind (unwrap AssertionError (fb_foliage_transaction_block cur)) (\<lambda>ftb.
       Ok (fc\<lparr>fc_additions :=
         AList.update name (coin, fb_height cur, ftb_timestamp ftb) (fc_additions fc)\<rparr>))))"

definition fork_block_coins ::
    "crypto \<Rightarrow> 's clvm \<Rightarrow> ConsensusConstants \<Rightarrow> (FullBlock \<Rightarrow> BlockGenerator option res) \<Rightarrow> FullBlock \<Rightarrow>
     ForkCoins \<Rightarrow> ForkCoins res" where
  "fork_block_coins cr vm c get_block_generator cur fc =
     rbind (case fb_transactions_generator cur of
              None \<Rightarrow> Ok ([], [])
            | Some _ \<Rightarrow>
                rbind (get_block_generator cur) (\<lambda>gen.
                rbind (unwrap AssertionError gen) (\<lambda>gen.
                rbind (unwrap AssertionError (fb_transactions_info cur)) (\<lambda>ti.
                rbind (get_name_puzzle_conditions cr vm gen (min (MAX_BLOCK_COST_CLVM c) (ti_cost ti))
                         (COST_PER_BYTE c) False) (\<lambda>npc_result.
                  tx_removals_and_additions cr (Some (npc_list npc_result)))))))
       (\<lambda>(removals_in_curr, additions_in_curr).
     rbind (rfold fork_removal removals_in_curr fc) (\<lambda>fc.
     rbind (rfold (fork_addition cr cur) additions_in_curr fc) (\<lambda>fc.
     rbind (get_included_reward_coins cur) (\<lambda>rewards.
       rfold (fork_addition cr cur) rewards fc))))"

partial_function (option) fork_coins ::
    "crypto \<Rightarrow> 's clvm \<Rightarrow> ConsensusConstants \<Rightarrow> (FullBlock \<Rightarrow> BlockGenerator option res) \<Rightarrow> int \<Rightarrow>
     (int \<times> FullBlock) list \<Rightarrow> FullBlock \<Rightarrow> ForkCoins \<Rightarrow> ForkCoins res" where
  "fork_coins cr vm c get_block_generator fork_h reorg_blocks cur fc =
     (if fb_height cur > fork_h then
        rbind (fork_block_coins cr vm c get_block_generator cur fc) (\<lambda>fc.
          if fb_height cur = 0 then Ok fc
          else rbind (unwrap KeyError (map_of reorg_blocks (fb_height cur - 1))) (\<lambda>cur.
                 fork_coins cr vm c get_block_generator fork_h reorg_blocks cur fc))
      else Ok fc)"

declare fork_coins.simps [code]

definition coins_since_fork ::
    "crypto \<Rightarrow> 's clvm \<Rightarrow> ConsensusConstants \<Rightarrow> (bytes \<Rightarrow> FullBlock option) \<Rightarrow>
     (FullBlock \<Rightarrow> BlockGenerator option res) \<Rightarrow> BlockBody \<Rightarrow> int \<Rightarrow> int \<Rightarrow> ForkCoins res" where
  "coins_since_fork cr vm c get_full_block get_block_generator block h fork_h =
     (let none = \<lparr>fc_additions = [], fc_removals = {}\<rparr> in
      if h > 0 then
        rbind (unwrap AssertionError (get_full_block (bb_prev_header_hash block))) (\<lambda>prev_block.
        rbind (collect_fork get_full_block fork_h prev_block []) (\<lambda>reorg_blocks.
        rbind (py_assert (fork_h \<noteq> - 1 \<longrightarrow> int (length reorg_blocks) = h - fork_h - 1)) (\<lambda>_.
          fork_coins cr vm c get_block_generator fork_h reorg_blocks prev_block none)))
      else Ok none)"

section \<open>The spent coins\<close>

text \<open>Check 15 for one removal: a coin of this block, of the chain up to the fork, or of the fork.\<close>

definition removal_step ::
    "crypto \<Rightarrow> int \<Rightarrow> int \<Rightarrow> int \<Rightarrow> (bytes \<times> Coin) list \<Rightarrow> ForkCoins \<Rightarrow> bytes \<Rightarrow>
     (bytes \<times> CoinRecord) list \<times> CoinStore \<Rightarrow> ((bytes \<times> CoinRecord) list \<times> CoinStore) vres" where
  "removal_step cr h ts fork_h additions_dic fc rem = (\<lambda>(records, coin_store).
     case map_of additions_dic rem of
       Some rem_coin \<Rightarrow>
         rbind (coin_name cr rem_coin) (\<lambda>name.
           Valid (AList.update name
             \<lparr>cr_coin = rem_coin, cr_confirmed_block_index = h, cr_spent_block_index = h, cr_spent = True,
              cr_coinbase = False, cr_timestamp = ts\<rparr> records, coin_store))
     | None \<Rightarrow>
         rbind (get_coin_record cr coin_store rem) (\<lambda>(unspent, coin_store).
         vbind (case unspent of
                  Some u \<Rightarrow>
                    if cr_confirmed_block_index u \<le> fork_h then
                      vbind (reject_if (cr_spent u \<and> cr_spent_block_index u \<le> fork_h) DOUBLE_SPEND) (\<lambda>_.
                        Valid (Some u))
                    else Valid None
                | None \<Rightarrow> Valid None) (\<lambda>known.
         vbind (case known of
                  Some u \<Rightarrow> Valid u
                | None \<Rightarrow>
                    (case map_of (fc_additions fc) rem of
                       None \<Rightarrow> Invalid UNKNOWN_UNSPENT
                     | Some (new_coin, confirmed_height, confirmed_timestamp) \<Rightarrow>
                         Valid (new_record confirmed_height confirmed_timestamp False new_coin))) (\<lambda>u.
         rbind (coin_name cr (cr_coin u)) (\<lambda>name.
         vbind (reject_if (rem \<in> fc_removals fc) DOUBLE_SPEND_IN_FORK) (\<lambda>_.
           Valid (AList.update name u records, coin_store)))))))"

section \<open>Amounts and conditions\<close>

text \<open>The sum of the reserved fees; \<open>bound\<close> is the constructor the running sum goes through.\<close>

definition reserve_fees ::
    "crypto \<Rightarrow> (int \<Rightarrow> int res) \<Rightarrow> NPC list \<Rightarrow> int vres" where
  "reserve_fees cr bound npcs =
     vfold (\<lambda>npc. vfold (\<lambda>cvp total.
         rbind (int_var cr cvp) (\<lambda>fee.
         vbind (reject_if (fee < 0) RESERVE_FEE_CONDITION_FAILED) (\<lambda>_.
         rbind (bound (total + fee)) (\<lambda>t. Valid t)))) (conditions_of (condition_dict npc) RESERVE_FEE)) npcs 0"

definition check_amounts ::
    "crypto \<Rightarrow> ConsensusConstants \<Rightarrow> TransactionsInfo \<Rightarrow> int \<Rightarrow> BodySpends \<Rightarrow> (bytes \<times> CoinRecord) list \<Rightarrow>
     unit vres" where
  "check_amounts cr c ti h sp records =
     (let removed = sum_list (map (\<lambda>(n, u). coin_amount (cr_coin u)) records);
          added = sum_list (map coin_amount (bs_additions sp)) in
      vbind (reject_if (removed < added) MINTING_COIN) (\<lambda>_.
      rbind (py_assert (removed - added \<ge> 0)) (\<lambda>_.
      vbind (reserve_fees cr uint128 (bs_npcs sp)) (\<lambda>assert_fee_sum.
      vbind (reject_if (removed - added < assert_fee_sum) RESERVE_FEE_CONDITION_FAILED) (\<lambda>_.
      rbind (calculate_base_farmer_reward h) (\<lambda>reward.
      vbind (reject_if (removed - added + reward > MAX_COIN_AMOUNT c) COIN_AMOUNT_EXCEEDS_MAXIMUM) (\<lambda>_.
        reject_if (ti_fees ti \<noteq> removed - added) INVALID_BLOCK_FEE_AMOUNT)))))))"

definition removals_puzzle_dic :: "NPC list \<Rightarrow> (bytes \<times> bytes) list" where
  "removals_puzzle_dic npcs =
     foldl (\<lambda>d npc. AList.update (npc_coin_name npc) (npc_puzzle_hash npc) d) [] npcs"

definition check_puzzle_hashes :: "crypto \<Rightarrow> NPC list \<Rightarrow> (bytes \<times> CoinRecord) list \<Rightarrow> unit vres" where
  "check_puzzle_hashes cr npcs records =
     vfold (\<lambda>(n, u) _.
         rbind (coin_name cr (cr_coin u)) (\<lambda>name.
         rbind (unwrap KeyError (map_of (removals_puzzle_dic npcs) name)) (\<lambda>ph.
           reject_if (coin_puzzle_hash (cr_coin u) \<noteq> ph) WRONG_PUZZLE_HASH))) records ()"

text \<open>Check 21 for one spend, collecting the keys and messages of its signatures.\<close>

definition condition_check_step ::
    "crypto \<Rightarrow> ConsensusConstants \<Rightarrow> int \<Rightarrow> int \<Rightarrow> BodySpends \<Rightarrow> (bytes \<times> CoinRecord) list \<Rightarrow> NPC \<Rightarrow>
     (bytes \<times> bytes) list \<Rightarrow> (bytes \<times> bytes) list vres" where
  "condition_check_step cr c prev_height ts sp records npc pairs =
     rbind (unwrap KeyError (map_of records (npc_coin_name npc))) (\<lambda>unspent.
     rbind (mempool_check_conditions_dict cr 0 unspent (bs_coin_names sp) (bs_puzzle_names sp)
              (condition_dict npc) prev_height (Some ts)) (\<lambda>error.
     vbind (case error of None \<Rightarrow> Valid () | Some e \<Rightarrow> Invalid e) (\<lambda>_.
     rbind (pkm_pairs_for_conditions_dict cr (condition_dict npc) (npc_coin_name npc)
              (AGG_SIG_ME_ADDITIONAL_DATA c)) (\<lambda>new.
       Valid (pairs @ new)))))"

section \<open>The body\<close>

definition validate_block_body ::
    "crypto \<Rightarrow> 's clvm \<Rightarrow> ConsensusConstants \<Rightarrow> BlockCache \<Rightarrow> (bytes \<Rightarrow> FullBlock option) \<Rightarrow> CoinStore \<Rightarrow>
     BlockRecord option \<Rightarrow> BlockBody \<Rightarrow> int \<Rightarrow> NPCResult option \<Rightarrow> int option \<Rightarrow>
     (FullBlock \<Rightarrow> BlockGenerator option res) \<Rightarrow> (NPCResult option \<times> CoinStore) vres" where
  "validate_block_body cr vm c blocks get_full_block coin_store peak block h npc_result
       fork_point_with_peak get_block_generator =
     rbind (py_assert (bb_own_height block \<noteq> None \<longrightarrow> bb_own_height block = Some h)) (\<lambda>_.
     case foliage_transaction_block_hash (bb_foliage block) of
       None \<Rightarrow> vbind (check_no_transactions c blocks block) (\<lambda>_. Valid (None, coin_store))
     | Some foliage_hash \<Rightarrow>
         case (bb_foliage_transaction_block block, bb_transactions_info block) of
           (Some ftb, Some ti) \<Rightarrow>
             rbind (TransactionsInfo_hash cr ti) (\<lambda>ti_hash.
             vbind (reject_if (transactions_info_hash ftb \<noteq> ti_hash) INVALID_TRANSACTIONS_INFO_HASH) (\<lambda>_.
             rbind (FoliageTransactionBlock_hash cr ftb) (\<lambda>ftb_hash.
             vbind (reject_if (foliage_hash \<noteq> ftb_hash) INVALID_FOLIAGE_BLOCK_HASH) (\<lambda>_.
             rbind (expected_reward_coins c blocks ftb h) (\<lambda>(prev_height, coinbase_additions).
             vbind (check_reward_claims c ftb ti coinbase_additions) (\<lambda>_.
             vbind (reject_if (ftb_timestamp ftb \<le> INITIAL_FREEZE_END_TIMESTAMP c \<and>
                      bb_transactions_generator block \<noteq> None) INITIAL_TRANSACTION_FREEZE) (\<lambda>_.
             vbind (check_generator_root cr c block ti h) (\<lambda>_.
             vbind (body_spends cr c block npc_result) (\<lambda>sp.
             vbind (check_additions_removals cr c ftb ti coinbase_additions sp) (\<lambda>additions_dic.
             rbind (fork_height blocks peak block h fork_point_with_peak) (\<lambda>fork_h.
             rbind (coins_since_fork cr vm c get_full_block get_block_generator block h fork_h) (\<lambda>fc.
             vbind (vfold (removal_step cr h (ftb_timestamp ftb) fork_h additions_dic fc)
                      (bs_removals sp) ([], coin_store)) (\<lambda>(records, coin_store).
             vbind (check_amounts cr c ti h sp records) (\<lambda>_.
             vbind (check_puzzle_hashes cr (bs_npcs sp) records) (\<lambda>_.
             vbind (vfold (condition_check_step cr c prev_height (ftb_timestamp ftb) sp records)
                      (bs_npcs sp) []) (\<lambda>pairs.
             vbind (reject_if (\<not> aggregate_verify cr (map fst pairs) (map snd pairs) (ti_aggregated_signature ti))
                      BAD_AGGREGATE_SIGNATURE) (\<lambda>_.
               Valid (npc_result, coin_store))))))))))))))))))
         | _ \<Rightarrow> Invalid IS_TRANSACTION_BLOCK_BUT_NO_DATA)"
end
