(* ===== verification/Body_Facts.thy ===== *)
theory Body_Facts
  imports Block_Body Condition_Facts
begin

text \<open>
  What an accepted block body guarantees: every spent coin exists on the chain the block extends and has
  not been spent on it, no coin is spent or created twice, the amounts balance, and every puzzle hash
  and condition has been checked. On the ledger, a block adds to the supply at most its rewards.
\<close>

section \<open>The dictionaries\<close>

lemma vfold_invariant:
  assumes "vfold f xs s = Valid t" and "P s" and "\<And>x u v. x \<in> set xs \<Longrightarrow> P u \<Longrightarrow> f x u = Valid v \<Longrightarrow> P v"
  shows "P t"
  using assms by (induction xs arbitrary: s) auto

definition names_ok :: "crypto \<Rightarrow> ('v \<Rightarrow> Coin) \<Rightarrow> (bytes \<times> 'v) list \<Rightarrow> bool" where
  "names_ok cr coin d \<longleftrightarrow> (\<forall>n v. map_of d n = Some v \<longrightarrow> coin_name cr (coin v) = Ok n)"

lemma names_okD: "names_ok cr coin d \<Longrightarrow> map_of d n = Some v \<Longrightarrow> coin_name cr (coin v) = Ok n"
  by (simp add: names_ok_def)

lemma names_ok_update:
  "names_ok cr coin d \<Longrightarrow> coin_name cr (coin v) = Ok n \<Longrightarrow> names_ok cr coin (AList.update n v d)"
  by (simp add: names_ok_def update_conv')

lemma additions_dic_ok:
  assumes "vfold (addition_step cr c) coins [] = Valid dic"
  shows "names_ok cr (\<lambda>x. x) dic"
  by (rule vfold_invariant [OF assms, of "names_ok cr (\<lambda>x. x)"])
     (auto simp: names_ok_def [of _ _ "[]"] addition_step_def intro: names_ok_update)

abbreviation fork_ok :: "crypto \<Rightarrow> ForkCoins \<Rightarrow> bool" where
  "fork_ok cr fc \<equiv> names_ok cr fst (fc_additions fc)"

lemma fork_addition_ok: "fork_addition cr b coin u = Ok v \<Longrightarrow> fork_ok cr u \<Longrightarrow> fork_ok cr v"
  by (auto simp: fork_addition_def intro!: names_ok_update)

lemma fork_block_coins_ok:
  assumes "fork_block_coins cr vm c g b fc = Ok fc'" and "fork_ok cr fc"
  shows "fork_ok cr fc'"
proof -
  from assms(1) obtain rs as fc1 fc2 rewards where
    1: "rfold fork_removal rs fc = Ok fc1" and 2: "rfold (fork_addition cr b) as fc1 = Ok fc2"
    and 3: "rfold (fork_addition cr b) rewards fc2 = Ok fc'"
    unfolding fork_block_coins_def by (auto split: prod.splits)
  have "fork_ok cr fc1"
    by (rule rfold_invariant [OF 1, of "fork_ok cr", OF assms(2)]) (auto simp: fork_removal_def)
  from rfold_invariant [OF 2, of "fork_ok cr", OF this] fork_addition_ok have "fork_ok cr fc2" by blast
  from rfold_invariant [OF 3, of "fork_ok cr", OF this] fork_addition_ok show ?thesis by blast
qed

lemma fork_coins_ok:
  assumes "fork_coins cr vm c g fork_h rb b fc = Ok fc'" and "fork_ok cr fc"
  shows "fork_ok cr fc'"
proof -
  have "\<forall>fc'. Inr fc0 = (Inr fc' :: exn + ForkCoins) \<longrightarrow> fork_ok cr fc \<longrightarrow> fork_ok cr fc'"
    if "fork_coins cr vm c g fork_h rb b fc = Ok fc0" for fc0
  proof (rule fork_coins.raw_induct [of "\<lambda>cr vm c g fork_h rb b fc y.
        \<forall>fc'. y = Inr fc' \<longrightarrow> fork_ok cr fc \<longrightarrow> fork_ok cr fc'", OF _ that], goal_cases)
    case (1 f cr vm c g fork_h rb b fc y)
    show ?case
    proof (intro allI impI)
      fix fc' assume y: "y = Inr fc'" and ok: "fork_ok cr fc"
      show "fork_ok cr fc'"
      proof (cases "fb_height b > fork_h")
        case True
        with 1(2) y obtain fc1 where s: "fork_block_coins cr vm c g b fc = Ok fc1"
          and r: "(if fb_height b = 0 then Ok fc1
             else rbind (unwrap KeyError (map_of rb (fb_height b - 1))) (\<lambda>b. f cr vm c g fork_h rb b fc1)) = Ok fc'"
          by auto
        note ok1 = fork_block_coins_ok [OF s ok]
        show ?thesis
        proof (cases "fb_height b = 0")
          case True
          with r ok1 show ?thesis by simp
        next
          case False
          with r obtain b' where "f cr vm c g fork_h rb b' fc1 = Ok fc'" by auto
          from 1(1) [OF this] ok1 show ?thesis by blast
        qed
      next
        case False
        with 1(2) y ok show ?thesis by simp
      qed
    qed
  qed
  with assms show ?thesis by blast
qed

lemma coins_since_fork_ok: "coins_since_fork cr vm c gf g block h fork_h = Ok fc \<Longrightarrow> fork_ok cr fc"
  by (auto simp: coins_since_fork_def Let_def names_ok_def [of _ _ "[]"] split: if_splits elim!: fork_coins_ok)

section \<open>The spent coins\<close>

text \<open>Where a spent coin may come from: the block itself, the chain up to the fork, or the fork.\<close>

definition spendable ::
    "int \<Rightarrow> (bytes \<times> Coin) list \<Rightarrow> ForkCoins \<Rightarrow> ledger \<Rightarrow> bytes \<Rightarrow> CoinRecord \<Rightarrow> bool" where
  "spendable fork_h dic fc led n u \<longleftrightarrow>
     map_of dic n = Some (cr_coin u) \<or>
     (n \<notin> fc_removals fc \<and>
        (led n = Some u \<and> cr_confirmed_block_index u \<le> fork_h \<and>
            \<not> (cr_spent u \<and> cr_spent_block_index u \<le> fork_h) \<or>
         (\<exists>h t. map_of (fc_additions fc) n = Some (cr_coin u, h, t))))"

lemma removal_step_ok:
  assumes "removal_step cr h ts fork_h dic fc n (records, s) = Valid (records', s')"
    and "implements cr s led" and "names_ok cr (\<lambda>x. x) dic" and "fork_ok cr fc"
  shows "\<exists>u. records' = AList.update n u records \<and> coin_name cr (cr_coin u) = Ok n \<and>
     spendable fork_h dic fc led n u \<and> implements cr s' led"
proof (cases "map_of dic n")
  case (Some coin)
  with assms names_okD [OF assms(3) Some] show ?thesis
    by (auto simp: removal_step_def spendable_def)
next
  case None
  from get_coin_record_ledger [OF assms(2), of n] obtain s1 where
    g: "get_coin_record cr s n = Ok (led n, s1)" "implements cr s1 led" by blast
  from assms(1) None g obtain known u name where
    k: "(case led n of Some u \<Rightarrow> if cr_confirmed_block_index u \<le> fork_h then
          vbind (reject_if (cr_spent u \<and> cr_spent_block_index u \<le> fork_h) DOUBLE_SPEND) (\<lambda>_. Valid (Some u))
        else Valid None | None \<Rightarrow> Valid None) = Valid known"
    and u: "(case known of Some u \<Rightarrow> Valid u
        | None \<Rightarrow> (case map_of (fc_additions fc) n of None \<Rightarrow> Invalid UNKNOWN_UNSPENT
           | Some (new_coin, ch, ct) \<Rightarrow> Valid (new_record ch ct False new_coin))) = Valid u"
    and n: "coin_name cr (cr_coin u) = Ok name" "n \<notin> fc_removals fc"
      "records' = AList.update name u records" "s' = s1"
    by (auto simp: removal_step_def)
  show ?thesis
  proof (cases known)
    case (Some v)
    with k u have "led n = Some u" "cr_confirmed_block_index u \<le> fork_h"
      "\<not> (cr_spent u \<and> cr_spent_block_index u \<le> fork_h)"
      by (auto split: option.splits if_splits)
    with n g(2) store_name [OF assms(2), of n u] show ?thesis by (auto simp: spendable_def)
  next
    case None
    with u obtain coin ch ct where c: "map_of (fc_additions fc) n = Some (coin, ch, ct)" "u = new_record ch ct False coin"
      by (auto split: option.splits)
    with n g(2) names_okD [OF assms(4) c(1)] show ?thesis by (auto simp: spendable_def new_record_def)
  qed
qed

text \<open>The dictionary of spent coins has one record for every removal, in order.\<close>

lemma removal_records:
  assumes "vfold (removal_step cr h ts fork_h dic fc) names (rs0, s) = Valid (records, s')"
    and "implements cr s led" "names_ok cr (\<lambda>x. x) dic" "fork_ok cr fc"
    and "distinct (map fst rs0 @ names)"
  shows "\<exists>us. records = rs0 @ zip names us \<and> length us = length names \<and> implements cr s' led \<and>
     list_all2 (\<lambda>n u. coin_name cr (cr_coin u) = Ok n \<and> spendable fork_h dic fc led n u) names us"
  using assms(1,2,5)
proof (induction names arbitrary: rs0 s)
  case (Cons n names)
  from Cons.prems(1) obtain rs1 s1 where
    1: "removal_step cr h ts fork_h dic fc n (rs0, s) = Valid (rs1, s1)"
    and 2: "vfold (removal_step cr h ts fork_h dic fc) names (rs1, s1) = Valid (records, s')" by auto
  from removal_step_ok [OF 1 Cons.prems(2) assms(3,4)] obtain u where
    u: "rs1 = AList.update n u rs0" "coin_name cr (cr_coin u) = Ok n" "spendable fork_h dic fc led n u"
      "implements cr s1 led" by blast
  have rs1: "rs1 = rs0 @ [(n, u)]" using Cons.prems(3) u(1) by (auto simp: update_new)
  have d: "distinct (map fst rs1 @ names)" using Cons.prems(3) rs1 by auto
  from Cons.IH [OF 2 u(4) d] obtain us where
    "records = rs1 @ zip names us" "length us = length names" "implements cr s' led"
    "list_all2 (\<lambda>n u. coin_name cr (cr_coin u) = Ok n \<and> spendable fork_h dic fc led n u) names us" by blast
  with u rs1 show ?case by (intro exI [of _ "u # us"]) simp
qed simp

section \<open>Accepted bodies\<close>

lemma accepted_bodyE:
  assumes "validate_block_body cr vm c blocks gf s peak block h nr fp g = Valid r"
    and "foliage_transaction_block_hash (bb_foliage block) \<noteq> None"
  obtains ftb ti sp dic fork_h fc records s' prev_height coinbase pairs where
    "bb_foliage_transaction_block block = Some ftb" "bb_transactions_info block = Some ti"
    "expected_reward_coins c blocks ftb h = Ok (prev_height, coinbase)"
    "body_spends cr c block nr = Valid sp"
    "check_additions_removals cr c ftb ti coinbase sp = Valid dic"
    "fork_height blocks peak block h fp = Ok fork_h"
    "coins_since_fork cr vm c gf g block h fork_h = Ok fc"
    "vfold (removal_step cr h (ftb_timestamp ftb) fork_h dic fc) (bs_removals sp) ([], s) = Valid (records, s')"
    "check_amounts cr c ti h sp records = Valid ()"
    "check_puzzle_hashes cr (bs_npcs sp) records = Valid ()"
    "vfold (condition_check_step cr c prev_height (ftb_timestamp ftb) sp records) (bs_npcs sp) [] = Valid pairs"
    "aggregate_verify cr (map fst pairs) (map snd pairs) (ti_aggregated_signature ti)"
    "r = (nr, s')"
  using assms
  unfolding validate_block_body_def
  by (auto split: option.splits prod.splits elim!: vbind_ValidE rbind_OkE)

lemma removals_puzzle_dic_eq:
  assumes "distinct (map npc_coin_name npcs)"
  shows "removals_puzzle_dic npcs = map (\<lambda>npc. (npc_coin_name npc, npc_puzzle_hash npc)) npcs"
proof -
  have "foldl (\<lambda>d npc. AList.update (npc_coin_name npc) (npc_puzzle_hash npc) d) d0 npcs
      = d0 @ map (\<lambda>npc. (npc_coin_name npc, npc_puzzle_hash npc)) npcs"
    if "distinct (map fst d0 @ map npc_coin_name npcs)" for d0
    using that by (induction npcs arbitrary: d0) (auto simp: update_new)
  from this [of "[]"] assms show ?thesis by (simp add: removals_puzzle_dic_def)
qed

lemma check_additions_removalsD:
  assumes "check_additions_removals cr c ftb ti coinbase sp = Valid dic"
  shows "ti_cost ti = bs_cost sp" "distinct (bs_removals sp)"
    "\<exists>names. rmap (coin_name cr) (bs_additions sp @ coinbase) = Ok names \<and> distinct names"
    "vfold (addition_step cr c) (bs_additions sp @ coinbase) [] = Valid dic"
  using assms by (auto simp: check_additions_removals_def Let_def split: option.splits)

text \<open>The records an accepted body has for its removals, one for each of its spends.\<close>

lemma accepted_records:
  assumes "check_additions_removals cr c ftb ti coinbase sp = Valid dic"
    and "coins_since_fork cr vm c gf g block h fork_h = Ok fc"
    and "vfold (removal_step cr h ts fork_h dic fc) (bs_removals sp) ([], s) = Valid (records, s')"
    and "implements cr s led"
  obtains us where "records = zip (bs_removals sp) us" "length us = length (bs_npcs sp)" "implements cr s' led"
    "list_all2 (\<lambda>n u. coin_name cr (cr_coin u) = Ok n \<and> spendable fork_h dic fc led n u) (bs_removals sp) us"
proof -
  note d = check_additions_removalsD [OF assms(1)]
  from removal_records [OF assms(3,4) additions_dic_ok [OF d(4)] coins_since_fork_ok [OF assms(2)]] d(2)
  obtain us where "records = zip (bs_removals sp) us" "length us = length (bs_removals sp)" "implements cr s' led"
    "list_all2 (\<lambda>n u. coin_name cr (cr_coin u) = Ok n \<and> spendable fork_h dic fc led n u) (bs_removals sp) us"
    by auto
  then show ?thesis using that by (simp add: bs_removals_def)
qed

abbreviation amounts :: "Coin list \<Rightarrow> int" where
  "amounts coins \<equiv> sum_list (map coin_amount coins)"

lemma check_amountsD:
  assumes "check_amounts cr c ti h sp (zip names us) = Valid ()" and "length us = length names"
  shows "amounts (map cr_coin us) = amounts (bs_additions sp) + ti_fees ti"
    "\<exists>reserved. reserve_fees cr uint128 (bs_npcs sp) = Valid reserved \<and> reserved \<le> ti_fees ti"
    "0 \<le> ti_fees ti"
proof -
  have "sum_list (map (\<lambda>(n, u). coin_amount (cr_coin u)) (zip names us)) = amounts (map cr_coin us)"
    using assms(2) by (induction names us rule: list_induct2') (auto simp: comp_def)
  with assms(1) show "amounts (map cr_coin us) = amounts (bs_additions sp) + ti_fees ti"
    "\<exists>reserved. reserve_fees cr uint128 (bs_npcs sp) = Valid reserved \<and> reserved \<le> ti_fees ti"
    "0 \<le> ti_fees ti"
    by (auto simp: check_amounts_def Let_def)
qed

text \<open>The conservation of value in an accepted body.\<close>

lemma accepted_body_conserves:
  assumes "validate_block_body cr vm c blocks gf s peak block h nr fp g = Valid r"
    and "foliage_transaction_block_hash (bb_foliage block) \<noteq> None" and "implements cr s led"
  shows "\<exists>ti sp spent. bb_transactions_info block = Some ti \<and> body_spends cr c block nr = Valid sp \<and>
     ti_cost ti = bs_cost sp \<and> distinct (bs_removals sp) \<and>
     list_all2 (\<lambda>n coin. coin_name cr coin = Ok n) (bs_removals sp) spent \<and>
     (\<exists>names. rmap (coin_name cr) (bs_additions sp) = Ok names \<and> distinct names) \<and>
     amounts spent = amounts (bs_additions sp) + ti_fees ti \<and>
     (\<exists>reserved. reserve_fees cr uint128 (bs_npcs sp) = Valid reserved \<and> reserved \<le> ti_fees ti)"
proof -
  obtain ftb ti sp dic fork_h fc records s' coinbase where
    ti: "bb_transactions_info block = Some ti"
    and sp: "body_spends cr c block nr = Valid sp"
    and a: "check_additions_removals cr c ftb ti coinbase sp = Valid dic"
    and f: "coins_since_fork cr vm c gf g block h fork_h = Ok fc"
    and rs: "vfold (removal_step cr h (ftb_timestamp ftb) fork_h dic fc) (bs_removals sp) ([], s) = Valid (records, s')"
    and am: "check_amounts cr c ti h sp records = Valid ()"
    by (rule accepted_bodyE [OF assms(1,2)]) blast
  from accepted_records [OF a f rs assms(3)] obtain us where
    us: "records = zip (bs_removals sp) us" "length us = length (bs_npcs sp)"
      "list_all2 (\<lambda>n u. coin_name cr (cr_coin u) = Ok n \<and> spendable fork_h dic fc led n u) (bs_removals sp) us" .
  note d = check_additions_removalsD [OF a]
  from d(3) have "\<exists>names. rmap (coin_name cr) (bs_additions sp) = Ok names \<and> distinct names"
    by (auto simp: rmap_append)
  moreover have "list_all2 (\<lambda>n coin. coin_name cr coin = Ok n) (bs_removals sp) (map cr_coin us)"
    using us(3) by (auto simp: list_all2_conv_all_nth)
  moreover note check_amountsD [OF am [unfolded us(1)]]
  ultimately show ?thesis using ti sp d(1,2) us(2) by (auto simp: bs_removals_def)
qed

text \<open>Every spend of an accepted body is allowed.\<close>

lemma accepted_body_spends:
  assumes "validate_block_body cr vm c blocks gf s peak block h nr fp g = Valid r"
    and "foliage_transaction_block_hash (bb_foliage block) \<noteq> None" and "implements cr s led"
  shows "\<exists>ftb sp dic fork_h fc prev_height coinbase. bb_foliage_transaction_block block = Some ftb \<and>
     body_spends cr c block nr = Valid sp \<and> fork_height blocks peak block h fp = Ok fork_h \<and>
     coins_since_fork cr vm c gf g block h fork_h = Ok fc \<and>
     expected_reward_coins c blocks ftb h = Ok (prev_height, coinbase) \<and>
     vfold (addition_step cr c) (bs_additions sp @ coinbase) [] = Valid dic \<and>
     (\<forall>npc\<in>set (bs_npcs sp). \<exists>u. coin_name cr (cr_coin u) = Ok (npc_coin_name npc) \<and>
        spendable fork_h dic fc led (npc_coin_name npc) u \<and>
        coin_puzzle_hash (cr_coin u) = npc_puzzle_hash npc \<and>
        mempool_check_conditions_dict cr 0 u (bs_coin_names sp) (bs_puzzle_names sp) (condition_dict npc)
          prev_height (Some (ftb_timestamp ftb)) = Ok None)"
proof -
  obtain ftb ti sp dic fork_h fc records s' prev_height coinbase pairs where
    ftb: "bb_foliage_transaction_block block = Some ftb"
    and sp: "body_spends cr c block nr = Valid sp" "expected_reward_coins c blocks ftb h = Ok (prev_height, coinbase)"
    and a: "check_additions_removals cr c ftb ti coinbase sp = Valid dic"
    and fh: "fork_height blocks peak block h fp = Ok fork_h"
    and f: "coins_since_fork cr vm c gf g block h fork_h = Ok fc"
    and rs: "vfold (removal_step cr h (ftb_timestamp ftb) fork_h dic fc) (bs_removals sp) ([], s) = Valid (records, s')"
    and ph: "check_puzzle_hashes cr (bs_npcs sp) records = Valid ()"
    and cs: "vfold (condition_check_step cr c prev_height (ftb_timestamp ftb) sp records) (bs_npcs sp) [] = Valid pairs"
    by (rule accepted_bodyE [OF assms(1,2)]) blast
  from accepted_records [OF a f rs assms(3)] obtain us where
    us: "records = zip (bs_removals sp) us" "length us = length (bs_npcs sp)"
      "list_all2 (\<lambda>n u. coin_name cr (cr_coin u) = Ok n \<and> spendable fork_h dic fc led n u) (bs_removals sp) us" .
  note d = check_additions_removalsD [OF a]
  have dn: "distinct (map npc_coin_name (bs_npcs sp))" using d(2) by (simp add: bs_removals_def)
  have "\<exists>u. coin_name cr (cr_coin u) = Ok (npc_coin_name npc) \<and>
        spendable fork_h dic fc led (npc_coin_name npc) u \<and>
        coin_puzzle_hash (cr_coin u) = npc_puzzle_hash npc \<and>
        mempool_check_conditions_dict cr 0 u (bs_coin_names sp) (bs_puzzle_names sp) (condition_dict npc)
          prev_height (Some (ftb_timestamp ftb)) = Ok None" if npc: "npc \<in> set (bs_npcs sp)" for npc
  proof -
    from npc obtain i where i: "i < length (bs_npcs sp)" "bs_npcs sp ! i = npc" by (auto simp: in_set_conv_nth)
    let ?u = "us ! i"
    have u: "coin_name cr (cr_coin ?u) = Ok (npc_coin_name npc)" "spendable fork_h dic fc led (npc_coin_name npc) ?u"
      using us(2,3) i by (auto simp: list_all2_conv_all_nth bs_removals_def)
    have mem: "(npc_coin_name npc, ?u) \<in> set records"
      using us(1,2) i by (force simp: in_set_zip bs_removals_def)
    have look: "map_of records (npc_coin_name npc) = Some ?u"
      using mem us(1,2) d(2) by (intro map_of_is_SomeI) (simp_all add: bs_removals_def)
    have "mempool_check_conditions_dict cr 0 ?u (bs_coin_names sp) (bs_puzzle_names sp) (condition_dict npc)
          prev_height (Some (ftb_timestamp ftb)) = Ok None"
      by (rule vfold_all [OF cs npc]) (auto simp: condition_check_step_def look split: option.splits)
    moreover have "(npc_coin_name npc, npc_puzzle_hash npc) \<in> set (removals_puzzle_dic (bs_npcs sp))"
      using npc by (auto simp: removals_puzzle_dic_eq [OF dn])
    then have "map_of (removals_puzzle_dic (bs_npcs sp)) (npc_coin_name npc) = Some (npc_puzzle_hash npc)"
      using dn by (intro map_of_is_SomeI) (simp_all add: removals_puzzle_dic_eq [OF dn] comp_def)
    then have "coin_puzzle_hash (cr_coin ?u) = npc_puzzle_hash npc"
      using vfold_all [OF ph [unfolded check_puzzle_hashes_def] mem, of "\<lambda>(n, u). \<forall>name. coin_name cr (cr_coin u) = Ok name \<longrightarrow>
          map_of (removals_puzzle_dic (bs_npcs sp)) name = Some (coin_puzzle_hash (cr_coin u))"] u(1)
      by (auto split: prod.splits)
    ultimately show ?thesis using u by blast
  qed
  with ftb sp fh f d(4) show ?thesis by blast
qed

section \<open>The supply\<close>

text \<open>The total amount of the coins that are not spent.\<close>

definition unspent_amount :: "ledger \<Rightarrow> bytes \<Rightarrow> int" where
  "unspent_amount led n =
     (case led n of None \<Rightarrow> 0 | Some r \<Rightarrow> if cr_spent r then 0 else coin_amount (cr_coin r))"

definition coin_supply :: "ledger \<Rightarrow> int" where
  "coin_supply led = (\<Sum>n\<in>dom led. unspent_amount led n)"

lemma supply_update:
  assumes "finite (dom led)"
  shows "coin_supply (led(n \<mapsto> r)) = coin_supply led - unspent_amount led n + unspent_amount (led(n \<mapsto> r)) n"
proof -
  have z: "unspent_amount led n = 0" if "n \<notin> dom led" using that by (auto simp: unspent_amount_def dom_def)
  have same: "unspent_amount (led(n \<mapsto> r)) m = unspent_amount led m" if "m \<noteq> n" for m
    using that by (simp add: unspent_amount_def)
  have d: "dom (led(n \<mapsto> r)) = insert n (dom led - {n})" by auto
  have "coin_supply (led(n \<mapsto> r)) = unspent_amount (led(n \<mapsto> r)) n + (\<Sum>m\<in>dom led - {n}. unspent_amount led m)"
    unfolding coin_supply_def d using assms same by (subst sum.insert) (auto intro: sum.cong)
  moreover have "coin_supply led = unspent_amount led n + (\<Sum>m\<in>dom led - {n}. unspent_amount led m)"
    unfolding coin_supply_def using assms z by (cases "n \<in> dom led") (simp_all add: sum.remove)
  ultimately show ?thesis by simp
qed

lemma supply_add:
  assumes "led_add cr r led = Ok led'" "finite (dom led)" "\<not> cr_spent r"
  shows "finite (dom led') \<and> coin_supply led' = coin_supply led + coin_amount (cr_coin r)"
  using assms supply_update [OF assms(2)]
  by (auto simp: led_add_def unspent_amount_def split: if_splits)

lemma supply_spend:
  assumes "led_spend n h led = Ok (a, led')" "finite (dom led)"
  shows "finite (dom led') \<and> coin_supply led' = coin_supply led - a"
  using assms supply_update [OF assms(2)] by (auto simp: led_spend_def unspent_amount_def)

lemma supply_adds:
  assumes "rfold (\<lambda>coin. led_add cr (new_record h t b coin)) coins led = Ok led'" "finite (dom led)"
  shows "finite (dom led') \<and> coin_supply led' = coin_supply led + amounts coins"
  using assms
proof (induction coins arbitrary: led)
  case (Cons c coins)
  then obtain led1 where l: "led_add cr (new_record h t b c) led = Ok led1"
    "rfold (\<lambda>coin. led_add cr (new_record h t b coin)) coins led1 = Ok led'" by auto
  from supply_add [OF l(1) Cons.prems(2)] Cons.IH [OF l(2)] show ?case by (simp add: new_record_def)
qed simp

lemma supply_spends:
  assumes "rfold (\<lambda>n (t, led). rbind (led_spend n h led) (\<lambda>(a, led). Ok (t + a, led))) ns (t, led) = Ok (t', led')"
    and "finite (dom led)"
  shows "finite (dom led') \<and> coin_supply led' = coin_supply led - (t' - t)"
  using assms
proof (induction ns arbitrary: t led)
  case (Cons n ns)
  then obtain a led1 where l: "led_spend n h led = Ok (a, led1)"
    "rfold (\<lambda>n (t, led). rbind (led_spend n h led) (\<lambda>(a, led). Ok (t + a, led))) ns (t + a, led1) = Ok (t', led')"
    by auto
  from supply_spend [OF l(1) Cons.prems(2)] Cons.IH [OF l(2)] show ?case by simp
qed simp

lemma supply_block:
  assumes "led_block cr block adds rems led = Ok led'" "finite (dom led)"
    and "get_included_reward_coins block = Ok rewards"
  shows "coin_supply led' \<le> coin_supply led + amounts rewards"
proof (cases "fb_foliage_transaction_block block")
  case None
  with assms(1,3) show ?thesis
    by (auto simp: led_block_def get_included_reward_coins_def fb_is_transaction_block_def)
next
  case (Some ftb)
  with assms(1,3) obtain led1 led2 t where
    1: "rfold (\<lambda>coin. led_add cr (new_record (fb_height block) (ftb_timestamp ftb) False coin)) adds led = Ok led1"
    and 2: "rfold (\<lambda>coin. led_add cr (new_record (fb_height block) (ftb_timestamp ftb) True coin)) rewards led1 = Ok led2"
    and 3: "rfold (\<lambda>n (t, led). rbind (led_spend n (fb_height block) led) (\<lambda>(a, led). Ok (t + a, led))) rems (0, led2)
        = Ok (t, led')" and t: "amounts adds \<le> t"
    by (auto simp: led_block_def)
  from supply_adds [OF 1 assms(2)] supply_adds [OF 2] supply_spends [OF 3] t show ?thesis by simp
qed

lemma new_block_supply:
  assumes "store_ok cr s" "new_block cr s block adds rems = Ok s'"
    and "get_included_reward_coins block = Ok rewards"
  shows "store_ok cr s' \<and> coin_supply (ledger_of s') \<le> coin_supply (ledger_of s) + amounts rewards"
proof -
  from assms(1) have i: "implements cr s (ledger_of s)" by (simp add: implements_def)
  from sim_block [OF i, of block adds rems] assms(2) obtain led where
    "led_block cr block adds rems (ledger_of s) = Ok led" "implements cr s' led" by (auto dest: sim_OkD)
  with supply_block [OF this(1) _ assms(3)] show ?thesis
    by (simp add: implements_def ledger_of_def finite_dom_map_of)
qed
end
