(* ===== verification/Sample_Body.thy ===== *)
theory Sample_Body
  imports Sample_Spends Body_Facts
begin

text \<open>
  A transaction block at height 1 that spends a coin of 5 mojos and creates one of 4, with a hash that
  tells the coins apart (it takes the puzzle hash of a coin), and a coin store that holds the coin.
  The validation of its body succeeds, so the hypotheses of the theorems about accepted bodies hold.
\<close>

definition body_hash :: "bytes \<Rightarrow> bytes" where
  "body_hash b = take 32 (drop 32 b @ b @ replicate 32 0)"

definition body_cr :: crypto where
  "body_cr = toy_cr\<lparr>hash256 := body_hash\<rparr>"

lemma length_body_hash [simp]: "length (body_hash b) = 32"
  by (simp add: body_hash_def)

lemma body_cr_simps [simp]:
  "hash256 body_cr = body_hash" "clvm_int_to_bytes body_cr = int_code" "clvm_int_from_bytes body_cr = int_decode"
  "ext_valid body_cr nm b" "bip158_encoded body_cr xs = []" "aggregate_verify body_cr pks ms sg"
  by (simp_all add: body_cr_def toy_cr_def toy_def)

lemma body_std_hash [simp]: "std_hash body_cr b = Ok (body_hash b)"
  by (simp add: std_hash_def)

lemma body_digests: "digests body_cr"
  by (simp add: digests_def)

lemma body_coin_name [simp]:
  "length (parent_coin_info c) = 32 \<Longrightarrow> length (coin_puzzle_hash c) = 32 \<Longrightarrow>
   coin_name body_cr c = Ok (coin_puzzle_hash c)"
  by (simp add: coin_name_def body_hash_def)

section \<open>The block\<close>

definition coin5 :: Coin where
  "coin5 = \<lparr>parent_coin_info = replicate 32 7, coin_puzzle_hash = replicate 32 8, coin_amount = 5\<rparr>"

definition coin4 :: Coin where
  "coin4 = \<lparr>parent_coin_info = replicate 32 8, coin_puzzle_hash = replicate 32 9, coin_amount = 4\<rparr>"

definition pool_coin0 :: Coin where
  "pool_coin0 = \<lparr>parent_coin_info = take 16 G @ replicate 16 0, coin_puzzle_hash = replicate 32 5,
     coin_amount = 176496425000000000\<rparr>"

definition farmer_coin0 :: Coin where
  "farmer_coin0 = \<lparr>parent_coin_info = drop 16 G @ replicate 16 0, coin_puzzle_hash = replicate 32 6,
     coin_amount = 25213775000000000\<rparr>"

lemmas coin_defs = coin5_def coin4_def pool_coin0_def farmer_coin0_def

definition body_npc :: NPC where
  "body_npc = \<lparr>npc_coin_name = replicate 32 8, npc_puzzle_hash = replicate 32 8,
     npc_conditions = [(CREATE_COIN, [toy_create])]\<rparr>"

definition body_result :: NPCResult where
  "body_result = \<lparr>npc_error = None, npc_list = [body_npc], npc_clvm_cost = 100\<rparr>"

definition genesis_f :: BlockRecord where
  "genesis_f = genesis_r\<lparr>pool_puzzle_hash := replicate 32 5, farmer_puzzle_hash := replicate 32 6,
     fees := Some 0\<rparr>"

definition body_blocks :: BlockCache where
  "body_blocks = add_block_record empty_cache genesis_f"

definition body_ti :: TransactionsInfo where
  "body_ti =
     \<lparr>generator_root = body_hash [1, 2, 3], generator_refs_root = replicate 32 1,
      ti_aggregated_signature = replicate 96 0, ti_fees = 1, ti_cost = 1936,
      ti_reward_claims_incorporated = [pool_coin0, farmer_coin0]\<rparr>"

definition value_of :: "bytes res \<Rightarrow> bytes" where
  "value_of m = (case m of Some (Inr b) \<Rightarrow> b | _ \<Rightarrow> [])"

definition body_ftb :: FoliageTransactionBlock where
  "body_ftb =
     \<lparr>ftb_prev_transaction_block_hash = replicate 32 1, ftb_timestamp = 1700000000,
      filter_hash = body_hash [],
      additions_root = value_of (rbind (addition_merkle_set body_cr [coin4, pool_coin0, farmer_coin0]) (get_root body_cr)),
      removals_root = value_of (rbind (removal_merkle_set body_cr [replicate 32 8]) (get_root body_cr)),
      transactions_info_hash = value_of (TransactionsInfo_hash body_cr body_ti)\<rparr>"

definition body_b :: BlockBody where
  "body_b =
     \<lparr>bb_own_height = None,
      bb_foliage = (hb_foliage next_b)\<lparr>foliage_transaction_block_hash :=
        Some (value_of (FoliageTransactionBlock_hash body_cr body_ftb))\<rparr>,
      bb_foliage_transaction_block = Some body_ftb, bb_transactions_info = Some body_ti,
      bb_transactions_generator = Some [1, 2, 3], bb_transactions_generator_ref_list = []\<rparr>"

definition body_store :: CoinStore where
  "body_store = (create_store 10)\<lparr>coin_record_db := [(replicate 32 8, new_record 0 1000 False coin5)]\<rparr>"

definition genesis_full :: FullBlock where
  "genesis_full =
     \<lparr>fb_finished_sub_slots = [], fb_reward_chain_block = hb_reward_chain_block genesis_b,
      fb_challenge_chain_sp_proof = None, fb_challenge_chain_ip_proof = zero_proof,
      fb_reward_chain_sp_proof = None, fb_reward_chain_ip_proof = zero_proof,
      fb_infused_challenge_chain_ip_proof = None, fb_foliage = hb_foliage genesis_b,
      fb_foliage_transaction_block = None, fb_transactions_info = None,
      fb_transactions_generator = None, fb_transactions_generator_ref_list = []\<rparr>"

section \<open>Its body is accepted\<close>

lemma body_store_implements: "implements body_cr body_store [replicate 32 8 \<mapsto> new_record 0 1000 False coin5]"
  by (simp add: implements_def store_ok_def ledger_of_def body_store_def create_store_def lru.agrees_def
      lru_entries_def lru_ok_def new_record_def coin_defs)

lemma body_constants [simp]:
  "INITIAL_FREEZE_END_TIMESTAMP DEFAULT_CONSTANTS = 1620061200" "COST_PER_BYTE DEFAULT_CONSTANTS = 12"
  "MAX_BLOCK_COST_CLVM DEFAULT_CONSTANTS = 11000000000" "MAX_COIN_AMOUNT DEFAULT_CONSTANTS = 2 ^ 64 - 1"
  by (simp_all add: DEFAULT_CONSTANTS_def)

lemma genesis_f_lookup [simp]: "block_record body_blocks (replicate 32 1) = Ok genesis_f"
  by (simp add: body_blocks_def add_block_record_def genesis_f_def genesis_r_def)

lemma replicate_ne [simp]: "replicate 32 (a::byte) = replicate 32 b \<longleftrightarrow> a = b"
  by (metis hd_replicate replicate_eq_replicate zero_neq_numeral)

lemma body_rewards:
  "expected_reward_coins DEFAULT_CONSTANTS body_blocks body_ftb 1 = Ok (0, [pool_coin0, farmer_coin0])"
proof -
  have z: "be_bytes n 0 = replicate n 0" for n by (induction n) (simp_all add: replicate_append_same)
  have p: "ftb_prev_transaction_block_hash body_ftb = replicate 32 1" by (simp add: body_ftb_def)
  have ne: "pool_coin0 \<noteq> farmer_coin0" by (simp add: coin_defs)
  show ?thesis using ne
    by (simp add: expected_reward_coins_def p genesis_f_def genesis_r_def add_block_rewards_def
        pool_reward_eq farmer_reward_eq reward_unit_def create_pool_coin_def create_farmer_coin_def
        pool_parent_id_def farmer_parent_id_def height_bytes_def z set_add_def coin_defs)
qed

lemma body_spends_eq:
  "body_spends body_cr DEFAULT_CONSTANTS body_b (Some body_result)
   = Valid \<lparr>bs_cost = 1936, bs_npcs = [body_npc], bs_additions = [coin4], bs_coin_names = {}, bs_puzzle_names = {}\<rparr>"
  by (simp add: body_spends_def body_b_def body_result_def body_npc_def calculate_cost_of_program_def
      conditions_cost_def condition_dict_def additions_for_npc_def created_outputs_for_conditions_dict_def
      conditions_of_def created_output_def toy_create_def py_nth_def make_coin_def coin4_def
      coin_announcements_names_for_npc_def puzzle_announcements_names_for_npc_def announcement_names_def)

lemma body_additions:
  "\<exists>dic. check_additions_removals body_cr DEFAULT_CONSTANTS body_ftb body_ti [pool_coin0, farmer_coin0]
     \<lparr>bs_cost = 1936, bs_npcs = [body_npc], bs_additions = [coin4], bs_coin_names = {}, bs_puzzle_names = {}\<rparr>
   = Valid dic \<and> map_of dic (replicate 32 8) = None"
  "length (additions_root body_ftb) = 32" "length (removals_root body_ftb) = 32"
proof -
  let ?cs = "[coin4, pool_coin0, farmer_coin0]"
  have "\<forall>c\<in>set ?cs. length (coin_puzzle_hash c) = 32" by (simp add: coin_defs)
  from addition_set [OF body_digests this] obtain n where
    n: "addition_merkle_set body_cr ?cs = Ok n" "trie body_cr 0 n" by blast
  have "\<forall>x\<in>set [replicate 32 (8::byte)]. length x = 32" by simp
  from removal_set [OF body_digests this] obtain m where
    m: "removal_merkle_set body_cr [replicate 32 8] = Ok m" "trie body_cr 0 m" by blast
  from get_root_trie [OF body_digests n(2)] obtain nr where nr: "get_root body_cr n = Ok nr" "length nr = 32" by blast
  from get_root_trie [OF body_digests m(2)] obtain mr where mr: "get_root body_cr m = Ok mr" "length mr = 32" by blast
  show "length (additions_root body_ftb) = 32" "length (removals_root body_ftb) = 32"
    using n m nr mr by (simp_all add: body_ftb_def value_of_def)
  have "validate_block_merkle_roots body_cr (additions_root body_ftb) (removals_root body_ftb) (Some ?cs)
      (Some [replicate 32 8]) = Ok None"
    using n m nr mr by (simp add: validate_block_merkle_roots_def body_ftb_def value_of_def)
  then show "\<exists>dic. check_additions_removals body_cr DEFAULT_CONSTANTS body_ftb body_ti [pool_coin0, farmer_coin0]
     \<lparr>bs_cost = 1936, bs_npcs = [body_npc], bs_additions = [coin4], bs_coin_names = {}, bs_puzzle_names = {}\<rparr>
   = Valid dic \<and> map_of dic (replicate 32 8) = None"
    by (simp add: check_additions_removals_def bs_removals_def body_npc_def body_ti_def addition_step_def
        coin_defs body_ftb_def body_hash_def update_conv')
qed

lemma body_accepted:
  "\<exists>s. validate_block_body body_cr toy_vm DEFAULT_CONSTANTS body_blocks (\<lambda>_. Some genesis_full) body_store
     (Some genesis_f) body_b 1 (Some body_result) (Some 0) (\<lambda>_. Ok None) = Valid (Some body_result, s)"
proof -
  obtain dic where dic: "check_additions_removals body_cr DEFAULT_CONSTANTS body_ftb body_ti [pool_coin0, farmer_coin0]
     \<lparr>bs_cost = 1936, bs_npcs = [body_npc], bs_additions = [coin4], bs_coin_names = {}, bs_puzzle_names = {}\<rparr>
     = Valid dic" "map_of dic (replicate 32 8) = None" using body_additions(1) by blast
  obtain h1 where h1: "TransactionsInfo_hash body_cr body_ti = Ok h1" "length h1 = 32"
    by (simp add: TransactionsInfo_hash_def body_ti_def get_hash_def Coin_val_def coin_defs rbind_assoc)
  obtain h2 where h2: "FoliageTransactionBlock_hash body_cr body_ftb = Ok h2"
    using body_additions(2,3) h1
    by (simp add: FoliageTransactionBlock_hash_def FoliageTransactionBlock_type_def FoliageTransactionBlock_val_def
        get_hash_def rbind_assoc body_ftb_def value_of_def)
  have store: "get_coin_record body_cr body_store (replicate 32 8)
      = Ok (Some (new_record 0 1000 False coin5), body_store\<lparr>coin_record_cache :=
          lru_put (coin_record_cache body_store) (replicate 32 8) (new_record 0 1000 False coin5)\<rparr>)"
    by (simp add: get_coin_record_def body_store_def create_store_def lru_get_def new_record_def coin_defs)
  have fork: "coins_since_fork body_cr toy_vm DEFAULT_CONSTANTS (\<lambda>_. Some genesis_full) (\<lambda>_. Ok None) body_b 1 0
      = Ok \<lparr>fc_additions = [], fc_removals = {}\<rparr>"
    by (simp add: coins_since_fork_def collect_fork.simps fork_coins.simps genesis_full_def genesis_b_def fb_height_def)
  let ?sp = "\<lparr>bs_cost = 1936, bs_npcs = [body_npc], bs_additions = [coin4], bs_coin_names = {}, bs_puzzle_names = {}\<rparr>"
  let ?rs = "[(replicate 32 8, new_record 0 1000 False coin5)]"
  have am: "check_amounts body_cr DEFAULT_CONSTANTS body_ti 1 ?sp ?rs = Valid ()"
    by (simp add: check_amounts_def new_record_def coin_defs reserve_fees_def body_npc_def toy_create_def
        condition_dict_def conditions_of_def farmer_reward_eq reward_unit_def blocks_per_year_def body_ti_def)
  have ph: "check_puzzle_hashes body_cr [body_npc] ?rs = Valid ()"
    by (simp add: check_puzzle_hashes_def new_record_def coin_defs removals_puzzle_dic_def body_npc_def)
  have cc: "condition_check_step body_cr DEFAULT_CONSTANTS 0 t ?sp ?rs body_npc [] = Valid []" for t
    by (simp add: condition_check_step_def body_npc_def toy_create_def condition_dict_def conditions_of_def
        mempool_check_conditions_dict_def check_condition_def pkm_pairs_for_conditions_dict_def)
  have rm: "bs_removals ?sp = [replicate 32 8]" by (simp add: bs_removals_def body_npc_def)
  obtain s1 where rs: "removal_step body_cr 1 t 0 dic \<lparr>fc_additions = [], fc_removals = {}\<rparr> (replicate 32 8) ([], body_store)
      = Valid (?rs, s1)" for t
    by (simp add: removal_step_def dic(2) store) (simp add: new_record_def coin_defs)
  have f: "bb_foliage_transaction_block body_b = Some body_ftb" "bb_transactions_info body_b = Some body_ti"
    "bb_own_height body_b = None" "foliage_transaction_block_hash (bb_foliage body_b) = Some h2"
    "bb_transactions_generator body_b = Some [1, 2, 3]" "bb_transactions_generator_ref_list body_b = []"
    by (simp_all add: body_b_def h2 value_of_def)
  have f': "ftb_timestamp body_ftb = 1700000000" "transactions_info_hash body_ftb = h1"
    by (simp_all add: value_of_def body_ftb_def h1(1))
  have claims: "check_reward_claims DEFAULT_CONSTANTS body_ftb body_ti [pool_coin0, farmer_coin0] = Valid ()"
    by (simp add: check_reward_claims_def body_ti_def)
  have root: "check_generator_root body_cr DEFAULT_CONSTANTS body_b body_ti 1 = Valid ()"
    by (simp add: check_generator_root_def f body_ti_def)
  show ?thesis
    by (simp add: validate_block_body_def f f' h1(1) h2 body_rewards claims root body_spends_eq dic fork_height_def
        fork rm rs am ph cc)
qed

section \<open>The block in the coin store\<close>

definition next_full :: FullBlock where
  "next_full = genesis_full\<lparr>fb_reward_chain_block := hb_reward_chain_block next_b,
     fb_foliage_transaction_block := Some body_ftb, fb_transactions_info := Some body_ti\<rparr>"

lemma next_full_rewards: "get_included_reward_coins next_full = Ok [pool_coin0, farmer_coin0]"
  by (simp add: get_included_reward_coins_def next_full_def fb_is_transaction_block_def body_ti_def coin_defs)

lemma next_full_height: "fb_height next_full = 1"
  by (simp add: next_full_def fb_height_def next_b_def)

lemma next_full_stored:
  "\<exists>s. new_block body_cr body_store next_full [coin4] [replicate 32 8] = Ok s \<and> store_ok body_cr s"
proof -
  have t: "fb_foliage_transaction_block next_full = Some body_ftb" by (simp add: next_full_def)
  obtain led where "led_block body_cr next_full [coin4] [replicate 32 8]
      [replicate 32 8 \<mapsto> new_record 0 1000 False coin5] = Ok led"
    by (simp add: led_block_def t next_full_rewards next_full_height led_add_def led_spend_def new_record_def coin_defs)
  with sim_block [OF body_store_implements, of next_full "[coin4]" "[replicate 32 8]"]
  have "sim (implements body_cr) (new_block body_cr body_store next_full [coin4] [replicate 32 8]) (Ok led)" by simp
  from sim_spec_OkD [OF this] show ?thesis by (auto simp: implements_def)
qed
end
