(* ===== verification/Py_Float.thy ===== *)
theory Py_Float
  imports Significant_Bits Complex_Main
begin

text \<open>
  Python's true division of two integers, as the fee rates use it: the quotient rounded to the nearest
  binary fraction with 53 significant bits, a tie to the even one. The value is a rational number; for
  operands below \<open>2 ^ 64\<close> the exponent stays far inside the range of a double. Rounding keeps the order
  of the exact quotients, so a strictly larger float comes from a strictly larger quotient.
\<close>

section \<open>Definitions\<close>

definition round_half_even :: "rat \<Rightarrow> int" where
  "round_half_even x =
     (let q = \<lfloor>x\<rfloor>; r = x - of_int q in
      if r < 1 / 2 then q else if r > 1 / 2 then q + 1 else if even q then q else q + 1)"

text \<open>The largest power of two that is at most \<open>a / b\<close>.\<close>

definition floor_log2 :: "int \<Rightarrow> int \<Rightarrow> int" where
  "floor_log2 a b =
     (let d = int (bit_length a) - int (bit_length b) in
      if (if 0 \<le> d then b * 2 ^ nat d \<le> a else b \<le> a * 2 ^ nat (- d)) then d else d - 1)"

definition py_truediv :: "int \<Rightarrow> int \<Rightarrow> rat res" where
  "py_truediv a b =
     (if b = 0 then Raise ZeroDivisionError
      else if a = 0 then Ok 0
      else let e = floor_log2 a b - 52
           in Ok (of_int (round_half_even (of_int a / of_int b * 2 powi (- e))) * 2 powi e))"

section \<open>Rounding\<close>

lemma powi_add: "(2::rat) powi m * 2 powi n = 2 powi (m + n)"
  by (simp add: power_int_add)

lemma powi_numeral: "(of_int (2 ^ n) :: rat) = 2 powi int n"
  by simp

lemma round_half_even_bounds: "of_int (round_half_even x) \<le> x + 1 / 2" "x - 1 / 2 \<le> of_int (round_half_even x)"
proof -
  have b: "of_int \<lfloor>x\<rfloor> \<le> x" "x < of_int \<lfloor>x\<rfloor> + 1" by linarith+
  have "of_int (round_half_even x) \<le> x + 1 / 2 \<and> x - 1 / 2 \<le> of_int (round_half_even x)"
  proof (cases "round_half_even x = \<lfloor>x\<rfloor>")
    case True
    then have "x - of_int \<lfloor>x\<rfloor> \<le> 1 / 2"
      by (simp add: round_half_even_def Let_def not_less split: if_splits)
    moreover have "(of_int (round_half_even x) :: rat) = of_int \<lfloor>x\<rfloor>" using True by simp
    ultimately show ?thesis using b by linarith
  next
    case False
    then have "round_half_even x = \<lfloor>x\<rfloor> + 1" "1 / 2 \<le> x - of_int \<lfloor>x\<rfloor>"
      by (simp_all add: round_half_even_def Let_def not_less split: if_splits)
    moreover from this(1) have "(of_int (round_half_even x) :: rat) = of_int \<lfloor>x\<rfloor> + 1" by simp
    ultimately show ?thesis using b by linarith
  qed
  then show "of_int (round_half_even x) \<le> x + 1 / 2" "x - 1 / 2 \<le> of_int (round_half_even x)" by simp_all
qed

lemma round_half_even_mono:
  assumes "x \<le> y"
  shows "round_half_even x \<le> round_half_even y"
proof (rule ccontr)
  assume "\<not> round_half_even x \<le> round_half_even y"
  then have "round_half_even y + 1 \<le> round_half_even x" by simp
  then have "of_int (round_half_even y) + 1 \<le> (of_int (round_half_even x) :: rat)"
    by (metis of_int_1 of_int_add of_int_le_iff)
  with round_half_even_bounds(1) [of x] round_half_even_bounds(2) [of y] assms have "x = y" by linarith
  with \<open>\<not> round_half_even x \<le> round_half_even y\<close> show False by simp
qed

lemma round_half_even_int [simp]: "round_half_even (of_int n) = n"
  by (simp add: round_half_even_def)

lemma bit_length_bounds:
  assumes "0 < a"
  shows "(2::rat) powi (int (bit_length a) - 1) \<le> of_int a" "of_int a < (2::rat) powi int (bit_length a)"
proof -
  have "a < 2 ^ bit_length a" using bit_length_upper [of a] assms by simp
  then have "(of_int a :: rat) < of_int (2 ^ bit_length a)" by (simp only: of_int_less_iff)
  then show "of_int a < (2::rat) powi int (bit_length a)" by simp
  have z: "0 < bit_length a"
  proof (rule ccontr)
    assume "\<not> 0 < bit_length a"
    with \<open>a < 2 ^ bit_length a\<close> assms show False by simp
  qed
  have "2 ^ (bit_length a - 1) \<le> a" using bit_length_lower [OF assms] .
  then have "(of_int (2 ^ (bit_length a - 1)) :: rat) \<le> of_int a" by (simp only: of_int_le_iff)
  moreover have "int (bit_length a) - 1 = int (bit_length a - 1)" using z by linarith
  ultimately show "(2::rat) powi (int (bit_length a) - 1) \<le> of_int a" by (simp only: powi_numeral)
qed

lemma floor_log2_bounds:
  assumes a: "0 < a" and b: "0 < b"
  shows "2 powi floor_log2 a b \<le> (of_int a / of_int b :: rat)" "(of_int a / of_int b :: rat) < 2 powi (floor_log2 a b + 1)"
proof -
  let ?d = "int (bit_length a) - int (bit_length b)" and ?x = "of_int a / of_int b :: rat"
  have pos: "0 < (of_int b :: rat)" using b by simp
  have up: "?x < 2 powi (?d + 1)"
  proof -
    have "of_int a < (2::rat) powi int (bit_length a)" by (rule bit_length_bounds [OF a])
    also have "\<dots> = 2 powi (?d + 1) * 2 powi (int (bit_length b) - 1)"
      by (simp only: powi_add) simp
    also have "\<dots> \<le> 2 powi (?d + 1) * of_int b"
      by (intro mult_left_mono bit_length_bounds [OF b]) simp
    finally show ?thesis using pos by (simp add: divide_less_eq)
  qed
  have low: "2 powi (?d - 1) \<le> ?x"
  proof -
    have "2 powi (?d - 1) * of_int b \<le> 2 powi (?d - 1) * (2::rat) powi int (bit_length b)"
      using bit_length_bounds(2) [OF b] by (intro mult_left_mono) simp_all
    also have "\<dots> = 2 powi (int (bit_length a) - 1)" by (simp only: powi_add) simp
    also have "\<dots> \<le> of_int a" by (rule bit_length_bounds [OF a])
    finally show ?thesis using pos by (simp add: le_divide_eq)
  qed
  have test: "(if 0 \<le> ?d then b * 2 ^ nat ?d \<le> a else b \<le> a * 2 ^ nat (- ?d)) \<longleftrightarrow> 2 powi ?d \<le> ?x"
  proof (cases "0 \<le> ?d")
    case True
    have "b * 2 ^ nat ?d \<le> a \<longleftrightarrow> (of_int (b * 2 ^ nat ?d) :: rat) \<le> of_int a" by (simp only: of_int_le_iff)
    with True pos show ?thesis by (simp add: power_int_def le_divide_eq mult.commute)
  next
    case False
    have "b \<le> a * 2 ^ nat (- ?d) \<longleftrightarrow> (of_int b :: rat) \<le> of_int (a * 2 ^ nat (- ?d))" by (simp only: of_int_le_iff)
    with False pos show ?thesis
      by (simp add: power_int_def field_simps)
  qed
  show "2 powi floor_log2 a b \<le> ?x" "?x < 2 powi (floor_log2 a b + 1)"
    using up low test by (auto simp: floor_log2_def Let_def)
qed

definition fl :: "int \<Rightarrow> int \<Rightarrow> rat" where
  "fl a b =
     (if a = 0 then 0
      else let e = floor_log2 a b - 52
           in of_int (round_half_even (of_int a / of_int b * 2 powi (- e))) * 2 powi e)"

lemma py_truediv_fl: "b \<noteq> 0 \<Longrightarrow> py_truediv a b = Ok (fl a b)"
  by (simp add: py_truediv_def fl_def Let_def)

lemma fl_bounds:
  assumes "0 < a" "0 < b"
  shows "2 powi floor_log2 a b \<le> fl a b" "fl a b \<le> 2 powi (floor_log2 a b + 1)"
proof -
  let ?k = "floor_log2 a b" let ?z = "of_int a / of_int b * 2 powi (- (?k - 52)) :: rat"
  note k = floor_log2_bounds [OF assms]
  have "(2::rat) powi ?k * 2 powi (- (?k - 52)) \<le> ?z" using k by (intro mult_right_mono) simp_all
  then have "of_int (2 ^ 52) \<le> ?z" unfolding powi_add powi_numeral by simp
  from round_half_even_mono [OF this] have l: "2 ^ 52 \<le> round_half_even ?z" by (simp only: round_half_even_int)
  have "?z \<le> (2::rat) powi (?k + 1) * 2 powi (- (?k - 52))" using k by (intro mult_right_mono) simp_all
  then have "?z \<le> of_int (2 ^ 53)" unfolding powi_add powi_numeral by simp
  from round_half_even_mono [OF this] have u: "round_half_even ?z \<le> 2 ^ 53" by (simp only: round_half_even_int)
  have f: "fl a b = of_int (round_half_even ?z) * 2 powi (?k - 52)" using assms by (simp add: fl_def Let_def)
  have "(of_int (2 ^ 52) :: rat) * 2 powi (?k - 52) \<le> fl a b"
    unfolding f using l by (intro mult_right_mono) (simp_all only: of_int_le_iff zero_le_power_int zero_le_numeral)
  moreover have "fl a b \<le> of_int (2 ^ 53) * 2 powi (?k - 52)"
    unfolding f using u by (intro mult_right_mono) (simp_all only: of_int_le_iff zero_le_power_int zero_le_numeral)
  moreover have "(of_int (2 ^ 52) :: rat) * 2 powi (?k - 52) = 2 powi ?k"
    "(of_int (2 ^ 53) :: rat) * 2 powi (?k - 52) = 2 powi (?k + 1)"
    unfolding powi_numeral powi_add by (simp_all add: add.commute)
  ultimately show "2 powi ?k \<le> fl a b" "fl a b \<le> 2 powi (?k + 1)" by simp_all
qed

lemma fl_mono:
  assumes "0 \<le> a" "0 < b" "0 \<le> c" "0 < d" and le: "a * d \<le> c * b"
  shows "fl a b \<le> fl c d"
proof -
  consider "a = 0" "c = 0" | "a = 0" "0 < c" | "0 < a" "0 < c"
  proof -
    have "0 < c" if "0 < a"
    proof (rule ccontr)
      assume "\<not> 0 < c"
      with assms(3) have "c = 0" by simp
      with le have "a * d \<le> 0" by simp
      moreover have "0 < a * d" using that assms(4) by simp
      ultimately show False by simp
    qed
    with that assms(1,3) show ?thesis by force
  qed
  then show ?thesis
  proof cases
    case 3
    have x: "(of_int a / of_int b :: rat) \<le> of_int c / of_int d"
    proof -
      have "(of_int (a * d) :: rat) \<le> of_int (c * b)" using le by (simp only: of_int_le_iff)
      with assms show ?thesis by (simp add: divide_le_eq le_divide_eq field_simps)
    qed
    note k = floor_log2_bounds [OF 3(1) assms(2)] and l = floor_log2_bounds [OF 3(2) assms(4)]
    have kl: "floor_log2 a b \<le> floor_log2 c d"
    proof (rule ccontr)
      assume "\<not> floor_log2 a b \<le> floor_log2 c d"
      then have "(2::rat) powi (floor_log2 c d + 1) \<le> 2 powi floor_log2 a b" by (intro power_int_increasing) simp_all
      with k l x show False by simp
    qed
    show ?thesis
    proof (cases "floor_log2 a b = floor_log2 c d")
      case True
      have "of_int a / of_int b * (2::rat) powi m \<le> of_int c / of_int d * 2 powi m" for m
        by (intro mult_right_mono x) simp
      then have "(of_int (round_half_even (of_int a / of_int b * 2 powi m)) :: rat)
                 \<le> of_int (round_half_even (of_int c / of_int d * 2 powi m))" for m
        by (simp only: of_int_le_iff round_half_even_mono)
      then have "of_int (round_half_even (of_int a / of_int b * 2 powi m)) * (2::rat) powi n
                 \<le> of_int (round_half_even (of_int c / of_int d * 2 powi m)) * 2 powi n" for m n
        by (intro mult_right_mono) simp_all
      with True 3 show ?thesis by (simp add: fl_def Let_def)
    next
      case False
      with kl have "(2::rat) powi (floor_log2 a b + 1) \<le> 2 powi floor_log2 c d"
        by (intro power_int_increasing) simp_all
      with fl_bounds [OF 3(1) assms(2)] fl_bounds [OF 3(2) assms(4)] show ?thesis by simp
    qed
  next
    case 2
    then have "fl a b = 0" by (simp add: fl_def)
    moreover have "0 \<le> (2::rat) powi floor_log2 c d" by simp
    ultimately show ?thesis using fl_bounds(1) [OF 2(2) assms(4)] by linarith
  qed (simp add: fl_def)
qed

lemma fl_less_cross:
  assumes "0 \<le> a" "0 < b" "0 \<le> c" "0 < d" "fl a b < fl c d"
  shows "a * d < c * b"
  using fl_mono [of c d a b] assms by (simp add: not_less [symmetric]) (metis not_less)

lemma fl_nonneg: "0 \<le> a \<Longrightarrow> 0 < b \<Longrightarrow> 0 \<le> fl a b"
  using fl_mono [of 0 1 a b] by (simp add: fl_def)

text \<open>Integers below \<open>2 ^ 53\<close> are exact.\<close>

lemma fl_int:
  assumes "0 \<le> n" and "n < 2 ^ 53"
  shows "fl n 1 = of_int n"
proof (cases "n = 0")
  case False
  with assms(1) have n: "0 < n" by simp
  let ?k = "floor_log2 n 1"
  have "2 powi ?k \<le> (of_int n :: rat)" using floor_log2_bounds(1) [OF n, of 1] by simp
  also have "\<dots> < of_int (2 ^ 53)" using assms(2) by (simp only: of_int_less_iff)
  finally have "2 powi ?k < (2::rat) powi int 53" unfolding powi_numeral .
  then have "\<not> int 53 \<le> ?k" using power_int_increasing [of "int 53" ?k "2 :: rat"] by linarith
  then have k: "?k \<le> 52" by linarith
  have z: "(of_int n / of_int 1 * 2 powi (- (?k - 52)) :: rat) = of_int (n * 2 ^ nat (52 - ?k))"
    using k by (simp add: power_int_def)
  have "fl n 1 = of_int (n * 2 ^ nat (52 - ?k)) * 2 powi (?k - 52)"
    using False unfolding fl_def Let_def z round_half_even_int by simp
  also have "\<dots> = of_int n * (2 powi (52 - ?k) * 2 powi (?k - 52))" using k by (simp add: power_int_def)
  also have "\<dots> = of_int n" unfolding powi_add by simp
  finally show ?thesis .
qed (simp add: fl_def)

end
