(* ===== verification/Mempool.thy ===== *)
theory Mempool
  imports Full_Block Py_Dict Py_Float
begin

text \<open>
  \<^verbatim>\<open>types/mempool_item.py\<close> and \<^verbatim>\<open>full_node/mempool.py\<close>: the pool of pending transactions, with its four
  indexes (by name, by fee rate, by created coin, by spent coin) and its running cost. A fee rate is the
  float Python computes, the rational \<open>fl fee cost\<close>; \<open>sorted_spends\<close> is a sorted dictionary of them.

  \<open>mempool_ok\<close> is the invariant: the indexes hold exactly the items of the pool, no two items spend or
  create the same coin, and the running cost is the sum of their costs, within the limit. Under it no
  operation raises: removing an item succeeds, eviction ends with the room asked for and drops items in
  the order of their rates, and adding an item with fresh coins keeps the invariant.
\<close>

section \<open>Definitions\<close>

record MempoolItem =
  mi_spend_bundle :: SpendBundle
  mi_fee :: int
  mi_npc_result :: NPCResult
  mi_cost :: int
  mi_spend_bundle_name :: bytes
  mi_additions :: "Coin list"
  mi_removals :: "Coin list"
  mi_program :: bytes

definition mi_name :: "MempoolItem \<Rightarrow> bytes" where
  "mi_name self = mi_spend_bundle_name self"

definition fee_per_cost :: "MempoolItem \<Rightarrow> rat res" where
  "fee_per_cost self = py_truediv (mi_fee self) (mi_cost self)"

record Mempool =
  mp_spends :: "(bytes \<times> MempoolItem) list"
  mp_sorted_spends :: "(rat \<times> (bytes \<times> MempoolItem) list) list"
  mp_additions :: "(bytes \<times> MempoolItem) list"
  mp_removals :: "(bytes \<times> MempoolItem) list"
  mp_max_size_in_cost :: int
  mp_total_mempool_cost :: int

definition new_mempool :: "int \<Rightarrow> Mempool" where
  "new_mempool max_size_in_cost =
     \<lparr>mp_spends = [], mp_sorted_spends = [], mp_additions = [], mp_removals = [],
      mp_max_size_in_cost = max_size_in_cost, mp_total_mempool_cost = 0\<rparr>"

definition at_full_capacity :: "Mempool \<Rightarrow> int \<Rightarrow> bool" where
  "at_full_capacity self cost \<longleftrightarrow> mp_total_mempool_cost self + cost > mp_max_size_in_cost self"

text \<open>The nested loops of \<^verbatim>\<open>get_min_fee_rate\<close>, over the items in order of their rates.\<close>

fun min_fee_rate_loop :: "int \<Rightarrow> int \<Rightarrow> (rat \<times> MempoolItem) list \<Rightarrow> int \<Rightarrow> rat res" where
  "min_fee_rate_loop max_size cost [] current_cost = Raise ValueError"
| "min_fee_rate_loop max_size cost ((fpc, item) # rest) current_cost =
     (if current_cost - mi_cost item + cost \<le> max_size then Ok fpc
      else min_fee_rate_loop max_size cost rest (current_cost - mi_cost item))"

definition by_rate :: "Mempool \<Rightarrow> (rat \<times> MempoolItem) list" where
  "by_rate self = concat (map (\<lambda>(fpc, d). map (\<lambda>(name, item). (fpc, item)) d) (mp_sorted_spends self))"

definition get_min_fee_rate :: "Mempool \<Rightarrow> int \<Rightarrow> rat res" where
  "get_min_fee_rate self cost =
     (if at_full_capacity self cost
      then min_fee_rate_loop (mp_max_size_in_cost self) cost (by_rate self) (mp_total_mempool_cost self)
      else Ok 0)"

definition remove_from_pool :: "crypto \<Rightarrow> 's clvm \<Rightarrow> Mempool \<Rightarrow> MempoolItem \<Rightarrow> Mempool res" where
  "remove_from_pool cr vm self item =
     (let removals = sb_removals (mi_spend_bundle item) in
      rbind (sb_additions cr vm (mi_spend_bundle item)) (\<lambda>additions.
      rbind (rfold (\<lambda>rem d. rbind (coin_name cr rem) (\<lambda>n. dict_del n d)) removals (mp_removals self)) (\<lambda>rems.
      rbind (rfold (\<lambda>add d. rbind (coin_name cr add) (\<lambda>n. dict_del n d)) additions (mp_additions self)) (\<lambda>adds.
      rbind (dict_del (mi_name item) (mp_spends self)) (\<lambda>spends.
      rbind (fee_per_cost item) (\<lambda>fpc.
      rbind (unwrap KeyError (map_of (mp_sorted_spends self) fpc)) (\<lambda>dic.
      rbind (dict_del (mi_name item) dic) (\<lambda>dic.
      rbind (py_assert (mp_total_mempool_cost self - mi_cost item \<ge> 0)) (\<lambda>_.
        Ok (self\<lparr>mp_removals := rems, mp_additions := adds, mp_spends := spends,
          mp_sorted_spends := if dic = [] then AList.delete fpc (mp_sorted_spends self)
                              else sd_set fpc dic (mp_sorted_spends self),
          mp_total_mempool_cost := mp_total_mempool_cost self - mi_cost item\<rparr>))))))))))"

lemma remove_fewer: "remove_from_pool cr vm m i = Ok m' \<Longrightarrow> length (mp_spends m') < length (mp_spends m)"
  by (auto simp: remove_from_pool_def Let_def length_delete_less)

text \<open>The loop of \<^verbatim>\<open>add_to_pool\<close>: every round removes an entry of \<open>spends\<close>, so it ends.\<close>

function evict :: "crypto \<Rightarrow> 's clvm \<Rightarrow> int \<Rightarrow> Mempool \<Rightarrow> Mempool res" where
  "evict cr vm cost self =
     (if at_full_capacity self cost then
        rbind (py_nth (mp_sorted_spends self) 0) (\<lambda>(fpc, val).
        rbind (py_nth val 0) (\<lambda>(name, to_remove).
        rbind (remove_from_pool cr vm self to_remove) (\<lambda>self. evict cr vm cost self)))
      else Ok self)"
  by pat_completeness auto

termination
  by (relation "measure (\<lambda>(cr, vm, cost, self). length (mp_spends self))") (simp_all add: remove_fewer)

definition add_to_pool ::
    "crypto \<Rightarrow> 's clvm \<Rightarrow> Mempool \<Rightarrow> MempoolItem \<Rightarrow> Coin list \<Rightarrow> (bytes \<times> 'c) list \<Rightarrow> Mempool res" where
  "add_to_pool cr vm self item additions removals_dic =
     rbind (evict cr vm (mi_cost item) self) (\<lambda>self.
     rbind (fee_per_cost item) (\<lambda>fpc.
     let dic = (case map_of (mp_sorted_spends self) fpc of None \<Rightarrow> [] | Some d \<Rightarrow> d) in
     rbind (rfold (\<lambda>add d. rbind (coin_name cr add) (\<lambda>n. Ok (AList.update n item d)))
              additions (mp_additions self)) (\<lambda>adds.
       Ok (self\<lparr>mp_spends := AList.update (mi_name item) item (mp_spends self),
         mp_sorted_spends := sd_set fpc (AList.update (mi_name item) item dic) (mp_sorted_spends self),
         mp_additions := adds,
         mp_removals := foldl (\<lambda>d key. AList.update key item d) (mp_removals self) (map fst removals_dic),
         mp_total_mempool_cost := mp_total_mempool_cost self + mi_cost item\<rparr>))))"

lemmas [simp del] = evict.simps

section \<open>The invariant\<close>

definition rate :: "MempoolItem \<Rightarrow> rat" where
  "rate i = fl (mi_fee i) (mi_cost i)"

definition removal_names :: "crypto \<Rightarrow> MempoolItem \<Rightarrow> bytes list res" where
  "removal_names cr i = rmap (coin_name cr) (sb_removals (mi_spend_bundle i))"

definition addition_names :: "crypto \<Rightarrow> 's clvm \<Rightarrow> MempoolItem \<Rightarrow> bytes list res" where
  "addition_names cr vm i = rbind (sb_additions cr vm (mi_spend_bundle i)) (rmap (coin_name cr))"

definition names_in :: "bytes list res \<Rightarrow> bytes set" where
  "names_in r = (case r of Some (Inr ns) \<Rightarrow> set ns | _ \<Rightarrow> {})"

abbreviation spent_by :: "crypto \<Rightarrow> MempoolItem \<Rightarrow> bytes set" where
  "spent_by cr i \<equiv> names_in (removal_names cr i)"

abbreviation made_by :: "crypto \<Rightarrow> 's clvm \<Rightarrow> MempoolItem \<Rightarrow> bytes set" where
  "made_by cr vm i \<equiv> names_in (addition_names cr vm i)"

definition item_ok :: "crypto \<Rightarrow> 's clvm \<Rightarrow> MempoolItem \<Rightarrow> bool" where
  "item_ok cr vm i \<longleftrightarrow> 0 < mi_cost i \<and> 0 \<le> mi_fee i \<and>
     (\<exists>ns. removal_names cr i = Ok ns \<and> distinct ns) \<and> (\<exists>ns. addition_names cr vm i = Ok ns \<and> distinct ns)"

definition pool_items :: "Mempool \<Rightarrow> MempoolItem set" where
  "pool_items m = snd ` set (mp_spends m)"

definition index_ok :: "(MempoolItem \<Rightarrow> bytes set) \<Rightarrow> (bytes \<times> MempoolItem) list \<Rightarrow> MempoolItem set \<Rightarrow> bool" where
  "index_ok names d items \<longleftrightarrow> (\<forall>k i. map_of d k = Some i \<longleftrightarrow> i \<in> items \<and> k \<in> names i)"

definition rates_ok :: "(rat \<times> (bytes \<times> MempoolItem) list) list \<Rightarrow> (bytes \<times> MempoolItem) list \<Rightarrow> bool" where
  "rates_ok idx spends \<longleftrightarrow> sorted_wrt (<) (map fst idx) \<and>
     (\<forall>r. case map_of idx r of
        None \<Rightarrow> \<forall>(n, i)\<in>set spends. rate i \<noteq> r
      | Some d \<Rightarrow> d \<noteq> [] \<and> distinct (map fst d) \<and> set d = {(n, i). (n, i) \<in> set spends \<and> rate i = r})"

definition mempool_ok :: "crypto \<Rightarrow> 's clvm \<Rightarrow> Mempool \<Rightarrow> bool" where
  "mempool_ok cr vm m \<longleftrightarrow>
     distinct (map fst (mp_spends m)) \<and> (\<forall>(n, i)\<in>set (mp_spends m). n = mi_name i \<and> item_ok cr vm i) \<and>
     index_ok (spent_by cr) (mp_removals m) (pool_items m) \<and>
     index_ok (made_by cr vm) (mp_additions m) (pool_items m) \<and>
     rates_ok (mp_sorted_spends m) (mp_spends m) \<and>
     mp_total_mempool_cost m = sum_list (map (\<lambda>(n, i). mi_cost i) (mp_spends m)) \<and>
     mp_total_mempool_cost m \<le> mp_max_size_in_cost m"

lemma new_mempool_ok: "0 \<le> max_size \<Longrightarrow> mempool_ok cr vm (new_mempool max_size)"
  by (simp add: mempool_ok_def new_mempool_def index_ok_def rates_ok_def pool_items_def)

lemma fee_per_cost_rate: "item_ok cr vm i \<Longrightarrow> fee_per_cost i = Ok (rate i)"
  by (simp add: fee_per_cost_def rate_def item_ok_def py_truediv_fl)

lemma names_in_Ok [simp]: "names_in (Ok ns) = set ns"
  by (simp add: names_in_def)

lemma mempool_okD:
  assumes "mempool_ok cr vm m"
  shows "distinct (map fst (mp_spends m))"
    "(n, i) \<in> set (mp_spends m) \<Longrightarrow> n = mi_name i \<and> item_ok cr vm i"
    "index_ok (spent_by cr) (mp_removals m) (pool_items m)"
    "index_ok (made_by cr vm) (mp_additions m) (pool_items m)"
    "rates_ok (mp_sorted_spends m) (mp_spends m)"
    "mp_total_mempool_cost m = sum_list (map (\<lambda>(n, i). mi_cost i) (mp_spends m))"
    "mp_total_mempool_cost m \<le> mp_max_size_in_cost m"
  using assms by (auto simp: mempool_ok_def)

section \<open>Removing\<close>

lemma index_ok_remove:
  assumes "index_ok names d items" and "i \<in> items"
    and "map_of d' = (\<lambda>k. if k \<in> names i then None else map_of d k)"
  shows "index_ok names d' (items - {i})"
  unfolding index_ok_def
proof (intro allI)
  fix k j
  have i: "map_of d k = Some i" if "k \<in> names i" using assms(1,2) that by (simp add: index_ok_def)
  show "map_of d' k = Some j \<longleftrightarrow> j \<in> items - {i} \<and> k \<in> names j"
  proof (cases "k \<in> names i")
    case True
    have "j = i" if "j \<in> items" "k \<in> names j"
    proof -
      have "map_of d k = Some j" using assms(1) that by (simp add: index_ok_def)
      with i [OF True] show ?thesis by simp
    qed
    with True assms(3) show ?thesis by auto
  next
    case False
    with assms(1,3) show ?thesis by (auto simp: index_ok_def)
  qed
qed

lemma index_ok_present: "index_ok names d items \<Longrightarrow> i \<in> items \<Longrightarrow> \<forall>k\<in>names i. map_of d k \<noteq> None"
  by (metis index_ok_def option.distinct(1))

lemma rates_ok_remove:
  assumes "rates_ok idx spends" and "distinct (map fst spends)" and "(n, i) \<in> set spends"
    and "map_of idx (rate i) = Some d"
  shows "rates_ok (if AList.delete n d = [] then AList.delete (rate i) idx
                   else sd_set (rate i) (AList.delete n d) idx) (AList.delete n spends)"
proof -
  have srt: "sorted_wrt (<) (map fst idx)" using assms(1) by (simp add: rates_ok_def)
  have all: "case map_of idx r of None \<Rightarrow> \<forall>(n, i)\<in>set spends. rate i \<noteq> r
      | Some d \<Rightarrow> d \<noteq> [] \<and> distinct (map fst d) \<and> set d = {(n, i). (n, i) \<in> set spends \<and> rate i = r}" for r
    using assms(1) by (simp add: rates_ok_def)
  have d: "distinct (map fst d)" "set d = {(n, j). (n, j) \<in> set spends \<and> rate j = rate i}"
    using all [of "rate i"] assms(4) by auto
  note del = set_delete [OF assms(2), of n] set_delete [OF d(1), of n]
  have same: "j = i" if "(n, j) \<in> set spends" for j
    using that assms(2,3) by (metis eq_key_imp_eq_value)
  have dd: "distinct (map fst (AList.delete n d))" using d(1) by (rule distinct_delete)
  have set_dd: "set (AList.delete n d) = {(k, j). (k, j) \<in> set (AList.delete n spends) \<and> rate j = rate i}"
    unfolding del d(2) by blast
  have other: "case map_of idx r of None \<Rightarrow> \<forall>(n, i)\<in>set (AList.delete n spends). rate i \<noteq> r
      | Some d \<Rightarrow> d \<noteq> [] \<and> distinct (map fst d) \<and>
          set d = {(k, j). (k, j) \<in> set (AList.delete n spends) \<and> rate j = r}" if r: "r \<noteq> rate i" for r
    using all [of r] same r unfolding del(1) by (cases "map_of idx r") auto
  show ?thesis
  proof (cases "AList.delete n d = []")
    case True
    have "case map_of (AList.delete (rate i) idx) r of None \<Rightarrow> \<forall>(n, i)\<in>set (AList.delete n spends). rate i \<noteq> r
      | Some d \<Rightarrow> d \<noteq> [] \<and> distinct (map fst d) \<and>
          set d = {(k, j). (k, j) \<in> set (AList.delete n spends) \<and> rate j = r}" for r
    proof (cases "r = rate i")
      case True
      with \<open>AList.delete n d = []\<close> set_dd show ?thesis by (auto simp: delete_conv')
    next
      case False
      with other [OF False] show ?thesis by (simp add: delete_conv')
    qed
    with True show ?thesis by (simp add: rates_ok_def sorted_delete [OF srt])
  next
    case False
    have "case map_of (sd_set (rate i) (AList.delete n d) idx) r of
        None \<Rightarrow> \<forall>(n, i)\<in>set (AList.delete n spends). rate i \<noteq> r
      | Some d \<Rightarrow> d \<noteq> [] \<and> distinct (map fst d) \<and>
          set d = {(k, j). (k, j) \<in> set (AList.delete n spends) \<and> rate j = r}" for r
      using other [of r] False dd set_dd by (cases "r = rate i") (simp_all add: map_of_sd_set [OF srt])
    with False show ?thesis by (simp add: rates_ok_def sorted_sd_set [OF srt])
  qed
qed

lemma spends_without:
  assumes "distinct (map fst spends)" and "(n, i) \<in> set spends"
    and "\<And>n j. (n, j) \<in> set spends \<Longrightarrow> n = mi_name j"
  shows "snd ` set (AList.delete n spends) = snd ` set spends - {i}"
proof -
  have "j = i \<longleftrightarrow> k = n" if "(k, j) \<in> set spends" for k j
    using that assms by (metis eq_key_imp_eq_value)
  then show ?thesis unfolding set_delete [OF assms(1)] by force
qed

lemma remove_ok:
  assumes ok: "mempool_ok cr vm m" and mem: "(n, i) \<in> set (mp_spends m)"
  shows "\<exists>m'. remove_from_pool cr vm m i = Ok m' \<and> mempool_ok cr vm m' \<and>
     mp_spends m' = AList.delete n (mp_spends m) \<and>
     mp_total_mempool_cost m' = mp_total_mempool_cost m - mi_cost i \<and>
     mp_max_size_in_cost m' = mp_max_size_in_cost m"
proof -
  note inv = mempool_okD [OF ok]
  have n: "n = mi_name i" and i: "item_ok cr vm i" using inv(2) [OF mem] by blast+
  have item: "i \<in> pool_items m" using mem by (force simp: pool_items_def)
  from i obtain rs as where rs: "removal_names cr i = Ok rs" "distinct rs"
    and as: "addition_names cr vm i = Ok as" "distinct as" by (auto simp: item_ok_def)
  from as obtain adds where adds: "sb_additions cr vm (mi_spend_bundle i) = Ok adds" "rmap (coin_name cr) adds = Ok as"
    by (auto simp: addition_names_def)
  obtain rems' where rems': "rfold dict_del rs (mp_removals m) = Ok rems'"
    "map_of rems' = (\<lambda>k. if k \<in> set rs then None else map_of (mp_removals m) k)"
    using dict_dels [OF rs(2), of "mp_removals m"] index_ok_present [OF inv(3) item] rs(1) by auto
  obtain adds' where adds': "rfold dict_del as (mp_additions m) = Ok adds'"
    "map_of adds' = (\<lambda>k. if k \<in> set as then None else map_of (mp_additions m) k)"
    using dict_dels [OF as(2), of "mp_additions m"] index_ok_present [OF inv(4) item] as(1) by auto
  have look: "map_of (mp_spends m) n = Some i" by (rule map_of_is_SomeI [OF inv(1) mem])
  obtain d where d: "map_of (mp_sorted_spends m) (rate i) = Some d" "(n, i) \<in> set d" "distinct (map fst d)"
  proof -
    have r: "case map_of (mp_sorted_spends m) (rate i) of None \<Rightarrow> \<forall>(n, j)\<in>set (mp_spends m). rate j \<noteq> rate i
      | Some d \<Rightarrow> d \<noteq> [] \<and> distinct (map fst d) \<and> set d = {(n, j). (n, j) \<in> set (mp_spends m) \<and> rate j = rate i}"
      using inv(5) unfolding rates_ok_def by (rule conjunct2 [THEN spec])
    with mem that show ?thesis by (cases "map_of (mp_sorted_spends m) (rate i)") auto
  qed
  have dn: "map_of d n \<noteq> None" using map_of_is_SomeI [OF d(3,2)] by simp
  have costs: "mp_total_mempool_cost m = mi_cost i + sum_list (map (\<lambda>(n, i). mi_cost i) (AList.delete n (mp_spends m)))"
    using sum_list_delete [OF inv(1) look, of "\<lambda>(n, i). mi_cost i"] inv(6) by simp
  have pos: "0 \<le> sum_list (map (\<lambda>(n, i). mi_cost i) (AList.delete n (mp_spends m)))"
  proof (rule sum_list_nonneg)
    fix x assume "x \<in> set (map (\<lambda>(n, i). mi_cost i) (AList.delete n (mp_spends m)))"
    then obtain k j where "(k, j) \<in> set (mp_spends m)" "x = mi_cost j"
      by (auto simp: set_delete [OF inv(1)])
    with inv(2) [of k j] show "0 \<le> x" by (simp add: item_ok_def)
  qed
  let ?idx = "if AList.delete n d = [] then AList.delete (rate i) (mp_sorted_spends m)
                 else sd_set (rate i) (AList.delete n d) (mp_sorted_spends m)"
  let ?m = "m\<lparr>mp_removals := rems', mp_additions := adds', mp_spends := AList.delete n (mp_spends m),
     mp_sorted_spends := ?idx, mp_total_mempool_cost := mp_total_mempool_cost m - mi_cost i\<rparr>"
  have run: "remove_from_pool cr vm m i = Ok ?m"
  proof -
    have del: "dict_del (mi_name i) (mp_spends m) = Ok (AList.delete n (mp_spends m))"
      "dict_del (mi_name i) d = Ok (AList.delete n d)"
      using look dn n by simp_all
    have "rfold (\<lambda>rem s. rbind (coin_name cr rem) (\<lambda>n. dict_del n s)) (sb_removals (mi_spend_bundle i)) (mp_removals m)
        = Ok rems'" "rfold (\<lambda>add s. rbind (coin_name cr add) (\<lambda>n. dict_del n s)) adds (mp_additions m) = Ok adds'"
      by (rule rfold_named [OF rs(1) [unfolded removal_names_def], THEN trans, OF rems'(1)],
          rule rfold_named [OF adds(2), THEN trans, OF adds'(1)])
    moreover have "0 \<le> mp_total_mempool_cost m - mi_cost i" using costs pos by simp
    ultimately show ?thesis
      unfolding remove_from_pool_def Let_def by (simp add: adds(1) fee_per_cost_rate [OF i] d(1) del)
  qed
  have items: "pool_items ?m = pool_items m - {i}"
    using spends_without [OF inv(1) mem] inv(2) by (force simp: pool_items_def)
  have "mempool_ok cr vm ?m"
    unfolding mempool_ok_def items
  proof (intro conjI)
    show "distinct (map fst (mp_spends ?m))" using inv(1) by (simp add: distinct_delete)
    show "\<forall>(n, i)\<in>set (mp_spends ?m). n = mi_name i \<and> item_ok cr vm i"
      using inv(2) by (auto simp: set_delete [OF inv(1)])
    show "index_ok (spent_by cr) (mp_removals ?m) (pool_items m - {i})"
      by (rule index_ok_remove [OF inv(3) item]) (simp add: rems'(2) rs(1))
    show "index_ok (made_by cr vm) (mp_additions ?m) (pool_items m - {i})"
      by (rule index_ok_remove [OF inv(4) item]) (simp add: adds'(2) as(1))
    show "rates_ok (mp_sorted_spends ?m) (mp_spends ?m)"
      using rates_ok_remove [OF inv(5,1) mem d(1)] by simp
    show "mp_total_mempool_cost ?m = sum_list (map (\<lambda>(n, i). mi_cost i) (mp_spends ?m))" using costs by simp
    show "mp_total_mempool_cost ?m \<le> mp_max_size_in_cost ?m" using inv(7) i by (simp add: item_ok_def)
  qed
  with run show ?thesis by (intro exI [of _ ?m]) simp
qed

section \<open>Evicting\<close>

lemma by_rate_tail:
  assumes "remove_from_pool cr vm m i = Ok m'" and "item_ok cr vm i"
    and "mp_sorted_spends m = (rate i, (mi_name i, i) # ds) # rest"
    and "sorted_wrt (<) (map fst (mp_sorted_spends m))" and "distinct (map fst ((mi_name i, i) # ds))"
  shows "by_rate m = (rate i, i) # by_rate m'"
proof -
  have "rate i \<notin> fst ` set rest" using assms(3,4) by auto
  moreover have "mi_name i \<notin> fst ` set ds" using assms(5) by simp
  ultimately have "mp_sorted_spends m' = (if ds = [] then rest else (rate i, ds) # rest)"
    using assms(1,3) by (auto simp: remove_from_pool_def Let_def fee_per_cost_rate [OF assms(2)])
  then show ?thesis by (simp add: by_rate_def assms(3))
qed

text \<open>The item \<^verbatim>\<open>add_to_pool\<close> evicts first has the least rate of the pool.\<close>

lemma first_item:
  assumes "mempool_ok cr vm m" and "mp_spends m \<noteq> []"
  obtains i ds rest where "mp_sorted_spends m = (rate i, (mi_name i, i) # ds) # rest"
    and "(mi_name i, i) \<in> set (mp_spends m)" and "distinct (map fst ((mi_name i, i) # ds))"
    and "\<And>j. j \<in> pool_items m \<Longrightarrow> rate i \<le> rate j"
proof -
  note inv = mempool_okD [OF assms(1)]
  let ?idx = "mp_sorted_spends m"
  have srt: "sorted_wrt (<) (map fst ?idx)" using inv(5) by (simp add: rates_ok_def)
  have b: "case map_of ?idx r of None \<Rightarrow> \<forall>(n, i)\<in>set (mp_spends m). rate i \<noteq> r
      | Some d \<Rightarrow> d \<noteq> [] \<and> distinct (map fst d) \<and> set d = {(n, i). (n, i) \<in> set (mp_spends m) \<and> rate i = r}" for r
    using inv(5) by (simp add: rates_ok_def)
  have found: "\<exists>d. map_of ?idx (rate j) = Some d" if "j \<in> pool_items m" for j
    using b [of "rate j"] that by (cases "map_of ?idx (rate j)") (auto simp: pool_items_def)
  obtain k j where kj: "(k, j) \<in> set (mp_spends m)" using assms(2) by (cases "mp_spends m") auto
  then obtain d where "map_of ?idx (rate j) = Some d" using found [of j] by (force simp: pool_items_def)
  then have "?idx \<noteq> []" by auto
  then obtain r d rest where idx: "?idx = (r, d) # rest" by (cases ?idx) auto
  with b [of r] have d: "d \<noteq> []" "distinct (map fst d)" "set d = {(n, i). (n, i) \<in> set (mp_spends m) \<and> rate i = r}"
    by simp_all
  then obtain n i ds where ds: "d = (n, i) # ds" by (cases d) auto
  with d(3) have i: "(n, i) \<in> set (mp_spends m)" "rate i = r" by auto
  have n: "n = mi_name i" using inv(2) [OF i(1)] by simp
  show ?thesis
  proof (rule that [of i ds rest])
    show "?idx = (rate i, (mi_name i, i) # ds) # rest" using idx ds i n by simp
    show "(mi_name i, i) \<in> set (mp_spends m)" using i n by simp
    show "distinct (map fst ((mi_name i, i) # ds))" using d(2) ds n by simp
    fix j assume "j \<in> pool_items m"
    then obtain d' where "map_of ?idx (rate j) = Some d'" using found by blast
    from sd.first_least [OF srt idx this] show "rate i \<le> rate j" using i by simp
  qed
qed

text \<open>What an eviction for \<open>cost\<close> leaves of a pool: the kept items are as before, the dropped ones are the
  ones of the least rates, and no more than needed were dropped.\<close>

definition evicted :: "int \<Rightarrow> Mempool \<Rightarrow> Mempool \<Rightarrow> bool" where
  "evicted cost m m' \<longleftrightarrow>
     (\<exists>kept. mp_spends m' = filter (\<lambda>(n, i). i \<in> kept) (mp_spends m)) \<and>
     (\<forall>i\<in>pool_items m - pool_items m'.
        (\<forall>j\<in>pool_items m'. rate i \<le> rate j) \<and> (\<exists>r. get_min_fee_rate m cost = Ok r \<and> rate i \<le> r)) \<and>
     (pool_items m \<noteq> pool_items m' \<longrightarrow>
        (\<exists>i\<in>pool_items m - pool_items m'. mp_total_mempool_cost m' + mi_cost i + cost > mp_max_size_in_cost m))"

lemma same_items:
  assumes "mp_spends m' = filter (\<lambda>(n, i). i \<in> kept) (mp_spends m)" and "pool_items m = pool_items m'"
  shows "mp_spends m' = mp_spends m"
proof -
  have "i \<in> kept" if "(n, i) \<in> set (mp_spends m)" for n i
  proof -
    have "i \<in> pool_items m" using that by (force simp: pool_items_def)
    with assms show ?thesis by (auto simp: pool_items_def)
  qed
  then show ?thesis unfolding assms(1) by (intro filter_True) auto
qed

lemma evict_ok:
  assumes "mempool_ok cr vm m" and "cost \<le> mp_max_size_in_cost m"
  shows "\<exists>m'. evict cr vm cost m = Ok m' \<and> mempool_ok cr vm m' \<and> \<not> at_full_capacity m' cost \<and>
     mp_max_size_in_cost m' = mp_max_size_in_cost m \<and> evicted cost m m'"
  using assms
proof (induction "length (mp_spends m)" arbitrary: m rule: less_induct)
  case less
  note inv = mempool_okD [OF less.prems(1)]
  show ?case
  proof (cases "at_full_capacity m cost")
    case False
    have "evicted cost m m" by (auto simp: evicted_def pool_items_def intro!: exI [of _ UNIV])
    with False less.prems(1) show ?thesis by (simp add: evict.simps [of _ _ _ m])
  next
    case True
    with less.prems(2) have "0 < mp_total_mempool_cost m" by (simp add: at_full_capacity_def)
    with inv(6) have "mp_spends m \<noteq> []" by auto
    from first_item [OF less.prems(1) this] obtain i ds rest where
      i: "mp_sorted_spends m = (rate i, (mi_name i, i) # ds) # rest" "(mi_name i, i) \<in> set (mp_spends m)"
        "distinct (map fst ((mi_name i, i) # ds))" and least: "\<And>j. j \<in> pool_items m \<Longrightarrow> rate i \<le> rate j" by blast
    have iok: "item_ok cr vm i" using inv(2) [OF i(2)] by simp
    from remove_ok [OF less.prems(1) i(2)] obtain m1 where
      m1: "remove_from_pool cr vm m i = Ok m1" "mempool_ok cr vm m1"
        "mp_spends m1 = AList.delete (mi_name i) (mp_spends m)"
        "mp_total_mempool_cost m1 = mp_total_mempool_cost m - mi_cost i"
        "mp_max_size_in_cost m1 = mp_max_size_in_cost m" by blast
    have items1: "pool_items m1 = pool_items m - {i}"
      using spends_without [OF inv(1) i(2)] inv(2) by (force simp: pool_items_def m1(3))
    have imem: "i \<in> pool_items m" using i(2) by (force simp: pool_items_def)
    have keep1: "mp_spends m1 = filter (\<lambda>(n, j). j \<noteq> i) (mp_spends m)"
    proof -
      have "(n \<noteq> mi_name i) = (j \<noteq> i)" if "(n, j) \<in> set (mp_spends m)" for n j
        using that inv(1,2) i(2) by (metis eq_key_imp_eq_value)
      then show ?thesis unfolding m1(3) AList.delete_eq by (intro filter_cong) auto
    qed
    have step: "evict cr vm cost m = evict cr vm cost m1"
      using True i(1) m1(1) by (simp add: evict.simps [of _ _ _ m] py_nth_def)
    have srt: "sorted_wrt (<) (map fst (mp_sorted_spends m))" using inv(5) by (simp add: rates_ok_def)
    note tl = by_rate_tail [OF m1(1) iok i(1) srt i(3)]
    have "cost \<le> mp_max_size_in_cost m1" using less.prems(2) m1(5) by simp
    from less.hyps [OF remove_fewer [OF m1(1)] m1(2) this] obtain m' kept where
      m': "evict cr vm cost m1 = Ok m'" "mempool_ok cr vm m'" "\<not> at_full_capacity m' cost"
        "mp_max_size_in_cost m' = mp_max_size_in_cost m1" "evicted cost m1 m'"
      and kept: "mp_spends m' = filter (\<lambda>(n, i). i \<in> kept) (mp_spends m1)"
      by (auto simp: evicted_def)
    have sub: "pool_items m' \<subseteq> pool_items m1" by (auto simp: pool_items_def kept)
    have min: "\<exists>r. get_min_fee_rate m cost = Ok r \<and> rate j \<le> r" if j: "j \<in> pool_items m - pool_items m'" for j
    proof (cases "at_full_capacity m1 cost")
      case True
      then have e: "get_min_fee_rate m cost = get_min_fee_rate m1 cost"
        using \<open>at_full_capacity m cost\<close> tl m1(4,5) by (simp add: get_min_fee_rate_def at_full_capacity_def)
      have "m' \<noteq> m1" using True m'(3) by auto
      show ?thesis
      proof (cases "j = i")
        case False
        with j items1 m'(5) e show ?thesis by (auto simp: evicted_def)
      next
        case j: True
        have "pool_items m1 \<noteq> pool_items m'"
        proof
          assume eq: "pool_items m1 = pool_items m'"
          then have "mp_spends m' = mp_spends m1" by (rule same_items [OF kept])
          then have "mp_total_mempool_cost m' = mp_total_mempool_cost m1"
            using mempool_okD(6) [OF m'(2)] mempool_okD(6) [OF m1(2)] by simp
          with True m'(3,4) show False by (simp add: at_full_capacity_def)
        qed
        then obtain k where "k \<in> pool_items m1 - pool_items m'" using sub by blast
        with m'(5) e obtain r where "get_min_fee_rate m cost = Ok r" "rate k \<le> r" by (auto simp: evicted_def)
        moreover have "rate i \<le> rate k" using least [of k] \<open>k \<in> _\<close> items1 by blast
        ultimately show ?thesis using j by auto
      qed
    next
      case False
      then have "evict cr vm cost m1 = Ok m1" by (simp add: evict.simps [of _ _ _ m1])
      with m'(1) j items1 have "j = i" by auto
      with False True tl m1(4,5) show ?thesis by (simp add: get_min_fee_rate_def at_full_capacity_def)
    qed
    have "evicted cost m m'"
      unfolding evicted_def
    proof (intro conjI ballI impI)
      show "\<exists>kept. mp_spends m' = filter (\<lambda>(n, i). i \<in> kept) (mp_spends m)"
        unfolding kept keep1 filter_filter by (rule exI [of _ "kept - {i}"], rule filter_cong) auto
      show "rate j \<le> rate k" if "j \<in> pool_items m - pool_items m'" "k \<in> pool_items m'" for j k
      proof (cases "j = i")
        case True
        have "k \<in> pool_items m" using that(2) sub items1 by blast
        with True show ?thesis using least [of k] by simp
      next
        case False
        with that items1 m'(5) show ?thesis by (auto simp: evicted_def)
      qed
      show "\<exists>r. get_min_fee_rate m cost = Ok r \<and> rate j \<le> r" if "j \<in> pool_items m - pool_items m'" for j
        using min [OF that] .
      show "\<exists>i\<in>pool_items m - pool_items m'. mp_total_mempool_cost m' + mi_cost i + cost > mp_max_size_in_cost m"
      proof (cases "pool_items m1 = pool_items m'")
        case True
        then have "mp_spends m' = mp_spends m1" by (rule same_items [OF kept])
        then have "mp_total_mempool_cost m' = mp_total_mempool_cost m1"
          using mempool_okD(6) [OF m'(2)] mempool_okD(6) [OF m1(2)] by simp
        with True \<open>at_full_capacity m cost\<close> m1(4) items1 imem show ?thesis
          by (intro bexI [of _ i]) (auto simp: at_full_capacity_def)
      next
        case False
        with m'(5) items1 m1(5) show ?thesis by (auto simp: evicted_def)
      qed
    qed
    with m' m1(5) step show ?thesis by auto
  qed
qed

section \<open>Adding\<close>

lemma index_ok_add:
  assumes "index_ok names d items" and "\<And>k. k \<in> names i \<Longrightarrow> map_of d k = None"
    and "map_of d' = (\<lambda>k. if k \<in> names i then Some i else map_of d k)"
  shows "index_ok names d' (insert i items)"
  unfolding index_ok_def
proof (intro allI)
  fix k j
  have "\<not> (j \<in> items \<and> k \<in> names j)" if "k \<in> names i"
    using assms(1,2) that by (metis index_ok_def option.distinct(1))
  with assms(1,3) show "map_of d' k = Some j \<longleftrightarrow> j \<in> insert i items \<and> k \<in> names j"
    by (cases "k \<in> names i") (auto simp: index_ok_def)
qed

lemma rates_ok_add:
  assumes "rates_ok idx spends" and "n \<notin> fst ` set spends"
    and "d = (case map_of idx (rate i) of None \<Rightarrow> [] | Some d \<Rightarrow> d)"
  shows "rates_ok (sd_set (rate i) (AList.update n i d) idx) (spends @ [(n, i)])"
proof -
  have srt: "sorted_wrt (<) (map fst idx)" using assms(1) by (simp add: rates_ok_def)
  have all: "case map_of idx r of None \<Rightarrow> \<forall>(n, i)\<in>set spends. rate i \<noteq> r
      | Some d \<Rightarrow> d \<noteq> [] \<and> distinct (map fst d) \<and> set d = {(n, i). (n, i) \<in> set spends \<and> rate i = r}" for r
    using assms(1) by (simp add: rates_ok_def)
  have d: "distinct (map fst d)" "set d = {(n, j). (n, j) \<in> set spends \<and> rate j = rate i}"
    using all [of "rate i"] assms(3) by (auto split: option.splits)
  have n: "n \<notin> fst ` set d" using d(2) assms(2) by force
  note u = update_new [OF n, of i]
  have "case map_of (sd_set (rate i) (AList.update n i d) idx) r of
        None \<Rightarrow> \<forall>(n, i)\<in>set (spends @ [(n, i)]). rate i \<noteq> r
      | Some d \<Rightarrow> d \<noteq> [] \<and> distinct (map fst d) \<and>
          set d = {(k, j). (k, j) \<in> set (spends @ [(n, i)]) \<and> rate j = r}" for r
  proof (cases "r = rate i")
    case True
    then show ?thesis using d u n by (auto simp: map_of_sd_set [OF srt])
  next
    case False
    then show ?thesis using all [of r] by (auto simp: map_of_sd_set [OF srt] split: option.splits)
  qed
  then show ?thesis by (simp add: rates_ok_def sorted_sd_set [OF srt])
qed

text \<open>An item may enter a pool when its name, the coins it spends and the coins it creates are new to it.\<close>

definition fresh_in :: "crypto \<Rightarrow> 's clvm \<Rightarrow> Mempool \<Rightarrow> MempoolItem \<Rightarrow> bool" where
  "fresh_in cr vm m i \<longleftrightarrow> mi_name i \<notin> fst ` set (mp_spends m) \<and>
     (\<forall>j\<in>pool_items m. spent_by cr j \<inter> spent_by cr i = {} \<and> made_by cr vm j \<inter> made_by cr vm i = {})"

lemma fresh_in_sub:
  "fresh_in cr vm m i \<Longrightarrow> set (mp_spends m') \<subseteq> set (mp_spends m) \<Longrightarrow> fresh_in cr vm m' i"
  unfolding fresh_in_def pool_items_def by blast

lemma index_ok_fresh:
  assumes "index_ok names d items" and "\<forall>j\<in>items. names j \<inter> names i = {}" and "k \<in> names i"
  shows "map_of d k = None"
  using assms by (cases "map_of d k") (auto simp: index_ok_def)

lemma add_ok:
  assumes ok: "mempool_ok cr vm m" and i: "item_ok cr vm i" and fresh: "fresh_in cr vm m i"
    and fits: "mi_cost i \<le> mp_max_size_in_cost m"
    and adds: "rmap (coin_name cr) additions = Ok as" "set as = made_by cr vm i"
    and rems: "fst ` set removals_dic = spent_by cr i"
  shows "\<exists>m1 m'. add_to_pool cr vm m i additions removals_dic = Ok m' \<and> mempool_ok cr vm m' \<and>
     mp_max_size_in_cost m' = mp_max_size_in_cost m \<and>
     evict cr vm (mi_cost i) m = Ok m1 \<and> evicted (mi_cost i) m m1 \<and>
     mp_spends m' = mp_spends m1 @ [(mi_name i, i)]"
proof -
  from evict_ok [OF ok fits] obtain m1 where m1: "evict cr vm (mi_cost i) m = Ok m1" "mempool_ok cr vm m1"
    "\<not> at_full_capacity m1 (mi_cost i)" "mp_max_size_in_cost m1 = mp_max_size_in_cost m" "evicted (mi_cost i) m m1"
    by blast
  note inv = mempool_okD [OF m1(2)]
  have "set (mp_spends m1) \<subseteq> set (mp_spends m)" using m1(5) by (auto simp: evicted_def)
  from fresh_in_sub [OF fresh this] have f: "mi_name i \<notin> fst ` set (mp_spends m1)"
    "\<forall>j\<in>pool_items m1. spent_by cr j \<inter> spent_by cr i = {}"
    "\<forall>j\<in>pool_items m1. made_by cr vm j \<inter> made_by cr vm i = {}"
    by (auto simp: fresh_in_def)
  define d where "d = (case map_of (mp_sorted_spends m1) (rate i) of None \<Rightarrow> [] | Some d \<Rightarrow> d)"
  note upd = update_new [OF f(1), of i]
  let ?upds = "\<lambda>ks d. foldl (\<lambda>d k. AList.update k i d) d ks"
  let ?m = "m1\<lparr>mp_spends := mp_spends m1 @ [(mi_name i, i)],
     mp_sorted_spends := sd_set (rate i) (AList.update (mi_name i) i d) (mp_sorted_spends m1),
     mp_additions := ?upds as (mp_additions m1), mp_removals := ?upds (map fst removals_dic) (mp_removals m1),
     mp_total_mempool_cost := mp_total_mempool_cost m1 + mi_cost i\<rparr>"
  have names: "rfold (\<lambda>add d. rbind (coin_name cr add) (\<lambda>n. Ok (AList.update n i d))) additions (mp_additions m1)
      = Ok (?upds as (mp_additions m1))"
    by (rule rfold_named [OF adds(1), THEN trans, OF rfold_updates])
  have run: "add_to_pool cr vm m i additions removals_dic = Ok ?m"
    unfolding add_to_pool_def Let_def d_def [symmetric] m1(1) rbind_Ok fee_per_cost_rate [OF i]
    by (simp add: names upd d_def [symmetric])
  have items: "pool_items ?m = insert i (pool_items m1)" by (simp add: pool_items_def)
  have "mempool_ok cr vm ?m"
    unfolding mempool_ok_def items
  proof (intro conjI)
    show "distinct (map fst (mp_spends ?m))" using inv(1) f(1) by simp
    show "\<forall>(n, i)\<in>set (mp_spends ?m). n = mi_name i \<and> item_ok cr vm i" using inv(2) i by auto
    show "index_ok (spent_by cr) (mp_removals ?m) (insert i (pool_items m1))"
      by (rule index_ok_add [OF inv(3) index_ok_fresh [OF inv(3) f(2)]]) (simp_all add: map_of_updates rems)
    show "index_ok (made_by cr vm) (mp_additions ?m) (insert i (pool_items m1))"
      by (rule index_ok_add [OF inv(4) index_ok_fresh [OF inv(4) f(3)]]) (simp_all add: map_of_updates adds(2))
    show "rates_ok (mp_sorted_spends ?m) (mp_spends ?m)"
      using rates_ok_add [OF inv(5) f(1) d_def] by simp
    show "mp_total_mempool_cost ?m = sum_list (map (\<lambda>(n, i). mi_cost i) (mp_spends ?m))" using inv(6) by simp
    show "mp_total_mempool_cost ?m \<le> mp_max_size_in_cost ?m" using m1(3) by (simp add: at_full_capacity_def)
  qed
  with run m1 show ?thesis by (intro exI [of _ m1] exI [of _ ?m]) simp
qed

end
