(* ===== verification/Mempool_Manager.thy ===== *)
theory Mempool_Manager
  imports Mempool Coin_Store Block_Body
begin

text \<open>
  \<^verbatim>\<open>full_node/mempool_manager.py\<close>: the state of the manager and its operations. The database behind
  \<^verbatim>\<open>self.coin_store\<close> is a field of the state, so that a lookup threads it; calls are serialised by
  \<^verbatim>\<open>mempool_manager.lock\<close>, so an operation runs without interleaving. Log lines are left out, except that a
  division or a lookup inside one is kept, as it can raise. \<^verbatim>\<open>self.limit_factor * cost\<close> is a float product.

  \<open>bin\<close> is what \<^verbatim>\<open>clvm\<close> and \<^verbatim>\<open>clvm_tools\<close> give to \<^verbatim>\<open>simple_solution_generator\<close>: the serialized atom of a byte
  string and of an integer, and the serialized quote operator.
\<close>

section \<open>The block program of a bundle\<close>

record serializer =
  atom_as_bin :: "bytes \<Rightarrow> bytes"
  int_as_bin :: "int \<Rightarrow> bytes"
  quote_as_bin :: bytes

definition coin_spend_entry :: "serializer \<Rightarrow> CoinSpend \<Rightarrow> bytes" where
  "coin_spend_entry bin coin_spend =
     [0xff] @ [0xff] @ atom_as_bin bin (parent_coin_info (cs_coin coin_spend)) @
     [0xff] @ cs_puzzle_reveal coin_spend @
     [0xff] @ int_as_bin bin (coin_amount (cs_coin coin_spend)) @
     [0xff] @ cs_solution coin_spend @ [0x80]"

definition spend_bundle_to_serialized_coin_spend_entry_list :: "serializer \<Rightarrow> SpendBundle \<Rightarrow> bytes" where
  "spend_bundle_to_serialized_coin_spend_entry_list bin bundle =
     concat (map (coin_spend_entry bin) (sb_coin_spends bundle)) @ [0x80]"

definition simple_solution_generator :: "serializer \<Rightarrow> SpendBundle \<Rightarrow> BlockGenerator" where
  "simple_solution_generator bin bundle =
     \<lparr>bg_program = [0xff] @ quote_as_bin bin @ [0xff] @
        spend_bundle_to_serialized_coin_spend_entry_list bin bundle @ [0x80], bg_generator_args = []\<rparr>"

section \<open>The state\<close>

datatype MempoolInclusionStatus = SUCCESS | PENDING | FAILED

record MempoolManager =
  mm_constants :: ConsensusConstants
  mm_potential_txs :: "(bytes \<times> MempoolItem) list"
  mm_seen_bundle_hashes :: "(bytes \<times> bytes) list"
  mm_coin_store :: CoinStore
  mm_nonzero_fee_minimum_fpc :: int
  mm_limit_factor :: rat
  mm_mempool_max_total_cost :: int
  mm_potential_cache_max_total_cost :: int
  mm_potential_cache_cost :: int
  mm_seen_cache_size :: int
  mm_peak :: "BlockRecord option"
  mm_mempool :: Mempool

definition new_manager :: "CoinStore \<Rightarrow> ConsensusConstants \<Rightarrow> MempoolManager" where
  "new_manager coin_store c =
     (let max_total = MAX_BLOCK_COST_CLVM c * MEMPOOL_BLOCK_BUFFER c in
      \<lparr>mm_constants = c, mm_potential_txs = [], mm_seen_bundle_hashes = [], mm_coin_store = coin_store,
       mm_nonzero_fee_minimum_fpc = 5, mm_limit_factor = 1 / 2, mm_mempool_max_total_cost = max_total,
       mm_potential_cache_max_total_cost = MAX_BLOCK_COST_CLVM c * 5, mm_potential_cache_cost = 0,
       mm_seen_cache_size = 10000, mm_peak = None, mm_mempool = new_mempool max_total\<rparr>)"

text \<open>\<^verbatim>\<open>self.limit_factor * self.constants.MAX_BLOCK_COST_CLVM\<close>: halving the float of the integer is exact.
  \<^verbatim>\<open>int(x)\<close> truncates.\<close>

definition limit_cost :: "MempoolManager \<Rightarrow> rat" where
  "limit_cost self = mm_limit_factor self * fl (MAX_BLOCK_COST_CLVM (mm_constants self)) 1"

definition py_int_of_float :: "rat \<Rightarrow> int" where
  "py_int_of_float x = (if 0 \<le> x then \<lfloor>x\<rfloor> else \<lceil>x\<rceil>)"

section \<open>The cache of seen bundles\<close>

fun pop_seen :: "int \<Rightarrow> (bytes \<times> bytes) list \<Rightarrow> (bytes \<times> bytes) list" where
  "pop_seen cache_size [] = []"
| "pop_seen cache_size (first_in # d) =
     (if int (length (first_in # d)) > cache_size then pop_seen cache_size d else first_in # d)"

definition add_and_maybe_pop_seen :: "MempoolManager \<Rightarrow> bytes \<Rightarrow> MempoolManager" where
  "add_and_maybe_pop_seen self spend_name =
     self\<lparr>mm_seen_bundle_hashes :=
       pop_seen (mm_seen_cache_size self) (AList.update spend_name spend_name (mm_seen_bundle_hashes self))\<rparr>"

definition seen :: "MempoolManager \<Rightarrow> bytes \<Rightarrow> bool" where
  "seen self bundle_hash \<longleftrightarrow> map_of (mm_seen_bundle_hashes self) bundle_hash \<noteq> None"

definition remove_seen :: "MempoolManager \<Rightarrow> bytes \<Rightarrow> MempoolManager" where
  "remove_seen self bundle_hash =
     self\<lparr>mm_seen_bundle_hashes := AList.delete bundle_hash (mm_seen_bundle_hashes self)\<rparr>"

section \<open>Fees and conflicts\<close>

definition is_fee_enough :: "MempoolManager \<Rightarrow> int \<Rightarrow> int \<Rightarrow> bool res" where
  "is_fee_enough self fee cost =
     (if cost = 0 then Ok False
      else rbind (py_truediv fee cost) (\<lambda>fees_per_cost.
        if \<not> at_full_capacity (mm_mempool self) cost then Ok True
        else if fees_per_cost \<ge> of_int (mm_nonzero_fee_minimum_fpc self) then
          rbind (get_min_fee_rate (mm_mempool self) cost) (\<lambda>r. Ok (fees_per_cost > r))
        else Ok False))"

definition get_min_fee_increase :: int where
  "get_min_fee_increase = 10000"

text \<open>\<open>spends_all\<close> is the inner loop of \<^verbatim>\<open>can_replace\<close>, \<open>conflict_totals\<close> the outer one: it returns \<open>None\<close> when a
  coin of a conflicting item is not spent by the new one.\<close>

fun spends_all :: "crypto \<Rightarrow> (bytes \<times> CoinRecord) list \<Rightarrow> Coin list \<Rightarrow> bool res" where
  "spends_all cr removals [] = Ok True"
| "spends_all cr removals (coin # coins) =
     rbind (coin_name cr coin) (\<lambda>name.
       if map_of removals name = None then Ok False else spends_all cr removals coins)"

fun conflict_totals ::
    "crypto \<Rightarrow> (bytes \<times> CoinRecord) list \<Rightarrow> MempoolItem list \<Rightarrow> int \<Rightarrow> int \<Rightarrow> (int \<times> int) option res" where
  "conflict_totals cr removals [] conflicting_fees conflicting_cost =
     Ok (Some (conflicting_fees, conflicting_cost))"
| "conflict_totals cr removals (item # items) conflicting_fees conflicting_cost =
     rbind (spends_all cr removals (mi_removals item)) (\<lambda>all.
       if \<not> all then Ok None
       else conflict_totals cr removals items (conflicting_fees + mi_fee item) (conflicting_cost + mi_cost item))"

definition can_replace ::
    "crypto \<Rightarrow> (bytes \<times> MempoolItem) list \<Rightarrow> (bytes \<times> CoinRecord) list \<Rightarrow> int \<Rightarrow> rat \<Rightarrow> bool res" where
  "can_replace cr conflicting_items removals fee fees_per_cost =
     rbind (conflict_totals cr removals (map snd conflicting_items) 0 0) (\<lambda>totals.
       case totals of None \<Rightarrow> Ok False
       | Some (conflicting_fees, conflicting_cost) \<Rightarrow>
           rbind (py_truediv conflicting_fees conflicting_cost) (\<lambda>conflicting_fees_per_cost.
             if fees_per_cost \<le> conflicting_fees_per_cost then Ok False
             else Ok (\<not> fee - conflicting_fees < get_min_fee_increase)))"

fun check_removals_loop ::
    "crypto \<Rightarrow> Mempool \<Rightarrow> CoinRecord list \<Rightarrow> Coin list \<Rightarrow> (Err option \<times> Coin list) res" where
  "check_removals_loop cr pool [] conflicts =
     Ok (if conflicts \<noteq> [] then (Some MEMPOOL_CONFLICT, conflicts) else (None, []))"
| "check_removals_loop cr pool (record # records) conflicts =
     (if cr_spent record then Ok (Some DOUBLE_SPEND, [])
      else rbind (coin_name cr (cr_coin record)) (\<lambda>name.
        check_removals_loop cr pool records
          (if map_of (mp_removals pool) name \<noteq> None then conflicts @ [cr_coin record] else conflicts)))"

definition check_removals ::
    "crypto \<Rightarrow> MempoolManager \<Rightarrow> (bytes \<times> CoinRecord) list \<Rightarrow> (Err option \<times> Coin list) res" where
  "check_removals cr self removals =
     rbind (py_assert (mm_peak self \<noteq> None)) (\<lambda>_. check_removals_loop cr (mm_mempool self) (map snd removals) [])"

text \<open>\<^verbatim>\<open>while self.potential_cache_cost > self.potential_cache_max_total_cost\<close>: the source lowers the limit.\<close>

fun pop_potential :: "int \<Rightarrow> int \<Rightarrow> (bytes \<times> MempoolItem) list \<Rightarrow> (int \<times> (bytes \<times> MempoolItem) list) res" where
  "pop_potential cache_cost max_total txs =
     (if cache_cost > max_total then
        (case txs of [] \<Rightarrow> Raise IndexError
         | (first_in, item) # txs \<Rightarrow> pop_potential cache_cost (max_total - mi_cost item) txs)
      else Ok (max_total, txs))"

lemmas [simp del] = pop_potential.simps

definition add_to_potential_tx_set :: "MempoolManager \<Rightarrow> MempoolItem \<Rightarrow> MempoolManager res" where
  "add_to_potential_tx_set self item =
     (if map_of (mm_potential_txs self) (mi_spend_bundle_name item) \<noteq> None then Ok self
      else
        let cache_cost = mm_potential_cache_cost self + mi_cost item in
        rbind (pop_potential cache_cost (mm_potential_cache_max_total_cost self)
                 (AList.update (mi_spend_bundle_name item) item (mm_potential_txs self))) (\<lambda>(max_total, txs).
          Ok (self\<lparr>mm_potential_txs := txs, mm_potential_cache_cost := cache_cost,
                   mm_potential_cache_max_total_cost := max_total\<rparr>)))"

section \<open>Adding a bundle\<close>

text \<open>The checks that need neither the coin store nor the pool: the bound on the created coins, one
  addition to the running sum, and duplicates.\<close>

definition addition_bound_step :: "ConsensusConstants \<Rightarrow> Coin \<Rightarrow> int \<Rightarrow> int vres" where
  "addition_bound_step c coin amount =
     vbind (reject_if (coin_amount coin < 0) COIN_AMOUNT_NEGATIVE) (\<lambda>_.
     vbind (reject_if (coin_amount coin > MAX_COIN_AMOUNT c) COIN_AMOUNT_EXCEEDS_MAXIMUM) (\<lambda>_.
     rbind (uint64 (amount + coin_amount coin)) (\<lambda>a. Valid a)))"

definition check_bundle ::
    "crypto \<Rightarrow> MempoolManager \<Rightarrow> NPCResult \<Rightarrow> int \<Rightarrow> (Coin list \<times> (bytes \<times> Coin) list \<times> int) vres" where
  "check_bundle cr self npc_result cost =
     (let c = mm_constants self; removals = map npc_coin_name (npc_list npc_result) in
      vbind (reject_if (cost > py_int_of_float (limit_cost self)) BLOCK_COST_EXCEEDS_MAX) (\<lambda>_.
      vbind (case npc_error npc_result of None \<Rightarrow> Valid ()
             | Some code \<Rightarrow> rbind (Err_of_value code) (\<lambda>e. Invalid e)) (\<lambda>_.
      rbind (additions_for_npc cr (npc_list npc_result)) (\<lambda>additions.
      rbind (rmap (coin_name cr) additions) (\<lambda>names.
      vbind (vfold (addition_bound_step c) additions 0) (\<lambda>addition_amount.
      vbind (reject_if (\<not> distinct names) DUPLICATE_OUTPUT) (\<lambda>_.
      vbind (reject_if (\<not> distinct removals) DOUBLE_SPEND) (\<lambda>_.
        Valid (additions, foldl (\<lambda>d (n, a). AList.update n a d) [] (zip names additions), addition_amount)))))))))"

text \<open>The records of the spent coins; an unknown coin ends the loop. A coin the bundle itself creates gets
  the record it will have in the next block. The running sum of the amounts is a \<^verbatim>\<open>uint64\<close>.\<close>

definition ephemeral_record :: "BlockRecord \<Rightarrow> Coin \<Rightarrow> CoinRecord res" where
  "ephemeral_record peak coin =
     rbind (unwrap AssertionError (timestamp peak)) (\<lambda>t.
     rbind (uint32 (height peak + 1)) (\<lambda>h.
     rbind (uint64 (t + 1)) (\<lambda>t.
       Ok \<lparr>cr_coin = coin, cr_confirmed_block_index = h, cr_spent_block_index = 0, cr_spent = False,
           cr_coinbase = False, cr_timestamp = t\<rparr>)))"

fun removal_records ::
    "crypto \<Rightarrow> BlockRecord \<Rightarrow> (bytes \<times> Coin) list \<Rightarrow> bytes list \<Rightarrow> (bytes \<times> CoinRecord) list \<Rightarrow> int \<Rightarrow>
     CoinStore \<Rightarrow> ((Err + (bytes \<times> CoinRecord) list \<times> int) \<times> CoinStore) res" where
  "removal_records cr peak additions_dict [] records amount store = Ok (Inr (records, amount), store)"
| "removal_records cr peak additions_dict (name # names) records amount store =
     rbind (get_coin_record cr store name) (\<lambda>(found, store).
       if found = None \<and> map_of additions_dict name = None then Ok (Inl UNKNOWN_UNSPENT, store)
       else
         rbind (case map_of additions_dict name of
                  Some removal_coin \<Rightarrow> ephemeral_record peak removal_coin
                | None \<Rightarrow> unwrap AssertionError found) (\<lambda>record.
         rbind (uint64 (amount + coin_amount (cr_coin record))) (\<lambda>amount.
           removal_records cr peak additions_dict names (AList.update name record records) amount store)))"

text \<open>The checks of the amounts and of the fee rate: the fees and the rate.\<close>

definition check_fees ::
    "crypto \<Rightarrow> MempoolManager \<Rightarrow> NPC list \<Rightarrow> int \<Rightarrow> int \<Rightarrow> int \<Rightarrow> (int \<times> rat) vres" where
  "check_fees cr self npcs cost addition_amount removal_amount =
     vbind (reject_if (addition_amount > removal_amount) MINTING_COIN) (\<lambda>_.
     rbind (uint64 (removal_amount - addition_amount)) (\<lambda>fee.
     vbind (reserve_fees cr Ok npcs) (\<lambda>assert_fee_sum.
     vbind (reject_if (fee < assert_fee_sum) RESERVE_FEE_CONDITION_FAILED) (\<lambda>_.
     vbind (reject_if (cost = 0) ERR_UNKNOWN) (\<lambda>_.
     rbind (py_truediv fee cost) (\<lambda>fees_per_cost.
     vbind (if at_full_capacity (mm_mempool self) cost then
              vbind (reject_if (fees_per_cost < of_int (mm_nonzero_fee_minimum_fpc self))
                       INVALID_FEE_TOO_CLOSE_TO_ZERO) (\<lambda>_.
              rbind (get_min_fee_rate (mm_mempool self) cost) (\<lambda>r.
                reject_if (fees_per_cost \<le> r) INVALID_FEE_LOW_FEE))
            else Valid ()) (\<lambda>_.
       Valid (fee, fees_per_cost))))))))"

text \<open>The items of the pool that spend one of the \<open>conflicts\<close>, by name.\<close>

definition conflicting_items :: "crypto \<Rightarrow> Mempool \<Rightarrow> Coin list \<Rightarrow> (bytes \<times> MempoolItem) list res" where
  "conflicting_items cr pool conflicts =
     rfold (\<lambda>conflicting d. rbind (coin_name cr conflicting) (\<lambda>n.
              rbind (unwrap KeyError (map_of (mp_removals pool) n)) (\<lambda>sb.
                Ok (AList.update (mi_name sb) sb d)))) conflicts []"

text \<open>The conditions of one spend, and the keys and messages of its signatures.\<close>

definition spend_conditions_step ::
    "crypto \<Rightarrow> int \<Rightarrow> ConsensusConstants \<Rightarrow> BlockRecord \<Rightarrow> bytes set \<Rightarrow> bytes set \<Rightarrow>
     (bytes \<times> CoinRecord) list \<Rightarrow> bool \<Rightarrow> NPC \<Rightarrow> (bytes \<times> bytes) list \<Rightarrow> (bytes \<times> bytes) list vres" where
  "spend_conditions_step cr now c peak coin_names puzzle_names records validate_signature npc pairs =
     rbind (unwrap KeyError (map_of records (npc_coin_name npc))) (\<lambda>coin_record.
     vbind (reject_if (npc_puzzle_hash npc \<noteq> coin_puzzle_hash (cr_coin coin_record)) WRONG_PUZZLE_HASH) (\<lambda>_.
     let chialisp_height = (if \<not> is_transaction_block peak then prev_transaction_block_height peak
                            else height peak) in
     rbind (unwrap AssertionError (timestamp peak)) (\<lambda>t.
     rbind (uint32 chialisp_height) (\<lambda>chialisp_height.
     rbind (mempool_check_conditions_dict cr now coin_record coin_names puzzle_names (condition_dict npc)
              chialisp_height (Some t)) (\<lambda>error.
     vbind (case error of None \<Rightarrow> Valid () | Some e \<Rightarrow> Invalid e) (\<lambda>_.
       if validate_signature then
         rbind (pkm_pairs_for_conditions_dict cr (condition_dict npc) (npc_coin_name npc)
                  (AGG_SIG_ME_ADDITIONAL_DATA c)) (\<lambda>new. Valid (pairs @ new))
       else Valid pairs))))))"

definition check_conditions ::
    "crypto \<Rightarrow> int \<Rightarrow> ConsensusConstants \<Rightarrow> BlockRecord \<Rightarrow> NPC list \<Rightarrow> (bytes \<times> CoinRecord) list \<Rightarrow> bool \<Rightarrow>
     (bytes \<times> bytes) list vres" where
  "check_conditions cr now c peak npcs records validate_signature =
     rbind (coin_announcements_names_for_npc cr npcs) (\<lambda>coin_names.
     rbind (puzzle_announcements_names_for_npc cr npcs) (\<lambda>puzzle_names.
       vfold (spend_conditions_step cr now c peak coin_names puzzle_names records validate_signature) npcs []))"

type_synonym add_result = "(int option \<times> MempoolInclusionStatus \<times> Err option) \<times> MempoolManager"

abbreviation failed :: "Err \<Rightarrow> MempoolManager \<Rightarrow> add_result res" where
  "failed e self \<equiv> Ok ((None, FAILED, Some e), self)"

text \<open>A bundle that is not valid yet waits in the set of potential transactions.\<close>

definition keep_pending :: "MempoolManager \<Rightarrow> MempoolItem \<Rightarrow> Err \<Rightarrow> add_result res" where
  "keep_pending self item e =
     rbind (add_to_potential_tx_set self item) (\<lambda>self. Ok ((Some (mi_cost item), PENDING, Some e), self))"

text \<open>The last part: conditions, signature, and the change of the pool.\<close>

definition admit ::
    "crypto \<Rightarrow> 's clvm \<Rightarrow> int \<Rightarrow> MempoolManager \<Rightarrow> BlockRecord \<Rightarrow> MempoolItem \<Rightarrow> (bytes \<times> CoinRecord) list \<Rightarrow>
     bool \<Rightarrow> (bytes \<times> MempoolItem) list \<Rightarrow> add_result res" where
  "admit cr vm now self peak item records validate_signature conflicting =
     rbind (check_conditions cr now (mm_constants self) peak (npc_list (mi_npc_result item)) records
              validate_signature) (\<lambda>r.
     case r of
       Inl e \<Rightarrow>
         if e = ASSERT_HEIGHT_ABSOLUTE_FAILED \<or> e = ASSERT_HEIGHT_RELATIVE_FAILED then keep_pending self item e
         else failed e self
     | Inr pairs \<Rightarrow>
         if validate_signature \<and> \<not> aggregate_verify cr (map fst pairs) (map snd pairs)
              (sb_aggregated_signature (mi_spend_bundle item)) then failed BAD_AGGREGATE_SIGNATURE self
         else
           rbind (rfold (\<lambda>(n, mempool_item) pool. remove_from_pool cr vm pool mempool_item) conflicting
                    (mm_mempool self)) (\<lambda>pool.
           rbind (add_to_pool cr vm pool item (mi_additions item) records) (\<lambda>pool.
             Ok ((Some (mi_cost item), SUCCESS, None), self\<lparr>mm_mempool := pool\<rparr>))))"

definition add_spendbundle ::
    "crypto \<Rightarrow> 's clvm \<Rightarrow> serializer \<Rightarrow> int \<Rightarrow> MempoolManager \<Rightarrow> SpendBundle \<Rightarrow> NPCResult \<Rightarrow> bytes \<Rightarrow> bool \<Rightarrow>
     bytes option \<Rightarrow> add_result res" where
  "add_spendbundle cr vm bin now self new_spend npc_result spend_name validate_signature program =
     (case mm_peak self of None \<Rightarrow> failed MEMPOOL_NOT_INITIALIZED self
      | Some peak \<Rightarrow>
     let program = (case program of None \<Rightarrow> bg_program (simple_solution_generator bin new_spend) | Some p \<Rightarrow> p) in
     rbind (calculate_cost_of_program program npc_result (COST_PER_BYTE (mm_constants self))) (\<lambda>cost.
     rbind (check_bundle cr self npc_result cost) (\<lambda>r.
     case r of Inl e \<Rightarrow> failed e self
     | Inr (additions, additions_dict, addition_amount) \<Rightarrow>
     if map_of (mp_spends (mm_mempool self)) spend_name \<noteq> None then Ok ((Some cost, SUCCESS, None), self)
     else
     rbind (removal_records cr peak additions_dict (map npc_coin_name (npc_list npc_result)) [] 0
              (mm_coin_store self)) (\<lambda>(r, store).
     let self = self\<lparr>mm_coin_store := store\<rparr> in
     case r of Inl e \<Rightarrow> failed e self
     | Inr (records, removal_amount) \<Rightarrow>
     rbind (check_fees cr self (npc_list npc_result) cost addition_amount removal_amount) (\<lambda>r.
     case r of Inl e \<Rightarrow> failed e self
     | Inr (fee, fees_per_cost) \<Rightarrow>
     let item = \<lparr>mi_spend_bundle = new_spend, mi_fee = fee, mi_npc_result = npc_result, mi_cost = cost,
                 mi_spend_bundle_name = spend_name, mi_additions = additions,
                 mi_removals = map (\<lambda>(n, u). cr_coin u) records, mi_program = program\<rparr> in
     rbind (check_removals cr self records) (\<lambda>(fail_reason, conflicts).
     if fail_reason = Some MEMPOOL_CONFLICT then
       rbind (conflicting_items cr (mm_mempool self) conflicts) (\<lambda>conflicting.
       rbind (can_replace cr conflicting records fee fees_per_cost) (\<lambda>replace.
         if replace then admit cr vm now self peak item records validate_signature conflicting
         else keep_pending self item MEMPOOL_CONFLICT))
     else
       case fail_reason of Some e \<Rightarrow> failed e self
       | None \<Rightarrow> admit cr vm now self peak item records validate_signature []))))))"

text \<open>\<^verbatim>\<open>get_npc_multiprocess\<close> and \<^verbatim>\<open>pre_validate_spendbundle\<close>: the result crosses a process boundary as its
  streamed bytes and is read back unchanged.\<close>

definition pre_validate_spendbundle ::
    "crypto \<Rightarrow> 's clvm \<Rightarrow> serializer \<Rightarrow> MempoolManager \<Rightarrow> SpendBundle \<Rightarrow> NPCResult res" where
  "pre_validate_spendbundle cr vm bin self new_spend =
     get_name_puzzle_conditions cr vm (simple_solution_generator bin new_spend)
       (py_int_of_float (limit_cost self)) (COST_PER_BYTE (mm_constants self)) True"

section \<open>A new peak\<close>

text \<open>One item of the old pool, and one potential transaction, tried again.\<close>

definition readd_item ::
    "crypto \<Rightarrow> 's clvm \<Rightarrow> serializer \<Rightarrow> int \<Rightarrow> bytes \<times> MempoolItem \<Rightarrow> MempoolManager \<Rightarrow> MempoolManager res" where
  "readd_item cr vm bin now = (\<lambda>(n, item) self.
     rbind (add_spendbundle cr vm bin now self (mi_spend_bundle item) (mi_npc_result item)
              (mi_spend_bundle_name item) False (Some (mi_program item))) (\<lambda>((cost, result, error), self).
       Ok (if result \<noteq> SUCCESS then remove_seen self (mi_spend_bundle_name item) else self)))"

definition retry_potential ::
    "crypto \<Rightarrow> 's clvm \<Rightarrow> serializer \<Rightarrow> int \<Rightarrow> bytes \<times> MempoolItem \<Rightarrow>
     (SpendBundle \<times> NPCResult \<times> bytes) list \<times> MempoolManager \<Rightarrow>
     ((SpendBundle \<times> NPCResult \<times> bytes) list \<times> MempoolManager) res" where
  "retry_potential cr vm bin now = (\<lambda>(n, item) (txs_added, self).
     rbind (add_spendbundle cr vm bin now self (mi_spend_bundle item) (mi_npc_result item)
              (mi_spend_bundle_name item) True (Some (mi_program item))) (\<lambda>((cost, status, error), self).
       Ok (if status = SUCCESS
           then txs_added @ [(mi_spend_bundle item, mi_npc_result item, mi_spend_bundle_name item)] else txs_added,
           self)))"

definition mm_new_peak ::
    "crypto \<Rightarrow> 's clvm \<Rightarrow> serializer \<Rightarrow> int \<Rightarrow> MempoolManager \<Rightarrow> BlockRecord option \<Rightarrow>
     ((SpendBundle \<times> NPCResult \<times> bytes) list \<times> MempoolManager) res" where
  "mm_new_peak cr vm bin now self new_peak =
     (case new_peak of None \<Rightarrow> Ok ([], self)
      | Some p \<Rightarrow>
          if \<not> is_transaction_block p then Ok ([], self)
          else if mm_peak self = Some p then Ok ([], self)
          else
            rbind (unwrap AssertionError (timestamp p)) (\<lambda>t.
              if t \<le> INITIAL_FREEZE_END_TIMESTAMP (mm_constants self) then Ok ([], self)
              else
                let old_pool = mm_mempool self;
                    self = self\<lparr>mm_peak := Some p, mm_mempool := new_mempool (mm_mempool_max_total_cost self)\<rparr> in
                rbind (rfold (readd_item cr vm bin now) (mp_spends old_pool) self) (\<lambda>self.
                let potential_txs_copy = mm_potential_txs self; self = self\<lparr>mm_potential_txs := []\<rparr> in
                rbind (rfold (retry_potential cr vm bin now) potential_txs_copy ([], self)) (\<lambda>(txs_added, self).
                rbind (get_min_fee_rate (mm_mempool self) 100000) (\<lambda>_.
                  Ok (txs_added, self))))))"

section \<open>Reading the pool\<close>

definition get_spendbundle :: "MempoolManager \<Rightarrow> bytes \<Rightarrow> SpendBundle option" where
  "get_spendbundle self bundle_hash = map_option mi_spend_bundle (map_of (mp_spends (mm_mempool self)) bundle_hash)"

definition get_mempool_item :: "MempoolManager \<Rightarrow> bytes \<Rightarrow> MempoolItem option" where
  "get_mempool_item self bundle_hash = map_of (mp_spends (mm_mempool self)) bundle_hash"

definition get_filter :: "crypto \<Rightarrow> MempoolManager \<Rightarrow> bytes" where
  "get_filter cr self = bip158_encoded cr (remdups (map fst (mp_spends (mm_mempool self))))"

text \<open>\<open>matches\<close> is \<^verbatim>\<open>mempool_filter.Match\<close>.\<close>

fun items_not_in_filter_loop :: "(bytes \<Rightarrow> bool) \<Rightarrow> int \<Rightarrow> MempoolItem list \<Rightarrow> int \<Rightarrow> MempoolItem list" where
  "items_not_in_filter_loop matches limit [] counter = []"
| "items_not_in_filter_loop matches limit (item # rest) counter =
     (if counter = limit then []
      else if matches (mi_spend_bundle_name item) then items_not_in_filter_loop matches limit rest counter
      else item # items_not_in_filter_loop matches limit rest (counter + 1))"

definition get_items_not_in_filter :: "MempoolManager \<Rightarrow> (bytes \<Rightarrow> bool) \<Rightarrow> int \<Rightarrow> MempoolItem list" where
  "get_items_not_in_filter self matches limit =
     items_not_in_filter_loop matches limit (map snd (by_rate (mm_mempool self))) 0"

text \<open>The items of the next block, best rate first, up to the first that does not fit.\<close>

fun take_items :: "rat \<Rightarrow> int \<Rightarrow> MempoolItem list \<Rightarrow> int \<Rightarrow> int \<Rightarrow> MempoolItem list res" where
  "take_items cost_limit max_fee [] cost_sum fee_sum = Ok []"
| "take_items cost_limit max_fee (item # rest) cost_sum fee_sum =
     rbind (fee_per_cost item) (\<lambda>_.
       if of_int (mi_cost item + cost_sum) \<le> cost_limit \<and> mi_fee item + fee_sum \<le> max_fee then
         rbind (take_items cost_limit max_fee rest (cost_sum + mi_cost item) (fee_sum + mi_fee item)) (\<lambda>items.
           Ok (item # items))
       else Ok [])"

definition create_bundle_from_mempool ::
    "crypto \<Rightarrow> 's clvm \<Rightarrow> int \<Rightarrow> MempoolManager \<Rightarrow> bytes \<Rightarrow> (SpendBundle \<times> Coin list \<times> Coin list) option res" where
  "create_bundle_from_mempool cr vm now self last_tb_header_hash =
     (case mm_peak self of None \<Rightarrow> Ok None
      | Some peak \<Rightarrow>
          if header_hash peak \<noteq> last_tb_header_hash \<or> now \<le> INITIAL_FREEZE_END_TIMESTAMP (mm_constants self)
          then Ok None
          else
            rbind (take_items (limit_cost self) (MAX_COIN_AMOUNT (mm_constants self))
                     (concat (map (\<lambda>(fpc, dic). map snd dic) (rev (mp_sorted_spends (mm_mempool self))))) 0 0)
              (\<lambda>items.
              if items = [] then Ok None
              else
                let removals = concat (map mi_removals items); additions = concat (map mi_additions items);
                    agg = sb_aggregate cr (map mi_spend_bundle items) in
                rbind (py_truediv (sum_list (map mi_cost items)) (MAX_BLOCK_COST_CLVM (mm_constants self))) (\<lambda>_.
                rbind (sb_additions cr vm agg) (\<lambda>agg_additions.
                rbind (py_assert (set agg_additions = set additions)) (\<lambda>_.
                rbind (py_assert (set (sb_removals agg) = set removals)) (\<lambda>_.
                  Ok (Some (agg, additions, removals))))))))"

end
