(* ===== verification/Mempool_Order.thy ===== *)
theory Mempool_Order
  imports Mempool_Manager
begin

text \<open>
  The order of the pool by fee rate: the items a new block takes, best rate first, and the order in which
  eviction and \<^verbatim>\<open>get_min_fee_rate\<close> go through the pool. The bundle made for a block is within the limits,
  spends and creates no coin twice and leaves out no better item; the rate \<^verbatim>\<open>get_min_fee_rate\<close> returns is
  the least rate whose items must go, so a smaller pool asks for no higher one.
\<close>

section \<open>The bundle for a new block\<close>

lemma take_items_ok:
  assumes "take_items cost_limit max_fee all c f = Ok items"
  shows "\<exists>rest. all = items @ rest" and "items \<noteq> [] \<Longrightarrow> of_int (c + sum_list (map mi_cost items)) \<le> cost_limit"
    and "items \<noteq> [] \<Longrightarrow> f + sum_list (map mi_fee items) \<le> max_fee"
proof -
  have "(\<exists>rest. all = items @ rest) \<and>
     (items \<noteq> [] \<longrightarrow> of_int (c + sum_list (map mi_cost items)) \<le> cost_limit \<and> f + sum_list (map mi_fee items) \<le> max_fee)"
    using assms
  proof (induction all arbitrary: items c f)
    case (Cons i all)
    show ?case
    proof (cases "of_int (mi_cost i + c) \<le> cost_limit \<and> mi_fee i + f \<le> max_fee")
      case True
      with Cons.prems obtain items' where
        i: "take_items cost_limit max_fee all (c + mi_cost i) (f + mi_fee i) = Ok items'" "items = i # items'" by auto
      from Cons.IH [OF i(1)] i(2) True show ?thesis by (cases "items' = []") (auto simp: algebra_simps)
    next
      case False
      with Cons.prems have "items = []" by auto
      then show ?thesis by simp
    qed
  qed simp
  then show "\<exists>rest. all = items @ rest" and "items \<noteq> [] \<Longrightarrow> of_int (c + sum_list (map mi_cost items)) \<le> cost_limit"
    and "items \<noteq> [] \<Longrightarrow> f + sum_list (map mi_fee items) \<le> max_fee" by blast+
qed

definition best_first :: "Mempool \<Rightarrow> MempoolItem list" where
  "best_first m = concat (map (\<lambda>(fpc, dic). map snd dic) (rev (mp_sorted_spends m)))"

lemma bucket_items:
  assumes "mempool_ok cr vm m"
  shows "(r, d) \<in> set (mp_sorted_spends m) \<Longrightarrow> distinct (map snd d)"
    "(r, d) \<in> set (mp_sorted_spends m) \<Longrightarrow> i \<in> snd ` set d \<Longrightarrow> rate i = r \<and> i \<in> pool_items m"
    "i \<in> pool_items m \<Longrightarrow> \<exists>d. (rate i, d) \<in> set (mp_sorted_spends m) \<and> i \<in> snd ` set d"
proof -
  note inv = mempool_okD [OF assms]
  let ?idx = "mp_sorted_spends m"
  have srt: "sorted_wrt (<) (map fst ?idx)" using inv(5) by (simp add: rates_ok_def)
  have b: "case map_of ?idx r of None \<Rightarrow> \<forall>(n, i)\<in>set (mp_spends m). rate i \<noteq> r
      | Some d \<Rightarrow> d \<noteq> [] \<and> distinct (map fst d) \<and> set d = {(n, i). (n, i) \<in> set (mp_spends m) \<and> rate i = r}" for r
    using inv(5) unfolding rates_ok_def by (rule conjunct2 [THEN spec])
  have bucket: "distinct (map fst d)" "set d = {(n, i). (n, i) \<in> set (mp_spends m) \<and> rate i = r}"
    if "(r, d) \<in> set ?idx" for r d
    using b [of r] sd.item_found [OF srt, of r d] that by simp_all
  show "distinct (map snd d)" if "(r, d) \<in> set ?idx"
  proof -
    have sub: "set d \<subseteq> set (mp_spends m)" using bucket [OF that] by auto
    have "inj_on snd (set d)"
    proof (rule inj_onI)
      fix x y assume "x \<in> set d" "y \<in> set d" and xy: "snd x = snd y"
      with sub have "x \<in> set (mp_spends m)" "y \<in> set (mp_spends m)" by blast+
      with inv(2) [of "fst x" "snd x"] inv(2) [of "fst y" "snd y"] have "fst x = mi_name (snd x)" "fst y = mi_name (snd y)"
        by simp_all
      with xy show "x = y" by (simp add: prod_eq_iff)
    qed
    moreover have "distinct d" using bucket [OF that] by (simp add: distinct_map)
    ultimately show ?thesis by (simp add: distinct_map)
  qed
  show "rate i = r \<and> i \<in> pool_items m" if "(r, d) \<in> set ?idx" "i \<in> snd ` set d"
    using bucket [OF that(1)] that(2) by (auto simp: pool_items_def intro!: rev_image_eqI)
  show "\<exists>d. (rate i, d) \<in> set ?idx \<and> i \<in> snd ` set d" if "i \<in> pool_items m"
  proof -
    from \<open>i \<in> pool_items m\<close> obtain n where n: "(n, i) \<in> set (mp_spends m)" by (auto simp: pool_items_def)
    with b [of "rate i"] obtain d where d: "map_of ?idx (rate i) = Some d" "(n, i) \<in> set d"
      by (cases "map_of ?idx (rate i)") auto
    from map_of_SomeD [OF d(1)] d(2) show ?thesis by force
  qed
qed

text \<open>The pool in the order of the next block: every item once, the rates not increasing.\<close>

lemma best_first_ok:
  assumes "mempool_ok cr vm m"
  shows "set (best_first m) = pool_items m" "distinct (best_first m)"
    "sorted_wrt (\<lambda>i j. rate j \<le> rate i) (best_first m)"
proof -
  let ?idx = "mp_sorted_spends m"
  note b = bucket_items [OF assms]
  have srt: "sorted_wrt (<) (map fst ?idx)" using mempool_okD(5) [OF assms] by (simp add: rates_ok_def)
  have "set (best_first m) = (\<Union>(r, d)\<in>set ?idx. snd ` set d)" by (auto simp: best_first_def)
  also have "\<dots> = pool_items m" using b(2,3) by fast
  finally show "set (best_first m) = pool_items m" .
  have "distinct (concat (map (\<lambda>(fpc, dic). map snd dic) (rev l))) \<and>
     sorted_wrt (\<lambda>i j. rate j \<le> rate i) (concat (map (\<lambda>(fpc, dic). map snd dic) (rev l)))"
    if "sorted_wrt (<) (map fst l)" "set l \<subseteq> set ?idx" for l
    using that
  proof (induction l)
    case (Cons x l)
    obtain r d where x: "x = (r, d)" by (cases x)
    with Cons.prems have xi: "(r, d) \<in> set ?idx" by simp
    have d: "distinct (map snd d)" "\<And>i. i \<in> snd ` set d \<Longrightarrow> rate i = r" using b(1) [OF xi] b(2) [OF xi] by auto
    have later: "r < rate i" if "(r', d') \<in> set l" "i \<in> snd ` set d'" for r' d' i
      using that b(2) [of r' d' i] Cons.prems x by force
    have same: "sorted_wrt (\<lambda>i j. rate j \<le> rate i) (map snd d)"
      using d(2) by (induction d) auto
    have "distinct (concat (map (\<lambda>(fpc, dic). map snd dic) (rev l))) \<and>
       sorted_wrt (\<lambda>i j. rate j \<le> rate i) (concat (map (\<lambda>(fpc, dic). map snd dic) (rev l)))"
      using Cons by simp
    with d same later show ?case by (fastforce simp: x sorted_wrt_append)
  qed simp
  from this [OF srt] show "distinct (best_first m)" "sorted_wrt (\<lambda>i j. rate j \<le> rate i) (best_first m)"
    by (simp_all add: best_first_def)
qed

text \<open>The order in which \<^verbatim>\<open>get_min_fee_rate\<close> and eviction go through the pool.\<close>

lemma by_rate_ok:
  assumes "mempool_ok cr vm m"
  shows "set (map snd (by_rate m)) = pool_items m" "distinct (map snd (by_rate m))"
    "\<forall>(r, i)\<in>set (by_rate m). r = rate i" "sorted_wrt (\<lambda>i j. rate i \<le> rate j) (map snd (by_rate m))"
proof -
  let ?idx = "mp_sorted_spends m"
  note b = bucket_items [OF assms]
  have srt: "sorted_wrt (<) (map fst ?idx)" using mempool_okD(5) [OF assms] by (simp add: rates_ok_def)
  have "set (map snd (by_rate m)) = (\<Union>(r, d)\<in>set ?idx. snd ` set d)" by (force simp: by_rate_def)
  also have "\<dots> = pool_items m" using b(2,3) by fast
  finally show "set (map snd (by_rate m)) = pool_items m" .
  show "\<forall>(r, i)\<in>set (by_rate m). r = rate i"
    using b(2) by (fastforce simp: by_rate_def)
  have snd: "map snd (concat (map (\<lambda>(fpc, d). map (\<lambda>(name, item). (fpc, item)) d) l))
      = concat (map (\<lambda>(fpc, d). map snd d) l)" for l :: "(rat \<times> (bytes \<times> MempoolItem) list) list"
    by (induction l) (auto simp: case_prod_unfold)
  have "distinct (concat (map (\<lambda>(fpc, d). map snd d) l)) \<and>
     sorted_wrt (\<lambda>i j. rate i \<le> rate j) (concat (map (\<lambda>(fpc, d). map snd d) l))"
    if "sorted_wrt (<) (map fst l)" "set l \<subseteq> set ?idx" for l
    using that
  proof (induction l)
    case (Cons x l)
    obtain r d where x: "x = (r, d)" by (cases x)
    with Cons.prems have xi: "(r, d) \<in> set ?idx" by simp
    have d: "distinct (map snd d)" "\<And>i. i \<in> snd ` set d \<Longrightarrow> rate i = r" using b(1) [OF xi] b(2) [OF xi] by auto
    have later: "r < rate i" if "(r', d') \<in> set l" "i \<in> snd ` set d'" for r' d' i
      using that b(2) [of r' d' i] Cons.prems x by force
    have same: "sorted_wrt (\<lambda>i j. rate i \<le> rate j) (map snd d)"
      using d(2) by (induction d) auto
    have "distinct (concat (map (\<lambda>(fpc, d). map snd d) l)) \<and>
       sorted_wrt (\<lambda>i j. rate i \<le> rate j) (concat (map (\<lambda>(fpc, d). map snd d) l))"
      using Cons by simp
    with d same later show ?case by (fastforce simp: x sorted_wrt_append)
  qed simp
  from this [OF srt] show "distinct (map snd (by_rate m))" "sorted_wrt (\<lambda>i j. rate i \<le> rate j) (map snd (by_rate m))"
    by (simp_all add: by_rate_def snd)
qed

lemma min_fee_rate_loop_ok:
  assumes "min_fee_rate_loop max_size cost l c = Ok r" and "c + cost > max_size"
  obtains l1 i l2 where "l = l1 @ (r, i) # l2" "c - sum_list (map (mi_cost \<circ> snd) l1) + cost > max_size"
    "c - sum_list (map (mi_cost \<circ> snd) l1) - mi_cost i + cost \<le> max_size"
  using assms
proof (induction l arbitrary: c thesis)
  case (Cons x l)
  obtain q i where x: "x = (q, i)" by (cases x)
  show ?case
  proof (cases "c - mi_cost i + cost \<le> max_size")
    case True
    with Cons.prems show ?thesis by (intro Cons.prems(1) [of "[]" i l]) (auto simp: x)
  next
    case False
    with Cons.prems(2) have run: "min_fee_rate_loop max_size cost l (c - mi_cost i) = Ok r" by (simp add: x)
    show ?thesis
    proof (rule Cons.IH [OF _ run])
      fix l1 j l2
      assume "l = l1 @ (r, j) # l2" "c - mi_cost i - sum_list (map (mi_cost \<circ> snd) l1) + cost > max_size"
        "c - mi_cost i - sum_list (map (mi_cost \<circ> snd) l1) - mi_cost j + cost \<le> max_size"
      then show thesis by (intro Cons.prems(1) [of "x # l1" j l2]) (simp_all add: x algebra_simps comp_def)
    qed (use False in simp)
  qed
qed simp

lemma pool_total:
  assumes "mempool_ok cr vm m"
  shows "mp_total_mempool_cost m = (\<Sum>i\<in>pool_items m. mi_cost i)"
proof -
  note inv = mempool_okD [OF assms]
  have "inj_on snd (set (mp_spends m))"
  proof (rule inj_onI)
    fix x y assume "x \<in> set (mp_spends m)" "y \<in> set (mp_spends m)" and xy: "snd x = snd y"
    from this(1,2) inv(2) [of "fst x" "snd x"] inv(2) [of "fst y" "snd y"] have "fst x = mi_name (snd x)" "fst y = mi_name (snd y)"
      by simp_all
    with xy show "x = y" by (simp add: prod_eq_iff)
  qed
  then have "(\<Sum>i\<in>pool_items m. mi_cost i) = (\<Sum>x\<in>set (mp_spends m). mi_cost (snd x))"
    unfolding pool_items_def by (simp add: sum.reindex)
  also have "\<dots> = sum_list (map (\<lambda>x. mi_cost (snd x)) (mp_spends m))"
    using inv(1) by (intro sum_list_distinct_conv_sum_set [symmetric]) (simp add: distinct_map)
  finally show ?thesis using inv(6) by (simp add: case_prod_unfold)
qed

text \<open>The rate \<^verbatim>\<open>get_min_fee_rate\<close> returns is the least whose items must go: dropping all items up to it makes
  room for \<open>cost\<close>, dropping only those below it does not.\<close>

lemma min_fee_rate_char:
  assumes ok: "mempool_ok cr vm m" and full: "at_full_capacity m cost" and r: "get_min_fee_rate m cost = Ok r"
  shows "(\<Sum>i\<in>{i \<in> pool_items m. r < rate i}. mi_cost i) + cost \<le> mp_max_size_in_cost m"
    "(\<Sum>i\<in>{i \<in> pool_items m. r \<le> rate i}. mi_cost i) + cost > mp_max_size_in_cost m"
proof -
  note b = by_rate_ok [OF ok] and inv = mempool_okD [OF ok]
  from r full have "min_fee_rate_loop (mp_max_size_in_cost m) cost (by_rate m) (mp_total_mempool_cost m) = Ok r"
    "mp_total_mempool_cost m + cost > mp_max_size_in_cost m"
    by (simp_all add: get_min_fee_rate_def at_full_capacity_def)
  then obtain l1 i l2 where l: "by_rate m = l1 @ (r, i) # l2"
    and 1: "mp_total_mempool_cost m - sum_list (map (mi_cost \<circ> snd) l1) + cost > mp_max_size_in_cost m"
    and 2: "mp_total_mempool_cost m - sum_list (map (mi_cost \<circ> snd) l1) - mi_cost i + cost \<le> mp_max_size_in_cost m"
    by (rule min_fee_rate_loop_ok)
  have ri: "r = rate i" using b(3) l by simp
  have fin: "finite (pool_items m)" by (simp add: pool_items_def)
  have pos: "0 \<le> mi_cost j" if "j \<in> pool_items m" for j
    using that inv(2) by (fastforce simp: pool_items_def item_ok_def)
  have set1: "sum_list (map (mi_cost \<circ> snd) l1) = (\<Sum>j\<in>snd ` set l1. mi_cost j)"
    using b(2) sum_list_distinct_conv_sum_set [of "map snd l1" mi_cost] by (simp add: l comp_def)
  have items: "pool_items m = snd ` set l1 \<union> {i} \<union> snd ` set l2" using b(1) l by auto
  have d: "i \<notin> snd ` set l1" "snd ` set l1 \<inter> snd ` set l2 = {}" "i \<notin> snd ` set l2" using b(2) l by auto
  have lo: "rate j \<le> r" if "j \<in> snd ` set l1" for j using b(4) that by (force simp: l ri sorted_wrt_append)
  have hi: "r \<le> rate j" if "j \<in> snd ` set l2" for j using b(4) that by (force simp: l ri sorted_wrt_append)
  have total: "mp_total_mempool_cost m = (\<Sum>j\<in>snd ` set l1. mi_cost j) + mi_cost i + (\<Sum>j\<in>snd ` set l2. mi_cost j)"
    unfolding pool_total [OF ok] items using d by (simp add: sum.union_disjoint)
  have "(\<Sum>j\<in>{j \<in> pool_items m. r < rate j}. mi_cost j) \<le> (\<Sum>j\<in>snd ` set l2. mi_cost j)"
  proof (rule sum_mono2)
    show "{j \<in> pool_items m. r < rate j} \<subseteq> snd ` set l2"
    proof
      fix j assume j: "j \<in> {j \<in> pool_items m. r < rate j}"
      with lo [of j] ri have "j \<notin> snd ` set l1" "j \<noteq> i" by auto
      with j items show "j \<in> snd ` set l2" by blast
    qed
  qed (use items pos in auto)
  with 2 total set1 show "(\<Sum>i\<in>{i \<in> pool_items m. r < rate i}. mi_cost i) + cost \<le> mp_max_size_in_cost m" by simp
  have "mi_cost i + (\<Sum>j\<in>snd ` set l2. mi_cost j) = (\<Sum>j\<in>insert i (snd ` set l2). mi_cost j)" using d(3) by simp
  also have "\<dots> \<le> (\<Sum>j\<in>{j \<in> pool_items m. r \<le> rate j}. mi_cost j)"
  proof (rule sum_mono2)
    show "insert i (snd ` set l2) \<subseteq> {j \<in> pool_items m. r \<le> rate j}" using items hi ri by auto
    fix j assume "j \<in> {j \<in> pool_items m. r \<le> rate j} - insert i (snd ` set l2)"
    then show "0 \<le> mi_cost j" using pos by blast
  qed (use fin in simp)
  finally show "(\<Sum>i\<in>{i \<in> pool_items m. r \<le> rate i}. mi_cost i) + cost > mp_max_size_in_cost m"
    using 1 total set1 by simp
qed

text \<open>A smaller pool asks for no higher rate.\<close>

lemma min_fee_rate_mono:
  assumes "mempool_ok cr vm m" "mempool_ok cr vm m'" "pool_items m' \<subseteq> pool_items m"
    and "mp_max_size_in_cost m' = mp_max_size_in_cost m" "at_full_capacity m' cost" "at_full_capacity m cost"
    and "get_min_fee_rate m cost = Ok r" "get_min_fee_rate m' cost = Ok r'"
  shows "r' \<le> r"
proof (rule ccontr)
  assume "\<not> r' \<le> r"
  then have "(\<Sum>i\<in>{i \<in> pool_items m'. r' \<le> rate i}. mi_cost i) \<le> (\<Sum>i\<in>{i \<in> pool_items m. r < rate i}. mi_cost i)"
  proof (intro sum_mono2)
    show "finite {i \<in> pool_items m. r < rate i}" by (simp add: pool_items_def)
    fix i assume "i \<in> {i \<in> pool_items m. r < rate i} - {i \<in> pool_items m'. r' \<le> rate i}"
    then show "0 \<le> mi_cost i" using mempool_okD(2) [OF assms(1)] by (fastforce simp: pool_items_def item_ok_def)
  qed (use assms(3) in auto)
  with min_fee_rate_char(1) [OF assms(1,6,7)] min_fee_rate_char(2) [OF assms(2,5,8)] assms(4) show False by simp
qed

lemma rmap_concat:
  assumes "\<And>x. x \<in> set xs \<Longrightarrow> rmap f (h x) = Ok (g x)"
  shows "rmap f (concat (map h xs)) = Ok (concat (map g xs))"
  using assms by (induction xs) (simp_all add: rmap_append)

lemma distinct_names_concat:
  assumes "distinct items" and "\<And>i. i \<in> set items \<Longrightarrow> distinct (g i)"
    and "\<And>i j. i \<in> set items \<Longrightarrow> j \<in> set items \<Longrightarrow> i \<noteq> j \<Longrightarrow> set (g i) \<inter> set (g j) = {}"
  shows "distinct (concat (map g items))"
  using assms
proof (induction items)
  case (Cons i items)
  have "set (g i) \<inter> set (g j) = {}" if "j \<in> set items" for j
    using Cons.prems(1,3) that by (intro Cons.prems(3)) auto
  with Cons show ?case by auto
qed simp

lemma index_disjoint:
  assumes "index_ok names d items" "i \<in> items" "j \<in> items" "i \<noteq> j"
  shows "names i \<inter> names j = {}"
proof (rule ccontr)
  assume "\<not> ?thesis"
  then obtain k where "k \<in> names i" "k \<in> names j" by blast
  with assms(1-3) have "map_of d k = Some i" "map_of d k = Some j" by (simp_all add: index_ok_def)
  with assms(4) show False by simp
qed

text \<open>The bundle of several items of a pool spends no coin twice and creates no coin twice.\<close>

lemma aggregate_names:
  assumes ok: "mempool_ok cr vm m" and items: "set items \<subseteq> pool_items m" "distinct items"
  shows "\<exists>rs. rmap (coin_name cr) (sb_removals (sb_aggregate cr (map mi_spend_bundle items))) = Ok rs \<and> distinct rs"
    "\<exists>as ns. sb_additions cr vm (sb_aggregate cr (map mi_spend_bundle items)) = Ok as \<and>
       rmap (coin_name cr) as = Ok ns \<and> distinct ns"
proof -
  note inv = mempool_okD [OF ok]
  have iok: "item_ok cr vm i" if "i \<in> set items" for i
    using that items(1) inv(2) by (auto simp: pool_items_def)
  have pool: "i \<in> pool_items m" if "i \<in> set items" for i using that items(1) by blast
  define rs where "rs (i :: MempoolItem) = (case removal_names cr i of Some (Inr ns) \<Rightarrow> ns | _ \<Rightarrow> [])" for i
  define ns where "ns (i :: MempoolItem) = (case addition_names cr vm i of Some (Inr ns) \<Rightarrow> ns | _ \<Rightarrow> [])" for i
  have rs: "removal_names cr i = Ok (rs i)" "distinct (rs i)" "set (rs i) = spent_by cr i"
    and ns: "addition_names cr vm i = Ok (ns i)" "distinct (ns i)" "set (ns i) = made_by cr vm i"
    if "i \<in> set items" for i
    using iok [OF that] by (auto simp: item_ok_def rs_def ns_def)
  have "rmap (coin_name cr) (concat (map (\<lambda>i. sb_removals (mi_spend_bundle i)) items)) = Ok (concat (map rs items))"
    by (rule rmap_concat) (use rs(1) in \<open>simp add: removal_names_def\<close>)
  moreover have "distinct (concat (map rs items))"
    by (rule distinct_names_concat [OF items(2) rs(2)]) (simp_all add: rs(3) index_disjoint [OF inv(3) pool pool])
  ultimately show "\<exists>rs. rmap (coin_name cr) (sb_removals (sb_aggregate cr (map mi_spend_bundle items))) = Ok rs \<and> distinct rs"
    by (simp add: sb_aggregate_removals comp_def)
  define as where "as (i :: MempoolItem) = (case sb_additions cr vm (mi_spend_bundle i) of Some (Inr as) \<Rightarrow> as | _ \<Rightarrow> [])" for i
  have as: "sb_additions cr vm (mi_spend_bundle i) = Ok (as i)" "rmap (coin_name cr) (as i) = Ok (ns i)"
    if "i \<in> set items" for i
    using ns(1) [OF that] by (auto simp: addition_names_def as_def)
  have "rmap (sb_additions cr vm) (map mi_spend_bundle items) = Ok (map as items)"
    using as(1) by (induction items) auto
  then have "sb_additions cr vm (sb_aggregate cr (map mi_spend_bundle items)) = Ok (concat (map as items))"
    by (simp flip: sb_aggregate_additions)
  moreover have "rmap (coin_name cr) (concat (map as items)) = Ok (concat (map ns items))"
    by (rule rmap_concat) (rule as(2))
  moreover have "distinct (concat (map ns items))"
    by (rule distinct_names_concat [OF items(2) ns(2)]) (simp_all add: ns(3) index_disjoint [OF inv(4) pool pool])
  ultimately show "\<exists>as ns. sb_additions cr vm (sb_aggregate cr (map mi_spend_bundle items)) = Ok as \<and>
       rmap (coin_name cr) as = Ok ns \<and> distinct ns" by blast
qed

lemma created_bundle:
  assumes ok: "mempool_ok cr vm (mm_mempool s)"
    and run: "create_bundle_from_mempool cr vm now s h = Ok (Some (agg, adds, rems))"
  shows "\<exists>items as rs. set items \<subseteq> pool_items (mm_mempool s) \<and> agg = sb_aggregate cr (map mi_spend_bundle items) \<and>
     of_int (sum_list (map mi_cost items)) \<le> limit_cost s \<and>
     sum_list (map mi_fee items) \<le> MAX_COIN_AMOUNT (mm_constants s) \<and>
     (\<forall>i\<in>set items. \<forall>j\<in>pool_items (mm_mempool s) - set items. rate j \<le> rate i) \<and>
     sb_additions cr vm agg = Ok as \<and> (\<exists>ns. rmap (coin_name cr) as = Ok ns \<and> distinct ns) \<and>
     rmap (coin_name cr) (sb_removals agg) = Ok rs \<and> distinct rs \<and>
     set adds = set as \<and> set rems = set (sb_removals agg)"
proof -
  from run obtain items as where
    t: "take_items (limit_cost s) (MAX_COIN_AMOUNT (mm_constants s)) (best_first (mm_mempool s)) 0 0 = Ok items"
    and ne: "items \<noteq> []" and agg: "agg = sb_aggregate cr (map mi_spend_bundle items)"
    and as: "sb_additions cr vm agg = Ok as" "set as = set adds" and rems: "set (sb_removals agg) = set rems"
    by (auto simp: create_bundle_from_mempool_def best_first_def Let_def split: option.splits if_splits)
  note b = best_first_ok [OF ok]
  from take_items_ok(1) [OF t] obtain rest where rest: "best_first (mm_mempool s) = items @ rest" by blast
  have sub: "set items \<subseteq> pool_items (mm_mempool s)" using b(1) rest by auto
  have d: "distinct items" using b(2) rest by simp
  have order: "rate j \<le> rate i" if "i \<in> set items" "j \<in> pool_items (mm_mempool s) - set items" for i j
    using that b(1,3) rest by (auto simp: sorted_wrt_append)
  note lim = take_items_ok(2,3) [OF t ne, simplified]
  from aggregate_names [OF ok sub d, folded agg] obtain rs as' ns where
    n: "rmap (coin_name cr) (sb_removals agg) = Ok rs" "distinct rs" "sb_additions cr vm agg = Ok as'"
      "rmap (coin_name cr) as' = Ok ns" "distinct ns" by blast
  with as(1) have "as' = as" by simp
  with n have ns: "rmap (coin_name cr) as = Ok ns \<and> distinct ns" by simp
  show ?thesis
    by (intro exI [of _ items] exI [of _ as] exI [of _ rs] conjI exI [of _ ns] ballI)
       (use sub agg lim order as n(1,2) ns rems in auto)
qed

end
