(* ===== verification/Mempool_Facts.thy ===== *)
theory Mempool_Facts
  imports Mempool_Order Body_Facts
begin

text \<open>
  What the mempool manager guarantees. A bundle that is added spends coins that exist and are unspent on
  the chain (or that it creates itself), with conserved value, revealed puzzles and satisfied conditions,
  within half a block's cost; what it replaces is replaced whole and pays at least 10000 less. Every
  state reachable by submitted bundles, new peaks and changes of the chain has a pool that satisfies
  \<open>mempool_ok\<close>.
\<close>

section \<open>A successful addition\<close>

lemma add_successE:
  assumes "add_spendbundle cr vm bin now s sb r name vs prog = Ok ((c, SUCCESS, e), s')"
    and "map_of (mp_spends (mm_mempool s)) name = None"
  obtains peak cost additions dict added records removed store fee fpc reason conflicts conflicting item pairs pool1 pool2
  where
    "mm_peak s = Some peak"
    "calculate_cost_of_program (case prog of None \<Rightarrow> bg_program (simple_solution_generator bin sb) | Some p \<Rightarrow> p) r
       (COST_PER_BYTE (mm_constants s)) = Ok cost"
    "check_bundle cr s r cost = Valid (additions, dict, added)"
    "removal_records cr peak dict (map npc_coin_name (npc_list r)) [] 0 (mm_coin_store s)
       = Ok (Inr (records, removed), store)"
    "check_fees cr (s\<lparr>mm_coin_store := store\<rparr>) (npc_list r) cost added removed = Valid (fee, fpc)"
    "check_removals_loop cr (mm_mempool s) (map snd records) [] = Ok (reason, conflicts)"
    "reason = None \<and> conflicting = [] \<or>
     reason = Some MEMPOOL_CONFLICT \<and> conflicting_items cr (mm_mempool s) conflicts = Ok conflicting \<and>
       can_replace cr conflicting records fee fpc = Ok True"
    "item = \<lparr>mi_spend_bundle = sb, mi_fee = fee, mi_npc_result = r, mi_cost = cost,
       mi_spend_bundle_name = name, mi_additions = additions, mi_removals = map (\<lambda>(n, u). cr_coin u) records,
       mi_program = (case prog of None \<Rightarrow> bg_program (simple_solution_generator bin sb) | Some p \<Rightarrow> p)\<rparr>"
    "check_conditions cr now (mm_constants s) peak (npc_list r) records vs = Valid pairs"
    "vs \<longrightarrow> aggregate_verify cr (map fst pairs) (map snd pairs) (sb_aggregated_signature sb)"
    "rfold (\<lambda>(n, mempool_item) pool. remove_from_pool cr vm pool mempool_item) conflicting (mm_mempool s) = Ok pool1"
    "add_to_pool cr vm pool1 item additions records = Ok pool2"
    "s' = s\<lparr>mm_coin_store := store, mm_mempool := pool2\<rparr>" "c = Some cost" "e = None"
proof -
  let ?prog = "case prog of None \<Rightarrow> bg_program (simple_solution_generator bin sb) | Some p \<Rightarrow> p"
  from assms obtain peak where peak: "mm_peak s = Some peak"
    by (cases "mm_peak s") (auto simp: add_spendbundle_def)
  note d = assms(1) [unfolded add_spendbundle_def Let_def peak option.case assms(2)]
  from d obtain cost where cost: "calculate_cost_of_program ?prog r (COST_PER_BYTE (mm_constants s)) = Ok cost"
    by (elim rbind_OkE)
  note d = d [unfolded cost rbind_Ok]
  from d obtain x where x: "check_bundle cr s r cost = Ok x" by (elim rbind_OkE)
  note d = d [unfolded x rbind_Ok]
  from d obtain additions dict added where x': "x = Inr (additions, dict, added)" by (cases x) auto
  note d = d [unfolded x' sum.case prod.case]
  from d obtain y where y: "removal_records cr peak dict (map npc_coin_name (npc_list r)) [] 0 (mm_coin_store s) = Ok y"
    by auto
  obtain y1 store where y': "y = (y1, store)" by (cases y)
  from d y y' obtain records removed where y1: "y1 = Inr (records, removed)" by (cases y1) auto
  note d = d [unfolded y y' y1, simplified]
  from d obtain z where z: "check_fees cr (s\<lparr>mm_coin_store := store\<rparr>) (npc_list r) cost added removed = Ok z" by auto
  note d = d [unfolded z rbind_Ok]
  from d obtain fee fpc where z': "z = Inr (fee, fpc)" by (cases z) auto
  note d = d [unfolded z' sum.case prod.case]
  from d obtain reason conflicts where
    cr: "check_removals cr (s\<lparr>mm_coin_store := store\<rparr>) records = Ok (reason, conflicts)" by auto
  note d = d [unfolded cr, simplified]
  define item where "item = \<lparr>mi_spend_bundle = sb, mi_fee = fee, mi_npc_result = r, mi_cost = cost,
       mi_spend_bundle_name = name, mi_additions = additions, mi_removals = map (\<lambda>(n, u). cr_coin u) records,
       mi_program = ?prog\<rparr>"
  note d = d [folded item_def]
  have "\<exists>conflicting. (reason = None \<and> conflicting = [] \<or>
      reason = Some MEMPOOL_CONFLICT \<and> conflicting_items cr (mm_mempool s) conflicts = Ok conflicting \<and>
       can_replace cr conflicting records fee fpc = Ok True) \<and>
     admit cr vm now (s\<lparr>mm_coin_store := store\<rparr>) peak item records vs conflicting = Ok ((c, SUCCESS, e), s')"
  proof (cases "reason = Some MEMPOOL_CONFLICT")
    case True
    with d show ?thesis by (auto simp: keep_pending_def split: if_splits)
  next
    case False
    with d show ?thesis by (auto split: option.splits if_splits)
  qed
  then obtain conflicting where conf: "reason = None \<and> conflicting = [] \<or>
      reason = Some MEMPOOL_CONFLICT \<and> conflicting_items cr (mm_mempool s) conflicts = Ok conflicting \<and>
       can_replace cr conflicting records fee fpc = Ok True"
    and adm: "admit cr vm now (s\<lparr>mm_coin_store := store\<rparr>) peak item records vs conflicting = Ok ((c, SUCCESS, e), s')"
    by blast
  have flds: "mi_npc_result item = r" "mi_spend_bundle item = sb" "mi_additions item = additions" "mi_cost item = cost"
    by (simp_all add: item_def)
  from adm obtain pairs pool1 pool2 where a:
    "check_conditions cr now (mm_constants s) peak (npc_list r) records vs = Valid pairs"
    "vs \<longrightarrow> aggregate_verify cr (map fst pairs) (map snd pairs) (sb_aggregated_signature sb)"
    "rfold (\<lambda>(n, mempool_item) pool. remove_from_pool cr vm pool mempool_item) conflicting (mm_mempool s) = Ok pool1"
    "add_to_pool cr vm pool1 item additions records = Ok pool2"
    "s' = s\<lparr>mm_coin_store := store, mm_mempool := pool2\<rparr>" "c = Some cost" "e = None"
  proof -
    note d = adm [unfolded admit_def flds]
    from d obtain w where w: "check_conditions cr now (mm_constants (s\<lparr>mm_coin_store := store\<rparr>)) peak (npc_list r) records vs = Ok w"
      by (elim rbind_OkE)
    note d = d [unfolded w rbind_Ok]
    from d obtain pairs where w': "w = Inr pairs" by (cases w) (auto simp: keep_pending_def split: if_splits)
    note d = d [unfolded w' sum.case]
    from d have sig: "vs \<longrightarrow> aggregate_verify cr (map fst pairs) (map snd pairs) (sb_aggregated_signature sb)"
      by (auto split: if_splits)
    then have nsig: "\<not> (vs \<and> \<not> aggregate_verify cr (map fst pairs) (map snd pairs) (sb_aggregated_signature sb))" by blast
    from d [unfolded if_not_P [OF nsig]] obtain pool1 pool2 where q:
      "rfold (\<lambda>(n, mempool_item) pool. remove_from_pool cr vm pool mempool_item) conflicting (mm_mempool s) = Ok pool1"
      "add_to_pool cr vm pool1 item additions records = Ok pool2"
      "s' = s\<lparr>mm_coin_store := store, mm_mempool := pool2\<rparr>" "c = Some cost" "e = None"
      by (elim rbind_OkE) simp
    have "check_conditions cr now (mm_constants s) peak (npc_list r) records vs = Valid pairs" using w w' by simp
    from that [OF this sig q] show ?thesis .
  qed
  have cl: "check_removals_loop cr (mm_mempool s) (map snd records) [] = Ok (reason, conflicts)"
    using cr peak by (simp add: check_removals_def)
  show ?thesis
    by (rule that [OF peak cost x [unfolded x'] y [unfolded y' y1] z [unfolded z'] cl conf item_def a])
qed

section \<open>The records of the spent coins\<close>

text \<open>Where a coin a pending bundle spends comes from: the bundle itself, or the unspent coins of the chain.\<close>

definition pending_source :: "BlockRecord \<Rightarrow> (bytes \<times> Coin) list \<Rightarrow> ledger \<Rightarrow> bytes \<Rightarrow> CoinRecord \<Rightarrow> bool" where
  "pending_source peak dict led n u \<longleftrightarrow>
     (case map_of dict n of Some coin \<Rightarrow> ephemeral_record peak coin = Ok u | None \<Rightarrow> led n = Some u)"

lemma removal_records_store:
  assumes "removal_records cr peak dict names rs a store = Ok (res, store')" and "implements cr store led"
  shows "implements cr store' led"
  using assms
proof (induction names arbitrary: rs a store)
  case (Cons n names)
  from get_coin_record_ledger [OF Cons.prems(2), of n] obtain s1 where
    s1: "get_coin_record cr store n = Ok (led n, s1)" "implements cr s1 led" by blast
  from Cons.prems(1) s1 Cons.IH [OF _ s1(2)] show ?case by (auto split: if_splits)
qed simp

lemma ephemeral_coin: "ephemeral_record peak coin = Ok u \<Longrightarrow> cr_coin u = coin \<and> \<not> cr_spent u"
  by (auto simp: ephemeral_record_def)

lemma removal_records_ok:
  assumes "removal_records cr peak dict names rs0 a0 store = Ok (Inr (records, amount), store')"
    and "implements cr store led" and "names_ok cr (\<lambda>x. x) dict" and "distinct (map fst rs0 @ names)"
  shows "\<exists>us. records = rs0 @ zip names us \<and> length us = length names \<and> amount = a0 + amounts (map cr_coin us) \<and>
     list_all2 (\<lambda>n u. coin_name cr (cr_coin u) = Ok n \<and> pending_source peak dict led n u) names us"
  using assms(1,2,4)
proof (induction names arbitrary: rs0 a0 store)
  case Nil
  then show ?case by simp
next
  case (Cons n names)
  from get_coin_record_ledger [OF Cons.prems(2), of n] obtain s1 where
    s1: "get_coin_record cr store n = Ok (led n, s1)" "implements cr s1 led" by blast
  from Cons.prems(1) s1 obtain u where
    u: "(case map_of dict n of Some removal_coin \<Rightarrow> ephemeral_record peak removal_coin
         | None \<Rightarrow> unwrap AssertionError (led n)) = Ok u"
    and rest: "removal_records cr peak dict names (AList.update n u rs0) (a0 + coin_amount (cr_coin u)) s1
        = Ok (Inr (records, amount), store')"
    by (auto split: if_splits)
  have src: "pending_source peak dict led n u" using u by (auto simp: pending_source_def split: option.splits)
  have nm: "coin_name cr (cr_coin u) = Ok n"
  proof (cases "map_of dict n")
    case None
    with u show ?thesis using store_name [OF Cons.prems(2), of n u] by simp
  next
    case (Some coin)
    with u ephemeral_coin [of peak coin u] names_okD [OF assms(3) Some] show ?thesis by simp
  qed
  have upd: "AList.update n u rs0 = rs0 @ [(n, u)]" using Cons.prems(3) by (intro update_new) auto
  have "distinct (map fst (rs0 @ [(n, u)]) @ names)" using Cons.prems(3) by auto
  from Cons.IH [OF rest [unfolded upd] s1(2) this] obtain us where
    "records = (rs0 @ [(n, u)]) @ zip names us" "length us = length names"
    "amount = a0 + coin_amount (cr_coin u) + amounts (map cr_coin us)"
    "list_all2 (\<lambda>n u. coin_name cr (cr_coin u) = Ok n \<and> pending_source peak dict led n u) names us" by blast
  with src nm show ?case by (intro exI [of _ "u # us"]) simp
qed

lemma check_bundleD:
  assumes "check_bundle cr s r cost = Valid (additions, dict, added)"
  shows "npc_error r = None" "additions_for_npc cr (npc_list r) = Ok additions"
    "\<exists>names. rmap (coin_name cr) additions = Ok names \<and> distinct names \<and> dict = zip names additions"
    "added = amounts additions" "distinct (map npc_coin_name (npc_list r))"
    "cost \<le> py_int_of_float (limit_cost s)"
    "\<forall>coin\<in>set additions. 0 \<le> coin_amount coin \<and> coin_amount coin \<le> MAX_COIN_AMOUNT (mm_constants s)"
proof -
  from assms obtain names where n: "npc_error r = None" "additions_for_npc cr (npc_list r) = Ok additions"
    "rmap (coin_name cr) additions = Ok names" "vfold (addition_bound_step (mm_constants s)) additions 0 = Valid added"
    "distinct names" "distinct (map npc_coin_name (npc_list r))" "\<not> cost > py_int_of_float (limit_cost s)"
    "dict = foldl (\<lambda>d (n, a). AList.update n a d) [] (zip names additions)"
    by (auto simp: check_bundle_def Let_def split: option.splits)
  have "foldl (\<lambda>d (n, a). AList.update n a d) d (zip ns as) = d @ zip ns as" if "distinct (map fst d @ ns)"
    for d and ns :: "bytes list" and as :: "Coin list"
    using that
  proof (induction ns as arbitrary: d rule: list_induct2')
    case (4 n ns a as)
    then have "AList.update n a d = d @ [(n, a)]" by (intro update_new) auto
    with 4 show ?case by simp
  qed simp_all
  from this [of "[]"] n show "\<exists>names. rmap (coin_name cr) additions = Ok names \<and> distinct names \<and> dict = zip names additions"
    by simp
  have "vfold (addition_bound_step c) coins a = Valid b \<Longrightarrow> b = a + amounts coins" for c coins a b
    by (induction coins arbitrary: a) (fastforce simp: addition_bound_step_def)+
  from this [OF n(4)] show "added = amounts additions" by simp
  show "\<forall>coin\<in>set additions. 0 \<le> coin_amount coin \<and> coin_amount coin \<le> MAX_COIN_AMOUNT (mm_constants s)"
  proof
    fix coin assume "coin \<in> set additions"
    then show "0 \<le> coin_amount coin \<and> coin_amount coin \<le> MAX_COIN_AMOUNT (mm_constants s)"
      by (rule vfold_all [OF n(4)]) (auto simp: addition_bound_step_def)
  qed
qed (use assms in \<open>auto simp: check_bundle_def Let_def split: option.splits\<close>)

lemma names_ok_zip:
  assumes "rmap (coin_name cr) coins = Ok names"
  shows "names_ok cr (\<lambda>x. x) (zip names coins)"
proof -
  have "coin_name cr (coins ! i) = Ok (names ! i)" if "i < length coins" for i
    using rmap_nth [OF assms that] .
  then show ?thesis by (auto simp: names_ok_def in_set_zip dest!: map_of_SomeD)
qed

lemma check_feesD:
  assumes "check_fees cr s npcs cost added removed = Valid (fee, fpc)"
  shows "removed = added + fee" "0 \<le> fee" "cost \<noteq> 0" "fpc = fl fee cost"
    "\<exists>reserved. reserve_fees cr Ok npcs = Valid reserved \<and> reserved \<le> fee"
    "at_full_capacity (mm_mempool s) cost \<Longrightarrow> of_int (mm_nonzero_fee_minimum_fpc s) \<le> fpc \<and>
       (\<exists>m. get_min_fee_rate (mm_mempool s) cost = Ok m \<and> m < fpc)"
proof -
  show "removed = added + fee" "0 \<le> fee" "cost \<noteq> 0"
    "\<exists>reserved. reserve_fees cr Ok npcs = Valid reserved \<and> reserved \<le> fee"
    "at_full_capacity (mm_mempool s) cost \<Longrightarrow> of_int (mm_nonzero_fee_minimum_fpc s) \<le> fpc \<and>
       (\<exists>m. get_min_fee_rate (mm_mempool s) cost = Ok m \<and> m < fpc)"
    using assms by (auto simp: check_fees_def not_le not_less)
  have "cost \<noteq> 0 \<Longrightarrow> fpc = fl fee cost" using assms by (auto simp: check_fees_def py_truediv_fl)
  with \<open>cost \<noteq> 0\<close> show "fpc = fl fee cost" by simp
qed

section \<open>Conflicts\<close>

lemma check_removals_loop_ok:
  assumes "check_removals_loop cr pool us cs = Ok (reason, conflicts)" and "reason \<noteq> Some DOUBLE_SPEND"
    and "list_all2 (\<lambda>n u. coin_name cr (cr_coin u) = Ok n) ns us"
  shows "(\<forall>u\<in>set us. \<not> cr_spent u) \<and>
     conflicts = cs @ map cr_coin (map snd (filter (\<lambda>(n, u). map_of (mp_removals pool) n \<noteq> None) (zip ns us))) \<and>
     reason = (if conflicts = [] then None else Some MEMPOOL_CONFLICT)"
  using assms
proof (induction us arbitrary: cs ns)
  case (Cons u us)
  from Cons.prems(3) obtain n ns' where ns: "ns = n # ns'" "coin_name cr (cr_coin u) = Ok n"
    "list_all2 (\<lambda>n u. coin_name cr (cr_coin u) = Ok n) ns' us" by (auto simp: list_all2_Cons2)
  from Cons.prems ns Cons.IH [OF _ Cons.prems(2) ns(3)] show ?case by (fastforce split: if_splits)
qed (auto split: if_splits)

lemma remove_many:
  assumes "mempool_ok cr vm m" and "distinct (map fst d)" and "set d \<subseteq> set (mp_spends m)"
  shows "\<exists>m'. rfold (\<lambda>(n, i) pool. remove_from_pool cr vm pool i) d m = Ok m' \<and> mempool_ok cr vm m' \<and>
     set (mp_spends m') = set (mp_spends m) - set d \<and> mp_max_size_in_cost m' = mp_max_size_in_cost m \<and>
     mp_total_mempool_cost m' \<le> mp_total_mempool_cost m"
  using assms
proof (induction d arbitrary: m)
  case (Cons x d)
  obtain n i where x: "x = (n, i)" by (cases x)
  with Cons.prems have mem: "(n, i) \<in> set (mp_spends m)" by simp
  from remove_ok [OF Cons.prems(1) mem] obtain m1 where m1: "remove_from_pool cr vm m i = Ok m1" "mempool_ok cr vm m1"
    "mp_spends m1 = AList.delete n (mp_spends m)" "mp_max_size_in_cost m1 = mp_max_size_in_cost m"
    "mp_total_mempool_cost m1 = mp_total_mempool_cost m - mi_cost i" by blast
  note inv = mempool_okD [OF Cons.prems(1)]
  have "k = n \<longleftrightarrow> (k, j) = (n, i)" if "(k, j) \<in> set (mp_spends m)" for k j
    using that mem eq_key_imp_eq_value [OF inv(1)] by blast
  then have s1: "set (mp_spends m1) = set (mp_spends m) - {(n, i)}"
    unfolding m1(3) set_delete [OF inv(1)] by blast
  have "set d \<subseteq> set (mp_spends m1)" using Cons.prems(2,3) x unfolding s1 by force
  moreover have "0 < mi_cost i" using inv(2) [OF mem] by (simp add: item_ok_def)
  moreover note Cons.IH [OF m1(2)] Cons.prems(2)
  ultimately show ?case using m1 s1 x by auto
qed simp

lemma conflicting_items_ok:
  assumes "conflicting_items cr pool coins = Ok d" and ok: "mempool_ok cr vm pool" and "rmap (coin_name cr) coins = Ok ns"
  shows "distinct (map fst d) \<and> set d \<subseteq> set (mp_spends pool) \<and>
     (\<forall>i\<in>pool_items pool. (mi_name i, i) \<in> set d \<longleftrightarrow> spent_by cr i \<inter> set ns \<noteq> {})"
proof -
  note inv = mempool_okD [OF ok]
  let ?f = "\<lambda>n d. rbind (unwrap KeyError (map_of (mp_removals pool) n)) (\<lambda>sb. Ok (AList.update (mi_name sb) sb d))"
  have found: "map_of (mp_removals pool) n = Some i \<longleftrightarrow> i \<in> pool_items pool \<and> n \<in> spent_by cr i" for n i
    using inv(3) by (simp add: index_ok_def)
  have entry: "(mi_name i, i) \<in> set (mp_spends pool)" if "i \<in> pool_items pool" for i
    using that inv(2) by (auto simp: pool_items_def)
  have "distinct (map fst d) \<and> set d \<subseteq> set (mp_spends pool) \<and>
      set d = set d0 \<union> {(mi_name i, i) |i. \<exists>n\<in>set ns. map_of (mp_removals pool) n = Some i}"
    if "rfold ?f ns d0 = Ok d" "distinct (map fst d0)" "set d0 \<subseteq> set (mp_spends pool)" for d0
    using that
  proof (induction ns arbitrary: d0)
    case (Cons n ns)
    from Cons.prems(1) obtain i where i: "map_of (mp_removals pool) n = Some i"
      "rfold ?f ns (AList.update (mi_name i) i d0) = Ok d" by auto
    have mem: "(mi_name i, i) \<in> set (mp_spends pool)" using i(1) found entry by blast
    have set_upd: "set (AList.update (mi_name i) i d0) = insert (mi_name i, i) (set d0)"
    proof (cases "mi_name i \<in> fst ` set d0")
      case True
      then obtain j where j: "(mi_name i, j) \<in> set d0" by auto
      with Cons.prems(3) mem inv(1) have "j = i" by (meson eq_key_imp_eq_value subsetD)
      with j have "map_of d0 (mi_name i) = Some i" using Cons.prems(2) by (simp add: map_of_is_SomeI)
      then show ?thesis using j \<open>j = i\<close> by (auto simp: update_triv)
    next
      case False
      then show ?thesis by (simp add: update_new)
    qed
    have "set (AList.update (mi_name i) i d0) \<subseteq> set (mp_spends pool)" using set_upd mem Cons.prems(3) by simp
    from Cons.IH [OF i(2) distinct_update [OF Cons.prems(2)] this] show ?case
      unfolding set_upd using i(1) by auto
  qed simp
  note run = this
  have "rfold ?f ns [] = Ok d"
    using assms(1) rfold_named [OF assms(3), of ?f] by (simp add: conflicting_items_def)
  from run [OF this, simplified] have r: "distinct (map fst d)" "set d \<subseteq> set (mp_spends pool)"
    "set d = {(mi_name i, i) |i. \<exists>n\<in>set ns. map_of (mp_removals pool) n = Some i}"
    by blast+
  have "(mi_name i, i) \<in> set d \<longleftrightarrow> spent_by cr i \<inter> set ns \<noteq> {}" if "i \<in> pool_items pool" for i
    using that by (auto simp: r(3) found)
  with r show ?thesis by blast
qed

section \<open>Fresh coins\<close>

text \<open>The result of running a bundle's generator agrees with running its puzzles one by one: it spends the
  same coins and creates the same coins.\<close>

definition results_agree :: "crypto \<Rightarrow> 's clvm \<Rightarrow> SpendBundle \<Rightarrow> NPCResult \<Rightarrow> bool" where
  "results_agree cr vm sb r \<longleftrightarrow>
     (\<exists>as. sb_additions cr vm sb = Ok as \<and>
        (\<forall>bs. additions_for_npc cr (npc_list r) = Ok bs \<longrightarrow> mset bs = mset as)) \<and>
     (\<exists>rs. rmap (coin_name cr) (sb_removals sb) = Ok rs \<and> mset rs = mset (map npc_coin_name (npc_list r)))"

text \<open>No two different coins of \<open>U\<close> have the same id.\<close>

definition distinct_ids :: "crypto \<Rightarrow> Coin set \<Rightarrow> bool" where
  "distinct_ids cr U \<longleftrightarrow> (\<forall>a\<in>U. \<forall>b\<in>U. \<forall>n. coin_name cr a = Ok n \<and> coin_name cr b = Ok n \<longrightarrow> a = b)"

definition created_by :: "crypto \<Rightarrow> 's clvm \<Rightarrow> SpendBundle \<Rightarrow> Coin set" where
  "created_by cr vm sb = (case sb_additions cr vm sb of Some (Inr as) \<Rightarrow> set as | _ \<Rightarrow> {})"

lemma rmap_mem:
  assumes "rmap f xs = Ok ys"
  shows "y \<in> set ys \<longleftrightarrow> (\<exists>x\<in>set xs. f x = Ok y)"
  using assms by (induction xs arbitrary: ys) auto

lemma created_parents:
  assumes "sb_additions cr vm sb = Ok as" and "rmap (coin_name cr) (sb_removals sb) = Ok rs" and "coin \<in> set as"
  shows "parent_coin_info coin \<in> set rs"
proof -
  from assms(1) obtain css where css: "rmap (coin_spend_additions cr vm) (sb_coin_spends sb) = Ok css" "as = concat css"
    by (auto simp: sb_additions_def)
  with assms(3) obtain cs where cs: "cs \<in> set css" "coin \<in> set cs" by auto
  from cs(1) rmap_mem [OF css(1)] obtain sp where sp: "sp \<in> set (sb_coin_spends sb)" "coin_spend_additions cr vm sp = Ok cs"
    by blast
  then obtain n where n: "coin_name cr (cs_coin sp) = Ok n"
    and a: "additions_for_solution cr vm n (cs_puzzle_reveal sp) (cs_solution sp) INFINITE_COST = Ok cs"
    by (auto simp: coin_spend_additions_def)
  from a cs(2) obtain dic where "created_outputs_for_conditions_dict cr dic n = Ok cs"
    by (auto simp: additions_for_solution_def split: sum.splits)
  then have "\<exists>c. created_output cr n c = Ok coin"
    using cs(2) rmap_mem unfolding created_outputs_for_conditions_dict_def by fastforce
  then have "parent_coin_info coin = n" by (auto simp: created_output_def make_coin_def)
  moreover have "n \<in> set rs" using rmap_mem [OF assms(2), of n] sp(1) n by (auto simp: sb_removals_def)
  ultimately show ?thesis by simp
qed

text \<open>Items that spend different coins create different coins.\<close>

lemma made_disjoint:
  assumes "item_ok cr vm i" "item_ok cr vm j" and "spent_by cr i \<inter> spent_by cr j = {}"
    and "distinct_ids cr U" "created_by cr vm (mi_spend_bundle i) \<subseteq> U" "created_by cr vm (mi_spend_bundle j) \<subseteq> U"
  shows "made_by cr vm i \<inter> made_by cr vm j = {}"
proof (rule ccontr)
  assume "\<not> ?thesis"
  then obtain n where n: "n \<in> made_by cr vm i" "n \<in> made_by cr vm j" by blast
  have pick: "\<exists>c. coin_name cr c = Ok n \<and> c \<in> created_by cr vm (mi_spend_bundle k) \<and> parent_coin_info c \<in> spent_by cr k"
    if "item_ok cr vm k" "n \<in> made_by cr vm k" for k
  proof -
    from that(1) obtain rs ns where rs: "removal_names cr k = Ok rs" and ns: "addition_names cr vm k = Ok ns"
      by (auto simp: item_ok_def)
    from ns obtain as where as: "sb_additions cr vm (mi_spend_bundle k) = Ok as" "rmap (coin_name cr) as = Ok ns"
      by (auto simp: addition_names_def)
    from that(2) ns rmap_mem [OF as(2), of n] obtain c where c: "c \<in> set as" "coin_name cr c = Ok n" by auto
    with created_parents [OF as(1) rs [unfolded removal_names_def] c(1)] as(1) rs show ?thesis
      by (auto simp: created_by_def)
  qed
  from pick [OF assms(1) n(1)] pick [OF assms(2) n(2)] assms(3-6) show False
    unfolding distinct_ids_def by blast
qed

section \<open>What an addition leaves unchanged\<close>

definition settings_kept :: "MempoolManager \<Rightarrow> MempoolManager \<Rightarrow> bool" where
  "settings_kept s s' \<longleftrightarrow> mm_constants s' = mm_constants s \<and> mm_limit_factor s' = mm_limit_factor s \<and>
     mm_mempool_max_total_cost s' = mm_mempool_max_total_cost s"

lemma settings_kept_refl [simp]: "settings_kept s s"
  by (simp add: settings_kept_def)

definition potential_items :: "MempoolManager \<Rightarrow> MempoolItem set" where
  "potential_items s = snd ` set (mm_potential_txs s)"

definition outcome :: "crypto \<Rightarrow> ledger \<Rightarrow> SpendBundle \<Rightarrow> NPCResult \<Rightarrow> MempoolManager \<Rightarrow> add_result \<Rightarrow> bool" where
  "outcome cr led sb r s = (\<lambda>((c, st, e), s').
     settings_kept s s' \<and> implements cr (mm_coin_store s') led \<and>
     (\<forall>i\<in>potential_items s'. i \<in> potential_items s \<or> mi_spend_bundle i = sb \<and> mi_npc_result i = r) \<and>
     (st \<noteq> SUCCESS \<longrightarrow> mm_mempool s' = mm_mempool s))"

lemma pop_potential_sub: "pop_potential c m txs = Ok (m', txs') \<Longrightarrow> set txs' \<subseteq> set txs"
proof (induction txs arbitrary: m)
  case (Cons x txs)
  obtain n i where x: "x = (n, i)" by (cases x)
  show ?case
  proof (cases "c > m")
    case True
    with Cons.prems x have "pop_potential c (m - mi_cost i) txs = Ok (m', txs')"
      by (simp add: pop_potential.simps [of c m "(n, i) # txs"])
    from Cons.IH [OF this] show ?thesis by auto
  next
    case False
    with Cons.prems show ?thesis by (simp add: pop_potential.simps [of c m "x # txs"])
  qed
qed (simp add: pop_potential.simps [of _ _ "[]"] split: if_splits)

lemma keep_pending_outcome [ensures_rules]:
  assumes "implements cr (mm_coin_store s1) led" "settings_kept s s1" "mm_mempool s1 = mm_mempool s"
    "mm_potential_txs s1 = mm_potential_txs s" "mi_spend_bundle item = sb" "mi_npc_result item = r"
  shows "ensures (outcome cr led sb r s) (keep_pending s1 item e)"
proof (rule ensuresI)
  fix x assume k: "keep_pending s1 item e = Ok x"
  obtain s2 where s2: "add_to_potential_tx_set s1 item = Ok s2" "x = ((Some (mi_cost item), PENDING, Some e), s2)"
    using k by (auto simp: keep_pending_def)
  have "mm_mempool s2 = mm_mempool s" "settings_kept s s2" "implements cr (mm_coin_store s2) led"
    using s2(1) assms(1-3) by (auto simp: add_to_potential_tx_set_def Let_def settings_kept_def split: if_splits)
  moreover have "i \<in> potential_items s \<or> mi_spend_bundle i = sb \<and> mi_npc_result i = r" if i: "i \<in> potential_items s2" for i
  proof (cases "map_of (mm_potential_txs s1) (mi_spend_bundle_name item) = None")
    case True
    with s2(1) obtain m txs where p: "pop_potential (mm_potential_cache_cost s1 + mi_cost item)
        (mm_potential_cache_max_total_cost s1) (AList.update (mi_spend_bundle_name item) item (mm_potential_txs s1)) = Ok (m, txs)"
      and txs: "mm_potential_txs s2 = txs"
      by (auto simp: add_to_potential_tx_set_def Let_def)
    have "AList.update (mi_spend_bundle_name item) item (mm_potential_txs s1)
        = mm_potential_txs s1 @ [(mi_spend_bundle_name item, item)]"
      using True by (intro update_new) (simp add: map_of_eq_None_iff)
    with pop_potential_sub [OF p] have "snd ` set txs \<subseteq> snd ` set (mm_potential_txs s1 @ [(mi_spend_bundle_name item, item)])"
      by (intro image_mono) simp
    with i txs have "i \<in> snd ` set (mm_potential_txs s1 @ [(mi_spend_bundle_name item, item)])"
      unfolding potential_items_def by blast
    with assms(4-6) show ?thesis by (auto simp: potential_items_def)
  next
    case False
    with s2(1) i assms(4) show ?thesis by (simp add: add_to_potential_tx_set_def potential_items_def)
  qed
  ultimately show "outcome cr led sb r s x" by (simp add: outcome_def s2(2))
qed

lemma failed_outcome [ensures_rules]:
  assumes "implements cr (mm_coin_store s1) led" "settings_kept s s1" "mm_mempool s1 = mm_mempool s"
    "mm_potential_txs s1 = mm_potential_txs s"
  shows "ensures (outcome cr led sb r s) (failed e s1)"
  using assms by (simp add: ensures_def outcome_def potential_items_def)

lemma admit_outcome [ensures_rules]:
  assumes "implements cr (mm_coin_store s1) led" "settings_kept s s1" "mm_mempool s1 = mm_mempool s"
    "mm_potential_txs s1 = mm_potential_txs s" "mi_spend_bundle item = sb" "mi_npc_result item = r"
  shows "ensures (outcome cr led sb r s) (admit cr vm now s1 peak item records vs conflicting)"
  unfolding admit_def
  by (intro ensures_rules assms) (use assms in \<open>simp add: outcome_def potential_items_def settings_kept_def\<close>)

lemma add_outcome:
  assumes "implements cr (mm_coin_store s) led"
  shows "ensures (outcome cr led sb r s) (add_spendbundle cr vm bin now s sb r name vs prog)"
  unfolding add_spendbundle_def Let_def
proof (rule ensures_case_option, goal_cases)
  case 1
  then show ?case by (intro ensures_rules assms) simp_all
next
  case (2 peak)
  have facts: "implements cr (mm_coin_store (s\<lparr>mm_coin_store := store\<rparr>)) led"
    if "removal_records cr peak dict names [] 0 (mm_coin_store s) = Ok (res, store)" for dict names res store
    using removal_records_store [OF that assms] by simp
  have same: "settings_kept s (s\<lparr>mm_coin_store := store\<rparr>)" "mm_mempool (s\<lparr>mm_coin_store := store\<rparr>) = mm_mempool s"
    "mm_potential_txs (s\<lparr>mm_coin_store := store\<rparr>) = mm_potential_txs s" for store
    by (simp_all add: settings_kept_def)
  show ?case
    apply (rule ensures_rbind)+
    apply (rule ensures_case_sum)
     apply (rule failed_outcome; simp add: assms)
    apply (rule ensures_case_prod)+
    apply (rule ensures_If)
     apply (rule ensures_Ok)
     apply (simp add: outcome_def assms)
    apply (rule ensures_rbind, rule ensures_case_prod, hypsubst)
    apply (drule facts)
    apply (rule ensures_case_sum)
     apply (rule failed_outcome; (assumption | rule same))
    apply (rule ensures_case_prod, rule ensures_rbind, rule ensures_case_sum)
     apply (rule failed_outcome; (assumption | rule same))
    apply (rule ensures_case_prod, rule ensures_rbind, rule ensures_case_prod, rule ensures_If)
     apply ((rule ensures_rbind)+, rule ensures_If)
      apply (rule admit_outcome; (assumption | rule same | simp))
     apply (rule keep_pending_outcome; (assumption | rule same | simp))
    apply (rule ensures_case_option)
     apply (rule admit_outcome; (assumption | rule same | simp))
    apply (rule failed_outcome; (assumption | rule same))
    done
qed

section \<open>What a successful addition spends\<close>

text \<open>The coin of a spend of an accepted bundle: it is created by the bundle itself or is an unspent coin of the
  chain, its puzzle is the revealed one, and the conditions of the spend hold at the peak.\<close>

definition pending_spend ::
    "crypto \<Rightarrow> int \<Rightarrow> ledger \<Rightarrow> BlockRecord \<Rightarrow> NPC list \<Rightarrow> Coin list \<Rightarrow> NPC \<Rightarrow> CoinRecord \<Rightarrow> bool" where
  "pending_spend cr now led peak npcs additions npc u \<longleftrightarrow>
     coin_name cr (cr_coin u) = Ok (npc_coin_name npc) \<and> \<not> cr_spent u \<and>
     (cr_coin u \<in> set additions \<or> led (npc_coin_name npc) = Some u) \<and>
     coin_puzzle_hash (cr_coin u) = npc_puzzle_hash npc \<and>
     (\<exists>cn pn t. coin_announcements_names_for_npc cr npcs = Ok cn \<and> puzzle_announcements_names_for_npc cr npcs = Ok pn \<and>
        timestamp peak = Some t \<and>
        mempool_check_conditions_dict cr now u cn pn (condition_dict npc)
          (if is_transaction_block peak then height peak else prev_transaction_block_height peak) (Some t) = Ok None)"

lemma check_conditionsD:
  assumes "check_conditions cr now c peak npcs records vs = Valid pairs" and "npc \<in> set npcs"
    and "map_of records (npc_coin_name npc) = Some u"
  shows "coin_puzzle_hash (cr_coin u) = npc_puzzle_hash npc \<and>
     (\<exists>cn pn t. coin_announcements_names_for_npc cr npcs = Ok cn \<and> puzzle_announcements_names_for_npc cr npcs = Ok pn \<and>
        timestamp peak = Some t \<and>
        mempool_check_conditions_dict cr now u cn pn (condition_dict npc)
          (if is_transaction_block peak then height peak else prev_transaction_block_height peak) (Some t) = Ok None)"
proof -
  from assms(1) obtain cn pn where n: "coin_announcements_names_for_npc cr npcs = Ok cn"
    "puzzle_announcements_names_for_npc cr npcs = Ok pn"
    "vfold (spend_conditions_step cr now c peak cn pn records vs) npcs [] = Valid pairs"
    by (auto simp: check_conditions_def)
  have "coin_puzzle_hash (cr_coin u) = npc_puzzle_hash npc \<and> (\<exists>t. timestamp peak = Some t \<and>
        mempool_check_conditions_dict cr now u cn pn (condition_dict npc)
          (if is_transaction_block peak then height peak else prev_transaction_block_height peak) (Some t) = Ok None)"
    by (rule vfold_all [OF n(3) assms(2)])
       (auto simp: spend_conditions_step_def assms(3) Let_def split: option.splits)
  with n show ?thesis by blast
qed

lemma bundle_records:
  assumes "check_bundle cr s r cost = Valid (additions, dict, added)"
    and "removal_records cr peak dict (map npc_coin_name (npc_list r)) [] 0 store = Ok (Inr (records, removed), store')"
    and "implements cr store led"
  obtains us where "records = zip (map npc_coin_name (npc_list r)) us" "length us = length (npc_list r)"
    "removed = amounts (map cr_coin us)"
    "list_all2 (\<lambda>n u. coin_name cr (cr_coin u) = Ok n \<and> pending_source peak dict led n u)
       (map npc_coin_name (npc_list r)) us"
proof -
  note d = check_bundleD [OF assms(1)]
  from d(3) obtain names where n: "rmap (coin_name cr) additions = Ok names" "dict = zip names additions" by blast
  have "distinct (map fst [] @ map npc_coin_name (npc_list r))" using d(5) by simp
  from removal_records_ok [OF assms(2,3) names_ok_zip [OF n(1), folded n(2)] this] that show ?thesis by auto
qed

lemma add_success_spends:
  assumes "add_spendbundle cr vm bin now s sb r name vs prog = Ok ((c, SUCCESS, e), s')"
    and "map_of (mp_spends (mm_mempool s)) name = None" and "implements cr (mm_coin_store s) led"
  shows "\<exists>peak cost fee additions us. mm_peak s = Some peak \<and> c = Some cost \<and> e = None \<and>
     cost \<le> py_int_of_float (limit_cost s) \<and> npc_error r = None \<and>
     additions_for_npc cr (npc_list r) = Ok additions \<and>
     (\<exists>names. rmap (coin_name cr) additions = Ok names \<and> distinct names) \<and>
     distinct (map npc_coin_name (npc_list r)) \<and>
     list_all2 (pending_spend cr now led peak (npc_list r) additions) (npc_list r) us \<and>
     amounts (map cr_coin us) = amounts additions + fee \<and>
     (\<exists>reserved. reserve_fees cr Ok (npc_list r) = Valid reserved \<and> reserved \<le> fee)"
proof -
  obtain peak cost additions dict added records removed store fee fpc reason conflicts pairs where
    p: "mm_peak s = Some peak" and b: "check_bundle cr s r cost = Valid (additions, dict, added)"
    and rr: "removal_records cr peak dict (map npc_coin_name (npc_list r)) [] 0 (mm_coin_store s)
       = Ok (Inr (records, removed), store)"
    and f: "check_fees cr (s\<lparr>mm_coin_store := store\<rparr>) (npc_list r) cost added removed = Valid (fee, fpc)"
    and l: "check_removals_loop cr (mm_mempool s) (map snd records) [] = Ok (reason, conflicts)"
    and re: "reason \<noteq> Some DOUBLE_SPEND"
    and cc: "check_conditions cr now (mm_constants s) peak (npc_list r) records vs = Valid pairs"
    and ce: "c = Some cost" "e = None"
    by (rule add_successE [OF assms(1,2)]) force
  note d = check_bundleD [OF b]
  let ?ns = "map npc_coin_name (npc_list r)"
  from bundle_records [OF b rr assms(3)] obtain us where us: "records = zip ?ns us" "length us = length (npc_list r)"
    "removed = amounts (map cr_coin us)"
    "list_all2 (\<lambda>n u. coin_name cr (cr_coin u) = Ok n \<and> pending_source peak dict led n u) ?ns us" .
  from d(3) obtain names where n: "rmap (coin_name cr) additions = Ok names" "distinct names" "dict = zip names additions"
    by blast
  have snd: "map snd records = us" using us(1,2) by simp
  have "list_all2 (\<lambda>n u. coin_name cr (cr_coin u) = Ok n) ?ns us" using us(4) by (rule list_all2_mono) simp
  from check_removals_loop_ok [OF l re] snd this
  have unspent: "\<forall>u\<in>set us. \<not> cr_spent u" by fastforce
  have "list_all2 (pending_spend cr now led peak (npc_list r) additions) (npc_list r) us"
  proof (rule list_all2_all_nthI)
    show "length (npc_list r) = length us" using us(2) by simp
    fix i assume i: "i < length (npc_list r)"
    let ?npc = "npc_list r ! i"
    have src: "coin_name cr (cr_coin (us ! i)) = Ok (npc_coin_name ?npc)" "pending_source peak dict led (npc_coin_name ?npc) (us ! i)"
      using us(4) i by (auto simp: list_all2_conv_all_nth)
    have look: "map_of records (npc_coin_name ?npc) = Some (us ! i)"
    proof (rule map_of_is_SomeI)
      show "distinct (map fst records)" using us(1,2) d(5) by simp
      show "(npc_coin_name ?npc, us ! i) \<in> set records" using us(1,2) i by (auto simp: in_set_zip intro!: exI [of _ i])
    qed
    have "cr_coin (us ! i) \<in> set additions \<or> led (npc_coin_name ?npc) = Some (us ! i)"
    proof (cases "map_of dict (npc_coin_name ?npc)")
      case None
      with src(2) show ?thesis by (simp add: pending_source_def)
    next
      case (Some coin)
      then have "coin \<in> set additions" using n(3) by (auto dest!: map_of_SomeD elim: in_set_zipE)
      with Some src(2) ephemeral_coin [of peak coin "us ! i"] show ?thesis by (simp add: pending_source_def)
    qed
    with src(1) check_conditionsD [OF cc _ look] i unspent us(2)
    show "pending_spend cr now led peak (npc_list r) additions ?npc (us ! i)"
      unfolding pending_spend_def by force
  qed
  moreover have "amounts (map cr_coin us) = amounts additions + fee"
    using check_feesD(1) [OF f] d(4) us(3) by simp
  ultimately show ?thesis using p ce d n check_feesD(5) [OF f] by blast
qed

section \<open>The pool after a successful addition\<close>

lemma conflict_totals_ok:
  assumes "conflict_totals cr records items f c = Ok (Some (f', c'))"
  shows "f' = f + sum_list (map mi_fee items)" "c' = c + sum_list (map mi_cost items)"
  using assms by (induction items arbitrary: f c) (force split: if_splits)+

text \<open>What a replacement pays: a rate above that of the replaced items together, and at least 10000 more.\<close>

definition outbids :: "int \<Rightarrow> int \<Rightarrow> MempoolItem list \<Rightarrow> bool" where
  "outbids fee cost items \<longleftrightarrow>
     sum_list (map mi_fee items) + 10000 \<le> fee \<and>
     sum_list (map mi_fee items) * cost < fee * sum_list (map mi_cost items)"

lemma can_replace_outbids:
  assumes "can_replace cr conflicting records fee (fl fee cost) = Ok True" and "0 < cost" "0 \<le> fee"
    and "\<forall>(n, i)\<in>set conflicting. 0 < mi_cost i \<and> 0 \<le> mi_fee i" and "conflicting \<noteq> []"
  shows "outbids fee cost (map snd conflicting)"
proof -
  let ?items = "map snd conflicting" let ?F = "sum_list (map mi_fee ?items)" let ?C = "sum_list (map mi_cost ?items)"
  from assms(1) obtain f c q where t: "conflict_totals cr records ?items 0 0 = Ok (Some (f, c))"
    "py_truediv f c = Ok q" "q < fl fee cost" "10000 \<le> fee - f"
    by (auto simp: can_replace_def get_min_fee_increase_def not_le not_less split: option.splits if_splits)
  note fc = conflict_totals_ok [OF t(1), simplified]
  have F: "0 \<le> ?F" using assms(4) by (intro sum_list_nonneg) auto
  have C: "0 < ?C"
  proof -
    obtain n i rest where c: "conflicting = (n, i) # rest" using assms(5) by (cases conflicting) auto
    have "0 \<le> sum_list (map mi_cost (map snd rest))" using assms(4) c by (intro sum_list_nonneg) force
    moreover have "0 < mi_cost i" using assms(4) c by auto
    ultimately show ?thesis using c by simp
  qed
  have "fl ?F ?C < fl fee cost" using t(2,3) C fc by (simp add: py_truediv_fl)
  from fl_less_cross [OF F C assms(3,2) this] t(4) fc show ?thesis by (simp add: outbids_def)
qed

lemma zip_names:
  assumes "list_all2 (\<lambda>n u. coin_name cr (cr_coin u) = Ok n \<and> Q n u) ns us"
  shows "rmap (coin_name cr) (map cr_coin (map snd (filter (\<lambda>(n, u). P n) (zip ns us)))) = Ok (filter P ns)"
  using assms by (induction rule: list_all2_induct) simp_all

lemma add_success_pool:
  assumes add: "add_spendbundle cr vm bin now s sb r name vs prog = Ok ((c, SUCCESS, e), s')"
    and new: "map_of (mp_spends (mm_mempool s)) name = None" and imp: "implements cr (mm_coin_store s) led"
    and ok: "mempool_ok cr vm (mm_mempool s)" and agree: "results_agree cr vm sb r"
    and ids: "distinct_ids cr U" "created_by cr vm sb \<subseteq> U"
      "\<forall>j\<in>pool_items (mm_mempool s). created_by cr vm (mi_spend_bundle j) \<subseteq> U"
    and fits: "py_int_of_float (limit_cost s) \<le> mp_max_size_in_cost (mm_mempool s)"
  obtains i conflicting m1 where "mi_name i = name" "mi_spend_bundle i = sb" "mi_npc_result i = r"
    "mempool_ok cr vm (mm_mempool s')" "mp_max_size_in_cost (mm_mempool s') = mp_max_size_in_cost (mm_mempool s)"
    "set conflicting = {j \<in> pool_items (mm_mempool s). spent_by cr j \<inter> spent_by cr i \<noteq> {}}"
    "conflicting = [] \<or> outbids (mi_fee i) (mi_cost i) conflicting"
    "mempool_ok cr vm m1" "pool_items m1 = pool_items (mm_mempool s) - set conflicting"
    "mp_max_size_in_cost m1 = mp_max_size_in_cost (mm_mempool s)"
    "\<exists>m2. evict cr vm (mi_cost i) m1 = Ok m2 \<and> evicted (mi_cost i) m1 m2 \<and>
       pool_items (mm_mempool s') = insert i (pool_items m2) \<and> pool_items m2 \<subseteq> pool_items m1"
    "c = Some (mi_cost i)" "item_ok cr vm i"
    "at_full_capacity (mm_mempool s) (mi_cost i) \<Longrightarrow> \<exists>q. get_min_fee_rate (mm_mempool s) (mi_cost i) = Ok q \<and> q < rate i"
proof -
  let ?pool = "mm_mempool s" let ?ns = "map npc_coin_name (npc_list r)"
  obtain peak cost additions dict added records removed store fee fpc reason conflicts conflicting i pool1 pool2 where
    cp: "calculate_cost_of_program (case prog of None \<Rightarrow> bg_program (simple_solution_generator bin sb) | Some p \<Rightarrow> p) r
       (COST_PER_BYTE (mm_constants s)) = Ok cost" and
    b: "check_bundle cr s r cost = Valid (additions, dict, added)" and
    rr: "removal_records cr peak dict ?ns [] 0 (mm_coin_store s) = Ok (Inr (records, removed), store)" and
    f: "check_fees cr (s\<lparr>mm_coin_store := store\<rparr>) (npc_list r) cost added removed = Valid (fee, fpc)" and
    l: "check_removals_loop cr ?pool (map snd records) [] = Ok (reason, conflicts)" and
    conf: "reason = None \<and> conflicting = [] \<or>
     reason = Some MEMPOOL_CONFLICT \<and> conflicting_items cr ?pool conflicts = Ok conflicting \<and>
       can_replace cr conflicting records fee fpc = Ok True" and
    i: "i = \<lparr>mi_spend_bundle = sb, mi_fee = fee, mi_npc_result = r, mi_cost = cost,
       mi_spend_bundle_name = name, mi_additions = additions, mi_removals = map (\<lambda>(n, u). cr_coin u) records,
       mi_program = (case prog of None \<Rightarrow> bg_program (simple_solution_generator bin sb) | Some p \<Rightarrow> p)\<rparr>" and
    rm: "rfold (\<lambda>(n, mempool_item) pool. remove_from_pool cr vm pool mempool_item) conflicting ?pool = Ok pool1" and
    ad: "add_to_pool cr vm pool1 i additions records = Ok pool2" and
    s': "s' = s\<lparr>mm_coin_store := store, mm_mempool := pool2\<rparr>" and c: "c = Some cost"
    by (rule add_successE [OF add new]) blast
  note d = check_bundleD [OF b] and fd = check_feesD [OF f] and inv = mempool_okD [OF ok]
  from bundle_records [OF b rr imp] obtain us where us: "records = zip ?ns us" "length us = length (npc_list r)"
    "list_all2 (\<lambda>n u. coin_name cr (cr_coin u) = Ok n \<and> pending_source peak dict led n u) ?ns us" .
  from agree obtain as rs where as: "sb_additions cr vm sb = Ok as" "mset additions = mset as"
    and rs: "rmap (coin_name cr) (sb_removals sb) = Ok rs" "mset rs = mset ?ns"
    using d(2) by (auto simp: results_agree_def)
  from d(3) obtain names where n: "rmap (coin_name cr) additions = Ok names" "distinct names" by blast
  have "\<exists>y. coin_name cr x = Ok y" if "x \<in> set additions" for x
    using n(1) that by (induction additions arbitrary: names) auto
  with rmap_mset [OF as(2), of "coin_name cr"] n(1) obtain ns where ns: "rmap (coin_name cr) as = Ok ns" "mset ns = mset names" by auto
  have cost: "0 < cost" using fd(3) cp by (auto simp: calculate_cost_of_program_def)
  have fields: "mi_spend_bundle i = sb" "mi_fee i = fee" "mi_npc_result i = r" "mi_cost i = cost" "mi_name i = name"
    by (simp_all add: i mi_name_def)
  have rn: "removal_names cr i = Ok rs" "addition_names cr vm i = Ok ns"
    by (simp_all add: removal_names_def addition_names_def fields rs(1) as(1) ns(1))
  have iok: "item_ok cr vm i"
  proof -
    have "distinct rs" "distinct ns"
      using n(2) d(5) mset_eq_imp_distinct_iff [OF rs(2)] mset_eq_imp_distinct_iff [OF ns(2)] by blast+
    with rn cost fd(2) show ?thesis unfolding item_ok_def fields by blast
  qed
  have spent: "spent_by cr i = set ?ns" unfolding rn(1) names_in_Ok by (rule mset_eq_setD [OF rs(2)])
  have made: "set names = made_by cr vm i" unfolding rn(2) names_in_Ok by (rule mset_eq_setD [OF ns(2) [symmetric]])
  have re: "reason \<noteq> Some DOUBLE_SPEND" using conf by auto
  have snd: "map snd records = us" using us(1,2) by simp
  have nm: "list_all2 (\<lambda>n u. coin_name cr (cr_coin u) = Ok n) ?ns us" using us(3) by (rule list_all2_mono) simp
  let ?hit = "\<lambda>n. map_of (mp_removals ?pool) n \<noteq> None"
  have cs: "rmap (coin_name cr) conflicts = Ok (filter ?hit ?ns)"
    and none: "reason = None \<longleftrightarrow> conflicts = []"
    using check_removals_loop_ok [OF l re nm [folded snd]] zip_names [OF us(3), of ?hit] snd
    by (auto simp: case_prod_unfold split: if_splits)
  have hits: "spent_by cr j \<inter> set (filter ?hit ?ns) = spent_by cr j \<inter> spent_by cr i" if "j \<in> pool_items ?pool" for j
    using that inv(3) unfolding spent index_ok_def by auto
  have confl: "distinct (map fst conflicting) \<and> set conflicting \<subseteq> set (mp_spends ?pool) \<and>
     (\<forall>j\<in>pool_items ?pool. (mi_name j, j) \<in> set conflicting \<longleftrightarrow> spent_by cr j \<inter> spent_by cr i \<noteq> {})"
  proof (cases "reason = None")
    case True
    with none cs have "filter ?hit ?ns = []" by simp
    then have "set (filter ?hit ?ns) = {}" by (simp only: list.set)
    then have "spent_by cr j \<inter> spent_by cr i = {}" if "j \<in> pool_items ?pool" for j
      using hits [OF that] by simp
    with True conf show ?thesis by simp
  next
    case False
    with conf have "conflicting_items cr ?pool conflicts = Ok conflicting" by simp
    from conflicting_items_ok [OF this ok cs] hits show ?thesis by simp
  qed
  have pair: "(k, j) \<in> set (mp_spends ?pool) \<Longrightarrow> k = mi_name j \<and> item_ok cr vm j" for k j using inv(2) .
  have csub: "set conflicting \<subseteq> set (mp_spends ?pool)" using confl by blast
  have sconf: "snd ` set conflicting = {j \<in> pool_items ?pool. spent_by cr j \<inter> spent_by cr i \<noteq> {}}"
  proof (intro equalityI subsetI)
    fix j assume "j \<in> snd ` set conflicting"
    then obtain k where k: "(k, j) \<in> set conflicting" by auto
    with csub have m: "(k, j) \<in> set (mp_spends ?pool)" by blast
    with pair [OF m] k have "(mi_name j, j) \<in> set conflicting" "j \<in> pool_items ?pool"
      by (auto simp: pool_items_def intro!: rev_image_eqI)
    with confl show "j \<in> {j \<in> pool_items ?pool. spent_by cr j \<inter> spent_by cr i \<noteq> {}}" by blast
  next
    fix j assume "j \<in> {j \<in> pool_items ?pool. spent_by cr j \<inter> spent_by cr i \<noteq> {}}"
    with confl have "(mi_name j, j) \<in> set conflicting" by blast
    then show "j \<in> snd ` set conflicting" by force
  qed
  from remove_many [OF ok, of conflicting] confl rm have p1: "mempool_ok cr vm pool1"
    "set (mp_spends pool1) = set (mp_spends ?pool) - set conflicting" "mp_max_size_in_cost pool1 = mp_max_size_in_cost ?pool"
    by auto
  have items1: "pool_items pool1 = pool_items ?pool - snd ` set conflicting"
  proof (intro equalityI subsetI)
    fix j assume "j \<in> pool_items pool1"
    then obtain k where k: "(k, j) \<in> set (mp_spends ?pool)" "(k, j) \<notin> set conflicting"
      using p1(2) by (auto simp: pool_items_def)
    have "(k', j) \<notin> set conflicting" for k'
    proof
      assume k': "(k', j) \<in> set conflicting"
      with csub have "(k', j) \<in> set (mp_spends ?pool)" by blast
      from pair [OF this] pair [OF k(1)] k(2) k' show False by simp
    qed
    with k show "j \<in> pool_items ?pool - snd ` set conflicting" by (force simp: pool_items_def)
  next
    fix j assume "j \<in> pool_items ?pool - snd ` set conflicting"
    then show "j \<in> pool_items pool1" by (force simp: pool_items_def p1(2))
  qed
  have disj: "spent_by cr j \<inter> spent_by cr i = {}" if "j \<in> pool_items pool1" for j
    using that unfolding items1 sconf by blast
  have fresh: "fresh_in cr vm pool1 i"
    unfolding fresh_in_def
  proof (intro conjI ballI)
    show "mi_name i \<notin> fst ` set (mp_spends pool1)"
      using new p1(2) by (auto simp: fields map_of_eq_None_iff)
    fix j assume j: "j \<in> pool_items pool1"
    then show "spent_by cr j \<inter> spent_by cr i = {}" by (rule disj)
    have jp: "j \<in> pool_items ?pool" using j items1 by blast
    show "made_by cr vm j \<inter> made_by cr vm i = {}"
    proof (rule made_disjoint [OF _ iok disj [OF j] ids(1)])
      show "item_ok cr vm j" using jp pair by (auto simp: pool_items_def)
    qed (use ids(2,3) jp fields in auto)
  qed
  have le: "mi_cost i \<le> mp_max_size_in_cost pool1" using d(6) fits p1(3) by (simp add: fields)
  have keys: "fst ` set records = spent_by cr i"
    unfolding spent using us(1,2) by (metis length_map map_fst_zip set_map)
  from add_ok [OF p1(1) iok fresh le n(1) made keys] ad obtain m2 where
    m2: "mempool_ok cr vm pool2" "mp_max_size_in_cost pool2 = mp_max_size_in_cost pool1" "evicted (mi_cost i) pool1 m2"
      "mp_spends pool2 = mp_spends m2 @ [(mi_name i, i)]" "evict cr vm (mi_cost i) pool1 = Ok m2" by auto
  have "pool_items m2 \<subseteq> pool_items pool1" using m2(3) by (auto simp: evicted_def pool_items_def)
  then have ev: "\<exists>m2. evict cr vm (mi_cost i) pool1 = Ok m2 \<and> evicted (mi_cost i) pool1 m2 \<and>
      pool_items (mm_mempool s') = insert i (pool_items m2) \<and> pool_items m2 \<subseteq> pool_items pool1"
    using m2(3-5) by (intro exI [of _ m2]) (simp add: s' pool_items_def)
  have bid: "map snd conflicting = [] \<or> outbids (mi_fee i) (mi_cost i) (map snd conflicting)"
  proof (cases "conflicting = []")
    case False
    with conf have "can_replace cr conflicting records fee (fl fee cost) = Ok True" using fd(4) by auto
    moreover have "\<forall>(n, i)\<in>set conflicting. 0 < mi_cost i \<and> 0 \<le> mi_fee i"
    proof (rule ballI, clarify)
      fix k j assume "(k, j) \<in> set conflicting"
      with csub have "(k, j) \<in> set (mp_spends ?pool)" by blast
      from pair [OF this] show "0 < mi_cost j \<and> 0 \<le> mi_fee j" by (simp add: item_ok_def)
    qed
    ultimately show ?thesis using can_replace_outbids [OF _ cost fd(2) _ False] by (simp add: fields)
  qed simp
  show ?thesis
  proof (rule that [of i "map snd conflicting" pool1])
    show "mempool_ok cr vm (mm_mempool s')" "mp_max_size_in_cost (mm_mempool s') = mp_max_size_in_cost ?pool"
      using m2(1,2) p1(3) s' by simp_all
    show "\<exists>q. get_min_fee_rate ?pool (mi_cost i) = Ok q \<and> q < rate i" if "at_full_capacity ?pool (mi_cost i)"
      using fd(4,6) that by (simp add: fields rate_def)
  qed (use fields p1 items1 sconf ev bid c iok in simp_all)
qed

text \<open>Whatever a new item pushes out of the pool either spends a coin with it and is outbid, or pays strictly
  less per cost.\<close>

lemma evicted_pays_less:
  assumes m: "mempool_ok cr vm m" and m1: "mempool_ok cr vm m1" "pool_items m1 \<subseteq> pool_items m"
      "mp_max_size_in_cost m1 = mp_max_size_in_cost m"
    and ev: "evict cr vm (mi_cost i) m1 = Ok m2" "evicted (mi_cost i) m1 m2" and i: "item_ok cr vm i"
    and pays: "at_full_capacity m (mi_cost i) \<Longrightarrow> \<exists>q. get_min_fee_rate m (mi_cost i) = Ok q \<and> q < rate i"
    and j: "j \<in> pool_items m1" "j \<notin> pool_items m2"
  shows "mi_fee j * mi_cost i < mi_fee i * mi_cost j"
proof -
  have full1: "at_full_capacity m1 (mi_cost i)"
  proof (rule ccontr)
    assume "\<not> ?thesis"
    with ev(1) have "m2 = m1" by (simp add: evict.simps [of _ _ _ m1])
    with j show False by simp
  qed
  have pos: "0 \<le> mi_cost k" if "k \<in> pool_items m" for k
    using that mempool_okD(2) [OF m] by (fastforce simp: pool_items_def item_ok_def)
  have "mp_total_mempool_cost m1 \<le> mp_total_mempool_cost m"
    unfolding pool_total [OF m] pool_total [OF m1(1)]
    by (rule sum_mono2) (use m1(2) pos in \<open>auto simp: pool_items_def\<close>)
  with full1 m1(3) have full: "at_full_capacity m (mi_cost i)" by (simp add: at_full_capacity_def)
  from pays [OF full] obtain q where q: "get_min_fee_rate m (mi_cost i) = Ok q" "q < rate i" by blast
  from ev(2) j obtain q1 where q1: "get_min_fee_rate m1 (mi_cost i) = Ok q1" "rate j \<le> q1" by (auto simp: evicted_def)
  have "q1 \<le> q" by (rule min_fee_rate_mono [OF m m1(1,2,3) full1 full q(1) q1(1)])
  with q(2) q1(2) have "fl (mi_fee j) (mi_cost j) < fl (mi_fee i) (mi_cost i)" by (simp add: rate_def)
  moreover have "item_ok cr vm j" using j(1) m1(2) mempool_okD(2) [OF m] by (auto simp: pool_items_def)
  ultimately show ?thesis using i by (intro fl_less_cross) (auto simp: item_ok_def)
qed

section \<open>The states of the manager\<close>

definition known :: "crypto \<Rightarrow> 's clvm \<Rightarrow> Coin set \<Rightarrow> MempoolItem \<Rightarrow> bool" where
  "known cr vm U i \<longleftrightarrow>
     results_agree cr vm (mi_spend_bundle i) (mi_npc_result i) \<and> created_by cr vm (mi_spend_bundle i) \<subseteq> U"

definition manager_ok :: "crypto \<Rightarrow> 's clvm \<Rightarrow> Coin set \<Rightarrow> MempoolManager \<Rightarrow> bool" where
  "manager_ok cr vm U s \<longleftrightarrow> mempool_ok cr vm (mm_mempool s) \<and>
     mp_max_size_in_cost (mm_mempool s) = mm_mempool_max_total_cost s \<and> 0 \<le> mm_mempool_max_total_cost s \<and>
     py_int_of_float (limit_cost s) \<le> mm_mempool_max_total_cost s \<and> store_ok cr (mm_coin_store s) \<and>
     (\<forall>i\<in>pool_items (mm_mempool s) \<union> potential_items s. known cr vm U i)"

lemma half_float: "0 \<le> n \<Longrightarrow> 1 / 2 * fl n 1 \<le> of_int n"
proof (cases "n = 0")
  case False
  assume "0 \<le> n"
  with False have n: "0 < n" by simp
  have "fl n 1 \<le> 2 powi (floor_log2 n 1 + 1)" by (rule fl_bounds [OF n]) simp
  also have "\<dots> = 2 * 2 powi floor_log2 n 1" by (simp add: power_int_add)
  also have "\<dots> \<le> 2 * of_int n" using floor_log2_bounds(1) [OF n, of 1] by simp
  finally show ?thesis by simp
qed (simp add: fl_def)

lemma new_manager_ok:
  assumes "store_ok cr st" and "0 \<le> MAX_BLOCK_COST_CLVM c" and "1 \<le> MEMPOOL_BLOCK_BUFFER c"
  shows "manager_ok cr vm U (new_manager st c)"
proof -
  let ?n = "MAX_BLOCK_COST_CLVM c"
  have n: "?n \<le> ?n * MEMPOOL_BLOCK_BUFFER c" using assms(2,3) by (simp add: mult_le_cancel_left1)
  have nn: "0 \<le> ?n * MEMPOOL_BLOCK_BUFFER c" using assms(2,3) by simp
  have pos: "0 \<le> 1 / 2 * fl ?n 1" using fl_nonneg [OF assms(2), of 1] by simp
  have "\<lfloor>1 / 2 * fl ?n 1\<rfloor> \<le> ?n" using half_float [OF assms(2)] by (simp add: floor_le_iff)
  then have "py_int_of_float (limit_cost (new_manager st c)) \<le> ?n * MEMPOOL_BLOCK_BUFFER c"
    using pos n by (simp add: py_int_of_float_def limit_cost_def new_manager_def Let_def)
  then show ?thesis
    using assms(1) nn new_mempool_ok [OF nn, of cr vm]
    by (simp add: manager_ok_def new_manager_def Let_def pool_items_def potential_items_def new_mempool_def)
qed

lemma limit_cost_kept: "settings_kept s s' \<Longrightarrow> limit_cost s' = limit_cost s"
  by (simp add: settings_kept_def limit_cost_def)

lemma add_keeps_ok:
  assumes ok: "manager_ok cr vm U s" and ids: "distinct_ids cr U"
    and agree: "results_agree cr vm sb r" "created_by cr vm sb \<subseteq> U"
  shows "ensures (\<lambda>(res, s'). manager_ok cr vm U s') (add_spendbundle cr vm bin now s sb r name vs prog)"
proof (rule ensuresI)
  fix x assume x: "add_spendbundle cr vm bin now s sb r name vs prog = Ok x"
  obtain c st e s' where x': "x = ((c, st, e), s')" by (cases x) auto
  have imp: "implements cr (mm_coin_store s) (ledger_of (mm_coin_store s))"
    using ok by (simp add: manager_ok_def implements_def)
  from ensuresD [OF add_outcome [OF imp] x] have out:
    "settings_kept s s'" "store_ok cr (mm_coin_store s')" "st \<noteq> SUCCESS \<longrightarrow> mm_mempool s' = mm_mempool s"
    "\<forall>i\<in>potential_items s'. i \<in> potential_items s \<or> mi_spend_bundle i = sb \<and> mi_npc_result i = r"
    by (simp_all add: outcome_def x' implements_def)
  have pot: "known cr vm U i" if "i \<in> potential_items s'" for i
    using out(4) that ok agree by (auto simp: manager_ok_def known_def)
  have pool: "mempool_ok cr vm (mm_mempool s') \<and> mp_max_size_in_cost (mm_mempool s') = mp_max_size_in_cost (mm_mempool s) \<and>
      (\<forall>i\<in>pool_items (mm_mempool s'). known cr vm U i)"
  proof (cases "st = SUCCESS \<and> map_of (mp_spends (mm_mempool s)) name = None")
    case True
    then have a: "add_spendbundle cr vm bin now s sb r name vs prog = Ok ((c, SUCCESS, e), s')"
      and n: "map_of (mp_spends (mm_mempool s)) name = None" using x x' by simp_all
    have "\<forall>j\<in>pool_items (mm_mempool s). created_by cr vm (mi_spend_bundle j) \<subseteq> U"
      "py_int_of_float (limit_cost s) \<le> mp_max_size_in_cost (mm_mempool s)" "mempool_ok cr vm (mm_mempool s)"
      using ok by (auto simp: manager_ok_def known_def)
    note known = this
    obtain i conflicting m1 where
      i: "mi_spend_bundle i = sb" "mi_npc_result i = r" "mempool_ok cr vm (mm_mempool s')"
        "mp_max_size_in_cost (mm_mempool s') = mp_max_size_in_cost (mm_mempool s)"
        "pool_items m1 = pool_items (mm_mempool s) - set conflicting"
        "\<exists>m2. evict cr vm (mi_cost i) m1 = Ok m2 \<and> evicted (mi_cost i) m1 m2 \<and>
           pool_items (mm_mempool s') = insert i (pool_items m2) \<and> pool_items m2 \<subseteq> pool_items m1"
      by (rule add_success_pool [OF a n imp known(3) agree(1) ids agree(2) known(1,2)])
    from i(5,6) have "pool_items (mm_mempool s') \<subseteq> insert i (pool_items (mm_mempool s))" by blast
    moreover have "known cr vm U i" using i(1,2) agree by (simp add: known_def)
    moreover have "\<forall>j\<in>pool_items (mm_mempool s). known cr vm U j" using ok by (simp add: manager_ok_def)
    ultimately have "\<forall>j\<in>pool_items (mm_mempool s'). known cr vm U j" by blast
    with i(3,4) show ?thesis by blast
  next
    case False
    have "mm_mempool s' = mm_mempool s"
    proof (cases "st = SUCCESS")
      case True
      with False have "map_of (mp_spends (mm_mempool s)) name \<noteq> None" by simp
      with x x' True show ?thesis by (auto simp: add_spendbundle_def Let_def split: option.splits sum.splits)
    qed (use out(3) in simp)
    with ok show ?thesis by (simp add: manager_ok_def)
  qed
  have "manager_ok cr vm U s'"
    using ok out(1,2) pot pool by (auto simp: manager_ok_def limit_cost_kept [OF out(1)] settings_kept_def)
  then show "case x of (res, s') \<Rightarrow> manager_ok cr vm U s'" by (simp add: x')
qed

lemma readd_keeps_ok:
  assumes "manager_ok cr vm U s" "distinct_ids cr U" "known cr vm U i"
  shows "ensures (manager_ok cr vm U) (readd_item cr vm bin now (n, i) s)"
proof (rule ensuresI)
  fix y assume "readd_item cr vm bin now (n, i) s = Ok y"
  then obtain c st e s' where
    add: "add_spendbundle cr vm bin now s (mi_spend_bundle i) (mi_npc_result i) (mi_spend_bundle_name i)
      False (Some (mi_program i)) = Ok ((c, st, e), s')"
    and y: "y = (if st \<noteq> SUCCESS then remove_seen s' (mi_spend_bundle_name i) else s')"
    by (auto simp: readd_item_def)
  have "manager_ok cr vm U s'"
    using ensuresD [OF add_keeps_ok [OF assms(1,2)] add] assms(3) by (simp add: known_def)
  then show "manager_ok cr vm U y"
    by (simp add: y manager_ok_def remove_seen_def limit_cost_def potential_items_def)
qed

lemma retry_keeps_ok:
  assumes "manager_ok cr vm U s" "distinct_ids cr U" "known cr vm U i"
  shows "ensures (\<lambda>(txs, s'). manager_ok cr vm U s') (retry_potential cr vm bin now (n, i) (txs, s))"
proof (rule ensuresI)
  fix y assume "retry_potential cr vm bin now (n, i) (txs, s) = Ok y"
  then obtain c st e s' txs' where
    add: "add_spendbundle cr vm bin now s (mi_spend_bundle i) (mi_npc_result i) (mi_spend_bundle_name i)
      True (Some (mi_program i)) = Ok ((c, st, e), s')" and y: "y = (txs', s')"
    by (auto simp: retry_potential_def)
  show "case y of (txs, s') \<Rightarrow> manager_ok cr vm U s'"
    using ensuresD [OF add_keeps_ok [OF assms(1,2)] add] assms(3) y by (simp add: known_def)
qed

lemma new_peak_keeps_ok:
  assumes ok: "manager_ok cr vm U s" and ids: "distinct_ids cr U"
  shows "ensures (\<lambda>(txs, s'). manager_ok cr vm U s') (mm_new_peak cr vm bin now s peak)"
  unfolding mm_new_peak_def Let_def
proof (rule ensures_case_option, goal_cases)
  case (2 p)
  let ?s1 = "s\<lparr>mm_peak := Some p, mm_mempool := new_mempool (mm_mempool_max_total_cost s)\<rparr>"
  have ok1: "manager_ok cr vm U ?s1"
    using ok by (simp add: manager_ok_def limit_cost_def potential_items_def new_mempool_ok)
       (simp add: new_mempool_def pool_items_def)
  have pool: "known cr vm U i" if "(n, i) \<in> set (mp_spends (mm_mempool s))" for n i
    using that ok by (force simp: manager_ok_def pool_items_def)
  have readd: "manager_ok cr vm U s2" if "rfold (readd_item cr vm bin now) (mp_spends (mm_mempool s)) ?s1 = Ok s2" for s2
    by (rule ensuresD [OF ensures_rfold [of "manager_ok cr vm U"] that])
       (use ok1 in \<open>auto intro: readd_keeps_ok ids dest: pool\<close>)
  have retry: "manager_ok cr vm U s3"
    if s2: "manager_ok cr vm U s2"
      and r: "rfold (retry_potential cr vm bin now) (mm_potential_txs s2) ([], s2\<lparr>mm_potential_txs := []\<rparr>) = Ok (txs, s3)"
    for s2 txs s3
  proof -
    have k: "known cr vm U i" if "(n, i) \<in> set (mm_potential_txs s2)" for n i
      using that s2 by (force simp: manager_ok_def potential_items_def)
    have start: "manager_ok cr vm U (s2\<lparr>mm_potential_txs := []\<rparr>)"
      using s2 by (simp add: manager_ok_def limit_cost_def potential_items_def)
    have "case (txs, s3) of (txs, s') \<Rightarrow> manager_ok cr vm U s'"
      by (rule ensuresD [OF ensures_rfold [of "\<lambda>(txs, s'). manager_ok cr vm U s'"] r])
         (use start in \<open>auto intro: retry_keeps_ok ids dest: k\<close>)
    then show ?thesis by simp
  qed
  show ?case
    by (intro ensures_rules) (use ok readd retry in auto)
qed (use ok in \<open>simp add: ensures_Ok\<close>)

text \<open>Everything that can happen to the manager between two transactions: a bundle whose result has been
  computed is submitted, the chain has a new peak, the cache of seen bundles changes, or the chain changes
  the coin store. \<open>U\<close> is a set of coins that includes all coins the submitted bundles create.\<close>

inductive mm_step ::
    "crypto \<Rightarrow> 's clvm \<Rightarrow> serializer \<Rightarrow> Coin set \<Rightarrow> MempoolManager \<Rightarrow> MempoolManager \<Rightarrow> bool"
  for cr vm bin U where
  submit: "mm_step cr vm bin U s s'"
    if "results_agree cr vm sb r" "created_by cr vm sb \<subseteq> U"
      "add_spendbundle cr vm bin now s sb r name vs prog = Ok (res, s')"
| peak: "mm_step cr vm bin U s s'" if "mm_new_peak cr vm bin now s p = Ok (txs, s')"
| see: "mm_step cr vm bin U s (add_and_maybe_pop_seen s name)"
| unsee: "mm_step cr vm bin U s (remove_seen s name)"
| chain: "mm_step cr vm bin U s (s\<lparr>mm_coin_store := st\<rparr>)" if "store_ok cr st"

inductive_cases mm_stepE: "mm_step cr vm bin U s s'"

lemma step_keeps_ok:
  assumes "mm_step cr vm bin U s s'" and "distinct_ids cr U" and "manager_ok cr vm U s"
  shows "manager_ok cr vm U s'"
  using assms(1)
proof cases
  case submit
  from ensuresD [OF add_keeps_ok [OF assms(3,2) submit(1,2)] submit(3)] show ?thesis by simp
next
  case peak
  from ensuresD [OF new_peak_keeps_ok [OF assms(3,2)] peak(1)] show ?thesis by simp
qed (use assms(3) in \<open>simp_all add: manager_ok_def add_and_maybe_pop_seen_def remove_seen_def limit_cost_def
       potential_items_def\<close>)

lemma run_keeps_ok:
  assumes "(mm_step cr vm bin U)\<^sup>*\<^sup>* s s'" and "distinct_ids cr U" and "manager_ok cr vm U s"
  shows "manager_ok cr vm U s'"
  using assms(1)
  by (induction rule: rtranclp_induct) (use assms(3) step_keeps_ok [OF _ assms(2)] in blast)+

lemma pushed_out_pays_less:
  assumes ok: "manager_ok cr vm U s" and ids: "distinct_ids cr U"
    and agree: "results_agree cr vm sb r" "created_by cr vm sb \<subseteq> U"
    and add: "add_spendbundle cr vm bin now s sb r name vs prog = Ok ((c, SUCCESS, e), s')"
    and new: "map_of (mp_spends (mm_mempool s)) name = None"
  shows "\<exists>i conflicting. mi_name i = name \<and> mi_spend_bundle i = sb \<and> c = Some (mi_cost i) \<and>
     i \<in> pool_items (mm_mempool s') \<and>
     set conflicting = {j \<in> pool_items (mm_mempool s). spent_by cr j \<inter> spent_by cr i \<noteq> {}} \<and>
     (conflicting = [] \<or> outbids (mi_fee i) (mi_cost i) conflicting) \<and>
     (\<forall>j\<in>pool_items (mm_mempool s) - pool_items (mm_mempool s').
        j \<in> set conflicting \<or> mi_fee j * mi_cost i < mi_fee i * mi_cost j)"
proof -
  have imp: "implements cr (mm_coin_store s) (ledger_of (mm_coin_store s))"
    using ok by (simp add: manager_ok_def implements_def)
  have s: "\<forall>j\<in>pool_items (mm_mempool s). created_by cr vm (mi_spend_bundle j) \<subseteq> U"
    "py_int_of_float (limit_cost s) \<le> mp_max_size_in_cost (mm_mempool s)" "mempool_ok cr vm (mm_mempool s)"
    using ok by (auto simp: manager_ok_def known_def)
  obtain i conflicting m1 where
    i: "mi_name i = name" "mi_spend_bundle i = sb" "c = Some (mi_cost i)" "item_ok cr vm i"
    and conf: "set conflicting = {j \<in> pool_items (mm_mempool s). spent_by cr j \<inter> spent_by cr i \<noteq> {}}"
      "conflicting = [] \<or> outbids (mi_fee i) (mi_cost i) conflicting"
    and m1: "mempool_ok cr vm m1" "pool_items m1 = pool_items (mm_mempool s) - set conflicting"
      "mp_max_size_in_cost m1 = mp_max_size_in_cost (mm_mempool s)"
    and ev: "\<exists>m2. evict cr vm (mi_cost i) m1 = Ok m2 \<and> evicted (mi_cost i) m1 m2 \<and>
       pool_items (mm_mempool s') = insert i (pool_items m2) \<and> pool_items m2 \<subseteq> pool_items m1"
    and pays: "at_full_capacity (mm_mempool s) (mi_cost i) \<Longrightarrow>
       \<exists>q. get_min_fee_rate (mm_mempool s) (mi_cost i) = Ok q \<and> q < rate i"
    by (rule add_success_pool [OF add new imp s(3) agree(1) ids agree(2) s(1,2)]) blast
  from ev obtain m2 where m2: "evict cr vm (mi_cost i) m1 = Ok m2" "evicted (mi_cost i) m1 m2"
    "pool_items (mm_mempool s') = insert i (pool_items m2)" by blast
  have "pool_items m1 \<subseteq> pool_items (mm_mempool s)" using m1(2) by blast
  note less = evicted_pays_less [OF s(3) m1(1) this m1(3) m2(1,2) i(4) pays]
  have "j \<in> set conflicting \<or> mi_fee j * mi_cost i < mi_fee i * mi_cost j"
    if "j \<in> pool_items (mm_mempool s) - pool_items (mm_mempool s')" for j
    using that less [of j] m1(2) m2(3) by blast
  with i conf m2(3) show ?thesis by (intro exI [of _ i] exI [of _ conflicting]) simp
qed

end
