(* ===== verification/Sample_Mempool.thy ===== *)
theory Sample_Mempool
  imports Mempool_Facts Sample_Body
begin

text \<open>
  A mempool manager on the sample coin store with one pending bundle, which spends the coin of 5 mojos and
  creates the one of 4: it is added after the first peak, and the bundle for the next block is made of it.
\<close>

definition pay_vm :: "tree clvm" where
  "pay_vm = toy_vm\<lparr>run_with_cost := (\<lambda>program cost solution.
     Ok (100, tree_of_list [tree_of_list [Atom [51], Atom (replicate 32 9), Atom (int_code 4)]]))\<rparr>"

definition pay_bundle :: SpendBundle where
  "pay_bundle = \<lparr>sb_coin_spends = [\<lparr>cs_coin = coin5, cs_puzzle_reveal = [1], cs_solution = [2]\<rparr>],
     sb_aggregated_signature = replicate 96 0\<rparr>"

definition bin0 :: serializer where
  "bin0 = \<lparr>atom_as_bin = (\<lambda>b. b), int_as_bin = int_code, quote_as_bin = [1]\<rparr>"

definition peak_r :: BlockRecord where
  "peak_r = genesis_f\<lparr>timestamp := Some 1700000000\<rparr>"

definition pay_manager :: MempoolManager where
  "pay_manager = (new_manager body_store DEFAULT_CONSTANTS)\<lparr>mm_peak := Some peak_r\<rparr>"

definition pay_item :: MempoolItem where
  "pay_item = \<lparr>mi_spend_bundle = pay_bundle, mi_fee = 1, mi_npc_result = body_result, mi_cost = 1936,
     mi_spend_bundle_name = replicate 32 3, mi_additions = [coin4], mi_removals = [coin5], mi_program = [1, 2, 3]\<rparr>"

lemma pay_vm_simps [simp]:
  "sexp_first pay_vm = tree_first" "sexp_rest pay_vm = tree_rest" "sexp_atom pay_vm = tree_atom"
  "sexp_pair pay_vm = tree_pair" "sexp_as_iter pay_vm = tree_iter"
  "run_with_cost pay_vm p c s
   = Ok (100, tree_of_list [tree_of_list [Atom [51], Atom (replicate 32 9), Atom (int_code 4)]])"
  by (simp_all add: pay_vm_def toy_vm_def)

lemma pay_names [simp]: "coin_name body_cr coin5 = Ok (replicate 32 8)" "coin_name body_cr coin4 = Ok (replicate 32 9)"
  by (simp_all add: coin_defs)

lemma pay_additions: "sb_additions body_cr pay_vm pay_bundle = Ok [coin4]"
  by (simp add: sb_additions_def pay_bundle_def coin_spend_additions_def additions_for_solution_def
      conditions_dict_for_solution_def conditions_for_solution_def parse_sexp_to_conditions_def for_each_def
      parse_sexp_to_condition_def as_atom_list_def atom_list_from.simps ConditionWithArgs.make_def
      conditions_by_opcode_def add_condition_def created_outputs_for_conditions_dict_def conditions_of_def
      created_output_def py_nth_def make_coin_def coin4_def)

lemma body_result_additions: "additions_for_npc body_cr [body_npc] = Ok [coin4]"
  by (simp add: body_npc_def condition_dict_def additions_for_npc_def created_outputs_for_conditions_dict_def
      conditions_of_def created_output_def toy_create_def py_nth_def make_coin_def coin4_def)

lemma pay_agrees: "results_agree body_cr pay_vm pay_bundle body_result"
  by (simp add: results_agree_def pay_additions body_result_def body_result_additions)
     (simp add: sb_removals_def pay_bundle_def body_npc_def)

lemma pay_created: "created_by body_cr pay_vm pay_bundle = {coin4}"
  by (simp add: created_by_def pay_additions)

lemma pay_limit: "limit_cost pay_manager = 5500000000"
  by (simp add: limit_cost_def pay_manager_def new_manager_def Let_def fl_int)

lemma pay_cost: "calculate_cost_of_program [1, 2, 3] body_result 12 = Ok 1936"
  by (simp add: calculate_cost_of_program_def body_result_def body_npc_def conditions_cost_def condition_dict_def
      toy_create_def)

lemma pay_manager_simps [simp]:
  "mm_peak pay_manager = Some peak_r" "mm_constants pay_manager = DEFAULT_CONSTANTS"
  "mm_mempool pay_manager = new_mempool 550000000000" "mm_coin_store pay_manager = body_store"
  "mm_potential_txs pay_manager = []" "mm_seen_bundle_hashes pay_manager = []"
  by (simp_all add: pay_manager_def new_manager_def Let_def DEFAULT_CONSTANTS_def)

lemma peak_r_simps [simp]:
  "timestamp peak_r = Some 1700000000" "height peak_r = 0" "is_transaction_block peak_r"
  "header_hash peak_r = replicate 32 1"
  by (simp_all add: peak_r_def genesis_f_def genesis_r_def is_transaction_block_def)

lemma pay_bundle_checked:
  "check_bundle body_cr pay_manager body_result 1936 = Valid ([coin4], [(replicate 32 9, coin4)], 4)"
  by (simp add: check_bundle_def pay_limit py_int_of_float_def body_result_def body_result_additions
      addition_bound_step_def)
     (simp add: coin4_def body_npc_def)

lemma pay_admitted:
  "\<exists>store. add_spendbundle body_cr pay_vm bin0 now pay_manager pay_bundle body_result (replicate 32 3) True
     (Some [1, 2, 3]) = Ok ((Some 1936, SUCCESS, None),
       pay_manager\<lparr>mm_coin_store := store, mm_mempool :=
         \<lparr>mp_spends = [(replicate 32 3, pay_item)],
          mp_sorted_spends = [(fl 1 1936, [(replicate 32 3, pay_item)])],
          mp_additions = [(replicate 32 9, pay_item)], mp_removals = [(replicate 32 8, pay_item)],
          mp_max_size_in_cost = 550000000000, mp_total_mempool_cost = 1936\<rparr>\<rparr>)"
proof -
  obtain store where st: "get_coin_record body_cr body_store (replicate 32 8)
      = Ok (Some (new_record 0 1000 False coin5), store)"
    using get_coin_record_ledger [OF body_store_implements, of "replicate 32 8"] by auto
  let ?u = "new_record 0 1000 False coin5" let ?s = "pay_manager\<lparr>mm_coin_store := store\<rparr>"
  have u: "cr_coin ?u = coin5" "\<not> cr_spent ?u" by (simp_all add: new_record_def)
  have a5: "coin_amount coin5 = 5" "coin_puzzle_hash coin5 = replicate 32 8" by (simp_all add: coin5_def)
  have rr: "removal_records body_cr peak_r [(replicate 32 9, coin4)] (map npc_coin_name (npc_list body_result)) [] 0 body_store
      = Ok (Inr ([(replicate 32 8, ?u)], 5), store)"
    by (simp add: body_result_def body_npc_def st u a5)
  have cf: "check_fees body_cr ?s (npc_list body_result) 1936 4 5 = Valid (1, fl 1 1936)"
    by (simp add: check_fees_def reserve_fees_def body_result_def body_npc_def condition_dict_def conditions_of_def
        at_full_capacity_def new_mempool_def py_truediv_fl)
  have crem: "check_removals body_cr ?s [(replicate 32 8, ?u)] = Ok (None, [])"
    by (simp add: check_removals_def u new_mempool_def)
  have cc: "check_conditions body_cr now DEFAULT_CONSTANTS peak_r (npc_list body_result) [(replicate 32 8, ?u)] True
      = Valid []"
    by (simp add: check_conditions_def body_result_def body_npc_def spend_conditions_step_def u a5
        coin_announcements_names_for_npc_def puzzle_announcements_names_for_npc_def announcement_names_def
        mempool_check_conditions_dict_def condition_dict_def check_condition_def toy_create_def
        pkm_pairs_for_conditions_dict_def conditions_of_def)
  have item: "\<lparr>mi_spend_bundle = pay_bundle, mi_fee = 1, mi_npc_result = body_result, mi_cost = 1936,
     mi_spend_bundle_name = replicate 32 3, mi_additions = [coin4],
     mi_removals = [cr_coin ?u], mi_program = [1, 2, 3]\<rparr> = pay_item"
    by (simp add: pay_item_def u)
  have flds: "mi_npc_result pay_item = body_result" "mi_cost pay_item = 1936" "mi_spend_bundle pay_item = pay_bundle"
    "mi_additions pay_item = [coin4]" "mi_name pay_item = replicate 32 3" "fee_per_cost pay_item = Ok (fl 1 1936)"
    by (simp_all add: pay_item_def mi_name_def fee_per_cost_def py_truediv_fl)
  have adm: "admit body_cr pay_vm now ?s peak_r pay_item [(replicate 32 8, ?u)] True []
     = Ok ((Some 1936, SUCCESS, None), ?s\<lparr>mm_mempool :=
         \<lparr>mp_spends = [(replicate 32 3, pay_item)],
          mp_sorted_spends = [(fl 1 1936, [(replicate 32 3, pay_item)])],
          mp_additions = [(replicate 32 9, pay_item)], mp_removals = [(replicate 32 8, pay_item)],
          mp_max_size_in_cost = 550000000000, mp_total_mempool_cost = 1936\<rparr>\<rparr>)"
    by (simp add: admit_def flds cc add_to_pool_def evict.simps at_full_capacity_def new_mempool_def)
  have new: "mp_spends (new_mempool k) = []" for k by (simp add: new_mempool_def)
  show ?thesis
    unfolding add_spendbundle_def Let_def
    by (simp add: pay_cost pay_bundle_checked new rr cf crem item adm) blast
qed

section \<open>A run\<close>

lemma pay_peak_run:
  "\<exists>s s'. (mm_step body_cr pay_vm bin0 {coin4})\<^sup>*\<^sup>* (new_manager body_store DEFAULT_CONSTANTS) s \<and>
     mm_mempool s = new_mempool 550000000000 \<and> mm_constants s = DEFAULT_CONSTANTS \<and> mm_peak s = Some peak_r \<and>
     limit_cost s = 5500000000 \<and>
     add_spendbundle body_cr pay_vm bin0 0 s pay_bundle body_result (replicate 32 3) True (Some [1, 2, 3])
       = Ok ((Some 1936, SUCCESS, None), s') \<and>
     limit_cost s' = 5500000000 \<and> mm_constants s' = DEFAULT_CONSTANTS \<and> mm_peak s' = Some peak_r \<and>
     mm_mempool s' =
         \<lparr>mp_spends = [(replicate 32 3, pay_item)],
          mp_sorted_spends = [(fl 1 1936, [(replicate 32 3, pay_item)])],
          mp_additions = [(replicate 32 9, pay_item)], mp_removals = [(replicate 32 8, pay_item)],
          mp_max_size_in_cost = 550000000000, mp_total_mempool_cost = 1936\<rparr>"
proof -
  let ?m = "new_manager body_store DEFAULT_CONSTANTS"
  have p: "mm_peak ?m = None" "mm_potential_txs ?m = []" "mm_mempool ?m = new_mempool 550000000000"
    "mm_mempool_max_total_cost ?m = 550000000000" "mm_constants ?m = DEFAULT_CONSTANTS"
    by (simp_all add: new_manager_def Let_def DEFAULT_CONSTANTS_def)
  have same: "?m\<lparr>mm_peak := Some peak_r, mm_mempool := new_mempool 550000000000, mm_potential_txs := []\<rparr> = pay_manager"
    by (simp add: pay_manager_def new_manager_def Let_def DEFAULT_CONSTANTS_def)
  have "mm_new_peak body_cr pay_vm bin0 0 ?m (Some peak_r) = Ok ([], pay_manager)"
    unfolding mm_new_peak_def Let_def
  proof -
    have e: "mp_spends (new_mempool k) = []" for k by (simp add: new_mempool_def)
    have g: "get_min_fee_rate (new_mempool 550000000000) 100000 = Ok 0"
      by (simp add: new_mempool_def get_min_fee_rate_def at_full_capacity_def)
    show "(case Some peak_r of None \<Rightarrow> Ok ([], ?m) | Some p \<Rightarrow>
        if \<not> is_transaction_block p then Ok ([], ?m) else if mm_peak ?m = Some p then Ok ([], ?m)
        else rbind (unwrap AssertionError (timestamp p)) (\<lambda>t.
          if t \<le> INITIAL_FREEZE_END_TIMESTAMP (mm_constants ?m) then Ok ([], ?m)
          else rbind (rfold (readd_item body_cr pay_vm bin0 0) (mp_spends (mm_mempool ?m))
              (?m\<lparr>mm_peak := Some p, mm_mempool := new_mempool (mm_mempool_max_total_cost ?m)\<rparr>)) (\<lambda>self.
            rbind (rfold (retry_potential body_cr pay_vm bin0 0) (mm_potential_txs self)
              ([], self\<lparr>mm_potential_txs := []\<rparr>)) (\<lambda>(txs_added, self).
            rbind (get_min_fee_rate (mm_mempool self) 100000) (\<lambda>_. Ok (txs_added, self)))))) = Ok ([], pay_manager)"
      by (simp add: p e same g)
  qed
  then have "mm_step body_cr pay_vm bin0 {coin4} ?m pay_manager" by (rule mm_step.peak)
  then have run: "(mm_step body_cr pay_vm bin0 {coin4})\<^sup>*\<^sup>* ?m pay_manager" by blast
  obtain store where "add_spendbundle body_cr pay_vm bin0 0 pay_manager pay_bundle body_result (replicate 32 3) True
     (Some [1, 2, 3]) = Ok ((Some 1936, SUCCESS, None),
       pay_manager\<lparr>mm_coin_store := store, mm_mempool :=
         \<lparr>mp_spends = [(replicate 32 3, pay_item)],
          mp_sorted_spends = [(fl 1 1936, [(replicate 32 3, pay_item)])],
          mp_additions = [(replicate 32 9, pay_item)], mp_removals = [(replicate 32 8, pay_item)],
          mp_max_size_in_cost = 550000000000, mp_total_mempool_cost = 1936\<rparr>\<rparr>)"
    using pay_admitted by blast
  moreover have "limit_cost (pay_manager\<lparr>mm_coin_store := a, mm_mempool := b\<rparr>) = limit_cost pay_manager" for a b
    by (simp add: limit_cost_def)
  ultimately show ?thesis using run
    by (intro exI [of _ pay_manager] exI [of _ "pay_manager\<lparr>mm_coin_store := store, mm_mempool :=
         \<lparr>mp_spends = [(replicate 32 3, pay_item)],
          mp_sorted_spends = [(fl 1 1936, [(replicate 32 3, pay_item)])],
          mp_additions = [(replicate 32 9, pay_item)], mp_removals = [(replicate 32 8, pay_item)],
          mp_max_size_in_cost = 550000000000, mp_total_mempool_cost = 1936\<rparr>\<rparr>"]) (simp add: pay_limit)
qed

lemma pay_run:
  "\<exists>s. (mm_step body_cr pay_vm bin0 {coin4})\<^sup>*\<^sup>* (new_manager body_store DEFAULT_CONSTANTS) s \<and>
     limit_cost s = 5500000000 \<and> mm_constants s = DEFAULT_CONSTANTS \<and> mm_peak s = Some peak_r \<and>
     mp_sorted_spends (mm_mempool s) = [(fl 1 1936, [(replicate 32 3, pay_item)])] \<and>
     pool_items (mm_mempool s) = {pay_item}"
proof -
  obtain s s' where s: "(mm_step body_cr pay_vm bin0 {coin4})\<^sup>*\<^sup>* (new_manager body_store DEFAULT_CONSTANTS) s"
    "add_spendbundle body_cr pay_vm bin0 0 s pay_bundle body_result (replicate 32 3) True (Some [1, 2, 3])
       = Ok ((Some 1936, SUCCESS, None), s')"
    "limit_cost s' = 5500000000" "mm_constants s' = DEFAULT_CONSTANTS" "mm_peak s' = Some peak_r"
    "mp_sorted_spends (mm_mempool s') = [(fl 1 1936, [(replicate 32 3, pay_item)])]"
    "mp_spends (mm_mempool s') = [(replicate 32 3, pay_item)]"
    using pay_peak_run by force
  have "created_by body_cr pay_vm pay_bundle \<subseteq> {coin4}" by (simp add: pay_created)
  from mm_step.submit [OF pay_agrees this s(2)] s(1)
  have "(mm_step body_cr pay_vm bin0 {coin4})\<^sup>*\<^sup>* (new_manager body_store DEFAULT_CONSTANTS) s'" by simp
  moreover have "pool_items (mm_mempool s') = {pay_item}" by (simp add: pool_items_def s(7))
  ultimately show ?thesis using s(3-6) by (intro exI [of _ s']) simp
qed

lemma pay_bundle_run:
  "\<exists>s. (mm_step body_cr pay_vm bin0 {coin4})\<^sup>*\<^sup>* (new_manager body_store DEFAULT_CONSTANTS) s \<and>
     create_bundle_from_mempool body_cr pay_vm 1800000000 s (replicate 32 1)
       = Ok (Some (sb_aggregate body_cr [pay_bundle], [coin4], [coin5]))"
proof -
  obtain s where s: "(mm_step body_cr pay_vm bin0 {coin4})\<^sup>*\<^sup>* (new_manager body_store DEFAULT_CONSTANTS) s"
    "limit_cost s = 5500000000" "mm_constants s = DEFAULT_CONSTANTS" "mm_peak s = Some peak_r"
    "mp_sorted_spends (mm_mempool s) = [(fl 1 1936, [(replicate 32 3, pay_item)])]"
    using pay_run by blast
  have f: "fee_per_cost pay_item = Ok (fl 1 1936)" "mi_cost pay_item = 1936" "mi_fee pay_item = 1"
    "mi_removals pay_item = [coin5]" "mi_additions pay_item = [coin4]" "mi_spend_bundle pay_item = pay_bundle"
    by (simp_all add: pay_item_def fee_per_cost_def py_truediv_fl)
  have a: "sb_additions body_cr pay_vm (sb_aggregate body_cr [pay_bundle]) = Ok [coin4]"
    by (simp flip: sb_aggregate_additions add: pay_additions)
  have r: "sb_removals (sb_aggregate body_cr [pay_bundle]) = [coin5]"
    by (simp add: sb_aggregate_removals) (simp add: sb_removals_def pay_bundle_def)
  have "create_bundle_from_mempool body_cr pay_vm 1800000000 s (replicate 32 1)
       = Ok (Some (sb_aggregate body_cr [pay_bundle], [coin4], [coin5]))"
    by (simp add: create_bundle_from_mempool_def s(2-5) f a r py_truediv_fl)
  with s(1) show ?thesis by blast
qed

end
