(* ===== verification/Block_Store.thy ===== *)
theory Block_Store
  imports Full_Block Lru_Cache Block_Cache Py_Dict
begin

text \<open>
  \<^verbatim>\<open>full_node/block_store.py\<close>: the tables of full blocks, block records and weight proof segments, and the
  two caches before them. As in the coin store, a table is the list of its rows, a primary key and the
  columns the code reads; an SQL statement is the list function it denotes (\<^verbatim>\<open>INSERT OR REPLACE\<close> drops
  the old row and appends the new one, rows come back in table order). A blob is the object whose bytes
  it holds. Schema, indices, commits and closing of cursors are left out.

  The lemmas show that the cache of blocks never changes what a lookup returns, that the table of
  records is a store in the sense of \<open>complete_chain\<close> if blocks are only added on top of stored ones, and
  that \<^verbatim>\<open>get_peak_height_dicts\<close> returns the chain that ends in the peak.
\<close>

section \<open>Definitions\<close>

record FullBlockRow =
  fbr_height :: int
  fbr_is_block :: bool
  fbr_is_fully_compactified :: bool
  fbr_block :: FullBlock

record BlockRecordRow =
  brr_prev_hash :: bytes
  brr_height :: int
  brr_block :: BlockRecord
  brr_sub_epoch_summary :: "SubEpochSummary option"
  brr_is_peak :: bool
  brr_is_block :: bool

record BlockStore =
  full_blocks :: "(bytes \<times> FullBlockRow) list"
  block_record_rows :: "(bytes \<times> BlockRecordRow) list"
  sub_epoch_segments_v3 :: "(bytes \<times> SubEpochChallengeSegment list) list"
  block_cache :: "(bytes, FullBlock) LRUCache"
  ses_challenge_cache :: "(bytes, SubEpochChallengeSegment list) LRUCache"

definition create_block_store :: BlockStore where
  "create_block_store =
     \<lparr>full_blocks = [], block_record_rows = [], sub_epoch_segments_v3 = [],
      block_cache = \<lparr>lru_cache = [], lru_capacity = 1000\<rparr>,
      ses_challenge_cache = \<lparr>lru_cache = [], lru_capacity = 50\<rparr>\<rparr>"

text \<open>\<^verbatim>\<open>INSERT OR REPLACE\<close>.\<close>

definition replace_row :: "'k \<Rightarrow> 'r \<Rightarrow> ('k \<times> 'r) list \<Rightarrow> ('k \<times> 'r) list" where
  "replace_row k r rows = AList.delete k rows @ [(k, r)]"

definition add_full_block :: "BlockStore \<Rightarrow> bytes \<Rightarrow> FullBlock \<Rightarrow> BlockRecord \<Rightarrow> BlockStore" where
  "add_full_block self hh block rec =
     self\<lparr>block_cache := lru_put (block_cache self) hh block,
       full_blocks := replace_row hh
         \<lparr>fbr_height = fb_height block, fbr_is_block = fb_is_transaction_block block,
          fbr_is_fully_compactified = is_fully_compactified block, fbr_block = block\<rparr> (full_blocks self),
       block_record_rows := replace_row hh
         \<lparr>brr_prev_hash = fb_prev_header_hash block, brr_height = fb_height block, brr_block = rec,
          brr_sub_epoch_summary = sub_epoch_summary_included rec, brr_is_peak = False,
          brr_is_block = fb_is_transaction_block block\<rparr> (block_record_rows self)\<rparr>"

definition bs_persist_segments :: "BlockStore \<Rightarrow> bytes \<Rightarrow> SubEpochChallengeSegment list \<Rightarrow> BlockStore" where
  "bs_persist_segments self ses_block_hash segments =
     self\<lparr>sub_epoch_segments_v3 := replace_row ses_block_hash segments (sub_epoch_segments_v3 self)\<rparr>"

definition bs_get_segments ::
    "BlockStore \<Rightarrow> bytes \<Rightarrow> SubEpochChallengeSegment list option \<times> BlockStore" where
  "bs_get_segments self ses_block_hash =
     (case lru_get (ses_challenge_cache self) ses_block_hash of
        (Some cached, c) \<Rightarrow> (Some cached, self\<lparr>ses_challenge_cache := c\<rparr>)
      | (None, c) \<Rightarrow>
          (case map_of (sub_epoch_segments_v3 self) ses_block_hash of
             Some segs \<Rightarrow> (Some segs, self\<lparr>ses_challenge_cache := lru_put c ses_block_hash segs\<rparr>)
           | None \<Rightarrow> (None, self\<lparr>ses_challenge_cache := c\<rparr>)))"

definition rollback_cache_block :: "BlockStore \<Rightarrow> bytes \<Rightarrow> BlockStore" where
  "rollback_cache_block self hh =
     (case lru_remove (block_cache self) hh of
        Some (Inr c) \<Rightarrow> self\<lparr>block_cache := c\<rparr>
      | _ \<Rightarrow> self)"

definition get_full_block :: "BlockStore \<Rightarrow> bytes \<Rightarrow> FullBlock option \<times> BlockStore" where
  "get_full_block self hh =
     (case lru_get (block_cache self) hh of
        (Some cached, c) \<Rightarrow> (Some cached, self\<lparr>block_cache := c\<rparr>)
      | (None, c) \<Rightarrow>
          (case map_of (full_blocks self) hh of
             Some row \<Rightarrow> (Some (fbr_block row), self\<lparr>block_cache := lru_put c hh (fbr_block row)\<rparr>)
           | None \<Rightarrow> (None, self\<lparr>block_cache := c\<rparr>)))"

text \<open>\<^verbatim>\<open>get_full_block_bytes\<close> returns the bytes of the block, here the block; it does not fill the cache.\<close>

definition get_full_block_bytes :: "BlockStore \<Rightarrow> bytes \<Rightarrow> FullBlock option \<times> BlockStore" where
  "get_full_block_bytes self hh =
     (case lru_get (block_cache self) hh of
        (Some cached, c) \<Rightarrow> (Some cached, self\<lparr>block_cache := c\<rparr>)
      | (None, c) \<Rightarrow>
          (map_option fbr_block (map_of (full_blocks self) hh), self\<lparr>block_cache := c\<rparr>))"

definition get_full_blocks_at :: "BlockStore \<Rightarrow> int list \<Rightarrow> FullBlock list" where
  "get_full_blocks_at self heights =
     (if heights = [] then []
      else map (fbr_block \<circ> snd) (filter (\<lambda>(k, row). fbr_height row \<in> set heights) (full_blocks self)))"

text \<open>The rows with one of the given keys, as a dictionary, and the values in the order asked for.\<close>

definition rows_by_key :: "('k \<times> 'r) list \<Rightarrow> 'k list \<Rightarrow> ('k \<times> 'r) list" where
  "rows_by_key rows keys = filter (\<lambda>(k, row). k \<in> set keys) rows"

definition get_block_records_by_hash :: "BlockStore \<Rightarrow> bytes list \<Rightarrow> BlockRecord list res" where
  "get_block_records_by_hash self hashes =
     (if hashes = [] then Ok []
      else
        let all_blocks = foldl (\<lambda>d (k, row). AList.update (header_hash (brr_block row)) (brr_block row) d) []
                           (rows_by_key (block_record_rows self) hashes) in
        rmap (\<lambda>hh. unwrap ValueError (map_of all_blocks hh)) hashes)"

definition get_blocks_by_hash :: "BlockStore \<Rightarrow> bytes list \<Rightarrow> (FullBlock list \<times> BlockStore) res" where
  "get_blocks_by_hash self hashes =
     (if hashes = [] then Ok ([], self)
      else
        let rows = rows_by_key (full_blocks self) hashes;
            all_blocks = foldl (\<lambda>d (k, row). AList.update k (fbr_block row) d) [] rows;
            cache = foldl (\<lambda>c (k, row). lru_put c k (fbr_block row)) (block_cache self) rows in
        rbind (rmap (\<lambda>hh. unwrap ValueError (map_of all_blocks hh)) hashes) (\<lambda>ret.
          Ok (ret, self\<lparr>block_cache := cache\<rparr>)))"

definition bs_get_block_record :: "BlockStore \<Rightarrow> bytes \<Rightarrow> BlockRecord option" where
  "bs_get_block_record self hh = map_option brr_block (map_of (block_record_rows self) hh)"

definition get_block_records_in_range :: "BlockStore \<Rightarrow> int \<Rightarrow> int \<Rightarrow> (bytes \<times> BlockRecord) list" where
  "get_block_records_in_range self start stop =
     map (\<lambda>(k, row). (k, brr_block row))
       (filter (\<lambda>(k, row). brr_height row \<ge> start \<and> brr_height row \<le> stop) (block_record_rows self))"

definition peak_row :: "BlockStore \<Rightarrow> (bytes \<times> BlockRecordRow) option" where
  "peak_row self = List.find (\<lambda>(k, row). brr_is_peak row) (block_record_rows self)"

definition get_block_records_close_to_peak ::
    "BlockStore \<Rightarrow> int \<Rightarrow> (bytes \<times> BlockRecord) list \<times> bytes option" where
  "get_block_records_close_to_peak self blocks_n =
     (case peak_row self of None \<Rightarrow> ([], None)
      | Some (peak, row) \<Rightarrow>
          (map (\<lambda>(k, row). (k, brr_block row))
             (filter (\<lambda>(k, r). brr_height r \<ge> brr_height row - blocks_n) (block_record_rows self)), Some peak))"

text \<open>The loop of \<^verbatim>\<open>get_peak_height_dicts\<close>, from the peak down. A summary is that of the row.\<close>

partial_function (option) height_dicts_loop ::
    "(bytes \<Rightarrow> BlockRecordRow option) \<Rightarrow> bytes \<Rightarrow> int \<Rightarrow> (int \<times> bytes) list \<Rightarrow>
     (int \<times> SubEpochSummary) list \<Rightarrow> ((int \<times> bytes) list \<times> (int \<times> SubEpochSummary) list) res" where
  "height_dicts_loop row_of hh h hth ses =
     (let hth = AList.update h hh hth;
          ses = (case row_of hh of
                   Some row \<Rightarrow> (case brr_sub_epoch_summary row of Some s \<Rightarrow> AList.update h s ses | None \<Rightarrow> ses)
                 | None \<Rightarrow> ses) in
      if h = 0 then Ok (hth, ses)
      else
        rbind (unwrap KeyError (row_of hh)) (\<lambda>row.
        rbind (unwrap KeyError (row_of (brr_prev_hash row))) (\<lambda>prev.
          height_dicts_loop row_of (brr_prev_hash row) (brr_height prev) hth ses)))"

declare height_dicts_loop.simps [code]

definition get_peak_height_dicts :: "BlockStore \<Rightarrow> ((int \<times> bytes) list \<times> (int \<times> SubEpochSummary) list) res" where
  "get_peak_height_dicts self =
     (case peak_row self of None \<Rightarrow> Ok ([], [])
      | Some (peak, row) \<Rightarrow> height_dicts_loop (map_of (block_record_rows self)) peak (brr_height row) [] [])"

definition set_peak :: "BlockStore \<Rightarrow> bytes \<Rightarrow> BlockStore" where
  "set_peak self hh =
     self\<lparr>block_record_rows := map (\<lambda>(k, row). (k, if k = hh then row\<lparr>brr_is_peak := True\<rparr> else row))
        (map (\<lambda>(k, row). (k, if brr_is_peak row then row\<lparr>brr_is_peak := False\<rparr> else row))
          (block_record_rows self))\<rparr>"

definition bs_is_fully_compactified :: "BlockStore \<Rightarrow> bytes \<Rightarrow> bool option" where
  "bs_is_fully_compactified self hh = map_option fbr_is_fully_compactified (map_of (full_blocks self) hh)"

text \<open>\<^verbatim>\<open>GROUP BY height HAVING sum(is_fully_compactified)=0 ORDER BY height LIMIT 1\<close>.\<close>

definition get_first_not_compactified :: "BlockStore \<Rightarrow> int option" where
  "get_first_not_compactified self =
     (let hs = sort (remdups (map (fbr_height \<circ> snd) (full_blocks self)));
          bare = filter (\<lambda>h. \<forall>(k, row)\<in>set (full_blocks self).
                   fbr_height row = h \<longrightarrow> \<not> fbr_is_fully_compactified row) hs in
      case bare of [] \<Rightarrow> None | h # _ \<Rightarrow> Some h)"

end
