(* ===== verification/Blockchain.thy ===== *)
theory Blockchain
  imports Block_Store Block_Body Header_Validation Sub_Epoch_Summary
begin

text \<open>
  \<^verbatim>\<open>consensus/blockchain.py\<close>: the node's view of the chain. \<^verbatim>\<open>__block_records\<close>, \<^verbatim>\<open>__height_to_hash\<close> and
  \<^verbatim>\<open>__sub_epoch_summaries\<close>, which the validation functions read through \<^verbatim>\<open>BlockchainInterface\<close>, are the
  fields of a \<open>BlockCache\<close>; \<^verbatim>\<open>__heights_in_cache\<close>, the peak, the two stores and the set of seen compact
  proofs are beside it. Unlike the cache of \<^verbatim>\<open>block_cache.py\<close>, \<^verbatim>\<open>height_to_hash\<close> raises on a missing height.

  Every method runs under the blockchain lock, so an operation is one step. A read of a full block
  reorders the cache of the block store and is threaded through; the reads inside the validation of a body
  are given to it as a function, as in the source, and use the value of the lookup only. The \<^verbatim>\<open>except\<close>
  branch of \<^verbatim>\<open>receive_block\<close>, which restores the database, is left out: an exception ends the run.
\<close>

section \<open>The state\<close>

datatype ReceiveBlockResult =
  NEW_PEAK | ADDED_AS_ORPHAN | INVALID_BLOCK | ALREADY_HAVE_BLOCK | DISCONNECTED_BLOCK

record PreValidationResult =
  pvr_error :: "int option"
  pvr_required_iters :: "int option"
  pvr_npc_result :: "NPCResult option"

record Blockchain =
  ch_constants :: ConsensusConstants
  ch_peak_height :: "int option"
  ch_blocks :: BlockCache
  ch_heights_in_cache :: "int \<Rightarrow> bytes set option"
  ch_coin_store :: CoinStore
  ch_block_store :: BlockStore
  ch_seen_compact_proofs :: "(VDFInfo \<times> int) set"

definition ch_height_to_hash :: "Blockchain \<Rightarrow> int \<Rightarrow> bytes res" where
  "ch_height_to_hash self h = unwrap KeyError (height_to_hash_map (ch_blocks self) h)"

definition get_peak :: "Blockchain \<Rightarrow> BlockRecord option res" where
  "get_peak self =
     (case ch_peak_height self of None \<Rightarrow> Ok None
      | Some p \<Rightarrow> rbind (height_to_block_record (ch_blocks self) p) (\<lambda>b. Ok (Some b)))"

definition ch_get_full_block :: "Blockchain \<Rightarrow> bytes \<Rightarrow> FullBlock option \<times> Blockchain" where
  "ch_get_full_block self hh =
     (case get_full_block (ch_block_store self) hh of (b, st) \<Rightarrow> (b, self\<lparr>ch_block_store := st\<rparr>))"

definition get_full_peak :: "Blockchain \<Rightarrow> (FullBlock option \<times> Blockchain) res" where
  "get_full_peak self =
     (case ch_peak_height self of None \<Rightarrow> Ok (None, self)
      | Some p \<Rightarrow>
          rbind (ch_height_to_hash self p) (\<lambda>hh.
            case ch_get_full_block self hh of (b, self) \<Rightarrow>
              rbind (py_assert (b \<noteq> None)) (\<lambda>_. Ok (b, self))))"

text \<open>\<^verbatim>\<open>add_block_record\<close> and \<^verbatim>\<open>remove_block_record\<close> also keep the hashes by height.\<close>

definition ch_add_block_record :: "BlockRecord \<Rightarrow> Blockchain \<Rightarrow> Blockchain" where
  "ch_add_block_record b self =
     (let hs = (case ch_heights_in_cache self (height b) of None \<Rightarrow> {} | Some hs \<Rightarrow> hs) in
      self\<lparr>ch_blocks := add_block_record (ch_blocks self) b,
           ch_heights_in_cache := (ch_heights_in_cache self)(height b \<mapsto> insert (header_hash b) hs)\<rparr>)"

definition ch_remove_block_record :: "bytes \<Rightarrow> Blockchain \<Rightarrow> Blockchain res" where
  "ch_remove_block_record hh self =
     rbind (block_record (ch_blocks self) hh) (\<lambda>sbr.
     rbind (remove_block_record (ch_blocks self) hh) (\<lambda>blocks.
     rbind (unwrap KeyError (ch_heights_in_cache self (height sbr))) (\<lambda>hs.
       if hh \<notin> hs then Raise KeyError
       else Ok (self\<lparr>ch_blocks := blocks,
              ch_heights_in_cache := (ch_heights_in_cache self)(height sbr \<mapsto> hs - {hh})\<rparr>))))"

definition load_chain_from_store :: "Blockchain \<Rightarrow> Blockchain res" where
  "load_chain_from_store self =
     rbind (get_peak_height_dicts (ch_block_store self)) (\<lambda>(hth, ses).
     let (records, peak) =
           get_block_records_close_to_peak (ch_block_store self) (BLOCKS_CACHE_SIZE (ch_constants self));
         self = self\<lparr>ch_blocks := init_BlockCache Map.empty Map.empty (map_of hth) ses,
                  ch_heights_in_cache := Map.empty\<rparr>;
         self = foldl (\<lambda>self (k, b). ch_add_block_record b self) self records in
     if records = [] then rbind (py_assert (peak = None)) (\<lambda>_. Ok (self\<lparr>ch_peak_height := None\<rparr>))
     else
       rbind (unwrap AssertionError peak) (\<lambda>peak.
       rbind (block_record (ch_blocks self) peak) (\<lambda>b.
       rbind (py_assert (int (length hth) = height b + 1)) (\<lambda>_.
         Ok (self\<lparr>ch_peak_height := Some (height b)\<rparr>)))))"

definition create_blockchain :: "CoinStore \<Rightarrow> BlockStore \<Rightarrow> ConsensusConstants \<Rightarrow> Blockchain res" where
  "create_blockchain coin_store block_store c =
     load_chain_from_store
       \<lparr>ch_constants = c, ch_peak_height = None, ch_blocks = init_BlockCache Map.empty Map.empty Map.empty [],
        ch_heights_in_cache = Map.empty, ch_coin_store = coin_store, ch_block_store = block_store,
        ch_seen_compact_proofs = {}\<rparr>"

section \<open>The generator of a block\<close>

text \<open>The blocks a generator refers to; \<^verbatim>\<open>raise ValueError(Err.GENERATOR_REF_HAS_NO_GENERATOR)\<close> is the
  error value \<open>Inl\<close>, as two callers catch it.\<close>

fun generator_args ::
    "(int \<Rightarrow> BlockStore \<Rightarrow> (FullBlock option \<times> BlockStore) res) \<Rightarrow> int list \<Rightarrow> BlockStore \<Rightarrow>
     ((Err + GeneratorArg list) \<times> BlockStore) res" where
  "generator_args find_block [] st = Ok (Inr [], st)"
| "generator_args find_block (ref_height # refs) st =
     rbind (find_block ref_height st) (\<lambda>(ref_block, st).
     rbind (unwrap AssertionError ref_block) (\<lambda>ref_block.
       case fb_transactions_generator ref_block of
         None \<Rightarrow> Ok (Inl GENERATOR_REF_HAS_NO_GENERATOR, st)
       | Some g \<Rightarrow>
           rbind (generator_args find_block refs st) (\<lambda>(r, st).
             Ok (case r of Inl e \<Rightarrow> Inl e
                 | Inr args \<Rightarrow> Inr (\<lparr>ga_block_height = fb_height ref_block, ga_generator = g\<rparr> # args), st))))"

text \<open>The loop through \<^verbatim>\<open>additional_blocks\<close>; both dictionaries it fills get the same entries.\<close>

partial_function (option) additional_loop ::
    "(bytes \<Rightarrow> FullBlock option) \<Rightarrow> BlockBody \<Rightarrow> (int \<Rightarrow> FullBlock option) \<Rightarrow>
     (BlockBody \<times> (int \<Rightarrow> FullBlock option)) res" where
  "additional_loop additional cur d =
     (case additional (bb_prev_header_hash cur) of None \<Rightarrow> Ok (cur, d)
      | Some prev \<Rightarrow>
          rbind (py_assert (bb_own_height cur \<noteq> None \<longrightarrow> bb_own_height cur = Some (fb_height prev + 1))) (\<lambda>_.
            additional_loop additional (body_of_full prev) (d(fb_height prev \<mapsto> prev))))"

partial_function (option) reorg_loop ::
    "int \<Rightarrow> FullBlock \<Rightarrow> (int \<Rightarrow> FullBlock option) \<Rightarrow> BlockStore \<Rightarrow>
     ((int \<Rightarrow> FullBlock option) \<times> BlockStore) res" where
  "reorg_loop fork curr_2 reorg_chain st =
     (if fb_height curr_2 > fork \<and> fb_height curr_2 > 0 then
        (case get_full_block st (fb_prev_header_hash curr_2) of (b, st) \<Rightarrow>
           rbind (unwrap AssertionError b) (\<lambda>curr_2.
             reorg_loop fork curr_2 (reorg_chain(fb_height curr_2 \<mapsto> curr_2)) st))
      else Ok (reorg_chain, st))"

declare additional_loop.simps [code] reorg_loop.simps [code]

definition in_main_chain :: "Blockchain \<Rightarrow> bytes \<Rightarrow> bool res" where
  "in_main_chain self hh =
     rbind (try_block_record (ch_blocks self) hh) (\<lambda>r.
       case r of None \<Rightarrow> Ok False
       | Some b \<Rightarrow> rbind (ch_height_to_hash self (height b)) (\<lambda>h. Ok (h = hh)))"

definition block_at_height :: "Blockchain \<Rightarrow> int \<Rightarrow> BlockStore \<Rightarrow> (FullBlock option \<times> BlockStore) res" where
  "block_at_height self ref_height st =
     rbind (ch_height_to_hash self ref_height) (\<lambda>hh. Ok (get_full_block st hh))"

definition reorg_blocks ::
    "Blockchain \<Rightarrow> BlockBody \<Rightarrow> (int \<Rightarrow> FullBlock option) \<Rightarrow> BlockStore \<Rightarrow>
     ((int \<Rightarrow> FullBlock option) \<times> BlockStore) res" where
  "reorg_blocks self cur reorg_chain st =
     rbind (get_peak self) (\<lambda>peak.
       case peak of
         Some peak \<Rightarrow>
           if contains_block (ch_blocks self) (bb_prev_header_hash cur) then
             (case get_full_block st (bb_prev_header_hash cur) of (prev_block, st) \<Rightarrow>
                rbind (unwrap AssertionError prev_block) (\<lambda>prev_block.
                rbind (unwrap AssertionError (bs_get_block_record st (bb_prev_header_hash cur))) (\<lambda>prev_rec.
                rbind (find_fork_point_in_chain (ch_blocks self) peak prev_rec) (\<lambda>fork.
                  reorg_loop fork prev_block (reorg_chain(fb_height prev_block \<mapsto> prev_block)) st))))
           else Ok (reorg_chain, st)
       | None \<Rightarrow> Ok (reorg_chain, st))"

definition collect_args ::
    "Blockchain \<Rightarrow> BlockBody \<Rightarrow> (bytes \<Rightarrow> FullBlock option) \<Rightarrow>
     ((Err + GeneratorArg list) \<times> BlockStore) res" where
  "collect_args self block additional =
     (let refs = bb_transactions_generator_ref_list block in
      rbind (in_main_chain self (bb_prev_header_hash block)) (\<lambda>in_chain.
        if in_chain then generator_args (block_at_height self) refs (ch_block_store self)
        else
          rbind (additional_loop additional block Map.empty) (\<lambda>(cur, additional_heights).
          rbind (reorg_blocks self cur additional_heights (ch_block_store self)) (\<lambda>(reorg_chain, st).
            generator_args (\<lambda>ref_height st.
                case reorg_chain ref_height of Some b \<Rightarrow> Ok (Some b, st)
                | None \<Rightarrow>
                    (case additional_heights ref_height of Some b \<Rightarrow> Ok (Some b, st)
                     | None \<Rightarrow> block_at_height self ref_height st)) refs st))))"

definition find_generator ::
    "Blockchain \<Rightarrow> BlockBody \<Rightarrow> (bytes \<Rightarrow> FullBlock option) \<Rightarrow>
     ((Err + BlockGenerator option) \<times> Blockchain) res" where
  "find_generator self block additional =
     (case bb_transactions_generator block of
        None \<Rightarrow> rbind (py_assert (bb_transactions_generator_ref_list block = [])) (\<lambda>_. Ok (Inr None, self))
      | Some program \<Rightarrow>
          if bb_transactions_generator_ref_list block = [] then
            Ok (Inr (Some \<lparr>bg_program = program, bg_generator_args = []\<rparr>), self)
          else
            rbind (collect_args self block additional) (\<lambda>(r, st).
              case r of Inl e \<Rightarrow> Ok (Inl e, self\<lparr>ch_block_store := st\<rparr>)
              | Inr args \<Rightarrow>
                  rbind (py_assert (length args = length (bb_transactions_generator_ref_list block))) (\<lambda>_.
                    Ok (Inr (Some \<lparr>bg_program = program, bg_generator_args = args\<rparr>),
                        self\<lparr>ch_block_store := st\<rparr>))))"

definition get_block_generator ::
    "Blockchain \<Rightarrow> BlockBody \<Rightarrow> (bytes \<Rightarrow> FullBlock option) \<Rightarrow> (BlockGenerator option \<times> Blockchain) res" where
  "get_block_generator self block additional =
     rbind (find_generator self block additional) (\<lambda>(r, self).
       case r of Inl e \<Rightarrow> Raise ValueError | Inr g \<Rightarrow> Ok (g, self))"

section \<open>A new block\<close>

text \<open>A full block where the source takes a full block or a header block: the two have the same fields,
  and the filter is not read.\<close>

definition full_header :: "FullBlock \<Rightarrow> HeaderBlock" where
  "full_header block =
     \<lparr>hb_finished_sub_slots = fb_finished_sub_slots block, hb_reward_chain_block = fb_reward_chain_block block,
      hb_challenge_chain_sp_proof = fb_challenge_chain_sp_proof block,
      hb_challenge_chain_ip_proof = fb_challenge_chain_ip_proof block,
      hb_reward_chain_sp_proof = fb_reward_chain_sp_proof block,
      hb_reward_chain_ip_proof = fb_reward_chain_ip_proof block,
      hb_infused_challenge_chain_ip_proof = fb_infused_challenge_chain_ip_proof block,
      hb_foliage = fb_foliage block, hb_foliage_transaction_block = fb_foliage_transaction_block block,
      hb_transactions_filter = [], hb_transactions_info = fb_transactions_info block\<rparr>"

definition get_tx_removals_and_additions ::
    "crypto \<Rightarrow> 's clvm \<Rightarrow> Blockchain \<Rightarrow> FullBlock \<Rightarrow> NPCResult option \<Rightarrow>
     ((bytes list \<times> Coin list) \<times> Blockchain) res" where
  "get_tx_removals_and_additions cr vm self block npc_result =
     (if fb_is_transaction_block block \<and> fb_transactions_generator block \<noteq> None then
        rbind (case npc_result of
                 Some r \<Rightarrow> Ok (r, self)
               | None \<Rightarrow>
                   rbind (get_block_generator self (body_of_full block) Map.empty) (\<lambda>(g, self).
                   rbind (unwrap AssertionError g) (\<lambda>g.
                   rbind (get_name_puzzle_conditions cr vm g (MAX_BLOCK_COST_CLVM (ch_constants self))
                            (COST_PER_BYTE (ch_constants self)) False) (\<lambda>r. Ok (r, self))))) (\<lambda>(r, self).
        rbind (tx_removals_and_additions cr (Some (npc_list r))) (\<lambda>x. Ok (x, self)))
      else Ok (([], []), self))"

text \<open>The blocks from the new peak down to the fork.\<close>

partial_function (option) blocks_to_fork ::
    "(int \<Rightarrow> bytes res) \<Rightarrow> int \<Rightarrow> bytes \<Rightarrow> BlockStore \<Rightarrow> (FullBlock \<times> BlockRecord) list \<Rightarrow>
     ((FullBlock \<times> BlockRecord) list \<times> BlockStore) res" where
  "blocks_to_fork hash_at fork_h cur st acc =
     rbind (if fork_h < 0 then Ok True else rbind (uint32 fork_h) (\<lambda>f. rbind (hash_at f) (\<lambda>h. Ok (cur \<noteq> h))))
       (\<lambda>more.
         if more then
           (case get_full_block st cur of (b, st) \<Rightarrow>
              rbind (unwrap AssertionError b) (\<lambda>b.
              rbind (unwrap AssertionError (bs_get_block_record st cur)) (\<lambda>r.
                if fb_height b = 0 then Ok (acc @ [(b, r)], st)
                else blocks_to_fork hash_at fork_h (prev_hash r) st (acc @ [(b, r)]))))
         else Ok (acc, st))"

declare blocks_to_fork.simps [code]

definition apply_block ::
    "crypto \<Rightarrow> 's clvm \<Rightarrow> bytes \<Rightarrow> NPCResult option \<Rightarrow> FullBlock \<times> BlockRecord \<Rightarrow>
     BlockRecord list \<times> Blockchain \<Rightarrow> (BlockRecord list \<times> Blockchain) res" where
  "apply_block cr vm new_hash npc_result = (\<lambda>(block, rec) (records, self).
     if is_transaction_block rec then
       rbind (get_tx_removals_and_additions cr vm self block
                (if header_hash rec = new_hash then npc_result else None)) (\<lambda>((rems, adds), self).
       rbind (new_block cr (ch_coin_store self) block adds rems) (\<lambda>coins.
         Ok (records @ [rec], self\<lparr>ch_coin_store := coins\<rparr>)))
     else Ok (records @ [rec], self))"

definition fork_with_peak ::
    "Blockchain \<Rightarrow> BlockRecord \<Rightarrow> BlockRecord \<Rightarrow> int option \<Rightarrow> int res" where
  "fork_with_peak self rec peak fork_point_with_peak =
     (if prev_hash rec = header_hash peak then Ok (height peak)
      else case fork_point_with_peak of Some f \<Rightarrow> Ok f
           | None \<Rightarrow> find_fork_point_in_chain (ch_blocks self) rec peak)"

definition reconsider_peak ::
    "crypto \<Rightarrow> 's clvm \<Rightarrow> Blockchain \<Rightarrow> BlockRecord \<Rightarrow> bool \<Rightarrow> int option \<Rightarrow> NPCResult option \<Rightarrow>
     ((int option \<times> int option \<times> BlockRecord list) \<times> Blockchain) res" where
  "reconsider_peak cr vm self rec genesis fork_point_with_peak npc_result =
     rbind (get_peak self) (\<lambda>peak.
       if genesis then
         (if peak = None then
            (case ch_get_full_block self (header_hash rec) of (block, self) \<Rightarrow>
               rbind (unwrap AssertionError block) (\<lambda>block.
               rbind (tx_removals_and_additions cr (map_option npc_list npc_result)) (\<lambda>(rems, adds).
               rbind (new_block cr (ch_coin_store self) block adds rems) (\<lambda>coins.
                 Ok ((Some 0, Some 0, [rec]),
                     self\<lparr>ch_coin_store := coins,
                          ch_block_store := set_peak (ch_block_store self) (header_hash rec)\<rparr>)))))
          else Ok ((None, None, []), self))
       else
         rbind (unwrap AssertionError peak) (\<lambda>peak.
           if weight rec > weight peak then
             rbind (fork_with_peak self rec peak fork_point_with_peak) (\<lambda>fork_h.
             rbind (if prev_hash rec \<noteq> header_hash peak then rollback_to_block cr (ch_coin_store self) fork_h
                    else Ok (ch_coin_store self)) (\<lambda>coins.
             let self = self\<lparr>ch_coin_store := coins,
                   ch_blocks := (ch_blocks self)\<lparr>sub_epoch_summaries :=
                     filter (\<lambda>(h, s). \<not> h > fork_h) (sub_epoch_summaries (ch_blocks self))\<rparr>\<rparr> in
             rbind (blocks_to_fork (ch_height_to_hash self) fork_h (header_hash rec) (ch_block_store self) [])
               (\<lambda>(to_add, st).
             rbind (rfold (apply_block cr vm (header_hash rec) npc_result) (rev to_add)
                      ([], self\<lparr>ch_block_store := st\<rparr>)) (\<lambda>(records, self).
             rbind (uint32 (max fork_h 0)) (\<lambda>f.
               Ok ((Some f, Some (height rec), records),
                   self\<lparr>ch_block_store := set_peak (ch_block_store self) (header_hash rec)\<rparr>))))))
           else Ok ((None, None, []), self)))"

text \<open>The header, when the block was not validated before: the required iterations and the conditions.\<close>

definition receive_header ::
    "crypto \<Rightarrow> 's clvm \<Rightarrow> int \<Rightarrow> Blockchain \<Rightarrow> FullBlock \<Rightarrow> ((Err + int \<times> NPCResult option) \<times> Blockchain) res" where
  "receive_header cr vm now self block =
     (let c = ch_constants self in
      rbind (if fb_height block = 0 then Ok None
             else rbind (block_record (ch_blocks self) (fb_prev_header_hash block)) (\<lambda>b. Ok (Some b))) (\<lambda>prev_b.
      rbind (get_next_sub_slot_iters_and_difficulty c (length (fb_finished_sub_slots block) > 0) prev_b
               (ch_blocks self)) (\<lambda>(ssi, difficulty).
      rbind (if fb_is_transaction_block block \<and> fb_transactions_generator block \<noteq> None then
               rbind (find_generator self (body_of_full block) Map.empty) (\<lambda>(r, self).
                 case r of Inl e \<Rightarrow> Ok (Inl e, self)
                 | Inr g \<Rightarrow>
                     rbind (unwrap AssertionError g) (\<lambda>g.
                     rbind (unwrap AssertionError (fb_transactions_info block)) (\<lambda>ti.
                     rbind (get_name_puzzle_conditions cr vm g (min (MAX_BLOCK_COST_CLVM c) (ti_cost ti))
                              (COST_PER_BYTE c) False) (\<lambda>npc. Ok (Inr (Some npc), self)))))
             else Ok (Inr None, self)) (\<lambda>(r, self).
        case r of Inl e \<Rightarrow> Ok (Inl e, self)
        | Inr npc_result \<Rightarrow>
            rbind (tx_removals_and_additions cr (map_option npc_list npc_result)) (\<lambda>(rems, adds).
            rbind (get_block_header cr block adds rems) (\<lambda>header_block.
            rbind (validate_finished_header_block cr c (ch_blocks self) header_block False difficulty ssi True now)
              (\<lambda>v. Ok (case v of Inl e \<Rightarrow> Inl e | Inr r \<Rightarrow> Inr (r, npc_result), self))))))))"

text \<open>The body, the record and the database; then the cache in memory.\<close>

definition put_height :: "BlockRecord \<Rightarrow> BlockCache \<Rightarrow> BlockCache" where
  "put_height r bs =
     bs\<lparr>height_to_hash_map := (height_to_hash_map bs)(height r \<mapsto> header_hash r),
        sub_epoch_summaries := (case sub_epoch_summary_included r of
            Some s \<Rightarrow> AList.update (height r) s (sub_epoch_summaries bs)
          | None \<Rightarrow> sub_epoch_summaries bs)\<rparr>"

definition add_valid_block ::
    "crypto \<Rightarrow> 's clvm \<Rightarrow> Blockchain \<Rightarrow> FullBlock \<Rightarrow> int \<Rightarrow> NPCResult option \<Rightarrow> int option \<Rightarrow>
     (int option \<times> Blockchain) res" where
  "add_valid_block cr vm self block req_iters npc_result fork_point_with_peak =
     rbind (block_to_block_record cr (ch_constants self) (ch_blocks self) req_iters (Some (full_header block)) None)
       (\<lambda>rec.
     rbind (fb_header_hash cr block) (\<lambda>hh.
     let self = self\<lparr>ch_block_store := add_full_block (ch_block_store self) hh block rec\<rparr> in
     rbind (reconsider_peak cr vm self rec (fb_height block = 0) fork_point_with_peak npc_result)
       (\<lambda>((fork_h, peak_height, records), self).
     let self = ch_add_block_record rec self;
         blocks = foldl (\<lambda>bs r. put_height r bs) (ch_blocks self) records in
       Ok (fork_h, self\<lparr>ch_blocks := blocks,
            ch_peak_height := (case peak_height of Some p \<Rightarrow> Some p | None \<Rightarrow> ch_peak_height self)\<rparr>))))"

text \<open>The header is not validated again when the caller gives its result.\<close>

definition known_header ::
    "crypto \<Rightarrow> 's clvm \<Rightarrow> int \<Rightarrow> Blockchain \<Rightarrow> FullBlock \<Rightarrow> PreValidationResult option \<Rightarrow>
     ((Err + int \<times> NPCResult option) \<times> Blockchain) res" where
  "known_header cr vm now self block pre_validation_result =
     (case pre_validation_result of
        None \<Rightarrow> receive_header cr vm now self block
      | Some pre \<Rightarrow>
          rbind (py_assert (pvr_error pre = None)) (\<lambda>_.
          rbind (unwrap AssertionError (pvr_required_iters pre)) (\<lambda>r.
            Ok (Inr (r, pvr_npc_result pre), self))))"

definition receive_body ::
    "crypto \<Rightarrow> 's clvm \<Rightarrow> Blockchain \<Rightarrow> FullBlock \<Rightarrow> int \<Rightarrow> NPCResult option \<Rightarrow> int option \<Rightarrow>
     ((ReceiveBlockResult \<times> Err option \<times> int option) \<times> Blockchain) res" where
  "receive_body cr vm self block req_iters npc_result fork_point_with_peak =
     rbind (get_peak self) (\<lambda>peak.
     rbind (validate_block_body cr vm (ch_constants self) (ch_blocks self)
              (\<lambda>h. fst (get_full_block (ch_block_store self) h)) (ch_coin_store self) peak (body_of_full block)
              (fb_height block) npc_result fork_point_with_peak
              (\<lambda>b. rbind (get_block_generator self (body_of_full b) Map.empty) (\<lambda>(g, s). Ok g))) (\<lambda>v.
       case v of Inl e \<Rightarrow> Ok ((INVALID_BLOCK, Some e, None), self)
       | Inr (_, coin_store) \<Rightarrow>
           rbind (add_valid_block cr vm (self\<lparr>ch_coin_store := coin_store\<rparr>) block req_iters npc_result
                    fork_point_with_peak) (\<lambda>(fork_h, self).
             Ok (case fork_h of Some f \<Rightarrow> (NEW_PEAK, None, Some f) | None \<Rightarrow> (ADDED_AS_ORPHAN, None, None), self))))"

definition receive_block ::
    "crypto \<Rightarrow> 's clvm \<Rightarrow> int \<Rightarrow> Blockchain \<Rightarrow> FullBlock \<Rightarrow> PreValidationResult option \<Rightarrow> int option \<Rightarrow>
     ((ReceiveBlockResult \<times> Err option \<times> int option) \<times> Blockchain) res" where
  "receive_block cr vm now self block pre_validation_result fork_point_with_peak =
     rbind (fb_header_hash cr block) (\<lambda>hh.
       if contains_block (ch_blocks self) hh then Ok ((ALREADY_HAVE_BLOCK, None, None), self)
       else if \<not> contains_block (ch_blocks self) (fb_prev_header_hash block) \<and> fb_height block \<noteq> 0 then
         Ok ((DISCONNECTED_BLOCK, Some INVALID_PREV_BLOCK_HASH, None), self)
       else
         rbind (if fb_height block = 0 then Ok False
                else rbind (block_record (ch_blocks self) (fb_prev_header_hash block)) (\<lambda>p.
                       Ok (height p + 1 \<noteq> fb_height block))) (\<lambda>wrong_height.
         if wrong_height then Ok ((INVALID_BLOCK, Some INVALID_HEIGHT, None), self)
         else
         rbind (known_header cr vm now self block pre_validation_result) (\<lambda>(r, self).
           case r of Inl e \<Rightarrow> Ok ((INVALID_BLOCK, Some e, None), self)
           | Inr (req_iters, npc_result) \<Rightarrow>
               receive_body cr vm self block req_iters npc_result fork_point_with_peak)))"

section \<open>Unfinished blocks\<close>

definition pre_error :: "Err \<Rightarrow> PreValidationResult res" where
  "pre_error e = rbind (uint16 (Err_value e)) (\<lambda>v.
     Ok \<lparr>pvr_error = Some v, pvr_required_iters = None, pvr_npc_result = None\<rparr>)"

definition unfinished_header :: "UnfinishedBlock \<Rightarrow> UnfinishedHeaderBlock" where
  "unfinished_header block =
     \<lparr>uhb_finished_sub_slots = ub_finished_sub_slots block, uhb_reward_chain_block = ub_reward_chain_block block,
      uhb_challenge_chain_sp_proof = ub_challenge_chain_sp_proof block,
      uhb_reward_chain_sp_proof = ub_reward_chain_sp_proof block, uhb_foliage = ub_foliage block,
      uhb_foliage_transaction_block = ub_foliage_transaction_block block, uhb_transactions_filter = []\<rparr>"

definition unfinished_conditions ::
    "crypto \<Rightarrow> 's clvm \<Rightarrow> Blockchain \<Rightarrow> UnfinishedBlock \<Rightarrow> ((Err + NPCResult option) \<times> Blockchain) res" where
  "unfinished_conditions cr vm self block =
     (let c = ch_constants self in
      if ub_transactions_generator block = None then Ok (Inr None, self)
      else
        rbind (unwrap AssertionError (ub_transactions_info block)) (\<lambda>ti.
        rbind (find_generator self (body_of_unfinished block) Map.empty) (\<lambda>(r, self).
          case r of Inl e \<Rightarrow> Ok (Inl e, self)
          | Inr None \<Rightarrow> Ok (Inl GENERATOR_REF_HAS_NO_GENERATOR, self)
          | Inr (Some g) \<Rightarrow>
              rbind (get_name_puzzle_conditions cr vm g (min (MAX_BLOCK_COST_CLVM c) (ti_cost ti))
                       (COST_PER_BYTE c) False) (\<lambda>npc. Ok (Inr (Some npc), self)))))"

definition unfinished_body ::
    "crypto \<Rightarrow> 's clvm \<Rightarrow> Blockchain \<Rightarrow> UnfinishedBlock \<Rightarrow> int \<Rightarrow> int \<Rightarrow> NPCResult option \<Rightarrow>
     (PreValidationResult \<times> Blockchain) res" where
  "unfinished_body cr vm self block req_iters prev_height npc_result =
     rbind (get_peak self) (\<lambda>peak.
     rbind (uint32 (prev_height + 1)) (\<lambda>h.
     rbind (validate_block_body cr vm (ch_constants self) (ch_blocks self)
              (\<lambda>h. fst (get_full_block (ch_block_store self) h)) (ch_coin_store self) peak (body_of_unfinished block) h
              npc_result None
              (\<lambda>b. rbind (get_block_generator self (body_of_full b) Map.empty) (\<lambda>(g, s). Ok g))) (\<lambda>v.
       case v of Inl e \<Rightarrow> rbind (pre_error e) (\<lambda>r. Ok (r, self))
       | Inr (cost_result, coin_store) \<Rightarrow>
           Ok (\<lparr>pvr_error = None, pvr_required_iters = Some req_iters, pvr_npc_result = cost_result\<rparr>,
               self\<lparr>ch_coin_store := coin_store\<rparr>))))"

definition validate_unfinished_block ::
    "crypto \<Rightarrow> 's clvm \<Rightarrow> int \<Rightarrow> Blockchain \<Rightarrow> UnfinishedBlock \<Rightarrow> bool \<Rightarrow> (PreValidationResult \<times> Blockchain) res" where
  "validate_unfinished_block cr vm now self block skip_overflow_ss_validation =
     (let c = ch_constants self; prev_hh = prev_block_hash (ub_foliage block) in
      if \<not> contains_block (ch_blocks self) prev_hh \<and> prev_hh \<noteq> GENESIS_CHALLENGE c then
        rbind (pre_error INVALID_PREV_BLOCK_HASH) (\<lambda>r. Ok (r, self))
      else
        rbind (try_block_record (ch_blocks self) prev_hh) (\<lambda>prev_b.
        rbind (get_next_sub_slot_iters_and_difficulty c (length (ub_finished_sub_slots block) > 0) prev_b
                 (ch_blocks self)) (\<lambda>(ssi, difficulty).
        rbind (validate_unfinished_header_block cr c (ch_blocks self) (unfinished_header block) False difficulty ssi
                 skip_overflow_ss_validation False True now) (\<lambda>v.
        case v of Inl e \<Rightarrow> rbind (pre_error e) (\<lambda>r. Ok (r, self))
        | Inr req_iters \<Rightarrow>
            rbind (if prev_hh = GENESIS_CHALLENGE c then Ok (- 1)
                   else rbind (block_record (ch_blocks self) prev_hh) (\<lambda>p. Ok (height p))) (\<lambda>prev_height.
            rbind (unfinished_conditions cr vm self block) (\<lambda>(r, self).
              case r of Inl e \<Rightarrow> rbind (pre_error e) (\<lambda>r. Ok (r, self))
              | Inr npc_result \<Rightarrow> unfinished_body cr vm self block req_iters prev_height npc_result))))))"

section \<open>Difficulty and challenges for the peers\<close>

definition ch_get_next_difficulty :: "Blockchain \<Rightarrow> bytes \<Rightarrow> bool \<Rightarrow> int res" where
  "ch_get_next_difficulty self hh new_slot =
     rbind (py_assert (contains_block (ch_blocks self) hh)) (\<lambda>_.
     rbind (block_record (ch_blocks self) hh) (\<lambda>cur.
       if height cur \<le> 2 then Ok (DIFFICULTY_STARTING (ch_constants self))
       else rbind (get_next_sub_slot_iters_and_difficulty (ch_constants self) new_slot (Some cur) (ch_blocks self))
              (\<lambda>(ssi, difficulty). Ok difficulty)))"

definition ch_get_next_slot_iters :: "Blockchain \<Rightarrow> bytes \<Rightarrow> bool \<Rightarrow> int res" where
  "ch_get_next_slot_iters self hh new_slot =
     rbind (py_assert (contains_block (ch_blocks self) hh)) (\<lambda>_.
     rbind (block_record (ch_blocks self) hh) (\<lambda>cur.
       if height cur \<le> 2 then Ok (SUB_SLOT_ITERS_STARTING (ch_constants self))
       else rbind (get_next_sub_slot_iters_and_difficulty (ch_constants self) new_slot (Some cur) (ch_blocks self))
              (\<lambda>(ssi, difficulty). Ok ssi)))"

text \<open>The block of the record if it starts a sub-slot, and the given one otherwise.\<close>

definition slot_start_block :: "Blockchain \<Rightarrow> BlockRecord \<Rightarrow> FullBlock \<Rightarrow> (FullBlock \<times> Blockchain) res" where
  "slot_start_block self rec other =
     (if first_in_sub_slot rec then
        (case ch_get_full_block self (header_hash rec) of (b, self) \<Rightarrow>
           rbind (unwrap AssertionError b) (\<lambda>b. Ok (b, self)))
      else Ok (other, self))"

text \<open>The sub-slot of the signage point of an overflow block with one sub-slot: the last one before it.\<close>

definition sp_slot_before ::
    "crypto \<Rightarrow> Blockchain \<Rightarrow> FullBlock \<Rightarrow> (EndOfSubSlotBundle option \<times> Blockchain) res" where
  "sp_slot_before cr self cur =
     (case ch_get_full_block self (fb_prev_header_hash cur) of (prev_cur, self) \<Rightarrow>
        rbind (case prev_cur of
                 None \<Rightarrow> rbind (py_assert (fb_height cur = 0)) (\<lambda>_.
                           rbind (fb_header_hash cr cur) (\<lambda>h.
                           rbind (block_record (ch_blocks self) h) (\<lambda>r. Ok (cur, r))))
               | Some p \<Rightarrow> rbind (block_record (ch_blocks self) (fb_prev_header_hash cur)) (\<lambda>r. Ok (p, r)))
          (\<lambda>(prev_cur, prev_cur_br).
        rbind (walk (block_record (ch_blocks self)) (\<lambda>b. \<not> first_in_sub_slot b \<and> height b > 0) prev_cur_br) (\<lambda>r.
        rbind (if height r > 0 then slot_start_block self r prev_cur else Ok (prev_cur, self)) (\<lambda>(prev_cur, self).
          if length (fb_finished_sub_slots prev_cur) = 0 then Ok (None, self)
          else rbind (py_last (fb_finished_sub_slots prev_cur)) (\<lambda>sp_sub_slot. Ok (Some sp_sub_slot, self))))))"

definition get_sp_and_ip_sub_slots ::
    "crypto \<Rightarrow> Blockchain \<Rightarrow> bytes \<Rightarrow>
     ((EndOfSubSlotBundle option \<times> EndOfSubSlotBundle option) option \<times> Blockchain) res" where
  "get_sp_and_ip_sub_slots cr self hh =
     (case ch_get_full_block self hh of
        (None, self) \<Rightarrow> Ok (None, self)
      | (Some block, self) \<Rightarrow>
          rbind (fb_header_hash cr block) (\<lambda>block_hash.
          rbind (block_record (ch_blocks self) block_hash) (\<lambda>cur_br.
          rbind (walk (block_record (ch_blocks self)) (\<lambda>b. \<not> first_in_sub_slot b \<and> height b \<noteq> 0) cur_br) (\<lambda>rec.
          rbind (slot_start_block self rec block) (\<lambda>(cur, self).
          let slots = fb_finished_sub_slots cur in
          if length slots = 0 then Ok (Some (None, None), self)
          else
            rbind (py_last slots) (\<lambda>ip_sub_slot.
              if \<not> overflow cur_br then Ok (Some (None, Some ip_sub_slot), self)
              else if length slots > 1 then
                rbind (py_nth slots (- 2)) (\<lambda>sp_sub_slot. Ok (Some (Some sp_sub_slot, Some ip_sub_slot), self))
              else
                rbind (sp_slot_before cr self cur) (\<lambda>(sp, self). Ok (Some (sp, Some ip_sub_slot), self))))))))"

fun slot_challenges :: "int \<Rightarrow> bytes list \<Rightarrow> int \<Rightarrow> (bytes \<times> int) list res" where
  "slot_challenges ssi [] slot_total_iters = Ok []"
| "slot_challenges ssi (rc # rcs) slot_total_iters =
     (if slot_total_iters < ssi then Ok []
      else rbind (uint128 (slot_total_iters - ssi)) (\<lambda>t.
           rbind (slot_challenges ssi rcs t) (\<lambda>rest. Ok ((rc, slot_total_iters) # rest))))"

partial_function (option) reward_challenges_loop ::
    "ConsensusConstants \<Rightarrow> BlockCache \<Rightarrow> BlockRecord \<Rightarrow> BlockRecord option \<Rightarrow> (bytes \<times> int) list \<Rightarrow>
     (bytes \<times> int) list res" where
  "reward_challenges_loop c blocks peak cur recent_rc =
     (case cur of None \<Rightarrow> Ok recent_rc
      | Some b \<Rightarrow>
          if int (length recent_rc) < 2 * MAX_SUB_SLOT_BLOCKS c then
            rbind (if b \<noteq> peak then Ok (recent_rc @ [(reward_infusion_new_challenge b, total_iters b)])
                   else Ok recent_rc) (\<lambda>recent_rc.
            rbind (if first_in_sub_slot b then
                     rbind (unwrap AssertionError (finished_reward_slot_hashes b)) (\<lambda>hs.
                     rbind (ip_sub_slot_total_iters c b) (\<lambda>t.
                     rbind (slot_challenges (sub_slot_iters b) (rev hs) t) (\<lambda>new. Ok (recent_rc @ new))))
                   else Ok recent_rc) (\<lambda>recent_rc.
            rbind (try_block_record blocks (prev_hash b)) (\<lambda>prev.
              reward_challenges_loop c blocks peak prev recent_rc)))
          else Ok recent_rc)"

declare reward_challenges_loop.simps [code]

definition get_recent_reward_challenges :: "Blockchain \<Rightarrow> (bytes \<times> int) list res" where
  "get_recent_reward_challenges self =
     rbind (get_peak self) (\<lambda>peak.
       case peak of None \<Rightarrow> Ok []
       | Some p \<Rightarrow> rbind (reward_challenges_loop (ch_constants self) (ch_blocks self) p (Some p) [])
                     (\<lambda>recent_rc. Ok (rev recent_rc)))"

section \<open>The cache of records\<close>

definition warmup :: "Blockchain \<Rightarrow> int \<Rightarrow> Blockchain res" where
  "warmup self fork_point =
     (if ch_peak_height self = None then Ok self
      else Ok (foldl (\<lambda>self (k, b). ch_add_block_record b self) self
             (get_block_records_in_range (ch_block_store self)
                (max (fork_point - BLOCKS_CACHE_SIZE (ch_constants self)) 0) fork_point)))"

text \<open>The records of one height leave the cache.\<close>

definition drop_height :: "int \<Rightarrow> bytes set \<Rightarrow> Blockchain \<Rightarrow> Blockchain res" where
  "drop_height h hs self =
     (if \<exists>hh\<in>hs. \<not> contains_block (ch_blocks self) hh then Raise KeyError
      else Ok (self\<lparr>ch_blocks := (ch_blocks self)\<lparr>block_records :=
                 (\<lambda>hh. if hh \<in> hs then None else block_records (ch_blocks self) hh)\<rparr>,
               ch_heights_in_cache := (ch_heights_in_cache self)(h := None)\<rparr>))"

fun clean_loop :: "nat \<Rightarrow> Blockchain \<Rightarrow> Blockchain res" where
  "clean_loop h self =
     (case ch_heights_in_cache self (int h) of None \<Rightarrow> Ok self
      | Some hs \<Rightarrow>
          rbind (drop_height (int h) hs self) (\<lambda>self. if h = 0 then Ok self else clean_loop (h - 1) self))"

declare clean_loop.simps [simp del]

definition clean_block_record :: "Blockchain \<Rightarrow> int \<Rightarrow> Blockchain res" where
  "clean_block_record self h =
     (if h < 0 then Ok self else rbind (uint32 h) (\<lambda>h. clean_loop (nat h) self))"

definition clean_block_records :: "Blockchain \<Rightarrow> Blockchain res" where
  "clean_block_records self =
     (if int (card (dom (block_records (ch_blocks self)))) < BLOCKS_CACHE_SIZE (ch_constants self) then Ok self
      else
        rbind (get_peak self) (\<lambda>peak.
        rbind (unwrap AssertionError peak) (\<lambda>peak.
          if height peak - BLOCKS_CACHE_SIZE (ch_constants self) < 0 then Ok self
          else clean_block_record self (height peak - BLOCKS_CACHE_SIZE (ch_constants self)))))"

section \<open>Reading blocks and records\<close>

text \<open>The cached blocks first, in the order of their heights, then the others from the table.\<close>

fun take_cached ::
    "bytes list \<Rightarrow> (bytes, FullBlock) LRUCache \<Rightarrow> FullBlock list \<times> bytes list \<times> (bytes, FullBlock) LRUCache" where
  "take_cached [] cache = ([], [], cache)"
| "take_cached (hh # hashes) cache =
     (case lru_get cache hh of
        (Some b, cache) \<Rightarrow> (case take_cached hashes cache of (bs, rest, cache) \<Rightarrow> (b # bs, rest, cache))
      | (None, cache) \<Rightarrow> (case take_cached hashes cache of (bs, rest, cache) \<Rightarrow> (bs, hh # rest, cache)))"

definition header_with_filter :: "crypto \<Rightarrow> Blockchain \<Rightarrow> bool \<Rightarrow> FullBlock \<Rightarrow> HeaderBlock res" where
  "header_with_filter cr self tx_filter block =
     rbind (ch_height_to_hash self (fb_height block)) (\<lambda>h.
     rbind (fb_header_hash cr block) (\<lambda>hh.
       if h \<noteq> hh then Raise ValueError
       else if \<not> tx_filter then get_block_header cr block [] []
       else
         let added = filter (\<lambda>r. \<not> cr_coinbase r) (get_coins_added_at_height (ch_coin_store self) (fb_height block));
             removed = get_coins_removed_at_height (ch_coin_store self) (fb_height block) in
         rbind (rmap (\<lambda>r. coin_name cr (cr_coin r)) removed) (\<lambda>names.
           get_block_header cr block (map cr_coin added) names)))"

definition get_header_blocks_in_range ::
    "crypto \<Rightarrow> Blockchain \<Rightarrow> int \<Rightarrow> int \<Rightarrow> bool \<Rightarrow> ((bytes \<times> HeaderBlock) list \<times> Blockchain) res" where
  "get_header_blocks_in_range cr self start stop tx_filter =
     rbind (rmap uint32 [start..stop]) (\<lambda>hs.
     rbind (rmap (ch_height_to_hash self) (filter (contains_height (ch_blocks self)) hs)) (\<lambda>hashes.
     case take_cached hashes (block_cache (ch_block_store self)) of (cached, rest, cache) \<Rightarrow>
     rbind (get_blocks_by_hash ((ch_block_store self)\<lparr>block_cache := cache\<rparr>) rest) (\<lambda>(on_disk, st).
     rbind (rfold (\<lambda>block d. rbind (header_with_filter cr self tx_filter block) (\<lambda>header.
              rbind (Foliage_hash cr (hb_foliage header)) (\<lambda>hh. Ok (AList.update hh header d))))
              (cached @ on_disk) []) (\<lambda>d.
       Ok (d, self\<lparr>ch_block_store := st\<rparr>)))))"

definition get_header_block_by_height ::
    "crypto \<Rightarrow> Blockchain \<Rightarrow> int \<Rightarrow> bytes \<Rightarrow> bool \<Rightarrow> (HeaderBlock option \<times> Blockchain) res" where
  "get_header_block_by_height cr self h hh tx_filter =
     rbind (get_header_blocks_in_range cr self h h tx_filter) (\<lambda>(d, self). Ok (map_of d hh, self))"

text \<open>The records by height, read in batches.\<close>

definition ch_get_block_records_at :: "Blockchain \<Rightarrow> int list \<Rightarrow> int \<Rightarrow> BlockRecord list res" where
  "ch_get_block_records_at self heights batch_size =
     rbind (py_assert (batch_size < 999)) (\<lambda>_.
     rbind (rfold (\<lambda>h (records, hashes).
              rbind (ch_height_to_hash self h) (\<lambda>hh.
              let hashes = hashes @ [hh] in
              if int (length hashes) > batch_size then
                rbind (get_block_records_by_hash (ch_block_store self) hashes) (\<lambda>res. Ok (records @ res, []))
              else Ok (records, hashes))) heights ([], [])) (\<lambda>(records, hashes).
       if length hashes > 0 then
         rbind (get_block_records_by_hash (ch_block_store self) hashes) (\<lambda>res. Ok (records @ res))
       else Ok records))"

definition get_block_record_from_db :: "Blockchain \<Rightarrow> bytes \<Rightarrow> BlockRecord option" where
  "get_block_record_from_db self hh =
     (case block_records (ch_blocks self) hh of Some b \<Rightarrow> Some b
      | None \<Rightarrow> bs_get_block_record (ch_block_store self) hh)"

definition seen_compact_proofs :: "Blockchain \<Rightarrow> VDFInfo \<Rightarrow> int \<Rightarrow> bool \<times> Blockchain" where
  "seen_compact_proofs self vdf_info h =
     (let pot_tuple = (vdf_info, h) in
      if pot_tuple \<in> ch_seen_compact_proofs self then (True, self)
      else
        let seen = (if card (ch_seen_compact_proofs self) > 10000 then {} else ch_seen_compact_proofs self) in
        (False, self\<lparr>ch_seen_compact_proofs := insert pot_tuple seen\<rparr>))"

end
