(* ===== verification/Pre_Validation.thy ===== *)
theory Pre_Validation
  imports Blockchain Py_Float
begin

text \<open>
  \<^verbatim>\<open>consensus/multiprocess_validation.py\<close>, for full blocks: the headers of a batch of blocks that follow each
  other are validated in worker processes before the blocks are received one by one. A worker gets copies of
  the recent records, so its computation is a function of them; an exception in it is the error \<^verbatim>\<open>UNKNOWN\<close>.
  While the records of the batch are computed they are in the cache of the node, and afterwards they are
  taken out again. The variant for header blocks, which only wallets use, is left out.
\<close>

section \<open>A worker\<close>

definition batch_block_result ::
    "crypto \<Rightarrow> 's clvm \<Rightarrow> int \<Rightarrow> ConsensusConstants \<Rightarrow> (bytes \<Rightarrow> BlockRecord option) \<Rightarrow>
     (int \<Rightarrow> NPCResult option) \<Rightarrow> bool \<Rightarrow> FullBlock \<Rightarrow> BlockGenerator option \<Rightarrow> int \<Rightarrow> int \<Rightarrow> PreValidationResult res" where
  "batch_block_result cr vm now c blocks npc_results check_filter block generator difficulty ssi =
     rbind (case npc_results (fb_height block) of
              Some npc \<Rightarrow> Ok (Some npc)
            | None \<Rightarrow>
                if fb_transactions_generator block = None then Ok None
                else
                  rbind (unwrap AssertionError generator) (\<lambda>g.
                  rbind (unwrap AssertionError (fb_transactions_info block)) (\<lambda>ti.
                  rbind (py_assert (fb_transactions_generator block = Some (bg_program g))) (\<lambda>_.
                  rbind (get_name_puzzle_conditions cr vm g (min (MAX_BLOCK_COST_CLVM c) (ti_cost ti))
                           (COST_PER_BYTE c) True) (\<lambda>npc. Ok (Some npc)))))) (\<lambda>npc_result.
     rbind (tx_removals_and_additions cr (map_option npc_list npc_result)) (\<lambda>(rems, adds).
     rbind (get_block_header cr block adds rems) (\<lambda>header_block.
     rbind (validate_finished_header_block cr c (init_BlockCache blocks Map.empty Map.empty []) header_block
              check_filter difficulty ssi True now) (\<lambda>v.
       case v of
         Inl e \<Rightarrow> rbind (uint16 (Err_value e)) (\<lambda>code.
                    Ok \<lparr>pvr_error = Some code, pvr_required_iters = None, pvr_npc_result = npc_result\<rparr>)
       | Inr r \<Rightarrow> Ok \<lparr>pvr_error = None, pvr_required_iters = Some r, pvr_npc_result = npc_result\<rparr>))))"

definition batch_pre_validate_block ::
    "crypto \<Rightarrow> 's clvm \<Rightarrow> int \<Rightarrow> ConsensusConstants \<Rightarrow> (bytes \<Rightarrow> BlockRecord option) \<Rightarrow>
     (int \<Rightarrow> NPCResult option) \<Rightarrow> bool \<Rightarrow> FullBlock \<Rightarrow> BlockGenerator option \<Rightarrow> int \<Rightarrow> int \<Rightarrow> PreValidationResult res" where
  "batch_pre_validate_block cr vm now c blocks npc_results check_filter block generator difficulty ssi =
     (case batch_block_result cr vm now c blocks npc_results check_filter block generator difficulty ssi of
        Some (Inl ex) \<Rightarrow> Ok \<lparr>pvr_error = Some (Err_value ERR_UNKNOWN), pvr_required_iters = None, pvr_npc_result = None\<rparr>
      | r \<Rightarrow> r)"

section \<open>The recent blocks\<close>

record Recent =
  rec_sub_slots_found :: int
  rec_blocks_seen :: int
  rec_blocks :: "bytes \<Rightarrow> BlockRecord option"
  rec_compressed :: "bytes \<Rightarrow> BlockRecord option"

definition few_seen :: "ConsensusConstants \<Rightarrow> int \<Rightarrow> Recent \<Rightarrow> bool" where
  "few_seen c look_for r \<longleftrightarrow> rec_blocks_seen r < NUMBER_OF_TIMESTAMPS c \<or> rec_sub_slots_found r < look_for"

definition recent_step :: "ConsensusConstants \<Rightarrow> int \<Rightarrow> BlockRecord \<Rightarrow> Recent \<Rightarrow> Recent res" where
  "recent_step c look_for cur r =
     rbind (if first_in_sub_slot cur then
              rbind (unwrap AssertionError (finished_challenge_slot_hashes cur)) (\<lambda>hs.
                Ok (rec_sub_slots_found r + int (length hs)))
            else Ok (rec_sub_slots_found r)) (\<lambda>found.
       Ok \<lparr>rec_sub_slots_found = found,
           rec_blocks_seen = (if is_transaction_block cur then rec_blocks_seen r + 1 else rec_blocks_seen r),
           rec_blocks = (rec_blocks r)(header_hash cur \<mapsto> cur),
           rec_compressed = (if few_seen c look_for r then (rec_compressed r)(header_hash cur \<mapsto> cur)
                             else rec_compressed r)\<rparr>)"

definition add_recent :: "BlockRecord \<Rightarrow> Recent \<Rightarrow> Recent" where
  "add_recent b r = r\<lparr>rec_blocks := (rec_blocks r)(header_hash b \<mapsto> b),
                      rec_compressed := (rec_compressed r)(header_hash b \<mapsto> b)\<rparr>"

definition recent_blocks :: "ConsensusConstants \<Rightarrow> BlockCache \<Rightarrow> BlockRecord \<Rightarrow> Recent res" where
  "recent_blocks c blocks start =
     (let look_for = (if overflow start then 3 else 2);
          none = \<lparr>rec_sub_slots_found = 0, rec_blocks_seen = 0, rec_blocks = Map.empty, rec_compressed = Map.empty\<rparr> in
      rbind (walk_acc (block_record blocks)
               (\<lambda>b r. (sub_epoch_summary_included b = None \<or> few_seen c look_for r) \<and> height b > 0)
               (recent_step c look_for) start none) (\<lambda>(b, r). Ok (add_recent b r)))"

section \<open>The records of the batch\<close>

record PreState =
  ps_chain :: Blockchain
  ps_prev_b :: "BlockRecord option"
  ps_recent :: Recent
  ps_diff_ssis :: "(int \<times> int) list"

text \<open>The challenge of the block, its quality and so its required iterations; \<open>None\<close> if the proof is bad.\<close>

definition block_iterations ::
    "crypto \<Rightarrow> ConsensusConstants \<Rightarrow> (bytes \<Rightarrow> BlockRecord option) \<Rightarrow> bool \<Rightarrow> int \<Rightarrow> FullBlock \<Rightarrow> int option res" where
  "block_iterations cr c recent genesis difficulty block =
     (let rcb = fb_reward_chain_block block; pos = rcb_proof_of_space rcb in
      rbind (is_overflow_block c (rcb_signage_point_index rcb)) (\<lambda>ovf.
      rbind (get_block_challenge cr c (fb_finished_sub_slots block) (fb_prev_header_hash block)
               (init_BlockCache recent Map.empty Map.empty []) genesis ovf False) (\<lambda>challenge.
      rbind (case rcb_challenge_chain_sp_vdf rcb of None \<Rightarrow> Ok challenge
             | Some v \<Rightarrow> ClassgroupElement_hash cr (vdf_output v)) (\<lambda>cc_sp_hash.
      rbind (verify_and_get_quality_string cr (MIN_PLOT_SIZE c) (MAX_PLOT_SIZE c) (NUMBER_ZERO_BITS_PLOT_FILTER c)
               pos challenge cc_sp_hash) (\<lambda>q_str.
        case q_str of None \<Rightarrow> Ok None
        | Some q \<Rightarrow>
            rbind (calculate_iterations_quality cr (DIFFICULTY_CONSTANT_FACTOR c) q (pos_size pos) difficulty
                     cc_sp_hash) (\<lambda>r. Ok (Some r)))))))"

text \<open>The records added for the batch leave the cache.\<close>

definition remove_added :: "(bytes \<times> bool) list \<Rightarrow> Blockchain \<Rightarrow> Blockchain res" where
  "remove_added present self =
     rfold (\<lambda>(hh, was_present) self.
         if \<not> was_present \<and> contains_block (ch_blocks self) hh then ch_remove_block_record hh self
         else Ok self) present self"

text \<open>Does the summary of the record differ from the one of the weight proof?\<close>

definition summary_mismatch ::
    "crypto \<Rightarrow> ConsensusConstants \<Rightarrow> FullBlock \<Rightarrow> BlockRecord \<Rightarrow> SubEpochSummary list option \<Rightarrow> bool res" where
  "summary_mismatch cr c block rec wp_summaries =
     (case (sub_epoch_summary_included rec, wp_summaries) of
        (Some ses, Some summaries) \<Rightarrow>
          rbind (py_truediv (fb_height block) (SUB_EPOCH_BLOCKS c)) (\<lambda>q.
          rbind (py_nth summaries (\<lfloor>q\<rfloor> - 1)) (\<lambda>next_ses.
          rbind (SubEpochSummary_hash cr ses) (\<lambda>h. rbind (SubEpochSummary_hash cr next_ses) (\<lambda>h'. Ok (h \<noteq> h')))))
      | _ \<Rightarrow> Ok False)"

text \<open>One block of the batch. \<open>Inl\<close> is the early \<^verbatim>\<open>return None\<close>: a bad proof of space takes the added
  records out again, a wrong summary does not.\<close>

definition pre_step ::
    "crypto \<Rightarrow> (bytes \<times> bool) list \<Rightarrow> SubEpochSummary list option \<Rightarrow> FullBlock \<Rightarrow> PreState \<Rightarrow>
     (Blockchain + PreState) res" where
  "pre_step cr present wp_summaries block s =
     (let self = ps_chain s; c = ch_constants self in
      rbind (if fb_height block \<noteq> 0 then
               rbind (py_assert (contains_block (ch_blocks self) (fb_prev_header_hash block))) (\<lambda>_.
                 if ps_prev_b s = None then
                   rbind (block_record (ch_blocks self) (fb_prev_header_hash block)) (\<lambda>b. Ok (Some b))
                 else Ok (ps_prev_b s))
             else Ok (ps_prev_b s)) (\<lambda>prev_b.
      rbind (get_next_sub_slot_iters_and_difficulty c (length (fb_finished_sub_slots block) > 0) prev_b
               (ch_blocks self)) (\<lambda>(ssi, difficulty).
      rbind (block_iterations cr c (rec_blocks (ps_recent s)) (prev_b = None) difficulty block) (\<lambda>r.
      case r of None \<Rightarrow> rbind (remove_added present self) (\<lambda>self. Ok (Inl self))
      | Some req_iters \<Rightarrow>
      rbind (block_to_block_record cr c (ch_blocks self) req_iters (Some (full_header block)) None) (\<lambda>rec.
      rbind (summary_mismatch cr c block rec wp_summaries) (\<lambda>wrong.
        if wrong then Ok (Inl self)
        else
          rbind (if \<not> contains_block (ch_blocks self) (header_hash rec) then
                   Ok (ch_add_block_record rec self, add_recent rec (ps_recent s))
                 else
                   rbind (block_record (ch_blocks self) (header_hash rec)) (\<lambda>b.
                     Ok (self, (ps_recent s)\<lparr>rec_blocks := (rec_blocks (ps_recent s))(header_hash rec \<mapsto> b),
                           rec_compressed := (rec_compressed (ps_recent s))(header_hash rec \<mapsto> b)\<rparr>)))
            (\<lambda>(self, recent).
              Ok (Inr \<lparr>ps_chain = self, ps_prev_b = Some rec, ps_recent = recent,
                      ps_diff_ssis = ps_diff_ssis s @ [(difficulty, ssi)]\<rparr>))))))))"

fun pre_steps ::
    "crypto \<Rightarrow> (bytes \<times> bool) list \<Rightarrow> SubEpochSummary list option \<Rightarrow> FullBlock list \<Rightarrow> PreState \<Rightarrow>
     (Blockchain + PreState) res" where
  "pre_steps cr present wps [] s = Ok (Inr s)"
| "pre_steps cr present wps (block # blocks) s =
     rbind (pre_step cr present wps block s) (\<lambda>r.
       case r of Inl self \<Rightarrow> Ok (Inl self) | Inr s \<Rightarrow> pre_steps cr present wps blocks s)"

section \<open>The batch\<close>

text \<open>The blocks of the batch below a block, for the generators it refers to.\<close>

partial_function (option) batch_ancestors ::
    "crypto \<Rightarrow> (bytes \<Rightarrow> FullBlock option) \<Rightarrow> FullBlock \<Rightarrow> (bytes \<Rightarrow> FullBlock option) \<Rightarrow>
     (bytes \<Rightarrow> FullBlock option) res" where
  "batch_ancestors cr block_dict cur_b d =
     (case block_dict (fb_prev_header_hash cur_b) of None \<Rightarrow> Ok d
      | Some b \<Rightarrow> rbind (fb_header_hash cr b) (\<lambda>hh. batch_ancestors cr block_dict b (d(hh \<mapsto> b))))"

declare batch_ancestors.simps [code]

text \<open>The generators of the blocks, or \<open>Inl\<close> when a reference has none.\<close>

fun batch_generators ::
    "crypto \<Rightarrow> (bytes \<Rightarrow> FullBlock option) \<Rightarrow> FullBlock list \<Rightarrow> Blockchain \<Rightarrow>
     ((Err + BlockGenerator option list) \<times> Blockchain) res" where
  "batch_generators cr block_dict [] self = Ok (Inr [], self)"
| "batch_generators cr block_dict (block # blocks) self =
     rbind (batch_ancestors cr block_dict block Map.empty) (\<lambda>prev_blocks_dict.
     rbind (find_generator self (body_of_full block) prev_blocks_dict) (\<lambda>(r, self).
       case r of Inl e \<Rightarrow> Ok (Inl e, self)
       | Inr g \<Rightarrow>
           rbind (batch_generators cr block_dict blocks self) (\<lambda>(rest, self).
             Ok (case rest of Inl e \<Rightarrow> Inl e | Inr gs \<Rightarrow> Inr (g # gs), self))))"

fun chunks :: "nat \<Rightarrow> 'a list \<Rightarrow> 'a list list" where
  "chunks n xs = (if n = 0 \<or> xs = [] then [] else take n xs # chunks n (drop n xs))"

declare chunks.simps [simp del]

text \<open>One worker: it gets the compressed records if no block of its batch finishes a sub-slot.\<close>

definition run_batch ::
    "crypto \<Rightarrow> 's clvm \<Rightarrow> int \<Rightarrow> ConsensusConstants \<Rightarrow> Recent \<Rightarrow> (int \<Rightarrow> NPCResult option) \<Rightarrow> bool \<Rightarrow>
     (FullBlock \<times> BlockGenerator option \<times> int \<times> int) list \<Rightarrow> PreValidationResult list res" where
  "run_batch cr vm now c recent npc_results check_filter batch =
     (let records = (if \<exists>(b, rest)\<in>set batch. length (fb_finished_sub_slots b) > 0 then rec_blocks recent
                     else rec_compressed recent) in
      rmap (\<lambda>(b, g, difficulty, ssi).
              batch_pre_validate_block cr vm now c records npc_results check_filter b g difficulty ssi) batch)"

definition pre_validate_blocks_multiprocessing ::
    "crypto \<Rightarrow> 's clvm \<Rightarrow> int \<Rightarrow> Blockchain \<Rightarrow> FullBlock list \<Rightarrow> bool \<Rightarrow> (int \<Rightarrow> NPCResult option) \<Rightarrow> nat \<Rightarrow>
     SubEpochSummary list option \<Rightarrow> (PreValidationResult list option \<times> Blockchain) res" where
  "pre_validate_blocks_multiprocessing cr vm now self blocks check_filter npc_results batch_size wp_summaries =
     (let c = ch_constants self;
          none = \<lparr>rec_sub_slots_found = 0, rec_blocks_seen = 0, rec_blocks = Map.empty, rec_compressed = Map.empty\<rparr> in
      rbind (py_nth blocks 0) (\<lambda>block0.
      if fb_height block0 > 0 \<and> \<not> contains_block (ch_blocks self) (fb_prev_header_hash block0) then
        rbind (pre_error INVALID_PREV_BLOCK_HASH) (\<lambda>r. Ok (Some [r], self))
      else
        rbind (if fb_height block0 > 0 then
                 rbind (block_record (ch_blocks self) (fb_prev_header_hash block0)) (recent_blocks c (ch_blocks self))
               else Ok none) (\<lambda>recent.
        rbind (rmap (fb_header_hash cr) blocks) (\<lambda>hashes.
        let present = map (\<lambda>hh. (hh, contains_block (ch_blocks self) hh)) hashes in
        rbind (pre_steps cr present wp_summaries blocks
                 \<lparr>ps_chain = self, ps_prev_b = None, ps_recent = recent, ps_diff_ssis = []\<rparr>) (\<lambda>r.
        case r of Inl self \<Rightarrow> Ok (None, self)
        | Inr s \<Rightarrow>
        rbind (rfold (\<lambda>(hh, was_present) self. if \<not> was_present then ch_remove_block_record hh self else Ok self)
                 present (ps_chain s)) (\<lambda>self.
        rbind (batch_generators cr (map_of (rev (zip hashes blocks))) blocks self) (\<lambda>(gs, self).
        case gs of Inl e \<Rightarrow> Ok (None, self)
        | Inr gs \<Rightarrow>
        rbind (rmap (run_batch cr vm now c (ps_recent s) npc_results check_filter)
                 (chunks batch_size (zip blocks (zip gs (ps_diff_ssis s))))) (\<lambda>results.
          Ok (Some (concat results), self)))))))))"

end
