(* ===== verification/Chain_Path.thy ===== *)
theory Chain_Path
  imports Block_Store
begin

text \<open>
  The contract of the block store and the paths through it. \<open>store_rows_ok\<close> says that the two tables speak of
  the same blocks and that the cache agrees with the table; under it a lookup returns what the table
  holds. \<open>is_path\<close> is a chain from a block of height 0 upwards, given by the records alone: every
  stored block of a complete store ends exactly one of them, and \<^verbatim>\<open>get_peak_height_dicts\<close> returns it.
\<close>

section \<open>The tables\<close>

definition records_of :: "BlockStore \<Rightarrow> bytes \<Rightarrow> BlockRecord option" where
  "records_of st = bs_get_block_record st"

definition blocks_of :: "BlockStore \<Rightarrow> bytes \<Rightarrow> FullBlock option" where
  "blocks_of st hh = map_option fbr_block (map_of (full_blocks st) hh)"

definition row_ok :: "bytes \<Rightarrow> BlockRecordRow \<Rightarrow> bool" where
  "row_ok hh row \<longleftrightarrow> header_hash (brr_block row) = hh \<and> brr_prev_hash row = prev_hash (brr_block row) \<and>
     brr_height row = height (brr_block row) \<and> brr_sub_epoch_summary row = sub_epoch_summary_included (brr_block row)"

definition block_of_record :: "FullBlock \<Rightarrow> BlockRecord \<Rightarrow> bool" where
  "block_of_record b r \<longleftrightarrow> fb_prev_header_hash b = prev_hash r \<and> fb_height b = height r \<and>
     fb_is_transaction_block b = is_transaction_block r"

definition store_rows_ok :: "BlockStore \<Rightarrow> bool" where
  "store_rows_ok st \<longleftrightarrow> distinct (map fst (block_record_rows st)) \<and> distinct (map fst (full_blocks st)) \<and>
     (\<forall>(hh, row)\<in>set (block_record_rows st). row_ok hh row) \<and>
     (\<forall>hh. rel_option block_of_record (blocks_of st hh) (records_of st hh)) \<and>
     lru.agrees (block_cache st) (blocks_of st)"

definition store_view :: "BlockStore \<Rightarrow> BlockCache" where
  "store_view st = init_BlockCache (records_of st) Map.empty Map.empty []"

lemma store_view_records [simp]: "block_records (store_view st) = records_of st"
  by (simp add: store_view_def init_BlockCache_def)

text \<open>Everything but the two caches.\<close>

definition same_tables :: "BlockStore \<Rightarrow> BlockStore \<Rightarrow> bool" where
  "same_tables st st' \<longleftrightarrow> full_blocks st' = full_blocks st \<and> block_record_rows st' = block_record_rows st"

lemma same_tables_views:
  "same_tables st st' \<Longrightarrow> records_of st' = records_of st \<and> blocks_of st' = blocks_of st"
  by (auto simp: same_tables_def records_of_def blocks_of_def bs_get_block_record_def fun_eq_iff)

lemma same_tables_refl [simp]: "same_tables st st"
  by (simp add: same_tables_def)

lemma same_tables_trans: "same_tables a b \<Longrightarrow> same_tables b c \<Longrightarrow> same_tables a c"
  by (simp add: same_tables_def)

text \<open>A lookup returns the row, whatever the cache holds, and changes only the cache.\<close>

lemma get_full_block_table:
  assumes "store_rows_ok st"
  shows "\<exists>st'. get_full_block st hh = (blocks_of st hh, st') \<and> same_tables st st' \<and> store_rows_ok st'"
proof -
  obtain x c where g: "lru_get (block_cache st) hh = (x, c)" by (cases "lru_get (block_cache st) hh")
  have a: "lru.agrees (block_cache st) (blocks_of st)" using assms by (simp add: store_rows_ok_def)
  note c = lru.agrees_get [OF a g]
  have keep: "same_tables st (st\<lparr>block_cache := d\<rparr>) \<and> store_rows_ok (st\<lparr>block_cache := d\<rparr>)"
    if "lru.agrees d (blocks_of st)" for d
  proof -
    have s: "same_tables st (st\<lparr>block_cache := d\<rparr>)" by (simp add: same_tables_def)
    from same_tables_views [OF this] assms that s show ?thesis
      unfolding store_rows_ok_def by (simp add: same_tables_def)
  qed
  show ?thesis
  proof (cases x)
    case (Some b)
    with c(2) have "blocks_of st hh = Some b" by simp
    with Some g keep [OF c(1)] show ?thesis by (auto simp: get_full_block_def)
  next
    case None
    show ?thesis
    proof (cases "map_of (full_blocks st) hh")
      case (Some row)
      then have b: "blocks_of st hh = Some (fbr_block row)" by (simp add: blocks_of_def)
      from keep [OF lru.agrees_put [OF c(1) b]] None Some g b show ?thesis
        by (auto simp: get_full_block_def)
    qed (use None g keep [OF c(1)] in \<open>auto simp: get_full_block_def blocks_of_def\<close>)
  qed
qed

lemma get_full_blockD:
  assumes "store_rows_ok st" and "get_full_block st hh = (b, st')"
  shows "b = blocks_of st hh" "same_tables st st'" "store_rows_ok st'"
  using get_full_block_table [OF assms(1), of hh] assms(2) by auto

lemma record_row: "records_of st hh = Some r \<Longrightarrow> \<exists>row. (hh, row) \<in> set (block_record_rows st) \<and> brr_block row = r"
  by (auto simp: records_of_def bs_get_block_record_def dest: map_of_SomeD)

lemma stored_hash: "store_rows_ok st \<Longrightarrow> records_of st hh = Some r \<Longrightarrow> header_hash r = hh"
  by (auto simp: store_rows_ok_def row_ok_def dest!: record_row)

lemma stored_block:
  assumes "store_rows_ok st" and "records_of st hh = Some r"
  obtains b where "blocks_of st hh = Some b" "block_of_record b r"
proof -
  from assms(1) have "rel_option block_of_record (blocks_of st hh) (records_of st hh)" by (simp add: store_rows_ok_def)
  with assms(2) that show thesis by (auto simp: option_rel_Some2)
qed

lemma records_replace:
  "records_of (st\<lparr>block_record_rows := replace_row hh row (block_record_rows st)\<rparr>) = (records_of st)(hh \<mapsto> brr_block row)"
  by (auto simp: records_of_def bs_get_block_record_def replace_row_def map_of_append map_add_def delete_conv'
      fun_eq_iff split: option.splits)

lemma add_full_block_views:
  "records_of (add_full_block st hh b r) = (records_of st)(hh \<mapsto> r)"
  "blocks_of (add_full_block st hh b r) = (blocks_of st)(hh \<mapsto> b)"
  by (auto simp: records_of_def bs_get_block_record_def blocks_of_def add_full_block_def replace_row_def map_of_append
      map_add_def delete_conv' fun_eq_iff split: option.splits)

lemma add_full_block_ok:
  assumes "store_rows_ok st" and "block_of_record b r" and "header_hash r = hh"
    and "records_of st hh = None"
  shows "store_rows_ok (add_full_block st hh b r)"
proof -
  let ?s = "add_full_block st hh b r"
  have none: "blocks_of st hh = None"
    using assms(1,4) unfolding store_rows_ok_def by (metis option_rel_Some1 not_None_eq option.distinct(1))
  have "lru.agrees (lru_put (block_cache st) hh b) ((blocks_of st)(hh \<mapsto> b))"
  proof (rule lru.agrees_put)
    have a: "lru.agrees (block_cache st) (blocks_of st)" using assms(1) by (simp add: store_rows_ok_def)
    then have "lru_entries (block_cache st) hh = None" using none lru.agreesD [OF a] by (metis not_None_eq option.distinct(1))
    with a show "lru.agrees (block_cache st) ((blocks_of st)(hh \<mapsto> b))" by (rule lru.agrees_change)
  qed simp
  then have "lru.agrees (block_cache ?s) (blocks_of ?s)"
    by (simp add: add_full_block_views) (simp add: add_full_block_def)
  moreover have "distinct (map fst (block_record_rows ?s))"
    using assms(1) distinct_delete [of "block_record_rows st" hh]
    by (auto simp: store_rows_ok_def add_full_block_def replace_row_def AList.delete_eq)
  moreover have "distinct (map fst (full_blocks ?s))"
    using assms(1) distinct_delete [of "full_blocks st" hh]
    by (auto simp: store_rows_ok_def add_full_block_def replace_row_def AList.delete_eq)
  moreover have "\<forall>(k, row)\<in>set (block_record_rows ?s). row_ok k row"
    using assms by (auto simp: store_rows_ok_def add_full_block_def replace_row_def row_ok_def AList.delete_eq
        block_of_record_def)
  moreover have "\<forall>k. rel_option block_of_record (blocks_of ?s k) (records_of ?s k)"
    using assms(1,2) by (simp add: add_full_block_views store_rows_ok_def)
  ultimately show ?thesis by (simp add: store_rows_ok_def)
qed

lemma set_peak_rows:
  "block_record_rows (set_peak st hh) = map (\<lambda>(k, row). (k, row\<lparr>brr_is_peak := (k = hh)\<rparr>)) (block_record_rows st)"
proof -
  have "(if k = hh then (if brr_is_peak row then row\<lparr>brr_is_peak := False\<rparr> else row)\<lparr>brr_is_peak := True\<rparr>
      else if brr_is_peak row then row\<lparr>brr_is_peak := False\<rparr> else row) = row\<lparr>brr_is_peak := (k = hh)\<rparr>"
    for k and row :: BlockRecordRow by (cases row) simp
  then show ?thesis by (simp add: set_peak_def comp_def case_prod_unfold)
qed

lemma set_peak_views: "records_of (set_peak st hh) = records_of st" "blocks_of (set_peak st hh) = blocks_of st"
proof -
  have "map_option brr_block (map_of (map (\<lambda>(k, row). (k, row\<lparr>brr_is_peak := (k = hh)\<rparr>)) rows) k)
      = map_option brr_block (map_of rows k)" for rows :: "(bytes \<times> BlockRecordRow) list" and k
    by (induction rows) auto
  then show "records_of (set_peak st hh) = records_of st"
    by (simp add: records_of_def bs_get_block_record_def set_peak_rows fun_eq_iff)
  show "blocks_of (set_peak st hh) = blocks_of st" by (simp add: blocks_of_def set_peak_def fun_eq_iff)
qed

lemma set_peak_ok: "store_rows_ok st \<Longrightarrow> store_rows_ok (set_peak st hh)"
  unfolding store_rows_ok_def set_peak_views set_peak_rows
  by (auto simp: row_ok_def comp_def case_prod_unfold set_peak_def)

text \<open>The marked rows.\<close>

definition peaks :: "BlockStore \<Rightarrow> bytes set" where
  "peaks st = {hh. \<exists>row. (hh, row) \<in> set (block_record_rows st) \<and> brr_is_peak row}"

lemma peaks_set_peak: "peaks (set_peak st hh) = (if records_of st hh = None then {} else {hh})"
proof -
  have "records_of st hh = None \<longleftrightarrow> (\<forall>row. (hh, row) \<notin> set (block_record_rows st))"
    by (auto simp: records_of_def bs_get_block_record_def map_of_eq_None_iff image_iff)
  moreover have "(hh, row\<lparr>brr_is_peak := True\<rparr>) \<in> set (block_record_rows (set_peak st hh))"
    if "(hh, row) \<in> set (block_record_rows st)" for row
    unfolding set_peak_rows set_map by (rule image_eqI [OF _ that]) simp
  moreover have "k = hh" if "(k, row) \<in> set (block_record_rows (set_peak st hh))" "brr_is_peak row" for k row
    using that by (auto simp: set_peak_rows)
  moreover have "\<exists>row. (hh, row) \<in> set (block_record_rows st)" if "(hh, row) \<in> set (block_record_rows (set_peak st hh))"
    for row using that by (auto simp: set_peak_rows)
  ultimately show ?thesis unfolding peaks_def by fastforce
qed

lemma peaks_add_full_block: "records_of st hh = None \<Longrightarrow> peaks (add_full_block st hh b r) = peaks st"
  by (fastforce simp: peaks_def add_full_block_def replace_row_def records_of_def bs_get_block_record_def
      map_of_eq_None_iff AList.delete_eq image_iff)

lemma peak_row_unique:
  assumes "peaks st = {hh}" and "distinct (map fst (block_record_rows st))"
  shows "\<exists>row. peak_row st = Some (hh, row) \<and> (hh, row) \<in> set (block_record_rows st)"
proof -
  obtain row where "(hh, row) \<in> set (block_record_rows st)" "brr_is_peak row"
    using assms(1) by (auto simp: peaks_def)
  then have "List.find (\<lambda>(k, row). brr_is_peak row) (block_record_rows st) \<noteq> None"
    by (auto simp: find_None_iff)
  then obtain k r where f: "List.find (\<lambda>(k, row). brr_is_peak row) (block_record_rows st) = Some (k, r)" by auto
  from f have "(k, r) \<in> set (block_record_rows st)" "brr_is_peak r"
    by (auto simp: find_Some_iff dest: nth_mem)
  with assms(1) have "k = hh" by (auto simp: peaks_def)
  with f \<open>(k, r) \<in> _\<close> show ?thesis by (auto simp: peak_row_def)
qed

lemma peak_row_none: "peaks st = {} \<Longrightarrow> peak_row st = None"
  by (auto simp: peak_row_def peaks_def find_None_iff)

section \<open>Paths\<close>

definition is_path :: "(bytes \<Rightarrow> BlockRecord option) \<Rightarrow> BlockRecord list \<Rightarrow> bool" where
  "is_path get bs \<longleftrightarrow> bs \<noteq> [] \<and> (\<forall>i<length bs. get (header_hash (bs ! i)) = Some (bs ! i) \<and> height (bs ! i) = int i \<and>
     (0 < i \<longrightarrow> prev_hash (bs ! i) = header_hash (bs ! (i - 1))))"

lemma is_pathD:
  assumes "is_path get bs" and "i < length bs"
  shows "get (header_hash (bs ! i)) = Some (bs ! i)" "height (bs ! i) = int i"
    "0 < i \<Longrightarrow> prev_hash (bs ! i) = header_hash (bs ! (i - 1))"
  using assms by (auto simp: is_path_def)

lemma is_path_last:
  assumes "is_path get bs"
  shows "bs \<noteq> []" "get (header_hash (last bs)) = Some (last bs)" "height (last bs) = int (length bs) - 1"
  using is_pathD [OF assms, of "length bs - 1"] assms
  by (auto simp: is_path_def last_conv_nth)

lemma is_path_single: "get (header_hash r) = Some r \<Longrightarrow> height r = 0 \<Longrightarrow> is_path get [r]"
  by (simp add: is_path_def)

lemma is_path_snoc:
  assumes "is_path get bs" and "get (header_hash r) = Some r" and "prev_hash r = header_hash (last bs)"
    and "height r = int (length bs)"
  shows "is_path get (bs @ [r])"
  using assms by (auto simp: is_path_def nth_append last_conv_nth less_Suc_eq)

lemma is_path_take: "is_path get bs \<Longrightarrow> k < length bs \<Longrightarrow> is_path get (take (Suc k) bs)"
  by (auto simp: is_path_def)

lemma is_path_mono: "is_path get bs \<Longrightarrow> get \<subseteq>\<^sub>m get' \<Longrightarrow> is_path get' bs"
  unfolding is_path_def map_le_def by (metis domI)

lemma path_to_block:
  assumes ok: "chain_ok s" and b: "block_records s (header_hash b) = Some b"
  shows "\<exists>bs. is_path (block_records s) bs \<and> last bs = b"
  using b
proof (induction "nat (height b)" arbitrary: b rule: less_induct)
  case less
  have st: "stored (block_record s) b" using less.prems by (simp add: stored_def)
  have h: "0 \<le> height b" by (rule bcc.stored_height [OF ok st])
  show ?case
  proof (cases "height b = 0")
    case True
    with less.prems have "is_path (block_records s) [b]" by (intro is_path_single)
    then show ?thesis by (intro exI [of _ "[b]"]) simp
  next
    case False
    with prev_of [OF ok st] h obtain p where p: "block_record s (prev_hash b) = Ok p" "stored (block_record s) p"
        "height b = height p + 1" by auto
    from p(2) have sp: "block_records s (header_hash p) = Some p" by (simp add: stored_def)
    have "nat (height p) < nat (height b)" using p(3) bcc.stored_height [OF ok p(2)] by simp
    from less.hyps [OF this sp] obtain bs where bs: "is_path (block_records s) bs" "last bs = p" by blast
    have "prev_hash b = header_hash (last bs)" using p(1) bs(2) bcc.get_hash_of [OF ok p(1)] by simp
    moreover have "height b = int (length bs)" using is_path_last(3) [OF bs(1)] p(3) bs(2) by simp
    ultimately show ?thesis using is_path_snoc [OF bs(1) less.prems] by (intro exI [of _ "bs @ [b]"]) simp
  qed
qed

text \<open>Two paths that meet agree below.\<close>

lemma paths_agree:
  assumes "is_path get bs" and "is_path get cs" and "i < length bs" and "i < length cs"
    and "bs ! i = cs ! i" and "j \<le> i"
  shows "bs ! j = cs ! j"
  using assms(3-6)
proof (induction i)
  case (Suc i)
  show ?case
  proof (cases "j = Suc i")
    case False
    have "prev_hash (bs ! Suc i) = header_hash (bs ! i)" "prev_hash (cs ! Suc i) = header_hash (cs ! i)"
      using is_pathD(3) [OF assms(1), of "Suc i"] is_pathD(3) [OF assms(2), of "Suc i"] Suc.prems(1,2) by simp_all
    moreover have "get (header_hash (bs ! i)) = Some (bs ! i)" "get (header_hash (cs ! i)) = Some (cs ! i)"
      using is_pathD(1) [OF assms(1), of i] is_pathD(1) [OF assms(2), of i] Suc.prems(1,2) by simp_all
    ultimately have "bs ! i = cs ! i" using Suc.prems(3) by (metis option.inject)
    then show ?thesis by (intro Suc.IH) (use Suc.prems False in simp_all)
  qed (use Suc.prems in simp)
qed simp

lemma path_unique:
  assumes "is_path get bs" and "is_path get cs" and "last bs = last cs"
  shows "bs = cs"
proof -
  have l: "length bs = length cs"
    using is_path_last(3) [OF assms(1)] is_path_last(3) [OF assms(2)] assms(3) by simp
  have ne: "bs \<noteq> []" "cs \<noteq> []" using is_path_last(1) assms by auto
  then have "bs ! (length bs - 1) = cs ! (length bs - 1)" using assms(3) l by (simp add: last_conv_nth)
  note a = paths_agree [OF assms(1,2) _ _ this]
  show ?thesis
  proof (rule nth_equalityI [OF l])
    fix j
    assume "j < length bs"
    then show "bs ! j = cs ! j" by (intro a) (use l in simp_all)
  qed
qed

lemma path_ancestor:
  assumes "is_path (block_records s) bs" and "i < length bs" and "j \<le> i"
  shows "ancestor (block_record s) (bs ! i) (bs ! j)"
  using assms(2,3)
proof (induction i)
  case (Suc i)
  show ?case
  proof (cases "j = Suc i")
    case False
    have "block_record s (prev_hash (bs ! Suc i)) = Ok (bs ! i)"
      using is_pathD [OF assms(1), of "Suc i"] is_pathD(1) [OF assms(1), of i] Suc.prems by simp
    from ancestor_step [where get = "block_record s", OF this] Suc False show ?thesis by simp
  qed (simp add: ancestor_self)
qed (simp add: ancestor_self)

lemma ancestor_in_path:
  assumes ok: "heights_ok s" and "is_path (block_records s) bs" and "ancestor (block_record s) (last bs) c"
  shows "c \<in> set bs"
proof -
  have st: "stored (block_record s) (last bs)" using is_path_last(2) [OF assms(2)] by (simp add: stored_def)
  have "0 \<le> height c"
    by (rule bc.stored_height [OF ok bc.ancestor_stored [OF assms(3) ok st]])
  moreover have "height c \<le> height (last bs)" using bc.ancestor_height [OF assms(3) ok st] by simp
  ultimately have n: "nat (height c) < length bs" "height (bs ! nat (height c)) = height c"
    using is_path_last [OF assms(2)] is_pathD(2) [OF assms(2), of "nat (height c)"] by simp_all
  have l: "last bs = bs ! (length bs - 1)" "length bs - 1 < length bs"
    using is_path_last(1) [OF assms(2)] by (simp_all add: last_conv_nth)
  have "ancestor (block_record s) (last bs) (bs ! nat (height c))"
    unfolding l(1) by (rule path_ancestor [OF assms(2) l(2)]) (use n in simp)
  from bc.ancestor_unique [OF this assms(3) ok st n(2)] n(1) show ?thesis by (metis nth_mem)
qed

text \<open>The fork point of two paths: they agree up to it and differ above.\<close>

lemma fork_point_paths:
  assumes ok: "chain_ok s" and "is_path (block_records s) bs" and "is_path (block_records s) cs"
    and f: "is_fork_point s (last cs) (last bs) f"
  shows "- 1 \<le> f" "f < int (length bs)" "f < int (length cs)"
    "\<And>i. i < length bs \<Longrightarrow> i < length cs \<Longrightarrow> bs ! i = cs ! i \<longleftrightarrow> int i \<le> f"
proof -
  note hok = chain_ok_heights_ok [OF ok]
  have lst: "last xs = xs ! (length xs - 1)" "length xs - 1 < length xs" if "is_path (block_records s) xs" for xs
    using is_path_last(1) [OF that] by (simp_all add: last_conv_nth)
  have com: "common s (last cs) (last bs) (bs ! i)" if "i < length bs" "i < length cs" "bs ! i = cs ! i" for i
    using path_ancestor [OF assms(2) lst(2) [OF assms(2)], of i] path_ancestor [OF assms(3) lst(2) [OF assms(3)], of i]
      that lst(1) [OF assms(2)] lst(1) [OF assms(3)] by (simp add: common_def)
  have mem: "\<exists>i. i < length bs \<and> i < length cs \<and> c = bs ! i \<and> bs ! i = cs ! i \<and> height c = int i"
    if "common s (last cs) (last bs) c" for c
  proof -
    have "c \<in> set bs" "c \<in> set cs"
      using that ancestor_in_path [OF hok] assms(2,3) unfolding common_def by blast+
    then obtain i j where "i < length bs" "bs ! i = c" "j < length cs" "cs ! j = c" by (auto simp: in_set_conv_nth)
    with is_pathD(2) [OF assms(2), of i] is_pathD(2) [OF assms(3), of j] show ?thesis by auto
  qed
  have "f = - 1 \<or> (\<exists>i. i < length bs \<and> i < length cs \<and> f = int i)"
    using f mem unfolding is_fork_point_def by (metis (no_types, lifting))
  then show "- 1 \<le> f" "f < int (length bs)" "f < int (length cs)" by auto
  fix i
  assume i: "i < length bs" "i < length cs"
  show "bs ! i = cs ! i \<longleftrightarrow> int i \<le> f"
  proof
    assume "bs ! i = cs ! i"
    from com [OF i this] f have "height (bs ! i) \<le> f" unfolding is_fork_point_def by (metis (no_types, lifting))
    then show "int i \<le> f" using is_pathD(2) [OF assms(2) i(1)] by simp
  next
    assume le: "int i \<le> f"
    then have "f \<noteq> - 1" by simp
    with f obtain c where "common s (last cs) (last bs) c" "height c = f" by (auto simp: is_fork_point_def)
    with mem obtain j where "j < length bs" "j < length cs" "bs ! j = cs ! j" "int j = f" by fastforce
    with paths_agree [OF assms(2,3) this(1-3), of i] le show "bs ! i = cs ! i" by simp
  qed
qed

text \<open>A search for the fork point that ends in a part of the store gives the one of the whole store.\<close>

lemma fork_loop_mono:
  assumes "fork_loop s a b = Ok r" and "block_records s \<subseteq>\<^sub>m block_records t"
  shows "fork_loop t a b = Ok r"
proof -
  have rd: "block_record t h = Ok x" if "block_record s h = Ok x" "block_records s \<subseteq>\<^sub>m block_records t"
    for h x and s :: BlockCache
    using that unfolding block_record_eq_Ok map_le_def by (metis domI)
  have "\<forall>r. v = Inr r \<longrightarrow> block_records s \<subseteq>\<^sub>m block_records t \<longrightarrow> fork_loop t a b = Ok r"
    if "fork_loop s a b = Some v" for v
  proof (rule fork_loop.raw_induct [of "\<lambda>s a b v. \<forall>r. v = Inr r \<longrightarrow> block_records s \<subseteq>\<^sub>m block_records t \<longrightarrow>
        fork_loop t a b = Ok r", OF _ that], goal_cases)
    case (1 f s a b v)
    show ?case
    proof (intro allI impI)
      fix r
      assume v: "v = Inr r" and le: "block_records s \<subseteq>\<^sub>m block_records t"
      have step: "fork_loop t x y = Ok r" if "f s x y = Ok r" for x y using 1(1) [OF that] le by simp
      note body = 1(2) [unfolded v] and t = fork_loop.simps [of t a b]
      consider (stop) "\<not> (0 < height b \<or> 0 < height a)"
        | (b) "0 < height b \<or> 0 < height a" "height a < height b"
        | (a) "0 < height b \<or> 0 < height a" "height b < height a"
        | (same) "0 < height b \<or> 0 < height a" "height a = height b" "header_hash b = header_hash a"
        | (both) "0 < height b \<or> 0 < height a" "height a = height b" "header_hash b \<noteq> header_hash a"
        by fastforce
      then show "fork_loop t a b = Ok r"
      proof cases
        case b
        then obtain x where "block_record s (prev_hash b) = Ok x" "f s a x = Ok r"
          using body by (auto simp: rbind_eq_Ok)
        with b rd [OF _ le] step show ?thesis unfolding t by simp
      next
        case a
        then obtain x where "block_record s (prev_hash a) = Ok x" "f s x b = Ok r"
          using body by (auto simp: rbind_eq_Ok)
        with a rd [OF _ le] step show ?thesis unfolding t by simp
      next
        case both
        then obtain x y where "block_record s (prev_hash b) = Ok x" "block_record s (prev_hash a) = Ok y" "f s y x = Ok r"
          using body by (auto simp: rbind_eq_Ok)
        with both rd [OF _ le] step show ?thesis unfolding t by simp
      next
        case same
        then have "r = height b" using body by (simp split: if_split_asm)
        with same show ?thesis unfolding t by simp
      next
        case stop
        then have "r = (if b \<noteq> a then - 1 else 0)" using body by (simp split: if_split_asm)
        with stop show ?thesis unfolding t by simp
      qed
    qed
  qed
  with assms show ?thesis by blast
qed

section \<open>The chain of the peak\<close>

text \<open>Heights and hashes, and the summaries, of the blocks of a path at the given places.\<close>

definition path_hashes :: "BlockRecord list \<Rightarrow> nat list \<Rightarrow> (int \<times> bytes) list" where
  "path_hashes bs is = map (\<lambda>i. (int i, header_hash (bs ! i))) is"

definition path_summaries :: "BlockRecord list \<Rightarrow> nat list \<Rightarrow> (int \<times> SubEpochSummary) list" where
  "path_summaries bs is = concat (map (\<lambda>i. case sub_epoch_summary_included (bs ! i) of
     None \<Rightarrow> [] | Some s \<Rightarrow> [(int i, s)]) is)"

lemma path_summaries_keys: "fst ` set (path_summaries bs is) \<subseteq> int ` set is"
  by (auto simp: path_summaries_def split: option.splits)

lemma map_of_path_hashes: "map_of (path_hashes bs is) h = (if h \<in> int ` set is then Some (header_hash (bs ! nat h)) else None)"
  by (induction "is") (auto simp: path_hashes_def)

lemma map_of_path_summaries:
  "map_of (path_summaries bs is) h = (if h \<in> int ` set is then sub_epoch_summary_included (bs ! nat h) else None)"
  by (induction "is") (auto simp: path_summaries_def map_of_append map_add_def split: option.splits)

lemma height_dicts_path:
  assumes ok: "store_rows_ok st" and p: "is_path (records_of st) bs"
  shows "n < length bs \<Longrightarrow> height_dicts_loop (map_of (block_record_rows st)) (header_hash (bs ! n)) (int n)
       (path_hashes bs (rev [Suc n..<length bs])) (path_summaries bs (rev [Suc n..<length bs]))
     = Ok (path_hashes bs (rev [0..<length bs]), path_summaries bs (rev [0..<length bs]))"
proof (induction n)
  case 0
  obtain row where row: "map_of (block_record_rows st) (header_hash (bs ! 0)) = Some row" "brr_block row = bs ! 0"
    using is_pathD(1) [OF p 0] by (auto simp: records_of_def bs_get_block_record_def)
  then have "brr_sub_epoch_summary row = sub_epoch_summary_included (bs ! 0)"
    using ok by (auto simp: store_rows_ok_def row_ok_def dest!: map_of_SomeD)
  moreover have "rev [0..<length bs] = rev [Suc 0..<length bs] @ [0]" using 0 by (simp add: upt_conv_Cons)
  ultimately show ?case using row path_summaries_keys [of bs "rev [Suc 0..<length bs]"]
    by (subst height_dicts_loop.simps)
       (auto simp: update_new path_hashes_def path_summaries_def image_iff split: option.splits)
next
  case (Suc n)
  have row_at: "\<exists>row. map_of (block_record_rows st) (header_hash (bs ! i)) = Some row \<and>
      brr_sub_epoch_summary row = sub_epoch_summary_included (bs ! i) \<and> brr_height row = int i \<and>
      (0 < i \<longrightarrow> brr_prev_hash row = header_hash (bs ! (i - 1)))" if i: "i < length bs" for i
  proof -
    obtain row where row: "map_of (block_record_rows st) (header_hash (bs ! i)) = Some row" "brr_block row = bs ! i"
      using is_pathD(1) [OF p i] by (auto simp: records_of_def bs_get_block_record_def)
    then have "row_ok (header_hash (bs ! i)) row" using ok by (auto simp: store_rows_ok_def dest!: map_of_SomeD)
    with row is_pathD(2,3) [OF p i] show ?thesis by (auto simp: row_ok_def)
  qed
  from row_at [OF Suc.prems] obtain row where row:
    "map_of (block_record_rows st) (header_hash (bs ! Suc n)) = Some row"
    "brr_sub_epoch_summary row = sub_epoch_summary_included (bs ! Suc n)" "brr_prev_hash row = header_hash (bs ! n)" by auto
  have n: "n < length bs" using Suc.prems by simp
  from row_at [OF n] obtain prev where prev: "map_of (block_record_rows st) (header_hash (bs ! n)) = Some prev"
    "brr_height prev = int n" by auto
  let ?is = "rev [Suc (Suc n)..<length bs]"
  have "rev [Suc n..<length bs] = ?is @ [Suc n]" using Suc.prems by (simp add: upt_conv_Cons)
  then have e: "path_hashes bs (rev [Suc n..<length bs]) = path_hashes bs ?is @ [(int (Suc n), header_hash (bs ! Suc n))]"
    "path_summaries bs (rev [Suc n..<length bs]) = path_summaries bs ?is @
       (case sub_epoch_summary_included (bs ! Suc n) of None \<Rightarrow> [] | Some s \<Rightarrow> [(int (Suc n), s)])"
    by (simp_all add: path_hashes_def path_summaries_def)
  have new: "int (Suc n) \<notin> fst ` set (path_hashes bs ?is)" "int (Suc n) \<notin> fst ` set (path_summaries bs ?is)"
    using path_summaries_keys [of bs ?is] by (auto simp: path_hashes_def)
  show ?case
    using Suc.IH [OF n] row prev new
    by (subst height_dicts_loop.simps) (auto simp: e update_new Let_def split: option.splits)
qed

lemma peak_dicts:
  assumes ok: "store_rows_ok st" and p: "is_path (records_of st) bs" and pk: "peaks st = {header_hash (last bs)}"
  shows "get_peak_height_dicts st = Ok (path_hashes bs (rev [0..<length bs]), path_summaries bs (rev [0..<length bs]))"
proof -
  from peak_row_unique [OF pk] ok obtain row where row: "peak_row st = Some (header_hash (last bs), row)"
      "(header_hash (last bs), row) \<in> set (block_record_rows st)" by (auto simp: store_rows_ok_def)
  then have m: "map_of (block_record_rows st) (header_hash (last bs)) = Some row"
    using ok by (simp add: store_rows_ok_def)
  have "row_ok (header_hash (last bs)) row" using ok row(2) by (auto simp: store_rows_ok_def)
  moreover have "brr_block row = last bs"
    using is_path_last(2) [OF p] m by (simp add: records_of_def bs_get_block_record_def)
  ultimately have h: "brr_height row = int (length bs - 1)"
    using is_path_last [OF p] by (simp add: row_ok_def of_nat_diff Suc_le_eq)
  have l: "last bs = bs ! (length bs - 1)" "length bs - 1 < length bs" "Suc (length bs - 1) = length bs"
    using is_path_last(1) [OF p] by (simp_all add: last_conv_nth)
  from height_dicts_path [OF ok p l(2)] row(1) h l show ?thesis
    by (simp add: get_peak_height_dicts_def path_hashes_def path_summaries_def)
qed

end
