(* ===== verification/Generator_Runs.thy ===== *)
theory Generator_Runs
  imports Body_Facts
begin

text \<open>
  The spends of a block: what its generator, called with the generators of the blocks it refers to, gives.
  The node runs a generator when it validates the block, with the cost the block claims as the limit and, in a
  batch, in strict mode (\<open>generator_run\<close>), and again, with the largest limit and in consensus mode, when a
  block it stored beside the main chain becomes part of it. \<open>accepted_run_final\<close> says that the two give
  the same spends, from what \<^verbatim>\<open>clvm_rs\<close> documents of the limit and the mode: a run that succeeds
  under a limit succeeds with the same result under a larger one, and one that succeeds in strict mode
  succeeds with the same result outside it.
\<close>

section \<open>The limit of a run\<close>

definition larger_limit_agrees :: "'s clvm \<Rightarrow> bool" where
  "larger_limit_agrees vm \<longleftrightarrow> (\<forall>m m' p refs r. run_generator_mod vm False m p refs = Ok r \<longrightarrow> m \<le> m' \<longrightarrow>
     run_generator_mod vm False m' p refs = Ok r)"

text \<open>One step accepts what another does, with \<open>d\<close> more cost left.\<close>

definition gains :: "int \<Rightarrow> (int \<times> 'a) vres \<Rightarrow> (int \<times> 'a) vres \<Rightarrow> bool" where
  "gains d m m' \<longleftrightarrow> (\<forall>k x. m = Valid (k, x) \<longrightarrow> m' = Valid (k + d, x))"

named_theorems gains_rules \<open>rules that compare two runs with different limits\<close>

lemma gains_rbind [gains_rules]: "(\<And>x. gains d (f x) (g x)) \<Longrightarrow> gains d (rbind m f) (rbind m g)"
  by (auto simp: gains_def rbind_eq_Ok)

lemma gains_vbind [gains_rules]:
  "accepts_more m m' \<Longrightarrow> (\<And>x. gains d (f x) (g x)) \<Longrightarrow> gains d (vbind m f) (vbind m' g)"
  by (auto simp: gains_def vbind_eq_Valid dest: accepts_moreD)

lemma gains_after:
  "gains d m m' \<Longrightarrow> (\<And>k x. gains d (f k x) (g (k + d) x)) \<Longrightarrow>
   gains d (vbind m (\<lambda>(k, x). f k x)) (vbind m' (\<lambda>(k, x). g k x))"
  by (auto simp: gains_def vbind_eq_Valid)

lemma gains_for_each:
  assumes "\<And>x k a. gains d (f x (k, a)) (g x (k + d, a))"
  shows "gains d (for_each vm f s (k, a)) (for_each vm g s (k + d, a))"
proof -
  have "gains d (vfold f xs (k, a)) (vfold g xs (k + d, a))" for xs
  proof (induction xs arbitrary: k a)
    case (Cons x xs)
    show ?case
      unfolding gains_def
    proof (intro allI impI)
      fix k' b
      assume "vfold f (x # xs) (k, a) = Valid (k', b)"
      then obtain k1 a1 where "f x (k, a) = Valid (k1, a1)" "vfold f xs (k1, a1) = Valid (k', b)" by auto
      with assms [of x k a] Cons.IH [of k1 a1] show "vfold g (x # xs) (k + d, a) = Valid (k' + d, b)"
        by (simp add: gains_def)
    qed
  qed (simp add: gains_def)
  moreover obtain items stop where it: "sexp_as_iter vm s = (items, stop)" by (cases "sexp_as_iter vm s")
  ultimately have v: "gains d (vfold f items (k, a)) (vfold g items (k + d, a))" by simp
  show ?thesis
    unfolding gains_def
  proof (intro allI impI)
    fix k' b
    assume "for_each vm f s (k, a) = Valid (k', b)"
    then have "vfold f items (k, a) = Valid (k', b)" and none: "stop = None"
      by (auto simp: for_each_def it split: option.splits)
    then have "vfold g items (k + d, a) = Valid (k' + d, b)" using v unfolding gains_def by blast
    then show "for_each vm g s (k + d, a) = Valid (k' + d, b)" by (simp add: for_each_def it none)
  qed
qed

lemma any_mode:
  "accepts_more (first_int cr vm a safe) (first_int cr vm a False)"
  "accepts_more (parse_condition cr vm a safe) (parse_condition cr vm a False)"
  by (cases safe; simp only: first_int_modes parse_condition_modes accepts_more_refl)+

lemma condition_step_gains:
  assumes "0 \<le> d"
  shows "gains d (condition_step cr vm safe x (k, cs)) (condition_step cr vm False x (k + d, cs))"
  unfolding condition_step_def prod.case
proof (rule gains_vbind [OF any_mode(2)])
  fix p :: "int \<times> ConditionWithArgs option"
  obtain cost cvl where p: "p = (cost, cvl)" by (cases p)
  show "gains d (case p of (cost, cvl) \<Rightarrow> vbind (reject_if (k - cost < 0) INVALID_BLOCK_COST) (\<lambda>_.
        Valid (k - cost, case cvl of None \<Rightarrow> cs | Some c \<Rightarrow> cs @ [c])))
      (case p of (cost, cvl) \<Rightarrow> vbind (reject_if (k + d - cost < 0) INVALID_BLOCK_COST) (\<lambda>_.
        Valid (k + d - cost, case cvl of None \<Rightarrow> cs | Some c \<Rightarrow> cs @ [c])))"
    using assms by (auto simp: p gains_def vbind_eq_Valid)
qed

lemma spend_step_gains:
  assumes "0 \<le> d"
  shows "gains d (spend_step cr vm safe x (k, npcs)) (spend_step cr vm False x (k + d, npcs))"
  unfolding spend_step_def prod.case
  by (rule gains_after gains_for_each condition_step_gains gains_rules accepts_more_refl any_mode(1) assms
      | simp only: gains_def)+ simp_all

text \<open>A run that was accepted is the same under a larger limit in consensus mode.\<close>

lemma accepted_under_limit:
  assumes laws: "strict_agrees vm" "larger_limit_agrees vm"
    and run: "get_name_puzzle_conditions cr vm g m cpb safe = Ok r" "npc_error r = None" and "m \<le> m'"
  shows "get_name_puzzle_conditions cr vm g m' cpb False = Ok r"
proof -
  let ?l = "int (length (bg_program g)) * cpb"
  have "generator_conditions cr vm g m cpb safe = Valid r"
    using run by (auto simp: get_name_puzzle_conditions_def failed_result_def split: option.splits sum.splits)
  then obtain cost result spends rest npcs where l: "0 \<le> m - ?l" "0 \<le> m - ?l - cost"
    and v: "run_generator_mod vm safe (m - ?l) (bg_program g) (generator_refs g) = Ok (cost, result)"
    and s: "sexp_first vm result = Ok spends"
    and f: "for_each vm (spend_step cr vm safe) spends (m - ?l - cost, []) = Valid (rest, npcs)"
    and r: "rbind (uint64 cost) (\<lambda>cost. Valid \<lparr>npc_error = None, npc_list = npcs, npc_clvm_cost = cost\<rparr>) = Valid r"
    by (auto simp: generator_conditions_def Let_def not_less)
  have "run_generator_mod vm False (m - ?l) (bg_program g) (generator_refs g) = Ok (cost, result)"
    using v laws(1) by (cases safe) (auto simp: strict_agrees_def)
  then have v': "run_generator_mod vm False (m' - ?l) (bg_program g) (generator_refs g) = Ok (cost, result)"
    using laws(2) assms(5) diff_right_mono [OF assms(5), of ?l] unfolding larger_limit_agrees_def by blast
  have "for_each vm (spend_step cr vm False) spends (m - ?l - cost + (m' - m), []) = Valid (rest + (m' - m), npcs)"
  proof -
    have "gains (m' - m) (for_each vm (spend_step cr vm safe) spends (m - ?l - cost, []))
        (for_each vm (spend_step cr vm False) spends (m - ?l - cost + (m' - m), []))"
      by (rule gains_for_each) (rule spend_step_gains, use assms(5) in simp)
    with f show ?thesis unfolding gains_def by blast
  qed
  then have "for_each vm (spend_step cr vm False) spends (m' - ?l - cost, []) = Valid (rest + (m' - m), npcs)"
    by (simp add: algebra_simps)
  moreover have "0 \<le> m' - ?l" "0 \<le> m' - ?l - cost" using l assms(5) by simp_all
  ultimately have "generator_conditions cr vm g m' cpb False = Valid r"
    unfolding generator_conditions_def Let_def using v' s r by simp
  then show ?thesis by (simp add: get_name_puzzle_conditions_def)
qed

section \<open>The generator of a block and its runs\<close>

text \<open>An argument is the generator of a known block of the height that the block refers to.\<close>

definition arg_from :: "FullBlock set \<Rightarrow> int \<Rightarrow> GeneratorArg \<Rightarrow> bool" where
  "arg_from K h a \<longleftrightarrow> ga_block_height a = h \<and>
     (\<exists>b\<in>K. fb_height b = h \<and> fb_transactions_generator b = Some (ga_generator a))"

definition generator_for :: "FullBlock set \<Rightarrow> FullBlock \<Rightarrow> BlockGenerator \<Rightarrow> bool" where
  "generator_for K b g \<longleftrightarrow> fb_transactions_generator b = Some (bg_program g) \<and>
     list_all2 (arg_from K) (fb_transactions_generator_ref_list b) (bg_generator_args g)"

definition generator_run ::
    "crypto \<Rightarrow> 's clvm \<Rightarrow> ConsensusConstants \<Rightarrow> FullBlock set \<Rightarrow> FullBlock \<Rightarrow> NPCResult \<Rightarrow> bool" where
  "generator_run cr vm c K b npc \<longleftrightarrow>
     (\<exists>g ti strict. generator_for K b g \<and> fb_transactions_info b = Some ti \<and>
        get_name_puzzle_conditions cr vm g (min (MAX_BLOCK_COST_CLVM c) (ti_cost ti)) (COST_PER_BYTE c) strict = Ok npc)"

definition accepted_run ::
    "crypto \<Rightarrow> 's clvm \<Rightarrow> ConsensusConstants \<Rightarrow> FullBlock set \<Rightarrow> FullBlock \<Rightarrow> NPCResult \<Rightarrow> bool" where
  "accepted_run cr vm c K b npc \<longleftrightarrow> generator_run cr vm c K b npc \<and> npc_error npc = None"

definition final_run ::
    "crypto \<Rightarrow> 's clvm \<Rightarrow> ConsensusConstants \<Rightarrow> FullBlock set \<Rightarrow> FullBlock \<Rightarrow> NPCResult \<Rightarrow> bool" where
  "final_run cr vm c K b npc \<longleftrightarrow>
     (\<exists>g. generator_for K b g \<and> get_name_puzzle_conditions cr vm g (MAX_BLOCK_COST_CLVM c) (COST_PER_BYTE c) False = Ok npc)"

lemma arg_from_mono: "arg_from K h a \<Longrightarrow> K \<subseteq> K' \<Longrightarrow> arg_from K' h a"
  by (auto simp: arg_from_def)

lemma generator_for_mono: "generator_for K b g \<Longrightarrow> K \<subseteq> K' \<Longrightarrow> generator_for K' b g"
  by (auto simp: generator_for_def intro: list_all2_mono arg_from_mono)

lemma generator_run_mono: "generator_run cr vm c K b npc \<Longrightarrow> K \<subseteq> K' \<Longrightarrow> generator_run cr vm c K' b npc"
  unfolding generator_run_def using generator_for_mono by blast

lemma accepted_run_mono: "accepted_run cr vm c K b npc \<Longrightarrow> K \<subseteq> K' \<Longrightarrow> accepted_run cr vm c K' b npc"
  by (auto simp: accepted_run_def intro: generator_run_mono)

lemma final_run_mono: "final_run cr vm c K b npc \<Longrightarrow> K \<subseteq> K' \<Longrightarrow> final_run cr vm c K' b npc"
  unfolding final_run_def using generator_for_mono by blast

lemma accepted_run_final:
  assumes "strict_agrees vm" and "larger_limit_agrees vm" and "accepted_run cr vm c K b npc"
  shows "final_run cr vm c K b npc"
proof -
  from assms(3) obtain g :: BlockGenerator and ti :: TransactionsInfo and strict where
    "generator_for K b g" "npc_error npc = None"
    "get_name_puzzle_conditions cr vm g (min (MAX_BLOCK_COST_CLVM c) (ti_cost ti)) (COST_PER_BYTE c) strict = Ok npc"
    by (auto simp: accepted_run_def generator_run_def)
  with accepted_under_limit [OF assms(1,2)] show ?thesis unfolding final_run_def by (metis min.cobounded1)
qed

text \<open>When the blocks at the heights referred to are known without ambiguity, the spends are determined.\<close>

definition refs_unique :: "FullBlock set \<Rightarrow> FullBlock \<Rightarrow> bool" where
  "refs_unique K b \<longleftrightarrow> (\<forall>h\<in>set (fb_transactions_generator_ref_list b). \<forall>x\<in>K. \<forall>y\<in>K.
     fb_height x = h \<longrightarrow> fb_height y = h \<longrightarrow> fb_transactions_generator x = fb_transactions_generator y)"

lemma generator_for_unique:
  assumes "generator_for K b g" and "generator_for K b g'" and u: "refs_unique K b"
  shows "g = g'"
proof -
  let ?refs = "fb_transactions_generator_ref_list b"
  have a: "list_all2 (arg_from K) ?refs (bg_generator_args g)" "list_all2 (arg_from K) ?refs (bg_generator_args g')"
    using assms(1,2) by (simp_all add: generator_for_def)
  have "bg_generator_args g = bg_generator_args g'"
  proof (rule nth_equalityI)
    show l: "length (bg_generator_args g) = length (bg_generator_args g')" using a by (simp add: list_all2_lengthD [symmetric])
    fix i assume "i < length (bg_generator_args g)"
    then have i: "i < length ?refs" using a(1) by (simp add: list_all2_lengthD)
    note m = list_all2_nthD [OF a(1) i] list_all2_nthD [OF a(2) i]
    from m obtain x y where "x \<in> K" "y \<in> K" "fb_height x = ?refs ! i" "fb_height y = ?refs ! i"
      "fb_transactions_generator x = Some (ga_generator (bg_generator_args g ! i))"
      "fb_transactions_generator y = Some (ga_generator (bg_generator_args g' ! i))" unfolding arg_from_def by blast
    with u nth_mem [OF i] have "ga_generator (bg_generator_args g ! i) = ga_generator (bg_generator_args g' ! i)"
      unfolding refs_unique_def by (metis option.inject)
    with m show "bg_generator_args g ! i = bg_generator_args g' ! i" by (simp add: arg_from_def)
  qed
  with assms(1,2) show ?thesis by (simp add: generator_for_def)
qed

lemma final_run_unique:
  "final_run cr vm c K b npc \<Longrightarrow> final_run cr vm c K b npc' \<Longrightarrow> refs_unique K b \<Longrightarrow> npc = npc'"
  unfolding final_run_def using generator_for_unique by fastforce

end
