(* ===== verification/Chain_State.thy ===== *)
theory Chain_State
  imports Chain_Path Blockchain Generator_Runs
begin

text \<open>
  What the generators of stored blocks do. Reading the block store changes only its cache (\<open>reads\<close>), and the
  arguments of a generator come from stored blocks (\<open>find_generator_for\<close>). \<open>block_effect\<close> is the effect of a
  block on the coins, \<open>block_spends\<close> what the laws of the evaluator make of it;
  \<open>apply_effects\<close> applies the blocks of a path, in order, to a ledger, and rolling the result back to a
  height gives what the blocks up to that height give.
\<close>

section \<open>Reading the block store\<close>

definition reads :: "BlockStore \<Rightarrow> ('a \<times> BlockStore) res \<Rightarrow> bool" where
  "reads st = ensures (\<lambda>(x, st'). same_tables st st' \<and> store_rows_ok st')"

lemma readsD: "reads st m \<Longrightarrow> m = Ok (x, st') \<Longrightarrow> same_tables st st' \<and> store_rows_ok st'"
  by (auto simp: reads_def ensures_def)

lemma reads_trans: "same_tables st st1 \<Longrightarrow> reads st1 m \<Longrightarrow> reads st m"
  by (auto simp: reads_def ensures_def dest: same_tables_trans)

lemma reads_rbind:
  assumes "reads st m" and "\<And>x st'. m = Ok (x, st') \<Longrightarrow> store_rows_ok st' \<Longrightarrow> reads st' (f (x, st'))"
  shows "reads st (rbind m f)"
  unfolding reads_def
proof (rule ensuresI)
  fix y
  assume "rbind m f = Ok y"
  then obtain x st1 where m: "m = Ok (x, st1)" and f: "f (x, st1) = Ok y" by auto
  obtain z st2 where y: "y = (z, st2)" by (cases y)
  note 1 = readsD [OF assms(1) m]
  from 1 have ok: "store_rows_ok st1" by simp
  from readsD [OF assms(2) [OF m ok]] 1 f y
  show "case y of (x, st') \<Rightarrow> same_tables st st' \<and> store_rows_ok st'" by (auto intro: same_tables_trans)
qed

lemma reads_rbind_pair:
  "reads st m \<Longrightarrow> (\<And>x st'. store_rows_ok st' \<Longrightarrow> reads st' (f x st')) \<Longrightarrow> reads st (rbind m (\<lambda>(x, st'). f x st'))"
  by (rule reads_rbind) auto

lemma reads_pure: "(\<And>x. m = Ok x \<Longrightarrow> reads st (f x)) \<Longrightarrow> reads st (rbind m f)"
  by (auto simp: reads_def ensures_def)

lemma reads_Ok: "store_rows_ok st \<Longrightarrow> reads st (Ok (x, st))"
  by (simp add: reads_def ensures_def)

lemma reads_full_block:
  assumes "store_rows_ok st" and "\<And>b st'. b = blocks_of st hh \<Longrightarrow> store_rows_ok st' \<Longrightarrow> same_tables st st' \<Longrightarrow> reads st' (f b st')"
  shows "reads st (case get_full_block st hh of (b, st') \<Rightarrow> f b st')"
proof -
  obtain b st' where g: "get_full_block st hh = (b, st')" by (cases "get_full_block st hh")
  note d = get_full_blockD [OF assms(1) g]
  show ?thesis unfolding g prod.case by (rule reads_trans [OF d(2) assms(2) [OF d(1) d(3) d(2)]])
qed

lemma reads_generator_args:
  assumes "\<And>h st. store_rows_ok st \<Longrightarrow> reads st (look h st)"
  shows "store_rows_ok st \<Longrightarrow> reads st (generator_args look refs st)"
proof (induction refs arbitrary: st)
  case (Cons h refs)
  show ?case
    unfolding generator_args.simps
  proof (rule reads_rbind [OF assms [OF Cons.prems]])
    fix b st1
    assume ok: "store_rows_ok st1"
    show "reads st1 (case (b, st1) of (ref_block, st) \<Rightarrow> rbind (unwrap AssertionError ref_block) (\<lambda>ref_block.
        case fb_transactions_generator ref_block of None \<Rightarrow> Ok (Inl GENERATOR_REF_HAS_NO_GENERATOR, st)
        | Some g \<Rightarrow> rbind (generator_args look refs st) (\<lambda>(r, st). Ok (case r of Inl e \<Rightarrow> Inl e
             | Inr args \<Rightarrow> Inr (\<lparr>ga_block_height = fb_height ref_block, ga_generator = g\<rparr> # args), st))))"
      by (auto intro!: reads_pure reads_rbind [OF Cons.IH [OF ok]] reads_Ok ok split: option.splits)
  qed
qed (simp add: reads_Ok)

lemma reads_reorg_loop:
  assumes "store_rows_ok st"
  shows "reads st (reorg_loop fork b d st)"
proof -
  have "\<forall>x st'. v = Inr (x, st') \<longrightarrow> store_rows_ok st \<longrightarrow> same_tables st st' \<and> store_rows_ok st'"
    if "reorg_loop fork b d st = Some v" for v
  proof (rule reorg_loop.raw_induct [of "\<lambda>fork b d st v. \<forall>x st'. v = Inr (x, st') \<longrightarrow> store_rows_ok st \<longrightarrow>
        same_tables st st' \<and> store_rows_ok st'", OF _ that], goal_cases)
    case (1 f fork b d st v)
    have IH: "reads st1 (f fork b1 d1 st1)" if "store_rows_ok st1" for b1 d1 st1
      using 1(1) [of fork b1 d1 st1] that by (fastforce simp: reads_def ensures_def)
    show ?case
    proof (intro allI impI)
      fix x st'
      assume v: "v = Inr (x, st')" and ok: "store_rows_ok st"
      have "reads st (if fork < fb_height b \<and> 0 < fb_height b
          then case get_full_block st (fb_prev_header_hash b) of (y, st1) \<Rightarrow>
            rbind (unwrap AssertionError y) (\<lambda>c. f fork c (d(fb_height c \<mapsto> c)) st1) else Ok (d, st))"
        by (auto intro!: reads_full_block reads_pure reads_Ok IH ok)
      with 1(2) v show "same_tables st st' \<and> store_rows_ok st'" by (auto dest: readsD)
    qed
  qed
  with assms show ?thesis by (auto simp: reads_def ensures_def)
qed

lemma reads_block_at_height: "store_rows_ok st \<Longrightarrow> reads st (block_at_height s h st)"
  unfolding block_at_height_def reads_def ensures_def by (auto dest: get_full_blockD)

lemma reads_reorg_blocks: "store_rows_ok st \<Longrightarrow> reads st (reorg_blocks s b d st)"
  unfolding reorg_blocks_def
  by (auto intro!: reads_pure reads_full_block reads_reorg_loop reads_Ok split: option.splits)

lemma reads_collect_args:
  assumes "store_rows_ok (ch_block_store s)"
  shows "reads (ch_block_store s) (collect_args s b additional)"
  unfolding collect_args_def Let_def
proof (intro reads_pure, goal_cases)
  case (1 in_chain)
  let ?look = "\<lambda>m d h st. case m h of Some b \<Rightarrow> Ok (Some b, st)
     | None \<Rightarrow> (case d h of Some b \<Rightarrow> Ok (Some b, st) | None \<Rightarrow> block_at_height s h st)"
  have look: "reads st (?look m d h st)" if "store_rows_ok st" for m d h st
    using reads_block_at_height [OF that] reads_Ok [OF that] by (auto split: option.splits)
  have "reads (ch_block_store s) (rbind (additional_loop additional b Map.empty) (\<lambda>(cur, d).
      rbind (reorg_blocks s cur d (ch_block_store s)) (\<lambda>(m, st).
        generator_args (?look m d) (bb_transactions_generator_ref_list b) st)))"
    unfolding case_prod_unfold
    by (rule reads_pure, rule reads_rbind [OF reads_reorg_blocks [OF assms]])
       (unfold fst_conv snd_conv, rule reads_generator_args [OF look])
  then show ?case using reads_generator_args [OF reads_block_at_height assms] by simp
qed

text \<open>Finding the generator of a block reads the store, and the program is the generator of the block.\<close>

lemma find_generator_reads:
  assumes "find_generator s b additional = Ok (r, s')" and "store_rows_ok (ch_block_store s)"
  shows "\<exists>st. s' = s\<lparr>ch_block_store := st\<rparr> \<and> same_tables (ch_block_store s) st \<and> store_rows_ok st"
    and "r = Inr (Some g) \<Longrightarrow> bb_transactions_generator b = Some (bg_program g)"
proof -
  have self: "\<exists>st. s = s\<lparr>ch_block_store := st\<rparr> \<and> same_tables (ch_block_store s) st \<and> store_rows_ok st"
    using assms(2) by (intro exI [of _ "ch_block_store s"]) simp
  have "(\<exists>st. s' = s\<lparr>ch_block_store := st\<rparr> \<and> same_tables (ch_block_store s) st \<and> store_rows_ok st) \<and>
      (\<forall>g. r = Inr (Some g) \<longrightarrow> bb_transactions_generator b = Some (bg_program g))"
  proof (cases "bb_transactions_generator b")
    case None
    with assms(1) self show ?thesis by (auto simp: find_generator_def Let_def)
  next
    case (Some program)
    show ?thesis
    proof (cases "bb_transactions_generator_ref_list b = []")
      case True
      with assms(1) Some self show ?thesis by (auto simp: find_generator_def Let_def)
    next
      case False
      with assms(1) Some obtain x st where x: "collect_args s b additional = Ok (x, st)"
        and y: "(case x of Inl e \<Rightarrow> Ok (Inl e, s\<lparr>ch_block_store := st\<rparr>)
             | Inr args \<Rightarrow> rbind (py_assert (length args = length (bb_transactions_generator_ref_list b))) (\<lambda>_.
                 Ok (Inr (Some \<lparr>bg_program = program, bg_generator_args = args\<rparr>), s\<lparr>ch_block_store := st\<rparr>))) = Ok (r, s')"
        by (auto simp: find_generator_def)
      have "same_tables (ch_block_store s) st \<and> store_rows_ok st"
        by (rule readsD [OF reads_collect_args [OF assms(2)] x])
      with y Some show ?thesis by (auto split: sum.splits)
    qed
  qed
  then show "\<exists>st. s' = s\<lparr>ch_block_store := st\<rparr> \<and> same_tables (ch_block_store s) st \<and> store_rows_ok st"
    and "r = Inr (Some g) \<Longrightarrow> bb_transactions_generator b = Some (bg_program g)" by blast+
qed

section \<open>The arguments of a generator\<close>

text \<open>The hashes in memory name stored blocks of their height, also those of heights above the peak; then the
  arguments of a generator are the generators of stored blocks, or of the additional ones, at the heights
  that the block refers to.\<close>

abbreviation known :: "BlockStore \<Rightarrow> FullBlock set" where
  "known st \<equiv> ran (blocks_of st)"

definition heights_stored :: "(bytes \<Rightarrow> FullBlock option) \<Rightarrow> (int \<Rightarrow> bytes option) \<Rightarrow> bool" where
  "heights_stored blocks hts \<longleftrightarrow> (\<forall>h hh. hts h = Some hh \<longrightarrow> (\<exists>b. blocks hh = Some b \<and> fb_height b = h))"

lemma heights_stored_empty [simp]: "heights_stored blocks Map.empty"
  by (simp add: heights_stored_def)

definition by_height :: "FullBlock set \<Rightarrow> (int \<Rightarrow> FullBlock option) \<Rightarrow> bool" where
  "by_height K d \<longleftrightarrow> (\<forall>h b. d h = Some b \<longrightarrow> b \<in> K \<and> fb_height b = h)"

lemma by_height_update: "by_height K d \<Longrightarrow> b \<in> K \<Longrightarrow> by_height K (d(fb_height b \<mapsto> b))"
  by (simp add: by_height_def)

lemma by_height_empty [simp]: "by_height K Map.empty"
  by (simp add: by_height_def)

lemma known_block: "blocks_of st hh = Some b \<Longrightarrow> b \<in> known st"
  by (rule ranI)

lemma additional_loop_by_height:
  assumes "additional_loop additional cur d = Ok (cur', d')" and "ran additional \<subseteq> K" and "by_height K d"
  shows "by_height K d'"
proof -
  have "\<forall>cur' d'. v = Inr (cur', d') \<longrightarrow> by_height K d \<longrightarrow> by_height K d'" if "additional_loop additional cur d = Some v" for v
  proof (rule additional_loop.raw_induct [of "\<lambda>ad cur d v. ad = additional \<longrightarrow> (\<forall>cur' d'. v = Inr (cur', d') \<longrightarrow>
        by_height K d \<longrightarrow> by_height K d')", OF _ that, THEN mp, OF _ refl], goal_cases)
    case (1 f ad cur d v)
    show ?case
    proof (intro impI allI)
      fix cur' d'
      assume ad: "ad = additional" and v: "v = Inr (cur', d')" and d: "by_height K d"
      show "by_height K d'"
      proof (cases "additional (bb_prev_header_hash cur)")
        case None
        with 1(2) ad v d show ?thesis by simp
      next
        case (Some prev)
        with assms(2) have "prev \<in> K" by (auto intro: ranI)
        from by_height_update [OF d this] 1(1) 1(2) ad v Some show ?thesis by (fastforce elim!: rbind_OkE)
      qed
    qed
  qed
  with assms show ?thesis by blast
qed

lemma reorg_loop_by_height:
  assumes "reorg_loop fork b d st = Ok (d', st')" and "store_rows_ok st" and "known st \<subseteq> K" and "by_height K d"
  shows "by_height K d'"
proof -
  have "\<forall>x st'. v = Inr (x, st') \<longrightarrow> store_rows_ok st \<longrightarrow> known st \<subseteq> K \<longrightarrow> by_height K d \<longrightarrow> by_height K x"
    if "reorg_loop fork b d st = Some v" for v
  proof (rule reorg_loop.raw_induct [of "\<lambda>fork b d st v. \<forall>x st'. v = Inr (x, st') \<longrightarrow> store_rows_ok st \<longrightarrow>
        known st \<subseteq> K \<longrightarrow> by_height K d \<longrightarrow> by_height K x", OF _ that], goal_cases)
    case (1 f fork b d st v)
    show ?case
    proof (intro allI impI)
      fix x st'
      assume v: "v = Inr (x, st')" and ok: "store_rows_ok st" and K: "known st \<subseteq> K" and d: "by_height K d"
      obtain y st1 where g: "get_full_block st (fb_prev_header_hash b) = (y, st1)"
        by (cases "get_full_block st (fb_prev_header_hash b)")
      note r = get_full_blockD [OF ok g]
      have K1: "known st1 \<subseteq> K" using same_tables_views [OF r(2)] K by simp
      have "by_height K x" if "y = Some c" "f fork c (d(fb_height c \<mapsto> c)) st1 = Ok (x, st')" for c
      proof -
        have "c \<in> K" using known_block [of st "fb_prev_header_hash b" c] r(1) that(1) K by auto
        from by_height_update [OF d this] 1(1) [OF that(2)] r(3) K1 show ?thesis by blast
      qed
      with 1(2) v d g show "by_height K x" by (auto split: if_splits)
    qed
  qed
  with assms show ?thesis by blast
qed

lemma reorg_blocks_by_height:
  assumes "reorg_blocks s b d st = Ok (d', st')" and ok: "store_rows_ok st" and K: "known st \<subseteq> K" and d: "by_height K d"
  shows "by_height K d'"
proof -
  obtain y st1 where g: "get_full_block st (bb_prev_header_hash b) = (y, st1)"
    by (cases "get_full_block st (bb_prev_header_hash b)")
  note r = get_full_blockD [OF ok g]
  have K1: "known st1 \<subseteq> K" using same_tables_views [OF r(2)] K by simp
  have "by_height K d'" if "y = Some c" "reorg_loop f c (d(fb_height c \<mapsto> c)) st1 = Ok (d', st')" for c f
  proof -
    have "c \<in> K" using known_block [of st "bb_prev_header_hash b" c] r(1) that(1) K by auto
    from reorg_loop_by_height [OF that(2) r(3) K1 by_height_update [OF d this]] show ?thesis .
  qed
  with assms(1) d g show ?thesis by (auto simp: reorg_blocks_def split: option.splits if_splits)
qed

lemma block_at_height_known:
  assumes "block_at_height s h st = Ok (Some b, st')" and "store_rows_ok st"
    and "heights_stored (blocks_of st) (height_to_hash_map (ch_blocks s))"
  shows "b \<in> known st \<and> fb_height b = h"
proof -
  from assms(1) obtain hh where hh: "height_to_hash_map (ch_blocks s) h = Some hh" "get_full_block st hh = (Some b, st')"
    by (auto simp: block_at_height_def ch_height_to_hash_def)
  have "blocks_of st hh = Some b" using get_full_blockD(1) [OF assms(2) hh(2)] by simp
  with assms(3) hh(1) show ?thesis by (fastforce simp: heights_stored_def intro: known_block)
qed

lemma generator_args_from:
  assumes look: "\<And>h st b st'. same_tables st0 st \<Longrightarrow> store_rows_ok st \<Longrightarrow> look h st = Ok (Some b, st') \<Longrightarrow> b \<in> K \<and> fb_height b = h"
    and reads: "\<And>h st. store_rows_ok st \<Longrightarrow> reads st (look h st)"
  shows "generator_args look refs st = Ok (Inr args, st') \<Longrightarrow> same_tables st0 st \<Longrightarrow> store_rows_ok st \<Longrightarrow>
    list_all2 (arg_from K) refs args"
proof (induction refs arbitrary: st args)
  case (Cons h refs)
  from Cons.prems(1) obtain b st1 where l: "look h st = Ok (Some b, st1)"
    and k: "(case fb_transactions_generator b of None \<Rightarrow> Ok (Inl GENERATOR_REF_HAS_NO_GENERATOR, st1)
        | Some g \<Rightarrow> rbind (generator_args look refs st1) (\<lambda>(r, st). Ok (case r of Inl e \<Rightarrow> Inl e
             | Inr args \<Rightarrow> Inr (\<lparr>ga_block_height = fb_height b, ga_generator = g\<rparr> # args), st))) = Ok (Inr args, st')"
    by auto
  note b = look [OF Cons.prems(2,3) l]
  have r: "same_tables st0 st1" "store_rows_ok st1"
    using readsD [OF reads [OF Cons.prems(3)] l] Cons.prems(2) by (auto intro: same_tables_trans)
  from k obtain g rest where g: "fb_transactions_generator b = Some g" and "generator_args look refs st1 = Ok (Inr rest, st')"
    and e: "args = \<lparr>ga_block_height = fb_height b, ga_generator = g\<rparr> # rest" by (auto split: option.splits sum.splits)
  from Cons.IH [OF this(2) r] b g e show ?case by (auto simp: arg_from_def)
qed simp

lemma find_generator_for:
  assumes f: "find_generator s b additional = Ok (Inr (Some g), s')" and ok: "store_rows_ok (ch_block_store s)"
    and hts: "heights_stored (blocks_of (ch_block_store s)) (height_to_hash_map (ch_blocks s))"
  shows "bb_transactions_generator b = Some (bg_program g) \<and>
    list_all2 (arg_from (known (ch_block_store s) \<union> ran additional)) (bb_transactions_generator_ref_list b) (bg_generator_args g)"
proof -
  let ?st = "ch_block_store s" and ?refs = "bb_transactions_generator_ref_list b"
  let ?K = "known ?st \<union> ran additional"
  have at: "x \<in> ?K \<and> fb_height x = h" if "same_tables ?st st" "store_rows_ok st" "block_at_height s h st = Ok (Some x, st')" for h st x st'
    using block_at_height_known [OF that(3,2)] hts same_tables_views [OF that(1)] by (simp add: heights_stored_def)
  have args: "list_all2 (arg_from ?K) ?refs args" if c: "collect_args s b additional = Ok (Inr args, st)" for args st
  proof -
    from c obtain inc where inc: "in_main_chain s (bb_prev_header_hash b) = Ok inc"
      and k: "(if inc then generator_args (block_at_height s) ?refs ?st
        else rbind (additional_loop additional b Map.empty) (\<lambda>(cur, d).
          rbind (reorg_blocks s cur d ?st) (\<lambda>(m, st).
            generator_args (\<lambda>h st. case m h of Some b \<Rightarrow> Ok (Some b, st)
                | None \<Rightarrow> (case d h of Some b \<Rightarrow> Ok (Some b, st) | None \<Rightarrow> block_at_height s h st)) ?refs st))) = Ok (Inr args, st)"
      by (auto simp: collect_args_def Let_def)
    show ?thesis
    proof (cases inc)
      case True
      with k have "generator_args (block_at_height s) ?refs ?st = Ok (Inr args, st)" by simp
      from generator_args_from [of ?st, OF at reads_block_at_height this same_tables_refl ok] show ?thesis .
    next
      case False
      with k obtain cur d m st1 where d: "additional_loop additional b Map.empty = Ok (cur, d)"
        and m: "reorg_blocks s cur d ?st = Ok (m, st1)"
        and g: "generator_args (\<lambda>h st. case m h of Some b \<Rightarrow> Ok (Some b, st)
                | None \<Rightarrow> (case d h of Some b \<Rightarrow> Ok (Some b, st) | None \<Rightarrow> block_at_height s h st)) ?refs st1 = Ok (Inr args, st)"
        by auto
      have bd: "by_height ?K d" by (rule additional_loop_by_height [OF d]) simp_all
      have bm: "by_height ?K m" by (rule reorg_blocks_by_height [OF m ok _ bd]) simp
      have r: "same_tables ?st st1" "store_rows_ok st1" using readsD [OF reads_reorg_blocks [OF ok] m] by simp_all
      show ?thesis
        by (rule generator_args_from [OF _ _ g r])
           (use at bd bm in \<open>auto simp: by_height_def reads_Ok reads_block_at_height split: option.splits\<close>)
    qed
  qed
  from f show ?thesis
    by (auto simp: find_generator_def split: option.splits if_splits sum.splits dest!: args)
qed

section \<open>The ledger of a chain\<close>

text \<open>What a block does to the coins: nothing without a generator, and otherwise what one of its runs gives, the
  one of its validation or the one made when it joined the main chain; the block passed its validation.\<close>

type_synonym effect = "FullBlock \<times> Coin list \<times> bytes list"

definition block_effect :: "crypto \<Rightarrow> 's clvm \<Rightarrow> ConsensusConstants \<Rightarrow> FullBlock set \<Rightarrow> effect \<Rightarrow> bool" where
  "block_effect cr vm c K = (\<lambda>(b, adds, rems).
     if fb_is_transaction_block b \<and> fb_transactions_generator b \<noteq> None then
       (\<exists>npc. accepted_run cr vm c K b npc) \<and>
       (\<exists>npc. (accepted_run cr vm c K b npc \<or> final_run cr vm c K b npc) \<and>
          tx_removals_and_additions cr (Some (npc_list npc)) = Ok (rems, adds))
     else adds = [] \<and> rems = [])"

lemma block_effect_mono:
  assumes "block_effect cr vm c K e" and "K \<subseteq> K'"
  shows "block_effect cr vm c K' e"
proof -
  obtain b adds rems where e: "e = (b, adds, rems)" by (cases e)
  show ?thesis
  proof (cases "fb_is_transaction_block b \<and> fb_transactions_generator b \<noteq> None")
    case True
    with assms(1) e obtain x y where "accepted_run cr vm c K b x" "accepted_run cr vm c K b y \<or> final_run cr vm c K b y"
      "tx_removals_and_additions cr (Some (npc_list y)) = Ok (rems, adds)" by (auto simp: block_effect_def)
    with accepted_run_mono [OF _ assms(2)] final_run_mono [OF _ assms(2)] True show ?thesis
      unfolding block_effect_def e by (simp only: prod.case simp_thms if_True) blast
  qed (use assms(1) e in \<open>auto simp: block_effect_def\<close>)
qed

text \<open>Under the laws of the evaluator both are the run with the largest limit, without an error if the blocks referred
  to are unambiguous; then the block determines the coins.\<close>

definition block_spends :: "crypto \<Rightarrow> 's clvm \<Rightarrow> ConsensusConstants \<Rightarrow> FullBlock set \<Rightarrow> effect \<Rightarrow> bool" where
  "block_spends cr vm c K = (\<lambda>(b, adds, rems).
     if fb_is_transaction_block b \<and> fb_transactions_generator b \<noteq> None then
       (\<exists>npc. final_run cr vm c K b npc \<and> (refs_unique K b \<longrightarrow> npc_error npc = None) \<and>
          tx_removals_and_additions cr (Some (npc_list npc)) = Ok (rems, adds))
     else adds = [] \<and> rems = [])"

lemma block_effect_spends:
  assumes "strict_agrees vm" and "larger_limit_agrees vm" and "block_effect cr vm c K e"
  shows "block_spends cr vm c K e"
proof -
  obtain b adds rems where e: "e = (b, adds, rems)" by (cases e)
  show ?thesis
  proof (cases "fb_is_transaction_block b \<and> fb_transactions_generator b \<noteq> None")
    case True
    with assms(3) e obtain x y where x: "accepted_run cr vm c K b x"
      and y: "accepted_run cr vm c K b y \<or> final_run cr vm c K b y"
        "tx_removals_and_additions cr (Some (npc_list y)) = Ok (rems, adds)" by (auto simp: block_effect_def)
    note f = accepted_run_final [OF assms(1,2)]
    have "final_run cr vm c K b y" using f y(1) by blast
    moreover have "npc_error y = None" if "refs_unique K b"
      using final_run_unique [OF f [OF x] calculation that] x by (simp add: accepted_run_def)
    ultimately show ?thesis using True y(2) e by (auto simp: block_spends_def)
  next
    case False
    with assms(3) e show ?thesis by (auto simp: block_effect_def block_spends_def)
  qed
qed

lemma block_spends_unique:
  assumes "block_spends cr vm c K (b, adds, rems)" and "block_spends cr vm c K (b, adds', rems')" and "refs_unique K b"
  shows "adds' = adds \<and> rems' = rems"
  using assms final_run_unique by (fastforce simp: block_spends_def split: if_splits)

definition apply_effects :: "crypto \<Rightarrow> effect list \<Rightarrow> ledger \<Rightarrow> ledger res" where
  "apply_effects cr = rfold (\<lambda>(b, adds, rems). led_block cr b adds rems)"

lemma apply_effects_append:
  "apply_effects cr (es @ es') led = rbind (apply_effects cr es led) (apply_effects cr es')"
  by (simp add: apply_effects_def rfold_append)

text \<open>The heights in a ledger.\<close>

definition heights_in :: "int \<Rightarrow> ledger \<Rightarrow> bool" where
  "heights_in i led \<longleftrightarrow> unspent_zero led \<and> (\<forall>n r. led n = Some r \<longrightarrow> 0 \<le> cr_confirmed_block_index r \<and>
     cr_confirmed_block_index r \<le> i \<and> cr_spent_block_index r \<le> i)"

lemma heights_in_add:
  assumes "heights_in i led" "led_add cr r led = Ok led'" "0 \<le> cr_confirmed_block_index r" "cr_confirmed_block_index r \<le> i"
    "\<not> cr_spent r" "cr_spent_block_index r = 0"
  shows "heights_in i led'"
  using assms by (fastforce simp: led_add_def heights_in_def unspent_zero_def split: if_splits)

lemma heights_in_spend:
  assumes "heights_in i led" "led_spend n h led = Ok (a, led')" "h \<le> i"
  shows "heights_in i led'"
  using assms by (auto simp: led_spend_def heights_in_def unspent_zero_def split: if_splits)

lemma heights_in_block:
  assumes "heights_in i led" "led_block cr b adds rems led = Ok led'" "0 \<le> fb_height b" "fb_height b \<le> i"
  shows "heights_in i led'"
proof (cases "fb_foliage_transaction_block b")
  case None
  with assms show ?thesis by (simp add: led_block_def)
next
  case (Some ftb)
  have add: "heights_in i v" if "rfold (\<lambda>coin. led_add cr (new_record (fb_height b) t c coin)) cs u = Ok v"
    "heights_in i u" for t c cs u v
    by (rule rfold_invariant [OF that(1), of "heights_in i", OF that(2)])
       (use assms(3,4) in \<open>auto elim!: heights_in_add simp: new_record_def\<close>)
  have spend: "heights_in i (snd v)" if "rfold (\<lambda>n (t, led). rbind (led_spend n (fb_height b) led)
      (\<lambda>(a, led). Ok (t + a, led))) rems u = Ok v" "heights_in i (snd u)" for u v
    by (rule rfold_invariant [OF that(1), of "\<lambda>p. heights_in i (snd p)", OF that(2)])
       (use assms(4) in \<open>auto elim!: heights_in_spend\<close>)
  from assms(2) Some add [OF _ assms(1)] show ?thesis
    by (auto simp: led_block_def) (use add spend in fastforce)
qed

lemma heights_in_effects:
  assumes "apply_effects cr es led = Ok led'" "heights_in i led"
    and "\<And>b adds rems. (b, adds, rems) \<in> set es \<Longrightarrow> 0 \<le> fb_height b \<and> fb_height b \<le> i"
  shows "heights_in i led'"
  by (rule rfold_invariant [OF assms(1) [unfolded apply_effects_def], of "heights_in i", OF assms(2)])
     (use assms(3) in \<open>auto elim!: heights_in_block\<close>)

lemma heights_in_empty [simp]: "heights_in i Map.empty"
  by (simp add: heights_in_def unspent_zero_def)

lemma above_effects:
  assumes "apply_effects cr es led = Ok led'" "unspent_zero led" "0 \<le> i"
    and "\<And>b adds rems. (b, adds, rems) \<in> set es \<Longrightarrow> i < fb_height b"
  shows "led_rollback i led' = led_rollback i led"
proof -
  have "above i led led" using assms(2) by (simp add: above_def)
  then have "above i led led'"
    by (rule rfold_invariant [OF assms(1) [unfolded apply_effects_def], of "above i led"])
       (use assms(3,4) in \<open>auto elim!: above_block\<close>)
  then show ?thesis by (simp add: above_def)
qed

text \<open>Rolling back to a height leaves the ledger of the blocks up to it.\<close>

lemma rollback_effects:
  assumes run: "apply_effects cr es Map.empty = Ok led"
    and h: "\<And>i. i < length es \<Longrightarrow> fb_height (fst (es ! i)) = int i"
    and f: "- 1 \<le> f" "f < int (length es)"
  shows "apply_effects cr (take (nat (f + 1)) es) Map.empty = Ok (led_rollback f led)"
proof -
  let ?k = "nat (f + 1)"
  have low: "0 \<le> fb_height b \<and> fb_height b \<le> f" if "(b, adds, rems) \<in> set (take ?k es)" for b adds rems
  proof -
    from that obtain i where "i < length (take ?k es)" "take ?k es ! i = (b, adds, rems)" by (auto simp: in_set_conv_nth)
    with h [of i] f show ?thesis by simp
  qed
  have high: "f < fb_height b" if "(b, adds, rems) \<in> set (drop ?k es)" for b adds rems
  proof -
    from that obtain i where i: "i < length (drop ?k es)" "drop ?k es ! i = (b, adds, rems)" by (auto simp: in_set_conv_nth)
    then have "es ! (?k + i) = (b, adds, rems)" "?k + i < length es" using f by (simp_all add: nth_drop)
    with h [of "?k + i"] f show ?thesis by simp
  qed
  have "apply_effects cr (take ?k es @ drop ?k es) Map.empty = Ok led" using run by simp
  then obtain led1 where 1: "apply_effects cr (take ?k es) Map.empty = Ok led1"
    and 2: "apply_effects cr (drop ?k es) led1 = Ok led"
    unfolding apply_effects_append by (rule rbind_OkE)
  have hi: "heights_in f led1" by (rule heights_in_effects [OF 1 heights_in_empty]) (use low in blast)
  have "led_rollback f led = led1"
  proof (cases "0 \<le> f")
    case True
    have "settled f led1" "unspent_zero led1" using hi by (auto simp: heights_in_def settled_def)
    with above_effects [OF 2 _ True] high rollback_settled show ?thesis by fastforce
  next
    case False
    with f have k: "?k = 0" "f = - 1" by simp_all
    then have "led1 = Map.empty" using 1 by (simp add: apply_effects_def)
    moreover have "heights_in (int (length es)) led"
    proof (rule heights_in_effects [OF run heights_in_empty])
      fix b adds rems
      assume "(b, adds, rems) \<in> set es"
      then obtain i where "i < length es" "es ! i = (b, adds, rems)" by (auto simp: in_set_conv_nth)
      with h [of i] show "0 \<le> fb_height b \<and> fb_height b \<le> int (length es)" by simp
    qed
    then have "led_rollback f led = Map.empty"
      unfolding k(2) by (auto simp: led_rollback_def heights_in_def fun_eq_iff split: option.splits) fastforce
    ultimately show ?thesis by simp
  qed
  with 1 show ?thesis by simp
qed

end
