(* ===== verification/Chain_Facts.thy ===== *)
theory Chain_Facts
  imports Chain_State
begin

text \<open>
  What \<^verbatim>\<open>Blockchain\<close> keeps. \<open>node_ok\<close> is the invariant: the database is a complete set of blocks, the records in
  memory are among them, and the main chain is a path from the genesis block to the marked peak, which
  is as heavy as any other block; the heights and summaries in memory are those of the path, and the coin
  store is the ledger obtained by applying the blocks of the path in order to an empty one. \<open>same_chain\<close>
  relates two states that differ in caches only; it carries \<open>node_ok\<close> and the main chain over.
\<close>

section \<open>The invariant\<close>

definition chain_in :: "crypto \<Rightarrow> 's clvm \<Rightarrow> Blockchain \<Rightarrow> BlockRecord list \<Rightarrow> effect list \<Rightarrow> bool" where
  "chain_in cr vm s bs es \<longleftrightarrow>
     is_path (records_of (ch_block_store s)) bs \<and> peaks (ch_block_store s) = {header_hash (last bs)} \<and>
     (\<forall>i<length bs. height_to_hash_map (ch_blocks s) (int i) = Some (header_hash (bs ! i))) \<and>
     (\<forall>h. map_of (sub_epoch_summaries (ch_blocks s)) h =
        (if 0 \<le> h \<and> h < int (length bs) then sub_epoch_summary_included (bs ! nat h) else None)) \<and>
     list_all2 (\<lambda>r e. blocks_of (ch_block_store s) (header_hash r) = Some (fst e) \<and>
        block_effect cr vm (ch_constants s) (known (ch_block_store s)) e) bs es \<and>
     apply_effects cr es Map.empty = Ok (ledger_of (ch_coin_store s))"

definition heaviest :: "BlockStore \<Rightarrow> BlockRecord \<Rightarrow> bool" where
  "heaviest st b \<longleftrightarrow> (\<forall>hh r. records_of st hh = Some r \<longrightarrow> height r = 0 \<or> weight r \<le> weight b)"

definition main_chain :: "crypto \<Rightarrow> 's clvm \<Rightarrow> Blockchain \<Rightarrow> BlockRecord list \<Rightarrow> effect list \<Rightarrow> bool" where
  "main_chain cr vm s bs es \<longleftrightarrow> chain_in cr vm s bs es \<and> heaviest (ch_block_store s) (last bs)"

text \<open>Every stored block passed the run of its generator when it was validated.\<close>

definition runs_ok :: "crypto \<Rightarrow> 's clvm \<Rightarrow> ConsensusConstants \<Rightarrow> FullBlock set \<Rightarrow> bool" where
  "runs_ok cr vm c K \<longleftrightarrow> (\<forall>b\<in>K. fb_is_transaction_block b \<longrightarrow> fb_transactions_generator b \<noteq> None \<longrightarrow>
     (\<exists>npc. accepted_run cr vm c K b npc))"

definition node_ok :: "crypto \<Rightarrow> 's clvm \<Rightarrow> Blockchain \<Rightarrow> bool" where
  "node_ok cr vm s \<longleftrightarrow>
     store_ok cr (ch_coin_store s) \<and> store_rows_ok (ch_block_store s) \<and> chain_ok (store_view (ch_block_store s)) \<and>
     (\<forall>hh r. records_of (ch_block_store s) hh = Some r \<longrightarrow>
        hh \<noteq> GENESIS_CHALLENGE (ch_constants s) \<and> (height r = 0 \<longrightarrow> prev_hash r = GENESIS_CHALLENGE (ch_constants s))) \<and>
     block_records (ch_blocks s) \<subseteq>\<^sub>m records_of (ch_block_store s) \<and>
     heights_stored (blocks_of (ch_block_store s)) (height_to_hash_map (ch_blocks s)) \<and>
     runs_ok cr vm (ch_constants s) (known (ch_block_store s)) \<and>
     (case ch_peak_height s of
        None \<Rightarrow> records_of (ch_block_store s) = Map.empty \<and> ledger_of (ch_coin_store s) = Map.empty \<and>
                sub_epoch_summaries (ch_blocks s) = []
      | Some p \<Rightarrow> \<exists>bs es. main_chain cr vm s bs es \<and> int (length bs) = p + 1)"

text \<open>Reading the stores changes nothing but their caches.\<close>

definition same_chain :: "crypto \<Rightarrow> Blockchain \<Rightarrow> Blockchain \<Rightarrow> bool" where
  "same_chain cr s s' \<longleftrightarrow>
     (\<exists>cs st. s' = s\<lparr>ch_coin_store := cs, ch_block_store := st\<rparr> \<and> same_tables (ch_block_store s) st \<and>
        store_rows_ok st \<and> implements cr cs (ledger_of (ch_coin_store s)))"

lemma same_tables_peaks: "same_tables st st' \<Longrightarrow> peaks st' = peaks st"
  by (simp add: same_tables_def peaks_def)

lemma same_chain_ok:
  assumes "node_ok cr vm s" and "same_chain cr s s'"
  shows "node_ok cr vm s'"
proof -
  obtain cs st where s': "s' = s\<lparr>ch_coin_store := cs, ch_block_store := st\<rparr>"
    and t: "same_tables (ch_block_store s) st" and ok: "store_rows_ok st"
    and cs: "store_ok cr cs" "ledger_of cs = ledger_of (ch_coin_store s)"
    using assms(2) by (auto simp: same_chain_def implements_def)
  note v = same_tables_views [OF t]
  have m: "main_chain cr vm s' bs es = main_chain cr vm s bs es" for bs es
    by (simp add: main_chain_def chain_in_def heaviest_def s' v cs(2) same_tables_peaks [OF t])
  have "store_view st = store_view (ch_block_store s)" using v by (simp add: store_view_def)
  then show ?thesis using assms(1) cs ok m
    by (cases "ch_peak_height s") (auto simp: node_ok_def s' v)
qed

lemma same_chain_refl: "node_ok cr vm s \<Longrightarrow> same_chain cr s s"
  unfolding same_chain_def node_ok_def implements_def
  by (intro exI [of _ "ch_coin_store s"] exI [of _ "ch_block_store s"]) simp

lemma same_chain_store:
  assumes "node_ok cr vm s" and "same_tables (ch_block_store s) st" and "store_rows_ok st"
  shows "same_chain cr s (s\<lparr>ch_block_store := st\<rparr>)"
  using assms unfolding same_chain_def node_ok_def implements_def
  by (intro exI [of _ "ch_coin_store s"] exI [of _ st]) simp

lemma same_chain_coins:
  assumes "node_ok cr vm s" and "implements cr cs (ledger_of (ch_coin_store s))"
  shows "same_chain cr s (s\<lparr>ch_coin_store := cs\<rparr>)"
  using assms unfolding same_chain_def node_ok_def
  by (intro exI [of _ cs] exI [of _ "ch_block_store s"]) simp

text \<open>Validating a body reads coins, and fixes which blocks have a result of their generator.\<close>

lemma body_keeps_coins:
  assumes "validate_block_body cr vm c blocks gf cs peak block h nr fp g = Valid (x, cs')" and "implements cr cs led"
  shows "implements cr cs' led"
proof (cases "foliage_transaction_block_hash (bb_foliage block)")
  case None
  with assms show ?thesis by (auto simp: validate_block_body_def)
next
  case (Some fh)
  then have "foliage_transaction_block_hash (bb_foliage block) \<noteq> None" by simp
  from accepted_bodyE [OF assms(1) this] obtain ts fork_h dic fc names records s'
    where v: "vfold (removal_step cr h ts fork_h dic fc) names ([], cs) = Valid (records, s')" and e: "cs' = s'"
    by (metis prod.inject)
  have "implements cr (snd (records, s')) led"
  proof (rule vfold_invariant [OF v, of "\<lambda>p. implements cr (snd p) led"])
    fix n u w
    assume i: "implements cr (snd u) led" and st: "removal_step cr h ts fork_h dic fc n u = Valid w"
    obtain rs t where u: "u = (rs, t)" by (cases u)
    from get_coin_record_ledger [of cr t led n] i u obtain t' where
      "get_coin_record cr t n = Ok (led n, t')" "implements cr t' led" by auto
    with st i u show "implements cr (snd w) led"
      by (auto simp: removal_step_def split: option.splits if_splits elim!: vbind_ValidE)
  qed (use assms(2) in simp)
  with e show ?thesis by simp
qed

lemma body_npc:
  assumes "validate_block_body cr vm c blocks gf cs peak (body_of_full b) h nr fp g = Valid r"
    and "fb_is_transaction_block b"
  shows "nr = None \<longleftrightarrow> fb_transactions_generator b = None" and "nr = Some x \<Longrightarrow> npc_error x = None"
proof -
  have "foliage_transaction_block_hash (bb_foliage (body_of_full b)) \<noteq> None"
  proof
    assume "foliage_transaction_block_hash (bb_foliage (body_of_full b)) = None"
    with assms show False
      by (auto simp: validate_block_body_def check_no_transactions_def body_of_full_def fb_is_transaction_block_def)
  qed
  from accepted_bodyE [OF assms(1) this] obtain sp where sp: "body_spends cr c (body_of_full b) nr = Valid sp"
    by metis
  then show "nr = None \<longleftrightarrow> fb_transactions_generator b = None"
    by (auto simp: body_spends_def body_of_full_def split: option.splits)
  show "npc_error x = None" if "nr = Some x"
    using sp that by (auto simp: body_spends_def split: option.splits)
qed

text \<open>The coins of a block that is read back.\<close>

lemma tx_effect:
  assumes "get_tx_removals_and_additions cr vm s b npc = Ok ((rems, adds), s')"
    and ok: "store_rows_ok (ch_block_store s)" and hts: "heights_stored (blocks_of (ch_block_store s)) (height_to_hash_map (ch_blocks s))"
    and runs: "fb_is_transaction_block b \<Longrightarrow> fb_transactions_generator b \<noteq> None \<Longrightarrow>
       \<exists>x. accepted_run cr vm (ch_constants s) (known (ch_block_store s)) b x"
    and npc: "\<And>x. fb_is_transaction_block b \<Longrightarrow> fb_transactions_generator b \<noteq> None \<Longrightarrow> npc = Some x \<Longrightarrow>
       accepted_run cr vm (ch_constants s) (known (ch_block_store s)) b x"
  shows "block_effect cr vm (ch_constants s) (known (ch_block_store s)) (b, adds, rems)"
    and "\<exists>st. s' = s\<lparr>ch_block_store := st\<rparr> \<and> same_tables (ch_block_store s) st \<and> store_rows_ok st"
proof -
  have self: "\<exists>st. s = s\<lparr>ch_block_store := st\<rparr> \<and> same_tables (ch_block_store s) st \<and> store_rows_ok st"
    using ok by (intro exI [of _ "ch_block_store s"]) simp
  have "block_effect cr vm (ch_constants s) (known (ch_block_store s)) (b, adds, rems) \<and>
      (\<exists>st. s' = s\<lparr>ch_block_store := st\<rparr> \<and> same_tables (ch_block_store s) st \<and> store_rows_ok st)"
  proof (cases "fb_is_transaction_block b \<and> fb_transactions_generator b \<noteq> None")
    case False
    with assms(1) self show ?thesis by (auto simp: get_tx_removals_and_additions_def block_effect_def)
  next
    case True
    show ?thesis
    proof (cases npc)
      case (Some r)
      with assms(1) True npc self show ?thesis
        by (auto simp: get_tx_removals_and_additions_def block_effect_def)
    next
      case None
      with assms(1) True obtain g s1 r where g0: "get_block_generator s (body_of_full b) Map.empty = Ok (Some g, s1)"
        and r: "get_name_puzzle_conditions cr vm g (MAX_BLOCK_COST_CLVM (ch_constants s1))
            (COST_PER_BYTE (ch_constants s1)) False = Ok r"
        and x: "tx_removals_and_additions cr (Some (npc_list r)) = Ok (rems, adds)" "s' = s1"
        unfolding get_tx_removals_and_additions_def by auto
      from g0 have g: "find_generator s (body_of_full b) Map.empty = Ok (Inr (Some g), s1)"
        by (auto simp: get_block_generator_def split: sum.splits)
      from find_generator_reads [OF g ok] obtain st where st: "s1 = s\<lparr>ch_block_store := st\<rparr>"
          "same_tables (ch_block_store s) st" "store_rows_ok st" by blast
      have "generator_for (known (ch_block_store s)) b g"
        using find_generator_for [OF g ok hts] by (simp add: generator_for_def body_of_full_def)
      then have "final_run cr vm (ch_constants s) (known (ch_block_store s)) b r"
        using r st(1) unfolding final_run_def by auto
      with runs True x st show ?thesis by (auto simp: block_effect_def)
    qed
  qed
  then show "block_effect cr vm (ch_constants s) (known (ch_block_store s)) (b, adds, rems)"
    and "\<exists>st. s' = s\<lparr>ch_block_store := st\<rparr> \<and> same_tables (ch_block_store s) st \<and> store_rows_ok st" by blast+
qed

section \<open>From the fork to the peak\<close>

definition path_blocks :: "BlockStore \<Rightarrow> BlockRecord list \<Rightarrow> nat list \<Rightarrow> (FullBlock \<times> BlockRecord) list" where
  "path_blocks st cs is = map (\<lambda>i. (the (blocks_of st (header_hash (cs ! i))), cs ! i)) is"

lemma path_block:
  assumes "store_rows_ok st" and "is_path (records_of st) cs" and "i < length cs"
  shows "\<exists>b. blocks_of st (header_hash (cs ! i)) = Some b \<and> block_of_record b (cs ! i)"
  using stored_block [OF assms(1) is_pathD(1) [OF assms(2,3)]] by blast

lemma blocks_to_fork_path:
  assumes p: "is_path (records_of st0) cs" and f: "- 1 \<le> f"
    and at: "0 \<le> f \<Longrightarrow> hash_at f = Ok (header_hash (cs ! nat f))"
  shows "n < length cs \<Longrightarrow> f \<le> int n \<Longrightarrow> same_tables st0 st \<Longrightarrow> store_rows_ok st \<Longrightarrow>
     blocks_to_fork hash_at f (header_hash (cs ! n)) st acc = Ok (res, st') \<Longrightarrow>
     res = acc @ path_blocks st0 cs (rev [nat (f + 1)..<Suc n]) \<and> same_tables st0 st' \<and> store_rows_ok st'"
proof (induction n arbitrary: st acc)
  case 0
  note v = same_tables_views [OF 0(3)]
  show ?case
  proof (cases "f = 0")
    case True
    with 0(3-5) at show ?thesis by (simp add: blocks_to_fork.simps path_blocks_def)
  next
    case False
    with f 0(2) have f1: "f = - 1" by simp
    obtain b st1 where g: "get_full_block st (header_hash (cs ! 0)) = (b, st1)" by (cases "get_full_block st (header_hash (cs ! 0))")
    note d = get_full_blockD [OF 0(4) g]
    from path_block [OF 0(4) _ 0(1)] v p obtain blk where
      blk: "blocks_of st0 (header_hash (cs ! 0)) = Some blk" "fb_height blk = 0"
      using is_pathD(2) [OF p 0(1)] by (auto simp: block_of_record_def)
    have r: "bs_get_block_record st1 (header_hash (cs ! 0)) = Some (cs ! 0)"
      using is_pathD(1) [OF p 0(1)] v same_tables_views [OF d(2)] by (simp add: records_of_def)
    from 0(3,5) f1 g d v blk r show ?thesis
      by (auto simp: blocks_to_fork.simps path_blocks_def intro: same_tables_trans)
  qed
next
  case (Suc n)
  note v = same_tables_views [OF Suc.prems(3)]
  show ?case
  proof (cases "f = int (Suc n)")
    case True
    then have "nat f = Suc n" "0 \<le> f" by simp_all
    with at True have a: "hash_at f = Ok (header_hash (cs ! Suc n))" "\<not> f < 0" "[nat (f + 1)..<Suc (Suc n)] = []"
      by simp_all
    then show ?thesis using Suc.prems(3-5)
      by (subst (asm) blocks_to_fork.simps) (auto simp: path_blocks_def)
  next
    case False
    with Suc.prems(2) have fn: "f \<le> int n" by simp
    have ne: "header_hash (cs ! Suc n) \<noteq> header_hash (cs ! nat f)" if "0 \<le> f"
    proof
      assume same: "header_hash (cs ! Suc n) = header_hash (cs ! nat f)"
      have k: "nat f < length cs" "nat f \<noteq> Suc n" using fn Suc.prems(1) that by simp_all
      from same have "cs ! Suc n = cs ! nat f"
        using is_pathD(1) [OF p Suc.prems(1)] is_pathD(1) [OF p k(1)] by (metis option.inject)
      then have "int (Suc n) = int (nat f)"
        using is_pathD(2) [OF p Suc.prems(1)] is_pathD(2) [OF p k(1)] by metis
      with k(2) show False by simp
    qed
    obtain b st1 where g: "get_full_block st (header_hash (cs ! Suc n)) = (b, st1)"
      by (cases "get_full_block st (header_hash (cs ! Suc n))")
    note d = get_full_blockD [OF Suc.prems(4) g]
    from path_block [OF Suc.prems(4) _ Suc.prems(1)] v p obtain blk where
      blk: "blocks_of st0 (header_hash (cs ! Suc n)) = Some blk" "fb_height blk = int (Suc n)"
      using is_pathD(2) [OF p Suc.prems(1)] by (auto simp: block_of_record_def)
    have r: "bs_get_block_record st1 (header_hash (cs ! Suc n)) = Some (cs ! Suc n)"
      using is_pathD(1) [OF p Suc.prems(1)] v same_tables_views [OF d(2)] by (simp add: records_of_def)
    have pr: "prev_hash (cs ! Suc n) = header_hash (cs ! n)" using is_pathD(3) [OF p Suc.prems(1)] by simp
    have more: "hash_at f \<noteq> Ok (header_hash (cs ! Suc n))" if "\<not> f < 0" using at ne that by auto
    from Suc.prems(5) have "blocks_to_fork hash_at f (header_hash (cs ! n)) st1 (acc @ [(blk, cs ! Suc n)]) = Ok (res, st')"
      by (subst (asm) blocks_to_fork.simps) (auto simp: g d(1) v blk r pr dest: more split: if_splits)
    moreover have "n < length cs" using Suc.prems(1) by simp
    ultimately have "res = (acc @ [(blk, cs ! Suc n)]) @ path_blocks st0 cs (rev [nat (f + 1)..<Suc n]) \<and>
        same_tables st0 st' \<and> store_rows_ok st'"
      using Suc.IH [OF _ fn same_tables_trans [OF Suc.prems(3) d(2)] d(3)] by blast
    moreover have "rev [nat (f + 1)..<Suc (Suc n)] = Suc n # rev [nat (f + 1)..<Suc n]" using fn f by simp
    ultimately show ?thesis using blk by (simp add: path_blocks_def)
  qed
qed

text \<open>Applying the blocks to the coins.\<close>

text \<open>The state that the blocks are applied in.\<close>

definition applicable :: "crypto \<Rightarrow> 's clvm \<Rightarrow> FullBlock set \<Rightarrow> Blockchain \<Rightarrow> bool" where
  "applicable cr vm K s \<longleftrightarrow> store_rows_ok (ch_block_store s) \<and> known (ch_block_store s) = K \<and>
     heights_stored (blocks_of (ch_block_store s)) (height_to_hash_map (ch_blocks s)) \<and> runs_ok cr vm (ch_constants s) K"

lemma applicable_store:
  assumes "applicable cr vm K s" and "same_tables (ch_block_store s) st" and "store_rows_ok st"
  shows "applicable cr vm K (s\<lparr>ch_coin_store := cs, ch_block_store := st\<rparr>)"
  using assms(1,3) same_tables_views [OF assms(2)] by (simp add: applicable_def heights_stored_def)

lemma apply_one:
  assumes "apply_block cr vm nh npc (b, r) (recs, s) = Ok (recs', s')"
    and a: "applicable cr vm K s" and coins: "implements cr (ch_coin_store s) led"
    and b: "block_of_record b r" "b \<in> K"
    and npc: "\<And>x. fb_is_transaction_block b \<Longrightarrow> fb_transactions_generator b \<noteq> None \<Longrightarrow> header_hash r = nh \<Longrightarrow>
       npc = Some x \<Longrightarrow> accepted_run cr vm (ch_constants s) K b x"
  shows "\<exists>e st cs led'. recs' = recs @ [r] \<and> fst e = b \<and> block_effect cr vm (ch_constants s) K e \<and>
     apply_effects cr [e] led = Ok led' \<and> implements cr cs led' \<and>
     s' = s\<lparr>ch_coin_store := cs, ch_block_store := st\<rparr> \<and> same_tables (ch_block_store s) st \<and> store_rows_ok st"
proof (cases "is_transaction_block r")
  case False
  then have nb: "\<not> fb_is_transaction_block b" using b by (simp add: block_of_record_def)
  then have "apply_effects cr [(b, [], [])] led = Ok led"
    by (simp add: apply_effects_def led_block_def fb_is_transaction_block_def)
  moreover have "block_effect cr vm (ch_constants s) K (b, [], [])" using nb by (simp add: block_effect_def)
  moreover have "recs' = recs @ [r]" "s' = s" using assms(1) False by (simp_all add: apply_block_def)
  moreover have "store_rows_ok (ch_block_store s)" using a by (simp add: applicable_def)
  ultimately show ?thesis using coins
    by (intro exI [of _ "(b, [], [])"] exI [of _ "ch_block_store s"] exI [of _ "ch_coin_store s"] exI [of _ led]) simp
next
  case True
  from assms(1) True obtain rems adds s1 cs where
    g: "get_tx_removals_and_additions cr vm s b (if header_hash r = nh then npc else None) = Ok ((rems, adds), s1)"
    and nb: "new_block cr (ch_coin_store s1) b adds rems = Ok cs" and e: "recs' = recs @ [r]" "s' = s1\<lparr>ch_coin_store := cs\<rparr>"
    by (auto simp: apply_block_def)
  have ok: "store_rows_ok (ch_block_store s)" "heights_stored (blocks_of (ch_block_store s)) (height_to_hash_map (ch_blocks s))"
    and K: "known (ch_block_store s) = K" and rn: "runs_ok cr vm (ch_constants s) K" using a by (simp_all add: applicable_def)
  have run: "accepted_run cr vm (ch_constants s) (known (ch_block_store s)) b x"
    if "fb_is_transaction_block b" "fb_transactions_generator b \<noteq> None"
    "(if header_hash r = nh then npc else None) = Some x" for x
    using npc [OF that(1,2)] that(3) K by (simp split: if_splits)
  have runs: "\<exists>x. accepted_run cr vm (ch_constants s) (known (ch_block_store s)) b x"
    if "fb_is_transaction_block b" "fb_transactions_generator b \<noteq> None"
    using rn b(2) that K by (simp add: runs_ok_def)
  note be = tx_effect(1) [OF g ok runs run, unfolded K]
  from tx_effect(2) [OF g ok runs run] obtain st where
    st: "s1 = s\<lparr>ch_block_store := st\<rparr>" "same_tables (ch_block_store s) st" "store_rows_ok st" by blast
  from sim_OkD [OF sim_block [OF coins, of b adds rems, unfolded nb [unfolded st(1), simplified]]]
  obtain led' where "led_block cr b adds rems led = Ok led'" "implements cr cs led'" by blast
  then have "apply_effects cr [(b, adds, rems)] led = Ok led'" "implements cr cs led'" by (simp_all add: apply_effects_def)
  moreover have "s' = s\<lparr>ch_coin_store := cs, ch_block_store := st\<rparr>" unfolding e(2) st(1) by (cases s) simp
  moreover have "fst (b, adds, rems) = b" by simp
  ultimately show ?thesis using be st(2,3) e(1) by blast
qed

lemma apply_blocks:
  assumes "rfold (apply_block cr vm nh npc) xs (recs, s) = Ok (recs', s')"
    and "applicable cr vm K s" and "implements cr (ch_coin_store s) led"
    and "\<And>b r. (b, r) \<in> set xs \<Longrightarrow> block_of_record b r \<and> b \<in> K"
    and "\<And>b r x. (b, r) \<in> set xs \<Longrightarrow> fb_is_transaction_block b \<Longrightarrow> fb_transactions_generator b \<noteq> None \<Longrightarrow>
       header_hash r = nh \<Longrightarrow> npc = Some x \<Longrightarrow> accepted_run cr vm (ch_constants s) K b x"
  shows "\<exists>es st cs led'. recs' = recs @ map snd xs \<and>
     list_all2 (\<lambda>x e. fst e = fst x \<and> block_effect cr vm (ch_constants s) K e) xs es \<and>
     apply_effects cr es led = Ok led' \<and> implements cr cs led' \<and>
     s' = s\<lparr>ch_coin_store := cs, ch_block_store := st\<rparr> \<and> same_tables (ch_block_store s) st \<and> store_rows_ok st"
  using assms
proof (induction xs arbitrary: recs s led)
  case Nil
  then show ?case
    by (intro exI [of _ "[]"] exI [of _ "ch_block_store s"] exI [of _ "ch_coin_store s"] exI [of _ led])
       (simp add: apply_effects_def applicable_def)
next
  case (Cons x xs)
  obtain b r where x: "x = (b, r)" by (cases x)
  from Cons.prems(1) x obtain recs1 s1 where 1: "apply_block cr vm nh npc (b, r) (recs, s) = Ok (recs1, s1)"
    and 2: "rfold (apply_block cr vm nh npc) xs (recs1, s1) = Ok (recs', s')" by auto
  have bx: "block_of_record b r" "b \<in> K" using Cons.prems(4) [of b r] x by simp_all
  have nx: "accepted_run cr vm (ch_constants s) K b y" if "fb_is_transaction_block b"
    "fb_transactions_generator b \<noteq> None" "header_hash r = nh" "npc = Some y" for y
    by (rule Cons.prems(5) [of b r]) (use that x in simp_all)
  from apply_one [OF 1 Cons.prems(2,3) bx nx] obtain e st cs led1 where
    e: "recs1 = recs @ [r]" "fst e = b" "block_effect cr vm (ch_constants s) K e" "apply_effects cr [e] led = Ok led1"
      "implements cr cs led1" and s1: "s1 = s\<lparr>ch_coin_store := cs, ch_block_store := st\<rparr>"
      "same_tables (ch_block_store s) st" "store_rows_ok st" by blast
  have c: "ch_constants s1 = ch_constants s" "ch_block_store s1 = st" "ch_coin_store s1 = cs" by (simp_all add: s1)
  have "\<exists>es st2 cs2 led'. recs' = recs1 @ map snd xs \<and>
     list_all2 (\<lambda>x e. fst e = fst x \<and> block_effect cr vm (ch_constants s1) K e) xs es \<and>
     apply_effects cr es led1 = Ok led' \<and> implements cr cs2 led' \<and>
     s' = s1\<lparr>ch_coin_store := cs2, ch_block_store := st2\<rparr> \<and> same_tables (ch_block_store s1) st2 \<and> store_rows_ok st2"
  proof (rule Cons.IH [OF 2])
    show "applicable cr vm K s1" unfolding s1(1) by (rule applicable_store [OF Cons.prems(2) s1(2,3)])
    show "implements cr (ch_coin_store s1) led1" using e(5) c by simp
    show "block_of_record b r \<and> b \<in> K" if "(b, r) \<in> set xs" for b r by (rule Cons.prems(4)) (use that in simp)
    show "accepted_run cr vm (ch_constants s1) K b y" if "(b, r) \<in> set xs" "fb_is_transaction_block b"
      "fb_transactions_generator b \<noteq> None" "header_hash r = nh" "npc = Some y" for b r y
      unfolding c by (rule Cons.prems(5) [of b r]) (use that in simp_all)
  qed
  then obtain es st2 cs2 led' where "recs' = recs1 @ map snd xs"
     "list_all2 (\<lambda>x e. fst e = fst x \<and> block_effect cr vm (ch_constants s) K e) xs es"
     "apply_effects cr es led1 = Ok led'" "implements cr cs2 led'"
     "s' = s1\<lparr>ch_coin_store := cs2, ch_block_store := st2\<rparr>" "same_tables st st2" "store_rows_ok st2"
    unfolding c by blast
  moreover from this(3) e(4) have "apply_effects cr (e # es) led = Ok led'" by (auto simp: apply_effects_def)
  ultimately show ?case using e s1 x
    by (intro exI [of _ "e # es"] exI [of _ st2] exI [of _ cs2] exI [of _ led'])
       (auto intro: same_tables_trans)
qed

end
