(* ===== verification/Chain_Peak.thy ===== *)
theory Chain_Peak
  imports Chain_Facts
begin

text \<open>
  The pieces of \<^verbatim>\<open>_reconsider_peak\<close>: the blocks read back from the new peak are those of its path above the
  fork, the coins of the old blocks above the fork are undone, and those of the new blocks applied.
\<close>

section \<open>The fork with the peak\<close>

definition agree_to :: "BlockRecord list \<Rightarrow> BlockRecord list \<Rightarrow> int \<Rightarrow> bool" where
  "agree_to bs cs f \<longleftrightarrow> - 1 \<le> f \<and> f < int (length bs) \<and> f < int (length cs) \<and> (\<forall>i. int i \<le> f \<longrightarrow> bs ! i = cs ! i)"

lemma fork_point_agree:
  assumes "chain_ok s" and "is_path (block_records s) bs" and "is_path (block_records s) cs"
    and "is_fork_point s (last cs) (last bs) f"
  shows "agree_to bs cs f"
  using fork_point_paths [OF assms] by (auto simp: agree_to_def)

lemma path_butlast:
  assumes "is_path get cs" and "1 < length cs"
  shows "is_path get (butlast cs)" "prev_hash (last cs) = header_hash (last (butlast cs))"
    "cs = butlast cs @ [last cs]"
proof -
  have "Suc (length cs - 2) = length cs - 1" using assms(2) by arith
  then have t: "butlast cs = take (Suc (length cs - 2)) cs" by (simp add: butlast_conv_take)
  show "is_path get (butlast cs)" unfolding t by (rule is_path_take [OF assms(1)]) (use assms(2) in simp)
  have l: "last cs = cs ! (length cs - 1)" using assms(2) by (simp add: last_conv_nth flip: length_greater_0_conv)
  have "butlast cs \<noteq> []" using assms(2) by (cases cs) auto
  moreover have "length (butlast cs) - 1 = length cs - 2" by simp
  ultimately have "last (butlast cs) = cs ! (length cs - 2)"
    using assms(2) by (simp add: last_conv_nth nth_butlast)
  moreover have "length cs - 1 - 1 = length cs - 2" by simp
  ultimately show "prev_hash (last cs) = header_hash (last (butlast cs))"
    using is_pathD(3) [OF assms(1), of "length cs - 1"] assms(2) l by simp
  show "cs = butlast cs @ [last cs]" using assms(2) by (simp flip: length_greater_0_conv)
qed

lemma path_extends:
  assumes "is_path get bs" and "is_path get cs" and "1 < length cs" and "prev_hash (last cs) = header_hash (last bs)"
  shows "butlast cs = bs"
proof (rule path_unique [OF path_butlast(1) [OF assms(2,3)] assms(1)])
  have "header_hash (last (butlast cs)) = header_hash (last bs)" using path_butlast(2) [OF assms(2,3)] assms(4) by simp
  then show "last (butlast cs) = last bs"
    using is_path_last(2) [OF assms(1)] is_path_last(2) [OF path_butlast(1) [OF assms(2,3)]] by simp
qed

lemma fork_with_peak_agrees:
  assumes ok: "chain_ok (store_view st)" and bs: "is_path (records_of st) bs" and cs: "is_path (records_of st) cs"
    and long: "1 < length cs" and sub: "block_records (ch_blocks s) \<subseteq>\<^sub>m records_of st"
    and f: "fork_with_peak s (last cs) (last bs) fp = Ok f"
    and sup: "\<And>g. fp = Some g \<Longrightarrow> prev_hash (last cs) \<noteq> header_hash (last bs) \<Longrightarrow> agree_to bs cs g"
  shows "agree_to bs cs f" "prev_hash (last cs) = header_hash (last bs) \<Longrightarrow> f = int (length bs) - 1"
proof -
  have "agree_to bs cs f \<and> (prev_hash (last cs) = header_hash (last bs) \<longrightarrow> f = int (length bs) - 1)"
  proof (cases "prev_hash (last cs) = header_hash (last bs)")
    case True
    then have fb: "f = int (length bs) - 1" using f is_path_last(3) [OF bs] by (simp add: fork_with_peak_def)
    have e: "cs = bs @ [last cs]" using path_butlast(3) [OF cs long] path_extends [OF bs cs long True] by simp
    have "agree_to bs cs f"
      unfolding fb by (subst e) (use is_path_last(1) [OF bs] in \<open>auto simp: agree_to_def nth_append Suc_le_eq\<close>)
    with fb show ?thesis by simp
  next
    case False
    show ?thesis
    proof (cases fp)
      case (Some g)
      with f False have "f = g" by (simp add: fork_with_peak_def)
      with sup [OF Some False] False show ?thesis by simp
    next
      case None
      with f False have "fork_loop (ch_blocks s) (last cs) (last bs) = Ok f"
        by (simp add: fork_with_peak_def find_fork_point_in_chain_def)
      from fork_loop_mono [OF this, of "store_view st"] sub have l: "fork_loop (store_view st) (last cs) (last bs) = Ok f"
        by simp
      have "stored (block_record (store_view st)) (last xs)" if "is_path (records_of st) xs" for xs
        using is_path_last(2) [OF that] by (simp add: stored_def)
      from fork_loop_spec [OF ok this [OF cs] this [OF bs]] l
      have "is_fork_point (store_view st) (last cs) (last bs) f" by auto
      from fork_point_agree [OF ok _ _ this] bs cs False show ?thesis by simp
    qed
  qed
  then show "agree_to bs cs f" "prev_hash (last cs) = header_hash (last bs) \<Longrightarrow> f = int (length bs) - 1" by blast+
qed

section \<open>Moving the peak\<close>

lemma map_of_filter_key: "map_of (filter (\<lambda>(k, v). P k) d) k = (if P k then map_of d k else None)"
  by (induction d) auto

lemma chain_peak:
  assumes "chain_in cr vm s bs es" and "ch_peak_height s = Some (int (length bs) - 1)" and "get_peak s = Ok p"
    and "block_records (ch_blocks s) \<subseteq>\<^sub>m records_of (ch_block_store s)"
  shows "p = Some (last bs)"
proof -
  have p: "is_path (records_of (ch_block_store s)) bs" and hs: "\<forall>i<length bs. height_to_hash_map (ch_blocks s) (int i) = Some (header_hash (bs ! i))"
    using assms(1) by (auto simp: chain_in_def)
  have ne: "bs \<noteq> []" using is_path_last(1) [OF p] .
  then have "height_to_hash_map (ch_blocks s) (int (length bs) - 1) = Some (header_hash (last bs))"
    using hs [rule_format, of "length bs - 1"] by (simp add: last_conv_nth of_nat_diff Suc_le_eq)
  then obtain b where "block_records (ch_blocks s) (header_hash (last bs)) = Some b" "p = Some b"
    using assms(2,3) by (auto simp: get_peak_def height_to_block_record_def height_to_hash_def)
  with assms(4) is_path_last(2) [OF p] show ?thesis unfolding map_le_def by (metis domI option.inject)
qed

text \<open>The state after the peak moved, before the caches in memory follow.\<close>

definition moved ::
    "crypto \<Rightarrow> 's clvm \<Rightarrow> Blockchain \<Rightarrow> Blockchain \<Rightarrow> BlockRecord list \<Rightarrow> effect list \<Rightarrow> nat \<Rightarrow> bool" where
  "moved cr vm s s' cs es k \<longleftrightarrow>
     (\<exists>coins st ses. s' = s\<lparr>ch_coin_store := coins, ch_block_store := st,
          ch_blocks := (ch_blocks s)\<lparr>sub_epoch_summaries := ses\<rparr>\<rparr> \<and>
        records_of st = records_of (ch_block_store s) \<and> blocks_of st = blocks_of (ch_block_store s) \<and> store_rows_ok st \<and>
        is_path (records_of st) cs \<and> peaks st = {header_hash (last cs)} \<and> k \<le> length cs \<and>
        (\<forall>i<k. height_to_hash_map (ch_blocks s) (int i) = Some (header_hash (cs ! i))) \<and>
        (\<forall>h. map_of ses h = (if 0 \<le> h \<and> h < int k then sub_epoch_summary_included (cs ! nat h) else None)) \<and>
        list_all2 (\<lambda>r e. blocks_of st (header_hash r) = Some (fst e) \<and> block_effect cr vm (ch_constants s) (known st) e) cs es \<and>
        store_ok cr coins \<and> apply_effects cr es Map.empty = Ok (ledger_of coins))"

end
