(* ===== verification/Chain_Moves.thy ===== *)
theory Chain_Moves
  imports Chain_Peak
begin

text \<open>
  \<^verbatim>\<open>_reconsider_peak\<close> and \<^verbatim>\<open>receive_block\<close>: a heavier block moves the node to its path, a lighter one is only
  stored, and both keep \<open>node_ok\<close>.
\<close>

section \<open>A heavier block\<close>

abbreviation linked :: "crypto \<Rightarrow> 's clvm \<Rightarrow> ConsensusConstants \<Rightarrow> BlockStore \<Rightarrow> BlockRecord \<Rightarrow> effect \<Rightarrow> bool" where
  "linked cr vm c st r e \<equiv> blocks_of st (header_hash r) = Some (fst e) \<and> block_effect cr vm c (known st) e"

lemma linked_heights:
  assumes "store_rows_ok st" and "is_path (records_of st) bs" and "list_all2 (linked cr vm c st) bs es"
    and "i < length es"
  shows "fb_height (fst (es ! i)) = int i"
proof -
  have i: "i < length bs" using assms(3,4) by (simp add: list_all2_lengthD)
  from path_block [OF assms(1,2) i] list_all2_nthD [OF assms(3) i] is_pathD(2) [OF assms(2) i]
  show ?thesis by (auto simp: block_of_record_def)
qed

lemma linked_agree:
  assumes "list_all2 (linked cr vm c st) bs es" and "agree_to bs cs f"
  shows "list_all2 (linked cr vm c st) (take (nat (f + 1)) cs) (take (nat (f + 1)) es)"
proof -
  have "take (nat (f + 1)) cs = take (nat (f + 1)) bs"
    using assms(2) by (intro nth_equalityI) (auto simp: agree_to_def)
  with assms(1) show ?thesis by (simp add: list_all2_takeI)
qed

lemma linked_path_blocks:
  assumes "list_all2 (\<lambda>x e. fst e = fst x \<and> block_effect cr vm c (known st) e) (path_blocks st cs is) es"
    and "store_rows_ok st" and "is_path (records_of st) cs" and "\<forall>i\<in>set is. i < length cs"
  shows "list_all2 (linked cr vm c st) (map ((!) cs) is) es"
proof -
  have "\<exists>b. blocks_of st (header_hash (cs ! i)) = Some b" if "i \<in> set is" for i
    using path_block [OF assms(2,3)] assms(4) that by blast
  with assms(1) show ?thesis by (fastforce simp: path_blocks_def list_all2_conv_all_nth)
qed

lemma rolled_back_effects:
  assumes c: "chain_in cr vm s bs es" and ok: "store_rows_ok (ch_block_store s)" and a: "agree_to bs cs f"
  shows "apply_effects cr (take (nat (f + 1)) es) Map.empty = Ok (led_rollback f (ledger_of (ch_coin_store s)))"
proof (rule rollback_effects)
  have l: "list_all2 (linked cr vm (ch_constants s) (ch_block_store s)) bs es"
    and p: "is_path (records_of (ch_block_store s)) bs" using c by (simp_all add: chain_in_def)
  show "apply_effects cr es Map.empty = Ok (ledger_of (ch_coin_store s))" using c by (simp add: chain_in_def)
  show "fb_height (fst (es ! i)) = int i" if "i < length es" for i by (rule linked_heights [OF ok p l that])
  show "- 1 \<le> f" "f < int (length es)" using a list_all2_lengthD [OF l] by (simp_all add: agree_to_def)
qed

lemma reconsider_moves:
  assumes r: "reconsider_peak cr vm s rec False fp npc = Ok ((f', p', records), s')"
    and moves: "weight (last bs) < weight rec"
    and c: "chain_in cr vm s bs es" and pk: "ch_peak_height s = Some (int (length bs) - 1)"
    and ok: "chain_ok (store_view (ch_block_store s))" and app: "applicable cr vm (known (ch_block_store s)) s"
    and coins: "store_ok cr (ch_coin_store s)"
    and sub: "block_records (ch_blocks s) \<subseteq>\<^sub>m records_of (ch_block_store s)"
    and cs: "is_path (records_of (ch_block_store s)) cs" "last cs = rec" "1 < length cs"
    and sup: "\<And>g. fp = Some g \<Longrightarrow> prev_hash rec \<noteq> header_hash (last bs) \<Longrightarrow> agree_to bs cs g"
    and npc: "\<And>b x. blocks_of (ch_block_store s) (header_hash rec) = Some b \<Longrightarrow> fb_is_transaction_block b \<Longrightarrow>
       fb_transactions_generator b \<noteq> None \<Longrightarrow> npc = Some x \<Longrightarrow>
       accepted_run cr vm (ch_constants s) (known (ch_block_store s)) b x"
  shows "\<exists>es' k. moved cr vm s s' cs es' k \<and> records = map ((!) cs) [k..<length cs] \<and> p' = Some (height rec) \<and>
     (\<exists>f. agree_to bs cs f \<and> f' = Some (max f 0))"
proof -
  let ?st = "ch_block_store s" and ?c = "ch_constants s" and ?led = "ledger_of (ch_coin_store s)"
  have rows: "store_rows_ok ?st" using app by (simp add: applicable_def)
  obtain p where gp: "get_peak s = Ok p" using r by (auto simp: reconsider_peak_def)
  have p: "p = Some (last bs)" by (rule chain_peak [OF c pk gp sub])
  from r gp p moves obtain f coins' to_add st1 recs s1 fm where
    f: "fork_with_peak s rec (last bs) fp = Ok f"
    and co: "(if prev_hash rec \<noteq> header_hash (last bs) then rollback_to_block cr (ch_coin_store s) f
              else Ok (ch_coin_store s)) = Ok coins'"
    and bf: "blocks_to_fork (ch_height_to_hash (s\<lparr>ch_coin_store := coins', ch_blocks := (ch_blocks s)\<lparr>sub_epoch_summaries :=
                     filter (\<lambda>(h, s). \<not> h > f) (sub_epoch_summaries (ch_blocks s))\<rparr>\<rparr>)) f (header_hash rec) ?st []
              = Ok (to_add, st1)"
    and ap: "rfold (apply_block cr vm (header_hash rec) npc) (rev to_add)
              ([], s\<lparr>ch_coin_store := coins', ch_blocks := (ch_blocks s)\<lparr>sub_epoch_summaries :=
                     filter (\<lambda>(h, s). \<not> h > f) (sub_epoch_summaries (ch_blocks s))\<rparr>, ch_block_store := st1\<rparr>)
              = Ok (recs, s1)"
    and fm: "uint32 (max f 0) = Ok fm"
    and fin: "f' = Some fm" "p' = Some (height rec)" "records = recs"
      "s' = s1\<lparr>ch_block_store := set_peak (ch_block_store s1) (header_hash rec)\<rparr>"
    by (auto simp: reconsider_peak_def Let_def)
  let ?ses = "filter (\<lambda>(h, s). \<not> h > f) (sub_epoch_summaries (ch_blocks s))" and ?k = "nat (f + 1)"
  have bs: "is_path (records_of ?st) bs" and lk: "list_all2 (linked cr vm ?c ?st) bs es"
    and hh: "\<forall>i<length bs. height_to_hash_map (ch_blocks s) (int i) = Some (header_hash (bs ! i))"
    and ss: "\<forall>h. map_of (sub_epoch_summaries (ch_blocks s)) h =
        (if 0 \<le> h \<and> h < int (length bs) then sub_epoch_summary_included (bs ! nat h) else None)"
    using c by (simp_all add: chain_in_def)
  have sup': "agree_to bs cs g" if "fp = Some g" "prev_hash (last cs) \<noteq> header_hash (last bs)" for g
    using sup that cs(2) by simp
  note fk = fork_with_peak_agrees [OF ok bs cs(1,3) sub f [folded cs(2)] sup']
  have a: "- 1 \<le> f" "f < int (length bs)" "f < int (length cs)" "\<And>i. int i \<le> f \<Longrightarrow> bs ! i = cs ! i"
    using fk(1) by (auto simp: agree_to_def)
  have base: "apply_effects cr (take ?k es) Map.empty = Ok (led_rollback f ?led)"
    by (rule rolled_back_effects [OF c rows fk(1)])
  have imp: "implements cr coins' (led_rollback f ?led)"
  proof (cases "prev_hash rec = header_hash (last bs)")
    case True
    then have "?k = length es" using fk(2) cs(2) list_all2_lengthD [OF lk] by simp
    then have "led_rollback f ?led = ?led" using base c by (simp add: chain_in_def)
    with co True coins show ?thesis by (simp add: implements_def)
  next
    case False
    have "implements cr (ch_coin_store s) ?led" using coins by (simp add: implements_def)
    from rollback_ledger [OF this, of f] co False show ?thesis by auto
  qed
  have n: "header_hash rec = header_hash (cs ! (length cs - 1))" "length cs - 1 < length cs" "Suc (length cs - 1) = length cs"
    using cs(2,3) last_conv_nth [OF is_path_last(1) [OF cs(1)]] by simp_all
  have at: "ch_height_to_hash (s\<lparr>ch_coin_store := coins', ch_blocks := (ch_blocks s)\<lparr>sub_epoch_summaries := ?ses\<rparr>\<rparr>) f
      = Ok (header_hash (cs ! nat f))" if "0 \<le> f"
    using hh [rule_format, of "nat f"] a that by (simp add: ch_height_to_hash_def)
  have "f \<le> int (length cs - 1)" using a(3) cs(3) by simp
  from blocks_to_fork_path [OF cs(1) a(1) at n(2) this same_tables_refl rows bf [unfolded n(1)], unfolded n(3)]
  have ta: "rev to_add = path_blocks ?st cs [?k..<length cs]" and st1: "same_tables ?st st1" "store_rows_ok st1"
    by (simp_all add: path_blocks_def rev_map)
  have all: "\<forall>i\<in>set [?k..<length cs]. i < length cs" by simp
  have blk: "block_of_record b r" "blocks_of ?st (header_hash r) = Some b" if br: "(b, r) \<in> set (rev to_add)" for b r
  proof -
    from br obtain i where "i < length cs" "b = the (blocks_of ?st (header_hash (cs ! i)))" "r = cs ! i"
      unfolding ta path_blocks_def by auto
    with path_block [OF rows cs(1)] show "block_of_record b r" "blocks_of ?st (header_hash r) = Some b"
      by (metis option.sel)+
  qed
  define t where "t = s\<lparr>ch_coin_store := coins', ch_blocks := (ch_blocks s)\<lparr>sub_epoch_summaries := ?ses\<rparr>, ch_block_store := st1\<rparr>"
  have t: "ch_constants t = ?c" "ch_block_store t = st1" "ch_coin_store t = coins'" by (simp_all add: t_def)
  have apt: "applicable cr vm (known ?st) t"
    using app st1(2) same_tables_views [OF st1(1)] by (simp add: applicable_def t_def)
  have run: "accepted_run cr vm (ch_constants t) (known ?st) b x" if "(b, r) \<in> set (rev to_add)" "fb_is_transaction_block b"
    "fb_transactions_generator b \<noteq> None" "header_hash r = header_hash rec" "npc = Some x" for b r x
    using npc [of b x] blk(2) [OF that(1)] that by (simp add: t)
  have "\<exists>es st cs led'. recs = [] @ map snd (rev to_add) \<and>
     list_all2 (\<lambda>x e. fst e = fst x \<and> block_effect cr vm ?c (known ?st) e) (rev to_add) es \<and>
     apply_effects cr es (led_rollback f ?led) = Ok led' \<and> implements cr cs led' \<and>
     s1 = t\<lparr>ch_coin_store := cs, ch_block_store := st\<rparr> \<and> same_tables st1 st \<and> store_rows_ok st"
    by (rule apply_blocks [OF ap [folded t_def] apt, unfolded t, OF imp])
       (use blk known_block in blast, rule run [unfolded t])
  then obtain es2 st2 cs2 led2 where
    e: "recs = [] @ map snd (rev to_add)"
       "list_all2 (\<lambda>x e. fst e = fst x \<and> block_effect cr vm ?c (known ?st) e) (rev to_add) es2"
       "apply_effects cr es2 (led_rollback f ?led) = Ok led2" "implements cr cs2 led2"
    and s1: "s1 = t\<lparr>ch_coin_store := cs2, ch_block_store := st2\<rparr>"
    and st2: "same_tables st1 st2" "store_rows_ok st2"
    by blast
  note v = same_tables_views [OF same_tables_trans [OF st1(1) st2(1)]]
  let ?es = "take ?k es @ es2" and ?st' = "set_peak st2 (header_hash rec)"
  have vs: "records_of ?st' = records_of ?st" "blocks_of ?st' = blocks_of ?st" using v by (simp_all add: set_peak_views)
  have recs: "records = map ((!) cs) [?k..<length cs]" using fin(3) e(1) ta by (simp add: path_blocks_def comp_def)
  have k: "?k \<le> length cs" "?k \<le> length bs" using a by simp_all
  have "list_all2 (linked cr vm ?c ?st) (take ?k cs @ map ((!) cs) [?k..<length cs]) ?es"
    by (rule list_all2_appendI [OF linked_agree [OF lk fk(1)] linked_path_blocks [OF e(2) [unfolded ta] rows cs(1) all]])
  moreover have "take ?k cs @ map ((!) cs) [?k..<length cs] = cs" 
    using k(1) by (intro nth_equalityI) (auto simp: nth_append)
  ultimately have lk': "list_all2 (linked cr vm ?c ?st') cs ?es" using vs by simp
  have "\<forall>h. map_of ?ses h = (if 0 \<le> h \<and> h < int ?k then sub_epoch_summary_included (cs ! nat h) else None)"
    unfolding map_of_filter_key ss [rule_format] using a by auto
  moreover have "\<forall>i<?k. height_to_hash_map (ch_blocks s) (int i) = Some (header_hash (cs ! i))"
    using hh a k by auto
  moreover have "apply_effects cr ?es Map.empty = Ok (ledger_of cs2)" "store_ok cr cs2"
    using base e(3,4) by (simp_all add: apply_effects_append implements_def)
  moreover have "peaks ?st' = {header_hash (last cs)}"
    using is_path_last(2) [OF cs(1)] cs(2) v by (simp add: peaks_set_peak)
  moreover have "s' = s\<lparr>ch_coin_store := cs2, ch_block_store := ?st', ch_blocks := (ch_blocks s)\<lparr>sub_epoch_summaries := ?ses\<rparr>\<rparr>"
    unfolding fin(4) s1 t_def by simp
  ultimately have "moved cr vm s s' cs ?es ?k"
    unfolding moved_def using lk' vs cs(1) k set_peak_ok [OF st2(2)]
    by (intro exI [of _ cs2] exI [of _ ?st'] exI [of _ ?ses]) (intro conjI; (assumption | simp only:))
  moreover have "f' = Some (max f 0)"
    using fm fin(1) by simp
  ultimately show ?thesis using recs fin fk(1) by blast
qed

section \<open>The first block, and lighter ones\<close>

lemma reconsider_starts:
  assumes r: "reconsider_peak cr vm s rec True fp npc = Ok ((f', p', records), s')" and "get_peak s = Ok None"
    and rows: "store_rows_ok (ch_block_store s)" and coins: "store_ok cr (ch_coin_store s)"
    and empty: "ledger_of (ch_coin_store s) = Map.empty" "sub_epoch_summaries (ch_blocks s) = []"
    and rec: "records_of (ch_block_store s) (header_hash rec) = Some rec" "height rec = 0"
    and b: "blocks_of (ch_block_store s) (header_hash rec) = Some b"
    and run: "\<And>x. fb_is_transaction_block b \<Longrightarrow> fb_transactions_generator b \<noteq> None \<Longrightarrow> npc = Some x \<Longrightarrow>
       accepted_run cr vm (ch_constants s) (known (ch_block_store s)) b x"
    and npc: "fb_is_transaction_block b \<Longrightarrow> npc = None \<longleftrightarrow> fb_transactions_generator b = None"
  shows "\<exists>es. moved cr vm s s' [rec] es 0 \<and> records = [rec] \<and> p' = Some 0 \<and> f' \<noteq> None"
proof -
  let ?st = "ch_block_store s" and ?hh = "header_hash rec"
  obtain x st where g: "get_full_block ?st ?hh = (x, st)" by (cases "get_full_block ?st ?hh")
  note d = get_full_blockD [OF rows g]
  note v = same_tables_views [OF d(2)]
  from r assms(2) g d(1) b obtain rems adds cs where
    tx: "tx_removals_and_additions cr (map_option npc_list npc) = Ok (rems, adds)"
    and nb: "new_block cr (ch_coin_store s) b adds rems = Ok cs" and fin: "f' = Some 0" "p' = Some 0" "records = [rec]"
      "s' = s\<lparr>ch_block_store := st, ch_coin_store := cs, ch_block_store := set_peak st ?hh\<rparr>"
    by (auto simp: reconsider_peak_def ch_get_full_block_def)
  have "implements cr (ch_coin_store s) Map.empty" using coins empty by (simp add: implements_def)
  from sim_OkD [OF sim_block [OF this, of b adds rems, unfolded nb]] obtain led where
    led: "led_block cr b adds rems Map.empty = Ok led" "implements cr cs led" by blast
  obtain e where e: "fst e = b" "block_effect cr vm (ch_constants s) (known ?st) e" "apply_effects cr [e] Map.empty = Ok led"
  proof (cases "fb_is_transaction_block b")
    case True
    show thesis
    proof (rule that [of "(b, adds, rems)"])
      show "block_effect cr vm (ch_constants s) (known ?st) (b, adds, rems)"
        using True npc run tx by (cases npc) (auto simp: block_effect_def tx_removals_and_additions_def)
    qed (use led in \<open>simp_all add: apply_effects_def\<close>)
  next
    case False
    then have "fb_foliage_transaction_block b = None" by (simp add: fb_is_transaction_block_def)
    with led(1) False show thesis
      by (intro that [of "(b, [], [])"]) (simp_all add: block_effect_def apply_effects_def led_block_def)
  qed
  let ?st' = "set_peak st ?hh"
  have vs: "records_of ?st' = records_of ?st" "blocks_of ?st' = blocks_of ?st" using v by (simp_all add: set_peak_views)
  have "moved cr vm s s' [rec] [e] 0"
    unfolding moved_def
  proof (rule exI [of _ cs], rule exI [of _ ?st'], rule exI [of _ "sub_epoch_summaries (ch_blocks s)"], intro conjI)
    show "is_path (records_of ?st') [rec]" using rec vs by (intro is_path_single) simp_all
    show "peaks ?st' = {header_hash (last [rec])}" using rec(1) v by (simp add: peaks_set_peak)
    show "store_rows_ok ?st'" by (rule set_peak_ok [OF d(3)])
    show "list_all2 (linked cr vm (ch_constants s) ?st') [rec] [e]" using e b vs by simp
    show "store_ok cr cs" "apply_effects cr [e] Map.empty = Ok (ledger_of cs)"
      using led(2) e(3) by (simp_all add: implements_def)
  qed (use fin vs empty in auto)
  with fin show ?thesis by blast
qed

lemma reconsider_stays:
  assumes "reconsider_peak cr vm s rec g fp npc = Ok ((f', p', records), s')" and "get_peak s = Ok (Some pk)"
    and "g \<or> weight rec \<le> weight pk"
  shows "f' = None \<and> p' = None \<and> records = [] \<and> s' = s"
proof (cases g)
  case False
  with assms(3) have "\<not> weight pk < weight rec" by simp
  with assms(1,2) False show ?thesis by (simp add: reconsider_peak_def)
qed (use assms(1,2) in \<open>simp add: reconsider_peak_def\<close>)

section \<open>Heights and summaries follow\<close>

lemma put_height_simps [simp]:
  "block_records (put_height r bs) = block_records bs"
  "height_to_hash_map (put_height r bs) = (height_to_hash_map bs)(height r \<mapsto> header_hash r)"
  by (simp_all add: put_height_def)

lemma put_height_summaries:
  "map_of (sub_epoch_summaries (put_height r bs)) h =
     (if h = height r \<and> sub_epoch_summary_included r \<noteq> None then sub_epoch_summary_included r
      else map_of (sub_epoch_summaries bs) h)"
  by (auto simp: put_height_def update_conv' split: option.splits)

lemma heights_follow:
  fixes bs :: BlockCache
  assumes p: "is_path get cs" and "k \<le> m" and "m \<le> length cs"
    and hh: "\<forall>i<k. height_to_hash_map bs (int i) = Some (header_hash (cs ! i))"
    and ss: "\<forall>h. map_of (sub_epoch_summaries bs) h =
        (if 0 \<le> h \<and> h < int k then sub_epoch_summary_included (cs ! nat h) else None)"
  shows "block_records (foldl (\<lambda>bs r. put_height r bs) bs (map ((!) cs) [k..<m])) = block_records bs \<and>
    (\<forall>i<m. height_to_hash_map (foldl (\<lambda>bs r. put_height r bs) bs (map ((!) cs) [k..<m])) (int i)
       = Some (header_hash (cs ! i))) \<and>
    (\<forall>h. map_of (sub_epoch_summaries (foldl (\<lambda>bs r. put_height r bs) bs (map ((!) cs) [k..<m]))) h =
        (if 0 \<le> h \<and> h < int m then sub_epoch_summary_included (cs ! nat h) else None))"
  using assms(2,3)
proof (induction m)
  case 0
  with hh ss show ?case by simp
next
  case (Suc m)
  show ?case
  proof (cases "k = Suc m")
    case True
    with hh ss show ?thesis by simp
  next
    case False
    with Suc have "height (cs ! m) = int m" and up: "[k..<Suc m] = [k..<m] @ [m]" and "k \<le> m" "m \<le> length cs"
      using is_pathD(2) [OF p, of m] by simp_all
    moreover have "h < int (Suc m) \<longleftrightarrow> h < int m \<or> h = int m" for h by auto
    ultimately show ?thesis using Suc.IH unfolding up
      by (auto simp: put_height_summaries less_Suc_eq)
  qed
qed

lemma moved_chain:
  assumes m: "moved cr vm s s1 cs es k"
    and s': "s' = s1\<lparr>ch_blocks := foldl (\<lambda>bs r. put_height r bs) (add_block_record (ch_blocks s1) rec) (map ((!) cs) [k..<length cs]),
       ch_heights_in_cache := hic, ch_peak_height := ph\<rparr>"
  shows "chain_in cr vm s' cs es" "ch_constants s' = ch_constants s" "store_ok cr (ch_coin_store s')"
    "store_rows_ok (ch_block_store s')" "records_of (ch_block_store s') = records_of (ch_block_store s)"
    "block_records (ch_blocks s') = (block_records (ch_blocks s))(header_hash rec \<mapsto> rec)"
proof -
  from m obtain coins st ses where s1: "s1 = s\<lparr>ch_coin_store := coins, ch_block_store := st,
          ch_blocks := (ch_blocks s)\<lparr>sub_epoch_summaries := ses\<rparr>\<rparr>"
    and st: "records_of st = records_of (ch_block_store s)" "blocks_of st = blocks_of (ch_block_store s)" "store_rows_ok st"
    and p: "is_path (records_of st) cs" "peaks st = {header_hash (last cs)}" "k \<le> length cs"
    and hh: "\<forall>i<k. height_to_hash_map (ch_blocks s) (int i) = Some (header_hash (cs ! i))"
    and ss: "\<forall>h. map_of ses h = (if 0 \<le> h \<and> h < int k then sub_epoch_summary_included (cs ! nat h) else None)"
    and l: "list_all2 (linked cr vm (ch_constants s) st) cs es"
    and c: "store_ok cr coins" "apply_effects cr es Map.empty = Ok (ledger_of coins)"
    unfolding moved_def by (elim exE conjE)
  let ?b = "add_block_record ((ch_blocks s)\<lparr>sub_epoch_summaries := ses\<rparr>) rec"
  have b1: "\<forall>i<k. height_to_hash_map ?b (int i) = Some (header_hash (cs ! i))" using hh by (simp add: add_block_record_def)
  have b2: "\<forall>h. map_of (sub_epoch_summaries ?b) h = (if 0 \<le> h \<and> h < int k then sub_epoch_summary_included (cs ! nat h) else None)"
    using ss by (simp add: add_block_record_def)
  note f = heights_follow [OF p(1,3) order.refl b1 b2]
  have e: "ch_blocks s' = foldl (\<lambda>bs r. put_height r bs) ?b (map ((!) cs) [k..<length cs])" "ch_block_store s' = st"
    "ch_coin_store s' = coins" by (simp_all add: s' s1)
  show "ch_constants s' = ch_constants s" by (simp add: s' s1)
  then show "chain_in cr vm s' cs es" unfolding chain_in_def e using f p l c by simp
  show "store_ok cr (ch_coin_store s')" "store_rows_ok (ch_block_store s')"
    "records_of (ch_block_store s') = records_of (ch_block_store s)" using e st c by simp_all
  show "block_records (ch_blocks s') = (block_records (ch_blocks s))(header_hash rec \<mapsto> rec)"
    unfolding e using f by (simp add: add_block_record_def)
qed

end
