(* ===== verification/Chain_Receive.thy ===== *)
theory Chain_Receive
  imports Chain_Moves
begin

text \<open>
  \<^verbatim>\<open>receive_block\<close> keeps \<open>node_ok\<close>: the record of a new block is linked to a stored one, and the main chain
  is the old one or the path of the new block.
\<close>

section \<open>Storing a block\<close>

text \<open>The fork point the caller may give is the one of the previous block and the peak.\<close>

definition fork_given :: "Blockchain \<Rightarrow> FullBlock \<Rightarrow> int option \<Rightarrow> bool" where
  "fork_given s block fp \<longleftrightarrow>
     (\<forall>g p pk. fp = Some g \<longrightarrow> block_records (ch_blocks s) (fb_prev_header_hash block) = Some p \<longrightarrow>
        get_peak s = Ok (Some pk) \<longrightarrow> header_hash pk \<noteq> header_hash p \<longrightarrow>
        is_fork_point (store_view (ch_block_store s)) p pk g)"

definition new_link :: "Blockchain \<Rightarrow> FullBlock \<Rightarrow> bool" where
  "new_link s block \<longleftrightarrow>
     fb_height block = 0 \<and> fb_prev_header_hash block = GENESIS_CHALLENGE (ch_constants s) \<or>
     (\<exists>p. block_records (ch_blocks s) (fb_prev_header_hash block) = Some p \<and> fb_height block = height p + 1)"

definition new_hash :: "Blockchain \<Rightarrow> bytes \<Rightarrow> bool" where
  "new_hash s hh \<longleftrightarrow> records_of (ch_block_store s) hh = None \<and> hh \<noteq> GENESIS_CHALLENGE (ch_constants s)"

definition npc_of ::
    "crypto \<Rightarrow> 's clvm \<Rightarrow> ConsensusConstants \<Rightarrow> FullBlock set \<Rightarrow> FullBlock \<Rightarrow> NPCResult option \<Rightarrow> bool" where
  "npc_of cr vm c K block npc \<longleftrightarrow>
     (fb_is_transaction_block block \<longrightarrow>
        (npc = None \<longleftrightarrow> fb_transactions_generator block = None) \<and>
        (\<forall>x. fb_transactions_generator block \<noteq> None \<longrightarrow> npc = Some x \<longrightarrow> accepted_run cr vm c K block x))"

lemma full_header_simps [simp]:
  "hb_prev_header_hash (full_header b) = fb_prev_header_hash b" "hb_height (full_header b) = fb_height b"
  "hb_weight (full_header b) = fb_weight b" "hb_header_hash cr (full_header b) = fb_header_hash cr b"
  "hb_foliage_transaction_block (full_header b) = fb_foliage_transaction_block b"
  by (simp_all add: full_header_def hb_prev_header_hash_def fb_prev_header_hash_def hb_height_def fb_height_def
      hb_weight_def fb_weight_def hb_header_hash_def fb_header_hash_def)

lemma record_of_full:
  assumes "block_to_block_record cr c s r (Some (full_header b)) None = Ok br" and "fb_header_hash cr b = Ok hh"
  shows "block_of_record b br" "header_hash br = hh" "height br = fb_height b" "prev_hash br = fb_prev_header_hash b"
    "weight br = fb_weight b"
proof -
  note a = block_to_block_record_agrees [OF assms(1), unfolded full_header_simps]
  show "header_hash br = hh" "height br = fb_height b" "prev_hash br = fb_prev_header_hash b" "weight br = fb_weight b"
    using a assms(2) by simp_all
  have "is_transaction_block br \<longleftrightarrow> fb_foliage_transaction_block b \<noteq> None"
    using assms(1) by (elim block_to_block_record_parts) (auto dest: block_record_agrees(12))
  with a show "block_of_record b br" by (simp add: block_of_record_def fb_is_transaction_block_def)
qed

lemma store_view_add:
  "store_view (add_full_block st (header_hash r) b r) = add_block_record (store_view st) r"
  by (simp add: store_view_def init_BlockCache_def add_block_record_def add_full_block_views)

lemma known_add:
  assumes "store_rows_ok st" and "records_of st hh = None"
  shows "known (add_full_block st hh b r) = insert b (known st)"
proof -
  from assms(1) have "rel_option block_of_record (blocks_of st hh) (records_of st hh)" by (simp add: store_rows_ok_def)
  with assms(2) have "blocks_of st hh = None" by simp
  then show ?thesis by (simp add: add_full_block_views)
qed

lemma chain_in_add:
  assumes c: "chain_in cr vm s bs es" and fresh: "records_of (ch_block_store s) hh = None" and rows: "store_rows_ok (ch_block_store s)"
  shows "chain_in cr vm (s\<lparr>ch_block_store := add_full_block (ch_block_store s) hh b r\<rparr>) bs es"
proof -
  let ?st = "ch_block_store s"
  have p: "is_path (records_of ?st) bs" using c by (simp add: chain_in_def)
  have le: "records_of ?st \<subseteq>\<^sub>m (records_of ?st)(hh \<mapsto> r)" using fresh by (auto simp: map_le_def)
  have ne: "header_hash x \<noteq> hh" if "x \<in> set bs" for x
    using that is_pathD(1) [OF p] fresh by (fastforce simp: in_set_conv_nth)
  let ?K = "insert b (known ?st)"
  have "list_all2 (linked cr vm (ch_constants s) ?st) bs es" using c by (simp add: chain_in_def)
  then have "list_all2 (\<lambda>x e. (if header_hash x = hh then Some b else blocks_of ?st (header_hash x)) = Some (fst e) \<and>
      block_effect cr vm (ch_constants s) ?K e) bs es"
    by (rule list.rel_mono_strong) (use ne block_effect_mono [of cr vm "ch_constants s" "known ?st" _ ?K] in auto)
  with c is_path_mono [OF p le] show ?thesis
    by (simp add: chain_in_def known_add [OF rows fresh] del: fun_upd_apply)
       (simp add: add_full_block_views peaks_add_full_block [OF fresh])
qed

lemma stored_block_ok:
  assumes n: "node_ok cr vm s" and new: "new_hash s hh" and link: "new_link s block"
    and r: "block_of_record block r" "header_hash r = hh"
    and npc: "npc_of cr vm (ch_constants s) (known (ch_block_store s)) block npc"
  defines "st \<equiv> add_full_block (ch_block_store s) hh block r"
  shows "chain_ok (store_view st)" "store_rows_ok st"
    "\<And>k x. records_of st k = Some x \<Longrightarrow> k \<noteq> GENESIS_CHALLENGE (ch_constants s) \<and>
       (height x = 0 \<longrightarrow> prev_hash x = GENESIS_CHALLENGE (ch_constants s))"
    "heights_stored (blocks_of st) (height_to_hash_map (ch_blocks s))" "runs_ok cr vm (ch_constants s) (known st)"
proof -
  let ?st = "ch_block_store s" and ?g = "GENESIS_CHALLENGE (ch_constants s)"
  have ok: "chain_ok (store_view ?st)" "store_rows_ok ?st" "block_records (ch_blocks s) \<subseteq>\<^sub>m records_of ?st"
    and g: "\<And>k x. records_of ?st k = Some x \<Longrightarrow> k \<noteq> ?g \<and> (height x = 0 \<longrightarrow> prev_hash x = ?g)"
    using n by (simp_all add: node_ok_def)
  have f: "records_of ?st hh = None" "hh \<noteq> ?g" using new by (simp_all add: new_hash_def)
  have h: "height r = fb_height block" "prev_hash r = fb_prev_header_hash block" using r by (simp_all add: block_of_record_def)
  have l: "height r = 0 \<and> prev_hash r = ?g \<or> (\<exists>p. records_of ?st (prev_hash r) = Some p \<and> 0 < height r \<and> height r = height p + 1)"
  proof -
    have "0 \<le> height p \<and> records_of ?st k = Some p" if "block_records (ch_blocks s) k = Some p" for k p
      using ok(1,3) that by (fastforce simp: map_le_def chain_ok_def heights_ok_def dom_def)
    then show ?thesis using link h unfolding new_link_def by fastforce
  qed
  show "store_rows_ok st" unfolding st_def by (rule add_full_block_ok [OF ok(2) r f(1)])
  show "chain_ok (store_view st)"
    unfolding st_def r(2) [symmetric] store_view_add
  proof (rule add_block_record_chain_ok [OF ok(1)])
    show "block_records (store_view ?st) (header_hash r) = None" using f(1) r(2) by simp
    show "height r = 0 \<and> block_records (store_view ?st) (prev_hash r) = None \<or>
        (\<exists>p. block_records (store_view ?st) (prev_hash r) = Some p \<and> 0 < height r \<and> height r = height p + 1)"
      using l g by fastforce
    show "prev_hash c \<noteq> header_hash r" if "block_records (store_view ?st) k = Some c" "height c = 0" for k c
      using g [of k c] that f(2) r(2) by simp
    show "prev_hash r \<noteq> header_hash r" using l f r(2) by fastforce
  qed
  show "k \<noteq> ?g \<and> (height x = 0 \<longrightarrow> prev_hash x = ?g)" if "records_of st k = Some x" for k x
    using that g [of k x] l f(2) unfolding st_def add_full_block_views by (auto split: if_splits)
  from ok(2) have "rel_option block_of_record (blocks_of ?st hh) (records_of ?st hh)" by (simp add: store_rows_ok_def)
  with f(1) have "blocks_of ?st hh = None" by simp
  then show "heights_stored (blocks_of st) (height_to_hash_map (ch_blocks s))"
    using n unfolding st_def add_full_block_views by (fastforce simp: node_ok_def heights_stored_def)
  have "runs_ok cr vm (ch_constants s) (known ?st)" using n by (simp add: node_ok_def)
  then show "runs_ok cr vm (ch_constants s) (known st)"
    unfolding st_def known_add [OF ok(2) f(1)] using npc
    by (auto simp: runs_ok_def npc_of_def intro: accepted_run_mono) (blast intro: accepted_run_mono)+
qed

section \<open>The block is stored, and the peak moves or stays\<close>

lemma heaviest_add:
  assumes "heaviest st b" and "weight b \<le> weight b'" and "height r = 0 \<or> weight r \<le> weight b'"
    and "records_of st' = (records_of st)(hh \<mapsto> r)"
  shows "heaviest st' b'"
  unfolding heaviest_def assms(4)
proof (intro allI impI)
  fix k x
  assume "((records_of st)(hh \<mapsto> r)) k = Some x"
  then consider (new) "x = r" | (old) "records_of st k = Some x" by (cases "k = hh") simp_all
  then show "height x = 0 \<or> weight x \<le> weight b'"
  proof cases
    case new
    with assms(3) show ?thesis by simp
  next
    case old
    with assms(1) have "height x = 0 \<or> weight x \<le> weight b" by (simp add: heaviest_def)
    with assms(2) show ?thesis by auto
  qed
qed

text \<open>After a move of the peak.\<close>

lemma heights_put:
  fixes bs :: BlockCache
  assumes "heights_stored blocks (height_to_hash_map bs)"
    and "\<And>r. r \<in> set rs \<Longrightarrow> \<exists>b. blocks (header_hash r) = Some b \<and> fb_height b = height r"
  shows "heights_stored blocks (height_to_hash_map (foldl (\<lambda>bs r. put_height r bs) bs rs))"
  using assms
proof (induction rs arbitrary: bs)
  case (Cons r rs)
  have "heights_stored blocks (height_to_hash_map (put_height r bs))"
    using Cons.prems(1) Cons.prems(2) [of r] by (simp add: heights_stored_def)
  from Cons.IH [OF this] Cons.prems(2) show ?case by simp
qed simp

lemma moved_node_ok:
  assumes m: "moved cr vm s1 s2 cs es k"
    and s': "s' = (ch_add_block_record rec s2)\<lparr>ch_blocks := foldl (\<lambda>bs r. put_height r bs)
          (ch_blocks (ch_add_block_record rec s2)) (map ((!) cs) [k..<length cs]), ch_peak_height := Some (height rec)\<rparr>"
    and last: "last cs = rec" and hv: "heaviest (ch_block_store s1) rec" and ok: "chain_ok (store_view (ch_block_store s1))"
    and sub: "(block_records (ch_blocks s1))(header_hash rec \<mapsto> rec) \<subseteq>\<^sub>m records_of (ch_block_store s1)"
    and g: "\<And>k x. records_of (ch_block_store s1) k = Some x \<Longrightarrow> k \<noteq> GENESIS_CHALLENGE (ch_constants s1) \<and>
       (height x = 0 \<longrightarrow> prev_hash x = GENESIS_CHALLENGE (ch_constants s1))"
    and app: "applicable cr vm (known (ch_block_store s1)) s1"
  shows "node_ok cr vm s' \<and> main_chain cr vm s' cs es \<and> ch_peak_height s' = Some (int (length cs) - 1) \<and>
    records_of (ch_block_store s') = records_of (ch_block_store s1) \<and>
    blocks_of (ch_block_store s') = blocks_of (ch_block_store s1) \<and>
    block_records (ch_blocks s') = (block_records (ch_blocks s1))(header_hash rec \<mapsto> rec)"
proof -
  have f: "s' = s2\<lparr>ch_blocks := foldl (\<lambda>bs r. put_height r bs) (add_block_record (ch_blocks s2) rec) (map ((!) cs) [k..<length cs]),
     ch_heights_in_cache := ch_heights_in_cache (ch_add_block_record rec s2), ch_peak_height := Some (height rec)\<rparr>"
    unfolding s' by (simp add: ch_add_block_record_def Let_def)
  note c = moved_chain [OF m f]
  have path: "is_path (records_of (ch_block_store s')) cs" using c(1) by (simp add: chain_in_def)
  obtain coins st ses where s2: "s2 = s1\<lparr>ch_coin_store := coins, ch_block_store := st,
          ch_blocks := (ch_blocks s1)\<lparr>sub_epoch_summaries := ses\<rparr>\<rparr>" and st: "blocks_of st = blocks_of (ch_block_store s1)"
    using m unfolding moved_def by blast
  have bl: "blocks_of (ch_block_store s') = blocks_of (ch_block_store s1)" by (simp add: f s2 st)
  have "heights_stored (blocks_of (ch_block_store s')) (height_to_hash_map (ch_blocks s'))"
  proof -
    have "heights_stored (blocks_of (ch_block_store s')) (height_to_hash_map (add_block_record (ch_blocks s2) rec))"
      using app unfolding bl by (simp add: s2 add_block_record_def applicable_def)
    moreover have "\<exists>b. blocks_of (ch_block_store s') (header_hash r) = Some b \<and> fb_height b = height r"
      if "r \<in> set (map ((!) cs) [k..<length cs])" for r
      using that path_block [OF c(4) path] by (fastforce simp: block_of_record_def)
    moreover have "ch_blocks s' = foldl (\<lambda>bs r. put_height r bs) (add_block_record (ch_blocks s2) rec) (map ((!) cs) [k..<length cs])"
      by (simp add: f)
    ultimately show ?thesis by (simp only: heights_put)
  qed
  moreover have "runs_ok cr vm (ch_constants s') (known (ch_block_store s'))"
    using app unfolding bl c(2) by (simp add: applicable_def)
  moreover from is_path_last(3) [OF path] have "int (length cs) = height rec + 1" using last by simp
  moreover have "ch_peak_height s' = Some (height rec)" by (simp add: f)
  moreover have "store_view (ch_block_store s') = store_view (ch_block_store s1)" using c(5) by (simp add: store_view_def)
  moreover have "heaviest (ch_block_store s') (last cs)" using hv last c(5) by (simp add: heaviest_def)
  moreover have "main_chain cr vm s' cs es" using c(1) calculation(6) by (simp add: main_chain_def)
  ultimately show ?thesis
    using c ok sub g bl by (auto simp: node_ok_def)
qed

text \<open>The given fork point is that of the new path.\<close>

lemma fork_given_agrees:
  assumes fork: "fork_given s block (Some g)" and gp: "get_peak s = Ok (Some (last bs))"
    and ok: "chain_ok (store_view (ch_block_store s))" and rows: "store_rows_ok (ch_block_store s)"
    and bs: "is_path (records_of (ch_block_store s)) bs"
    and sub: "block_records (ch_blocks s) \<subseteq>\<^sub>m records_of (ch_block_store s)"
    and le: "records_of (ch_block_store s) \<subseteq>\<^sub>m get" and cs: "is_path get cs" and long: "1 < length cs"
    and p: "block_records (ch_blocks s) (fb_prev_header_hash block) = Some p"
    and prev: "prev_hash (last cs) = fb_prev_header_hash block" "prev_hash (last cs) \<noteq> header_hash (last bs)"
  shows "agree_to bs cs g"
proof -
  let ?st = "ch_block_store s"
  note b = path_butlast [OF cs long]
  have ps: "records_of ?st (fb_prev_header_hash block) = Some p" using p sub by (metis domI map_le_def)
  have pp: "header_hash p = fb_prev_header_hash block" by (rule stored_hash [OF rows ps])
  have "get (header_hash (last (butlast cs))) = Some p" using ps le b(2) prev(1) by (metis domI map_le_def)
  then have lp: "last (butlast cs) = p" using is_path_last(2) [OF b(1)] by simp
  have "header_hash (last bs) \<noteq> header_hash p" using prev pp by simp
  with fork p gp have f: "is_fork_point (store_view ?st) p (last bs) g" by (simp add: fork_given_def)
  have "block_records (store_view ?st) (header_hash p) = Some p" unfolding pp using ps by simp
  from path_to_block [OF ok this] obtain ds where ds: "is_path (records_of ?st) ds" "last ds = p" by auto
  from path_unique [OF is_path_mono [OF ds(1) le] b(1)] ds lp have "ds = butlast cs" by simp
  with ds(1) have "is_path (records_of ?st) (butlast cs)" by simp
  with f bs lp ok have "agree_to bs (butlast cs) g" using fork_point_agree [of "store_view ?st" bs "butlast cs" g] by simp
  then show ?thesis by (auto simp: agree_to_def nth_butlast)
qed

text \<open>How a stored block changes the stores and the main chain.\<close>

definition stores_block :: "Blockchain \<Rightarrow> Blockchain \<Rightarrow> bytes \<Rightarrow> FullBlock \<Rightarrow> bool" where
  "stores_block s s' hh block \<longleftrightarrow>
     (\<exists>r. header_hash r = hh \<and> block_of_record block r \<and>
        blocks_of (ch_block_store s') = (blocks_of (ch_block_store s))(hh \<mapsto> block) \<and>
        records_of (ch_block_store s') = (records_of (ch_block_store s))(hh \<mapsto> r) \<and>
        block_records (ch_blocks s') = (block_records (ch_blocks s))(hh \<mapsto> r))"

definition peak_step ::
    "crypto \<Rightarrow> 's clvm \<Rightarrow> Blockchain \<Rightarrow> Blockchain \<Rightarrow> bytes \<Rightarrow> int option \<Rightarrow> bool" where
  "peak_step cr vm s s' hh f \<longleftrightarrow>
     (case f of
        None \<Rightarrow> ch_peak_height s' = ch_peak_height s \<and> (\<forall>bs es. main_chain cr vm s bs es \<longrightarrow> main_chain cr vm s' bs es)
      | Some g \<Rightarrow> \<exists>cs es'. main_chain cr vm s' cs es' \<and> ch_peak_height s' = Some (int (length cs) - 1) \<and>
          header_hash (last cs) = hh \<and>
          (\<forall>bs es. main_chain cr vm s bs es \<longrightarrow>
             weight (last bs) < weight (last cs) \<and> (\<exists>f. agree_to bs cs f \<and> g = max f 0)))"

lemma chain_in_unique:
  assumes "chain_in cr vm s bs es" and "chain_in cr vm s bs' es'"
  shows "bs = bs'"
proof -
  have p: "is_path (records_of (ch_block_store s)) bs" "is_path (records_of (ch_block_store s)) bs'"
    and h: "header_hash (last bs) = header_hash (last bs')" using assms by (simp_all add: chain_in_def)
  from is_path_last(2) [OF p(1)] have "last bs = last bs'" unfolding h is_path_last(2) [OF p(2)] by simp
  then show ?thesis by (rule path_unique [OF p])
qed

text \<open>The facts after the row is inserted, for each of the three cases.\<close>

definition inserted ::
    "crypto \<Rightarrow> 's clvm \<Rightarrow> Blockchain \<Rightarrow> FullBlock \<Rightarrow> NPCResult option \<Rightarrow> BlockRecord \<Rightarrow> Blockchain \<Rightarrow> bool" where
  "inserted cr vm s block npc rec s1 \<longleftrightarrow>
     s1 = s\<lparr>ch_block_store := add_full_block (ch_block_store s) (header_hash rec) block rec\<rparr> \<and> node_ok cr vm s \<and>
     new_hash s (header_hash rec) \<and> new_link s block \<and> npc_of cr vm (ch_constants s) (known (ch_block_store s)) block npc \<and>
     block_of_record block rec"

lemma insertedD:
  assumes "inserted cr vm s block npc rec s1"
  shows "ch_constants s1 = ch_constants s" "ch_blocks s1 = ch_blocks s" "ch_coin_store s1 = ch_coin_store s"
    "ch_peak_height s1 = ch_peak_height s" "get_peak s1 = get_peak s"
    "chain_ok (store_view (ch_block_store s1))" "store_rows_ok (ch_block_store s1)"
    "records_of (ch_block_store s1) = (records_of (ch_block_store s))(header_hash rec \<mapsto> rec)"
    "blocks_of (ch_block_store s1) (header_hash rec) = Some block"
    "records_of (ch_block_store s) \<subseteq>\<^sub>m records_of (ch_block_store s1)"
    "(block_records (ch_blocks s))(header_hash rec \<mapsto> rec) \<subseteq>\<^sub>m records_of (ch_block_store s1)"
    "block_records (ch_blocks s) \<subseteq>\<^sub>m records_of (ch_block_store s1)"
    "chain_in cr vm s bs es \<Longrightarrow> chain_in cr vm s1 bs es" "node_ok cr vm s"
    "height rec = fb_height block" "prev_hash rec = fb_prev_header_hash block"
    "\<And>b x. blocks_of (ch_block_store s1) (header_hash rec) = Some b \<Longrightarrow> fb_is_transaction_block b \<Longrightarrow>
       fb_transactions_generator b \<noteq> None \<Longrightarrow> npc = Some x \<Longrightarrow>
       accepted_run cr vm (ch_constants s1) (known (ch_block_store s1)) b x"
    "applicable cr vm (known (ch_block_store s1)) s1"
    "\<And>k x. records_of (ch_block_store s1) k = Some x \<Longrightarrow> k \<noteq> GENESIS_CHALLENGE (ch_constants s1) \<and>
       (height x = 0 \<longrightarrow> prev_hash x = GENESIS_CHALLENGE (ch_constants s1))"
proof -
  have s1: "s1 = s\<lparr>ch_block_store := add_full_block (ch_block_store s) (header_hash rec) block rec\<rparr>"
    and n: "node_ok cr vm s" and new: "new_hash s (header_hash rec)" and link: "new_link s block"
    and npc: "npc_of cr vm (ch_constants s) (known (ch_block_store s)) block npc" and b: "block_of_record block rec"
    using assms by (simp_all add: inserted_def)
  show e: "ch_constants s1 = ch_constants s" "ch_blocks s1 = ch_blocks s" "ch_coin_store s1 = ch_coin_store s"
    "ch_peak_height s1 = ch_peak_height s" by (simp_all add: s1)
  show "get_peak s1 = get_peak s" unfolding get_peak_def e ..
  have st: "ch_block_store s1 = add_full_block (ch_block_store s) (header_hash rec) block rec" by (simp add: s1)
  note ok = stored_block_ok [OF n new link b refl npc, folded st]
  show "chain_ok (store_view (ch_block_store s1))" "store_rows_ok (ch_block_store s1)" by (rule ok)+
  show v: "records_of (ch_block_store s1) = (records_of (ch_block_store s))(header_hash rec \<mapsto> rec)"
    "blocks_of (ch_block_store s1) (header_hash rec) = Some block" by (simp_all add: st add_full_block_views)
  have fresh: "records_of (ch_block_store s) (header_hash rec) = None" using new by (simp add: new_hash_def)
  show le: "records_of (ch_block_store s) \<subseteq>\<^sub>m records_of (ch_block_store s1)" unfolding v using fresh by (auto simp: map_le_def)
  have "block_records (ch_blocks s) \<subseteq>\<^sub>m records_of (ch_block_store s)" using n by (simp add: node_ok_def)
  then show sub: "block_records (ch_blocks s) \<subseteq>\<^sub>m records_of (ch_block_store s1)" using le by (rule map_le_trans)
  show "(block_records (ch_blocks s))(header_hash rec \<mapsto> rec) \<subseteq>\<^sub>m records_of (ch_block_store s1)"
    using sub v by (auto simp: map_le_def)
  show "chain_in cr vm s1 bs es" if "chain_in cr vm s bs es"
    unfolding s1 using chain_in_add [OF that fresh] n by (simp add: node_ok_def)
  show "height rec = fb_height block" "prev_hash rec = fb_prev_header_hash block" using b by (simp_all add: block_of_record_def)
  have "known (ch_block_store s) \<subseteq> known (ch_block_store s1)"
    unfolding st using known_add [OF _ fresh] n by (fastforce simp: node_ok_def)
  then show "accepted_run cr vm (ch_constants s1) (known (ch_block_store s1)) b x"
    if "blocks_of (ch_block_store s1) (header_hash rec) = Some b"
    "fb_is_transaction_block b" "fb_transactions_generator b \<noteq> None" "npc = Some x" for b x
    using that npc v(2) by (auto simp: npc_of_def e intro: accepted_run_mono)
  show "applicable cr vm (known (ch_block_store s1)) s1" using ok by (simp add: applicable_def e)
  show "k \<noteq> GENESIS_CHALLENGE (ch_constants s1) \<and> (height x = 0 \<longrightarrow> prev_hash x = GENESIS_CHALLENGE (ch_constants s1))"
    if "records_of (ch_block_store s1) k = Some x" for k x using ok(3) [OF that] by (simp add: e)
qed (use assms in \<open>simp add: inserted_def\<close>)

lemma add_starts:
  assumes i: "inserted cr vm s block npc rec s1" and none: "ch_peak_height s = None"
    and rp: "reconsider_peak cr vm s1 rec (fb_height block = 0) fp npc = Ok ((fh, ph, records), s2)"
  shows "\<exists>es. moved cr vm s1 s2 [rec] es 0 \<and> records = [rec] \<and> ph = Some (height rec) \<and> fh \<noteq> None \<and>
     heaviest (ch_block_store s1) rec"
proof -
  note d = insertedD [OF i]
  have empty: "records_of (ch_block_store s) = Map.empty" "ledger_of (ch_coin_store s1) = Map.empty"
    "sub_epoch_summaries (ch_blocks s1) = []" and coins: "store_ok cr (ch_coin_store s1)"
    and sub: "block_records (ch_blocks s) \<subseteq>\<^sub>m records_of (ch_block_store s)" using d(14) none by (auto simp add: node_ok_def d)
  have "block_records (ch_blocks s) = Map.empty" using sub empty(1) by (auto simp: map_le_def dom_def fun_eq_iff)
  with i have h: "fb_height block = 0" by (simp add: inserted_def new_link_def)
  have gn: "get_peak s1 = Ok None" using none unfolding d(5) by (simp add: get_peak_def)
  have rt: "reconsider_peak cr vm s1 rec True fp npc = Ok ((fh, ph, records), s2)" using rp h by simp
  have vr: "records_of (ch_block_store s1) (header_hash rec) = Some rec" "height rec = 0" using d(8,15) h by simp_all
  have npc0: "npc = None \<longleftrightarrow> fb_transactions_generator block = None" if "fb_is_transaction_block block"
    using i that by (simp add: inserted_def npc_of_def)
  have "\<exists>es. moved cr vm s1 s2 [rec] es 0 \<and> records = [rec] \<and> ph = Some 0 \<and> fh \<noteq> None"
    by (rule reconsider_starts [OF rt gn d(7) coins empty(2,3) vr d(9)], rule d(17) [OF d(9)], assumption+, rule npc0)
  moreover have "heaviest (ch_block_store s1) rec" using empty d(8) by (simp add: heaviest_def)
  ultimately show ?thesis using vr by simp
qed

lemma add_moves:
  assumes i: "inserted cr vm s block npc rec s1" and main: "main_chain cr vm s bs es"
    and ph: "ch_peak_height s = Some (int (length bs) - 1)" and fork: "fork_given s block fp"
    and gp: "get_peak s = Ok (Some (last bs))"
    and m: "fb_height block \<noteq> 0" "weight (last bs) < weight rec"
    and rp: "reconsider_peak cr vm s1 rec False fp npc = Ok ((fh, ph', records), s2)"
  shows "\<exists>cs es' k. moved cr vm s1 s2 cs es' k \<and> last cs = rec \<and> records = map ((!) cs) [k..<length cs] \<and>
     ph' = Some (height rec) \<and> (\<exists>f. agree_to bs cs f \<and> fh = Some (max f 0)) \<and> heaviest (ch_block_store s1) rec"
proof -
  note d = insertedD [OF i]
  have n: "chain_ok (store_view (ch_block_store s))" "store_rows_ok (ch_block_store s)" "store_ok cr (ch_coin_store s1)"
    "block_records (ch_blocks s) \<subseteq>\<^sub>m records_of (ch_block_store s)" using d(14) by (simp_all add: node_ok_def d)
  have c: "chain_in cr vm s bs es" and hv: "heaviest (ch_block_store s) (last bs)" using main by (simp_all add: main_chain_def)
  have bs: "is_path (records_of (ch_block_store s)) bs" using c by (simp add: chain_in_def)
  have hv1: "heaviest (ch_block_store s1) rec" using heaviest_add [OF hv _ _ d(8), of rec] m(2) by auto
  have "block_records (store_view (ch_block_store s1)) (header_hash rec) = Some rec" using d(8) by simp
  from path_to_block [OF d(6) this] obtain cs where
    cs: "is_path (records_of (ch_block_store s1)) cs" "last cs = rec" by auto
  have "0 < length cs" using is_path_last(1) [OF cs(1)] by simp
  moreover have "length cs \<noteq> 1" using is_path_last(3) [OF cs(1)] cs(2) m(1) d(15) by auto
  ultimately have long: "1 < length cs" by linarith
  from i m(1) obtain q where q: "block_records (ch_blocks s) (fb_prev_header_hash block) = Some q"
    by (auto simp: inserted_def new_link_def)
  have prev: "prev_hash (last cs) = fb_prev_header_hash block" using d(16) cs(2) by simp
  have sup: "agree_to bs cs g" if g: "fp = Some g" "prev_hash rec \<noteq> header_hash (last bs)" for g
    using fork_given_agrees [OF fork [unfolded g(1)] gp n(1,2) bs n(4) d(10) cs(1) long q prev] g(2) cs(2) by simp
  have "\<exists>es' k. moved cr vm s1 s2 cs es' k \<and> records = map ((!) cs) [k..<length cs] \<and> ph' = Some (height rec) \<and>
      (\<exists>f. agree_to bs cs f \<and> fh = Some (max f 0))"
    by (rule reconsider_moves [OF rp m(2) d(13) [OF c] ph [folded d(4)] d(6,18) n(3) d(12) [folded d(2)] cs long sup])
       (assumption, assumption, rule d(17))
  with cs(2) hv1 show ?thesis by blast
qed

lemma add_stays:
  assumes i: "inserted cr vm s block npc rec s1" and main: "main_chain cr vm s bs es"
    and ph: "ch_peak_height s = Some (int (length bs) - 1)" and low: "height rec = 0 \<or> weight rec \<le> weight (last bs)"
  shows "node_ok cr vm (ch_add_block_record rec s1) \<and> peak_step cr vm s (ch_add_block_record rec s1) hh None"
proof -
  note d = insertedD [OF i]
  let ?s = "ch_add_block_record rec s1"
  have s: "ch_blocks ?s = add_block_record (ch_blocks s1) rec" "ch_block_store ?s = ch_block_store s1"
    "ch_coin_store ?s = ch_coin_store s1" "ch_peak_height ?s = ch_peak_height s1" "ch_constants ?s = ch_constants s1"
    by (simp_all add: ch_add_block_record_def Let_def)
  have m: "main_chain cr vm ?s xs ys" if "main_chain cr vm s xs ys" for xs ys
  proof -
    have c: "chain_in cr vm s xs ys" "chain_in cr vm s bs es" and hv: "heaviest (ch_block_store s) (last bs)"
      using that main by (simp_all add: main_chain_def)
    have "heaviest (ch_block_store s1) (last bs)" using heaviest_add [OF hv order.refl low d(8)] .
    with chain_in_unique [OF c] d(13) [OF c(1)] show ?thesis
      by (simp add: main_chain_def chain_in_def s add_block_record_def)
  qed
  then have "peak_step cr vm s ?s hh None" by (simp add: peak_step_def s d)
  moreover have hr: "heights_stored (blocks_of (ch_block_store s1)) (height_to_hash_map (ch_blocks s))"
    "runs_ok cr vm (ch_constants s) (known (ch_block_store s1))"
    using d(18) by (simp_all add: applicable_def d(1,2))
  moreover have "node_ok cr vm ?s"
    using m [OF main] d(6,7,11,19) hr d(14) ph by (auto simp: node_ok_def s d(1-4) add_block_record_def)
  ultimately show ?thesis by simp
qed

lemma add_valid_block_ok:
  assumes a: "add_valid_block cr vm s block ri npc fp = Ok (f, s')" and n: "node_ok cr vm s"
    and hash: "fb_header_hash cr block = Ok hh" and new: "new_hash s hh" and link: "new_link s block"
    and fork: "fork_given s block fp" and npc: "npc_of cr vm (ch_constants s) (known (ch_block_store s)) block npc"
  shows "node_ok cr vm s' \<and> peak_step cr vm s s' hh f \<and> stores_block s s' hh block"
proof -
  from a hash obtain rec ph records s2 where
    rec: "block_to_block_record cr (ch_constants s) (ch_blocks s) ri (Some (full_header block)) None = Ok rec"
    and rp: "reconsider_peak cr vm (s\<lparr>ch_block_store := add_full_block (ch_block_store s) hh block rec\<rparr>) rec
        (fb_height block = 0) fp npc = Ok ((f, ph, records), s2)"
    and s': "s' = (ch_add_block_record rec s2)\<lparr>ch_blocks := foldl (\<lambda>bs r. put_height r bs)
          (ch_blocks (ch_add_block_record rec s2)) records,
        ch_peak_height := (case ph of Some p \<Rightarrow> Some p | None \<Rightarrow> ch_peak_height (ch_add_block_record rec s2))\<rparr>"
    by (auto simp: add_valid_block_def Let_def)
  note r = record_of_full [OF rec hash]
  define s1 where "s1 = s\<lparr>ch_block_store := add_full_block (ch_block_store s) hh block rec\<rparr>"
  note rp = rp [folded s1_def]
  have i: "inserted cr vm s block npc rec s1"
    unfolding inserted_def s1_def r(2) using n new link npc r(1) by simp
  note d = insertedD [OF i]
  have st1: "blocks_of (ch_block_store s1) = (blocks_of (ch_block_store s))(hh \<mapsto> block)"
    "records_of (ch_block_store s1) = (records_of (ch_block_store s))(hh \<mapsto> rec)"
    by (simp_all add: s1_def add_full_block_views)
  have fin: "node_ok cr vm s' \<and> main_chain cr vm s' cs es \<and> ch_peak_height s' = Some (int (length cs) - 1) \<and>
      stores_block s s' hh block"
    if m: "moved cr vm s1 s2 cs es k" and rs: "records = map ((!) cs) [k..<length cs]"
      and ph: "ph = Some (height rec)" and last: "last cs = rec" and hv: "heaviest (ch_block_store s1) rec" for cs es k
    using moved_node_ok [OF m s' [unfolded rs ph option.case] last hv d(6) d(11) [folded d(2)] d(19) d(18)] st1 d(2) r
    by (auto simp: stores_block_def)
  show ?thesis
  proof (cases "ch_peak_height s")
    case None
    from add_starts [OF i None rp] obtain es g where
      m: "moved cr vm s1 s2 [rec] es 0" "records = [rec]" "ph = Some (height rec)" "heaviest (ch_block_store s1) rec" "f = Some g"
      by blast
    have "node_ok cr vm s' \<and> main_chain cr vm s' [rec] es \<and> ch_peak_height s' = Some (int (length [rec]) - 1) \<and>
        stores_block s s' hh block"
      by (rule fin [OF m(1)]) (use m in simp_all)
    moreover have "\<not> main_chain cr vm s bs es" for bs es
      using n None is_path_last(2) [of "records_of (ch_block_store s)" bs] by (auto simp: node_ok_def main_chain_def chain_in_def)
    ultimately show ?thesis using r(2) m(5) unfolding peak_step_def by fastforce
  next
    case (Some p)
    then obtain bs es where main: "main_chain cr vm s bs es" and ph: "ch_peak_height s = Some (int (length bs) - 1)"
      using n by (auto simp: node_ok_def)
    have c: "chain_in cr vm s bs es" using main by (simp add: main_chain_def)
    from rp obtain pk where "get_peak s = Ok pk" unfolding reconsider_peak_def d(5) by (rule rbind_OkE)
    with chain_peak [OF c ph] n have gp: "get_peak s = Ok (Some (last bs))" by (simp add: node_ok_def)
    show ?thesis
    proof (cases "fb_height block = 0 \<or> weight rec \<le> weight (last bs)")
      case True
      from reconsider_stays [OF rp gp [folded d(5)] True]
      have st: "ph = None" "records = []" "s2 = s1" "f = None" by auto
      have "s' = ch_add_block_record rec s1" unfolding s' st by simp
      moreover from this have "stores_block s s' hh block"
        using st1 r d(2) by (auto simp: stores_block_def ch_add_block_record_def add_block_record_def Let_def)
      ultimately show ?thesis using add_stays [OF i main ph] True d(15) st by simp
    next
      case False
      then have h: "fb_height block \<noteq> 0" "weight (last bs) < weight rec" by auto
      then have "reconsider_peak cr vm s1 rec False fp npc = Ok ((f, ph, records), s2)" using rp by simp
      from add_moves [OF i main ph fork gp h this] obtain cs es' k g where
        m: "moved cr vm s1 s2 cs es' k" "records = map ((!) cs) [k..<length cs]" "ph = Some (height rec)" "last cs = rec"
          "heaviest (ch_block_store s1) rec" and g: "agree_to bs cs g" "f = Some (max g 0)" by blast
      note k = fin [OF m]
      have "bs' = bs" if "main_chain cr vm s bs' es''" for bs' es''
        using that chain_in_unique [OF _ c] by (auto simp: main_chain_def)
      with k g h(2) m(4) r(2) show ?thesis unfolding peak_step_def by fastforce
    qed
  qed
qed

end
