(* ===== verification/Chain_Node.thy ===== *)
theory Chain_Node
  imports Chain_Receive
begin

text \<open>
  \<^verbatim>\<open>receive_block\<close> and the other operations of \<^verbatim>\<open>Blockchain\<close> as the steps of a node: the states it reaches
  satisfy \<open>node_ok\<close>, and a restart restores the chain from the database.
\<close>

section \<open>Receiving a block\<close>

lemma get_block_header_same:
  assumes "get_block_header cr b adds rems = Ok h"
  shows "hb_prev_header_hash h = fb_prev_header_hash b" "hb_height h = fb_height b" "hb_weight h = fb_weight b"
    "hb_header_hash cr h = fb_header_hash cr b"
  using assms by (auto simp: get_block_header_def Let_def hb_prev_header_hash_def fb_prev_header_hash_def hb_height_def
      fb_height_def hb_weight_def fb_weight_def hb_header_hash_def fb_header_hash_def)

definition store_read :: "Blockchain \<Rightarrow> Blockchain \<Rightarrow> bool" where
  "store_read s s' \<longleftrightarrow>
     (\<exists>st. s' = s\<lparr>ch_block_store := st\<rparr> \<and> same_tables (ch_block_store s) st \<and> store_rows_ok st)"

lemma store_read_refl: "store_rows_ok (ch_block_store s) \<Longrightarrow> store_read s s"
  unfolding store_read_def by (intro exI [of _ "ch_block_store s"]) simp

lemma store_read_trans:
  assumes "store_read s t" and "store_read t u"
  shows "store_read s u"
proof -
  obtain a where a: "t = s\<lparr>ch_block_store := a\<rparr>" "same_tables (ch_block_store s) a" using assms(1) by (auto simp: store_read_def)
  obtain b where b: "u = t\<lparr>ch_block_store := b\<rparr>" "same_tables (ch_block_store t) b" "store_rows_ok b"
    using assms(2) by (auto simp: store_read_def)
  have "u = s\<lparr>ch_block_store := b\<rparr>" by (simp add: a(1) b(1))
  moreover have "same_tables (ch_block_store s) b" using a b(2) by (auto intro: same_tables_trans)
  ultimately show ?thesis using b(3) by (auto simp: store_read_def)
qed

lemma store_read_rows: "store_read s s' \<Longrightarrow> store_rows_ok (ch_block_store s')"
  by (auto simp: store_read_def)

lemma find_generator_read:
  "find_generator s b a = Ok (r, s') \<Longrightarrow> store_rows_ok (ch_block_store s) \<Longrightarrow> store_read s s'"
  unfolding store_read_def by (rule find_generator_reads(1))

lemma receive_header_read:
  assumes "receive_header cr vm now s block = Ok (r, s')" and "store_rows_ok (ch_block_store s)"
    and hts: "heights_stored (blocks_of (ch_block_store s)) (height_to_hash_map (ch_blocks s))"
  shows "store_read s s'"
    "r = Inr (iters, npc) \<Longrightarrow> (fb_height block = 0 \<longrightarrow> fb_prev_header_hash block = GENESIS_CHALLENGE (ch_constants s)) \<and>
       (\<forall>x. npc = Some x \<longrightarrow> generator_run cr vm (ch_constants s) (known (ch_block_store s)) block x)"
proof -
  let ?c = "ch_constants s" and ?K = "known (ch_block_store s)"
  let ?m = "if fb_is_transaction_block block \<and> fb_transactions_generator block \<noteq> None then
       rbind (find_generator s (body_of_full block) Map.empty) (\<lambda>(r, self).
         case r of Inl e \<Rightarrow> Ok (Inl e, self)
         | Inr g \<Rightarrow>
             rbind (unwrap AssertionError g) (\<lambda>g.
             rbind (unwrap AssertionError (fb_transactions_info block)) (\<lambda>ti.
             rbind (get_name_puzzle_conditions cr vm g (min (MAX_BLOCK_COST_CLVM ?c) (ti_cost ti))
                      (COST_PER_BYTE ?c) False) (\<lambda>npc. Ok (Inr (Some npc), self)))))
     else Ok (Inr None, s)"
  from assms(1) obtain prev ssi d x s1 where m: "?m = Ok (x, s1)"
    and k: "(case x of Inl e \<Rightarrow> Ok (Inl e, s1)
        | Inr npc_result \<Rightarrow>
            rbind (tx_removals_and_additions cr (map_option npc_list npc_result)) (\<lambda>(rems, adds).
            rbind (get_block_header cr block adds rems) (\<lambda>header_block.
            rbind (validate_finished_header_block cr ?c (ch_blocks s1) header_block False d ssi True now)
              (\<lambda>v. Ok (case v of Inl e \<Rightarrow> Inl e | Inr r \<Rightarrow> Inr (r, npc_result), s1))))) = Ok (r, s')"
    unfolding receive_header_def Let_def by (elim rbind_OkE) (auto simp only: prod.case)
  have x: "store_read s s1 \<and> (\<forall>npc y. x = Inr npc \<longrightarrow> npc = Some y \<longrightarrow> generator_run cr vm ?c ?K block y)"
  proof (cases "fb_is_transaction_block block \<and> fb_transactions_generator block \<noteq> None")
    case False
    with m store_read_refl [OF assms(2)] show ?thesis by auto
  next
    case True
    with m obtain q s2 where f: "find_generator s (body_of_full block) Map.empty = Ok (q, s2)"
      and k2: "(case q of Inl e \<Rightarrow> Ok (Inl e, s2)
         | Inr g \<Rightarrow>
             rbind (unwrap AssertionError g) (\<lambda>g.
             rbind (unwrap AssertionError (fb_transactions_info block)) (\<lambda>ti.
             rbind (get_name_puzzle_conditions cr vm g (min (MAX_BLOCK_COST_CLVM ?c) (ti_cost ti))
                      (COST_PER_BYTE ?c) False) (\<lambda>npc. Ok (Inr (Some npc), s2))))) = Ok (x, s1)" by auto
    from k2 have "s1 = s2" by (auto split: sum.splits)
    moreover have "generator_run cr vm ?c ?K block y" if "x = Inr (Some y)" for y
    proof -
      from k2 that obtain g :: BlockGenerator and ti :: TransactionsInfo where g: "q = Inr (Some g)"
        and ti: "fb_transactions_info block = Some ti" and y: "get_name_puzzle_conditions cr vm g (min (MAX_BLOCK_COST_CLVM ?c) (ti_cost ti)) (COST_PER_BYTE ?c) False = Ok y"
        by (auto split: sum.splits)
      from find_generator_for [OF f [unfolded g] assms(2) hts] have "generator_for ?K block g"
        by (simp add: generator_for_def body_of_full_def)
      with y ti show ?thesis unfolding generator_run_def by blast
    qed
    ultimately show ?thesis using find_generator_read [OF f assms(2)] by auto
  qed
  from k have "s' = s1" by (auto split: sum.splits)
  with x show "store_read s s'" by simp
  assume "r = Inr (iters, npc)"
  with k x show "(fb_height block = 0 \<longrightarrow> fb_prev_header_hash block = GENESIS_CHALLENGE ?c) \<and>
       (\<forall>x. npc = Some x \<longrightarrow> generator_run cr vm ?c ?K block x)"
    by (auto split: sum.splits dest!: accepted_height_weight simp: get_block_header_same)
qed

lemma store_read_same_chain: "node_ok cr vm s \<Longrightarrow> store_read s s' \<Longrightarrow> same_chain cr s s'"
  unfolding store_read_def using same_chain_store by blast

lemma same_chain_trans:
  assumes "same_chain cr s s1" and "same_chain cr s1 s2"
  shows "same_chain cr s s2"
proof -
  obtain c1 st1 where 1: "s1 = s\<lparr>ch_coin_store := c1, ch_block_store := st1\<rparr>" "same_tables (ch_block_store s) st1"
      "implements cr c1 (ledger_of (ch_coin_store s))" using assms(1) by (auto simp: same_chain_def)
  obtain c2 st2 where 2: "s2 = s1\<lparr>ch_coin_store := c2, ch_block_store := st2\<rparr>" "same_tables (ch_block_store s1) st2"
      "store_rows_ok st2" "implements cr c2 (ledger_of (ch_coin_store s1))" using assms(2) by (auto simp: same_chain_def)
  have "s2 = s\<lparr>ch_coin_store := c2, ch_block_store := st2\<rparr>" by (simp add: 1(1) 2(1))
  moreover have "same_tables (ch_block_store s) st2" using 1(1,2) 2(2) by (auto intro: same_tables_trans)
  moreover have "implements cr c2 (ledger_of (ch_coin_store s))" using 1(1,3) 2(4) by (simp add: implements_def)
  ultimately show ?thesis using 2(3) unfolding same_chain_def by blast
qed

lemma same_chain_reads:
  assumes "same_chain cr s s'"
  shows "new_hash s' hh \<longleftrightarrow> new_hash s hh" "new_link s' block \<longleftrightarrow> new_link s block"
    "fork_given s' block fp \<longleftrightarrow> fork_given s block fp" "ch_constants s' = ch_constants s" "ch_blocks s' = ch_blocks s"
    "ch_peak_height s' = ch_peak_height s" "blocks_of (ch_block_store s') = blocks_of (ch_block_store s)"
    "records_of (ch_block_store s') = records_of (ch_block_store s)"
proof -
  obtain c st where s': "s' = s\<lparr>ch_coin_store := c, ch_block_store := st\<rparr>" and t: "same_tables (ch_block_store s) st"
    using assms by (auto simp: same_chain_def)
  show c: "ch_constants s' = ch_constants s" "ch_blocks s' = ch_blocks s" "ch_peak_height s' = ch_peak_height s"
    by (simp_all add: s')
  show "blocks_of (ch_block_store s') = blocks_of (ch_block_store s)" using same_tables_views [OF t] by (simp add: s')
  show v: "records_of (ch_block_store s') = records_of (ch_block_store s)" using same_tables_views [OF t] by (simp add: s')
  then have w: "store_view (ch_block_store s') = store_view (ch_block_store s)" by (simp add: store_view_def)
  have "get_peak s' = get_peak s" unfolding get_peak_def c ..
  then show "new_hash s' hh \<longleftrightarrow> new_hash s hh" "new_link s' block \<longleftrightarrow> new_link s block"
    "fork_given s' block fp \<longleftrightarrow> fork_given s block fp"
    unfolding new_hash_def new_link_def fork_given_def c v w by simp_all
qed

text \<open>What a caller of \<^verbatim>\<open>receive_block\<close> that validated the block before relies on.\<close>

definition pre_ok ::
    "crypto \<Rightarrow> 's clvm \<Rightarrow> ConsensusConstants \<Rightarrow> FullBlock set \<Rightarrow> FullBlock \<Rightarrow> PreValidationResult option \<Rightarrow> bool" where
  "pre_ok cr vm c K block pre \<longleftrightarrow>
     (case pre of None \<Rightarrow> True
      | Some v \<Rightarrow> (fb_height block = 0 \<longrightarrow> fb_prev_header_hash block = GENESIS_CHALLENGE c) \<and>
          (\<forall>x. fb_is_transaction_block block \<longrightarrow> pvr_npc_result v = Some x \<longrightarrow> generator_run cr vm c K block x))"

lemma pre_ok_mono: "pre_ok cr vm c K block pre \<Longrightarrow> K \<subseteq> K' \<Longrightarrow> pre_ok cr vm c K' block pre"
  by (auto simp: pre_ok_def split: option.splits intro: generator_run_mono)

definition block_is_new :: "crypto \<Rightarrow> Blockchain \<Rightarrow> FullBlock \<Rightarrow> bool" where
  "block_is_new cr s block \<longleftrightarrow>
     (\<forall>hh. fb_header_hash cr block = Ok hh \<longrightarrow> contains_block (ch_blocks s) hh \<or> new_hash s hh)"

lemma known_header_read:
  assumes "known_header cr vm now s block pre = Ok (r, s')" and "store_rows_ok (ch_block_store s)"
    and "pre_ok cr vm (ch_constants s) (known (ch_block_store s)) block pre"
    and hts: "heights_stored (blocks_of (ch_block_store s)) (height_to_hash_map (ch_blocks s))"
  shows "store_read s s'"
    "r = Inr (iters, npc) \<Longrightarrow> (fb_height block = 0 \<longrightarrow> fb_prev_header_hash block = GENESIS_CHALLENGE (ch_constants s)) \<and>
       (\<forall>x. fb_is_transaction_block block \<longrightarrow> npc = Some x \<longrightarrow>
          generator_run cr vm (ch_constants s) (known (ch_block_store s)) block x)"
proof -
  have "store_read s s' \<and> (\<forall>iters npc. r = Inr (iters, npc) \<longrightarrow>
      (fb_height block = 0 \<longrightarrow> fb_prev_header_hash block = GENESIS_CHALLENGE (ch_constants s)) \<and>
      (\<forall>x. fb_is_transaction_block block \<longrightarrow> npc = Some x \<longrightarrow>
          generator_run cr vm (ch_constants s) (known (ch_block_store s)) block x))"
  proof (cases pre)
    case None
    with assms(1) have "receive_header cr vm now s block = Ok (r, s')" by (simp add: known_header_def)
    from receive_header_read [OF this assms(2) hts] show ?thesis by blast
  next
    case (Some v)
    with assms store_read_refl [OF assms(2)] show ?thesis by (auto simp: known_header_def pre_ok_def)
  qed
  then show "store_read s s'"
    "r = Inr (iters, npc) \<Longrightarrow> (fb_height block = 0 \<longrightarrow> fb_prev_header_hash block = GENESIS_CHALLENGE (ch_constants s)) \<and>
       (\<forall>x. fb_is_transaction_block block \<longrightarrow> npc = Some x \<longrightarrow>
          generator_run cr vm (ch_constants s) (known (ch_block_store s)) block x)" by blast+
qed

lemma receive_bodyE:
  assumes r: "receive_body cr vm s block ri npc fp = Ok ((res, e, f), s')" and n: "node_ok cr vm s"
  obtains (refused) "s' = s" and "res = INVALID_BLOCK"
  | (stored) s1 where "same_chain cr s s1" and "add_valid_block cr vm s1 block ri npc fp = Ok (f, s')"
      and "fb_is_transaction_block block \<Longrightarrow> npc = None \<longleftrightarrow> fb_transactions_generator block = None"
      and "\<And>x. fb_is_transaction_block block \<Longrightarrow> npc = Some x \<Longrightarrow> npc_error x = None"
      and "res = (case f of Some f \<Rightarrow> NEW_PEAK | None \<Rightarrow> ADDED_AS_ORPHAN)"
proof -
  from r obtain peak v where
    v: "validate_block_body cr vm (ch_constants s) (ch_blocks s) (\<lambda>h. fst (get_full_block (ch_block_store s) h)) (ch_coin_store s)
        peak (body_of_full block) (fb_height block) npc fp
        (\<lambda>b. rbind (get_block_generator s (body_of_full b) Map.empty) (\<lambda>(g, s). Ok g)) = Ok v"
    and k: "(case v of Inl e \<Rightarrow> Ok ((INVALID_BLOCK, Some e, None), s)
       | Inr (_, coin_store) \<Rightarrow>
           rbind (add_valid_block cr vm (s\<lparr>ch_coin_store := coin_store\<rparr>) block ri npc fp) (\<lambda>(fork_h, self).
             Ok (case fork_h of Some f \<Rightarrow> (NEW_PEAK, None, Some f) | None \<Rightarrow> (ADDED_AS_ORPHAN, None, None), self)))
        = Ok ((res, e, f), s')"
    unfolding receive_body_def by (elim rbind_OkE)
  show thesis
  proof (cases v)
    case (Inl z)
    with k show thesis by (intro refused) auto
  next
    case (Inr z)
    obtain cost cs where z: "v = Inr (cost, cs)" using Inr by (cases z) simp
    from k [unfolded z sum.case prod.case] obtain g where
      a: "add_valid_block cr vm (s\<lparr>ch_coin_store := cs\<rparr>) block ri npc fp = Ok (g, s')"
      and g: "(res, e, f) = (case g of Some f \<Rightarrow> (NEW_PEAK, None, Some f) | None \<Rightarrow> (ADDED_AS_ORPHAN, None, None))"
      by auto
    have "implements cr (ch_coin_store s) (ledger_of (ch_coin_store s))" using n by (simp add: implements_def node_ok_def)
    from same_chain_coins [OF n body_keeps_coins [OF v [unfolded z] this]]
    have "same_chain cr s (s\<lparr>ch_coin_store := cs\<rparr>)" .
    moreover have "g = f" and res: "res = (case f of Some f \<Rightarrow> NEW_PEAK | None \<Rightarrow> ADDED_AS_ORPHAN)"
      using g by (cases g; simp)+
    ultimately show thesis by (intro stored [OF _ _ _ _ res]) (use a body_npc [OF v [unfolded z]] in simp_all)
  qed
qed

text \<open>A block is refused and nothing changes, or it is stored.\<close>

lemma receive_blockE:
  assumes r: "receive_block cr vm now s block pre fp = Ok ((res, e, f), s')" and n: "node_ok cr vm s"
    and pre: "pre_ok cr vm (ch_constants s) (known (ch_block_store s)) block pre"
  obtains (refused) "same_chain cr s s'" and "res \<noteq> NEW_PEAK" and "res \<noteq> ADDED_AS_ORPHAN"
  | (stored) s1 ri npc hh where "same_chain cr s s1" and "fb_header_hash cr block = Ok hh"
      and "\<not> contains_block (ch_blocks s) hh" and "new_link s block" and "npc_of cr vm (ch_constants s) (known (ch_block_store s)) block npc"
      and "add_valid_block cr vm s1 block ri npc fp = Ok (f, s')"
      and "res = (case f of Some f \<Rightarrow> NEW_PEAK | None \<Rightarrow> ADDED_AS_ORPHAN)"
proof -
  let ?c = "ch_constants s" and ?prev = "fb_prev_header_hash block"
  have rows: "store_rows_ok (ch_block_store s)"
    and hts: "heights_stored (blocks_of (ch_block_store s)) (height_to_hash_map (ch_blocks s))"
    using n by (simp_all add: node_ok_def)
  note same = same_chain_refl [OF n]
  from r obtain hh where hh: "fb_header_hash cr block = Ok hh"
    and k: "(if contains_block (ch_blocks s) hh then Ok ((ALREADY_HAVE_BLOCK, None, None), s)
       else if \<not> contains_block (ch_blocks s) ?prev \<and> fb_height block \<noteq> 0 then
         Ok ((DISCONNECTED_BLOCK, Some INVALID_PREV_BLOCK_HASH, None), s)
       else
         rbind (if fb_height block = 0 then Ok False
                else rbind (block_record (ch_blocks s) ?prev) (\<lambda>p. Ok (height p + 1 \<noteq> fb_height block))) (\<lambda>wrong_height.
         if wrong_height then Ok ((INVALID_BLOCK, Some INVALID_HEIGHT, None), s)
         else
         rbind (known_header cr vm now s block pre) (\<lambda>(r, self).
           case r of Inl e \<Rightarrow> Ok ((INVALID_BLOCK, Some e, None), self)
           | Inr (req_iters, npc_result) \<Rightarrow> receive_body cr vm self block req_iters npc_result fp))) = Ok ((res, e, f), s')"
    unfolding receive_block_def by (rule rbind_OkE)
  consider (known) "contains_block (ch_blocks s) hh \<or> \<not> contains_block (ch_blocks s) ?prev \<and> fb_height block \<noteq> 0"
    | (go) "\<not> contains_block (ch_blocks s) hh" "contains_block (ch_blocks s) ?prev \<or> fb_height block = 0"
    by blast
  then show thesis
  proof cases
    case known
    with k same show thesis by (intro refused) (auto split: if_splits)
  next
    case go
    then have g: "\<not> (\<not> contains_block (ch_blocks s) ?prev \<and> fb_height block \<noteq> 0)" by blast
    from k [unfolded if_not_P [OF go(1)] if_not_P [OF g]] obtain wrong where
      w: "(if fb_height block = 0 then Ok False
            else rbind (block_record (ch_blocks s) ?prev) (\<lambda>p. Ok (height p + 1 \<noteq> fb_height block))) = Ok wrong"
      and k: "(if wrong then Ok ((INVALID_BLOCK, Some INVALID_HEIGHT, None), s)
         else rbind (known_header cr vm now s block pre) (\<lambda>(r, self).
           case r of Inl e \<Rightarrow> Ok ((INVALID_BLOCK, Some e, None), self)
           | Inr (req_iters, npc_result) \<Rightarrow> receive_body cr vm self block req_iters npc_result fp)) = Ok ((res, e, f), s')"
      by (rule rbind_OkE)
    show thesis
    proof (cases wrong)
      case True
      with k same show thesis by (intro refused) auto
    next
      case False
      from k [unfolded if_not_P [OF False]] obtain x s1 where x: "known_header cr vm now s block pre = Ok (x, s1)"
        and k: "(case x of Inl e \<Rightarrow> Ok ((INVALID_BLOCK, Some e, None), s1)
           | Inr (req_iters, npc_result) \<Rightarrow> receive_body cr vm s1 block req_iters npc_result fp) = Ok ((res, e, f), s')"
        by (auto simp only: prod.case elim!: rbind_OkE)
      note h = known_header_read [OF x rows pre hts]
      have sc: "same_chain cr s s1" by (rule store_read_same_chain [OF n h(1)])
      show thesis
      proof (cases x)
        case (Inl y)
        with k sc show thesis by (intro refused) auto
      next
        case (Inr y)
        obtain ri npc where y: "x = Inr (ri, npc)" using Inr by (cases y) simp
        from k [unfolded y sum.case prod.case] same_chain_ok [OF n sc] show thesis
        proof (cases rule: receive_bodyE)
          case refused
          with sc show thesis by (intro that(1)) auto
        next
          case (stored s2)
          have "npc_of cr vm ?c (known (ch_block_store s)) block npc"
            using h(2) [OF y] stored(3,4) by (auto simp: npc_of_def accepted_run_def)
          moreover have "new_link s block" using w False go h(2) [OF y] by (auto simp: new_link_def contains_block_def)
          ultimately show thesis by (rule that(2) [OF same_chain_trans [OF sc stored(1)] hh go(1) _ _ stored(2,5), rotated])
        qed
      qed
    qed
  qed
qed

lemma same_chain_main:
  assumes "same_chain cr s t"
  shows "main_chain cr vm t bs es \<longleftrightarrow> main_chain cr vm s bs es"
proof -
  obtain cs st where t: "t = s\<lparr>ch_coin_store := cs, ch_block_store := st\<rparr>"
    and st: "same_tables (ch_block_store s) st" and cs: "ledger_of cs = ledger_of (ch_coin_store s)"
    using assms by (auto simp: same_chain_def implements_def)
  show ?thesis
    by (simp add: main_chain_def chain_in_def heaviest_def t same_tables_views [OF st] cs same_tables_peaks [OF st])
qed

lemma same_chain_peak_step:
  assumes "same_chain cr s s1" and "peak_step cr vm s1 s' hh f"
  shows "peak_step cr vm s s' hh f"
proof -
  have m: "main_chain cr vm s1 bs es \<longleftrightarrow> main_chain cr vm s bs es" for bs es by (rule same_chain_main [OF assms(1)])
  show ?thesis using assms(2) unfolding peak_step_def m same_chain_reads(6) [OF assms(1)] .
qed

lemma receive_block_effect:
  assumes r: "receive_block cr vm now s block pre fp = Ok ((res, e, f), s')" and n: "node_ok cr vm s"
    and pre: "pre_ok cr vm (ch_constants s) (known (ch_block_store s)) block pre" and new: "block_is_new cr s block" and fork: "fork_given s block fp"
  shows "node_ok cr vm s' \<and>
     (if res = NEW_PEAK \<or> res = ADDED_AS_ORPHAN
      then \<exists>hh. fb_header_hash cr block = Ok hh \<and> new_hash s hh \<and> stores_block s s' hh block \<and> peak_step cr vm s s' hh f \<and> (res = NEW_PEAK \<longleftrightarrow> f \<noteq> None)
      else same_chain cr s s')"
  using r n pre
proof (cases rule: receive_blockE)
  case refused
  with same_chain_ok [OF n refused(1)] show ?thesis by simp
next
  case (stored s1 ri npc hh)
  note same = same_chain_reads [OF stored(1)]
  have h: "new_hash s hh" using new stored(2,3) by (auto simp: block_is_new_def)
  have "node_ok cr vm s' \<and> peak_step cr vm s1 s' hh f \<and> stores_block s1 s' hh block"
    by (rule add_valid_block_ok [OF stored(6) same_chain_ok [OF n stored(1)] stored(2), unfolded same, OF h stored(4) fork stored(5)])
  then have "node_ok cr vm s' \<and> peak_step cr vm s1 s' hh f \<and> stores_block s s' hh block"
    unfolding stores_block_def same by simp
  with same_chain_peak_step [OF stored(1)] stored(2,7) h show ?thesis by (auto split: option.splits)
qed

lemma receive_block_ok:
  "receive_block cr vm now s block pre fp = Ok ((res, e, f), s') \<Longrightarrow> node_ok cr vm s \<Longrightarrow>
   pre_ok cr vm (ch_constants s) (known (ch_block_store s)) block pre \<Longrightarrow> block_is_new cr s block \<Longrightarrow> fork_given s block fp \<Longrightarrow> node_ok cr vm s'"
  using receive_block_effect by blast

section \<open>A restart\<close>

text \<open>The stores as a new process opens them: the same tables, and empty caches.\<close>

definition reopen_coins :: "int \<Rightarrow> CoinStore \<Rightarrow> CoinStore" where
  "reopen_coins cache_size cs = (create_store cache_size)\<lparr>coin_record_db := coin_record_db cs\<rparr>"

definition reopen_blocks :: "BlockStore \<Rightarrow> BlockStore" where
  "reopen_blocks st = create_block_store\<lparr>full_blocks := full_blocks st, block_record_rows := block_record_rows st,
     sub_epoch_segments_v3 := sub_epoch_segments_v3 st\<rparr>"

lemma reopen_blocks_ok:
  assumes "store_rows_ok st"
  shows "same_tables st (reopen_blocks st)" "store_rows_ok (reopen_blocks st)"
proof -
  show t: "same_tables st (reopen_blocks st)" by (simp add: same_tables_def reopen_blocks_def)
  have "lru.agrees (block_cache (reopen_blocks st)) f" for f
    by (simp add: reopen_blocks_def create_block_store_def lru.agrees_def lru_ok_def lru_entries_def)
  with assms t same_tables_views [OF t] show "store_rows_ok (reopen_blocks st)"
    by (simp add: store_rows_ok_def same_tables_def)
qed

lemma reopen_coins_ok:
  assumes "store_ok cr cs" and "0 \<le> n"
  shows "implements cr (reopen_coins n cs) (ledger_of cs)"
  using assms by (simp add: implements_def store_ok_def reopen_coins_def create_store_def lru.agrees_def lru_ok_def
      lru_entries_def ledger_of_def)

lemma reload_records:
  assumes "\<And>k b. (k, b) \<in> set records \<Longrightarrow> get (header_hash b) = Some b"
  shows "\<exists>hic. foldl (\<lambda>self (k, b). ch_add_block_record b self) s records
     = s\<lparr>ch_blocks := (ch_blocks s)\<lparr>block_records := (\<lambda>hh. if hh \<in> (header_hash \<circ> snd) ` set records then get hh
            else block_records (ch_blocks s) hh)\<rparr>, ch_heights_in_cache := hic\<rparr>"
  using assms
proof (induction records arbitrary: s)
  case Nil
  then show ?case by (intro exI [of _ "ch_heights_in_cache s"]) simp
next
  case (Cons p records)
  obtain k b where p: "p = (k, b)" by (cases p)
  have g: "get (header_hash b) = Some b" using Cons.prems [of k b] p by simp
  have IH: "\<exists>hic. foldl (\<lambda>self (k, b). ch_add_block_record b self) (ch_add_block_record b s) records
     = (ch_add_block_record b s)\<lparr>ch_blocks := (ch_blocks (ch_add_block_record b s))\<lparr>block_records :=
          (\<lambda>hh. if hh \<in> (header_hash \<circ> snd) ` set records then get hh
            else block_records (ch_blocks (ch_add_block_record b s)) hh)\<rparr>, ch_heights_in_cache := hic\<rparr>"
    by (rule Cons.IH) (use Cons.prems in auto)
  have "(\<lambda>hh. if hh \<in> (header_hash \<circ> snd) ` set records then get hh
      else block_records (ch_blocks (ch_add_block_record b s)) hh)
    = (\<lambda>hh. if hh \<in> (header_hash \<circ> snd) ` set (p # records) then get hh else block_records (ch_blocks s) hh)"
    using g p by (auto simp: fun_eq_iff ch_add_block_record_def add_block_record_def Let_def)
  with IH show ?case by (auto simp: p ch_add_block_record_def add_block_record_def Let_def)
qed

lemma no_peak_row:
  assumes "records_of st = Map.empty"
  shows "get_peak_height_dicts st = Ok ([], [])" "get_block_records_close_to_peak st n = ([], None)"
proof -
  have "map_of (block_record_rows st) = Map.empty" using assms by (auto simp: records_of_def bs_get_block_record_def fun_eq_iff)
  then have "block_record_rows st = []" by simp
  then show "get_peak_height_dicts st = Ok ([], [])" "get_block_records_close_to_peak st n = ([], None)"
    by (simp_all add: get_peak_height_dicts_def get_block_records_close_to_peak_def peak_row_def)
qed

lemma close_records:
  assumes rows: "store_rows_ok st" and p: "is_path (records_of st) bs" and pk: "peaks st = {header_hash (last bs)}" and "0 \<le> n"
  shows "\<exists>records. get_block_records_close_to_peak st n = (records, Some (header_hash (last bs))) \<and>
     (\<forall>(k, b)\<in>set records. records_of st (header_hash b) = Some b) \<and> (header_hash (last bs), last bs) \<in> set records"
proof -
  have d: "distinct (map fst (block_record_rows st))" and ok: "\<forall>(hh, row)\<in>set (block_record_rows st). row_ok hh row"
    using rows by (simp_all add: store_rows_ok_def)
  from peak_row_unique [OF pk d] obtain row where
    row: "peak_row st = Some (header_hash (last bs), row)" "(header_hash (last bs), row) \<in> set (block_record_rows st)" by blast
  then have "brr_block row = last bs"
    using is_path_last(2) [OF p] d by (simp add: records_of_def bs_get_block_record_def)
  moreover have "records_of st (header_hash (brr_block r)) = Some (brr_block r)" if "(k, r) \<in> set (block_record_rows st)" for k r
    using that ok d by (auto simp: records_of_def bs_get_block_record_def row_ok_def)
  ultimately show ?thesis
    using row assms(4) by (force simp: get_block_records_close_to_peak_def)
qed

text \<open>Opening the database of a node restores its main chain.\<close>

lemma create_blockchain_ok:
  assumes n: "node_ok cr vm s" and sc: "same_chain cr s t" and size: "0 \<le> BLOCKS_CACHE_SIZE (ch_constants s)"
  shows "\<exists>s'. create_blockchain (ch_coin_store t) (ch_block_store t) (ch_constants s) = Ok s' \<and> node_ok cr vm s' \<and>
     ch_peak_height s' = ch_peak_height s \<and> (\<forall>bs es. main_chain cr vm s bs es \<longrightarrow> main_chain cr vm s' bs es)"
proof -
  note n' = same_chain_ok [OF n sc]
  obtain c st where t: "t = s\<lparr>ch_coin_store := c, ch_block_store := st\<rparr>" using sc by (auto simp: same_chain_def)
  define e where "e = \<lparr>ch_constants = ch_constants s, ch_peak_height = None,
     ch_blocks = init_BlockCache Map.empty Map.empty Map.empty [], ch_heights_in_cache = Map.empty, ch_coin_store = c,
     ch_block_store = st, ch_seen_compact_proofs = {}\<rparr>"
  have cb: "create_blockchain (ch_coin_store t) (ch_block_store t) (ch_constants s) = load_chain_from_store e"
    by (simp add: create_blockchain_def t e_def)
  have same: "main_chain cr vm t bs es \<longleftrightarrow> main_chain cr vm s bs es" for bs es by (rule same_chain_main [OF sc])
  show ?thesis
  proof (cases "ch_peak_height s")
    case None
    then have em: "records_of st = Map.empty" "ledger_of c = Map.empty" using n' by (simp_all add: node_ok_def t)
    let ?s = "e\<lparr>ch_blocks := init_BlockCache Map.empty Map.empty Map.empty [], ch_heights_in_cache := Map.empty, ch_peak_height := None\<rparr>"
    have "load_chain_from_store e = Ok ?s"
      by (simp add: load_chain_from_store_def no_peak_row [OF em(1)] e_def Let_def)
    moreover have "node_ok cr vm ?s" using n' em by (simp add: node_ok_def e_def t init_BlockCache_def)
    moreover have "\<not> main_chain cr vm s bs es" for bs es
    proof
      assume "main_chain cr vm s bs es"
      then have "main_chain cr vm t bs es" using same by blast
      then have "is_path (records_of st) bs" by (simp add: main_chain_def chain_in_def t)
      from is_path_last(2) [OF this] em(1) show False by simp
    qed
    ultimately show ?thesis using None unfolding cb by (intro exI [of _ ?s]) simp
  next
    case (Some p)
    then obtain bs es where main: "main_chain cr vm t bs es" and p: "int (length bs) = p + 1"
      using n' by (auto simp: node_ok_def t)
    have rows: "store_rows_ok st" using n' by (simp add: node_ok_def t)
    have pb: "is_path (records_of st) bs" "peaks st = {header_hash (last bs)}" using main by (simp_all add: main_chain_def chain_in_def t)
    from close_records [OF rows pb size] obtain records where
      rec: "get_block_records_close_to_peak st (BLOCKS_CACHE_SIZE (ch_constants s)) = (records, Some (header_hash (last bs)))"
        "\<forall>(k, b)\<in>set records. records_of st (header_hash b) = Some b" "(header_hash (last bs), last bs) \<in> set records" by blast
    let ?hth = "path_hashes bs (rev [0..<length bs])" and ?ses = "path_summaries bs (rev [0..<length bs])"
    let ?e = "e\<lparr>ch_blocks := init_BlockCache Map.empty Map.empty (map_of ?hth) ?ses, ch_heights_in_cache := Map.empty\<rparr>"
    from reload_records [of records "records_of st" ?e] rec(2) obtain hic where
      f: "foldl (\<lambda>self (k, b). ch_add_block_record b self) ?e records
         = ?e\<lparr>ch_blocks := (ch_blocks ?e)\<lparr>block_records := (\<lambda>hh. if hh \<in> (header_hash \<circ> snd) ` set records then records_of st hh
            else block_records (ch_blocks ?e) hh)\<rparr>, ch_heights_in_cache := hic\<rparr>" by blast
    define R where "R = (\<lambda>hh. if hh \<in> (header_hash \<circ> snd) ` set records then records_of st hh else None)"
    let ?s = "e\<lparr>ch_blocks := init_BlockCache R Map.empty (map_of ?hth) ?ses, ch_heights_in_cache := hic,
      ch_peak_height := Some (height (last bs))\<rparr>"
    have f': "foldl (\<lambda>self (k, b). ch_add_block_record b self) ?e records
       = e\<lparr>ch_blocks := init_BlockCache R Map.empty (map_of ?hth) ?ses, ch_heights_in_cache := hic\<rparr>"
      unfolding f R_def by (simp add: init_BlockCache_def cong: if_cong)
    have Rl: "R (header_hash (last bs)) = Some (last bs)"
      using rec(3) is_path_last(2) [OF pb(1)] unfolding R_def by (force simp: image_iff)
    have hl: "height (last bs) = int (length bs) - 1" by (rule is_path_last(3) [OF pb(1)])
    have "load_chain_from_store e = Ok ?s"
      using rec(3) f' Rl hl peak_dicts [OF rows pb]
      by (auto simp: load_chain_from_store_def e_def Let_def rec(1) path_hashes_def block_record_def init_BlockCache_def)
    moreover have mc: "main_chain cr vm ?s xs ys" if "main_chain cr vm s xs ys" for xs ys
    proof -
      have m: "main_chain cr vm t xs ys" using that same by blast
      then have "chain_in cr vm t xs ys" "chain_in cr vm t bs es" using main by (simp_all add: main_chain_def)
      from chain_in_unique [OF this] have x: "xs = bs" .
      have "h \<in> int ` set (rev [0..<length bs]) \<longleftrightarrow> 0 \<le> h \<and> h < int (length bs)" for h
        by (auto simp: image_iff Bex_def intro!: exI [of _ "nat h"])
      then show ?thesis using m unfolding x
        by (auto simp: main_chain_def chain_in_def t e_def init_BlockCache_def map_of_path_hashes map_of_path_summaries)
    qed
    moreover have hts: "heights_stored (blocks_of st) (map_of ?hth)"
    proof -
      have "\<exists>b. blocks_of st (header_hash (bs ! i)) = Some b \<and> fb_height b = int i" if "i < length bs" for i
        using path_block [OF rows pb(1) that] is_pathD(2) [OF pb(1) that] by (auto simp: block_of_record_def)
      then show ?thesis by (auto simp: heights_stored_def map_of_path_hashes split: if_splits)
    qed
    moreover have "R \<subseteq>\<^sub>m records_of st" by (auto simp: R_def map_le_def)
    then have "node_ok cr vm ?s"
      using n' mc [OF main [unfolded same]] hl hts
      by (simp add: node_ok_def e_def t init_BlockCache_def) blast
    ultimately show ?thesis using Some p hl unfolding cb by (intro exI [of _ ?s]) simp
  qed
qed

end
