(* ===== verification/Pre_Facts.thy ===== *)
theory Pre_Facts
  imports Chain_Node Pre_Validation
begin

text \<open>
  Validation of a batch ahead of receiving it: the records it adds to the cache in memory leave it again, so that
  the node is as before, and what it accepts is what \<^verbatim>\<open>receive_block\<close> relies on.
\<close>

section \<open>The records in memory\<close>

lemma records_change:
  assumes n: "node_ok cr vm s" and "R \<subseteq>\<^sub>m records_of (ch_block_store s)"
  shows "node_ok cr vm (s\<lparr>ch_blocks := (ch_blocks s)\<lparr>block_records := R\<rparr>, ch_heights_in_cache := hic\<rparr>)" (is "node_ok cr vm ?s")
    and "main_chain cr vm (s\<lparr>ch_blocks := (ch_blocks s)\<lparr>block_records := R\<rparr>, ch_heights_in_cache := hic\<rparr>) bs es
       \<longleftrightarrow> main_chain cr vm s bs es"
proof -
  show m: "main_chain cr vm ?s bs es \<longleftrightarrow> main_chain cr vm s bs es" for bs es
    by (simp add: main_chain_def chain_in_def)
  with assms show "node_ok cr vm ?s"
    by (cases "ch_peak_height s") (simp_all add: node_ok_def)
qed

text \<open>The same node but for the records with the given hashes.\<close>

definition same_but :: "bytes set \<Rightarrow> Blockchain \<Rightarrow> Blockchain \<Rightarrow> bool" where
  "same_but H s s' \<longleftrightarrow>
     (\<exists>R hic. s' = s\<lparr>ch_blocks := (ch_blocks s)\<lparr>block_records := R\<rparr>, ch_heights_in_cache := hic\<rparr> \<and>
        (\<forall>hh. hh \<notin> H \<longrightarrow> R hh = block_records (ch_blocks s) hh))"

lemma same_but_refl: "same_but H s s"
  unfolding same_but_def
  by (intro exI [of _ "block_records (ch_blocks s)"] exI [of _ "ch_heights_in_cache s"]) simp

lemma same_but_change:
  assumes "same_but H s t" and "\<And>hh. hh \<notin> H \<Longrightarrow> R hh = block_records (ch_blocks t) hh"
  shows "same_but H s (t\<lparr>ch_blocks := (ch_blocks t)\<lparr>block_records := R\<rparr>, ch_heights_in_cache := hic\<rparr>)"
proof -
  from assms(1) obtain Q h where t: "t = s\<lparr>ch_blocks := (ch_blocks s)\<lparr>block_records := Q\<rparr>, ch_heights_in_cache := h\<rparr>"
    and q: "\<forall>hh. hh \<notin> H \<longrightarrow> Q hh = block_records (ch_blocks s) hh" by (auto simp: same_but_def)
  have "t\<lparr>ch_blocks := (ch_blocks t)\<lparr>block_records := R\<rparr>, ch_heights_in_cache := hic\<rparr>
      = s\<lparr>ch_blocks := (ch_blocks s)\<lparr>block_records := R\<rparr>, ch_heights_in_cache := hic\<rparr>" by (simp add: t)
  moreover have "\<forall>hh. hh \<notin> H \<longrightarrow> R hh = block_records (ch_blocks s) hh" using assms(2) q by (simp add: t)
  ultimately show ?thesis unfolding same_but_def by blast
qed

lemma same_but_add:
  assumes "same_but H s t" and "header_hash b \<in> H"
  shows "same_but H s (ch_add_block_record b t)"
proof -
  have "ch_add_block_record b t = t\<lparr>ch_blocks := (ch_blocks t)\<lparr>block_records := (block_records (ch_blocks t))(header_hash b \<mapsto> b)\<rparr>,
      ch_heights_in_cache := ch_heights_in_cache (ch_add_block_record b t)\<rparr>"
    by (simp add: ch_add_block_record_def add_block_record_def Let_def)
  moreover have "same_but H s (t\<lparr>ch_blocks := (ch_blocks t)\<lparr>block_records := (block_records (ch_blocks t))(header_hash b \<mapsto> b)\<rparr>,
      ch_heights_in_cache := ch_heights_in_cache (ch_add_block_record b t)\<rparr>)"
    by (rule same_but_change [OF assms(1)]) (use assms(2) in auto)
  ultimately show ?thesis by (simp only:)
qed

lemma same_but_remove:
  assumes "same_but H s t" and "hh \<in> H" and "ch_remove_block_record hh t = Ok u"
  shows "same_but H s u" and "block_records (ch_blocks u) = (block_records (ch_blocks t))(hh := None)"
proof -
  from assms(3) obtain hic where u: "u = t\<lparr>ch_blocks := (ch_blocks t)\<lparr>block_records := (block_records (ch_blocks t))(hh := None)\<rparr>,
      ch_heights_in_cache := hic\<rparr>"
    by (auto simp: ch_remove_block_record_def remove_block_record_def split: if_splits)
  show "same_but H s u" unfolding u by (rule same_but_change [OF assms(1)]) (use assms(2) in auto)
  show "block_records (ch_blocks u) = (block_records (ch_blocks t))(hh := None)" by (simp add: u)
qed

text \<open>Taking out the records that were not there before restores the cache.\<close>

definition absent :: "Blockchain \<Rightarrow> bytes list \<Rightarrow> bytes set" where
  "absent s hashes = {hh \<in> set hashes. \<not> contains_block (ch_blocks s) hh}"

lemma take_out:
  assumes step: "\<And>hh w t u. (hh, w) \<in> set present \<Longrightarrow> same_but H s t \<Longrightarrow> f (hh, w) t = Ok u \<Longrightarrow>
      same_but H s u \<and> (\<forall>k. block_records (ch_blocks t) k = None \<longrightarrow> block_records (ch_blocks u) k = None) \<and>
      (\<not> w \<longrightarrow> block_records (ch_blocks u) hh = None)"
    and "rfold f present t = Ok u" and "same_but H s t"
  shows "same_but H s u \<and> (\<forall>k. block_records (ch_blocks t) k = None \<longrightarrow> block_records (ch_blocks u) k = None) \<and>
    (\<forall>hh. (hh, False) \<in> set present \<longrightarrow> block_records (ch_blocks u) hh = None)"
  using assms
proof (induction present arbitrary: t)
  case (Cons p present)
  obtain hh w where p: "p = (hh, w)" by (cases p)
  from Cons.prems(2) obtain t1 where t1: "f (hh, w) t = Ok t1" and r: "rfold f present t1 = Ok u" by (auto simp: p)
  have 1: "same_but H s t1 \<and> (\<forall>k. block_records (ch_blocks t) k = None \<longrightarrow> block_records (ch_blocks t1) k = None) \<and>
      (\<not> w \<longrightarrow> block_records (ch_blocks t1) hh = None)"
    by (rule Cons.prems(1) [OF _ Cons.prems(3) t1]) (simp add: p)
  have 2: "same_but H s u \<and> (\<forall>k. block_records (ch_blocks t1) k = None \<longrightarrow> block_records (ch_blocks u) k = None) \<and>
      (\<forall>hh. (hh, False) \<in> set present \<longrightarrow> block_records (ch_blocks u) hh = None)"
    by (rule Cons.IH [OF Cons.prems(1) r]) (use 1 in auto)
  from 1 2 show ?case by (auto simp: p)
qed simp

lemma restored:
  assumes "same_but (absent s hashes) s u" and "\<And>hh. hh \<in> absent s hashes \<Longrightarrow> block_records (ch_blocks u) hh = None"
  shows "same_but {} s u"
proof -
  from assms(1) obtain R hic where u: "u = s\<lparr>ch_blocks := (ch_blocks s)\<lparr>block_records := R\<rparr>, ch_heights_in_cache := hic\<rparr>"
    and r: "\<forall>hh. hh \<notin> absent s hashes \<longrightarrow> R hh = block_records (ch_blocks s) hh" by (auto simp: same_but_def)
  have "R hh = block_records (ch_blocks s) hh" for hh
    using r assms(2) [of hh] by (cases "hh \<in> absent s hashes") (auto simp: u absent_def contains_block_def)
  with u show ?thesis unfolding same_but_def by blast
qed

lemma taken_out:
  fixes hashes :: "bytes list"
  assumes "rfold f (map (\<lambda>hh. (hh, contains_block (ch_blocks s) hh)) hashes) t = Ok u"
    and "same_but (absent s hashes) s t"
    and f: "\<And>hh w t. f (hh, w) t = (if \<not> w \<and> (g \<or> contains_block (ch_blocks t) hh) then ch_remove_block_record hh t else Ok t)"
  shows "same_but {} s u"
proof -
  have "same_but (absent s hashes) s u \<and> (\<forall>k. block_records (ch_blocks t) k = None \<longrightarrow> block_records (ch_blocks u) k = None) \<and>
    (\<forall>hh. (hh, False) \<in> set (map (\<lambda>hh. (hh, contains_block (ch_blocks s) hh)) hashes) \<longrightarrow> block_records (ch_blocks u) hh = None)"
  proof (rule take_out [OF _ assms(1,2)])
    fix hh w t u
    assume p: "(hh, w) \<in> set (map (\<lambda>hh. (hh, contains_block (ch_blocks s) hh)) hashes)"
      and i: "same_but (absent s hashes) s t" and st: "f (hh, w) t = Ok u"
    show "same_but (absent s hashes) s u \<and> (\<forall>k. block_records (ch_blocks t) k = None \<longrightarrow> block_records (ch_blocks u) k = None) \<and>
        (\<not> w \<longrightarrow> block_records (ch_blocks u) hh = None)"
    proof (cases "\<not> w \<and> (g \<or> contains_block (ch_blocks t) hh)")
      case True
      with p have "hh \<in> absent s hashes" by (auto simp: absent_def)
      from same_but_remove [OF i this] st True show ?thesis by (simp add: f)
    next
      case False
      with st i show ?thesis by (auto simp: f contains_block_def)
    qed
  qed
  then show ?thesis by (intro restored [of s hashes]) (auto simp: absent_def image_iff)
qed

section \<open>The steps of a batch\<close>

lemma pre_step_same:
  assumes "pre_step cr (map (\<lambda>hh. (hh, contains_block (ch_blocks s) hh)) hashes) wps block t = Ok r"
    and i: "same_but (absent s hashes) s (ps_chain t)" and hh: "fb_header_hash cr block = Ok hh" "hh \<in> set hashes"
  shows "case r of Inr t' \<Rightarrow> same_but (absent s hashes) s (ps_chain t') \<and> length (ps_diff_ssis t') = Suc (length (ps_diff_ssis t))
     | Inl u \<Rightarrow> wps = None \<longrightarrow> same_but {} s u"
proof -
  let ?present = "map (\<lambda>hh. (hh, contains_block (ch_blocks s) hh)) hashes" and ?c = "ch_constants (ps_chain t)"
  have out: "same_but {} s u" if "remove_added ?present (ps_chain t) = Ok u" for u
    by (rule taken_out [OF that [unfolded remove_added_def] i, of False]) simp
  have add: "same_but (absent s hashes) s (ch_add_block_record rec (ps_chain t))"
    if "block_to_block_record cr ?c (ch_blocks (ps_chain t)) ri (Some (full_header block)) None = Ok rec"
      "\<not> contains_block (ch_blocks (ps_chain t)) (header_hash rec)" for ri rec
  proof (rule same_but_add [OF i])
    have e: "header_hash rec = hh" by (rule record_of_full(2) [OF that(1) hh(1)])
    from i have "block_records (ch_blocks (ps_chain t)) hh = block_records (ch_blocks s) hh" if "hh \<notin> absent s hashes"
      using that by (auto simp: same_but_def)
    then have "hh \<in> absent s hashes" using that(2) e hh(2)
      by (cases "hh \<in> absent s hashes") (auto simp: absent_def contains_block_def)
    then show "header_hash rec \<in> absent s hashes" using e by simp
  qed
  from assms(1) i show ?thesis
    unfolding pre_step_def Let_def
    by (elim rbind_OkE) (auto simp: summary_mismatch_def split: option.splits if_splits, (erule out | erule (1) add | erule notE, erule (1) add)+)
qed

lemma pre_steps_same:
  assumes "pre_steps cr (map (\<lambda>hh. (hh, contains_block (ch_blocks s) hh)) hashes) wps blocks t = Ok r"
    and "same_but (absent s hashes) s (ps_chain t)"
    and "\<And>b. b \<in> set blocks \<Longrightarrow> \<exists>hh\<in>set hashes. fb_header_hash cr b = Ok hh"
  shows "case r of Inr t' \<Rightarrow> same_but (absent s hashes) s (ps_chain t') \<and>
       length (ps_diff_ssis t') = length (ps_diff_ssis t) + length blocks
     | Inl u \<Rightarrow> wps = None \<longrightarrow> same_but {} s u"
  using assms
proof (induction blocks arbitrary: t)
  case Nil
  then show ?case by auto
next
  case (Cons b blocks)
  from Cons.prems(3) [of b] obtain hh where hh: "fb_header_hash cr b = Ok hh" "hh \<in> set hashes" by auto
  from Cons.prems(1) obtain q where q: "pre_step cr (map (\<lambda>hh. (hh, contains_block (ch_blocks s) hh)) hashes) wps b t = Ok q"
    and k: "(case q of Inl self \<Rightarrow> Ok (Inl self)
       | Inr t \<Rightarrow> pre_steps cr (map (\<lambda>hh. (hh, contains_block (ch_blocks s) hh)) hashes) wps blocks t) = Ok r" by auto
  note 1 = pre_step_same [OF q Cons.prems(2) hh]
  show ?case
  proof (cases q)
    case (Inl u)
    with k 1 show ?thesis by auto
  next
    case (Inr u)
    with k have "pre_steps cr (map (\<lambda>hh. (hh, contains_block (ch_blocks s) hh)) hashes) wps blocks u = Ok r" by simp
    from Cons.IH [OF this] Inr 1 Cons.prems(3) show ?thesis by (simp split: sum.splits)
  qed
qed

lemma batch_generators_read:
  "batch_generators cr d blocks s = Ok (r, s') \<Longrightarrow> store_rows_ok (ch_block_store s) \<Longrightarrow>
     store_read s s' \<and> (\<forall>gs. r = Inr gs \<longrightarrow> length gs = length blocks)"
proof (induction blocks arbitrary: s r)
  case Nil
  then show ?case by (auto simp: store_read_refl)
next
  case (Cons b blocks)
  from Cons.prems(1) obtain x q s1 where f: "find_generator s (body_of_full b) x = Ok (q, s1)"
    and k: "(case q of Inl e \<Rightarrow> Ok (Inl e, s1)
       | Inr g \<Rightarrow> rbind (batch_generators cr d blocks s1) (\<lambda>(rest, self).
             Ok (case rest of Inl e \<Rightarrow> Inl e | Inr gs \<Rightarrow> Inr (g # gs), self))) = Ok (r, s')" by auto
  have r1: "store_read s s1" by (rule find_generator_read [OF f Cons.prems(2)])
  show ?case
  proof (cases q)
    case (Inl e)
    with k r1 show ?thesis by auto
  next
    case (Inr g)
    with k obtain rest where rest: "batch_generators cr d blocks s1 = Ok (rest, s')"
      and r: "r = (case rest of Inl e \<Rightarrow> Inl e | Inr gs \<Rightarrow> Inr (g # gs))" by auto
    from Cons.IH [OF rest store_read_rows [OF r1]] r store_read_trans [OF r1] show ?thesis
      by (auto split: sum.splits)
  qed
qed

section \<open>The batch leaves the node as it was\<close>

lemma same_but_ok:
  assumes "node_ok cr vm s" and "same_but {} s u"
  shows "node_ok cr vm u" "main_chain cr vm u bs es \<longleftrightarrow> main_chain cr vm s bs es" "ch_constants u = ch_constants s"
    "block_records (ch_blocks u) = block_records (ch_blocks s)"
proof -
  from assms(2) obtain R hic where u: "u = s\<lparr>ch_blocks := (ch_blocks s)\<lparr>block_records := R\<rparr>, ch_heights_in_cache := hic\<rparr>"
    and r: "\<forall>hh. R hh = block_records (ch_blocks s) hh" by (auto simp: same_but_def)
  from r have "R = block_records (ch_blocks s)" by (simp add: fun_eq_iff)
  note u = u [unfolded this]
  have "block_records (ch_blocks s) \<subseteq>\<^sub>m records_of (ch_block_store s)" using assms(1) by (simp add: node_ok_def)
  from records_change [OF assms(1) this] show "node_ok cr vm u" "main_chain cr vm u bs es \<longleftrightarrow> main_chain cr vm s bs es"
    unfolding u by blast+
  show "ch_constants u = ch_constants s" "block_records (ch_blocks u) = block_records (ch_blocks s)" by (simp_all add: u)
qed

lemma pre_validate_same:
  assumes pv: "pre_validate_blocks_multiprocessing cr vm now s blocks check_filter npcs n wps = Ok (res, s')"
    and ok: "node_ok cr vm s" and w: "wps = None \<or> res \<noteq> None"
  shows "node_ok cr vm s' \<and> (main_chain cr vm s' bs es \<longleftrightarrow> main_chain cr vm s bs es) \<and> ch_constants s' = ch_constants s \<and>
    block_records (ch_blocks s') = block_records (ch_blocks s) \<and> ch_peak_height s' = ch_peak_height s"
proof -
  have self: ?thesis if "same_but {} s u" "store_read u s'" for u
  proof -
    note a = same_but_ok [OF ok that(1)]
    note b = store_read_same_chain [OF a(1) that(2)]
    have "main_chain cr vm s' bs es \<longleftrightarrow> main_chain cr vm s bs es" using a(2) same_chain_main [OF b, of vm bs es] by simp
    moreover have "ch_peak_height u = ch_peak_height s" using that(1) by (auto simp: same_but_def)
    ultimately show ?thesis using a same_chain_ok [OF a(1) b] same_chain_reads(4-6) [OF b] by simp
  qed
  have rows: "store_rows_ok (ch_block_store u)" if "same_but {} s u" for u
    using ok that by (auto simp: same_but_def node_ok_def)
  obtain block0 where b0: "py_nth blocks 0 = Ok block0"
    using pv unfolding pre_validate_blocks_multiprocessing_def Let_def by (rule rbind_OkE)
  show ?thesis
  proof (cases "fb_height block0 > 0 \<and> \<not> contains_block (ch_blocks s) (fb_prev_header_hash block0)")
    case True
    with pv b0 self [OF same_but_refl] store_read_refl rows [OF same_but_refl] show ?thesis
      by (auto simp: pre_validate_blocks_multiprocessing_def Let_def)
  next
    case False
    let ?p = "\<lambda>hashes. map (\<lambda>hh. (hh, contains_block (ch_blocks s) hh)) hashes"
    from pv [unfolded pre_validate_blocks_multiprocessing_def Let_def b0 rbind_Ok if_not_P [OF False]]
    obtain recent hashes r where hs: "rmap (fb_header_hash cr) blocks = Ok hashes"
      and ps: "pre_steps cr (?p hashes) wps blocks
          \<lparr>ps_chain = s, ps_prev_b = None, ps_recent = recent, ps_diff_ssis = []\<rparr> = Ok r"
      and k: "(case r of Inl self \<Rightarrow> Ok (None, self)
        | Inr t \<Rightarrow>
        rbind (rfold (\<lambda>(hh, was_present) self. if \<not> was_present then ch_remove_block_record hh self else Ok self)
                 (?p hashes) (ps_chain t)) (\<lambda>self.
        rbind (batch_generators cr (map_of (rev (zip hashes blocks))) blocks self) (\<lambda>(gs, self).
        case gs of Inl e \<Rightarrow> Ok (None, self)
        | Inr gs \<Rightarrow>
        rbind (rmap (run_batch cr vm now (ch_constants s) (ps_recent t) npcs check_filter)
                 (chunks n (zip blocks (zip gs (ps_diff_ssis t))))) (\<lambda>results.
          Ok (Some (concat results), self))))) = Ok (res, s')"
      by (elim rbind_OkE)
    have "\<exists>hh\<in>set hashes. fb_header_hash cr b = Ok hh" if "b \<in> set blocks" for b
      using that rmap_nth [OF hs] rmap_length [OF hs] by (metis in_set_conv_nth)
    from pre_steps_same [OF ps _ this] same_but_refl have st: "case r of Inr t' \<Rightarrow> same_but (absent s hashes) s (ps_chain t')
       | Inl u \<Rightarrow> wps = None \<longrightarrow> same_but {} s u" by (auto split: sum.splits)
    show ?thesis
    proof (cases r)
      case (Inl u)
      with k w st have "same_but {} s s'" by auto
      from self [OF this store_read_refl [OF rows [OF this]]] show ?thesis .
    next
      case (Inr t)
      from k [unfolded Inr sum.case] obtain u gs s1 where
        u: "rfold (\<lambda>(hh, was_present) self. if \<not> was_present then ch_remove_block_record hh self else Ok self)
                 (?p hashes) (ps_chain t) = Ok u"
        and g: "batch_generators cr (map_of (rev (zip hashes blocks))) blocks u = Ok (gs, s1)" and s1: "s' = s1"
        by (auto split: sum.splits)
      have "same_but (absent s hashes) s (ps_chain t)" using st Inr by simp
      from taken_out [OF u this, of True] have "same_but {} s u" by simp
      with self batch_generators_read [OF g rows] s1 show ?thesis by blast
    qed
  qed
qed

section \<open>The records and difficulties of a batch\<close>

text \<open>Records of the node and of blocks of the batch.\<close>

definition from_batch ::
    "crypto \<Rightarrow> Blockchain \<Rightarrow> FullBlock list \<Rightarrow> (bytes \<Rightarrow> BlockRecord option) \<Rightarrow> bool" where
  "from_batch cr s blocks recs \<longleftrightarrow> (\<forall>hh r. recs hh = Some r \<longrightarrow> block_records (ch_blocks s) hh = Some r \<or>
     (\<exists>b\<in>set blocks. fb_header_hash cr b = Ok hh \<and> header_hash r = hh \<and> block_of_record b r))"

text \<open>The difficulty and the iterations of the slots that block \<open>i\<close> of the batch is held to are those that follow
  the block before it: the one before it in the batch, or for the first block its stored predecessor.\<close>

definition expects :: "crypto \<Rightarrow> Blockchain \<Rightarrow> FullBlock list \<Rightarrow> nat \<Rightarrow> int \<times> int \<Rightarrow> bool" where
  "expects cr s blocks i = (\<lambda>(d, ssi). \<exists>R prev. from_batch cr s (take i blocks) R \<and>
     get_next_sub_slot_iters_and_difficulty (ch_constants s) (length (fb_finished_sub_slots (blocks ! i)) > 0) prev
       ((ch_blocks s)\<lparr>block_records := R\<rparr>) = Ok (ssi, d) \<and>
     (case prev of None \<Rightarrow> i = 0 \<and> fb_height (blocks ! i) = 0
      | Some p \<Rightarrow> if i = 0 then block_records (ch_blocks s) (fb_prev_header_hash (blocks ! i)) = Some p
                else fb_header_hash cr (blocks ! (i - 1)) = Ok (header_hash p) \<and> block_of_record (blocks ! (i - 1)) p))"

definition batch_state :: "crypto \<Rightarrow> Blockchain \<Rightarrow> FullBlock list \<Rightarrow> PreState \<Rightarrow> bool" where
  "batch_state cr s seen t \<longleftrightarrow> ch_constants (ps_chain t) = ch_constants s \<and>
     (\<exists>R. ch_blocks (ps_chain t) = (ch_blocks s)\<lparr>block_records := R\<rparr> \<and> from_batch cr s seen R) \<and>
     from_batch cr s seen (rec_blocks (ps_recent t)) \<and> from_batch cr s seen (rec_compressed (ps_recent t)) \<and>
     length (ps_diff_ssis t) = length seen \<and> (\<forall>i<length seen. expects cr s seen i (ps_diff_ssis t ! i)) \<and>
     (case ps_prev_b t of None \<Rightarrow> seen = []
      | Some p \<Rightarrow> seen \<noteq> [] \<and> fb_header_hash cr (last seen) = Ok (header_hash p) \<and> block_of_record (last seen) p)"

lemma from_batch_more: "from_batch cr s seen R \<Longrightarrow> from_batch cr s (seen @ bs) R"
  by (fastforce simp: from_batch_def)

lemma from_batch_update:
  assumes "from_batch cr s seen R" and "fb_header_hash cr b = Ok (header_hash r)" and "block_of_record b r"
  shows "from_batch cr s (seen @ [b]) (R(header_hash r \<mapsto> r))"
  using assms by (auto simp: from_batch_def split: if_splits)

lemma from_batch_known:
  assumes "from_batch cr s seen R" and "from_batch cr s seen Q" and "Q hh = Some r"
  shows "from_batch cr s (seen @ bs) (R(hh \<mapsto> r))"
  using assms(1) assms(2) [unfolded from_batch_def, rule_format, OF assms(3)] by (fastforce simp: from_batch_def split: if_splits)

lemma expects_append:
  assumes "i < length seen" and "expects cr s seen i d"
  shows "expects cr s (seen @ bs) i d"
proof -
  have "(seen @ bs) ! i = seen ! i" "(seen @ bs) ! (i - 1) = seen ! (i - 1)" "take i (seen @ bs) = take i seen"
    using assms(1) by (simp_all add: nth_append)
  with assms(2) show ?thesis unfolding expects_def by presburger
qed

lemma pre_step_state:
  assumes step: "pre_step cr present wps block t = Ok (Inr t')" and i: "batch_state cr s seen t"
    and hh: "fb_header_hash cr block = Ok hh"
  shows "batch_state cr s (seen @ [block]) t'"
proof -
  from i obtain R where c: "ch_constants (ps_chain t) = ch_constants s" and R: "ch_blocks (ps_chain t) = (ch_blocks s)\<lparr>block_records := R\<rparr>"
    and fb: "from_batch cr s seen R" "from_batch cr s seen (rec_blocks (ps_recent t))" "from_batch cr s seen (rec_compressed (ps_recent t))"
    and d: "length (ps_diff_ssis t) = length seen" "\<forall>i<length seen. expects cr s seen i (ps_diff_ssis t ! i)"
    and pb: "case ps_prev_b t of None \<Rightarrow> seen = []
      | Some p \<Rightarrow> seen \<noteq> [] \<and> fb_header_hash cr (last seen) = Ok (header_hash p) \<and> block_of_record (last seen) p"
    unfolding batch_state_def by blast
  from step [unfolded pre_step_def Let_def c R] obtain prev ssi diff req rec chain recent where
    prev: "(if fb_height block \<noteq> 0 then
               rbind (py_assert (contains_block ((ch_blocks s)\<lparr>block_records := R\<rparr>) (fb_prev_header_hash block))) (\<lambda>_.
                 if ps_prev_b t = None then
                   rbind (block_record ((ch_blocks s)\<lparr>block_records := R\<rparr>) (fb_prev_header_hash block)) (\<lambda>b. Ok (Some b))
                 else Ok (ps_prev_b t))
             else Ok (ps_prev_b t)) = Ok prev"
    and next1: "get_next_sub_slot_iters_and_difficulty (ch_constants s) (length (fb_finished_sub_slots block) > 0) prev
               ((ch_blocks s)\<lparr>block_records := R\<rparr>) = Ok (ssi, diff)"
    and rec: "block_to_block_record cr (ch_constants s) ((ch_blocks s)\<lparr>block_records := R\<rparr>) req (Some (full_header block)) None = Ok rec"
    and add: "(if \<not> contains_block ((ch_blocks s)\<lparr>block_records := R\<rparr>) (header_hash rec) then
                   Ok (ch_add_block_record rec (ps_chain t), add_recent rec (ps_recent t))
                 else
                   rbind (block_record ((ch_blocks s)\<lparr>block_records := R\<rparr>) (header_hash rec)) (\<lambda>b.
                     Ok (ps_chain t, (ps_recent t)\<lparr>rec_blocks := (rec_blocks (ps_recent t))(header_hash rec \<mapsto> b),
                           rec_compressed := (rec_compressed (ps_recent t))(header_hash rec \<mapsto> b)\<rparr>))) = Ok (chain, recent)"
    and t': "t' = \<lparr>ps_chain = chain, ps_prev_b = Some rec, ps_recent = recent,
                      ps_diff_ssis = ps_diff_ssis t @ [(diff, ssi)]\<rparr>"
    by (elim rbind_OkE) (auto split: option.splits if_splits)
  note r = record_of_full [OF rec hh]
  have hr: "fb_header_hash cr block = Ok (header_hash rec)" using hh r(2) by simp
  have ex: "expects cr s (seen @ [block]) (length seen) (diff, ssi)"
    unfolding expects_def prod.case
  proof (intro exI conjI)
    show "from_batch cr s (take (length seen) (seen @ [block])) R" using fb(1) by simp
    show "get_next_sub_slot_iters_and_difficulty (ch_constants s)
        (length (fb_finished_sub_slots ((seen @ [block]) ! length seen)) > 0) prev ((ch_blocks s)\<lparr>block_records := R\<rparr>) = Ok (ssi, diff)"
      using next1 by simp
    show "case prev of None \<Rightarrow> length seen = 0 \<and> fb_height ((seen @ [block]) ! length seen) = 0
      | Some p \<Rightarrow> if length seen = 0 then block_records (ch_blocks s) (fb_prev_header_hash ((seen @ [block]) ! length seen)) = Some p
                else fb_header_hash cr ((seen @ [block]) ! (length seen - 1)) = Ok (header_hash p) \<and>
                  block_of_record ((seen @ [block]) ! (length seen - 1)) p"
    proof (cases "ps_prev_b t")
      case None
      with pb have "seen = []" by simp
      with prev None fb(1) show ?thesis
        by (auto simp: from_batch_def block_record_def split: if_splits)
    next
      case (Some p)
      with prev have "prev = Some p" by (auto split: if_splits)
      with pb Some show ?thesis by (auto simp: nth_append last_conv_nth)
    qed
  qed
  have rest: "length (ps_diff_ssis t') = length (seen @ [block])"
    "\<forall>i<length (seen @ [block]). expects cr s (seen @ [block]) i (ps_diff_ssis t' ! i)"
    using d ex expects_append [of _ seen cr s] by (auto simp: t' nth_append less_Suc_eq)
  show ?thesis
  proof (cases "contains_block ((ch_blocks s)\<lparr>block_records := R\<rparr>) (header_hash rec)")
    case False
    with add have e: "chain = ch_add_block_record rec (ps_chain t)" "recent = add_recent rec (ps_recent t)" by simp_all
    have "ch_blocks chain = (ch_blocks s)\<lparr>block_records := R(header_hash rec \<mapsto> rec)\<rparr>" "ch_constants chain = ch_constants s"
      using R c by (simp_all add: e ch_add_block_record_def add_block_record_def Let_def)
    with rest r(1) hr fb show ?thesis unfolding batch_state_def
      by (auto simp: t' e add_recent_def intro: from_batch_update)
  next
    case True
    with add obtain b where b: "R (header_hash rec) = Some b" and e: "chain = ps_chain t"
      "recent = (ps_recent t)\<lparr>rec_blocks := (rec_blocks (ps_recent t))(header_hash rec \<mapsto> b),
         rec_compressed := (rec_compressed (ps_recent t))(header_hash rec \<mapsto> b)\<rparr>"
      by (auto simp: block_record_def)
    show ?thesis unfolding batch_state_def
      using rest r(1) hr R c from_batch_more [OF fb(1)] from_batch_known [OF fb(2) fb(1) b] from_batch_known [OF fb(3) fb(1) b]
      by (auto simp: t' e)
  qed
qed

lemma pre_steps_state:
  "pre_steps cr present wps blocks t = Ok (Inr t') \<Longrightarrow> batch_state cr s seen t \<Longrightarrow>
   (\<And>b. b \<in> set blocks \<Longrightarrow> \<exists>hh. fb_header_hash cr b = Ok hh) \<Longrightarrow> batch_state cr s (seen @ blocks) t'"
proof (induction blocks arbitrary: seen t)
  case (Cons b blocks)
  from Cons.prems(3) [of b] obtain hh where hh: "fb_header_hash cr b = Ok hh" by auto
  from Cons.prems(1) obtain u where u: "pre_step cr present wps b t = Ok (Inr u)" "pre_steps cr present wps blocks u = Ok (Inr t')"
    by (auto split: sum.splits)
  from Cons.IH [OF u(2) pre_step_state [OF u(1) Cons.prems(2) hh]] Cons.prems(3) show ?case by simp
qed simp

lemma walk_acc_invariant:
  assumes "walk_acc get p f b s = Ok (b', s')" and "P b" and "Q s"
    and "\<And>b s s'. P b \<Longrightarrow> Q s \<Longrightarrow> f b s = Ok s' \<Longrightarrow> Q s'" and "\<And>hh b. get hh = Ok b \<Longrightarrow> P b"
  shows "P b' \<and> Q s'"
proof -
  have "\<forall>b' s'. v = Inr (b', s') \<longrightarrow> P b \<longrightarrow> Q s \<longrightarrow> P b' \<and> Q s'" if "walk_acc get p f b s = Some v" for v
  proof (rule walk_acc.raw_induct [of "\<lambda>g q h b s v. g = get \<longrightarrow> h = f \<longrightarrow> (\<forall>b' s'. v = Inr (b', s') \<longrightarrow> P b \<longrightarrow> Q s \<longrightarrow> P b' \<and> Q s')",
        OF _ that, THEN mp, THEN mp, OF _ refl refl], goal_cases)
    case (1 w g q h b s v)
    show ?case
    proof (intro impI allI)
      fix b' s'
      assume e: "g = get" "h = f" "v = Inr (b', s')" "P b" "Q s"
      show "P b' \<and> Q s'"
      proof (cases "q b s")
        case True
        with 1(2) e obtain s1 b1 where "f b s = Ok s1" "get (prev_hash b) = Ok b1" "w get q f b1 s1 = Ok (b', s')" by auto
        with 1(1) e assms(4,5) show ?thesis by blast
      qed (use 1(2) e in auto)
    qed
  qed
  with assms show ?thesis by blast
qed

lemma recent_blocks_from:
  assumes "recent_blocks c (ch_blocks s) start = Ok r" and start: "block_records (ch_blocks s) (header_hash start) = Some start"
    and ok: "\<And>hh b. block_records (ch_blocks s) hh = Some b \<Longrightarrow> header_hash b = hh"
  shows "from_batch cr s [] (rec_blocks r) \<and> from_batch cr s [] (rec_compressed r)"
proof -
  let ?P = "\<lambda>b. block_records (ch_blocks s) (header_hash b) = Some b"
  let ?Q = "\<lambda>r. from_batch cr s [] (rec_blocks r) \<and> from_batch cr s [] (rec_compressed r)"
  have add: "from_batch cr s [] (m(header_hash b \<mapsto> b))" if "from_batch cr s [] m" "?P b" for m b
    using that by (auto simp: from_batch_def)
  from assms(1) obtain b u where w: "walk_acc (block_record (ch_blocks s))
      (\<lambda>b r. (sub_epoch_summary_included b = None \<or> few_seen c (if overflow start then 3 else 2) r) \<and> height b > 0)
      (recent_step c (if overflow start then 3 else 2)) start
      \<lparr>rec_sub_slots_found = 0, rec_blocks_seen = 0, rec_blocks = Map.empty, rec_compressed = Map.empty\<rparr> = Ok (b, u)"
    and r: "r = add_recent b u" by (auto simp: recent_blocks_def Let_def)
  have "?P b \<and> ?Q u"
  proof (rule walk_acc_invariant [OF w, of ?P ?Q])
    show "?Q s'" if "?P b" "?Q x" "recent_step c (if overflow start then 3 else 2) b x = Ok s'" for b x s'
      using that add by (auto simp: recent_step_def)
    show "?P start" by (rule start)
    show "?P x" if "block_record (ch_blocks s) hh = Ok x" for hh x
      using that ok [of hh x] by (simp add: block_record_def)
  qed (simp add: from_batch_def)
  with add show ?thesis by (simp add: r add_recent_def)
qed

section \<open>What an accepted block of a batch gives\<close>

lemma chunk_results:
  assumes "rmap F (chunks n xs) = Ok rss" and "\<And>c. \<exists>q. F c = rmap (G q) c" and "i < length (concat rss)"
  shows "i < length xs \<and> (\<exists>q. G q (xs ! i) = Ok (concat rss ! i))"
  using assms(1,3)
proof (induction n xs arbitrary: rss i rule: chunks.induct)
  case (1 n xs)
  show ?case
  proof (cases "n = 0 \<or> xs = []")
    case True
    then have "chunks n xs = []" by (subst chunks.simps) simp
    with 1(2,3) show ?thesis by auto
  next
    case False
    then have c: "chunks n xs = take n xs # chunks n (drop n xs)" by (subst chunks.simps) simp
    obtain q where q: "F (take n xs) = rmap (G q) (take n xs)" using assms(2) by blast
    from 1(2) c q obtain r rs where r: "rmap (G q) (take n xs) = Ok r" "rmap F (chunks n (drop n xs)) = Ok rs" "rss = r # rs"
      by auto
    have l: "length r = length (take n xs)" by (rule rmap_length [OF r(1)])
    show ?thesis
    proof (cases "i < length r")
      case True
      with rmap_nth [OF r(1), of i] l r(3) show ?thesis by (auto simp: nth_append)
    next
      case i: False
      then have "i - length r < length (concat rs)" using 1(3) r(3) by auto
      from 1(1) [OF False r(2) this] obtain p where
        d: "i - length r < length (drop n xs)" "G p (drop n xs ! (i - length r)) = Ok (concat rs ! (i - length r))" by blast
      then have "length r = n" using l i by simp
      with d i r(3) show ?thesis by (auto simp: nth_append)
    qed
  qed
qed

text \<open>Validation of the finished header accepts the block, against the given records and with the given difficulty.\<close>

definition header_accepted ::
    "crypto \<Rightarrow> ConsensusConstants \<Rightarrow> int \<Rightarrow> bool \<Rightarrow> (bytes \<Rightarrow> BlockRecord option) \<Rightarrow> int \<times> int \<Rightarrow> FullBlock \<Rightarrow>
     PreValidationResult \<Rightarrow> bool" where
  "header_accepted cr c now check_filter recs = (\<lambda>(d, ssi) block v.
     \<exists>rems adds hb r. tx_removals_and_additions cr (map_option npc_list (pvr_npc_result v)) = Ok (rems, adds) \<and>
       get_block_header cr block adds rems = Ok hb \<and>
       validate_finished_header_block cr c (init_BlockCache recs Map.empty Map.empty []) hb check_filter d ssi True now = Valid r \<and>
       pvr_required_iters v = Some r)"

lemma accepted_in_batch:
  assumes v: "batch_pre_validate_block cr vm now c recs npcs check_filter b g d ssi = Ok v" and ok: "pvr_error v = None"
    and npcs: "\<And>x. npcs (fb_height b) = Some x \<Longrightarrow> fb_is_transaction_block b \<Longrightarrow> generator_run cr vm c K b x"
    and g: "\<And>x. g = Some x \<Longrightarrow> list_all2 (arg_from K) (fb_transactions_generator_ref_list b) (bg_generator_args x)"
  shows "pre_ok cr vm c K b (Some v) \<and> header_accepted cr c now check_filter recs (d, ssi) b v"
proof -
  have "batch_block_result cr vm now c recs npcs check_filter b g d ssi = Ok v"
    using v ok by (auto simp: batch_pre_validate_block_def split: option.splits sum.splits)
  then obtain npc rems adds hb r where
    n: "(case npcs (fb_height b) of Some npc \<Rightarrow> Ok (Some npc)
            | None \<Rightarrow>
                if fb_transactions_generator b = None then Ok None
                else
                  rbind (unwrap AssertionError g) (\<lambda>g.
                  rbind (unwrap AssertionError (fb_transactions_info b)) (\<lambda>ti.
                  rbind (py_assert (fb_transactions_generator b = Some (bg_program g))) (\<lambda>_.
                  rbind (get_name_puzzle_conditions cr vm g (min (MAX_BLOCK_COST_CLVM c) (ti_cost ti))
                           (COST_PER_BYTE c) True) (\<lambda>npc. Ok (Some npc)))))) = Ok npc"
    and t: "tx_removals_and_additions cr (map_option npc_list npc) = Ok (rems, adds)"
    and h: "get_block_header cr b adds rems = Ok hb"
    and f: "validate_finished_header_block cr c (init_BlockCache recs Map.empty Map.empty []) hb check_filter d ssi True now = Ok r"
    and e: "(case r of Inl e \<Rightarrow> rbind (uint16 (Err_value e)) (\<lambda>code.
                    Ok \<lparr>pvr_error = Some code, pvr_required_iters = None, pvr_npc_result = npc\<rparr>)
       | Inr r \<Rightarrow> Ok \<lparr>pvr_error = None, pvr_required_iters = Some r, pvr_npc_result = npc\<rparr>) = Ok v"
    unfolding batch_block_result_def by (elim rbind_OkE) (auto simp only: prod.case elim!: rbind_OkE)
  have x: "pvr_npc_result v = npc" and "\<exists>q. r = Inr q" using e ok by (auto split: sum.splits)
  then obtain q where q: "r = Inr q" by blast
  from accepted_height_weight [OF f [unfolded q]] get_block_header_same [OF h]
  have "fb_height b = 0 \<longrightarrow> fb_prev_header_hash b = GENESIS_CHALLENGE c" by auto
  moreover have "generator_run cr vm c K b y" if "fb_is_transaction_block b" "npc = Some y" for y
  proof (cases "npcs (fb_height b)")
    case None
    with n that(2) obtain gen :: BlockGenerator and ti :: TransactionsInfo where "g = Some gen"
      "fb_transactions_generator b = Some (bg_program gen)" "fb_transactions_info b = Some ti"
      "get_name_puzzle_conditions cr vm gen (min (MAX_BLOCK_COST_CLVM c) (ti_cost ti)) (COST_PER_BYTE c) True = Ok y"
      by (auto split: if_splits)
    with g show ?thesis unfolding generator_run_def generator_for_def by blast
  qed (use n that npcs in auto)
  moreover have "pvr_required_iters v = Some q" using e q by auto
  ultimately show ?thesis using x t h f q by (auto simp: pre_ok_def header_accepted_def)
qed

text \<open>The generators of a batch refer to stored blocks and to blocks of the batch.\<close>

lemma batch_ancestors_ran:
  assumes "batch_ancestors cr block_dict b d = Ok d'" and "ran block_dict \<subseteq> B" and "ran d \<subseteq> B"
  shows "ran d' \<subseteq> B"
proof -
  have "\<forall>d'. v = Inr d' \<longrightarrow> ran d \<subseteq> B \<longrightarrow> ran d' \<subseteq> B" if "batch_ancestors cr block_dict b d = Some v" for v
  proof (rule batch_ancestors.raw_induct [of "\<lambda>k bd b d v. bd = block_dict \<longrightarrow> (\<forall>d'. v = Inr d' \<longrightarrow> ran d \<subseteq> B \<longrightarrow> ran d' \<subseteq> B)",
        OF _ that, THEN mp, OF _ refl], goal_cases)
    case (1 f k bd b d v)
    show ?case
    proof (intro impI allI)
      fix d'
      assume e: "bd = block_dict" "v = Inr d'" "ran d \<subseteq> B"
      show "ran d' \<subseteq> B"
      proof (cases "block_dict (fb_prev_header_hash b)")
        case (Some x)
        then have "x \<in> B" using assms(2) by (auto intro: ranI)
        then have "ran (d(hh \<mapsto> x)) \<subseteq> B" for hh using e(3) by (auto simp: ran_def)
        with 1 e Some show ?thesis by (fastforce elim!: rbind_OkE)
      qed (use 1(2) e in auto)
    qed
  qed
  with assms show ?thesis by blast
qed

lemma batch_generators_for:
  "batch_generators cr block_dict blocks s = Ok (Inr gs, s') \<Longrightarrow> store_rows_ok (ch_block_store s) \<Longrightarrow>
   heights_stored (blocks_of (ch_block_store s)) (height_to_hash_map (ch_blocks s)) \<Longrightarrow> ran block_dict \<subseteq> B \<Longrightarrow>
   i < length blocks \<Longrightarrow> gs ! i = Some g \<Longrightarrow>
   list_all2 (arg_from (known (ch_block_store s) \<union> B)) (fb_transactions_generator_ref_list (blocks ! i)) (bg_generator_args g)"
proof (induction blocks arbitrary: s gs i)
  case (Cons b blocks)
  from Cons.prems(1) obtain d g0 s1 rest where d: "batch_ancestors cr block_dict b Map.empty = Ok d"
    and f: "find_generator s (body_of_full b) d = Ok (Inr g0, s1)"
    and rest: "batch_generators cr block_dict blocks s1 = Ok (Inr rest, s')" and gs: "gs = g0 # rest"
    by (auto split: sum.splits)
  have r1: "store_read s s1" by (rule find_generator_read [OF f Cons.prems(2)])
  then obtain st where s1: "s1 = s\<lparr>ch_block_store := st\<rparr>" "same_tables (ch_block_store s) st" "store_rows_ok st"
    by (auto simp: store_read_def)
  note v = same_tables_views [OF s1(2)]
  show ?case
  proof (cases i)
    case 0
    with f gs Cons.prems(6) have "find_generator s (body_of_full b) d = Ok (Inr (Some g), s1)" by simp
    from find_generator_for [OF this Cons.prems(2,3)]
    have "list_all2 (arg_from (known (ch_block_store s) \<union> ran d)) (fb_transactions_generator_ref_list b) (bg_generator_args g)"
      by (simp add: body_of_full_def)
    moreover have "ran d \<subseteq> B" by (rule batch_ancestors_ran [OF d Cons.prems(4)]) simp
    ultimately show ?thesis using 0 by (auto elim!: list_all2_mono intro: arg_from_mono)
  next
    case (Suc j)
    have "list_all2 (arg_from (known (ch_block_store s1) \<union> B)) (fb_transactions_generator_ref_list (blocks ! j)) (bg_generator_args g)"
      by (rule Cons.IH [OF rest]) (use Cons.prems Suc gs s1 v in simp_all)
    then show ?thesis using Suc s1 v by simp
  qed
qed simp

lemma pre_validated:
  assumes pv: "pre_validate_blocks_multiprocessing cr vm now s blocks check_filter npcs n wps = Ok (Some results, s')"
    and n: "node_ok cr vm s"
    and npcs: "\<And>b x. b \<in> set blocks \<Longrightarrow> npcs (fb_height b) = Some x \<Longrightarrow> fb_is_transaction_block b \<Longrightarrow>
       generator_run cr vm (ch_constants s) (known (ch_block_store s) \<union> set blocks) b x"
    and i: "i < length results" and ok: "pvr_error (results ! i) = None"
  shows "i < length blocks \<and> pre_ok cr vm (ch_constants s) (known (ch_block_store s) \<union> set blocks) (blocks ! i) (Some (results ! i)) \<and>
    (\<exists>recs d. from_batch cr s blocks recs \<and> expects cr s blocks i d \<and>
       header_accepted cr (ch_constants s) now check_filter recs d (blocks ! i) (results ! i))"
proof -
  let ?none = "\<lparr>rec_sub_slots_found = 0, rec_blocks_seen = 0, rec_blocks = Map.empty, rec_compressed = Map.empty\<rparr>"
  let ?p = "\<lambda>hashes. map (\<lambda>hh. (hh, contains_block (ch_blocks s) hh)) hashes"
  obtain block0 where b0: "py_nth blocks 0 = Ok block0"
    using pv unfolding pre_validate_blocks_multiprocessing_def Let_def by (rule rbind_OkE)
  have ne: "\<not> (fb_height block0 > 0 \<and> \<not> contains_block (ch_blocks s) (fb_prev_header_hash block0))"
  proof
    assume "fb_height block0 > 0 \<and> \<not> contains_block (ch_blocks s) (fb_prev_header_hash block0)"
    with pv b0 i ok show False by (auto simp: pre_validate_blocks_multiprocessing_def Let_def pre_error_def)
  qed
  from pv [unfolded pre_validate_blocks_multiprocessing_def Let_def b0 rbind_Ok if_not_P [OF ne]]
  obtain recent hashes t u gs s1 rss where
    rc: "(if fb_height block0 > 0 then
            rbind (block_record (ch_blocks s) (fb_prev_header_hash block0)) (recent_blocks (ch_constants s) (ch_blocks s))
          else Ok ?none) = Ok recent"
    and hs: "rmap (fb_header_hash cr) blocks = Ok hashes"
    and ps: "pre_steps cr (?p hashes) wps blocks
          \<lparr>ps_chain = s, ps_prev_b = None, ps_recent = recent, ps_diff_ssis = []\<rparr> = Ok (Inr t)"
    and u: "rfold (\<lambda>(hh, was_present) self. if \<not> was_present then ch_remove_block_record hh self else Ok self)
                 (?p hashes) (ps_chain t) = Ok u"
    and g: "batch_generators cr (map_of (rev (zip hashes blocks))) blocks u = Ok (Inr gs, s1)"
    and rm: "rmap (run_batch cr vm now (ch_constants s) (ps_recent t) npcs check_filter)
         (chunks n (zip blocks (zip gs (ps_diff_ssis t)))) = Ok rss"
    and rs: "results = concat rss"
    by (elim rbind_OkE) (auto split: sum.splits)
  have rows: "store_rows_ok (ch_block_store s)" and hts: "heights_stored (blocks_of (ch_block_store s)) (height_to_hash_map (ch_blocks s))"
    and sub: "block_records (ch_blocks s) \<subseteq>\<^sub>m records_of (ch_block_store s)" using n by (simp_all add: node_ok_def)
  have hd: "header_hash b = hh" if "block_records (ch_blocks s) hh = Some b" for hh b
    using stored_hash [OF rows] that sub by (metis domI map_le_def)
  have rfrom: "from_batch cr s [] (rec_blocks recent) \<and> from_batch cr s [] (rec_compressed recent)"
  proof (cases "fb_height block0 > 0")
    case True
    with rc obtain b where b: "block_records (ch_blocks s) (fb_prev_header_hash block0) = Some b"
      "recent_blocks (ch_constants s) (ch_blocks s) b = Ok recent" by (auto simp: block_record_def)
    show ?thesis by (rule recent_blocks_from [OF b(2) _ hd]) (use b(1) hd in auto)
  qed (use rc in \<open>auto simp: from_batch_def\<close>)
  have hex: "\<exists>hh\<in>set hashes. fb_header_hash cr b = Ok hh" if "b \<in> set blocks" for b
    using that rmap_nth [OF hs] rmap_length [OF hs] by (metis in_set_conv_nth)
  have "batch_state cr s [] \<lparr>ps_chain = s, ps_prev_b = None, ps_recent = recent, ps_diff_ssis = []\<rparr>"
    unfolding batch_state_def using rfrom by (auto simp: from_batch_def intro: exI [of _ "block_records (ch_blocks s)"])
  from pre_steps_state [OF ps this] hex have bs: "batch_state cr s blocks t" by auto
  have "same_but (absent s hashes) s (ps_chain t)" using pre_steps_same [OF ps _ hex] same_but_refl by simp
  from taken_out [OF u this, of True] have su: "same_but {} s u" by simp
  then have ub: "ch_block_store u = ch_block_store s" "height_to_hash_map (ch_blocks u) = height_to_hash_map (ch_blocks s)"
    by (auto simp: same_but_def)
  have F: "\<exists>q. run_batch cr vm now (ch_constants s) (ps_recent t) npcs check_filter c =
      rmap ((\<lambda>q (b, g, d, ssi). batch_pre_validate_block cr vm now (ch_constants s) (if q then rec_blocks (ps_recent t)
         else rec_compressed (ps_recent t)) npcs check_filter b g d ssi) q) c" for c
    unfolding run_batch_def Let_def by (rule exI) (rule refl)
  from chunk_results [OF rm F i [unfolded rs]] obtain q where
    l: "i < length (zip blocks (zip gs (ps_diff_ssis t)))"
    and q: "(\<lambda>(b, g, d, ssi). batch_pre_validate_block cr vm now (ch_constants s) (if q then rec_blocks (ps_recent t)
         else rec_compressed (ps_recent t)) npcs check_filter b g d ssi)
       (zip blocks (zip gs (ps_diff_ssis t)) ! i) = Ok (results ! i)" unfolding rs by blast
  have m: "blocks ! i \<in> set blocks" using l by simp
  obtain d ssi where z: "zip blocks (zip gs (ps_diff_ssis t)) ! i = (blocks ! i, gs ! i, d, ssi)" and ds: "ps_diff_ssis t ! i = (d, ssi)"
    using l by (cases "ps_diff_ssis t ! i") simp
  have il: "i < length blocks" using l by simp
  have ran: "ran (map_of (rev (zip hashes blocks))) \<subseteq> set blocks"
    by (auto simp: ran_def dest!: map_of_SomeD set_zip_rightD)
  have args: "list_all2 (arg_from (known (ch_block_store s) \<union> set blocks)) (fb_transactions_generator_ref_list (blocks ! i))
      (bg_generator_args x)" if "gs ! i = Some x" for x
    using batch_generators_for [OF g _ _ ran il that] rows hts ub by simp
  note a = accepted_in_batch [OF q [unfolded z prod.case] ok npcs [OF m] args]
  have "from_batch cr s blocks (if q then rec_blocks (ps_recent t) else rec_compressed (ps_recent t))"
    "expects cr s blocks i (d, ssi)" using bs il ds unfolding batch_state_def by auto
  with a il show ?thesis by blast
qed

end
