(* ===== verification/Chain_Steps.thy ===== *)
theory Chain_Steps
  imports Pre_Facts
begin

text \<open>
  The node as a transition system: \<open>node_step\<close> has a case for each method of \<^verbatim>\<open>Blockchain\<close> that changes its state, and
  one for a restart; every state a node reaches from an empty database satisfies \<open>node_ok\<close>.
\<close>

section \<open>Reads\<close>

lemma full_block_read:
  "ch_get_full_block s hh = (b, s') \<Longrightarrow> store_rows_ok (ch_block_store s) \<Longrightarrow> store_read s s'"
  by (auto simp: ch_get_full_block_def store_read_def dest: get_full_blockD split: prod.splits)

lemma generator_read:
  assumes "get_block_generator s b a = Ok (g, s')" and "store_rows_ok (ch_block_store s)"
  shows "store_read s s'"
proof -
  from assms(1) obtain r where "find_generator s b a = Ok (r, s')"
    by (auto simp: get_block_generator_def split: sum.splits)
  from find_generator_read [OF this assms(2)] show ?thesis .
qed

lemma full_peak_read:
  assumes "get_full_peak s = Ok (b, s')" and "store_rows_ok (ch_block_store s)"
  shows "store_read s s'"
  using assms store_read_refl [OF assms(2)]
  by (auto simp: get_full_peak_def split: option.splits prod.splits dest: full_block_read)

lemma slot_start_read:
  assumes "slot_start_block s r b = Ok (x, s')" and "store_rows_ok (ch_block_store s)"
  shows "store_read s s'"
  using assms store_read_refl [OF assms(2)]
  by (auto simp: slot_start_block_def split: if_splits prod.splits dest: full_block_read)

lemma sp_slot_read:
  assumes "sp_slot_before cr s cur = Ok (x, s')" and "store_rows_ok (ch_block_store s)"
  shows "store_read s s'"
proof -
  obtain p s1 where p: "ch_get_full_block s (fb_prev_header_hash cur) = (p, s1)"
    by (cases "ch_get_full_block s (fb_prev_header_hash cur)")
  have r1: "store_read s s1" by (rule full_block_read [OF p assms(2)])
  have "store_read s s2" if "slot_start_block s1 r q = Ok (y, s2)" for r q y s2
    by (rule store_read_trans [OF r1 slot_start_read [OF that store_read_rows [OF r1]]])
  with assms(1) p r1 show ?thesis
    by (fastforce simp: sp_slot_before_def split: if_splits)
qed

lemma sub_slots_read:
  assumes "get_sp_and_ip_sub_slots cr s hh = Ok (x, s')" and "store_rows_ok (ch_block_store s)"
  shows "store_read s s'"
proof -
  obtain b s1 where b: "ch_get_full_block s hh = (b, s1)" by (cases "ch_get_full_block s hh")
  note r1 = full_block_read [OF b assms(2)]
  have r2: "store_read s s2" if "slot_start_block s1 r q = Ok (y, s2)" for r q y s2
    by (rule store_read_trans [OF r1 slot_start_read [OF that store_read_rows [OF r1]]])
  have r3: "store_read s s3" if "slot_start_block s1 r q = Ok (y, s2)" "sp_slot_before cr s2 z = Ok (w, s3)" for r q y s2 z w s3
    using r2 [OF that(1)] sp_slot_read [OF that(2)] store_read_rows store_read_trans by blast
  show ?thesis
  proof (cases b)
    case None
    with assms(1) b r1 show ?thesis by (auto simp: get_sp_and_ip_sub_slots_def)
  next
    case (Some block)
    with assms(1) b show ?thesis
      by (auto simp: get_sp_and_ip_sub_slots_def Let_def split: if_splits) (erule r2 | erule (1) r3)+
  qed
qed

text \<open>Blocks of the table enter the cache of the block store.\<close>

lemma take_cached_agrees:
  "take_cached hashes c = (bs, rest, c') \<Longrightarrow> lru.agrees c f \<Longrightarrow> lru.agrees c' f"
proof (induction hashes arbitrary: c bs rest c')
  case (Cons hh hashes)
  obtain x c1 where g: "lru_get c hh = (x, c1)" by (cases "lru_get c hh")
  obtain bs1 rest1 c2 where t: "take_cached hashes c1 = (bs1, rest1, c2)" by (cases "take_cached hashes c1")
  from Cons.IH [OF t lru.agrees_get(1) [OF Cons.prems(2) g]] Cons.prems(1) g t show ?case
    by (cases x) simp_all
qed simp

lemma put_rows_agree:
  assumes "\<And>k row. (k, row) \<in> set rows \<Longrightarrow> f k = Some (fbr_block row)"
  shows "lru.agrees c f \<Longrightarrow> lru.agrees (foldl (\<lambda>c (k, row). lru_put c k (fbr_block row)) c rows) f"
  using assms
proof (induction rows arbitrary: c)
  case (Cons p rows)
  obtain k row where p: "p = (k, row)" by (cases p)
  have k: "f k = Some (fbr_block row)" using Cons.prems(2) [of k row] p by simp
  show ?case unfolding p foldl.simps prod.case
    by (rule Cons.IH [OF lru.agrees_put [OF Cons.prems(1) k]]) (use Cons.prems(2) in simp)
qed simp

lemma cache_read:
  assumes "store_rows_ok (ch_block_store s)" and "lru.agrees c (blocks_of (ch_block_store s))"
  shows "store_read s (s\<lparr>ch_block_store := (ch_block_store s)\<lparr>block_cache := c\<rparr>\<rparr>)"
proof -
  have t: "same_tables (ch_block_store s) ((ch_block_store s)\<lparr>block_cache := c\<rparr>)" by (simp add: same_tables_def)
  have "store_rows_ok ((ch_block_store s)\<lparr>block_cache := c\<rparr>)"
    using assms same_tables_views [OF t] by (simp add: store_rows_ok_def)
  with t show ?thesis unfolding store_read_def by blast
qed

lemma header_blocks_read:
  assumes r: "get_header_blocks_in_range cr s a b f = Ok (d, s')" and rows: "store_rows_ok (ch_block_store s)"
  shows "store_read s s'"
proof -
  let ?st = "ch_block_store s"
  have a0: "lru.agrees (block_cache ?st) (blocks_of ?st)" and d: "distinct (map fst (full_blocks ?st))"
    using rows by (simp_all add: store_rows_ok_def)
  from r obtain hs cached rest c on_disk st where t: "take_cached hs (block_cache ?st) = (cached, rest, c)"
    and g: "get_blocks_by_hash (?st\<lparr>block_cache := c\<rparr>) rest = Ok (on_disk, st)" and s': "s' = s\<lparr>ch_block_store := st\<rparr>"
    by (auto simp: get_header_blocks_in_range_def split: prod.splits)
  have c: "lru.agrees c (blocks_of ?st)" by (rule take_cached_agrees [OF t a0])
  show ?thesis
  proof (cases "rest = []")
    case True
    with g s' cache_read [OF rows c] show ?thesis by (simp add: get_blocks_by_hash_def)
  next
    case False
    let ?rows = "rows_by_key (full_blocks ?st) rest"
    have "st = ?st\<lparr>block_cache := foldl (\<lambda>c (k, row). lru_put c k (fbr_block row)) c ?rows\<rparr>"
      using g False by (auto simp: get_blocks_by_hash_def Let_def)
    moreover have b: "blocks_of ?st k = Some (fbr_block row)" if "(k, row) \<in> set ?rows" for k row
      using that d by (auto simp: rows_by_key_def blocks_of_def)
    ultimately show ?thesis unfolding s' using cache_read [OF rows put_rows_agree [of ?rows, OF b c]] by simp
  qed
qed

section \<open>The records in memory\<close>

lemma warmup_ok:
  assumes "warmup s f = Ok s'" and n: "node_ok cr vm s"
  shows "node_ok cr vm s'"
proof (cases "ch_peak_height s")
  case None
  with assms show ?thesis by (simp add: warmup_def)
next
  case (Some p)
  let ?st = "ch_block_store s"
  let ?rs = "get_block_records_in_range ?st (max (f - BLOCKS_CACHE_SIZE (ch_constants s)) 0) f"
  have rg: "records_of ?st (header_hash b) = Some b" if "(k, b) \<in> set ?rs" for k b
    using that n by (fastforce simp: get_block_records_in_range_def node_ok_def store_rows_ok_def row_ok_def records_of_def
        bs_get_block_record_def)
  obtain hic where
    "foldl (\<lambda>self (k, b). ch_add_block_record b self) s ?rs = s\<lparr>ch_blocks := (ch_blocks s)\<lparr>block_records :=
       (\<lambda>hh. if hh \<in> (header_hash \<circ> snd) ` set ?rs then records_of ?st hh else block_records (ch_blocks s) hh)\<rparr>,
       ch_heights_in_cache := hic\<rparr>"
    by (rule reload_records [of ?rs "records_of ?st" s, THEN exE]) (rule rg, assumption, rule that)
  moreover have "s' = foldl (\<lambda>self (k, b). ch_add_block_record b self) s ?rs"
    using assms(1) Some by (simp add: warmup_def)
  moreover have "(\<lambda>hh. if hh \<in> (header_hash \<circ> snd) ` set ?rs then records_of ?st hh else block_records (ch_blocks s) hh)
      \<subseteq>\<^sub>m records_of ?st"
    using n by (auto simp: node_ok_def map_le_def)
  ultimately show ?thesis using records_change(1) [OF n] by (simp cong: if_cong)
qed

lemma drop_height_ok:
  assumes "drop_height h hs s = Ok s'" and n: "node_ok cr vm s"
  shows "node_ok cr vm s'"
proof -
  have "s' = s\<lparr>ch_blocks := (ch_blocks s)\<lparr>block_records := (\<lambda>hh. if hh \<in> hs then None else block_records (ch_blocks s) hh)\<rparr>,
      ch_heights_in_cache := (ch_heights_in_cache s)(h := None)\<rparr>"
    using assms(1) by (auto simp: drop_height_def split: if_splits)
  moreover have "(\<lambda>hh. if hh \<in> hs then None else block_records (ch_blocks s) hh) \<subseteq>\<^sub>m records_of (ch_block_store s)"
    using n by (auto simp: node_ok_def map_le_def)
  ultimately show ?thesis using records_change(1) [OF n] by blast
qed

lemma clean_loop_ok: "clean_loop h s = Ok s' \<Longrightarrow> node_ok cr vm s \<Longrightarrow> node_ok cr vm s'"
proof (induction h s rule: clean_loop.induct)
  case (1 h s)
  show ?case
  proof (cases "ch_heights_in_cache s (int h)")
    case None
    with 1(2,3) show ?thesis by (simp add: clean_loop.simps)
  next
    case (Some hs)
    with 1(2) obtain t where t: "drop_height (int h) hs s = Ok t" and k: "(if h = 0 then Ok t else clean_loop (h - 1) t) = Ok s'"
      by (auto simp: clean_loop.simps)
    have nt: "node_ok cr vm t" by (rule drop_height_ok [OF t 1(3)])
    show ?thesis
    proof (cases "h = 0")
      case False
      with k have "clean_loop (h - 1) t = Ok s'" by simp
      from 1(1) [OF Some t False this nt] show ?thesis .
    qed (use k nt in simp)
  qed
qed

lemma clean_ok:
  "clean_block_record s h = Ok s' \<Longrightarrow> node_ok cr vm s \<Longrightarrow> node_ok cr vm s'"
  "clean_block_records s = Ok s' \<Longrightarrow> node_ok cr vm s \<Longrightarrow> node_ok cr vm s'"
proof -
  show a: "node_ok cr vm s'" if "clean_block_record s h = Ok s'" "node_ok cr vm s" for h
    using that by (auto simp: clean_block_record_def split: if_splits intro: clean_loop_ok)
  show "node_ok cr vm s'" if "clean_block_records s = Ok s'" "node_ok cr vm s"
    using that a by (auto simp: clean_block_records_def split: if_splits)
qed

section \<open>Unfinished blocks\<close>

lemma unfinished_conditions_read:
  assumes "unfinished_conditions cr vm s block = Ok (r, s')" and "store_rows_ok (ch_block_store s)"
  shows "store_read s s'"
proof (cases "ub_transactions_generator block")
  case None
  with assms(1) store_read_refl [OF assms(2)] show ?thesis by (simp add: unfinished_conditions_def)
next
  case (Some g)
  with assms(1) obtain x s1 where "find_generator s (body_of_unfinished block) Map.empty = Ok (x, s1)" "s' = s1"
    by (auto simp: unfinished_conditions_def Let_def split: sum.splits option.splits)
  with find_generator_read [OF _ assms(2)] show ?thesis by simp
qed

lemma unfinished_body_same:
  assumes "unfinished_body cr vm s block ri h npc = Ok (r, s')" and n: "node_ok cr vm s"
  shows "same_chain cr s s'"
proof -
  have i: "implements cr (ch_coin_store s) (ledger_of (ch_coin_store s))" using n by (simp add: implements_def node_ok_def)
  from assms(1) obtain peak hh v where
    v: "validate_block_body cr vm (ch_constants s) (ch_blocks s) (\<lambda>h. fst (get_full_block (ch_block_store s) h)) (ch_coin_store s)
        peak (body_of_unfinished block) hh npc None
        (\<lambda>b. rbind (get_block_generator s (body_of_full b) Map.empty) (\<lambda>(g, s). Ok g)) = Ok v"
    and k: "(case v of Inl e \<Rightarrow> rbind (pre_error e) (\<lambda>r. Ok (r, s))
       | Inr (cost_result, coin_store) \<Rightarrow>
           Ok (\<lparr>pvr_error = None, pvr_required_iters = Some ri, pvr_npc_result = cost_result\<rparr>,
               s\<lparr>ch_coin_store := coin_store\<rparr>)) = Ok (r, s')"
    unfolding unfinished_body_def by (elim rbind_OkE)
  show ?thesis
  proof (cases v)
    case (Inl e)
    with k same_chain_refl [OF n] show ?thesis by auto
  next
    case (Inr p)
    obtain x cs where p: "v = Inr (x, cs)" using Inr by (cases p) simp
    from same_chain_coins [OF n body_keeps_coins [OF v [unfolded p] i]] k p show ?thesis by auto
  qed
qed

lemma validate_unfinished_same:
  assumes v: "validate_unfinished_block cr vm now s block skip = Ok (r, s')" and n: "node_ok cr vm s"
  shows "same_chain cr s s'"
proof -
  note same = same_chain_refl [OF n]
  have rows: "store_rows_ok (ch_block_store s)" using n by (simp add: node_ok_def)
  have c: "same_chain cr s s1" if "unfinished_conditions cr vm s block = Ok (q, s1)" for q s1
    by (rule store_read_same_chain [OF n unfinished_conditions_read [OF that rows]])
  have b: "same_chain cr s s2" if "unfinished_conditions cr vm s block = Ok (q, s1)"
    "unfinished_body cr vm s1 block ri h npc = Ok (w, s2)" for q s1 ri h npc w s2
    by (rule same_chain_trans [OF c [OF that(1)] unfinished_body_same [OF that(2) same_chain_ok [OF n c [OF that(1)]]]])
  from v same show ?thesis
    unfolding validate_unfinished_block_def Let_def
    by (auto split: if_splits sum.splits) (erule c | erule (1) b)+
qed

section \<open>The transition system\<close>

inductive node_step :: "crypto \<Rightarrow> 's clvm \<Rightarrow> Blockchain \<Rightarrow> Blockchain \<Rightarrow> bool" for cr vm where
  receive: "receive_block cr vm now s block pre fp = Ok (r, s') \<Longrightarrow>
     pre_ok cr vm (ch_constants s) (known (ch_block_store s)) block pre \<Longrightarrow> block_is_new cr s block \<Longrightarrow> fork_given s block fp \<Longrightarrow> node_step cr vm s s'"
| unfinished: "validate_unfinished_block cr vm now s ub skip = Ok (u, s') \<Longrightarrow> node_step cr vm s s'"
| full_block: "ch_get_full_block s hh = (b, s') \<Longrightarrow> node_step cr vm s s'"
| full_peak: "get_full_peak s = Ok (b, s') \<Longrightarrow> node_step cr vm s s'"
| generator: "get_block_generator s body additional = Ok (g, s') \<Longrightarrow> node_step cr vm s s'"
| sub_slots: "get_sp_and_ip_sub_slots cr s hh = Ok (x, s') \<Longrightarrow> node_step cr vm s s'"
| header_blocks: "get_header_blocks_in_range cr s start stop tx_filter = Ok (d, s') \<Longrightarrow> node_step cr vm s s'"
| compact_proof: "seen_compact_proofs s vdf h = (seen, s') \<Longrightarrow> node_step cr vm s s'"
| prevalidate: "pre_validate_blocks_multiprocessing cr vm now s blocks check_filter npcs batch wps = Ok (results, s') \<Longrightarrow>
     wps = None \<or> results \<noteq> None \<Longrightarrow> node_step cr vm s s'"
| warm: "warmup s f = Ok s' \<Longrightarrow> node_step cr vm s s'"
| clean_height: "clean_block_record s h = Ok s' \<Longrightarrow> node_step cr vm s s'"
| clean: "clean_block_records s = Ok s' \<Longrightarrow> node_step cr vm s s'"
| restart: "0 \<le> n \<Longrightarrow> create_blockchain (reopen_coins n (ch_coin_store s)) (reopen_blocks (ch_block_store s))
     (ch_constants s) = Ok s' \<Longrightarrow> 0 \<le> BLOCKS_CACHE_SIZE (ch_constants s) \<Longrightarrow> node_step cr vm s s'"

inductive node_reach :: "crypto \<Rightarrow> 's clvm \<Rightarrow> ConsensusConstants \<Rightarrow> Blockchain \<Rightarrow> bool" for cr vm c where
  start: "0 \<le> n \<Longrightarrow> create_blockchain (create_store n) create_block_store c = Ok s \<Longrightarrow> node_reach cr vm c s"
| step: "node_reach cr vm c s \<Longrightarrow> node_step cr vm s s' \<Longrightarrow> node_reach cr vm c s'"

lemma reopened:
  assumes "node_ok cr vm s" and "0 \<le> n"
  shows "same_chain cr s (s\<lparr>ch_coin_store := reopen_coins n (ch_coin_store s), ch_block_store := reopen_blocks (ch_block_store s)\<rparr>)"
  using assms reopen_blocks_ok [of "ch_block_store s"] reopen_coins_ok [of cr "ch_coin_store s" n]
  unfolding same_chain_def node_ok_def by blast

lemma restart_ok:
  assumes "node_ok cr vm s" and "0 \<le> n" and "0 \<le> BLOCKS_CACHE_SIZE (ch_constants s)"
  shows "\<exists>s'. create_blockchain (reopen_coins n (ch_coin_store s)) (reopen_blocks (ch_block_store s)) (ch_constants s) = Ok s' \<and>
     node_ok cr vm s' \<and> ch_peak_height s' = ch_peak_height s \<and> (\<forall>bs es. main_chain cr vm s bs es \<longrightarrow> main_chain cr vm s' bs es)"
  using create_blockchain_ok [OF assms(1) reopened [OF assms(1,2)] assms(3)] by simp

lemma node_step_ok:
  assumes "node_step cr vm s s'" and n: "node_ok cr vm s"
  shows "node_ok cr vm s'"
  using assms(1)
proof cases
  case (receive now block pre fp r)
  obtain res e f where "r = (res, e, f)" by (cases r)
  with receive receive_block_ok n show ?thesis by blast
next
  case (unfinished now ub skip u)
  show ?thesis by (rule same_chain_ok [OF n validate_unfinished_same [OF unfinished n]])
next
  case (compact_proof vdf h seen)
  then have "s' = s \<or> (\<exists>x. s' = s\<lparr>ch_seen_compact_proofs := x\<rparr>)"
    by (auto simp: seen_compact_proofs_def Let_def split: if_splits)
  moreover have "node_ok cr vm (s\<lparr>ch_seen_compact_proofs := x\<rparr>)" for x
    using n by (cases "ch_peak_height s") (auto simp: node_ok_def main_chain_def chain_in_def)
  ultimately show ?thesis using n by auto
next
  case (restart k)
  with restart_ok [OF n] show ?thesis by fastforce
next
  case (prevalidate now blocks check_filter npcs batch wps results)
  from pre_validate_same [OF prevalidate(1) n prevalidate(2)] show ?thesis by blast
next
  case (warm f)
  then show ?thesis using warmup_ok n by blast
next
  case (clean_height h)
  then show ?thesis using clean_ok(1) n by blast
next
  case clean
  then show ?thesis using clean_ok(2) n by blast
qed (use n full_block_read full_peak_read generator_read sub_slots_read header_blocks_read store_read_same_chain same_chain_ok
       node_ok_def in metis)+

lemma empty_node_ok:
  assumes "0 \<le> n" and "create_blockchain (create_store n) create_block_store c = Ok s"
  shows "node_ok cr vm s" "ch_constants s = c" "ch_peak_height s = None"
proof -
  have em: "records_of create_block_store = Map.empty" "blocks_of create_block_store = Map.empty"
    by (simp_all add: records_of_def blocks_of_def bs_get_block_record_def create_block_store_def fun_eq_iff)
  note no = no_peak_row [OF em(1)]
  from assms(2) have s: "s = \<lparr>ch_constants = c, ch_peak_height = None, ch_blocks = init_BlockCache Map.empty Map.empty Map.empty [],
     ch_heights_in_cache = Map.empty, ch_coin_store = create_store n, ch_block_store = create_block_store,
     ch_seen_compact_proofs = {}\<rparr>"
    by (simp add: create_blockchain_def load_chain_from_store_def no Let_def)
  show "ch_constants s = c" "ch_peak_height s = None" by (simp_all add: s)
  have "chain_ok (store_view create_block_store)" by (simp add: chain_ok_def heights_ok_def em)
  moreover have "store_rows_ok create_block_store"
    by (simp add: store_rows_ok_def em lru.agrees_def lru_ok_def lru_entries_def) (simp add: create_block_store_def)
  ultimately show "node_ok cr vm s"
    using create_store_implements [of cr n]
    by (simp add: node_ok_def s implements_def em runs_ok_def) (simp add: init_BlockCache_def)
qed

lemma node_reach_ok: "node_reach cr vm c s \<Longrightarrow> node_ok cr vm s"
  by (induction rule: node_reach.induct) (auto intro: empty_node_ok node_step_ok)

end
