(* ===== verification/Sample_Node.thy ===== *)
theory Sample_Node
  imports Sample_Body Chain_Steps
begin

text \<open>
  A node that starts on an empty database and receives the genesis block of \<open>Sample_Chain\<close> with its
  transactions: the header and the body are validated, and the block becomes the peak.
\<close>

definition node0 :: Blockchain where
  "node0 = \<lparr>ch_constants = DEFAULT_CONSTANTS, ch_peak_height = None, ch_blocks = empty_cache, ch_heights_in_cache = Map.empty,
     ch_coin_store = create_store 10, ch_block_store = create_block_store, ch_seen_compact_proofs = {}\<rparr>"

lemma node0_starts: "create_blockchain (create_store 10) create_block_store DEFAULT_CONSTANTS = Ok node0"
proof -
  have "records_of create_block_store = Map.empty"
    by (simp add: records_of_def bs_get_block_record_def create_block_store_def fun_eq_iff)
  from no_peak_row [OF this] show ?thesis
    by (simp add: create_blockchain_def load_chain_from_store_def Let_def node0_def empty_cache_def)
qed

lemma node0_reached: "node_reach cr vm DEFAULT_CONSTANTS node0"
  by (rule node_reach.start [OF _ node0_starts]) simp

definition node_genesis :: FullBlock where
  "node_genesis = genesis_full\<lparr>fb_foliage_transaction_block := hb_foliage_transaction_block genesis_b,
     fb_transactions_info := Some genesis_ti\<rparr>"

lemma node_genesis_hash: "fb_header_hash toy node_genesis = Ok (replicate 32 1)"
  using genesis_hashes by (simp add: fb_header_hash_def node_genesis_def genesis_full_def genesis_b_def)

lemma node_genesis_header: "get_block_header toy node_genesis [] [] = Ok genesis_b" "full_header node_genesis = genesis_b"
proof -
  have "bip158_encoded toy [] = []" by (simp add: toy_def)
  then show "get_block_header toy node_genesis [] [] = Ok genesis_b" "full_header node_genesis = genesis_b"
    by (simp_all add: get_block_header_def get_included_reward_coins_def node_genesis_def genesis_full_def genesis_b_def
        fb_is_transaction_block_def genesis_ti_def full_header_def)
qed

definition genesis_ftb :: FoliageTransactionBlock where
  "genesis_ftb = the (hb_foliage_transaction_block genesis_b)"

lemma genesis_ti_hash: "TransactionsInfo_hash toy genesis_ti = Ok (replicate 32 2)"
  by (simp add: TransactionsInfo_hash_def genesis_ti_def get_hash_def rbind_assoc)

lemma genesis_body_fields:
  "bb_own_height (body_of_full node_genesis) = Some 0" "bb_foliage_transaction_block (body_of_full node_genesis) = Some genesis_ftb"
  "bb_transactions_info (body_of_full node_genesis) = Some genesis_ti"
  "bb_transactions_generator (body_of_full node_genesis) = None"
  "bb_transactions_generator_ref_list (body_of_full node_genesis) = []"
  "foliage_transaction_block_hash (bb_foliage (body_of_full node_genesis)) = Some (replicate 32 1)"
  "transactions_info_hash genesis_ftb = replicate 32 2" "ftb_timestamp genesis_ftb = 1000"
  "filter_hash genesis_ftb = replicate 32 2" "additions_root genesis_ftb = replicate 32 0"
  "removals_root genesis_ftb = replicate 32 0"
  by (simp_all add: body_of_full_def node_genesis_def genesis_full_def genesis_b_def genesis_ftb_def fb_height_def)

lemma no_coins_roots: "validate_block_merkle_roots toy (replicate 32 0) (replicate 32 0) (Some []) (Some []) = Ok None"
  by (simp add: validate_block_merkle_roots_def removal_merkle_set_def addition_merkle_set_def puzzlehash_coins_map_def
      get_root_def compress_root_def BLANK_def)

lemma node_genesis_body:
  "validate_block_body toy toy_vm DEFAULT_CONSTANTS empty_cache gf cs None (body_of_full node_genesis) 0 None None gg
   = Valid (None, cs)"
proof -
  have f: "FoliageTransactionBlock_hash toy genesis_ftb = Ok (replicate 32 1)"
    using genesis_hashes(4) by (simp add: genesis_ftb_def)
  let ?sp = "\<lparr>bs_cost = 0, bs_npcs = [], bs_additions = [], bs_coin_names = {}, bs_puzzle_names = {}\<rparr>"
  have sp: "body_spends toy DEFAULT_CONSTANTS (body_of_full node_genesis) None = Valid ?sp"
    by (simp add: body_spends_def genesis_body_fields)
  have r: "expected_reward_coins DEFAULT_CONSTANTS empty_cache genesis_ftb 0 = Ok (0, [])"
    by (simp add: expected_reward_coins_def)
  have claims: "check_reward_claims DEFAULT_CONSTANTS genesis_ftb genesis_ti [] = Valid ()"
    by (simp add: check_reward_claims_def genesis_body_fields genesis_ti_def)
  have root: "check_generator_root toy DEFAULT_CONSTANTS (body_of_full node_genesis) genesis_ti 0 = Valid ()"
    by (simp add: check_generator_root_def genesis_body_fields genesis_ti_def)
  have bip: "bip158_encoded toy [] = []" by (simp add: toy_def)
  have ar: "check_additions_removals toy DEFAULT_CONSTANTS genesis_ftb genesis_ti [] ?sp = Valid []"
    by (simp add: check_additions_removals_def genesis_body_fields genesis_ti_def no_coins_roots bs_removals_def bip)
  have fh: "fork_height empty_cache None (body_of_full node_genesis) 0 None = Ok (- 1)" by (simp add: fork_height_def)
  have fc: "coins_since_fork toy toy_vm DEFAULT_CONSTANTS gf gg (body_of_full node_genesis) 0 (- 1)
      = Ok \<lparr>fc_additions = [], fc_removals = {}\<rparr>" by (simp add: coins_since_fork_def)
  have am: "check_amounts toy DEFAULT_CONSTANTS genesis_ti 0 ?sp [] = Valid ()"
    by (simp add: check_amounts_def reserve_fees_def farmer_reward_eq reward_unit_def blocks_per_year_def genesis_ti_def)
  have ag: "aggregate_verify toy ps ms sg" for ps ms sg by (simp add: toy_def)
  show ?thesis
    by (simp add: validate_block_body_def genesis_body_fields genesis_ti_hash f r claims root sp ar fh fc am
        check_puzzle_hashes_def bs_removals_def ag)
qed

section \<open>The genesis block is received\<close>

lemma node0_simps [simp]:
  "ch_constants node0 = DEFAULT_CONSTANTS" "ch_peak_height node0 = None" "ch_blocks node0 = empty_cache"
  "ch_coin_store node0 = create_store 10" "ch_block_store node0 = create_block_store"
  by (simp_all add: node0_def)

lemma empty_cache_simps [simp]: "block_records empty_cache = Map.empty" "contains_block empty_cache hh \<longleftrightarrow> False"
  by (simp_all add: empty_cache_def init_BlockCache_def contains_block_def)

lemma node_genesis_fields:
  "fb_height node_genesis = 0" "fb_prev_header_hash node_genesis = G" "fb_transactions_generator node_genesis = None"
  "fb_finished_sub_slots node_genesis = []" "fb_foliage_transaction_block node_genesis = Some genesis_ftb"
  "fb_transactions_info node_genesis = Some genesis_ti" "fb_is_transaction_block node_genesis"
  by (simp_all add: node_genesis_def genesis_full_def genesis_b_def fb_height_def fb_prev_header_hash_def genesis_ftb_def
      fb_is_transaction_block_def)

lemma node_genesis_valid: "receive_header toy toy_vm 1000 node0 node_genesis = Ok (Inr (1, None), node0)"
  by (simp add: receive_header_def node_genesis_fields get_next_sub_slot_iters_and_difficulty_def
      tx_removals_and_additions_def node_genesis_header genesis_accepted)

lemma node_genesis_coins: "new_block toy (create_store 10) node_genesis [] [] = Ok (create_store 10)"
  by (simp add: new_block_def node_genesis_fields get_included_reward_coins_def genesis_ti_def)

lemma genesis_becomes_peak:
  "\<exists>s. receive_block toy toy_vm 1000 node0 node_genesis None None = Ok ((NEW_PEAK, None, Some 0), s) \<and>
     ch_peak_height s = Some 0 \<and> ch_constants s = DEFAULT_CONSTANTS"
proof -
  have rec: "block_to_block_record toy DEFAULT_CONSTANTS empty_cache 1 (Some (full_header node_genesis)) None = Ok genesis_r"
    using genesis_record by (simp add: node_genesis_header)
  let ?st = "add_full_block create_block_store (replicate 32 1) node_genesis genesis_r"
  obtain b st where g: "get_full_block ?st (replicate 32 1) = (b, st)" by (cases "get_full_block ?st (replicate 32 1)")
  have "node_ok toy toy_vm node0" by (rule empty_node_ok(1) [OF _ node0_starts]) simp
  then have "store_rows_ok create_block_store" by (simp add: node_ok_def)
  moreover have "records_of create_block_store (replicate 32 1) = None"
    by (simp add: records_of_def bs_get_block_record_def create_block_store_def)
  ultimately have "store_rows_ok ?st"
    using record_of_full(1,2) [OF rec node_genesis_hash] by (intro add_full_block_ok) simp_all
  from get_full_blockD(1) [OF this g] have "b = Some node_genesis" by (simp add: add_full_block_views)
  with g show ?thesis
    by (simp add: receive_block_def known_header_def receive_body_def node_genesis_hash node_genesis_fields node_genesis_valid
        get_peak_def node_genesis_body add_valid_block_def rec reconsider_peak_def ch_get_full_block_def
        tx_removals_and_additions_def node_genesis_coins ch_add_block_record_def Let_def)
qed

lemma genesis_hypotheses:
  "pre_ok toy toy_vm (ch_constants node0) (known (ch_block_store node0)) node_genesis None" "block_is_new toy node0 node_genesis"
  "fork_given node0 node_genesis None"
proof -
  have "records_of create_block_store = Map.empty"
    by (simp add: records_of_def bs_get_block_record_def create_block_store_def fun_eq_iff)
  then show "pre_ok toy toy_vm (ch_constants node0) (known (ch_block_store node0)) node_genesis None" "block_is_new toy node0 node_genesis"
    "fork_given node0 node_genesis None"
    by (simp_all add: pre_ok_def block_is_new_def new_hash_def node_genesis_hash fork_given_def)
qed

lemma genesis_node: "\<exists>s. node_reach toy toy_vm DEFAULT_CONSTANTS s \<and> ch_peak_height s = Some 0 \<and> ch_constants s = DEFAULT_CONSTANTS"
proof -
  from genesis_becomes_peak obtain s where
    s: "receive_block toy toy_vm 1000 node0 node_genesis None None = Ok ((NEW_PEAK, None, Some 0), s)" "ch_peak_height s = Some 0"
      "ch_constants s = DEFAULT_CONSTANTS"
    by blast
  have "node_reach toy toy_vm DEFAULT_CONSTANTS s"
    by (rule node_reach.step [OF node0_reached node_step.receive [OF s(1) genesis_hypotheses]])
  with s(2,3) show ?thesis by blast
qed

section \<open>The genesis block in a batch\<close>

lemma genesis_iterations: "block_iterations toy DEFAULT_CONSTANTS Map.empty True 1 node_genesis = Ok (Some 1)"
  using plot_hashes
  by (simp add: block_iterations_def node_genesis_fields get_block_challenge_def toy_validation_defs)
     (simp add: node_genesis_def genesis_full_def genesis_b_def plot_def)

definition genesis_verdict :: PreValidationResult where
  "genesis_verdict = \<lparr>pvr_error = None, pvr_required_iters = Some 1, pvr_npc_result = None\<rparr>"

lemma genesis_batch:
  "\<exists>s. pre_validate_blocks_multiprocessing toy toy_vm 1000 node0 [node_genesis] True (\<lambda>_. None) 4 None
     = Ok (Some [genesis_verdict], s)"
proof -
  let ?none = "\<lparr>rec_sub_slots_found = 0, rec_blocks_seen = 0, rec_blocks = Map.empty, rec_compressed = Map.empty\<rparr>"
  let ?s1 = "ch_add_block_record genesis_r node0" and ?rec = "add_recent genesis_r ?none"
  have rec: "block_to_block_record toy DEFAULT_CONSTANTS empty_cache 1 (Some (full_header node_genesis)) None = Ok genesis_r"
    using genesis_record by (simp add: node_genesis_header)
  have v: "batch_pre_validate_block toy toy_vm 1000 DEFAULT_CONSTANTS (rec_compressed ?rec) (\<lambda>_. None) True node_genesis None 1
      134217728 = Ok genesis_verdict"
    by (simp add: batch_pre_validate_block_def batch_block_result_def node_genesis_fields tx_removals_and_additions_def
        node_genesis_header genesis_valid genesis_verdict_def add_recent_def init_BlockCache_def)
  have ch: "chunks 4 [x] = [[x]]" for x :: "FullBlock \<times> BlockGenerator option \<times> int \<times> int"
    by (simp add: chunks.simps)
  have step: "pre_step toy [(replicate 32 1, False)] None node_genesis
      \<lparr>ps_chain = node0, ps_prev_b = None, ps_recent = ?none, ps_diff_ssis = []\<rparr>
    = Ok (Inr \<lparr>ps_chain = ?s1, ps_prev_b = Some genesis_r, ps_recent = ?rec, ps_diff_ssis = [(1, 134217728)]\<rparr>)"
    by (simp add: pre_step_def node_genesis_fields get_next_sub_slot_iters_and_difficulty_def genesis_iterations rec
        summary_mismatch_def)
  obtain s2 where s2: "ch_remove_block_record (replicate 32 1) ?s1 = Ok s2"
    by (simp add: ch_remove_block_record_def ch_add_block_record_def add_block_record_def remove_block_record_def
        contains_block_def node0_def)
  have anc: "batch_ancestors toy [replicate 32 1 \<mapsto> node_genesis] node_genesis Map.empty = Ok Map.empty"
    by (simp add: batch_ancestors.simps node_genesis_fields)
  have gen: "find_generator s2 (body_of_full node_genesis) Map.empty = Ok (Inr None, s2)"
    by (simp add: find_generator_def genesis_body_fields)
  show ?thesis
    by (simp add: pre_validate_blocks_multiprocessing_def py_nth_def Let_def node_genesis_fields node_genesis_hash step s2 anc
        gen ch run_batch_def v)
qed

end
