(* ===== verification/Full_Node_Store.thy ===== *)
theory Full_Node_Store
  imports Blockchain Py_Float
begin

text \<open>
  \<^verbatim>\<open>full_node/full_node_store.py\<close>: what a full node keeps of the chain's tip beside \<^verbatim>\<open>Blockchain\<close>: candidate
  and unfinished blocks, the finished sub-slots from the one of the peak onwards with the signage points
  received for each, and caches of slot ends, signage points and infusion points that refer to a
  block not received yet.

  A dictionary whose order is never seen is a map, \<^verbatim>\<open>unfinished_blocks\<close>, which is returned whole, an association list.
  \<^verbatim>\<open>time.time()\<close> is the parameter \<open>now\<close>. The attributes that only other modules read and write (transaction
  requests, the serialized weight proof, the previous generator) are left out.
\<close>

section \<open>The state\<close>

record SignagePoint =
  sp_cc_vdf :: "VDFInfo option"
  sp_cc_proof :: "VDFProof option"
  sp_rc_vdf :: "VDFInfo option"
  sp_rc_proof :: "VDFProof option"

record NewInfusionPointVDF =
  nip_unfinished_reward_hash :: bytes
  nip_challenge_chain_ip_vdf :: VDFInfo
  nip_challenge_chain_ip_proof :: VDFProof
  nip_reward_chain_ip_vdf :: VDFInfo
  nip_reward_chain_ip_proof :: VDFProof
  nip_infused_challenge_chain_ip_vdf :: "VDFInfo option"
  nip_infused_challenge_chain_ip_proof :: "VDFProof option"

type_synonym SlotEntry = "EndOfSubSlotBundle option \<times> SignagePoint option list \<times> int"

record FullNodeStore =
  fns_constants :: ConsensusConstants
  candidate_blocks :: "bytes \<Rightarrow> (int \<times> UnfinishedBlock) option"
  candidate_backup_blocks :: "bytes \<Rightarrow> (int \<times> UnfinishedBlock) option"
  seen_unfinished_blocks :: "bytes set"
  unfinished_blocks :: "(bytes \<times> int \<times> UnfinishedBlock \<times> PreValidationResult) list"
  finished_sub_slots :: "SlotEntry list"
  future_eos_cache :: "bytes \<Rightarrow> EndOfSubSlotBundle list option"
  future_sp_cache :: "bytes \<Rightarrow> (int \<times> SignagePoint) list option"
  future_ip_cache :: "bytes \<Rightarrow> NewInfusionPointVDF list option"
  future_cache_key_times :: "bytes \<Rightarrow> int option"
  recent_signage_points :: "(bytes, SignagePoint \<times> rat) LRUCache"
  recent_eos :: "(bytes, EndOfSubSlotBundle \<times> rat) LRUCache"

definition no_sps :: "ConsensusConstants \<Rightarrow> SignagePoint option list" where
  "no_sps c = replicate (nat (NUM_SPS_SUB_SLOT c)) None"

definition clear_slots :: "FullNodeStore \<Rightarrow> FullNodeStore" where
  "clear_slots self = self\<lparr>finished_sub_slots := []\<rparr>"

definition initialize_genesis_sub_slot :: "FullNodeStore \<Rightarrow> FullNodeStore" where
  "initialize_genesis_sub_slot self =
     (clear_slots self)\<lparr>finished_sub_slots := [(None, no_sps (fns_constants self), 0)]\<rparr>"

definition new_full_node_store :: "ConsensusConstants \<Rightarrow> FullNodeStore" where
  "new_full_node_store c =
     initialize_genesis_sub_slot
       \<lparr>fns_constants = c, candidate_blocks = Map.empty, candidate_backup_blocks = Map.empty,
        seen_unfinished_blocks = {}, unfinished_blocks = [], finished_sub_slots = [],
        future_eos_cache = Map.empty, future_sp_cache = Map.empty, future_ip_cache = Map.empty,
        future_cache_key_times = Map.empty,
        recent_signage_points = \<lparr>lru_cache = [], lru_capacity = 500\<rparr>,
        recent_eos = \<lparr>lru_cache = [], lru_capacity = 50\<rparr>\<rparr>"

section \<open>Candidates and unfinished blocks\<close>

definition add_candidate_block :: "FullNodeStore \<Rightarrow> bytes \<Rightarrow> int \<Rightarrow> UnfinishedBlock \<Rightarrow> bool \<Rightarrow> FullNodeStore" where
  "add_candidate_block self quality h block backup =
     (if backup then self\<lparr>candidate_backup_blocks := (candidate_backup_blocks self)(quality \<mapsto> (h, block))\<rparr>
      else self\<lparr>candidate_blocks := (candidate_blocks self)(quality \<mapsto> (h, block))\<rparr>)"

definition get_candidate_block :: "FullNodeStore \<Rightarrow> bytes \<Rightarrow> bool \<Rightarrow> (int \<times> UnfinishedBlock) option" where
  "get_candidate_block self quality backup =
     (if backup then candidate_backup_blocks self quality else candidate_blocks self quality)"

definition drop_below :: "int \<Rightarrow> (bytes \<Rightarrow> (int \<times> 'b) option) \<Rightarrow> bytes \<Rightarrow> (int \<times> 'b) option" where
  "drop_below h d k = (case d k of Some v \<Rightarrow> if fst v < h then None else Some v | None \<Rightarrow> None)"

definition clear_candidate_blocks_below :: "FullNodeStore \<Rightarrow> int \<Rightarrow> FullNodeStore" where
  "clear_candidate_blocks_below self h =
     self\<lparr>candidate_blocks := drop_below h (candidate_blocks self),
          candidate_backup_blocks := drop_below h (candidate_backup_blocks self)\<rparr>"

definition seen_unfinished_block :: "FullNodeStore \<Rightarrow> bytes \<Rightarrow> bool \<times> FullNodeStore" where
  "seen_unfinished_block self h =
     (if h \<in> seen_unfinished_blocks self then (True, self)
      else (False, self\<lparr>seen_unfinished_blocks := insert h (seen_unfinished_blocks self)\<rparr>))"

definition clear_seen_unfinished_blocks :: "FullNodeStore \<Rightarrow> FullNodeStore" where
  "clear_seen_unfinished_blocks self = self\<lparr>seen_unfinished_blocks := {}\<rparr>"

definition add_unfinished_block ::
    "crypto \<Rightarrow> FullNodeStore \<Rightarrow> int \<Rightarrow> UnfinishedBlock \<Rightarrow> PreValidationResult \<Rightarrow> FullNodeStore res" where
  "add_unfinished_block cr self h block result =
     rbind (RewardChainBlockUnfinished_hash cr (ub_reward_chain_block block)) (\<lambda>partial_hash.
       Ok (self\<lparr>unfinished_blocks := AList.update partial_hash (h, block, result) (unfinished_blocks self)\<rparr>))"

definition get_unfinished_block :: "FullNodeStore \<Rightarrow> bytes \<Rightarrow> UnfinishedBlock option" where
  "get_unfinished_block self h = map_option (\<lambda>(_, b, _). b) (map_of (unfinished_blocks self) h)"

definition get_unfinished_block_result :: "FullNodeStore \<Rightarrow> bytes \<Rightarrow> PreValidationResult option" where
  "get_unfinished_block_result self h = map_option (\<lambda>(_, _, r). r) (map_of (unfinished_blocks self) h)"

definition clear_unfinished_blocks_below :: "FullNodeStore \<Rightarrow> int \<Rightarrow> FullNodeStore" where
  "clear_unfinished_blocks_below self h =
     self\<lparr>unfinished_blocks := filter (\<lambda>(_, unf_height, _). \<not> unf_height < h) (unfinished_blocks self)\<rparr>"

definition remove_unfinished_block :: "FullNodeStore \<Rightarrow> bytes \<Rightarrow> FullNodeStore" where
  "remove_unfinished_block self h = self\<lparr>unfinished_blocks := AList.delete h (unfinished_blocks self)\<rparr>"

section \<open>The caches of the future\<close>

text \<open>\<^verbatim>\<open>if k not in d: d[k] = []\<close>, then \<^verbatim>\<open>d[k].append(x)\<close>.\<close>

definition append_to :: "'k \<Rightarrow> 'v \<Rightarrow> ('k \<Rightarrow> 'v list option) \<Rightarrow> 'k \<Rightarrow> 'v list option" where
  "append_to k x d = d(k \<mapsto> (case d k of None \<Rightarrow> [] | Some xs \<Rightarrow> xs) @ [x])"

definition add_to_future_ip :: "FullNodeStore \<Rightarrow> NewInfusionPointVDF \<Rightarrow> FullNodeStore" where
  "add_to_future_ip self ip =
     self\<lparr>future_ip_cache := append_to (vdf_challenge (nip_reward_chain_ip_vdf ip)) ip (future_ip_cache self)\<rparr>"

definition in_future_sp_cache :: "FullNodeStore \<Rightarrow> SignagePoint \<Rightarrow> int \<Rightarrow> bool" where
  "in_future_sp_cache self sp index =
     (case sp_rc_vdf sp of None \<Rightarrow> False
      | Some v \<Rightarrow>
          (case future_sp_cache self (vdf_challenge v) of None \<Rightarrow> False
           | Some xs \<Rightarrow> \<exists>(i, sp')\<in>set xs. i = index \<and> sp_rc_vdf sp' = sp_rc_vdf sp))"

definition add_to_future_sp :: "rat \<Rightarrow> FullNodeStore \<Rightarrow> SignagePoint \<Rightarrow> int \<Rightarrow> FullNodeStore" where
  "add_to_future_sp now self sp index =
     (if sp_cc_vdf sp = None \<or> sp_cc_proof sp = None \<or> sp_rc_proof sp = None then self
      else case sp_rc_vdf sp of None \<Rightarrow> self
      | Some v \<Rightarrow>
          (let k = vdf_challenge v;
               self = (if future_sp_cache self k = None then self\<lparr>future_sp_cache := (future_sp_cache self)(k \<mapsto> [])\<rparr>
                       else self) in
           if in_future_sp_cache self sp index then self
           else self\<lparr>future_cache_key_times := (future_cache_key_times self)(k \<mapsto> \<lfloor>now\<rfloor>),
                     future_sp_cache := append_to k (index, sp) (future_sp_cache self)\<rparr>))"

definition get_future_ip :: "FullNodeStore \<Rightarrow> bytes \<Rightarrow> NewInfusionPointVDF list" where
  "get_future_ip self h = (case future_ip_cache self h of None \<Rightarrow> [] | Some xs \<Rightarrow> xs)"

definition clear_old_cache_entries :: "rat \<Rightarrow> FullNodeStore \<Rightarrow> FullNodeStore" where
  "clear_old_cache_entries now self =
     (let old = (\<lambda>k. case future_cache_key_times self k of None \<Rightarrow> False | Some t \<Rightarrow> \<lfloor>now\<rfloor> - t > 3600) in
      self\<lparr>future_cache_key_times := (\<lambda>k. if old k then None else future_cache_key_times self k),
           future_ip_cache := (\<lambda>k. if old k then None else future_ip_cache self k),
           future_eos_cache := (\<lambda>k. if old k then None else future_eos_cache self k),
           future_sp_cache := (\<lambda>k. if old k then None else future_sp_cache self k)\<rparr>)"

section \<open>Finished sub-slots\<close>

definition slot_cc_hash :: "crypto \<Rightarrow> ConsensusConstants \<Rightarrow> EndOfSubSlotBundle option \<Rightarrow> bytes res" where
  "slot_cc_hash cr c slot =
     (case slot of None \<Rightarrow> Ok (GENESIS_CHALLENGE c) | Some s \<Rightarrow> ChallengeChainSubSlot_hash cr (challenge_chain s))"

definition slot_rc_hash :: "crypto \<Rightarrow> ConsensusConstants \<Rightarrow> EndOfSubSlotBundle option \<Rightarrow> bytes res" where
  "slot_rc_hash cr c slot =
     (case slot of None \<Rightarrow> Ok (GENESIS_CHALLENGE c) | Some s \<Rightarrow> RewardChainSubSlot_hash cr (reward_chain s))"

fun find_slot ::
    "crypto \<Rightarrow> bytes \<Rightarrow> nat \<Rightarrow> SlotEntry list \<Rightarrow> (EndOfSubSlotBundle \<times> nat \<times> int) option res" where
  "find_slot cr challenge i [] = Ok None"
| "find_slot cr challenge i ((slot, sps, t) # es) =
     (case slot of None \<Rightarrow> find_slot cr challenge (Suc i) es
      | Some s \<Rightarrow>
          rbind (ChallengeChainSubSlot_hash cr (challenge_chain s)) (\<lambda>h.
            if h = challenge then Ok (Some (s, i, t)) else find_slot cr challenge (Suc i) es))"

definition get_sub_slot :: "crypto \<Rightarrow> FullNodeStore \<Rightarrow> bytes \<Rightarrow> (EndOfSubSlotBundle \<times> nat \<times> int) option res" where
  "get_sub_slot cr self challenge =
     rbind (py_assert (length (finished_sub_slots self) \<ge> 1)) (\<lambda>_.
       find_slot cr challenge 0 (finished_sub_slots self))"

text \<open>Where the VDFs of a new slot end start: at the peak, or at the beginning of an empty slot.\<close>

record EosStart =
  eoss_rc_challenge :: bytes
  eoss_cc_start :: ClassgroupElement
  eoss_icc_start :: "ClassgroupElement option"
  eoss_iters :: int
  eoss_icc_challenge :: "bytes option"
  eoss_icc_iters :: "int option"

definition icc_of_peak ::
    "ConsensusConstants \<Rightarrow> BlockCache \<Rightarrow> BlockRecord \<Rightarrow> int \<Rightarrow> (bytes option \<times> int option) res" where
  "icc_of_peak c blocks peak end_iters =
     (if deficit peak < MIN_BLOCKS_PER_CHALLENGE_BLOCK c then
        rbind (walk (block_record blocks) (\<lambda>b. \<not> first_in_sub_slot b \<and> \<not> is_challenge_block c b) peak) (\<lambda>cur.
          if is_challenge_block c cur then
            rbind (uint64 (end_iters - total_iters cur)) (\<lambda>i. Ok (Some (challenge_block_info_hash cur), Some i))
          else
            rbind (unwrap AssertionError (finished_infused_challenge_slot_hashes cur)) (\<lambda>hs.
            rbind (py_last hs) (\<lambda>h. Ok (Some h, Some (sub_slot_iters peak)))))
      else Ok (None, None))"

definition ses_of_eos_ok ::
    "crypto \<Rightarrow> ConsensusConstants \<Rightarrow> BlockCache \<Rightarrow> BlockRecord \<Rightarrow> FullBlock option \<Rightarrow> EndOfSubSlotBundle \<Rightarrow> bool res" where
  "ses_of_eos_ok cr c blocks peak peak_full_block eos =
     rbind (can_finish_sub_and_full_epoch c blocks (height peak) (Some (prev_hash peak)) (deficit peak)
              (sub_epoch_summary_included peak \<noteq> None)) (\<lambda>(can_finish_se, _).
       if can_finish_se then
         rbind (unwrap AssertionError peak_full_block) (\<lambda>b.
         rbind (next_sub_epoch_summary cr c blocks (required_iters peak)
                  (rcb_signage_point_index (fb_reward_chain_block b)) (fb_prev_header_hash b) (fb_finished_sub_slots b)
                  (rcb_total_iters (fb_reward_chain_block b)) True) (\<lambda>ses.
           case ses of
             None \<Rightarrow> Ok (subepoch_summary_hash (challenge_chain eos) = None)
           | Some s \<Rightarrow> rbind (SubEpochSummary_hash cr s) (\<lambda>h. Ok (subepoch_summary_hash (challenge_chain eos) = Some h))))
       else Ok True)"

text \<open>The peak lies in the slot that ends. \<open>Inl True\<close>: the slot end refers to a block that is missing.\<close>

definition eos_after_peak ::
    "crypto \<Rightarrow> ConsensusConstants \<Rightarrow> BlockCache \<Rightarrow> BlockRecord \<Rightarrow> FullBlock option \<Rightarrow> EndOfSubSlotBundle \<Rightarrow> int \<Rightarrow>
     (bool + EosStart) res" where
  "eos_after_peak cr c blocks peak peak_full_block eos end_iters =
     (let rc_challenge = vdf_challenge (end_of_slot_vdf (reward_chain eos)) in
      rbind (uint64 (end_iters - total_iters peak)) (\<lambda>iters.
        if reward_infusion_new_challenge peak \<noteq> rc_challenge then Ok (Inl True)
        else
          rbind (icc_of_peak c blocks peak end_iters) (\<lambda>(icc_challenge, icc_iters).
          rbind (ses_of_eos_ok cr c blocks peak peak_full_block eos) (\<lambda>ses_ok.
            if \<not> ses_ok then Ok (Inl False)
            else Ok (Inr \<lparr>eoss_rc_challenge = rc_challenge, eoss_cc_start = challenge_vdf_output peak,
                   eoss_icc_start =
                     (if deficit peak = MIN_BLOCKS_PER_CHALLENGE_BLOCK c then None
                      else if deficit peak = MIN_BLOCKS_PER_CHALLENGE_BLOCK c - 1 then Some get_default_element
                      else infused_challenge_vdf_output peak),
                   eoss_iters = iters, eoss_icc_challenge = icc_challenge, eoss_icc_iters = icc_iters\<rparr>)))))"

definition eos_after_slot ::
    "crypto \<Rightarrow> ConsensusConstants \<Rightarrow> EndOfSubSlotBundle option \<Rightarrow> bytes \<Rightarrow> int \<Rightarrow> EosStart res" where
  "eos_after_slot cr c last_slot rc_challenge ssi =
     rbind (case last_slot of None \<Rightarrow> Ok None
            | Some s \<Rightarrow>
                (case infused_challenge_chain s of
                   Some icc \<Rightarrow>
                     if rc_deficit (reward_chain s) \<noteq> MIN_BLOCKS_PER_CHALLENGE_BLOCK c
                     then rbind (InfusedChallengeChainSubSlot_hash cr icc) (\<lambda>h. Ok (Some h)) else Ok None
                 | None \<Rightarrow> Ok None)) (\<lambda>icc_challenge.
       Ok \<lparr>eoss_rc_challenge = rc_challenge, eoss_cc_start = get_default_element,
           eoss_icc_start = Some get_default_element, eoss_iters = ssi,
           eoss_icc_challenge = icc_challenge, eoss_icc_iters = Some ssi\<rparr>)"

text \<open>The three VDFs of the slot end.\<close>

definition eos_vdfs_ok ::
    "crypto \<Rightarrow> ConsensusConstants \<Rightarrow> bytes \<Rightarrow> int \<Rightarrow> EosStart \<Rightarrow> EndOfSubSlotBundle \<Rightarrow> bool res" where
  "eos_vdfs_ok cr c cc_challenge ssi st eos =
     (let cc = challenge_chain_end_of_slot_vdf (challenge_chain eos);
          rc = end_of_slot_vdf (reward_chain eos);
          partial = \<lparr>vdf_challenge = cc_challenge, number_of_iterations = eoss_iters st, vdf_output = vdf_output cc\<rparr> in
      if cc \<noteq> partial\<lparr>number_of_iterations := ssi\<rparr> then Ok False
      else if \<not> vdf_two_ways cr c (challenge_chain_slot_proof (proofs eos)) (eoss_cc_start st) partial cc then Ok False
      else if \<not> vdf_valid cr c (reward_chain_slot_proof (proofs eos)) get_default_element rc
             (Some \<lparr>vdf_challenge = eoss_rc_challenge st, number_of_iterations = eoss_iters st, vdf_output = vdf_output rc\<rparr>)
      then Ok False
      else case eoss_icc_challenge st of
        Some icc_challenge \<Rightarrow>
          rbind (unwrap AssertionError (eoss_icc_start st)) (\<lambda>icc_start.
          rbind (unwrap AssertionError (eoss_icc_iters st)) (\<lambda>icc_iters.
          rbind (unwrap AssertionError (infused_challenge_chain eos)) (\<lambda>icc.
          rbind (unwrap AssertionError (infused_challenge_chain_slot_proof (proofs eos))) (\<lambda>icc_proof.
          let v = infused_challenge_chain_end_of_slot_vdf icc;
              partial_icc = \<lparr>vdf_challenge = icc_challenge, number_of_iterations = eoss_iters st, vdf_output = vdf_output v\<rparr> in
          Ok (v = partial_icc\<lparr>number_of_iterations := icc_iters\<rparr> \<and>
              vdf_two_ways cr c icc_proof icc_start partial_icc v)))))
      | None \<Rightarrow>
          Ok (infused_challenge_chain eos = None \<and> infused_challenge_chain_slot_proof (proofs eos) = None))"

definition cache_eos :: "rat \<Rightarrow> FullNodeStore \<Rightarrow> EndOfSubSlotBundle \<Rightarrow> FullNodeStore" where
  "cache_eos now self eos =
     (let k = vdf_challenge (end_of_slot_vdf (reward_chain eos)) in
      self\<lparr>future_eos_cache := append_to k eos (future_eos_cache self),
           future_cache_key_times := (future_cache_key_times self)(k \<mapsto> \<lfloor>now\<rfloor>)\<rparr>)"

definition add_slot :: "crypto \<Rightarrow> rat \<Rightarrow> FullNodeStore \<Rightarrow> EndOfSubSlotBundle \<Rightarrow> int \<Rightarrow>
     (NewInfusionPointVDF list option \<times> FullNodeStore) res" where
  "add_slot cr now self eos end_iters =
     rbind (ChallengeChainSubSlot_hash cr (challenge_chain eos)) (\<lambda>new_cc_hash.
     rbind (RewardChainSubSlot_hash cr (reward_chain eos)) (\<lambda>rc_hash.
       Ok (Some (get_future_ip self rc_hash),
           self\<lparr>finished_sub_slots := finished_sub_slots self @ [(Some eos, no_sps (fns_constants self), end_iters)],
                recent_eos := lru_put (recent_eos self) new_cc_hash (eos, now)\<rparr>)))"

definition new_finished_sub_slot ::
    "crypto \<Rightarrow> rat \<Rightarrow> FullNodeStore \<Rightarrow> EndOfSubSlotBundle \<Rightarrow> BlockCache \<Rightarrow> BlockRecord option \<Rightarrow> FullBlock option \<Rightarrow>
     (NewInfusionPointVDF list option \<times> FullNodeStore) res" where
  "new_finished_sub_slot cr now self eos blocks peak peak_full_block =
     (let c = fns_constants self in
      rbind (py_assert (length (finished_sub_slots self) \<ge> 1)) (\<lambda>_.
      rbind (py_assert ((peak = None) = (peak_full_block = None))) (\<lambda>_.
      rbind (py_last (finished_sub_slots self)) (\<lambda>(last_slot, _, last_slot_iters).
      rbind (slot_cc_hash cr c last_slot) (\<lambda>cc_challenge.
      rbind (slot_rc_hash cr c last_slot) (\<lambda>rc_challenge.
        if \<exists>(slot, _)\<in>set (finished_sub_slots self). slot = Some eos then Ok (Some [], self)
        else if vdf_challenge (challenge_chain_end_of_slot_vdf (challenge_chain eos)) \<noteq> cc_challenge then Ok (None, self)
        else
          let ssi = (case peak of None \<Rightarrow> SUB_SLOT_ITERS_STARTING c | Some p \<Rightarrow> sub_slot_iters p) in
          rbind (uint128 (last_slot_iters + ssi)) (\<lambda>end_iters.
          rbind (case peak of
                   Some p \<Rightarrow>
                     if total_iters p > last_slot_iters then eos_after_peak cr c blocks p peak_full_block eos end_iters
                     else rbind (eos_after_slot cr c last_slot rc_challenge ssi) (\<lambda>st. Ok (Inr st))
                 | None \<Rightarrow> rbind (eos_after_slot cr c last_slot rc_challenge ssi) (\<lambda>st. Ok (Inr st))) (\<lambda>r.
            case r of
              Inl missing \<Rightarrow> Ok (None, if missing then cache_eos now self eos else self)
            | Inr st \<Rightarrow>
                rbind (eos_vdfs_ok cr c cc_challenge ssi st eos) (\<lambda>ok.
                  if ok then add_slot cr now self eos end_iters else Ok (None, self))))))))))"

section \<open>Signage points\<close>

text \<open>The first slot with the given challenge: its place, its reward chain hash and its start.\<close>

fun slot_of_challenge ::
    "crypto \<Rightarrow> ConsensusConstants \<Rightarrow> bytes \<Rightarrow> nat \<Rightarrow> SlotEntry list \<Rightarrow> (nat \<times> bytes \<times> int) option res" where
  "slot_of_challenge cr c challenge i [] = Ok None"
| "slot_of_challenge cr c challenge i ((slot, sps, start) # es) =
     rbind (py_assert (slot = None \<longrightarrow> start = 0)) (\<lambda>_.
     rbind (slot_cc_hash cr c slot) (\<lambda>cc_hash.
     rbind (slot_rc_hash cr c slot) (\<lambda>rc_hash.
       if cc_hash = challenge then Ok (Some (i, rc_hash, start))
       else slot_of_challenge cr c challenge (Suc i) es)))"

text \<open>The block from which the VDFs to the signage point run; \<open>None\<close> for the start of the slot.\<close>

definition block_before_sp ::
    "BlockCache \<Rightarrow> BlockRecord option \<Rightarrow> bool \<Rightarrow> int \<Rightarrow> int \<Rightarrow> BlockRecord option res" where
  "block_before_sp blocks peak future_sub_slot start sp_total =
     (case peak of None \<Rightarrow> Ok None
      | Some p \<Rightarrow>
          if future_sub_slot then Ok None
          else
            rbind (walk (block_record blocks)
                     (\<lambda>b. total_iters b > start \<and> total_iters b > sp_total \<and> \<not> first_in_sub_slot b) p) (\<lambda>cur.
              if total_iters cur > start \<and> total_iters cur > sp_total then Ok None else Ok (Some cur)))"

text \<open>The checks of a signage point in a known slot.\<close>

definition sp_vdfs_ok ::
    "crypto \<Rightarrow> ConsensusConstants \<Rightarrow> bytes \<Rightarrow> bytes \<Rightarrow> int \<Rightarrow> int \<Rightarrow> BlockRecord option \<Rightarrow> VDFInfo \<Rightarrow> VDFProof \<Rightarrow> VDFInfo \<Rightarrow>
     VDFProof \<Rightarrow> bool \<Rightarrow> bool res" where
  "sp_vdfs_ok cr c ss_challenge_hash ss_reward_hash delta_iters sp_total from cc_vdf cc_proof rc_vdf rc_proof skip =
     rbind (case from of
              None \<Rightarrow> Ok (delta_iters, ss_reward_hash, get_default_element)
            | Some b \<Rightarrow> rbind (uint64 (sp_total - total_iters b)) (\<lambda>i.
                         Ok (i, reward_infusion_new_challenge b, challenge_vdf_output b))) (\<lambda>(iters, rc_challenge, start_ele).
       let cc_expected = \<lparr>vdf_challenge = ss_challenge_hash, number_of_iterations = iters, vdf_output = vdf_output cc_vdf\<rparr>;
           rc_expected = \<lparr>vdf_challenge = rc_challenge, number_of_iterations = iters, vdf_output = vdf_output rc_vdf\<rparr> in
       Ok (cc_vdf = cc_expected\<lparr>number_of_iterations := delta_iters\<rparr> \<and>
           (skip \<or> vdf_two_ways cr c cc_proof start_ele cc_expected cc_vdf) \<and>
           vdf_challenge rc_expected = vdf_challenge rc_vdf \<and>
           (skip \<or> vdf_valid cr c rc_proof get_default_element rc_vdf (Some rc_expected))))"

definition put_sp :: "nat \<Rightarrow> nat \<Rightarrow> SignagePoint \<Rightarrow> SlotEntry list \<Rightarrow> SlotEntry list res" where
  "put_sp i index sp es =
     (case es ! i of (slot, sps, start) \<Rightarrow>
        if index < length sps then Ok (es[i := (slot, sps[index := Some sp], start)]) else Raise IndexError)"

definition store_sp :: "crypto \<Rightarrow> rat \<Rightarrow> FullNodeStore \<Rightarrow> nat \<Rightarrow> int \<Rightarrow> SignagePoint \<Rightarrow> VDFInfo \<Rightarrow> FullNodeStore res" where
  "store_sp cr now self i index sp cc_vdf =
     rbind (put_sp i (nat index) sp (finished_sub_slots self)) (\<lambda>es.
     rbind (ClassgroupElement_hash cr (vdf_output cc_vdf)) (\<lambda>h.
       Ok (self\<lparr>finished_sub_slots := es,
             recent_signage_points := lru_put (recent_signage_points self) h (sp, now)\<rparr>)))"

definition current_sub_slot_iters :: "ConsensusConstants \<Rightarrow> BlockRecord option \<Rightarrow> int" where
  "current_sub_slot_iters c peak =
     (case peak of None \<Rightarrow> SUB_SLOT_ITERS_STARTING c
      | Some p \<Rightarrow> if height p < 2 then SUB_SLOT_ITERS_STARTING c else sub_slot_iters p)"

definition in_future_sub_slot :: "BlockRecord option \<Rightarrow> int \<Rightarrow> bool" where
  "in_future_sub_slot peak start = (case peak of None \<Rightarrow> False | Some p \<Rightarrow> start > total_iters p)"

definition new_signage_point ::
    "crypto \<Rightarrow> rat \<Rightarrow> FullNodeStore \<Rightarrow> int \<Rightarrow> BlockCache \<Rightarrow> BlockRecord option \<Rightarrow> int \<Rightarrow> SignagePoint \<Rightarrow> bool \<Rightarrow>
     (bool \<times> FullNodeStore) res" where
  "new_signage_point cr now self index blocks peak next_sub_slot_iters sp skip =
     (let c = fns_constants self;
          ssi = current_sub_slot_iters c peak in
      rbind (py_assert (length (finished_sub_slots self) \<ge> 1)) (\<lambda>_.
        if index = 0 \<or> index \<ge> NUM_SPS_SUB_SLOT c then Ok (False, self)
        else
          rbind (unwrap AssertionError (sp_cc_vdf sp)) (\<lambda>cc_vdf.
          rbind (unwrap AssertionError (sp_cc_proof sp)) (\<lambda>cc_proof.
          rbind (unwrap AssertionError (sp_rc_vdf sp)) (\<lambda>rc_vdf.
          rbind (unwrap AssertionError (sp_rc_proof sp)) (\<lambda>rc_proof.
          rbind (slot_of_challenge cr c (vdf_challenge cc_vdf) 0 (finished_sub_slots self)) (\<lambda>slot.
          case slot of
            None \<Rightarrow> Ok (False, add_to_future_sp now self sp index)
          | Some (i, ss_reward_hash, start) \<Rightarrow>
              let future = in_future_sub_slot peak start in
              rbind (py_floordiv (if future then next_sub_slot_iters else ssi) (NUM_SPS_SUB_SLOT c)) (\<lambda>q.
              rbind (uint64 q) (\<lambda>checkpoint_size.
              rbind (uint64 (checkpoint_size * index)) (\<lambda>delta_iters.
              rbind (block_before_sp blocks peak future start (start + delta_iters)) (\<lambda>from.
              rbind (sp_vdfs_ok cr c (vdf_challenge cc_vdf) ss_reward_hash delta_iters (start + delta_iters) from
                       cc_vdf cc_proof rc_vdf rc_proof skip) (\<lambda>ok.
                if ok then rbind (store_sp cr now self i index sp cc_vdf) (\<lambda>self. Ok (True, self))
                else Ok (False, add_to_future_sp now self sp index)))))))))))))"

definition empty_sp :: SignagePoint where
  "empty_sp = \<lparr>sp_cc_vdf = None, sp_cc_proof = None, sp_rc_vdf = None, sp_rc_proof = None\<rparr>"

fun sp_in_list :: "crypto \<Rightarrow> bytes \<Rightarrow> SignagePoint option list \<Rightarrow> SignagePoint option res" where
  "sp_in_list cr h [] = Ok None"
| "sp_in_list cr h (sp # sps) =
     (case sp of None \<Rightarrow> sp_in_list cr h sps
      | Some p \<Rightarrow>
          rbind (unwrap AssertionError (sp_cc_vdf p)) (\<lambda>v.
          rbind (ClassgroupElement_hash cr (vdf_output v)) (\<lambda>o_hash.
            if o_hash = h then Ok (Some p) else sp_in_list cr h sps)))"

fun sp_in_slots :: "crypto \<Rightarrow> bytes \<Rightarrow> SlotEntry list \<Rightarrow> SignagePoint option res" where
  "sp_in_slots cr h [] = Ok None"
| "sp_in_slots cr h ((slot, sps, t) # es) =
     rbind (case slot of None \<Rightarrow> Ok False
            | Some s \<Rightarrow> rbind (ChallengeChainSubSlot_hash cr (challenge_chain s)) (\<lambda>k. Ok (k = h))) (\<lambda>here.
       if here then Ok (Some empty_sp)
       else
         rbind (sp_in_list cr h sps) (\<lambda>r.
           case r of Some p \<Rightarrow> Ok (Some p) | None \<Rightarrow> sp_in_slots cr h es))"

definition get_signage_point :: "crypto \<Rightarrow> FullNodeStore \<Rightarrow> bytes \<Rightarrow> SignagePoint option res" where
  "get_signage_point cr self cc_sp =
     rbind (py_assert (length (finished_sub_slots self) \<ge> 1)) (\<lambda>_.
       if cc_sp = GENESIS_CHALLENGE (fns_constants self) then Ok (Some empty_sp)
       else sp_in_slots cr cc_sp (finished_sub_slots self))"

text \<open>The signage points of the first slot with the challenge.\<close>

fun sps_of_challenge ::
    "crypto \<Rightarrow> ConsensusConstants \<Rightarrow> bytes \<Rightarrow> SlotEntry list \<Rightarrow> SignagePoint option list option res" where
  "sps_of_challenge cr c challenge [] = Ok None"
| "sps_of_challenge cr c challenge ((slot, sps, t) # es) =
     rbind (slot_cc_hash cr c slot) (\<lambda>cc_hash.
       if cc_hash = challenge then Ok (Some sps) else sps_of_challenge cr c challenge es)"

definition get_signage_point_by_index ::
    "crypto \<Rightarrow> FullNodeStore \<Rightarrow> bytes \<Rightarrow> int \<Rightarrow> bytes \<Rightarrow> SignagePoint option res" where
  "get_signage_point_by_index cr self challenge index last_rc_infusion =
     rbind (py_assert (length (finished_sub_slots self) \<ge> 1)) (\<lambda>_.
     rbind (sps_of_challenge cr (fns_constants self) challenge (finished_sub_slots self)) (\<lambda>r.
       case r of None \<Rightarrow> Ok None
       | Some sps \<Rightarrow>
           if index = 0 then Ok (Some empty_sp)
           else
             rbind (py_nth sps index) (\<lambda>sp.
               case sp of None \<Rightarrow> Ok None
               | Some p \<Rightarrow>
                   rbind (unwrap AssertionError (sp_rc_vdf p)) (\<lambda>v.
                     Ok (if vdf_challenge v = last_rc_infusion then Some p else None)))))"

definition sp_rc_challenge :: "SignagePoint option \<Rightarrow> bytes option" where
  "sp_rc_challenge sp = (case sp of None \<Rightarrow> None | Some p \<Rightarrow> map_option vdf_challenge (sp_rc_vdf p))"

fun newer_in_slots ::
    "crypto \<Rightarrow> ConsensusConstants \<Rightarrow> bytes \<Rightarrow> int \<Rightarrow> bytes \<Rightarrow> SlotEntry list \<Rightarrow> bool res" where
  "newer_in_slots cr c challenge index last_rc [] = Ok False"
| "newer_in_slots cr c challenge index last_rc ((slot, sps, t) # es) =
     rbind (slot_cc_hash cr c slot) (\<lambda>cc_hash.
       if cc_hash = challenge then
         rbind (rmap (py_nth sps) [0..index - 1]) (\<lambda>before.
         rbind (py_nth sps index) (\<lambda>sp.
           if Some last_rc \<in> set (map sp_rc_challenge before) \<and> sp_rc_challenge sp \<noteq> None \<and>
              sp_rc_challenge sp \<noteq> Some last_rc
           then Ok True else newer_in_slots cr c challenge index last_rc es))
       else newer_in_slots cr c challenge index last_rc es)"

definition have_newer_signage_point :: "crypto \<Rightarrow> FullNodeStore \<Rightarrow> bytes \<Rightarrow> int \<Rightarrow> bytes \<Rightarrow> bool res" where
  "have_newer_signage_point cr self challenge index last_rc_infusion =
     rbind (py_assert (length (finished_sub_slots self) \<ge> 1)) (\<lambda>_.
       newer_in_slots cr (fns_constants self) challenge index last_rc_infusion (finished_sub_slots self))"

section \<open>A new peak\<close>

text \<open>The signage points of a slot that come before the fork (or, without a fork, before the peak).\<close>

definition sps_before :: "int \<Rightarrow> int \<Rightarrow> int \<Rightarrow> SignagePoint option list \<Rightarrow> SignagePoint option list" where
  "sps_before start interval_iters limit sps =
     map (\<lambda>(i, sp). if start + int i * interval_iters < limit then sp else None) (enumerate 0 sps)"

text \<open>The lists kept for the slot of the signage point and of the infusion point: of the last equal slot.\<close>

definition kept_sps ::
    "ConsensusConstants \<Rightarrow> SlotEntry list \<Rightarrow> int \<Rightarrow> int \<Rightarrow> EndOfSubSlotBundle option \<Rightarrow> SignagePoint option list" where
  "kept_sps c es interval_iters limit slot =
     foldl (\<lambda>acc (s, sps, start). if s \<noteq> None \<and> s = slot then sps_before start interval_iters limit sps else acc)
       (no_sps c) es"

definition slots_of_peak ::
    "ConsensusConstants \<Rightarrow> SlotEntry list \<Rightarrow> BlockRecord \<Rightarrow> EndOfSubSlotBundle option \<Rightarrow> EndOfSubSlotBundle \<Rightarrow>
     BlockRecord option \<Rightarrow> SlotEntry list res" where
  "slots_of_peak c es peak sp_sub_slot ip_sub_slot fork_block =
     rbind (if (case fork_block of Some f \<Rightarrow> sub_slot_iters f \<noteq> sub_slot_iters peak | None \<Rightarrow> False)
            then Ok (no_sps c, no_sps c)
            else
              rbind (calculate_sp_interval_iters c (sub_slot_iters peak)) (\<lambda>interval_iters.
                let limit = total_iters (case fork_block of Some f \<Rightarrow> f | None \<Rightarrow> peak) in
                Ok (kept_sps c es interval_iters limit sp_sub_slot, kept_sps c es interval_iters limit (Some ip_sub_slot))))
       (\<lambda>(sp_sps, ip_sps).
     rbind (sp_sub_slot_total_iters c peak) (\<lambda>prev_total.
     rbind (if sp_sub_slot \<noteq> None \<or> prev_total = 0 then
              rbind (py_assert (overflow peak \<or> prev_total \<noteq> 0)) (\<lambda>_. Ok [(sp_sub_slot, sp_sps, prev_total)])
            else Ok []) (\<lambda>first.
     rbind (ip_sub_slot_total_iters c peak) (\<lambda>ip_total.
       Ok (first @ [(Some ip_sub_slot, ip_sps, ip_total)])))))"

fun try_future_eos ::
    "crypto \<Rightarrow> rat \<Rightarrow> BlockCache \<Rightarrow> BlockRecord \<Rightarrow> FullBlock \<Rightarrow> EndOfSubSlotBundle list \<Rightarrow> FullNodeStore \<Rightarrow>
     (EndOfSubSlotBundle option \<times> FullNodeStore) res" where
  "try_future_eos cr now blocks peak full [] self = Ok (None, self)"
| "try_future_eos cr now blocks peak full (eos # rest) self =
     rbind (new_finished_sub_slot cr now self eos blocks (Some peak) (Some full)) (\<lambda>(r, self).
       if r \<noteq> None then Ok (Some eos, self) else try_future_eos cr now blocks peak full rest self)"

fun try_future_sps ::
    "crypto \<Rightarrow> rat \<Rightarrow> BlockCache \<Rightarrow> BlockRecord \<Rightarrow> (int \<times> SignagePoint) list \<Rightarrow> FullNodeStore \<Rightarrow>
     ((int \<times> SignagePoint) list \<times> FullNodeStore) res" where
  "try_future_sps cr now blocks peak [] self = Ok ([], self)"
| "try_future_sps cr now blocks peak ((index, sp) # rest) self =
     rbind (py_assert (sp_cc_vdf sp \<noteq> None)) (\<lambda>_.
     rbind (new_signage_point cr now self index blocks (Some peak) (sub_slot_iters peak) sp False) (\<lambda>(added, self).
     rbind (try_future_sps cr now blocks peak rest self) (\<lambda>(new_sps, self).
       Ok (if added then (index, sp) # new_sps else new_sps, self))))"

definition note_eos :: "crypto \<Rightarrow> rat \<Rightarrow> SlotEntry \<Rightarrow> FullNodeStore \<Rightarrow> FullNodeStore res" where
  "note_eos cr now e self =
     (case fst e of None \<Rightarrow> Ok self
      | Some s \<Rightarrow> rbind (ChallengeChainSubSlot_hash cr (challenge_chain s)) (\<lambda>h.
                   Ok (self\<lparr>recent_eos := lru_put (recent_eos self) h (s, now)\<rparr>)))"

definition fns_new_peak ::
    "crypto \<Rightarrow> rat \<Rightarrow> FullNodeStore \<Rightarrow> BlockRecord \<Rightarrow> FullBlock \<Rightarrow> EndOfSubSlotBundle option \<Rightarrow>
     EndOfSubSlotBundle option \<Rightarrow> BlockRecord option \<Rightarrow> BlockCache \<Rightarrow>
     ((EndOfSubSlotBundle option \<times> (int \<times> SignagePoint) list \<times> NewInfusionPointVDF list) \<times> FullNodeStore) res" where
  "fns_new_peak cr now self peak full sp_sub_slot ip_sub_slot fork_block blocks =
     rbind (py_assert (length (finished_sub_slots self) \<ge> 1)) (\<lambda>_.
     rbind (case ip_sub_slot of
              None \<Rightarrow> Ok (initialize_genesis_sub_slot self)
            | Some ip \<Rightarrow>
                rbind (slots_of_peak (fns_constants self) (finished_sub_slots self) peak sp_sub_slot ip fork_block) (\<lambda>es.
                  Ok (self\<lparr>finished_sub_slots := es\<rparr>))) (\<lambda>self.
     let k = reward_infusion_new_challenge peak in
     rbind (try_future_eos cr now blocks peak full (case future_eos_cache self k of None \<Rightarrow> [] | Some xs \<Rightarrow> xs) self)
       (\<lambda>(new_eos, self).
     rbind (try_future_sps cr now blocks peak (case future_sp_cache self k of None \<Rightarrow> [] | Some xs \<Rightarrow> xs) self)
       (\<lambda>(new_sps, self).
     let new_ips = get_future_ip self k;
         self = self\<lparr>future_eos_cache := (future_eos_cache self)(k := None),
                     future_sp_cache := (future_sp_cache self)(k := None),
                     future_ip_cache := (future_ip_cache self)(k := None)\<rparr> in
     rbind (rfold (note_eos cr now) (finished_sub_slots self) self) (\<lambda>self.
       Ok ((new_eos, new_sps, new_ips), self))))))"

text \<open>The slots from the one with challenge \<open>from\<close> to the one with hash \<open>last\<close>, or \<open>None\<close> if \<open>last\<close> is not found.\<close>

fun collect_from ::
    "crypto \<Rightarrow> bytes \<Rightarrow> bytes \<Rightarrow> bool \<Rightarrow> SlotEntry list \<Rightarrow> EndOfSubSlotBundle list option res" where
  "collect_from cr from_challenge last_challenge found [] = Ok None"
| "collect_from cr from_challenge last_challenge found ((slot, sps, t) # es) =
     rbind (unwrap AssertionError slot) (\<lambda>s.
     let found = (found \<or> vdf_challenge (challenge_chain_end_of_slot_vdf (challenge_chain s)) = from_challenge) in
     rbind (if found then rbind (ChallengeChainSubSlot_hash cr (challenge_chain s)) (\<lambda>h. Ok (h = last_challenge))
            else Ok False) (\<lambda>here.
       if here then Ok (Some [s])
       else
         rbind (collect_from cr from_challenge last_challenge found es) (\<lambda>r.
           Ok (map_option (\<lambda>ss. if found then s # ss else ss) r))))"

definition challenge_in_chain :: "ConsensusConstants \<Rightarrow> BlockCache \<Rightarrow> BlockRecord option \<Rightarrow> SlotEntry list \<Rightarrow> bytes res" where
  "challenge_in_chain c blocks prev_b es =
     (case prev_b of
        None \<Rightarrow> rbind (py_nth es 0) (\<lambda>e. rbind (py_assert (fst e = None)) (\<lambda>_. Ok (GENESIS_CHALLENGE c)))
      | Some b \<Rightarrow>
          rbind (walk (block_record blocks) (\<lambda>b. \<not> first_in_sub_slot b) b) (\<lambda>cur.
          rbind (unwrap AssertionError (finished_challenge_slot_hashes cur)) py_last))"

definition get_finished_sub_slots ::
    "crypto \<Rightarrow> FullNodeStore \<Rightarrow> BlockCache \<Rightarrow> BlockRecord option \<Rightarrow> bytes \<Rightarrow> EndOfSubSlotBundle list option res" where
  "get_finished_sub_slots cr self blocks prev_b last_challenge_to_add =
     rbind (challenge_in_chain (fns_constants self) blocks prev_b (finished_sub_slots self)) (\<lambda>from_challenge.
       if last_challenge_to_add = from_challenge then Ok (Some [])
       else collect_from cr from_challenge last_challenge_to_add False (tl (finished_sub_slots self)))"

end
