(* ===== verification/Slot_Facts.thy ===== *)
theory Slot_Facts
  imports Full_Node_Store
begin

text \<open>
  What the full node store keeps of the slots at the tip: consecutive slots follow each other, only the first
  can be the genesis slot, and every signage point is filed under its own slot, whatever slot ends,
  signage points and peaks arrive. On such a store \<^verbatim>\<open>get_finished_sub_slots\<close> returns a gapless chain of slots.
\<close>

abbreviation eos_challenge :: "EndOfSubSlotBundle \<Rightarrow> bytes" where
  "eos_challenge s \<equiv> vdf_challenge (challenge_chain_end_of_slot_vdf (challenge_chain s))"

section \<open>The invariant\<close>

definition sp_ok :: "crypto \<Rightarrow> ConsensusConstants \<Rightarrow> EndOfSubSlotBundle option \<Rightarrow> SignagePoint \<Rightarrow> bool" where
  "sp_ok cr c slot sp \<longleftrightarrow>
     sp_cc_proof sp \<noteq> None \<and> sp_rc_vdf sp \<noteq> None \<and> sp_rc_proof sp \<noteq> None \<and>
     (\<exists>v. sp_cc_vdf sp = Some v \<and> slot_cc_hash cr c slot = Ok (vdf_challenge v))"

definition entry_ok :: "crypto \<Rightarrow> ConsensusConstants \<Rightarrow> SlotEntry \<Rightarrow> bool" where
  "entry_ok cr c = (\<lambda>(slot, sps, start). length sps = nat (NUM_SPS_SUB_SLOT c) \<and>
     (\<forall>i sp. i < length sps \<longrightarrow> sps ! i = Some sp \<longrightarrow> 0 < i \<and> sp_ok cr c slot sp) \<and>
     (slot = None \<longrightarrow> start = 0))"

definition follows :: "crypto \<Rightarrow> ConsensusConstants \<Rightarrow> SlotEntry \<Rightarrow> SlotEntry \<Rightarrow> bool" where
  "follows cr c e e' \<longleftrightarrow>
     (\<exists>s. fst e' = Some s \<and> slot_cc_hash cr c (fst e) = Ok (eos_challenge s))"

definition slots_ok :: "crypto \<Rightarrow> ConsensusConstants \<Rightarrow> SlotEntry list \<Rightarrow> bool" where
  "slots_ok cr c es \<longleftrightarrow> es \<noteq> [] \<and> (\<forall>e\<in>set es. entry_ok cr c e) \<and> successively (follows cr c) es"

definition indices_ok :: "(bytes \<Rightarrow> (int \<times> SignagePoint) list option) \<Rightarrow> bool" where
  "indices_ok d \<longleftrightarrow> (\<forall>k xs. d k = Some xs \<longrightarrow> (\<forall>(i, sp)\<in>set xs. 0 \<le> i))"

definition fns_ok :: "crypto \<Rightarrow> ConsensusConstants \<Rightarrow> FullNodeStore \<Rightarrow> bool" where
  "fns_ok cr c s \<longleftrightarrow> fns_constants s = c \<and> slots_ok cr c (finished_sub_slots s) \<and>
     indices_ok (future_sp_cache s)"

lemma fns_okD:
  assumes "fns_ok cr c s"
  shows "fns_constants s = c" "finished_sub_slots s \<noteq> []"
    "e \<in> set (finished_sub_slots s) \<Longrightarrow> entry_ok cr c e" "successively (follows cr c) (finished_sub_slots s)"
  using assms by (auto simp: fns_ok_def slots_ok_def)

lemma fns_ok_same:
  "fns_ok cr c s \<Longrightarrow> fns_constants s' = fns_constants s \<Longrightarrow> finished_sub_slots s' = finished_sub_slots s \<Longrightarrow>
    future_sp_cache s' = future_sp_cache s \<Longrightarrow> fns_ok cr c s'"
  by (simp add: fns_ok_def)

lemma length_no_sps [simp]: "length (no_sps c) = nat (NUM_SPS_SUB_SLOT c)"
  by (simp add: no_sps_def)

lemma entry_ok_no_sps: "slot \<noteq> None \<or> start = 0 \<Longrightarrow> entry_ok cr c (slot, no_sps c, start)"
  by (auto simp: entry_ok_def no_sps_def)

lemma initialize_genesis_ok: "slots_ok cr c (finished_sub_slots (initialize_genesis_sub_slot s))" if "fns_constants s = c"
  using that by (simp add: fns_ok_def slots_ok_def initialize_genesis_sub_slot_def clear_slots_def entry_ok_no_sps)

lemma indices_ok_drop: "indices_ok d \<Longrightarrow> indices_ok (d(k := None))" "indices_ok d \<Longrightarrow> indices_ok (\<lambda>k. if P k then None else d k)"
  by (auto simp: indices_ok_def)

section \<open>Slot ends\<close>

lemma add_to_future_sp_same [simp]:
  "finished_sub_slots (add_to_future_sp now s sp i) = finished_sub_slots s"
  "fns_constants (add_to_future_sp now s sp i) = fns_constants s"
  by (auto simp: add_to_future_sp_def Let_def split: option.splits)

lemma cache_eos_same [simp]:
  "finished_sub_slots (cache_eos now s eos) = finished_sub_slots s" "fns_constants (cache_eos now s eos) = fns_constants s"
  "future_sp_cache (cache_eos now s eos) = future_sp_cache s"
  by (simp_all add: cache_eos_def Let_def)

lemma new_finished_sub_slotD:
  assumes "new_finished_sub_slot cr now s eos blocks peak full = Ok (r, s')"
  shows "fns_constants s' = fns_constants s" "future_sp_cache s' = future_sp_cache s"
    "finished_sub_slots s' = finished_sub_slots s \<or>
     (\<exists>n. finished_sub_slots s' = finished_sub_slots s @ [(Some eos, no_sps (fns_constants s), n)] \<and>
        slot_cc_hash cr (fns_constants s) (fst (last (finished_sub_slots s))) = Ok (eos_challenge eos))"
  using assms unfolding new_finished_sub_slot_def Let_def add_slot_def py_last_eq
  by (cases "last (finished_sub_slots s)"; auto split: if_splits sum.splits)+

lemma new_finished_sub_slot_ok:
  assumes "fns_ok cr c s" and "new_finished_sub_slot cr now s eos blocks peak full = Ok (r, s')"
  shows "fns_ok cr c s'"
proof -
  note s = fns_okD [OF assms(1)] and d = new_finished_sub_slotD [OF assms(2), unfolded s(1)]
  from d(3) show ?thesis
  proof
    assume "finished_sub_slots s' = finished_sub_slots s"
    with d(1,2) assms(1) show ?thesis by (simp add: fns_ok_def)
  next
    assume "\<exists>n. finished_sub_slots s' = finished_sub_slots s @ [(Some eos, no_sps c, n)] \<and>
        slot_cc_hash cr c (fst (last (finished_sub_slots s))) = Ok (eos_challenge eos)"
    then obtain n where n: "finished_sub_slots s' = finished_sub_slots s @ [(Some eos, no_sps c, n)]"
      "slot_cc_hash cr c (fst (last (finished_sub_slots s))) = Ok (eos_challenge eos)" by blast
    from n(2) s(2,4) have "successively (follows cr c) (finished_sub_slots s @ [(Some eos, no_sps c, n)])"
      by (simp add: successively_append_iff follows_def)
    with assms(1) d(1,2) n(1) s(2,3) show ?thesis by (auto simp: fns_ok_def slots_ok_def entry_ok_no_sps)
  qed
qed

section \<open>Signage points\<close>

lemma slot_of_challengeD:
  assumes "slot_of_challenge cr c ch k es = Ok (Some (i, rc, start))"
  shows "k \<le> i \<and> i - k < length es \<and> slot_cc_hash cr c (fst (es ! (i - k))) = Ok ch \<and>
     slot_rc_hash cr c (fst (es ! (i - k))) = Ok rc \<and> snd (snd (es ! (i - k))) = start \<and>
     (\<forall>j<i - k. \<exists>h. slot_cc_hash cr c (fst (es ! j)) = Ok h \<and> h \<noteq> ch)"
  using assms
proof (induction es arbitrary: k)
  case (Cons e es)
  obtain slot sps t where e: "e = (slot, sps, t)" by (cases e)
  show ?case
  proof (cases "slot_cc_hash cr c slot = Ok ch")
    case True
    with Cons.prems show ?thesis by (auto simp: e)
  next
    case False
    with Cons.prems obtain h where h: "slot_cc_hash cr c slot = Ok h" "h \<noteq> ch"
      and r: "slot_of_challenge cr c ch (Suc k) es = Ok (Some (i, rc, start))"
      by (auto simp: e split: if_splits)
    from Cons.IH [OF r] have ih: "Suc k \<le> i" "i - Suc k < length es"
      "slot_cc_hash cr c (fst (es ! (i - Suc k))) = Ok ch" "slot_rc_hash cr c (fst (es ! (i - Suc k))) = Ok rc"
      "snd (snd (es ! (i - Suc k))) = start"
      "\<forall>j<i - Suc k. \<exists>h. slot_cc_hash cr c (fst (es ! j)) = Ok h \<and> h \<noteq> ch" by auto
    from ih(1) have i: "i - k = Suc (i - Suc k)" by simp
    have "\<exists>h. slot_cc_hash cr c (fst ((e # es) ! j)) = Ok h \<and> h \<noteq> ch" if "j < i - k" for j
      using that ih(6) h(1,2) by (cases j) (simp_all add: i e)
    with ih show ?thesis by (simp add: i)
  qed
qed simp

text \<open>A signage point that is added: its slot, the block its VDFs start from, and the checks it passed.\<close>

lemma new_signage_pointE:
  assumes "new_signage_point cr now s index blocks peak next_ssi sp skip = Ok (True, s')"
  obtains cc_vdf cc_proof rc_vdf rc_proof i rc_hash start step z es h where
    "sp = \<lparr>sp_cc_vdf = Some cc_vdf, sp_cc_proof = Some cc_proof, sp_rc_vdf = Some rc_vdf, sp_rc_proof = Some rc_proof\<rparr>"
    "index \<noteq> 0" "index < NUM_SPS_SUB_SLOT (fns_constants s)"
    "slot_of_challenge cr (fns_constants s) (vdf_challenge cc_vdf) 0 (finished_sub_slots s) = Ok (Some (i, rc_hash, start))"
    "step = (if in_future_sub_slot peak start then next_ssi else current_sub_slot_iters (fns_constants s) peak)
       div NUM_SPS_SUB_SLOT (fns_constants s)"
    "block_before_sp blocks peak (in_future_sub_slot peak start) start (start + step * index) = Ok z"
    "sp_vdfs_ok cr (fns_constants s) (vdf_challenge cc_vdf) rc_hash (step * index) (start + step * index) z cc_vdf cc_proof
       rc_vdf rc_proof skip = Ok True"
    "put_sp i (nat index) sp (finished_sub_slots s) = Ok es"
    "s' = s\<lparr>finished_sub_slots := es, recent_signage_points := lru_put (recent_signage_points s) h (sp, now)\<rparr>"
proof -
  let ?c = "fns_constants s"
  note r = assms [unfolded new_signage_point_def Let_def]
  from r have a: "index \<noteq> 0" "index < NUM_SPS_SUB_SLOT ?c" by (auto split: if_splits)
  from r a obtain cc_vdf cc_proof rc_vdf rc_proof where f: "sp_cc_vdf sp = Some cc_vdf" "sp_cc_proof sp = Some cc_proof"
    "sp_rc_vdf sp = Some rc_vdf" "sp_rc_proof sp = Some rc_proof" by auto
  from r a f obtain i rc_hash start where
    sl: "slot_of_challenge cr ?c (vdf_challenge cc_vdf) 0 (finished_sub_slots s) = Ok (Some (i, rc_hash, start))"
    by (auto split: option.splits)
  let ?d = "(if in_future_sub_slot peak start then next_ssi else current_sub_slot_iters ?c peak) div NUM_SPS_SUB_SLOT ?c"
  from r a f sl obtain z where z: "block_before_sp blocks peak (in_future_sub_slot peak start) start (start + ?d * index) = Ok z"
    and v: "sp_vdfs_ok cr ?c (vdf_challenge cc_vdf) rc_hash (?d * index) (start + ?d * index) z cc_vdf cc_proof rc_vdf
       rc_proof skip = Ok True"
    and st: "store_sp cr now s i index sp cc_vdf = Ok s'"
    by (auto split: if_splits)
  from st obtain es h where "put_sp i (nat index) sp (finished_sub_slots s) = Ok es"
    "s' = s\<lparr>finished_sub_slots := es, recent_signage_points := lru_put (recent_signage_points s) h (sp, now)\<rparr>"
    by (auto simp: store_sp_def)
  from that [OF _ a sl refl z v this] f show ?thesis by simp
qed

lemma put_spD:
  assumes "put_sp i k sp es = Ok es'" and "i < length es"
  obtains slot sps start where "es ! i = (slot, sps, start)" "k < length sps" "es' = es[i := (slot, sps[k := Some sp], start)]"
  using assms by (cases "es ! i") (auto simp: put_sp_def split: if_splits)

lemma successively_update:
  assumes "successively P es" and "i < length es" and "\<And>e. P e (es ! i) \<Longrightarrow> P e x" and "\<And>e. P (es ! i) e \<Longrightarrow> P x e"
  shows "successively P (es[i := x])"
  unfolding successively_conv_nth
proof (intro allI impI)
  fix j assume j: "Suc j < length (es[i := x])"
  with assms(1) have p: "P (es ! j) (es ! Suc j)" by (simp add: successively_conv_nth)
  show "P (es[i := x] ! j) (es[i := x] ! Suc j)"
    using p j assms(3,4) by (cases "j = i"; cases "Suc j = i") auto
qed

lemma add_to_future_sp_ok:
  assumes "fns_ok cr c s" and "0 \<le> index"
  shows "fns_ok cr c (add_to_future_sp now s sp index)"
proof -
  from assms(1) have "0 \<le> i" if "future_sp_cache s k = Some xs" "(i, sp) \<in> set xs" for k xs i sp
    using that by (fastforce simp: fns_ok_def indices_ok_def)
  with assms(2) have "indices_ok (future_sp_cache (add_to_future_sp now s sp index))"
    by (auto simp: add_to_future_sp_def append_to_def Let_def indices_ok_def split: if_splits option.splits)
  with assms(1) show ?thesis by (simp add: fns_ok_def)
qed

lemma new_signage_point_refused:
  "ensures (\<lambda>(b, s'). \<not> b \<longrightarrow> s' = s \<or> s' = add_to_future_sp now s sp index)
     (new_signage_point cr now s index blocks peak next_ssi sp skip)"
  unfolding new_signage_point_def Let_def by (intro ensures_rules) simp_all

lemma new_signage_point_ok:
  assumes ok: "fns_ok cr c s" and "new_signage_point cr now s index blocks peak next_ssi sp skip = Ok (b, s')"
    and "0 \<le> index"
  shows "fns_ok cr c s'"
proof (cases b)
  case False
  with ensuresD [OF new_signage_point_refused assms(2)]
  have "s' = s \<or> s' = add_to_future_sp now s sp index" by simp
  with ok add_to_future_sp_ok [OF ok assms(3)] show ?thesis by auto
next
  case True
  note s = fns_okD [OF ok]
  from True assms(2) have "new_signage_point cr now s index blocks peak next_ssi sp skip = Ok (True, s')" by simp
  then show ?thesis
  proof (cases rule: new_signage_pointE)
    case (1 cc_vdf cc_proof rc_vdf rc_proof i rc_hash start step z es h)
    from slot_of_challengeD [OF 1(4)] have i: "i < length (finished_sub_slots s)"
      "slot_cc_hash cr c (fst (finished_sub_slots s ! i)) = Ok (vdf_challenge cc_vdf)" by (simp_all add: s(1))
    from put_spD [OF 1(8) i(1)] obtain slot sps t where e: "finished_sub_slots s ! i = (slot, sps, t)"
      "nat index < length sps" "es = (finished_sub_slots s)[i := (slot, sps[nat index := Some sp], t)]" .
    from s(3) [OF nth_mem [OF i(1)]] i(2) 1(1,2) assms(3) e have x: "entry_ok cr c (slot, sps[nat index := Some sp], t)"
      by (auto simp: entry_ok_def nth_list_update sp_ok_def)
    have "entry_ok cr c y" if "y \<in> set es" for y
      using that x s(3) set_update_subset_insert [of "finished_sub_slots s" i] unfolding e(3) by blast
    moreover have "successively (follows cr c) es"
      unfolding e(3) by (rule successively_update [OF s(4) i(1)]) (simp_all add: follows_def e(1))
    ultimately show ?thesis using ok 1(9) s(1,2) e(3) by (auto simp: fns_ok_def slots_ok_def)
  qed
qed

section \<open>A new peak\<close>

lemma kept_sps_ok:
  assumes "\<forall>e\<in>set es. entry_ok cr c e" and "slot \<noteq> None \<or> start = 0"
  shows "entry_ok cr c (slot, kept_sps c es n limit slot, start)"
proof -
  have sb: "entry_ok cr c (slot, sps_before t n limit sps, start)" if "entry_ok cr c (slot, sps, t)" for sps t
    using that assms(2) by (auto simp: entry_ok_def sps_before_def nth_enumerate_eq split: if_splits)
  have "entry_ok cr c (slot, foldl (\<lambda>acc (s, sps, t). if s \<noteq> None \<and> s = slot then sps_before t n limit sps else acc) acc es, start)"
    if "entry_ok cr c (slot, acc, start)" for acc
    using that assms(1)
  proof (induction es arbitrary: acc)
    case (Cons e es)
    obtain s sps t where e: "e = (s, sps, t)" by (cases e)
    with Cons.prems(2) sb have "s = slot \<Longrightarrow> entry_ok cr c (slot, sps_before t n limit sps, start)" by auto
    with Cons show ?case by (simp add: e)
  qed simp
  with assms(2) show ?thesis by (simp add: kept_sps_def entry_ok_no_sps)
qed

text \<open>What the caller guarantees of the two slots it gives: they follow each other.\<close>

definition slots_given ::
    "crypto \<Rightarrow> ConsensusConstants \<Rightarrow> BlockRecord \<Rightarrow> EndOfSubSlotBundle option \<Rightarrow> EndOfSubSlotBundle option \<Rightarrow> bool" where
  "slots_given cr c peak sp_sub_slot ip_sub_slot \<longleftrightarrow>
     (\<forall>ip. ip_sub_slot = Some ip \<longrightarrow> sp_sub_slot \<noteq> None \<or> sp_sub_slot_total_iters c peak = Ok 0 \<longrightarrow>
        slot_cc_hash cr c sp_sub_slot = Ok (eos_challenge ip))"

lemma slots_of_peak_ok:
  assumes "slots_ok cr c es" and "slots_of_peak c es peak sp_slot ip fork = Ok es'"
    and "slots_given cr c peak sp_slot (Some ip)"
  shows "slots_ok cr c es'"
proof -
  have k: "entry_ok cr c (slot, kept_sps c es n limit slot, start)" if "slot \<noteq> None \<or> start = 0" for slot n limit start
    using kept_sps_ok assms(1) that unfolding slots_ok_def by blast
  from assms(2) obtain sp_sps ip_sps where
    p: "(if (case fork of Some f \<Rightarrow> sub_slot_iters f \<noteq> sub_slot_iters peak | None \<Rightarrow> False) then Ok (no_sps c, no_sps c)
       else rbind (calculate_sp_interval_iters c (sub_slot_iters peak)) (\<lambda>n.
         Ok (kept_sps c es n (total_iters (case fork of Some f \<Rightarrow> f | None \<Rightarrow> peak)) sp_slot,
             kept_sps c es n (total_iters (case fork of Some f \<Rightarrow> f | None \<Rightarrow> peak)) (Some ip)))) = Ok (sp_sps, ip_sps)"
    and r: "rbind (sp_sub_slot_total_iters c peak) (\<lambda>prev_total.
       rbind (if sp_slot \<noteq> None \<or> prev_total = 0 then
              rbind (py_assert (overflow peak \<or> prev_total \<noteq> 0)) (\<lambda>_. Ok [(sp_slot, sp_sps, prev_total)])
            else Ok []) (\<lambda>first.
       rbind (ip_sub_slot_total_iters c peak) (\<lambda>ip_total. Ok (first @ [(Some ip, ip_sps, ip_total)])))) = Ok es'"
    unfolding slots_of_peak_def Let_def by (auto simp del: rbind_eq_Ok)
  from p have f: "\<And>start. sp_slot \<noteq> None \<or> start = 0 \<Longrightarrow> entry_ok cr c (sp_slot, sp_sps, start)"
      "\<And>start. entry_ok cr c (Some ip, ip_sps, start)"
    by (auto simp: k entry_ok_no_sps split: if_splits)
  from r obtain prev_total ip_total first where
    t: "sp_sub_slot_total_iters c peak = Ok prev_total"
    and fst: "first = [] \<or> (sp_slot \<noteq> None \<or> prev_total = 0) \<and> first = [(sp_slot, sp_sps, prev_total)]"
    and es: "es' = first @ [(Some ip, ip_sps, ip_total)]"
    by (auto split: if_splits)
  from fst show ?thesis
  proof
    assume "first = []"
    with es f(2) show ?thesis by (simp add: slots_ok_def)
  next
    assume "(sp_slot \<noteq> None \<or> prev_total = 0) \<and> first = [(sp_slot, sp_sps, prev_total)]"
    with es f t assms(3) show ?thesis by (auto simp: slots_ok_def follows_def slots_given_def)
  qed
qed

lemma try_future_eos_ok:
  "try_future_eos cr now blocks peak full xs s = Ok (r, s') \<Longrightarrow> fns_ok cr c s \<Longrightarrow> fns_ok cr c s'"
  by (induction cr now blocks peak full xs s arbitrary: r rule: try_future_eos.induct)
    (auto split: if_splits dest: new_finished_sub_slot_ok)

lemma try_future_sps_ok:
  "try_future_sps cr now blocks peak xs s = Ok (r, s') \<Longrightarrow> fns_ok cr c s \<Longrightarrow> \<forall>(i, sp)\<in>set xs. 0 \<le> i \<Longrightarrow> fns_ok cr c s'"
proof (induction xs arbitrary: s r)
  case (Cons x xs)
  obtain i sp where x: "x = (i, sp)" by (cases x)
  with Cons.prems(1) obtain b t r' where n: "new_signage_point cr now s i blocks (Some peak) (sub_slot_iters peak) sp False = Ok (b, t)"
    and r: "try_future_sps cr now blocks peak xs t = Ok (r', s')" by auto
  from Cons.prems(3) have "0 \<le> i" "\<forall>(i, sp)\<in>set xs. 0 \<le> i" by (auto simp: x)
  with Cons.IH [OF r new_signage_point_ok [OF Cons.prems(2) n]] show ?case by blast
qed simp


lemma note_eos_same:
  "note_eos cr now e s = Ok s' \<Longrightarrow> finished_sub_slots s' = finished_sub_slots s \<and> fns_constants s' = fns_constants s \<and>
     future_sp_cache s' = future_sp_cache s"
  by (auto simp: note_eos_def split: option.splits)

lemma note_all_ok: "rfold (note_eos cr now) es s = Ok s' \<Longrightarrow> fns_ok cr c s \<Longrightarrow> fns_ok cr c s'"
proof (induction es arbitrary: s)
  case (Cons e es)
  from Cons.prems(1) obtain t where t: "note_eos cr now e s = Ok t" "rfold (note_eos cr now) es t = Ok s'" by auto
  from note_eos_same [OF t(1)] Cons.prems(2) have "fns_ok cr c t" by (auto intro: fns_ok_same)
  with Cons.IH t(2) show ?case by blast
qed simp

lemma fns_new_peak_ok:
  assumes ok: "fns_ok cr c s" and r: "fns_new_peak cr now s peak full sp_slot ip_slot fork blocks = Ok (x, s')"
    and g: "slots_given cr c peak sp_slot ip_slot"
  shows "fns_ok cr c s'"
proof -
  note s = fns_okD [OF ok]
  let ?k = "reward_infusion_new_challenge peak"
  from r obtain s1 new_eos s2 new_sps s3 where
    s1: "(case ip_slot of None \<Rightarrow> Ok (initialize_genesis_sub_slot s)
          | Some ip \<Rightarrow> rbind (slots_of_peak c (finished_sub_slots s) peak sp_slot ip fork) (\<lambda>es.
              Ok (s\<lparr>finished_sub_slots := es\<rparr>))) = Ok s1"
    and s2: "try_future_eos cr now blocks peak full (case future_eos_cache s1 ?k of None \<Rightarrow> [] | Some xs \<Rightarrow> xs) s1 = Ok (new_eos, s2)"
    and s3: "try_future_sps cr now blocks peak (case future_sp_cache s2 ?k of None \<Rightarrow> [] | Some xs \<Rightarrow> xs) s2 = Ok (new_sps, s3)"
    and s4: "rfold (note_eos cr now) (finished_sub_slots s3)
        (s3\<lparr>future_eos_cache := (future_eos_cache s3)(?k := None), future_sp_cache := (future_sp_cache s3)(?k := None),
            future_ip_cache := (future_ip_cache s3)(?k := None)\<rparr>) = Ok s'"
    unfolding fns_new_peak_def Let_def s(1) by auto
  have f: "fns_ok cr c (s\<lparr>finished_sub_slots := es\<rparr>)" if "slots_ok cr c es" for es
    using ok that by (simp add: fns_ok_def)
  have "fns_ok cr c s1"
  proof (cases ip_slot)
    case None
    with s1 ok initialize_genesis_ok [OF s(1)] show ?thesis
      by (auto simp: fns_ok_def initialize_genesis_sub_slot_def clear_slots_def)
  next
    case (Some ip)
    with s1 obtain es where es: "slots_of_peak c (finished_sub_slots s) peak sp_slot ip fork = Ok es"
      "s1 = s\<lparr>finished_sub_slots := es\<rparr>" by auto
    from slots_of_peak_ok [OF _ es(1)] ok g Some have "slots_ok cr c es" by (simp add: fns_ok_def)
    with f es(2) show ?thesis by simp
  qed
  from try_future_eos_ok [OF s2 this] have ok2: "fns_ok cr c s2" .
  then have "\<forall>(i, sp)\<in>set (case future_sp_cache s2 ?k of None \<Rightarrow> [] | Some xs \<Rightarrow> xs). 0 \<le> i"
    unfolding fns_ok_def indices_ok_def by (cases "future_sp_cache s2 ?k") auto
  from try_future_sps_ok [OF s3 ok2 this] have "fns_ok cr c s3" .
  then have "fns_ok cr c (s3\<lparr>future_eos_cache := (future_eos_cache s3)(?k := None), future_sp_cache := (future_sp_cache s3)(?k := None),
            future_ip_cache := (future_ip_cache s3)(?k := None)\<rparr>)"
    by (simp add: fns_ok_def indices_ok_drop)
  from note_all_ok [OF s4 this] show ?thesis .
qed

section \<open>The store as a transition system\<close>

inductive fns_step :: "crypto \<Rightarrow> ConsensusConstants \<Rightarrow> FullNodeStore \<Rightarrow> FullNodeStore \<Rightarrow> bool" for cr c where
  slot_end: "new_finished_sub_slot cr now s eos blocks peak full = Ok (r, s') \<Longrightarrow> fns_step cr c s s'"
| signage_point: "new_signage_point cr now s index blocks peak next_ssi sp skip = Ok (b, s') \<Longrightarrow> 0 \<le> index \<Longrightarrow> fns_step cr c s s'"
| peak: "fns_new_peak cr now s peak full sp_slot ip_slot fork blocks = Ok (x, s') \<Longrightarrow> slots_given cr c peak sp_slot ip_slot \<Longrightarrow>
     fns_step cr c s s'"
| future_ip: "fns_step cr c s (add_to_future_ip s ip)"
| future_sp: "0 \<le> index \<Longrightarrow> fns_step cr c s (add_to_future_sp now s sp index)"
| clear_old: "fns_step cr c s (clear_old_cache_entries now s)"
| candidate: "fns_step cr c s (add_candidate_block s q h b backup)"
| clear_candidates: "fns_step cr c s (clear_candidate_blocks_below s h)"
| unfinished: "add_unfinished_block cr s h b v = Ok s' \<Longrightarrow> fns_step cr c s s'"
| clear_unfinished: "fns_step cr c s (clear_unfinished_blocks_below s h)"
| remove_unfinished: "fns_step cr c s (remove_unfinished_block s hh)"
| seen: "seen_unfinished_block s hh = (b, s') \<Longrightarrow> fns_step cr c s s'"
| clear_seen: "fns_step cr c s (clear_seen_unfinished_blocks s)"
| restart: "fns_step cr c s (initialize_genesis_sub_slot s)"

inductive fns_reach :: "crypto \<Rightarrow> ConsensusConstants \<Rightarrow> FullNodeStore \<Rightarrow> bool" for cr c where
  start: "fns_reach cr c (new_full_node_store c)"
| step: "fns_reach cr c s \<Longrightarrow> fns_step cr c s s' \<Longrightarrow> fns_reach cr c s'"

lemma fns_step_ok:
  assumes "fns_step cr c s s'" and ok: "fns_ok cr c s"
  shows "fns_ok cr c s'"
  using assms(1)
proof cases
  case slot_end
  with new_finished_sub_slot_ok ok show ?thesis by blast
next
  case signage_point
  with new_signage_point_ok ok show ?thesis by blast
next
  case peak
  with fns_new_peak_ok ok show ?thesis by blast
next
  case future_sp
  with add_to_future_sp_ok ok show ?thesis by blast
next
  case clear_old
  with ok show ?thesis by (simp add: fns_ok_def clear_old_cache_entries_def Let_def indices_ok_drop)
next
  case restart
  with ok initialize_genesis_ok [OF fns_okD(1) [OF ok], of cr] show ?thesis
    by (auto simp: fns_ok_def initialize_genesis_sub_slot_def clear_slots_def)
qed (use ok in \<open>auto simp: fns_ok_def add_to_future_ip_def add_candidate_block_def clear_candidate_blocks_below_def
       add_unfinished_block_def clear_unfinished_blocks_below_def remove_unfinished_block_def seen_unfinished_block_def
       clear_seen_unfinished_blocks_def split: if_splits\<close>)

lemma fns_reach_ok: "fns_reach cr c s \<Longrightarrow> fns_ok cr c s"
proof (induction rule: fns_reach.induct)
  case start
  show ?case
    by (simp add: fns_ok_def slots_ok_def new_full_node_store_def initialize_genesis_sub_slot_def clear_slots_def entry_ok_no_sps indices_ok_def)
qed (rule fns_step_ok)

section \<open>Collecting slots\<close>

text \<open>A list of slots in which each follows the one before, from one challenge to one hash.\<close>

definition slot_chain :: "crypto \<Rightarrow> bytes \<Rightarrow> bytes \<Rightarrow> EndOfSubSlotBundle list \<Rightarrow> bool" where
  "slot_chain cr a b ss \<longleftrightarrow> ss \<noteq> [] \<and> eos_challenge (hd ss) = a \<and>
     ChallengeChainSubSlot_hash cr (challenge_chain (last ss)) = Ok b \<and>
     successively (\<lambda>s t. ChallengeChainSubSlot_hash cr (challenge_chain s) = Ok (eos_challenge t)) ss"

lemma collect_found:
  assumes "collect_from cr a b True es = Ok (Some ss)"
  shows "\<exists>ts. map fst es = map Some ss @ ts \<and> ss \<noteq> [] \<and> ChallengeChainSubSlot_hash cr (challenge_chain (last ss)) = Ok b"
  using assms
proof (induction es arbitrary: ss)
  case (Cons e es)
  obtain slot sps t where e: "e = (slot, sps, t)" by (cases e)
  with Cons.prems obtain s h where s: "slot = Some s" "ChallengeChainSubSlot_hash cr (challenge_chain s) = Ok h"
    and r: "(if h = b then Ok (Some [s]) else rbind (collect_from cr a b True es) (\<lambda>r.
        Ok (map_option (\<lambda>ss. s # ss) r))) = Ok (Some ss)" by (auto cong del: if_weak_cong)
  show ?case
  proof (cases "h = b")
    case True
    with r s e show ?thesis by auto
  next
    case False
    with r obtain rest where rest: "collect_from cr a b True es = Ok (Some rest)" "ss = s # rest" by auto
    from Cons.IH [OF rest(1)] rest(2) s e show ?thesis by auto
  qed
qed simp

lemma collect_from_slice:
  assumes "collect_from cr a b False es = Ok (Some ss)"
  shows "\<exists>us ts. map fst es = us @ map Some ss @ ts \<and> ss \<noteq> [] \<and> eos_challenge (hd ss) = a \<and>
     ChallengeChainSubSlot_hash cr (challenge_chain (last ss)) = Ok b"
  using assms
proof (induction es arbitrary: ss)
  case (Cons e es)
  obtain slot sps t where e: "e = (slot, sps, t)" by (cases e)
  with Cons.prems obtain s where s: "slot = Some s" by auto
  show ?case
  proof (cases "eos_challenge s = a")
    case True
    then have "collect_from cr a b True (e # es) = Ok (Some ss)" using Cons.prems by (simp add: e s)
    from collect_found [OF this] obtain ts where ts: "map fst (e # es) = map Some ss @ ts" "ss \<noteq> []"
      "ChallengeChainSubSlot_hash cr (challenge_chain (last ss)) = Ok b" by blast
    with e s have "hd ss = s" by (cases ss) auto
    with ts True show ?thesis by (intro exI [of _ "[]"] exI [of _ ts]) simp
  next
    case False
    with Cons.prems e s have "collect_from cr a b False es = Ok (Some ss)" by (auto simp: map_option_case split: option.splits)
    from Cons.IH [OF this] obtain us ts where "map fst es = us @ map Some ss @ ts" "ss \<noteq> []" "eos_challenge (hd ss) = a"
      "ChallengeChainSubSlot_hash cr (challenge_chain (last ss)) = Ok b" by blast
    then show ?thesis by (intro exI [of _ "fst e # us"] exI [of _ ts]) simp
  qed
qed simp

text \<open>It finds what is there.\<close>

lemma collect_from_complete:
  assumes "map fst es = us @ map Some ss @ ts" and "ss \<noteq> []" and "found \<or> eos_challenge (hd ss) = a"
    and "ChallengeChainSubSlot_hash cr (challenge_chain (last ss)) = Ok b"
  shows "collect_from cr a b found es \<noteq> Ok None"
  using assms
proof (induction es arbitrary: us ss found)
  case (Cons e es)
  obtain slot sps t where e: "e = (slot, sps, t)" by (cases e)
  show ?case
  proof (cases us)
    case Nil
    with Cons.prems(1,2) obtain s ss' where ss: "ss = s # ss'" "slot = Some s" "map fst es = [] @ map Some ss' @ ts"
      by (cases ss) (auto simp: e)
    with Cons.prems(3) have f: "found \<or> eos_challenge s = a" by simp
    show ?thesis
    proof (cases "ss' = []")
      case True
      with ss f Cons.prems(4) show ?thesis by (simp add: e)
    next
      case False
      from Cons.IH [OF ss(3) False, of True] Cons.prems(4) ss(1) False
      have "collect_from cr a b True es \<noteq> Ok None" by simp
      with f show ?thesis by (auto simp: e ss(2) rbind_eq_Ok split: if_splits)
    qed
  next
    case (Cons u us')
    with Cons.prems(1) have r: "map fst es = us' @ map Some ss @ ts" by simp
    have "collect_from cr a b (found \<or> x) es \<noteq> Ok None" for x
      by (rule Cons.IH [OF r Cons.prems(2) _ Cons.prems(4)]) (use Cons.prems(3) in auto)
    from this [of True] this [of False] show ?thesis by (auto simp: e rbind_eq_Ok Let_def split: if_splits)
  qed
qed simp

lemma slices_linked:
  assumes "fns_ok cr c s" and "map fst (tl (finished_sub_slots s)) = us @ map Some ss @ ts"
  shows "successively (\<lambda>s t. ChallengeChainSubSlot_hash cr (challenge_chain s) = Ok (eos_challenge t)) ss"
proof -
  have "successively (\<lambda>x y. \<exists>t. y = Some t \<and> slot_cc_hash cr c x = Ok (eos_challenge t)) (map fst (finished_sub_slots s))"
    using fns_okD(4) [OF assms(1)] by (simp add: successively_map follows_def)
  then have "successively (\<lambda>x y. \<exists>t. y = Some t \<and> slot_cc_hash cr c x = Ok (eos_challenge t)) (us @ map Some ss @ ts)"
    using assms(2) by (cases "finished_sub_slots s") (auto simp: successively_Cons)
  then show ?thesis by (simp add: successively_append_iff successively_map slot_cc_hash_def)
qed

text \<open>\<^verbatim>\<open>get_finished_sub_slots\<close>: what it returns is a chain between the two challenges, and if the store has one it returns one.\<close>

lemma get_finished_sub_slots_chain:
  assumes "fns_ok cr c s" and "get_finished_sub_slots cr s blocks prev_b b = Ok (Some ss)"
    and "challenge_in_chain c blocks prev_b (finished_sub_slots s) = Ok a"
  shows "if b = a then ss = []
    else slot_chain cr a b ss \<and> (\<exists>u us ts. map fst (finished_sub_slots s) = u # us @ map Some ss @ ts)"
proof (cases "b = a")
  case False
  with assms(2,3) have "collect_from cr a b False (tl (finished_sub_slots s)) = Ok (Some ss)"
    by (simp add: get_finished_sub_slots_def fns_okD(1) [OF assms(1)])
  from collect_from_slice [OF this] obtain us ts where s: "map fst (tl (finished_sub_slots s)) = us @ map Some ss @ ts"
    "ss \<noteq> []" "eos_challenge (hd ss) = a" "ChallengeChainSubSlot_hash cr (challenge_chain (last ss)) = Ok b" by blast
  from s slices_linked [OF assms(1) s(1)] have "slot_chain cr a b ss" by (simp add: slot_chain_def)
  moreover from s(1) fns_okD(2) [OF assms(1)] have "map fst (finished_sub_slots s) = fst (hd (finished_sub_slots s)) # us @ map Some ss @ ts"
    by (cases "finished_sub_slots s") auto
  ultimately show ?thesis using False by (simp only: if_False) blast
next
  case True
  with assms(2,3) show ?thesis by (simp add: get_finished_sub_slots_def fns_okD(1) [OF assms(1)])
qed

lemma get_finished_sub_slots_complete:
  assumes "fns_ok cr c s" and "challenge_in_chain c blocks prev_b (finished_sub_slots s) = Ok a"
    and "slot_chain cr a b ss" and "map fst (finished_sub_slots s) = u # us @ map Some ss @ ts"
  shows "get_finished_sub_slots cr s blocks prev_b b \<noteq> Ok None"
proof (cases "b = a")
  case False
  from assms(4) have t: "map fst (tl (finished_sub_slots s)) = us @ map Some ss @ ts" by (cases "finished_sub_slots s") auto
  from collect_from_complete [OF this, of False a cr b] assms(3)
  have "collect_from cr a b False (tl (finished_sub_slots s)) \<noteq> Ok None" by (simp add: slot_chain_def)
  with False assms(2) show ?thesis by (simp add: get_finished_sub_slots_def fns_okD(1) [OF assms(1)])
next
  case True
  with assms(2) show ?thesis by (simp add: get_finished_sub_slots_def fns_okD(1) [OF assms(1)])
qed

end
