(* ===== verification/Signage_Facts.thy ===== *)
theory Signage_Facts
  imports Slot_Facts
begin

text \<open>
  The full node store and header validation agree on signage points: a signage point that \<^verbatim>\<open>new_signage_point\<close>
  accepts for the slot of the peak passes the signage point checks of \<^verbatim>\<open>block_header_validation.py\<close> in a block
  that extends the peak, in its slot or, for an overflow signage point, just after it, because both start the
  VDFs at the same block or slot.
\<close>

context block_chain
begin

text \<open>A walk ends at the nearest ancestor that fails the loop condition.\<close>

lemma walk_meets:
  assumes "inv s" and "stored (get s) b" and "ancestor (get s) b c" and "\<not> p c"
    and "\<And>d. ancestor (get s) b d \<Longrightarrow> height c < height d \<Longrightarrow> p d"
  shows "walk (get s) p b = Ok c"
  using assms(3,2,4,5)
proof (induction rule: ancestor.induct)
  case (ancestor_self b)
  then show ?case by (simp add: walk.simps)
next
  case (ancestor_step b a c)
  note a = ancestor_step.hyps
  have sa: "stored (get s) a" using assms(1) a(1) by (rule stored_get)
  have "height c < height b"
    using ancestor_height [OF a(2) assms(1) sa] stored_prev [OF assms(1) ancestor_step.prems(1) a(1)] by simp
  with ancestor_step.prems(3) [OF ancestor.ancestor_self] have "p b" .
  moreover have "walk (get s) p a = Ok c"
    using ancestor_step.IH [OF sa ancestor_step.prems(2)] ancestor_step.prems(3) ancestor.ancestor_step [of "get s", OF a(1)] by blast
  ultimately show ?case using a(1) by (simp add: walk.simps [of _ _ b])
qed

lemma ancestor_between:
  assumes "inv s" and "stored (get s) b" and "ancestor (get s) b c" and "ancestor (get s) b d" and "height d \<le> height c"
  shows "ancestor (get s) c d"
  using assms(3,2,4,5)
proof (induction rule: ancestor.induct)
  case (ancestor_step b a c)
  note a = ancestor_step.hyps
  have sa: "stored (get s) a" using assms(1) a(1) by (rule stored_get)
  have "height d < height b"
    using ancestor_height [OF a(2) assms(1) sa] stored_prev [OF assms(1) ancestor_step.prems(1) a(1)] ancestor_step.prems(3) by simp
  with ancestor_step.prems(2) a(1) have "ancestor (get s) a d" by (auto simp: ancestor_iff [of "get s" b])
  with ancestor_step.IH sa ancestor_step.prems(3) show ?case by blast
qed

end

text \<open>The slot that starts at \<open>start\<close>, with the given challenge and reward chain hash, is the one the peak is in: \<open>b\<close> is
  its first block.\<close>

definition slot_of_peak :: "BlockCache \<Rightarrow> BlockRecord \<Rightarrow> BlockRecord \<Rightarrow> int \<Rightarrow> bytes \<Rightarrow> bytes \<Rightarrow> bool" where
  "slot_of_peak blocks p b start ch rc \<longleftrightarrow>
     ancestor (block_record blocks) p b \<and>
     (\<exists>hs. finished_challenge_slot_hashes b = Some hs \<and> hs \<noteq> [] \<and> last hs = ch) \<and>
     (\<exists>rs. finished_reward_slot_hashes b = Some rs \<and> rs \<noteq> [] \<and> last rs = rc) \<and>
     (\<forall>y. ancestor (block_record blocks) p y \<longrightarrow>
        (height b < height y \<longrightarrow> \<not> first_in_sub_slot y) \<and> (height b \<le> height y \<longrightarrow> start < total_iters y))"

lemma slot_of_peakD:
  assumes "slot_of_peak blocks p b start ch rc"
  shows "ancestor (block_record blocks) p b" "first_in_sub_slot b"
    "ancestor (block_record blocks) p y \<Longrightarrow> height b < height y \<Longrightarrow> \<not> first_in_sub_slot y"
    "ancestor (block_record blocks) p y \<Longrightarrow> height b \<le> height y \<Longrightarrow> start < total_iters y"
  using assms by (auto simp: slot_of_peak_def first_in_sub_slot_def)

lemma same_starting_block:
  assumes ok: "heights_ok s" and p: "stored (block_record s) p" and sl: "slot_of_peak s p b start ch rc"
    and z: "block_before_sp s (Some p) False start t = Ok z"
    and t: "\<And>y. ancestor (block_record s) p y \<Longrightarrow> height b \<le> height y \<Longrightarrow> total_iters y \<noteq> t"
  shows "vdf_info_this_slot s p t i =
     (case z of None \<Rightarrow> Ok (ch, rc, get_default_element, i)
      | Some q \<Rightarrow> rbind (uint64 (t - total_iters q)) (\<lambda>n. Ok (ch, reward_infusion_new_challenge q, challenge_vdf_output q, n)))"
proof -
  let ?g = "block_record s"
  note d = slot_of_peakD [OF sl]
  from z obtain q where w: "walk ?g (\<lambda>b. total_iters b > start \<and> total_iters b > t \<and> \<not> first_in_sub_slot b) p = Ok q"
    and z: "z = (if total_iters q > start \<and> total_iters q > t then None else Some q)"
    by (auto simp: block_before_sp_def split: if_splits)
  from bc.walk_stops [OF ok p w] have q: "ancestor ?g p q" "stored ?g q"
    "\<not> (total_iters q > start \<and> total_iters q > t \<and> \<not> first_in_sub_slot q)"
    "\<And>y. ancestor ?g p y \<Longrightarrow> height q < height y \<Longrightarrow> total_iters y > t \<and> \<not> first_in_sub_slot y" by auto
  have hb: "height b \<le> height q" using q(4) [OF d(1)] d(2) by (cases "height q < height b") auto
  have w2: "walk ?g (\<lambda>b. \<not> first_in_sub_slot b \<and> total_iters b > t) p = Ok q"
    by (rule bc.walk_meets [OF ok p q(1)]) (use q(3,4) d(4) [OF q(1) hb] in auto)
  have qb: "ancestor ?g q b"
    using bc.ancestor_between [OF ok p q(1) d(1) hb] .
  have w3: "walk ?g (\<lambda>b. \<not> first_in_sub_slot b) q = Ok b"
    by (rule bc.walk_meets [OF ok q(2) qb]) (use d(2,3) ancestor_trans [OF q(1)] in auto)
  from sl obtain hs rs where hs: "finished_challenge_slot_hashes b = Some hs" "hs \<noteq> []" "last hs = ch"
    "finished_reward_slot_hashes b = Some rs" "rs \<noteq> []" "last rs = rc" by (auto simp: slot_of_peak_def)
  show ?thesis
  proof (cases "total_iters q > t")
    case True
    with d(4) [OF q(1) hb] q(3) have "first_in_sub_slot q" by simp
    with d(3) [OF q(1)] hb have "height q = height b" by (cases "height b < height q") auto
    from bc.ancestor_unique [OF q(1) d(1) ok p this] have "q = b" .
    with True d(4) [OF q(1) hb] z w2 w3 hs show ?thesis by (simp add: vdf_info_this_slot_def py_last_eq)
  next
    case False
    with t [OF q(1) hb] have "total_iters q < t" by simp
    with z w2 w3 hs show ?thesis by (simp add: vdf_info_this_slot_def py_last_eq rbind_assoc)
  qed
qed


section \<open>Accepted signage points\<close>

lemma sps_of_challenge_first:
  assumes "i < length es" and "slot_cc_hash cr c (fst (es ! i)) = Ok ch"
    and "\<forall>j<i. \<exists>h. slot_cc_hash cr c (fst (es ! j)) = Ok h \<and> h \<noteq> ch"
  shows "sps_of_challenge cr c ch es = Ok (Some (fst (snd (es ! i))))"
  using assms
proof (induction es arbitrary: i)
  case (Cons e es)
  obtain slot sps t where e: "e = (slot, sps, t)" by (cases e)
  show ?case
  proof (cases i)
    case 0
    with Cons.prems(2) show ?thesis by (simp add: e)
  next
    case (Suc k)
    from Cons.prems(3) Suc obtain h where h: "slot_cc_hash cr c slot = Ok h" "h \<noteq> ch" by (auto simp: e)
    have "\<forall>j<k. \<exists>h. slot_cc_hash cr c (fst (es ! j)) = Ok h \<and> h \<noteq> ch" using Cons.prems(3) by (auto simp: Suc)
    with Cons.IH [of k] Cons.prems(1,2) Suc h show ?thesis by (simp add: e)
  qed
qed simp

lemma stored_signage_point_found:
  assumes "new_signage_point cr now s index blocks peak next_ssi sp skip = Ok (True, s')" and "0 \<le> index"
    and "sp_cc_vdf sp = Some cc_vdf" and "sp_rc_vdf sp = Some rc_vdf"
  shows "get_signage_point_by_index cr s' (vdf_challenge cc_vdf) index (vdf_challenge rc_vdf) = Ok (Some sp)"
  using assms(1)
proof (cases rule: new_signage_pointE)
  case (1 cc cc_proof rc rc_proof i rc_hash start step z es h)
  from slot_of_challengeD [OF 1(4)] have i: "i < length (finished_sub_slots s)"
    "slot_cc_hash cr (fns_constants s) (fst (finished_sub_slots s ! i)) = Ok (vdf_challenge cc)"
    "\<forall>j<i. \<exists>h. slot_cc_hash cr (fns_constants s) (fst (finished_sub_slots s ! j)) = Ok h \<and> h \<noteq> vdf_challenge cc" by simp_all
  from put_spD [OF 1(8) i(1)] obtain slot sps t where e: "finished_sub_slots s ! i = (slot, sps, t)"
    "nat index < length sps" "es = (finished_sub_slots s)[i := (slot, sps[nat index := Some sp], t)]" .
  have "sps_of_challenge cr (fns_constants s) (vdf_challenge cc) es = Ok (Some (fst (snd (es ! i))))"
    by (rule sps_of_challenge_first) (use i e in auto)
  with i(1) e(3) have f: "sps_of_challenge cr (fns_constants s) (vdf_challenge cc) es = Ok (Some (sps[nat index := Some sp]))" "es \<noteq> []"
    by auto
  have n: "py_nth (sps[nat index := Some sp]) index = Ok (Some sp)" using assms(2) e(2) by (simp add: py_nth_def Let_def)
  from f(2) have "1 \<le> length es" by (cases es) simp_all
  with f(1) n 1(1,2,9) assms(3,4) show ?thesis by (simp add: get_signage_point_by_index_def)
qed

lemma signage_point_passes:
  assumes ok: "heights_ok blocks" and p: "stored (block_record blocks) p"
    and n: "new_signage_point cr now s index blocks (Some p) next_ssi sp False = Ok (True, s')"
    and v: "sp_cc_vdf sp = Some cc_vdf" "sp_rc_vdf sp = Some rc_vdf"
    and sl: "slot_of_challenge cr (fns_constants s) (vdf_challenge cc_vdf) 0 (finished_sub_slots s) = Ok (Some (i, rc_hash, start))"
    and b: "slot_of_peak blocks p b start (vdf_challenge cc_vdf) rc_hash"
    and it: "calculate_sp_iters (fns_constants s) (current_sub_slot_iters (fns_constants s) (Some p)) index = Ok it" "0 < it"
    and t: "\<And>y. ancestor (block_record blocks) p y \<Longrightarrow> height b \<le> height y \<Longrightarrow> total_iters y \<noteq> start + it"
    and hb: "rcbu_challenge_chain_sp_vdf (uhb_reward_chain_block hb) = sp_cc_vdf sp"
      "rcbu_reward_chain_sp_vdf (uhb_reward_chain_block hb) = sp_rc_vdf sp"
      "uhb_challenge_chain_sp_proof hb = sp_cc_proof sp" "uhb_reward_chain_sp_proof hb = sp_rc_proof sp"
    and h: "ClassgroupElement_hash cr (vdf_output rc_vdf) = Ok h"
    and slots: "slots = [] \<and> \<not> ovf \<or> length slots = 1 \<and> ovf"
  shows "\<exists>rc cin k. get_signage_point_vdf_info cr (fns_constants s) slots ovf (Some p) blocks (start + it) it
       = Ok (vdf_challenge cc_vdf, rc, cin, get_default_element, k, k) \<and>
     check_cc_sp cr (fns_constants s) hb False it (vdf_challenge cc_vdf) cin k = Valid () \<and>
     check_rc_sp cr (fns_constants s) blocks hb False pos it rc get_default_element k = Valid h"
  using n
proof (cases rule: new_signage_pointE)
  case (1 cc cc_proof rc rc_proof i' rc_hash' start' step z es h')
  let ?c = "fns_constants s"
  note d = slot_of_peakD [OF b]
  from 1(1,4) v sl have e: "cc = cc_vdf" "rc = rc_vdf" "i' = i" "rc_hash' = rc_hash" "start' = start" by auto
  have "height b \<le> height p" using bc.ancestor_height [OF d(1) ok p] by simp
  with d(4) [OF ancestor_self] have f: "\<not> in_future_sub_slot (Some p) start" by (simp add: in_future_sub_slot_def)
  from it have st: "step * index = it" using 1(5) e(5) f by (auto simp: calculate_sp_iters_def calculate_sp_interval_iters_def split: if_splits)
  from 1(6) f st e(5) have z: "block_before_sp blocks (Some p) False start (start + it) = Ok z" by simp
  from same_starting_block [OF ok p b z t, of it] have vi: "vdf_info_this_slot blocks p (start + it) it =
     (case z of None \<Rightarrow> Ok (vdf_challenge cc_vdf, rc_hash, get_default_element, it)
      | Some q \<Rightarrow> rbind (uint64 (start + it - total_iters q)) (\<lambda>n.
          Ok (vdf_challenge cc_vdf, reward_infusion_new_challenge q, challenge_vdf_output q, n)))" by simp
  from 1(7) [unfolded st e sp_vdfs_ok_def] obtain k rch cin where k: "(case z of None \<Rightarrow> Ok (it, rc_hash, get_default_element)
       | Some q \<Rightarrow> rbind (uint64 (start + it - total_iters q)) (\<lambda>n.
           Ok (n, reward_infusion_new_challenge q, challenge_vdf_output q))) = Ok (k, rch, cin)"
    and chk: "cc_vdf = \<lparr>vdf_challenge = vdf_challenge cc_vdf, number_of_iterations = it, vdf_output = vdf_output cc_vdf\<rparr>"
      "vdf_two_ways cr ?c cc_proof cin \<lparr>vdf_challenge = vdf_challenge cc_vdf, number_of_iterations = k, vdf_output = vdf_output cc_vdf\<rparr> cc_vdf"
      "vdf_valid cr ?c rc_proof get_default_element rc_vdf
         (Some \<lparr>vdf_challenge = rch, number_of_iterations = k, vdf_output = vdf_output rc_vdf\<rparr>)"
    by (auto simp: Let_def)
  from vi k have "vdf_info_this_slot blocks p (start + it) it = Ok (vdf_challenge cc_vdf, rch, cin, k)"
    by (auto split: option.splits)
  then have "get_signage_point_vdf_info cr ?c slots ovf (Some p) blocks (start + it) it
       = Ok (vdf_challenge cc_vdf, rch, cin, get_default_element, k, k)"
    using slots by (auto simp: get_signage_point_vdf_info_def Let_def)
  moreover have "check_cc_sp cr ?c hb False it (vdf_challenge cc_vdf) cin k = Valid ()"
    using it(2) hb 1(1) chk(1,2) e by (simp add: check_cc_sp_def reject_if_def vbind_def)
  moreover have "check_rc_sp cr ?c blocks hb False pos it rch get_default_element k = Valid h"
    using it(2) hb 1(1) chk(3) e h by (simp add: check_rc_sp_def reject_if_def vbind_def)
  ultimately show ?thesis by blast
qed

end
