(* ===== verification/Sample_Slots.thy ===== *)
theory Sample_Slots
  imports Signage_Facts Sample_Chain
begin

text \<open>
  A full node store of the sample chain: the signage point of the second block arrives while the genesis block
  is the peak, and an empty slot ends in a store without a peak.
\<close>

definition slot_store :: FullNodeStore where
  "slot_store = new_full_node_store DEFAULT_CONSTANTS"

definition next_sp :: SignagePoint where
  "next_sp = \<lparr>sp_cc_vdf = Some (vdf_to G 10485760), sp_cc_proof = Some zero_proof,
     sp_rc_vdf = Some (vdf_to (replicate 32 2) 4194303), sp_rc_proof = Some zero_proof\<rparr>"

definition empty_eos :: EndOfSubSlotBundle where
  "empty_eos =
     \<lparr>challenge_chain = \<lparr>challenge_chain_end_of_slot_vdf = vdf_to G 134217728,
        cc_infused_challenge_chain_sub_slot_hash = None, subepoch_summary_hash = None, cc_new_sub_slot_iters = None,
        cc_new_difficulty = None\<rparr>,
      infused_challenge_chain = None,
      reward_chain = \<lparr>end_of_slot_vdf = vdf_to G 134217728, challenge_chain_sub_slot_hash = replicate 32 1,
        rc_infused_challenge_chain_sub_slot_hash = None, rc_deficit = 16\<rparr>,
      proofs = \<lparr>challenge_chain_slot_proof = zero_proof, infused_challenge_chain_slot_proof = None,
        reward_chain_slot_proof = zero_proof\<rparr>\<rparr>"

lemma slot_store_reached: "fns_reach toy DEFAULT_CONSTANTS slot_store"
  unfolding slot_store_def by (rule fns_reach.start)

lemma slot_store_simps [simp]:
  "fns_constants slot_store = DEFAULT_CONSTANTS"
  "finished_sub_slots slot_store = [(None, no_sps DEFAULT_CONSTANTS, 0)]"
  "future_ip_cache slot_store = Map.empty"
  by (simp_all add: slot_store_def new_full_node_store_def initialize_genesis_sub_slot_def clear_slots_def)

lemma default_hash: "ClassgroupElement_hash toy get_default_element = Ok (replicate 32 2)"
  by (simp add: toy_hash_defs)

lemma next_slot_of_challenge:
  "slot_of_challenge toy DEFAULT_CONSTANTS G 0 [(None, no_sps DEFAULT_CONSTANTS, 0)] = Ok (Some (0, G, 0))"
  by (simp add: slot_cc_hash_def slot_rc_hash_def)

lemma next_sp_added:
  "\<exists>s. new_signage_point toy 0 slot_store 5 genesis_cache (Some genesis_r) 134217728 next_sp False = Ok (True, s)"
  by (simp add: new_signage_point_def next_sp_def vdf_to_def slot_cc_hash_def slot_rc_hash_def Let_def
      in_future_sub_slot_def current_sub_slot_iters_def block_before_sp_def walk.simps sp_vdfs_ok_def vdf_two_ways_def
      zero_proof_def VDFProof_is_valid_def get_discriminant_def verify_vdf_def store_sp_def put_sp_def default_hash)

lemma next_sp_carried:
  "rcbu_challenge_chain_sp_vdf (uhb_reward_chain_block (unfinished_of next_b)) = sp_cc_vdf next_sp"
  "rcbu_reward_chain_sp_vdf (uhb_reward_chain_block (unfinished_of next_b)) = sp_rc_vdf next_sp"
  "uhb_challenge_chain_sp_proof (unfinished_of next_b) = sp_cc_proof next_sp"
  "uhb_reward_chain_sp_proof (unfinished_of next_b) = sp_rc_proof next_sp"
  "sp_cc_vdf next_sp = Some (vdf_to G 10485760)" "sp_rc_vdf next_sp = Some (vdf_to (replicate 32 2) 4194303)"
  "ClassgroupElement_hash toy (vdf_output (vdf_to (replicate 32 2) 4194303)) = Ok (replicate 32 2)"
  "vdf_challenge (vdf_to ch n) = ch"
  by (simp_all add: next_sp_def unfinished_of_def get_unfinished_def next_b_def vdf_to_def default_hash)

lemma genesis_ancestor: "ancestor (block_record genesis_cache) genesis_r y \<longleftrightarrow> y = genesis_r"
  by (auto simp: ancestor_iff [of "block_record genesis_cache" genesis_r])

lemma genesis_slot: "slot_of_peak genesis_cache genesis_r genesis_r 0 G G"
  by (simp add: slot_of_peak_def genesis_ancestor)

lemma empty_eos_hashes:
  "ChallengeChainSubSlot_hash toy (challenge_chain empty_eos) = Ok (replicate 32 1)"
  "RewardChainSubSlot_hash toy (reward_chain empty_eos) = Ok (replicate 32 1)"
  by (simp_all add: empty_eos_def ChallengeChainSubSlot_hash_def RewardChainSubSlot_hash_def toy_hash_defs
      ChallengeChainSubSlot_val_def ChallengeChainSubSlot_type_def)

lemma empty_eos_added:
  "\<exists>s. new_finished_sub_slot toy 0 slot_store empty_eos genesis_cache None None = Ok (Some [], s) \<and>
     finished_sub_slots s = [(None, no_sps DEFAULT_CONSTANTS, 0), (Some empty_eos, no_sps DEFAULT_CONSTANTS, 134217728)] \<and>
     fns_constants s = DEFAULT_CONSTANTS"
proof -
  have v: "eos_vdfs_ok toy DEFAULT_CONSTANTS G 134217728
      \<lparr>eoss_rc_challenge = G, eoss_cc_start = get_default_element, eoss_icc_start = Some get_default_element,
       eoss_iters = 134217728, eoss_icc_challenge = None, eoss_icc_iters = Some 134217728\<rparr> empty_eos = Ok True"
    by (simp add: eos_vdfs_ok_def empty_eos_def vdf_to_def Let_def vdf_two_ways_def zero_proof_def VDFProof_is_valid_def
        get_discriminant_def verify_vdf_def)
  have c: "eos_challenge empty_eos = G" by (simp add: empty_eos_def vdf_to_def)
  show ?thesis
    by (simp add: new_finished_sub_slot_def Let_def py_last_eq slot_cc_hash_def slot_rc_hash_def c eos_after_slot_def v
        add_slot_def empty_eos_hashes get_future_ip_def)
qed

end
