(* ===== verification/Weight_Proof_Segments.thy ===== *)
theory Weight_Proof_Segments
  imports Header_Validation
begin

text \<open>
  The part of \<^verbatim>\<open>full_node/weight_proof.py\<close> that validates the challenge segments of a weight proof: the
  proof of space and the VDFs of the sampled segments, and the end of the reward chain slot at the start of every
  sampled sub-epoch, which must be the one its summary names.

  \<^verbatim>\<open>assert x\<close> on an optional integer also fails for zero (\<open>truthy\<close>).
\<close>

definition truthy :: "int option \<Rightarrow> int res" where
  "truthy x = (case x of Some n \<Rightarrow> rbind (py_assert (n \<noteq> 0)) (\<lambda>_. Ok n) | None \<Rightarrow> Raise AssertionError)"

definition VDFInfo_hash :: "crypto \<Rightarrow> VDFInfo \<Rightarrow> bytes res" where
  "VDFInfo_hash cr v = get_hash cr VDFInfo_type (VDFInfo_val v)"

definition opt_VDFInfo_hash :: "crypto \<Rightarrow> VDFInfo option \<Rightarrow> bytes option res" where
  "opt_VDFInfo_hash cr v =
     (case v of None \<Rightarrow> Ok None | Some v \<Rightarrow> rbind (VDFInfo_hash cr v) (\<lambda>h. Ok (Some h)))"

section \<open>The inputs of the VDFs\<close>

definition get_sp_total_iters :: "ConsensusConstants \<Rightarrow> bool \<Rightarrow> int \<Rightarrow> SubSlotData \<Rightarrow> int res" where
  "get_sp_total_iters c is_overflow ssi ssd =
     rbind (unwrap AssertionError (cc_ip_vdf_info ssd)) (\<lambda>ip.
     rbind (unwrap AssertionError (ssd_total_iters ssd)) (\<lambda>t.
     rbind (unwrap AssertionError (ssd_signage_point_index ssd)) (\<lambda>sp_index.
     rbind (calculate_sp_iters c ssi sp_index) (\<lambda>sp_iters.
     rbind (uint128 (t - number_of_iterations ip)) (\<lambda>slot_total.
     rbind (if is_overflow then uint128 (slot_total - ssi) else Ok slot_total) (\<lambda>slot_total.
       Ok (slot_total + sp_iters)))))))"

text \<open>The loop backwards from slot \<open>n - 1\<close> to the first one that is not after the signage point, or to the
  slot behind an end of slot. The last argument is the slot looked at before.\<close>

fun ssd_before_sp :: "SubSlotData list \<Rightarrow> int \<Rightarrow> nat \<Rightarrow> SubSlotData option \<Rightarrow> SubSlotData option res" where
  "ssd_before_sp slots sp_total 0 seen = Ok seen"
| "ssd_before_sp slots sp_total (Suc i) seen =
     (if ssd_is_end_of_slot (slots ! i) then Ok (Some (slots ! Suc i))
      else
        rbind (unwrap TypeError (ssd_total_iters (slots ! i))) (\<lambda>t.
          if t > sp_total then ssd_before_sp slots sp_total i (Some (slots ! i)) else Ok (Some (slots ! i))))"

text \<open>The same loop when the signage point is in the slot before: it passes one end of slot, and a second one
  (\<open>None\<close>) ends it.\<close>

fun ssd_before_sp_overflow ::
    "SubSlotData list \<Rightarrow> int \<Rightarrow> nat \<Rightarrow> nat \<Rightarrow> SubSlotData option \<Rightarrow> SubSlotData option option res" where
  "ssd_before_sp_overflow slots sp_total slots_seen 0 seen = Ok (Some seen)"
| "ssd_before_sp_overflow slots sp_total slots_seen (Suc i) seen =
     (if ssd_is_end_of_slot (slots ! i) then
        if Suc slots_seen = 2 then Ok None
        else ssd_before_sp_overflow slots sp_total (Suc slots_seen) i (Some (slots ! i))
      else
        rbind (unwrap TypeError (ssd_total_iters (slots ! i))) (\<lambda>t.
          if t > sp_total then ssd_before_sp_overflow slots sp_total slots_seen i (Some (slots ! i))
          else Ok (Some (Some (slots ! i)))))"

definition input_after :: "int \<Rightarrow> SubSlotData \<Rightarrow> ClassgroupElement res" where
  "input_after sp_total ssd =
     (case cc_ip_vdf_info ssd of None \<Rightarrow> Ok get_default_element
      | Some ip \<Rightarrow> rbind (unwrap TypeError (ssd_total_iters ssd)) (\<lambda>t.
          Ok (if t < sp_total then vdf_output ip else get_default_element)))"

definition sub_slot_data_vdf_input ::
    "ConsensusConstants \<Rightarrow> SubSlotData \<Rightarrow> nat \<Rightarrow> SubSlotData list \<Rightarrow> bool \<Rightarrow> bool \<Rightarrow> int \<Rightarrow> ClassgroupElement res" where
  "sub_slot_data_vdf_input c ssd idx slots is_overflow new_slot ssi =
     rbind (get_sp_total_iters c is_overflow ssi ssd) (\<lambda>sp_total.
       if is_overflow \<and> new_slot then
         if idx \<ge> 2 \<and> \<not> ssd_is_end_of_slot (slots ! (idx - 2)) then
           rbind (ssd_before_sp slots sp_total (idx - 1) None) (\<lambda>found.
             case found of None \<Rightarrow> Ok get_default_element | Some s \<Rightarrow> input_after sp_total s)
         else Ok get_default_element
       else if \<not> is_overflow \<and> \<not> new_slot then
         rbind (ssd_before_sp slots sp_total idx None) (\<lambda>found.
         rbind (unwrap AssertionError found) (\<lambda>s. input_after sp_total s))
       else if \<not> new_slot \<and> is_overflow then
         rbind (ssd_before_sp_overflow slots sp_total 0 idx None) (\<lambda>r.
           case r of None \<Rightarrow> Ok get_default_element
           | Some found \<Rightarrow> rbind (unwrap AssertionError found) (\<lambda>s. input_after sp_total s))
       else Ok get_default_element)"

text \<open>The end of the VDF of the infusion point before, and the one of this infusion point measured from there.\<close>

definition ip_from_prev :: "SubSlotData \<Rightarrow> SubSlotData \<Rightarrow> VDFInfo \<Rightarrow> (ClassgroupElement \<times> VDFInfo) res" where
  "ip_from_prev prev ssd info =
     rbind (unwrap AssertionError (cc_ip_vdf_info prev)) (\<lambda>prev_ip.
     rbind (truthy (ssd_total_iters prev)) (\<lambda>prev_total.
     rbind (truthy (ssd_total_iters ssd)) (\<lambda>total.
     rbind (uint64 (total - prev_total)) (\<lambda>iters.
       Ok (vdf_output prev_ip, info\<lparr>number_of_iterations := iters\<rparr>)))))"

section \<open>The slots of a segment\<close>

text \<open>The signage point of a slot that is not normalized starts where \<open>sub_slot_data_vdf_input\<close> says.\<close>

definition sp_input ::
    "ConsensusConstants \<Rightarrow> nat \<Rightarrow> SubSlotData list \<Rightarrow> int \<Rightarrow> int \<Rightarrow> ClassgroupElement res" where
  "sp_input c idx slots ssi sp_index =
     rbind (is_overflow_block c sp_index) (\<lambda>ovf.
       sub_slot_data_vdf_input c (slots ! idx) idx slots ovf (ssd_is_end_of_slot (slots ! (idx - 1))) ssi)"

definition challenge_sp_ok ::
    "crypto \<Rightarrow> ConsensusConstants \<Rightarrow> nat \<Rightarrow> SubSlotData list \<Rightarrow> int \<Rightarrow> bool res" where
  "challenge_sp_ok cr c idx slots ssi =
     (let ssd = slots ! idx in
      case (cc_signage_point ssd, cc_sp_vdf_info ssd) of
        (Some p, Some info) \<Rightarrow>
          rbind (truthy (ssd_signage_point_index ssd)) (\<lambda>sp_index.
          rbind (if \<not> normalized_to_identity p \<and> idx \<ge> 1 then sp_input c idx slots ssi sp_index
                 else Ok get_default_element) (\<lambda>input.
            Ok (vdf_valid cr c p input info None)))
      | _ \<Rightarrow> Ok True)"

definition validate_challenge_block_vdfs ::
    "crypto \<Rightarrow> ConsensusConstants \<Rightarrow> nat \<Rightarrow> SubSlotData list \<Rightarrow> int \<Rightarrow> bool res" where
  "validate_challenge_block_vdfs cr c idx slots ssi =
     (let ssd = slots ! idx; prev = slots ! (idx - 1) in
      rbind (challenge_sp_ok cr c idx slots ssi) (\<lambda>sp_ok.
        if \<not> sp_ok then Ok False
        else
          rbind (unwrap AssertionError (cc_infusion_point ssd)) (\<lambda>p.
          rbind (unwrap AssertionError (cc_ip_vdf_info ssd)) (\<lambda>info.
          rbind (if \<not> normalized_to_identity p \<and> idx \<ge> 1 \<and> cc_slot_end prev = None then ip_from_prev prev ssd info
                 else Ok (get_default_element, info)) (\<lambda>(input, info).
            Ok (vdf_valid cr c p input info None))))))"

text \<open>The end of a sub-slot.\<close>

definition icc_slot_end_ok :: "crypto \<Rightarrow> ConsensusConstants \<Rightarrow> SubSlotData \<Rightarrow> SubSlotData \<Rightarrow> bool res" where
  "icc_slot_end_ok cr c prev ssd =
     (case icc_slot_end ssd of None \<Rightarrow> Ok True
      | Some p \<Rightarrow>
          rbind (unwrap AssertionError (icc_slot_end_info ssd)) (\<lambda>info.
            Ok (vdf_valid cr c p
                  (case icc_ip_vdf_info prev of
                     Some v \<Rightarrow> if normalized_to_identity p then get_default_element else vdf_output v
                   | None \<Rightarrow> get_default_element) info None)))"

definition cc_slot_end_ok :: "crypto \<Rightarrow> ConsensusConstants \<Rightarrow> SubSlotData \<Rightarrow> SubSlotData \<Rightarrow> bool res" where
  "cc_slot_end_ok cr c prev ssd =
     rbind (unwrap AssertionError (cc_slot_end_info ssd)) (\<lambda>info.
     rbind (unwrap AssertionError (cc_slot_end ssd)) (\<lambda>p.
     rbind (if \<not> ssd_is_end_of_slot prev \<and> \<not> normalized_to_identity p
            then rbind (unwrap AssertionError (cc_ip_vdf_info prev)) (\<lambda>v. Ok (vdf_output v))
            else Ok get_default_element) (\<lambda>input.
       Ok (vdf_valid cr c p input info None))))"

text \<open>Does the next end of slot have a proof over the whole slot? The last entry is not looked at.\<close>

fun blue_boxed_slot :: "SubSlotData list \<Rightarrow> bool res" where
  "blue_boxed_slot [] = Ok False"
| "blue_boxed_slot (s # ss) =
     (if ssd_is_end_of_slot s
      then rbind (unwrap AssertionError (cc_slot_end s)) (\<lambda>p. Ok (normalized_to_identity p))
      else blue_boxed_slot ss)"

text \<open>A block between the challenge block and the end of its slots.\<close>

definition icc_ip_ok :: "crypto \<Rightarrow> ConsensusConstants \<Rightarrow> SubSlotData \<Rightarrow> SubSlotData \<Rightarrow> bool" where
  "icc_ip_ok cr c prev ssd =
     (case (icc_infusion_point ssd, icc_ip_vdf_info ssd) of
        (Some p, Some info) \<Rightarrow>
          vdf_valid cr c p
            (case icc_ip_vdf_info prev of
               Some v \<Rightarrow> if ssd_is_challenge prev then get_default_element else vdf_output v
             | None \<Rightarrow> get_default_element) info None
      | _ \<Rightarrow> True)"

definition later_sp_ok :: "crypto \<Rightarrow> ConsensusConstants \<Rightarrow> nat \<Rightarrow> SubSlotData list \<Rightarrow> int \<Rightarrow> int \<Rightarrow> bool res" where
  "later_sp_ok cr c idx slots ssi sp_index =
     (case cc_signage_point (slots ! idx) of None \<Rightarrow> Ok True
      | Some p \<Rightarrow>
          rbind (unwrap AssertionError (cc_sp_vdf_info (slots ! idx))) (\<lambda>info.
          rbind (if normalized_to_identity p then Ok get_default_element else sp_input c idx slots ssi sp_index)
            (\<lambda>input. Ok (vdf_valid cr c p input info None))))"

definition validate_sub_slot_data ::
    "crypto \<Rightarrow> ConsensusConstants \<Rightarrow> nat \<Rightarrow> SubSlotData list \<Rightarrow> int \<Rightarrow> bool res" where
  "validate_sub_slot_data cr c idx slots ssi =
     (let ssd = slots ! idx; prev = slots ! (idx - 1) in
      rbind (py_assert (idx > 0)) (\<lambda>_.
        if ssd_is_end_of_slot ssd then
          rbind (icc_slot_end_ok cr c prev ssd) (\<lambda>ok. if ok then cc_slot_end_ok cr c prev ssd else Ok False)
        else
          rbind (blue_boxed_slot (drop idx (butlast slots))) (\<lambda>boxed.
            if boxed then Ok True
            else if \<not> icc_ip_ok cr c prev ssd then Ok False
            else
              rbind (unwrap AssertionError (ssd_signage_point_index ssd)) (\<lambda>sp_index.
              rbind (later_sp_ok cr c idx slots ssi sp_index) (\<lambda>sp_ok.
                if \<not> sp_ok then Ok False
                else
                  rbind (unwrap AssertionError (cc_ip_vdf_info ssd)) (\<lambda>info.
                  rbind (unwrap AssertionError (cc_infusion_point ssd)) (\<lambda>p.
                  rbind (if \<not> normalized_to_identity p \<and> cc_slot_end prev = None then ip_from_prev prev ssd info
                         else Ok (get_default_element, info)) (\<lambda>(input, info).
                    Ok (vdf_valid cr c p input info None)))))))))"

section \<open>The proof of space of a challenge block\<close>

text \<open>\<^verbatim>\<open>reversed(range(0, idx))\<close>: the last end of slot before \<open>idx\<close>.\<close>

definition get_cc_sub_slot ::
    "crypto \<Rightarrow> SubSlotData list \<Rightarrow> nat \<Rightarrow> SubEpochSummary option \<Rightarrow> ChallengeChainSubSlot res" where
  "get_cc_sub_slot cr slots idx ses =
     rbind (unwrap AssertionError (List.find ssd_is_end_of_slot (rev (take idx slots)))) (\<lambda>slot.
     rbind (unwrap AssertionError (cc_slot_end_info slot)) (\<lambda>info.
     rbind (opt_VDFInfo_hash cr (icc_slot_end_info slot)) (\<lambda>icc_hash.
     rbind (case ses of None \<Rightarrow> Ok None | Some s \<Rightarrow> rbind (SubEpochSummary_hash cr s) (\<lambda>h. Ok (Some h))) (\<lambda>ses_hash.
       Ok \<lparr>challenge_chain_end_of_slot_vdf = info, cc_infused_challenge_chain_sub_slot_hash = icc_hash,
           subepoch_summary_hash = ses_hash,
           cc_new_sub_slot_iters = (case ses of None \<Rightarrow> None | Some s \<Rightarrow> ses_new_sub_slot_iters s),
           cc_new_difficulty = (case ses of None \<Rightarrow> None | Some s \<Rightarrow> ses_new_difficulty s)\<rparr>))))"

text \<open>\<^verbatim>\<open>curr_diff\<close> can be \<^verbatim>\<open>None\<close> (see \<open>get_curr_diff_ssi\<close>); then \<^verbatim>\<open>int(difficulty)\<close> raises.\<close>

definition validate_pospace ::
    "crypto \<Rightarrow> ConsensusConstants \<Rightarrow> SubEpochChallengeSegment \<Rightarrow> nat \<Rightarrow> int option \<Rightarrow> SubEpochSummary option \<Rightarrow>
     bool \<Rightarrow> int option res" where
  "validate_pospace cr c segment idx curr_diff ses first_in_sub_epoch =
     (let ssd = sub_slots segment ! idx in
      rbind (if first_in_sub_epoch \<and> sub_epoch_n segment = 0 \<and> idx = 0 then Ok (GENESIS_CHALLENGE c)
             else rbind (get_cc_sub_slot cr (sub_slots segment) idx ses) (ChallengeChainSubSlot_hash cr))
        (\<lambda>cc_sub_slot_hash.
      rbind (case ssd_signage_point_index ssd of
               Some i \<Rightarrow> if i = 0 then Ok False else is_overflow_block c i
             | None \<Rightarrow> Ok False) (\<lambda>ovf.
      rbind (if ovf then
               rbind (py_nth (sub_slots segment) (int idx - 1)) (\<lambda>prev.
               rbind (unwrap AssertionError (cc_slot_end_info prev)) (\<lambda>info. Ok (vdf_challenge info)))
             else Ok cc_sub_slot_hash) (\<lambda>challenge.
      rbind (case cc_sp_vdf_info ssd of None \<Rightarrow> Ok cc_sub_slot_hash
             | Some v \<Rightarrow> ClassgroupElement_hash cr (vdf_output v)) (\<lambda>cc_sp_hash.
      rbind (unwrap AssertionError (ssd_proof_of_space ssd)) (\<lambda>pos.
      rbind (verify_and_get_quality_string cr (MIN_PLOT_SIZE c) (MAX_PLOT_SIZE c) (NUMBER_ZERO_BITS_PLOT_FILTER c)
               pos challenge cc_sp_hash) (\<lambda>q.
      case q of None \<Rightarrow> Ok None
      | Some q_str \<Rightarrow>
          rbind (unwrap TypeError curr_diff) (\<lambda>diff.
          rbind (calculate_iterations_quality cr (DIFFICULTY_CONSTANT_FACTOR c) q_str (pos_size pos) diff cc_sp_hash)
            (\<lambda>iters. Ok (Some iters))))))))))"

section \<open>Segments\<close>

text \<open>What a segment adds up: the infusion point iterations, the slot iterations and the slots.\<close>

type_synonym SegmentTotals = "int \<times> int \<times> int"

fun validate_slots ::
    "crypto \<Rightarrow> ConsensusConstants \<Rightarrow> SubEpochChallengeSegment \<Rightarrow> int \<Rightarrow> int option \<Rightarrow> SubEpochSummary option \<Rightarrow> bool \<Rightarrow>
     bool \<Rightarrow> nat \<Rightarrow> SubSlotData list \<Rightarrow> bool \<Rightarrow> SegmentTotals \<Rightarrow> (bool \<times> SegmentTotals) res" where
  "validate_slots cr c segment curr_ssi diff ses first sampled idx [] after_challenge totals = Ok (True, totals)"
| "validate_slots cr c segment curr_ssi diff ses first sampled idx (ssd # ssds) after_challenge (ips, slot_iters, slots) =
     (let next = (\<lambda>after ips. validate_slots cr c segment curr_ssi diff ses first sampled (Suc idx) ssds after
                    (ips, slot_iters + curr_ssi, slots + 1)) in
      if sampled \<and> ssd_is_challenge ssd then
        rbind (validate_pospace cr c segment idx diff ses first) (\<lambda>req_iters.
          case req_iters of None \<Rightarrow> Ok (False, 0, 0, 0)
          | Some req \<Rightarrow>
              rbind (unwrap AssertionError (ssd_signage_point_index ssd)) (\<lambda>sp_index.
              rbind (calculate_ip_iters c curr_ssi sp_index req) (\<lambda>ip.
              rbind (validate_challenge_block_vdfs cr c idx (sub_slots segment) curr_ssi) (\<lambda>ok.
                if ok then next True (ips + ip) else Ok (False, 0, 0, 0)))))
      else if sampled \<and> after_challenge then
        rbind (validate_sub_slot_data cr c idx (sub_slots segment) curr_ssi) (\<lambda>ok.
          if ok then next after_challenge ips else Ok (False, 0, 0, 0))
      else next after_challenge ips)"

text \<open>The argument \<^verbatim>\<open>prev_ssi\<close> of the source is not used.\<close>

definition validate_segment ::
    "crypto \<Rightarrow> ConsensusConstants \<Rightarrow> SubEpochChallengeSegment \<Rightarrow> int \<Rightarrow> int option \<Rightarrow> SubEpochSummary option \<Rightarrow> bool \<Rightarrow>
     bool \<Rightarrow> (bool \<times> SegmentTotals) res" where
  "validate_segment cr c segment curr_ssi curr_difficulty ses first_segment_in_se sampled =
     validate_slots cr c segment curr_ssi curr_difficulty ses first_segment_in_se sampled 0 (sub_slots segment) False (0, 0, 0)"

section \<open>The reward chain at the start of a sub-epoch\<close>

lemma py_nth_lower: "py_nth xs i = Ok x \<Longrightarrow> - int (length xs) \<le> i"
  by (auto simp: py_nth_def Let_def split: if_splits)

text \<open>\<^verbatim>\<open>while True\<close>: back to the \<open>n\<close>th end of slot. A negative index counts from the end, as in Python.\<close>

function slot_end_before :: "SubSlotData list \<Rightarrow> int \<Rightarrow> nat \<Rightarrow> (int \<times> SubSlotData) res" where
  "slot_end_before slots idx n =
     rbind (py_nth slots idx) (\<lambda>s.
       if cc_slot_end s = None then slot_end_before slots (idx - 1) n
       else if n = 1 then Ok (idx, s) else slot_end_before slots (idx - 1) (n - 1))"
  by pat_completeness auto

termination
  by (relation "measure (\<lambda>(slots, idx, n). nat (int (length slots) + idx + 1))") (auto dest: py_nth_lower)

declare slot_end_before.simps [simp del]

fun first_without_end :: "nat \<Rightarrow> SubSlotData list \<Rightarrow> (nat \<times> SubSlotData) option" where
  "first_without_end i [] = None"
| "first_without_end i (s # ss) = (if cc_slot_end s = None then Some (i, s) else first_without_end (Suc i) ss)"

text \<open>The end of slot in which the chosen place lies, its iterations counted over the whole slot unless it is the
  first one.\<close>

definition rc_slot_vdfs ::
    "int \<Rightarrow> int \<Rightarrow> SubSlotData \<Rightarrow> VDFInfo \<Rightarrow> VDFInfo \<times> VDFInfo option" where
  "rc_slot_vdfs idx curr_ssi slot info =
     (if idx \<noteq> 0 then (info\<lparr>number_of_iterations := curr_ssi\<rparr>,
                        map_option (\<lambda>v. v\<lparr>number_of_iterations := curr_ssi\<rparr>) (icc_slot_end_info slot))
      else (info, icc_slot_end_info slot))"

definition get_rc_sub_slot ::
    "crypto \<Rightarrow> ConsensusConstants \<Rightarrow> SubEpochChallengeSegment \<Rightarrow> SubEpochSummary list \<Rightarrow> int \<Rightarrow> RewardChainSubSlot res" where
  "get_rc_sub_slot cr c segment summaries curr_ssi =
     rbind (uint32 (sub_epoch_n segment - 1)) (\<lambda>n.
     rbind (py_nth summaries n) (\<lambda>ses.
     let slots = sub_slots segment in
     rbind (unwrap AssertionError (first_without_end 0 slots)) (\<lambda>(first_idx, first).
     rbind (py_assert (first_idx \<noteq> 0)) (\<lambda>_.
     rbind (unwrap AssertionError (ssd_signage_point_index first)) (\<lambda>sp_index.
     rbind (is_overflow_block c sp_index) (\<lambda>ovf.
     let slots_n = (if ovf \<and> first_idx \<ge> 2 \<and> cc_slot_end (slots ! (first_idx - 2)) = None then 2 else 1);
         dropped = ovf \<and> first_idx \<ge> 2 \<and> cc_slot_end (slots ! (first_idx - 2)) \<noteq> None \<and>
                   cc_slot_end (slots ! (first_idx - 1)) \<noteq> None in
     rbind (SubEpochSummary_hash cr ses) (\<lambda>ses_hash.
     rbind (slot_end_before slots (int first_idx) slots_n) (\<lambda>(idx, slot).
     rbind (unwrap AssertionError (cc_slot_end_info slot)) (\<lambda>info.
     rbind (unwrap AssertionError (rc_slot_end_info segment)) (\<lambda>rc_info.
     let (cc_info, icc_info) = rc_slot_vdfs idx curr_ssi slot info in
     rbind (opt_VDFInfo_hash cr icc_info) (\<lambda>icc_hash.
     rbind (ChallengeChainSubSlot_hash cr
              \<lparr>challenge_chain_end_of_slot_vdf = cc_info, cc_infused_challenge_chain_sub_slot_hash = icc_hash,
               subepoch_summary_hash = (if dropped then None else Some ses_hash),
               cc_new_sub_slot_iters = (if dropped then None else ses_new_sub_slot_iters ses),
               cc_new_difficulty = (if dropped then None else ses_new_difficulty ses)\<rparr>) (\<lambda>cc_hash.
       Ok \<lparr>end_of_slot_vdf = rc_info, challenge_chain_sub_slot_hash = cc_hash,
           rc_infused_challenge_chain_sub_slot_hash = icc_hash,
           rc_deficit = MIN_BLOCKS_PER_CHALLENGE_BLOCK c\<rparr>))))))))))))"

section \<open>All segments\<close>

text \<open>The newest summary with new sub-slot iterations gives both values, also when it has no difficulty.\<close>

definition get_curr_diff_ssi :: "ConsensusConstants \<Rightarrow> int \<Rightarrow> SubEpochSummary list \<Rightarrow> int option \<times> int" where
  "get_curr_diff_ssi c idx summaries =
     (case List.find (\<lambda>s. ses_new_sub_slot_iters s \<noteq> None) (rev (take (nat idx) summaries)) of
        None \<Rightarrow> (Some (DIFFICULTY_STARTING c), SUB_SLOT_ITERS_STARTING c)
      | Some s \<Rightarrow> (ses_new_difficulty s, the (ses_new_sub_slot_iters s)))"

text \<open>A dictionary from sub-epoch numbers to segments, in the order of insertion.\<close>

type_synonym SegmentMap = "(int \<times> SubEpochChallengeSegment list) list"

definition add_segment :: "SubEpochChallengeSegment \<Rightarrow> int \<times> SegmentMap \<Rightarrow> (int \<times> SegmentMap) res" where
  "add_segment segment s =
     (let (n, d) = (if fst s < sub_epoch_n segment
                    then (sub_epoch_n segment, AList.update (sub_epoch_n segment) [] (snd s)) else s) in
      case map_of d n of None \<Rightarrow> Raise KeyError
      | Some segments \<Rightarrow> Ok (n, AList.update n (segments @ [segment]) d))"

definition map_segments_by_sub_epoch :: "SubEpochChallengeSegment list \<Rightarrow> SegmentMap res" where
  "map_segments_by_sub_epoch segments = rbind (rfold add_segment segments (-1, [])) (\<lambda>(_, d). Ok d)"

text \<open>The segments of one sub-epoch; only the first one is given the summary before it.\<close>

fun validate_segments ::
    "crypto \<Rightarrow> ConsensusConstants \<Rightarrow> int \<Rightarrow> int option \<Rightarrow> nat \<Rightarrow> nat \<Rightarrow> SubEpochChallengeSegment list \<Rightarrow>
     SubEpochSummary option \<Rightarrow> bool res" where
  "validate_segments cr c curr_ssi curr_difficulty sampled idx [] prev_ses = Ok True"
| "validate_segments cr c curr_ssi curr_difficulty sampled idx (segment # segments) prev_ses =
     rbind (validate_segment cr c segment curr_ssi curr_difficulty prev_ses (idx = 0) (sampled = idx)) (\<lambda>(ok, _).
       if ok then validate_segments cr c curr_ssi curr_difficulty sampled (Suc idx) segments None else Ok False)"

text \<open>\<open>choice n g\<close> is \<^verbatim>\<open>rng.choice(range(n))\<close> in the state \<open>g\<close> of the generator: an index below \<open>n\<close> and the new state.\<close>

fun validate_sub_epochs ::
    "crypto \<Rightarrow> ConsensusConstants \<Rightarrow> (nat \<Rightarrow> 'g \<Rightarrow> nat \<times> 'g) \<Rightarrow> SubEpochSummary list \<Rightarrow> SegmentMap \<Rightarrow> 'g \<Rightarrow> bytes \<Rightarrow>
     bool res" where
  "validate_sub_epochs cr c choice summaries [] rng rc_hash = Ok True"
| "validate_sub_epochs cr c choice summaries ((n, segments) # rest) rng rc_hash =
     (let (curr_difficulty, curr_ssi) = get_curr_diff_ssi c n summaries;
          (sampled, rng') = choice (length segments) rng in
      rbind (if n > 0 then
               rbind (py_nth segments 0) (\<lambda>segment.
               rbind (get_rc_sub_slot cr c segment summaries curr_ssi) (\<lambda>rc.
               rbind (py_nth summaries (n - 1)) (\<lambda>ses.
               rbind (RewardChainSubSlot_hash cr rc) (\<lambda>h. Ok (Some ses, h)))))
             else Ok (None, rc_hash)) (\<lambda>(prev_ses, rc_hash).
      rbind (py_nth summaries n) (\<lambda>ses.
        if reward_chain_hash ses \<noteq> rc_hash then Ok False
        else
          rbind (validate_segments cr c curr_ssi curr_difficulty sampled 0 segments prev_ses) (\<lambda>ok.
            if ok then validate_sub_epochs cr c choice summaries rest rng' rc_hash else Ok False))))"

text \<open>The totals of blocks, slots and iterations are computed and not used.\<close>

definition validate_sub_epoch_segments ::
    "crypto \<Rightarrow> ConsensusConstants \<Rightarrow> (nat \<Rightarrow> 'g \<Rightarrow> nat \<times> 'g) \<Rightarrow> 'g \<Rightarrow> SubEpochChallengeSegment list \<Rightarrow>
     SubEpochSummary list \<Rightarrow> bool res" where
  "validate_sub_epoch_segments cr c choice rng segments summaries =
     rbind (map_segments_by_sub_epoch segments) (\<lambda>d.
       validate_sub_epochs cr c choice summaries d rng (GENESIS_CHALLENGE c))"

section \<open>Total iterations\<close>

text \<open>\<^verbatim>\<open>validate_total_iters\<close>, which nothing calls.\<close>

definition validate_total_iters ::
    "SubEpochChallengeSegment \<Rightarrow> int \<Rightarrow> int \<Rightarrow> int \<Rightarrow> SubSlotData \<Rightarrow> int \<Rightarrow> bool \<Rightarrow> bool res" where
  "validate_total_iters segment idx expected_ssi finished_since_prev prev_b prev_ssd_iters genesis =
     rbind (py_nth (sub_slots segment) idx) (\<lambda>ssd.
     rbind (if genesis then uint128 (expected_ssi * finished_since_prev)
            else
              rbind (py_nth (sub_slots segment) (idx - 1)) (\<lambda>prev.
                if ssd_is_end_of_slot prev then
                  rbind (truthy (ssd_total_iters prev_b)) (\<lambda>t.
                  rbind (unwrap AssertionError (cc_ip_vdf_info prev_b)) (\<lambda>ip.
                  rbind (uint128 (t + prev_ssd_iters - number_of_iterations ip)) (\<lambda>t.
                    uint128 (t + expected_ssi * (finished_since_prev - 1)))))
                else
                  rbind (unwrap AssertionError (cc_ip_vdf_info prev_b)) (\<lambda>ip.
                  rbind (truthy (ssd_total_iters prev_b)) (\<lambda>t. uint128 (t - number_of_iterations ip))))) (\<lambda>t.
     rbind (unwrap AttributeError (cc_ip_vdf_info ssd)) (\<lambda>ip.
     rbind (uint128 (t + number_of_iterations ip)) (\<lambda>t. Ok (Some t = ssd_total_iters ssd)))))"

end
