(* ===== verification/Weight_Proof.thy ===== *)
theory Weight_Proof
  imports Weight_Proof_Segments Py_Float
begin

text \<open>
  \<^verbatim>\<open>full_node/weight_proof.py\<close>, the validation of a weight proof: the sub-epoch summaries and the weight
  they add up to, the choice of the sub-epochs that must be sampled, the blocks at the end of the chain,
  and the point where the local chain and the proof part. The segments are in \<open>Weight_Proof_Segments\<close>.

  The random generator of \<^verbatim>\<open>random.Random\<close> and the logarithm and power of the C library are fields of the
  parameter record \<open>sampler\<close>; the other float operations are the exact ones, rounded. Values that are
  sent to another process come back as they were (the wire format round trips) and are passed on here.
\<close>

section \<open>Sub-epoch summaries\<close>

definition first_ses_hash :: "HeaderBlock list \<Rightarrow> (bytes \<times> int) option" where
  "first_ses_hash blocks =
     (case concat (map (\<lambda>b. map (\<lambda>h. (h, hb_height b))
             (List.map_filter (\<lambda>s. subepoch_summary_hash (challenge_chain s)) (hb_finished_sub_slots b))) blocks) of
        [] \<Rightarrow> None | x # _ \<Rightarrow> Some x)"

text \<open>The blocks are tried from the last one; from the first whose height is a multiple, the first summary after it.\<close>

fun get_last_ses_hash :: "ConsensusConstants \<Rightarrow> HeaderBlock list \<Rightarrow> (bytes \<times> int) option res" where
  "get_last_ses_hash c [] = Ok None"
| "get_last_ses_hash c (b # bs) =
     rbind (get_last_ses_hash c bs) (\<lambda>r.
       if r \<noteq> None then Ok r
       else rbind (py_mod (hb_height b) (SUB_EPOCH_BLOCKS c)) (\<lambda>m.
         Ok (if m = 0 then first_ses_hash (b # bs) else None)))"

definition summary_of :: "bytes \<Rightarrow> SubEpochData \<Rightarrow> SubEpochSummary" where
  "summary_of ses_hash data =
     \<lparr>prev_subepoch_summary_hash = ses_hash, reward_chain_hash = sed_reward_chain_hash data,
      num_blocks_overflow = sed_num_blocks_overflow data, ses_new_difficulty = sed_new_difficulty data,
      ses_new_sub_slot_iters = sed_new_sub_slot_iters data\<rparr>"

definition next_curr_difficulty :: "SubEpochData \<Rightarrow> int \<Rightarrow> int" where
  "next_curr_difficulty data d0 = (case sed_new_difficulty data of None \<Rightarrow> d0 | Some d \<Rightarrow> d)"

text \<open>The blocks of the sub-epoch that starts with a summary and ends before the next.\<close>

definition sub_epoch_length :: "int \<Rightarrow> bool \<Rightarrow> SubEpochData \<Rightarrow> SubEpochData \<Rightarrow> int" where
  "sub_epoch_length sub_blocks_for_se first data after =
     sub_blocks_for_se + sed_num_blocks_overflow after - (if first then 0 else sed_num_blocks_overflow data)"

fun map_summaries_loop ::
    "crypto \<Rightarrow> int \<Rightarrow> bool \<Rightarrow> bytes \<Rightarrow> SubEpochData list \<Rightarrow> int \<Rightarrow> int \<Rightarrow> (SubEpochSummary list \<times> int \<times> int list) res" where
  "map_summaries_loop cr n first ses_hash [] curr_difficulty total_weight =
     rbind (uint128 (total_weight + curr_difficulty)) (\<lambda>w. Ok ([], total_weight, [w]))"
| "map_summaries_loop cr n first ses_hash (data # rest) curr_difficulty total_weight =
     (let ses = summary_of ses_hash data in
      rbind (case rest of [] \<Rightarrow> Ok ([], total_weight)
             | after # _ \<Rightarrow>
                 rbind (uint128 (total_weight + curr_difficulty)) (\<lambda>w.
                 rbind (uint128 (curr_difficulty * sub_epoch_length n first data after)) (\<lambda>d.
                   Ok ([w], total_weight + d)))) (\<lambda>(ws, total_weight).
      rbind (SubEpochSummary_hash cr ses) (\<lambda>ses_hash.
      rbind (map_summaries_loop cr n False ses_hash rest (next_curr_difficulty data curr_difficulty) total_weight)
        (\<lambda>(summaries, total, weights). Ok (ses # summaries, total, ws @ weights)))))"

definition map_sub_epoch_summaries ::
    "crypto \<Rightarrow> int \<Rightarrow> bytes \<Rightarrow> SubEpochData list \<Rightarrow> int \<Rightarrow> (SubEpochSummary list \<times> int \<times> int list) res" where
  "map_sub_epoch_summaries cr sub_blocks_for_se ses_hash data curr_difficulty =
     map_summaries_loop cr sub_blocks_for_se True ses_hash data curr_difficulty 0"

definition create_sub_epoch_data :: "SubEpochSummary \<Rightarrow> SubEpochData" where
  "create_sub_epoch_data ses =
     \<lparr>sed_reward_chain_hash = reward_chain_hash ses, sed_num_blocks_overflow = num_blocks_overflow ses,
      sed_new_sub_slot_iters = ses_new_sub_slot_iters ses, sed_new_difficulty = ses_new_difficulty ses\<rparr>"

text \<open>The last block at the end of the last complete sub-epoch has the weight the summaries add up to.\<close>

definition validate_summaries_weight ::
    "ConsensusConstants \<Rightarrow> int \<Rightarrow> SubEpochSummary list \<Rightarrow> WeightProof \<Rightarrow> bool res" where
  "validate_summaries_weight c sub_epoch_data_weight summaries weight_proof =
     rbind (py_last summaries) (\<lambda>ses.
       let ses_end_height = (int (length summaries) - 1) * SUB_EPOCH_BLOCKS c + num_blocks_overflow ses - 1 in
       Ok (case List.find (\<lambda>b. hb_height b = ses_end_height) (rev (recent_chain_data weight_proof)) of
             None \<Rightarrow> False
           | Some b \<Rightarrow> rcb_weight (hb_reward_chain_block b) = sub_epoch_data_weight))"

definition validate_sub_epoch_summaries ::
    "crypto \<Rightarrow> ConsensusConstants \<Rightarrow> WeightProof \<Rightarrow> (SubEpochSummary list \<times> int list) option res" where
  "validate_sub_epoch_summaries cr c weight_proof =
     rbind (get_last_ses_hash c (recent_chain_data weight_proof)) (\<lambda>last_ses.
       case last_ses of None \<Rightarrow> Ok None
       | Some (last_ses_hash, _) \<Rightarrow>
           rbind (map_sub_epoch_summaries cr (SUB_EPOCH_BLOCKS c) (GENESIS_CHALLENGE c) (sub_epochs weight_proof)
                    (DIFFICULTY_STARTING c)) (\<lambda>(summaries, total, sub_epoch_weight_list).
           rbind (validate_summaries_weight c total summaries weight_proof) (\<lambda>ok.
             if \<not> ok then Ok None
             else
               rbind (py_last summaries) (\<lambda>ses.
               rbind (SubEpochSummary_hash cr ses) (\<lambda>h.
                 Ok (if h \<noteq> last_ses_hash then None else Some (summaries, sub_epoch_weight_list)))))))"

section \<open>Sampling\<close>

record 'g sampler =
  random_seed :: "bytes \<Rightarrow> 'g"
  random_float :: "'g \<Rightarrow> rat \<times> 'g"
  random_choice :: "nat \<Rightarrow> 'g \<Rightarrow> nat \<times> 'g"
  float_ln :: "rat \<Rightarrow> rat"
  float_pow :: "rat \<Rightarrow> rat \<Rightarrow> rat"

definition LAMBDA_L :: int where "LAMBDA_L = 100"
definition MAX_SAMPLES :: nat where "MAX_SAMPLES = 20"

text \<open>The double next to a rational number.\<close>

definition fl_rat :: "rat \<Rightarrow> rat" where
  "fl_rat x = (case quotient_of x of (a, b) \<Rightarrow> if a < 0 then - fl (- a) b else fl a b)"

text \<open>\<^verbatim>\<open>math.log(x, base)\<close> is the quotient of two logarithms.\<close>

definition math_log :: "'g sampler \<Rightarrow> rat \<Rightarrow> rat \<Rightarrow> rat res" where
  "math_log rs x base =
     (if x \<le> 0 \<or> base \<le> 0 then Raise ValueError
      else if float_ln rs base = 0 then Raise ZeroDivisionError
      else Ok (fl_rat (float_ln rs x / float_ln rs base)))"

text \<open>\<^verbatim>\<open>int\<close> of a float.\<close>

definition trunc :: "rat \<Rightarrow> int" where
  "trunc x = (if 0 \<le> x then \<lfloor>x\<rfloor> else \<lceil>x\<rceil>)"

fun draw_weights :: "'g sampler \<Rightarrow> rat \<Rightarrow> int \<Rightarrow> nat \<Rightarrow> 'g \<Rightarrow> (int list \<times> 'g) res" where
  "draw_weights rs delta total_weight 0 rng = Ok ([], rng)"
| "draw_weights rs delta total_weight (Suc n) rng =
     (let (u, rng) = random_float rs rng;
          q = fl_rat (1 - float_pow rs delta u) in
      rbind (uint128 (trunc (fl_rat (q * fl_rat (of_int total_weight))))) (\<lambda>w.
      rbind (draw_weights rs delta total_weight n rng) (\<lambda>(ws, rng). Ok (w # ws, rng))))"

definition get_weights_for_sampling ::
    "'g sampler \<Rightarrow> 'g \<Rightarrow> int \<Rightarrow> HeaderBlock list \<Rightarrow> (int list option \<times> 'g) res" where
  "get_weights_for_sampling rs rng total_weight recent_chain =
     rbind (py_last recent_chain) (\<lambda>tip.
     rbind (py_nth recent_chain 0) (\<lambda>start.
     rbind (py_truediv (rcb_weight (hb_reward_chain_block tip) - rcb_weight (hb_reward_chain_block start)) total_weight)
       (\<lambda>delta.
     rbind (math_log rs (1 / 2) delta) (\<lambda>l.
     let prob_of_adv_succeeding = fl_rat (1 - l) in
       if prob_of_adv_succeeding \<le> 0 then Ok (None, rng)
       else
         rbind (math_log rs 2 prob_of_adv_succeeding) (\<lambda>l2.
         let queries = fl_rat (of_int (- LAMBDA_L) * l2) in
         rbind (draw_weights rs delta total_weight (nat (trunc queries + 1)) rng) (\<lambda>(ws, rng).
           Ok (Some (sort ws), rng)))))))"

fun sample_loop :: "int \<Rightarrow> int \<Rightarrow> int list \<Rightarrow> bool" where
  "sample_loop start stop [] = False"
| "sample_loop start stop (w # ws) =
     (if w > stop then False else if start < w \<and> w < stop then True else sample_loop start stop ws)"

definition sample_sub_epoch :: "int \<Rightarrow> int \<Rightarrow> int list option \<Rightarrow> bool res" where
  "sample_sub_epoch start_of_epoch_weight end_of_epoch_weight weight_to_check =
     (case weight_to_check of None \<Rightarrow> Ok True
      | Some ws \<Rightarrow>
          rbind (py_last ws) (\<lambda>w.
            if w < start_of_epoch_weight then Ok False
            else rbind (py_nth ws 0) (\<lambda>w.
              if w > end_of_epoch_weight then Ok False
              else Ok (sample_loop start_of_epoch_weight end_of_epoch_weight ws))))"

text \<open>The numbers of the sampled sub-epochs, at most \<open>MAX_SAMPLES\<close>.\<close>

fun sampled_sub_epochs :: "int list option \<Rightarrow> int \<Rightarrow> int list \<Rightarrow> int list \<Rightarrow> int list res" where
  "sampled_sub_epochs weight_to_check n (start # stop # weights) sampled =
     rbind (sample_sub_epoch start stop weight_to_check) (\<lambda>s.
       if s then
         if length (n # sampled) = MAX_SAMPLES then Ok (n # sampled)
         else sampled_sub_epochs weight_to_check (n + 1) (stop # weights) (n # sampled)
       else sampled_sub_epochs weight_to_check (n + 1) (stop # weights) sampled)"
| "sampled_sub_epochs weight_to_check n weights sampled = Ok sampled"

text \<open>A sub-epoch counts as covered by the first of a run of its segments.\<close>

definition cover_segment :: "SubEpochChallengeSegment \<Rightarrow> int list \<times> int \<Rightarrow> int list \<times> int" where
  "cover_segment segment s =
     (case s of (sampled, curr_n) \<Rightarrow>
        (if curr_n < sub_epoch_n segment then removeAll (sub_epoch_n segment) sampled else sampled, sub_epoch_n segment))"

definition validate_sub_epoch_sampling ::
    "'g sampler \<Rightarrow> 'g \<Rightarrow> int list \<Rightarrow> WeightProof \<Rightarrow> (bool \<times> 'g) res" where
  "validate_sub_epoch_sampling rs rng sub_epoch_weight_list weight_proof =
     rbind (py_last (recent_chain_data weight_proof)) (\<lambda>tip.
     rbind (get_weights_for_sampling rs rng (hb_weight tip) (recent_chain_data weight_proof)) (\<lambda>(weight_to_check, rng).
     rbind (sampled_sub_epochs weight_to_check 0 sub_epoch_weight_list []) (\<lambda>sampled.
       Ok (fst (fold cover_segment (sub_epoch_segments weight_proof) (sampled, - 1)) = [], rng))))"

section \<open>The blocks at the end of the chain\<close>

definition get_ses_idx :: "HeaderBlock list \<Rightarrow> nat list" where
  "get_ses_idx blocks =
     concat (map (\<lambda>(i, b). map (\<lambda>_. i)
       (List.map_filter (\<lambda>s. subepoch_summary_hash (challenge_chain s)) (hb_finished_sub_slots b))) (enumerate 0 blocks))"

definition get_deficit :: "ConsensusConstants \<Rightarrow> int \<Rightarrow> BlockRecord option \<Rightarrow> bool \<Rightarrow> int \<Rightarrow> int res" where
  "get_deficit c curr_deficit prev_block ovf num_finished_sub_slots =
     (case prev_block of
        None \<Rightarrow> Ok (if curr_deficit \<ge> 1 \<and> \<not> (ovf \<and> curr_deficit = MIN_BLOCKS_PER_CHALLENGE_BLOCK c)
                   then curr_deficit - 1 else curr_deficit)
      | Some p \<Rightarrow> rbind (uint32 (height p + 1)) (\<lambda>h. calculate_deficit c h (Some (deficit p)) ovf num_finished_sub_slots))"

definition validate_pospace_recent_chain ::
    "crypto \<Rightarrow> ConsensusConstants \<Rightarrow> HeaderBlock \<Rightarrow> bytes \<Rightarrow> int \<Rightarrow> bool \<Rightarrow> bytes \<Rightarrow> int option res" where
  "validate_pospace_recent_chain cr c block challenge diff ovf prev_challenge =
     (let rcb = hb_reward_chain_block block in
      rbind (case rcb_challenge_chain_sp_vdf rcb of None \<Rightarrow> Ok challenge
             | Some v \<Rightarrow> ClassgroupElement_hash cr (vdf_output v)) (\<lambda>cc_sp_hash.
      rbind (verify_and_get_quality_string cr (MIN_PLOT_SIZE c) (MAX_PLOT_SIZE c) (NUMBER_ZERO_BITS_PLOT_FILTER c)
               (rcb_proof_of_space rcb) (if \<not> ovf then challenge else prev_challenge) cc_sp_hash) (\<lambda>q.
      case q of None \<Rightarrow> Ok None
      | Some q_str \<Rightarrow>
          rbind (calculate_iterations_quality cr (DIFFICULTY_CONSTANT_FACTOR c) q_str (pos_size (rcb_proof_of_space rcb))
                   diff cc_sp_hash) (\<lambda>iters. Ok (Some iters)))))"

text \<open>The local variables of \<^verbatim>\<open>_validate_recent_blocks\<close>.\<close>

record RecentState =
  rs_blocks :: BlockCache
  rs_ses_idx :: int
  rs_ssi :: int
  rs_diff :: int
  rs_challenge :: "bytes option"
  rs_prev_challenge :: "bytes option"
  rs_deficit :: int
  rs_prev_block_record :: "BlockRecord option"
  rs_sub_slots :: int
  rs_transaction_blocks :: int
  rs_ses_blocks :: int

text \<open>\<^verbatim>\<open>for sub_slot in block.finished_sub_slots\<close>; the flag is \<^verbatim>\<open>ses\<close>.\<close>

definition recent_slot ::
    "crypto \<Rightarrow> SubEpochSummary list \<Rightarrow> EndOfSubSlotBundle \<Rightarrow> RecentState \<times> bool \<Rightarrow> (RecentState \<times> bool) res" where
  "recent_slot cr summaries slot s =
     (case s of (st, ses) \<Rightarrow>
      let cc = challenge_chain slot in
      rbind (ChallengeChainSubSlot_hash cr cc) (\<lambda>challenge.
      rbind (case subepoch_summary_hash cc of None \<Rightarrow> Ok (rs_ses_idx st, ses)
             | Some ses_hash \<Rightarrow>
                 rbind (py_nth summaries (rs_ses_idx st)) (\<lambda>summary.
                 rbind (SubEpochSummary_hash cr summary) (\<lambda>h.
                 rbind (py_assert (h = ses_hash)) (\<lambda>_. Ok (rs_ses_idx st + 1, True))))) (\<lambda>(ses_idx, ses).
        Ok (st\<lparr>rs_prev_challenge := rs_challenge st, rs_challenge := Some challenge,
               rs_deficit := rc_deficit (reward_chain slot), rs_ses_idx := ses_idx,
               rs_ssi := (case cc_new_sub_slot_iters cc of None \<Rightarrow> rs_ssi st | Some i \<Rightarrow> i),
               rs_diff := (case cc_new_difficulty cc of None \<Rightarrow> rs_diff st | Some d \<Rightarrow> d)\<rparr>, ses))))"

text \<open>\<^verbatim>\<open>last_blocks_to_validate\<close>: the tip and the 99 heights below it.\<close>

definition fully_validated :: "int \<Rightarrow> RecentState \<Rightarrow> HeaderBlock \<Rightarrow> bool" where
  "fully_validated tip_height st block \<longleftrightarrow>
     rs_sub_slots st > 2 \<and> rs_transaction_blocks st > 11 \<and> tip_height - hb_height block < 100"

text \<open>The required iterations, \<^verbatim>\<open>None\<close> for a block that is refused, whether it overflows, and the deficit.\<close>

definition check_recent_block ::
    "crypto \<Rightarrow> ConsensusConstants \<Rightarrow> int \<Rightarrow> int \<Rightarrow> HeaderBlock \<Rightarrow> RecentState \<Rightarrow> (int option \<times> bool \<times> int) res" where
  "check_recent_block cr c tip_height now block st =
     (case (rs_challenge st, rs_prev_challenge st) of
        (Some challenge, Some prev_challenge) \<Rightarrow>
          rbind (is_overflow_block c (rcb_signage_point_index (hb_reward_chain_block block))) (\<lambda>ovf.
          rbind (get_deficit c (rs_deficit st) (rs_prev_block_record st) ovf (int (length (hb_finished_sub_slots block))))
            (\<lambda>dfct.
          rbind (if fully_validated tip_height st block
                 then rbind (validate_finished_header_block cr c (rs_blocks st) block False (rs_diff st) (rs_ssi st)
                               (rs_ses_blocks st > 2) now) (\<lambda>r.
                        Ok (case r of Inl e \<Rightarrow> None | Inr req \<Rightarrow> Some req))
                 else validate_pospace_recent_chain cr c block challenge (rs_diff st) ovf prev_challenge) (\<lambda>req.
            Ok (req, ovf, dfct))))
      | _ \<Rightarrow> Ok (Some 0, False, rs_deficit st))"

text \<open>One pass of the loop; \<open>None\<close> is \<^verbatim>\<open>return False\<close>.\<close>

definition recent_block ::
    "crypto \<Rightarrow> ConsensusConstants \<Rightarrow> SubEpochSummary list \<Rightarrow> int \<Rightarrow> int \<Rightarrow> HeaderBlock \<Rightarrow> RecentState \<Rightarrow>
     RecentState option res" where
  "recent_block cr c summaries tip_height now block st =
     rbind (rfold (recent_slot cr summaries) (hb_finished_sub_slots block) (st, False)) (\<lambda>(st, ses).
     rbind (check_recent_block cr c tip_height now block st) (\<lambda>(req, ovf, dfct).
     case req of None \<Rightarrow> Ok None
     | Some req_iters \<Rightarrow>
         rbind (if ses then rbind (py_nth summaries (rs_ses_idx st - 1)) (\<lambda>s. Ok (Some s)) else Ok None) (\<lambda>curr_block_ses.
         rbind (header_block_to_sub_block_record cr c req_iters block (rs_ssi st) ovf dfct (hb_height block) curr_block_ses)
           (\<lambda>br.
           Ok (Some (st\<lparr>rs_blocks := add_block_record (rs_blocks st) br, rs_deficit := dfct,
                 rs_sub_slots := rs_sub_slots st + (if hb_finished_sub_slots block \<noteq> [] then 1 else 0),
                 rs_transaction_blocks := rs_transaction_blocks st +
                   (if rcb_is_transaction_block (hb_reward_chain_block block) then 1 else 0),
                 rs_ses_blocks := rs_ses_blocks st + (if ses then 1 else 0),
                 rs_prev_block_record := Some br\<rparr>))))))"

fun recent_blocks_loop ::
    "crypto \<Rightarrow> ConsensusConstants \<Rightarrow> SubEpochSummary list \<Rightarrow> int \<Rightarrow> int \<Rightarrow> HeaderBlock list \<Rightarrow> RecentState \<Rightarrow> bool res" where
  "recent_blocks_loop cr c summaries tip_height now [] st = Ok True"
| "recent_blocks_loop cr c summaries tip_height now (block # blocks) st =
     rbind (recent_block cr c summaries tip_height now block st) (\<lambda>r.
       case r of None \<Rightarrow> Ok False | Some st \<Rightarrow> recent_blocks_loop cr c summaries tip_height now blocks st)"

text \<open>\<^verbatim>\<open>xs[:i]\<close>\<close>

definition py_take :: "'a list \<Rightarrow> int \<Rightarrow> 'a list" where
  "py_take xs i = take (nat (if i < 0 then int (length xs) + i else i)) xs"

definition recent_start :: "ConsensusConstants \<Rightarrow> SubEpochSummary list \<Rightarrow> HeaderBlock list \<Rightarrow> RecentState" where
  "recent_start c summaries recent_chain =
     (let ses_idx = int (length summaries) - int (length (get_ses_idx recent_chain));
          (ssi, diff) = foldl (\<lambda>(ssi, diff) s.
            (case ses_new_sub_slot_iters s of None \<Rightarrow> ssi | Some i \<Rightarrow> i,
             case ses_new_difficulty s of None \<Rightarrow> diff | Some d \<Rightarrow> d))
            (SUB_SLOT_ITERS_STARTING c, DIFFICULTY_STARTING c) (py_take summaries ses_idx) in
      \<lparr>rs_blocks = init_BlockCache Map.empty Map.empty Map.empty [], rs_ses_idx = ses_idx, rs_ssi = ssi, rs_diff = diff,
       rs_challenge = None, rs_prev_challenge = None, rs_deficit = 0, rs_prev_block_record = None,
       rs_sub_slots = 0, rs_transaction_blocks = 0, rs_ses_blocks = 0\<rparr>)"

definition validate_recent_blocks ::
    "crypto \<Rightarrow> ConsensusConstants \<Rightarrow> int \<Rightarrow> HeaderBlock list \<Rightarrow> SubEpochSummary list \<Rightarrow> bool res" where
  "validate_recent_blocks cr c now recent_chain summaries =
     rbind (py_last recent_chain) (\<lambda>tip.
       recent_blocks_loop cr c summaries (hb_height tip) now recent_chain (recent_start c summaries recent_chain))"

section \<open>The fork point\<close>

text \<open>\<^verbatim>\<open>for idx, summary_height in enumerate(ses_heights)\<close>: the index of the last common summary.\<close>

fun fork_point_index ::
    "crypto \<Rightarrow> BlockCache \<Rightarrow> SubEpochSummary list \<Rightarrow> nat \<Rightarrow> int list \<Rightarrow> nat \<Rightarrow> nat res" where
  "fork_point_index cr blocks received idx [] found = Ok found"
| "fork_point_index cr blocks received idx (h # hs) found =
     rbind (get_ses blocks h) (\<lambda>local_ses.
       if int idx = int (length received) - 1 then Ok found
       else
         rbind (SubEpochSummary_hash cr local_ses) (\<lambda>local_hash.
         rbind (py_nth received (int idx)) (\<lambda>ses.
         rbind (SubEpochSummary_hash cr ses) (\<lambda>received_hash.
           if local_hash \<noteq> received_hash then Ok found
           else fork_point_index cr blocks received (Suc idx) hs idx))))"

definition get_fork_point :: "crypto \<Rightarrow> BlockCache \<Rightarrow> SubEpochSummary list \<Rightarrow> int res" where
  "get_fork_point cr blocks received_summaries =
     (let ses_heights = get_ses_heights blocks in
      rbind (fork_point_index cr blocks received_summaries 0 ses_heights 0) (\<lambda>i.
        if i > 2 then py_nth ses_heights (int i - 2) else Ok 0))"

section \<open>The whole proof\<close>

definition get_fork_point_no_validations :: "crypto \<Rightarrow> ConsensusConstants \<Rightarrow> BlockCache \<Rightarrow> WeightProof \<Rightarrow> (bool \<times> int) res" where
  "get_fork_point_no_validations cr c blocks weight_proof =
     rbind (py_assert (length (sub_epochs weight_proof) > 0)) (\<lambda>_.
     rbind (validate_sub_epoch_summaries cr c weight_proof) (\<lambda>r.
       case r of None \<Rightarrow> Ok (False, 0)
       | Some (summaries, _) \<Rightarrow> rbind (get_fork_point cr blocks summaries) (\<lambda>f. Ok (True, f))))"

text \<open>What both ways of validating begin with: the summaries and the sampling. The result is \<open>None\<close> or the summaries and
  the state of the generator.\<close>

definition validate_summaries_and_sampling ::
    "crypto \<Rightarrow> ConsensusConstants \<Rightarrow> 'g sampler \<Rightarrow> WeightProof \<Rightarrow> (SubEpochSummary list \<times> 'g) option res" where
  "validate_summaries_and_sampling cr c rs weight_proof =
     rbind (py_assert (length (sub_epochs weight_proof) > 0)) (\<lambda>_.
     rbind (py_last (recent_chain_data weight_proof)) (\<lambda>_.
     rbind (validate_sub_epoch_summaries cr c weight_proof) (\<lambda>r.
       case r of None \<Rightarrow> Ok None
       | Some (summaries, sub_epoch_weight_list) \<Rightarrow>
           rbind (py_nth summaries (- 2)) (\<lambda>ses.
           rbind (SubEpochSummary_hash cr ses) (\<lambda>seed.
           rbind (validate_sub_epoch_sampling rs (random_seed rs seed) sub_epoch_weight_list weight_proof) (\<lambda>(ok, rng).
             Ok (if ok then Some (summaries, rng) else None)))))))"

definition validate_weight_proof_single_proc ::
    "crypto \<Rightarrow> ConsensusConstants \<Rightarrow> 'g sampler \<Rightarrow> int \<Rightarrow> BlockCache \<Rightarrow> WeightProof \<Rightarrow> (bool \<times> int) res" where
  "validate_weight_proof_single_proc cr c rs now blocks weight_proof =
     rbind (validate_summaries_and_sampling cr c rs weight_proof) (\<lambda>r.
       case r of None \<Rightarrow> Ok (False, 0)
       | Some (summaries, rng) \<Rightarrow>
           rbind (validate_sub_epoch_segments cr c (random_choice rs) rng (sub_epoch_segments weight_proof) summaries) (\<lambda>ok.
             if \<not> ok then Ok (False, 0)
             else
               rbind (validate_recent_blocks cr c now (recent_chain_data weight_proof) summaries) (\<lambda>ok.
                 if \<not> ok then Ok (False, 0)
                 else rbind (get_fork_point cr blocks summaries) (\<lambda>f. Ok (True, f)))))"

text \<open>The two tasks run in another process; the result of the second is awaited first.\<close>

definition validate_weight_proof ::
    "crypto \<Rightarrow> ConsensusConstants \<Rightarrow> 'g sampler \<Rightarrow> int \<Rightarrow> BlockCache \<Rightarrow> WeightProof \<Rightarrow>
     (bool \<times> int \<times> SubEpochSummary list) res" where
  "validate_weight_proof cr c rs now blocks weight_proof =
     rbind (validate_summaries_and_sampling cr c rs weight_proof) (\<lambda>r.
       case r of None \<Rightarrow> Ok (False, 0, [])
       | Some (summaries, rng) \<Rightarrow>
           rbind (validate_recent_blocks cr c now (recent_chain_data weight_proof) summaries) (\<lambda>ok.
             if \<not> ok then Ok (False, 0, [])
             else
               rbind (validate_sub_epoch_segments cr c (random_choice rs) rng (sub_epoch_segments weight_proof) summaries)
                 (\<lambda>ok.
                   if \<not> ok then Ok (False, 0, [])
                   else rbind (get_fork_point cr blocks summaries) (\<lambda>f. Ok (True, f, summaries)))))"

end
