(* ===== verification/Weight_Proof_Facts.thy ===== *)
theory Weight_Proof_Facts
  imports Weight_Proof
begin

text \<open>
  What an accepted weight proof guarantees: its summaries are a hash chain that starts at the genesis challenge
  and ends at the hash found in the recent blocks, so the last hash determines all of them and with them the
  weight; the blocks at the end were validated as headers; and the fork point lies under summaries that both
  chains share.
\<close>

section \<open>Summaries\<close>

fun linked_summaries :: "crypto \<Rightarrow> bytes \<Rightarrow> SubEpochSummary list \<Rightarrow> bool" where
  "linked_summaries cr h [] \<longleftrightarrow> True"
| "linked_summaries cr h (s # ss) \<longleftrightarrow>
     prev_subepoch_summary_hash s = h \<and> (\<exists>h'. SubEpochSummary_hash cr s = Ok h' \<and> linked_summaries cr h' ss)"

text \<open>The weight up to the last summary: the difficulty in force times the length of every sub-epoch.\<close>

fun summaries_weight :: "int \<Rightarrow> bool \<Rightarrow> SubEpochSummary list \<Rightarrow> int \<Rightarrow> int" where
  "summaries_weight n first (s # after # ss) d =
     d * (n + num_blocks_overflow after - (if first then 0 else num_blocks_overflow s)) +
     summaries_weight n False (after # ss) (case ses_new_difficulty s of None \<Rightarrow> d | Some d' \<Rightarrow> d')"
| "summaries_weight n first ss d = 0"

lemma create_summary_of [simp]: "create_sub_epoch_data (summary_of h data) = data"
  by (simp add: create_sub_epoch_data_def summary_of_def)

lemma create_simps [simp]:
  "sed_num_blocks_overflow (create_sub_epoch_data s) = num_blocks_overflow s"
  "sed_new_difficulty (create_sub_epoch_data s) = ses_new_difficulty s"
  by (simp_all add: create_sub_epoch_data_def)

lemma summary_of_create [simp]: "prev_subepoch_summary_hash s = h \<Longrightarrow> summary_of h (create_sub_epoch_data s) = s"
  by (simp add: create_sub_epoch_data_def summary_of_def)

lemma summary_of_simps [simp]:
  "prev_subepoch_summary_hash (summary_of h data) = h"
  "num_blocks_overflow (summary_of h data) = sed_num_blocks_overflow data"
  "ses_new_difficulty (summary_of h data) = sed_new_difficulty data"
  by (simp_all add: summary_of_def)

lemma map_summaries_linked:
  assumes "map_summaries_loop cr n first h data d t = Ok (ss, tw, ws)"
  shows "linked_summaries cr h ss \<and> map create_sub_epoch_data ss = data \<and> tw = t + summaries_weight n first ss d"
  using assms
proof (induction data arbitrary: first h d t ss tw ws)
  case (Cons x rest)
  show ?case
  proof (cases rest)
    case Nil
    with Cons.prems show ?thesis by (auto simp: Let_def)
  next
    case C: (Cons after rest')
    from Cons.prems C obtain w e ws' h' ss' where
      e: "uint128 (d * sub_epoch_length n first x after) = Ok e" and h': "SubEpochSummary_hash cr (summary_of h x) = Ok h'"
      and r: "map_summaries_loop cr n False h' rest (next_curr_difficulty x d) (t + e) = Ok (ss', tw, ws')"
      and ss: "ss = summary_of h x # ss'"
      by (auto simp: Let_def)
    from Cons.IH [OF r] have ih: "linked_summaries cr h' ss'" "map create_sub_epoch_data ss' = rest"
      "tw = t + e + summaries_weight n False ss' (next_curr_difficulty x d)" by auto
    with C obtain s2 ss2 where s2: "ss' = s2 # ss2" "create_sub_epoch_data s2 = after" by (cases ss') auto
    have "sed_num_blocks_overflow after = num_blocks_overflow s2" using s2(2) by (auto simp: create_sub_epoch_data_def)
    with ih h' ss s2(1) e show ?thesis
      by (simp add: sub_epoch_length_def next_curr_difficulty_def)
  qed
qed auto

lemma linked_create_inject:
  assumes "linked_summaries cr h ss" and "linked_summaries cr h ss'"
    and "map create_sub_epoch_data ss = map create_sub_epoch_data ss'"
  shows "ss = ss'"
  using assms
proof (induction ss arbitrary: h ss')
  case (Cons s ss)
  then obtain s' ss'' where ss': "ss' = s' # ss''" by (cases ss') auto
  with Cons.prems have p: "prev_subepoch_summary_hash s = h" "prev_subepoch_summary_hash s' = h"
    and c: "create_sub_epoch_data s = create_sub_epoch_data s'" by simp_all
  have "s = s'" by (metis summary_of_create p c)
  with Cons.prems ss' obtain h' where "linked_summaries cr h' ss" "linked_summaries cr h' ss''"
    "map create_sub_epoch_data ss = map create_sub_epoch_data ss''"
    by (auto simp del: summary_of_create)
  from Cons.IH [OF this] \<open>s = s'\<close> ss' show ?case by simp
qed simp

text \<open>The hash after a list of summaries: of the last one.\<close>

definition end_hash :: "crypto \<Rightarrow> bytes \<Rightarrow> SubEpochSummary list \<Rightarrow> bytes res" where
  "end_hash cr h ss = (if ss = [] then Ok h else SubEpochSummary_hash cr (last ss))"

lemma linked_snoc:
  "linked_summaries cr h (ss @ [s]) \<longleftrightarrow>
     linked_summaries cr h ss \<and> end_hash cr h ss = Ok (prev_subepoch_summary_hash s) \<and>
     (\<exists>h'. SubEpochSummary_hash cr s = Ok h')"
proof (induction ss arbitrary: h)
  case (Cons x ss)
  then show ?case by (cases ss) (auto simp: end_hash_def)
qed (auto simp: end_hash_def)

text \<open>Two hash chains with the same end are equal, up to a collision or a summary that hashes to the start.\<close>

lemma linked_summaries_binding:
  assumes "linked_summaries cr g ss" and "linked_summaries cr g ss'"
    and "end_hash cr g ss = Ok h" and "end_hash cr g ss' = Ok h"
  shows "ss = ss' \<or> (\<exists>x y. hash_collision cr SubEpochSummary_type (SubEpochSummary_val x) (SubEpochSummary_val y)) \<or>
     (\<exists>s\<in>set ss \<union> set ss'. SubEpochSummary_hash cr s = Ok g)"
  using assms
proof (induction ss arbitrary: ss' h rule: rev_induct)
  case Nil
  then show ?case by (cases ss' rule: rev_cases) (auto simp: end_hash_def)
next
  case (snoc s ss)
  show ?case
  proof (cases ss' rule: rev_cases)
    case Nil
    with snoc.prems show ?thesis by (auto simp: end_hash_def)
  next
    case S: (snoc ys s')
    from snoc.prems S have "SubEpochSummary_hash cr s = Ok h" "SubEpochSummary_hash cr s' = Ok h"
      by (auto simp: end_hash_def)
    from SubEpochSummary_hash_binding [OF this] consider "s = s'"
      | "hash_collision cr SubEpochSummary_type (SubEpochSummary_val s) (SubEpochSummary_val s')" by blast
    then show ?thesis
    proof cases
      case 1
      with snoc.prems S have "linked_summaries cr g ss" "linked_summaries cr g ys"
        "end_hash cr g ss = Ok (prev_subepoch_summary_hash s)" "end_hash cr g ys = Ok (prev_subepoch_summary_hash s)"
        by (simp_all add: linked_snoc)
      from snoc.IH [OF this] 1 S show ?thesis by auto
    qed blast
  qed
qed

text \<open>The data of linked summaries is turned back into them; no sum leaves the range of \<^verbatim>\<open>uint128\<close>.\<close>

definition summary_sizes_ok :: "SubEpochSummary \<Rightarrow> bool" where
  "summary_sizes_ok s \<longleftrightarrow> 0 \<le> num_blocks_overflow s \<and> num_blocks_overflow s < 256 \<and>
     (\<forall>d. ses_new_difficulty s = Some d \<longrightarrow> 0 \<le> d \<and> d < 2 ^ 64)"

lemma sub_epoch_weight_bounds:
  assumes "0 \<le> (d::int)" "d < 2 ^ 64" "0 \<le> l" "l < 2 ^ 33"
  shows "0 \<le> d * l" "d * l \<le> 2 ^ 97"
proof -
  show "0 \<le> d * l" using assms by simp
  have "d * l \<le> 2 ^ 64 * 2 ^ 33" using assms by (intro mult_mono) simp_all
  then show "d * l \<le> 2 ^ 97" by simp
qed

lemma map_summaries_runs:
  assumes "linked_summaries cr h ss" and "\<forall>s\<in>set ss. summary_sizes_ok s" and "0 \<le> d" "d < 2 ^ 64"
    and "256 \<le> n" "n < 2 ^ 32" and "0 \<le> t" "t + int (length ss) * 2 ^ 97 + 2 ^ 64 \<le> 2 ^ 128"
  shows "\<exists>r. map_summaries_loop cr n first h (map create_sub_epoch_data ss) d t = Ok r"
  using assms
proof (induction ss arbitrary: first h d t)
  case (Cons s ss)
  from Cons.prems(1) obtain h' where s: "prev_subepoch_summary_hash s = h" and h': "SubEpochSummary_hash cr s = Ok h'"
    and l: "linked_summaries cr h' ss" by auto
  define d' where "d' = next_curr_difficulty (create_sub_epoch_data s) d"
  have d': "0 \<le> d'" "d' < 2 ^ 64"
    using Cons.prems(2-4) by (auto simp: d'_def next_curr_difficulty_def create_sub_epoch_data_def summary_sizes_ok_def
        split: option.splits)
  show ?case
  proof (cases ss)
    case Nil
    with s h' d' Cons.prems(7,8) show ?thesis by (auto simp: rbind_eq_Ok d'_def Let_def)
  next
    case C: (Cons s2 ss2)
    let ?l = "sub_epoch_length n first (create_sub_epoch_data s) (create_sub_epoch_data s2)"
    have "0 \<le> ?l" "?l < 2 ^ 33"
      using Cons.prems(2,5,6) C by (auto simp: sub_epoch_length_def create_sub_epoch_data_def summary_sizes_ok_def)
    note b = sub_epoch_weight_bounds [OF Cons.prems(3,4) this]
    have "\<exists>r. map_summaries_loop cr n False h' (map create_sub_epoch_data ss) d' (t + d * ?l) = Ok r"
      using Cons.prems(2,5-8) d' l b by (intro Cons.IH) (auto simp: algebra_simps)
    then obtain r where r: "map_summaries_loop cr n False h' (map create_sub_epoch_data ss) d' (t + d * ?l) = Ok r" ..
    have w: "uint128 (t + d) = Ok (t + d)" "uint128 (d * ?l) = Ok (d * ?l)"
      using Cons.prems(3,4,7,8) b by (auto simp: algebra_simps)
    with C s h' r show ?thesis
      by (auto simp: Let_def d'_def split: prod.splits)
  qed
qed simp

lemma map_create_summaries:
  assumes "linked_summaries cr h ss" and "\<forall>s\<in>set ss. summary_sizes_ok s" and "0 \<le> d" "d < 2 ^ 64"
    and "256 \<le> n" "n < 2 ^ 32" and "int (length ss) < 2 ^ 30"
  shows "\<exists>ws. map_sub_epoch_summaries cr n h (map create_sub_epoch_data ss) d = Ok (ss, summaries_weight n True ss d, ws)"
proof -
  have "\<exists>r. map_summaries_loop cr n True h (map create_sub_epoch_data ss) d 0 = Ok r"
    using assms by (intro map_summaries_runs) simp_all
  then obtain ss' tw ws where r: "map_summaries_loop cr n True h (map create_sub_epoch_data ss) d 0 = Ok (ss', tw, ws)"
    by auto
  note m = map_summaries_linked [OF r]
  have "ss = ss'" by (rule linked_create_inject [OF assms(1) conjunct1 [OF m] conjunct1 [OF conjunct2 [OF m], symmetric]])
  with r conjunct2 [OF conjunct2 [OF m]] show ?thesis unfolding map_sub_epoch_summaries_def by simp
qed

section \<open>An accepted proof\<close>

lemma first_ses_hash_found:
  assumes "first_ses_hash bs = Some (h, k)"
  shows "\<exists>b\<in>set bs. \<exists>s\<in>set (hb_finished_sub_slots b). subepoch_summary_hash (challenge_chain s) = Some h"
proof -
  let ?xs = "concat (map (\<lambda>b. map (\<lambda>h. (h, hb_height b))
      (List.map_filter (\<lambda>s. subepoch_summary_hash (challenge_chain s)) (hb_finished_sub_slots b))) bs)"
  from assms obtain rest where "?xs = (h, k) # rest" unfolding first_ses_hash_def by (cases ?xs) simp_all
  then have "(h, k) \<in> set ?xs" by (simp only: list.set_intros)
  then obtain b s where "b \<in> set bs" "s \<in> set (hb_finished_sub_slots b)"
    "subepoch_summary_hash (challenge_chain s) = Some h" by (auto simp: map_filter_def)
  then show ?thesis by blast
qed

lemma last_ses_hash_found:
  "get_last_ses_hash c bs = Ok (Some (h, k)) \<Longrightarrow>
   \<exists>b\<in>set bs. \<exists>s\<in>set (hb_finished_sub_slots b). subepoch_summary_hash (challenge_chain s) = Some h"
proof (induction bs)
  case (Cons b bs)
  then show ?case
    using first_ses_hash_found [of "b # bs" h k] by (auto split: if_splits)
qed simp

lemma accepted_summaries:
  assumes "validate_sub_epoch_summaries cr c wp = Ok (Some (ss, ws))"
  obtains h k b where "get_last_ses_hash c (recent_chain_data wp) = Ok (Some (h, k))"
    and "linked_summaries cr (GENESIS_CHALLENGE c) ss" and "map create_sub_epoch_data ss = sub_epochs wp"
    and "ss \<noteq> []" and "end_hash cr (GENESIS_CHALLENGE c) ss = Ok h"
    and "b \<in> set (recent_chain_data wp)"
    and "hb_height b = (int (length ss) - 1) * SUB_EPOCH_BLOCKS c + num_blocks_overflow (last ss) - 1"
    and "hb_weight b = summaries_weight (SUB_EPOCH_BLOCKS c) True ss (DIFFICULTY_STARTING c)"
proof -
  from assms obtain h k tw where h: "get_last_ses_hash c (recent_chain_data wp) = Ok (Some (h, k))"
    and m: "map_sub_epoch_summaries cr (SUB_EPOCH_BLOCKS c) (GENESIS_CHALLENGE c) (sub_epochs wp) (DIFFICULTY_STARTING c)
              = Ok (ss, tw, ws)"
    and w: "validate_summaries_weight c tw ss wp = Ok True"
    and l: "ss \<noteq> []" "SubEpochSummary_hash cr (last ss) = Ok h"
    by (auto simp: validate_sub_epoch_summaries_def py_last_eq split: option.splits if_splits)
  note m' = map_summaries_linked [OF m [unfolded map_sub_epoch_summaries_def]]
  from w l(1) obtain b where
    b: "List.find (\<lambda>b. hb_height b = (int (length ss) - 1) * SUB_EPOCH_BLOCKS c + num_blocks_overflow (last ss) - 1)
          (rev (recent_chain_data wp)) = Some b" "rcb_weight (hb_reward_chain_block b) = tw"
    by (auto simp: validate_summaries_weight_def py_last_eq Let_def split: option.splits)
  from b(1) have "b \<in> set (recent_chain_data wp)"
    "hb_height b = (int (length ss) - 1) * SUB_EPOCH_BLOCKS c + num_blocks_overflow (last ss) - 1"
    by (auto simp: find_Some_iff rev_nth)
  with h m' l b(2) show thesis by (intro that) (auto simp: end_hash_def hb_weight_def)
qed

lemma accepted_weight_proofE:
  assumes "validate_weight_proof cr c rs now blocks wp = Ok (True, f, ss)"
  obtains ws rng where "validate_sub_epoch_summaries cr c wp = Ok (Some (ss, ws))"
    and "validate_recent_blocks cr c now (recent_chain_data wp) ss = Ok True"
    and "validate_sub_epoch_segments cr c (random_choice rs) rng (sub_epoch_segments wp) ss = Ok True"
    and "get_fork_point cr blocks ss = Ok f"
  using assms
  by (auto simp: validate_weight_proof_def validate_summaries_and_sampling_def split: option.splits if_splits)

section \<open>The fork point\<close>

definition same_summary :: "crypto \<Rightarrow> BlockCache \<Rightarrow> SubEpochSummary list \<Rightarrow> nat \<Rightarrow> bool" where
  "same_summary cr blocks received i \<longleftrightarrow>
     (\<exists>s h. get_ses blocks (get_ses_heights blocks ! i) = Ok s \<and> SubEpochSummary_hash cr s = Ok h \<and>
        SubEpochSummary_hash cr (received ! i) = Ok h)"

text \<open>While the loop runs, every summary before \<open>idx\<close> is shared.\<close>

lemma fork_point_index_common:
  assumes "fork_point_index cr blocks received idx hs (idx - 1) = Ok k"
    and "get_ses_heights blocks = hs0 @ hs" and "length hs0 = idx"
    and "\<forall>i<idx. same_summary cr blocks received i" and "idx < length received"
  shows "\<exists>n. k = n - 1 \<and> idx \<le> n \<and> n < length received \<and> n \<le> length (get_ses_heights blocks) \<and>
     (\<forall>i<n. same_summary cr blocks received i) \<and>
     (n = length (get_ses_heights blocks) \<or> n = length received - 1 \<or> \<not> same_summary cr blocks received n)"
  using assms
proof (induction hs arbitrary: idx hs0)
  case Nil
  then show ?case by auto
next
  case (Cons x hs)
  have x: "get_ses_heights blocks ! idx = x" using Cons.prems(2,3) by (simp add: nth_append)
  from Cons.prems(1) obtain s where s: "get_ses blocks x = Ok s" by auto
  show ?case
  proof (cases "idx = length received - 1")
    case True
    with Cons.prems s show ?thesis by (intro exI [of _ idx]) auto
  next
    case False
    with Cons.prems(1,5) s obtain h h' where h: "SubEpochSummary_hash cr s = Ok h" "SubEpochSummary_hash cr (received ! idx) = Ok h'"
      and r: "(if h \<noteq> h' then Ok (idx - 1) else fork_point_index cr blocks received (Suc idx) hs idx) = Ok k"
      by (auto simp: py_nth_nat split: if_splits)
    show ?thesis
    proof (cases "h = h'")
      case True
      with h s x have "same_summary cr blocks received idx" by (auto simp: same_summary_def)
      with Cons.prems(4) have c: "\<forall>i<Suc idx. same_summary cr blocks received i" by (auto simp: less_Suc_eq)
      from r True have r': "fork_point_index cr blocks received (Suc idx) hs (Suc idx - 1) = Ok k" by simp
      have "get_ses_heights blocks = (hs0 @ [x]) @ hs" "length (hs0 @ [x]) = Suc idx" "Suc idx < length received"
        using Cons.prems(2,3,5) False by simp_all
      from Cons.IH [OF r' this(1,2) c this(3)] show ?thesis
        by (elim exE conjE, intro exI conjI) (assumption | erule Suc_leD)+
    next
      case False
      with h s x have "\<not> same_summary cr blocks received idx" by (auto simp: same_summary_def)
      with Cons.prems r False show ?thesis by (intro exI [of _ idx]) auto
    qed
  qed
qed

section \<open>The blocks at the end\<close>

text \<open>The difficulty announced by finished slots.\<close>

definition diff_after :: "int \<Rightarrow> EndOfSubSlotBundle list \<Rightarrow> int" where
  "diff_after d slots = foldl (\<lambda>d s. case cc_new_difficulty (challenge_chain s) of None \<Rightarrow> d | Some x \<Rightarrow> x) d slots"

definition all_slots :: "HeaderBlock list \<Rightarrow> EndOfSubSlotBundle list" where
  "all_slots bs = concat (map hb_finished_sub_slots bs)"

definition ses_hashes :: "EndOfSubSlotBundle list \<Rightarrow> bytes list" where
  "ses_hashes slots = List.map_filter (\<lambda>s. subepoch_summary_hash (challenge_chain s)) slots"

text \<open>Enough came before for a block to be validated in full.\<close>

definition enough_before :: "HeaderBlock list \<Rightarrow> bool" where
  "enough_before bs \<longleftrightarrow> length (filter (\<lambda>b. hb_finished_sub_slots b \<noteq> []) bs) > 2 \<and>
     length (filter (\<lambda>b. rcb_is_transaction_block (hb_reward_chain_block b)) bs) > 11"

text \<open>The local variables after the blocks \<open>bs\<close>, from the state \<open>s0\<close>.\<close>

definition cached_from :: "crypto \<Rightarrow> HeaderBlock list \<Rightarrow> BlockCache \<Rightarrow> bool" where
  "cached_from cr bs s \<longleftrightarrow> (\<forall>h r. block_records s h = Some r \<longrightarrow>
     (\<exists>b\<in>set bs. hb_header_hash cr b = Ok h \<and> height r = hb_height b \<and> weight r = hb_weight b))"

definition recent_inv :: "crypto \<Rightarrow> RecentState \<Rightarrow> HeaderBlock list \<Rightarrow> RecentState \<Rightarrow> bool" where
  "recent_inv cr s0 bs st \<longleftrightarrow> cached_from cr bs (rs_blocks st) \<and>
     rs_diff st = diff_after (rs_diff s0) (all_slots bs) \<and>
     rs_ses_idx st = rs_ses_idx s0 + int (length (ses_hashes (all_slots bs))) \<and>
     rs_sub_slots st = int (length (filter (\<lambda>b. hb_finished_sub_slots b \<noteq> []) bs)) \<and>
     rs_transaction_blocks st = int (length (filter (\<lambda>b. rcb_is_transaction_block (hb_reward_chain_block b)) bs)) \<and>
     (all_slots bs \<noteq> [] \<longrightarrow> rs_challenge st \<noteq> None) \<and> (2 \<le> length (all_slots bs) \<longrightarrow> rs_prev_challenge st \<noteq> None)"

lemma all_slots_snoc [simp]: "all_slots (bs @ [b]) = all_slots bs @ hb_finished_sub_slots b"
  by (simp add: all_slots_def)

lemma diff_after_append [simp]: "diff_after d (xs @ ys) = diff_after (diff_after d xs) ys"
  by (simp add: diff_after_def)

lemma ses_hashes_append [simp]: "ses_hashes (xs @ ys) = ses_hashes xs @ ses_hashes ys"
  by (simp add: ses_hashes_def map_filter_def)

lemma enough_before_slots: "enough_before bs \<Longrightarrow> 2 \<le> length (all_slots bs)"
proof -
  have "length (filter (\<lambda>b. hb_finished_sub_slots b \<noteq> []) bs) \<le> length (all_slots bs)"
  proof (induction bs)
    case (Cons b bs)
    then show ?case by (cases "hb_finished_sub_slots b") (auto simp: all_slots_def)
  qed (simp add: all_slots_def)
  then show "enough_before bs \<Longrightarrow> 2 \<le> length (all_slots bs)" by (simp add: enough_before_def)
qed

text \<open>The slots of one block.\<close>

lemma recent_slots:
  assumes "rfold (recent_slot cr summaries) slots (st, ses) = Ok (st', ses')"
  shows "rs_blocks st' = rs_blocks st \<and> rs_diff st' = diff_after (rs_diff st) slots \<and>
     rs_ses_idx st' = rs_ses_idx st + int (length (ses_hashes slots)) \<and>
     rs_sub_slots st' = rs_sub_slots st \<and> rs_transaction_blocks st' = rs_transaction_blocks st \<and>
     (rs_challenge st \<noteq> None \<or> slots \<noteq> [] \<longrightarrow> rs_challenge st' \<noteq> None) \<and>
     (rs_prev_challenge st \<noteq> None \<and> rs_challenge st \<noteq> None \<or> rs_challenge st \<noteq> None \<and> slots \<noteq> [] \<or>
        2 \<le> length slots \<longrightarrow> rs_prev_challenge st' \<noteq> None) \<and>
     (\<forall>k<length (ses_hashes slots). \<exists>s. py_nth summaries (rs_ses_idx st + int k) = Ok s \<and>
        SubEpochSummary_hash cr s = Ok (ses_hashes slots ! k))"
  using assms
proof (induction slots arbitrary: st ses)
  case Nil
  then show ?case by (simp add: diff_after_def ses_hashes_def map_filter_def)
next
  case (Cons slot slots)
  from Cons.prems obtain st1 ses1 where 1: "recent_slot cr summaries slot (st, ses) = Ok (st1, ses1)"
    and r: "rfold (recent_slot cr summaries) slots (st1, ses1) = Ok (st', ses')" by auto
  note ih = Cons.IH [OF r]
  let ?n = "ses_hashes [slot]"
  from 1 have s: "rs_blocks st1 = rs_blocks st" "rs_diff st1 = diff_after (rs_diff st) [slot]"
    "rs_ses_idx st1 = rs_ses_idx st + int (length ?n)" "rs_sub_slots st1 = rs_sub_slots st"
    "rs_transaction_blocks st1 = rs_transaction_blocks st" "rs_challenge st1 \<noteq> None" "rs_prev_challenge st1 = rs_challenge st"
    and k: "\<forall>k<length ?n. \<exists>s. py_nth summaries (rs_ses_idx st + int k) = Ok s \<and> SubEpochSummary_hash cr s = Ok (?n ! k)"
    by (auto simp: recent_slot_def Let_def diff_after_def ses_hashes_def map_filter_def split: option.splits)
  have app: "ses_hashes (slot # slots) = ?n @ ses_hashes slots" "diff_after d (slot # slots) = diff_after (diff_after d [slot]) slots" for d
    using ses_hashes_append [of "[slot]" slots] diff_after_append [of d "[slot]" slots] by simp_all
  have "\<forall>k<length (?n @ ses_hashes slots). \<exists>s. py_nth summaries (rs_ses_idx st + int k) = Ok s \<and>
        SubEpochSummary_hash cr s = Ok ((?n @ ses_hashes slots) ! k)"
  proof (intro allI impI)
    fix i assume i: "i < length (?n @ ses_hashes slots)"
    show "\<exists>s. py_nth summaries (rs_ses_idx st + int i) = Ok s \<and> SubEpochSummary_hash cr s = Ok ((?n @ ses_hashes slots) ! i)"
    proof (cases "i < length ?n")
      case True
      with k show ?thesis by (simp add: nth_append)
    next
      case False
      with i have "i - length ?n < length (ses_hashes slots)" by simp
      moreover have "rs_ses_idx st1 + int (i - length ?n) = rs_ses_idx st + int i" using False s(3) by simp
      ultimately show ?thesis using ih False by (metis nth_append)
    qed
  qed
  with ih s app show ?case by auto
qed

lemma cached_from_add:
  assumes "cached_from cr bs s" and "hb_header_hash cr b = Ok (header_hash r)" and "height r = hb_height b" "weight r = hb_weight b"
  shows "cached_from cr (bs @ [b]) (add_block_record s r)"
  using assms unfolding cached_from_def add_block_record_def by (auto split: if_splits)

text \<open>What is checked of one block: its header, against the records of the blocks before it, and the summaries
  its slots name.\<close>

definition recent_ok ::
    "crypto \<Rightarrow> ConsensusConstants \<Rightarrow> RecentState \<Rightarrow> SubEpochSummary list \<Rightarrow> int \<Rightarrow> int \<Rightarrow> HeaderBlock list \<Rightarrow> HeaderBlock \<Rightarrow>
     bool" where
  "recent_ok cr c s0 summaries tip_height now bs b \<longleftrightarrow>
     (enough_before bs \<and> tip_height - hb_height b < 100 \<longrightarrow>
        (\<exists>s i ses r. cached_from cr bs s \<and>
           validate_finished_header_block cr c s b False (diff_after (rs_diff s0) (all_slots (bs @ [b]))) i ses now = Valid r)) \<and>
     (\<forall>k<length (ses_hashes (hb_finished_sub_slots b)). \<exists>s.
        py_nth summaries (rs_ses_idx s0 + int (length (ses_hashes (all_slots bs)) + k)) = Ok s \<and>
        SubEpochSummary_hash cr s = Ok (ses_hashes (hb_finished_sub_slots b) ! k))"

lemma recent_block_ok:
  assumes inv: "recent_inv cr s0 bs st" and r: "recent_block cr c summaries tip_height now b st = Ok (Some st')"
  shows "recent_inv cr s0 (bs @ [b]) st' \<and> recent_ok cr c s0 summaries tip_height now bs b"
proof -
  from r obtain st1 ses req ovf dfct sm br where
    s: "rfold (recent_slot cr summaries) (hb_finished_sub_slots b) (st, False) = Ok (st1, ses)"
    and ck: "check_recent_block cr c tip_height now b st1 = Ok (Some req, ovf, dfct)"
    and br: "header_block_to_sub_block_record cr c req b (rs_ssi st1) ovf dfct (hb_height b) sm = Ok br"
    and st': "st' = st1\<lparr>rs_blocks := add_block_record (rs_blocks st1) br, rs_deficit := dfct,
         rs_sub_slots := rs_sub_slots st1 + (if hb_finished_sub_slots b \<noteq> [] then 1 else 0),
         rs_transaction_blocks := rs_transaction_blocks st1 + (if rcb_is_transaction_block (hb_reward_chain_block b) then 1 else 0),
         rs_ses_blocks := rs_ses_blocks st1 + (if ses then 1 else 0), rs_prev_block_record := Some br\<rparr>"
    unfolding recent_block_def by (auto split: option.splits)
  note sl = recent_slots [OF s]
  note a = block_record_agrees [OF br]
  have "cached_from cr (bs @ [b]) (rs_blocks st')"
    using cached_from_add [of cr bs "rs_blocks st" b br] inv sl a unfolding recent_inv_def st' by simp
  moreover have "all_slots (bs @ [b]) \<noteq> [] \<longrightarrow> rs_challenge st1 \<noteq> None"
    using inv sl unfolding recent_inv_def by auto
  moreover have p: "2 \<le> length (all_slots (bs @ [b])) \<longrightarrow> rs_prev_challenge st1 \<noteq> None"
  proof
    assume l: "2 \<le> length (all_slots (bs @ [b]))"
    show "rs_prev_challenge st1 \<noteq> None"
    proof (cases "hb_finished_sub_slots b")
      case Nil
      with l inv sl show ?thesis unfolding recent_inv_def by auto
    next
      case (Cons x xs)
      with l have "all_slots bs \<noteq> [] \<or> 2 \<le> length (hb_finished_sub_slots b)" by (cases "all_slots bs") auto
      with Cons inv sl show ?thesis unfolding recent_inv_def by auto
    qed
  qed
  ultimately have 1: "recent_inv cr s0 (bs @ [b]) st'"
    using inv sl unfolding recent_inv_def st' by simp
  have "\<exists>s i ses r. cached_from cr bs s \<and>
       validate_finished_header_block cr c s b False (diff_after (rs_diff s0) (all_slots (bs @ [b]))) i ses now = Valid r"
    if e: "enough_before bs" "tip_height - hb_height b < 100"
  proof -
    from enough_before_slots [OF e(1)] have "2 \<le> length (all_slots (bs @ [b]))" by simp
    with p have "rs_prev_challenge st1 \<noteq> None" by simp
    moreover have "rs_challenge st1 \<noteq> None" using enough_before_slots [OF e(1)] inv sl unfolding recent_inv_def by auto
    moreover have "fully_validated tip_height st1 b" using e inv sl unfolding recent_inv_def enough_before_def fully_validated_def by auto
    ultimately obtain r where
      "validate_finished_header_block cr c (rs_blocks st1) b False (rs_diff st1) (rs_ssi st1) (rs_ses_blocks st1 > 2) now = Valid r"
      using ck unfolding check_recent_block_def by (auto split: sum.splits)
    moreover have "cached_from cr bs (rs_blocks st1)" "rs_diff st1 = diff_after (rs_diff s0) (all_slots (bs @ [b]))"
      using inv sl unfolding recent_inv_def by simp_all
    ultimately show ?thesis by metis
  qed
  moreover have "\<forall>k<length (ses_hashes (hb_finished_sub_slots b)). \<exists>s.
      py_nth summaries (rs_ses_idx s0 + int (length (ses_hashes (all_slots bs)) + k)) = Ok s \<and>
      SubEpochSummary_hash cr s = Ok (ses_hashes (hb_finished_sub_slots b) ! k)"
    using inv sl unfolding recent_inv_def by (simp add: add.assoc)
  ultimately show ?thesis using 1 unfolding recent_ok_def by blast
qed

lemma recent_loop_ok:
  assumes "recent_blocks_loop cr c summaries tip_height now bs st = Ok True" and "recent_inv cr s0 pre st"
  shows "\<forall>i<length bs. recent_ok cr c s0 summaries tip_height now (pre @ take i bs) (bs ! i)"
  using assms
proof (induction bs arbitrary: pre st)
  case (Cons b bs)
  from Cons.prems(1) obtain st' where r: "recent_block cr c summaries tip_height now b st = Ok (Some st')"
    and n: "recent_blocks_loop cr c summaries tip_height now bs st' = Ok True" by (auto split: option.splits)
  note o = recent_block_ok [OF Cons.prems(2) r]
  from Cons.IH [OF n conjunct1 [OF o]] o show ?case by (auto simp: nth_Cons less_Suc_eq_0_disj split: nat.splits)
qed simp

lemma recent_start_inv: "recent_inv cr (recent_start c summaries bs) [] (recent_start c summaries bs)"
  by (simp add: recent_inv_def recent_start_def Let_def all_slots_def diff_after_def ses_hashes_def map_filter_def cached_from_def
      init_BlockCache_def split: prod.splits)

lemma validated_recent_blocks:
  assumes "validate_recent_blocks cr c now bs summaries = Ok True" and "i < length bs"
  shows "recent_ok cr c (recent_start c summaries bs) summaries (hb_height (last bs)) now (take i bs) (bs ! i)"
proof -
  from assms(1) have "recent_blocks_loop cr c summaries (hb_height (last bs)) now bs (recent_start c summaries bs) = Ok True"
    by (auto simp: validate_recent_blocks_def py_last_eq split: if_splits)
  from recent_loop_ok [OF this recent_start_inv] assms(2) show ?thesis by simp
qed

end
