(* ===== verification/Weight_Proof_Creation.thy ===== *)
theory Weight_Proof_Creation
  imports Weight_Proof Blockchain
begin

text \<open>
  \<^verbatim>\<open>full_node/weight_proof.py\<close>, the creation of a weight proof: the data of the summaries, the recent blocks, and for
  every sampled sub-epoch its challenge segments, built from the blocks of the main chain or read from the
  store.

  The dictionaries of header blocks and records a method reads first are passed as maps (\<open>get\<close> raises
  \<^verbatim>\<open>KeyError\<close>), and \<^verbatim>\<open>header_blocks[self.blockchain.height_to_hash(h)]\<close> is the argument \<open>block_at\<close>. Results that
  are \<^verbatim>\<open>None\<close> only when a dictionary holds \<^verbatim>\<open>None\<close>, which none does, are not optional here.
\<close>

definition dict_get :: "(bytes \<Rightarrow> 'v option) \<Rightarrow> bytes \<Rightarrow> 'v res" where
  "dict_get d k = unwrap KeyError (d k)"

abbreviation records_cache :: "(bytes \<Rightarrow> BlockRecord option) \<Rightarrow> BlockCache" where
  "records_cache blocks \<equiv> init_BlockCache blocks Map.empty Map.empty []"

definition empty_ssd :: SubSlotData where
  "empty_ssd = \<lparr>ssd_proof_of_space = None, cc_signage_point = None, cc_infusion_point = None, icc_infusion_point = None,
     cc_sp_vdf_info = None, ssd_signage_point_index = None, cc_slot_end = None, icc_slot_end = None,
     cc_slot_end_info = None, icc_slot_end_info = None, cc_ip_vdf_info = None, icc_ip_vdf_info = None,
     ssd_total_iters = None\<rparr>"

section \<open>The data of a slot\<close>

text \<open>The iterations from the start of the VDF to the signage point of a block.\<close>

definition cc_vdf_iters ::
    "crypto \<Rightarrow> ConsensusConstants \<Rightarrow> HeaderBlock \<Rightarrow> BlockRecord \<Rightarrow> (bytes \<Rightarrow> BlockRecord option) \<Rightarrow> int res" where
  "cc_vdf_iters cr c header_block block_rec blocks =
     rbind (if hb_height header_block = 0 then Ok None
            else rbind (dict_get blocks (hb_prev_header_hash header_block)) (\<lambda>b. Ok (Some b))) (\<lambda>prev_b.
     rbind (sp_total_iters c block_rec) (\<lambda>sp_total.
     rbind (sp_iters c block_rec) (\<lambda>sp.
     rbind (get_signage_point_vdf_info cr c (hb_finished_sub_slots header_block) (overflow block_rec) prev_b
              (records_cache blocks) sp_total sp) (\<lambda>(_, _, _, _, cc_vdf_iters, _). Ok cc_vdf_iters))))"

definition challenge_block_vdfs ::
    "crypto \<Rightarrow> ConsensusConstants \<Rightarrow> HeaderBlock \<Rightarrow> BlockRecord \<Rightarrow> (bytes \<Rightarrow> BlockRecord option) \<Rightarrow> SubSlotData res" where
  "challenge_block_vdfs cr c header_block block_rec blocks =
     (let rcb = hb_reward_chain_block header_block in
      rbind (cc_vdf_iters cr c header_block block_rec blocks) (\<lambda>iters.
      rbind (case rcb_challenge_chain_sp_vdf rcb of None \<Rightarrow> Ok None
             | Some v \<Rightarrow> rbind (unwrap AssertionError (hb_challenge_chain_sp_proof header_block)) (\<lambda>p.
                 Ok (Some (if normalized_to_identity p then v else v\<lparr>number_of_iterations := iters\<rparr>)))) (\<lambda>cc_sp_info.
        Ok (empty_ssd\<lparr>ssd_proof_of_space := Some (rcb_proof_of_space rcb),
              cc_signage_point := hb_challenge_chain_sp_proof header_block,
              cc_infusion_point := Some (hb_challenge_chain_ip_proof header_block), cc_sp_vdf_info := cc_sp_info,
              ssd_signage_point_index := Some (rcb_signage_point_index rcb),
              cc_ip_vdf_info := Some (rcb_challenge_chain_ip_vdf rcb),
              icc_ip_vdf_info := rcb_infused_challenge_chain_ip_vdf rcb,
              ssd_total_iters := Some (total_iters block_rec)\<rparr>))))"

definition handle_finished_slots :: "EndOfSubSlotBundle \<Rightarrow> VDFInfo option \<Rightarrow> SubSlotData" where
  "handle_finished_slots end_of_slot icc_end_of_slot_info =
     empty_ssd\<lparr>cc_slot_end := Some (challenge_chain_slot_proof (proofs end_of_slot)),
       icc_slot_end := infused_challenge_chain_slot_proof (proofs end_of_slot),
       cc_slot_end_info := Some (challenge_chain_end_of_slot_vdf (challenge_chain end_of_slot)),
       icc_slot_end_info := icc_end_of_slot_info\<rparr>"

definition handle_end_of_slot :: "EndOfSubSlotBundle \<Rightarrow> int \<Rightarrow> SubSlotData res" where
  "handle_end_of_slot sub_slot eos_vdf_iters =
     rbind (unwrap AssertionError (infused_challenge_chain sub_slot)) (\<lambda>icc.
     rbind (unwrap AssertionError (infused_challenge_chain_slot_proof (proofs sub_slot))) (\<lambda>icc_proof.
     let cc_proof = challenge_chain_slot_proof (proofs sub_slot);
         icc_info = infused_challenge_chain_end_of_slot_vdf icc;
         cc_info = challenge_chain_end_of_slot_vdf (challenge_chain sub_slot) in
     Ok (empty_ssd\<lparr>cc_slot_end := Some cc_proof, icc_slot_end := Some icc_proof,
           cc_slot_end_info := Some (if normalized_to_identity cc_proof then cc_info
                                     else cc_info\<lparr>number_of_iterations := eos_vdf_iters\<rparr>),
           icc_slot_end_info := Some (if normalized_to_identity icc_proof then icc_info
                                      else icc_info\<lparr>number_of_iterations := eos_vdf_iters\<rparr>)\<rparr>)))"

text \<open>The shortened segment is built and the whole one returned.\<close>

definition compress_segment :: "SubEpochChallengeSegment \<Rightarrow> SubEpochChallengeSegment" where
  "compress_segment segment = segment"

definition compress_segments ::
    "int \<Rightarrow> SubEpochChallengeSegment list \<Rightarrow> SubEpochChallengeSegment list res" where
  "compress_segments full_segment_index segments =
     rbind (py_nth segments 0) (\<lambda>first.
       Ok (first # map (\<lambda>(idx, s). if int idx \<noteq> full_segment_index then compress_segment s else s)
                     (enumerate 0 (tl segments))))"

definition blue_boxed_end_of_slot :: "EndOfSubSlotBundle \<Rightarrow> bool" where
  "blue_boxed_end_of_slot sub_slot =
     (normalized_to_identity (challenge_chain_slot_proof (proofs sub_slot)) \<and>
      (case infused_challenge_chain_slot_proof (proofs sub_slot) of None \<Rightarrow> True | Some p \<Rightarrow> normalized_to_identity p))"

definition handle_block_vdfs ::
    "crypto \<Rightarrow> ConsensusConstants \<Rightarrow> HeaderBlock \<Rightarrow> (bytes \<Rightarrow> BlockRecord option) \<Rightarrow> SubSlotData res" where
  "handle_block_vdfs cr c b blocks =
     (let rcb = hb_reward_chain_block b in
      rbind (hb_header_hash cr b) (\<lambda>hh.
      rbind (dict_get blocks hh) (\<lambda>block_record.
      rbind (case hb_infused_challenge_chain_ip_proof b of None \<Rightarrow> Ok (None, None)
             | Some p \<Rightarrow> rbind (unwrap AssertionError (rcb_infused_challenge_chain_ip_vdf rcb)) (\<lambda>v.
                 Ok (Some p, Some v))) (\<lambda>(icc_ip_proof, icc_ip_info).
      rbind (case hb_challenge_chain_sp_proof b of None \<Rightarrow> Ok (None, None)
             | Some p \<Rightarrow> rbind (unwrap AssertionError (rcb_challenge_chain_sp_vdf rcb)) (\<lambda>v.
                 if normalized_to_identity p then Ok (Some p, Some v)
                 else rbind (cc_vdf_iters cr c b block_record blocks) (\<lambda>iters.
                        Ok (Some p, Some (v\<lparr>number_of_iterations := iters\<rparr>))))) (\<lambda>(cc_sp_proof, cc_sp_info).
        Ok (empty_ssd\<lparr>cc_signage_point := cc_sp_proof, cc_infusion_point := Some (hb_challenge_chain_ip_proof b),
              icc_infusion_point := icc_ip_proof, cc_sp_vdf_info := cc_sp_info,
              ssd_signage_point_index := Some (rcb_signage_point_index rcb),
              cc_ip_vdf_info := Some (rcb_challenge_chain_ip_vdf rcb), icc_ip_vdf_info := icc_ip_info,
              ssd_total_iters := Some (hb_total_iters b)\<rparr>))))))"

section \<open>A challenge segment\<close>

definition first_rc_end_of_slot_vdf ::
    "crypto \<Rightarrow> HeaderBlock \<Rightarrow> (bytes \<Rightarrow> BlockRecord option) \<Rightarrow> (bytes \<Rightarrow> HeaderBlock option) \<Rightarrow> VDFInfo res" where
  "first_rc_end_of_slot_vdf cr header_block blocks header_blocks =
     rbind (hb_header_hash cr header_block) (\<lambda>hh.
     rbind (dict_get blocks hh) (\<lambda>b.
     rbind (walk (dict_get blocks) (\<lambda>b. height b > 0 \<and> sub_epoch_summary_included b = None) b) (\<lambda>b.
     rbind (dict_get header_blocks (header_hash b)) (\<lambda>hb.
     rbind (py_last (hb_finished_sub_slots hb)) (\<lambda>s. Ok (end_of_slot_vdf (reward_chain s)))))))"

definition finished_slots_data :: "HeaderBlock \<Rightarrow> SubSlotData list" where
  "finished_slots_data b =
     map (\<lambda>s. handle_finished_slots s (map_option infused_challenge_chain_end_of_slot_vdf (infused_challenge_chain s)))
       (hb_finished_sub_slots b)"

text \<open>The blocks up to the challenge block; \<open>data\<close> and \<open>tmp\<close> are \<^verbatim>\<open>sub_slots_data\<close> and \<^verbatim>\<open>tmp_sub_slots_data\<close>.\<close>

partial_function (option) before_challenge_loop ::
    "(int \<Rightarrow> HeaderBlock res) \<Rightarrow> int \<Rightarrow> HeaderBlock \<Rightarrow> SubSlotData list \<Rightarrow> SubSlotData list \<Rightarrow> SubSlotData list res" where
  "before_challenge_loop block_at stop b data tmp =
     (if hb_height b < stop then
        let (data, tmp) = (case hb_finished_sub_slots b of [] \<Rightarrow> (data, tmp)
              | s # _ \<Rightarrow> ((if blue_boxed_end_of_slot s then data else data @ tmp) @ finished_slots_data b, []));
            ssd = empty_ssd\<lparr>ssd_signage_point_index := Some (rcb_signage_point_index (hb_reward_chain_block b)),
                    cc_ip_vdf_info := Some (rcb_challenge_chain_ip_vdf (hb_reward_chain_block b)),
                    icc_ip_vdf_info := rcb_infused_challenge_chain_ip_vdf (hb_reward_chain_block b),
                    ssd_total_iters := Some (hb_total_iters b)\<rparr> in
        rbind (uint32 (hb_height b + 1)) (\<lambda>h.
        rbind (block_at h) (\<lambda>b'. before_challenge_loop block_at stop b' data (tmp @ [ssd])))
      else Ok (data @ tmp))"

declare before_challenge_loop.simps [code]

text \<open>Where the slots before the challenge block start.\<close>

definition first_slot_start ::
    "(bytes \<Rightarrow> BlockRecord option) \<Rightarrow> BlockRecord \<Rightarrow> bool \<Rightarrow> BlockRecord res" where
  "first_slot_start blocks rec first_in_sub_epoch =
     (if first_in_sub_epoch \<and> height rec > 0 then
        walk (dict_get blocks) (\<lambda>b. sub_epoch_summary_included b = None) rec
      else if overflow rec \<and> first_in_sub_slot rec then
        rbind (walk_acc (dict_get blocks) (\<lambda>b n. n > 0 \<and> height b > 0)
                 (\<lambda>b n. if first_in_sub_slot b
                        then rbind (unwrap AssertionError (finished_challenge_slot_hashes b)) (\<lambda>hs. Ok (n - int (length hs)))
                        else Ok n) rec 2) (\<lambda>(b, _). Ok b)
      else walk (dict_get blocks) (\<lambda>b. \<not> first_in_sub_slot b \<and> height b > 0) rec)"

definition first_sub_slot_vdfs ::
    "crypto \<Rightarrow> (int \<Rightarrow> HeaderBlock res) \<Rightarrow> HeaderBlock \<Rightarrow> (bytes \<Rightarrow> HeaderBlock option) \<Rightarrow> (bytes \<Rightarrow> BlockRecord option) \<Rightarrow> bool \<Rightarrow>
     (SubSlotData list \<times> VDFInfo option) res" where
  "first_sub_slot_vdfs cr block_at header_block header_blocks blocks first_in_sub_epoch =
     rbind (hb_header_hash cr header_block) (\<lambda>hh.
     rbind (dict_get blocks hh) (\<lambda>rec.
     rbind (first_slot_start blocks rec first_in_sub_epoch) (\<lambda>start.
     rbind (if first_in_sub_epoch \<and> height rec > 0
            then rbind (first_rc_end_of_slot_vdf cr header_block blocks header_blocks) (\<lambda>v. Ok (Some v)) else Ok None) (\<lambda>rc_vdf.
     rbind (dict_get header_blocks (header_hash start)) (\<lambda>b.
     rbind (before_challenge_loop block_at (hb_height header_block) b [] []) (\<lambda>data.
       Ok (data @ finished_slots_data header_block, rc_vdf)))))))"

text \<open>The ends of slot of one block. Only the first is shortened by the infusion point before it.\<close>

definition ends_of_slots ::
    "ConsensusConstants \<Rightarrow> HeaderBlock \<Rightarrow> (bytes \<Rightarrow> BlockRecord option) \<Rightarrow> SubSlotData list res" where
  "ends_of_slots c b blocks =
     rmap (\<lambda>(idx, sub_slot).
       rbind (dict_get blocks (hb_prev_header_hash b)) (\<lambda>prev_rec.
       rbind (if idx = 0 then rbind (ip_iters c prev_rec) (\<lambda>ip. uint64 (sub_slot_iters prev_rec - ip))
              else Ok (sub_slot_iters prev_rec)) (\<lambda>iters. handle_end_of_slot sub_slot iters)))
       (enumerate (0::nat) (hb_finished_sub_slots b))"

partial_function (option) slot_end_loop ::
    "crypto \<Rightarrow> ConsensusConstants \<Rightarrow> (int \<Rightarrow> HeaderBlock res) \<Rightarrow> (bytes \<Rightarrow> BlockRecord option) \<Rightarrow> HeaderBlock \<Rightarrow>
     SubSlotData list \<Rightarrow> SubSlotData list \<Rightarrow> (SubSlotData list \<times> int) res" where
  "slot_end_loop cr c block_at blocks b data tmp =
     rbind (hb_header_hash cr b) (\<lambda>hh.
     rbind (dict_get blocks hh) (\<lambda>rec.
       if is_challenge_block c rec then Ok (data @ tmp, hb_height b)
       else
         rbind (if hb_finished_sub_slots b \<noteq> []
                then rbind (ends_of_slots c b blocks) (\<lambda>ends. Ok (data @ tmp @ ends, [])) else Ok (data, tmp)) (\<lambda>(data, tmp).
         rbind (handle_block_vdfs cr c b blocks) (\<lambda>ssd.
         rbind (uint32 (hb_height b + 1)) (\<lambda>h.
         rbind (block_at h) (\<lambda>b'. slot_end_loop cr c block_at blocks b' data (tmp @ [ssd])))))))"

declare slot_end_loop.simps [code]

definition create_challenge_segment ::
    "crypto \<Rightarrow> ConsensusConstants \<Rightarrow> (int \<Rightarrow> HeaderBlock res) \<Rightarrow> HeaderBlock \<Rightarrow> int \<Rightarrow> (bytes \<Rightarrow> HeaderBlock option) \<Rightarrow>
     (bytes \<Rightarrow> BlockRecord option) \<Rightarrow> bool \<Rightarrow> (SubEpochChallengeSegment \<times> int) res" where
  "create_challenge_segment cr c block_at header_block n header_blocks blocks first_segment_in_sub_epoch =
     rbind (first_sub_slot_vdfs cr block_at header_block header_blocks blocks first_segment_in_sub_epoch)
       (\<lambda>(first_sub_slots, rc_vdf).
     rbind (hb_header_hash cr header_block) (\<lambda>hh.
     rbind (dict_get blocks hh) (\<lambda>rec.
     rbind (challenge_block_vdfs cr c header_block rec blocks) (\<lambda>ssd.
     rbind (uint32 (hb_height header_block + 1)) (\<lambda>h.
     rbind (block_at h) (\<lambda>b.
     rbind (slot_end_loop cr c block_at blocks b [] []) (\<lambda>(end_slots, end_height).
       Ok (\<lparr>sub_epoch_n = n, sub_slots = first_sub_slots @ [ssd] @ end_slots,
            rc_slot_end_info = (if first_segment_in_sub_epoch \<and> n \<noteq> 0 then rc_vdf else None)\<rparr>, end_height))))))))"

section \<open>The segments of a sub-epoch\<close>

text \<open>Two slots back, reading the records in batches of 50.\<close>

partial_function (option) prev_slots_loop ::
    "(int \<Rightarrow> int \<Rightarrow> bytes \<Rightarrow> BlockRecord option) \<Rightarrow> (int \<Rightarrow> bytes res) \<Rightarrow> nat \<Rightarrow> int \<Rightarrow> BlockRecord \<Rightarrow>
     (bytes \<Rightarrow> BlockRecord option) \<Rightarrow> int res" where
  "prev_slots_loop records hth slot stop curr_rec blocks =
     (if slot < 2 \<and> height curr_rec > 0 then
        let slot = (if first_in_sub_slot curr_rec then slot + 1 else slot);
            (blocks, stop) = (if stop - height curr_rec = 49
                              then (records (height curr_rec - 50) (height curr_rec), height curr_rec) else (blocks, stop)) in
        rbind (uint32 (height curr_rec - 1)) (\<lambda>h.
        rbind (hth h) (\<lambda>hh.
        rbind (dict_get blocks hh) (\<lambda>b. prev_slots_loop records hth slot stop b blocks)))
      else Ok (height curr_rec))"

declare prev_slots_loop.simps [code]

definition records_in_range :: "Blockchain \<Rightarrow> int \<Rightarrow> int \<Rightarrow> bytes \<Rightarrow> BlockRecord option" where
  "records_in_range bc start stop = map_of (get_block_records_in_range (ch_block_store bc) start stop)"

definition get_prev_two_slots_height :: "Blockchain \<Rightarrow> BlockRecord \<Rightarrow> int res" where
  "get_prev_two_slots_height bc se_start =
     prev_slots_loop (records_in_range bc) (ch_height_to_hash bc) 0 (height se_start) se_start
       (records_in_range bc (height se_start - 50) (height se_start))"

partial_function (option) segments_loop ::
    "crypto \<Rightarrow> ConsensusConstants \<Rightarrow> (int \<Rightarrow> HeaderBlock res) \<Rightarrow> int \<Rightarrow> int \<Rightarrow> (bytes \<Rightarrow> HeaderBlock option) \<Rightarrow>
     (bytes \<Rightarrow> BlockRecord option) \<Rightarrow> HeaderBlock \<Rightarrow> int \<Rightarrow> bool \<Rightarrow> SubEpochChallengeSegment list \<Rightarrow>
     SubEpochChallengeSegment list res" where
  "segments_loop cr c block_at stop n header_blocks blocks b h first segments =
     (if hb_height b < stop then
        rbind (hb_header_hash cr b) (\<lambda>hh.
        rbind (dict_get blocks hh) (\<lambda>rec.
        rbind (if is_challenge_block c rec then
                 rbind (create_challenge_segment cr c block_at b n header_blocks blocks first) (\<lambda>(seg, h).
                   Ok (segments @ [seg], h, False))
               else Ok (segments, h + 1, first)) (\<lambda>(segments, h, first).
        rbind (block_at h) (\<lambda>b'. segments_loop cr c block_at stop n header_blocks blocks b' h first segments))))
      else Ok segments)"

declare segments_loop.simps [code]

definition create_segments ::
    "crypto \<Rightarrow> ConsensusConstants \<Rightarrow> Blockchain \<Rightarrow> BlockRecord \<Rightarrow> BlockRecord \<Rightarrow> int \<Rightarrow>
     (SubEpochChallengeSegment list \<times> Blockchain) res" where
  "create_segments cr c bc ses_block se_start n =
     rbind (get_prev_two_slots_height bc se_start) (\<lambda>start_height.
     let stop = height ses_block + MAX_SUB_SLOT_BLOCKS c;
         blocks = records_in_range bc start_height stop in
     rbind (get_header_blocks_in_range cr bc start_height stop False) (\<lambda>(hbs, bc).
     rbind (dict_get (map_of hbs) (header_hash se_start)) (\<lambda>b.
     rbind (segments_loop cr c (\<lambda>h. rbind (ch_height_to_hash bc h) (dict_get (map_of hbs))) (height ses_block) n (map_of hbs) blocks
              b (height se_start) True []) (\<lambda>segments. Ok (segments, bc)))))"

definition with_store :: "Blockchain \<Rightarrow> BlockStore \<Rightarrow> Blockchain" where
  "with_store bc st = bc\<lparr>ch_block_store := st\<rparr>"

text \<open>The segments of a sub-epoch from the store; the missing ones are created and stored.\<close>

definition get_or_create_segments ::
    "crypto \<Rightarrow> ConsensusConstants \<Rightarrow> Blockchain \<Rightarrow> BlockRecord \<Rightarrow> BlockRecord \<Rightarrow> int \<Rightarrow>
     (SubEpochChallengeSegment list \<times> Blockchain) res" where
  "get_or_create_segments cr c bc prev_ses_block ses_block n =
     (case bs_get_segments (ch_block_store bc) (header_hash ses_block) of
        (Some segments, st) \<Rightarrow> Ok (segments, with_store bc st)
      | (None, st) \<Rightarrow>
          rbind (uint32 n) (\<lambda>n.
          rbind (create_segments cr c (with_store bc st) ses_block prev_ses_block n) (\<lambda>(segments, bc).
            Ok (segments, with_store bc (bs_persist_segments (ch_block_store bc) (header_hash ses_block) segments)))))"

section \<open>The handler\<close>

record WeightProofHandler =
  wph_tip :: "bytes option"
  wph_proof :: "WeightProof option"
  wph_constants :: ConsensusConstants
  wph_blockchain :: Blockchain

definition new_weight_proof_handler :: "ConsensusConstants \<Rightarrow> Blockchain \<Rightarrow> WeightProofHandler" where
  "new_weight_proof_handler c bc = \<lparr>wph_tip = None, wph_proof = None, wph_constants = c, wph_blockchain = bc\<rparr>"

fun get_sub_epoch_data :: "BlockCache \<Rightarrow> int \<Rightarrow> int list \<Rightarrow> SubEpochData list res" where
  "get_sub_epoch_data blocks tip_height [] = Ok []"
| "get_sub_epoch_data blocks tip_height (ses_height # heights) =
     (if ses_height > tip_height then Ok []
      else
        rbind (get_ses blocks ses_height) (\<lambda>ses.
        rbind (get_sub_epoch_data blocks tip_height heights) (\<lambda>data. Ok (create_sub_epoch_data ses # data))))"

text \<open>The second newest summary up to the tip: its height.\<close>

definition second_ses_height :: "int list \<Rightarrow> int \<Rightarrow> int option" where
  "second_ses_height heights tip_height =
     (case filter (\<lambda>h. h \<le> tip_height) (rev heights) of _ # h # _ \<Rightarrow> Some h | _ \<Rightarrow> None)"

definition get_seed_for_proof :: "crypto \<Rightarrow> BlockCache \<Rightarrow> int list \<Rightarrow> int \<Rightarrow> bytes res" where
  "get_seed_for_proof cr blocks summary_heights tip_height =
     rbind (unwrap AssertionError (second_ses_height summary_heights tip_height)) (\<lambda>h.
     rbind (get_ses blocks h) (\<lambda>ses. SubEpochSummary_hash cr ses))"

text \<open>From the tip down until two blocks with a summary are in, or height 0; then one block more.\<close>

fun recent_chain_loop ::
    "crypto \<Rightarrow> (int \<Rightarrow> HeaderBlock res) \<Rightarrow> (bytes \<Rightarrow> BlockRecord option) \<Rightarrow> nat \<Rightarrow> nat \<Rightarrow> HeaderBlock list \<Rightarrow> HeaderBlock list res" where
  "recent_chain_loop cr block_at blocks 0 ses_count recent_chain =
     rbind (block_at 0) (\<lambda>b. Ok (b # recent_chain))"
| "recent_chain_loop cr block_at blocks (Suc h) ses_count recent_chain =
     rbind (block_at (int (Suc h))) (\<lambda>b.
       if ses_count < 2 then
         rbind (hb_header_hash cr b) (\<lambda>hh.
         rbind (dict_get blocks hh) (\<lambda>rec.
           recent_chain_loop cr block_at blocks h
             (if sub_epoch_summary_included rec \<noteq> None then ses_count + 1 else ses_count) (b # recent_chain)))
       else Ok (b # recent_chain))"

definition get_recent_chain :: "crypto \<Rightarrow> Blockchain \<Rightarrow> int \<Rightarrow> (HeaderBlock list \<times> Blockchain) res" where
  "get_recent_chain cr bc tip_height =
     (let min_height = (case second_ses_height (get_ses_heights (ch_blocks bc)) tip_height of Some h \<Rightarrow> h - 1 | None \<Rightarrow> 0) in
      rbind (get_header_blocks_in_range cr bc min_height tip_height False) (\<lambda>(hbs, bc).
      rbind (recent_chain_loop cr (\<lambda>h. rbind (ch_height_to_hash bc h) (dict_get (map_of hbs)))
               (records_in_range bc min_height tip_height) (nat tip_height) 0 []) (\<lambda>recent_chain.
        Ok (recent_chain, bc))))"

text \<open>The sampled segments. \<^verbatim>\<open>None\<close>: a block at a summary height has no summary.\<close>

fun sampled_segments ::
    "crypto \<Rightarrow> ConsensusConstants \<Rightarrow> int \<Rightarrow> int list option \<Rightarrow> int \<Rightarrow> nat \<Rightarrow> (int \<times> BlockRecord) list \<Rightarrow> BlockRecord \<Rightarrow> Blockchain \<Rightarrow>
     (SubEpochChallengeSegment list option \<times> Blockchain) res" where
  "sampled_segments cr c tip_height weight_to_check n sample_n [] prev_ses_block bc = Ok (Some [], bc)"
| "sampled_segments cr c tip_height weight_to_check n sample_n ((ses_height, ses_block) # rest) prev_ses_block bc =
     (if ses_height > tip_height \<or> sample_n \<ge> MAX_SAMPLES then Ok (Some [], bc)
      else if sub_epoch_summary_included ses_block = None then Ok (None, bc)
      else
        rbind (sample_sub_epoch (weight prev_ses_block) (weight ses_block) weight_to_check) (\<lambda>sampled.
        rbind (if sampled then
                 rbind (get_or_create_segments cr c bc prev_ses_block ses_block n) (\<lambda>(segments, bc). Ok (segments, sample_n + 1, bc))
               else Ok ([], sample_n, bc)) (\<lambda>(segments, sample_n, bc).
        rbind (sampled_segments cr c tip_height weight_to_check (n + 1) sample_n rest ses_block bc) (\<lambda>(r, bc).
          Ok (map_option ((@) segments) r, bc)))))"

definition create_proof_of_weight ::
    "crypto \<Rightarrow> 'g sampler \<Rightarrow> WeightProofHandler \<Rightarrow> bytes \<Rightarrow> (WeightProof option \<times> WeightProofHandler) res" where
  "create_proof_of_weight cr rs self tip =
     (let bc = wph_blockchain self; finish = (\<lambda>r bc. Ok (r, self\<lparr>wph_blockchain := bc\<rparr>)) in
      rbind (try_block_record (ch_blocks bc) tip) (\<lambda>tip_rec.
      case tip_rec of None \<Rightarrow> finish None bc
      | Some tip_rec \<Rightarrow>
          rbind (get_recent_chain cr bc (height tip_rec)) (\<lambda>(recent_chain, bc).
          let summary_heights = get_ses_heights (ch_blocks bc) in
          rbind (ch_height_to_hash bc 0) (\<lambda>genesis.
          case get_block_record_from_db bc genesis of None \<Rightarrow> finish None bc
          | Some prev_ses_block \<Rightarrow>
              rbind (get_sub_epoch_data (ch_blocks bc) (height tip_rec) summary_heights) (\<lambda>sub_epoch_data.
              rbind (get_seed_for_proof cr (ch_blocks bc) summary_heights (height tip_rec)) (\<lambda>seed.
              rbind (get_weights_for_sampling rs (random_seed rs seed) (weight tip_rec) recent_chain) (\<lambda>(weight_to_check, _).
              rbind (ch_get_block_records_at bc summary_heights 900) (\<lambda>ses_blocks.
              rbind (sampled_segments cr (wph_constants self) (height tip_rec) weight_to_check 0 0
                       (zip summary_heights ses_blocks) prev_ses_block bc) (\<lambda>(segments, bc).
                finish (case segments of None \<Rightarrow> None
                      | Some segs \<Rightarrow> Some \<lparr>sub_epochs = sub_epoch_data, sub_epoch_segments = segs,
                                           recent_chain_data = recent_chain\<rparr>) bc)))))))))"

definition get_proof_of_weight ::
    "crypto \<Rightarrow> 'g sampler \<Rightarrow> WeightProofHandler \<Rightarrow> bytes \<Rightarrow> (WeightProof option \<times> WeightProofHandler) res" where
  "get_proof_of_weight cr rs self tip =
     rbind (try_block_record (ch_blocks (wph_blockchain self)) tip) (\<lambda>tip_rec.
     case tip_rec of None \<Rightarrow> Ok (None, self)
     | Some tip_rec \<Rightarrow>
         if height tip_rec < WEIGHT_PROOF_RECENT_BLOCKS (wph_constants self) then Ok (None, self)
         else
           rbind (case wph_proof self of None \<Rightarrow> Ok None
                  | Some p \<Rightarrow> rbind (py_last (recent_chain_data p)) (\<lambda>b.
                      rbind (hb_header_hash cr b) (\<lambda>hh. Ok (if hh = tip then Some p else None)))) (\<lambda>cached.
           case cached of Some p \<Rightarrow> Ok (Some p, self)
           | None \<Rightarrow>
               rbind (create_proof_of_weight cr rs self tip) (\<lambda>(wp, self).
                 case wp of None \<Rightarrow> Ok (None, self)
                 | Some p \<Rightarrow> Ok (Some p, self\<lparr>wph_proof := Some p, wph_tip := Some tip\<rparr>))))"

section \<open>Storing segments ahead\<close>

definition create_prev_sub_epoch_segments :: "crypto \<Rightarrow> ConsensusConstants \<Rightarrow> Blockchain \<Rightarrow> Blockchain res" where
  "create_prev_sub_epoch_segments cr c bc =
     (let heights = get_ses_heights (ch_blocks bc) in
      if length heights < 3 then Ok bc
      else
        rbind (py_nth heights (- 2)) (\<lambda>h2.
        rbind (height_to_block_record (ch_blocks bc) h2) (\<lambda>ses_sub_block.
        rbind (py_nth heights (- 3)) (\<lambda>h3.
        rbind (height_to_block_record (ch_blocks bc) h3) (\<lambda>prev_ses_sub_block.
        rbind (py_assert (sub_epoch_summary_included prev_ses_sub_block \<noteq> None)) (\<lambda>_.
        rbind (uint32 (int (length heights) - 2)) (\<lambda>count.
        rbind (create_segments cr c bc ses_sub_block prev_ses_sub_block count) (\<lambda>(segments, bc).
          Ok (with_store bc (bs_persist_segments (ch_block_store bc) (header_hash ses_sub_block) segments))))))))))"

fun create_all_segments ::
    "crypto \<Rightarrow> ConsensusConstants \<Rightarrow> int \<Rightarrow> int \<Rightarrow> (int \<times> BlockRecord) list \<Rightarrow> BlockRecord \<Rightarrow> Blockchain \<Rightarrow> Blockchain res" where
  "create_all_segments cr c peak_height n [] prev_ses_block bc = Ok bc"
| "create_all_segments cr c peak_height n ((ses_height, ses_block) # rest) prev_ses_block bc =
     (if ses_height > peak_height \<or> sub_epoch_summary_included ses_block = None then Ok bc
      else
        rbind (get_or_create_segments cr c bc prev_ses_block ses_block n) (\<lambda>(_, bc).
          create_all_segments cr c peak_height (n + 1) rest ses_block bc))"

definition create_sub_epoch_segments :: "crypto \<Rightarrow> ConsensusConstants \<Rightarrow> Blockchain \<Rightarrow> Blockchain res" where
  "create_sub_epoch_segments cr c bc =
     (case ch_peak_height bc of None \<Rightarrow> Ok bc
      | Some peak_height \<Rightarrow>
          let summary_heights = get_ses_heights (ch_blocks bc) in
          rbind (ch_height_to_hash bc 0) (\<lambda>genesis.
          case get_block_record_from_db bc genesis of None \<Rightarrow> Ok bc
          | Some prev_ses_block \<Rightarrow>
              rbind (ch_get_block_records_at bc summary_heights 900) (\<lambda>ses_blocks.
                create_all_segments cr c peak_height 0 (zip summary_heights ses_blocks) prev_ses_block bc)))"

end
