(* ===== verification/Weight_Proof_Agreement.thy ===== *)
theory Weight_Proof_Agreement
  imports Weight_Proof_Creation Weight_Proof_Facts
begin

text \<open>
  Creating and validating a weight proof fit together: the data a node sends about its summaries is turned back into
  the same summaries, and both sides seed the sampling with the same summary. The loops of the creation
  end, on dictionaries whose blocks have the height they are found under.
\<close>

section \<open>The data of the summaries\<close>

lemma sub_epoch_data_summaries:
  "get_sub_epoch_data blocks tip hs =
     rbind (rmap (get_ses blocks) (takeWhile (\<lambda>h. h \<le> tip) hs)) (\<lambda>ss. Ok (map create_sub_epoch_data ss))"
  by (induction hs) (auto simp: rbind_assoc cong: rbind_cong)

lemma takeWhile_sorted: "sorted hs \<Longrightarrow> takeWhile (\<lambda>h. h \<le> (t::int)) hs = filter (\<lambda>h. h \<le> t) hs"
  by (induction hs) (auto intro!: filter_False [symmetric])

lemma seed_of_creator:
  assumes "get_seed_for_proof cr blocks (get_ses_heights blocks) tip = Ok seed"
    and "rmap (get_ses blocks) (takeWhile (\<lambda>h. h \<le> tip) (get_ses_heights blocks)) = Ok ss"
  shows "rbind (py_nth ss (- 2)) (SubEpochSummary_hash cr) = Ok seed"
proof -
  let ?hs = "takeWhile (\<lambda>h. h \<le> tip) (get_ses_heights blocks)"
  have f: "filter (\<lambda>h. h \<le> tip) (rev (get_ses_heights blocks)) = rev ?hs"
    by (simp add: takeWhile_sorted rev_filter get_ses_heights_def)
  from assms(1) obtain a h r s where "rev ?hs = a # h # r" and s: "get_ses blocks h = Ok s" "SubEpochSummary_hash cr s = Ok seed"
    by (auto simp: get_seed_for_proof_def second_ses_height_def f split: list.splits)
  then have e: "?hs = rev r @ [h, a]" by (metis append.assoc append_Cons append_Nil rev.simps(2) rev_rev_ident)
  from assms(2) obtain us s' t where "ss = us @ [s', t]" "get_ses blocks h = Ok s'"
    unfolding e by (auto simp: rmap_append)
  with s show ?thesis by (simp add: py_nth_def nth_append)
qed

section \<open>The loops end\<close>

lemma returns_dict_get [returns_rules]: "returns (dict_get d k)"
  by (simp add: dict_get_def returns_base)

lemma returns_before_challenge:
  assumes "\<And>h. returns (block_at h)" and "\<And>h b. block_at h = Ok b \<Longrightarrow> hb_height b = h"
  shows "returns (before_challenge_loop block_at stop b data tmp)"
proof (induction "nat (stop - hb_height b)" arbitrary: b data tmp rule: less_induct)
  case less
  have "returns (before_challenge_loop block_at stop b' d t)"
    if "hb_height b < stop" "uint32 (hb_height b + 1) = Ok h" "block_at h = Ok b'" for h b' d t
    using that assms(2) by (intro less) auto
  then show ?case
    by (subst before_challenge_loop.simps) (intro returns_rules assms(1))
qed


lemma returns_handle_end_of_slot [returns_rules]: "returns (handle_end_of_slot s n)"
  unfolding handle_end_of_slot_def Let_def by (intro returns_rules)

lemma returns_ends_of_slots [returns_rules]: "returns (ends_of_slots c b blocks)"
  unfolding ends_of_slots_def by (intro returns_rules)

lemma returns_cc_vdf_iters:
  assumes "heights_ok (records_cache blocks)"
  shows "returns (cc_vdf_iters cr c b rec blocks)"
proof -
  have "stored (block_record (records_cache blocks)) p" if "dict_get blocks h = Ok p" for h p
    using that bc.stored_get [OF assms, of h p] by (simp add: dict_get_def init_BlockCache_def)
  then show ?thesis unfolding cc_vdf_iters_def
    by (intro returns_rules returns_get_signage_point_vdf_info assms) (auto split: if_splits)
qed

lemma returns_handle_block_vdfs:
  assumes "heights_ok (records_cache blocks)"
  shows "returns (handle_block_vdfs cr c b blocks)"
  unfolding handle_block_vdfs_def Let_def by (intro returns_rules returns_cc_vdf_iters assms)

lemma returns_slot_end_loop:
  assumes "\<And>h. returns (block_at h)" and "\<And>h b. block_at h = Ok b \<Longrightarrow> hb_height b = h \<and> h \<le> n"
    and ok: "heights_ok (records_cache blocks)"
  shows "returns (slot_end_loop cr c block_at blocks b data tmp)"
proof (induction "nat (n + 1 - hb_height b)" arbitrary: b data tmp rule: less_induct)
  case less
  have "returns (slot_end_loop cr c block_at blocks b' d t)"
    if "uint32 (hb_height b + 1) = Ok h" "block_at h = Ok b'" for h b' d t
    using that assms(2) by (intro less) fastforce
  then show ?case
    by (subst slot_end_loop.simps) (intro returns_rules returns_handle_block_vdfs ok assms(1))
qed

text \<open>Every loop over the main chain, given that blocks have the height they are found under.\<close>

lemma slot_end_height:
  assumes "\<And>h b. block_at h = Ok b \<Longrightarrow> hb_height b = h \<and> h \<le> n"
    and "slot_end_loop cr c block_at blocks b data tmp = Ok (ds, h)"
  shows "hb_height b \<le> h"
  using assms(2)
proof (induction "nat (n + 1 - hb_height b)" arbitrary: b data tmp rule: less_induct)
  case less
  from less.prems have "hb_height b = h \<or>
      (\<exists>b' d t. block_at (hb_height b + 1) = Ok b' \<and> slot_end_loop cr c block_at blocks b' d t = Ok (ds, h))"
    by (subst (asm) slot_end_loop.simps) (auto split: if_splits)
  then show ?case
  proof (elim disjE exE conjE)
    fix b' d t
    assume b': "block_at (hb_height b + 1) = Ok b'" and r: "slot_end_loop cr c block_at blocks b' d t = Ok (ds, h)"
    have "hb_height b' \<le> h" using assms(1) [OF b'] by (intro less.hyps [OF _ r]) auto
    with assms(1) [OF b'] show ?thesis by simp
  qed simp
qed

lemma returns_first_slot_start:
  assumes ok: "heights_ok (records_cache blocks)" and r: "dict_get blocks h = Ok r"
  shows "returns (first_slot_start blocks r f)"
proof -
  have g: "dict_get blocks = block_record (records_cache blocks)" by (simp add: fun_eq_iff dict_get_def block_record_def init_BlockCache_def)
  have s: "stored (block_record (records_cache blocks)) r" using bc.stored_get [OF ok] r g by simp
  show ?thesis unfolding first_slot_start_def g
    by (intro returns_rules bc.returns_walk_acc bc.returns_walk ok s)
qed

lemma returns_create_challenge_segment:
  assumes a: "\<And>h. returns (block_at h)" "\<And>h b. block_at h = Ok b \<Longrightarrow> hb_height b = h \<and> h \<le> n"
    and ok: "heights_ok (records_cache blocks)"
  shows "returns (create_challenge_segment cr c block_at b k hbs blocks f)"
proof -
  have g: "dict_get blocks = block_record (records_cache blocks)" by (simp add: fun_eq_iff dict_get_def block_record_def init_BlockCache_def)
  have w: "returns (walk (dict_get blocks) p r)" if "dict_get blocks h = Ok r" for p r h
    using that bc.stored_get [OF ok] unfolding g by (intro bc.returns_walk ok) auto
  have v: "returns (first_rc_end_of_slot_vdf cr b blocks hbs)"
    unfolding first_rc_end_of_slot_vdf_def by (intro returns_rules w)
  show ?thesis
    unfolding create_challenge_segment_def first_sub_slot_vdfs_def challenge_block_vdfs_def Let_def
    by (intro returns_rules returns_slot_end_loop [where n = n] returns_before_challenge returns_first_slot_start returns_cc_vdf_iters v a ok)
      (use a in auto)
qed

lemma returns_segments_loop:
  assumes a: "\<And>h. returns (block_at h)" "\<And>h b. block_at h = Ok b \<Longrightarrow> hb_height b = h \<and> h \<le> n"
    and ok: "heights_ok (records_cache blocks)" and "hb_height b = h"
  shows "returns (segments_loop cr c block_at stop k hbs blocks b h first segments)"
  using assms(4)
proof (induction "nat (n + 1 - hb_height b)" arbitrary: b h first segments rule: less_induct)
  case less
  have e: "h < h'" if "create_challenge_segment cr c block_at b k hbs blocks f = Ok (seg, h')" for f seg h'
  proof -
    from that obtain b' ds where "block_at (hb_height b + 1) = Ok b'" "slot_end_loop cr c block_at blocks b' [] [] = Ok (ds, h')"
      by (auto simp: create_challenge_segment_def split: if_splits)
    with slot_end_height [OF a(2)] a(2) less.prems show ?thesis by fastforce
  qed
  have i: "returns (segments_loop cr c block_at stop k hbs blocks b' h' f segs)" if "h < h'" "block_at h' = Ok b'" for b' h' f segs
    using that less.prems a(2) [of h' b'] by (intro less.hyps) auto
  show ?case
    by (subst segments_loop.simps)
      (intro returns_rules returns_create_challenge_segment [where n = n] a ok i, auto dest: e split: if_splits)
qed

lemma returns_prev_slots:
  assumes "\<And>h. returns (hth h)" and "\<And>i j h hh b. hth h = Ok hh \<Longrightarrow> records i j hh = Some b \<Longrightarrow> height b = h"
    and "\<And>h hh b. hth h = Ok hh \<Longrightarrow> blocks hh = Some b \<Longrightarrow> height b = h"
  shows "returns (prev_slots_loop records hth slot stop r blocks)"
  using assms(3)
proof (induction "nat (height r)" arbitrary: slot stop r blocks rule: less_induct)
  case less
  have "returns (prev_slots_loop records hth s e b d)"
    if "height r > 0" "uint32 (height r - 1) = Ok h" "hth h = Ok hh" "dict_get d hh = Ok b" "d = blocks \<or> (\<exists>i j. d = records i j)"
    for s e b d h hh
    using that assms(2) less.prems by (intro less.hyps) (auto simp: dict_get_def)
  note i = this
  have k: "returns (prev_slots_loop records hth s e b blocks)"
    if "height r > 0" "uint32 (height r - 1) = Ok h" "hth h = Ok hh" "dict_get blocks hh = Ok b" for s e b h hh
    by (rule i [OF that]) simp
  have l: "returns (prev_slots_loop records hth s e b (records x y))"
    if "height r > 0" "uint32 (height r - 1) = Ok h" "hth h = Ok hh" "dict_get (records x y) hh = Ok b" for s e b h hh x y
    by (rule i [OF that]) blast
  show ?case
    by (subst prev_slots_loop.simps) (intro returns_rules assms(1), auto split: if_splits intro: k l)
qed

end
