(* ===== verification/Sample_Weight.thy ===== *)
theory Sample_Weight
  imports Weight_Proof_Agreement Sample_Slots
begin

text \<open>
  A weight proof that is accepted: three summaries, of which the last is named in the second of two recent blocks,
  and no segments, since the weights drawn lie below every sub-epoch. Then a recent chain long enough for
  its last block, which extends the one before it, to be validated in full, and a local chain that shares four summaries with a proof.
\<close>

section \<open>A weight proof\<close>

definition ses0 :: SubEpochSummary where
  "ses0 = \<lparr>prev_subepoch_summary_hash = G, reward_chain_hash = G, num_blocks_overflow = 0,
     ses_new_difficulty = Some 4, ses_new_sub_slot_iters = Some 134217728\<rparr>"

definition ses_after :: "bytes \<Rightarrow> int \<Rightarrow> SubEpochSummary" where
  "ses_after h n = \<lparr>prev_subepoch_summary_hash = h, reward_chain_hash = replicate 32 2, num_blocks_overflow = n,
     ses_new_difficulty = None, ses_new_sub_slot_iters = None\<rparr>"

abbreviation sample_summaries :: "SubEpochSummary list" where
  "sample_summaries \<equiv> [ses0, ses_after (replicate 32 1) 0, ses_after (replicate 32 2) 1]"

definition ses_eos :: EndOfSubSlotBundle where
  "ses_eos = empty_eos\<lparr>challenge_chain := (challenge_chain empty_eos)\<lparr>subepoch_summary_hash := Some (replicate 32 2)\<rparr>\<rparr>"

definition sample_block :: "int \<Rightarrow> int \<Rightarrow> EndOfSubSlotBundle list \<Rightarrow> HeaderBlock" where
  "sample_block h w slots = genesis_b\<lparr>hb_finished_sub_slots := slots,
     hb_reward_chain_block := (hb_reward_chain_block genesis_b)\<lparr>rcb_weight := w, rcb_height := h\<rparr>\<rparr>"

definition sample_proof :: WeightProof where
  "sample_proof = \<lparr>sub_epochs = map create_sub_epoch_data sample_summaries, sub_epoch_segments = [],
     recent_chain_data = [sample_block 0 1443 [], sample_block 768 1924 [ses_eos]]\<rparr>"

text \<open>Logarithms to base 2; every random float is zero.\<close>

definition zero_sampler :: "unit sampler" where
  "zero_sampler = \<lparr>random_seed = (\<lambda>_. ()), random_float = (\<lambda>g. (0, g)), random_choice = (\<lambda>n g. (0, g)),
     float_ln = (\<lambda>x. if x = 1 / 2 then - 1 else if x = 2 then 1 else - 2), float_pow = (\<lambda>x u. if u = 0 then 1 else x)\<rparr>"

lemma sample_summary_hashes [simp]:
  "SubEpochSummary_hash toy ses0 = Ok (replicate 32 1)"
  "SubEpochSummary_hash toy (ses_after (replicate 32 1) 0) = Ok (replicate 32 2)"
  "SubEpochSummary_hash toy (ses_after (replicate 32 2) 1) = Ok (replicate 32 2)"
  by (simp_all add: SubEpochSummary_hash_def SubEpochSummary_type_def SubEpochSummary_val_def ses0_def ses_after_def
      opt_val_def toy_hash_defs)

lemma sample_block_simps [simp]:
  "hb_height (sample_block h w slots) = h" "hb_weight (sample_block h w slots) = w"
  "hb_finished_sub_slots (sample_block h w slots) = slots"
  "rcb_weight (hb_reward_chain_block (sample_block h w slots)) = w"
  "rcb_signage_point_index (hb_reward_chain_block (sample_block h w slots)) = 0"
  "rcb_is_transaction_block (hb_reward_chain_block (sample_block h w slots)) = True"
  by (simp_all add: sample_block_def genesis_b_def hb_height_def hb_weight_def)

lemma sample_summary_fields [simp]:
  "prev_subepoch_summary_hash ses0 = G" "num_blocks_overflow ses0 = 0" "ses_new_difficulty ses0 = Some 4"
  "ses_new_sub_slot_iters ses0 = Some 134217728"
  "prev_subepoch_summary_hash (ses_after h n) = h" "num_blocks_overflow (ses_after h n) = n"
  "ses_new_difficulty (ses_after h n) = None" "ses_new_sub_slot_iters (ses_after h n) = None"
  by (simp_all add: ses0_def ses_after_def)

lemma sample_summaries_accepted:
  "validate_sub_epoch_summaries toy DEFAULT_CONSTANTS sample_proof = Ok (Some (sample_summaries, [1, 388, 1928]))"
  "get_last_ses_hash DEFAULT_CONSTANTS (recent_chain_data sample_proof) = Ok (Some (replicate 32 2, 768))"
proof -
  have m: "map_sub_epoch_summaries toy 384 G (sub_epochs sample_proof) 1 = Ok (sample_summaries, 1924, [1, 388, 1928])"
    by (simp add: map_sub_epoch_summaries_def sample_proof_def Let_def sub_epoch_length_def next_curr_difficulty_def)
  show l: "get_last_ses_hash DEFAULT_CONSTANTS (recent_chain_data sample_proof) = Ok (Some (replicate 32 2, 768))"
    by (simp add: sample_proof_def py_mod_def first_ses_hash_def map_filter_def ses_eos_def)
  have w: "validate_summaries_weight DEFAULT_CONSTANTS 1924 sample_summaries sample_proof = Ok True"
    by (simp add: validate_summaries_weight_def sample_proof_def py_last_eq Let_def)
  show "validate_sub_epoch_summaries toy DEFAULT_CONSTANTS sample_proof = Ok (Some (sample_summaries, [1, 388, 1928]))"
    by (simp add: validate_sub_epoch_summaries_def l m w py_last_eq)
qed

text \<open>101 weights are drawn, all zero.\<close>

lemma zero_weights: "draw_weights zero_sampler (1 / 4) 1924 n g = Ok (replicate n 0, g)"
proof (induction n)
  case (Suc n)
  have "fl_rat 0 = 0" by (simp add: fl_rat_def fl_def)
  with Suc show ?case by (simp add: zero_sampler_def trunc_def)
qed simp

lemma quarter: "py_truediv 481 1924 = Ok (1 / 4)"
  by (simp add: py_truediv_def floor_log2_def bit_length_def nat_bit_length.simps Let_def round_half_even_def power_int_def power_one_over)

lemma half: "fl_rat (1 / 2) = 1 / 2"
proof -
  have q: "quotient_of (1 / 2) = (1, 2)"
    using quotient_of_Fract [of 1 2] by (simp add: Fract_of_int_quotient Rat.normalize_def)
  have "fl 1 2 = 1 / 2"
    by (simp add: fl_def floor_log2_def bit_length_def nat_bit_length.simps Let_def round_half_even_def power_int_def power_one_over)
  with q show ?thesis by (simp add: fl_rat_def)
qed

lemma fl_rat_ints: "fl_rat 100 = 100" "fl_rat (- 100) = - 100" "fl_rat (- 1) = - 1"
  using fl_int [of 100] fl_int [of 1] by (simp_all add: fl_rat_def)

lemma sample_sampling:
  "validate_sub_epoch_sampling zero_sampler () [1, 388, 1928] sample_proof = Ok (True, ())"
proof -
  have l: "math_log zero_sampler (1 / 2) (1 / 4) = Ok (1 / 2)" "math_log zero_sampler 2 (1 / 2) = Ok (- 1)"
    "fl_rat (1 / 2) = 1 / 2" "fl_rat (- 100) = - 100" "fl_rat 100 = 100"
    by (simp_all add: math_log_def zero_sampler_def half fl_rat_ints)
  show ?thesis
    by (simp add: validate_sub_epoch_sampling_def get_weights_for_sampling_def sample_proof_def py_last_eq py_nth_def quarter l
        LAMBDA_L_def trunc_def zero_weights sample_sub_epoch_def Let_def)
qed

section \<open>The recent blocks\<close>

lemma ses_eos_hashes:
  "ChallengeChainSubSlot_hash toy (challenge_chain ses_eos) = Ok (replicate 32 1)"
  "RewardChainSubSlot_hash toy (reward_chain ses_eos) = Ok (replicate 32 1)"
  by (simp_all add: ses_eos_def empty_eos_def ChallengeChainSubSlot_hash_def RewardChainSubSlot_hash_def toy_hash_defs
      ChallengeChainSubSlot_val_def ChallengeChainSubSlot_type_def)

lemma sample_eos_simps [simp]:
  "infused_challenge_chain empty_eos = None" "infused_challenge_chain ses_eos = None"
  "subepoch_summary_hash (challenge_chain empty_eos) = None"
  "subepoch_summary_hash (challenge_chain ses_eos) = Some (replicate 32 2)"
  "cc_new_difficulty (challenge_chain empty_eos) = None" "cc_new_difficulty (challenge_chain ses_eos) = None"
  "cc_new_sub_slot_iters (challenge_chain empty_eos) = None" "cc_new_sub_slot_iters (challenge_chain ses_eos) = None"
  "rc_deficit (reward_chain empty_eos) = 16" "rc_deficit (reward_chain ses_eos) = 16"
  by (simp_all add: ses_eos_def empty_eos_def)

lemma sample_hashes:
  assumes "0 \<le> w" "w < 2 ^ 64" "0 \<le> h" "h < 2 ^ 32"
  shows "hb_header_hash toy (sample_block h w slots) = Ok (replicate 32 1)"
    and "RewardChainBlock_hash toy (hb_reward_chain_block (sample_block h w slots)) = Ok (replicate 32 2)"
  using assms genesis_hashes(5)
  by (simp_all add: hb_header_hash_def sample_block_def) (simp add: genesis_b_def toy_hash_defs)

lemma sample_record:
  assumes "0 \<le> w" "w < 2 ^ 64" "0 \<le> h" "h < 2 ^ 32" and "slots = [] \<or> slots = [empty_eos] \<or> slots = [ses_eos]"
  shows "\<exists>br. header_block_to_sub_block_record toy DEFAULT_CONSTANTS req (sample_block h w slots) ssi ovf d t sm = Ok br \<and>
    header_hash br = replicate 32 1 \<and> height br = h \<and> weight br = w \<and> deficit br = d"
proof -
  have p: "ChallengeBlockInfo_hash toy \<lparr>cbi_proof_of_space = rcb_proof_of_space (hb_reward_chain_block (sample_block h w slots)),
                 cbi_challenge_chain_sp_vdf = rcb_challenge_chain_sp_vdf (hb_reward_chain_block (sample_block h w slots)),
                 cbi_challenge_chain_sp_signature = rcb_challenge_chain_sp_signature (hb_reward_chain_block (sample_block h w slots)),
                 cbi_challenge_chain_ip_vdf = rcb_challenge_chain_ip_vdf (hb_reward_chain_block (sample_block h w slots))\<rparr> = Ok (replicate 32 2)"
    by (simp add: sample_block_def genesis_b_def toy_hash_defs)
  have "\<exists>br. header_block_to_sub_block_record toy DEFAULT_CONSTANTS req (sample_block h w slots) ssi ovf d t sm = Ok br"
    using assms(5) sample_hashes [OF assms(1-4)] p
    by (elim disjE) (simp_all add: header_block_to_sub_block_record_def Let_def empty_eos_hashes ses_eos_hashes map_filter_def)
  then obtain br where br: "header_block_to_sub_block_record toy DEFAULT_CONSTANTS req (sample_block h w slots) ssi ovf d t sm = Ok br" ..
  with block_record_agrees [OF br] sample_hashes [OF assms(1-4)] show ?thesis by auto
qed
lemma sample_recent_blocks:
  "validate_recent_blocks toy DEFAULT_CONSTANTS 1000 (recent_chain_data sample_proof) sample_summaries = Ok True"
proof -
  obtain br where 1: "header_block_to_sub_block_record toy DEFAULT_CONSTANTS 0 (sample_block 0 1443 []) 134217728 False 0 0 None = Ok br"
    using sample_record [of 1443 0 "[]"] by fastforce
  obtain br' where 2: "header_block_to_sub_block_record toy DEFAULT_CONSTANTS 0 (sample_block 768 1924 [ses_eos]) 134217728 False 16 768
      (Some (ses_after (replicate 32 2) 1)) = Ok br'"
    using sample_record [of 1924 768 "[ses_eos]"] by fastforce
  have i: "get_ses_idx (recent_chain_data sample_proof) = [1]"
    by (simp add: sample_proof_def get_ses_idx_def map_filter_def)
  show ?thesis
    unfolding validate_recent_blocks_def recent_start_def i
    by (simp add: sample_proof_def py_last_eq recent_block_def check_recent_block_def recent_slot_def Let_def
        ses_eos_hashes py_nth_def py_take_def 1 2)
qed

lemma sample_proof_accepted:
  "validate_weight_proof toy DEFAULT_CONSTANTS zero_sampler 1000 empty_cache sample_proof = Ok (True, 0, sample_summaries)"
proof -
  have s: "validate_sub_epoch_segments toy DEFAULT_CONSTANTS (random_choice zero_sampler) () (sub_epoch_segments sample_proof) sample_summaries
      = Ok True"
    by (simp add: sample_proof_def validate_sub_epoch_segments_def map_segments_by_sub_epoch_def)
  have f: "get_fork_point toy empty_cache sample_summaries = Ok 0"
    by (simp add: get_fork_point_def get_ses_heights_def empty_cache_def init_BlockCache_def)
  have n: "sub_epochs sample_proof \<noteq> []" "recent_chain_data sample_proof \<noteq> []" by (simp_all add: sample_proof_def)
  have g: "random_seed zero_sampler h = ()" for h by simp
  show ?thesis
    unfolding validate_weight_proof_def validate_summaries_and_sampling_def sample_summaries_accepted
    by (simp add: n py_last_eq py_nth_def sample_sampling sample_recent_blocks s f g)
qed

section \<open>A block that is validated in full\<close>

text \<open>The block \<open>late_b\<close> extends a block that ends a slot; it is \<open>next_b\<close> with the challenge of that slot.\<close>

definition late_b :: HeaderBlock where
  "late_b = next_b\<lparr>hb_reward_chain_block := (hb_reward_chain_block next_b)\<lparr>
     rcb_pos_ss_cc_challenge_hash := replicate 32 1,
     rcb_challenge_chain_sp_vdf := Some (vdf_to (replicate 32 1) 10485760),
     rcb_challenge_chain_ip_vdf := vdf_to (replicate 32 1) 16777217\<rparr>\<rparr>"

definition slot_r :: BlockRecord where
  "slot_r = genesis_r\<lparr>finished_challenge_slot_hashes := Some [replicate 32 1],
     finished_infused_challenge_slot_hashes := Some [], finished_reward_slot_hashes := Some [replicate 32 1]\<rparr>"

lemma slot_r_record:
  "header_block_to_sub_block_record toy DEFAULT_CONSTANTS 1 (sample_block 0 1 [empty_eos]) 134217728 False 15 0 None = Ok slot_r"
proof -
  note h = genesis_hashes [unfolded genesis_b_def get_unfinished_def, simplified]
  show ?thesis
    by (simp add: header_block_to_sub_block_record_def Let_def empty_eos_hashes map_filter_def sample_hashes)
      (simp add: sample_block_def ChallengeBlockInfo_hash_def get_hash_def
        toy_validation_defs genesis_b_def h h [unfolded vdf_to_def] hb_height_def hb_weight_def hb_total_iters_def
        hb_prev_header_hash_def hb_header_hash_def genesis_r_def slot_r_def vdf_to_def,
       simp add: toy_hash_defs genesis_ti_def)
qed

lemma slot_r_simps [simp]:
  "header_hash slot_r = replicate 32 1" "prev_hash slot_r = G" "height slot_r = 0"
  "weight slot_r = 1" "total_iters slot_r = 6291457" "timestamp slot_r = Some 1000"
  "sub_slot_iters slot_r = 134217728" "deficit slot_r = 15"
  "finished_challenge_slot_hashes slot_r = Some [replicate 32 1]"
  "finished_reward_slot_hashes slot_r = Some [replicate 32 1]"
  "finished_infused_challenge_slot_hashes slot_r = Some []"
  "challenge_block_info_hash slot_r = replicate 32 2"
  "reward_infusion_new_challenge slot_r = replicate 32 2"
  "challenge_vdf_output slot_r = get_default_element"
  "sub_epoch_summary_included slot_r = None" "signage_point_index slot_r = 0"
  "required_iters slot_r = 1" "overflow slot_r = False"
  by (simp_all add: slot_r_def)

lemma slot_r_preds [simp]:
  "is_transaction_block slot_r" "first_in_sub_slot slot_r"
  "is_challenge_block DEFAULT_CONSTANTS slot_r"
  "ip_iters DEFAULT_CONSTANTS slot_r = Ok 6291457"
  by (simp_all add: is_transaction_block_def first_in_sub_slot_def is_challenge_block_def ip_iters_def
      calculate_ip_iters_def calculate_sp_iters_def calculate_sp_interval_iters_def)

lemma late_hashes:
  "FoliageBlockData_hash toy (foliage_block_data (hb_foliage late_b)) = Ok (replicate 32 2)"
  "RewardChainBlock_hash toy (hb_reward_chain_block late_b) = Ok (replicate 32 2)"
  "RewardChainBlockUnfinished_hash toy (get_unfinished (hb_reward_chain_block late_b)) = Ok (replicate 32 2)"
  "FoliageTransactionBlock_hash toy (the (hb_foliage_transaction_block late_b)) = Ok (replicate 32 2)"
  "Foliage_hash toy (hb_foliage late_b) = Ok (replicate 32 2)"
  by (simp_all add: late_b_def next_b_def get_unfinished_def toy_hash_defs)

definition slot_cache :: "BlockCache \<Rightarrow> bool" where
  "slot_cache s \<longleftrightarrow> block_records s = [replicate 32 1 \<mapsto> slot_r]"

lemma slot_cache_lookup:
  "slot_cache s \<Longrightarrow> block_records s h = (if h = replicate 32 1 then Some slot_r else None)"
  by (simp add: slot_cache_def)

lemma late_unfinished:
  assumes "slot_cache s"
  shows "validate_unfinished_header_block toy DEFAULT_CONSTANTS s (unfinished_of late_b) cf 1
     134217728 False False ses 1000 = Valid 1"
proof -
  note l = slot_cache_lookup [OF assms]
  note h = late_hashes [unfolded late_b_def next_b_def get_unfinished_def, simplified]
  have c: "ClassgroupElement_hash toy get_default_element = Ok (replicate 32 2)"
    by (simp add: toy_hash_defs)
  have pt: "PoolTarget_bytes toy \<lparr>pt_puzzle_hash = replicate 32 0, max_height = 0\<rparr>
      = Ok (replicate 32 0 @ be_bytes 4 0)"
    by (simp add: PoolTarget_bytes_def PoolTarget_type_def PoolTarget_val_def)
  have pos: "check_position DEFAULT_CONSTANTS s (unfinished_of late_b) 1 134217728 False
   = Valid \<lparr>pos_prev_b = Some slot_r, pos_overflow = False, pos_skip = False, slots_since_prev = 0,
            pos_height = 1, can_finish_se = False, can_finish_epoch = False\<rparr>"
    using l by (simp add: check_position_def toy_validation_defs next_b_def late_b_def)
  have g: "get_block_challenge toy DEFAULT_CONSTANTS [] (replicate 32 1) s False False False = Ok (replicate 32 1)"
    using l by (simp add: get_block_challenge_def challenges_back.simps py_nth_def toy_validation_defs)
  have sp: "check_proof_of_space toy DEFAULT_CONSTANTS s (unfinished_of late_b)
     \<lparr>pos_prev_b = Some slot_r, pos_overflow = False, pos_skip = False, slots_since_prev = 0,
      pos_height = 1, can_finish_se = False, can_finish_epoch = False\<rparr> 1 134217728
   = Valid \<lparr>cc_sp_hash = replicate 32 2, spv_required_iters = 1, spv_sp_iters = 10485760,
            spv_ip_iters = 16777217\<rparr>"
    using plot_hashes
    by (simp add: check_proof_of_space_def toy_validation_defs late_b_def next_b_def plot_def c g vdf_to_def)
  have vi: "get_signage_point_vdf_info toy DEFAULT_CONSTANTS [] False (Some slot_r) s 10485760 10485760
   = Ok (replicate 32 1, replicate 32 2, get_default_element, get_default_element, 4194303, 4194303)"
    by (simp add: get_signage_point_vdf_info_def vdf_info_this_slot_def walk.simps py_last_eq)
  show ?thesis
    unfolding validate_unfinished_header_block_def pos Let_def
    by (simp add: l sp check_finished_slots_def check_block_count_def walk_acc.simps
        check_total_iters_def expected_total_iters_def)
      (simp add: l check_signage_point_def check_rc_sp_def
        check_cc_sp_def check_is_transaction_block_def check_foliage_signatures_def verify_opt_def
        check_pool_target_def check_foliage_block_def walk.simps vi
        toy_validation_defs late_b_def next_b_def h h [unfolded vdf_to_def] c pt plot_def [THEN arg_cong, of pool_public_key]
        plot_def [THEN arg_cong, of pool_contract_puzzle_hash] vdf_to_def)
qed

lemma late_accepted:
  assumes "slot_cache s"
  shows "validate_finished_header_block toy DEFAULT_CONSTANTS s late_b cf 1 134217728 ses 1000 = Valid 1"
proof -
  note h = late_hashes [unfolded late_b_def next_b_def get_unfinished_def, simplified]
  note l = slot_cache_lookup [OF assms]
  show ?thesis
    unfolding validate_finished_header_block_def late_unfinished [OF assms] Let_def
    by (simp add: l check_height_weight_def ip_vdf_start_def check_cc_ip_def check_icc_ip_def
        icc_ip_start_def walk.simps calculate_deficit_def py_last_eq
        toy_validation_defs late_b_def next_b_def h h [unfolded vdf_to_def] vdf_to_def hb_height_def
        hb_weight_def hb_total_iters_def hb_prev_header_hash_def walk.simps py_last_eq)
qed

lemma late_record:
  "\<exists>br. header_block_to_sub_block_record toy DEFAULT_CONSTANTS 1 late_b 134217728 False 14 1 None = Ok br"
  by (simp add: header_block_to_sub_block_record_def Let_def hb_header_hash_def late_hashes)
    (simp add: late_b_def next_b_def hb_height_def toy_hash_defs plot_def vdf_to_def)

definition long_chain :: "HeaderBlock list" where
  "long_chain = [sample_block 0 1 [empty_eos], sample_block 0 1 [empty_eos]] @ replicate 15 (sample_block 0 1 []) @
     [sample_block 0 1 [empty_eos], late_b]"

text \<open>The loop after a slot; \<open>d\<close> is the deficit.\<close>

definition mid_chain :: "int \<Rightarrow> RecentState \<Rightarrow> bool" where
  "mid_chain d st \<longleftrightarrow> rs_ssi st = 134217728 \<and> rs_diff st = 1 \<and> rs_challenge st = Some (replicate 32 1) \<and>
     rs_sub_slots st \<le> 2 \<and> (\<exists>br. rs_prev_block_record st = Some br \<and> height br = 0 \<and> deficit br = d) \<and>
     (\<forall>h. h \<noteq> replicate 32 1 \<longrightarrow> block_records (rs_blocks st) h = None)"

text \<open>A block that is not validated in full: its proof of space is right, and the deficit goes down.\<close>

lemma mid_check:
  assumes m: "mid_chain d st" and p: "rs_prev_challenge st = Some (replicate 32 1)" 
    and g: "calculate_deficit DEFAULT_CONSTANTS 1 (Some d) False (int (length slots)) = Ok d'"
  shows "check_recent_block toy DEFAULT_CONSTANTS tip 1000 (sample_block 0 1 slots) st = Ok (Some 1, False, d')"
proof -
  let ?b = "sample_block 0 1 slots"
  have "get_deficit DEFAULT_CONSTANTS x (rs_prev_block_record st) False (int (length slots)) = Ok d'" for x
    using m g by (auto simp: get_deficit_def mid_chain_def)
  moreover have "validate_pospace_recent_chain toy DEFAULT_CONSTANTS ?b ch 1 False pch = Ok (Some 1)" for ch pch
    using plot_hashes by (simp add: validate_pospace_recent_chain_def sample_block_def genesis_b_def plot_def)
  ultimately show ?thesis
    using m p by (auto simp: check_recent_block_def mid_chain_def is_overflow_block_def fully_validated_def)
qed

lemma mid_step:
  assumes m: "mid_chain d st" and p: "rs_prev_challenge st = Some (replicate 32 1)" and d: "0 < d" "d \<le> 16"
  shows "\<exists>st'. recent_block toy DEFAULT_CONSTANTS ss tip 1000 (sample_block 0 1 []) st = Ok (Some st') \<and>
     mid_chain (d - 1) st' \<and> rs_prev_challenge st' = Some (replicate 32 1) \<and> rs_sub_slots st' = rs_sub_slots st"
proof -
  have c: "check_recent_block toy DEFAULT_CONSTANTS tip 1000 (sample_block 0 1 []) st = Ok (Some 1, False, d - 1)"
    by (rule mid_check [OF m p]) (use d in \<open>simp add: calculate_deficit_def\<close>)
  from sample_record [of 1 0 "[]" 1 134217728 False "d - 1" 0 None] obtain br where
    "header_block_to_sub_block_record toy DEFAULT_CONSTANTS 1 (sample_block 0 1 []) 134217728 False (d - 1) 0 None = Ok br"
      "header_hash br = replicate 32 1" "height br = 0" "deficit br = d - 1" by auto
  with c m p show ?thesis by (auto simp: recent_block_def mid_chain_def add_block_record_def)
qed

lemma mid_steps:
  assumes "mid_chain d st" "rs_prev_challenge st = Some (replicate 32 1)" "int n \<le> d" "d \<le> 16"
  shows "\<exists>st'. recent_blocks_loop toy DEFAULT_CONSTANTS ss tip 1000 (replicate n (sample_block 0 1 []) @ bs) st
       = recent_blocks_loop toy DEFAULT_CONSTANTS ss tip 1000 bs st' \<and>
     mid_chain (d - int n) st' \<and> rs_prev_challenge st' = Some (replicate 32 1)"
  using assms
proof (induction n arbitrary: d st)
  case (Suc n)
  from mid_step [of d st ss tip] Suc.prems obtain st' where
    "recent_block toy DEFAULT_CONSTANTS ss tip 1000 (sample_block 0 1 []) st = Ok (Some st')" "mid_chain (d - 1) st'"
    "rs_prev_challenge st' = Some (replicate 32 1)" by auto
  with Suc.IH [of "d - 1" st'] Suc.prems show ?case by (simp add: algebra_simps)
qed auto

lemma last_slot:
  assumes m: "mid_chain 0 st"
  shows "\<exists>st'. recent_block toy DEFAULT_CONSTANTS ss tip 1000 (sample_block 0 1 [empty_eos]) st = Ok (Some st') \<and>
     slot_cache (rs_blocks st') \<and> rs_ssi st' = 134217728 \<and> rs_diff st' = 1 \<and> rs_challenge st' = Some (replicate 32 1) \<and>
     rs_prev_challenge st' = Some (replicate 32 1) \<and> rs_prev_block_record st' = Some slot_r"
proof -
  define st1 where "st1 = st\<lparr>rs_prev_challenge := Some (replicate 32 1), rs_deficit := 16\<rparr>"
  have 1: "rfold (recent_slot toy ss) [empty_eos] (st, False) = Ok (st1, False)"
    using m by (simp add: st1_def recent_slot_def Let_def empty_eos_hashes mid_chain_def)
  have c: "check_recent_block toy DEFAULT_CONSTANTS tip 1000 (sample_block 0 1 [empty_eos]) st1 = Ok (Some 1, False, 15)"
    by (rule mid_check [of 0]) (use m in \<open>simp_all add: st1_def mid_chain_def calculate_deficit_def\<close>)
  have "\<forall>h. h \<noteq> replicate 32 1 \<longrightarrow> block_records (rs_blocks st1) h = None" using m by (simp add: st1_def mid_chain_def)
  then have "slot_cache (add_block_record (rs_blocks st1) slot_r)" by (auto simp: slot_cache_def add_block_record_def fun_eq_iff)
  with 1 c m show ?thesis by (auto simp: recent_block_def slot_r_record st1_def mid_chain_def)
qed

lemma late_step:
  assumes "slot_cache (rs_blocks st)" "rs_ssi st = 134217728" "rs_diff st = 1" "rs_challenge st = Some (replicate 32 1)"
    "rs_prev_challenge st = Some (replicate 32 1)" "rs_prev_block_record st = Some slot_r"
  shows "\<exists>st'. recent_block toy DEFAULT_CONSTANTS ss tip 1000 late_b st = Ok (Some st')"
proof -
  have b: "hb_finished_sub_slots late_b = []" "hb_height late_b = 1"
    "rcb_signage_point_index (hb_reward_chain_block late_b) = 5"
    by (simp_all add: late_b_def next_b_def hb_height_def)
  have p: "validate_pospace_recent_chain toy DEFAULT_CONSTANTS late_b ch 1 False pch = Ok (Some 1)" for ch pch
    using plot_hashes by (simp add: validate_pospace_recent_chain_def late_b_def next_b_def plot_def vdf_to_def toy_hash_defs)
  have "check_recent_block toy DEFAULT_CONSTANTS tip 1000 late_b st = Ok (Some 1, False, 14)"
    using assms by (simp add: check_recent_block_def b is_overflow_block_def get_deficit_def calculate_deficit_def
        late_accepted p)
  with late_record show ?thesis using assms(2) by (auto simp: recent_block_def b)
qed

lemma long_chain_validated: "validate_recent_blocks toy DEFAULT_CONSTANTS 1000 long_chain [] = Ok True"
proof -
  let ?a = "sample_block 0 1 [empty_eos]" and ?run = "recent_block toy DEFAULT_CONSTANTS [] 1 1000"
  define s0 where "s0 = recent_start DEFAULT_CONSTANTS [] long_chain"
  have s0: "rs_ssi s0 = 134217728 \<and> rs_diff s0 = 1 \<and> rs_challenge s0 = None \<and> rs_prev_challenge s0 = None \<and>
      block_records (rs_blocks s0) = Map.empty \<and> rs_prev_block_record s0 = None \<and> rs_sub_slots s0 = 0"
    by (simp add: s0_def recent_start_def Let_def py_take_def init_BlockCache_def)
  obtain br where br: "header_block_to_sub_block_record toy DEFAULT_CONSTANTS 0 ?a 134217728 False 16 0 None = Ok br"
    "header_hash br = replicate 32 1" "height br = 0" "deficit br = 16"
    using sample_record [of 1 0 "[empty_eos]" 0 134217728 False 16 0 None] by auto
  from s0 br obtain s1 where s1: "?run ?a s0 = Ok (Some s1)" and m1: "mid_chain 16 s1" "rs_sub_slots s1 = 1"
    by (auto simp: recent_block_def recent_slot_def Let_def empty_eos_hashes check_recent_block_def add_block_record_def
        mid_chain_def)
  obtain br' where br': "header_block_to_sub_block_record toy DEFAULT_CONSTANTS 1 ?a 134217728 False 15 0 None = Ok br'"
    "header_hash br' = replicate 32 1" "height br' = 0" "deficit br' = 15"
    using sample_record [of 1 0 "[empty_eos]" 1 134217728 False 15 0 None] by auto
  define st where "st = s1\<lparr>rs_prev_challenge := Some (replicate 32 1), rs_deficit := 16\<rparr>"
  have st: "rfold (recent_slot toy []) [empty_eos] (s1, False) = Ok (st, False)"
    using m1 by (simp add: st_def recent_slot_def Let_def empty_eos_hashes mid_chain_def)
  have c: "check_recent_block toy DEFAULT_CONSTANTS 1 1000 ?a st = Ok (Some 1, False, 15)"
    by (rule mid_check [of 16]) (use m1 in \<open>simp_all add: st_def mid_chain_def calculate_deficit_def\<close>)
  from st c br' m1 obtain s2 where s2: "?run ?a s1 = Ok (Some s2)" "mid_chain 15 s2" "rs_prev_challenge s2 = Some (replicate 32 1)"
    by (auto simp: recent_block_def mid_chain_def add_block_record_def st_def)
  from mid_steps [OF s2(2,3), of 15 "[]" 1 "[?a, late_b]"] obtain s3 where
    s3: "recent_blocks_loop toy DEFAULT_CONSTANTS [] 1 1000 (replicate 15 (sample_block 0 1 []) @ [?a, late_b]) s2
      = recent_blocks_loop toy DEFAULT_CONSTANTS [] 1 1000 [?a, late_b] s3" "mid_chain 0 s3" by auto
  from last_slot [OF s3(2), of "[]" 1] late_step [of _ "[]" 1] have
    "recent_blocks_loop toy DEFAULT_CONSTANTS [] 1 1000 [?a, late_b] s3 = Ok True" by fastforce
  then have "recent_blocks_loop toy DEFAULT_CONSTANTS [] 1 1000 long_chain s0 = Ok True"
    using s1 s2(1) s3(1) by (simp add: long_chain_def)
  moreover have "long_chain \<noteq> []" "last long_chain = late_b" "hb_height late_b = 1"
    by (simp_all add: long_chain_def late_b_def next_b_def hb_height_def)
  ultimately show ?thesis by (simp add: validate_recent_blocks_def py_last_eq s0_def)
qed

section \<open>A local chain that parts from a proof\<close>

definition fork_cache :: BlockCache where
  "fork_cache = init_BlockCache Map.empty Map.empty Map.empty
     [(384, ses0), (768, ses_after (replicate 32 1) 0), (1152, ses_after (replicate 32 2) 1),
      (1536, ses_after (replicate 32 2) 0), (1920, ses_after (replicate 32 2) 3)]"

definition fork_received :: "SubEpochSummary list" where
  "fork_received = [ses0, ses_after (replicate 32 1) 0, ses_after (replicate 32 2) 1, ses_after (replicate 32 2) 0,
     ses0, ses_after (replicate 32 1) 2]"

lemma ses_after_hash: "0 \<le> n \<Longrightarrow> n < 256 \<Longrightarrow> SubEpochSummary_hash toy (ses_after (replicate 32 2) n) = Ok (replicate 32 2)"
  by (simp add: SubEpochSummary_hash_def SubEpochSummary_type_def SubEpochSummary_val_def ses_after_def opt_val_def toy_hash_defs)

lemma fork_heights: "get_ses_heights fork_cache = [384, 768, 1152, 1536, 1920]"
  by (simp add: get_ses_heights_def fork_cache_def init_BlockCache_def)

lemma fork_ses:
  "get_ses fork_cache 384 = Ok ses0" "get_ses fork_cache 768 = Ok (ses_after (replicate 32 1) 0)"
  "get_ses fork_cache 1152 = Ok (ses_after (replicate 32 2) 1)" "get_ses fork_cache 1536 = Ok (ses_after (replicate 32 2) 0)"
  "get_ses fork_cache 1920 = Ok (ses_after (replicate 32 2) 3)"
  by (simp_all add: get_ses_def fork_cache_def init_BlockCache_def)

lemma fork_found: "get_fork_point toy fork_cache fork_received = Ok 768"
  by (simp add: get_fork_point_def fork_heights fork_ses fork_received_def py_nth_def ses_after_hash)

end
