(* ===== verification/Block_Creation.thy ===== *)
theory Block_Creation
  imports Block_Body Header_Validation Full_Node_Store
begin

text \<open>
  \<^verbatim>\<open>chia/consensus/block_creation.py\<close>: how a farmer's node makes an unfinished block at its signage point and
  finishes it at its infusion point. \<open>random_of seed\<close> is \<^verbatim>\<open>random.randint(0, 100000000)\<close> after
  \<^verbatim>\<open>random.seed(seed)\<close>; the two signers are arguments, as in the source, and return an element of
  \<^verbatim>\<open>G2Element\<close> (the pool signer an optional one), so the assertions that a plot signature is not \<^verbatim>\<open>None\<close> are
  left out. \<^verbatim>\<open>create_foliage\<close> appends the reward claims to the list it is given, so that list is part of
  its result.
\<close>

section \<open>Reward claims\<close>

definition claim_coins :: "ConsensusConstants \<Rightarrow> int \<Rightarrow> BlockRecord \<Rightarrow> Coin list \<Rightarrow> Coin list res" where
  "claim_coins c farmer_reward b claims =
     rbind (calculate_pool_reward (height b)) (\<lambda>pool_reward.
     rbind (create_pool_coin (height b) (pool_puzzle_hash b) pool_reward (GENESIS_CHALLENGE c)) (\<lambda>pool_coin.
     rbind (create_farmer_coin (height b) (farmer_puzzle_hash b) farmer_reward (GENESIS_CHALLENGE c))
       (\<lambda>farmer_coin. Ok (claims @ [pool_coin, farmer_coin]))))"

definition reward_claims ::
    "ConsensusConstants \<Rightarrow> BlockCache \<Rightarrow> int \<Rightarrow> BlockRecord option \<Rightarrow> BlockRecord option \<Rightarrow> Coin list res" where
  "reward_claims c blocks h prev_block prev_transaction_block =
     (if h > 0 then
        rbind (unwrap AssertionError prev_transaction_block) (\<lambda>prev_tb.
        rbind (unwrap AssertionError prev_block) (\<lambda>prev_b.
        rbind (walk (block_record blocks) (\<lambda>b. \<not> is_transaction_block b) prev_b) (\<lambda>curr.
        rbind (unwrap AssertionError (fees curr)) (\<lambda>curr_fees.
        rbind (calculate_base_farmer_reward (height curr)) (\<lambda>base.
        rbind (uint64 (base + curr_fees)) (\<lambda>farmer_reward.
        rbind (claim_coins c farmer_reward curr []) (\<lambda>claims.
        rbind (py_assert (header_hash curr = header_hash prev_tb)) (\<lambda>_.
          if height curr > 0 then
            rbind (block_record blocks (prev_hash curr)) (\<lambda>curr.
            rbind (walk_acc (block_record blocks) (\<lambda>b _. \<not> is_transaction_block b)
                     (\<lambda>b claims. rbind (calculate_base_farmer_reward (height b)) (\<lambda>base. claim_coins c base b claims))
                     curr claims) (\<lambda>(_, claims). Ok claims))
          else Ok claims))))))))
      else Ok [])"

section \<open>The foliage\<close>

text \<open>What a transaction block spends, as its creator computes it: the cost and the fees.\<close>

definition creator_cost_fees ::
    "crypto \<Rightarrow> 's clvm \<Rightarrow> ConsensusConstants \<Rightarrow> BlockGenerator option \<Rightarrow> Coin list \<Rightarrow> Coin list \<Rightarrow>
     (int \<times> int) res" where
  "creator_cost_fees cr vm c block_generator additions removals =
     (case block_generator of
        None \<Rightarrow> Ok (0, 0)
      | Some gen \<Rightarrow>
          rbind (get_name_puzzle_conditions cr vm gen (MAX_BLOCK_COST_CLVM c) (COST_PER_BYTE c) True) (\<lambda>npc_result.
          rbind (calculate_cost_of_program (bg_program gen) npc_result (COST_PER_BYTE c)) (\<lambda>cost.
            Ok (cost, sum_list (map coin_amount removals) - sum_list (map coin_amount additions)))))"

definition creator_generator_root :: "crypto \<Rightarrow> BlockGenerator option \<Rightarrow> bytes res" where
  "creator_generator_root cr block_generator =
     (case block_generator of None \<Rightarrow> Ok (replicate 32 0) | Some gen \<Rightarrow> std_hash cr (bg_program gen))"

definition creator_refs_root :: "crypto \<Rightarrow> int list \<Rightarrow> bytes res" where
  "creator_refs_root cr heights =
     (if heights = [] then Ok (replicate 32 1)
      else std_hash cr (concat (map (\<lambda>i. be_bytes 4 (nat i)) heights)))"

text \<open>The filter and the two Merkle roots of the coins.\<close>

definition creator_filter_roots ::
    "crypto \<Rightarrow> Coin list \<Rightarrow> Coin list \<Rightarrow> (bytes \<times> bytes \<times> bytes) res" where
  "creator_filter_roots cr additions removals =
     rbind (rmap (coin_name cr) removals) (\<lambda>tx_removals.
     (let encoded = bip158_encoded cr (map coin_puzzle_hash additions @ tx_removals) in
     rbind (removal_merkle_set cr tx_removals) (\<lambda>removal_set.
     rbind (addition_merkle_set cr additions) (\<lambda>addition_set.
     rbind (get_root cr addition_set) (\<lambda>additions_root.
     rbind (get_root cr removal_set) (\<lambda>removals_root.
     Ok (encoded, additions_root, removals_root)))))))"

definition creator_transactions ::
    "crypto \<Rightarrow> 's clvm \<Rightarrow> ConsensusConstants \<Rightarrow> BlockCache \<Rightarrow> int \<Rightarrow> BlockGenerator option \<Rightarrow> bytes \<Rightarrow>
     Coin list \<Rightarrow> Coin list \<Rightarrow> BlockRecord option \<Rightarrow> BlockRecord option \<Rightarrow> int \<Rightarrow>
     (FoliageTransactionBlock \<times> TransactionsInfo \<times> Coin list) res" where
  "creator_transactions cr vm c blocks h block_generator aggregate_sig additions removals prev_block
       prev_transaction_block ts =
     rbind (creator_cost_fees cr vm c block_generator additions removals) (\<lambda>(cost, spend_bundle_fees).
     rbind (reward_claims c blocks h prev_block prev_transaction_block) (\<lambda>claims.
     let additions = additions @ claims in
     rbind (creator_filter_roots cr additions removals) (\<lambda>(encoded, additions_root, removals_root).
     rbind (creator_generator_root cr block_generator) (\<lambda>generator_hash.
     rbind (creator_refs_root cr (case block_generator of None \<Rightarrow> [] | Some gen \<Rightarrow> block_height_list gen))
       (\<lambda>generator_refs_hash.
     rbind (std_hash cr encoded) (\<lambda>filter_hash.
     rbind (uint64 spend_bundle_fees) (\<lambda>ti_fees.
     let ti = \<lparr>generator_root = generator_hash, generator_refs_root = generator_refs_hash,
               ti_aggregated_signature = aggregate_sig, ti_fees = ti_fees, ti_cost = cost,
               ti_reward_claims_incorporated = claims\<rparr> in
     rbind (TransactionsInfo_hash cr ti) (\<lambda>ti_hash.
       Ok (\<lparr>ftb_prev_transaction_block_hash =
              (case prev_transaction_block of None \<Rightarrow> GENESIS_CHALLENGE c | Some b \<Rightarrow> header_hash b),
            ftb_timestamp = ts, filter_hash = filter_hash, additions_root = additions_root,
            removals_root = removals_root, transactions_info_hash = ti_hash\<rparr>, ti, additions)))))))))"

type_synonym plot_signer = "bytes \<Rightarrow> bytes \<Rightarrow> bytes"
type_synonym pool_signer = "PoolTarget \<Rightarrow> bytes option \<Rightarrow> bytes option"

definition create_foliage ::
    "crypto \<Rightarrow> 's clvm \<Rightarrow> (bytes \<Rightarrow> int) \<Rightarrow> ConsensusConstants \<Rightarrow> RewardChainBlockUnfinished \<Rightarrow>
     BlockGenerator option \<Rightarrow> bytes \<Rightarrow> Coin list \<Rightarrow> Coin list \<Rightarrow> BlockRecord option \<Rightarrow> BlockCache \<Rightarrow> int \<Rightarrow>
     int \<Rightarrow> bytes \<Rightarrow> PoolTarget \<Rightarrow> plot_signer \<Rightarrow> pool_signer \<Rightarrow> bytes \<Rightarrow>
     ((Foliage \<times> FoliageTransactionBlock option \<times> TransactionsInfo option) \<times> Coin list) res" where
  "create_foliage cr vm random_of c rcb block_generator aggregate_sig additions removals prev_block blocks
       total_iters_sp ts farmer_ph pool_tgt get_plot_signature get_pool_signature seed =
     rbind (case prev_block of
              Some p \<Rightarrow> rbind (get_prev_transaction_block p blocks total_iters_sp) (\<lambda>(is_tx, tb). Ok (is_tx, Some tb))
            | None \<Rightarrow> Ok (True, None)) (\<lambda>(is_tx, prev_transaction_block).
     let extension = be_bytes 32 (nat (random_of seed)) in
     rbind (case prev_block of None \<Rightarrow> uint32 0 | Some p \<Rightarrow> uint32 (height p + 1)) (\<lambda>h.
     let pool_sig = get_pool_signature pool_tgt (pool_public_key (rcbu_proof_of_space rcb));
         pk = plot_public_key (rcbu_proof_of_space rcb) in
     rbind (RewardChainBlockUnfinished_hash cr rcb) (\<lambda>rcb_hash.
     let data = \<lparr>unfinished_reward_block_hash = rcb_hash, pool_target = pool_tgt, pool_signature = pool_sig,
                 farmer_reward_puzzle_hash = farmer_ph, extension_data = extension\<rparr> in
     rbind (FoliageBlockData_hash cr data) (\<lambda>data_hash.
     let data_sig = get_plot_signature data_hash pk in
     rbind (if h \<noteq> 0 then rbind (unwrap AssertionError prev_block) (\<lambda>p. Ok (header_hash p))
            else Ok (GENESIS_CHALLENGE c)) (\<lambda>prev_block_hash.
     rbind (if is_tx then
              rbind (creator_transactions cr vm c blocks h block_generator aggregate_sig additions removals
                       prev_block prev_transaction_block ts) (\<lambda>(ftb, ti, additions).
              rbind (FoliageTransactionBlock_hash cr ftb) (\<lambda>ftb_hash.
                Ok (Some ftb_hash, Some (get_plot_signature ftb_hash pk), Some ftb, Some ti, additions)))
            else Ok (None, None, None, None, additions)) (\<lambda>(ftb_hash, ftb_sig, ftb, ti, additions).
     rbind (py_assert ((ftb_hash = None) = (ftb_sig = None))) (\<lambda>_.
       Ok ((\<lparr>prev_block_hash = prev_block_hash, reward_block_hash = rcb_hash, foliage_block_data = data,
             foliage_block_data_signature = data_sig, foliage_transaction_block_hash = ftb_hash,
             foliage_transaction_block_signature = ftb_sig\<rparr>, ftb, ti), additions))))))))"

section \<open>Unfinished blocks\<close>

text \<open>The output of the reward chain at the signage point: of the signage point's own VDF, of the last finished
  slot, or of the slot the previous block lies in. Without VDFs the signage point is replaced by an empty one.\<close>

definition creator_sp ::
    "crypto \<Rightarrow> ConsensusConstants \<Rightarrow> BlockCache \<Rightarrow> BlockRecord option \<Rightarrow> EndOfSubSlotBundle list \<Rightarrow> bytes \<Rightarrow>
     SignagePoint \<Rightarrow> (bytes \<times> bytes \<times> SignagePoint) res" where
  "creator_sp cr c blocks prev_block slots slot_cc_challenge signage_point =
     (case sp_cc_vdf signage_point of
        Some cc_vdf \<Rightarrow>
          rbind (unwrap AssertionError (sp_rc_vdf signage_point)) (\<lambda>rc_vdf.
          rbind (ClassgroupElement_hash cr (vdf_output cc_vdf)) (\<lambda>cc_sp_hash.
          rbind (ClassgroupElement_hash cr (vdf_output rc_vdf)) (\<lambda>rc_sp_hash.
            Ok (cc_sp_hash, rc_sp_hash, signage_point))))
      | None \<Rightarrow>
          rbind (if slots \<noteq> [] then
                   rbind (py_last slots) (\<lambda>s. RewardChainSubSlot_hash cr (reward_chain s))
                 else (case prev_block of
                   None \<Rightarrow> Ok (GENESIS_CHALLENGE c)
                 | Some p \<Rightarrow>
                     rbind (walk (block_record blocks) (\<lambda>b. \<not> first_in_sub_slot b) p) (\<lambda>curr.
                     rbind (unwrap AssertionError (finished_reward_slot_hashes curr)) (\<lambda>hs. py_last hs))))
            (\<lambda>rc_sp_hash. Ok (slot_cc_challenge, rc_sp_hash, empty_sp)))"

definition create_unfinished_block ::
    "crypto \<Rightarrow> 's clvm \<Rightarrow> (bytes \<Rightarrow> int) \<Rightarrow> ConsensusConstants \<Rightarrow> int \<Rightarrow> int \<Rightarrow> int \<Rightarrow> int \<Rightarrow> int \<Rightarrow> ProofOfSpace \<Rightarrow>
     bytes \<Rightarrow> bytes \<Rightarrow> PoolTarget \<Rightarrow> plot_signer \<Rightarrow> pool_signer \<Rightarrow> SignagePoint \<Rightarrow> int \<Rightarrow> BlockCache \<Rightarrow> bytes \<Rightarrow>
     BlockGenerator option \<Rightarrow> bytes \<Rightarrow> Coin list option \<Rightarrow> Coin list option \<Rightarrow> BlockRecord option \<Rightarrow>
     EndOfSubSlotBundle list option \<Rightarrow> (UnfinishedBlock \<times> Coin list) res" where
  "create_unfinished_block cr vm random_of c sub_slot_start_total_iters ssi sp_index sp_it ip_it
       proof_of_space slot_cc_challenge farmer_ph pool_tgt get_plot_signature get_pool_signature signage_point ts
       blocks seed block_generator aggregate_sig additions removals prev_block finished_sub_slots_input =
     (let slots = (case finished_sub_slots_input of None \<Rightarrow> [] | Some xs \<Rightarrow> xs);
          overflow = sp_it > ip_it;
          pk = plot_public_key proof_of_space in
     rbind (uint128 (sub_slot_start_total_iters + sp_it)) (\<lambda>total_iters_sp.
     rbind (creator_sp cr c blocks prev_block slots slot_cc_challenge signage_point)
       (\<lambda>(cc_sp_hash, rc_sp_hash, signage_point).
     let cc_sp_signature = get_plot_signature cc_sp_hash pk;
         rc_sp_signature = get_plot_signature rc_sp_hash pk in
     rbind (py_assert (aug_verify cr pk cc_sp_hash cc_sp_signature)) (\<lambda>_.
     rbind (uint128 (sub_slot_start_total_iters + ip_it + (if overflow then ssi else 0))) (\<lambda>total_iters.
     let rcb = \<lparr>rcbu_total_iters = total_iters, rcbu_signage_point_index = sp_index,
                rcbu_pos_ss_cc_challenge_hash = slot_cc_challenge, rcbu_proof_of_space = proof_of_space,
                rcbu_challenge_chain_sp_vdf = sp_cc_vdf signage_point,
                rcbu_challenge_chain_sp_signature = cc_sp_signature,
                rcbu_reward_chain_sp_vdf = sp_rc_vdf signage_point,
                rcbu_reward_chain_sp_signature = rc_sp_signature\<rparr> in
     rbind (create_foliage cr vm random_of c rcb block_generator aggregate_sig
              (case additions of None \<Rightarrow> [] | Some a \<Rightarrow> a) (case removals of None \<Rightarrow> [] | Some r \<Rightarrow> r)
              prev_block blocks total_iters_sp ts farmer_ph pool_tgt get_plot_signature get_pool_signature seed)
       (\<lambda>((foliage, ftb, ti), additions).
       Ok (\<lparr>ub_finished_sub_slots = slots, ub_reward_chain_block = rcb,
            ub_challenge_chain_sp_proof = sp_cc_proof signage_point,
            ub_reward_chain_sp_proof = sp_rc_proof signage_point,
            ub_foliage = foliage, ub_foliage_transaction_block = ftb, ub_transactions_info = ti,
            ub_transactions_generator = map_option bg_program block_generator,
            ub_transactions_generator_ref_list =
              (case block_generator of None \<Rightarrow> [] | Some gen \<Rightarrow> block_height_list gen)\<rparr>, additions)))))))"

section \<open>Finished blocks\<close>

text \<open>What the infusion point changes: weight, height, whether it is a transaction block, and with it the foliage and
  the transactions.\<close>

record Infusion =
  inf_weight :: int
  inf_height :: int
  inf_is_transaction_block :: bool
  inf_foliage :: Foliage
  inf_foliage_transaction_block :: "FoliageTransactionBlock option"
  inf_transactions_info :: "TransactionsInfo option"
  inf_generator :: "bytes option"
  inf_generator_ref_list :: "int list"

definition infuse ::
    "UnfinishedBlock \<Rightarrow> BlockRecord option \<Rightarrow> BlockCache \<Rightarrow> int \<Rightarrow> int \<Rightarrow> Infusion res" where
  "infuse ub prev_block blocks total_iters_sp difficulty =
     (case prev_block of
        None \<Rightarrow>
          rbind (uint128 difficulty) (\<lambda>new_weight.
          rbind (uint32 0) (\<lambda>new_height.
            Ok \<lparr>inf_weight = new_weight, inf_height = new_height, inf_is_transaction_block = True,
                inf_foliage = ub_foliage ub, inf_foliage_transaction_block = ub_foliage_transaction_block ub,
                inf_transactions_info = ub_transactions_info ub, inf_generator = ub_transactions_generator ub,
                inf_generator_ref_list = ub_transactions_generator_ref_list ub\<rparr>))
      | Some p \<Rightarrow>
          rbind (get_prev_transaction_block p blocks total_iters_sp) (\<lambda>(is_tx, _).
          rbind (uint128 (weight p + difficulty)) (\<lambda>new_weight.
          rbind (uint32 (height p + 1)) (\<lambda>new_height.
          let new_fbh = (if is_tx then foliage_transaction_block_hash (ub_foliage ub) else None);
              new_fbs = (if is_tx then foliage_transaction_block_signature (ub_foliage ub) else None) in
          rbind (py_assert ((new_fbh = None) = (new_fbs = None))) (\<lambda>_.
            Ok \<lparr>inf_weight = new_weight, inf_height = new_height, inf_is_transaction_block = is_tx,
                inf_foliage = (ub_foliage ub)\<lparr>prev_block_hash := header_hash p,
                    foliage_transaction_block_hash := new_fbh, foliage_transaction_block_signature := new_fbs\<rparr>,
                inf_foliage_transaction_block = (if is_tx then ub_foliage_transaction_block ub else None),
                inf_transactions_info = (if is_tx then ub_transactions_info ub else None),
                inf_generator = (if is_tx then ub_transactions_generator ub else None),
                inf_generator_ref_list = (if is_tx then ub_transactions_generator_ref_list ub else [])\<rparr>)))))"

text \<open>\<^verbatim>\<open>recursive_replace(ret, "foliage.reward_block_hash", h)\<close>.\<close>

definition replace_reward_block_hash :: "FullBlock \<Rightarrow> bytes \<Rightarrow> FullBlock" where
  "replace_reward_block_hash b h = b\<lparr>fb_foliage := (fb_foliage b)\<lparr>reward_block_hash := h\<rparr>\<rparr>"

definition unfinished_block_to_full_block ::
    "crypto \<Rightarrow> UnfinishedBlock \<Rightarrow> VDFInfo \<Rightarrow> VDFProof \<Rightarrow> VDFInfo \<Rightarrow> VDFProof \<Rightarrow> VDFInfo option \<Rightarrow>
     VDFProof option \<Rightarrow> EndOfSubSlotBundle list \<Rightarrow> BlockRecord option \<Rightarrow> BlockCache \<Rightarrow> int \<Rightarrow> int \<Rightarrow>
     FullBlock res" where
  "unfinished_block_to_full_block cr ub cc_ip_vdf cc_ip_proof rc_ip_vdf rc_ip_proof icc_ip_vdf icc_ip_proof
       slots prev_block blocks total_iters_sp difficulty =
     rbind (infuse ub prev_block blocks total_iters_sp difficulty) (\<lambda>new.
     let rcb = ub_reward_chain_block ub;
         ret = \<lparr>fb_finished_sub_slots = slots,
                fb_reward_chain_block =
                  \<lparr>rcb_weight = inf_weight new, rcb_height = inf_height new,
                   rcb_total_iters = rcbu_total_iters rcb,
                   rcb_signage_point_index = rcbu_signage_point_index rcb,
                   rcb_pos_ss_cc_challenge_hash = rcbu_pos_ss_cc_challenge_hash rcb,
                   rcb_proof_of_space = rcbu_proof_of_space rcb,
                   rcb_challenge_chain_sp_vdf = rcbu_challenge_chain_sp_vdf rcb,
                   rcb_challenge_chain_sp_signature = rcbu_challenge_chain_sp_signature rcb,
                   rcb_challenge_chain_ip_vdf = cc_ip_vdf,
                   rcb_reward_chain_sp_vdf = rcbu_reward_chain_sp_vdf rcb,
                   rcb_reward_chain_sp_signature = rcbu_reward_chain_sp_signature rcb,
                   rcb_reward_chain_ip_vdf = rc_ip_vdf,
                   rcb_infused_challenge_chain_ip_vdf = icc_ip_vdf,
                   rcb_is_transaction_block = inf_is_transaction_block new\<rparr>,
                fb_challenge_chain_sp_proof = ub_challenge_chain_sp_proof ub,
                fb_challenge_chain_ip_proof = cc_ip_proof,
                fb_reward_chain_sp_proof = ub_reward_chain_sp_proof ub,
                fb_reward_chain_ip_proof = rc_ip_proof,
                fb_infused_challenge_chain_ip_proof = icc_ip_proof,
                fb_foliage = inf_foliage new,
                fb_foliage_transaction_block = inf_foliage_transaction_block new,
                fb_transactions_info = inf_transactions_info new,
                fb_transactions_generator = inf_generator new,
                fb_transactions_generator_ref_list = inf_generator_ref_list new\<rparr> in
     rbind (RewardChainBlock_hash cr (fb_reward_chain_block ret)) (\<lambda>h.
       Ok (replace_reward_block_hash ret h)))"

end
