(* ===== verification/Creation_Facts.thy ===== *)
theory Creation_Facts
  imports Block_Creation Condition_Facts
begin

text \<open>
  What a created block has in common with what validation asks for: \<^verbatim>\<open>create_foliage\<close> walks the records as
  \<^verbatim>\<open>validate_block_body\<close> does, so its reward claims are the expected ones, and its roots, filter and
  generator hashes are those of its coins; \<^verbatim>\<open>unfinished_block_to_full_block\<close> keeps them. \<open>coin_checks\<close> is what
  \<^verbatim>\<open>validate_block_body\<close> still has to check then.
\<close>

section \<open>The claims are the expected rewards\<close>

definition claimed_above :: "bytes \<Rightarrow> int \<Rightarrow> Coin \<Rightarrow> bool" where
  "claimed_above g k x \<longleftrightarrow>
     (\<exists>h>k. pool_parent_id h g = Ok (parent_coin_info x) \<or> farmer_parent_id h g = Ok (parent_coin_info x))"

lemma claim_coins_expected:
  assumes claim: "claim_coins c r b claims = Ok claims'"
    and base: "calculate_base_farmer_reward (height b) = Ok base" "uint64 (base + extra) = Ok r"
    and above: "\<forall>x\<in>set claims. claimed_above (GENESIS_CHALLENGE c) (height b) x" and "distinct claims"
    and halves: "take 16 (GENESIS_CHALLENGE c) \<noteq> drop 16 (GENESIS_CHALLENGE c)"
  shows "add_block_rewards c extra b claims = Ok claims' \<and> distinct claims' \<and>
     (\<forall>x\<in>set claims'. claimed_above (GENESIS_CHALLENGE c) (height b - 1) x)"
proof -
  let ?g = "GENESIS_CHALLENGE c" and ?h = "height b"
  from claim obtain pr p f where
    p: "calculate_pool_reward ?h = Ok pr" "create_pool_coin ?h (pool_puzzle_hash b) pr ?g = Ok p"
    and f: "create_farmer_coin ?h (farmer_puzzle_hash b) r ?g = Ok f" and c': "claims' = claims @ [p, f]"
    by (auto simp: claim_coins_def)
  have pp: "pool_parent_id ?h ?g = Ok (parent_coin_info p)" using p(2) by (auto simp: create_pool_coin_def)
  have fp: "farmer_parent_id ?h ?g = Ok (parent_coin_info f)" using f by (auto simp: create_farmer_coin_def)
  have "p \<noteq> f" using pool_farmer_parent_disjoint [OF pp, of ?h] fp halves by auto
  moreover have "p \<notin> set claims"
    using above pp halves pool_farmer_parent_disjoint [OF pp] by (auto simp: claimed_above_def dest: pool_parent_id_inj)
  moreover have "f \<notin> set claims"
    using above fp halves pool_farmer_parent_disjoint [OF _ fp] by (auto simp: claimed_above_def dest: farmer_parent_id_inj)
  moreover have "claimed_above ?g (?h - 1) x" if "x \<in> set claims'" for x
  proof -
    from that consider "x \<in> set claims" | "x = p" | "x = f" by (auto simp: c')
    then show ?thesis
    proof cases
      case 1
      then show ?thesis using above unfolding claimed_above_def by (meson less_trans zless_imp_add1_zle zle_diff1_eq order.refl)
    qed (use pp fp in \<open>auto simp: claimed_above_def intro: exI [of _ ?h]\<close>)
  qed
  ultimately show ?thesis using p f base \<open>distinct claims\<close> by (simp add: add_block_rewards_def set_add_def c')
qed

lemma claims_loop_expected:
  assumes ok: "heights_ok s" and halves: "take 16 (GENESIS_CHALLENGE c) \<noteq> drop 16 (GENESIS_CHALLENGE c)"
  shows "stored (block_record s) b \<Longrightarrow>
    walk_acc (block_record s) (\<lambda>b _. \<not> is_transaction_block b)
      (\<lambda>b claims. rbind (calculate_base_farmer_reward (height b)) (\<lambda>base. claim_coins c base b claims)) b claims
      = Ok (e, claims') \<Longrightarrow>
    \<forall>x\<in>set claims. claimed_above (GENESIS_CHALLENGE c) (height b) x \<Longrightarrow> distinct claims \<Longrightarrow>
    walk_acc (block_record s) (\<lambda>b _. \<not> is_transaction_block b) (add_block_rewards c 0) b claims = Ok (e, claims') \<and>
    distinct claims'"
proof (induction "nat (height b)" arbitrary: b claims rule: less_induct)
  case less
  show ?case
  proof (cases "is_transaction_block b")
    case True
    then show ?thesis using less.prems(2,4) by (auto simp: walk_acc.simps)
  next
    case False
    then obtain claims1 p where
      one: "claim_coins c (12500000 * reward_unit (height b)) b claims = Ok claims1" and
      p: "block_record s (prev_hash b) = Ok p" and
      rest: "walk_acc (block_record s) (\<lambda>b _. \<not> is_transaction_block b)
        (\<lambda>b claims. rbind (calculate_base_farmer_reward (height b)) (\<lambda>base. claim_coins c base b claims)) p claims1
        = Ok (e, claims')"
      using less.prems(2) by (auto simp: walk_acc.simps [of _ _ _ b] farmer_reward_eq)
    have base: "calculate_base_farmer_reward (height b) = Ok (12500000 * reward_unit (height b))"
      "uint64 (12500000 * reward_unit (height b) + 0) = Ok (12500000 * reward_unit (height b))"
      by (simp_all add: farmer_reward_eq reward_unit_def)
    note st = claim_coins_expected [OF one base less.prems(3,4) halves]
    have sp: "stored (block_record s) p" "height b = height p + 1"
      using bc.stored_get [OF ok p] bc.stored_prev [OF ok less.prems(1) p] .
    then have "nat (height p) < nat (height b)" using bc.stored_height [OF ok sp(1)] by simp
    from less.hyps [OF this sp(1) rest] st sp(2) False p show ?thesis
      by (simp add: walk_acc.simps [of _ _ _ b])
  qed
qed

lemma reward_claims_expected:
  assumes ok: "heights_ok s" and halves: "take 16 (GENESIS_CHALLENGE c) \<noteq> drop 16 (GENESIS_CHALLENGE c)"
    and prev: "stored (block_record s) p" and h: "h > 0"
    and claims: "reward_claims c s h (Some p) (Some tb) = Ok claims"
    and ftb: "ftb_prev_transaction_block_hash ftb = header_hash tb"
  shows "(\<exists>k. expected_reward_coins c s ftb h = Ok (k, claims)) \<and> distinct claims"
proof -
  from claims h obtain cur fe r cl where
    w: "walk (block_record s) (\<lambda>b. \<not> is_transaction_block b) p = Ok cur" and
    fe: "fees cur = Some fe" and
    r: "uint64 (12500000 * reward_unit (height cur) + fe) = Ok r" and
    one: "claim_coins c r cur [] = Ok cl" and
    same: "header_hash cur = header_hash tb" and
    rest: "(if height cur > 0 then
            rbind (block_record s (prev_hash cur)) (\<lambda>curr.
            rbind (walk_acc (block_record s) (\<lambda>b _. \<not> is_transaction_block b)
                     (\<lambda>b claims. rbind (calculate_base_farmer_reward (height b)) (\<lambda>base. claim_coins c base b claims))
                     curr cl) (\<lambda>(_, claims). Ok claims))
          else Ok cl) = Ok claims"
    unfolding reward_claims_def by (auto simp: farmer_reward_eq)
  have cur: "stored (block_record s) cur" using bc.walk_stops [OF ok prev w] by blast
  have look: "block_record s (ftb_prev_transaction_block_hash ftb) = Ok cur"
    using cur same ftb by (simp add: stored_def)
  have "calculate_base_farmer_reward (height cur) = Ok (12500000 * reward_unit (height cur))"
    by (simp add: farmer_reward_eq)
  note st = claim_coins_expected [OF one this r _ _ halves, simplified]
  show ?thesis
  proof (cases "height cur > 0")
    case False
    then show ?thesis using h look fe st rest by (simp add: expected_reward_coins_def)
  next
    case True
    with rest obtain q e where q: "block_record s (prev_hash cur) = Ok q" and
      loop: "walk_acc (block_record s) (\<lambda>b _. \<not> is_transaction_block b)
                     (\<lambda>b claims. rbind (calculate_base_farmer_reward (height b)) (\<lambda>base. claim_coins c base b claims))
                     q cl = Ok (e, claims)" by auto
    have "stored (block_record s) q" "height cur = height q + 1"
      using bc.stored_get [OF ok q] bc.stored_prev [OF ok cur q] .
    with claims_loop_expected [OF ok halves this(1) loop] st
    have "walk_acc (block_record s) (\<lambda>b _. \<not> is_transaction_block b) (add_block_rewards c 0) q cl = Ok (e, claims)"
      and "distinct claims" by simp_all
    then show ?thesis using True h look fe st q by (simp add: expected_reward_coins_def)
  qed
qed

section \<open>What is created\<close>

lemma created_unfinishedE:
  assumes "create_unfinished_block cr vm random_of c start ssi sp_index sp_it ip_it pos challenge farmer_ph pool_tgt
      plot_sig pool_sig signage_point ts blocks seed gen agg (Some adds) (Some rems) prev slots = Ok (ub, adds')"
  obtains "0 \<le> start + sp_it" "start + sp_it < 2 ^ 128"
    "create_foliage cr vm random_of c (ub_reward_chain_block ub) gen agg adds rems prev blocks (start + sp_it) ts
       farmer_ph pool_tgt plot_sig pool_sig seed
     = Ok ((ub_foliage ub, ub_foliage_transaction_block ub, ub_transactions_info ub), adds')"
    "ub_transactions_generator ub = map_option bg_program gen"
    "ub_transactions_generator_ref_list ub = (case gen of None \<Rightarrow> [] | Some g \<Rightarrow> block_height_list g)"
    "rcbu_proof_of_space (ub_reward_chain_block ub) = pos"
    "rcbu_total_iters (ub_reward_chain_block ub) = start + ip_it + (if sp_it > ip_it then ssi else 0)"
  using assms unfolding create_unfinished_block_def Let_def by auto

lemma created_foliage:
  assumes "create_foliage cr vm random_of c rcb gen agg adds rems prev blocks tsp ts farmer_ph pool_tgt plot_sig
      pool_sig seed = Ok ((fol, ftb, ti), adds')"
  obtains is_tx tb h fh where
    "case prev of None \<Rightarrow> is_tx \<and> tb = None \<and> h = 0
      | Some p \<Rightarrow> (\<exists>q. get_prev_transaction_block p blocks tsp = Ok (is_tx, q) \<and> tb = Some q) \<and> h = height p + 1 \<and> 0 \<le> h"
    "RewardChainBlockUnfinished_hash cr rcb = Ok (unfinished_reward_block_hash (foliage_block_data fol))"
    "FoliageBlockData_hash cr (foliage_block_data fol) = Ok fh"
    "foliage_block_data_signature fol = plot_sig fh (plot_public_key (rcbu_proof_of_space rcb))"
    "prev_block_hash fol = (if h = 0 then GENESIS_CHALLENGE c else header_hash (the prev))"
    "if is_tx then \<exists>f' t k. ftb = Some f' \<and> ti = Some t \<and>
        creator_transactions cr vm c blocks h gen agg adds rems prev tb ts = Ok (f', t, adds') \<and>
        FoliageTransactionBlock_hash cr f' = Ok k \<and> foliage_transaction_block_hash fol = Some k \<and>
        foliage_transaction_block_signature fol = Some (plot_sig k (plot_public_key (rcbu_proof_of_space rcb)))
     else ftb = None \<and> ti = None \<and> foliage_transaction_block_hash fol = None \<and>
        foliage_transaction_block_signature fol = None \<and> adds' = adds"
proof -
  from assms obtain is_tx tb h rh dh k where
    tx: "(case prev of
              Some p \<Rightarrow> rbind (get_prev_transaction_block p blocks tsp) (\<lambda>(is_tx, tb). Ok (is_tx, Some tb))
            | None \<Rightarrow> Ok (True, None)) = Ok (is_tx, tb)" and
    h: "(case prev of None \<Rightarrow> uint32 0 | Some p \<Rightarrow> uint32 (height p + 1)) = Ok h" and
    rest: "RewardChainBlockUnfinished_hash cr rcb = Ok (unfinished_reward_block_hash (foliage_block_data fol))"
      "FoliageBlockData_hash cr (foliage_block_data fol) = Ok dh"
      "foliage_block_data_signature fol = plot_sig dh (plot_public_key (rcbu_proof_of_space rcb))"
      "(if h \<noteq> 0 then rbind (unwrap AssertionError prev) (\<lambda>p. Ok (header_hash p))
            else Ok (GENESIS_CHALLENGE c)) = Ok (prev_block_hash fol)"
      "(if is_tx then
              rbind (creator_transactions cr vm c blocks h gen agg adds rems prev tb ts) (\<lambda>(ftb, ti, additions).
              rbind (FoliageTransactionBlock_hash cr ftb) (\<lambda>ftb_hash.
                Ok (Some ftb_hash, Some (plot_sig ftb_hash (plot_public_key (rcbu_proof_of_space rcb))), Some ftb,
                    Some ti, additions)))
            else Ok (None, None, None, None, adds)) = Ok (foliage_transaction_block_hash fol,
              foliage_transaction_block_signature fol, ftb, ti, adds')"
    unfolding create_foliage_def Let_def by (clarsimp simp: split_paired_all)
  show thesis
  proof (rule that [of is_tx tb h dh])
    show "case prev of None \<Rightarrow> is_tx \<and> tb = None \<and> h = 0
      | Some p \<Rightarrow> (\<exists>q. get_prev_transaction_block p blocks tsp = Ok (is_tx, q) \<and> tb = Some q) \<and> h = height p + 1 \<and> 0 \<le> h"
      using tx h by (auto split: option.splits)
    show "prev_block_hash fol = (if h = 0 then GENESIS_CHALLENGE c else header_hash (the prev))"
      using rest(4) by (auto split: if_splits)
  qed (use rest in \<open>auto split: if_splits\<close>)
qed

lemma created_transaction_block:
  assumes "create_foliage cr vm random_of c rcb gen agg adds rems prev blocks tsp ts farmer_ph pool_tgt plot_sig
      pool_sig seed = Ok ((fol, Some f, ti), adds')"
  obtains tb h t k where
    "case prev of None \<Rightarrow> tb = None \<and> h = 0
      | Some p \<Rightarrow> (\<exists>q. get_prev_transaction_block p blocks tsp = Ok (True, q) \<and> tb = Some q) \<and> h = height p + 1"
    "ti = Some t" "creator_transactions cr vm c blocks h gen agg adds rems prev tb ts = Ok (f, t, adds')"
    "FoliageTransactionBlock_hash cr f = Ok k" "foliage_transaction_block_hash fol = Some k"
    "foliage_transaction_block_signature fol = Some (plot_sig k (plot_public_key (rcbu_proof_of_space rcb)))"
proof (rule created_foliage [OF assms])
  fix is_tx tb h fh
  assume p: "case prev of None \<Rightarrow> is_tx \<and> tb = None \<and> h = 0
      | Some p \<Rightarrow> (\<exists>q. get_prev_transaction_block p blocks tsp = Ok (is_tx, q) \<and> tb = Some q) \<and> h = height p + 1 \<and> 0 \<le> h"
  assume "if is_tx then \<exists>f' t k. Some f = Some f' \<and> ti = Some t \<and>
        creator_transactions cr vm c blocks h gen agg adds rems prev tb ts = Ok (f', t, adds') \<and>
        FoliageTransactionBlock_hash cr f' = Ok k \<and> foliage_transaction_block_hash fol = Some k \<and>
        foliage_transaction_block_signature fol = Some (plot_sig k (plot_public_key (rcbu_proof_of_space rcb)))
     else Some f = None \<and> ti = None \<and> foliage_transaction_block_hash fol = None \<and>
        foliage_transaction_block_signature fol = None \<and> adds' = adds"
  then obtain t k where is_tx and t: "ti = Some t"
    "creator_transactions cr vm c blocks h gen agg adds rems prev tb ts = Ok (f, t, adds')"
    "FoliageTransactionBlock_hash cr f = Ok k" "foliage_transaction_block_hash fol = Some k"
    "foliage_transaction_block_signature fol = Some (plot_sig k (plot_public_key (rcbu_proof_of_space rcb)))"
    by (auto split: if_splits)
  show thesis by (rule that [OF _ t]) (use p \<open>is_tx\<close> in \<open>auto split: option.splits\<close>)
qed

lemma created_transactions:
  assumes "creator_transactions cr vm c blocks h gen agg adds rems prev tb ts = Ok (f, t, adds')"
  obtains names where
    "reward_claims c blocks h prev tb = Ok (ti_reward_claims_incorporated t)"
    "adds' = adds @ ti_reward_claims_incorporated t"
    "creator_cost_fees cr vm c gen adds rems = Ok (ti_cost t, ti_fees t)"
    "rmap (coin_name cr) rems = Ok names"
    "validate_block_merkle_roots cr (additions_root f) (removals_root f) (Some adds') (Some names) = Ok None"
    "std_hash cr (bip158_encoded cr (map coin_puzzle_hash adds' @ names)) = Ok (filter_hash f)"
    "creator_generator_root cr gen = Ok (generator_root t)"
    "creator_refs_root cr (case gen of None \<Rightarrow> [] | Some g \<Rightarrow> block_height_list g) = Ok (generator_refs_root t)"
    "TransactionsInfo_hash cr t = Ok (transactions_info_hash f)" "ftb_timestamp f = ts"
    "ftb_prev_transaction_block_hash f = (case tb of None \<Rightarrow> GENESIS_CHALLENGE c | Some b \<Rightarrow> header_hash b)"
  using assms unfolding creator_transactions_def creator_filter_roots_def Let_def validate_block_merkle_roots_def
  by (clarsimp simp: split_paired_all)

lemma additions_within_limits:
  assumes "rmap (coin_name cr) coins = Ok names"
    and "\<forall>x\<in>set coins. 0 \<le> coin_amount x \<and> coin_amount x \<le> MAX_COIN_AMOUNT c"
  shows "\<exists>dic'. vfold (addition_step cr c) coins dic = Valid dic'"
  using assms by (induction coins arbitrary: dic names) (auto simp: addition_step_def)

lemma created_additions_removals:
  assumes created: "creator_transactions cr vm c blocks h gen agg adds rems prev tb ts = Ok (f, t, adds')"
    and cost: "bs_cost sp = ti_cost t" and adds: "bs_additions sp = adds"
    and rems: "rmap (coin_name cr) rems = Ok (bs_removals sp)" "distinct (bs_removals sp)"
    and names: "rmap (coin_name cr) adds' = Ok names" "distinct names"
    and amounts: "\<forall>x\<in>set adds'. 0 \<le> coin_amount x \<and> coin_amount x \<le> MAX_COIN_AMOUNT c"
  shows "\<exists>dic. check_additions_removals cr c f t (ti_reward_claims_incorporated t) sp = Valid dic"
proof -
  from created_transactions [OF created] rems(1) have
    a: "adds' = adds @ ti_reward_claims_incorporated t" and
    r: "validate_block_merkle_roots cr (additions_root f) (removals_root f) (Some adds') (Some (bs_removals sp)) = Ok None"
      "std_hash cr (bip158_encoded cr (map coin_puzzle_hash adds' @ bs_removals sp)) = Ok (filter_hash f)"
    by (metis option.inject sum.inject(2))+
  from additions_within_limits [OF names(1) amounts] obtain dic where "vfold (addition_step cr c) adds' [] = Valid dic" ..
  then show ?thesis using r rems(2) names cost by (simp add: check_additions_removals_def adds a [symmetric])
qed

lemma created_generator_root:
  assumes created: "creator_transactions cr vm c blocks h gen agg adds rems prev tb ts = Ok (f, t, adds')"
    and body: "bb_transactions_generator body = map_option bg_program gen"
      "bb_transactions_generator_ref_list body = (case gen of None \<Rightarrow> [] | Some g \<Rightarrow> block_height_list g)"
    and refs: "\<And>g. gen = Some g \<Longrightarrow> int (length (block_height_list g)) \<le> MAX_GENERATOR_REF_LIST_SIZE c"
      "\<And>g i. gen = Some g \<Longrightarrow> i \<in> set (block_height_list g) \<Longrightarrow> i < h"
  shows "check_generator_root cr c body t h = Valid ()"
proof -
  from created_transactions [OF created] have
    "creator_generator_root cr gen = Ok (generator_root t)"
    "creator_refs_root cr (case gen of None \<Rightarrow> [] | Some g \<Rightarrow> block_height_list g) = Ok (generator_refs_root t)"
    by metis+
  with refs show ?thesis
    by (cases gen) (fastforce simp: check_generator_root_def body creator_generator_root_def creator_refs_root_def
        split: if_splits)+
qed

lemma created_reward_claims:
  assumes created: "creator_transactions cr vm c blocks h gen agg adds rems prev tb ts = Ok (f, t, adds')"
    and ok: "heights_ok blocks" and halves: "take 16 (GENESIS_CHALLENGE c) \<noteq> drop 16 (GENESIS_CHALLENGE c)"
    and prev: "h > 0 \<Longrightarrow> \<exists>p q. prev = Some p \<and> stored (block_record blocks) p \<and> tb = Some q"
  shows "(\<exists>k. expected_reward_coins c blocks f h = Ok (k, ti_reward_claims_incorporated t)) \<and>
     check_reward_claims c f t (ti_reward_claims_incorporated t) = Valid () \<and>
     distinct (ti_reward_claims_incorporated t)"
proof -
  from created_transactions [OF created] have
    claims: "reward_claims c blocks h prev tb = Ok (ti_reward_claims_incorporated t)" and
    f: "ftb_prev_transaction_block_hash f = (case tb of None \<Rightarrow> GENESIS_CHALLENGE c | Some b \<Rightarrow> header_hash b)"
    by metis+
  have "(\<exists>k. expected_reward_coins c blocks f h = Ok (k, ti_reward_claims_incorporated t)) \<and>
      distinct (ti_reward_claims_incorporated t)"
  proof (cases "h > 0")
    case False
    then show ?thesis using claims by (simp add: expected_reward_coins_def reward_claims_def)
  next
    case True
    from prev [OF this] obtain p q where pq: "prev = Some p" "stored (block_record blocks) p" "tb = Some q" by blast
    from reward_claims_expected [OF ok halves pq(2) True claims [unfolded pq(1,3)]] f pq(3) show ?thesis by simp
  qed
  then show ?thesis by (simp add: check_reward_claims_def)
qed

text \<open>The transactions as their creator knows them: without a generator there are none; a generator runs in strict
  mode, within the cost of a block and without an error, and creates and spends the coins passed in.\<close>

definition creator_run ::
    "crypto \<Rightarrow> 's clvm \<Rightarrow> ConsensusConstants \<Rightarrow> BlockGenerator option \<Rightarrow> Coin list \<Rightarrow> bytes list \<Rightarrow> NPCResult option \<Rightarrow>
     bool" where
  "creator_run cr vm c gen adds names npc \<longleftrightarrow>
     (case gen of
        None \<Rightarrow> npc = None \<and> adds = [] \<and> names = []
      | Some g \<Rightarrow> \<exists>r. npc = Some r \<and>
          get_name_puzzle_conditions cr vm g (MAX_BLOCK_COST_CLVM c) (COST_PER_BYTE c) True = Ok r \<and>
          npc_error r = None \<and> additions_for_npc cr (npc_list r) = Ok adds \<and> names = map npc_coin_name (npc_list r))"

text \<open>Checks 7 and 8: an error-free run stays below the cost limit, and its announcements can be read.\<close>

lemma created_spends:
  assumes run: "creator_run cr vm c gen adds names npc" and cost: "creator_cost_fees cr vm c gen adds rems = Ok (k, f)"
    and body: "bb_transactions_generator body = map_option bg_program gen"
    and laws: "digests cr" "0 \<le> COST_PER_BYTE c" "MAX_BLOCK_COST_CLVM c < 2 ^ 64"
  shows "\<exists>sp. body_spends cr c body npc = Valid sp \<and> bs_cost sp = k \<and> bs_additions sp = adds \<and> bs_removals sp = names"
proof (cases gen)
  case None
  then show ?thesis using run cost by (simp add: creator_run_def creator_cost_fees_def body_spends_def body bs_removals_def)
next
  case (Some g)
  with run obtain r where r: "npc = Some r" "additions_for_npc cr (npc_list r) = Ok adds" "names = map npc_coin_name (npc_list r)"
    and g: "get_name_puzzle_conditions cr vm g (MAX_BLOCK_COST_CLVM c) (COST_PER_BYTE c) True = Ok r" "npc_error r = None"
    by (auto simp: creator_run_def)
  have "\<forall>npc\<in>set (npc_list r). npc_ok cr npc" using accepted_npc_ok [OF g] by blast
  note names = announcement_names_ok [OF this laws(1)]
  obtain cn pn where "coin_announcements_names_for_npc cr (npc_list r) = Ok cn"
    "puzzle_announcements_names_for_npc cr (npc_list r) = Ok pn"
    using names [of CREATE_COIN_ANNOUNCEMENT npc_coin_name] names [of CREATE_PUZZLE_ANNOUNCEMENT npc_puzzle_hash]
    by (auto simp: coin_announcements_names_for_npc_def puzzle_announcements_names_for_npc_def)
  moreover from accepted_cost [OF g laws(2,3)] obtain k' where
    "calculate_cost_of_program (bg_program g) r (COST_PER_BYTE c) = Ok k'" "k' \<le> MAX_BLOCK_COST_CLVM c" by blast
  ultimately show ?thesis
    using cost g r by (simp add: Some creator_cost_fees_def body_spends_def body bs_removals_def)
qed

text \<open>What is left of \<^verbatim>\<open>validate_block_body\<close> once the coins a block creates are known: checks 15 to 22.\<close>

definition coin_checks ::
    "crypto \<Rightarrow> 's clvm \<Rightarrow> ConsensusConstants \<Rightarrow> BlockCache \<Rightarrow> (bytes \<Rightarrow> FullBlock option) \<Rightarrow> CoinStore \<Rightarrow>
     BlockRecord option \<Rightarrow> BlockBody \<Rightarrow> int \<Rightarrow> NPCResult option \<Rightarrow> int option \<Rightarrow>
     (FullBlock \<Rightarrow> BlockGenerator option res) \<Rightarrow> FoliageTransactionBlock \<Rightarrow> TransactionsInfo \<Rightarrow> int \<Rightarrow> BodySpends \<Rightarrow>
     (bytes \<times> Coin) list \<Rightarrow> (NPCResult option \<times> CoinStore) vres" where
  "coin_checks cr vm c blocks get_full coin_store peak block h npc_result fork_point_with_peak get_gen
       ftb ti prev_height sp additions_dic =
     rbind (fork_height blocks peak block h fork_point_with_peak) (\<lambda>fork_h.
     rbind (coins_since_fork cr vm c get_full get_gen block h fork_h) (\<lambda>fc.
     vbind (vfold (removal_step cr h (ftb_timestamp ftb) fork_h additions_dic fc) (bs_removals sp) ([], coin_store))
       (\<lambda>(records, coin_store).
     vbind (check_amounts cr c ti h sp records) (\<lambda>_.
     vbind (check_puzzle_hashes cr (bs_npcs sp) records) (\<lambda>_.
     vbind (vfold (condition_check_step cr c prev_height (ftb_timestamp ftb) sp records) (bs_npcs sp) []) (\<lambda>pairs.
     vbind (reject_if (\<not> aggregate_verify cr (map fst pairs) (map snd pairs) (ti_aggregated_signature ti))
              BAD_AGGREGATE_SIGNATURE) (\<lambda>_.
       Valid (npc_result, coin_store))))))))"

lemma body_reduces_to_coins:
  assumes "bb_own_height block = None" "foliage_transaction_block_hash (bb_foliage block) = Some k"
    "bb_foliage_transaction_block block = Some ftb" "bb_transactions_info block = Some ti"
    "TransactionsInfo_hash cr ti = Ok (transactions_info_hash ftb)" "FoliageTransactionBlock_hash cr ftb = Ok k"
    "expected_reward_coins c blocks ftb h = Ok (ph, claims)" "check_reward_claims c ftb ti claims = Valid ()"
    "bb_transactions_generator block \<noteq> None \<Longrightarrow> INITIAL_FREEZE_END_TIMESTAMP c < ftb_timestamp ftb"
    "check_generator_root cr c block ti h = Valid ()" "body_spends cr c block npc = Valid sp"
    "check_additions_removals cr c ftb ti claims sp = Valid dic"
  shows "validate_block_body cr vm c blocks get_full coin_store peak block h npc fork_point get_gen
     = coin_checks cr vm c blocks get_full coin_store peak block h npc fork_point get_gen ftb ti ph sp dic"
  using assms by (cases "bb_transactions_generator block") (simp_all add: validate_block_body_def coin_checks_def reject_if_def)

section \<open>What is finished\<close>

lemma finished_fields:
  assumes created: "create_foliage cr vm random_of c rcb gen agg adds rems prev blocks tsp ts farmer_ph pool_tgt plot_sig
      pool_sig seed = Ok ((ub_foliage ub, ub_foliage_transaction_block ub, ub_transactions_info ub), adds')"
    and finished: "unfinished_block_to_full_block cr ub cc_vdf cc_proof rc_vdf rc_proof icc_vdf icc_proof slots prev
      blocks tsp difficulty = Ok b"
    and prev: "\<And>p. prev = Some p \<Longrightarrow> 0 \<le> height p"
  shows "fb_foliage_transaction_block b = ub_foliage_transaction_block ub"
    "fb_transactions_info b = ub_transactions_info ub"
    "foliage_block_data (fb_foliage b) = foliage_block_data (ub_foliage ub)"
    "foliage_block_data_signature (fb_foliage b) = foliage_block_data_signature (ub_foliage ub)"
    "foliage_transaction_block_hash (fb_foliage b) = foliage_transaction_block_hash (ub_foliage ub)"
    "foliage_transaction_block_signature (fb_foliage b) = foliage_transaction_block_signature (ub_foliage ub)"
    "get_unfinished (fb_reward_chain_block b) = ub_reward_chain_block ub"
    "RewardChainBlock_hash cr (fb_reward_chain_block b) = Ok (reward_block_hash (fb_foliage b))"
    "(foliage_transaction_block_hash (fb_foliage b) \<noteq> None) = rcb_is_transaction_block (fb_reward_chain_block b)"
    "fb_height b = (case prev of None \<Rightarrow> 0 | Some p \<Rightarrow> height p + 1)"
    "fb_weight b = (case prev of None \<Rightarrow> difficulty | Some p \<Rightarrow> weight p + difficulty)"
    "fb_prev_header_hash b = (case prev of None \<Rightarrow> GENESIS_CHALLENGE c | Some p \<Rightarrow> header_hash p)"
proof -
  from finished obtain new h where new: "infuse ub prev blocks tsp difficulty = Ok new"
    and b: "fb_foliage_transaction_block b = inf_foliage_transaction_block new"
      "fb_transactions_info b = inf_transactions_info new" "fb_foliage b = (inf_foliage new)\<lparr>reward_block_hash := h\<rparr>"
      "get_unfinished (fb_reward_chain_block b) = ub_reward_chain_block ub"
      "RewardChainBlock_hash cr (fb_reward_chain_block b) = Ok h"
      "rcb_is_transaction_block (fb_reward_chain_block b) = inf_is_transaction_block new"
      "fb_height b = inf_height new" "fb_weight b = inf_weight new"
    by (auto simp: unfinished_block_to_full_block_def replace_reward_block_hash_def get_unfinished_def Let_def
        fb_height_def fb_weight_def)
  obtain is_tx tb hh where
    c: "case prev of None \<Rightarrow> is_tx \<and> tb = None \<and> hh = 0
      | Some p \<Rightarrow> (\<exists>q. get_prev_transaction_block p blocks tsp = Ok (is_tx, q) \<and> tb = Some q) \<and> hh = height p + 1 \<and> 0 \<le> hh"
    and ph: "prev_block_hash (ub_foliage ub) = (if hh = 0 then GENESIS_CHALLENGE c else header_hash (the prev))"
    and t: "is_tx = (foliage_transaction_block_hash (ub_foliage ub) \<noteq> None)"
      "is_tx = (foliage_transaction_block_signature (ub_foliage ub) \<noteq> None)"
      "is_tx = (ub_foliage_transaction_block ub \<noteq> None)" "is_tx = (ub_transactions_info ub \<noteq> None)"
  proof (rule created_foliage [OF created])
    fix is_tx tb hh fh
    assume c: "case prev of None \<Rightarrow> is_tx \<and> tb = None \<and> hh = 0
      | Some p \<Rightarrow> (\<exists>q. get_prev_transaction_block p blocks tsp = Ok (is_tx, q) \<and> tb = Some q) \<and> hh = height p + 1 \<and> 0 \<le> hh"
      and ph: "prev_block_hash (ub_foliage ub) = (if hh = 0 then GENESIS_CHALLENGE c else header_hash (the prev))"
      and eq: "if is_tx then \<exists>f' t k. ub_foliage_transaction_block ub = Some f' \<and> ub_transactions_info ub = Some t \<and>
        creator_transactions cr vm c blocks hh gen agg adds rems prev tb ts = Ok (f', t, adds') \<and>
        FoliageTransactionBlock_hash cr f' = Ok k \<and> foliage_transaction_block_hash (ub_foliage ub) = Some k \<and>
        foliage_transaction_block_signature (ub_foliage ub) = Some (plot_sig k (plot_public_key (rcbu_proof_of_space rcb)))
     else ub_foliage_transaction_block ub = None \<and> ub_transactions_info ub = None \<and> foliage_transaction_block_hash (ub_foliage ub) = None \<and>
        foliage_transaction_block_signature (ub_foliage ub) = None \<and> adds' = adds"
    show thesis by (rule that [OF c ph]) (use eq in \<open>auto split: if_splits intro: sym\<close>)
  qed
  show "fb_foliage_transaction_block b = ub_foliage_transaction_block ub"
    "fb_transactions_info b = ub_transactions_info ub"
    "foliage_block_data (fb_foliage b) = foliage_block_data (ub_foliage ub)"
    "foliage_block_data_signature (fb_foliage b) = foliage_block_data_signature (ub_foliage ub)"
    "foliage_transaction_block_hash (fb_foliage b) = foliage_transaction_block_hash (ub_foliage ub)"
    "foliage_transaction_block_signature (fb_foliage b) = foliage_transaction_block_signature (ub_foliage ub)"
    "get_unfinished (fb_reward_chain_block b) = ub_reward_chain_block ub"
    "RewardChainBlock_hash cr (fb_reward_chain_block b) = Ok (reward_block_hash (fb_foliage b))"
    "(foliage_transaction_block_hash (fb_foliage b) \<noteq> None) = rcb_is_transaction_block (fb_reward_chain_block b)"
    "fb_height b = (case prev of None \<Rightarrow> 0 | Some p \<Rightarrow> height p + 1)"
    "fb_weight b = (case prev of None \<Rightarrow> difficulty | Some p \<Rightarrow> weight p + difficulty)"
    "fb_prev_header_hash b = (case prev of None \<Rightarrow> GENESIS_CHALLENGE c | Some p \<Rightarrow> header_hash p)"
    using new c t ph prev by (auto simp: b infuse_def fb_prev_header_hash_def Let_def split: option.splits if_splits)
qed

text \<open>The signatures, the transaction flag and the transaction foliage of a header that carries a created foliage.\<close>

lemma created_signatures:
  assumes created: "create_foliage cr vm random_of c rcb gen agg adds rems prev blocks tsp ts farmer_ph pool_tgt plot_sig
      pool_sig seed = Ok ((fol, ftb, ti), adds')"
    and same: "foliage_block_data fol' = foliage_block_data fol"
      "foliage_block_data_signature fol' = foliage_block_data_signature fol"
      "foliage_transaction_block_hash fol' = foliage_transaction_block_hash fol"
      "foliage_transaction_block_signature fol' = foliage_transaction_block_signature fol"
    and signer: "\<And>m. aug_verify cr (plot_public_key (rcbu_proof_of_space rcb)) m
        (plot_sig m (plot_public_key (rcbu_proof_of_space rcb)))"
  shows "check_foliage_signatures cr rcb fol' = Valid ()"
  by (rule created_foliage [OF created])
     (auto simp: check_foliage_signatures_def same signer verify_opt_def split: if_splits)

lemma created_is_transaction_block:
  assumes created: "create_foliage cr vm random_of c rcb gen agg adds rems prev blocks tsp ts farmer_ph pool_tgt plot_sig
      pool_sig seed = Ok ((fol, ftb, ti), adds')"
    and same: "foliage_transaction_block_hash fol' = foliage_transaction_block_hash fol"
      "foliage_transaction_block_signature fol' = foliage_transaction_block_signature fol"
    and tsp: "t - spv_ip_iters v + spv_sp_iters v - (if pos_overflow ps then ssi else 0) = tsp" "0 \<le> tsp" "tsp < 2 ^ 128"
    and prev: "pos_prev_b ps = prev"
  shows "check_is_transaction_block blocks fol' ps ssi v t = Valid ()"
proof (rule created_foliage [OF created])
  fix is_tx tb h fh
  assume p: "case prev of None \<Rightarrow> is_tx \<and> tb = None \<and> h = 0
      | Some p \<Rightarrow> (\<exists>q. get_prev_transaction_block p blocks tsp = Ok (is_tx, q) \<and> tb = Some q) \<and> h = height p + 1 \<and> 0 \<le> h"
    and eq: "if is_tx then \<exists>f' t k. ftb = Some f' \<and> ti = Some t \<and>
        creator_transactions cr vm c blocks h gen agg adds rems prev tb ts = Ok (f', t, adds') \<and>
        FoliageTransactionBlock_hash cr f' = Ok k \<and> foliage_transaction_block_hash fol = Some k \<and>
        foliage_transaction_block_signature fol = Some (plot_sig k (plot_public_key (rcbu_proof_of_space rcb)))
     else ftb = None \<and> ti = None \<and> foliage_transaction_block_hash fol = None \<and>
        foliage_transaction_block_signature fol = None \<and> adds' = adds"
  have is_tx: "is_tx = (foliage_transaction_block_hash fol \<noteq> None)"
    "is_tx = (foliage_transaction_block_signature fol \<noteq> None)"
    using eq by (auto split: if_splits intro: sym)
  show ?thesis
  proof (cases prev)
    case None
    then show ?thesis using p is_tx by (simp add: check_is_transaction_block_def prev same)
  next
    case (Some q)
    then obtain cur where "walk (block_record blocks) (\<lambda>b. \<not> is_transaction_block b) q = Ok cur"
      "is_tx = (tsp > total_iters cur)"
      using p by (auto simp: get_prev_transaction_block_def split: if_splits)
    then show ?thesis using tsp is_tx by (auto simp: check_is_transaction_block_def prev same Some split: if_splits)
  qed
qed

lemma created_foliage_block:
  assumes created: "create_foliage cr vm random_of c rcb gen agg adds rems prev blocks tsp ts farmer_ph pool_tgt plot_sig
      pool_sig seed = Ok ((fol, ftb, ti), adds')"
    and same: "foliage_transaction_block_hash (uhb_foliage hb) = foliage_transaction_block_hash fol"
      "foliage_transaction_block_signature (uhb_foliage hb) = foliage_transaction_block_signature fol"
      "uhb_foliage_transaction_block hb = ftb"
    and names: "rmap (coin_name cr) rems = Ok names"
    and filt: "ftb \<noteq> None \<Longrightarrow> uhb_transactions_filter hb = bip158_encoded cr (map coin_puzzle_hash adds' @ names)"
    and ok: "heights_ok blocks" "\<And>p. prev = Some p \<Longrightarrow> stored (block_record blocks) p" and prev: "pos_prev_b ps = prev"
    and time: "ts \<le> now + MAX_FUTURE_TIME c" "\<And>p tb t. prev = Some p \<Longrightarrow>
        walk (block_record blocks) (\<lambda>b. \<not> is_transaction_block b) p = Ok tb \<Longrightarrow> timestamp tb = Some t \<Longrightarrow> t < ts"
  shows "check_foliage_block cr c blocks hb True now ps = Valid ()"
proof (cases ftb)
  case None
  show ?thesis by (rule created_foliage [OF created]) (auto simp: check_foliage_block_def same None Let_def split: if_splits)
next
  case (Some f)
  obtain tb h t k where
    p: "case prev of None \<Rightarrow> tb = None \<and> h = 0
      | Some p \<Rightarrow> (\<exists>q. get_prev_transaction_block p blocks tsp = Ok (True, q) \<and> tb = Some q) \<and> h = height p + 1" and
    t: "creator_transactions cr vm c blocks h gen agg adds rems prev tb ts = Ok (f, t, adds')" and
    k: "FoliageTransactionBlock_hash cr f = Ok k" "foliage_transaction_block_hash fol = Some k"
      "foliage_transaction_block_signature fol = Some (plot_sig k (plot_public_key (rcbu_proof_of_space rcb)))"
    using created [unfolded Some] by (elim created_transaction_block)
  from created_transactions [OF t] names have
    f: "std_hash cr (bip158_encoded cr (map coin_puzzle_hash adds' @ names)) = Ok (filter_hash f)" "ftb_timestamp f = ts"
      "ftb_prev_transaction_block_hash f = (case tb of None \<Rightarrow> GENESIS_CHALLENGE c | Some b \<Rightarrow> header_hash b)"
    by (metis option.inject sum.inject(2))+
  show ?thesis
  proof (cases prev)
    case None
    then show ?thesis using p f k time filt Some by (simp add: check_foliage_block_def same prev Let_def)
  next
    case (Some q)
    with p obtain cur where w: "walk (block_record blocks) (\<lambda>b. \<not> is_transaction_block b) q = Ok cur" and tb: "tb = Some cur"
      by (auto simp: get_prev_transaction_block_def split: if_splits)
    from bc.walk_stops [OF ok(1) ok(2) [OF Some] w] obtain x where
      "block_record blocks (header_hash cur) = Ok cur" "timestamp cur = Some x"
      by (auto simp: stored_def is_transaction_block_def)
    with time(2) [OF Some w] show ?thesis
      using f k w tb time(1) filt \<open>ftb = Some f\<close> Some by (simp add: check_foliage_block_def same prev Let_def)
  qed
qed

text \<open>Checks 19 and 20, from what the farmer signs.\<close>

definition pool_signed ::
    "crypto \<Rightarrow> ConsensusConstants \<Rightarrow> ProofOfSpace \<Rightarrow> bytes \<Rightarrow> PoolTarget \<Rightarrow> pool_signer \<Rightarrow> position \<Rightarrow> bool" where
  "pool_signed cr c pos farmer_ph pool_tgt pool_sig ps \<longleftrightarrow>
     (max_height pool_tgt = 0 \<or> pos_height ps \<le> max_height pool_tgt) \<and>
     (if genesis_block ps
      then pt_puzzle_hash pool_tgt = GENESIS_PRE_FARM_POOL_PUZZLE_HASH c \<and> farmer_ph = GENESIS_PRE_FARM_FARMER_PUZZLE_HASH c
      else case pool_public_key pos of
          Some pk \<Rightarrow> pool_contract_puzzle_hash pos = None \<and>
            (\<exists>m sig. PoolTarget_bytes cr pool_tgt = Ok m \<and> pool_sig pool_tgt (Some pk) = Some sig \<and> aug_verify cr pk m sig)
        | None \<Rightarrow> pool_contract_puzzle_hash pos = Some (pt_puzzle_hash pool_tgt))"

lemma created_pool_target:
  assumes created: "create_foliage cr vm random_of c rcb gen agg adds rems prev blocks tsp ts farmer_ph pool_tgt plot_sig
      pool_sig seed = Ok ((fol, ftb, ti), adds')"
    and signed: "pool_signed cr c (rcbu_proof_of_space rcb) farmer_ph pool_tgt pool_sig ps"
  shows "check_pool_target cr c rcb (foliage_block_data fol) ps = Valid ()"
proof -
  have "pool_target (foliage_block_data fol) = pool_tgt" "farmer_reward_puzzle_hash (foliage_block_data fol) = farmer_ph"
    "pool_signature (foliage_block_data fol) = pool_sig pool_tgt (pool_public_key (rcbu_proof_of_space rcb))"
    using created by (auto simp: create_foliage_def Let_def)
  with signed show ?thesis
    by (auto simp: check_pool_target_def pool_signed_def verify_opt_def reject_if_def Let_def split: option.splits if_splits)
qed

end
