(* ===== verification/Sample_Creation.thy ===== *)
theory Sample_Creation
  imports Creation_Facts Sample_Slots Sample_Body
begin

text \<open>
  The second block of the sample chain, created at its signage point and finished at its infusion point: it claims
  the two reward coins of the genesis block and spends nothing. Then a block with the generator of \<open>Sample_Spends\<close>,
  which spends a coin and creates another, on the genesis block of \<open>Sample_Body\<close>.
\<close>

definition genesis_pool_coin :: Coin where
  "genesis_pool_coin = \<lparr>parent_coin_info = take 16 G @ be_bytes 16 0,
     coin_puzzle_hash = GENESIS_PRE_FARM_POOL_PUZZLE_HASH DEFAULT_CONSTANTS, coin_amount = 176496425000000000\<rparr>"

definition genesis_farmer_coin :: Coin where
  "genesis_farmer_coin = \<lparr>parent_coin_info = drop 16 G @ be_bytes 16 0,
     coin_puzzle_hash = GENESIS_PRE_FARM_FARMER_PUZZLE_HASH DEFAULT_CONSTANTS, coin_amount = 25213775000000000\<rparr>"

abbreviation sample_created :: "(UnfinishedBlock \<times> Coin list) res" where
  "sample_created \<equiv>
     create_unfinished_block toy toy_vm (\<lambda>_. 0) DEFAULT_CONSTANTS 0 134217728 5 10485760 16777217 plot G (replicate 32 0)
       \<lparr>pt_puzzle_hash = replicate 32 0, max_height = 0\<rparr> (\<lambda>_ _. replicate 96 0) (\<lambda>_ _. Some (replicate 96 0)) next_sp
       1020 genesis_cache [] None (replicate 96 0) (Some []) (Some []) (Some genesis_r) None"

lemma halves_of_G: "take 16 G \<noteq> drop 16 G"
  by (simp add: DEFAULT_CONSTANTS_def)

lemma sample_claims:
  "reward_claims DEFAULT_CONSTANTS genesis_cache 1 (Some genesis_r) (Some genesis_r)
   = Ok [genesis_pool_coin, genesis_farmer_coin]"
proof -
  have "fees genesis_r = Some 0" "pool_puzzle_hash genesis_r = GENESIS_PRE_FARM_POOL_PUZZLE_HASH DEFAULT_CONSTANTS"
    "farmer_puzzle_hash genesis_r = GENESIS_PRE_FARM_FARMER_PUZZLE_HASH DEFAULT_CONSTANTS"
    by (simp_all add: genesis_r_def)
  then show ?thesis
    by (simp add: reward_claims_def walk.simps claim_coins_def farmer_reward_eq pool_reward_eq reward_unit_def
        create_pool_coin_def create_farmer_coin_def pool_parent_id_def farmer_parent_id_def height_bytes_def
        genesis_pool_coin_def genesis_farmer_coin_def)
qed

lemma sample_coin_names:
  "rmap (coin_name toy) [genesis_pool_coin, genesis_farmer_coin] = Ok [replicate 32 1, replicate 32 2]"
  by (simp add: coin_name_def genesis_pool_coin_def genesis_farmer_coin_def toy_hash_def DEFAULT_CONSTANTS_def)

lemma toy_digests: "digests toy"
  by (simp add: digests_def toy_hash_def)

lemma sample_roots:
  "\<exists>ar. length ar = 32 \<and>
     creator_filter_roots toy [genesis_pool_coin, genesis_farmer_coin] [] = Ok ([], ar, replicate 32 0)"
proof -
  have "\<forall>c\<in>set [genesis_pool_coin, genesis_farmer_coin]. length (coin_puzzle_hash c) = 32"
    by (simp add: genesis_pool_coin_def genesis_farmer_coin_def)
  from addition_set [OF toy_digests this] obtain n where
    n: "addition_merkle_set toy [genesis_pool_coin, genesis_farmer_coin] = Ok n" "trie toy 0 n" by blast
  from get_root_trie [OF toy_digests n(2)] obtain ar where "get_root toy n = Ok ar" "length ar = 32" by blast
  moreover have "bip158_encoded toy xs = []" for xs by (simp add: toy_def)
  ultimately show ?thesis
    using n(1) by (simp add: creator_filter_roots_def removal_merkle_set_def get_root_def compress_root_def BLANK_def)
qed

definition sample_ti :: TransactionsInfo where
  "sample_ti =
     \<lparr>generator_root = replicate 32 0, generator_refs_root = replicate 32 1,
      ti_aggregated_signature = replicate 96 0, ti_fees = 0, ti_cost = 0,
      ti_reward_claims_incorporated = [genesis_pool_coin, genesis_farmer_coin]\<rparr>"

lemma sample_ti_hash: "TransactionsInfo_hash toy sample_ti = Ok (replicate 32 2)"
  by (simp add: TransactionsInfo_hash_def sample_ti_def get_hash_def rbind_assoc Coin_val_def genesis_pool_coin_def
      genesis_farmer_coin_def)

lemma sample_transactions:
  "\<exists>ar. length ar = 32 \<and>
     creator_transactions toy toy_vm DEFAULT_CONSTANTS genesis_cache 1 None (replicate 96 0) [] [] (Some genesis_r)
       (Some genesis_r) 1020
     = Ok (\<lparr>ftb_prev_transaction_block_hash = replicate 32 1, ftb_timestamp = 1020, filter_hash = replicate 32 2,
            additions_root = ar, removals_root = replicate 32 0, transactions_info_hash = replicate 32 2\<rparr>, sample_ti,
           [genesis_pool_coin, genesis_farmer_coin])"
proof -
  from sample_roots obtain ar where ar: "length ar = 32"
    "creator_filter_roots toy [genesis_pool_coin, genesis_farmer_coin] [] = Ok ([], ar, replicate 32 0)" by blast
  then show ?thesis
    using sample_ti_hash by (simp add: creator_transactions_def creator_cost_fees_def sample_claims
        creator_generator_root_def creator_refs_root_def sample_ti_def [symmetric])
qed

section \<open>The block\<close>

definition sample_ftb :: "bytes \<Rightarrow> FoliageTransactionBlock" where
  "sample_ftb ar = \<lparr>ftb_prev_transaction_block_hash = replicate 32 1, ftb_timestamp = 1020,
     filter_hash = replicate 32 2, additions_root = ar, removals_root = replicate 32 0,
     transactions_info_hash = replicate 32 2\<rparr>"

definition sample_ub :: "bytes \<Rightarrow> UnfinishedBlock" where
  "sample_ub ar =
     \<lparr>ub_finished_sub_slots = [], ub_reward_chain_block = get_unfinished (hb_reward_chain_block next_b),
      ub_challenge_chain_sp_proof = Some zero_proof, ub_reward_chain_sp_proof = Some zero_proof,
      ub_foliage = hb_foliage next_b, ub_foliage_transaction_block = Some (sample_ftb ar),
      ub_transactions_info = Some sample_ti, ub_transactions_generator = None,
      ub_transactions_generator_ref_list = []\<rparr>"

lemma sample_ftb_hash: "length ar = 32 \<Longrightarrow> FoliageTransactionBlock_hash toy (sample_ftb ar) = Ok (replicate 32 2)"
  by (simp add: sample_ftb_def toy_hash_defs)

lemma extension_zero: "be_bytes n 0 = replicate n 0"
  by (induction n) (simp_all add: replicate_append_same)

lemma sample_foliage:
  "\<exists>ar. length ar = 32 \<and>
     create_foliage toy toy_vm (\<lambda>_. 0) DEFAULT_CONSTANTS (get_unfinished (hb_reward_chain_block next_b)) None
       (replicate 96 0) [] [] (Some genesis_r) genesis_cache 10485760 1020 (replicate 32 0)
       \<lparr>pt_puzzle_hash = replicate 32 0, max_height = 0\<rparr> (\<lambda>_ _. replicate 96 0) (\<lambda>_ _. Some (replicate 96 0)) []
     = Ok ((hb_foliage next_b, Some (sample_ftb ar), Some sample_ti), [genesis_pool_coin, genesis_farmer_coin])"
proof -
  from sample_transactions obtain ar where ar: "length ar = 32" and
    t: "creator_transactions toy toy_vm DEFAULT_CONSTANTS genesis_cache 1 None (replicate 96 0) [] [] (Some genesis_r)
       (Some genesis_r) 1020 = Ok (sample_ftb ar, sample_ti, [genesis_pool_coin, genesis_farmer_coin])"
    unfolding sample_ftb_def by blast
  have d: "foliage_block_data (hb_foliage next_b) = \<lparr>unfinished_reward_block_hash = replicate 32 2,
      pool_target = \<lparr>pt_puzzle_hash = replicate 32 0, max_height = 0\<rparr>, pool_signature = Some (replicate 96 0),
      farmer_reward_puzzle_hash = replicate 32 0, extension_data = replicate 32 0\<rparr>"
    by (simp add: next_b_def)
  show ?thesis
    using ar next_hashes(1,3) sample_ftb_hash [OF ar]
    by (intro exI [of _ ar], simp add: create_foliage_def get_prev_transaction_block_def walk.simps t extension_zero d
        Let_def) (simp add: next_b_def)
qed

lemma sample_unfinished_block: "\<exists>ar. length ar = 32 \<and> sample_created = Ok (sample_ub ar, [genesis_pool_coin, genesis_farmer_coin])"
proof -
  from sample_foliage obtain ar where "length ar = 32" and
    f: "create_foliage toy toy_vm (\<lambda>_. 0) DEFAULT_CONSTANTS (get_unfinished (hb_reward_chain_block next_b)) None
       (replicate 96 0) [] [] (Some genesis_r) genesis_cache 10485760 1020 (replicate 32 0)
       \<lparr>pt_puzzle_hash = replicate 32 0, max_height = 0\<rparr> (\<lambda>_ _. replicate 96 0) (\<lambda>_ _. Some (replicate 96 0)) []
     = Ok ((hb_foliage next_b, Some (sample_ftb ar), Some sample_ti), [genesis_pool_coin, genesis_farmer_coin])" by blast
  moreover have u: "get_unfinished (hb_reward_chain_block next_b) =
      \<lparr>rcbu_total_iters = 16777217, rcbu_signage_point_index = 5, rcbu_pos_ss_cc_challenge_hash = G,
       rcbu_proof_of_space = plot, rcbu_challenge_chain_sp_vdf = Some (vdf_to G 10485760),
       rcbu_challenge_chain_sp_signature = replicate 96 0,
       rcbu_reward_chain_sp_vdf = Some (vdf_to (replicate 32 2) 4194303),
       rcbu_reward_chain_sp_signature = replicate 96 0\<rparr>"
    by (simp add: next_b_def get_unfinished_def)
  ultimately show ?thesis
    using default_hash
    by (intro exI [of _ ar]) (simp add: create_unfinished_block_def creator_sp_def next_sp_def vdf_to_def sample_ub_def)
qed

abbreviation sample_finished :: "UnfinishedBlock \<Rightarrow> FullBlock res" where
  "sample_finished ub \<equiv>
     unfinished_block_to_full_block toy ub (vdf_to G 16777217) zero_proof (vdf_to (replicate 32 2) 10485760) zero_proof
       (Some (vdf_to (replicate 32 2) 10485760)) (Some zero_proof) [] (Some genesis_r) genesis_cache (0 + 10485760) 1"

lemma sample_finished_block: "\<exists>b hb. sample_finished (sample_ub ar) = Ok b \<and> get_block_header toy b [] [] = Ok hb"
proof -
  let ?r = "hb_reward_chain_block next_b"
  have i: "infuse (sample_ub ar) (Some genesis_r) genesis_cache 10485760 1 =
      Ok \<lparr>inf_weight = 2, inf_height = 1, inf_is_transaction_block = True, inf_foliage = hb_foliage next_b,
          inf_foliage_transaction_block = Some (sample_ftb ar), inf_transactions_info = Some sample_ti,
          inf_generator = None, inf_generator_ref_list = []\<rparr>"
    by (simp add: infuse_def sample_ub_def get_prev_transaction_block_def walk.simps Let_def) (simp add: next_b_def)
  have "\<lparr>rcb_weight = 2, rcb_height = 1, rcb_total_iters = rcbu_total_iters (ub_reward_chain_block (sample_ub ar)),
         rcb_signage_point_index = rcbu_signage_point_index (ub_reward_chain_block (sample_ub ar)),
         rcb_pos_ss_cc_challenge_hash = rcbu_pos_ss_cc_challenge_hash (ub_reward_chain_block (sample_ub ar)),
         rcb_proof_of_space = rcbu_proof_of_space (ub_reward_chain_block (sample_ub ar)),
         rcb_challenge_chain_sp_vdf = rcbu_challenge_chain_sp_vdf (ub_reward_chain_block (sample_ub ar)),
         rcb_challenge_chain_sp_signature = rcbu_challenge_chain_sp_signature (ub_reward_chain_block (sample_ub ar)),
         rcb_challenge_chain_ip_vdf = vdf_to G 16777217,
         rcb_reward_chain_sp_vdf = rcbu_reward_chain_sp_vdf (ub_reward_chain_block (sample_ub ar)),
         rcb_reward_chain_sp_signature = rcbu_reward_chain_sp_signature (ub_reward_chain_block (sample_ub ar)),
         rcb_reward_chain_ip_vdf = vdf_to (replicate 32 2) 10485760,
         rcb_infused_challenge_chain_ip_vdf = Some (vdf_to (replicate 32 2) 10485760),
         rcb_is_transaction_block = True\<rparr> = ?r"
    by (simp add: sample_ub_def get_unfinished_def next_b_def)
  then show ?thesis
    using next_hashes(2)
    by (simp add: unfinished_block_to_full_block_def i Let_def get_block_header_def get_included_reward_coins_def
        replace_reward_block_hash_def fb_is_transaction_block_def)
qed

lemma sample_coin_amounts:
  "\<forall>x\<in>set [genesis_pool_coin, genesis_farmer_coin]. 0 \<le> coin_amount x \<and> coin_amount x \<le> MAX_COIN_AMOUNT DEFAULT_CONSTANTS"
  by (simp add: genesis_pool_coin_def genesis_farmer_coin_def DEFAULT_CONSTANTS_def)

definition sample_position :: position where
  "sample_position = \<lparr>pos_prev_b = Some genesis_r, pos_overflow = False, pos_skip = False, slots_since_prev = 0,
     pos_height = 1, can_finish_se = False, can_finish_epoch = False\<rparr>"

definition sample_sp :: sp_values where
  "sample_sp = \<lparr>cc_sp_hash = replicate 32 2, spv_required_iters = 1, spv_sp_iters = 10485760, spv_ip_iters = 16777217\<rparr>"

lemma sample_pool_signed:
  "pool_signed toy DEFAULT_CONSTANTS plot (replicate 32 0) \<lparr>pt_puzzle_hash = replicate 32 0, max_height = 0\<rparr>
     (\<lambda>_ _. Some (replicate 96 0)) sample_position"
  by (simp add: pool_signed_def sample_position_def plot_def PoolTarget_bytes_def PoolTarget_type_def PoolTarget_val_def)

section \<open>A block with a generator\<close>

definition lock_npc :: NPC where
  "lock_npc = \<lparr>npc_coin_name = replicate 32 8, npc_puzzle_hash = replicate 32 8,
     npc_conditions = [(CREATE_COIN, [toy_create]), (ASSERT_HEIGHT_ABSOLUTE, [toy_lock])]\<rparr>"

definition lock_result :: NPCResult where
  "lock_result = \<lparr>npc_error = None, npc_list = [lock_npc], npc_clvm_cost = 100\<rparr>"

lemma body_first_int [simp]: "first_int body_cr toy_vm (Cons (Atom (int_code n)) b) safe = Valid n"
  by (simp add: first_int_def sanitize_int_def sexp_as_int_def)

lemma lock_run:
  "get_name_puzzle_conditions body_cr toy_vm toy_generator 11000000000 12 safe = Ok lock_result"
  by (simp add: get_name_puzzle_conditions_def generator_conditions_def toy_generator_def toy_spends_def
        for_each_def spend_step_def atom_of_def make_coin_def condition_step_def parse_condition_def
        parse_condition_args_def parse_create_coin_def parse_height_def always_def 
        conditions_by_opcode_def add_condition_def toy_create_def toy_lock_def lock_npc_def lock_result_def
        ConditionWithArgs.make_def generator_refs_def)

lemma lock_additions: "additions_for_npc body_cr [lock_npc] = Ok [coin4]"
  by (simp add: lock_npc_def condition_dict_def additions_for_npc_def created_outputs_for_conditions_dict_def
      conditions_of_def created_output_def toy_create_def py_nth_def make_coin_def coin4_def)

lemma lock_cost: "calculate_cost_of_program [1, 2, 3] lock_result 12 = Ok 1936"
  by (simp add: calculate_cost_of_program_def lock_result_def lock_npc_def conditions_cost_def condition_dict_def
      toy_create_def)

lemma spent_claims:
  "reward_claims DEFAULT_CONSTANTS body_blocks 1 (Some genesis_f) (Some genesis_f) = Ok [pool_coin0, farmer_coin0]"
proof -
  have f: "fees genesis_f = Some 0" "pool_puzzle_hash genesis_f = replicate 32 5" "height genesis_f = 0"
    "farmer_puzzle_hash genesis_f = replicate 32 6" "is_transaction_block genesis_f"
    by (simp_all add: genesis_f_def genesis_r_def is_transaction_block_def)
  have z: "be_bytes n 0 = replicate n 0" for n by (induction n) (simp_all add: replicate_append_same)
  show ?thesis
    by (simp add: reward_claims_def walk.simps claim_coins_def farmer_reward_eq pool_reward_eq reward_unit_def f z
        create_pool_coin_def create_farmer_coin_def pool_parent_id_def farmer_parent_id_def height_bytes_def
        pool_coin0_def farmer_coin0_def)
qed

lemma spent_roots:
  "\<exists>ar rr. creator_filter_roots body_cr [coin4, pool_coin0, farmer_coin0] [coin5] = Ok ([], ar, rr) \<and>
     length ar = 32 \<and> length rr = 32"
proof -
  let ?cs = "[coin4, pool_coin0, farmer_coin0]"
  have "\<forall>c\<in>set ?cs. length (coin_puzzle_hash c) = 32" by (simp add: coin_defs)
  from addition_set [OF body_digests this] obtain n where
    n: "addition_merkle_set body_cr ?cs = Ok n" "trie body_cr 0 n" by blast
  have "\<forall>x\<in>set [replicate 32 (8::byte)]. length x = 32" by simp
  from removal_set [OF body_digests this] obtain m where
    m: "removal_merkle_set body_cr [replicate 32 8] = Ok m" "trie body_cr 0 m" by blast
  from get_root_trie [OF body_digests n(2)] obtain nr where nr: "get_root body_cr n = Ok nr" "length nr = 32" by blast
  from get_root_trie [OF body_digests m(2)] obtain mr where mr: "get_root body_cr m = Ok mr" "length mr = 32" by blast
  have "coin_name body_cr coin5 = Ok (replicate 32 8)" by (simp add: coin_defs)
  with n m nr mr show ?thesis by (simp add: creator_filter_roots_def)
qed

definition spent_ti :: TransactionsInfo where
  "spent_ti = \<lparr>generator_root = body_hash [1, 2, 3], generator_refs_root = replicate 32 1,
      ti_aggregated_signature = replicate 96 0, ti_fees = 1, ti_cost = 1936,
      ti_reward_claims_incorporated = [pool_coin0, farmer_coin0]\<rparr>"

lemma spent_transactions:
  "\<exists>f. creator_transactions body_cr toy_vm DEFAULT_CONSTANTS body_blocks 1 (Some toy_generator) (replicate 96 0) [coin4]
       [coin5] (Some genesis_f) (Some genesis_f) 1700000000
     = Ok (f, spent_ti, [coin4, pool_coin0, farmer_coin0]) \<and> (\<exists>k. FoliageTransactionBlock_hash body_cr f = Ok k \<and> length k = 32)"
proof -
  obtain ar rr where r: "creator_filter_roots body_cr [coin4, pool_coin0, farmer_coin0] [coin5] = Ok ([], ar, rr)"
     "length ar = 32" "length rr = 32" using spent_roots by blast
  obtain h1 where h1: "TransactionsInfo_hash body_cr spent_ti = Ok h1" "length h1 = 32"
    by (simp add: TransactionsInfo_hash_def spent_ti_def get_hash_def Coin_val_def coin_defs rbind_assoc)
  have c: "creator_cost_fees body_cr toy_vm DEFAULT_CONSTANTS (Some toy_generator) [coin4] [coin5] = Ok (1936, 1)"
    using lock_cost by (simp add: creator_cost_fees_def lock_run) (simp add: toy_generator_def coin_defs)
  have hh: "header_hash genesis_f = replicate 32 1" by (simp add: genesis_f_def genesis_r_def)
  have g: "bg_program toy_generator = [1, 2, 3]" "block_height_list toy_generator = []"
    by (simp_all add: toy_generator_def block_height_list_def)
  show ?thesis
    using h1 r by (simp add: creator_transactions_def c spent_claims creator_generator_root_def
        creator_refs_root_def g spent_ti_def [symmetric] hh FoliageTransactionBlock_hash_def FoliageTransactionBlock_type_def
        FoliageTransactionBlock_val_def get_hash_def rbind_assoc)
qed

abbreviation spent_created :: "(UnfinishedBlock \<times> Coin list) res" where
  "spent_created \<equiv>
     create_unfinished_block body_cr toy_vm (\<lambda>_. 0) DEFAULT_CONSTANTS 0 134217728 5 10485760 16777217 plot G (replicate 32 0)
       \<lparr>pt_puzzle_hash = replicate 32 0, max_height = 0\<rparr> (\<lambda>_ _. replicate 96 0) (\<lambda>_ _. Some (replicate 96 0)) next_sp
       1700000000 body_blocks [] (Some toy_generator) (replicate 96 0) (Some [coin4]) (Some [coin5]) (Some genesis_f) None"

lemma spent_block:
  "\<exists>ub f. spent_created = Ok (ub, [coin4, pool_coin0, farmer_coin0]) \<and> ub_foliage_transaction_block ub = Some f \<and>
     ub_transactions_generator ub = Some [1, 2, 3]"
proof -
  obtain f k where t: "creator_transactions body_cr toy_vm DEFAULT_CONSTANTS body_blocks 1 (Some toy_generator) (replicate 96 0) [coin4]
       [coin5] (Some genesis_f) (Some genesis_f) 1700000000
     = Ok (f, spent_ti, [coin4, pool_coin0, farmer_coin0])" and k: "FoliageTransactionBlock_hash body_cr f = Ok k" "length k = 32"
    using spent_transactions by blast
  have g: "height genesis_f = 0" "total_iters genesis_f = 6291457" "is_transaction_block genesis_f" "header_hash genesis_f = replicate 32 1"
    by (simp_all add: genesis_f_def genesis_r_def is_transaction_block_def)
  have d: "\<exists>k. ClassgroupElement_hash body_cr get_default_element = Ok k \<and> length k = 32"
    by (simp add: ClassgroupElement_hash_def get_hash_def ClassgroupElement_type_def ClassgroupElement_val_def get_default_element_def)
  have av: "aug_verify body_cr a b s" for a b s by (simp add: body_cr_def toy_cr_def toy_def)
  let ?r = "get_unfinished (hb_reward_chain_block next_b)"
  have u: "?r =
      \<lparr>rcbu_total_iters = 16777217, rcbu_signage_point_index = 5, rcbu_pos_ss_cc_challenge_hash = G,
       rcbu_proof_of_space = plot, rcbu_challenge_chain_sp_vdf = Some (vdf_to G 10485760),
       rcbu_challenge_chain_sp_signature = replicate 96 0,
       rcbu_reward_chain_sp_vdf = Some (vdf_to (replicate 32 2) 4194303),
       rcbu_reward_chain_sp_signature = replicate 96 0\<rparr>"
    by (simp add: next_b_def get_unfinished_def)
  obtain k1 where k1: "RewardChainBlockUnfinished_hash body_cr ?r = Ok k1" "length k1 = 32"
    by (simp add: u toy_hash_defs)
  have k2: "\<exists>k. FoliageBlockData_hash body_cr \<lparr>unfinished_reward_block_hash = k1,
      pool_target = \<lparr>pt_puzzle_hash = replicate 32 0, max_height = 0\<rparr>, pool_signature = Some (replicate 96 0),
      farmer_reward_puzzle_hash = replicate 32 0, extension_data = replicate 32 0\<rparr> = Ok k"
    using k1(2) by (simp add: toy_hash_defs)
  have "\<exists>fol. create_foliage body_cr toy_vm (\<lambda>_. 0) DEFAULT_CONSTANTS ?r (Some toy_generator)
       (replicate 96 0) [coin4] [coin5] (Some genesis_f) body_blocks 10485760 1700000000 (replicate 32 0)
       \<lparr>pt_puzzle_hash = replicate 32 0, max_height = 0\<rparr> (\<lambda>_ _. replicate 96 0) (\<lambda>_ _. Some (replicate 96 0)) []
     = Ok ((fol, Some f, Some spent_ti), [coin4, pool_coin0, farmer_coin0])"
    using k1 k2 by (auto simp: create_foliage_def get_prev_transaction_block_def walk.simps g t k extension_zero Let_def)
  with d show ?thesis
    by (auto simp: create_unfinished_block_def creator_sp_def next_sp_def vdf_to_def av u toy_generator_def Let_def)
qed

lemma body_blocks_ok: "heights_ok body_blocks" "stored (block_record body_blocks) genesis_f"
  by (simp_all add: heights_ok_def stored_def body_blocks_def add_block_record_def empty_cache_def init_BlockCache_def
      genesis_f_def genesis_r_def)

lemma lock_creator_run:
  "creator_run body_cr toy_vm DEFAULT_CONSTANTS (Some toy_generator) [coin4] [replicate 32 8] (Some lock_result)"
  using lock_run [of True] by (simp add: creator_run_def lock_result_def lock_additions) (simp add: lock_npc_def)

end
