(* ===== verification/Timelord_State.thy ===== *)
theory Timelord_State
  imports Full_Node_Store
begin

text \<open>
  \<^verbatim>\<open>chia/timelord/timelord_state.py\<close>, \<^verbatim>\<open>iters_from_block.py\<close>, \<^verbatim>\<open>types.py\<close> and the messages of
  \<^verbatim>\<open>protocols/timelord_protocol.py\<close> that a timelord receives: what it knows of the point on the chain it runs
  its VDFs from, a block (the peak), an end of sub-slot, or the start of the chain. \<^verbatim>\<open>set_state\<close> is given
  one of the two; its branch for other arguments is never reached. The cache of challenges that it appends to is
  the list inside the peak, or the one the last state had before; neither is read again under its old name,
  so it is modelled as a value.
\<close>

section \<open>Chains and messages\<close>

datatype Chain = CHALLENGE_CHAIN | REWARD_CHAIN | INFUSED_CHALLENGE_CHAIN | BLUEBOX
datatype IterationType = SIGNAGE_POINT | INFUSION_POINT | END_OF_SUBSLOT
datatype StateType = PEAK | END_OF_SUB_SLOT | FIRST_SUB_SLOT

record NewPeakTimelord =
  npt_reward_chain_block :: RewardChainBlock
  npt_difficulty :: int
  npt_deficit :: int
  npt_sub_slot_iters :: int
  npt_sub_epoch_summary :: "SubEpochSummary option"
  npt_previous_reward_challenges :: "(bytes \<times> int) list"
  npt_last_challenge_sb_or_eos_total_iters :: int
  npt_passes_ses_height :: bool

record NewUnfinishedBlockTimelord =
  nub_reward_chain_block :: RewardChainBlockUnfinished
  nub_difficulty :: int
  nub_sub_slot_iters :: int
  nub_foliage :: Foliage
  nub_sub_epoch_summary :: "SubEpochSummary option"
  nub_rc_prev :: bytes

section \<open>Where a block's signage and infusion points lie\<close>

definition iters_from_block ::
    "crypto \<Rightarrow> ConsensusConstants \<Rightarrow> RewardChainBlockUnfinished \<Rightarrow> int \<Rightarrow> int \<Rightarrow> (int \<times> int) res" where
  "iters_from_block cr c rcb ssi difficulty =
     rbind (case rcbu_challenge_chain_sp_vdf rcb of
              None \<Rightarrow> rbind (py_assert (rcbu_signage_point_index rcb = 0)) (\<lambda>_. Ok (rcbu_pos_ss_cc_challenge_hash rcb))
            | Some v \<Rightarrow> ClassgroupElement_hash cr (vdf_output v)) (\<lambda>cc_sp.
     rbind (verify_and_get_quality_string cr (MIN_PLOT_SIZE c) (MAX_PLOT_SIZE c) (NUMBER_ZERO_BITS_PLOT_FILTER c)
              (rcbu_proof_of_space rcb) (rcbu_pos_ss_cc_challenge_hash rcb) cc_sp) (\<lambda>q.
     rbind (unwrap AssertionError q) (\<lambda>quality_string.
     rbind (calculate_iterations_quality cr (DIFFICULTY_CONSTANT_FACTOR c) quality_string
              (pos_size (rcbu_proof_of_space rcb)) difficulty cc_sp) (\<lambda>req_iters.
     rbind (calculate_sp_iters c ssi (rcbu_signage_point_index rcb)) (\<lambda>sp_it.
     rbind (calculate_ip_iters c ssi (rcbu_signage_point_index rcb) req_iters) (\<lambda>ip_it. Ok (sp_it, ip_it)))))))"

section \<open>The last state\<close>

record LastState =
  ls_state_type :: StateType
  ls_peak :: "NewPeakTimelord option"
  ls_subslot_end :: "EndOfSubSlotBundle option"
  ls_last_ip :: int
  ls_deficit :: int
  ls_sub_epoch_summary :: "SubEpochSummary option"
  ls_constants :: ConsensusConstants
  ls_last_weight :: int
  ls_last_height :: int
  ls_total_iters :: int
  ls_last_challenge_sb_or_eos_total_iters :: int
  ls_last_block_total_iters :: "int option"
  ls_last_peak_challenge :: bytes
  ls_difficulty :: int
  ls_sub_slot_iters :: int
  ls_reward_challenge_cache :: "(bytes \<times> int) list"
  ls_new_epoch :: bool
  ls_passed_ses_height :: bool
  ls_infused_ses :: bool

definition init_LastState :: "ConsensusConstants \<Rightarrow> LastState" where
  "init_LastState c =
     \<lparr>ls_state_type = FIRST_SUB_SLOT, ls_peak = None, ls_subslot_end = None, ls_last_ip = 0,
      ls_deficit = MIN_BLOCKS_PER_CHALLENGE_BLOCK c, ls_sub_epoch_summary = None, ls_constants = c,
      ls_last_weight = 0, ls_last_height = 0, ls_total_iters = 0, ls_last_challenge_sb_or_eos_total_iters = 0,
      ls_last_block_total_iters = None, ls_last_peak_challenge = GENESIS_CHALLENGE c,
      ls_difficulty = DIFFICULTY_STARTING c, ls_sub_slot_iters = SUB_SLOT_ITERS_STARTING c,
      ls_reward_challenge_cache = [(GENESIS_CHALLENGE c, 0)], ls_new_epoch = False, ls_passed_ses_height = False,
      ls_infused_ses = False\<rparr>"

text \<open>The challenge each chain continues from, and the form its VDF starts with.\<close>

definition get_challenge :: "crypto \<Rightarrow> LastState \<Rightarrow> Chain \<Rightarrow> bytes option res" where
  "get_challenge cr self chain =
     (case ls_state_type self of
        FIRST_SUB_SLOT \<Rightarrow>
          rbind (py_assert (ls_peak self = None \<and> ls_subslot_end self = None)) (\<lambda>_.
            Ok (if chain = CHALLENGE_CHAIN \<or> chain = REWARD_CHAIN then Some (GENESIS_CHALLENGE (ls_constants self))
                else None))
      | PEAK \<Rightarrow>
          rbind (unwrap AssertionError (ls_peak self)) (\<lambda>peak.
          let rcb = npt_reward_chain_block peak in
          (case chain of
             CHALLENGE_CHAIN \<Rightarrow> Ok (Some (vdf_challenge (rcb_challenge_chain_ip_vdf rcb)))
           | REWARD_CHAIN \<Rightarrow> rbind (RewardChainBlock_hash cr rcb) (\<lambda>h. Ok (Some h))
           | INFUSED_CHALLENGE_CHAIN \<Rightarrow>
               (case rcb_infused_challenge_chain_ip_vdf rcb of
                  Some v \<Rightarrow> Ok (Some (vdf_challenge v))
                | None \<Rightarrow>
                    if npt_deficit peak = MIN_BLOCKS_PER_CHALLENGE_BLOCK (ls_constants self) - 1 then
                      rbind (ChallengeBlockInfo_hash cr
                        \<lparr>cbi_proof_of_space = rcb_proof_of_space rcb,
                         cbi_challenge_chain_sp_vdf = rcb_challenge_chain_sp_vdf rcb,
                         cbi_challenge_chain_sp_signature = rcb_challenge_chain_sp_signature rcb,
                         cbi_challenge_chain_ip_vdf = rcb_challenge_chain_ip_vdf rcb\<rparr>) (\<lambda>h. Ok (Some h))
                    else Ok None)
           | BLUEBOX \<Rightarrow> Ok None))
      | END_OF_SUB_SLOT \<Rightarrow>
          rbind (unwrap AssertionError (ls_subslot_end self)) (\<lambda>eos.
          (case chain of
             CHALLENGE_CHAIN \<Rightarrow> rbind (ChallengeChainSubSlot_hash cr (challenge_chain eos)) (\<lambda>h. Ok (Some h))
           | REWARD_CHAIN \<Rightarrow> rbind (RewardChainSubSlot_hash cr (reward_chain eos)) (\<lambda>h. Ok (Some h))
           | INFUSED_CHALLENGE_CHAIN \<Rightarrow>
               if rc_deficit (reward_chain eos) < MIN_BLOCKS_PER_CHALLENGE_BLOCK (ls_constants self) then
                 rbind (unwrap AssertionError (infused_challenge_chain eos)) (\<lambda>icc.
                 rbind (InfusedChallengeChainSubSlot_hash cr icc) (\<lambda>h. Ok (Some h)))
               else Ok None
           | BLUEBOX \<Rightarrow> Ok None)))"

definition get_initial_form :: "LastState \<Rightarrow> Chain \<Rightarrow> ClassgroupElement option res" where
  "get_initial_form self chain =
     (case ls_state_type self of
        FIRST_SUB_SLOT \<Rightarrow> Ok (Some get_default_element)
      | PEAK \<Rightarrow>
          rbind (unwrap AssertionError (ls_peak self)) (\<lambda>peak.
          let rcb = npt_reward_chain_block peak in
          (case chain of
             CHALLENGE_CHAIN \<Rightarrow> Ok (Some (vdf_output (rcb_challenge_chain_ip_vdf rcb)))
           | REWARD_CHAIN \<Rightarrow> Ok (Some get_default_element)
           | INFUSED_CHALLENGE_CHAIN \<Rightarrow>
               Ok (case rcb_infused_challenge_chain_ip_vdf rcb of
                     Some v \<Rightarrow> Some (vdf_output v)
                   | None \<Rightarrow>
                       if npt_deficit peak = MIN_BLOCKS_PER_CHALLENGE_BLOCK (ls_constants self) - 1
                       then Some get_default_element else None)
           | BLUEBOX \<Rightarrow> Ok None))
      | END_OF_SUB_SLOT \<Rightarrow>
          (case chain of
             INFUSED_CHALLENGE_CHAIN \<Rightarrow>
               rbind (unwrap AssertionError (ls_subslot_end self)) (\<lambda>eos.
                 Ok (if rc_deficit (reward_chain eos) < MIN_BLOCKS_PER_CHALLENGE_BLOCK (ls_constants self)
                     then Some get_default_element else None))
           | BLUEBOX \<Rightarrow> Ok None
           | _ \<Rightarrow> Ok (Some get_default_element)))"

text \<open>\<^verbatim>\<open>while len(cache) > limit: cache.pop(0)\<close>.\<close>

fun pop_oldest :: "int \<Rightarrow> 'a list \<Rightarrow> 'a list res" where
  "pop_oldest limit [] = (if 0 > limit then Raise IndexError else Ok [])"
| "pop_oldest limit (x # xs) = (if int (length (x # xs)) > limit then pop_oldest limit xs else Ok (x # xs))"

text \<open>The end of \<^verbatim>\<open>set_state\<close>: the reward chain challenges seen, newest last. The reward chain always has a
  challenge, so the \<open>TypeError\<close> never occurs.\<close>

definition note_challenge :: "crypto \<Rightarrow> LastState \<Rightarrow> LastState res" where
  "note_challenge cr self =
     rbind (get_challenge cr self REWARD_CHAIN) (\<lambda>ch.
     rbind (unwrap TypeError ch) (\<lambda>ch.
     rbind (pop_oldest (2 * MAX_SUB_SLOT_BLOCKS (ls_constants self))
              (ls_reward_challenge_cache self @ [(ch, ls_total_iters self)])) (\<lambda>cache.
       Ok (self\<lparr>ls_reward_challenge_cache := cache\<rparr>))))"

definition set_peak_state :: "crypto \<Rightarrow> LastState \<Rightarrow> NewPeakTimelord \<Rightarrow> LastState res" where
  "set_peak_state cr self state =
     (let c = ls_constants self; rcb = npt_reward_chain_block state in
      rbind (iters_from_block cr c (get_unfinished rcb) (npt_sub_slot_iters state) (npt_difficulty state))
        (\<lambda>(_, last_ip).
      rbind (RewardChainBlock_hash cr rcb) (\<lambda>rcb_hash.
      rbind (py_mod (rcb_height rcb + 1) (SUB_EPOCH_BLOCKS c)) (\<lambda>r.
      note_challenge cr
        (self\<lparr>ls_state_type := PEAK, ls_peak := Some state, ls_subslot_end := None, ls_last_ip := last_ip,
              ls_deficit := npt_deficit state, ls_sub_epoch_summary := npt_sub_epoch_summary state,
              ls_last_weight := rcb_weight rcb, ls_last_height := rcb_height rcb,
              ls_total_iters := rcb_total_iters rcb, ls_last_peak_challenge := rcb_hash,
              ls_difficulty := npt_difficulty state, ls_sub_slot_iters := npt_sub_slot_iters state,
              ls_last_block_total_iters :=
                (if rcb_is_transaction_block rcb then Some (rcb_total_iters rcb) else ls_last_block_total_iters self),
              ls_reward_challenge_cache := npt_previous_reward_challenges state,
              ls_last_challenge_sb_or_eos_total_iters := npt_last_challenge_sb_or_eos_total_iters state,
              ls_new_epoch := False,
              ls_passed_ses_height := (if r = 0 then True else npt_passes_ses_height state)\<rparr>)))))"

definition set_eos_state :: "crypto \<Rightarrow> LastState \<Rightarrow> EndOfSubSlotBundle \<Rightarrow> LastState res" where
  "set_eos_state cr self state =
     rbind (if ls_peak self \<noteq> None then uint128 (ls_total_iters self - ls_last_ip self + ls_sub_slot_iters self)
            else uint128 (ls_total_iters self + ls_sub_slot_iters self)) (\<lambda>total.
     let cc = challenge_chain state;
         self = self\<lparr>ls_state_type := END_OF_SUB_SLOT, ls_total_iters := total, ls_peak := None,
                     ls_subslot_end := Some state, ls_last_ip := 0, ls_deficit := rc_deficit (reward_chain state)\<rparr> in
     rbind (case cc_new_difficulty cc of
              Some d \<Rightarrow>
                rbind (unwrap AssertionError (cc_new_sub_slot_iters cc)) (\<lambda>ssi.
                  Ok (self\<lparr>ls_difficulty := d, ls_sub_slot_iters := ssi, ls_new_epoch := True\<rparr>))
            | None \<Rightarrow> Ok (self\<lparr>ls_new_epoch := False\<rparr>)) (\<lambda>self.
     note_challenge cr
       (self\<lparr>ls_infused_ses := (subepoch_summary_hash cc \<noteq> None),
             ls_passed_ses_height :=
               (if subepoch_summary_hash cc \<noteq> None then False else ls_passed_ses_height self),
             ls_last_challenge_sb_or_eos_total_iters := total\<rparr>)))"

definition can_infuse_block :: "LastState \<Rightarrow> bool \<Rightarrow> bool" where
  "can_infuse_block self ovf =
     (if ovf \<and> ls_new_epoch self then False
      else if ls_state_type self = FIRST_SUB_SLOT \<or> ls_state_type self = END_OF_SUB_SLOT then True
      else
        let ss_start_iters = ls_total_iters self - ls_last_ip self;
            already_infused_count = length (filter (\<lambda>(_, total). total > ss_start_iters) (ls_reward_challenge_cache self))
        in \<not> int already_infused_count \<ge> MAX_SUB_SLOT_BLOCKS (ls_constants self))"

definition just_infused_sub_epoch_summary :: "LastState \<Rightarrow> bool" where
  "just_infused_sub_epoch_summary self \<longleftrightarrow> ls_state_type self = END_OF_SUB_SLOT \<and> ls_infused_ses self"

definition get_next_sub_epoch_summary :: "LastState \<Rightarrow> SubEpochSummary option res" where
  "get_next_sub_epoch_summary self =
     (if ls_state_type self = FIRST_SUB_SLOT \<or> ls_state_type self = END_OF_SUB_SLOT then Ok None
      else
        rbind (unwrap AssertionError (ls_peak self)) (\<lambda>_.
          Ok (if ls_passed_ses_height self \<and> ls_deficit self = 0 then ls_sub_epoch_summary self else None)))"

end
