(* ===== verification/Timelord.thy ===== *)
theory Timelord
  imports Timelord_State
begin

text \<open>
  \<^verbatim>\<open>chia/timelord/timelord.py\<close> and \<^verbatim>\<open>timelord_api.py\<close>: which iterations a timelord asks its VDF clients for, and the
  signage points, infusion points and ends of sub-slots it makes of their proofs. The messages for full nodes
  are part of the results. The clients, their sockets and the bookkeeping of connections are left out: a proof
  arrives through \<open>proof_finished\<close>, and \<open>allows\<close> are the chains whose client takes iterations. The times
  kept for restarts are left out too; \<open>inactive\<close> says that the last activity was too long ago. The
  dictionary of proof types is an association list in insertion order. Log calls are left out. An exception
  ends the run, where the main loop would log it and go on.
\<close>

section \<open>The state\<close>

record Timelord =
  tl_constants :: ConsensusConstants
  tl_sanitizer_mode :: bool
  tl_last_state :: LastState
  tl_new_peak :: "NewPeakTimelord option"
  tl_new_subslot_end :: "EndOfSubSlotBundle option"
  tl_unfinished_blocks :: "NewUnfinishedBlockTimelord list"
  tl_overflow_blocks :: "NewUnfinishedBlockTimelord list"
  tl_signage_point_iters :: "(int \<times> int) list"
  tl_iters_to_submit :: "Chain \<Rightarrow> int list"
  tl_iters_submitted :: "Chain \<Rightarrow> int list"
  tl_iters_finished :: "int set"
  tl_iteration_to_proof_type :: "(int \<times> IterationType) list"
  tl_proofs_finished :: "(Chain \<times> VDFInfo \<times> VDFProof \<times> int) list"
  tl_num_resets :: int
  tl_vdf_failures :: "(Chain \<times> int option) list"
  tl_total_unfinished :: int
  tl_total_infused :: int

definition new_timelord :: "ConsensusConstants \<Rightarrow> bool \<Rightarrow> Timelord" where
  "new_timelord c sanitizer =
     \<lparr>tl_constants = c, tl_sanitizer_mode = sanitizer, tl_last_state = init_LastState c, tl_new_peak = None,
      tl_new_subslot_end = None, tl_unfinished_blocks = [], tl_overflow_blocks = [], tl_signage_point_iters = [],
      tl_iters_to_submit = (\<lambda>_. []), tl_iters_submitted = (\<lambda>_. []), tl_iters_finished = {},
      tl_iteration_to_proof_type = [], tl_proofs_finished = [], tl_num_resets = 0, tl_vdf_failures = [],
      tl_total_unfinished = 0, tl_total_infused = 0\<rparr>"

definition submit_to :: "Chain list \<Rightarrow> int \<Rightarrow> Timelord \<Rightarrow> Timelord" where
  "submit_to chs i self =
     self\<lparr>tl_iters_to_submit := (\<lambda>ch. tl_iters_to_submit self ch @ (if ch \<in> set chs then [i] else []))\<rparr>"

definition set_proof_type :: "int \<Rightarrow> IterationType \<Rightarrow> Timelord \<Rightarrow> Timelord" where
  "set_proof_type i t self =
     self\<lparr>tl_iteration_to_proof_type := AList.update i t (tl_iteration_to_proof_type self)\<rparr>"

section \<open>When a block can be infused\<close>

fun cache_index :: "bytes \<Rightarrow> (bytes \<times> int) list \<Rightarrow> nat option" where
  "cache_index rc_prev [] = None"
| "cache_index rc_prev ((rc, _) # cache) =
     (if rc = rc_prev then Some 0 else map_option Suc (cache_index rc_prev cache))"

definition can_infuse_unfinished_block ::
    "crypto \<Rightarrow> Timelord \<Rightarrow> NewUnfinishedBlockTimelord \<Rightarrow> int option res" where
  "can_infuse_unfinished_block cr self block =
     (let c = tl_constants self; ls = tl_last_state self; rcb = nub_reward_chain_block block;
          cache = ls_reward_challenge_cache ls; ip = ls_last_ip ls in
      case iters_from_block cr c rcb (ls_sub_slot_iters ls) (ls_difficulty ls) of
        None \<Rightarrow> Diverge
      | Some (Inl _) \<Rightarrow> Ok None
      | Some (Inr (block_sp_iters, block_ip_iters)) \<Rightarrow>
          rbind (is_overflow_block c (rcbu_signage_point_index rcb)) (\<lambda>ovf.
          let block_sp_total = ls_total_iters ls - ip + block_sp_iters - (if ovf then ls_sub_slot_iters ls else 0) in
          case cache_index (nub_rc_prev block) cache of
            None \<Rightarrow> Ok None
          | Some found \<Rightarrow>
              if ip > block_ip_iters then Ok None
              else
                rbind (uint64 (block_ip_iters - ip)) (\<lambda>new_block_iters.
                  if length cache > found + 1 \<and>
                     (snd (cache ! (found + 1)) < block_sp_total \<or> snd (cache ! found) > block_sp_total)
                  then Ok None
                  else Ok (if new_block_iters > 0 then Some new_block_iters else None))))"

section \<open>Resetting the chains\<close>

definition signage_schedule :: "ConsensusConstants \<Rightarrow> int \<Rightarrow> int \<Rightarrow> (int \<times> int) list" where
  "signage_schedule c per_signage ip =
     filter (\<lambda>(i, _). i > 0) (map (\<lambda>k. (k * per_signage - ip, k)) [1..NUM_SPS_SUB_SLOT c - 1])"

text \<open>One unfinished block: taken into the schedule if it can be infused at an iteration not scheduled yet.\<close>

definition schedule_block ::
    "crypto \<Rightarrow> NewUnfinishedBlockTimelord \<Rightarrow> Timelord \<times> NewUnfinishedBlockTimelord list \<Rightarrow>
     (Timelord \<times> NewUnfinishedBlockTimelord list) res" where
  "schedule_block cr block = (\<lambda>(self, kept).
     rbind (can_infuse_unfinished_block cr self block) (\<lambda>iters.
       case iters of
         None \<Rightarrow> Ok (self, kept)
       | Some i \<Rightarrow>
           if i \<in> set (tl_iters_to_submit self CHALLENGE_CHAIN) then Ok (self, kept)
           else
             let self = (if block \<notin> set (tl_unfinished_blocks self)
                         then self\<lparr>tl_total_unfinished := tl_total_unfinished self + 1\<rparr> else self);
                 self = submit_to [REWARD_CHAIN, CHALLENGE_CHAIN] i self;
                 self = (if ls_deficit (tl_last_state self) < MIN_BLOCKS_PER_CHALLENGE_BLOCK (tl_constants self)
                         then submit_to [INFUSED_CHALLENGE_CHAIN] i self else self)
             in Ok (set_proof_type i INFUSION_POINT self, kept @ [block])))"

definition schedule_signage :: "(int \<times> int) list \<Rightarrow> Timelord \<Rightarrow> Timelord" where
  "schedule_signage sps self =
     foldl (\<lambda>self (signage, k).
        set_proof_type signage SIGNAGE_POINT (submit_to [CHALLENGE_CHAIN, REWARD_CHAIN] signage self)) self (take 3 sps)"

definition reset_chains :: "crypto \<Rightarrow> bool \<Rightarrow> Timelord \<Rightarrow> Timelord res" where
  "reset_chains cr only_eos self =
     (let c = tl_constants self; ls = tl_last_state self; ip = ls_last_ip ls; ssi = ls_sub_slot_iters ls in
      rbind (py_floordiv ssi (NUM_SPS_SUB_SLOT c)) (\<lambda>q.
      rbind (uint64 q) (\<lambda>per_signage.
      let sps = signage_schedule c per_signage ip in
      rbind (rfold (\<lambda>(_, k) _. py_assert (k * per_signage > 0 \<and> k * per_signage < ssi)) sps ()) (\<lambda>_.
      let self = self\<lparr>tl_signage_point_iters := sps, tl_iters_finished := {}, tl_proofs_finished := [],
                      tl_num_resets := tl_num_resets self + 1,
                      tl_iters_to_submit := (tl_iters_to_submit self)
                        (CHALLENGE_CHAIN := [], REWARD_CHAIN := [], INFUSED_CHALLENGE_CHAIN := []),
                      tl_iters_submitted := (tl_iters_submitted self)
                        (CHALLENGE_CHAIN := [], REWARD_CHAIN := [], INFUSED_CHALLENGE_CHAIN := []),
                      tl_iteration_to_proof_type := []\<rparr> in
      rbind (if only_eos then Ok (self, [])
             else rfold (schedule_block cr) (tl_unfinished_blocks self @ tl_overflow_blocks self) (self, []))
        (\<lambda>(self, kept).
      let self = self\<lparr>tl_unfinished_blocks := kept\<rparr>;
          self = (if only_eos then self else schedule_signage sps self);
          left = ssi - ip in
      rbind (py_assert (left > 0)) (\<lambda>_.
      let self = (if ls_deficit ls < MIN_BLOCKS_PER_CHALLENGE_BLOCK c
                  then submit_to [INFUSED_CHALLENGE_CHAIN] left self else self);
          self = set_proof_type left END_OF_SUBSLOT (submit_to [CHALLENGE_CHAIN, REWARD_CHAIN] left self) in
      rbind (py_assert (\<forall>ch\<in>{CHALLENGE_CHAIN, REWARD_CHAIN, INFUSED_CHALLENGE_CHAIN}.
                          \<forall>i\<in>set (tl_iters_to_submit self ch). i > 0)) (\<lambda>_. Ok self)))))))"

section \<open>New states\<close>

text \<open>Dropping the unfinished blocks that the new peak has infused.\<close>

definition drop_infused ::
    "crypto \<Rightarrow> NewPeakTimelord \<Rightarrow> NewUnfinishedBlockTimelord \<Rightarrow> Timelord \<times> NewUnfinishedBlockTimelord list \<Rightarrow>
     (Timelord \<times> NewUnfinishedBlockTimelord list) res" where
  "drop_infused cr peak block = (\<lambda>(self, infused).
     rbind (RewardChainBlockUnfinished_hash cr (nub_reward_chain_block block)) (\<lambda>h.
     rbind (RewardChainBlockUnfinished_hash cr (get_unfinished (npt_reward_chain_block peak))) (\<lambda>peak_h.
       if h = peak_h then
         Ok (if block \<notin> set (tl_unfinished_blocks self)
             then self\<lparr>tl_total_unfinished := tl_total_unfinished self + 1\<rparr> else self, infused @ [block])
       else Ok (self, infused))))"

definition handle_new_peak :: "crypto \<Rightarrow> Timelord \<Rightarrow> Timelord res" where
  "handle_new_peak cr self =
     rbind (unwrap AssertionError (tl_new_peak self)) (\<lambda>peak.
     rbind (set_peak_state cr (tl_last_state self) peak) (\<lambda>ls.
     let self = self\<lparr>tl_last_state := ls\<rparr> in
     rbind (if tl_total_unfinished self > 0 then
              rbind (rfold (drop_infused cr peak) (tl_unfinished_blocks self @ tl_overflow_blocks self) (self, []))
                (\<lambda>(self, infused).
                  Ok (self\<lparr>tl_total_infused := tl_total_infused self + (if infused \<noteq> [] then 1 else 0),
                           tl_unfinished_blocks := foldl (\<lambda>bs b. remove1 b bs) (tl_unfinished_blocks self) infused,
                           tl_overflow_blocks := foldl (\<lambda>bs b. remove1 b bs) (tl_overflow_blocks self) infused\<rparr>))
            else Ok self) (\<lambda>self.
       reset_chains cr False (self\<lparr>tl_new_peak := None\<rparr>))))"

definition handle_subslot_end :: "crypto \<Rightarrow> Timelord \<Rightarrow> Timelord res" where
  "handle_subslot_end cr self =
     rbind (unwrap TypeError (tl_new_subslot_end self)) (\<lambda>eos.
     rbind (set_eos_state cr (tl_last_state self) eos) (\<lambda>ls.
     let self = self\<lparr>tl_last_state := ls\<rparr> in
     rbind (rfold (\<lambda>block self.
              rbind (can_infuse_unfinished_block cr self block) (\<lambda>i.
                Ok (if i \<noteq> None then self\<lparr>tl_total_unfinished := tl_total_unfinished self + 1\<rparr> else self)))
              (tl_unfinished_blocks self) self) (\<lambda>self.
       reset_chains cr False (self\<lparr>tl_new_subslot_end := None\<rparr>))))"

section \<open>Iterations and proofs\<close>

text \<open>What a client takes, each iteration once.\<close>

definition submit_chain :: "Chain \<Rightarrow> Timelord \<Rightarrow> Timelord res" where
  "submit_chain ch self =
     rfold (\<lambda>i self.
         if i \<in> set (tl_iters_submitted self ch) then Ok self
         else rbind (py_assert (i > 0)) (\<lambda>_.
           Ok (self\<lparr>tl_iters_submitted := (tl_iters_submitted self)(ch := tl_iters_submitted self ch @ [i])\<rparr>)))
       (tl_iters_to_submit self ch) self"

definition submit_iterations :: "Chain set \<Rightarrow> Timelord \<Rightarrow> Timelord res" where
  "submit_iterations allows self =
     rfold (\<lambda>ch self. if ch \<in> allows then submit_chain ch self else Ok self)
       [CHALLENGE_CHAIN, REWARD_CHAIN, INFUSED_CHALLENGE_CHAIN] self"

definition proof_finished :: "Chain \<Rightarrow> VDFInfo \<Rightarrow> VDFProof \<Rightarrow> int \<Rightarrow> Timelord \<Rightarrow> Timelord" where
  "proof_finished ch info proof label self =
     self\<lparr>tl_proofs_finished := tl_proofs_finished self @ [(ch, info, proof, label)]\<rparr>"

definition clear_proof_list :: "int \<Rightarrow> Timelord \<Rightarrow> Timelord" where
  "clear_proof_list iters self =
     self\<lparr>tl_proofs_finished := filter (\<lambda>(_, info, _, _). number_of_iterations info \<noteq> iters) (tl_proofs_finished self)\<rparr>"

definition proofs_with_iter :: "int \<Rightarrow> Timelord \<Rightarrow> (Chain \<times> VDFInfo \<times> VDFProof) list" where
  "proofs_with_iter i self =
     map (\<lambda>(ch, info, proof, _). (ch, info, proof))
       (filter (\<lambda>(_, info, _, label). number_of_iterations info = i \<and> label = tl_num_resets self)
          (tl_proofs_finished self))"

text \<open>The last of the proofs for a chain.\<close>

definition proof_for :: "Chain \<Rightarrow> (Chain \<times> VDFInfo \<times> VDFProof) list \<Rightarrow> (VDFInfo \<times> VDFProof) option" where
  "proof_for ch done_proofs = map_of (rev done_proofs) ch"

definition iters_of_type :: "IterationType \<Rightarrow> Timelord \<Rightarrow> int list" where
  "iters_of_type t self = map fst (filter (\<lambda>(_, u). u = t) (tl_iteration_to_proof_type self))"

section \<open>Messages\<close>

record NewSignagePointVDF =
  nsp_index_from_challenge :: int
  nsp_challenge_chain_sp_vdf :: VDFInfo
  nsp_challenge_chain_sp_proof :: VDFProof
  nsp_reward_chain_sp_vdf :: VDFInfo
  nsp_reward_chain_sp_proof :: VDFProof

datatype TimelordMessage =
    new_signage_point_vdf NewSignagePointVDF
  | new_infusion_point_vdf NewInfusionPointVDF
  | new_end_of_sub_slot_vdf EndOfSubSlotBundle

section \<open>Signage points\<close>

text \<open>The next three signage points are sent to the chains; one already there is not sent again.\<close>

definition send_next_sps :: "Timelord \<Rightarrow> Timelord" where
  "send_next_sps self =
     foldl (\<lambda>self (next_sp, k).
        set_proof_type next_sp SIGNAGE_POINT
          (foldl (\<lambda>self ch.
             if next_sp \<notin> set (tl_iters_submitted self ch) \<and> next_sp \<notin> set (tl_iters_to_submit self ch)
             then submit_to [ch] next_sp self else self) self [CHALLENGE_CHAIN, REWARD_CHAIN]))
       self (take 3 (tl_signage_point_iters self))"

text \<open>The loop over the signage points: \<^verbatim>\<open>continue\<close> goes on with the rest, the point that is broadcast ends it and is
  the one to remove.\<close>

fun sp_loop ::
    "crypto \<Rightarrow> int list \<Rightarrow> int \<Rightarrow> (int \<times> int) list \<Rightarrow> Timelord \<Rightarrow>
     ((int \<times> int) option \<times> TimelordMessage list \<times> Timelord) res" where
  "sp_loop cr signage_iters iter [] self = Ok (None, [], self)"
| "sp_loop cr signage_iters iter ((sp, index) # sps) self =
     (if sp \<notin> set signage_iters \<or> sp \<noteq> iter then sp_loop cr signage_iters iter sps self
      else
        let done_proofs = proofs_with_iter sp self in
        if length done_proofs \<noteq> 2 then sp_loop cr signage_iters iter sps self
        else case (proof_for CHALLENGE_CHAIN done_proofs, proof_for REWARD_CHAIN done_proofs) of
          (Some (cc_info, cc_proof), Some (rc_info, rc_proof)) \<Rightarrow>
            let self = self\<lparr>tl_iters_finished := insert iter (tl_iters_finished self)\<rparr> in
            rbind (get_challenge cr (tl_last_state self) REWARD_CHAIN) (\<lambda>rc_challenge.
              if Some (vdf_challenge rc_info) \<noteq> rc_challenge then
                rbind (py_assert (rc_challenge \<noteq> None)) (\<lambda>_. sp_loop cr signage_iters iter sps self)
              else
                let response = \<lparr>nsp_index_from_challenge = index,
                      nsp_challenge_chain_sp_vdf = cc_info\<lparr>number_of_iterations :=
                        number_of_iterations cc_info + ls_last_ip (tl_last_state self)\<rparr>,
                      nsp_challenge_chain_sp_proof = cc_proof, nsp_reward_chain_sp_vdf = rc_info,
                      nsp_reward_chain_sp_proof = rc_proof\<rparr>
                in Ok (Some (sp, index), [new_signage_point_vdf response], send_next_sps (clear_proof_list sp self)))
        | _ \<Rightarrow> sp_loop cr signage_iters iter sps self)"

definition check_for_new_sp ::
    "crypto \<Rightarrow> int \<Rightarrow> Timelord \<Rightarrow> (TimelordMessage list \<times> Timelord) res" where
  "check_for_new_sp cr iter self =
     (let signage_iters = iters_of_type SIGNAGE_POINT self in
      if signage_iters = [] then Ok ([], self)
      else
        rbind (sp_loop cr signage_iters iter (tl_signage_point_iters self) self) (\<lambda>(done, msgs, self).
          Ok (msgs, case done of
                None \<Rightarrow> self
              | Some r \<Rightarrow> self\<lparr>tl_signage_point_iters := remove1 r (tl_signage_point_iters self)\<rparr>)))"

section \<open>Infusion points\<close>

text \<open>The block whose infusion point was reached, and the iterations of the last block looked at. A block whose
  iterations cannot be computed is passed over.\<close>

fun infused_block ::
    "crypto \<Rightarrow> ConsensusConstants \<Rightarrow> LastState \<Rightarrow> int \<Rightarrow> NewUnfinishedBlockTimelord list \<Rightarrow> int option \<Rightarrow>
     (NewUnfinishedBlockTimelord option \<times> int option) res" where
  "infused_block cr c ls iteration [] seen = Ok (None, seen)"
| "infused_block cr c ls iteration (b # bs) seen =
     (case iters_from_block cr c (nub_reward_chain_block b) (ls_sub_slot_iters ls) (ls_difficulty ls) of
        None \<Rightarrow> Diverge
      | Some (Inl _) \<Rightarrow> infused_block cr c ls iteration bs seen
      | Some (Inr (_, ip)) \<Rightarrow>
          if ip - ls_last_ip ls = iteration then Ok (Some b, Some ip)
          else infused_block cr c ls iteration bs (Some ip))"

definition new_deficit :: "ConsensusConstants \<Rightarrow> LastState \<Rightarrow> bool \<Rightarrow> int res" where
  "new_deficit c ls ovf =
     (let m = MIN_BLOCKS_PER_CHALLENGE_BLOCK c in
      if ls_state_type ls = FIRST_SUB_SLOT then Ok (m - 1)
      else if ovf \<and> ls_deficit ls = m then
        (if ls_peak ls \<noteq> None then rbind (py_assert (ls_subslot_end ls = None)) (\<lambda>_. Ok m)
         else
           rbind (unwrap AssertionError (ls_subslot_end ls)) (\<lambda>eos.
             Ok (if infused_challenge_chain eos = None then m - 1 else m)))
      else Ok (max (ls_deficit ls - 1) 0))"

text \<open>The reward chain block that the timelord makes of an unfinished one.\<close>

definition infused_reward_chain_block ::
    "LastState \<Rightarrow> NewUnfinishedBlockTimelord \<Rightarrow> int \<Rightarrow> int \<Rightarrow> bool \<Rightarrow> VDFInfo \<Rightarrow> VDFInfo \<Rightarrow> VDFInfo option \<Rightarrow>
     RewardChainBlock res" where
  "infused_reward_chain_block ls block ip_total h is_tx cc_info rc_info icc_info =
     (let rcb = nub_reward_chain_block block in
      rbind (uint128 (ls_last_weight ls + nub_difficulty block)) (\<lambda>w.
      rbind (uint128 ip_total) (\<lambda>total.
        Ok \<lparr>rcb_weight = w, rcb_height = h, rcb_total_iters = total,
            rcb_signage_point_index = rcbu_signage_point_index rcb,
            rcb_pos_ss_cc_challenge_hash = rcbu_pos_ss_cc_challenge_hash rcb,
            rcb_proof_of_space = rcbu_proof_of_space rcb,
            rcb_challenge_chain_sp_vdf = rcbu_challenge_chain_sp_vdf rcb,
            rcb_challenge_chain_sp_signature = rcbu_challenge_chain_sp_signature rcb,
            rcb_challenge_chain_ip_vdf = cc_info, rcb_reward_chain_sp_vdf = rcbu_reward_chain_sp_vdf rcb,
            rcb_reward_chain_sp_signature = rcbu_reward_chain_sp_signature rcb,
            rcb_reward_chain_ip_vdf = rc_info, rcb_infused_challenge_chain_ip_vdf = icc_info,
            rcb_is_transaction_block = is_tx\<rparr>)))"

definition infused_position ::
    "ConsensusConstants \<Rightarrow> LastState \<Rightarrow> NewUnfinishedBlockTimelord \<Rightarrow> bool \<Rightarrow> int \<Rightarrow> int \<Rightarrow> (bool \<times> int) res" where
  "infused_position c ls block ovf ip_total ip =
     rbind (calculate_sp_iters c (nub_sub_slot_iters block)
              (rcbu_signage_point_index (nub_reward_chain_block block))) (\<lambda>sp_it.
     let sp_total = ip_total - ip + sp_it - (if ovf then nub_sub_slot_iters block else 0) in
     if ls_state_type ls = FIRST_SUB_SLOT then rbind (uint32 0) (\<lambda>h. Ok (True, h))
     else
       rbind (unwrap AssertionError (ls_last_block_total_iters ls)) (\<lambda>last_ti.
       rbind (uint32 (ls_last_height ls + 1)) (\<lambda>h. Ok (last_ti < sp_total, h))))"

definition infused_peak ::
    "ConsensusConstants \<Rightarrow> LastState \<Rightarrow> NewUnfinishedBlockTimelord \<Rightarrow> bool \<Rightarrow> int \<Rightarrow> RewardChainBlock \<Rightarrow>
     NewPeakTimelord res" where
  "infused_peak c ls block ovf ip_total rcb =
     rbind (new_deficit c ls ovf) (\<lambda>d.
     let last_csb_or_eos = (if d = MIN_BLOCKS_PER_CHALLENGE_BLOCK c - 1 then ip_total
                            else ls_last_challenge_sb_or_eos_total_iters ls) in
     rbind (if just_infused_sub_epoch_summary ls then Ok (None, False)
            else rbind (py_mod (rcb_height rcb) (SUB_EPOCH_BLOCKS c)) (\<lambda>r.
              Ok (nub_sub_epoch_summary block, if r = 0 then True else ls_passed_ses_height ls))) (\<lambda>(ses, passed).
     rbind (uint8 d) (\<lambda>d.
     rbind (uint128 last_csb_or_eos) (\<lambda>csb.
       Ok \<lparr>npt_reward_chain_block = rcb, npt_difficulty = nub_difficulty block, npt_deficit = d,
           npt_sub_slot_iters = nub_sub_slot_iters block, npt_sub_epoch_summary = ses,
           npt_previous_reward_challenges = ls_reward_challenge_cache ls,
           npt_last_challenge_sb_or_eos_total_iters = csb, npt_passes_ses_height = passed\<rparr>))))"

definition check_for_new_ip ::
    "crypto \<Rightarrow> int \<Rightarrow> Timelord \<Rightarrow> (TimelordMessage list \<times> Timelord) res" where
  "check_for_new_ip cr iter self =
     (let c = tl_constants self; ls = tl_last_state self; done_proofs = proofs_with_iter iter self in
      if tl_unfinished_blocks self = [] \<or> iter \<notin> set (iters_of_type INFUSION_POINT self) then Ok ([], self)
      else
        rbind (get_challenge cr ls INFUSED_CHALLENGE_CHAIN) (\<lambda>icc_challenge.
        if length done_proofs \<noteq> (if icc_challenge \<noteq> None then 3 else 2) then Ok ([], self)
        else
          rbind (infused_block cr c ls iter (tl_unfinished_blocks self) None) (\<lambda>(block, ip).
          rbind (unwrap AssertionError ip) (\<lambda>ip.
          case block of
            None \<Rightarrow> Ok ([], self)
          | Some block \<Rightarrow>
              let ip_total = ls_total_iters ls + iter in
              rbind (RewardChainBlockUnfinished_hash cr (nub_reward_chain_block block)) (\<lambda>challenge.
              case (proof_for CHALLENGE_CHAIN done_proofs, proof_for REWARD_CHAIN done_proofs) of
                (Some (cc_info, cc_proof), Some (rc_info, rc_proof)) \<Rightarrow>
                  rbind (get_challenge cr ls REWARD_CHAIN) (\<lambda>rc_challenge.
                  if Some (vdf_challenge rc_info) \<noteq> rc_challenge then
                    rbind (py_assert (rc_challenge \<noteq> None)) (\<lambda>_. Ok ([], self))
                  else
                    let self = self\<lparr>tl_iters_finished := insert iter (tl_iters_finished self)\<rparr> in
                    rbind (is_overflow_block c (rcbu_signage_point_index (nub_reward_chain_block block))) (\<lambda>ovf.
                    if \<not> can_infuse_block ls ovf then Ok ([], self)
                    else
                      let icc = proof_for INFUSED_CHALLENGE_CHAIN done_proofs;
                          cc_info = cc_info\<lparr>number_of_iterations := ip\<rparr>;
                          msg = new_infusion_point_vdf
                            \<lparr>nip_unfinished_reward_hash = challenge, nip_challenge_chain_ip_vdf = cc_info,
                             nip_challenge_chain_ip_proof = cc_proof, nip_reward_chain_ip_vdf = rc_info,
                             nip_reward_chain_ip_proof = rc_proof,
                             nip_infused_challenge_chain_ip_vdf = map_option fst icc,
                             nip_infused_challenge_chain_ip_proof = map_option snd icc\<rparr>;
                          self = clear_proof_list iter self in
                      if ls_last_block_total_iters ls = None \<and> ls_state_type ls \<noteq> FIRST_SUB_SLOT
                      then Ok ([msg], self)
                      else
                        rbind (infused_position c ls block ovf ip_total ip) (\<lambda>(is_tx, h).
                        if h < 5 then Ok ([msg], self)
                        else
                          rbind (infused_reward_chain_block ls block ip_total h is_tx cc_info rc_info
                                   (map_option fst icc)) (\<lambda>rcb.
                          rbind (infused_peak c ls block ovf ip_total rcb) (\<lambda>peak.
                          rbind (handle_new_peak cr (self\<lparr>tl_new_peak := Some peak\<rparr>)) (\<lambda>self.
                            Ok ([msg], self)))))))
              | _ \<Rightarrow> Ok ([], self))))))"

section \<open>Ends of sub-slots\<close>

text \<open>The infused challenge chain of the slot: its VDF is counted from the challenge block or the slot start.\<close>

definition eos_icc_vdf :: "LastState \<Rightarrow> VDFInfo \<Rightarrow> VDFInfo res" where
  "eos_icc_vdf ls icc_vdf =
     (let total = (if ls_peak ls \<noteq> None then ls_total_iters ls - ls_last_ip ls + ls_sub_slot_iters ls
                   else ls_total_iters ls + ls_sub_slot_iters ls) in
      rbind (uint64 (total - ls_last_challenge_sb_or_eos_total_iters ls)) (\<lambda>iters_from_cb.
      rbind (py_assert (iters_from_cb \<le> ls_sub_slot_iters ls)) (\<lambda>_.
        Ok (icc_vdf\<lparr>number_of_iterations := iters_from_cb\<rparr>))))"

definition eos_deficit :: "ConsensusConstants \<Rightarrow> LastState \<Rightarrow> int" where
  "eos_deficit c ls =
     (if MIN_BLOCKS_PER_CHALLENGE_BLOCK c > ls_deficit ls \<and> ls_deficit ls > 0 then ls_deficit ls
      else MIN_BLOCKS_PER_CHALLENGE_BLOCK c)"

text \<open>The bundle, and the summary it includes.\<close>

definition build_eos_bundle ::
    "crypto \<Rightarrow> ConsensusConstants \<Rightarrow> LastState \<Rightarrow> VDFInfo \<times> VDFProof \<Rightarrow> VDFInfo \<times> VDFProof \<Rightarrow>
     (VDFInfo \<times> VDFProof) option \<Rightarrow> (EndOfSubSlotBundle \<times> SubEpochSummary option) res" where
  "build_eos_bundle cr c ls cc rc icc =
     rbind (case icc of None \<Rightarrow> Ok None | Some (v, _) \<Rightarrow> rbind (eos_icc_vdf ls v) (\<lambda>v. Ok (Some v))) (\<lambda>icc_vdf.
     let cc_vdf = (fst cc)\<lparr>number_of_iterations := number_of_iterations (fst cc) + ls_last_ip ls\<rparr>;
         icc_sub_slot = map_option (\<lambda>v. \<lparr>infused_challenge_chain_end_of_slot_vdf = v\<rparr>) icc_vdf in
     rbind (case icc_sub_slot of
              None \<Rightarrow> Ok None
            | Some s \<Rightarrow> rbind (InfusedChallengeChainSubSlot_hash cr s) (\<lambda>h. Ok (Some h))) (\<lambda>icc_hash.
     rbind (py_assert (ls_deficit ls = 0 \<longrightarrow> icc_sub_slot \<noteq> None)) (\<lambda>_.
     rbind (get_next_sub_epoch_summary ls) (\<lambda>next_ses.
     rbind (case next_ses of
              None \<Rightarrow> Ok None
            | Some ses \<Rightarrow> rbind (SubEpochSummary_hash cr ses) (\<lambda>h. Ok (Some h))) (\<lambda>ses_hash.
     let cc_sub_slot =
           \<lparr>challenge_chain_end_of_slot_vdf = cc_vdf,
            cc_infused_challenge_chain_sub_slot_hash = (if ls_deficit ls = 0 then icc_hash else None),
            subepoch_summary_hash = ses_hash,
            cc_new_sub_slot_iters = Option.bind next_ses ses_new_sub_slot_iters,
            cc_new_difficulty = Option.bind next_ses ses_new_difficulty\<rparr> in
     rbind (ChallengeChainSubSlot_hash cr cc_sub_slot) (\<lambda>cc_hash.
       Ok (\<lparr>challenge_chain = cc_sub_slot, infused_challenge_chain = icc_sub_slot,
            reward_chain = \<lparr>end_of_slot_vdf = fst rc, challenge_chain_sub_slot_hash = cc_hash,
              rc_infused_challenge_chain_sub_slot_hash = icc_hash, rc_deficit = eos_deficit c ls\<rparr>,
            proofs = \<lparr>challenge_chain_slot_proof = snd cc,
              infused_challenge_chain_slot_proof = map_option snd icc,
              reward_chain_slot_proof = snd rc\<rparr>\<rparr>, next_ses)))))))"

definition check_for_end_of_subslot ::
    "crypto \<Rightarrow> int \<Rightarrow> Timelord \<Rightarrow> (TimelordMessage list \<times> Timelord) res" where
  "check_for_end_of_subslot cr iter self =
     (let c = tl_constants self; ls = tl_last_state self; left = iters_of_type END_OF_SUBSLOT self in
      if left = [] \<or> hd left \<noteq> iter then Ok ([], self)
      else
        let chains_finished = proofs_with_iter iter self in
        rbind (get_challenge cr ls INFUSED_CHALLENGE_CHAIN) (\<lambda>icc_challenge.
        if length chains_finished \<noteq> (if icc_challenge \<noteq> None then 3 else 2) then Ok ([], self)
        else
          rbind (unwrap AssertionError (proof_for CHALLENGE_CHAIN chains_finished)) (\<lambda>cc.
          rbind (unwrap AssertionError (proof_for REWARD_CHAIN chains_finished)) (\<lambda>rc.
          rbind (get_challenge cr ls REWARD_CHAIN) (\<lambda>rc_challenge.
          if Some (vdf_challenge (fst rc)) \<noteq> rc_challenge then
            rbind (py_assert (rc_challenge \<noteq> None)) (\<lambda>_. Ok ([], self))
          else
            rbind (build_eos_bundle cr c ls cc rc (proof_for INFUSED_CHALLENGE_CHAIN chains_finished))
              (\<lambda>(bundle, next_ses).
            let self = self\<lparr>tl_iters_finished := insert iter (tl_iters_finished self),
                            tl_unfinished_blocks :=
                              (if next_ses = None \<or> Option.bind next_ses ses_new_difficulty = None
                               then tl_overflow_blocks self else []),
                            tl_overflow_blocks := [], tl_new_subslot_end := Some bundle\<rparr> in
            rbind (handle_subslot_end cr self) (\<lambda>self. Ok ([new_end_of_sub_slot_vdf bundle], self))))))))"

section \<open>The main loop and the messages from full nodes\<close>

definition handle_failures :: "crypto \<Rightarrow> bool \<Rightarrow> Timelord \<Rightarrow> Timelord res" where
  "handle_failures cr inactive self =
     rbind (case tl_vdf_failures self of
              [] \<Rightarrow> Ok self
            | (_, proof_label) # _ \<Rightarrow>
                rbind (if proof_label = Some (tl_num_resets self) then reset_chains cr True self else Ok self)
                  (\<lambda>self. Ok (self\<lparr>tl_vdf_failures := []\<rparr>))) (\<lambda>self.
       if inactive then reset_chains cr False self else Ok self)"

text \<open>One round of \<^verbatim>\<open>_manage_chains\<close>.\<close>

definition manage_round ::
    "crypto \<Rightarrow> bool \<Rightarrow> Chain set \<Rightarrow> Timelord \<Rightarrow> (TimelordMessage list \<times> Timelord) res" where
  "manage_round cr inactive allows self =
     rbind (handle_failures cr inactive self) (\<lambda>self.
     rbind (if tl_new_peak self \<noteq> None then handle_new_peak cr self else Ok self) (\<lambda>self.
     rbind (submit_iterations allows self) (\<lambda>self.
     let not_finished = filter (\<lambda>i. i \<notin> tl_iters_finished self) (tl_iters_submitted self REWARD_CHAIN) in
     if not_finished = [] then Ok ([], self)
     else
       let selected = Min (set not_finished) in
       rbind (check_for_new_ip cr selected self) (\<lambda>(msgs1, self).
       rbind (check_for_new_sp cr selected self) (\<lambda>(msgs2, self).
       rbind (check_for_end_of_subslot cr selected self) (\<lambda>(msgs3, self).
         Ok (msgs1 @ msgs2 @ msgs3, self)))))))"

definition api_new_peak_timelord :: "NewPeakTimelord \<Rightarrow> Timelord \<Rightarrow> Timelord" where
  "api_new_peak_timelord new_peak self =
     (let ls = tl_last_state self in
      if tl_sanitizer_mode self then self
      else if rcb_weight (npt_reward_chain_block new_peak) > ls_last_weight ls
      then self\<lparr>tl_new_peak := Some new_peak\<rparr>
      else if map_option npt_reward_chain_block (ls_peak ls) = Some (npt_reward_chain_block new_peak) then self
      else self\<lparr>tl_new_peak := Some new_peak, tl_new_subslot_end := None\<rparr>)"

definition api_new_unfinished_block_timelord ::
    "crypto \<Rightarrow> NewUnfinishedBlockTimelord \<Rightarrow> Timelord \<Rightarrow> Timelord res" where
  "api_new_unfinished_block_timelord cr block self =
     (let c = tl_constants self; ls = tl_last_state self in
      if tl_sanitizer_mode self then Ok self
      else case iters_from_block cr c (nub_reward_chain_block block) (ls_sub_slot_iters ls) (ls_difficulty ls) of
        None \<Rightarrow> Diverge
      | Some (Inl _) \<Rightarrow> Ok self
      | Some (Inr (sp_it, ip_it)) \<Rightarrow>
          if sp_it > ip_it then Ok (self\<lparr>tl_overflow_blocks := tl_overflow_blocks self @ [block]\<rparr>)
          else if ip_it > ls_last_ip ls then
            rbind (can_infuse_unfinished_block cr self block) (\<lambda>iters.
              case iters of
                None \<Rightarrow> Ok self
              | Some i \<Rightarrow>
                  let self = self\<lparr>tl_unfinished_blocks := tl_unfinished_blocks self @ [block],
                                  tl_total_unfinished := tl_total_unfinished self + 1\<rparr>;
                      self = submit_to [REWARD_CHAIN, CHALLENGE_CHAIN] i self;
                      self = (if ls_deficit ls < MIN_BLOCKS_PER_CHALLENGE_BLOCK c
                              then submit_to [INFUSED_CHALLENGE_CHAIN] i self else self)
                  in Ok (set_proof_type i INFUSION_POINT self))
          else Ok self)"

end
