(* ===== verification/Timelord_Facts.thy ===== *)
theory Timelord_Facts
  imports Timelord
begin

text \<open>
  The last state of a timelord is consistent: its kind, its peak and its slot end fit together, the sub-slot divides
  into signage points, the last infusion point lies within it, and the newest challenge of the cache is the
  one the reward chain continues from. \<^verbatim>\<open>set_state\<close> keeps this.
\<close>

section \<open>Positions in a sub-slot\<close>

definition ssi_ok :: "ConsensusConstants \<Rightarrow> int \<Rightarrow> bool" where
  "ssi_ok c ssi \<longleftrightarrow> 0 < ssi \<and> NUM_SPS_SUB_SLOT c dvd ssi \<and> ssi div NUM_SPS_SUB_SLOT c < 2 ^ 64"

lemma constants_okD:
  assumes "constants_ok c"
  shows "0 < NUM_SPS_SUB_SLOT c" "0 < NUM_SP_INTERVALS_EXTRA c" "NUM_SP_INTERVALS_EXTRA c < NUM_SPS_SUB_SLOT c"
    "1 \<le> MIN_BLOCKS_PER_CHALLENGE_BLOCK c" "MIN_BLOCKS_PER_CHALLENGE_BLOCK c < 256" "0 < SUB_EPOCH_BLOCKS c"
    "0 < MAX_SUB_SLOT_BLOCKS c" "NUM_SPS_SUB_SLOT c dvd SUB_SLOT_ITERS_STARTING c" "0 < SUB_SLOT_ITERS_STARTING c"
proof -
  have "NUM_SPS_SUB_SLOT c = 2 ^ (nat_bit_length (nat (NUM_SPS_SUB_SLOT c)) - 1)"
    using assms by (simp only: constants_ok_def)
  then show "0 < NUM_SPS_SUB_SLOT c" by (metis zero_less_numeral zero_less_power)
qed (use assms in \<open>auto simp: constants_ok_def\<close>)

lemma ssi_ok_parts:
  assumes "ssi_ok c ssi" and "0 < NUM_SPS_SUB_SLOT c"
  shows "0 < ssi div NUM_SPS_SUB_SLOT c" "NUM_SPS_SUB_SLOT c * (ssi div NUM_SPS_SUB_SLOT c) = ssi"
proof -
  show m: "NUM_SPS_SUB_SLOT c * (ssi div NUM_SPS_SUB_SLOT c) = ssi" using assms by (simp add: ssi_ok_def)
  then show "0 < ssi div NUM_SPS_SUB_SLOT c" using assms unfolding ssi_ok_def
    by (metis mult_nonpos_nonneg mult.commute less_le_not_le linorder_not_le order_less_imp_le)
qed

lemma iters_from_block_ip:
  assumes "iters_from_block cr c rcb ssi d = Ok (sp, ip)" and "0 < NUM_SPS_SUB_SLOT c"
  shows "ssi_ok c ssi" "0 \<le> ip" "ip < ssi" "ip < 2 ^ 64" "ip \<noteq> k * (ssi div NUM_SPS_SUB_SLOT c)"
    "rcbu_signage_point_index rcb < NUM_SPS_SUB_SLOT c"
proof -
  from assms(1) obtain r where r: "calculate_ip_iters c ssi (rcbu_signage_point_index rcb) r = Ok ip" "1 \<le> r"
    unfolding iters_from_block_def by (auto dest: iterations_quality_bounds)
  from ip_iters_Ok_cases [OF r(1)] obtain i s where
    i: "calculate_sp_interval_iters c ssi = Ok i" "i \<noteq> 0" and
    s: "calculate_sp_iters c ssi (rcbu_signage_point_index rcb) = Ok s" "s mod i = 0" "s < ssi" and
    ip: "r < i" "ip = (s + NUM_SP_INTERVALS_EXTRA c * i + r) mod ssi" "0 \<le> ip" "ip < 2 ^ 64" by auto
  have v: "NUM_SPS_SUB_SLOT c dvd ssi" "i = ssi div NUM_SPS_SUB_SLOT c" "0 < i" "i < 2 ^ 64"
    using i by (auto simp: sp_interval_iters_Ok)
  have e: "NUM_SPS_SUB_SLOT c * i = ssi" using v by simp
  have pos: "0 < ssi" unfolding e [symmetric] using v(3) assms(2) by simp
  show "ssi_ok c ssi" using v pos by (simp add: ssi_ok_def)
  show "0 \<le> ip" "ip < 2 ^ 64" by (rule ip)+
  show "ip < ssi" using ip(2) pos by simp
  have "ip mod i = (s + NUM_SP_INTERVALS_EXTRA c * i + r) mod i" unfolding ip(2)
    by (rule mod_mod_cancel) (simp add: e [symmetric])
  also have "\<dots> = r mod i"
  proof -
    obtain m where "s = i * m" using s(2) by (meson dvd_eq_mod_eq_0 dvd_def)
    then have "s + NUM_SP_INTERVALS_EXTRA c * i + r = r + i * (m + NUM_SP_INTERVALS_EXTRA c)"
      by (simp add: algebra_simps)
    then show ?thesis by simp
  qed
  also have "\<dots> = r" using ip(1) r(2) by simp
  finally have "ip mod i \<noteq> 0" using r(2) by simp
  then show "ip \<noteq> k * (ssi div NUM_SPS_SUB_SLOT c)" by (auto simp: v(2))
  show "rcbu_signage_point_index rcb < NUM_SPS_SUB_SLOT c" using s(1) by (simp add: sp_iters_Ok)
qed

section \<open>The last state\<close>

definition ls_ok :: "crypto \<Rightarrow> LastState \<Rightarrow> bool" where
  "ls_ok cr ls \<longleftrightarrow>
     ssi_ok (ls_constants ls) (ls_sub_slot_iters ls) \<and> 0 \<le> ls_last_ip ls \<and> ls_last_ip ls < ls_sub_slot_iters ls \<and>
     (case ls_state_type ls of
        PEAK \<Rightarrow> ls_peak ls \<noteq> None \<and> ls_subslot_end ls = None
      | END_OF_SUB_SLOT \<Rightarrow> ls_peak ls = None \<and> ls_subslot_end ls \<noteq> None \<and> ls_last_ip ls = 0
      | FIRST_SUB_SLOT \<Rightarrow> ls_peak ls = None \<and> ls_subslot_end ls = None \<and> ls_last_ip ls = 0) \<and>
     (\<exists>ch older. get_challenge cr ls REWARD_CHAIN = Ok (Some ch) \<and>
        ls_reward_challenge_cache ls = older @ [(ch, ls_total_iters ls)]) \<and>
     int (length (ls_reward_challenge_cache ls)) \<le> 2 * MAX_SUB_SLOT_BLOCKS (ls_constants ls)"

lemma pop_oldest_last:
  assumes "pop_oldest m (xs @ [x]) = Ok ys" and "0 < m"
  shows "\<exists>zs. ys = zs @ [x]" "int (length ys) \<le> m"
proof -
  have "(\<exists>zs. ys = zs @ [x]) \<and> int (length ys) \<le> m"
    using assms by (induction xs) (auto split: if_splits)
  then show "\<exists>zs. ys = zs @ [x]" "int (length ys) \<le> m" by auto
qed

lemma note_challenge_ok:
  assumes nc: "note_challenge cr ls = Ok ls'" and c: "0 < MAX_SUB_SLOT_BLOCKS (ls_constants ls)"
    and ok: "ssi_ok (ls_constants ls) (ls_sub_slot_iters ls)" "0 \<le> ls_last_ip ls" "ls_last_ip ls < ls_sub_slot_iters ls"
    and st: "case ls_state_type ls of
        PEAK \<Rightarrow> ls_peak ls \<noteq> None \<and> ls_subslot_end ls = None
      | END_OF_SUB_SLOT \<Rightarrow> ls_peak ls = None \<and> ls_subslot_end ls \<noteq> None \<and> ls_last_ip ls = 0
      | FIRST_SUB_SLOT \<Rightarrow> ls_peak ls = None \<and> ls_subslot_end ls = None \<and> ls_last_ip ls = 0"
  shows "ls_ok cr ls'" "\<exists>cache. ls' = ls\<lparr>ls_reward_challenge_cache := cache\<rparr>"
proof -
  from nc obtain ch cache where ch: "get_challenge cr ls REWARD_CHAIN = Ok (Some ch)"
    and cache: "pop_oldest (2 * MAX_SUB_SLOT_BLOCKS (ls_constants ls))
        (ls_reward_challenge_cache ls @ [(ch, ls_total_iters ls)]) = Ok cache"
    and ls': "ls' = ls\<lparr>ls_reward_challenge_cache := cache\<rparr>"
    by (auto simp: note_challenge_def)
  then show "\<exists>cache. ls' = ls\<lparr>ls_reward_challenge_cache := cache\<rparr>" by blast
  have "get_challenge cr ls' REWARD_CHAIN = get_challenge cr ls REWARD_CHAIN"
    by (simp add: ls' get_challenge_def split: StateType.split)
  with pop_oldest_last [OF cache] c ok st ch show "ls_ok cr ls'"
    by (auto simp: ls_ok_def ls' split: StateType.splits)
qed

lemma set_peak_state_ok:
  assumes set: "set_peak_state cr ls p = Ok ls'" and c: "constants_ok (ls_constants ls)"
  shows "ls_ok cr ls'" "ls_constants ls' = ls_constants ls" "ls_peak ls' = Some p" "ls_state_type ls' = PEAK"
    "ls_deficit ls' = npt_deficit p" "ls_sub_epoch_summary ls' = npt_sub_epoch_summary p" "ls_subslot_end ls' = None"
    "ls_last_weight ls' = rcb_weight (npt_reward_chain_block p)"
proof -
  note k = constants_okD [OF c]
  obtain s where n: "note_challenge cr s = Ok ls'" and
    s: "ls_constants s = ls_constants ls" "ls_peak s = Some p" "ls_state_type s = PEAK" "ls_subslot_end s = None"
    "ls_deficit s = npt_deficit p" "ls_sub_epoch_summary s = npt_sub_epoch_summary p"
    "ssi_ok (ls_constants ls) (ls_sub_slot_iters s)" "0 \<le> ls_last_ip s" "ls_last_ip s < ls_sub_slot_iters s"
    "ls_last_weight s = rcb_weight (npt_reward_chain_block p)"
  proof -
    assume *: "\<And>s. \<lbrakk>note_challenge cr s = Ok ls'; ls_constants s = ls_constants ls; ls_peak s = Some p;
      ls_state_type s = PEAK; ls_subslot_end s = None; ls_deficit s = npt_deficit p;
      ls_sub_epoch_summary s = npt_sub_epoch_summary p; ssi_ok (ls_constants ls) (ls_sub_slot_iters s);
      0 \<le> ls_last_ip s; ls_last_ip s < ls_sub_slot_iters s;
      ls_last_weight s = rcb_weight (npt_reward_chain_block p)\<rbrakk> \<Longrightarrow> thesis"
    from set obtain sp ip where
      it: "iters_from_block cr (ls_constants ls) (get_unfinished (npt_reward_chain_block p)) (npt_sub_slot_iters p)
        (npt_difficulty p) = Ok (sp, ip)"
      by (auto simp: set_peak_state_def Let_def)
    from set it iters_from_block_ip(1-3) [OF it k(1)] show thesis
      by (auto simp: set_peak_state_def Let_def intro: *)
  qed
  from note_challenge_ok [OF n] s k(7)
  show "ls_ok cr ls'" "ls_constants ls' = ls_constants ls" "ls_peak ls' = Some p" "ls_state_type ls' = PEAK"
    "ls_deficit ls' = npt_deficit p" "ls_sub_epoch_summary ls' = npt_sub_epoch_summary p" "ls_subslot_end ls' = None"
    "ls_last_weight ls' = rcb_weight (npt_reward_chain_block p)" by auto
qed

definition slot_ssi_ok :: "ConsensusConstants \<Rightarrow> EndOfSubSlotBundle \<Rightarrow> bool" where
  "slot_ssi_ok c eos \<longleftrightarrow>
     (\<forall>ssi. cc_new_difficulty (challenge_chain eos) \<noteq> None \<and> cc_new_sub_slot_iters (challenge_chain eos) = Some ssi \<longrightarrow>
        ssi_ok c ssi)"

lemma set_eos_state_ok:
  assumes set: "set_eos_state cr ls eos = Ok ls'" and c: "constants_ok (ls_constants ls)"
    and ok: "ls_ok cr ls" and eos: "slot_ssi_ok (ls_constants ls) eos"
  shows "ls_ok cr ls'" "ls_constants ls' = ls_constants ls" "ls_peak ls' = None" "ls_state_type ls' = END_OF_SUB_SLOT"
    "ls_subslot_end ls' = Some eos" "ls_deficit ls' = rc_deficit (reward_chain eos)"
    "ls_sub_epoch_summary ls' = ls_sub_epoch_summary ls" "ls_last_ip ls' = 0"
proof -
  let ?cc = "challenge_chain eos"
  have i: "ssi_ok (ls_constants ls) (ls_sub_slot_iters ls)" using ok by (simp add: ls_ok_def)
  from set obtain s where n: "note_challenge cr s = Ok ls'" and
    s: "ls_constants s = ls_constants ls" "ls_peak s = None" "ls_state_type s = END_OF_SUB_SLOT" "ls_subslot_end s = Some eos"
    "ls_deficit s = rc_deficit (reward_chain eos)" "ls_sub_epoch_summary s = ls_sub_epoch_summary ls" "ls_last_ip s = 0"
    "ssi_ok (ls_constants ls) (ls_sub_slot_iters s)"
  proof -
    assume *: "\<And>s. \<lbrakk>note_challenge cr s = Ok ls'; ls_constants s = ls_constants ls; ls_peak s = None;
      ls_state_type s = END_OF_SUB_SLOT; ls_subslot_end s = Some eos; ls_deficit s = rc_deficit (reward_chain eos);
      ls_sub_epoch_summary s = ls_sub_epoch_summary ls; ls_last_ip s = 0;
      ssi_ok (ls_constants ls) (ls_sub_slot_iters s)\<rbrakk> \<Longrightarrow> thesis"
    show thesis
    proof (cases "cc_new_difficulty ?cc")
      case None
      with set show thesis by (auto simp: set_eos_state_def Let_def i intro: *)
    next
      case (Some d)
      with eos have "ssi_ok (ls_constants ls) ssi" if "cc_new_sub_slot_iters ?cc = Some ssi" for ssi
        using that by (simp add: slot_ssi_ok_def)
      with set Some show thesis by (auto simp: set_eos_state_def Let_def intro: *)
    qed
  qed
  have "0 < ls_sub_slot_iters s" using s(8) by (simp add: ssi_ok_def)
  with note_challenge_ok [OF n] s constants_okD(7) [OF c]
  show "ls_ok cr ls'" "ls_constants ls' = ls_constants ls" "ls_peak ls' = None" "ls_state_type ls' = END_OF_SUB_SLOT"
    "ls_subslot_end ls' = Some eos" "ls_deficit ls' = rc_deficit (reward_chain eos)"
    "ls_sub_epoch_summary ls' = ls_sub_epoch_summary ls" "ls_last_ip ls' = 0" by auto
qed

lemma init_LastState_ok:
  assumes "constants_ok c" and "SUB_SLOT_ITERS_STARTING c div NUM_SPS_SUB_SLOT c < 2 ^ 64"
  shows "ls_ok cr (init_LastState c)"
  using constants_okD [OF assms(1)] assms(2) by (simp add: ls_ok_def init_LastState_def ssi_ok_def get_challenge_def)

end
