(* ===== verification/Timelord_Schedule.thy ===== *)
theory Timelord_Schedule
  imports Timelord_Facts
begin

text \<open>
  The schedule of a timelord: what is asked of the VDF clients always has a meaning, and one only. A signage point
  lies on a multiple of the signage point interval, an infusion point never does, and the slot ends where
  the last interval does; so an iteration that \<^verbatim>\<open>iteration_to_proof_type\<close> names as one of them is never
  taken for another, and no assertion of \<^verbatim>\<open>_reset_chains\<close> fails.
\<close>

section \<open>Positions and schedules\<close>

definition position_ok :: "LastState \<Rightarrow> int \<Rightarrow> IterationType \<Rightarrow> bool" where
  "position_ok ls i t \<longleftrightarrow>
     (let c = ls_constants ls; ssi = ls_sub_slot_iters ls; per = ssi div NUM_SPS_SUB_SLOT c; ip = ls_last_ip ls in
      case t of
        SIGNAGE_POINT \<Rightarrow> 0 < i \<and> (\<exists>k. 1 \<le> k \<and> k < NUM_SPS_SUB_SLOT c \<and> i = k * per - ip)
      | INFUSION_POINT \<Rightarrow> 0 < i \<and> i < ssi - ip \<and> (\<forall>k. i \<noteq> k * per - ip)
      | END_OF_SUBSLOT \<Rightarrow> i = ssi - ip)"

definition signage_ok :: "LastState \<Rightarrow> int \<times> int \<Rightarrow> bool" where
  "signage_ok ls = (\<lambda>(i, k). 0 < i \<and> 1 \<le> k \<and> k < NUM_SPS_SUB_SLOT (ls_constants ls) \<and>
     i = k * (ls_sub_slot_iters ls div NUM_SPS_SUB_SLOT (ls_constants ls)) - ls_last_ip ls)"

definition schedule_ok :: "Timelord \<Rightarrow> bool" where
  "schedule_ok self \<longleftrightarrow>
     distinct (map fst (tl_iteration_to_proof_type self)) \<and>
     (\<forall>i t. (i, t) \<in> set (tl_iteration_to_proof_type self) \<longrightarrow> position_ok (tl_last_state self) i t) \<and>
     (\<forall>ch. ch \<noteq> BLUEBOX \<longrightarrow>
        set (tl_iters_to_submit self ch) \<subseteq> fst ` set (tl_iteration_to_proof_type self)) \<and>
     (\<forall>p\<in>set (tl_signage_point_iters self). signage_ok (tl_last_state self) p)"

lemma position_okI:
  "signage_ok ls (i, k) \<Longrightarrow> position_ok ls i SIGNAGE_POINT"
  "position_ok ls (ls_sub_slot_iters ls - ls_last_ip ls) END_OF_SUBSLOT"
  by (auto simp: position_ok_def signage_ok_def Let_def)

lemma interval_ends:
  assumes "ls_ok cr ls" and "0 < NUM_SPS_SUB_SLOT (ls_constants ls)" and "k < NUM_SPS_SUB_SLOT (ls_constants ls)"
  shows "k * (ls_sub_slot_iters ls div NUM_SPS_SUB_SLOT (ls_constants ls)) < ls_sub_slot_iters ls"
proof -
  have "ssi_ok (ls_constants ls) (ls_sub_slot_iters ls)" using assms(1) by (simp add: ls_ok_def)
  note m = ssi_ok_parts [OF this assms(2)]
  show ?thesis using mult_strict_right_mono [OF assms(3) m(1)] m(2) by simp
qed

lemma position_bounds:
  assumes "position_ok ls i t" and "ls_ok cr ls" and "0 < NUM_SPS_SUB_SLOT (ls_constants ls)"
  shows "0 < i" "i \<le> ls_sub_slot_iters ls - ls_last_ip ls"
    "i = ls_sub_slot_iters ls - ls_last_ip ls \<longleftrightarrow> t = END_OF_SUBSLOT"
proof -
  have b: "0 \<le> ls_last_ip ls" "ls_last_ip ls < ls_sub_slot_iters ls" using assms(2) by (simp_all add: ls_ok_def)
  note e = interval_ends [OF assms(2,3)]
  show "0 < i" "i \<le> ls_sub_slot_iters ls - ls_last_ip ls"
    "i = ls_sub_slot_iters ls - ls_last_ip ls \<longleftrightarrow> t = END_OF_SUBSLOT"
    using assms(1) b by (cases t; auto simp: position_ok_def Let_def dest: e)+
qed

lemma position_unique:
  assumes "position_ok ls i t" "position_ok ls i u" and "ls_ok cr ls" and "0 < NUM_SPS_SUB_SLOT (ls_constants ls)"
  shows "t = u"
  using position_bounds(3) [OF assms(1,3,4)] position_bounds(3) [OF assms(2,3,4)] assms(1,2)
  by (cases t; cases u) (auto simp: position_ok_def Let_def)

section \<open>Adding to a schedule\<close>

definition adds_iter :: "int \<Rightarrow> Timelord \<Rightarrow> Timelord \<Rightarrow> bool" where
  "adds_iter i self self' \<longleftrightarrow>
     tl_constants self' = tl_constants self \<and> tl_last_state self' = tl_last_state self \<and>
     tl_iteration_to_proof_type self' = tl_iteration_to_proof_type self \<and>
     tl_signage_point_iters self' = tl_signage_point_iters self \<and>
     (\<forall>ch. set (tl_iters_to_submit self ch) \<subseteq> set (tl_iters_to_submit self' ch) \<and>
        set (tl_iters_to_submit self' ch) \<subseteq> insert i (set (tl_iters_to_submit self ch)))"

lemma adds_refl: "adds_iter i self self"
  by (simp add: adds_iter_def subset_insertI)

lemma adds_trans: "adds_iter i a b \<Longrightarrow> adds_iter i b d \<Longrightarrow> adds_iter i a d"
  unfolding adds_iter_def by (simp, blast)

lemma adds_submit: "adds_iter i self (submit_to chs i self)"
  by (auto simp: adds_iter_def submit_to_def)

lemma adds_submitted: "adds_iter i a b \<Longrightarrow> adds_iter i a (submit_to chs i b)"
  by (rule adds_trans [OF _ adds_submit])

lemma types_update:
  "distinct (map fst al) \<Longrightarrow> (j, u) \<in> set (AList.update i t al) \<longleftrightarrow> (j = i \<and> u = t) \<or> (j \<noteq> i \<and> (j, u) \<in> set al)"
proof -
  assume d: "distinct (map fst al)"
  then have "distinct (map fst (AList.update i t al))" by (rule distinct_update)
  then have "(j, u) \<in> set (AList.update i t al) \<longleftrightarrow> map_of (AList.update i t al) j = Some u" by simp
  also have "\<dots> \<longleftrightarrow> (j = i \<and> u = t) \<or> (j \<noteq> i \<and> (j, u) \<in> set al)" using d by (auto simp: update_conv')
  finally show ?thesis .
qed

lemma schedule_ok_add:
  assumes "schedule_ok self" and "adds_iter i self self'" and "position_ok (tl_last_state self) i t"
  shows "schedule_ok (set_proof_type i t self')"
proof -
  have d: "distinct (map fst (tl_iteration_to_proof_type self))" using assms(1) by (simp add: schedule_ok_def)
  have k: "fst ` set (AList.update i t (tl_iteration_to_proof_type self))
      = insert i (fst ` set (tl_iteration_to_proof_type self))"
    using arg_cong [OF update_keys, of set i t "tl_iteration_to_proof_type self"] by (auto simp: set_map)
  show ?thesis
    using assms d unfolding schedule_ok_def adds_iter_def set_proof_type_def
    by (simp add: types_update distinct_update k) blast
qed

text \<open>What is scheduled stays scheduled, as what it was.\<close>

definition keeps_schedule :: "Timelord \<Rightarrow> Timelord \<Rightarrow> bool" where
  "keeps_schedule self self' \<longleftrightarrow>
     tl_constants self' = tl_constants self \<and> tl_last_state self' = tl_last_state self \<and>
     tl_signage_point_iters self' = tl_signage_point_iters self \<and>
     set (tl_iteration_to_proof_type self) \<subseteq> set (tl_iteration_to_proof_type self') \<and>
     (\<forall>ch. set (tl_iters_to_submit self ch) \<subseteq> set (tl_iters_to_submit self' ch))"

lemma grows_refl: "keeps_schedule self self"
  by (simp add: keeps_schedule_def)

lemma grows_trans: "keeps_schedule a b \<Longrightarrow> keeps_schedule b d \<Longrightarrow> keeps_schedule a d"
  unfolding keeps_schedule_def by (simp, blast)

lemma add_grows:
  assumes "schedule_ok self" and "adds_iter i self self'" and "position_ok (tl_last_state self) i t"
    and "ls_ok cr (tl_last_state self)" and "0 < NUM_SPS_SUB_SLOT (ls_constants (tl_last_state self))"
  shows "keeps_schedule self (set_proof_type i t self')" "(i, t) \<in> set (tl_iteration_to_proof_type (set_proof_type i t self'))"
    "ch \<in> set chs \<Longrightarrow> i \<in> set (tl_iters_to_submit (set_proof_type i t (submit_to chs i self)) ch)"
proof -
  have d: "distinct (map fst (tl_iteration_to_proof_type self))" using assms(1) by (simp add: schedule_ok_def)
  have "u = t" if "(i, u) \<in> set (tl_iteration_to_proof_type self)" for u
    using that assms(1) position_unique [OF _ assms(3-5)] by (auto simp: schedule_ok_def)
  then show "keeps_schedule self (set_proof_type i t self')"
    using assms(2) d by (auto simp: keeps_schedule_def adds_iter_def set_proof_type_def types_update)
  show "(i, t) \<in> set (tl_iteration_to_proof_type (set_proof_type i t self'))"
    using assms(2) d by (simp add: set_proof_type_def adds_iter_def types_update)
  show "i \<in> set (tl_iters_to_submit (set_proof_type i t (submit_to chs i self)) ch)" if "ch \<in> set chs"
    using that by (simp add: set_proof_type_def submit_to_def)
qed

section \<open>Infusion points\<close>

lemma not_Diverge_cases: "returns f \<Longrightarrow> (\<And>e. f = Raise e \<Longrightarrow> P) \<Longrightarrow> (\<And>x. f = Ok x \<Longrightarrow> P) \<Longrightarrow> P"
  by (cases f rule: res_cases) (auto dest: returnsD)

lemma returns_iters_from_block [returns_rules]: "returns (iters_from_block cr c rcb ssi d)"
  unfolding iters_from_block_def by (intro returns_rules)

lemma can_infuse_Ok:
  assumes "ls_ok cr (tl_last_state self)" and "0 < NUM_SPS_SUB_SLOT (tl_constants self)"
    and "tl_constants self = ls_constants (tl_last_state self)"
  shows "\<exists>r. can_infuse_unfinished_block cr self b = Ok r \<and>
     (\<forall>i. r = Some i \<longrightarrow> position_ok (tl_last_state self) i INFUSION_POINT \<and>
        (\<exists>sp. iters_from_block cr (tl_constants self) (nub_reward_chain_block b) (ls_sub_slot_iters (tl_last_state self))
           (ls_difficulty (tl_last_state self)) = Ok (sp, ls_last_ip (tl_last_state self) + i)))"
proof -
  let ?ls = "tl_last_state self" and ?rcb = "nub_reward_chain_block b"
  let ?it = "iters_from_block cr (tl_constants self) ?rcb (ls_sub_slot_iters ?ls) (ls_difficulty ?ls)"
  have p: "0 \<le> ls_last_ip ?ls" using assms(1) by (simp add: ls_ok_def)
  have "returns ?it" by (intro returns_rules)
  then show ?thesis
  proof (rule not_Diverge_cases)
    fix e assume "?it = Raise e"
    then show ?thesis by (simp add: can_infuse_unfinished_block_def Let_def)
  next
    fix x assume "?it = Ok x"
    then obtain sp ip where it: "?it = Ok (sp, ip)" by (cases x) simp
    note ip = iters_from_block_ip [OF it assms(2)]
    have pos: "position_ok ?ls (ip - ls_last_ip ?ls) INFUSION_POINT" if "ls_last_ip ?ls < ip"
      using that ip assms(3) by (auto simp: position_ok_def Let_def)
    obtain ov where ov: "is_overflow_block (tl_constants self) (rcbu_signage_point_index ?rcb) = Ok ov"
      using ip(6) is_overflow_block_Ok by blast
    have u: "uint64 (ip - ls_last_ip ?ls) = Ok (ip - ls_last_ip ?ls)" if "ls_last_ip ?ls \<le> ip"
      using that ip(4) p by simp
    show ?thesis
      using it ov u pos
      by (auto simp: can_infuse_unfinished_block_def Let_def split: option.split)
  qed
qed

text \<open>The blocks that wait for their infusion point.\<close>

definition block_ip :: "crypto \<Rightarrow> LastState \<Rightarrow> NewUnfinishedBlockTimelord \<Rightarrow> int \<Rightarrow> bool" where
  "block_ip cr ls b i \<longleftrightarrow>
     (\<exists>sp. iters_from_block cr (ls_constants ls) (nub_reward_chain_block b) (ls_sub_slot_iters ls) (ls_difficulty ls)
        = Ok (sp, ls_last_ip ls + i))"

definition scheduled :: "crypto \<Rightarrow> Timelord \<Rightarrow> NewUnfinishedBlockTimelord \<Rightarrow> bool" where
  "scheduled cr self b \<longleftrightarrow>
     (\<exists>i. block_ip cr (tl_last_state self) b i \<and> (i, INFUSION_POINT) \<in> set (tl_iteration_to_proof_type self) \<and>
        i \<in> set (tl_iters_to_submit self CHALLENGE_CHAIN) \<and> i \<in> set (tl_iters_to_submit self REWARD_CHAIN))"

lemma scheduled_grows: "scheduled cr self b \<Longrightarrow> keeps_schedule self self' \<Longrightarrow> scheduled cr self' b"
  unfolding scheduled_def keeps_schedule_def by auto

text \<open>What every operation on a schedule may rely on.\<close>

definition clock_ok :: "crypto \<Rightarrow> Timelord \<Rightarrow> bool" where
  "clock_ok cr self \<longleftrightarrow>
     tl_constants self = ls_constants (tl_last_state self) \<and> constants_ok (tl_constants self) \<and>
     ls_ok cr (tl_last_state self)"

lemma clock_okD:
  assumes "clock_ok cr self"
  shows "tl_constants self = ls_constants (tl_last_state self)" "ls_ok cr (tl_last_state self)"
    "0 < NUM_SPS_SUB_SLOT (ls_constants (tl_last_state self))"
  using assms constants_okD(1) by (auto simp: clock_ok_def)

lemma clock_ok_grows: "clock_ok cr self \<Longrightarrow> keeps_schedule self self' \<Longrightarrow> clock_ok cr self'"
  by (auto simp: clock_ok_def keeps_schedule_def)

section \<open>Resetting\<close>

definition blocks_in :: "NewUnfinishedBlockTimelord set \<Rightarrow> Timelord \<Rightarrow> bool" where
  "blocks_in B self \<longleftrightarrow> set (tl_unfinished_blocks self) \<union> set (tl_overflow_blocks self) \<subseteq> B"

definition same_news :: "Timelord \<Rightarrow> Timelord \<Rightarrow> bool" where
  "same_news self self' \<longleftrightarrow>
     tl_new_peak self' = tl_new_peak self \<and> tl_new_subslot_end self' = tl_new_subslot_end self \<and>
     tl_unfinished_blocks self' = tl_unfinished_blocks self \<and> tl_overflow_blocks self' = tl_overflow_blocks self"

lemma same_news_trans: "same_news a b \<Longrightarrow> same_news b d \<Longrightarrow> same_news a d"
  by (simp add: same_news_def)

lemma schedule_block_ok:
  assumes ok: "schedule_ok self" "clock_ok cr self" and kept: "\<forall>x\<in>set kept. scheduled cr self x \<and> x \<in> B" and b: "b \<in> B"
  shows "\<exists>self' kept'. schedule_block cr b (self, kept) = Ok (self', kept') \<and> schedule_ok self' \<and> keeps_schedule self self' \<and>
     same_news self self' \<and> (\<forall>x\<in>set kept'. scheduled cr self' x \<and> x \<in> B)"
proof -
  note k = clock_okD [OF ok(2)]
  from can_infuse_Ok [OF k(2), of b] k obtain r where
    r: "can_infuse_unfinished_block cr self b = Ok r" and
    i: "\<forall>i. r = Some i \<longrightarrow> position_ok (tl_last_state self) i INFUSION_POINT \<and> block_ip cr (tl_last_state self) b i"
    by (auto simp: block_ip_def)
  show ?thesis
  proof (cases "\<exists>i. r = Some i \<and> i \<notin> set (tl_iters_to_submit self CHALLENGE_CHAIN)")
    case True
    then obtain i where ri: "r = Some i" and new: "i \<notin> set (tl_iters_to_submit self CHALLENGE_CHAIN)" by blast
    let ?s = "if b \<notin> set (tl_unfinished_blocks self)
                         then self\<lparr>tl_total_unfinished := tl_total_unfinished self + 1\<rparr> else self"
    let ?t = "submit_to [REWARD_CHAIN, CHALLENGE_CHAIN] i ?s"
    let ?u = "if ls_deficit (tl_last_state ?t) < MIN_BLOCKS_PER_CHALLENGE_BLOCK (tl_constants ?t)
                         then submit_to [INFUSED_CHALLENGE_CHAIN] i ?t else ?t"
    let ?v = "set_proof_type i INFUSION_POINT ?u"
    have "adds_iter i self ?s" by (simp add: adds_iter_def subset_insertI)
    then have a: "adds_iter i self ?u" by (auto intro!: adds_submitted)
    have p: "position_ok (tl_last_state self) i INFUSION_POINT" using i ri by simp
    note g = add_grows [OF ok(1) a p k(2,3)]
    have n: "same_news self ?v" by (simp add: same_news_def set_proof_type_def submit_to_def)
    have "i \<in> set (tl_iters_to_submit ?v CHALLENGE_CHAIN)" "i \<in> set (tl_iters_to_submit ?v REWARD_CHAIN)"
      by (simp_all add: set_proof_type_def submit_to_def)
    moreover have "tl_last_state ?v = tl_last_state self" using g(1) by (simp add: keeps_schedule_def)
    ultimately have "scheduled cr ?v b" using g(2) i ri unfolding scheduled_def by auto
    then have "\<forall>x\<in>set (kept @ [b]). scheduled cr ?v x \<and> x \<in> B"
      using kept b scheduled_grows [OF _ g(1)] by auto
    moreover have "schedule_block cr b (self, kept) = Ok (?v, kept @ [b])"
      using r ri new by (simp add: schedule_block_def Let_def)
    ultimately show ?thesis using schedule_ok_add [OF ok(1) a p] g(1) n by blast
  next
    case False
    then have "schedule_block cr b (self, kept) = Ok (self, kept)"
      using r by (auto simp: schedule_block_def split: option.split)
    then show ?thesis using ok kept grows_refl [of self] by (auto simp: same_news_def)
  qed
qed

lemma schedule_blocks_ok:
  assumes "schedule_ok self" "clock_ok cr self" and "\<forall>x\<in>set kept. scheduled cr self x \<and> x \<in> B" and "set bs \<subseteq> B"
  shows "\<exists>self' kept'. rfold (schedule_block cr) bs (self, kept) = Ok (self', kept') \<and> schedule_ok self' \<and> keeps_schedule self self' \<and>
     same_news self self' \<and> (\<forall>x\<in>set kept'. scheduled cr self' x \<and> x \<in> B)"
  using assms
proof (induction bs arbitrary: self kept)
  case Nil
  then show ?case using grows_refl [of self] by (simp add: same_news_def)
next
  case (Cons b bs)
  then obtain s1 k1 where s1: "schedule_block cr b (self, kept) = Ok (s1, k1)" "schedule_ok s1" "keeps_schedule self s1"
    "same_news self s1" "\<forall>x\<in>set k1. scheduled cr s1 x \<and> x \<in> B"
    using schedule_block_ok [of self cr kept B b] by auto
  from Cons.IH [OF s1(2) clock_ok_grows [OF Cons.prems(2) s1(3)] s1(5)] Cons.prems(4) s1 show ?case
    using grows_trans same_news_trans by (simp, blast)
qed

lemma foldl_signage_ok:
  assumes "schedule_ok self" "clock_ok cr self" and "\<forall>p\<in>set ps. signage_ok (tl_last_state self) p"
  shows "\<exists>self'. foldl (\<lambda>self (signage, k).
        set_proof_type signage SIGNAGE_POINT (submit_to [CHALLENGE_CHAIN, REWARD_CHAIN] signage self)) self ps = self' \<and>
     schedule_ok self' \<and> keeps_schedule self self' \<and> same_news self self' \<and>
     (\<forall>p\<in>set ps. (fst p, SIGNAGE_POINT) \<in> set (tl_iteration_to_proof_type self') \<and>
        (\<forall>ch\<in>{CHALLENGE_CHAIN, REWARD_CHAIN}. fst p \<in> set (tl_iters_to_submit self' ch)))"
  using assms
proof (induction ps arbitrary: self)
  case Nil
  then show ?case using grows_refl [of self] by (simp add: same_news_def)
next
  case (Cons p ps)
  obtain i k where p: "p = (i, k)" by (cases p)
  let ?s = "set_proof_type i SIGNAGE_POINT (submit_to [CHALLENGE_CHAIN, REWARD_CHAIN] i self)"
  have pos: "position_ok (tl_last_state self) i SIGNAGE_POINT" using Cons.prems(3) p by (auto intro: position_okI)
  note c = clock_okD [OF Cons.prems(2)]
  note g = add_grows [OF Cons.prems(1) adds_submit pos c(2,3)]
  have l: "tl_last_state ?s = tl_last_state self" using g(1) by (simp add: keeps_schedule_def)
  have n: "same_news self ?s" by (simp add: same_news_def set_proof_type_def submit_to_def)
  from Cons.IH [OF schedule_ok_add [OF Cons.prems(1) adds_submit pos] clock_ok_grows [OF Cons.prems(2) g(1)]] Cons.prems(3) l
  obtain s' where s': "foldl (\<lambda>self (signage, k).
        set_proof_type signage SIGNAGE_POINT (submit_to [CHALLENGE_CHAIN, REWARD_CHAIN] signage self)) ?s ps = s'"
    "schedule_ok s'" "keeps_schedule ?s s'" "same_news ?s s'" and
    q: "\<forall>p\<in>set ps. (fst p, SIGNAGE_POINT) \<in> set (tl_iteration_to_proof_type s') \<and>
        (\<forall>ch\<in>{CHALLENGE_CHAIN, REWARD_CHAIN}. fst p \<in> set (tl_iters_to_submit s' ch))" by auto
  have "(i, SIGNAGE_POINT) \<in> set (tl_iteration_to_proof_type s')" using g(2) s'(3) by (auto simp: keeps_schedule_def)
  moreover have "i \<in> set (tl_iters_to_submit s' ch)" if "ch \<in> {CHALLENGE_CHAIN, REWARD_CHAIN}" for ch
    using that g(3) [of ch "[CHALLENGE_CHAIN, REWARD_CHAIN]"] s'(3) by (auto simp: keeps_schedule_def)
  ultimately show ?case
    using s' q grows_trans [OF g(1) s'(3)] same_news_trans [OF n s'(4)] by (auto simp: p)
qed

lemma signage_schedule_ok:
  assumes "clock_ok cr self"
  shows "\<forall>p\<in>set (signage_schedule (tl_constants self)
      (ls_sub_slot_iters (tl_last_state self) div NUM_SPS_SUB_SLOT (tl_constants self)) (ls_last_ip (tl_last_state self))).
      signage_ok (tl_last_state self) p"
  using clock_okD(1) [OF assms] by (auto simp: signage_schedule_def signage_ok_def)

lemma rfold_assert: "(\<And>x. x \<in> set xs \<Longrightarrow> P x) \<Longrightarrow> rfold (\<lambda>x _. py_assert (P x)) xs () = Ok ()"
  by (induction xs) auto

text \<open>The state the schedule is built from.\<close>

definition cleared :: "int \<Rightarrow> Timelord \<Rightarrow> Timelord" where
  "cleared per self =
     self\<lparr>tl_signage_point_iters := signage_schedule (tl_constants self) per (ls_last_ip (tl_last_state self)),
          tl_iters_finished := {}, tl_proofs_finished := [], tl_num_resets := tl_num_resets self + 1,
          tl_iters_to_submit := (tl_iters_to_submit self)
            (CHALLENGE_CHAIN := [], REWARD_CHAIN := [], INFUSED_CHALLENGE_CHAIN := []),
          tl_iters_submitted := (tl_iters_submitted self)
            (CHALLENGE_CHAIN := [], REWARD_CHAIN := [], INFUSED_CHALLENGE_CHAIN := []),
          tl_iteration_to_proof_type := []\<rparr>"

definition add_slot_end :: "Timelord \<Rightarrow> Timelord" where
  "add_slot_end self =
     (let ls = tl_last_state self; left = ls_sub_slot_iters ls - ls_last_ip ls;
          self = (if ls_deficit ls < MIN_BLOCKS_PER_CHALLENGE_BLOCK (tl_constants self)
                  then submit_to [INFUSED_CHALLENGE_CHAIN] left self else self) in
      set_proof_type left END_OF_SUBSLOT (submit_to [CHALLENGE_CHAIN, REWARD_CHAIN] left self))"

lemma add_slot_end_ok:
  assumes "schedule_ok self" "clock_ok cr self"
  shows "schedule_ok (add_slot_end self)" "keeps_schedule self (add_slot_end self)" "same_news self (add_slot_end self)"
    "let left = ls_sub_slot_iters (tl_last_state self) - ls_last_ip (tl_last_state self) in
     (left, END_OF_SUBSLOT) \<in> set (tl_iteration_to_proof_type (add_slot_end self)) \<and>
     (\<forall>ch\<in>{CHALLENGE_CHAIN, REWARD_CHAIN}. left \<in> set (tl_iters_to_submit (add_slot_end self) ch)) \<and>
     (ls_deficit (tl_last_state self) < MIN_BLOCKS_PER_CHALLENGE_BLOCK (tl_constants self) \<longrightarrow>
        left \<in> set (tl_iters_to_submit (add_slot_end self) INFUSED_CHALLENGE_CHAIN))"
proof -
  let ?left = "ls_sub_slot_iters (tl_last_state self) - ls_last_ip (tl_last_state self)"
  let ?t = "submit_to [CHALLENGE_CHAIN, REWARD_CHAIN] ?left (if ls_deficit (tl_last_state self)
        < MIN_BLOCKS_PER_CHALLENGE_BLOCK (tl_constants self) then submit_to [INFUSED_CHALLENGE_CHAIN] ?left self else self)"
  have a: "adds_iter ?left self ?t" by (auto intro!: adds_submitted adds_refl)
  have e: "add_slot_end self = set_proof_type ?left END_OF_SUBSLOT ?t" by (simp add: add_slot_end_def Let_def)
  note c = clock_okD [OF assms(2)]
  note g = add_grows [OF assms(1) a position_okI(2) c(2,3)]
  show "schedule_ok (add_slot_end self)" unfolding e by (rule schedule_ok_add [OF assms(1) a position_okI(2)])
  show "keeps_schedule self (add_slot_end self)" unfolding e by (rule g(1))
  show "same_news self (add_slot_end self)" by (simp add: e same_news_def set_proof_type_def submit_to_def)
  show "let left = ?left in (left, END_OF_SUBSLOT) \<in> set (tl_iteration_to_proof_type (add_slot_end self)) \<and>
     (\<forall>ch\<in>{CHALLENGE_CHAIN, REWARD_CHAIN}. left \<in> set (tl_iters_to_submit (add_slot_end self) ch)) \<and>
     (ls_deficit (tl_last_state self) < MIN_BLOCKS_PER_CHALLENGE_BLOCK (tl_constants self) \<longrightarrow>
        left \<in> set (tl_iters_to_submit (add_slot_end self) INFUSED_CHALLENGE_CHAIN))"
    using g(2) unfolding e Let_def by (auto simp: set_proof_type_def submit_to_def)
qed

lemma schedule_positive:
  assumes "schedule_ok self" "clock_ok cr self" and "ch \<noteq> BLUEBOX" and "i \<in> set (tl_iters_to_submit self ch)"
  shows "0 < i" "i \<le> ls_sub_slot_iters (tl_last_state self) - ls_last_ip (tl_last_state self)"
proof -
  obtain t where "(i, t) \<in> set (tl_iteration_to_proof_type self)" using assms(1,3,4) by (force simp: schedule_ok_def)
  then have "position_ok (tl_last_state self) i t" using assms(1) by (auto simp: schedule_ok_def)
  from position_bounds(1,2) [OF this clock_okD(2,3) [OF assms(2)]]
  show "0 < i" "i \<le> ls_sub_slot_iters (tl_last_state self) - ls_last_ip (tl_last_state self)" by auto
qed

lemma cleared_ok:
  assumes "clock_ok cr self"
  defines "s0 \<equiv> cleared (ls_sub_slot_iters (tl_last_state self) div NUM_SPS_SUB_SLOT (tl_constants self)) self"
  shows "schedule_ok s0" "clock_ok cr s0" "tl_last_state s0 = tl_last_state self" "tl_constants s0 = tl_constants self"
    "tl_signage_point_iters s0 = signage_schedule (tl_constants self)
       (ls_sub_slot_iters (tl_last_state self) div NUM_SPS_SUB_SLOT (tl_constants self)) (ls_last_ip (tl_last_state self))"
    "same_news self s0"
proof -
  have "ch = BLUEBOX \<or> ch \<in> {CHALLENGE_CHAIN, REWARD_CHAIN, INFUSED_CHALLENGE_CHAIN}" for ch by (cases ch) auto
  then have "set (tl_iters_to_submit s0 ch) = {}" if "ch \<noteq> BLUEBOX" for ch using that by (auto simp: s0_def cleared_def)
  then show "schedule_ok s0"
    using signage_schedule_ok [OF assms(1)] by (simp add: schedule_ok_def) (simp add: s0_def cleared_def)
  show "clock_ok cr s0" using assms(1) by (auto simp: clock_ok_def s0_def cleared_def)
qed (simp_all add: s0_def cleared_def same_news_def)

lemma reset_chains_ok:
  assumes ok: "clock_ok cr self" and B: "blocks_in B self"
  shows "\<exists>self'. reset_chains cr only_eos self = Ok self' \<and> schedule_ok self' \<and> clock_ok cr self' \<and>
     tl_constants self' = tl_constants self \<and> tl_last_state self' = tl_last_state self \<and> blocks_in B self' \<and>
     tl_new_peak self' = tl_new_peak self \<and> tl_new_subslot_end self' = tl_new_subslot_end self \<and>
     (\<forall>b\<in>set (tl_unfinished_blocks self'). scheduled cr self' b) \<and>
     (let left = ls_sub_slot_iters (tl_last_state self) - ls_last_ip (tl_last_state self) in
      (left, END_OF_SUBSLOT) \<in> set (tl_iteration_to_proof_type self') \<and>
      (\<forall>ch\<in>{CHALLENGE_CHAIN, REWARD_CHAIN}. left \<in> set (tl_iters_to_submit self' ch)) \<and>
      (ls_deficit (tl_last_state self) < MIN_BLOCKS_PER_CHALLENGE_BLOCK (tl_constants self) \<longrightarrow>
         left \<in> set (tl_iters_to_submit self' INFUSED_CHALLENGE_CHAIN))) \<and>
     (\<not> only_eos \<longrightarrow> (\<forall>p\<in>set (take 3 (tl_signage_point_iters self')).
        (fst p, SIGNAGE_POINT) \<in> set (tl_iteration_to_proof_type self') \<and>
        (\<forall>ch\<in>{CHALLENGE_CHAIN, REWARD_CHAIN}. fst p \<in> set (tl_iters_to_submit self' ch))))"
proof -
  let ?c = "tl_constants self" and ?ls = "tl_last_state self"
  let ?per = "ls_sub_slot_iters ?ls div NUM_SPS_SUB_SLOT ?c"
  let ?sps = "signage_schedule ?c ?per (ls_last_ip ?ls)"
  note k = clock_okD [OF ok]
  have ssi: "ssi_ok ?c (ls_sub_slot_iters ?ls)" and left: "ls_last_ip ?ls < ls_sub_slot_iters ?ls"
    using k(2) by (simp_all add: ls_ok_def k(1))
  note per = ssi_ok_parts [OF ssi, unfolded k(1), OF k(3)]
  have u: "uint64 ?per = Ok ?per" using per(1) ssi by (simp add: ssi_ok_def k(1))
  have q: "py_floordiv (ls_sub_slot_iters ?ls) (NUM_SPS_SUB_SLOT ?c) = Ok ?per" using k(1,3) by simp
  have sps: "\<forall>p\<in>set ?sps. signage_ok ?ls p" by (rule signage_schedule_ok [OF ok])
  have "rfold (\<lambda>p _. py_assert (snd p * ?per > 0 \<and> snd p * ?per < ls_sub_slot_iters ?ls)) ?sps () = Ok ()"
  proof (rule rfold_assert)
    fix p assume "p \<in> set ?sps"
    then have "1 \<le> snd p" "snd p < NUM_SPS_SUB_SLOT (ls_constants ?ls)" using sps by (auto simp: signage_ok_def)
    then show "snd p * ?per > 0 \<and> snd p * ?per < ls_sub_slot_iters ?ls"
      using interval_ends [OF k(2,3)] per(1) k(1) by simp
  qed
  then have asserts: "rfold (\<lambda>(_, k) _. py_assert (k * ?per > 0 \<and> k * ?per < ls_sub_slot_iters ?ls)) ?sps () = Ok ()"
    by (simp add: case_prod_beta')
  let ?s0 = "cleared ?per self"
  note s0 = cleared_ok [OF ok]
  have "\<exists>s1 kept. (if only_eos then Ok (?s0, [])
             else rfold (schedule_block cr) (tl_unfinished_blocks ?s0 @ tl_overflow_blocks ?s0) (?s0, [])) = Ok (s1, kept) \<and>
     schedule_ok s1 \<and> keeps_schedule ?s0 s1 \<and> same_news ?s0 s1 \<and> (\<forall>x\<in>set kept. scheduled cr s1 x \<and> x \<in> B)"
  proof (cases only_eos)
    case True
    then show ?thesis using s0 grows_refl by (simp add: same_news_def)
  next
    case False
    have "set (tl_unfinished_blocks ?s0 @ tl_overflow_blocks ?s0) \<subseteq> B"
      using B s0(6) by (simp add: blocks_in_def same_news_def)
    from schedule_blocks_ok [OF s0(1,2) _ this, of "[]"] False show ?thesis by simp
  qed
  then obtain s1 kept where s1: "(if only_eos then Ok (?s0, [])
             else rfold (schedule_block cr) (tl_unfinished_blocks ?s0 @ tl_overflow_blocks ?s0) (?s0, [])) = Ok (s1, kept)"
    "schedule_ok s1" "keeps_schedule ?s0 s1" "same_news ?s0 s1" and kept: "\<forall>x\<in>set kept. scheduled cr s1 x \<and> x \<in> B" by blast
  let ?s2 = "s1\<lparr>tl_unfinished_blocks := kept\<rparr>"
  have s2: "schedule_ok ?s2" "keeps_schedule s1 ?s2" using s1(2) by (simp_all add: schedule_ok_def keeps_schedule_def)
  have g2: "keeps_schedule ?s0 ?s2" by (rule grows_trans [OF s1(3) s2(2)])
  note c2 = clock_ok_grows [OF s0(2) g2]
  define x3 where "x3 = (if only_eos then ?s2 else schedule_signage ?sps ?s2)"
  have l2: "tl_last_state ?s2 = ?ls" using g2 s0(3) by (simp add: keeps_schedule_def)
  have s3: "schedule_ok x3" "keeps_schedule ?s2 x3" "same_news ?s2 x3"
    "\<not> only_eos \<longrightarrow> (\<forall>p\<in>set (take 3 ?sps). (fst p, SIGNAGE_POINT) \<in> set (tl_iteration_to_proof_type x3) \<and>
        (\<forall>ch\<in>{CHALLENGE_CHAIN, REWARD_CHAIN}. fst p \<in> set (tl_iters_to_submit x3 ch)))"
    using foldl_signage_ok [OF s2(1) c2, of "take 3 ?sps"] sps s2(1) grows_refl [of ?s2] l2
    unfolding x3_def by (auto simp: schedule_signage_def same_news_def dest: in_set_takeD)
  note c3 = clock_ok_grows [OF c2 s3(2)]
  have g3: "keeps_schedule ?s0 x3" by (rule grows_trans [OF g2 s3(2)])
  define x4 where "x4 = add_slot_end x3"
  note s4 = add_slot_end_ok [OF s3(1) c3, folded x4_def]
  note c4 = clock_ok_grows [OF c3 s4(2)]
  have g4: "keeps_schedule ?s0 x4" by (rule grows_trans [OF g3 s4(2)])
  have l: "tl_last_state x3 = ?ls" "tl_constants x3 = ?c" "tl_last_state x4 = ?ls" "tl_constants x4 = ?c"
    "tl_signage_point_iters x4 = ?sps"
    using g3 g4 s0(3-5) by (simp_all add: keeps_schedule_def)
  have n: "same_news ?s2 x4" by (rule same_news_trans [OF s3(3) s4(3)])
  have sig: "\<not> only_eos \<longrightarrow> (\<forall>p\<in>set (take 3 ?sps). (fst p, SIGNAGE_POINT) \<in> set (tl_iteration_to_proof_type x4) \<and>
        (\<forall>ch\<in>{CHALLENGE_CHAIN, REWARD_CHAIN}. fst p \<in> set (tl_iters_to_submit x4 ch)))"
    using s3(4) s4(2) unfolding keeps_schedule_def by blast
  have pos: "\<forall>ch\<in>{CHALLENGE_CHAIN, REWARD_CHAIN, INFUSED_CHALLENGE_CHAIN}. \<forall>i\<in>set (tl_iters_to_submit x4 ch). i > 0"
  proof (intro ballI)
    fix ch i assume "ch \<in> {CHALLENGE_CHAIN, REWARD_CHAIN, INFUSED_CHALLENGE_CHAIN}" "i \<in> set (tl_iters_to_submit x4 ch)"
    then show "0 < i" using schedule_positive(1) [OF s4(1) c4, of ch i] by blast
  qed
  have "reset_chains cr only_eos self = Ok x4"
  proof -
    have "reset_chains cr only_eos self
        = rbind (if only_eos then Ok (?s0, [])
             else rfold (schedule_block cr) (tl_unfinished_blocks ?s0 @ tl_overflow_blocks ?s0) (?s0, []))
            (\<lambda>(s, kept).
              let s = s\<lparr>tl_unfinished_blocks := kept\<rparr>; s = (if only_eos then s else schedule_signage ?sps s) in
              rbind (py_assert (ls_sub_slot_iters ?ls - ls_last_ip ?ls > 0)) (\<lambda>_.
              let self = (if ls_deficit ?ls < MIN_BLOCKS_PER_CHALLENGE_BLOCK ?c
                  then submit_to [INFUSED_CHALLENGE_CHAIN] (ls_sub_slot_iters ?ls - ls_last_ip ?ls) s else s);
                  self = set_proof_type (ls_sub_slot_iters ?ls - ls_last_ip ?ls) END_OF_SUBSLOT
                    (submit_to [CHALLENGE_CHAIN, REWARD_CHAIN] (ls_sub_slot_iters ?ls - ls_last_ip ?ls) self) in
              rbind (py_assert (\<forall>ch\<in>{CHALLENGE_CHAIN, REWARD_CHAIN, INFUSED_CHALLENGE_CHAIN}.
                          \<forall>i\<in>set (tl_iters_to_submit self ch). i > 0)) (\<lambda>_. Ok self)))"
      unfolding reset_chains_def Let_def q rbind_Ok u asserts cleared_def by (rule refl)
    also have "\<dots> = Ok x4"
      unfolding s1(1) rbind_Ok prod.case Let_def using left pos l unfolding x4_def add_slot_end_def Let_def x3_def by simp
    finally show ?thesis .
  qed
  moreover have "\<forall>b\<in>set (tl_unfinished_blocks x4). scheduled cr x4 b" "blocks_in B x4"
    "tl_new_peak x4 = tl_new_peak self" "tl_new_subslot_end x4 = tl_new_subslot_end self"
    using kept scheduled_grows [OF _ grows_trans [OF s2(2) grows_trans [OF s3(2) s4(2)]]] n s1(4) s0(6) B
    by (auto simp: same_news_def blocks_in_def)
  ultimately show ?thesis
    using s4(1,4) c4 l s3(4) sig by (intro exI [of _ x4]) (simp add: Let_def)
qed

end
