(* ===== verification/Timelord_Steps.thy ===== *)
theory Timelord_Steps
  imports Timelord_Schedule
begin

text \<open>
  A timelord as a transition system. The steps are the messages it receives from full nodes and VDF clients and the
  parts of a round of \<^verbatim>\<open>_manage_chains\<close>, in any order, so that every interleaving its lock allows is among them.
  The invariant \<open>tl_ok\<close> says that the last state is consistent, that the schedule is, and that every block
  waiting to be infused is scheduled.
\<close>

section \<open>What a timelord relies on\<close>

text \<open>The summaries that full nodes send set sub-slot iterations that fit the signage points.\<close>

definition summary_ok :: "ConsensusConstants \<Rightarrow> SubEpochSummary option \<Rightarrow> bool" where
  "summary_ok c s \<longleftrightarrow>
     (\<forall>ssi. Option.bind s ses_new_difficulty \<noteq> None \<and> Option.bind s ses_new_sub_slot_iters = Some ssi \<longrightarrow> ssi_ok c ssi)"

definition waiting_ok :: "ConsensusConstants \<Rightarrow> Timelord \<Rightarrow> bool" where
  "waiting_ok c self \<longleftrightarrow>
     summary_ok c (ls_sub_epoch_summary (tl_last_state self)) \<and>
     (\<forall>p. tl_new_peak self = Some p \<longrightarrow> summary_ok c (npt_sub_epoch_summary p)) \<and>
     blocks_in {b. summary_ok c (nub_sub_epoch_summary b)} self"

definition tl_ok :: "crypto \<Rightarrow> ConsensusConstants \<Rightarrow> Timelord \<Rightarrow> bool" where
  "tl_ok cr c self \<longleftrightarrow>
     tl_constants self = c \<and> clock_ok cr self \<and> schedule_ok self \<and> waiting_ok c self \<and>
     tl_new_subslot_end self = None \<and> (\<forall>b\<in>set (tl_unfinished_blocks self). scheduled cr self b)"

lemma tl_okD:
  assumes "tl_ok cr c self"
  shows "tl_constants self = c" "clock_ok cr self" "schedule_ok self" "waiting_ok c self"
    "tl_new_subslot_end self = None"
  using assms by (simp_all add: tl_ok_def)

text \<open>The bookkeeping of proofs and numbers is no part of it.\<close>

lemma tl_ok_update [simp]:
  "tl_ok cr c (self\<lparr>tl_iters_finished := a\<rparr>) = tl_ok cr c self"
  "tl_ok cr c (self\<lparr>tl_iters_submitted := f\<rparr>) = tl_ok cr c self"
  "tl_ok cr c (self\<lparr>tl_proofs_finished := ps\<rparr>) = tl_ok cr c self"
  "tl_ok cr c (self\<lparr>tl_vdf_failures := fs\<rparr>) = tl_ok cr c self"
  by (simp_all add: tl_ok_def clock_ok_def schedule_ok_def waiting_ok_def blocks_in_def scheduled_def)

lemma tl_ok_new_peak:
  assumes "tl_ok cr c self" and "summary_ok c (npt_sub_epoch_summary p)"
  shows "tl_ok cr c (self\<lparr>tl_new_peak := Some p\<rparr>)" "tl_ok cr c (self\<lparr>tl_new_peak := Some p, tl_new_subslot_end := None\<rparr>)"
proof -
  have *: "clock_ok cr (self\<lparr>tl_new_peak := Some p\<rparr>) = clock_ok cr self"
    "schedule_ok (self\<lparr>tl_new_peak := Some p\<rparr>) = schedule_ok self"
    "scheduled cr (self\<lparr>tl_new_peak := Some p\<rparr>) b = scheduled cr self b"
    "clock_ok cr (self\<lparr>tl_new_peak := Some p, tl_new_subslot_end := None\<rparr>) = clock_ok cr self"
    "schedule_ok (self\<lparr>tl_new_peak := Some p, tl_new_subslot_end := None\<rparr>) = schedule_ok self"
    "scheduled cr (self\<lparr>tl_new_peak := Some p, tl_new_subslot_end := None\<rparr>) b = scheduled cr self b" for b
    by (simp_all add: clock_ok_def schedule_ok_def scheduled_def)
  show "tl_ok cr c (self\<lparr>tl_new_peak := Some p\<rparr>)" "tl_ok cr c (self\<lparr>tl_new_peak := Some p, tl_new_subslot_end := None\<rparr>)"
    using assms unfolding tl_ok_def * waiting_ok_def blocks_in_def by simp_all
qed

lemma tl_ok_grows:
  assumes "tl_ok cr c self" and "schedule_ok self'" "keeps_schedule self self'" "same_news self self'"
  shows "tl_ok cr c self'"
  using assms clock_ok_grows [OF _ assms(3)] scheduled_grows [OF _ assms(3)]
  unfolding tl_ok_def waiting_ok_def blocks_in_def same_news_def by (simp add: keeps_schedule_def)

lemma reset_chains_tl_ok:
  assumes "clock_ok cr self" and "waiting_ok c self" and "tl_constants self = c" and "tl_new_subslot_end self = None"
  shows "\<exists>self'. reset_chains cr only_eos self = Ok self' \<and> tl_ok cr c self' \<and> tl_last_state self' = tl_last_state self"
proof -
  have "blocks_in {b. summary_ok c (nub_sub_epoch_summary b)} self" using assms(2) by (simp add: waiting_ok_def)
  from reset_chains_ok [OF assms(1) this, of only_eos] obtain self' where
    "reset_chains cr only_eos self = Ok self'" "schedule_ok self'" "clock_ok cr self'"
    "tl_constants self' = tl_constants self" "tl_last_state self' = tl_last_state self"
    "blocks_in {b. summary_ok c (nub_sub_epoch_summary b)} self'" "tl_new_peak self' = tl_new_peak self"
    "tl_new_subslot_end self' = tl_new_subslot_end self" "\<forall>b\<in>set (tl_unfinished_blocks self'). scheduled cr self' b"
    by blast
  with assms show ?thesis unfolding tl_ok_def waiting_ok_def by auto
qed

section \<open>New states\<close>

definition counts_only :: "Timelord \<Rightarrow> Timelord \<Rightarrow> bool" where
  "counts_only self u \<longleftrightarrow>
     tl_constants u = tl_constants self \<and> tl_last_state u = tl_last_state self \<and> same_news self u"

lemma counts_only_refl: "counts_only self self"
  by (simp add: counts_only_def same_news_def)

lemma drop_infused_fold:
  assumes "rfold (drop_infused cr peak) bs (self, infused) = Ok (self', infused')"
  shows "counts_only self self'"
proof -
  have "counts_only self (fst (self', infused'))"
  proof (rule rfold_invariant [OF assms])
    show "counts_only self (fst (self, infused))" by (simp add: counts_only_refl)
  next
    fix b u v assume "counts_only self (fst u)" "drop_infused cr peak b u = Ok v"
    then show "counts_only self (fst v)"
      by (cases u) (auto simp: drop_infused_def counts_only_def same_news_def split: if_splits)
  qed
  then show ?thesis by simp
qed

lemma foldl_remove1_subset: "set (foldl (\<lambda>bs b. remove1 b bs) xs ys) \<subseteq> set xs"
proof (induction ys arbitrary: xs)
  case (Cons y ys)
  show ?case using subset_trans [OF Cons.IH [of "remove1 y xs"] set_remove1_subset] by simp
qed simp

lemma handle_new_peak_ok:
  assumes ok: "tl_ok cr c self" and h: "handle_new_peak cr self = Ok self'"
  shows "tl_ok cr c self'"
proof -
  note d = tl_okD [OF ok]
  from h obtain peak ls s1 where
    peak: "tl_new_peak self = Some peak" and ls: "set_peak_state cr (tl_last_state self) peak = Ok ls" and
    s1: "(if tl_total_unfinished self > 0 then
              rbind (rfold (drop_infused cr peak) (tl_unfinished_blocks (self\<lparr>tl_last_state := ls\<rparr>) @
                tl_overflow_blocks (self\<lparr>tl_last_state := ls\<rparr>)) (self\<lparr>tl_last_state := ls\<rparr>, []))
                (\<lambda>(self, infused).
                  Ok (self\<lparr>tl_total_infused := tl_total_infused self + (if infused \<noteq> [] then 1 else 0),
                           tl_unfinished_blocks := foldl (\<lambda>bs b. remove1 b bs) (tl_unfinished_blocks self) infused,
                           tl_overflow_blocks := foldl (\<lambda>bs b. remove1 b bs) (tl_overflow_blocks self) infused\<rparr>))
            else Ok (self\<lparr>tl_last_state := ls\<rparr>)) = Ok s1" and
    r: "reset_chains cr False (s1\<lparr>tl_new_peak := None\<rparr>) = Ok self'"
    unfolding handle_new_peak_def Let_def by (elim rbind_OkE) (auto simp del: rbind_eq_Ok)
  have s1': "tl_last_state s1 = ls \<and> tl_constants s1 = tl_constants self \<and> tl_new_subslot_end s1 = None \<and>
      set (tl_unfinished_blocks s1) \<subseteq> set (tl_unfinished_blocks self) \<and>
      set (tl_overflow_blocks s1) \<subseteq> set (tl_overflow_blocks self)"
  proof (cases "tl_total_unfinished self > 0")
    case True
    then obtain s0 infused where s0: "rfold (drop_infused cr peak) (tl_unfinished_blocks self @ tl_overflow_blocks self)
                (self\<lparr>tl_last_state := ls\<rparr>, []) = Ok (s0, infused)" and
      e: "s1 = s0\<lparr>tl_total_infused := tl_total_infused s0 + (if infused \<noteq> [] then 1 else 0),
                           tl_unfinished_blocks := foldl (\<lambda>bs b. remove1 b bs) (tl_unfinished_blocks s0) infused,
                           tl_overflow_blocks := foldl (\<lambda>bs b. remove1 b bs) (tl_overflow_blocks s0) infused\<rparr>"
      using s1 by auto
    have "counts_only (self\<lparr>tl_last_state := ls\<rparr>) s0" by (rule drop_infused_fold [OF s0])
    then show ?thesis unfolding e using d(5)
        foldl_remove1_subset [of "tl_unfinished_blocks self"] foldl_remove1_subset [of "tl_overflow_blocks self"]
      by (simp add: counts_only_def same_news_def)
  next
    case False
    then show ?thesis using s1 d(5) by auto
  qed
  have c: "constants_ok (ls_constants (tl_last_state self))" using d(2) by (auto simp: clock_ok_def)
  note sp = set_peak_state_ok [OF ls c]
  let ?s = "s1\<lparr>tl_new_peak := None\<rparr>"
  have "clock_ok cr ?s" using d(2) s1' sp(1,2) by (auto simp: clock_ok_def)
  moreover have "waiting_ok c ?s"
    using d(4) s1' sp(6) peak unfolding waiting_ok_def blocks_in_def by auto
  ultimately show ?thesis using reset_chains_tl_ok [of cr ?s c False] r s1' d(1) by auto
qed

lemma handle_subslot_end_ok:
  assumes clock: "clock_ok cr self" and w: "waiting_ok c self" and c: "tl_constants self = c"
    and eos: "tl_new_subslot_end self = Some eos" "slot_ssi_ok c eos" and h: "handle_subslot_end cr self = Ok self'"
  shows "tl_ok cr c self'" "set_eos_state cr (tl_last_state self) eos = Ok (tl_last_state self')"
proof -
  from h obtain ls s1 where ls: "set_eos_state cr (tl_last_state self) eos = Ok ls" and
    f: "rfold (\<lambda>block self.
              rbind (can_infuse_unfinished_block cr self block) (\<lambda>i.
                Ok (if i \<noteq> None then self\<lparr>tl_total_unfinished := tl_total_unfinished self + 1\<rparr> else self)))
              (tl_unfinished_blocks self) (self\<lparr>tl_last_state := ls\<rparr>) = Ok s1" and
    r: "reset_chains cr False (s1\<lparr>tl_new_subslot_end := None\<rparr>) = Ok self'"
    unfolding handle_subslot_end_def Let_def eos(1) by (auto simp del: rbind_eq_Ok elim!: rbind_OkE)
  have "counts_only (self\<lparr>tl_last_state := ls\<rparr>) s1"
    by (rule rfold_invariant [OF f]) (auto simp: counts_only_def same_news_def split: if_splits)
  then have s1: "tl_last_state s1 = ls" "tl_constants s1 = tl_constants self" "tl_new_peak s1 = tl_new_peak self"
    "tl_unfinished_blocks s1 = tl_unfinished_blocks self" "tl_overflow_blocks s1 = tl_overflow_blocks self"
    by (simp_all add: counts_only_def same_news_def)
  have k: "constants_ok (ls_constants (tl_last_state self))" "ls_constants (tl_last_state self) = c"
    using clock c by (auto simp: clock_ok_def)
  have "ls_ok cr (tl_last_state self)" using clock by (simp add: clock_ok_def)
  note sp = set_eos_state_ok [OF ls k(1) this eos(2) [folded k(2)]]
  let ?s = "s1\<lparr>tl_new_subslot_end := None\<rparr>"
  have "clock_ok cr ?s" using clock sp(1,2) by (auto simp: clock_ok_def s1)
  moreover have "waiting_ok c ?s" using w sp(7) by (simp add: waiting_ok_def blocks_in_def s1)
  ultimately have "tl_ok cr c self' \<and> tl_last_state self' = ls"
    using reset_chains_tl_ok [of cr ?s c False] r c s1 by auto
  then show "tl_ok cr c self'" "set_eos_state cr (tl_last_state self) eos = Ok (tl_last_state self')" using ls by auto
qed

section \<open>Messages\<close>

text \<open>What full nodes are told: positions counted from the start of the sub-slot on the challenge chain, from the last
  state on the reward chain, whose challenge is the newest.\<close>

fun message_ok :: "crypto \<Rightarrow> LastState \<Rightarrow> NewUnfinishedBlockTimelord list \<Rightarrow> TimelordMessage \<Rightarrow> bool" where
  "message_ok cr ls bs (new_signage_point_vdf r) \<longleftrightarrow>
     (let k = nsp_index_from_challenge r; start = k * (ls_sub_slot_iters ls div NUM_SPS_SUB_SLOT (ls_constants ls)) in
      1 \<le> k \<and> k < NUM_SPS_SUB_SLOT (ls_constants ls) \<and> ls_last_ip ls < start \<and>
      number_of_iterations (nsp_challenge_chain_sp_vdf r) = start \<and>
      number_of_iterations (nsp_reward_chain_sp_vdf r) = start - ls_last_ip ls \<and>
      get_challenge cr ls REWARD_CHAIN = Ok (Some (vdf_challenge (nsp_reward_chain_sp_vdf r))))"
| "message_ok cr ls bs (new_infusion_point_vdf r) \<longleftrightarrow>
     (\<exists>b\<in>set bs. \<exists>sp ip ovf.
        iters_from_block cr (ls_constants ls) (nub_reward_chain_block b) (ls_sub_slot_iters ls) (ls_difficulty ls)
          = Ok (sp, ip) \<and> ls_last_ip ls < ip \<and>
        RewardChainBlockUnfinished_hash cr (nub_reward_chain_block b) = Ok (nip_unfinished_reward_hash r) \<and>
        number_of_iterations (nip_challenge_chain_ip_vdf r) = ip \<and>
        number_of_iterations (nip_reward_chain_ip_vdf r) = ip - ls_last_ip ls \<and>
        get_challenge cr ls REWARD_CHAIN = Ok (Some (vdf_challenge (nip_reward_chain_ip_vdf r))) \<and>
        is_overflow_block (ls_constants ls) (rcbu_signage_point_index (nub_reward_chain_block b)) = Ok ovf \<and>
        can_infuse_block ls ovf)"
| "message_ok cr ls bs (new_end_of_sub_slot_vdf e) \<longleftrightarrow>
     number_of_iterations (challenge_chain_end_of_slot_vdf (challenge_chain e)) = ls_sub_slot_iters ls \<and>
     number_of_iterations (end_of_slot_vdf (reward_chain e)) = ls_sub_slot_iters ls - ls_last_ip ls \<and>
     get_challenge cr ls REWARD_CHAIN = Ok (Some (vdf_challenge (end_of_slot_vdf (reward_chain e)))) \<and>
     rc_deficit (reward_chain e) = eos_deficit (ls_constants ls) ls \<and>
     ChallengeChainSubSlot_hash cr (challenge_chain e) = Ok (challenge_chain_sub_slot_hash (reward_chain e))"

lemma proof_for_iters:
  assumes "proof_for ch (proofs_with_iter i self) = Some (info, p)"
  shows "number_of_iterations info = i"
proof -
  have "(ch, info, p) \<in> set (proofs_with_iter i self)" using map_of_SomeD [OF assms [unfolded proof_for_def]] by simp
  then show ?thesis by (auto simp: proofs_with_iter_def)
qed

lemma clear_proof_list_ok [simp]:
  "tl_ok cr c (clear_proof_list i self) = tl_ok cr c self"
  "tl_last_state (clear_proof_list i self) = tl_last_state self"
  "tl_signage_point_iters (clear_proof_list i self) = tl_signage_point_iters self"
  "tl_constants (clear_proof_list i self) = tl_constants self"
  by (simp_all add: clear_proof_list_def)

section \<open>Signage points\<close>

lemma send_one_sp:
  assumes ok: "tl_ok cr c self" and sp: "signage_ok (tl_last_state self) (i, k)"
  defines "self' \<equiv> set_proof_type i SIGNAGE_POINT
          (foldl (\<lambda>self ch. if i \<notin> set (tl_iters_submitted self ch) \<and> i \<notin> set (tl_iters_to_submit self ch)
             then submit_to [ch] i self else self) self [CHALLENGE_CHAIN, REWARD_CHAIN])"
  shows "tl_ok cr c self'" "tl_last_state self' = tl_last_state self"
    "tl_signage_point_iters self' = tl_signage_point_iters self"
proof -
  let ?f = "\<lambda>self ch. if i \<notin> set (tl_iters_submitted self ch) \<and> i \<notin> set (tl_iters_to_submit self ch)
             then submit_to [ch] i self else self"
  let ?t = "foldl ?f self [CHALLENGE_CHAIN, REWARD_CHAIN]"
  have a: "adds_iter i self ?t" by (auto intro!: adds_submitted adds_refl)
  note d = tl_okD [OF ok] and p = position_okI(1) [OF sp]
  note g = add_grows(1) [OF d(3) a p clock_okD(2,3) [OF d(2)]]
  have "same_news self self'" by (simp add: self'_def same_news_def set_proof_type_def submit_to_def)
  then show "tl_ok cr c self'"
    unfolding self'_def by (rule tl_ok_grows [OF ok schedule_ok_add [OF d(3) a p] g])
  show "tl_last_state self' = tl_last_state self" "tl_signage_point_iters self' = tl_signage_point_iters self"
    using g by (simp_all add: keeps_schedule_def self'_def)
qed

lemma send_next_sps_ok:
  assumes "tl_ok cr c self"
  shows "tl_ok cr c (send_next_sps self)" "tl_last_state (send_next_sps self) = tl_last_state self"
    "tl_signage_point_iters (send_next_sps self) = tl_signage_point_iters self"
proof -
  let ?f = "\<lambda>self (next_sp, k). set_proof_type next_sp SIGNAGE_POINT
          (foldl (\<lambda>self ch. if next_sp \<notin> set (tl_iters_submitted self ch) \<and> next_sp \<notin> set (tl_iters_to_submit self ch)
             then submit_to [ch] next_sp self else self) self [CHALLENGE_CHAIN, REWARD_CHAIN])"
  have *: "tl_ok cr c (foldl ?f s ps) \<and> tl_last_state (foldl ?f s ps) = tl_last_state s \<and>
      tl_signage_point_iters (foldl ?f s ps) = tl_signage_point_iters s"
    if "tl_ok cr c s" "\<forall>p\<in>set ps. signage_ok (tl_last_state s) p" for s ps
    using that
  proof (induction ps arbitrary: s)
    case (Cons p ps)
    obtain i k where p: "p = (i, k)" by (cases p)
    have "signage_ok (tl_last_state s) (i, k)" using Cons.prems(2) p by simp
    note o = send_one_sp [OF Cons.prems(1) this]
    from Cons.IH [OF o(1)] Cons.prems(2) o(2,3) show ?case unfolding p foldl_Cons prod.case by simp
  qed simp
  have "\<forall>p\<in>set (take 3 (tl_signage_point_iters self)). signage_ok (tl_last_state self) p"
    using tl_okD(3) [OF assms] by (auto simp: schedule_ok_def dest: in_set_takeD)
  from * [OF assms this] show "tl_ok cr c (send_next_sps self)" "tl_last_state (send_next_sps self) = tl_last_state self"
    "tl_signage_point_iters (send_next_sps self) = tl_signage_point_iters self"
    by (simp_all add: send_next_sps_def)
qed

lemma sp_loop_ok:
  assumes "sp_loop cr sis iter sps self = Ok (r, msgs, self')" and "tl_ok cr c self"
    and "\<forall>p\<in>set sps. signage_ok (tl_last_state self) p"
  shows "tl_ok cr c self' \<and> tl_last_state self' = tl_last_state self \<and>
     (\<forall>m\<in>set msgs. message_ok cr (tl_last_state self) bs m)"
  using assms
proof (induction sps arbitrary: self)
  case Nil
  then show ?case by simp
next
  case (Cons p sps)
  obtain sp k where p: "p = (sp, k)" by (cases p)
  let ?dp = "proofs_with_iter sp self"
  have rest: ?case if "sp_loop cr sis iter sps s = Ok (r, msgs, self')" "tl_ok cr c s" "tl_last_state s = tl_last_state self" for s
    using Cons.IH [OF that(1,2)] Cons.prems(3) that(3) by simp
  show ?case
  proof (cases "sp \<notin> set sis \<or> sp \<noteq> iter \<or> length ?dp \<noteq> 2 \<or> proof_for CHALLENGE_CHAIN ?dp = None \<or>
      proof_for REWARD_CHAIN ?dp = None")
    case True
    then have "sp_loop cr sis iter sps self = Ok (r, msgs, self')"
      using Cons.prems(1) by (auto simp: p Let_def split: option.splits if_splits)
    then show ?thesis by (rule rest) (simp_all add: Cons.prems(2))
  next
    case False
    then obtain cc ccp rc rcp where cc: "proof_for CHALLENGE_CHAIN ?dp = Some (cc, ccp)"
      and rc: "proof_for REWARD_CHAIN ?dp = Some (rc, rcp)" by auto
    have si: "sp = iter" using False by simp
    note found = cc [unfolded si] rc [unfolded si]
    let ?s = "self\<lparr>tl_iters_finished := insert iter (tl_iters_finished self)\<rparr>"
    from False Cons.prems(1) obtain ch where ch: "get_challenge cr (tl_last_state self) REWARD_CHAIN = Ok ch"
      by (auto simp: p found Let_def)
    show ?thesis
    proof (cases "Some (vdf_challenge rc) = ch")
      case False': False
      then have "sp_loop cr sis iter sps ?s = Ok (r, msgs, self')"
        using Cons.prems(1) False by (auto simp: p si found Let_def ch)
      then show ?thesis by (rule rest) (simp_all add: Cons.prems(2))
    next
      case True
      then have e: "self' = send_next_sps (clear_proof_list sp ?s)" and
        m: "msgs = [new_signage_point_vdf \<lparr>nsp_index_from_challenge = k,
                      nsp_challenge_chain_sp_vdf = cc\<lparr>number_of_iterations :=
                        number_of_iterations cc + ls_last_ip (tl_last_state self)\<rparr>,
                      nsp_challenge_chain_sp_proof = ccp, nsp_reward_chain_sp_vdf = rc,
                      nsp_reward_chain_sp_proof = rcp\<rparr>]"
        using Cons.prems(1) False by (auto simp: p si found Let_def ch)
      have s: "tl_ok cr c (clear_proof_list sp ?s)" using Cons.prems(2) by simp
      have "signage_ok (tl_last_state self) (sp, k)" using Cons.prems(3) p by simp
      then have "\<forall>m\<in>set msgs. message_ok cr (tl_last_state self) bs m"
        using proof_for_iters [OF cc] proof_for_iters [OF rc] ch True by (simp add: m signage_ok_def Let_def)
      then show ?thesis using send_next_sps_ok [OF s] by (simp add: e)
    qed
  qed
qed

lemma remove_sp_ok:
  assumes "tl_ok cr c self"
  shows "tl_ok cr c (self\<lparr>tl_signage_point_iters := remove1 r (tl_signage_point_iters self)\<rparr>)"
  using assms notin_set_remove1 [of _ "tl_signage_point_iters self" r]
  unfolding tl_ok_def clock_ok_def schedule_ok_def waiting_ok_def blocks_in_def scheduled_def by auto

lemma check_for_new_sp_ok:
  assumes ok: "tl_ok cr c self" and ch: "check_for_new_sp cr iter self = Ok (msgs, self')"
  shows "tl_ok cr c self'" "m \<in> set msgs \<Longrightarrow> message_ok cr (tl_last_state self) (tl_unfinished_blocks self) m"
proof -
  have sps: "\<forall>p\<in>set (tl_signage_point_iters self). signage_ok (tl_last_state self) p"
    using tl_okD(3) [OF ok] by (simp add: schedule_ok_def)
  have "tl_ok cr c self' \<and> (\<forall>m\<in>set msgs. message_ok cr (tl_last_state self) (tl_unfinished_blocks self) m)"
  proof (cases "iters_of_type SIGNAGE_POINT self = []")
    case True
    then show ?thesis using ch ok by (simp add: check_for_new_sp_def Let_def)
  next
    case False
    then obtain r s where l: "sp_loop cr (iters_of_type SIGNAGE_POINT self) iter (tl_signage_point_iters self) self
        = Ok (r, msgs, s)" and
      e: "self' = (case r of None \<Rightarrow> s | Some r \<Rightarrow> s\<lparr>tl_signage_point_iters := remove1 r (tl_signage_point_iters s)\<rparr>)"
      using ch by (auto simp: check_for_new_sp_def Let_def)
    from sp_loop_ok [OF l ok sps] show ?thesis unfolding e using remove_sp_ok by (auto split: option.split)
  qed
  then show "tl_ok cr c self'" "m \<in> set msgs \<Longrightarrow> message_ok cr (tl_last_state self) (tl_unfinished_blocks self) m"
    by auto
qed

section \<open>Infusion points\<close>

lemma infused_blockD:
  assumes "infused_block cr c ls i bs seen = Ok (Some b, Some ip)"
  shows "b \<in> set bs" "ip - ls_last_ip ls = i"
    "\<exists>sp. iters_from_block cr c (nub_reward_chain_block b) (ls_sub_slot_iters ls) (ls_difficulty ls) = Ok (sp, ip)"
proof -
  have "b \<in> set bs \<and> ip - ls_last_ip ls = i \<and>
    (\<exists>sp. iters_from_block cr c (nub_reward_chain_block b) (ls_sub_slot_iters ls) (ls_difficulty ls) = Ok (sp, ip))"
    using assms
  proof (induction bs arbitrary: seen)
    case (Cons a bs)
    from Cons.prems show ?case
      by (cases "iters_from_block cr c (nub_reward_chain_block a) (ls_sub_slot_iters ls) (ls_difficulty ls)" rule: res_cases)
         (auto split: if_splits dest: Cons.IH)
  qed simp
  then show "b \<in> set bs" "ip - ls_last_ip ls = i"
    "\<exists>sp. iters_from_block cr c (nub_reward_chain_block b) (ls_sub_slot_iters ls) (ls_difficulty ls) = Ok (sp, ip)"
    by auto
qed

lemma infused_peak_summary:
  assumes "infused_peak c ls b ovf tot rcb = Ok p" and "summary_ok c (nub_sub_epoch_summary b)"
  shows "summary_ok c (npt_sub_epoch_summary p)"
  using assms by (auto simp: infused_peak_def Let_def summary_ok_def split: if_splits)

lemma scheduled_iteration:
  assumes ok: "tl_ok cr c self" and i: "i \<in> set (iters_of_type t self)"
  shows "position_ok (tl_last_state self) i t"
  using tl_okD(3) [OF ok] i by (auto simp: schedule_ok_def iters_of_type_def)

text \<open>What follows the message: with a full last state the timelord goes on from the block it made.\<close>

lemma check_for_new_ip_cases:
  assumes "check_for_new_ip cr iter self = Ok (msgs, self')" and "tl_constants self = c"
  obtains (nothing) "msgs = []" "self' = self \<or> (\<exists>f. self' = self\<lparr>tl_iters_finished := f\<rparr>)"
    | (infused) b ip rc rcp cc ccp icc h ovf s where
      "infused_block cr c (tl_last_state self) iter (tl_unfinished_blocks self) None = Ok (Some b, Some ip)"
      "RewardChainBlockUnfinished_hash cr (nub_reward_chain_block b) = Ok h"
      "proof_for REWARD_CHAIN (proofs_with_iter iter self) = Some (rc, rcp)"
      "get_challenge cr (tl_last_state self) REWARD_CHAIN = Ok (Some (vdf_challenge rc))"
      "is_overflow_block c (rcbu_signage_point_index (nub_reward_chain_block b)) = Ok ovf"
      "can_infuse_block (tl_last_state self) ovf" "iter \<in> set (iters_of_type INFUSION_POINT self)"
      "msgs = [new_infusion_point_vdf
                            \<lparr>nip_unfinished_reward_hash = h, nip_challenge_chain_ip_vdf = cc\<lparr>number_of_iterations := ip\<rparr>,
                             nip_challenge_chain_ip_proof = ccp, nip_reward_chain_ip_vdf = rc,
                             nip_reward_chain_ip_proof = rcp, nip_infused_challenge_chain_ip_vdf = map_option fst icc,
                             nip_infused_challenge_chain_ip_proof = map_option snd icc\<rparr>]"
      "s = clear_proof_list iter (self\<lparr>tl_iters_finished := insert iter (tl_iters_finished self)\<rparr>)"
      "self' = s \<or> (\<exists>tot rcb p. infused_peak c (tl_last_state self) b ovf tot rcb = Ok p \<and>
          handle_new_peak cr (s\<lparr>tl_new_peak := Some p\<rparr>) = Ok self')"
proof -
  let ?ls = "tl_last_state self" and ?dp = "proofs_with_iter iter self"
  let ?bs = "tl_unfinished_blocks self"
  show thesis
  proof (cases "?bs = [] \<or> iter \<notin> set (iters_of_type INFUSION_POINT self)")
    case True
    then show thesis using assms(1) by - (rule nothing, (auto simp: check_for_new_ip_def Let_def)+)
  next
    case go: False
    from assms(1) go obtain icch where icch: "get_challenge cr ?ls INFUSED_CHALLENGE_CHAIN = Ok icch"
      by (auto simp: check_for_new_ip_def Let_def)
    show thesis
    proof (cases "length ?dp \<noteq> (if icch \<noteq> None then 3 else 2)")
      case True
      then show thesis using assms(1) go icch by - (rule nothing, (auto simp: check_for_new_ip_def Let_def split: if_splits)+)
    next
      case len: False
      from assms go icch len obtain b0 ip where ib: "infused_block cr c ?ls iter ?bs None = Ok (b0, Some ip)"
        by (auto simp: check_for_new_ip_def Let_def)
      show thesis
      proof (cases b0)
        case None
        then show thesis using assms go icch len ib by - (rule nothing, (auto simp: check_for_new_ip_def Let_def)+)
      next
        case (Some b)
        from assms go icch len ib Some obtain h where
          h: "RewardChainBlockUnfinished_hash cr (nub_reward_chain_block b) = Ok h"
          by (auto simp: check_for_new_ip_def Let_def)
        note start = assms(1) [unfolded check_for_new_ip_def Let_def assms(2)] go icch len ib Some h
        show thesis
        proof (cases "proof_for CHALLENGE_CHAIN ?dp = None \<or> proof_for REWARD_CHAIN ?dp = None")
          case True
          then show thesis using start by - (rule nothing, (auto split: option.splits)+)
        next
          case False
          then obtain cc ccp rc rcp where cc: "proof_for CHALLENGE_CHAIN ?dp = Some (cc, ccp)"
            and rc: "proof_for REWARD_CHAIN ?dp = Some (rc, rcp)" by auto
          from start cc rc obtain ch where ch: "get_challenge cr ?ls REWARD_CHAIN = Ok ch" by auto
          show thesis
          proof (cases "Some (vdf_challenge rc) = ch")
            case False
            then show thesis using start cc rc ch by - (rule nothing, auto+)
          next
            case True
            from start cc rc ch True obtain ovf where
              ovf: "is_overflow_block c (rcbu_signage_point_index (nub_reward_chain_block b)) = Ok ovf" by auto
            show thesis
            proof (cases "can_infuse_block ?ls ovf")
              case False
              then show thesis using start cc rc ch True ovf by - (rule nothing, auto+)
            next
              case can: True
              show thesis
                by (rule infused [OF ib [unfolded Some] h rc ch [folded True] ovf can _ _ refl,
                      of cc ccp "proof_for INFUSED_CHALLENGE_CHAIN ?dp"])
                  (use start cc rc ch True ovf can in \<open>auto split: if_splits\<close>)
            qed
          qed
        qed
      qed
    qed
  qed
qed

lemma check_for_new_ip_ok:
  assumes ok: "tl_ok cr c self" and ch: "check_for_new_ip cr iter self = Ok (msgs, self')"
  shows "tl_ok cr c self'" "m \<in> set msgs \<Longrightarrow> message_ok cr (tl_last_state self) (tl_unfinished_blocks self) m"
proof -
  let ?ls = "tl_last_state self"
  have c: "ls_constants ?ls = c" using tl_okD(1,2) [OF ok] by (simp add: clock_ok_def)
  from ch tl_okD(1) [OF ok]
  have "tl_ok cr c self' \<and> (\<forall>m\<in>set msgs. message_ok cr ?ls (tl_unfinished_blocks self) m)"
  proof (cases rule: check_for_new_ip_cases)
    case nothing
    then show ?thesis using ok by auto
  next
    case (infused b ip rc rcp cc ccp icc h ovf s)
    note b = infused_blockD [OF infused(1)]
    have "0 < iter" using scheduled_iteration [OF ok infused(7)] by (simp add: position_ok_def Let_def)
    then have msg: "\<forall>m\<in>set msgs. message_ok cr ?ls (tl_unfinished_blocks self) m"
      using b infused(2,4-6) proof_for_iters [OF infused(3)] unfolding infused(8) c [symmetric]
      by (auto intro!: bexI [OF _ b(1)])
    have s: "tl_ok cr c s" using ok by (simp add: infused(9))
    have "summary_ok c (nub_sub_epoch_summary b)"
      using tl_okD(4) [OF ok] b(1) by (auto simp: waiting_ok_def blocks_in_def)
    then have "tl_ok cr c (s\<lparr>tl_new_peak := Some p\<rparr>)" if "infused_peak c ?ls b ovf tot rcb = Ok p" for tot rcb p
      using tl_ok_new_peak [OF s] infused_peak_summary [OF that] by simp
    then have "tl_ok cr c self'" using infused(10) s handle_new_peak_ok by blast
    with msg show ?thesis by blast
  qed
  then show "tl_ok cr c self'" "m \<in> set msgs \<Longrightarrow> message_ok cr ?ls (tl_unfinished_blocks self) m" by auto
qed

section \<open>Ends of sub-slots\<close>

lemma build_eos_bundle_ok:
  assumes "build_eos_bundle cr c ls cc rc icc = Ok (e, ses)"
  shows "number_of_iterations (challenge_chain_end_of_slot_vdf (challenge_chain e))
      = number_of_iterations (fst cc) + ls_last_ip ls"
    "end_of_slot_vdf (reward_chain e) = fst rc" "rc_deficit (reward_chain e) = eos_deficit c ls"
    "ChallengeChainSubSlot_hash cr (challenge_chain e) = Ok (challenge_chain_sub_slot_hash (reward_chain e))"
    "(infused_challenge_chain e = None) = (icc = None)"
    "summary_ok c (ls_sub_epoch_summary ls) \<Longrightarrow> slot_ssi_ok c e"
proof -
  from assms obtain ses' where ses': "get_next_sub_epoch_summary ls = Ok ses'" and
    e: "cc_new_sub_slot_iters (challenge_chain e) = Option.bind ses' ses_new_sub_slot_iters"
      "cc_new_difficulty (challenge_chain e) = Option.bind ses' ses_new_difficulty"
    by (auto simp: build_eos_bundle_def Let_def split: option.splits)
  have "ses' = None \<or> ses' = ls_sub_epoch_summary ls"
    using ses' by (auto simp: get_next_sub_epoch_summary_def split: if_splits)
  then show "summary_ok c (ls_sub_epoch_summary ls) \<Longrightarrow> slot_ssi_ok c e"
    unfolding slot_ssi_ok_def e by (auto simp: summary_ok_def)
qed (use assms in \<open>auto simp: build_eos_bundle_def Let_def split: option.splits\<close>)

lemma check_for_end_ok:
  assumes ok: "tl_ok cr c self" and ch: "check_for_end_of_subslot cr iter self = Ok (msgs, self')"
  shows "tl_ok cr c self'" "m \<in> set msgs \<Longrightarrow> message_ok cr (tl_last_state self) (tl_unfinished_blocks self) m"
proof -
  let ?ls = "tl_last_state self" and ?left = "iters_of_type END_OF_SUBSLOT self"
  note d = tl_okD [OF ok]
  have c: "ls_constants ?ls = c" using d(1,2) by (simp add: clock_ok_def)
  have "tl_ok cr c self' \<and> (\<forall>m\<in>set msgs. message_ok cr ?ls (tl_unfinished_blocks self) m)"
  proof (cases "?left = [] \<or> hd ?left \<noteq> iter \<or> msgs = []")
    case True
    then have "self' = self \<and> msgs = []"
      using ch by (auto simp: check_for_end_of_subslot_def Let_def split: if_splits)
    then show ?thesis using ok by simp
  next
    case False
    then have "iter \<in> set ?left" by (metis hd_in_set)
    from scheduled_iteration [OF ok this] have iter: "iter = ls_sub_slot_iters ?ls - ls_last_ip ?ls"
      by (simp add: position_ok_def Let_def)
    from False ch obtain cc rc e ses where
      rc: "proof_for CHALLENGE_CHAIN (proofs_with_iter iter self) = Some cc"
      "proof_for REWARD_CHAIN (proofs_with_iter iter self) = Some rc" and
      chal: "get_challenge cr ?ls REWARD_CHAIN = Ok (Some (vdf_challenge (fst rc)))" and
      e: "build_eos_bundle cr c ?ls cc rc (proof_for INFUSED_CHALLENGE_CHAIN (proofs_with_iter iter self)) = Ok (e, ses)" and
      h: "handle_subslot_end cr (self\<lparr>tl_iters_finished := insert iter (tl_iters_finished self),
            tl_unfinished_blocks := (if ses = None \<or> Option.bind ses ses_new_difficulty = None
              then tl_overflow_blocks self else []), tl_overflow_blocks := [], tl_new_subslot_end := Some e\<rparr>) = Ok self'" and
      m: "msgs = [new_end_of_sub_slot_vdf e]"
      unfolding check_for_end_of_subslot_def Let_def d(1) by (auto split: if_splits)
    let ?s = "self\<lparr>tl_iters_finished := insert iter (tl_iters_finished self),
            tl_unfinished_blocks := (if ses = None \<or> Option.bind ses ses_new_difficulty = None
              then tl_overflow_blocks self else []), tl_overflow_blocks := [], tl_new_subslot_end := Some e\<rparr>"
    note b = build_eos_bundle_ok [OF e]
    have s: "clock_ok cr ?s" "waiting_ok c ?s" "tl_constants ?s = c" "tl_new_subslot_end ?s = Some e" "slot_ssi_ok c e"
      using d b(6) by (auto simp: clock_ok_def waiting_ok_def blocks_in_def)
    have "number_of_iterations (fst cc) = iter" "number_of_iterations (fst rc) = iter"
      using rc proof_for_iters by (metis prod.collapse)+
    then have "\<forall>m\<in>set msgs. message_ok cr ?ls (tl_unfinished_blocks self) m"
      using b chal by (simp add: m iter c)
    with handle_subslot_end_ok(1) [OF s h] show ?thesis by blast
  qed
  then show "tl_ok cr c self'" "m \<in> set msgs \<Longrightarrow> message_ok cr ?ls (tl_unfinished_blocks self) m" by auto
qed

section \<open>The other parts of a round\<close>

lemma handle_failures_ok:
  assumes ok: "tl_ok cr c self"
  shows "\<exists>self'. handle_failures cr inactive self = Ok self' \<and> tl_ok cr c self'"
proof -
  have reset: "\<exists>s'. reset_chains cr b s = Ok s' \<and> tl_ok cr c s'" if "tl_ok cr c s" for b s
    using reset_chains_tl_ok [of cr s c b] tl_okD [OF that] by blast
  show ?thesis
  proof (cases "tl_vdf_failures self")
    case Nil
    then show ?thesis using reset [OF ok, of False] ok by (simp add: handle_failures_def)
  next
    case (Cons f fs)
    obtain s where s: "(if snd f = Some (tl_num_resets self) then reset_chains cr True self else Ok self) = Ok s"
      "tl_ok cr c s"
      using reset [OF ok, of True] ok by (cases "snd f = Some (tl_num_resets self)") auto
    have "tl_ok cr c (s\<lparr>tl_vdf_failures := []\<rparr>)" using s(2) by simp
    from reset [OF this, of False] this s(1) Cons show ?thesis
      by (cases f) (auto simp: handle_failures_def split: if_splits)
  qed
qed

lemma submit_chain_ok:
  assumes "ch \<noteq> BLUEBOX" and "tl_ok cr c self"
  shows "\<exists>f. submit_chain ch self = Ok (self\<lparr>tl_iters_submitted := f\<rparr>)"
proof -
  have "\<exists>f. rfold (\<lambda>i self.
         if i \<in> set (tl_iters_submitted self ch) then Ok self
         else rbind (py_assert (i > 0)) (\<lambda>_.
           Ok (self\<lparr>tl_iters_submitted := (tl_iters_submitted self)(ch := tl_iters_submitted self ch @ [i])\<rparr>)))
       its s = Ok (s\<lparr>tl_iters_submitted := f\<rparr>)" if "\<forall>i\<in>set its. 0 < i" for s its
    using that
  proof (induction its arbitrary: s)
    case Nil
    show ?case by (intro exI [of _ "tl_iters_submitted s"]) simp
  next
    case (Cons i its)
    then show ?case
      using Cons.IH [of s]
        Cons.IH [of "s\<lparr>tl_iters_submitted := (tl_iters_submitted s)(ch := tl_iters_submitted s ch @ [i])\<rparr>"]
      by auto
  qed
  moreover have "\<forall>i\<in>set (tl_iters_to_submit self ch). 0 < i"
    using schedule_positive(1) [OF tl_okD(3,2) [OF assms(2)] assms(1)] by blast
  ultimately show ?thesis unfolding submit_chain_def by blast
qed

lemma submit_iterations_ok:
  assumes "tl_ok cr c self"
  shows "\<exists>f. submit_iterations allows self = Ok (self\<lparr>tl_iters_submitted := f\<rparr>)"
proof -
  have "\<exists>f. rfold (\<lambda>ch self. if ch \<in> allows then submit_chain ch self else Ok self) chs s
      = Ok (s\<lparr>tl_iters_submitted := f\<rparr>)" if "BLUEBOX \<notin> set chs" "tl_ok cr c s" for chs s
    using that
  proof (induction chs arbitrary: s)
    case Nil
    show ?case by (intro exI [of _ "tl_iters_submitted s"]) simp
  next
    case (Cons ch chs)
    obtain f where f: "(if ch \<in> allows then submit_chain ch s else Ok s) = Ok (s\<lparr>tl_iters_submitted := f\<rparr>)"
    proof (cases "ch \<in> allows")
      case True
      then show thesis using submit_chain_ok [of ch cr c s] Cons.prems that by auto
    next
      case False
      then show thesis using that [of "tl_iters_submitted s"] by simp
    qed
    have "tl_ok cr c (s\<lparr>tl_iters_submitted := f\<rparr>)" using Cons.prems(2) by simp
    from Cons.IH [OF _ this] Cons.prems(1) f show ?case by simp
  qed
  note * = this [OF _ assms]
  show ?thesis unfolding submit_iterations_def by (rule *) simp
qed

section \<open>Messages from full nodes\<close>

lemma api_new_peak_ok:
  assumes "tl_ok cr c self" and "summary_ok c (npt_sub_epoch_summary p)"
  shows "tl_ok cr c (api_new_peak_timelord p self)"
  using assms(1) tl_ok_new_peak [OF assms] by (simp add: api_new_peak_timelord_def Let_def)

lemma api_new_unfinished_block_ok:
  assumes ok: "tl_ok cr c self" and b: "summary_ok c (nub_sub_epoch_summary b)"
  shows "\<exists>self'. api_new_unfinished_block_timelord cr b self = Ok self' \<and> tl_ok cr c self'"
proof -
  let ?ls = "tl_last_state self" and ?rcb = "nub_reward_chain_block b"
  let ?it = "iters_from_block cr (tl_constants self) ?rcb (ls_sub_slot_iters ?ls) (ls_difficulty ?ls)"
  note d = tl_okD [OF ok]
  note k = clock_okD [OF d(2)]
  have overflow: "tl_ok cr c (self\<lparr>tl_overflow_blocks := tl_overflow_blocks self @ [b]\<rparr>)"
    using ok b unfolding tl_ok_def waiting_ok_def blocks_in_def clock_ok_def schedule_ok_def scheduled_def by auto
  obtain r where r: "can_infuse_unfinished_block cr self b = Ok r" and
    p: "\<forall>i. r = Some i \<longrightarrow> position_ok ?ls i INFUSION_POINT \<and> block_ip cr ?ls b i"
    using can_infuse_Ok [OF k(2), of b] k by (auto simp: block_ip_def)
  have accept: "\<exists>self'. (let self = self\<lparr>tl_unfinished_blocks := tl_unfinished_blocks self @ [b],
                                  tl_total_unfinished := tl_total_unfinished self + 1\<rparr>;
                      self = submit_to [REWARD_CHAIN, CHALLENGE_CHAIN] i self;
                      self = (if ls_deficit ?ls < MIN_BLOCKS_PER_CHALLENGE_BLOCK (tl_constants s0)
                              then submit_to [INFUSED_CHALLENGE_CHAIN] i self else self)
                  in Ok (set_proof_type i INFUSION_POINT self)) = Ok self' \<and> tl_ok cr c self'"
    if i: "r = Some i" for i s0
  proof -
    let ?t = "submit_to [REWARD_CHAIN, CHALLENGE_CHAIN] i (self\<lparr>tl_unfinished_blocks := tl_unfinished_blocks self @ [b],
                                  tl_total_unfinished := tl_total_unfinished self + 1\<rparr>)"
    let ?u = "if ls_deficit ?ls < MIN_BLOCKS_PER_CHALLENGE_BLOCK (tl_constants s0)
                              then submit_to [INFUSED_CHALLENGE_CHAIN] i ?t else ?t"
    let ?v = "set_proof_type i INFUSION_POINT ?u"
    have "adds_iter i self (self\<lparr>tl_unfinished_blocks := tl_unfinished_blocks self @ [b],
        tl_total_unfinished := tl_total_unfinished self + 1\<rparr>)" by (simp add: adds_iter_def subset_insertI)
    then have a: "adds_iter i self ?u" by (auto intro!: adds_submitted)
    have pos: "position_ok ?ls i INFUSION_POINT" and bi: "block_ip cr ?ls b i" using p i by auto
    note g = add_grows [OF d(3) a pos k(2,3)]
    have sub: "i \<in> set (tl_iters_to_submit ?v CHALLENGE_CHAIN)" "i \<in> set (tl_iters_to_submit ?v REWARD_CHAIN)" and
      news: "tl_unfinished_blocks ?v = tl_unfinished_blocks self @ [b]" "tl_overflow_blocks ?v = tl_overflow_blocks self"
        "tl_new_peak ?v = tl_new_peak self" "tl_new_subslot_end ?v = tl_new_subslot_end self"
      by (simp_all add: set_proof_type_def submit_to_def)
    have l: "tl_last_state ?v = ?ls" "tl_constants ?v = tl_constants self" using g(1) by (simp_all add: keeps_schedule_def)
    have "scheduled cr ?v b" using sub g(2) bi l unfolding scheduled_def by auto
    moreover have "\<forall>x\<in>set (tl_unfinished_blocks self). scheduled cr ?v x"
      using ok scheduled_grows [OF _ g(1)] by (simp add: tl_ok_def)
    moreover have "waiting_ok c ?v" using d(4) b unfolding waiting_ok_def blocks_in_def news l by auto
    ultimately have "tl_ok cr c ?v"
      using schedule_ok_add [OF d(3) a pos] clock_ok_grows [OF d(2) g(1)] d(1,5) unfolding tl_ok_def news l by auto
    then show ?thesis by (simp add: Let_def)
  qed
  have "returns ?it" by (intro returns_rules)
  then show ?thesis
  proof (rule not_Diverge_cases)
    fix x assume "?it = Ok x"
    moreover obtain sp ip where "x = (sp, ip)" by (cases x)
    ultimately have it: "?it = Ok (sp, ip)" by simp
    show ?thesis
    proof (cases r)
      case None
      then show ?thesis using it ok r overflow by (auto simp: api_new_unfinished_block_timelord_def Let_def)
    next
      case (Some i)
      from accept [OF Some, of self] ok overflow show ?thesis
        unfolding api_new_unfinished_block_timelord_def Let_def it r Some rbind_Ok by auto
    qed
  qed (use ok in \<open>simp_all add: api_new_unfinished_block_timelord_def Let_def\<close>)
qed

section \<open>The transition system\<close>

inductive tl_step :: "crypto \<Rightarrow> ConsensusConstants \<Rightarrow> Timelord \<Rightarrow> TimelordMessage list \<Rightarrow> Timelord \<Rightarrow> bool" for cr c where
  peak: "summary_ok c (npt_sub_epoch_summary p) \<Longrightarrow> tl_step cr c self [] (api_new_peak_timelord p self)"
| unfinished: "summary_ok c (nub_sub_epoch_summary b) \<Longrightarrow> api_new_unfinished_block_timelord cr b self = Ok self' \<Longrightarrow>
    tl_step cr c self [] self'"
| proof_done: "tl_step cr c self [] (proof_finished ch info p label self)"
| failure: "tl_step cr c self [] (self\<lparr>tl_vdf_failures := tl_vdf_failures self @ [f]\<rparr>)"
| start: "reset_chains cr only_eos self = Ok self' \<Longrightarrow> tl_step cr c self [] self'"
| failures: "handle_failures cr inactive self = Ok self' \<Longrightarrow> tl_step cr c self [] self'"
| new_peak: "handle_new_peak cr self = Ok self' \<Longrightarrow> tl_step cr c self [] self'"
| submit: "submit_iterations allows self = Ok self' \<Longrightarrow> tl_step cr c self [] self'"
| infusion: "check_for_new_ip cr iter self = Ok (msgs, self') \<Longrightarrow> tl_step cr c self msgs self'"
| signage: "check_for_new_sp cr iter self = Ok (msgs, self') \<Longrightarrow> tl_step cr c self msgs self'"
| slot_end: "check_for_end_of_subslot cr iter self = Ok (msgs, self') \<Longrightarrow> tl_step cr c self msgs self'"

inductive tl_reach :: "crypto \<Rightarrow> ConsensusConstants \<Rightarrow> Timelord \<Rightarrow> bool" for cr c where
  start: "tl_reach cr c (new_timelord c sanitizer)"
| step: "tl_reach cr c self \<Longrightarrow> tl_step cr c self msgs self' \<Longrightarrow> tl_reach cr c self'"

inductive_cases tl_stepE: "tl_step cr c self msgs self'"

lemma tl_step_ok:
  assumes "tl_step cr c self msgs self'" and ok: "tl_ok cr c self"
  shows "tl_ok cr c self'" "m \<in> set msgs \<Longrightarrow> message_ok cr (tl_last_state self) (tl_unfinished_blocks self) m"
proof -
  have "tl_ok cr c self' \<and> (\<forall>m\<in>set msgs. message_ok cr (tl_last_state self) (tl_unfinished_blocks self) m)"
    using assms(1)
  proof (cases rule: tl_step.cases)
    case (unfinished b)
    then show ?thesis using api_new_unfinished_block_ok [OF ok] by fastforce
  next
    case (start b)
    then show ?thesis using reset_chains_tl_ok [OF tl_okD(2,4,1,5) [OF ok], of b] by auto
  next
    case (failures b)
    then show ?thesis using handle_failures_ok [OF ok, of b] by auto
  next
    case (submit a)
    then show ?thesis using submit_iterations_ok [OF ok, of a] ok by auto
  next
    case (peak p)
    then show ?thesis using api_new_peak_ok [OF ok] by simp
  next
    case new_peak
    then show ?thesis using handle_new_peak_ok [OF ok] by simp
  next
    case (infusion i)
    then show ?thesis using check_for_new_ip_ok [OF ok infusion] by blast
  next
    case (signage i)
    then show ?thesis using check_for_new_sp_ok [OF ok signage] by blast
  next
    case (slot_end i)
    then show ?thesis using check_for_end_ok [OF ok slot_end] by blast
  qed (use ok in \<open>simp_all add: proof_finished_def\<close>)
  then show "tl_ok cr c self'" "m \<in> set msgs \<Longrightarrow> message_ok cr (tl_last_state self) (tl_unfinished_blocks self) m" by auto
qed

lemma new_timelord_ok:
  assumes "constants_ok c" and "SUB_SLOT_ITERS_STARTING c div NUM_SPS_SUB_SLOT c < 2 ^ 64"
  shows "tl_ok cr c (new_timelord c s)"
  using init_LastState_ok [OF assms] assms(1)
  by (simp add: tl_ok_def new_timelord_def clock_ok_def schedule_ok_def waiting_ok_def blocks_in_def summary_ok_def
      init_LastState_def)

lemma tl_reach_ok:
  assumes "tl_reach cr c self" and "constants_ok c" and "SUB_SLOT_ITERS_STARTING c div NUM_SPS_SUB_SLOT c < 2 ^ 64"
  shows "tl_ok cr c self"
  using assms(1) by induction (use new_timelord_ok [OF assms(2,3)] tl_step_ok(1) in \<open>blast+\<close>)

text \<open>A round is such a sequence.\<close>

lemma manage_round_reach:
  assumes "tl_reach cr c self" and "manage_round cr inactive allows self = Ok (msgs, self')"
  shows "tl_reach cr c self'"
proof -
  from assms(2) obtain s1 s2 s3 where
    s1: "handle_failures cr inactive self = Ok s1" and
    s2: "(if tl_new_peak s1 \<noteq> None then handle_new_peak cr s1 else Ok s1) = Ok s2" and
    s3: "submit_iterations allows s2 = Ok s3" and
    r: "(let not_finished = filter (\<lambda>i. i \<notin> tl_iters_finished s3) (tl_iters_submitted s3 REWARD_CHAIN) in
     if not_finished = [] then Ok ([], s3)
     else
       let selected = Min (set not_finished) in
       rbind (check_for_new_ip cr selected s3) (\<lambda>(msgs1, self).
       rbind (check_for_new_sp cr selected self) (\<lambda>(msgs2, self).
       rbind (check_for_end_of_subslot cr selected self) (\<lambda>(msgs3, self).
         Ok (msgs1 @ msgs2 @ msgs3, self))))) = Ok (msgs, self')"
    unfolding manage_round_def by (elim rbind_OkE) (rule that)
  from r have e: "self' = s3 \<or> (\<exists>i m1 s4 m2 s5 m3. check_for_new_ip cr i s3 = Ok (m1, s4) \<and>
        check_for_new_sp cr i s4 = Ok (m2, s5) \<and> check_for_end_of_subslot cr i s5 = Ok (m3, self'))"
    unfolding Let_def by (auto split: if_splits)
  have "tl_reach cr c s1" using assms(1) s1 by (blast intro: tl_reach.step tl_step.failures)
  then have "tl_reach cr c s2" using s2 by (auto split: if_splits intro: tl_reach.step tl_step.new_peak)
  then have "tl_reach cr c s3" using s3 by (blast intro: tl_reach.step tl_step.submit)
  then show ?thesis using e by (blast intro: tl_reach.step tl_step.infusion tl_step.signage tl_step.slot_end)
qed

end
