(* ===== verification/Timelord_Agreement.thy ===== *)
theory Timelord_Agreement
  imports Timelord_Steps
begin

text \<open>
  The deficit a timelord gives a block it infuses, against the one \<^verbatim>\<open>calculate_deficit\<close> gives it on a full node: the
  timelord reads it off its last state, a block or the end of a sub-slot it has built itself, the full node
  off the previous block and the number of sub-slots finished since.
\<close>

lemma set_eos_state_fields:
  assumes "set_eos_state cr ls e = Ok ls'"
  shows "ls_state_type ls' = END_OF_SUB_SLOT" "ls_peak ls' = None" "ls_subslot_end ls' = Some e"
    "ls_deficit ls' = rc_deficit (reward_chain e)" "ls_constants ls' = ls_constants ls"
  using assms by (auto simp: set_eos_state_def note_challenge_def Let_def split: option.splits)

text \<open>Slot ends built one after the other. \<^verbatim>\<open>_check_for_end_of_subslot\<close> waits for three proofs if the infused
  challenge chain has a challenge and for two otherwise, so the bundle has that chain exactly in the first case.\<close>

inductive slots_built :: "crypto \<Rightarrow> ConsensusConstants \<Rightarrow> LastState \<Rightarrow> nat \<Rightarrow> LastState \<Rightarrow> bool" for cr c ls where
  none: "slots_built cr c ls 0 ls"
| slot: "slots_built cr c ls n ls1 \<Longrightarrow> get_challenge cr ls1 INFUSED_CHALLENGE_CHAIN = Ok ch \<Longrightarrow>
    (icc = None) = (ch = None) \<Longrightarrow> build_eos_bundle cr c ls1 cc rc icc = Ok (e, ses) \<Longrightarrow>
    set_eos_state cr ls1 e = Ok ls2 \<Longrightarrow> slots_built cr c ls (Suc n) ls2"

definition after_slots :: "ConsensusConstants \<Rightarrow> int \<Rightarrow> nat \<Rightarrow> LastState \<Rightarrow> bool" where
  "after_slots c d n ls \<longleftrightarrow>
     (\<exists>e. ls_state_type ls = END_OF_SUB_SLOT \<and> ls_peak ls = None \<and> ls_subslot_end ls = Some e \<and>
        ls_constants ls = c \<and> ls_deficit ls = rc_deficit (reward_chain e) \<and>
        rc_deficit (reward_chain e) = (if 0 < d \<and> d < MIN_BLOCKS_PER_CHALLENGE_BLOCK c then d else MIN_BLOCKS_PER_CHALLENGE_BLOCK c) \<and>
        (d = 0 \<or> d = MIN_BLOCKS_PER_CHALLENGE_BLOCK c \<longrightarrow> (infused_challenge_chain e \<noteq> None) = (d = 0 \<and> n = 1)))"

lemma slots_after_peak:
  assumes peak: "ls_state_type ls = PEAK" "ls_peak ls = Some p" "ls_subslot_end ls = None" "ls_deficit ls = d"
      "npt_deficit p = d" "ls_constants ls = c"
    and d: "0 \<le> d" "d \<le> MIN_BLOCKS_PER_CHALLENGE_BLOCK c" and m: "1 < MIN_BLOCKS_PER_CHALLENGE_BLOCK c"
    and icc: "d = MIN_BLOCKS_PER_CHALLENGE_BLOCK c \<Longrightarrow>
      rcb_infused_challenge_chain_ip_vdf (npt_reward_chain_block p) = None"
    and slots: "slots_built cr c ls n ls'" and n: "0 < n"
  shows "after_slots c d n ls'"
  using slots n
proof (induction rule: slots_built.induct)
  case none
  then show ?case by simp
next
  case (slot n ls1 ch icc' cc rc e ses ls2)
  note b = build_eos_bundle_ok [OF slot.hyps(4)] and f = set_eos_state_fields [OF slot.hyps(5)]
  show ?case
  proof (cases "n = 0")
    case True
    then have l: "ls1 = ls" using slot.hyps(1) by (auto elim: slots_built.cases)
    have "infused_challenge_chain e \<noteq> None" if "d = 0"
      using slot.hyps(4) that peak(4) l by (auto simp: build_eos_bundle_def Let_def split: option.splits)
    moreover have "infused_challenge_chain e = None" if "d = MIN_BLOCKS_PER_CHALLENGE_BLOCK c"
      using slot.hyps(2,3) b(5) icc [OF that] that peak m
      by (auto simp: get_challenge_def l Let_def split: option.splits)
    ultimately show ?thesis
      using b(3) f peak l d m True by (auto simp: after_slots_def eos_deficit_def)
  next
    case False
    then have i: "after_slots c d n ls1" using slot.IH by simp
    then have "infused_challenge_chain e = None" if "d = 0 \<or> d = MIN_BLOCKS_PER_CHALLENGE_BLOCK c"
      using slot.hyps(2,3) b(5) that m by (auto simp: after_slots_def get_challenge_def split: if_splits)
    then show ?thesis using i b(3) f False m d by (auto simp: after_slots_def eos_deficit_def split: if_splits)
  qed
qed

lemma new_deficit_agrees:
  assumes peak: "ls_state_type ls = PEAK" "ls_peak ls = Some p" "ls_subslot_end ls = None" "ls_deficit ls = d"
      "npt_deficit p = d" "ls_constants ls = c"
    and d: "0 \<le> d" "d \<le> MIN_BLOCKS_PER_CHALLENGE_BLOCK c"
    and m: "1 < MIN_BLOCKS_PER_CHALLENGE_BLOCK c" "MIN_BLOCKS_PER_CHALLENGE_BLOCK c < 256"
    and icc: "d = MIN_BLOCKS_PER_CHALLENGE_BLOCK c \<Longrightarrow>
      rcb_infused_challenge_chain_ip_vdf (npt_reward_chain_block p) = None"
    and slots: "slots_built cr c ls n ls'" and h: "0 < h"
  shows "new_deficit c ls' ovf = calculate_deficit c h (Some d) ovf (int n)"
proof (cases "n = 0")
  case True
  then have "ls' = ls" using slots by (auto elim: slots_built.cases)
  then show ?thesis using peak d m True
    by (auto simp: calculate_deficit_cases [OF m h d] new_deficit_def Let_def)
next
  case False
  then have "after_slots c d n ls'" using slots_after_peak [OF peak d m(1) icc slots] by simp
  then show ?thesis using d m False
    by (auto simp: calculate_deficit_cases [OF m h d] new_deficit_def Let_def after_slots_def split: if_splits)
qed

end
