(* ===== verification/Sample_Timelord.thy ===== *)
theory Sample_Timelord
  imports Timelord_Agreement Sample_Chain
begin

text \<open>
  A timelord at the start of the sample chain, whose VDF clients reach the first signage point, and one whose last
  state is the second block of the sample chain, which then ends its sub-slot.
\<close>

definition first_sps :: "(int \<times> int) list" where
  "first_sps = signage_schedule DEFAULT_CONSTANTS 2097152 0"

definition idle_timelord :: Timelord where
  "idle_timelord = new_timelord DEFAULT_CONSTANTS False"

definition running_timelord :: Timelord where
  "running_timelord = idle_timelord\<lparr>tl_signage_point_iters := first_sps, tl_num_resets := 1,
     tl_iters_to_submit := (\<lambda>ch. if ch = CHALLENGE_CHAIN \<or> ch = REWARD_CHAIN then [2097152, 4194304, 6291456, 134217728] else []),
     tl_iteration_to_proof_type := [(2097152, SIGNAGE_POINT), (4194304, SIGNAGE_POINT), (6291456, SIGNAGE_POINT),
       (134217728, END_OF_SUBSLOT)]\<rparr>"

lemma first_sps_cons: "\<exists>sps. first_sps = (2097152, 1) # (4194304, 2) # (6291456, 3) # sps"
proof -
  have "[1..63] = 1 # 2 # 3 # [4..63]" by (simp add: upto_rec1)
  then show ?thesis by (simp add: first_sps_def signage_schedule_def)
qed

lemma idle_simps [simp]:
  "tl_constants idle_timelord = DEFAULT_CONSTANTS" "tl_last_state idle_timelord = init_LastState DEFAULT_CONSTANTS"
  "tl_unfinished_blocks idle_timelord = []" "tl_overflow_blocks idle_timelord = []" "tl_num_resets idle_timelord = 0"
  "tl_iters_to_submit idle_timelord = (\<lambda>_. [])" "tl_iters_submitted idle_timelord = (\<lambda>_. [])"
  "tl_proofs_finished idle_timelord = []" "tl_iters_finished idle_timelord = {}"
  "tl_iteration_to_proof_type idle_timelord = []" "tl_signage_point_iters idle_timelord = []"
  by (simp_all add: idle_timelord_def new_timelord_def)

lemma init_simps [simp]:
  "ls_last_ip (init_LastState c) = 0" "ls_sub_slot_iters (init_LastState c) = SUB_SLOT_ITERS_STARTING c"
  "ls_deficit (init_LastState c) = MIN_BLOCKS_PER_CHALLENGE_BLOCK c" "ls_constants (init_LastState c) = c"
  "get_challenge cr (init_LastState c) REWARD_CHAIN = Ok (Some (GENESIS_CHALLENGE c))"
  by (simp_all add: init_LastState_def get_challenge_def)

lemma idle_reached: "tl_reach toy DEFAULT_CONSTANTS idle_timelord"
  unfolding idle_timelord_def by (rule tl_reach.start)

lemma idle_started: "reset_chains toy False idle_timelord = Ok running_timelord"
proof -
  obtain sps where sps: "first_sps = (2097152, 1) # (4194304, 2) # (6291456, 3) # sps" using first_sps_cons by blast
  have "\<forall>p\<in>set first_sps. 0 < snd p \<and> snd p < 64" by (auto simp: first_sps_def signage_schedule_def)
  then have ok: "\<forall>p\<in>set sps. 0 < snd p \<and> snd p < 64" by (simp add: sps)
  have a: "rfold (\<lambda>(_, k) _. py_assert (0 < k \<and> k < 64)) sps () = Ok ()"
    using rfold_assert [of sps "\<lambda>p. 0 < snd p \<and> snd p < (64 :: int)"] ok by (simp add: case_prod_beta')
  show ?thesis
    unfolding reset_chains_def Let_def idle_simps init_simps
    by (simp add: first_sps_def [symmetric] a schedule_signage_def sps submit_to_def set_proof_type_def)
       (simp add: running_timelord_def idle_timelord_def new_timelord_def sps fun_eq_iff)
qed

section \<open>The first signage point\<close>

definition at_first_sp :: Timelord where
  "at_first_sp = proof_finished REWARD_CHAIN (vdf_to G 2097152) zero_proof 1
     (proof_finished CHALLENGE_CHAIN (vdf_to G 2097152) zero_proof 1 running_timelord)"

definition first_sp_message :: NewSignagePointVDF where
  "first_sp_message = \<lparr>nsp_index_from_challenge = 1, nsp_challenge_chain_sp_vdf = vdf_to G 2097152,
     nsp_challenge_chain_sp_proof = zero_proof, nsp_reward_chain_sp_vdf = vdf_to G 2097152,
     nsp_reward_chain_sp_proof = zero_proof\<rparr>"

lemma running_reached: "tl_reach toy DEFAULT_CONSTANTS running_timelord"
  by (rule tl_reach.step [OF idle_reached tl_step.start [OF idle_started]])

lemma at_first_sp_reached: "tl_reach toy DEFAULT_CONSTANTS at_first_sp"
  unfolding at_first_sp_def by (rule tl_reach.step [OF tl_reach.step [OF running_reached tl_step.proof_done] tl_step.proof_done])

lemma first_sp_sent:
  "\<exists>self. check_for_new_sp toy 2097152 at_first_sp = Ok ([new_signage_point_vdf first_sp_message], self)"
proof -
  obtain sps where sps: "first_sps = (2097152, 1) # (4194304, 2) # (6291456, 3) # sps" using first_sps_cons by blast
  show ?thesis
    by (simp add: check_for_new_sp_def iters_of_type_def at_first_sp_def proof_finished_def running_timelord_def sps
        proofs_with_iter_def proof_for_def vdf_to_def Let_def first_sp_message_def)
qed

lemma at_first_sp_state: "tl_last_state at_first_sp = init_LastState DEFAULT_CONSTANTS"
  by (simp add: at_first_sp_def proof_finished_def running_timelord_def)

section \<open>A sub-slot that ends after a block\<close>

definition sample_peak :: NewPeakTimelord where
  "sample_peak = \<lparr>npt_reward_chain_block = hb_reward_chain_block next_b, npt_difficulty = 1, npt_deficit = 0,
     npt_sub_slot_iters = 134217728, npt_sub_epoch_summary = None, npt_previous_reward_challenges = [],
     npt_last_challenge_sb_or_eos_total_iters = 6291457, npt_passes_ses_height = False\<rparr>"

lemma sample_peak_set:
  "\<exists>ls. set_peak_state toy (init_LastState DEFAULT_CONSTANTS) sample_peak = Ok ls \<and> ls_state_type ls = PEAK \<and>
     ls_peak ls = Some sample_peak \<and> ls_last_ip ls = 16777217 \<and> ls_total_iters ls = 16777217 \<and>
     ls_sub_slot_iters ls = 134217728 \<and> ls_deficit ls = 0 \<and> ls_last_challenge_sb_or_eos_total_iters ls = 6291457 \<and>
     ls_constants ls = DEFAULT_CONSTANTS \<and> \<not> ls_passed_ses_height ls \<and>
     ls_reward_challenge_cache ls = [(replicate 32 2, 16777217)]"
proof -
  have c: "ClassgroupElement_hash toy get_default_element = Ok (replicate 32 2)" by (simp add: toy_hash_defs)
  have it: "iters_from_block toy DEFAULT_CONSTANTS (get_unfinished (hb_reward_chain_block next_b)) 134217728 1
      = Ok (10485760, 16777217)"
    using plot_hashes by (simp add: iters_from_block_def get_unfinished_def next_b_def vdf_to_def c plot_def
        calculate_sp_iters_def calculate_ip_iters_def calculate_sp_interval_iters_def)
  show ?thesis
    using next_hashes(2)
    by (simp add: set_peak_state_def sample_peak_def it Let_def note_challenge_def get_challenge_def)
       (simp add: next_b_def)
qed

lemma sample_icc_hash:
  "InfusedChallengeChainSubSlot_hash toy \<lparr>infused_challenge_chain_end_of_slot_vdf = vdf_to G 127926271\<rparr> = Ok (replicate 32 1)"
  "ChallengeChainSubSlot_hash toy \<lparr>challenge_chain_end_of_slot_vdf = vdf_to G 134217728,
     cc_infused_challenge_chain_sub_slot_hash = Some (replicate 32 1), subepoch_summary_hash = None,
     cc_new_sub_slot_iters = None, cc_new_difficulty = None\<rparr> = Ok (replicate 32 1)"
  "RewardChainSubSlot_hash toy \<lparr>end_of_slot_vdf = vdf_to (replicate 32 2) 117440511, challenge_chain_sub_slot_hash = replicate 32 1,
     rc_infused_challenge_chain_sub_slot_hash = Some (replicate 32 1), rc_deficit = 16\<rparr> = Ok (replicate 32 2)"
  by (simp_all add: InfusedChallengeChainSubSlot_hash_def ChallengeChainSubSlot_hash_def RewardChainSubSlot_hash_def
      toy_hash_defs ChallengeChainSubSlot_val_def ChallengeChainSubSlot_type_def)

lemma sample_slot_built:
  "\<exists>ls ls'. set_peak_state toy (init_LastState DEFAULT_CONSTANTS) sample_peak = Ok ls \<and>
     slots_built toy DEFAULT_CONSTANTS ls 1 ls'"
proof -
  obtain ls where ls: "set_peak_state toy (init_LastState DEFAULT_CONSTANTS) sample_peak = Ok ls" "ls_state_type ls = PEAK"
     "ls_peak ls = Some sample_peak" "ls_last_ip ls = 16777217" "ls_total_iters ls = 16777217"
     "ls_sub_slot_iters ls = 134217728" "ls_deficit ls = 0" "ls_last_challenge_sb_or_eos_total_iters ls = 6291457"
     "ls_constants ls = DEFAULT_CONSTANTS" "\<not> ls_passed_ses_height ls"
     "ls_reward_challenge_cache ls = [(replicate 32 2, 16777217)]" using sample_peak_set by blast
  let ?cc = "(vdf_to G 117440511, zero_proof)" and ?rc = "(vdf_to (replicate 32 2) 117440511, zero_proof)"
  let ?icc = "Some (vdf_to G 117440511, zero_proof)"
  have "\<exists>ch. get_challenge toy ls INFUSED_CHALLENGE_CHAIN = Ok (Some ch)"
    by (simp add: get_challenge_def ls sample_peak_def next_b_def Let_def)
  then obtain ch where ch: "get_challenge toy ls INFUSED_CHALLENGE_CHAIN = Ok (Some ch)" ..
  have "\<exists>e. build_eos_bundle toy DEFAULT_CONSTANTS ls ?cc ?rc ?icc = Ok (e, None) \<and> set_eos_state toy ls e \<noteq> Diverge \<and>
      (\<exists>ls'. set_eos_state toy ls e = Ok ls')"
    using sample_icc_hash
    by (simp add: build_eos_bundle_def eos_icc_vdf_def get_next_sub_epoch_summary_def eos_deficit_def ls vdf_to_def Let_def
        set_eos_state_def note_challenge_def get_challenge_def)
  then obtain e ls' where e: "build_eos_bundle toy DEFAULT_CONSTANTS ls ?cc ?rc ?icc = Ok (e, None)"
    "set_eos_state toy ls e = Ok ls'" by blast
  have "slots_built toy DEFAULT_CONSTANTS ls (Suc 0) ls'"
    by (rule slots_built.slot [OF slots_built.none ch _ e]) simp
  with ls(1) show ?thesis by auto
qed

end
