(* ===== verification/Spec2Isabelle.thy ===== *)
theory Spec2Isabelle
  imports Prelude Significant_Bits Streamable Crypto Blockchain_Format Consensus_Constants
    Pot_Iterations Rewards Block_Record Weight_Proof_Types Block_Cache Difficulty_Adjustment
    Chain_Challenges Sub_Epoch_Summary Validation Header_Validation Sample_Chain Sample_Twin
    Merkle_Set Merkle_Proofs Block_Roots Conditions Condition_Facts Sample_Spends
    Lru_Cache Full_Block Coin_Store Coin_Ledger Block_Body Body_Facts Sample_Body
    Py_Dict Py_Float Mempool Mempool_Manager Mempool_Order Mempool_Facts Sample_Mempool
    Block_Store Blockchain Pre_Validation Chain_Path Generator_Runs Chain_State Chain_Facts Chain_Peak Chain_Moves Chain_Receive
    Chain_Node Pre_Facts Chain_Steps Sample_Node Full_Node_Store Slot_Facts Signage_Facts Sample_Slots
    Weight_Proof_Segments Weight_Proof Weight_Proof_Facts Weight_Proof_Creation Weight_Proof_Agreement Sample_Weight
    Block_Creation Creation_Facts Sample_Creation
    Timelord_State Timelord Timelord_Facts Timelord_Schedule Timelord_Steps Timelord_Agreement Sample_Timelord
begin

text \<open>
  This library models the consensus core and the chain state of a full node of \<^verbatim>\<open>chia-rosechain\<close>
  (\<^verbatim>\<open>src/chia\<close>), a fork of the Chia blockchain, and proves what makes them correct.

  \<^bold>\<open>The program.\<close> A full node receives blocks from its peers. \<^verbatim>\<open>Blockchain.receive_block\<close> validates the header
  (proof of space, proofs of time, difficulty, links and hashes) against the records of earlier blocks, runs
  the block's generator on the CLVM to get its spends and their conditions, validates the body against the
  coin store, writes block and record to the block store and, if the block is heavier than the peak,
  moves the peak: coins are rolled back to the fork, the blocks above it are applied, and the height index
  and the sub-epoch summaries follow. Before that, batches of headers may be validated ahead in worker
  processes. Transactions wait in the mempool, which is updated at every new peak and offers the bundle
  for the next block. \<^verbatim>\<open>FullNodeStore\<close> follows the tip between two blocks: the slot ends and signage points that
  timelords send are checked, kept, and served to farmers. When a farmer answers with a proof of space, the node
  creates an unfinished block, and finishes it when the VDFs of its infusion point arrive. Timelords run the VDFs from
  the newest block or slot end and send signage points, infusion points and slot ends. A node that joins asks for a weight proof: the sub-epoch
  summaries of the chain, sampled segments of it and its last blocks, from which it learns the weight and
  where to start.

  \<^bold>\<open>Conventions.\<close> Everything is a function of explicit state that returns \<open>'a res\<close>: \<open>Ok x\<close>, \<open>Raise e\<close> for a
  Python exception, or \<open>Diverge\<close>. Validation functions return, inside it, \<open>Invalid e\<close> or \<open>Valid x\<close>. Sized
  integers are \<open>int\<close> with the range check of their constructor (\<open>uint8\<close> to \<open>uint128\<close> raise outside their
  range, as \<^verbatim>\<open>struct\<close> does); bytes are \<open>8 word list\<close>. A loop along hash links is a \<open>partial_function\<close>, so
  that a cyclic link would be \<open>Diverge\<close>, and has a lemma that it returns on every store whose heights
  decrease along the links; no fuel is used. A dictionary is an association list in insertion order where
  the order can be seen and a map otherwise; a \<^verbatim>\<open>SortedDict\<close> is the list in key order; an SQL table is the
  list of its rows and a statement the list function it denotes. A float is the rational number it
  denotes, rounded as IEEE division does. Coroutines run under the lock the source names, so a method is
  one step.

  SHA-256, BLS signatures, VDF and proof of space verification, the compact filter and the CLVM are not under
  \<^verbatim>\<open>src\<close>; they are the fields of the parameter records \<open>crypto\<close> and \<open>clvm\<close>, and the random generator and the
  logarithm that choose the samples of a weight proof those of \<open>sampler\<close>, unconstrained except where a
  theorem says so, and are instantiated by concrete functions in the witnesses. A claim that rests on
  collision resistance has a collision of the hash as the alternative in its conclusion.

  \<^bold>\<open>The theories\<close>, in the order of the code, with the files under \<^verbatim>\<open>src/chia\<close> they model.
  \<^item> \<open>Prelude\<close>: results, exceptions, list access, sized integers (\<^verbatim>\<open>util/ints.py\<close>). \<open>Py_Dict\<close>: dictionaries and
    sorted dictionaries (locale \<open>sorted_dict\<close>). \<open>Py_Float\<close>: true division.
  \<^item> \<open>Streamable\<close> (\<^verbatim>\<open>util/streamable.py\<close>): the wire format (locale \<open>codec\<close>). \<open>Crypto\<close>: the primitives.
    \<open>Blockchain_Format\<close> (\<^verbatim>\<open>types/blockchain_format\<close>): the parts of a block and their hashes. \<open>Full_Block\<close>
    (\<^verbatim>\<open>types/full_block.py\<close>, \<^verbatim>\<open>unfinished_block.py\<close>, \<^verbatim>\<open>spend_bundle.py\<close>). \<open>Weight_Proof_Types\<close>.
  \<^item> \<open>Consensus_Constants\<close>, \<open>Significant_Bits\<close>, \<open>Pot_Iterations\<close>, \<open>Rewards\<close>, \<open>Block_Record\<close>: constants and error
    codes, rounding, iterations and qualities, emission, records and deficits.
  \<^item> \<open>Block_Cache\<close> (\<^verbatim>\<open>util/block_cache.py\<close>, \<^verbatim>\<open>find_fork_point.py\<close>): the records that validation reads; the locales
    \<open>block_chain\<close> (heights decrease, so walks end) and \<open>complete_chain\<close> (every link is present).
  \<^item> \<open>Difficulty_Adjustment\<close>, \<open>Chain_Challenges\<close>, \<open>Sub_Epoch_Summary\<close>, \<open>Validation\<close>, \<open>Header_Validation\<close>
    (\<^verbatim>\<open>consensus/\<close>, under the same names): the next difficulty, challenges and VDF starts, summaries, and
    every numbered check of \<^verbatim>\<open>block_header_validation.py\<close>.
  \<^item> \<open>Merkle_Set\<close>, \<open>Merkle_Proofs\<close> (\<^verbatim>\<open>util/merkle_set.py\<close>), \<open>Block_Roots\<close> (\<^verbatim>\<open>consensus/block_root_validation.py\<close>).
  \<^item> \<open>Conditions\<close>, \<open>Condition_Facts\<close> (\<^verbatim>\<open>full_node/mempool_check_conditions.py\<close>, \<^verbatim>\<open>util/condition_tools.py\<close>,
    \<^verbatim>\<open>consensus/cost_calculator.py\<close>): running a generator, parsing, checking and pricing conditions.
  \<^item> \<open>Lru_Cache\<close> (\<^verbatim>\<open>util/lru_cache.py\<close>, locale \<open>read_cache\<close>), \<open>Coin_Store\<close> (\<^verbatim>\<open>full_node/coin_store.py\<close>) and its
    specification \<open>Coin_Ledger\<close>, a map without a cache.
  \<^item> \<open>Block_Body\<close>, \<open>Body_Facts\<close> (\<^verbatim>\<open>consensus/block_body_validation.py\<close>).
  \<^item> \<open>Mempool\<close>, \<open>Mempool_Order\<close>, \<open>Mempool_Manager\<close>, \<open>Mempool_Facts\<close> (\<^verbatim>\<open>full_node/mempool.py\<close>,
    \<^verbatim>\<open>mempool_manager.py\<close>).
  \<^item> \<open>Block_Store\<close> (\<^verbatim>\<open>full_node/block_store.py\<close>), \<open>Blockchain\<close> (\<^verbatim>\<open>consensus/blockchain.py\<close>), \<open>Pre_Validation\<close>
    (\<^verbatim>\<open>consensus/multiprocess_validation.py\<close>). \<open>Chain_Path\<close>, \<open>Chain_State\<close>, \<open>Chain_Facts\<close>, \<open>Chain_Peak\<close>,
    \<open>Chain_Moves\<close>, \<open>Chain_Receive\<close>, \<open>Chain_Node\<close>, \<open>Pre_Facts\<close> and \<open>Chain_Steps\<close> prove that a node keeps its
    main chain: paths through the store, the effect of their blocks on the coins, the move of the
    peak, each operation, and the node as a transition system (\<open>node_step\<close>, \<open>node_reach\<close>).
  \<^item> \<open>Full_Node_Store\<close> (\<^verbatim>\<open>full_node/full_node_store.py\<close>): candidate and unfinished blocks, finished sub-slots, signage
    points and the caches of what came too early. \<open>Slot_Facts\<close> proves the invariant of the slots over every
    sequence of its operations (\<open>fns_step\<close>, \<open>fns_reach\<close>), \<open>Signage_Facts\<close> that its signage points are the ones
    header validation asks for.
  \<^item> \<open>Weight_Proof_Segments\<close>, \<open>Weight_Proof\<close>, \<open>Weight_Proof_Creation\<close> (\<^verbatim>\<open>full_node/weight_proof.py\<close>): the validation of the
    segments, of the summaries, samples and recent blocks with the fork point, and the creation of a
    proof. \<open>Weight_Proof_Facts\<close> proves what an accepted proof guarantees, \<open>Weight_Proof_Agreement\<close> that both
    sides fit together and that the loops of the creation end.
  \<^item> \<open>Block_Creation\<close> (\<^verbatim>\<open>consensus/block_creation.py\<close>): the foliage, the unfinished block at the signage point and the
    full block at the infusion point. \<open>Creation_Facts\<close> compares each part with what validation expects of it.
  \<^item> \<open>Timelord_State\<close>, \<open>Timelord\<close> (\<^verbatim>\<open>timelord/timelord_state.py\<close>, \<^verbatim>\<open>timelord.py\<close>, \<^verbatim>\<open>timelord_api.py\<close>): the last state of a
    timelord, its schedule of iterations and the messages it makes of finished proofs. \<open>Timelord_Facts\<close> and
    \<open>Timelord_Schedule\<close> prove the state and the schedule consistent, \<open>Timelord_Steps\<close> over every sequence of its
    operations (\<open>tl_step\<close>, \<open>tl_reach\<close>), \<open>Timelord_Agreement\<close> compares its deficits with those of full nodes.
  \<^item> \<open>Sample_Chain\<close>, \<open>Sample_Spends\<close>, \<open>Sample_Body\<close>, \<open>Sample_Mempool\<close>, \<open>Sample_Node\<close>, \<open>Sample_Slots\<close>,
    \<open>Sample_Weight\<close>, \<open>Sample_Creation\<close>, \<open>Sample_Timelord\<close>: concrete chains, bundles, nodes, slots, weight proofs, blocks
    and timelords on which the claims are witnessed.

  \<^bold>\<open>What the claims show.\<close> C1 to C5 say what an accepted header guarantees and that validation ends; C6 and C7
  bound the difficulty and compare the two ways of finding blocks; C8 and C9 concern summaries and forks;
  C10 and C11 the wire format and the hashes; C12 to C14 Merkle sets; C15 and C16 conditions; C17 and C18 the
  coin store, against its ledger; C19 and C20 accepted bodies; C21 to C24 the mempool; C25 to C28 the node:
  its main invariant in every reachable state, what receiving a block does, that a restart restores the
  chain, and that validating a batch ahead leaves no trace; C29 to C31 the tip of the chain: the invariant of
  the slots, what farmers are given, and that the node accepts the signage points that header validation
  accepts; C32 to C35 weight proofs: that the last summary hash binds all summaries and the weight, that the
  recent blocks are a validated chain, where synchronisation starts, and that creator and validator agree;
  C36 and C37 created blocks: that body and header validation accept what the node's own creation of blocks
  produces; C38 to C40 the timelord: that its state and schedule stay consistent, that its messages are right,
  and that it counts deficits as full nodes do.

  The steps of a node carry what the callers of \<^verbatim>\<open>receive_block\<close> guarantee. \<open>block_is_new\<close>: a block whose hash is not in
  memory is not in the database either and is not named as a predecessor there (an orphan dropped from
  memory and sent again would be written again with its old record; a hash that is its own ancestor
  would be a collision). \<open>pre_ok\<close>: a result handed in comes from validating this block ahead, which C28
  shows the batch does. \<open>fork_given\<close>: a fork height handed in is the height of a fork of the two
  branches, as the synchronisation code computes it from the height index. \<open>slots_given\<close>: the two sub-slots
  handed to \<open>fns_new_peak\<close> follow each other, as \<^verbatim>\<open>get_sp_and_ip_sub_slots\<close> finds them in the block.
  \<open>slot_of_peak\<close>: the slot a signage point names is the one the peak lies in, and its first block is in memory.
  \<open>summary_ok\<close>: the sub-epoch summaries sent to a timelord set sub-slot iterations that the signage points divide.
  The steps of a timelord are its messages and the parts of a round of its main loop in any order, which
  includes every interleaving that its lock allows.

  \<^bold>\<open>Not modelled.\<close> Networking, the services and their event loops, the wallet, the farmer and harvester
  processes, RPC and the command line, and of the timelord the sockets and assignment of its VDF clients, its
  restart times and the bluebox mode: they are asynchronous input and output around the
  core. Log calls, JSON conversion, the database files with their indices, commits and transactions, and
  process pools are left out everywhere, and with them the \<^verbatim>\<open>except\<close> branch of \<^verbatim>\<open>receive_block\<close>: an
  exception ends the run. Batches of header blocks, which only wallets validate, and the compression of
  generators are left out. The directory \<^verbatim>\<open>src/pool_py\<close> holds an older copy of the same package.
\<close>

section \<open>Accepted headers\<close>

text \<open>C1. A block whose header \<^verbatim>\<open>validate_finished_header_block\<close> accepts, recorded by
  \<^verbatim>\<open>block_to_block_record\<close> and added to a complete block cache under a hash not used before, leaves a
  complete cache: keys are header hashes, heights go down by one along every link, and every
  block above height 0 has its previous block.\<close>

theorem accepted_block_keeps_chain:
  assumes "chain_ok s" and "genesis_ok c s"
    and "validate_finished_header_block cr c s b cf d i ses now = Valid r"
    and "block_to_block_record cr c s r (Some b) None = Ok br"
    and "block_records s (header_hash br) = None" and "header_hash br \<noteq> GENESIS_CHALLENGE c"
  shows "chain_ok (add_block_record s br) \<and> genesis_ok c (add_block_record s br)"
  using accepted_block_extends_chain [OF assms] by simp

theorem accepted_block_keeps_chain_witness:
  "chain_ok (add_block_record genesis_cache next_r) \<and>
   genesis_ok DEFAULT_CONSTANTS (add_block_record genesis_cache next_r)"
  using accepted_block_keeps_chain [OF genesis_cache_ok next_accepted next_record]
  by (simp add: next_r_def)

text \<open>C2. An accepted finished block is either the genesis block, with height 0, the starting difficulty
  as its weight and the genesis challenge as its prior hash, or extends a stored block by one in
  height and by the expected difficulty in weight; its required iterations are positive and
  below the signage point interval, and the foliage commits to the reward chain block.\<close>

theorem accepted_block_height_weight:
  assumes "validate_finished_header_block cr c s b cf d i ses now = Valid r"
  shows "1 \<le> r \<and> r < i div NUM_SPS_SUB_SLOT c \<and>
     RewardChainBlock_hash cr (hb_reward_chain_block b) = Ok (reward_block_hash (hb_foliage b)) \<and>
     (if hb_height b = 0
      then hb_weight b = DIFFICULTY_STARTING c \<and> hb_prev_header_hash b = GENESIS_CHALLENGE c
      else \<exists>p. block_records s (hb_prev_header_hash b) = Some p \<and>
             hb_height b = height p + 1 \<and> hb_weight b = weight p + d)"
proof -
  from assms have u: "validate_unfinished_header_block cr c s (unfinished_of b) cf d i False False ses now
      = Valid r"
    and h: "RewardChainBlock_hash cr (hb_reward_chain_block b) = Ok (reward_block_hash (hb_foliage b))"
    by (auto elim: validate_finishedE)
  from u have "1 \<le> r \<and> r < i div NUM_SPS_SUB_SLOT c"
    by (auto elim!: validate_unfinishedE dest: check_proof_of_spaceD)
  with h accepted_height_weight [OF assms] show ?thesis by auto
qed

theorem accepted_block_height_weight_witness:
  "hb_weight next_b = weight genesis_r + 1 \<and> hb_height next_b = height genesis_r + 1"
  using accepted_block_height_weight [OF next_accepted]
  by (simp add: next_b_def hb_height_def hb_weight_def hb_prev_header_hash_def)

text \<open>C3. The total iterations of an accepted header are determined by the previous block: from the
  start of the previous block's sub-slot, plus the rest of that slot and every empty slot if
  slots were finished, plus the position of the infusion point.\<close>

theorem accepted_header_total_iters:
  assumes "validate_unfinished_header_block cr c s hb cf d i False sv ses now = Valid r"
    and "block_records s (uhb_prev_header_hash hb) = Some p"
  shows "\<exists>ip q. calculate_ip_iters c i (rcbu_signage_point_index (uhb_reward_chain_block hb)) r = Ok ip \<and>
     ip_iters c p = Ok q \<and>
     rcbu_total_iters (uhb_reward_chain_block hb)
       = (if uhb_finished_sub_slots hb \<noteq> []
          then total_iters p + (sub_slot_iters p - q)
                 + i * (int (length (uhb_finished_sub_slots hb)) - 1) + ip
          else total_iters p - q + ip)"
  using assms by (elim accepted_total_iters) auto

theorem accepted_header_total_iters_witness:
  "\<exists>ip q. calculate_ip_iters DEFAULT_CONSTANTS 134217728 5 1 = Ok ip \<and>
     ip_iters DEFAULT_CONSTANTS genesis_r = Ok q \<and> 16777217 = 6291457 - q + ip"
  using accepted_header_total_iters [OF next_unfinished]
  by (simp add: unfinished_of_def next_b_def get_unfinished_def)

text \<open>C4. The timestamp of an accepted transaction block is at most the allowed drift past the local
  clock and strictly greater than that of the previous transaction block, which is the nearest
  one on the chain below.\<close>

theorem accepted_header_timestamp:
  assumes ok: "heights_ok s"
    and v: "validate_unfinished_header_block cr c s hb cf d i sk sv ses now = Valid r"
    and f: "uhb_foliage_transaction_block hb = Some f"
    and p: "block_records s (uhb_prev_header_hash hb) = Some p"
  shows "ftb_timestamp f \<le> now + MAX_FUTURE_TIME c \<and>
     (\<exists>q t. ancestor (block_record s) p q \<and> header_hash q = ftb_prev_transaction_block_hash f \<and>
        timestamp q = Some t \<and> t < ftb_timestamp f \<and>
        (\<forall>y. ancestor (block_record s) p y \<and> height q < height y \<longrightarrow> timestamp y = None))"
proof -
  from accepted_prev_transaction_block [OF ok v f p] obtain q where q:
    "ancestor (block_record s) p q" "header_hash q = ftb_prev_transaction_block_hash f"
    "\<forall>y. ancestor (block_record s) p y \<and> height q < height y \<longrightarrow> \<not> is_transaction_block y" by blast
  have "stored (block_record s) q"
    using bc.ancestor_stored [OF q(1) ok] bc.stored_get [OF ok] p by simp
  with accepted_timestamp [OF v f] p q show ?thesis
    by (auto simp: stored_def is_transaction_block_def)
qed

theorem accepted_header_timestamp_witness:
  "(1020::int) \<le> 1000 + MAX_FUTURE_TIME DEFAULT_CONSTANTS"
  using accepted_header_timestamp [OF chain_ok_heights_ok [OF genesis_cache_ok(1)] next_unfinished]
  by (simp add: unfinished_of_def next_b_def)

text \<open>C5. Header validation always ends on a cache whose heights decrease along the links: it returns a
  verdict or raises, whatever the header, and none of its loops over the chain runs forever.\<close>

theorem validation_terminates:
  assumes "heights_ok s"
  shows "validate_finished_header_block cr c s b cf d i ses now \<noteq> Diverge"
  by (rule returnsD [OF returns_validate_finished [OF assms]])

theorem validation_terminates_witness:
  "validate_finished_header_block toy DEFAULT_CONSTANTS genesis_cache genesis_b True 1 1 True 0 \<noteq> Diverge"
  by (rule validation_terminates [OF chain_ok_heights_ok [OF genesis_cache_ok(1)]])

section \<open>Difficulty and sub-slot iterations\<close>

text \<open>C6. The difficulty of a new epoch has at most \<open>SIGNIFICANT_BITS\<close> significant bits, is at least 1, at
  most the maximum factor above the old one, and (truncation loses less than half of a value)
  more than half of the maximum factor below it.\<close>

theorem next_difficulty_bounded:
  assumes ok: "constants_ok c" and d: "next_difficulty_value c s b cur prv = Ok d"
    and pp: "block_record s (prev_hash b) = Ok pp" and old: "1 \<le> weight b - weight pp"
  shows "1 \<le> d \<and> d \<le> DIFFICULTY_CHANGE_MAX_FACTOR c * (weight b - weight pp) \<and>
     weight b - weight pp < 2 * DIFFICULTY_CHANGE_MAX_FACTOR c * d \<and>
     count_significant_bits d \<le> SIGNIFICANT_BITS c"
proof -
  have f: "1 \<le> DIFFICULTY_CHANGE_MAX_FACTOR c" "1 \<le> SIGNIFICANT_BITS c"
    using ok by (simp_all add: constants_ok_def)
  from next_difficulty_value_eq [OF d f(1)] pp old
  have e: "d = truncate_to_significant_bits
      (clamp (max 1 ((weight b - weight pp) div DIFFICULTY_CHANGE_MAX_FACTOR c))
         (DIFFICULTY_CHANGE_MAX_FACTOR c * (weight b - weight pp)) (precise_difficulty c cur prv))
      (SIGNIFICANT_BITS c)" by auto
  have "count_significant_bits d \<le> SIGNIFICANT_BITS c"
    unfolding e by (intro count_truncate_le f(2)) (simp add: clamp_def)
  with clamp_truncate_bounds [OF f old order_refl old e] show ?thesis by simp
qed

theorem next_difficulty_bounded_witness:
  "\<exists>d. next_difficulty_value DEFAULT_CONSTANTS genesis_cache (next_r\<lparr>weight := 1001\<rparr>)
          (next_r\<lparr>weight := 1001\<rparr>) genesis_r = Ok d \<and> 1 \<le> d \<and> d \<le> 3000 \<and> 1000 < 6 * d"
proof -
  have v: "next_difficulty_value DEFAULT_CONSTANTS genesis_cache (next_r\<lparr>weight := 1001\<rparr>)
      (next_r\<lparr>weight := 1001\<rparr>) genesis_r = Ok 936"
  proof -
    have l: "bit_length 937 = 10" by (rule bit_length_unique [of 9, simplified]) simp_all
    have t: "truncate_to_significant_bits 937 8 = 936" by (simp add: truncate_floor l)
    have "count_significant_bits 936 \<le> 8" unfolding t [symmetric] by (rule count_truncate_le) simp_all
    then show ?thesis
      by (simp add: next_difficulty_value_def next_r_def t DEFAULT_CONSTANTS_def)
  qed
  have "DIFFICULTY_CHANGE_MAX_FACTOR DEFAULT_CONSTANTS = 3" by (simp add: DEFAULT_CONSTANTS_def)
  with next_difficulty_bounded [OF DEFAULT_CONSTANTS_ok v, of genesis_r] v show ?thesis
    by (simp add: next_r_def)
qed

text \<open>C7. The fast path of \<^verbatim>\<open>_get_blocks_at_height\<close>, through the height index, and the slow one, back along
  the links, agree: on a complete cache with a consistent index both return the ancestors of the
  block at the requested heights, in order.\<close>

theorem blocks_at_height_are_ancestors:
  assumes "chain_ok s" and "Difficulty_Adjustment.index_ok s" and "stored (block_record s) b"
    and "0 \<le> t" and "t + n - 1 \<le> height b" and "height b < 2 ^ 32"
  shows "\<exists>bs. get_blocks_at_height s b t n = Ok bs \<and> map height bs = [t..t + n - 1] \<and>
     (\<forall>a \<in> set bs. ancestor (block_record s) b a)"
  using get_blocks_at_height_correct [OF assms] by (auto simp: ancestors_at_def)

theorem blocks_at_height_are_ancestors_witness:
  "\<exists>bs. get_blocks_at_height (add_block_record genesis_cache next_r) next_r 0 2 = Ok bs \<and>
     map height bs = [0, 1]"
proof -
  let ?s = "add_block_record genesis_cache next_r"
  have ok: "chain_ok ?s" using accepted_block_extends_chain [OF genesis_cache_ok next_accepted next_record]
    by (simp add: next_r_def)
  have "Difficulty_Adjustment.index_ok ?s" "stored (block_record ?s) next_r" "height next_r = 1"
    by (simp_all add: Difficulty_Adjustment.index_ok_def add_block_record_def genesis_cache_def empty_cache_def
        init_BlockCache_def stored_def block_record_def next_r_def)
  from blocks_at_height_are_ancestors [OF ok this(1,2), of 0 2] this(3)
  obtain bs where "get_blocks_at_height ?s next_r 0 2 = Ok bs" "map height bs = [0..1]" by auto
  moreover have "[0..1] = [0, 1::int]" by (simp add: upto_rec1)
  ultimately show ?thesis by metis
qed

section \<open>Summaries, challenges and forks\<close>

text \<open>C8. Sub-epoch summaries form a hash chain: past the first sub-epochs, a new summary carries the
  hash of the summary in the nearest block below that included one.\<close>

theorem summaries_are_linked:
  assumes "heights_ok s" and "stored (block_record s) b"
    and "make_sub_epoch_summary cr c s h b d i = Ok ses"
    and "1 < (h + MAX_SUB_SLOT_BLOCKS c) div SUB_EPOCH_BLOCKS c"
  shows "ses_new_difficulty ses = d \<and> ses_new_sub_slot_iters ses = i \<and>
     (\<exists>z pses. ancestor (block_record s) b z \<and> sub_epoch_summary_included z = Some pses \<and>
        (\<forall>y. ancestor (block_record s) b y \<and> height z < height y \<longrightarrow> sub_epoch_summary_included y = None) \<and>
        SubEpochSummary_hash cr pses = Ok (prev_subepoch_summary_hash ses) \<and>
        num_blocks_overflow ses = height z mod SUB_EPOCH_BLOCKS c)"
  using make_sub_epoch_summary_links [OF assms(1-3)] assms(4) by simp

theorem summaries_are_linked_witness:
  "\<exists>pses h. SubEpochSummary_hash toy pses = Ok h \<and> h = replicate 32 2"
proof -
  let ?ses = "\<lparr>prev_subepoch_summary_hash = replicate 32 0, reward_chain_hash = replicate 32 0,
      num_blocks_overflow = 0, ses_new_difficulty = None, ses_new_sub_slot_iters = None\<rparr>"
  let ?b = "genesis_r\<lparr>height := 768, sub_epoch_summary_included := Some ?ses\<rparr>"
  let ?s = "add_block_record empty_cache ?b"
  have l: "block_records ?s h = (if h = replicate 32 1 then Some ?b else None)" for h
    by (simp add: add_block_record_def empty_cache_def init_BlockCache_def)
  have ok: "heights_ok ?s" "stored (block_record ?s) ?b" by (simp_all add: heights_ok_def l stored_def)
  have "SubEpochSummary_hash toy ?ses = Ok (replicate 32 2)"
    by (simp add: SubEpochSummary_hash_def SubEpochSummary_type_def SubEpochSummary_val_def toy_hash_defs)
  then have r: "make_sub_epoch_summary toy DEFAULT_CONSTANTS ?s 770 ?b None None =
      Ok \<lparr>prev_subepoch_summary_hash = replicate 32 2, reward_chain_hash = G,
          num_blocks_overflow = 0, ses_new_difficulty = None, ses_new_sub_slot_iters = None\<rparr>"
    by (simp add: make_sub_epoch_summary_def walk.simps py_last_eq)
  from summaries_are_linked [OF ok r] show ?thesis by auto
qed

text \<open>C9. \<^verbatim>\<open>find_fork_point_in_chain\<close> returns, on a complete cache, the height of the highest common
  ancestor of the two blocks, or -1 if they have none.\<close>

theorem fork_point_correct:
  assumes "chain_ok s" and "stored (block_record s) a" and "stored (block_record s) b"
  shows "\<exists>r. find_fork_point_in_chain s a b = Ok r \<and>
     (if r = - 1 then (\<forall>x. \<not> (ancestor (block_record s) a x \<and> ancestor (block_record s) b x))
      else (\<exists>x. ancestor (block_record s) a x \<and> ancestor (block_record s) b x \<and> height x = r \<and>
             (\<forall>y. ancestor (block_record s) a y \<and> ancestor (block_record s) b y \<longrightarrow> height y \<le> r)))"
  using fork_loop_spec [OF assms]
  unfolding find_fork_point_in_chain_def is_fork_point_def common_def conj_assoc .

theorem fork_point_correct_witness:
  "\<exists>r. find_fork_point_in_chain genesis_cache genesis_r genesis_r = Ok r \<and> r = 0"
proof -
  have "stored (block_record genesis_cache) genesis_r" by (simp add: stored_def)
  from fork_point_correct [OF genesis_cache_ok(1) this this] show ?thesis
    by (auto simp: find_fork_point_in_chain_def fork_loop.simps)
qed

section \<open>Rewards, encodings and hashes\<close>


text \<open>C11. The header hash commits to the block: two accepted blocks with the same header hash have the
  same foliage, the same reward chain block and the same transaction foliage, or two of these
  objects are an explicit collision of the hash function.\<close>

theorem header_hash_commits:
  assumes "validate_finished_header_block cr c s a cf d i ses now = Valid r"
    and "validate_finished_header_block cr c s' b cf' d' i' ses' now' = Valid r'"
    and "hb_header_hash cr a = Ok h" and "hb_header_hash cr b = Ok h"
  shows "hb_foliage a = hb_foliage b \<and> hb_reward_chain_block a = hb_reward_chain_block b \<and>
       hb_foliage_transaction_block a = hb_foliage_transaction_block b \<or>
     hash_collision cr Foliage_type (Foliage_val (hb_foliage a)) (Foliage_val (hb_foliage b)) \<or>
     hash_collision cr RewardChainBlock_type (RewardChainBlock_val (hb_reward_chain_block a))
       (RewardChainBlock_val (hb_reward_chain_block b)) \<or>
     hash_collision cr FoliageTransactionBlock_type (FoliageTransactionBlock_val (the (hb_foliage_transaction_block a)))
       (FoliageTransactionBlock_val (the (hb_foliage_transaction_block b)))" (is "?same \<or> ?fol \<or> ?rcb \<or> ?ftb")
proof (rule ccontr)
  assume "\<not> (?same \<or> ?fol \<or> ?rcb \<or> ?ftb)"
  then have differ: "\<not> ?same" and nc: "\<not> ?fol" "\<not> ?rcb" "\<not> ?ftb" by blast+
  have f: "hb_foliage a = hb_foliage b"
    using assms(3,4) nc Foliage_hash_binding [of cr "hb_foliage a" h "hb_foliage b"]
    by (auto simp: hb_header_hash_def)
  note ca = accepted_commits [OF assms(1)] and cb = accepted_commits [OF assms(2)]
  have "hb_reward_chain_block a = hb_reward_chain_block b"
    using ca(1) cb(1) nc RewardChainBlock_hash_binding [of cr "hb_reward_chain_block a" _ "hb_reward_chain_block b"]
    by (auto simp: f)
  moreover have "hb_foliage_transaction_block a = hb_foliage_transaction_block b"
  proof (cases "hb_foliage_transaction_block a")
    case None
    then show ?thesis using ca(3) cb(3) by (simp add: f)
  next
    case (Some x)
    then obtain y where y: "hb_foliage_transaction_block b = Some y"
      using ca(3) cb(3) by (cases "hb_foliage_transaction_block b") (auto simp: f)
    from ca(2) [OF Some] cb(2) [OF y] nc FoliageTransactionBlock_hash_binding [of cr x _ y] show ?thesis
      by (auto simp: f Some y)
  qed
  ultimately show False using f differ by simp
qed

theorem header_hash_commits_witness:
  "hash_collision toy RewardChainBlock_type (RewardChainBlock_val (hb_reward_chain_block genesis_b))
     (RewardChainBlock_val (hb_reward_chain_block twin_b))"
proof -
  have "hb_header_hash toy genesis_b = Ok (replicate 32 1)" "hb_header_hash toy twin_b = Ok (replicate 32 1)"
    by (simp_all add: hb_header_hash_def genesis_hashes twin_differs(2))
  note c = header_hash_commits [OF genesis_accepted twin_accepted this]
  have "\<not> hash_collision toy t v v" for t v by (simp add: hash_collision_def)
  with c twin_differs show ?thesis by simp
qed

section \<open>Merkle sets\<close>

text \<open>C12. Whatever values are added to and removed from an empty Merkle set, in whatever order, no
  operation raises, and the tree holds exactly the values an ordinary set would; two histories that
  leave the same set leave the same root.\<close>

theorem merkle_set_refines_set:
  assumes "digests cr" and "\<forall>p\<in>set ops. length (snd p) = 32"
  shows "\<exists>n. merkle_run cr ops EmptyNode = Ok n \<and> elems n = fold set_op ops {} \<and>
     (\<forall>ops' n'. merkle_run cr ops' EmptyNode = Ok n' \<and> fold set_op ops' {} = fold set_op ops {} \<and>
        (\<forall>p\<in>set ops'. length (snd p) = 32) \<longrightarrow> get_root cr n' = get_root cr n)"
  using merkle_run_canonical [OF assms] .

theorem merkle_set_refines_set_witness:
  "\<exists>n. merkle_run toy [(True, replicate 32 5), (True, replicate 32 6), (False, replicate 32 5)] EmptyNode = Ok n \<and>
     elems n = {replicate 32 6}"
proof -
  have d: "digests toy" by (simp add: digests_def toy_def toy_hash_def)
  have s: "replicate 32 6 \<noteq> replicate 32 (5::byte)" by (simp add: numeral_eq_Suc)
  show ?thesis
    using merkle_set_refines_set [OF d, of "[(True, replicate 32 5), (True, replicate 32 6), (False, replicate 32 5)]"] s
    by (auto simp: insert_Diff_if)
qed

text \<open>C13. A proof that is accepted against the root of a Merkle set tells the truth: inclusion is accepted
  only for members and exclusion only for non-members, unless the finitely many strings hashed in
  the set's tree and in the proof's tree exhibit a collision or a preimage of the blank hash.\<close>

theorem merkle_proofs_sound:
  assumes "digests cr" and "trie cr 0 n" and "get_root cr n = Ok r0"
    and "confirm cr r0 v b expected = Ok True"
    and "\<And>p. deserialize_proof cr b = Ok p \<Longrightarrow> collision_free cr (root_preimages p \<union> root_preimages n)"
  shows "expected \<longleftrightarrow> v \<in> elems n"
  by (rule confirm_sound [OF assms])

theorem merkle_proofs_sound_witness:
  "replicate 32 6 \<notin> elems (TerminalNode (replicate 32 5))"
proof -
  let ?n = "TerminalNode (replicate 32 5)"
  have d: "digests toy" by (simp add: digests_def toy_def toy_hash_def)
  have p: "deserialize_proof toy (1 # replicate 32 5) = Ok ?n"
    by (simp add: deserialize_proof_def deserialize.simps terminal_node_def)
  have r: "get_root toy ?n = Ok (replicate 32 2)"
    by (simp add: get_root_def compress_root_def toy_def toy_hash_def DEFAULT_CONSTANTS_def)
  have ne: "replicate 32 6 \<noteq> replicate 32 (5::byte)" by (simp add: numeral_eq_Suc)
  have c: "confirm toy (replicate 32 2) (replicate 32 6) (1 # replicate 32 5) False = Ok True"
    using ne by (simp add: confirm_def p r is_included_already_hashed_def)
  have f: "collision_free toy (root_preimages q \<union> root_preimages ?n)"
    if "deserialize_proof toy (1 # replicate 32 5) = Ok q" for q
  proof -
    have "q = ?n" using that p by simp
    then show ?thesis
      by (simp add: collision_free_def root_preimages_def toy_def toy_hash_def BLANK_def DEFAULT_CONSTANTS_def
          numeral_eq_Suc)
  qed
  from merkle_proofs_sound [OF d _ r c f] show ?thesis by simp
qed

text \<open>C14. Every Merkle set has a proof for every value: the proof a full node computes is accepted, for
  inclusion if the value is in the set and for exclusion otherwise.\<close>

theorem merkle_proofs_complete:
  assumes "digests cr" and "trie cr 0 n" and "length v = 32"
  shows "\<exists>p r0. is_included_already_hashed n v = Ok (v \<in> elems n, p) \<and> get_root cr n = Ok r0 \<and>
     confirm cr r0 v p (v \<in> elems n) = Ok True"
  by (rule confirm_complete [OF assms])

theorem merkle_proofs_complete_witness:
  "\<exists>p r0. confirm toy r0 (replicate 32 6) p False = Ok True"
proof -
  have d: "digests toy" by (simp add: digests_def toy_def toy_hash_def)
  have "replicate 32 6 \<noteq> replicate 32 (5::byte)" by (simp add: numeral_eq_Suc)
  with merkle_proofs_complete [OF d, of "TerminalNode (replicate 32 5)" "replicate 32 6"] show ?thesis by auto
qed

section \<open>Spends and their conditions\<close>

text \<open>C15. The spends of an accepted generator are well formed: every condition has the arguments its opcode
  asks for, within their ranges; reading the coins they create and the announcements they make never
  raises, and every created coin has a 32-byte puzzle hash, an amount of 64 bits and one of the spent
  coins as its parent.\<close>

theorem accepted_generator_well_formed:
  assumes "get_name_puzzle_conditions cr vm g max_cost cpb safe_mode = Ok r" and "npc_error r = None"
    and "int_casts cr" and "digests cr"
  shows "(\<forall>npc\<in>set (npc_list r). npc_ok cr npc) \<and>
     (\<exists>coins. tx_removals_and_additions cr (Some (npc_list r)) = Ok (map npc_coin_name (npc_list r), coins) \<and>
        (\<forall>c\<in>set coins. coin_ok c \<and> parent_coin_info c \<in> npc_coin_name ` set (npc_list r))) \<and>
     (\<exists>names. coin_announcements_names_for_npc cr (npc_list r) = Ok names) \<and>
     (\<exists>names. puzzle_announcements_names_for_npc cr (npc_list r) = Ok names)"
proof -
  have ok: "\<forall>npc\<in>set (npc_list r). npc_ok cr npc" using accepted_npc_ok [OF assms(1,2)] by blast
  moreover from additions_ok [OF ok assms(3)] have "\<exists>coins. tx_removals_and_additions cr (Some (npc_list r))
      = Ok (map npc_coin_name (npc_list r), coins) \<and>
        (\<forall>c\<in>set coins. coin_ok c \<and> parent_coin_info c \<in> npc_coin_name ` set (npc_list r))"
    by (auto simp: tx_removals_and_additions_def)
  moreover note announcement_names_ok [OF ok assms(4), of CREATE_COIN_ANNOUNCEMENT npc_coin_name]
    announcement_names_ok [OF ok assms(4), of CREATE_PUZZLE_ANNOUNCEMENT npc_puzzle_hash]
  ultimately show ?thesis
    by (simp add: coin_announcements_names_for_npc_def puzzle_announcements_names_for_npc_def)
qed

theorem accepted_generator_well_formed_witness: "npc_ok toy_cr toy_npc"
  using accepted_generator_well_formed [OF toy_accepted _ toy_cr_casts toy_cr_digests] by simp

text \<open>C16. The conditions of a spend from an accepted generator are checked exactly: no error is found if
  and only if every condition is satisfied by the spent coin, the announcements, the height and the
  time. A spend whose other conditions are satisfied becomes valid at some height and time, and
  stays valid from then on: every height and time lock opens and none closes again.\<close>

theorem time_locks_open:
  assumes "get_name_puzzle_conditions cr vm g max_cost cpb safe_mode = Ok r" and "npc_error r = None"
    and "npc \<in> set (npc_list r)" and "digests cr"
  shows "(mempool_check_conditions_dict cr now u cn pn (condition_dict npc) h (Some t) = Ok None \<longleftrightarrow>
       (\<forall>(op, l)\<in>set (npc_conditions npc). \<forall>c\<in>set l. satisfied cr u cn pn h t c)) \<and>
     ((\<forall>(op, l)\<in>set (npc_conditions npc). \<forall>c\<in>set l. time_lock op \<or> satisfied cr u cn pn h t c) \<longrightarrow>
       (\<exists>H T. \<forall>h\<ge>H. \<forall>t\<ge>T.
          mempool_check_conditions_dict cr now u cn pn (condition_dict npc) h (Some t) = Ok None))"
proof -
  have d: "dict_ok cr (condition_dict npc)" "condition_dict npc = npc_conditions npc"
    using accepted_npc_ok [OF assms(1-3)] by (auto simp: npc_ok_def dict_ok_def condition_dict_same)
  obtain name where n: "coin_name cr (cr_coin u) = Ok name" using coin_name_Ok [OF assms(4)] by blast
  show ?thesis
    using check_dict_satisfied [OF d(1) n] locks_open [OF d(1) n] unfolding d(2) by blast
qed

theorem time_locks_open_witness:
  "\<exists>H T. \<forall>h\<ge>H. \<forall>t\<ge>T. mempool_check_conditions_dict toy_cr 0
     \<lparr>cr_coin = \<lparr>parent_coin_info = replicate 32 7, coin_puzzle_hash = replicate 32 8, coin_amount = 5\<rparr>,
      cr_confirmed_block_index = 1, cr_spent_block_index = 0, cr_spent = False, cr_coinbase = False,
      cr_timestamp = 10\<rparr> {} {} (condition_dict toy_npc) h (Some t) = Ok None"
proof (rule mp [OF conjunct2 [OF time_locks_open [OF toy_accepted _ _ toy_cr_digests, where t=0 and h=0]]])
qed (simp_all add: toy_npc_def toy_create_def toy_lock_def satisfied_def time_lock_def)

section \<open>The coin store\<close>

text \<open>C17. From an empty coin store with a cache of any size, every sequence of new blocks, rollbacks and
  lookups gives the lookups, and the exceptions, of a plain map from coin ids to records: the cache
  and its evictions are invisible.\<close>

theorem coin_store_refines_ledger:
  "rbind (store_run cr (create_store k) ops) (\<lambda>(found, s). Ok found) = ledger_run cr Map.empty ops"
  by (rule store_run_ledger [OF create_store_implements])

text \<open>C18. Rolling the coin store back to a height undoes every block above it: the records are again those
  from before the blocks, with created coins gone and spent coins unspent.\<close>

theorem rollback_undoes_blocks:
  assumes "store_ok cr s" "settled i (ledger_of s)" "unspent_zero (ledger_of s)" "0 \<le> i"
    and "\<forall>(b, adds, rems)\<in>set bs. i < fb_height b"
    and "rfold (\<lambda>(b, adds, rems) s. new_block cr s b adds rems) bs s = Ok s'"
  shows "\<exists>s''. rollback_to_block cr s' i = Ok s'' \<and> store_ok cr s'' \<and> ledger_of s'' = ledger_of s"
  by (rule rollback_undoes [OF assms])

theorem rollback_undoes_blocks_witness:
  "\<exists>s' s''. new_block body_cr body_store next_full [coin4] [replicate 32 8] = Ok s' \<and>
     rollback_to_block body_cr s' 0 = Ok s'' \<and> ledger_of s'' = ledger_of body_store"
proof -
  obtain s' where s': "new_block body_cr body_store next_full [coin4] [replicate 32 8] = Ok s'"
    using next_full_stored by blast
  have "store_ok body_cr body_store" "settled 0 (ledger_of body_store)" "unspent_zero (ledger_of body_store)"
    using body_store_implements by (auto simp: implements_def settled_def unspent_zero_def new_record_def)
  from rollback_undoes_blocks [OF this, of "[(next_full, [coin4], [replicate 32 8])]" s'] s' show ?thesis
    by (auto simp: next_full_height)
qed

section \<open>Block bodies\<close>

text \<open>C19. In an accepted transaction block no coin is spent twice and no two created coins have the same id,
  the spent coins are worth exactly the created coins plus the declared fees, and the fees cover every
  fee a spend reserves.\<close>

theorem accepted_block_conserves_value:
  assumes "validate_block_body cr vm c blocks gf s peak block h nr fp g = Valid r"
    and "foliage_transaction_block_hash (bb_foliage block) \<noteq> None" and "store_ok cr s"
  shows "\<exists>ti sp spent. bb_transactions_info block = Some ti \<and> body_spends cr c block nr = Valid sp \<and>
     ti_cost ti = bs_cost sp \<and> distinct (bs_removals sp) \<and>
     list_all2 (\<lambda>n coin. coin_name cr coin = Ok n) (bs_removals sp) spent \<and>
     (\<exists>names. rmap (coin_name cr) (bs_additions sp) = Ok names \<and> distinct names) \<and>
     amounts spent = amounts (bs_additions sp) + ti_fees ti \<and>
     (\<exists>reserved. reserve_fees cr uint128 (bs_npcs sp) = Valid reserved \<and> reserved \<le> ti_fees ti)"
  using accepted_body_conserves [OF assms(1,2)] assms(3) by (simp add: implements_def)

theorem accepted_block_conserves_value_witness:
  "\<exists>spent. amounts spent = amounts [coin4] + 1"
proof -
  have st: "store_ok body_cr body_store" using body_store_implements by (simp add: implements_def)
  have h: "foliage_transaction_block_hash (bb_foliage body_b) \<noteq> None" by (simp add: body_b_def)
  obtain s where v: "validate_block_body body_cr toy_vm DEFAULT_CONSTANTS body_blocks (\<lambda>_. Some genesis_full)
     body_store (Some genesis_f) body_b 1 (Some body_result) (Some 0) (\<lambda>_. Ok None) = Valid (Some body_result, s)"
    using body_accepted by blast
  have ti: "bb_transactions_info body_b = Some body_ti" "ti_fees body_ti = 1"
    by (simp_all add: body_b_def body_ti_def)
  from accepted_block_conserves_value [OF v h st] show ?thesis
    unfolding body_spends_eq ti by (auto simp: ti)
qed

text \<open>C20. Every spend of an accepted transaction block is of a coin that exists on the chain the block extends
  and is unspent there: the coin is created in the block, or confirmed at or below the fork point and
  not spent up to it nor in the fork, or created in the fork and not spent in it. Its puzzle hash is
  the revealed one and all its conditions hold.\<close>

theorem accepted_block_spends_unspent:
  assumes "validate_block_body cr vm c blocks gf s peak block h nr fp g = Valid r"
    and "foliage_transaction_block_hash (bb_foliage block) \<noteq> None" and "store_ok cr s"
  shows "\<exists>ftb sp dic fork_h fc prev_height coinbase. bb_foliage_transaction_block block = Some ftb \<and>
     body_spends cr c block nr = Valid sp \<and> fork_height blocks peak block h fp = Ok fork_h \<and>
     coins_since_fork cr vm c gf g block h fork_h = Ok fc \<and>
     expected_reward_coins c blocks ftb h = Ok (prev_height, coinbase) \<and>
     vfold (addition_step cr c) (bs_additions sp @ coinbase) [] = Valid dic \<and>
     (\<forall>npc\<in>set (bs_npcs sp). \<exists>u. coin_name cr (cr_coin u) = Ok (npc_coin_name npc) \<and>
        spendable fork_h dic fc (ledger_of s) (npc_coin_name npc) u \<and>
        coin_puzzle_hash (cr_coin u) = npc_puzzle_hash npc \<and>
        mempool_check_conditions_dict cr 0 u (bs_coin_names sp) (bs_puzzle_names sp) (condition_dict npc)
          prev_height (Some (ftb_timestamp ftb)) = Ok None)"
  using accepted_body_spends [OF assms(1,2)] assms(3) by (simp add: implements_def)

theorem accepted_block_spends_unspent_witness:
  "\<exists>u :: CoinRecord. coin_name body_cr (cr_coin u) = Ok (replicate 32 8) \<and> coin_puzzle_hash (cr_coin u) = replicate 32 8"
proof -
  have st: "store_ok body_cr body_store" using body_store_implements by (simp add: implements_def)
  have h: "foliage_transaction_block_hash (bb_foliage body_b) \<noteq> None" by (simp add: body_b_def)
  obtain s where v: "validate_block_body body_cr toy_vm DEFAULT_CONSTANTS body_blocks (\<lambda>_. Some genesis_full)
     body_store (Some genesis_f) body_b 1 (Some body_result) (Some 0) (\<lambda>_. Ok None) = Valid (Some body_result, s)"
    using body_accepted by blast
  have n: "npc_coin_name body_npc = replicate 32 8" "npc_puzzle_hash body_npc = replicate 32 8"
    by (simp_all add: body_npc_def)
  have "\<exists>sp. body_spends body_cr DEFAULT_CONSTANTS body_b (Some body_result) = Valid sp \<and>
     (\<forall>npc\<in>set (bs_npcs sp). \<exists>u :: CoinRecord. coin_name body_cr (cr_coin u) = Ok (npc_coin_name npc) \<and>
        coin_puzzle_hash (cr_coin u) = npc_puzzle_hash npc)"
    using accepted_block_spends_unspent [OF v h st] by blast
  then have "\<exists>u :: CoinRecord. coin_name body_cr (cr_coin u) = Ok (npc_coin_name body_npc) \<and>
      coin_puzzle_hash (cr_coin u) = npc_puzzle_hash body_npc"
    by (auto simp: body_spends_eq)
  then show ?thesis unfolding n .
qed

section \<open>The mempool\<close>

text \<open>C21. From the start of the node, whatever bundles are submitted and whatever peaks and changes of the chain
  come, the indexes of the mempool agree with its items, no two pending transactions spend or create the
  same coin, and their total cost is the recorded one and within the limit, if running a bundle's
  generator gives what its puzzles give and the created coins have distinct ids.\<close>

theorem mempool_invariant:
  assumes "(mm_step cr vm bin U)\<^sup>*\<^sup>* (new_manager st c) s" and "distinct_ids cr U"
    and "store_ok cr st" and "0 \<le> MAX_BLOCK_COST_CLVM c" and "1 \<le> MEMPOOL_BLOCK_BUFFER c"
  shows "mempool_ok cr vm (mm_mempool s) \<and>
     (\<forall>i\<in>pool_items (mm_mempool s). \<forall>j\<in>pool_items (mm_mempool s).
        i \<noteq> j \<longrightarrow> spent_by cr i \<inter> spent_by cr j = {} \<and> made_by cr vm i \<inter> made_by cr vm j = {}) \<and>
     (\<Sum>i\<in>pool_items (mm_mempool s). mi_cost i) = mp_total_mempool_cost (mm_mempool s) \<and>
     mp_total_mempool_cost (mm_mempool s) \<le> mm_mempool_max_total_cost s"
proof -
  from run_keeps_ok [OF assms(1,2) new_manager_ok [OF assms(3-5)]] have ok: "manager_ok cr vm U s" .
  then have m: "mempool_ok cr vm (mm_mempool s)" "mp_max_size_in_cost (mm_mempool s) = mm_mempool_max_total_cost s"
    by (simp_all add: manager_ok_def)
  note inv = mempool_okD [OF m(1)]
  have "spent_by cr i \<inter> spent_by cr j = {} \<and> made_by cr vm i \<inter> made_by cr vm j = {}"
    if "i \<in> pool_items (mm_mempool s)" "j \<in> pool_items (mm_mempool s)" "i \<noteq> j" for i j
    using index_disjoint [OF inv(3) that] index_disjoint [OF inv(4) that] by blast
  with m inv(7) pool_total [OF m(1)] show ?thesis by simp
qed

theorem mempool_invariant_witness:
  "\<exists>s :: MempoolManager. pool_items (mm_mempool s) = {pay_item} \<and> mempool_ok body_cr pay_vm (mm_mempool s)"
proof -
  obtain s where s: "(mm_step body_cr pay_vm bin0 {coin4})\<^sup>*\<^sup>* (new_manager body_store DEFAULT_CONSTANTS) s"
    "pool_items (mm_mempool s) = {pay_item}"
    using pay_run by blast
  have st: "store_ok body_cr body_store" using body_store_implements by (simp add: implements_def)
  have b: "0 \<le> MAX_BLOCK_COST_CLVM DEFAULT_CONSTANTS" "1 \<le> MEMPOOL_BLOCK_BUFFER DEFAULT_CONSTANTS"
    by (simp_all add: DEFAULT_CONSTANTS_def)
  have d: "distinct_ids body_cr {coin4}" by (simp add: distinct_ids_def)
  from mempool_invariant [OF s(1) d st b] s(2) show ?thesis by blast
qed

text \<open>C22. A transaction enters the mempool only if it could be in the next block: no coin is spent twice or
  created twice, every spent coin is created by the transaction itself or is an unspent coin of the
  chain with the revealed puzzle, its conditions hold at the peak, the spent coins are worth the created
  ones plus the fee, the fee covers what the spends reserve, and the cost is at most half a block's.\<close>

theorem pending_transaction_valid:
  assumes "add_spendbundle cr vm bin now s sb r name vs prog = Ok ((c, SUCCESS, e), s')"
    and "map_of (mp_spends (mm_mempool s)) name = None" and "store_ok cr (mm_coin_store s)"
  shows "\<exists>peak cost fee additions us. mm_peak s = Some peak \<and> c = Some cost \<and> e = None \<and>
     cost \<le> py_int_of_float (limit_cost s) \<and> npc_error r = None \<and>
     additions_for_npc cr (npc_list r) = Ok additions \<and>
     (\<exists>names. rmap (coin_name cr) additions = Ok names \<and> distinct names) \<and>
     distinct (map npc_coin_name (npc_list r)) \<and>
     list_all2 (pending_spend cr now (ledger_of (mm_coin_store s)) peak (npc_list r) additions) (npc_list r) us \<and>
     amounts (map cr_coin us) = amounts additions + fee \<and>
     (\<exists>reserved. reserve_fees cr Ok (npc_list r) = Valid reserved \<and> reserved \<le> fee)"
  by (rule add_success_spends [OF assms(1,2)]) (simp add: implements_def assms(3))

theorem pending_transaction_valid_witness:
  "\<exists>us. list_all2 (pending_spend body_cr 0 (ledger_of body_store) peak_r [body_npc] [coin4]) [body_npc] us \<and>
     amounts (map cr_coin us) \<ge> 4"
proof -
  obtain s where a: "add_spendbundle body_cr pay_vm bin0 0 pay_manager pay_bundle body_result (replicate 32 3) True
     (Some [1, 2, 3]) = Ok ((Some 1936, SUCCESS, None), s)"
    using pay_admitted by blast
  have n: "map_of (mp_spends (mm_mempool pay_manager)) (replicate 32 3) = None" by (simp add: new_mempool_def)
  have st: "store_ok body_cr (mm_coin_store pay_manager)" using body_store_implements by (simp add: implements_def)
  have l: "npc_list body_result = [body_npc]" by (simp add: body_result_def)
  from pending_transaction_valid [OF a n st] obtain fee us reserved where
    "list_all2 (pending_spend body_cr 0 (ledger_of body_store) peak_r [body_npc] [coin4]) [body_npc] us"
    "amounts (map cr_coin us) = amounts [coin4] + fee" "reserve_fees body_cr Ok [body_npc] = Valid reserved" "reserved \<le> fee"
    by (auto simp: l body_result_additions)
  moreover from this(3) have "reserved = 0"
    by (simp add: reserve_fees_def body_npc_def condition_dict_def conditions_of_def)
  ultimately show ?thesis by (intro exI [of _ us]) (simp add: coin4_def)
qed

text \<open>C23. A transaction that enters the mempool pays for what it pushes out: the items that spend a coin with it
  together pay at least 10000 less and less per cost, and every other item that leaves pays strictly less
  per cost than it.\<close>

theorem replacement_pays_more:
  assumes "(mm_step cr vm bin U)\<^sup>*\<^sup>* (new_manager st c) s" and "distinct_ids cr U"
    and "store_ok cr st" and "0 \<le> MAX_BLOCK_COST_CLVM c" and "1 \<le> MEMPOOL_BLOCK_BUFFER c"
    and "results_agree cr vm sb r" and "created_by cr vm sb \<subseteq> U"
    and "add_spendbundle cr vm bin now s sb r name vs prog = Ok ((cost, SUCCESS, e), s')"
    and "map_of (mp_spends (mm_mempool s)) name = None"
  shows "\<exists>i conflicting. mi_name i = name \<and> mi_spend_bundle i = sb \<and> cost = Some (mi_cost i) \<and>
     i \<in> pool_items (mm_mempool s') \<and>
     set conflicting = {j \<in> pool_items (mm_mempool s). spent_by cr j \<inter> spent_by cr i \<noteq> {}} \<and>
     (conflicting = [] \<or> outbids (mi_fee i) (mi_cost i) conflicting) \<and>
     (\<forall>j\<in>pool_items (mm_mempool s) - pool_items (mm_mempool s').
        j \<in> set conflicting \<or> mi_fee j * mi_cost i < mi_fee i * mi_cost j)"
  by (rule pushed_out_pays_less [OF run_keeps_ok [OF assms(1,2) new_manager_ok [OF assms(3-5)]] assms(2,6-9)])

theorem replacement_pays_more_witness:
  "\<exists>(s :: MempoolManager) i. i \<in> pool_items (mm_mempool s) \<and> mi_name i = replicate 32 3 \<and> mi_cost i = 1936"
proof -
  obtain s s' where s: "(mm_step body_cr pay_vm bin0 {coin4})\<^sup>*\<^sup>* (new_manager body_store DEFAULT_CONSTANTS) s"
    "mm_mempool s = new_mempool 550000000000"
    "add_spendbundle body_cr pay_vm bin0 0 s pay_bundle body_result (replicate 32 3) True (Some [1, 2, 3])
       = Ok ((Some 1936, SUCCESS, None), s')"
    using pay_peak_run by blast
  have st: "store_ok body_cr body_store" using body_store_implements by (simp add: implements_def)
  have b: "0 \<le> MAX_BLOCK_COST_CLVM DEFAULT_CONSTANTS" "1 \<le> MEMPOOL_BLOCK_BUFFER DEFAULT_CONSTANTS"
    by (simp_all add: DEFAULT_CONSTANTS_def)
  have d: "distinct_ids body_cr {coin4}" "created_by body_cr pay_vm pay_bundle \<subseteq> {coin4}"
    by (simp_all add: distinct_ids_def pay_created)
  have n: "map_of (mp_spends (mm_mempool s)) (replicate 32 3) = None" by (simp add: s(2) new_mempool_def)
  from replacement_pays_more [OF s(1) d(1) st b pay_agrees d(2) s(3) n] show ?thesis by auto
qed

text \<open>C24. The bundle the mempool offers for a block is a valid and best choice: made of pending transactions,
  within half a block's cost and the largest coin amount in fees, it spends no coin twice and creates no
  coin twice, and no transaction left out has a better rate than one taken.\<close>

theorem block_bundle_valid:
  assumes "(mm_step cr vm bin U)\<^sup>*\<^sup>* (new_manager st c) s" and "distinct_ids cr U"
    and "store_ok cr st" and "0 \<le> MAX_BLOCK_COST_CLVM c" and "1 \<le> MEMPOOL_BLOCK_BUFFER c"
    and "create_bundle_from_mempool cr vm now s h = Ok (Some (agg, adds, rems))"
  shows "\<exists>items as rs. set items \<subseteq> pool_items (mm_mempool s) \<and> agg = sb_aggregate cr (map mi_spend_bundle items) \<and>
     of_int (sum_list (map mi_cost items)) \<le> limit_cost s \<and>
     sum_list (map mi_fee items) \<le> MAX_COIN_AMOUNT (mm_constants s) \<and>
     (\<forall>i\<in>set items. \<forall>j\<in>pool_items (mm_mempool s) - set items. rate j \<le> rate i) \<and>
     sb_additions cr vm agg = Ok as \<and> (\<exists>ns. rmap (coin_name cr) as = Ok ns \<and> distinct ns) \<and>
     rmap (coin_name cr) (sb_removals agg) = Ok rs \<and> distinct rs \<and>
     set adds = set as \<and> set rems = set (sb_removals agg)"
proof -
  from run_keeps_ok [OF assms(1,2) new_manager_ok [OF assms(3-5)]] have "mempool_ok cr vm (mm_mempool s)"
    by (simp add: manager_ok_def)
  from created_bundle [OF this assms(6)] show ?thesis .
qed

theorem block_bundle_valid_witness:
  "\<exists>(s :: MempoolManager) items. set items \<subseteq> pool_items (mm_mempool s) \<and>
     sb_aggregate body_cr [pay_bundle] = sb_aggregate body_cr (map mi_spend_bundle items)"
proof -
  obtain s where s: "(mm_step body_cr pay_vm bin0 {coin4})\<^sup>*\<^sup>* (new_manager body_store DEFAULT_CONSTANTS) s"
    "create_bundle_from_mempool body_cr pay_vm 1800000000 s (replicate 32 1)
       = Ok (Some (sb_aggregate body_cr [pay_bundle], [coin4], [coin5]))"
    using pay_bundle_run by blast
  have st: "store_ok body_cr body_store" using body_store_implements by (simp add: implements_def)
  have b: "0 \<le> MAX_BLOCK_COST_CLVM DEFAULT_CONSTANTS" "1 \<le> MEMPOOL_BLOCK_BUFFER DEFAULT_CONSTANTS"
    by (simp_all add: DEFAULT_CONSTANTS_def)
  have d: "distinct_ids body_cr {coin4}" by (simp add: distinct_ids_def)
  from block_bundle_valid [OF s(1) d st b s(2)] show ?thesis by blast
qed

section \<open>The node\<close>

text \<open>C25. The main invariant of \<^verbatim>\<open>Blockchain\<close>: whatever blocks a node receives and whatever it reads, cleans or
  warms up, validates in batches or restarts, the main chain is a path of stored blocks from height 0 to the peak;
  up to the peak the heights and the summaries in memory are those of the path (above it the source leaves stale
  hashes behind), and no stored block above height 0 is heavier than the peak. The coin store holds exactly the coins
  that the blocks of the path, applied in order, leave: each spends and creates what its generator gives, run with
  the generators of stored blocks of the heights it refers to, under the largest cost limit and in consensus mode
  (\<open>block_spends\<close>), and this run has no error unless two stored blocks of such a height have different generators.
  The evaluator is assumed to behave as documented: a larger limit, or leaving strict mode, does not change the
  result of a run that succeeds.\<close>

theorem node_main_chain:
  assumes "node_reach cr vm c s" and "strict_agrees vm" and "larger_limit_agrees vm"
  shows "case ch_peak_height s of
       None \<Rightarrow> records_of (ch_block_store s) = Map.empty \<and> ledger_of (ch_coin_store s) = Map.empty
     | Some p \<Rightarrow> \<exists>bs es. int (length bs) = p + 1 \<and> is_path (records_of (ch_block_store s)) bs \<and>
         (\<forall>i<length bs. ch_height_to_hash s (int i) = Ok (header_hash (bs ! i))) \<and>
         (\<forall>h. map_of (sub_epoch_summaries (ch_blocks s)) h =
            (if 0 \<le> h \<and> h \<le> p then sub_epoch_summary_included (bs ! nat h) else None)) \<and>
         list_all2 (\<lambda>r e. blocks_of (ch_block_store s) (header_hash r) = Some (fst e) \<and>
            block_spends cr vm (ch_constants s) (known (ch_block_store s)) e) bs es \<and>
         apply_effects cr es Map.empty = Ok (ledger_of (ch_coin_store s)) \<and>
         (\<forall>hh r. records_of (ch_block_store s) hh = Some r \<longrightarrow> height r = 0 \<or> weight r \<le> weight (last bs))"
proof (cases "ch_peak_height s")
  case None
  with node_reach_ok [OF assms(1)] show ?thesis by (simp add: node_ok_def)
next
  case (Some p)
  with node_reach_ok [OF assms(1)] obtain bs es where m: "main_chain cr vm s bs es" "int (length bs) = p + 1"
    by (auto simp: node_ok_def)
  have e: "0 \<le> h \<and> h < int (length bs) \<longleftrightarrow> 0 \<le> h \<and> h \<le> p" for h using m(2) by auto
  have "list_all2 (\<lambda>r e. blocks_of (ch_block_store s) (header_hash r) = Some (fst e) \<and>
      block_spends cr vm (ch_constants s) (known (ch_block_store s)) e) bs es"
    using m(1) block_effect_spends [OF assms(2,3)] unfolding main_chain_def chain_in_def by (auto elim!: list_all2_mono)
  with m(1) [unfolded main_chain_def chain_in_def heaviest_def e] m(2) show ?thesis
    unfolding Some option.case by (intro exI [of _ bs] exI [of _ es]) (simp add: ch_height_to_hash_def)
qed

theorem node_main_chain_witness:
  "\<exists>(s :: Blockchain) b e. ch_peak_height s = Some 0 \<and> is_path (records_of (ch_block_store s)) [b] \<and>
     ch_height_to_hash s 0 = Ok (header_hash b) \<and> blocks_of (ch_block_store s) (header_hash b) = Some (fst e) \<and>
     apply_effects toy [e] Map.empty = Ok (ledger_of (ch_coin_store s))"
proof -
  obtain s where s: "node_reach toy toy_vm DEFAULT_CONSTANTS s" "ch_peak_height s = Some 0" using genesis_node by blast
  have "strict_agrees toy_vm" "larger_limit_agrees toy_vm" by (simp_all add: strict_agrees_def larger_limit_agrees_def)
  from node_main_chain [OF s(1) this] s(2) obtain bs es where bs: "int (length bs) = 1"
    "is_path (records_of (ch_block_store s)) bs" "\<forall>i<length bs. ch_height_to_hash s (int i) = Ok (header_hash (bs ! i))"
    "list_all2 (\<lambda>r e. blocks_of (ch_block_store s) (header_hash r) = Some (fst e) \<and>
       block_spends toy toy_vm (ch_constants s) (known (ch_block_store s)) e) bs es"
    "apply_effects toy es Map.empty = Ok (ledger_of (ch_coin_store s))" by auto
  from bs(1) obtain b where b: "bs = [b]" by (cases bs) auto
  with bs(4) obtain e where "es = [e]" by (auto simp: list_all2_Cons1)
  with b bs s(2) show ?thesis by (intro exI [of _ s] exI [of _ b] exI [of _ e]) simp
qed

text \<open>C26. What \<^verbatim>\<open>receive_block\<close> does: a block is refused, and then only caches change; or the block and its record
  are added to the tables and its record to memory, every other entry staying as it was, and either the
  main chain stays, or the block is heavier than the peak and then the main chain becomes the path to it, which
  agrees with the old one up to the reported fork height.\<close>

theorem received_block_effect:
  assumes "node_reach cr vm c s" and "receive_block cr vm now s block pre fp = Ok ((res, e, f), s')"
    and "pre_ok cr vm (ch_constants s) (known (ch_block_store s)) block pre" and "block_is_new cr s block"
    and "fork_given s block fp"
  shows "node_ok cr vm s' \<and>
     (if res = NEW_PEAK \<or> res = ADDED_AS_ORPHAN then
        \<exists>hh r. fb_header_hash cr block = Ok hh \<and> header_hash r = hh \<and> block_of_record block r \<and>
          records_of (ch_block_store s) hh = None \<and>
          blocks_of (ch_block_store s') = (blocks_of (ch_block_store s))(hh \<mapsto> block) \<and>
          records_of (ch_block_store s') = (records_of (ch_block_store s))(hh \<mapsto> r) \<and>
          block_records (ch_blocks s') = (block_records (ch_blocks s))(hh \<mapsto> r)
      else same_chain cr s s') \<and>
     (if res = NEW_PEAK then
        \<exists>hh g cs es'. fb_header_hash cr block = Ok hh \<and> f = Some g \<and> main_chain cr vm s' cs es' \<and>
          ch_peak_height s' = Some (int (length cs) - 1) \<and> header_hash (last cs) = hh \<and>
          (\<forall>bs es. main_chain cr vm s bs es \<longrightarrow>
             weight (last bs) < weight (last cs) \<and> (\<exists>k. agree_to bs cs k \<and> g = max k 0))
      else if res = ADDED_AS_ORPHAN then
        f = None \<and> ch_peak_height s' = ch_peak_height s \<and> (\<forall>bs es. main_chain cr vm s bs es \<longrightarrow> main_chain cr vm s' bs es)
      else same_chain cr s s')"
proof -
  note e = receive_block_effect [OF assms(2) node_reach_ok [OF assms(1)] assms(3-5)]
  note n = conjunct1 [OF e] and r = conjunct2 [OF e]
  have stored: "if res = NEW_PEAK \<or> res = ADDED_AS_ORPHAN then
        \<exists>hh r. fb_header_hash cr block = Ok hh \<and> header_hash r = hh \<and> block_of_record block r \<and>
          records_of (ch_block_store s) hh = None \<and>
          blocks_of (ch_block_store s') = (blocks_of (ch_block_store s))(hh \<mapsto> block) \<and>
          records_of (ch_block_store s') = (records_of (ch_block_store s))(hh \<mapsto> r) \<and>
          block_records (ch_blocks s') = (block_records (ch_blocks s))(hh \<mapsto> r)
      else same_chain cr s s'"
    using r by (auto simp: stores_block_def new_hash_def split: if_splits)
  show ?thesis
  proof (cases "res = NEW_PEAK")
    case True
    with r obtain hh g where h: "fb_header_hash cr block = Ok hh" "f = Some g" "peak_step cr vm s s' hh (Some g)" by auto
    from h(3) [unfolded peak_step_def option.case(2)] n h(1,2) True stored show ?thesis by (simp only: if_True simp_thms) blast
  next
    case False
    with r n stored show ?thesis by (auto simp: peak_step_def split: if_splits)
  qed
qed

theorem received_block_effect_witness:
  "\<exists>(s :: Blockchain) cs es'. main_chain toy toy_vm s cs es' \<and> header_hash (last cs) = replicate 32 1 \<and>
     blocks_of (ch_block_store s) (replicate 32 1) = Some node_genesis"
proof -
  from genesis_becomes_peak obtain s where
    "receive_block toy toy_vm 1000 node0 node_genesis None None = Ok ((NEW_PEAK, None, Some 0), s)" by blast
  from received_block_effect [OF node0_reached this genesis_hypotheses] node_genesis_hash obtain cs es' where
    "main_chain toy toy_vm s cs es'" "header_hash (last cs) = replicate 32 1"
    "blocks_of (ch_block_store s) (replicate 32 1) = Some node_genesis" by auto
  then show ?thesis by blast
qed

text \<open>C27. A restart restores the node: opening the database of a node in any reachable state succeeds, with empty
  caches, and gives the same peak, main chain, heights, summaries and coins.\<close>

theorem restart_restores_chain:
  assumes "node_reach cr vm c s" and "0 \<le> n" and "0 \<le> BLOCKS_CACHE_SIZE (ch_constants s)"
  shows "\<exists>s'. create_blockchain (reopen_coins n (ch_coin_store s)) (reopen_blocks (ch_block_store s)) (ch_constants s) = Ok s' \<and>
     node_ok cr vm s' \<and> ch_peak_height s' = ch_peak_height s \<and>
     (\<forall>bs es. main_chain cr vm s bs es \<longrightarrow> main_chain cr vm s' bs es)"
  by (rule restart_ok [OF node_reach_ok [OF assms(1)] assms(2,3)])

theorem restart_restores_chain_witness:
  "\<exists>(s :: Blockchain) s'. create_blockchain (reopen_coins 5 (ch_coin_store s)) (reopen_blocks (ch_block_store s)) (ch_constants s) = Ok s' \<and>
     ch_peak_height s' = Some 0"
proof -
  obtain s where s: "node_reach toy toy_vm DEFAULT_CONSTANTS s" "ch_peak_height s = Some 0" "ch_constants s = DEFAULT_CONSTANTS"
    using genesis_node by blast
  have "0 \<le> BLOCKS_CACHE_SIZE (ch_constants s)" by (simp add: s(3) DEFAULT_CONSTANTS_def)
  from restart_restores_chain [OF s(1) _ this, of 5] s(2) show ?thesis by auto
qed



section \<open>The tip of the chain\<close>

text \<open>C29. Whatever slot ends, signage points and peaks a \<^verbatim>\<open>FullNodeStore\<close> receives, its finished sub-slots follow each
  other without a gap, only the first can be the genesis slot, every slot has room for all its signage points,
  and a signage point is only ever filed under the slot its challenge names.\<close>

theorem tip_invariant:
  assumes "fns_reach cr c s"
  shows "finished_sub_slots s \<noteq> [] \<and>
     (\<forall>i<length (finished_sub_slots s). case finished_sub_slots s ! i of (slot, sps, start) \<Rightarrow>
        length sps = nat (NUM_SPS_SUB_SLOT c) \<and> (slot = None \<longrightarrow> i = 0 \<and> start = 0) \<and>
        (0 < i \<longrightarrow> slot_cc_hash cr c (fst (finished_sub_slots s ! (i - 1))) = Ok (eos_challenge (the slot))) \<and>
        (\<forall>j<length sps. \<forall>sp. sps ! j = Some sp \<longrightarrow>
           0 < j \<and> (\<exists>v. sp_cc_vdf sp = Some v \<and> slot_cc_hash cr c slot = Ok (vdf_challenge v))))"
proof -
  note s = fns_okD [OF fns_reach_ok [OF assms]]
  show ?thesis
  proof (intro conjI allI impI)
    fix i assume i: "i < length (finished_sub_slots s)"
    obtain slot sps start where e: "finished_sub_slots s ! i = (slot, sps, start)" by (cases "finished_sub_slots s ! i")
    have f: "follows cr c (finished_sub_slots s ! (i - 1)) (slot, sps, start)" if "0 < i"
      using s(4) i that e unfolding successively_conv_nth by (metis Suc_pred')
    from s(3) [OF nth_mem [OF i]] f show "case finished_sub_slots s ! i of (slot, sps, start) \<Rightarrow>
        length sps = nat (NUM_SPS_SUB_SLOT c) \<and> (slot = None \<longrightarrow> i = 0 \<and> start = 0) \<and>
        (0 < i \<longrightarrow> slot_cc_hash cr c (fst (finished_sub_slots s ! (i - 1))) = Ok (eos_challenge (the slot))) \<and>
        (\<forall>j<length sps. \<forall>sp. sps ! j = Some sp \<longrightarrow>
           0 < j \<and> (\<exists>v. sp_cc_vdf sp = Some v \<and> slot_cc_hash cr c slot = Ok (vdf_challenge v)))"
      by (auto simp: e entry_ok_def follows_def sp_ok_def)
  qed (rule s(2))
qed

theorem tip_invariant_witness:
  "\<exists>s :: FullNodeStore. finished_sub_slots s = [(None, no_sps DEFAULT_CONSTANTS, 0), (Some empty_eos, no_sps DEFAULT_CONSTANTS, 134217728)] \<and>
     slot_cc_hash toy DEFAULT_CONSTANTS None = Ok (eos_challenge empty_eos)"
proof -
  from empty_eos_added obtain s where
    s: "new_finished_sub_slot toy 0 slot_store empty_eos genesis_cache None None = Ok (Some [], s)"
      "finished_sub_slots s = [(None, no_sps DEFAULT_CONSTANTS, 0), (Some empty_eos, no_sps DEFAULT_CONSTANTS, 134217728)]" by blast
  have "1 < length (finished_sub_slots s)" by (simp add: s(2))
  from conjunct2 [OF tip_invariant [OF fns_reach.step [OF slot_store_reached fns_step.slot_end [OF s(1)]]], rule_format, OF this]
  have "slot_cc_hash toy DEFAULT_CONSTANTS None = Ok (eos_challenge empty_eos)" unfolding s(2) by simp
  with s(2) show ?thesis by blast
qed



text \<open>C31. The node and header validation agree on signage points: one that \<^verbatim>\<open>new_signage_point\<close> accepts in the slot of
  the peak is found again under its index, and a block on the peak that carries it passes both signage point
  checks of \<^verbatim>\<open>validate_unfinished_header_block\<close>, unless a block was infused exactly at it. The block may be in
  the slot of the peak and finish no slot (and the signage point does not overflow), or the signage point overflows
  and the block finishes just that slot. Signage points of later slots, which hang on no block, are not covered.\<close>

theorem signage_points_agree:
  assumes "heights_ok blocks" and "stored (block_record blocks) p" and "0 \<le> index"
    and "new_signage_point cr now s index blocks (Some p) next_ssi sp False = Ok (True, s')"
    and "sp_cc_vdf sp = Some cc_vdf" and "sp_rc_vdf sp = Some rc_vdf"
    and "slot_of_challenge cr (fns_constants s) (vdf_challenge cc_vdf) 0 (finished_sub_slots s) = Ok (Some (i, rc_hash, start))"
    and "slot_of_peak blocks p b start (vdf_challenge cc_vdf) rc_hash"
    and "calculate_sp_iters (fns_constants s) (current_sub_slot_iters (fns_constants s) (Some p)) index = Ok it" and "0 < it"
    and "\<And>y. ancestor (block_record blocks) p y \<Longrightarrow> height b \<le> height y \<Longrightarrow> total_iters y \<noteq> start + it"
    and "rcbu_challenge_chain_sp_vdf (uhb_reward_chain_block hb) = sp_cc_vdf sp"
    and "rcbu_reward_chain_sp_vdf (uhb_reward_chain_block hb) = sp_rc_vdf sp"
    and "uhb_challenge_chain_sp_proof hb = sp_cc_proof sp" and "uhb_reward_chain_sp_proof hb = sp_rc_proof sp"
    and "ClassgroupElement_hash cr (vdf_output rc_vdf) = Ok h"
    and "slots = [] \<and> \<not> ovf \<or> length slots = 1 \<and> ovf"
  shows "get_signage_point_by_index cr s' (vdf_challenge cc_vdf) index (vdf_challenge rc_vdf) = Ok (Some sp) \<and>
     (\<exists>rc cin k. get_signage_point_vdf_info cr (fns_constants s) slots ovf (Some p) blocks (start + it) it
         = Ok (vdf_challenge cc_vdf, rc, cin, get_default_element, k, k) \<and>
       check_cc_sp cr (fns_constants s) hb False it (vdf_challenge cc_vdf) cin k = Valid () \<and>
       check_rc_sp cr (fns_constants s) blocks hb False pos it rc get_default_element k = Valid h)"
  using stored_signage_point_found [OF assms(4,3,5,6)]
    signage_point_passes [OF assms(1,2,4-11) assms(12-15) assms(16,17)] by blast

theorem signage_points_agree_witness:
  "\<exists>s cin k. get_signage_point_by_index toy s G 5 (replicate 32 2) = Ok (Some next_sp) \<and>
     check_cc_sp toy DEFAULT_CONSTANTS (unfinished_of next_b) False 10485760 G cin k = Valid ()"
proof -
  from next_sp_added obtain s where
    s: "new_signage_point toy 0 slot_store 5 genesis_cache (Some genesis_r) 134217728 next_sp False = Ok (True, s)" by blast
  have it: "calculate_sp_iters (fns_constants slot_store) (current_sub_slot_iters (fns_constants slot_store) (Some genesis_r)) 5
      = Ok 10485760"
    by (simp add: calculate_sp_iters_def calculate_sp_interval_iters_def current_sub_slot_iters_def)
  have sl: "slot_of_challenge toy (fns_constants slot_store) (vdf_challenge (vdf_to G 10485760)) 0 (finished_sub_slots slot_store)
      = Ok (Some (0, G, 0))" by (simp add: vdf_to_def slot_cc_hash_def slot_rc_hash_def)
  have st: "stored (block_record genesis_cache) genesis_r" by (simp add: stored_def)
  have b: "slot_of_peak genesis_cache genesis_r genesis_r 0 (vdf_challenge (vdf_to G 10485760)) G"
    using genesis_slot by (simp add: vdf_to_def)
  let ?pos = "\<lparr>pos_prev_b = Some genesis_r, pos_overflow = False, pos_skip = False, slots_since_prev = 0,
      pos_height = 1, can_finish_se = False, can_finish_epoch = False\<rparr>"
  note a = signage_points_agree [OF chain_ok_heights_ok [OF genesis_cache_ok(1)] st _ s next_sp_carried(5,6) sl b it _ _
      next_sp_carried(1-4,7)]
  from a [where pos = ?pos and slots = "[]" and ovf = False] show ?thesis by (auto simp: genesis_ancestor next_sp_carried(8))
qed

section \<open>Weight proofs\<close>

text \<open>C32. An accepted weight proof cannot lie about the chain's summaries: they are linked by hash from the genesis challenge
  to the hash found in the recent blocks, so two accepted proofs that end in the same hash have the same summaries,
  up to a collision or a summary that hashes to the genesis challenge; and a recent block has exactly the weight
  that the difficulties and lengths of the sub-epochs add up to.\<close>

theorem weight_proof_binds_summaries:
  assumes "validate_weight_proof cr c rs now blocks wp = Ok (True, f, ss)"
    and "validate_weight_proof cr c rs' now' blocks' wp' = Ok (True, f', ss')"
    and "get_last_ses_hash c (recent_chain_data wp) = Ok (Some (h, k))"
    and "get_last_ses_hash c (recent_chain_data wp') = Ok (Some (h, k'))"
  shows "linked_summaries cr (GENESIS_CHALLENGE c) ss \<and> SubEpochSummary_hash cr (last ss) = Ok h \<and>
     map create_sub_epoch_data ss = sub_epochs wp \<and>
     (\<exists>b\<in>set (recent_chain_data wp).
        hb_height b = (int (length ss) - 1) * SUB_EPOCH_BLOCKS c + num_blocks_overflow (last ss) - 1 \<and>
        hb_weight b = summaries_weight (SUB_EPOCH_BLOCKS c) True ss (DIFFICULTY_STARTING c)) \<and>
     (ss = ss' \<or> (\<exists>x y. hash_collision cr SubEpochSummary_type (SubEpochSummary_val x) (SubEpochSummary_val y)) \<or>
      (\<exists>s\<in>set ss \<union> set ss'. SubEpochSummary_hash cr s = Ok (GENESIS_CHALLENGE c)))"
proof -
  from accepted_weight_proofE [OF assms(1)] obtain ws where
    1: "validate_sub_epoch_summaries cr c wp = Ok (Some (ss, ws))" by blast
  from accepted_weight_proofE [OF assms(2)] obtain ws' where
    2: "validate_sub_epoch_summaries cr c wp' = Ok (Some (ss', ws'))" by blast
  from accepted_summaries [OF 2] assms(4) have 2: "linked_summaries cr (GENESIS_CHALLENGE c) ss'"
    "end_hash cr (GENESIS_CHALLENGE c) ss' = Ok h" by auto
  from accepted_summaries [OF 1] assms(3) obtain b where 1: "linked_summaries cr (GENESIS_CHALLENGE c) ss" "ss \<noteq> []"
    "end_hash cr (GENESIS_CHALLENGE c) ss = Ok h" "map create_sub_epoch_data ss = sub_epochs wp"
    "b \<in> set (recent_chain_data wp)"
    "hb_height b = (int (length ss) - 1) * SUB_EPOCH_BLOCKS c + num_blocks_overflow (last ss) - 1"
    "hb_weight b = summaries_weight (SUB_EPOCH_BLOCKS c) True ss (DIFFICULTY_STARTING c)" by auto
  from linked_summaries_binding [OF 1(1) 2(1) 1(3) 2(2)] 1 show ?thesis by (auto simp: end_hash_def)
qed

theorem weight_proof_binds_summaries_witness:
  "linked_summaries toy G sample_summaries \<and>
   (\<exists>b\<in>set (recent_chain_data sample_proof). hb_height b = 768 \<and> hb_weight b = 1924)"
  using weight_proof_binds_summaries [OF sample_proof_accepted sample_proof_accepted sample_summaries_accepted(2)
      sample_summaries_accepted(2)] by simp

text \<open>C33. The tip of an accepted weight proof is a validated chain: from a block on with more than two blocks with finished
  slots and more than eleven transaction blocks before it, every one of the last hundred passed header
  validation, so it commits to its reward chain block, and, unless it claims height 0, it extends an earlier block of
  the proof by one in height and by the difficulty that the summaries and slots announce in weight. A block that
  claims height 0 extends no block: it carries the genesis challenge as its previous hash and the starting
  difficulty as its weight. Every summary that a slot names is the next one of the proof.\<close>

theorem recent_blocks_validated:
  assumes "validate_recent_blocks cr c now bs ss = Ok True" and "i < length bs"
  shows "(enough_before (take i bs) \<and> hb_height (last bs) - hb_height (bs ! i) < 100 \<longrightarrow>
       RewardChainBlock_hash cr (hb_reward_chain_block (bs ! i)) = Ok (reward_block_hash (hb_foliage (bs ! i))) \<and>
       (if hb_height (bs ! i) = 0
        then hb_weight (bs ! i) = DIFFICULTY_STARTING c \<and> hb_prev_header_hash (bs ! i) = GENESIS_CHALLENGE c
        else \<exists>j<i. hb_header_hash cr (bs ! j) = Ok (hb_prev_header_hash (bs ! i)) \<and>
               hb_height (bs ! i) = hb_height (bs ! j) + 1 \<and>
               hb_weight (bs ! i) = hb_weight (bs ! j) +
                 diff_after (rs_diff (recent_start c ss bs)) (all_slots (take (Suc i) bs)))) \<and>
     (\<forall>k<length (ses_hashes (hb_finished_sub_slots (bs ! i))). \<exists>s.
        py_nth ss (rs_ses_idx (recent_start c ss bs) + int (length (ses_hashes (all_slots (take i bs))) + k)) = Ok s \<and>
        SubEpochSummary_hash cr s = Ok (ses_hashes (hb_finished_sub_slots (bs ! i)) ! k))"
proof -
  note ok = validated_recent_blocks [OF assms, unfolded recent_ok_def]
  have "RewardChainBlock_hash cr (hb_reward_chain_block (bs ! i)) = Ok (reward_block_hash (hb_foliage (bs ! i))) \<and>
       (if hb_height (bs ! i) = 0
        then hb_weight (bs ! i) = DIFFICULTY_STARTING c \<and> hb_prev_header_hash (bs ! i) = GENESIS_CHALLENGE c
        else \<exists>j<i. hb_header_hash cr (bs ! j) = Ok (hb_prev_header_hash (bs ! i)) \<and>
               hb_height (bs ! i) = hb_height (bs ! j) + 1 \<and>
               hb_weight (bs ! i) = hb_weight (bs ! j) +
                 diff_after (rs_diff (recent_start c ss bs)) (all_slots (take (Suc i) bs)))"
    if "enough_before (take i bs)" "hb_height (last bs) - hb_height (bs ! i) < 100"
  proof -
    from ok that obtain s d ses r where s: "cached_from cr (take i bs) s"
      and v: "validate_finished_header_block cr c s (bs ! i) False
                (diff_after (rs_diff (recent_start c ss bs)) (all_slots (take (Suc i) bs))) d ses now = Valid r"
      using assms(2) by (auto simp: take_Suc_conv_app_nth)
    have "\<exists>j<i. hb_header_hash cr (bs ! j) = Ok (hb_prev_header_hash (bs ! i)) \<and> height p = hb_height (bs ! j) \<and>
        weight p = hb_weight (bs ! j)" if "block_records s (hb_prev_header_hash (bs ! i)) = Some p" for p
      using s that assms(2) unfolding cached_from_def by (fastforce simp: in_set_conv_nth)
    with accepted_height_weight [OF v] accepted_commits(1) [OF v] show ?thesis by fastforce
  qed
  with ok show ?thesis by blast
qed

theorem recent_blocks_validated_witness:
  "\<exists>j<18. hb_header_hash toy (long_chain ! j) = Ok (hb_prev_header_hash late_b) \<and> hb_height (long_chain ! j) = 0 \<and>
     hb_weight late_b = hb_weight (long_chain ! j) +
       diff_after (rs_diff (recent_start DEFAULT_CONSTANTS [] long_chain)) (all_slots long_chain)"
proof -
  have b: "long_chain ! 18 = late_b" "last long_chain = late_b" "18 < length long_chain" "hb_height late_b = 1"
    "take 19 long_chain = long_chain"
    by (simp_all add: long_chain_def nth_append late_b_def next_b_def hb_height_def)
  have "take 18 long_chain = [sample_block 0 1 [empty_eos], sample_block 0 1 [empty_eos]] @
      replicate 15 (sample_block 0 1 []) @ [sample_block 0 1 [empty_eos]]"
    by (simp add: long_chain_def)
  then have "enough_before (take 18 long_chain)" by (simp add: enough_before_def)
  with recent_blocks_validated [OF long_chain_validated b(3), THEN conjunct1] show ?thesis by (auto simp: b)
qed

text \<open>C34. The fork point of a weight proof is safe and sharp: with \<open>n\<close> the number of leading summaries that the local chain and
  the proof share, as far as both go, it is the height of the local summary three before the end of the shared
  part, or 0, so that synchronisation starts below every difference.\<close>

theorem weight_proof_fork_point:
  assumes "get_fork_point cr blocks received = Ok f" and "received \<noteq> []"
  shows "\<exists>n. n < length received \<and> n \<le> length (get_ses_heights blocks) \<and>
     (\<forall>i<n. same_summary cr blocks received i) \<and>
     (n = length (get_ses_heights blocks) \<or> n = length received - 1 \<or> \<not> same_summary cr blocks received n) \<and>
     f = (if n > 3 then get_ses_heights blocks ! (n - 3) else 0)"
proof -
  from assms(1) obtain k where k: "fork_point_index cr blocks received 0 (get_ses_heights blocks) (0 - 1) = Ok k"
    and f: "(if k > 2 then py_nth (get_ses_heights blocks) (int k - 2) else Ok 0) = Ok f"
    by (auto simp: get_fork_point_def Let_def)
  from fork_point_index_common [OF k, of "[]"] assms(2) obtain n where n: "k = n - 1" "n < length received"
    "n \<le> length (get_ses_heights blocks)" "\<forall>i<n. same_summary cr blocks received i"
    "n = length (get_ses_heights blocks) \<or> n = length received - 1 \<or> \<not> same_summary cr blocks received n" by auto
  have "f = (if n > 3 then get_ses_heights blocks ! (n - 3) else 0)"
  proof (cases "n > 3")
    case True
    then have j: "int k - 2 = int (n - 3)" "k > 2" using n(1) by simp_all
    from f have "py_nth (get_ses_heights blocks) (int (n - 3)) = Ok f" unfolding j(1) [symmetric] using j(2) by simp
    then show ?thesis unfolding py_nth_nat using True by (simp split: if_splits)
  next
    case False
    with f n(1) show ?thesis by (simp split: if_splits)
  qed
  with n show ?thesis by blast
qed

theorem weight_proof_fork_point_witness:
  "\<exists>n. \<not> n \<le> 3 \<and> 768 = get_ses_heights fork_cache ! (n - 3) \<and> (\<forall>i<n. same_summary toy fork_cache fork_received i)"
proof -
  from weight_proof_fork_point [OF fork_found] obtain n where "\<forall>i<n. same_summary toy fork_cache fork_received i"
    "768 = (if n > 3 then get_ses_heights fork_cache ! (n - 3) else 0)" by (auto simp: fork_received_def)
  then show ?thesis by (auto simp: not_le split: if_splits)
qed

text \<open>C35. What a node sends about its summaries is understood: from the data \<^verbatim>\<open>get_sub_epoch_data\<close> makes of linked
  summaries, \<^verbatim>\<open>_map_sub_epoch_summaries\<close> rebuilds exactly these summaries, without leaving the range of
  \<^verbatim>\<open>uint128\<close>, and both sides seed the choice of the samples with the same summary.\<close>

theorem creator_and_validator_agree:
  assumes "rmap (get_ses blocks) (takeWhile (\<lambda>h. h \<le> tip) (get_ses_heights blocks)) = Ok ss"
    and "linked_summaries cr (GENESIS_CHALLENGE c) ss" and "\<forall>s\<in>set ss. summary_sizes_ok s"
    and "0 \<le> DIFFICULTY_STARTING c" "DIFFICULTY_STARTING c < 2 ^ 64" and "256 \<le> SUB_EPOCH_BLOCKS c" "SUB_EPOCH_BLOCKS c < 2 ^ 32"
    and "int (length ss) < 2 ^ 30" and "get_seed_for_proof cr blocks (get_ses_heights blocks) tip = Ok seed"
  shows "\<exists>data ws. get_sub_epoch_data blocks tip (get_ses_heights blocks) = Ok data \<and>
     map_sub_epoch_summaries cr (SUB_EPOCH_BLOCKS c) (GENESIS_CHALLENGE c) data (DIFFICULTY_STARTING c)
       = Ok (ss, summaries_weight (SUB_EPOCH_BLOCKS c) True ss (DIFFICULTY_STARTING c), ws) \<and>
     rbind (py_nth ss (- 2)) (SubEpochSummary_hash cr) = Ok seed"
  using sub_epoch_data_summaries [of blocks tip "get_ses_heights blocks"] map_create_summaries [OF assms(2-8)]
    seed_of_creator [OF assms(9,1)] assms(1) by auto

theorem creator_and_validator_agree_witness:
  "\<exists>data ws. get_sub_epoch_data fork_cache 1200 (get_ses_heights fork_cache) = Ok data \<and>
     map_sub_epoch_summaries toy 384 G data 1 = Ok (sample_summaries, 1924, ws)"
proof -
  have a: "rmap (get_ses fork_cache) (takeWhile (\<lambda>h. h \<le> 1200) (get_ses_heights fork_cache)) = Ok sample_summaries"
    by (simp add: fork_heights fork_ses)
  have b: "get_seed_for_proof toy fork_cache (get_ses_heights fork_cache) 1200 = Ok (replicate 32 2)"
    by (simp add: get_seed_for_proof_def second_ses_height_def fork_heights fork_ses)
  have c: "linked_summaries toy (GENESIS_CHALLENGE DEFAULT_CONSTANTS) sample_summaries" by simp
  have d: "\<forall>s\<in>set sample_summaries. summary_sizes_ok s" by (simp add: summary_sizes_ok_def)
  from creator_and_validator_agree [OF a c d _ _ _ _ _ b] show ?thesis by auto
qed

section \<open>Created blocks\<close>

text \<open>C36. A transaction block that \<^verbatim>\<open>create_unfinished_block\<close> makes passes checks 2 to 14 of \<^verbatim>\<open>validate_block_body\<close>: its
  transactions info and its transaction foliage are committed to, it claims exactly the reward coins the validator
  computes, it has no generator before the transaction freeze ends, its generator roots are right, its generator
  stays below the cost limit and returns no error, and its cost, its Merkle roots and its filter are those of its
  coins, no two of which are equal. What is left of the validation are checks 15 to 22 (\<open>coin_checks\<close>: the spent
  coins and their amounts, puzzle hashes and conditions, and the aggregated signature), which are not covered.
  Required is what the mempool and the farmer provide: a generator that runs without an error in strict mode and
  creates and spends the coins passed in (validation is given the result of that run), a timestamp after the freeze
  if there is one, distinct coin ids, amounts in range, and referenced generators that are few and below the block.\<close>

theorem created_block_passes_body_checks:
  assumes created: "create_unfinished_block cr vm random_of c start ssi sp_index sp_it ip_it pos challenge farmer_ph
      pool_tgt plot_sig pool_sig signage_point ts blocks seed gen agg (Some adds) (Some rems) prev slots
      = Ok (ub, adds')"
    and tx: "ub_foliage_transaction_block ub = Some ftb"
    and chain: "heights_ok blocks" "case prev of None \<Rightarrow> h = 0 | Some p \<Rightarrow> stored (block_record blocks) p \<and> h = height p + 1"
    and halves: "take 16 (GENESIS_CHALLENGE c) \<noteq> drop 16 (GENESIS_CHALLENGE c)"
    and run: "rmap (coin_name cr) rems = Ok removed" "creator_run cr vm c gen adds removed npc" "distinct removed"
    and laws: "digests cr" "0 \<le> COST_PER_BYTE c" "MAX_BLOCK_COST_CLVM c < 2 ^ 64"
    and freeze: "gen \<noteq> None \<longrightarrow> INITIAL_FREEZE_END_TIMESTAMP c < ts"
    and coins: "rmap (coin_name cr) adds' = Ok names" "distinct names"
      "\<forall>x\<in>set adds'. 0 \<le> coin_amount x \<and> coin_amount x \<le> MAX_COIN_AMOUNT c"
    and refs: "\<forall>g. gen = Some g \<longrightarrow> int (length (block_height_list g)) \<le> MAX_GENERATOR_REF_LIST_SIZE c \<and>
         (\<forall>i\<in>set (block_height_list g). i < h)"
  shows "\<exists>ti k ph sp dic. ub_transactions_info ub = Some ti \<and>
     TransactionsInfo_hash cr ti = Ok (transactions_info_hash ftb) \<and>
     FoliageTransactionBlock_hash cr ftb = Ok k \<and> foliage_transaction_block_hash (ub_foliage ub) = Some k \<and>
     expected_reward_coins c blocks ftb h = Ok (ph, ti_reward_claims_incorporated ti) \<and>
     check_reward_claims c ftb ti (ti_reward_claims_incorporated ti) = Valid () \<and>
     (ub_transactions_generator ub \<noteq> None \<longrightarrow> INITIAL_FREEZE_END_TIMESTAMP c < ftb_timestamp ftb) \<and>
     check_generator_root cr c (body_of_unfinished ub) ti h = Valid () \<and>
     body_spends cr c (body_of_unfinished ub) npc = Valid sp \<and>
     check_additions_removals cr c ftb ti (ti_reward_claims_incorporated ti) sp = Valid dic \<and>
     validate_block_body cr vm c blocks lookup store peak (body_of_unfinished ub) h npc fork_point get_gen
       = coin_checks cr vm c blocks lookup store peak (body_of_unfinished ub) h npc fork_point get_gen ftb ti ph sp dic"
proof -
  from created obtain fol where
    f: "create_foliage cr vm random_of c (ub_reward_chain_block ub) gen agg adds rems prev blocks (start + sp_it) ts
       farmer_ph pool_tgt plot_sig pool_sig seed
     = Ok ((ub_foliage ub, ub_foliage_transaction_block ub, ub_transactions_info ub), adds')" and
    g: "ub_transactions_generator ub = map_option bg_program gen"
    "ub_transactions_generator_ref_list ub = (case gen of None \<Rightarrow> [] | Some g \<Rightarrow> block_height_list g)"
    by (elim created_unfinishedE)
  let ?body = "body_of_unfinished ub"
  have body: "bb_own_height ?body = None" "bb_foliage ?body = ub_foliage ub" "bb_foliage_transaction_block ?body = Some ftb"
    "bb_transactions_info ?body = ub_transactions_info ub" "bb_transactions_generator ?body = map_option bg_program gen"
    "bb_transactions_generator_ref_list ?body = (case gen of None \<Rightarrow> [] | Some g \<Rightarrow> block_height_list g)"
    using tx g by (simp_all add: body_of_unfinished_def)
  obtain tb h' ti k where p: "case prev of None \<Rightarrow> tb = None \<and> h' = 0
      | Some p \<Rightarrow> (\<exists>q. get_prev_transaction_block p blocks (start + sp_it) = Ok (True, q) \<and> tb = Some q) \<and>
          h' = height p + 1" and
    t: "ub_transactions_info ub = Some ti"
      "creator_transactions cr vm c blocks h' gen agg adds rems prev tb ts = Ok (ftb, ti, adds')"
      "FoliageTransactionBlock_hash cr ftb = Ok k" "foliage_transaction_block_hash (ub_foliage ub) = Some k"
    using f [unfolded tx] by (elim created_transaction_block)
  have h: "h' = h" and prev: "h > 0 \<Longrightarrow> \<exists>p q. prev = Some p \<and> stored (block_record blocks) p \<and> tb = Some q"
    using p chain(2) by (auto split: option.splits)
  note t = t [unfolded h]
  have ti: "TransactionsInfo_hash cr ti = Ok (transactions_info_hash ftb)" "ftb_timestamp ftb = ts"
    and cost: "creator_cost_fees cr vm c gen adds rems = Ok (ti_cost ti, ti_fees ti)"
    using created_transactions [OF t(2)] by metis+
  obtain sp where sp: "body_spends cr c ?body npc = Valid sp" "bs_cost sp = ti_cost ti" "bs_additions sp = adds"
      "bs_removals sp = removed"
    using created_spends [OF run(2) cost body(5) laws] by blast
  obtain ph where claims: "expected_reward_coins c blocks ftb h = Ok (ph, ti_reward_claims_incorporated ti)"
      "check_reward_claims c ftb ti (ti_reward_claims_incorporated ti) = Valid ()"
    using created_reward_claims [OF t(2) chain(1) halves prev] by blast
  have root: "check_generator_root cr c ?body ti h = Valid ()"
    using refs by (intro created_generator_root [OF t(2) body(5,6)]) auto
  obtain dic where dic: "check_additions_removals cr c ftb ti (ti_reward_claims_incorporated ti) sp = Valid dic"
    using created_additions_removals [OF t(2) sp(2,3) _ _ coins] run(1,3) sp(4) by auto
  have time: "bb_transactions_generator ?body \<noteq> None \<Longrightarrow> INITIAL_FREEZE_END_TIMESTAMP c < ftb_timestamp ftb"
    using freeze ti(2) body(5) by auto
  note reduce = body_reduces_to_coins [OF body(1) _ body(3) _ ti(1) t(3) claims time root sp(1) dic]
  show ?thesis
    using t ti claims root sp(1) dic time reduce [where vm = vm and get_full = lookup and coin_store = store and
        peak = peak and fork_point = fork_point and get_gen = get_gen] g body by auto
qed

theorem created_block_passes_body_checks_witness:
  "\<exists>ub f ti ph sp dic. spent_created = Ok (ub, [coin4, pool_coin0, farmer_coin0]) \<and>
     ub_foliage_transaction_block ub = Some f \<and> ub_transactions_generator ub = Some [1, 2, 3] \<and>
     body_spends body_cr DEFAULT_CONSTANTS (body_of_unfinished ub) (Some lock_result) = Valid sp \<and>
     validate_block_body body_cr toy_vm DEFAULT_CONSTANTS body_blocks (\<lambda>_. Some genesis_full) body_store (Some genesis_f)
       (body_of_unfinished ub) 1 (Some lock_result) (Some 0) (\<lambda>_. Ok None)
     = coin_checks body_cr toy_vm DEFAULT_CONSTANTS body_blocks (\<lambda>_. Some genesis_full) body_store (Some genesis_f)
       (body_of_unfinished ub) 1 (Some lock_result) (Some 0) (\<lambda>_. Ok None) f ti ph sp dic"
proof -
  from spent_block obtain ub f where
    ub: "spent_created = Ok (ub, [coin4, pool_coin0, farmer_coin0])" "ub_foliage_transaction_block ub = Some f"
      "ub_transactions_generator ub = Some [1, 2, 3]" by blast
  have p: "case Some genesis_f of None \<Rightarrow> (1 :: int) = 0
      | Some p \<Rightarrow> stored (block_record body_blocks) p \<and> 1 = height p + 1"
    using body_blocks_ok(2) by (simp add: genesis_f_def)
  have n: "rmap (coin_name body_cr) [coin5] = Ok [replicate 32 8]"
    "rmap (coin_name body_cr) [coin4, pool_coin0, farmer_coin0] = Ok [replicate 32 9, replicate 32 5, replicate 32 6]"
    by (simp_all add: coin_defs)
  have a: "\<forall>x\<in>set [coin4, pool_coin0, farmer_coin0]. 0 \<le> coin_amount x \<and> coin_amount x \<le> MAX_COIN_AMOUNT DEFAULT_CONSTANTS"
    by (simp add: coin_defs)
  have d: "distinct [replicate 32 9, replicate 32 5, replicate 32 (6 :: byte)]" by simp
  have r: "\<forall>g. Some toy_generator = Some g \<longrightarrow>
      int (length (block_height_list g)) \<le> MAX_GENERATOR_REF_LIST_SIZE DEFAULT_CONSTANTS \<and> (\<forall>i\<in>set (block_height_list g). i < 1)"
    by (simp add: toy_generator_def block_height_list_def DEFAULT_CONSTANTS_def)
  from created_block_passes_body_checks [OF ub(1,2) body_blocks_ok(1) p halves_of_G n(1) lock_creator_run _ body_digests _ _ _
      n(2) d a r, where lookup = "\<lambda>_. Some genesis_full" and store = body_store and peak = "Some genesis_f"
      and fork_point = "Some 0" and get_gen = "\<lambda>_. Ok None"] ub
  show ?thesis by auto
qed

text \<open>C37. A block created at its signage point and finished at its infusion point on the same previous block passes the
  checks of header validation on its foliage, its height and its weight: 15 (it is a transaction block exactly if it
  should be), 16 to 18 (signatures of the plot and hash of the unfinished block), 19 and 20 (pool target), 22 to 26
  (presence, hash, previous transaction block, filter and timestamp of the transaction foliage), 27 and 28 (height and
  weight), 32 and 33 (it commits to the finished reward chain block, which says whether it is a transaction block).
  The signers are required to work: the plot's signatures verify, and the pool target is valid and signed by the pool,
  or names the pool contract of the plot, or is the prefarm for a genesis block (\<open>pool_signed\<close>). Required of the
  timestamp, which the caller chooses, are exactly the bounds that check 26 asks for: it is later than that of the
  previous transaction block and not too far in the future.\<close>

theorem finished_block_passes_header_checks:
  assumes created: "create_unfinished_block cr vm random_of c start ssi sp_index sp_it ip_it pos challenge farmer_ph
      pool_tgt plot_sig pool_sig signage_point ts blocks seed gen agg (Some adds) (Some rems) prev slots
      = Ok (ub, adds')"
    and finished: "unfinished_block_to_full_block cr ub cc_vdf cc_proof rc_vdf rc_proof icc_vdf icc_proof new_slots prev
      blocks (start + sp_it) difficulty = Ok b"
    and header: "rmap (coin_name cr) rems = Ok names" "get_block_header cr b adds names = Ok hb"
    and chain: "heights_ok blocks" "\<forall>p. prev = Some p \<longrightarrow> stored (block_record blocks) p"
    and halves: "take 16 (GENESIS_CHALLENGE c) \<noteq> drop 16 (GENESIS_CHALLENGE c)"
    and signer: "\<forall>m. aug_verify cr (plot_public_key pos) m (plot_sig m (plot_public_key pos))"
      "pool_signed cr c pos farmer_ph pool_tgt pool_sig ps"
    and time: "ts \<le> now + MAX_FUTURE_TIME c" "\<forall>p tb t. prev = Some p \<and>
        walk (block_record blocks) (\<lambda>b. \<not> is_transaction_block b) p = Ok tb \<and> timestamp tb = Some t \<longrightarrow> t < ts"
    and position: "pos_prev_b ps = prev" "pos_overflow ps = (sp_it > ip_it)" "spv_sp_iters v = sp_it"
      "spv_ip_iters v = ip_it"
    and start: "prev = None \<longrightarrow> difficulty = DIFFICULTY_STARTING c"
  shows "check_is_transaction_block blocks (hb_foliage hb) ps ssi v (hb_total_iters hb) = Valid () \<and>
     check_foliage_signatures cr (get_unfinished (hb_reward_chain_block hb)) (hb_foliage hb) = Valid () \<and>
     check_pool_target cr c (get_unfinished (hb_reward_chain_block hb)) (foliage_block_data (hb_foliage hb)) ps = Valid () \<and>
     check_foliage_block cr c blocks (unfinished_of hb) True now ps = Valid () \<and>
     check_height_weight c hb prev difficulty = Valid () \<and>
     RewardChainBlock_hash cr (hb_reward_chain_block hb) = Ok (reward_block_hash (hb_foliage hb)) \<and>
     (foliage_transaction_block_hash (hb_foliage hb) \<noteq> None) = rcb_is_transaction_block (hb_reward_chain_block hb)"
proof -
  let ?pk = "plot_public_key pos"
  from created have f: "create_foliage cr vm random_of c (ub_reward_chain_block ub) gen agg adds rems prev blocks
        (start + sp_it) ts farmer_ph pool_tgt plot_sig pool_sig seed
      = Ok ((ub_foliage ub, ub_foliage_transaction_block ub, ub_transactions_info ub), adds')" and
    u: "rcbu_proof_of_space (ub_reward_chain_block ub) = pos"
    "rcbu_total_iters (ub_reward_chain_block ub) = start + ip_it + (if sp_it > ip_it then ssi else 0)" and
    tsp: "0 \<le> start + sp_it" "start + sp_it < 2 ^ 128"
    by (auto elim: created_unfinishedE)
  have "0 \<le> height p" if "prev = Some p" for p using chain that bc.stored_height by blast
  note b = finished_fields [OF f finished this]
  have hb: "hb_foliage hb = fb_foliage b" "hb_foliage_transaction_block hb = fb_foliage_transaction_block b"
    "hb_reward_chain_block hb = fb_reward_chain_block b"
    using header(2) by (auto simp: get_block_header_def Let_def)
  have total: "hb_total_iters hb = start + ip_it + (if sp_it > ip_it then ssi else 0)"
    using arg_cong [OF b(7), of rcbu_total_iters] u(2) by (simp add: hb_total_iters_def hb get_unfinished_def)
  have filt: "hb_transactions_filter hb = bip158_encoded cr (map coin_puzzle_hash adds' @ names)"
    if x: "ub_foliage_transaction_block ub = Some x" for x
  proof -
    obtain tb h ti where p: "case prev of None \<Rightarrow> tb = None \<and> h = 0
      | Some p \<Rightarrow> (\<exists>q. get_prev_transaction_block p blocks (start + sp_it) = Ok (True, q) \<and> tb = Some q) \<and> h = height p + 1" and
      ti: "ub_transactions_info ub = Some ti"
        "creator_transactions cr vm c blocks h gen agg adds rems prev tb ts = Ok (x, ti, adds')"
      using f [unfolded x] by (elim created_transaction_block)
    have "distinct (ti_reward_claims_incorporated ti)"
      using created_reward_claims [OF ti(2) chain(1) halves] p chain(2) by (auto split: option.splits)
    moreover have "adds' = adds @ ti_reward_claims_incorporated ti" by (rule created_transactions [OF ti(2)])
    ultimately show ?thesis using header(2)
      by (auto simp: get_block_header_def get_included_reward_coins_def fb_is_transaction_block_def Let_def b(1,2) x ti(1)
          distinct_remdups_id)
  qed
  have "check_foliage_signatures cr (get_unfinished (hb_reward_chain_block hb)) (hb_foliage hb) = Valid ()"
    using created_signatures [OF f b(3-6)] signer u(1) b(7) by (simp add: hb)
  moreover have "check_pool_target cr c (get_unfinished (hb_reward_chain_block hb)) (foliage_block_data (hb_foliage hb)) ps
      = Valid ()"
    using created_pool_target [OF f, of ps] signer(2) u(1) b(3,7) by (simp add: hb)
  moreover have "check_is_transaction_block blocks (hb_foliage hb) ps ssi v (hb_total_iters hb) = Valid ()"
    using position tsp by (intro created_is_transaction_block [OF f]) (simp_all add: hb b(5,6) total)
  moreover have "check_foliage_block cr c blocks (unfinished_of hb) True now ps = Valid ()"
    using chain time position filt b(1,5,6)
    by (intro created_foliage_block [OF f _ _ _ header(1)]) (auto simp: unfinished_of_def hb)
  moreover have "check_height_weight c hb prev difficulty = Valid ()"
    using b(10-12) start by (auto simp: check_height_weight_def hb hb_height_def hb_weight_def fb_height_def fb_weight_def
        hb_prev_header_hash_def fb_prev_header_hash_def split: option.splits)
  ultimately show ?thesis using b(8,9) by (simp add: hb)
qed

theorem finished_block_passes_header_checks_witness:
  "\<exists>ub b hb. sample_created = Ok (ub, [genesis_pool_coin, genesis_farmer_coin]) \<and> sample_finished ub = Ok b \<and>
     get_block_header toy b [] [] = Ok hb \<and>
     check_pool_target toy DEFAULT_CONSTANTS (get_unfinished (hb_reward_chain_block hb)) (foliage_block_data (hb_foliage hb))
       sample_position = Valid () \<and>
     check_foliage_block toy DEFAULT_CONSTANTS genesis_cache (unfinished_of hb) True 1000 sample_position = Valid () \<and>
     check_height_weight DEFAULT_CONSTANTS hb (Some genesis_r) 1 = Valid ()"
proof -
  from sample_unfinished_block obtain ar where
    ub: "sample_created = Ok (sample_ub ar, [genesis_pool_coin, genesis_farmer_coin])" by blast
  from sample_finished_block obtain b hb where
    b: "sample_finished (sample_ub ar) = Ok b" "get_block_header toy b [] [] = Ok hb" by blast
  have "check_is_transaction_block genesis_cache (hb_foliage hb) sample_position 134217728 sample_sp (hb_total_iters hb)
        = Valid () \<and>
     check_foliage_signatures toy (get_unfinished (hb_reward_chain_block hb)) (hb_foliage hb) = Valid () \<and>
     check_pool_target toy DEFAULT_CONSTANTS (get_unfinished (hb_reward_chain_block hb)) (foliage_block_data (hb_foliage hb))
       sample_position = Valid () \<and>
     check_foliage_block toy DEFAULT_CONSTANTS genesis_cache (unfinished_of hb) True 1000 sample_position = Valid () \<and>
     check_height_weight DEFAULT_CONSTANTS hb (Some genesis_r) 1 = Valid () \<and>
     RewardChainBlock_hash toy (hb_reward_chain_block hb) = Ok (reward_block_hash (hb_foliage hb)) \<and>
     (foliage_transaction_block_hash (hb_foliage hb) \<noteq> None) = rcb_is_transaction_block (hb_reward_chain_block hb)"
    by (rule finished_block_passes_header_checks [OF ub b(1) _ b(2) chain_ok_heights_ok [OF genesis_cache_ok(1)] _
          halves_of_G _ sample_pool_signed])
       (auto simp: stored_def walk.simps sample_position_def sample_sp_def)
  with ub b show ?thesis by blast
qed

section \<open>The timelord\<close>





text \<open>C40. The deficit a timelord gives the next block it infuses, after a peak and any number of sub-slots it has ended
  itself, is the one \<^verbatim>\<open>calculate_deficit\<close> gives that block on a full node from the deficit of the peak and that
  number. Required is that a peak with the full deficit carries no infused challenge chain.\<close>

theorem timelord_deficit_agrees:
  assumes c: "constants_ok c" "1 < MIN_BLOCKS_PER_CHALLENGE_BLOCK c" "ls_constants ls0 = c"
    and peak: "set_peak_state cr ls0 p = Ok ls" "0 \<le> npt_deficit p" "npt_deficit p \<le> MIN_BLOCKS_PER_CHALLENGE_BLOCK c"
      "npt_deficit p = MIN_BLOCKS_PER_CHALLENGE_BLOCK c \<longrightarrow>
         rcb_infused_challenge_chain_ip_vdf (npt_reward_chain_block p) = None"
    and slots: "slots_built cr c ls n ls'" and h: "0 < h"
  shows "new_deficit c ls' ovf = calculate_deficit c h (Some (npt_deficit p)) ovf (int n)"
proof -
  note s = set_peak_state_ok [OF peak(1) c(1) [folded c(3)]]
  show ?thesis
    by (rule new_deficit_agrees [OF s(4,3,7,5) refl _ peak(2,3) c(2) constants_okD(5) [OF c(1)] _ slots h])
       (use s(2) c(3) peak(4) in simp_all)
qed

theorem timelord_deficit_agrees_witness:
  "\<exists>ls ls'. set_peak_state toy (init_LastState DEFAULT_CONSTANTS) sample_peak = Ok ls \<and>
     slots_built toy DEFAULT_CONSTANTS ls 1 ls' \<and> new_deficit DEFAULT_CONSTANTS ls' True = Ok 16 \<and>
     new_deficit DEFAULT_CONSTANTS ls' False = Ok 15"
proof -
  obtain ls ls' where s: "set_peak_state toy (init_LastState DEFAULT_CONSTANTS) sample_peak = Ok ls"
    "slots_built toy DEFAULT_CONSTANTS ls 1 ls'" using sample_slot_built by blast
  have "new_deficit DEFAULT_CONSTANTS ls' ovf
      = calculate_deficit DEFAULT_CONSTANTS 2 (Some (npt_deficit sample_peak)) ovf (int 1)" for ovf
    by (rule timelord_deficit_agrees [OF DEFAULT_CONSTANTS_ok _ _ s(1) _ _ _ s(2)]) (simp_all add: sample_peak_def)
  with s show ?thesis by (auto simp: calculate_deficit_def sample_peak_def)
qed

section \<open>Further facts\<close>

text \<open>Skipping the VDF proofs, as a node that trusts its peers may, never rejects a header the full
  check accepts and gives the same required iterations.\<close>

theorem skipping_vdfs_accepts_more:
  assumes "validate_unfinished_header_block cr c s hb cf d i sk False ses now = Valid r"
  shows "validate_unfinished_header_block cr c s hb cf d i sk True ses now = Valid r"
  by (rule validate_unfinished_skip_vdf [OF assms])

theorem skipping_vdfs_accepts_more_witness:
  "validate_unfinished_header_block toy DEFAULT_CONSTANTS genesis_cache (unfinished_of next_b) True 1
     134217728 False True True 1000 = Valid 1"
  by (rule skipping_vdfs_accepts_more [OF next_unfinished])

text \<open>The computation of the next difficulty and sub-slot iterations always ends on a cache whose
  heights decrease along the links.\<close>

theorem difficulty_terminates:
  assumes "heights_ok s"
  shows "get_next_sub_slot_iters_and_difficulty c first prev_b s \<noteq> Diverge"
  by (rule returnsD [OF returns_get_next_sub_slot_iters_and_difficulty [OF assms]])

theorem difficulty_terminates_witness:
  "get_next_sub_slot_iters_and_difficulty DEFAULT_CONSTANTS True (Some next_r) genesis_cache \<noteq> Diverge"
  by (rule difficulty_terminates [OF chain_ok_heights_ok [OF genesis_cache_ok(1)]])

text \<open>The emission schedule: at every height the pool reward is seven times the farmer reward, and
  the blocks before the tail of the schedule, the pre-farm among them, mint exactly
  201,710,200 + 1,955,231,800 chia.\<close>

theorem emission_schedule:
  "\<exists>p f. (\<forall>h. calculate_pool_reward h = Ok (p h) \<and> calculate_base_farmer_reward h = Ok (f h) \<and>
              p h = 7 * f h) \<and>
     sum (\<lambda>h. p h + f h) {0..<15 * blocks_per_year} = (201710200 + 1955231800) * mojo_per_chia"
proof -
  let ?f = "\<lambda>h. 12500000 * reward_unit h"
  have "block_reward h = Ok (7 * ?f h + ?f h)" for h by (simp add: block_reward_eq)
  from total_emission [OF this] show ?thesis
    by (intro exI [of _ "\<lambda>h. 7 * ?f h"] exI [of _ ?f] conjI allI pool_reward_eq farmer_reward_eq) simp_all
qed

text \<open>What the strict rules of the mempool accept, the consensus rules for blocks accept with the same
  spends and conditions, if the evaluator's strict mode only refuses more.\<close>

theorem strict_mode_accepts_less:
  assumes "strict_agrees vm"
    and "get_name_puzzle_conditions cr vm g max_cost cpb True = Ok r" and "npc_error r = None"
  shows "get_name_puzzle_conditions cr vm g max_cost cpb False = Ok r"
proof -
  have "generator_conditions cr vm g max_cost cpb True = Valid r"
    using assms(2,3)
    by (auto simp: get_name_puzzle_conditions_def failed_result_def split: option.splits sum.splits)
  with generator_modes [OF assms(1), THEN accepts_moreD] show ?thesis
    by (simp add: get_name_puzzle_conditions_def)
qed

theorem strict_mode_accepts_less_witness:
  "get_name_puzzle_conditions toy_cr toy_vm toy_generator 11000000000 12000 False
   = Ok \<lparr>npc_error = None, npc_list = [toy_npc], npc_clvm_cost = 100\<rparr>"
  by (rule strict_mode_accepts_less [OF _ toy_accepted]) (simp_all add: strict_agrees_def)

text \<open>Within one sub-slot, the VDF to a signage point starts at the newest block infused before the
  signage point, with its outputs, or, if no block of the sub-slot is, at the slot's beginning
  with the default element.\<close>

theorem signage_point_vdf_start:
  assumes "heights_ok s" and "stored (block_record s) b"
    and "get_signage_point_vdf_info cr c [] False (Some b) s t sp = Ok (cc, rc, cin, rin, n, m)"
  shows "m = n \<and> rin = get_default_element \<and>
     (\<exists>z. ancestor (block_record s) b z \<and>
       (\<forall>y. ancestor (block_record s) b y \<and> height z < height y \<longrightarrow>
            \<not> first_in_sub_slot y \<and> total_iters y > t) \<and>
       (if total_iters z < t
        then n = t - total_iters z \<and> cin = challenge_vdf_output z \<and> rc = reward_infusion_new_challenge z
        else n = sp \<and> cin = get_default_element \<and>
             (\<exists>hs. finished_reward_slot_hashes z = Some hs \<and> hs \<noteq> [] \<and> rc = last hs)))"
proof -
  from assms(3) have "m = n" "rin = get_default_element" "vdf_info_this_slot s b t sp = Ok (cc, rc, cin, n)"
    by (auto simp: get_signage_point_vdf_info_def)
  with vdf_info_this_slot_start [OF assms(1,2)] show ?thesis by blast
qed

theorem signage_point_vdf_start_witness:
  "\<exists>z. ancestor (block_record genesis_cache) genesis_r z \<and> total_iters z < 10485760"
proof -
  have "get_signage_point_vdf_info toy DEFAULT_CONSTANTS [] False (Some genesis_r) genesis_cache 10485760 10485760
      = Ok (G, replicate 32 2, get_default_element, get_default_element, 4194303, 4194303)"
    by (simp add: get_signage_point_vdf_info_def vdf_info_this_slot_def walk.simps py_last_eq)
  moreover have "stored (block_record genesis_cache) genesis_r" by (simp add: stored_def)
  ultimately show ?thesis
    using signage_point_vdf_start [OF chain_ok_heights_ok [OF genesis_cache_ok(1)]] by fastforce
qed

text \<open>Within a sub-slot, the challenge of a block is the newest finished slot hash of its chain, or the
  second newest for an overflow block whose last slot is complete.\<close>

theorem challenge_is_newest_slot:
  assumes "lineage (block_record s) b bs" and "block_record s p = Ok b"
    and "get_block_challenge cr c [] p s False ovf sk = Ok ch"
  shows "\<exists>i. i = (if ovf \<and> \<not> sk then 1 else 0) \<and> i < length (concat (map slots_of bs)) \<and>
     ch = concat (map slots_of bs) ! i"
  by (rule get_block_challenge_slot [OF assms])

theorem challenge_is_newest_slot_witness:
  "slots_of genesis_r ! 0 = G"
proof -
  have l: "lineage (block_record genesis_cache) genesis_r [genesis_r]" by (rule lineage_genesis) simp
  have "get_block_challenge toy DEFAULT_CONSTANTS [] (replicate 32 1) genesis_cache False False False = Ok G"
    by (simp add: get_block_challenge_def challenges_back.simps py_nth_def)
  from challenge_is_newest_slot [OF l _ this] show ?thesis by simp
qed

text \<open>An accepted header carries a transaction block exactly if its signage point lies past the
  infusion point of the nearest transaction block below it.\<close>

theorem accepted_header_transaction_block:
  assumes "heights_ok s"
    and "validate_unfinished_header_block cr c s hb cf d i False sv ses now = Valid r"
    and "block_records s (uhb_prev_header_hash hb) = Some p"
  shows "\<exists>q ip sp ovf. ancestor (block_record s) p q \<and> is_transaction_block q \<and>
     (\<forall>y. ancestor (block_record s) p y \<and> height q < height y \<longrightarrow> \<not> is_transaction_block y) \<and>
     is_overflow_block c (rcbu_signage_point_index (uhb_reward_chain_block hb)) = Ok ovf \<and>
     calculate_sp_iters c i (rcbu_signage_point_index (uhb_reward_chain_block hb)) = Ok sp \<and>
     calculate_ip_iters c i (rcbu_signage_point_index (uhb_reward_chain_block hb)) r = Ok ip \<and>
     (uhb_foliage_transaction_block hb \<noteq> None \<longleftrightarrow>
        rcbu_total_iters (uhb_reward_chain_block hb) - ip + sp - (if ovf then i else 0) > total_iters q)"
  by (rule accepted_is_transaction_block [OF assms])

theorem accepted_header_transaction_block_witness:
  "\<exists>q. ancestor (block_record genesis_cache) genesis_r q \<and> is_transaction_block q"
  using accepted_header_transaction_block [OF chain_ok_heights_ok [OF genesis_cache_ok(1)] next_unfinished]
  by (auto simp: unfinished_of_def next_b_def)

text \<open>\<^verbatim>\<open>can_finish_sub_and_full_epoch\<close> lets a sub-epoch end after a block only if the deficit is zero,
  the block has not just included a summary, enough blocks exist, and (unless the next height is
  within one of the sub-epoch's first) no block since that first height included a summary; an
  epoch ends then exactly if the next height belongs to the first sub-epoch of an epoch.\<close>

theorem sub_epoch_end_conditions:
  assumes "heights_ok s" and "can_finish_sub_and_full_epoch c s h (Some p) d i = Ok (True, e)"
    and "0 < SUB_EPOCH_BLOCKS c"
  shows "SUB_EPOCH_BLOCKS c - 1 \<le> h \<and> d \<le> 0 \<and> \<not> i \<and>
     e = ((h + 1 - (h + 1) mod SUB_EPOCH_BLOCKS c) mod EPOCH_BLOCKS c = 0) \<and>
     (1 < (h + 1) mod SUB_EPOCH_BLOCKS c \<longrightarrow>
       (\<exists>b z. block_record s p = Ok b \<and> ancestor (block_record s) b z \<and>
          height z mod SUB_EPOCH_BLOCKS c = 0 \<and>
          (\<forall>y. ancestor (block_record s) b y \<and> height z \<le> height y \<longrightarrow>
             sub_epoch_summary_included y = None)))"
  using can_finish_sub_epoch [OF assms] by blast

theorem sub_epoch_end_conditions_witness:
  "\<exists>b z. block_record (add_block_record empty_cache (genesis_r\<lparr>height := 384\<rparr>)) (replicate 32 1) = Ok b \<and>
     ancestor (block_record (add_block_record empty_cache (genesis_r\<lparr>height := 384\<rparr>))) b z \<and>
     height z mod 384 = 0 \<and> sub_epoch_summary_included z = None"
proof -
  let ?s = "add_block_record empty_cache (genesis_r\<lparr>height := 384\<rparr>)"
  have l: "block_records ?s h = (if h = replicate 32 1 then Some (genesis_r\<lparr>height := 384\<rparr>) else None)" for h
    by (simp add: add_block_record_def empty_cache_def init_BlockCache_def)
  have ok: "heights_ok ?s" by (simp add: heights_ok_def l)
  have r: "can_finish_sub_and_full_epoch DEFAULT_CONSTANTS ?s 385 (Some (replicate 32 1)) 0 False = Ok (True, False)"
    by (simp add: can_finish_sub_and_full_epoch_def height_can_be_first_in_epoch_def walk.simps l)
  have "sub_epoch_summary_included z = None" if "ancestor (block_record ?s) b z" "block_record ?s (replicate 32 1) = Ok b" for b z
    using that bc.ancestor_stored [OF that(1) ok] bc.stored_get [OF ok that(2)]
    by (auto simp: stored_def l split: if_splits)
  moreover have "SUB_EPOCH_BLOCKS DEFAULT_CONSTANTS = 384" by simp
  ultimately show ?thesis
    using sub_epoch_end_conditions [OF ok r] by fastforce
qed

text \<open>The record of a block agrees with the block: hash, links, weights and iterations are copied, it
  is a transaction block and first in its slot exactly if the block is, and its overflow flag and
  deficit are those the chain prescribes.\<close>

theorem record_agrees_with_block:
  assumes "block_to_block_record cr c s r (Some b) None = Ok br"
  shows "hb_header_hash cr b = Ok (header_hash br) \<and> prev_hash br = hb_prev_header_hash b \<and>
     height br = hb_height b \<and> weight br = hb_weight b \<and> total_iters br = hb_total_iters b \<and>
     required_iters br = r \<and>
     (is_transaction_block br \<longleftrightarrow> hb_foliage_transaction_block b \<noteq> None) \<and>
     (first_in_sub_slot br \<longleftrightarrow> hb_finished_sub_slots b \<noteq> [] \<or> hb_height b = 0) \<and>
     is_overflow_block c (signage_point_index br) = Ok (overflow br) \<and>
     calculate_deficit c (height br) (map_option deficit (block_records s (prev_hash br))) (overflow br)
       (int (length (hb_finished_sub_slots b))) = Ok (deficit br)"
  using assms
proof (rule block_to_block_record_parts)
  fix block ssi d ses t
  assume a: "(case Some b of None \<Rightarrow> None = Some block | Some b \<Rightarrow> block = b)"
    "is_overflow_block c (rcb_signage_point_index (hb_reward_chain_block block)) = Ok (overflow br)"
    "calculate_deficit c (hb_height block)
       (map_option deficit (block_records s (hb_prev_header_hash block))) (overflow br)
       (int (length (hb_finished_sub_slots block))) = Ok (deficit br)"
    "header_block_to_sub_block_record cr c r block ssi (overflow br) (deficit br) t ses = Ok br"
  from a(1) have "block = b" by simp
  with a(2,3) block_record_agrees [OF a(4)] show ?thesis by simp
qed

theorem record_agrees_with_block_witness:
  "height next_r = hb_height next_b \<and> deficit next_r = 14"
  using record_agrees_with_block [OF next_record] by (simp add: next_r_def)

text \<open>The deficit counts down: after a challenge block, at least \<open>MIN_BLOCKS_PER_CHALLENGE_BLOCK - 1\<close>
  further blocks are needed before the deficit is at its reload value again.\<close>

theorem challenge_blocks_are_spaced:
  assumes "1 < MIN_BLOCKS_PER_CHALLENGE_BLOCK c"
    and "deficits c (MIN_BLOCKS_PER_CHALLENGE_BLOCK c - 1) inputs = Ok ds"
    and "i < length ds" and "MIN_BLOCKS_PER_CHALLENGE_BLOCK c - 1 \<le> ds ! i"
  shows "MIN_BLOCKS_PER_CHALLENGE_BLOCK c - 1 \<le> int i"
  by (rule challenge_block_distance [OF assms])

theorem challenge_blocks_are_spaced_witness:
  "(15::int) \<le> int 15"
proof -
  have d: "deficits DEFAULT_CONSTANTS (MIN_BLOCKS_PER_CHALLENGE_BLOCK DEFAULT_CONSTANTS - 1)
      (replicate 15 (False, 0) @ [(False, 1)]) = Ok [14, 13, 12, 11, 10, 9, 8, 7, 6, 5, 4, 3, 2, 1, 0, 15]"
    by (simp add: numeral_eq_Suc calculate_deficit_def)
  show ?thesis using challenge_blocks_are_spaced [OF _ d, of 15] by simp
qed

text \<open>A generator is accepted only within its budget: the cost that \<^verbatim>\<open>calculate_cost_of_program\<close> finds
  for an accepted result, of the program's bytes, of its execution and of its conditions, is at most
  the given maximum, and its computation does not overflow.\<close>

theorem generator_cost_within_limit:
  assumes "get_name_puzzle_conditions cr vm g max_cost cpb safe_mode = Ok r" and "npc_error r = None"
    and "0 \<le> cpb" and "max_cost < 2 ^ 64"
  shows "\<exists>cost. calculate_cost_of_program (bg_program g) r cpb = Ok cost \<and> cost \<le> max_cost"
  by (rule accepted_cost [OF assms])

theorem generator_cost_within_limit_witness:
  "\<exists>cost. calculate_cost_of_program [1, 2, 3]
     \<lparr>npc_error = None, npc_list = [toy_npc], npc_clvm_cost = 100\<rparr> 12000 = Ok cost \<and> cost \<le> 11000000000"
  using generator_cost_within_limit [OF toy_accepted] by (simp add: toy_generator_def)

text \<open>The verdict on a block's Merkle roots depends on the multiset of created coins and the set of
  spent coin ids only, not on the order in which the generator lists them.\<close>

theorem block_roots_order_irrelevant:
  assumes "digests cr" and "mset xs = mset ys" and "set rs = set ts"
    and "\<forall>c\<in>set xs. length (coin_puzzle_hash c) = 32" and "\<forall>r\<in>set rs. length r = 32"
  shows "validate_block_merkle_roots cr a b (Some xs) (Some rs) = validate_block_merkle_roots cr a b (Some ys) (Some ts)"
  by (rule roots_order_irrelevant [OF assms])

theorem block_roots_order_irrelevant_witness:
  "validate_block_merkle_roots toy BLANK BLANK (Some []) (Some [replicate 32 5, replicate 32 6])
   = validate_block_merkle_roots toy BLANK BLANK (Some []) (Some [replicate 32 6, replicate 32 5])"
proof -
  have d: "digests toy" by (simp add: digests_def toy_def toy_hash_def)
  show ?thesis by (rule block_roots_order_irrelevant [OF d]) auto
qed

text \<open>The sub-slot iterations of a new epoch are a positive multiple of the number of signage points
  per slot, so that every signage point lies on a whole iteration, and at most the maximum
  factor above the old ones.\<close>

theorem next_sub_slot_iters_bounded:
  assumes ok: "constants_ok c" and d: "next_ssi_value c cur prv = Ok d"
    and le: "NUM_SPS_SUB_SLOT c \<le> sub_slot_iters cur"
  shows "NUM_SPS_SUB_SLOT c dvd d \<and> NUM_SPS_SUB_SLOT c \<le> d \<and>
     d \<le> DIFFICULTY_CHANGE_MAX_FACTOR c * sub_slot_iters cur \<and>
     calculate_sp_interval_iters c d = Ok (d div NUM_SPS_SUB_SLOT c)"
proof -
  have f: "1 \<le> DIFFICULTY_CHANGE_MAX_FACTOR c" "1 \<le> SIGNIFICANT_BITS c"
    "NUM_SPS_SUB_SLOT c = 2 ^ (nat_bit_length (nat (NUM_SPS_SUB_SLOT c)) - 1)"
    using ok by (simp_all add: constants_ok_def)
  note b = next_ssi_value_bounds [OF d f le]
  from d have "0 \<le> d \<and> d < 2 ^ 64" by (auto simp: next_ssi_value_def Let_def)
  moreover have "0 < NUM_SPS_SUB_SLOT c" by (subst f(3)) simp
  moreover have "d div NUM_SPS_SUB_SLOT c \<le> d" using calculation by (intro div_factor_le) simp_all
  ultimately show ?thesis using b by (simp add: sp_interval_iters_Ok pos_imp_zdiv_nonneg_iff)
qed

theorem next_sub_slot_iters_bounded_witness:
  "\<exists>d. next_ssi_value DEFAULT_CONSTANTS next_r genesis_r = Ok d \<and> 64 dvd d \<and> 64 \<le> d"
proof -
  have v: "next_ssi_value DEFAULT_CONSTANTS next_r genesis_r = Ok 314572800"
  proof -
    have l: "bit_length 314572800 = 29" by (rule bit_length_unique [of 28, simplified]) simp_all
    have t: "truncate_to_significant_bits 314572800 8 = 314572800" by (simp add: truncate_floor l)
    have "count_significant_bits 314572800 \<le> 8"
      using count_truncate_le [of 314572800 8] by (simp add: t)
    then show ?thesis
      by (simp add: next_ssi_value_def next_r_def t DEFAULT_CONSTANTS_def)
  qed
  show ?thesis
    using next_sub_slot_iters_bounded [OF DEFAULT_CONSTANTS_ok v] v by (simp add: next_r_def)
qed

text \<open>A block that is created with a generator and is not a transaction block keeps the generator, and so fails the
  first check of its body.\<close>

theorem created_block_keeps_generator:
  assumes "create_unfinished_block cr vm random_of c start ssi sp_index sp_it ip_it pos challenge farmer_ph
      pool_tgt plot_sig pool_sig signage_point ts blocks seed (Some gen) agg (Some adds) (Some rems) prev slots
      = Ok (ub, adds')"
    and "ub_foliage_transaction_block ub = None"
  shows "foliage_transaction_block_hash (ub_foliage ub) = None \<and>
     check_no_transactions c blocks (body_of_unfinished ub) = Invalid NOT_BLOCK_BUT_HAS_DATA"
proof -
  from assms(1) have f: "create_foliage cr vm random_of c (ub_reward_chain_block ub) (Some gen) agg adds rems prev blocks
        (start + sp_it) ts farmer_ph pool_tgt plot_sig pool_sig seed
      = Ok ((ub_foliage ub, ub_foliage_transaction_block ub, ub_transactions_info ub), adds')" and
    g: "ub_transactions_generator ub = Some (bg_program gen)"
    by (auto elim: created_unfinishedE)
  show ?thesis
    by (rule created_foliage [OF f])
       (use g assms(2) in \<open>auto simp: check_no_transactions_def body_of_unfinished_def reject_if_def split: if_splits\<close>)
qed

text \<open>The assertions on the number of significant bits at the end of both adjustments never fail,
  whatever the chain holds: on blocks with timestamps neither adjustment raises \<open>AssertionError\<close>.\<close>

theorem adjustment_assertions_hold:
  assumes "constants_ok c" and "timestamp cur \<noteq> None" and "timestamp prv \<noteq> None"
  shows "next_difficulty_value c s b cur prv \<noteq> Raise AssertionError \<and>
     next_ssi_value c cur prv \<noteq> Raise AssertionError"
proof -
  have f: "1 \<le> SIGNIFICANT_BITS c"
    "NUM_SPS_SUB_SLOT c = 2 ^ (nat_bit_length (nat (NUM_SPS_SUB_SLOT c)) - 1)"
    using assms(1) by (simp_all add: constants_ok_def)
  show ?thesis
    using next_difficulty_value_no_assertion [OF assms(2,3) f(1)]
      next_ssi_value_no_assertion [OF assms(2,3) f] by simp
qed

theorem adjustment_assertions_hold_witness:
  "next_ssi_value DEFAULT_CONSTANTS next_r genesis_r \<noteq> Raise AssertionError"
  using adjustment_assertions_hold [OF DEFAULT_CONSTANTS_ok, of next_r genesis_r]
  by (simp add: next_r_def)

text \<open>A block cannot create value: after it, the total amount of the unspent coins is at most what it
  was before plus the reward coins the block includes.\<close>

theorem block_creates_no_value:
  assumes "store_ok cr s" and "new_block cr s block adds rems = Ok s'"
    and "get_included_reward_coins block = Ok rewards"
  shows "store_ok cr s' \<and> coin_supply (ledger_of s') \<le> coin_supply (ledger_of s) + amounts rewards"
  by (rule new_block_supply [OF assms])

theorem block_creates_no_value_witness:
  "\<exists>s'. new_block body_cr body_store next_full [coin4] [replicate 32 8] = Ok s' \<and>
     coin_supply (ledger_of s') \<le> coin_supply (ledger_of body_store) + amounts [pool_coin0, farmer_coin0]"
proof -
  obtain s' where s': "new_block body_cr body_store next_full [coin4] [replicate 32 8] = Ok s'"
    using next_full_stored by blast
  have "store_ok body_cr body_store" using body_store_implements by (simp add: implements_def)
  from block_creates_no_value [OF this s' next_full_rewards] s' show ?thesis by blast
qed

text \<open>The removals root of an accepted block determines the set of coins it spends, unless the
  strings hashed in the two removal trees exhibit a collision.\<close>

theorem block_roots_bind_removals:
  assumes "digests cr"
    and "validate_block_merkle_roots cr ar r0 (Some xs) (Some rs) = Ok None"
    and "validate_block_merkle_roots cr br r0 (Some ys) (Some ts) = Ok None"
    and "\<forall>r\<in>set rs \<union> set ts. length r = 32"
    and "\<And>n m. removal_merkle_set cr rs = Ok n \<Longrightarrow> removal_merkle_set cr ts = Ok m \<Longrightarrow>
        collision_free cr (root_preimages n \<union> root_preimages m)"
  shows "set rs = set ts"
  by (rule roots_bind_removals [OF assms])

theorem block_roots_bind_removals_witness:
  "set [replicate 32 (5::byte)] = set [replicate 32 5, replicate 32 5]"
proof -
  have d: "digests toy" by (simp add: digests_def toy_def toy_hash_def)
  have n: "removal_merkle_set toy [replicate 32 5] = Ok (TerminalNode (replicate 32 5))"
    "removal_merkle_set toy [replicate 32 5, replicate 32 5] = Ok (TerminalNode (replicate 32 5))"
    by (simp_all add: removal_merkle_set_def add_already_hashed_def terminal_node_def)
  have r: "get_root toy (TerminalNode (replicate 32 5)) = Ok (replicate 32 2)" "get_root toy EmptyNode = Ok BLANK"
    by (simp_all add: get_root_def compress_root_def toy_def toy_hash_def DEFAULT_CONSTANTS_def BLANK_def)
  have a: "addition_merkle_set toy [] = Ok EmptyNode"
    by (simp add: addition_merkle_set_def puzzlehash_coins_map_def)
  have "validate_block_merkle_roots toy BLANK (replicate 32 2) (Some []) (Some [replicate 32 5]) = Ok None"
    "validate_block_merkle_roots toy BLANK (replicate 32 2) (Some []) (Some [replicate 32 5, replicate 32 5]) = Ok None"
    by (simp_all add: validate_block_merkle_roots_def n r a)
  from block_roots_bind_removals [OF d this] show ?thesis
    by (simp add: n collision_free_def root_preimages_def toy_def toy_hash_def BLANK_def DEFAULT_CONSTANTS_def
        numeral_eq_Suc)
qed

end
